(* ===== verification/Prelude.thy ===== *)
theory Prelude
  imports Main
begin

text \<open>
  Shared vocabulary of the development: JavaScript strings, decimal rendering of integers,
  the two list shapes every reducer of \<open>src/ui/src/reducers\<close> is written with, and the
  named collections the component theories add to.

  A JavaScript string is a sequence of UTF-16 code units. It is modelled as a list of
  natural numbers, one per code unit, so that \<open>length\<close>, indexing and slicing count what the
  source counts. A literal is written \<open>js ''...''\<close>; a literal with a character outside
  ASCII is written with its code units.
\<close>

named_theorems reducer_simps \<open>defining equations of the store's reducers\<close>
named_theorems frame \<open>facts that an operation leaves a part of the state alone\<close>
named_theorems url_laws \<open>laws of reading and writing URL search parameters\<close>

subsection \<open>JavaScript strings\<close>

type_synonym jstring = "nat list"

definition js :: "string \<Rightarrow> jstring" where
  "js s = map of_char s"

lemma js_Nil [simp]: "js [] = []"
  by (simp add: js_def)

lemma js_eq_Nil [simp]: "js s = [] \<longleftrightarrow> s = []"
  by (simp add: js_def)

text \<open>\<open>s.startsWith(p)\<close>, \<open>s.endsWith(p)\<close> and \<open>s.includes(p)\<close>.\<close>

definition starts_with :: "'a list \<Rightarrow> 'a list \<Rightarrow> bool" where
  "starts_with p s \<longleftrightarrow> take (length p) s = p"

definition ends_with :: "'a list \<Rightarrow> 'a list \<Rightarrow> bool" where
  "ends_with p s \<longleftrightarrow> starts_with (rev p) (rev s)"

fun js_includes :: "jstring \<Rightarrow> jstring \<Rightarrow> bool" where
  "js_includes p [] = (p = [])"
| "js_includes p (c # cs) = (starts_with p (c # cs) \<or> js_includes p cs)"

lemma starts_with_append [simp]: "starts_with p (p @ s)"
  by (simp add: starts_with_def)

lemma starts_with_iff: "starts_with p s \<longleftrightarrow> (\<exists>t. s = p @ t)"
  by (metis append_eq_conv_conj append_take_drop_id starts_with_def)

lemma ends_with_append [simp]: "ends_with p (s @ p)"
  by (simp add: ends_with_def)

text \<open>
  White space as \<open>\s\<close> and \<open>trim\<close> see it: the ECMAScript WhiteSpace and LineTerminator
  code points.
\<close>

definition is_ws :: "nat \<Rightarrow> bool" where
  "is_ws c \<longleftrightarrow> c \<in> {9, 10, 11, 12, 13, 32, 160, 0x1680, 0x2028, 0x2029, 0x202F, 0x205F, 0x3000, 0xFEFF}
     \<or> 0x2000 \<le> c \<and> c \<le> 0x200A"

definition trim_start :: "jstring \<Rightarrow> jstring" where
  "trim_start s = dropWhile is_ws s"

definition trim :: "jstring \<Rightarrow> jstring" where
  "trim s = rev (trim_start (rev (trim_start s)))"

lemma trim_Nil [simp]: "trim [] = []"
  by (simp add: trim_def trim_start_def)

lemma dropWhile_hd: "xs \<noteq> [] \<Longrightarrow> \<not> P (hd xs) \<Longrightarrow> dropWhile P xs = xs"
  by (cases xs) auto

lemma trim_id:
  assumes "s \<noteq> [] \<longrightarrow> \<not> is_ws (hd s) \<and> \<not> is_ws (last s)"
  shows "trim s = s"
proof (cases "s = []")
  case False
  with assms have "trim_start s = s" "trim_start (rev s) = rev s"
    by (auto simp: trim_start_def hd_rev intro!: dropWhile_hd)
  then show ?thesis by (simp add: trim_def)
qed simp

text \<open>\<open>parts.join(sep)\<close>.\<close>

fun join :: "jstring \<Rightarrow> jstring list \<Rightarrow> jstring" where
  "join sep [] = []"
| "join sep [x] = x"
| "join sep (x # y # ys) = x @ sep @ join sep (y # ys)"

lemma join_Cons: "xs \<noteq> [] \<Longrightarrow> join sep (x # xs) = x @ sep @ join sep xs"
  by (cases xs) auto

subsection \<open>Decimal rendering, \<open>String(n)\<close> for an integer\<close>

fun js_of_nat :: "nat \<Rightarrow> jstring" where
  "js_of_nat n = (if n < 10 then [48 + n] else js_of_nat (n div 10) @ [48 + n mod 10])"

declare js_of_nat.simps [simp del]

definition js_of_int :: "int \<Rightarrow> jstring" where
  "js_of_int i = (if i < 0 then 45 # js_of_nat (nat (- i)) else js_of_nat (nat i))"

definition is_digit :: "nat \<Rightarrow> bool" where
  "is_digit c \<longleftrightarrow> 48 \<le> c \<and> c \<le> 57"

text \<open>The value of a run of decimal digits.\<close>

definition digits_value :: "jstring \<Rightarrow> nat" where
  "digits_value s = foldl (\<lambda>n c. 10 * n + (c - 48)) 0 s"

lemma js_of_nat_digits: "\<forall>c \<in> set (js_of_nat n). is_digit c"
proof (induction n rule: js_of_nat.induct)
  case (1 n)
  then show ?case
    by (subst js_of_nat.simps) (auto simp: is_digit_def)
qed

lemma js_of_nat_nonempty [simp]: "js_of_nat n \<noteq> []"
  by (subst js_of_nat.simps) simp

lemma digits_value_js_of_nat [simp]: "digits_value (js_of_nat n) = n"
proof (induction n rule: js_of_nat.induct)
  case (1 n)
  then show ?case
    by (subst js_of_nat.simps) (simp add: digits_value_def)
qed

lemma js_of_nat_inj [simp]: "js_of_nat m = js_of_nat n \<longleftrightarrow> m = n"
  by (metis digits_value_js_of_nat)

lemma is_digit_not_ws: "is_digit c \<Longrightarrow> \<not> is_ws c"
  by (auto simp: is_digit_def is_ws_def)

lemma trim_js_of_nat [simp]: "trim (js_of_nat n) = js_of_nat n"
  using js_of_nat_digits [of n] by (intro trim_id) (auto simp: is_digit_not_ws)

subsection \<open>The two list shapes of the reducers\<close>

text \<open>
  \<open>data.map(x => { if (!p(x)) return x; return f(x); })\<close> and
  \<open>data.filter(x => !p(x))\<close>.
\<close>

definition map_where :: "('a \<Rightarrow> bool) \<Rightarrow> ('a \<Rightarrow> 'a) \<Rightarrow> 'a list \<Rightarrow> 'a list" where
  "map_where p f xs = map (\<lambda>x. if p x then f x else x) xs"

definition drop_where :: "('a \<Rightarrow> bool) \<Rightarrow> 'a list \<Rightarrow> 'a list" where
  "drop_where p xs = filter (\<lambda>x. \<not> p x) xs"

lemma map_where_Nil [simp]: "map_where p f [] = []"
  by (simp add: map_where_def)

lemma map_where_Cons [simp]:
  "map_where p f (x # xs) = (if p x then f x else x) # map_where p f xs"
  by (simp add: map_where_def)

lemma drop_where_Nil [simp]: "drop_where p [] = []"
  by (simp add: drop_where_def)

lemma drop_where_Cons [simp]:
  "drop_where p (x # xs) = (if p x then drop_where p xs else x # drop_where p xs)"
  by (simp add: drop_where_def)

lemma length_map_where [simp]: "length (map_where p f xs) = length xs"
  by (simp add: map_where_def)

lemma set_map_where: "set (map_where p f xs) = (\<lambda>x. if p x then f x else x) ` set xs"
  by (simp add: map_where_def)

lemma set_drop_where [simp]: "set (drop_where p xs) = {x \<in> set xs. \<not> p x}"
  by (auto simp: drop_where_def)

text \<open>A rewrite that keeps the key keeps the keys of the list, in order.\<close>

lemma map_key_map_where [simp]:
  "(\<And>x. k (f x) = k x) \<Longrightarrow> map k (map_where p f xs) = map k xs"
  by (simp add: map_where_def)

lemma distinct_map_drop_where [simp, intro]:
  "distinct (map k xs) \<Longrightarrow> distinct (map k (drop_where p xs))"
  by (simp add: drop_where_def distinct_map_filter)

lemma nth_map_where:
  "i < length xs \<Longrightarrow> map_where p f xs ! i = (if p (xs ! i) then f (xs ! i) else xs ! i)"
  by (simp add: map_where_def)

lemma find_drop_where_None: "(\<And>x. q x \<Longrightarrow> p x) \<Longrightarrow> List.find q (drop_where p xs) = None"
  by (auto simp: find_None_iff drop_where_def)

lemma find_map_where:
  "(\<And>x. q (f x) = q x) \<Longrightarrow>
   List.find q (map_where p f xs) = map_option (\<lambda>x. if p x then f x else x) (List.find q xs)"
  by (induction xs) auto

text \<open>The first result a loop finds: \<open>for (const o of xs) { const x = f(o); if (x !== undefined) return x; }\<close>.\<close>

fun first_some :: "('a \<Rightarrow> 'b option) \<Rightarrow> 'a list \<Rightarrow> 'b option" where
  "first_some f [] = None"
| "first_some f (x # xs) = (case f x of Some y \<Rightarrow> Some y | None \<Rightarrow> first_some f xs)"

end
