(* ===== verification/Api.thy ===== *)
theory Api
  imports Prelude
begin

text \<open>
  The wire types of \<open>src/ui/src/api.ts\<close> that the store keeps, and the rendering of a failed
  request (\<open>src/ui/src/utils.ts\<close>). A JavaScript number that the server sends as an integer is an
  \<open>int\<close>; an optional field is an \<open>option\<close>. The HTTP client itself is outside the model: a request
  is represented by its outcome, \<open>Fulfilled\<close> with the response body or \<open>Rejected\<close> with the
  client's error.
\<close>

subsection \<open>Queues and groups\<close>

record queue =
  q_queue :: jstring
  q_paused :: bool
  q_size :: int
  q_groups :: int
  q_latency_msec :: int
  q_display_latency :: jstring
  q_memory_usage_bytes :: int
  q_active :: int
  q_pending :: int
  q_aggregating :: int
  q_scheduled :: int
  q_retry :: int
  q_archived :: int
  q_completed :: int
  q_processed :: int
  q_succeeded :: int
  q_failed :: int
  q_timestamp :: jstring

record group_info =
  g_group :: jstring
  g_size :: int

subsection \<open>Tasks\<close>

record task_info =
  t_id :: jstring
  t_queue :: jstring
  t_type :: jstring
  t_payload :: jstring
  t_state :: jstring
  t_start_time :: jstring
  t_pending_since :: "jstring option"
  t_max_retry :: int
  t_retried :: int
  t_last_failed_at :: jstring
  t_error_message :: jstring
  t_next_process_at :: jstring
  t_timeout_seconds :: int
  t_deadline :: jstring
  t_group :: jstring
  t_completed_at :: jstring
  t_result :: jstring
  t_ttl_seconds :: int
  t_is_orphaned :: bool
  t_headers :: "(jstring \<times> jstring) list option"

subsection \<open>Responses\<close>

record list_tasks_response =
  lt_tasks :: "task_info list"
  lt_stats :: queue

record list_aggregating_tasks_response =
  la_tasks :: "task_info list"
  la_stats :: queue
  la_groups :: "group_info list"

record batch_cancel_tasks_response =
  bc_canceled_ids :: "jstring list"
  bc_error_ids :: "jstring list"

record batch_delete_tasks_response =
  bd_deleted_ids :: "jstring list"
  bd_failed_ids :: "jstring list"

record batch_run_tasks_response =
  br_pending_ids :: "jstring list"
  br_error_ids :: "jstring list"

record batch_archive_tasks_response =
  ba_archived_ids :: "jstring list"
  ba_error_ids :: "jstring list"

record delete_all_tasks_response =
  da_deleted :: int

record archive_all_tasks_response =
  aa_archived :: int

record run_all_tasks_response =
  ra_scheduled :: int

record list_groups_response =
  lg_stats :: queue
  lg_groups :: "group_info list"

record worker_info =
  w_task_id :: jstring
  w_queue :: jstring
  w_task_type :: jstring
  w_task_payload :: jstring
  w_start_time :: jstring
  w_deadline :: jstring

record server_info =
  s_id :: jstring
  s_host :: jstring
  s_pid :: int
  s_concurrency :: int
  s_queue_priorities :: "(jstring \<times> int) list"
  s_strict_priority_enabled :: bool
  s_start_time :: jstring
  s_status :: jstring
  s_active_workers :: "worker_info list"

record queue_location =
  ql_queue :: jstring
  ql_keyslot :: int
  ql_nodes :: "jstring list"

text \<open>\<open>RedisInfo\<close> has only string fields; the store never reads one, so it is kept as a field list.\<close>

type_synonym redis_info = "(jstring \<times> jstring) list"

record redis_info_response =
  ri_address :: jstring
  ri_info :: redis_info
  ri_raw_info :: jstring
  ri_cluster :: bool
  ri_raw_cluster_nodes :: jstring
  ri_queue_locations :: "queue_location list option"

record metrics_info =
  mi_name :: jstring
  mi_instance :: jstring
  mi_job :: jstring
  mi_queue :: "jstring option"
  mi_state :: "jstring option"

record metrics =
  m_metric :: metrics_info
  m_values :: "(int \<times> jstring) list"

record prometheus_metrics_response =
  pm_status :: jstring
  pm_data :: "(jstring \<times> metrics list) option"
  pm_error :: "jstring option"
  pm_errorType :: "jstring option"

record metrics_response =
  mr_queue_size :: prometheus_metrics_response
  mr_queue_latency_seconds :: prometheus_metrics_response
  mr_queue_memory_usage_approx_bytes :: prometheus_metrics_response
  mr_tasks_processed_per_second :: prometheus_metrics_response
  mr_tasks_failed_per_second :: prometheus_metrics_response
  mr_error_rate :: prometheus_metrics_response
  mr_pending_tasks_by_queue :: prometheus_metrics_response
  mr_retry_tasks_by_queue :: prometheus_metrics_response
  mr_archived_tasks_by_queue :: prometheus_metrics_response

subsection \<open>Failed requests\<close>

text \<open>
  \<open>ErrorBody\<close>: a plain text, a JSON object whose \<open>error\<close> may be absent, or nothing.
\<close>

datatype error_body = BodyText jstring | BodyObject "jstring option" | BodyNone

record http_response =
  hr_status :: int
  hr_statusText :: jstring
  hr_data :: error_body

record axios_error =
  ae_response :: "http_response option"

datatype 'r outcome = Fulfilled 'r | Rejected axios_error

fun errorMessageFromBody :: "error_body \<Rightarrow> jstring" where
  "errorMessageFromBody (BodyText s) = s"
| "errorMessageFromBody (BodyObject (Some e)) = e"
| "errorMessageFromBody (BodyObject None) = []"
| "errorMessageFromBody BodyNone = []"

definition toErrorString :: "axios_error \<Rightarrow> jstring" where
  "toErrorString e =
     (case ae_response e of
        None \<Rightarrow> js ''Unknown error occurred. See the logs for details.''
      | Some r \<Rightarrow>
          (let msg = errorMessageFromBody (hr_data r)
           in if msg \<noteq> [] then msg else js_of_int (hr_status r) @ js '' '' @ hr_statusText r))"

definition toErrorStringWithHttpStatus :: "axios_error \<Rightarrow> jstring" where
  "toErrorStringWithHttpStatus e =
     (case ae_response e of
        None \<Rightarrow> js ''error: no error response data available''
      | Some r \<Rightarrow>
          (let m = errorMessageFromBody (hr_data r);
               msg = (if m \<noteq> [] then m else hr_statusText r)
           in js_of_int (hr_status r) @ js '' ('' @ hr_statusText r @ js ''): '' @ msg))"

lemma js_of_int_nonempty [simp]: "js_of_int i \<noteq> []"
  by (simp add: js_of_int_def)

text \<open>The rendering of an error is never the empty string, which the store uses for ``no error''.\<close>

lemma toErrorString_nonempty [simp]: "toErrorString e \<noteq> []"
  by (auto simp: toErrorString_def Let_def split: option.split)

end
