(* ===== verification/Requests.thy ===== *)
theory Requests
  imports Api
begin

text \<open>
  The requests of \<open>src/ui/src/api.ts\<close>: the escaping of a path segment (\<open>seg\<close>, which is
  \<open>encodeURIComponent\<close>) and, for every endpoint the store's thunks call, the method, URL and body
  it sends.

  An API function is modelled by the request it builds, \<open>None\<close> when building it throws (a URIError
  of \<open>encodeURIComponent\<close> on a lone surrogate). What comes back is the outcome the HTTP client
  returns for the request, a parameter of the thunks. The API origin and the \<open>query-string\<close>
  package are the fields of \<open>api_env\<close>.

  The lemmas show that an escaped segment carries no character the URL parser gives a meaning to,
  that it decodes to what was escaped, and that two requests built from one template are equal only
  if their segments are.
\<close>

subsection \<open>encodeURIComponent\<close>

text \<open>The code points of a string; a lone surrogate throws.\<close>

fun code_points :: "jstring \<Rightarrow> nat list option" where
  "code_points [] = Some []"
| "code_points (c # cs) =
     (if 0xDC00 \<le> c \<and> c \<le> 0xDFFF then None
      else if c < 0xD800 \<or> 0xDBFF < c then map_option (Cons c) (code_points cs)
      else case cs of
        [] \<Rightarrow> None
      | d # ds \<Rightarrow>
          if 0xDC00 \<le> d \<and> d \<le> 0xDFFF
          then map_option (Cons ((c - 0xD800) * 0x400 + (d - 0xDC00) + 0x10000)) (code_points ds)
          else None)"

definition utf8 :: "nat \<Rightarrow> nat list" where
  "utf8 p =
     (if p < 0x80 then [p]
      else if p < 0x800 then [0xC0 + p div 0x40, 0x80 + p mod 0x40]
      else if p < 0x10000 then [0xE0 + p div 0x1000, 0x80 + p div 0x40 mod 0x40, 0x80 + p mod 0x40]
      else [0xF0 + p div 0x40000, 0x80 + p div 0x1000 mod 0x40, 0x80 + p div 0x40 mod 0x40,
        0x80 + p mod 0x40])"

text \<open>The characters left as they are: ASCII letters, digits and \<open>- _ . ! ~ * ' ( )\<close>.\<close>

definition unreserved :: "nat \<Rightarrow> bool" where
  "unreserved c \<longleftrightarrow> 48 \<le> c \<and> c \<le> 57 \<or> 65 \<le> c \<and> c \<le> 90 \<or> 97 \<le> c \<and> c \<le> 122 \<or>
     c \<in> {45, 95, 46, 33, 126, 42, 39, 40, 41}"

definition hex_digit :: "nat \<Rightarrow> nat" where
  "hex_digit d = (if d < 10 then 48 + d else 55 + d)"

definition escape_byte :: "nat \<Rightarrow> nat list" where
  "escape_byte b = (if unreserved b then [b] else [37, hex_digit (b div 16), hex_digit (b mod 16)])"

definition seg :: "jstring \<Rightarrow> jstring option" where
  "seg s = map_option (\<lambda>ps. concat (map escape_byte (concat (map utf8 ps)))) (code_points s)"

subsection \<open>What escaping guarantees\<close>

definition url_safe :: "nat \<Rightarrow> bool" where
  "url_safe c \<longleftrightarrow> unreserved c \<or> c = 37"

text \<open>A string of 16-bit code units.\<close>

definition utf16 :: "jstring \<Rightarrow> bool" where
  "utf16 s \<longleftrightarrow> (\<forall>c \<in> set s. c < 0x10000)"

fun unhex :: "nat \<Rightarrow> nat" where
  "unhex c = (if c < 65 then c - 48 else c - 55)"

fun unescape :: "jstring \<Rightarrow> nat list" where
  "unescape [] = []"
| "unescape (c # cs) =
     (if c = 37 then
        (case cs of h # l # r \<Rightarrow> (16 * unhex h + unhex l) # unescape r | _ \<Rightarrow> [])
      else c # unescape cs)"

fun utf8_decode :: "nat list \<Rightarrow> nat list" where
  "utf8_decode [] = []"
| "utf8_decode (b # bs) =
     (if b < 0x80 then b # utf8_decode bs
      else if b < 0xE0 then
        (case bs of c # r \<Rightarrow> ((b - 0xC0) * 0x40 + (c - 0x80)) # utf8_decode r | _ \<Rightarrow> [])
      else if b < 0xF0 then
        (case bs of c # d # r \<Rightarrow>
           ((b - 0xE0) * 0x1000 + (c - 0x80) * 0x40 + (d - 0x80)) # utf8_decode r | _ \<Rightarrow> [])
      else
        (case bs of c # d # e # r \<Rightarrow>
           ((b - 0xF0) * 0x40000 + (c - 0x80) * 0x1000 + (d - 0x80) * 0x40 + (e - 0x80))
             # utf8_decode r | _ \<Rightarrow> []))"

definition code_units :: "nat \<Rightarrow> jstring" where
  "code_units p =
     (if p < 0x10000 then [p]
      else [0xD800 + (p - 0x10000) div 0x400, 0xDC00 + (p - 0x10000) mod 0x400])"

text \<open>What the server reads back from a path segment.\<close>

definition decode_segment :: "jstring \<Rightarrow> jstring" where
  "decode_segment s = concat (map code_units (utf8_decode (unescape s)))"

lemma unescape_escape_byte:
  assumes "b < 256"
  shows "unescape (escape_byte b @ r) = b # unescape r"
proof (cases "unreserved b")
  case True
  then show ?thesis by (auto simp: escape_byte_def unreserved_def)
next
  case False
  have "b div 16 < 16" "b mod 16 < 16" "16 * (b div 16) + b mod 16 = b"
    using assms by auto
  with False show ?thesis by (simp add: escape_byte_def hex_digit_def)
qed

lemma unescape_bytes: "\<forall>b \<in> set bs. b < 256 \<Longrightarrow> unescape (concat (map escape_byte bs)) = bs"
  by (induction bs) (simp_all add: unescape_escape_byte)

lemma split2: "(p::nat) = p div 0x1000 * 0x1000 + p div 0x40 mod 0x40 * 0x40 + p mod 0x40"
proof -
  have "p div 0x1000 = p div 0x40 div 0x40" by (simp add: div_mult2_eq [symmetric])
  moreover have "p div 0x40 = p div 0x40 div 0x40 * 0x40 + p div 0x40 mod 0x40" by simp
  moreover have "p = p div 0x40 * 0x40 + p mod 0x40" by simp
  ultimately show ?thesis by linarith
qed

lemma split3:
  "(p::nat) = p div 0x40000 * 0x40000 + p div 0x1000 mod 0x40 * 0x1000 + p div 0x40 mod 0x40 * 0x40 + p mod 0x40"
proof -
  have "p div 0x40000 = p div 0x1000 div 0x40" by (simp add: div_mult2_eq [symmetric])
  moreover have "p div 0x1000 = p div 0x1000 div 0x40 * 0x40 + p div 0x1000 mod 0x40" by simp
  ultimately show ?thesis using split2 [of p] by linarith
qed

lemma utf8_decode_utf8:
  assumes "p < 0x110000"
  shows "utf8_decode (utf8 p @ r) = p # utf8_decode r"
proof -
  consider "p < 0x80" | "0x80 \<le> p" "p < 0x800" | "0x800 \<le> p" "p < 0x10000" | "0x10000 \<le> p"
    by linarith
  then show ?thesis
  proof cases
    case 1
    then show ?thesis by (simp add: utf8_def)
  next
    case 2
    then have "p div 0x40 < 0x20" by simp
    with 2 show ?thesis by (simp add: utf8_def)
  next
    case 3
    then have "p div 0x1000 < 0x10" by simp
    with 3 split2 [of p] show ?thesis by (simp add: utf8_def)
  next
    case 4
    with split3 [of p] show ?thesis by (simp add: utf8_def)
  qed
qed

lemma utf8_decode_points:
  "\<forall>p \<in> set ps. p < 0x110000 \<Longrightarrow> utf8_decode (concat (map utf8 ps)) = ps"
  by (induction ps) (simp_all add: utf8_decode_utf8)

lemma bytes_bound:
  "a < 0x10 \<Longrightarrow> x < 0x40 \<Longrightarrow> y < 0x40 \<Longrightarrow> z < 0x40 \<Longrightarrow>
   list_all (\<lambda>b. b < 0x100) [0xF0 + a, 0xE0 + a, 0x80 + x, 0x80 + y, 0x80 + (z::nat)]"
  by simp

lemma utf8_bytes:
  assumes "p < 0x110000" "b \<in> set (utf8 p)"
  shows "b < 256"
proof (cases "p < 0x10000")
  case True
  have "p div 0x1000 < 0x10" "p < 0x800 \<Longrightarrow> p div 0x40 < 0x20"
    using True by (simp_all add: less_mult_imp_div_less)
  with True assms(2) bytes_bound [of "p div 0x1000" "p mod 0x40" "p div 0x40 mod 0x40" 0]
  show ?thesis by (simp add: utf8_def split: if_splits) auto
next
  case False
  have "p div 0x40000 < 0x10" using assms(1) by (simp add: less_mult_imp_div_less)
  with False assms(2) bytes_bound [of "p div 0x40000" "p mod 0x40" "p div 0x40 mod 0x40" "p div 0x1000 mod 0x40"]
  show ?thesis by (simp add: utf8_def) auto
qed

text \<open>The code points determine the string.\<close>

lemma code_points_units:
  "code_points s = Some ps \<Longrightarrow> utf16 s \<Longrightarrow>
   concat (map code_units ps) = s \<and> (\<forall>p \<in> set ps. p < 0x110000)"
proof (induction s arbitrary: ps rule: code_points.induct)
  case 1
  then show ?case by simp
next
  case (2 c cs)
  show ?case
  proof (cases "c < 0xD800 \<or> 0xDBFF < c")
    case True
    moreover have nl: "\<not> (0xDC00 \<le> c \<and> c \<le> 0xDFFF)" using 2(3) by (simp split: if_splits)
    ultimately obtain qs where qs: "code_points cs = Some qs" "ps = c # qs" using 2(3) by auto
    have c: "c < 0x10000" and "utf16 cs" using 2(4) by (simp_all add: utf16_def)
    with 2(1) [OF nl True qs(1)] have "concat (map code_units qs) = cs \<and> (\<forall>p \<in> set qs. p < 0x110000)"
      by simp
    moreover have "code_units c = [c]" using c by (simp add: code_units_def)
    ultimately show ?thesis using qs(2) c by simp
  next
    case False
    with 2(3) obtain d ds where cs: "cs = d # ds" and d: "0xDC00 \<le> d" "d \<le> 0xDFFF"
      by (auto split: list.splits if_splits)
    with False 2(3) obtain qs where qs: "code_points ds = Some qs"
      and ps: "ps = ((c - 0xD800) * 0x400 + (d - 0xDC00) + 0x10000) # qs" by auto
    have "concat (map code_units qs) = ds \<and> (\<forall>p \<in> set qs. p < 0x110000)"
      using 2(2) [OF _ False cs] d qs 2(4) cs False by (auto simp: utf16_def)
    moreover have "code_units ((c - 0xD800) * 0x400 + (d - 0xDC00) + 0x10000) = [c, d]"
    proof -
      have *: "d - 0xDC00 < 0x400" using d by arith
      then have "((c - 0xD800) * 0x400 + (d - 0xDC00)) div 0x400 = c - 0xD800"
        and "((c - 0xD800) * 0x400 + (d - 0xDC00)) mod 0x400 = d - 0xDC00"
        by simp_all
      with False d show ?thesis by (simp add: code_units_def)
    qed
    ultimately show ?thesis using ps cs False d by auto
  qed
qed

lemma decode_seg:
  assumes "utf16 s" "seg s = Some u"
  shows "decode_segment u = s"
proof -
  from assms(2) obtain ps where ps: "code_points s = Some ps"
    and u: "u = concat (map escape_byte (concat (map utf8 ps)))" by (auto simp: seg_def)
  from code_points_units [OF ps assms(1)] have *: "\<forall>p \<in> set ps. p < 0x110000"
    and s: "concat (map code_units ps) = s" by auto
  then have "\<forall>b \<in> set (concat (map utf8 ps)). b < 256" by (auto dest: utf8_bytes)
  then show ?thesis
    unfolding decode_segment_def u using utf8_decode_points [OF *] s
    by (simp add: unescape_bytes del: set_concat)
qed

lemma seg_inj: "utf16 s \<Longrightarrow> utf16 t \<Longrightarrow> seg s = Some u \<Longrightarrow> seg t = Some u \<Longrightarrow> s = t"
  by (metis decode_seg)

lemma hex_digit_unreserved: "d < 16 \<Longrightarrow> unreserved (hex_digit d)"
  by (auto simp: hex_digit_def unreserved_def)

lemma escape_byte_safe: "b < 256 \<Longrightarrow> c \<in> set (escape_byte b) \<Longrightarrow> url_safe c"
  by (auto simp: escape_byte_def url_safe_def hex_digit_unreserved split: if_splits)

lemma seg_safe:
  assumes "utf16 s" "seg s = Some u"
  shows "\<forall>c \<in> set u. url_safe c"
proof -
  from assms(2) obtain ps where ps: "code_points s = Some ps"
    and u: "u = concat (map escape_byte (concat (map utf8 ps)))" by (auto simp: seg_def)
  from code_points_units [OF ps assms(1)] have "\<forall>b \<in> set (concat (map utf8 ps)). b < 256"
    by (auto dest: utf8_bytes)
  then show ?thesis unfolding u by (auto dest: escape_byte_safe)
qed

subsection \<open>Request templates\<close>

record page_options =
  po_size :: "int option"
  po_page :: "int option"

record metrics_params =
  mp_endtime :: int
  mp_duration :: int
  mp_queues :: "jstring option"

text \<open>
  \<open>getBaseUrl()\<close> reads the page's origin and root path; \<open>queryString.stringify\<close> is a package.
\<close>

record api_env =
  getBaseUrl :: jstring
  stringify_page :: "page_options \<Rightarrow> jstring"
  stringify_metrics :: "metrics_params \<Rightarrow> jstring"

datatype http_method = GetMethod | PostMethod | DeleteMethod

datatype request_body = NoBody | TaskIds "jstring list"

record http_request =
  rq_method :: http_method
  rq_url :: jstring
  rq_data :: request_body

text \<open>A template literal: constant text and escaped segments.\<close>

datatype piece = Lit string | Seg jstring

fun piece_text :: "piece \<Rightarrow> jstring option" where
  "piece_text (Lit l) = Some (js l)"
| "piece_text (Seg s) = seg s"

fun template_text :: "piece list \<Rightarrow> jstring option" where
  "template_text [] = Some []"
| "template_text (p # ps) =
     (case piece_text p of
        None \<Rightarrow> None
      | Some t \<Rightarrow> map_option ((@) t) (template_text ps))"

definition template :: "api_env \<Rightarrow> piece list \<Rightarrow> jstring option" where
  "template env ps = map_option ((@) (getBaseUrl env)) (template_text ps)"

definition paged :: "api_env \<Rightarrow> page_options option \<Rightarrow> piece list \<Rightarrow> jstring option" where
  "paged env pageOpts ps =
     map_option (\<lambda>url. case pageOpts of None \<Rightarrow> url | Some o' \<Rightarrow> url @ js ''?'' @ stringify_page env o')
       (template env ps)"

definition request :: "http_method \<Rightarrow> jstring option \<Rightarrow> request_body \<Rightarrow> http_request option" where
  "request m url body = map_option (\<lambda>u. \<lparr>rq_method = m, rq_url = u, rq_data = body\<rparr>) url"

text \<open>
  The outcome of an API call: the client's answer to the request, or a rejection without a
  response when the request could not be built.
\<close>

definition call :: "(http_request \<Rightarrow> 'r outcome) \<Rightarrow> http_request option \<Rightarrow> 'r outcome" where
  "call send rq = (case rq of None \<Rightarrow> Rejected \<lparr>ae_response = None\<rparr> | Some q \<Rightarrow> send q)"

text \<open>The constant part of a template, and templates whose segments are delimited.\<close>

fun skeleton :: "piece list \<Rightarrow> string option list" where
  "skeleton [] = []"
| "skeleton (Lit l # ps) = Some l # skeleton ps"
| "skeleton (Seg s # ps) = None # skeleton ps"

fun delimited :: "piece list \<Rightarrow> bool" where
  "delimited [] = True"
| "delimited (Lit l # ps) = delimited ps"
| "delimited [Seg s] = utf16 s"
| "delimited (Seg s # Seg t # ps) = False"
| "delimited (Seg s # Lit l # ps) =
     (utf16 s \<and> l \<noteq> [] \<and> \<not> url_safe (of_char (hd l)) \<and> delimited (Lit l # ps))"

lemma template_text_starts:
  "template_text (Lit l # ps) = Some u \<Longrightarrow> \<exists>r. u = js l @ r"
  by (auto split: option.splits)

text \<open>An escaped segment followed by nothing or by a delimiter is read back unambiguously.\<close>

lemma safe_split:
  assumes "a @ x = b @ y" "\<forall>c \<in> set a. P c" "\<forall>c \<in> set b. P c"
    and "x = [] \<or> \<not> P (hd x)" "y = [] \<or> \<not> P (hd y)"
  shows "a = b \<and> x = y"
proof -
  have "takeWhile P (a @ x) = a" "takeWhile P (b @ y) = b"
    using assms(2-) by (simp_all add: takeWhile_append takeWhile_eq_Nil_iff)
  with assms(1) show ?thesis by (metis same_append_eq)
qed

lemma template_text_inj:
  "template_text ps = Some u \<Longrightarrow> template_text qs = Some u \<Longrightarrow> skeleton ps = skeleton qs \<Longrightarrow>
   delimited ps \<Longrightarrow> delimited qs \<Longrightarrow> ps = qs"
proof (induction ps arbitrary: qs u rule: delimited.induct)
  case (2 l ps)
  then obtain qs' where qs: "qs = Lit l # qs'" by (cases qs rule: skeleton.cases) auto
  with 2 show ?case by (auto split: option.splits)
next
  case (3 s)
  then obtain t where "qs = [Seg t]" by (cases qs rule: delimited.cases) auto
  with 3 show ?case by (auto split: option.splits intro: seg_inj)
next
  case (5 s l ps)
  then obtain t qs' where qs: "qs = Seg t # Lit l # qs'" by (cases qs rule: delimited.cases) auto
  from 5(2) obtain a x where a: "seg s = Some a" "template_text (Lit l # ps) = Some x" "u = a @ x"
    by (auto split: option.splits)
  from 5(3) qs obtain b y where b: "seg t = Some b" "template_text (Lit l # qs') = Some y" "u = b @ y"
    by (auto split: option.splits)
  have l: "l \<noteq> []" "\<not> url_safe (of_char (hd l))" and st: "utf16 s" "utf16 t" using 5(5,6) qs by auto
  have "x \<noteq> [] \<and> \<not> url_safe (hd x)" "y \<noteq> [] \<and> \<not> url_safe (hd y)"
    using template_text_starts [OF a(2)] template_text_starts [OF b(2)] l
    by (cases l; auto simp: js_def)+
  then have "a = b \<and> x = y"
    using a b seg_safe st by (intro safe_split [where P = url_safe]) auto
  with a b st 5(1) [of x "Lit l # qs'"] 5(4,5,6) qs show ?case by (auto intro: seg_inj)
next
  case 1
  then show ?case by (cases qs rule: skeleton.cases) auto
next
  case (4 s t ps)
  then show ?case by simp
qed

lemma template_inj:
  assumes "template env ps = Some u" "template env qs = Some u" "skeleton ps = skeleton qs"
    and "delimited ps" "delimited qs"
  shows "ps = qs"
  using assms template_text_inj by (fastforce simp: template_def)

subsection \<open>The endpoints\<close>

definition listQueues :: "api_env \<Rightarrow> http_request option" where
  "listQueues env =
     request GetMethod (template env [Lit ''/queues''])
       NoBody"

definition getQueue :: "api_env \<Rightarrow> jstring \<Rightarrow> http_request option" where
  "getQueue env qname =
     request GetMethod (template env [Lit ''/queues/'', Seg qname])
       NoBody"

definition deleteQueue :: "api_env \<Rightarrow> jstring \<Rightarrow> http_request option" where
  "deleteQueue env qname =
     request DeleteMethod (template env [Lit ''/queues/'', Seg qname])
       NoBody"

definition pauseQueue :: "api_env \<Rightarrow> jstring \<Rightarrow> http_request option" where
  "pauseQueue env qname =
     request PostMethod (template env [Lit ''/queues/'', Seg qname, Lit '':pause''])
       NoBody"

definition resumeQueue :: "api_env \<Rightarrow> jstring \<Rightarrow> http_request option" where
  "resumeQueue env qname =
     request PostMethod (template env [Lit ''/queues/'', Seg qname, Lit '':resume''])
       NoBody"

definition listGroups :: "api_env \<Rightarrow> jstring \<Rightarrow> http_request option" where
  "listGroups env qname =
     request GetMethod (template env [Lit ''/queues/'', Seg qname, Lit ''/groups''])
       NoBody"

definition getTaskInfo :: "api_env \<Rightarrow> jstring \<Rightarrow> jstring \<Rightarrow> http_request option" where
  "getTaskInfo env qname ident =
     request GetMethod (template env [Lit ''/queues/'', Seg qname, Lit ''/tasks/'', Seg ident])
       NoBody"

definition getFeatures :: "api_env \<Rightarrow> http_request option" where
  "getFeatures env =
     request GetMethod (template env [Lit ''/features''])
       NoBody"

definition listActiveTasks :: "api_env \<Rightarrow> jstring \<Rightarrow> page_options option \<Rightarrow> http_request option" where
  "listActiveTasks env qname pageOpts =
     request GetMethod (paged env pageOpts [Lit ''/queues/'', Seg qname, Lit ''/active_tasks''])
       NoBody"

definition cancelActiveTask :: "api_env \<Rightarrow> jstring \<Rightarrow> jstring \<Rightarrow> http_request option" where
  "cancelActiveTask env qname taskId =
     request PostMethod (template env [Lit ''/queues/'', Seg qname, Lit ''/active_tasks/'', Seg taskId, Lit '':cancel''])
       NoBody"

definition cancelAllActiveTasks :: "api_env \<Rightarrow> jstring \<Rightarrow> http_request option" where
  "cancelAllActiveTasks env qname =
     request PostMethod (template env [Lit ''/queues/'', Seg qname, Lit ''/active_tasks:cancel_all''])
       NoBody"

definition batchCancelActiveTasks :: "api_env \<Rightarrow> jstring \<Rightarrow> jstring list \<Rightarrow> http_request option" where
  "batchCancelActiveTasks env qname taskIds =
     request PostMethod (template env [Lit ''/queues/'', Seg qname, Lit ''/active_tasks:batch_cancel''])
       (TaskIds taskIds)"

definition listPendingTasks :: "api_env \<Rightarrow> jstring \<Rightarrow> page_options option \<Rightarrow> http_request option" where
  "listPendingTasks env qname pageOpts =
     request GetMethod (paged env pageOpts [Lit ''/queues/'', Seg qname, Lit ''/pending_tasks''])
       NoBody"

definition listScheduledTasks :: "api_env \<Rightarrow> jstring \<Rightarrow> page_options option \<Rightarrow> http_request option" where
  "listScheduledTasks env qname pageOpts =
     request GetMethod (paged env pageOpts [Lit ''/queues/'', Seg qname, Lit ''/scheduled_tasks''])
       NoBody"

definition listRetryTasks :: "api_env \<Rightarrow> jstring \<Rightarrow> page_options option \<Rightarrow> http_request option" where
  "listRetryTasks env qname pageOpts =
     request GetMethod (paged env pageOpts [Lit ''/queues/'', Seg qname, Lit ''/retry_tasks''])
       NoBody"

definition listArchivedTasks :: "api_env \<Rightarrow> jstring \<Rightarrow> page_options option \<Rightarrow> http_request option" where
  "listArchivedTasks env qname pageOpts =
     request GetMethod (paged env pageOpts [Lit ''/queues/'', Seg qname, Lit ''/archived_tasks''])
       NoBody"

definition listCompletedTasks :: "api_env \<Rightarrow> jstring \<Rightarrow> page_options option \<Rightarrow> http_request option" where
  "listCompletedTasks env qname pageOpts =
     request GetMethod (paged env pageOpts [Lit ''/queues/'', Seg qname, Lit ''/completed_tasks''])
       NoBody"

definition listAggregatingTasks :: "api_env \<Rightarrow> jstring \<Rightarrow> jstring \<Rightarrow> page_options option \<Rightarrow> http_request option" where
  "listAggregatingTasks env qname gname pageOpts =
     request GetMethod (paged env pageOpts [Lit ''/queues/'', Seg qname, Lit ''/groups/'', Seg gname, Lit ''/aggregating_tasks''])
       NoBody"

definition archivePendingTask :: "api_env \<Rightarrow> jstring \<Rightarrow> jstring \<Rightarrow> http_request option" where
  "archivePendingTask env qname taskId =
     request PostMethod (template env [Lit ''/queues/'', Seg qname, Lit ''/pending_tasks/'', Seg taskId, Lit '':archive''])
       NoBody"

definition batchArchivePendingTasks :: "api_env \<Rightarrow> jstring \<Rightarrow> jstring list \<Rightarrow> http_request option" where
  "batchArchivePendingTasks env qname taskIds =
     request PostMethod (template env [Lit ''/queues/'', Seg qname, Lit ''/pending_tasks:batch_archive''])
       (TaskIds taskIds)"

definition archiveAllPendingTasks :: "api_env \<Rightarrow> jstring \<Rightarrow> http_request option" where
  "archiveAllPendingTasks env qname =
     request PostMethod (template env [Lit ''/queues/'', Seg qname, Lit ''/pending_tasks:archive_all''])
       NoBody"

definition deletePendingTask :: "api_env \<Rightarrow> jstring \<Rightarrow> jstring \<Rightarrow> http_request option" where
  "deletePendingTask env qname taskId =
     request DeleteMethod (template env [Lit ''/queues/'', Seg qname, Lit ''/pending_tasks/'', Seg taskId])
       NoBody"

definition batchDeletePendingTasks :: "api_env \<Rightarrow> jstring \<Rightarrow> jstring list \<Rightarrow> http_request option" where
  "batchDeletePendingTasks env qname taskIds =
     request PostMethod (template env [Lit ''/queues/'', Seg qname, Lit ''/pending_tasks:batch_delete''])
       (TaskIds taskIds)"

definition deleteAllPendingTasks :: "api_env \<Rightarrow> jstring \<Rightarrow> http_request option" where
  "deleteAllPendingTasks env qname =
     request DeleteMethod (template env [Lit ''/queues/'', Seg qname, Lit ''/pending_tasks:delete_all''])
       NoBody"

definition deleteAggregatingTask :: "api_env \<Rightarrow> jstring \<Rightarrow> jstring \<Rightarrow> jstring \<Rightarrow> http_request option" where
  "deleteAggregatingTask env qname gname taskId =
     request DeleteMethod (template env [Lit ''/queues/'', Seg qname, Lit ''/groups/'', Seg gname, Lit ''/aggregating_tasks/'', Seg taskId])
       NoBody"

definition batchDeleteAggregatingTasks :: "api_env \<Rightarrow> jstring \<Rightarrow> jstring \<Rightarrow> jstring list \<Rightarrow> http_request option" where
  "batchDeleteAggregatingTasks env qname gname taskIds =
     request PostMethod (template env [Lit ''/queues/'', Seg qname, Lit ''/groups/'', Seg gname, Lit ''/aggregating_tasks:batch_delete''])
       (TaskIds taskIds)"

definition deleteAllAggregatingTasks :: "api_env \<Rightarrow> jstring \<Rightarrow> jstring \<Rightarrow> http_request option" where
  "deleteAllAggregatingTasks env qname gname =
     request DeleteMethod (template env [Lit ''/queues/'', Seg qname, Lit ''/groups/'', Seg gname, Lit ''/aggregating_tasks:delete_all''])
       NoBody"

definition runAggregatingTask :: "api_env \<Rightarrow> jstring \<Rightarrow> jstring \<Rightarrow> jstring \<Rightarrow> http_request option" where
  "runAggregatingTask env qname gname taskId =
     request PostMethod (template env [Lit ''/queues/'', Seg qname, Lit ''/groups/'', Seg gname, Lit ''/aggregating_tasks/'', Seg taskId, Lit '':run''])
       NoBody"

definition batchRunAggregatingTasks :: "api_env \<Rightarrow> jstring \<Rightarrow> jstring \<Rightarrow> jstring list \<Rightarrow> http_request option" where
  "batchRunAggregatingTasks env qname gname taskIds =
     request PostMethod (template env [Lit ''/queues/'', Seg qname, Lit ''/groups/'', Seg gname, Lit ''/aggregating_tasks:batch_run''])
       (TaskIds taskIds)"

definition runAllAggregatingTasks :: "api_env \<Rightarrow> jstring \<Rightarrow> jstring \<Rightarrow> http_request option" where
  "runAllAggregatingTasks env qname gname =
     request PostMethod (template env [Lit ''/queues/'', Seg qname, Lit ''/groups/'', Seg gname, Lit ''/aggregating_tasks:run_all''])
       NoBody"

definition archiveAggregatingTask :: "api_env \<Rightarrow> jstring \<Rightarrow> jstring \<Rightarrow> jstring \<Rightarrow> http_request option" where
  "archiveAggregatingTask env qname gname taskId =
     request PostMethod (template env [Lit ''/queues/'', Seg qname, Lit ''/groups/'', Seg gname, Lit ''/aggregating_tasks/'', Seg taskId, Lit '':archive''])
       NoBody"

definition batchArchiveAggregatingTasks :: "api_env \<Rightarrow> jstring \<Rightarrow> jstring \<Rightarrow> jstring list \<Rightarrow> http_request option" where
  "batchArchiveAggregatingTasks env qname gname taskIds =
     request PostMethod (template env [Lit ''/queues/'', Seg qname, Lit ''/groups/'', Seg gname, Lit ''/aggregating_tasks:batch_archive''])
       (TaskIds taskIds)"

definition archiveAllAggregatingTasks :: "api_env \<Rightarrow> jstring \<Rightarrow> jstring \<Rightarrow> http_request option" where
  "archiveAllAggregatingTasks env qname gname =
     request PostMethod (template env [Lit ''/queues/'', Seg qname, Lit ''/groups/'', Seg gname, Lit ''/aggregating_tasks:archive_all''])
       NoBody"

definition runScheduledTask :: "api_env \<Rightarrow> jstring \<Rightarrow> jstring \<Rightarrow> http_request option" where
  "runScheduledTask env qname taskId =
     request PostMethod (template env [Lit ''/queues/'', Seg qname, Lit ''/scheduled_tasks/'', Seg taskId, Lit '':run''])
       NoBody"

definition archiveScheduledTask :: "api_env \<Rightarrow> jstring \<Rightarrow> jstring \<Rightarrow> http_request option" where
  "archiveScheduledTask env qname taskId =
     request PostMethod (template env [Lit ''/queues/'', Seg qname, Lit ''/scheduled_tasks/'', Seg taskId, Lit '':archive''])
       NoBody"

definition deleteScheduledTask :: "api_env \<Rightarrow> jstring \<Rightarrow> jstring \<Rightarrow> http_request option" where
  "deleteScheduledTask env qname taskId =
     request DeleteMethod (template env [Lit ''/queues/'', Seg qname, Lit ''/scheduled_tasks/'', Seg taskId])
       NoBody"

definition batchDeleteScheduledTasks :: "api_env \<Rightarrow> jstring \<Rightarrow> jstring list \<Rightarrow> http_request option" where
  "batchDeleteScheduledTasks env qname taskIds =
     request PostMethod (template env [Lit ''/queues/'', Seg qname, Lit ''/scheduled_tasks:batch_delete''])
       (TaskIds taskIds)"

definition deleteAllScheduledTasks :: "api_env \<Rightarrow> jstring \<Rightarrow> http_request option" where
  "deleteAllScheduledTasks env qname =
     request DeleteMethod (template env [Lit ''/queues/'', Seg qname, Lit ''/scheduled_tasks:delete_all''])
       NoBody"

definition batchRunScheduledTasks :: "api_env \<Rightarrow> jstring \<Rightarrow> jstring list \<Rightarrow> http_request option" where
  "batchRunScheduledTasks env qname taskIds =
     request PostMethod (template env [Lit ''/queues/'', Seg qname, Lit ''/scheduled_tasks:batch_run''])
       (TaskIds taskIds)"

definition runAllScheduledTasks :: "api_env \<Rightarrow> jstring \<Rightarrow> http_request option" where
  "runAllScheduledTasks env qname =
     request PostMethod (template env [Lit ''/queues/'', Seg qname, Lit ''/scheduled_tasks:run_all''])
       NoBody"

definition batchArchiveScheduledTasks :: "api_env \<Rightarrow> jstring \<Rightarrow> jstring list \<Rightarrow> http_request option" where
  "batchArchiveScheduledTasks env qname taskIds =
     request PostMethod (template env [Lit ''/queues/'', Seg qname, Lit ''/scheduled_tasks:batch_archive''])
       (TaskIds taskIds)"

definition archiveAllScheduledTasks :: "api_env \<Rightarrow> jstring \<Rightarrow> http_request option" where
  "archiveAllScheduledTasks env qname =
     request PostMethod (template env [Lit ''/queues/'', Seg qname, Lit ''/scheduled_tasks:archive_all''])
       NoBody"

definition runRetryTask :: "api_env \<Rightarrow> jstring \<Rightarrow> jstring \<Rightarrow> http_request option" where
  "runRetryTask env qname taskId =
     request PostMethod (template env [Lit ''/queues/'', Seg qname, Lit ''/retry_tasks/'', Seg taskId, Lit '':run''])
       NoBody"

definition archiveRetryTask :: "api_env \<Rightarrow> jstring \<Rightarrow> jstring \<Rightarrow> http_request option" where
  "archiveRetryTask env qname taskId =
     request PostMethod (template env [Lit ''/queues/'', Seg qname, Lit ''/retry_tasks/'', Seg taskId, Lit '':archive''])
       NoBody"

definition deleteRetryTask :: "api_env \<Rightarrow> jstring \<Rightarrow> jstring \<Rightarrow> http_request option" where
  "deleteRetryTask env qname taskId =
     request DeleteMethod (template env [Lit ''/queues/'', Seg qname, Lit ''/retry_tasks/'', Seg taskId])
       NoBody"

definition batchDeleteRetryTasks :: "api_env \<Rightarrow> jstring \<Rightarrow> jstring list \<Rightarrow> http_request option" where
  "batchDeleteRetryTasks env qname taskIds =
     request PostMethod (template env [Lit ''/queues/'', Seg qname, Lit ''/retry_tasks:batch_delete''])
       (TaskIds taskIds)"

definition deleteAllRetryTasks :: "api_env \<Rightarrow> jstring \<Rightarrow> http_request option" where
  "deleteAllRetryTasks env qname =
     request DeleteMethod (template env [Lit ''/queues/'', Seg qname, Lit ''/retry_tasks:delete_all''])
       NoBody"

definition batchRunRetryTasks :: "api_env \<Rightarrow> jstring \<Rightarrow> jstring list \<Rightarrow> http_request option" where
  "batchRunRetryTasks env qname taskIds =
     request PostMethod (template env [Lit ''/queues/'', Seg qname, Lit ''/retry_tasks:batch_run''])
       (TaskIds taskIds)"

definition runAllRetryTasks :: "api_env \<Rightarrow> jstring \<Rightarrow> http_request option" where
  "runAllRetryTasks env qname =
     request PostMethod (template env [Lit ''/queues/'', Seg qname, Lit ''/retry_tasks:run_all''])
       NoBody"

definition batchArchiveRetryTasks :: "api_env \<Rightarrow> jstring \<Rightarrow> jstring list \<Rightarrow> http_request option" where
  "batchArchiveRetryTasks env qname taskIds =
     request PostMethod (template env [Lit ''/queues/'', Seg qname, Lit ''/retry_tasks:batch_archive''])
       (TaskIds taskIds)"

definition archiveAllRetryTasks :: "api_env \<Rightarrow> jstring \<Rightarrow> http_request option" where
  "archiveAllRetryTasks env qname =
     request PostMethod (template env [Lit ''/queues/'', Seg qname, Lit ''/retry_tasks:archive_all''])
       NoBody"

definition runArchivedTask :: "api_env \<Rightarrow> jstring \<Rightarrow> jstring \<Rightarrow> http_request option" where
  "runArchivedTask env qname taskId =
     request PostMethod (template env [Lit ''/queues/'', Seg qname, Lit ''/archived_tasks/'', Seg taskId, Lit '':run''])
       NoBody"

definition deleteArchivedTask :: "api_env \<Rightarrow> jstring \<Rightarrow> jstring \<Rightarrow> http_request option" where
  "deleteArchivedTask env qname taskId =
     request DeleteMethod (template env [Lit ''/queues/'', Seg qname, Lit ''/archived_tasks/'', Seg taskId])
       NoBody"

definition batchDeleteArchivedTasks :: "api_env \<Rightarrow> jstring \<Rightarrow> jstring list \<Rightarrow> http_request option" where
  "batchDeleteArchivedTasks env qname taskIds =
     request PostMethod (template env [Lit ''/queues/'', Seg qname, Lit ''/archived_tasks:batch_delete''])
       (TaskIds taskIds)"

definition deleteAllArchivedTasks :: "api_env \<Rightarrow> jstring \<Rightarrow> http_request option" where
  "deleteAllArchivedTasks env qname =
     request DeleteMethod (template env [Lit ''/queues/'', Seg qname, Lit ''/archived_tasks:delete_all''])
       NoBody"

definition batchRunArchivedTasks :: "api_env \<Rightarrow> jstring \<Rightarrow> jstring list \<Rightarrow> http_request option" where
  "batchRunArchivedTasks env qname taskIds =
     request PostMethod (template env [Lit ''/queues/'', Seg qname, Lit ''/archived_tasks:batch_run''])
       (TaskIds taskIds)"

definition runAllArchivedTasks :: "api_env \<Rightarrow> jstring \<Rightarrow> http_request option" where
  "runAllArchivedTasks env qname =
     request PostMethod (template env [Lit ''/queues/'', Seg qname, Lit ''/archived_tasks:run_all''])
       NoBody"

definition deleteCompletedTask :: "api_env \<Rightarrow> jstring \<Rightarrow> jstring \<Rightarrow> http_request option" where
  "deleteCompletedTask env qname taskId =
     request DeleteMethod (template env [Lit ''/queues/'', Seg qname, Lit ''/completed_tasks/'', Seg taskId])
       NoBody"

definition batchDeleteCompletedTasks :: "api_env \<Rightarrow> jstring \<Rightarrow> jstring list \<Rightarrow> http_request option" where
  "batchDeleteCompletedTasks env qname taskIds =
     request PostMethod (template env [Lit ''/queues/'', Seg qname, Lit ''/completed_tasks:batch_delete''])
       (TaskIds taskIds)"

definition deleteAllCompletedTasks :: "api_env \<Rightarrow> jstring \<Rightarrow> http_request option" where
  "deleteAllCompletedTasks env qname =
     request DeleteMethod (template env [Lit ''/queues/'', Seg qname, Lit ''/completed_tasks:delete_all''])
       NoBody"

definition listServers :: "api_env \<Rightarrow> http_request option" where
  "listServers env =
     request GetMethod (template env [Lit ''/servers''])
       NoBody"

definition listSchedulerEntries :: "api_env \<Rightarrow> http_request option" where
  "listSchedulerEntries env =
     request GetMethod (template env [Lit ''/scheduler_entries''])
       NoBody"

definition listSchedulerEnqueueEvents :: "api_env \<Rightarrow> jstring \<Rightarrow> http_request option" where
  "listSchedulerEnqueueEvents env entryId =
     request GetMethod (template env [Lit ''/scheduler_entries/'', Seg entryId, Lit ''/enqueue_events''])
       NoBody"

definition getRedisInfo :: "api_env \<Rightarrow> http_request option" where
  "getRedisInfo env =
     request GetMethod (template env [Lit ''/redis_info''])
       NoBody"

definition cancelJob :: "api_env \<Rightarrow> jstring \<Rightarrow> http_request option" where
  "cancelJob env ident =
     request PostMethod (template env [Lit ''/jobs/'', Seg ident, Lit ''/cancel''])
       NoBody"

definition pauseJob :: "api_env \<Rightarrow> jstring \<Rightarrow> http_request option" where
  "pauseJob env ident =
     request PostMethod (template env [Lit ''/jobs/'', Seg ident, Lit ''/pause''])
       NoBody"

definition resumeJob :: "api_env \<Rightarrow> jstring \<Rightarrow> http_request option" where
  "resumeJob env ident =
     request PostMethod (template env [Lit ''/jobs/'', Seg ident, Lit ''/resume''])
       NoBody"
definition getMetrics :: "api_env \<Rightarrow> int \<Rightarrow> int \<Rightarrow> jstring list \<Rightarrow> http_request option" where
  "getMetrics env endTime duration queues =
     (let params = \<lparr>mp_endtime = endTime, mp_duration = duration,
            mp_queues = (if queues \<noteq> [] then Some (join (js '','') queues) else None)\<rparr>
      in request GetMethod
        (map_option (\<lambda>u. u @ stringify_metrics env params) (template env [Lit ''/metrics?'']))
        NoBody)"

end
