(* ===== verification/TasksActions.thy ===== *)
theory TasksActions
  imports Requests
begin

text \<open>
  The task actions of \<open>src/ui/src/actions/tasksActions.ts\<close>: one constructor per action
  interface, named by its type constant, with the fields in the order queue, group, task ids,
  payload, error; the string of every action type; and the 53 request thunks.

  A thunk is modelled by the actions it dispatches, in order. \<open>send\<close> is the HTTP client: the
  outcome it returns for a request. The thunks that keep a sequence number take \<open>latest\<close>, whether the number they drew
  is still the current one when the answer arrives.
\<close>

subsection \<open>Actions\<close>

datatype get_task_info_action =
    GET_TASK_INFO_BEGIN
  | GET_TASK_INFO_ERROR jstring
  | GET_TASK_INFO_SUCCESS task_info

datatype list_active_action =
    LIST_ACTIVE_TASKS_BEGIN (list_active_queue: jstring)
  | LIST_ACTIVE_TASKS_SUCCESS (list_active_queue: jstring) list_tasks_response
  | LIST_ACTIVE_TASKS_ERROR (list_active_queue: jstring) jstring

datatype list_pending_action =
    LIST_PENDING_TASKS_BEGIN (list_pending_queue: jstring)
  | LIST_PENDING_TASKS_SUCCESS (list_pending_queue: jstring) list_tasks_response
  | LIST_PENDING_TASKS_ERROR (list_pending_queue: jstring) jstring

datatype list_scheduled_action =
    LIST_SCHEDULED_TASKS_BEGIN (list_scheduled_queue: jstring)
  | LIST_SCHEDULED_TASKS_SUCCESS (list_scheduled_queue: jstring) list_tasks_response
  | LIST_SCHEDULED_TASKS_ERROR (list_scheduled_queue: jstring) jstring

datatype list_retry_action =
    LIST_RETRY_TASKS_BEGIN (list_retry_queue: jstring)
  | LIST_RETRY_TASKS_SUCCESS (list_retry_queue: jstring) list_tasks_response
  | LIST_RETRY_TASKS_ERROR (list_retry_queue: jstring) jstring

datatype list_archived_action =
    LIST_ARCHIVED_TASKS_BEGIN (list_archived_queue: jstring)
  | LIST_ARCHIVED_TASKS_SUCCESS (list_archived_queue: jstring) list_tasks_response
  | LIST_ARCHIVED_TASKS_ERROR (list_archived_queue: jstring) jstring

datatype list_completed_action =
    LIST_COMPLETED_TASKS_BEGIN (list_completed_queue: jstring)
  | LIST_COMPLETED_TASKS_SUCCESS (list_completed_queue: jstring) list_tasks_response
  | LIST_COMPLETED_TASKS_ERROR (list_completed_queue: jstring) jstring

datatype list_aggregating_action =
    LIST_AGGREGATING_TASKS_BEGIN (list_aggregating_queue: jstring) jstring
  | LIST_AGGREGATING_TASKS_SUCCESS (list_aggregating_queue: jstring) jstring list_aggregating_tasks_response
  | LIST_AGGREGATING_TASKS_ERROR (list_aggregating_queue: jstring) jstring jstring

datatype active_action =
    CANCEL_ACTIVE_TASK_BEGIN (active_queue: jstring) jstring
  | CANCEL_ACTIVE_TASK_SUCCESS (active_queue: jstring) jstring
  | CANCEL_ACTIVE_TASK_ERROR (active_queue: jstring) jstring jstring
  | CANCEL_ALL_ACTIVE_TASKS_BEGIN (active_queue: jstring)
  | CANCEL_ALL_ACTIVE_TASKS_SUCCESS (active_queue: jstring)
  | CANCEL_ALL_ACTIVE_TASKS_ERROR (active_queue: jstring) jstring
  | BATCH_CANCEL_ACTIVE_TASKS_BEGIN (active_queue: jstring) "jstring list"
  | BATCH_CANCEL_ACTIVE_TASKS_SUCCESS (active_queue: jstring) batch_cancel_tasks_response
  | BATCH_CANCEL_ACTIVE_TASKS_ERROR (active_queue: jstring) "jstring list" jstring

datatype pending_action =
    DELETE_PENDING_TASK_BEGIN (pending_queue: jstring) jstring
  | DELETE_PENDING_TASK_SUCCESS (pending_queue: jstring) jstring
  | DELETE_PENDING_TASK_ERROR (pending_queue: jstring) jstring jstring
  | BATCH_DELETE_PENDING_TASKS_BEGIN (pending_queue: jstring) "jstring list"
  | BATCH_DELETE_PENDING_TASKS_SUCCESS (pending_queue: jstring) batch_delete_tasks_response
  | BATCH_DELETE_PENDING_TASKS_ERROR (pending_queue: jstring) "jstring list" jstring
  | DELETE_ALL_PENDING_TASKS_BEGIN (pending_queue: jstring)
  | DELETE_ALL_PENDING_TASKS_SUCCESS (pending_queue: jstring) int
  | DELETE_ALL_PENDING_TASKS_ERROR (pending_queue: jstring) jstring
  | ARCHIVE_PENDING_TASK_BEGIN (pending_queue: jstring) jstring
  | ARCHIVE_PENDING_TASK_SUCCESS (pending_queue: jstring) jstring
  | ARCHIVE_PENDING_TASK_ERROR (pending_queue: jstring) jstring jstring
  | BATCH_ARCHIVE_PENDING_TASKS_BEGIN (pending_queue: jstring) "jstring list"
  | BATCH_ARCHIVE_PENDING_TASKS_SUCCESS (pending_queue: jstring) batch_archive_tasks_response
  | BATCH_ARCHIVE_PENDING_TASKS_ERROR (pending_queue: jstring) "jstring list" jstring
  | ARCHIVE_ALL_PENDING_TASKS_BEGIN (pending_queue: jstring)
  | ARCHIVE_ALL_PENDING_TASKS_SUCCESS (pending_queue: jstring)
  | ARCHIVE_ALL_PENDING_TASKS_ERROR (pending_queue: jstring) jstring

datatype scheduled_task_action =
    RUN_SCHEDULED_TASK_BEGIN (scheduled_task_queue: jstring) jstring
  | RUN_SCHEDULED_TASK_SUCCESS (scheduled_task_queue: jstring) jstring
  | RUN_SCHEDULED_TASK_ERROR (scheduled_task_queue: jstring) jstring jstring
  | ARCHIVE_SCHEDULED_TASK_BEGIN (scheduled_task_queue: jstring) jstring
  | ARCHIVE_SCHEDULED_TASK_SUCCESS (scheduled_task_queue: jstring) jstring
  | ARCHIVE_SCHEDULED_TASK_ERROR (scheduled_task_queue: jstring) jstring jstring

datatype retry_task_action =
    RUN_RETRY_TASK_BEGIN (retry_task_queue: jstring) jstring
  | RUN_RETRY_TASK_SUCCESS (retry_task_queue: jstring) jstring
  | RUN_RETRY_TASK_ERROR (retry_task_queue: jstring) jstring jstring
  | ARCHIVE_RETRY_TASK_BEGIN (retry_task_queue: jstring) jstring
  | ARCHIVE_RETRY_TASK_SUCCESS (retry_task_queue: jstring) jstring
  | ARCHIVE_RETRY_TASK_ERROR (retry_task_queue: jstring) jstring jstring

datatype archived_task_action =
    RUN_ARCHIVED_TASK_BEGIN (archived_task_queue: jstring) jstring
  | RUN_ARCHIVED_TASK_SUCCESS (archived_task_queue: jstring) jstring
  | RUN_ARCHIVED_TASK_ERROR (archived_task_queue: jstring) jstring jstring

datatype scheduled_action =
    DELETE_SCHEDULED_TASK_BEGIN (scheduled_queue: jstring) jstring
  | DELETE_SCHEDULED_TASK_SUCCESS (scheduled_queue: jstring) jstring
  | DELETE_SCHEDULED_TASK_ERROR (scheduled_queue: jstring) jstring jstring
  | BATCH_DELETE_SCHEDULED_TASKS_BEGIN (scheduled_queue: jstring) "jstring list"
  | BATCH_DELETE_SCHEDULED_TASKS_SUCCESS (scheduled_queue: jstring) batch_delete_tasks_response
  | BATCH_DELETE_SCHEDULED_TASKS_ERROR (scheduled_queue: jstring) "jstring list" jstring
  | BATCH_RUN_SCHEDULED_TASKS_BEGIN (scheduled_queue: jstring) "jstring list"
  | BATCH_RUN_SCHEDULED_TASKS_SUCCESS (scheduled_queue: jstring) batch_run_tasks_response
  | BATCH_RUN_SCHEDULED_TASKS_ERROR (scheduled_queue: jstring) "jstring list" jstring
  | RUN_ALL_SCHEDULED_TASKS_BEGIN (scheduled_queue: jstring)
  | RUN_ALL_SCHEDULED_TASKS_SUCCESS (scheduled_queue: jstring)
  | RUN_ALL_SCHEDULED_TASKS_ERROR (scheduled_queue: jstring) jstring
  | BATCH_ARCHIVE_SCHEDULED_TASKS_BEGIN (scheduled_queue: jstring) "jstring list"
  | BATCH_ARCHIVE_SCHEDULED_TASKS_SUCCESS (scheduled_queue: jstring) batch_archive_tasks_response
  | BATCH_ARCHIVE_SCHEDULED_TASKS_ERROR (scheduled_queue: jstring) "jstring list" jstring
  | ARCHIVE_ALL_SCHEDULED_TASKS_BEGIN (scheduled_queue: jstring)
  | ARCHIVE_ALL_SCHEDULED_TASKS_SUCCESS (scheduled_queue: jstring)
  | ARCHIVE_ALL_SCHEDULED_TASKS_ERROR (scheduled_queue: jstring) jstring
  | DELETE_ALL_SCHEDULED_TASKS_BEGIN (scheduled_queue: jstring)
  | DELETE_ALL_SCHEDULED_TASKS_SUCCESS (scheduled_queue: jstring) int
  | DELETE_ALL_SCHEDULED_TASKS_ERROR (scheduled_queue: jstring) jstring

datatype retry_action =
    DELETE_RETRY_TASK_BEGIN (retry_queue: jstring) jstring
  | DELETE_RETRY_TASK_SUCCESS (retry_queue: jstring) jstring
  | DELETE_RETRY_TASK_ERROR (retry_queue: jstring) jstring jstring
  | BATCH_DELETE_RETRY_TASKS_BEGIN (retry_queue: jstring) "jstring list"
  | BATCH_DELETE_RETRY_TASKS_SUCCESS (retry_queue: jstring) batch_delete_tasks_response
  | BATCH_DELETE_RETRY_TASKS_ERROR (retry_queue: jstring) "jstring list" jstring
  | BATCH_RUN_RETRY_TASKS_BEGIN (retry_queue: jstring) "jstring list"
  | BATCH_RUN_RETRY_TASKS_SUCCESS (retry_queue: jstring) batch_run_tasks_response
  | BATCH_RUN_RETRY_TASKS_ERROR (retry_queue: jstring) "jstring list" jstring
  | RUN_ALL_RETRY_TASKS_BEGIN (retry_queue: jstring)
  | RUN_ALL_RETRY_TASKS_SUCCESS (retry_queue: jstring)
  | RUN_ALL_RETRY_TASKS_ERROR (retry_queue: jstring) jstring
  | BATCH_ARCHIVE_RETRY_TASKS_BEGIN (retry_queue: jstring) "jstring list"
  | BATCH_ARCHIVE_RETRY_TASKS_SUCCESS (retry_queue: jstring) batch_archive_tasks_response
  | BATCH_ARCHIVE_RETRY_TASKS_ERROR (retry_queue: jstring) "jstring list" jstring
  | ARCHIVE_ALL_RETRY_TASKS_BEGIN (retry_queue: jstring)
  | ARCHIVE_ALL_RETRY_TASKS_SUCCESS (retry_queue: jstring)
  | ARCHIVE_ALL_RETRY_TASKS_ERROR (retry_queue: jstring) jstring
  | DELETE_ALL_RETRY_TASKS_BEGIN (retry_queue: jstring)
  | DELETE_ALL_RETRY_TASKS_SUCCESS (retry_queue: jstring) int
  | DELETE_ALL_RETRY_TASKS_ERROR (retry_queue: jstring) jstring

datatype archived_action =
    DELETE_ARCHIVED_TASK_BEGIN (archived_queue: jstring) jstring
  | DELETE_ARCHIVED_TASK_SUCCESS (archived_queue: jstring) jstring
  | DELETE_ARCHIVED_TASK_ERROR (archived_queue: jstring) jstring jstring
  | BATCH_DELETE_ARCHIVED_TASKS_BEGIN (archived_queue: jstring) "jstring list"
  | BATCH_DELETE_ARCHIVED_TASKS_SUCCESS (archived_queue: jstring) batch_delete_tasks_response
  | BATCH_DELETE_ARCHIVED_TASKS_ERROR (archived_queue: jstring) "jstring list" jstring
  | BATCH_RUN_ARCHIVED_TASKS_BEGIN (archived_queue: jstring) "jstring list"
  | BATCH_RUN_ARCHIVED_TASKS_SUCCESS (archived_queue: jstring) batch_run_tasks_response
  | BATCH_RUN_ARCHIVED_TASKS_ERROR (archived_queue: jstring) "jstring list" jstring
  | RUN_ALL_ARCHIVED_TASKS_BEGIN (archived_queue: jstring)
  | RUN_ALL_ARCHIVED_TASKS_SUCCESS (archived_queue: jstring)
  | RUN_ALL_ARCHIVED_TASKS_ERROR (archived_queue: jstring) jstring
  | DELETE_ALL_ARCHIVED_TASKS_BEGIN (archived_queue: jstring)
  | DELETE_ALL_ARCHIVED_TASKS_SUCCESS (archived_queue: jstring) int
  | DELETE_ALL_ARCHIVED_TASKS_ERROR (archived_queue: jstring) jstring

datatype completed_action =
    DELETE_COMPLETED_TASK_BEGIN (completed_queue: jstring) jstring
  | DELETE_COMPLETED_TASK_SUCCESS (completed_queue: jstring) jstring
  | DELETE_COMPLETED_TASK_ERROR (completed_queue: jstring) jstring jstring
  | BATCH_DELETE_COMPLETED_TASKS_BEGIN (completed_queue: jstring) "jstring list"
  | BATCH_DELETE_COMPLETED_TASKS_SUCCESS (completed_queue: jstring) batch_delete_tasks_response
  | BATCH_DELETE_COMPLETED_TASKS_ERROR (completed_queue: jstring) "jstring list" jstring
  | DELETE_ALL_COMPLETED_TASKS_BEGIN (completed_queue: jstring)
  | DELETE_ALL_COMPLETED_TASKS_SUCCESS (completed_queue: jstring) int
  | DELETE_ALL_COMPLETED_TASKS_ERROR (completed_queue: jstring) jstring

datatype aggregating_task_action =
    DELETE_AGGREGATING_TASK_BEGIN (aggregating_task_queue: jstring) jstring
  | DELETE_AGGREGATING_TASK_SUCCESS (aggregating_task_queue: jstring) jstring
  | DELETE_AGGREGATING_TASK_ERROR (aggregating_task_queue: jstring) jstring jstring
  | RUN_AGGREGATING_TASK_BEGIN (aggregating_task_queue: jstring) jstring
  | RUN_AGGREGATING_TASK_SUCCESS (aggregating_task_queue: jstring) jstring
  | RUN_AGGREGATING_TASK_ERROR (aggregating_task_queue: jstring) jstring jstring
  | ARCHIVE_AGGREGATING_TASK_BEGIN (aggregating_task_queue: jstring) jstring
  | ARCHIVE_AGGREGATING_TASK_SUCCESS (aggregating_task_queue: jstring) jstring
  | ARCHIVE_AGGREGATING_TASK_ERROR (aggregating_task_queue: jstring) jstring jstring

datatype aggregating_action =
    BATCH_DELETE_AGGREGATING_TASKS_BEGIN (aggregating_queue: jstring) jstring "jstring list"
  | BATCH_DELETE_AGGREGATING_TASKS_SUCCESS (aggregating_queue: jstring) jstring batch_delete_tasks_response
  | BATCH_DELETE_AGGREGATING_TASKS_ERROR (aggregating_queue: jstring) jstring "jstring list" jstring
  | BATCH_RUN_AGGREGATING_TASKS_BEGIN (aggregating_queue: jstring) jstring "jstring list"
  | BATCH_RUN_AGGREGATING_TASKS_SUCCESS (aggregating_queue: jstring) jstring batch_run_tasks_response
  | BATCH_RUN_AGGREGATING_TASKS_ERROR (aggregating_queue: jstring) jstring "jstring list" jstring
  | RUN_ALL_AGGREGATING_TASKS_BEGIN (aggregating_queue: jstring) jstring
  | RUN_ALL_AGGREGATING_TASKS_SUCCESS (aggregating_queue: jstring) jstring int
  | RUN_ALL_AGGREGATING_TASKS_ERROR (aggregating_queue: jstring) jstring jstring
  | BATCH_ARCHIVE_AGGREGATING_TASKS_BEGIN (aggregating_queue: jstring) jstring "jstring list"
  | BATCH_ARCHIVE_AGGREGATING_TASKS_SUCCESS (aggregating_queue: jstring) jstring batch_archive_tasks_response
  | BATCH_ARCHIVE_AGGREGATING_TASKS_ERROR (aggregating_queue: jstring) jstring "jstring list" jstring
  | ARCHIVE_ALL_AGGREGATING_TASKS_BEGIN (aggregating_queue: jstring) jstring
  | ARCHIVE_ALL_AGGREGATING_TASKS_SUCCESS (aggregating_queue: jstring) jstring int
  | ARCHIVE_ALL_AGGREGATING_TASKS_ERROR (aggregating_queue: jstring) jstring jstring
  | DELETE_ALL_AGGREGATING_TASKS_BEGIN (aggregating_queue: jstring) jstring
  | DELETE_ALL_AGGREGATING_TASKS_SUCCESS (aggregating_queue: jstring) jstring int
  | DELETE_ALL_AGGREGATING_TASKS_ERROR (aggregating_queue: jstring) jstring jstring

text \<open>\<open>TasksActionTypes\<close>, grouped by the part of the store an action is about.\<close>

datatype tasks_action =
    GetTaskInfo get_task_info_action
  | ListActive list_active_action
  | ListPending list_pending_action
  | ListScheduled list_scheduled_action
  | ListRetry list_retry_action
  | ListArchived list_archived_action
  | ListCompleted list_completed_action
  | ListAggregating list_aggregating_action
  | OnActive active_action
  | OnPending pending_action
  | OnScheduledTask scheduled_task_action
  | OnRetryTask retry_task_action
  | OnArchivedTask archived_task_action
  | OnScheduled scheduled_action
  | OnRetry retry_action
  | OnArchived archived_action
  | OnCompleted completed_action
  | OnAggregatingTask aggregating_task_action
  | OnAggregating aggregating_action

subsection \<open>Action types\<close>

primrec get_task_info_type :: "get_task_info_action \<Rightarrow> string" where
  "get_task_info_type GET_TASK_INFO_BEGIN = ''GET_TASK_INFO_BEGIN''"
| "get_task_info_type (GET_TASK_INFO_ERROR _) = ''GET_TASK_INFO_ERROR''"
| "get_task_info_type (GET_TASK_INFO_SUCCESS _) = ''GET_TASK_INFO_SUCCESS''"

primrec list_active_type :: "list_active_action \<Rightarrow> string" where
  "list_active_type (LIST_ACTIVE_TASKS_BEGIN _) = ''LIST_ACTIVE_TASKS_BEGIN''"
| "list_active_type (LIST_ACTIVE_TASKS_SUCCESS _ _) = ''LIST_ACTIVE_TASKS_SUCCESS''"
| "list_active_type (LIST_ACTIVE_TASKS_ERROR _ _) = ''LIST_ACTIVE_TASKS_ERROR''"

primrec list_pending_type :: "list_pending_action \<Rightarrow> string" where
  "list_pending_type (LIST_PENDING_TASKS_BEGIN _) = ''LIST_PENDING_TASKS_BEGIN''"
| "list_pending_type (LIST_PENDING_TASKS_SUCCESS _ _) = ''LIST_PENDING_TASKS_SUCCESS''"
| "list_pending_type (LIST_PENDING_TASKS_ERROR _ _) = ''LIST_PENDING_TASKS_ERROR''"

primrec list_scheduled_type :: "list_scheduled_action \<Rightarrow> string" where
  "list_scheduled_type (LIST_SCHEDULED_TASKS_BEGIN _) = ''LIST_SCHEDULED_TASKS_BEGIN''"
| "list_scheduled_type (LIST_SCHEDULED_TASKS_SUCCESS _ _) = ''LIST_SCHEDULED_TASKS_SUCCESS''"
| "list_scheduled_type (LIST_SCHEDULED_TASKS_ERROR _ _) = ''LIST_SCHEDULED_TASKS_ERROR''"

primrec list_retry_type :: "list_retry_action \<Rightarrow> string" where
  "list_retry_type (LIST_RETRY_TASKS_BEGIN _) = ''LIST_RETRY_TASKS_BEGIN''"
| "list_retry_type (LIST_RETRY_TASKS_SUCCESS _ _) = ''LIST_RETRY_TASKS_SUCCESS''"
| "list_retry_type (LIST_RETRY_TASKS_ERROR _ _) = ''LIST_RETRY_TASKS_ERROR''"

primrec list_archived_type :: "list_archived_action \<Rightarrow> string" where
  "list_archived_type (LIST_ARCHIVED_TASKS_BEGIN _) = ''LIST_ARCHIVED_TASKS_BEGIN''"
| "list_archived_type (LIST_ARCHIVED_TASKS_SUCCESS _ _) = ''LIST_ARCHIVED_TASKS_SUCCESS''"
| "list_archived_type (LIST_ARCHIVED_TASKS_ERROR _ _) = ''LIST_ARCHIVED_TASKS_ERROR''"

primrec list_completed_type :: "list_completed_action \<Rightarrow> string" where
  "list_completed_type (LIST_COMPLETED_TASKS_BEGIN _) = ''LIST_COMPLETED_TASKS_BEGIN''"
| "list_completed_type (LIST_COMPLETED_TASKS_SUCCESS _ _) = ''LIST_COMPLETED_TASKS_SUCCESS''"
| "list_completed_type (LIST_COMPLETED_TASKS_ERROR _ _) = ''LIST_COMPLETED_TASKS_ERROR''"

primrec list_aggregating_type :: "list_aggregating_action \<Rightarrow> string" where
  "list_aggregating_type (LIST_AGGREGATING_TASKS_BEGIN _ _) = ''LIST_AGGREGATING_TASKS_BEGIN''"
| "list_aggregating_type (LIST_AGGREGATING_TASKS_SUCCESS _ _ _) = ''LIST_AGGREGATING_TASKS_SUCCESS''"
| "list_aggregating_type (LIST_AGGREGATING_TASKS_ERROR _ _ _) = ''LIST_AGGREGATING_TASKS_ERROR''"

primrec active_type :: "active_action \<Rightarrow> string" where
  "active_type (CANCEL_ACTIVE_TASK_BEGIN _ _) = ''CANCEL_ACTIVE_TASK_BEGIN''"
| "active_type (CANCEL_ACTIVE_TASK_SUCCESS _ _) = ''CANCEL_ACTIVE_TASK_SUCCESS''"
| "active_type (CANCEL_ACTIVE_TASK_ERROR _ _ _) = ''CANCEL_ACTIVE_TASK_ERROR''"
| "active_type (CANCEL_ALL_ACTIVE_TASKS_BEGIN _) = ''CANCEL_ALL_ACTIVE_TASKS_BEGIN''"
| "active_type (CANCEL_ALL_ACTIVE_TASKS_SUCCESS _) = ''CANCEL_ALL_ACTIVE_TASKS_SUCCESS''"
| "active_type (CANCEL_ALL_ACTIVE_TASKS_ERROR _ _) = ''CANCEL_ALL_ACTIVE_TASKS_ERROR''"
| "active_type (BATCH_CANCEL_ACTIVE_TASKS_BEGIN _ _) = ''BATCH_CANCEL_ACTIVE_TASKS_BEGIN''"
| "active_type (BATCH_CANCEL_ACTIVE_TASKS_SUCCESS _ _) = ''BATCH_CANCEL_ACTIVE_TASKS_SUCCESS''"
| "active_type (BATCH_CANCEL_ACTIVE_TASKS_ERROR _ _ _) = ''BATCH_CANCEL_ACTIVE_TASKS_ERROR''"

primrec pending_type :: "pending_action \<Rightarrow> string" where
  "pending_type (DELETE_PENDING_TASK_BEGIN _ _) = ''DELETE_PENDING_TASK_BEGIN''"
| "pending_type (DELETE_PENDING_TASK_SUCCESS _ _) = ''DELETE_PENDING_TASK_SUCCESS''"
| "pending_type (DELETE_PENDING_TASK_ERROR _ _ _) = ''DELETE_PENDING_TASK_ERROR''"
| "pending_type (BATCH_DELETE_PENDING_TASKS_BEGIN _ _) = ''BATCH_DELETE_PENDING_TASKS_BEGIN''"
| "pending_type (BATCH_DELETE_PENDING_TASKS_SUCCESS _ _) = ''BATCH_DELETE_PENDING_TASKS_SUCCESS''"
| "pending_type (BATCH_DELETE_PENDING_TASKS_ERROR _ _ _) = ''BATCH_DELETE_PENDING_TASKS_ERROR''"
| "pending_type (DELETE_ALL_PENDING_TASKS_BEGIN _) = ''DELETE_ALL_PENDING_TASKS_BEGIN''"
| "pending_type (DELETE_ALL_PENDING_TASKS_SUCCESS _ _) = ''DELETE_ALL_PENDING_TASKS_SUCCESS''"
| "pending_type (DELETE_ALL_PENDING_TASKS_ERROR _ _) = ''DELETE_ALL_PENDING_TASKS_ERROR''"
| "pending_type (ARCHIVE_PENDING_TASK_BEGIN _ _) = ''ARCHIVE_PENDING_TASK_BEGIN''"
| "pending_type (ARCHIVE_PENDING_TASK_SUCCESS _ _) = ''ARCHIVE_PENDING_TASK_SUCCESS''"
| "pending_type (ARCHIVE_PENDING_TASK_ERROR _ _ _) = ''ARCHIVE_PENDING_TASK_ERROR''"
| "pending_type (BATCH_ARCHIVE_PENDING_TASKS_BEGIN _ _) = ''BATCH_ARCHIVE_PENDING_TASKS_BEGIN''"
| "pending_type (BATCH_ARCHIVE_PENDING_TASKS_SUCCESS _ _) = ''BATCH_ARCHIVE_PENDING_TASKS_SUCCESS''"
| "pending_type (BATCH_ARCHIVE_PENDING_TASKS_ERROR _ _ _) = ''BATCH_ARCHIVE_PENDING_TASKS_ERROR''"
| "pending_type (ARCHIVE_ALL_PENDING_TASKS_BEGIN _) = ''ARCHIVE_ALL_PENDING_TASKS_BEGIN''"
| "pending_type (ARCHIVE_ALL_PENDING_TASKS_SUCCESS _) = ''ARCHIVE_ALL_PENDING_TASKS_SUCCESS''"
| "pending_type (ARCHIVE_ALL_PENDING_TASKS_ERROR _ _) = ''ARCHIVE_ALL_PENDING_TASKS_ERROR''"

primrec scheduled_task_type :: "scheduled_task_action \<Rightarrow> string" where
  "scheduled_task_type (RUN_SCHEDULED_TASK_BEGIN _ _) = ''RUN_SCHEDULED_TASK_BEGIN''"
| "scheduled_task_type (RUN_SCHEDULED_TASK_SUCCESS _ _) = ''RUN_SCHEDULED_TASK_SUCCESS''"
| "scheduled_task_type (RUN_SCHEDULED_TASK_ERROR _ _ _) = ''RUN_SCHEDULED_TASK_ERROR''"
| "scheduled_task_type (ARCHIVE_SCHEDULED_TASK_BEGIN _ _) = ''ARCHIVE_SCHEDULED_TASK_BEGIN''"
| "scheduled_task_type (ARCHIVE_SCHEDULED_TASK_SUCCESS _ _) = ''ARCHIVE_SCHEDULED_TASK_SUCCESS''"
| "scheduled_task_type (ARCHIVE_SCHEDULED_TASK_ERROR _ _ _) = ''ARCHIVE_SCHEDULED_TASK_ERROR''"

primrec retry_task_type :: "retry_task_action \<Rightarrow> string" where
  "retry_task_type (RUN_RETRY_TASK_BEGIN _ _) = ''RUN_RETRY_TASK_BEGIN''"
| "retry_task_type (RUN_RETRY_TASK_SUCCESS _ _) = ''RUN_RETRY_TASK_SUCCESS''"
| "retry_task_type (RUN_RETRY_TASK_ERROR _ _ _) = ''RUN_RETRY_TASK_ERROR''"
| "retry_task_type (ARCHIVE_RETRY_TASK_BEGIN _ _) = ''ARCHIVE_RETRY_TASK_BEGIN''"
| "retry_task_type (ARCHIVE_RETRY_TASK_SUCCESS _ _) = ''ARCHIVE_RETRY_TASK_SUCCESS''"
| "retry_task_type (ARCHIVE_RETRY_TASK_ERROR _ _ _) = ''ARCHIVE_RETRY_TASK_ERROR''"

primrec archived_task_type :: "archived_task_action \<Rightarrow> string" where
  "archived_task_type (RUN_ARCHIVED_TASK_BEGIN _ _) = ''RUN_ARCHIVED_TASK_BEGIN''"
| "archived_task_type (RUN_ARCHIVED_TASK_SUCCESS _ _) = ''RUN_ARCHIVED_TASK_SUCCESS''"
| "archived_task_type (RUN_ARCHIVED_TASK_ERROR _ _ _) = ''RUN_ARCHIVED_TASK_ERROR''"

primrec scheduled_type :: "scheduled_action \<Rightarrow> string" where
  "scheduled_type (DELETE_SCHEDULED_TASK_BEGIN _ _) = ''DELETE_SCHEDULED_TASK_BEGIN''"
| "scheduled_type (DELETE_SCHEDULED_TASK_SUCCESS _ _) = ''DELETE_SCHEDULED_TASK_SUCCESS''"
| "scheduled_type (DELETE_SCHEDULED_TASK_ERROR _ _ _) = ''DELETE_SCHEDULED_TASK_ERROR''"
| "scheduled_type (BATCH_DELETE_SCHEDULED_TASKS_BEGIN _ _) = ''BATCH_DELETE_SCHEDULED_TASKS_BEGIN''"
| "scheduled_type (BATCH_DELETE_SCHEDULED_TASKS_SUCCESS _ _) = ''BATCH_DELETE_SCHEDULED_TASKS_SUCCESS''"
| "scheduled_type (BATCH_DELETE_SCHEDULED_TASKS_ERROR _ _ _) = ''BATCH_DELETE_SCHEDULED_TASKS_ERROR''"
| "scheduled_type (BATCH_RUN_SCHEDULED_TASKS_BEGIN _ _) = ''BATCH_RUN_SCHEDULED_TASKS_BEGIN''"
| "scheduled_type (BATCH_RUN_SCHEDULED_TASKS_SUCCESS _ _) = ''BATCH_RUN_SCHEDULED_TASKS_SUCCESS''"
| "scheduled_type (BATCH_RUN_SCHEDULED_TASKS_ERROR _ _ _) = ''BATCH_RUN_SCHEDULED_TASKS_ERROR''"
| "scheduled_type (RUN_ALL_SCHEDULED_TASKS_BEGIN _) = ''RUN_ALL_SCHEDULED_TASKS_BEGIN''"
| "scheduled_type (RUN_ALL_SCHEDULED_TASKS_SUCCESS _) = ''RUN_ALL_SCHEDULED_TASKS_SUCCESS''"
| "scheduled_type (RUN_ALL_SCHEDULED_TASKS_ERROR _ _) = ''RUN_ALL_SCHEDULED_TASKS_ERROR''"
| "scheduled_type (BATCH_ARCHIVE_SCHEDULED_TASKS_BEGIN _ _) = ''BATCH_ARCHIVE_SCHEDULED_TASKS_BEGIN''"
| "scheduled_type (BATCH_ARCHIVE_SCHEDULED_TASKS_SUCCESS _ _) = ''BATCH_ARCHIVE_SCHEDULED_TASKS_SUCCESS''"
| "scheduled_type (BATCH_ARCHIVE_SCHEDULED_TASKS_ERROR _ _ _) = ''BATCH_ARCHIVE_SCHEDULED_TASKS_ERROR''"
| "scheduled_type (ARCHIVE_ALL_SCHEDULED_TASKS_BEGIN _) = ''ARCHIVE_ALL_SCHEDULED_TASKS_BEGIN''"
| "scheduled_type (ARCHIVE_ALL_SCHEDULED_TASKS_SUCCESS _) = ''ARCHIVE_ALL_SCHEDULED_TASKS_SUCCESS''"
| "scheduled_type (ARCHIVE_ALL_SCHEDULED_TASKS_ERROR _ _) = ''ARCHIVE_ALL_SCHEDULED_TASKS_ERROR''"
| "scheduled_type (DELETE_ALL_SCHEDULED_TASKS_BEGIN _) = ''DELETE_ALL_SCHEDULED_TASKS_BEGIN''"
| "scheduled_type (DELETE_ALL_SCHEDULED_TASKS_SUCCESS _ _) = ''DELETE_ALL_SCHEDULED_TASKS_SUCCESS''"
| "scheduled_type (DELETE_ALL_SCHEDULED_TASKS_ERROR _ _) = ''DELETE_ALL_SCHEDULED_TASKS_ERROR''"

primrec retry_type :: "retry_action \<Rightarrow> string" where
  "retry_type (DELETE_RETRY_TASK_BEGIN _ _) = ''DELETE_RETRY_TASK_BEGIN''"
| "retry_type (DELETE_RETRY_TASK_SUCCESS _ _) = ''DELETE_RETRY_TASK_SUCCESS''"
| "retry_type (DELETE_RETRY_TASK_ERROR _ _ _) = ''DELETE_RETRY_TASK_ERROR''"
| "retry_type (BATCH_DELETE_RETRY_TASKS_BEGIN _ _) = ''BATCH_DELETE_RETRY_TASKS_BEGIN''"
| "retry_type (BATCH_DELETE_RETRY_TASKS_SUCCESS _ _) = ''BATCH_DELETE_RETRY_TASKS_SUCCESS''"
| "retry_type (BATCH_DELETE_RETRY_TASKS_ERROR _ _ _) = ''BATCH_DELETE_RETRY_TASKS_ERROR''"
| "retry_type (BATCH_RUN_RETRY_TASKS_BEGIN _ _) = ''BATCH_RUN_RETRY_TASKS_BEGIN''"
| "retry_type (BATCH_RUN_RETRY_TASKS_SUCCESS _ _) = ''BATCH_RUN_RETRY_TASKS_SUCCESS''"
| "retry_type (BATCH_RUN_RETRY_TASKS_ERROR _ _ _) = ''BATCH_RUN_RETRY_TASKS_ERROR''"
| "retry_type (RUN_ALL_RETRY_TASKS_BEGIN _) = ''RUN_ALL_RETRY_TASKS_BEGIN''"
| "retry_type (RUN_ALL_RETRY_TASKS_SUCCESS _) = ''RUN_ALL_RETRY_TASKS_SUCCESS''"
| "retry_type (RUN_ALL_RETRY_TASKS_ERROR _ _) = ''RUN_ALL_RETRY_TASKS_ERROR''"
| "retry_type (BATCH_ARCHIVE_RETRY_TASKS_BEGIN _ _) = ''BATCH_ARCHIVE_RETRY_TASKS_BEGIN''"
| "retry_type (BATCH_ARCHIVE_RETRY_TASKS_SUCCESS _ _) = ''BATCH_ARCHIVE_RETRY_TASKS_SUCCESS''"
| "retry_type (BATCH_ARCHIVE_RETRY_TASKS_ERROR _ _ _) = ''BATCH_ARCHIVE_RETRY_TASKS_ERROR''"
| "retry_type (ARCHIVE_ALL_RETRY_TASKS_BEGIN _) = ''ARCHIVE_ALL_RETRY_TASKS_BEGIN''"
| "retry_type (ARCHIVE_ALL_RETRY_TASKS_SUCCESS _) = ''ARCHIVE_ALL_RETRY_TASKS_SUCCESS''"
| "retry_type (ARCHIVE_ALL_RETRY_TASKS_ERROR _ _) = ''ARCHIVE_ALL_RETRY_TASKS_ERROR''"
| "retry_type (DELETE_ALL_RETRY_TASKS_BEGIN _) = ''DELETE_ALL_RETRY_TASKS_BEGIN''"
| "retry_type (DELETE_ALL_RETRY_TASKS_SUCCESS _ _) = ''DELETE_ALL_RETRY_TASKS_SUCCESS''"
| "retry_type (DELETE_ALL_RETRY_TASKS_ERROR _ _) = ''DELETE_ALL_RETRY_TASKS_ERROR''"

primrec archived_type :: "archived_action \<Rightarrow> string" where
  "archived_type (DELETE_ARCHIVED_TASK_BEGIN _ _) = ''DELETE_ARCHIVED_TASK_BEGIN''"
| "archived_type (DELETE_ARCHIVED_TASK_SUCCESS _ _) = ''DELETE_ARCHIVED_TASK_SUCCESS''"
| "archived_type (DELETE_ARCHIVED_TASK_ERROR _ _ _) = ''DELETE_ARCHIVED_TASK_ERROR''"
| "archived_type (BATCH_DELETE_ARCHIVED_TASKS_BEGIN _ _) = ''BATCH_DELETE_ARCHIVED_TASKS_BEGIN''"
| "archived_type (BATCH_DELETE_ARCHIVED_TASKS_SUCCESS _ _) = ''BATCH_DELETE_ARCHIVED_TASKS_SUCCESS''"
| "archived_type (BATCH_DELETE_ARCHIVED_TASKS_ERROR _ _ _) = ''BATCH_DELETE_ARCHIVED_TASKS_ERROR''"
| "archived_type (BATCH_RUN_ARCHIVED_TASKS_BEGIN _ _) = ''BATCH_RUN_ARCHIVED_TASKS_BEGIN''"
| "archived_type (BATCH_RUN_ARCHIVED_TASKS_SUCCESS _ _) = ''BATCH_RUN_ARCHIVED_TASKS_SUCCESS''"
| "archived_type (BATCH_RUN_ARCHIVED_TASKS_ERROR _ _ _) = ''BATCH_RUN_ARCHIVED_TASKS_ERROR''"
| "archived_type (RUN_ALL_ARCHIVED_TASKS_BEGIN _) = ''RUN_ALL_ARCHIVED_TASKS_BEGIN''"
| "archived_type (RUN_ALL_ARCHIVED_TASKS_SUCCESS _) = ''RUN_ALL_ARCHIVED_TASKS_SUCCESS''"
| "archived_type (RUN_ALL_ARCHIVED_TASKS_ERROR _ _) = ''RUN_ALL_ARCHIVED_TASKS_ERROR''"
| "archived_type (DELETE_ALL_ARCHIVED_TASKS_BEGIN _) = ''DELETE_ALL_ARCHIVED_TASKS_BEGIN''"
| "archived_type (DELETE_ALL_ARCHIVED_TASKS_SUCCESS _ _) = ''DELETE_ALL_ARCHIVED_TASKS_SUCCESS''"
| "archived_type (DELETE_ALL_ARCHIVED_TASKS_ERROR _ _) = ''DELETE_ALL_ARCHIVED_TASKS_ERROR''"

primrec completed_type :: "completed_action \<Rightarrow> string" where
  "completed_type (DELETE_COMPLETED_TASK_BEGIN _ _) = ''DELETE_COMPLETED_TASK_BEGIN''"
| "completed_type (DELETE_COMPLETED_TASK_SUCCESS _ _) = ''DELETE_COMPLETED_TASK_SUCCESS''"
| "completed_type (DELETE_COMPLETED_TASK_ERROR _ _ _) = ''DELETE_COMPLETED_TASK_ERROR''"
| "completed_type (BATCH_DELETE_COMPLETED_TASKS_BEGIN _ _) = ''BATCH_DELETE_COMPLETED_TASKS_BEGIN''"
| "completed_type (BATCH_DELETE_COMPLETED_TASKS_SUCCESS _ _) = ''BATCH_DELETE_COMPLETED_TASKS_SUCCESS''"
| "completed_type (BATCH_DELETE_COMPLETED_TASKS_ERROR _ _ _) = ''BATCH_DELETE_COMPLETED_TASKS_ERROR''"
| "completed_type (DELETE_ALL_COMPLETED_TASKS_BEGIN _) = ''DELETE_ALL_COMPLETED_TASKS_BEGIN''"
| "completed_type (DELETE_ALL_COMPLETED_TASKS_SUCCESS _ _) = ''DELETE_ALL_COMPLETED_TASKS_SUCCESS''"
| "completed_type (DELETE_ALL_COMPLETED_TASKS_ERROR _ _) = ''DELETE_ALL_COMPLETED_TASKS_ERROR''"

primrec aggregating_task_type :: "aggregating_task_action \<Rightarrow> string" where
  "aggregating_task_type (DELETE_AGGREGATING_TASK_BEGIN _ _) = ''DELETE_AGGREGATING_TASK_BEGIN''"
| "aggregating_task_type (DELETE_AGGREGATING_TASK_SUCCESS _ _) = ''DELETE_AGGREGATING_TASK_SUCCESS''"
| "aggregating_task_type (DELETE_AGGREGATING_TASK_ERROR _ _ _) = ''DELETE_AGGREGATING_TASK_ERROR''"
| "aggregating_task_type (RUN_AGGREGATING_TASK_BEGIN _ _) = ''RUN_AGGREGATING_TASK_BEGIN''"
| "aggregating_task_type (RUN_AGGREGATING_TASK_SUCCESS _ _) = ''RUN_AGGREGATING_TASK_SUCCESS''"
| "aggregating_task_type (RUN_AGGREGATING_TASK_ERROR _ _ _) = ''RUN_AGGREGATING_TASK_ERROR''"
| "aggregating_task_type (ARCHIVE_AGGREGATING_TASK_BEGIN _ _) = ''ARCHIVE_AGGREGATING_TASK_BEGIN''"
| "aggregating_task_type (ARCHIVE_AGGREGATING_TASK_SUCCESS _ _) = ''ARCHIVE_AGGREGATING_TASK_SUCCESS''"
| "aggregating_task_type (ARCHIVE_AGGREGATING_TASK_ERROR _ _ _) = ''ARCHIVE_AGGREGATING_TASK_ERROR''"

primrec aggregating_type :: "aggregating_action \<Rightarrow> string" where
  "aggregating_type (BATCH_DELETE_AGGREGATING_TASKS_BEGIN _ _ _) = ''BATCH_DELETE_AGGREGATING_TASKS_BEGIN''"
| "aggregating_type (BATCH_DELETE_AGGREGATING_TASKS_SUCCESS _ _ _) = ''BATCH_DELETE_AGGREGATING_TASKS_SUCCESS''"
| "aggregating_type (BATCH_DELETE_AGGREGATING_TASKS_ERROR _ _ _ _) = ''BATCH_DELETE_AGGREGATING_TASKS_ERROR''"
| "aggregating_type (BATCH_RUN_AGGREGATING_TASKS_BEGIN _ _ _) = ''BATCH_RUN_AGGREGATING_TASKS_BEGIN''"
| "aggregating_type (BATCH_RUN_AGGREGATING_TASKS_SUCCESS _ _ _) = ''BATCH_RUN_AGGREGATING_TASKS_SUCCESS''"
| "aggregating_type (BATCH_RUN_AGGREGATING_TASKS_ERROR _ _ _ _) = ''BATCH_RUN_AGGREGATING_TASKS_ERROR''"
| "aggregating_type (RUN_ALL_AGGREGATING_TASKS_BEGIN _ _) = ''RUN_ALL_AGGREGATING_TASKS_BEGIN''"
| "aggregating_type (RUN_ALL_AGGREGATING_TASKS_SUCCESS _ _ _) = ''RUN_ALL_AGGREGATING_TASKS_SUCCESS''"
| "aggregating_type (RUN_ALL_AGGREGATING_TASKS_ERROR _ _ _) = ''RUN_ALL_AGGREGATING_TASKS_ERROR''"
| "aggregating_type (BATCH_ARCHIVE_AGGREGATING_TASKS_BEGIN _ _ _) = ''BATCH_ARCHIVE_AGGREGATING_TASKS_BEGIN''"
| "aggregating_type (BATCH_ARCHIVE_AGGREGATING_TASKS_SUCCESS _ _ _) = ''BATCH_ARCHIVE_AGGREGATING_TASKS_SUCCESS''"
| "aggregating_type (BATCH_ARCHIVE_AGGREGATING_TASKS_ERROR _ _ _ _) = ''BATCH_ARCHIVE_AGGREGATING_TASKS_ERROR''"
| "aggregating_type (ARCHIVE_ALL_AGGREGATING_TASKS_BEGIN _ _) = ''ARCHIVE_ALL_AGGREGATING_TASKS_BEGIN''"
| "aggregating_type (ARCHIVE_ALL_AGGREGATING_TASKS_SUCCESS _ _ _) = ''ARCHIVE_ALL_AGGREGATING_TASKS_SUCCESS''"
| "aggregating_type (ARCHIVE_ALL_AGGREGATING_TASKS_ERROR _ _ _) = ''ARCHIVE_ALL_AGGREGATING_TASKS_ERROR''"
| "aggregating_type (DELETE_ALL_AGGREGATING_TASKS_BEGIN _ _) = ''DELETE_ALL_AGGREGATING_TASKS_BEGIN''"
| "aggregating_type (DELETE_ALL_AGGREGATING_TASKS_SUCCESS _ _ _) = ''DELETE_ALL_AGGREGATING_TASKS_SUCCESS''"
| "aggregating_type (DELETE_ALL_AGGREGATING_TASKS_ERROR _ _ _) = ''DELETE_ALL_AGGREGATING_TASKS_ERROR''"

primrec action_type :: "tasks_action \<Rightarrow> string" where
  "action_type (GetTaskInfo a) = get_task_info_type a"
| "action_type (ListActive a) = list_active_type a"
| "action_type (ListPending a) = list_pending_type a"
| "action_type (ListScheduled a) = list_scheduled_type a"
| "action_type (ListRetry a) = list_retry_type a"
| "action_type (ListArchived a) = list_archived_type a"
| "action_type (ListCompleted a) = list_completed_type a"
| "action_type (ListAggregating a) = list_aggregating_type a"
| "action_type (OnActive a) = active_type a"
| "action_type (OnPending a) = pending_type a"
| "action_type (OnScheduledTask a) = scheduled_task_type a"
| "action_type (OnRetryTask a) = retry_task_type a"
| "action_type (OnArchivedTask a) = archived_task_type a"
| "action_type (OnScheduled a) = scheduled_type a"
| "action_type (OnRetry a) = retry_type a"
| "action_type (OnArchived a) = archived_type a"
| "action_type (OnCompleted a) = completed_type a"
| "action_type (OnAggregatingTask a) = aggregating_task_type a"
| "action_type (OnAggregating a) = aggregating_type a"

text \<open>The \<open>queue\<close> field of an action; the task detail actions have none.\<close>

primrec task_action_queue :: "tasks_action \<Rightarrow> jstring option" where
  "task_action_queue (GetTaskInfo a) = None"
| "task_action_queue (ListActive a) = Some (list_active_queue a)"
| "task_action_queue (ListPending a) = Some (list_pending_queue a)"
| "task_action_queue (ListScheduled a) = Some (list_scheduled_queue a)"
| "task_action_queue (ListRetry a) = Some (list_retry_queue a)"
| "task_action_queue (ListArchived a) = Some (list_archived_queue a)"
| "task_action_queue (ListCompleted a) = Some (list_completed_queue a)"
| "task_action_queue (ListAggregating a) = Some (list_aggregating_queue a)"
| "task_action_queue (OnActive a) = Some (active_queue a)"
| "task_action_queue (OnPending a) = Some (pending_queue a)"
| "task_action_queue (OnScheduledTask a) = Some (scheduled_task_queue a)"
| "task_action_queue (OnRetryTask a) = Some (retry_task_queue a)"
| "task_action_queue (OnArchivedTask a) = Some (archived_task_queue a)"
| "task_action_queue (OnScheduled a) = Some (scheduled_queue a)"
| "task_action_queue (OnRetry a) = Some (retry_queue a)"
| "task_action_queue (OnArchived a) = Some (archived_queue a)"
| "task_action_queue (OnCompleted a) = Some (completed_queue a)"
| "task_action_queue (OnAggregatingTask a) = Some (aggregating_task_queue a)"
| "task_action_queue (OnAggregating a) = Some (aggregating_queue a)"

subsection \<open>Request thunks\<close>

definition getTaskInfoAsync :: "api_env \<Rightarrow> (http_request \<Rightarrow> task_info outcome) \<Rightarrow> jstring \<Rightarrow> jstring \<Rightarrow> bool \<Rightarrow> tasks_action list" where
  "getTaskInfoAsync env send qname ident latest =
     GetTaskInfo GET_TASK_INFO_BEGIN #
       (if \<not> latest then [] else (case call send (getTaskInfo env qname ident) of
           Fulfilled r \<Rightarrow> [GetTaskInfo (GET_TASK_INFO_SUCCESS r)]
         | Rejected e \<Rightarrow> [GetTaskInfo (GET_TASK_INFO_ERROR (toErrorString e))]))"

definition listActiveTasksAsync :: "api_env \<Rightarrow> (http_request \<Rightarrow> list_tasks_response outcome) \<Rightarrow> jstring \<Rightarrow> page_options option \<Rightarrow> bool \<Rightarrow> tasks_action list" where
  "listActiveTasksAsync env send qname pageOpts latest =
     ListActive (LIST_ACTIVE_TASKS_BEGIN qname) #
       (if \<not> latest then [] else (case call send (listActiveTasks env qname pageOpts) of
           Fulfilled r \<Rightarrow> [ListActive (LIST_ACTIVE_TASKS_SUCCESS qname r)]
         | Rejected e \<Rightarrow> [ListActive (LIST_ACTIVE_TASKS_ERROR qname (toErrorString e))]))"

definition listPendingTasksAsync :: "api_env \<Rightarrow> (http_request \<Rightarrow> list_tasks_response outcome) \<Rightarrow> jstring \<Rightarrow> page_options option \<Rightarrow> bool \<Rightarrow> tasks_action list" where
  "listPendingTasksAsync env send qname pageOpts latest =
     ListPending (LIST_PENDING_TASKS_BEGIN qname) #
       (if \<not> latest then [] else (case call send (listPendingTasks env qname pageOpts) of
           Fulfilled r \<Rightarrow> [ListPending (LIST_PENDING_TASKS_SUCCESS qname r)]
         | Rejected e \<Rightarrow> [ListPending (LIST_PENDING_TASKS_ERROR qname (toErrorString e))]))"

definition listScheduledTasksAsync :: "api_env \<Rightarrow> (http_request \<Rightarrow> list_tasks_response outcome) \<Rightarrow> jstring \<Rightarrow> page_options option \<Rightarrow> bool \<Rightarrow> tasks_action list" where
  "listScheduledTasksAsync env send qname pageOpts latest =
     ListScheduled (LIST_SCHEDULED_TASKS_BEGIN qname) #
       (if \<not> latest then [] else (case call send (listScheduledTasks env qname pageOpts) of
           Fulfilled r \<Rightarrow> [ListScheduled (LIST_SCHEDULED_TASKS_SUCCESS qname r)]
         | Rejected e \<Rightarrow> [ListScheduled (LIST_SCHEDULED_TASKS_ERROR qname (toErrorString e))]))"

definition listRetryTasksAsync :: "api_env \<Rightarrow> (http_request \<Rightarrow> list_tasks_response outcome) \<Rightarrow> jstring \<Rightarrow> page_options option \<Rightarrow> bool \<Rightarrow> tasks_action list" where
  "listRetryTasksAsync env send qname pageOpts latest =
     ListRetry (LIST_RETRY_TASKS_BEGIN qname) #
       (if \<not> latest then [] else (case call send (listRetryTasks env qname pageOpts) of
           Fulfilled r \<Rightarrow> [ListRetry (LIST_RETRY_TASKS_SUCCESS qname r)]
         | Rejected e \<Rightarrow> [ListRetry (LIST_RETRY_TASKS_ERROR qname (toErrorString e))]))"

definition listArchivedTasksAsync :: "api_env \<Rightarrow> (http_request \<Rightarrow> list_tasks_response outcome) \<Rightarrow> jstring \<Rightarrow> page_options option \<Rightarrow> bool \<Rightarrow> tasks_action list" where
  "listArchivedTasksAsync env send qname pageOpts latest =
     ListArchived (LIST_ARCHIVED_TASKS_BEGIN qname) #
       (if \<not> latest then [] else (case call send (listArchivedTasks env qname pageOpts) of
           Fulfilled r \<Rightarrow> [ListArchived (LIST_ARCHIVED_TASKS_SUCCESS qname r)]
         | Rejected e \<Rightarrow> [ListArchived (LIST_ARCHIVED_TASKS_ERROR qname (toErrorString e))]))"

definition listCompletedTasksAsync :: "api_env \<Rightarrow> (http_request \<Rightarrow> list_tasks_response outcome) \<Rightarrow> jstring \<Rightarrow> page_options option \<Rightarrow> bool \<Rightarrow> tasks_action list" where
  "listCompletedTasksAsync env send qname pageOpts latest =
     ListCompleted (LIST_COMPLETED_TASKS_BEGIN qname) #
       (if \<not> latest then [] else (case call send (listCompletedTasks env qname pageOpts) of
           Fulfilled r \<Rightarrow> [ListCompleted (LIST_COMPLETED_TASKS_SUCCESS qname r)]
         | Rejected e \<Rightarrow> [ListCompleted (LIST_COMPLETED_TASKS_ERROR qname (toErrorString e))]))"

definition listAggregatingTasksAsync :: "api_env \<Rightarrow> (http_request \<Rightarrow> list_aggregating_tasks_response outcome) \<Rightarrow> jstring \<Rightarrow> jstring \<Rightarrow> page_options option \<Rightarrow> bool \<Rightarrow> tasks_action list" where
  "listAggregatingTasksAsync env send qname gname pageOpts latest =
     ListAggregating (LIST_AGGREGATING_TASKS_BEGIN qname gname) #
       (if \<not> latest then [] else (case call send (listAggregatingTasks env qname gname pageOpts) of
           Fulfilled r \<Rightarrow> [ListAggregating (LIST_AGGREGATING_TASKS_SUCCESS qname gname r)]
         | Rejected e \<Rightarrow> [ListAggregating (LIST_AGGREGATING_TASKS_ERROR qname gname (toErrorString e))]))"

definition cancelActiveTaskAsync :: "api_env \<Rightarrow> (http_request \<Rightarrow> unit outcome) \<Rightarrow> jstring \<Rightarrow> jstring \<Rightarrow> tasks_action list" where
  "cancelActiveTaskAsync env send queue taskId =
     OnActive (CANCEL_ACTIVE_TASK_BEGIN queue taskId) #
       (case call send (cancelActiveTask env queue taskId) of
           Fulfilled _ \<Rightarrow> [OnActive (CANCEL_ACTIVE_TASK_SUCCESS queue taskId)]
         | Rejected e \<Rightarrow> [OnActive (CANCEL_ACTIVE_TASK_ERROR queue taskId (toErrorString e))])"

definition cancelAllActiveTasksAsync :: "api_env \<Rightarrow> (http_request \<Rightarrow> unit outcome) \<Rightarrow> jstring \<Rightarrow> tasks_action list" where
  "cancelAllActiveTasksAsync env send queue =
     OnActive (CANCEL_ALL_ACTIVE_TASKS_BEGIN queue) #
       (case call send (cancelAllActiveTasks env queue) of
           Fulfilled _ \<Rightarrow> [OnActive (CANCEL_ALL_ACTIVE_TASKS_SUCCESS queue)]
         | Rejected e \<Rightarrow> [OnActive (CANCEL_ALL_ACTIVE_TASKS_ERROR queue (toErrorString e))])"

definition batchCancelActiveTasksAsync :: "api_env \<Rightarrow> (http_request \<Rightarrow> batch_cancel_tasks_response outcome) \<Rightarrow> jstring \<Rightarrow> jstring list \<Rightarrow> tasks_action list" where
  "batchCancelActiveTasksAsync env send queue taskIds =
     OnActive (BATCH_CANCEL_ACTIVE_TASKS_BEGIN queue taskIds) #
       (case call send (batchCancelActiveTasks env queue taskIds) of
           Fulfilled r \<Rightarrow> [OnActive (BATCH_CANCEL_ACTIVE_TASKS_SUCCESS queue r)]
         | Rejected e \<Rightarrow> [OnActive (BATCH_CANCEL_ACTIVE_TASKS_ERROR queue taskIds (toErrorString e))])"

definition runScheduledTaskAsync :: "api_env \<Rightarrow> (http_request \<Rightarrow> unit outcome) \<Rightarrow> jstring \<Rightarrow> jstring \<Rightarrow> tasks_action list" where
  "runScheduledTaskAsync env send queue taskId =
     OnScheduledTask (RUN_SCHEDULED_TASK_BEGIN queue taskId) #
       (case call send (runScheduledTask env queue taskId) of
           Fulfilled _ \<Rightarrow> [OnScheduledTask (RUN_SCHEDULED_TASK_SUCCESS queue taskId)]
         | Rejected e \<Rightarrow> [OnScheduledTask (RUN_SCHEDULED_TASK_ERROR queue taskId (toErrorString e))])"

definition runRetryTaskAsync :: "api_env \<Rightarrow> (http_request \<Rightarrow> unit outcome) \<Rightarrow> jstring \<Rightarrow> jstring \<Rightarrow> tasks_action list" where
  "runRetryTaskAsync env send queue taskId =
     OnRetryTask (RUN_RETRY_TASK_BEGIN queue taskId) #
       (case call send (runRetryTask env queue taskId) of
           Fulfilled _ \<Rightarrow> [OnRetryTask (RUN_RETRY_TASK_SUCCESS queue taskId)]
         | Rejected e \<Rightarrow> [OnRetryTask (RUN_RETRY_TASK_ERROR queue taskId (toErrorString e))])"

definition archivePendingTaskAsync :: "api_env \<Rightarrow> (http_request \<Rightarrow> unit outcome) \<Rightarrow> jstring \<Rightarrow> jstring \<Rightarrow> tasks_action list" where
  "archivePendingTaskAsync env send queue taskId =
     OnPending (ARCHIVE_PENDING_TASK_BEGIN queue taskId) #
       (case call send (archivePendingTask env queue taskId) of
           Fulfilled _ \<Rightarrow> [OnPending (ARCHIVE_PENDING_TASK_SUCCESS queue taskId)]
         | Rejected e \<Rightarrow> [OnPending (ARCHIVE_PENDING_TASK_ERROR queue taskId (toErrorString e))])"

definition archiveScheduledTaskAsync :: "api_env \<Rightarrow> (http_request \<Rightarrow> unit outcome) \<Rightarrow> jstring \<Rightarrow> jstring \<Rightarrow> tasks_action list" where
  "archiveScheduledTaskAsync env send queue taskId =
     OnScheduledTask (ARCHIVE_SCHEDULED_TASK_BEGIN queue taskId) #
       (case call send (archiveScheduledTask env queue taskId) of
           Fulfilled _ \<Rightarrow> [OnScheduledTask (ARCHIVE_SCHEDULED_TASK_SUCCESS queue taskId)]
         | Rejected e \<Rightarrow> [OnScheduledTask (ARCHIVE_SCHEDULED_TASK_ERROR queue taskId (toErrorString e))])"

definition archiveRetryTaskAsync :: "api_env \<Rightarrow> (http_request \<Rightarrow> unit outcome) \<Rightarrow> jstring \<Rightarrow> jstring \<Rightarrow> tasks_action list" where
  "archiveRetryTaskAsync env send queue taskId =
     OnRetryTask (ARCHIVE_RETRY_TASK_BEGIN queue taskId) #
       (case call send (archiveRetryTask env queue taskId) of
           Fulfilled _ \<Rightarrow> [OnRetryTask (ARCHIVE_RETRY_TASK_SUCCESS queue taskId)]
         | Rejected e \<Rightarrow> [OnRetryTask (ARCHIVE_RETRY_TASK_ERROR queue taskId (toErrorString e))])"

definition runArchivedTaskAsync :: "api_env \<Rightarrow> (http_request \<Rightarrow> unit outcome) \<Rightarrow> jstring \<Rightarrow> jstring \<Rightarrow> tasks_action list" where
  "runArchivedTaskAsync env send queue taskId =
     OnArchivedTask (RUN_ARCHIVED_TASK_BEGIN queue taskId) #
       (case call send (runArchivedTask env queue taskId) of
           Fulfilled _ \<Rightarrow> [OnArchivedTask (RUN_ARCHIVED_TASK_SUCCESS queue taskId)]
         | Rejected e \<Rightarrow> [OnArchivedTask (RUN_ARCHIVED_TASK_ERROR queue taskId (toErrorString e))])"

definition deletePendingTaskAsync :: "api_env \<Rightarrow> (http_request \<Rightarrow> unit outcome) \<Rightarrow> jstring \<Rightarrow> jstring \<Rightarrow> tasks_action list" where
  "deletePendingTaskAsync env send queue taskId =
     OnPending (DELETE_PENDING_TASK_BEGIN queue taskId) #
       (case call send (deletePendingTask env queue taskId) of
           Fulfilled _ \<Rightarrow> [OnPending (DELETE_PENDING_TASK_SUCCESS queue taskId)]
         | Rejected e \<Rightarrow> [OnPending (DELETE_PENDING_TASK_ERROR queue taskId (toErrorString e))])"

definition batchDeletePendingTasksAsync :: "api_env \<Rightarrow> (http_request \<Rightarrow> batch_delete_tasks_response outcome) \<Rightarrow> jstring \<Rightarrow> jstring list \<Rightarrow> tasks_action list" where
  "batchDeletePendingTasksAsync env send queue taskIds =
     OnPending (BATCH_DELETE_PENDING_TASKS_BEGIN queue taskIds) #
       (case call send (batchDeletePendingTasks env queue taskIds) of
           Fulfilled r \<Rightarrow> [OnPending (BATCH_DELETE_PENDING_TASKS_SUCCESS queue r)]
         | Rejected e \<Rightarrow> [OnPending (BATCH_DELETE_PENDING_TASKS_ERROR queue taskIds (toErrorString e))])"

definition deleteScheduledTaskAsync :: "api_env \<Rightarrow> (http_request \<Rightarrow> unit outcome) \<Rightarrow> jstring \<Rightarrow> jstring \<Rightarrow> tasks_action list" where
  "deleteScheduledTaskAsync env send queue taskId =
     OnScheduled (DELETE_SCHEDULED_TASK_BEGIN queue taskId) #
       (case call send (deleteScheduledTask env queue taskId) of
           Fulfilled _ \<Rightarrow> [OnScheduled (DELETE_SCHEDULED_TASK_SUCCESS queue taskId)]
         | Rejected e \<Rightarrow> [OnScheduled (DELETE_SCHEDULED_TASK_ERROR queue taskId (toErrorString e))])"

definition batchDeleteScheduledTasksAsync :: "api_env \<Rightarrow> (http_request \<Rightarrow> batch_delete_tasks_response outcome) \<Rightarrow> jstring \<Rightarrow> jstring list \<Rightarrow> tasks_action list" where
  "batchDeleteScheduledTasksAsync env send queue taskIds =
     OnScheduled (BATCH_DELETE_SCHEDULED_TASKS_BEGIN queue taskIds) #
       (case call send (batchDeleteScheduledTasks env queue taskIds) of
           Fulfilled r \<Rightarrow> [OnScheduled (BATCH_DELETE_SCHEDULED_TASKS_SUCCESS queue r)]
         | Rejected e \<Rightarrow> [OnScheduled (BATCH_DELETE_SCHEDULED_TASKS_ERROR queue taskIds (toErrorString e))])"

definition batchRunScheduledTasksAsync :: "api_env \<Rightarrow> (http_request \<Rightarrow> batch_run_tasks_response outcome) \<Rightarrow> jstring \<Rightarrow> jstring list \<Rightarrow> tasks_action list" where
  "batchRunScheduledTasksAsync env send queue taskIds =
     OnScheduled (BATCH_RUN_SCHEDULED_TASKS_BEGIN queue taskIds) #
       (case call send (batchRunScheduledTasks env queue taskIds) of
           Fulfilled r \<Rightarrow> [OnScheduled (BATCH_RUN_SCHEDULED_TASKS_SUCCESS queue r)]
         | Rejected e \<Rightarrow> [OnScheduled (BATCH_RUN_SCHEDULED_TASKS_ERROR queue taskIds (toErrorString e))])"

definition batchArchiveScheduledTasksAsync :: "api_env \<Rightarrow> (http_request \<Rightarrow> batch_archive_tasks_response outcome) \<Rightarrow> jstring \<Rightarrow> jstring list \<Rightarrow> tasks_action list" where
  "batchArchiveScheduledTasksAsync env send queue taskIds =
     OnScheduled (BATCH_ARCHIVE_SCHEDULED_TASKS_BEGIN queue taskIds) #
       (case call send (batchArchiveScheduledTasks env queue taskIds) of
           Fulfilled r \<Rightarrow> [OnScheduled (BATCH_ARCHIVE_SCHEDULED_TASKS_SUCCESS queue r)]
         | Rejected e \<Rightarrow> [OnScheduled (BATCH_ARCHIVE_SCHEDULED_TASKS_ERROR queue taskIds (toErrorString e))])"

definition batchArchivePendingTasksAsync :: "api_env \<Rightarrow> (http_request \<Rightarrow> batch_archive_tasks_response outcome) \<Rightarrow> jstring \<Rightarrow> jstring list \<Rightarrow> tasks_action list" where
  "batchArchivePendingTasksAsync env send queue taskIds =
     OnPending (BATCH_ARCHIVE_PENDING_TASKS_BEGIN queue taskIds) #
       (case call send (batchArchivePendingTasks env queue taskIds) of
           Fulfilled r \<Rightarrow> [OnPending (BATCH_ARCHIVE_PENDING_TASKS_SUCCESS queue r)]
         | Rejected e \<Rightarrow> [OnPending (BATCH_ARCHIVE_PENDING_TASKS_ERROR queue taskIds (toErrorString e))])"

definition deleteAggregatingTaskAsync :: "api_env \<Rightarrow> (http_request \<Rightarrow> unit outcome) \<Rightarrow> jstring \<Rightarrow> jstring \<Rightarrow> jstring \<Rightarrow> tasks_action list" where
  "deleteAggregatingTaskAsync env send queue gname taskId =
     OnAggregatingTask (DELETE_AGGREGATING_TASK_BEGIN queue taskId) #
       (case call send (deleteAggregatingTask env queue gname taskId) of
           Fulfilled _ \<Rightarrow> [OnAggregatingTask (DELETE_AGGREGATING_TASK_SUCCESS queue taskId)]
         | Rejected e \<Rightarrow> [OnAggregatingTask (DELETE_AGGREGATING_TASK_ERROR queue taskId (toErrorString e))])"

definition runAggregatingTaskAsync :: "api_env \<Rightarrow> (http_request \<Rightarrow> unit outcome) \<Rightarrow> jstring \<Rightarrow> jstring \<Rightarrow> jstring \<Rightarrow> tasks_action list" where
  "runAggregatingTaskAsync env send queue gname taskId =
     OnAggregatingTask (RUN_AGGREGATING_TASK_BEGIN queue taskId) #
       (case call send (runAggregatingTask env queue gname taskId) of
           Fulfilled _ \<Rightarrow> [OnAggregatingTask (RUN_AGGREGATING_TASK_SUCCESS queue taskId)]
         | Rejected e \<Rightarrow> [OnAggregatingTask (RUN_AGGREGATING_TASK_ERROR queue taskId (toErrorString e))])"

definition archiveAggregatingTaskAsync :: "api_env \<Rightarrow> (http_request \<Rightarrow> unit outcome) \<Rightarrow> jstring \<Rightarrow> jstring \<Rightarrow> jstring \<Rightarrow> tasks_action list" where
  "archiveAggregatingTaskAsync env send queue gname taskId =
     OnAggregatingTask (ARCHIVE_AGGREGATING_TASK_BEGIN queue taskId) #
       (case call send (archiveAggregatingTask env queue gname taskId) of
           Fulfilled _ \<Rightarrow> [OnAggregatingTask (ARCHIVE_AGGREGATING_TASK_SUCCESS queue taskId)]
         | Rejected e \<Rightarrow> [OnAggregatingTask (ARCHIVE_AGGREGATING_TASK_ERROR queue taskId (toErrorString e))])"

definition batchArchiveAggregatingTasksAsync :: "api_env \<Rightarrow> (http_request \<Rightarrow> batch_archive_tasks_response outcome) \<Rightarrow> jstring \<Rightarrow> jstring \<Rightarrow> jstring list \<Rightarrow> tasks_action list" where
  "batchArchiveAggregatingTasksAsync env send queue gname taskIds =
     OnAggregating (BATCH_ARCHIVE_AGGREGATING_TASKS_BEGIN queue gname taskIds) #
       (case call send (batchArchiveAggregatingTasks env queue gname taskIds) of
           Fulfilled r \<Rightarrow> [OnAggregating (BATCH_ARCHIVE_AGGREGATING_TASKS_SUCCESS queue gname r)]
         | Rejected e \<Rightarrow> [OnAggregating (BATCH_ARCHIVE_AGGREGATING_TASKS_ERROR queue gname taskIds (toErrorString e))])"

definition archiveAllPendingTasksAsync :: "api_env \<Rightarrow> (http_request \<Rightarrow> unit outcome) \<Rightarrow> jstring \<Rightarrow> tasks_action list" where
  "archiveAllPendingTasksAsync env send queue =
     OnPending (ARCHIVE_ALL_PENDING_TASKS_BEGIN queue) #
       (case call send (archiveAllPendingTasks env queue) of
           Fulfilled _ \<Rightarrow> [OnPending (ARCHIVE_ALL_PENDING_TASKS_SUCCESS queue)]
         | Rejected e \<Rightarrow> [OnPending (ARCHIVE_ALL_PENDING_TASKS_ERROR queue (toErrorString e))])"

definition deleteAllPendingTasksAsync :: "api_env \<Rightarrow> (http_request \<Rightarrow> delete_all_tasks_response outcome) \<Rightarrow> jstring \<Rightarrow> tasks_action list" where
  "deleteAllPendingTasksAsync env send queue =
     OnPending (DELETE_ALL_PENDING_TASKS_BEGIN queue) #
       (case call send (deleteAllPendingTasks env queue) of
           Fulfilled r \<Rightarrow> [OnPending (DELETE_ALL_PENDING_TASKS_SUCCESS queue (da_deleted r))]
         | Rejected e \<Rightarrow> [OnPending (DELETE_ALL_PENDING_TASKS_ERROR queue (toErrorString e))])"

definition deleteAllAggregatingTasksAsync :: "api_env \<Rightarrow> (http_request \<Rightarrow> delete_all_tasks_response outcome) \<Rightarrow> jstring \<Rightarrow> jstring \<Rightarrow> tasks_action list" where
  "deleteAllAggregatingTasksAsync env send queue gname =
     OnAggregating (DELETE_ALL_AGGREGATING_TASKS_BEGIN queue gname) #
       (case call send (deleteAllAggregatingTasks env queue gname) of
           Fulfilled r \<Rightarrow> [OnAggregating (DELETE_ALL_AGGREGATING_TASKS_SUCCESS queue gname (da_deleted r))]
         | Rejected e \<Rightarrow> [OnAggregating (DELETE_ALL_AGGREGATING_TASKS_ERROR queue gname (toErrorString e))])"

definition deleteAllScheduledTasksAsync :: "api_env \<Rightarrow> (http_request \<Rightarrow> delete_all_tasks_response outcome) \<Rightarrow> jstring \<Rightarrow> tasks_action list" where
  "deleteAllScheduledTasksAsync env send queue =
     OnScheduled (DELETE_ALL_SCHEDULED_TASKS_BEGIN queue) #
       (case call send (deleteAllScheduledTasks env queue) of
           Fulfilled r \<Rightarrow> [OnScheduled (DELETE_ALL_SCHEDULED_TASKS_SUCCESS queue (da_deleted r))]
         | Rejected e \<Rightarrow> [OnScheduled (DELETE_ALL_SCHEDULED_TASKS_ERROR queue (toErrorString e))])"

definition runAllScheduledTasksAsync :: "api_env \<Rightarrow> (http_request \<Rightarrow> unit outcome) \<Rightarrow> jstring \<Rightarrow> tasks_action list" where
  "runAllScheduledTasksAsync env send queue =
     OnScheduled (RUN_ALL_SCHEDULED_TASKS_BEGIN queue) #
       (case call send (runAllScheduledTasks env queue) of
           Fulfilled _ \<Rightarrow> [OnScheduled (RUN_ALL_SCHEDULED_TASKS_SUCCESS queue)]
         | Rejected e \<Rightarrow> [OnScheduled (RUN_ALL_SCHEDULED_TASKS_ERROR queue (toErrorString e))])"

definition archiveAllScheduledTasksAsync :: "api_env \<Rightarrow> (http_request \<Rightarrow> unit outcome) \<Rightarrow> jstring \<Rightarrow> tasks_action list" where
  "archiveAllScheduledTasksAsync env send queue =
     OnScheduled (ARCHIVE_ALL_SCHEDULED_TASKS_BEGIN queue) #
       (case call send (archiveAllScheduledTasks env queue) of
           Fulfilled _ \<Rightarrow> [OnScheduled (ARCHIVE_ALL_SCHEDULED_TASKS_SUCCESS queue)]
         | Rejected e \<Rightarrow> [OnScheduled (ARCHIVE_ALL_SCHEDULED_TASKS_ERROR queue (toErrorString e))])"

definition archiveAllAggregatingTasksAsync :: "api_env \<Rightarrow> (http_request \<Rightarrow> archive_all_tasks_response outcome) \<Rightarrow> jstring \<Rightarrow> jstring \<Rightarrow> tasks_action list" where
  "archiveAllAggregatingTasksAsync env send queue gname =
     OnAggregating (ARCHIVE_ALL_AGGREGATING_TASKS_BEGIN queue gname) #
       (case call send (archiveAllAggregatingTasks env queue gname) of
           Fulfilled r \<Rightarrow> [OnAggregating (ARCHIVE_ALL_AGGREGATING_TASKS_SUCCESS queue gname (aa_archived r))]
         | Rejected e \<Rightarrow> [OnAggregating (ARCHIVE_ALL_AGGREGATING_TASKS_ERROR queue gname (toErrorString e))])"

definition runAllAggregatingTasksAsync :: "api_env \<Rightarrow> (http_request \<Rightarrow> run_all_tasks_response outcome) \<Rightarrow> jstring \<Rightarrow> jstring \<Rightarrow> tasks_action list" where
  "runAllAggregatingTasksAsync env send queue gname =
     OnAggregating (RUN_ALL_AGGREGATING_TASKS_BEGIN queue gname) #
       (case call send (runAllAggregatingTasks env queue gname) of
           Fulfilled r \<Rightarrow> [OnAggregating (RUN_ALL_AGGREGATING_TASKS_SUCCESS queue gname (ra_scheduled r))]
         | Rejected e \<Rightarrow> [OnAggregating (RUN_ALL_AGGREGATING_TASKS_ERROR queue gname (toErrorString e))])"

definition deleteRetryTaskAsync :: "api_env \<Rightarrow> (http_request \<Rightarrow> unit outcome) \<Rightarrow> jstring \<Rightarrow> jstring \<Rightarrow> tasks_action list" where
  "deleteRetryTaskAsync env send queue taskId =
     OnRetry (DELETE_RETRY_TASK_BEGIN queue taskId) #
       (case call send (deleteRetryTask env queue taskId) of
           Fulfilled _ \<Rightarrow> [OnRetry (DELETE_RETRY_TASK_SUCCESS queue taskId)]
         | Rejected e \<Rightarrow> [OnRetry (DELETE_RETRY_TASK_ERROR queue taskId (toErrorString e))])"

definition batchDeleteRetryTasksAsync :: "api_env \<Rightarrow> (http_request \<Rightarrow> batch_delete_tasks_response outcome) \<Rightarrow> jstring \<Rightarrow> jstring list \<Rightarrow> tasks_action list" where
  "batchDeleteRetryTasksAsync env send queue taskIds =
     OnRetry (BATCH_DELETE_RETRY_TASKS_BEGIN queue taskIds) #
       (case call send (batchDeleteRetryTasks env queue taskIds) of
           Fulfilled r \<Rightarrow> [OnRetry (BATCH_DELETE_RETRY_TASKS_SUCCESS queue r)]
         | Rejected e \<Rightarrow> [OnRetry (BATCH_DELETE_RETRY_TASKS_ERROR queue taskIds (toErrorString e))])"

definition batchRunRetryTasksAsync :: "api_env \<Rightarrow> (http_request \<Rightarrow> batch_run_tasks_response outcome) \<Rightarrow> jstring \<Rightarrow> jstring list \<Rightarrow> tasks_action list" where
  "batchRunRetryTasksAsync env send queue taskIds =
     OnRetry (BATCH_RUN_RETRY_TASKS_BEGIN queue taskIds) #
       (case call send (batchRunRetryTasks env queue taskIds) of
           Fulfilled r \<Rightarrow> [OnRetry (BATCH_RUN_RETRY_TASKS_SUCCESS queue r)]
         | Rejected e \<Rightarrow> [OnRetry (BATCH_RUN_RETRY_TASKS_ERROR queue taskIds (toErrorString e))])"

definition batchRunAggregatingTasksAsync :: "api_env \<Rightarrow> (http_request \<Rightarrow> batch_run_tasks_response outcome) \<Rightarrow> jstring \<Rightarrow> jstring \<Rightarrow> jstring list \<Rightarrow> tasks_action list" where
  "batchRunAggregatingTasksAsync env send queue gname taskIds =
     OnAggregating (BATCH_RUN_AGGREGATING_TASKS_BEGIN queue gname taskIds) #
       (case call send (batchRunAggregatingTasks env queue gname taskIds) of
           Fulfilled r \<Rightarrow> [OnAggregating (BATCH_RUN_AGGREGATING_TASKS_SUCCESS queue gname r)]
         | Rejected e \<Rightarrow> [OnAggregating (BATCH_RUN_AGGREGATING_TASKS_ERROR queue gname taskIds (toErrorString e))])"

definition batchArchiveRetryTasksAsync :: "api_env \<Rightarrow> (http_request \<Rightarrow> batch_archive_tasks_response outcome) \<Rightarrow> jstring \<Rightarrow> jstring list \<Rightarrow> tasks_action list" where
  "batchArchiveRetryTasksAsync env send queue taskIds =
     OnRetry (BATCH_ARCHIVE_RETRY_TASKS_BEGIN queue taskIds) #
       (case call send (batchArchiveRetryTasks env queue taskIds) of
           Fulfilled r \<Rightarrow> [OnRetry (BATCH_ARCHIVE_RETRY_TASKS_SUCCESS queue r)]
         | Rejected e \<Rightarrow> [OnRetry (BATCH_ARCHIVE_RETRY_TASKS_ERROR queue taskIds (toErrorString e))])"

definition deleteAllRetryTasksAsync :: "api_env \<Rightarrow> (http_request \<Rightarrow> delete_all_tasks_response outcome) \<Rightarrow> jstring \<Rightarrow> tasks_action list" where
  "deleteAllRetryTasksAsync env send queue =
     OnRetry (DELETE_ALL_RETRY_TASKS_BEGIN queue) #
       (case call send (deleteAllRetryTasks env queue) of
           Fulfilled r \<Rightarrow> [OnRetry (DELETE_ALL_RETRY_TASKS_SUCCESS queue (da_deleted r))]
         | Rejected e \<Rightarrow> [OnRetry (DELETE_ALL_RETRY_TASKS_ERROR queue (toErrorString e))])"

definition runAllRetryTasksAsync :: "api_env \<Rightarrow> (http_request \<Rightarrow> unit outcome) \<Rightarrow> jstring \<Rightarrow> tasks_action list" where
  "runAllRetryTasksAsync env send queue =
     OnRetry (RUN_ALL_RETRY_TASKS_BEGIN queue) #
       (case call send (runAllRetryTasks env queue) of
           Fulfilled _ \<Rightarrow> [OnRetry (RUN_ALL_RETRY_TASKS_SUCCESS queue)]
         | Rejected e \<Rightarrow> [OnRetry (RUN_ALL_RETRY_TASKS_ERROR queue (toErrorString e))])"

definition archiveAllRetryTasksAsync :: "api_env \<Rightarrow> (http_request \<Rightarrow> unit outcome) \<Rightarrow> jstring \<Rightarrow> tasks_action list" where
  "archiveAllRetryTasksAsync env send queue =
     OnRetry (ARCHIVE_ALL_RETRY_TASKS_BEGIN queue) #
       (case call send (archiveAllRetryTasks env queue) of
           Fulfilled _ \<Rightarrow> [OnRetry (ARCHIVE_ALL_RETRY_TASKS_SUCCESS queue)]
         | Rejected e \<Rightarrow> [OnRetry (ARCHIVE_ALL_RETRY_TASKS_ERROR queue (toErrorString e))])"

definition deleteArchivedTaskAsync :: "api_env \<Rightarrow> (http_request \<Rightarrow> unit outcome) \<Rightarrow> jstring \<Rightarrow> jstring \<Rightarrow> tasks_action list" where
  "deleteArchivedTaskAsync env send queue taskId =
     OnArchived (DELETE_ARCHIVED_TASK_BEGIN queue taskId) #
       (case call send (deleteArchivedTask env queue taskId) of
           Fulfilled _ \<Rightarrow> [OnArchived (DELETE_ARCHIVED_TASK_SUCCESS queue taskId)]
         | Rejected e \<Rightarrow> [OnArchived (DELETE_ARCHIVED_TASK_ERROR queue taskId (toErrorString e))])"

definition batchDeleteArchivedTasksAsync :: "api_env \<Rightarrow> (http_request \<Rightarrow> batch_delete_tasks_response outcome) \<Rightarrow> jstring \<Rightarrow> jstring list \<Rightarrow> tasks_action list" where
  "batchDeleteArchivedTasksAsync env send queue taskIds =
     OnArchived (BATCH_DELETE_ARCHIVED_TASKS_BEGIN queue taskIds) #
       (case call send (batchDeleteArchivedTasks env queue taskIds) of
           Fulfilled r \<Rightarrow> [OnArchived (BATCH_DELETE_ARCHIVED_TASKS_SUCCESS queue r)]
         | Rejected e \<Rightarrow> [OnArchived (BATCH_DELETE_ARCHIVED_TASKS_ERROR queue taskIds (toErrorString e))])"

definition batchRunArchivedTasksAsync :: "api_env \<Rightarrow> (http_request \<Rightarrow> batch_run_tasks_response outcome) \<Rightarrow> jstring \<Rightarrow> jstring list \<Rightarrow> tasks_action list" where
  "batchRunArchivedTasksAsync env send queue taskIds =
     OnArchived (BATCH_RUN_ARCHIVED_TASKS_BEGIN queue taskIds) #
       (case call send (batchRunArchivedTasks env queue taskIds) of
           Fulfilled r \<Rightarrow> [OnArchived (BATCH_RUN_ARCHIVED_TASKS_SUCCESS queue r)]
         | Rejected e \<Rightarrow> [OnArchived (BATCH_RUN_ARCHIVED_TASKS_ERROR queue taskIds (toErrorString e))])"

definition deleteAllArchivedTasksAsync :: "api_env \<Rightarrow> (http_request \<Rightarrow> delete_all_tasks_response outcome) \<Rightarrow> jstring \<Rightarrow> tasks_action list" where
  "deleteAllArchivedTasksAsync env send queue =
     OnArchived (DELETE_ALL_ARCHIVED_TASKS_BEGIN queue) #
       (case call send (deleteAllArchivedTasks env queue) of
           Fulfilled r \<Rightarrow> [OnArchived (DELETE_ALL_ARCHIVED_TASKS_SUCCESS queue (da_deleted r))]
         | Rejected e \<Rightarrow> [OnArchived (DELETE_ALL_ARCHIVED_TASKS_ERROR queue (toErrorString e))])"

definition runAllArchivedTasksAsync :: "api_env \<Rightarrow> (http_request \<Rightarrow> unit outcome) \<Rightarrow> jstring \<Rightarrow> tasks_action list" where
  "runAllArchivedTasksAsync env send queue =
     OnArchived (RUN_ALL_ARCHIVED_TASKS_BEGIN queue) #
       (case call send (runAllArchivedTasks env queue) of
           Fulfilled _ \<Rightarrow> [OnArchived (RUN_ALL_ARCHIVED_TASKS_SUCCESS queue)]
         | Rejected e \<Rightarrow> [OnArchived (RUN_ALL_ARCHIVED_TASKS_ERROR queue (toErrorString e))])"

definition deleteCompletedTaskAsync :: "api_env \<Rightarrow> (http_request \<Rightarrow> unit outcome) \<Rightarrow> jstring \<Rightarrow> jstring \<Rightarrow> tasks_action list" where
  "deleteCompletedTaskAsync env send queue taskId =
     OnCompleted (DELETE_COMPLETED_TASK_BEGIN queue taskId) #
       (case call send (deleteCompletedTask env queue taskId) of
           Fulfilled _ \<Rightarrow> [OnCompleted (DELETE_COMPLETED_TASK_SUCCESS queue taskId)]
         | Rejected e \<Rightarrow> [OnCompleted (DELETE_COMPLETED_TASK_ERROR queue taskId (toErrorString e))])"

definition batchDeleteCompletedTasksAsync :: "api_env \<Rightarrow> (http_request \<Rightarrow> batch_delete_tasks_response outcome) \<Rightarrow> jstring \<Rightarrow> jstring list \<Rightarrow> tasks_action list" where
  "batchDeleteCompletedTasksAsync env send queue taskIds =
     OnCompleted (BATCH_DELETE_COMPLETED_TASKS_BEGIN queue taskIds) #
       (case call send (batchDeleteCompletedTasks env queue taskIds) of
           Fulfilled r \<Rightarrow> [OnCompleted (BATCH_DELETE_COMPLETED_TASKS_SUCCESS queue r)]
         | Rejected e \<Rightarrow> [OnCompleted (BATCH_DELETE_COMPLETED_TASKS_ERROR queue taskIds (toErrorString e))])"

definition batchDeleteAggregatingTasksAsync :: "api_env \<Rightarrow> (http_request \<Rightarrow> batch_delete_tasks_response outcome) \<Rightarrow> jstring \<Rightarrow> jstring \<Rightarrow> jstring list \<Rightarrow> tasks_action list" where
  "batchDeleteAggregatingTasksAsync env send queue gname taskIds =
     OnAggregating (BATCH_DELETE_AGGREGATING_TASKS_BEGIN queue gname taskIds) #
       (case call send (batchDeleteAggregatingTasks env queue gname taskIds) of
           Fulfilled r \<Rightarrow> [OnAggregating (BATCH_DELETE_AGGREGATING_TASKS_SUCCESS queue gname r)]
         | Rejected e \<Rightarrow> [OnAggregating (BATCH_DELETE_AGGREGATING_TASKS_ERROR queue gname taskIds (toErrorString e))])"

definition deleteAllCompletedTasksAsync :: "api_env \<Rightarrow> (http_request \<Rightarrow> delete_all_tasks_response outcome) \<Rightarrow> jstring \<Rightarrow> tasks_action list" where
  "deleteAllCompletedTasksAsync env send queue =
     OnCompleted (DELETE_ALL_COMPLETED_TASKS_BEGIN queue) #
       (case call send (deleteAllCompletedTasks env queue) of
           Fulfilled r \<Rightarrow> [OnCompleted (DELETE_ALL_COMPLETED_TASKS_SUCCESS queue (da_deleted r))]
         | Rejected e \<Rightarrow> [OnCompleted (DELETE_ALL_COMPLETED_TASKS_ERROR queue (toErrorString e))])"

text \<open>The thunks, as one family: \<open>dispatches as\<close> when some thunk dispatches \<open>as\<close>.\<close>

inductive dispatches :: "tasks_action list \<Rightarrow> bool" where
  "dispatches (getTaskInfoAsync env send qname ident latest)"
| "dispatches (listActiveTasksAsync env send qname pageOpts latest)"
| "dispatches (listPendingTasksAsync env send qname pageOpts latest)"
| "dispatches (listScheduledTasksAsync env send qname pageOpts latest)"
| "dispatches (listRetryTasksAsync env send qname pageOpts latest)"
| "dispatches (listArchivedTasksAsync env send qname pageOpts latest)"
| "dispatches (listCompletedTasksAsync env send qname pageOpts latest)"
| "dispatches (listAggregatingTasksAsync env send qname gname pageOpts latest)"
| "dispatches (cancelActiveTaskAsync env send queue taskId)"
| "dispatches (cancelAllActiveTasksAsync env send queue)"
| "dispatches (batchCancelActiveTasksAsync env send queue taskIds)"
| "dispatches (runScheduledTaskAsync env send queue taskId)"
| "dispatches (runRetryTaskAsync env send queue taskId)"
| "dispatches (archivePendingTaskAsync env send queue taskId)"
| "dispatches (archiveScheduledTaskAsync env send queue taskId)"
| "dispatches (archiveRetryTaskAsync env send queue taskId)"
| "dispatches (runArchivedTaskAsync env send queue taskId)"
| "dispatches (deletePendingTaskAsync env send queue taskId)"
| "dispatches (batchDeletePendingTasksAsync env send queue taskIds)"
| "dispatches (deleteScheduledTaskAsync env send queue taskId)"
| "dispatches (batchDeleteScheduledTasksAsync env send queue taskIds)"
| "dispatches (batchRunScheduledTasksAsync env send queue taskIds)"
| "dispatches (batchArchiveScheduledTasksAsync env send queue taskIds)"
| "dispatches (batchArchivePendingTasksAsync env send queue taskIds)"
| "dispatches (deleteAggregatingTaskAsync env send queue gname taskId)"
| "dispatches (runAggregatingTaskAsync env send queue gname taskId)"
| "dispatches (archiveAggregatingTaskAsync env send queue gname taskId)"
| "dispatches (batchArchiveAggregatingTasksAsync env send queue gname taskIds)"
| "dispatches (archiveAllPendingTasksAsync env send queue)"
| "dispatches (deleteAllPendingTasksAsync env send queue)"
| "dispatches (deleteAllAggregatingTasksAsync env send queue gname)"
| "dispatches (deleteAllScheduledTasksAsync env send queue)"
| "dispatches (runAllScheduledTasksAsync env send queue)"
| "dispatches (archiveAllScheduledTasksAsync env send queue)"
| "dispatches (archiveAllAggregatingTasksAsync env send queue gname)"
| "dispatches (runAllAggregatingTasksAsync env send queue gname)"
| "dispatches (deleteRetryTaskAsync env send queue taskId)"
| "dispatches (batchDeleteRetryTasksAsync env send queue taskIds)"
| "dispatches (batchRunRetryTasksAsync env send queue taskIds)"
| "dispatches (batchRunAggregatingTasksAsync env send queue gname taskIds)"
| "dispatches (batchArchiveRetryTasksAsync env send queue taskIds)"
| "dispatches (deleteAllRetryTasksAsync env send queue)"
| "dispatches (runAllRetryTasksAsync env send queue)"
| "dispatches (archiveAllRetryTasksAsync env send queue)"
| "dispatches (deleteArchivedTaskAsync env send queue taskId)"
| "dispatches (batchDeleteArchivedTasksAsync env send queue taskIds)"
| "dispatches (batchRunArchivedTasksAsync env send queue taskIds)"
| "dispatches (deleteAllArchivedTasksAsync env send queue)"
| "dispatches (runAllArchivedTasksAsync env send queue)"
| "dispatches (deleteCompletedTaskAsync env send queue taskId)"
| "dispatches (batchDeleteCompletedTasksAsync env send queue taskIds)"
| "dispatches (batchDeleteAggregatingTasksAsync env send queue gname taskIds)"
| "dispatches (deleteAllCompletedTasksAsync env send queue)"

lemmas thunk_defs =
  getTaskInfoAsync_def listActiveTasksAsync_def
  listPendingTasksAsync_def listScheduledTasksAsync_def
  listRetryTasksAsync_def listArchivedTasksAsync_def
  listCompletedTasksAsync_def listAggregatingTasksAsync_def
  cancelActiveTaskAsync_def cancelAllActiveTasksAsync_def
  batchCancelActiveTasksAsync_def runScheduledTaskAsync_def
  runRetryTaskAsync_def archivePendingTaskAsync_def
  archiveScheduledTaskAsync_def archiveRetryTaskAsync_def
  runArchivedTaskAsync_def deletePendingTaskAsync_def
  batchDeletePendingTasksAsync_def deleteScheduledTaskAsync_def
  batchDeleteScheduledTasksAsync_def batchRunScheduledTasksAsync_def
  batchArchiveScheduledTasksAsync_def batchArchivePendingTasksAsync_def
  deleteAggregatingTaskAsync_def runAggregatingTaskAsync_def
  archiveAggregatingTaskAsync_def batchArchiveAggregatingTasksAsync_def
  archiveAllPendingTasksAsync_def deleteAllPendingTasksAsync_def
  deleteAllAggregatingTasksAsync_def deleteAllScheduledTasksAsync_def
  runAllScheduledTasksAsync_def archiveAllScheduledTasksAsync_def
  archiveAllAggregatingTasksAsync_def runAllAggregatingTasksAsync_def
  deleteRetryTaskAsync_def batchDeleteRetryTasksAsync_def
  batchRunRetryTasksAsync_def batchRunAggregatingTasksAsync_def
  batchArchiveRetryTasksAsync_def deleteAllRetryTasksAsync_def
  runAllRetryTasksAsync_def archiveAllRetryTasksAsync_def
  deleteArchivedTaskAsync_def batchDeleteArchivedTasksAsync_def
  batchRunArchivedTasksAsync_def deleteAllArchivedTasksAsync_def
  runAllArchivedTasksAsync_def deleteCompletedTaskAsync_def
  batchDeleteCompletedTasksAsync_def batchDeleteAggregatingTasksAsync_def
  deleteAllCompletedTasksAsync_def

end
