(* ===== verification/Interfaces.thy ===== *)
theory Interfaces
  imports Prelude
begin

text \<open>
  The contracts the components rely on, as locales.

  \<^item> \<open>machine\<close>: a reducer and an invariant it keeps; the client gets the invariant after any
    run of actions.
  \<^item> \<open>request_system\<close>: a reducer driven by asynchronous request thunks. A thunk dispatches a
    BEGIN action when it is called and, once the server answers, a settling action; requests
    overlap freely, and the list thunks drop an answer that a newer request of the same kind
    has superseded. The client gets: a busy flag is raised only while a request that covers it is in
    flight or after an answer that did not fit the state it met, and an answer of a numbered kind that
    is applied is the answer to the newest request of that kind.

  The step relation of the second contract is a definition of its own, parametrised by the
  reducer; the component theories instantiate it with the store of the program.
\<close>

subsection \<open>Reducers and invariants\<close>

locale machine =
  fixes step :: "'s \<Rightarrow> 'a \<Rightarrow> 's"
    and ok :: "'a \<Rightarrow> bool"
    and inv :: "'s \<Rightarrow> bool"
  assumes step_inv: "inv s \<Longrightarrow> ok a \<Longrightarrow> inv (step s a)"
begin

lemma run_inv: "inv s \<Longrightarrow> list_all ok as \<Longrightarrow> inv (foldl step s as)"
proof (induction as arbitrary: s)
  case (Cons a as)
  then show ?case by (simp add: step_inv)
qed simp

end

subsection \<open>Asynchronous requests over a reducer\<close>

text \<open>
  What runs: the store, the requests in flight (the BEGIN action of each with the sequence
  number its thunk drew, 0 for a thunk without one), and the module-level sequence counters.
\<close>

record ('s, 'a, 'k) running =
  store :: 's
  inflight :: "('a \<times> nat) list"
  counters :: "'k \<Rightarrow> nat"

text \<open>What an observer of the system sees in one step.\<close>

datatype 'a event = Issue 'a nat | Apply 'a nat 'a | Discard 'a nat

text \<open>Whether a request is the newest of its kind: what the guard of a numbered thunk compares.\<close>

definition is_latest :: "('a \<Rightarrow> 'k option) \<Rightarrow> ('s, 'a, 'k) running \<Rightarrow> 'a \<Rightarrow> nat \<Rightarrow> bool" where
  "is_latest kind w b n \<longleftrightarrow> (\<forall>k. kind b = Some k \<longrightarrow> n = counters w k)"

text \<open>
  \<open>begins\<close> holds of BEGIN actions; \<open>settles latest b answer\<close> when the thunk that dispatched \<open>b\<close> may, once the
  server has answered, dispatch \<open>answer\<close> (\<open>None\<close> for nothing), \<open>latest\<close> being what its guard finds;
  \<open>kind b\<close> is the sequence counter of the thunk, if it has one.
\<close>

inductive run_step ::
  "('s \<Rightarrow> 'a \<Rightarrow> 's) \<Rightarrow> ('a \<Rightarrow> bool) \<Rightarrow> (bool \<Rightarrow> 'a \<Rightarrow> 'a option \<Rightarrow> bool) \<Rightarrow> ('a \<Rightarrow> 'k option) \<Rightarrow>
   ('s, 'a, 'k) running \<Rightarrow> 'a event \<Rightarrow> ('s, 'a, 'k) running \<Rightarrow> bool"
  for dispatch begins settles kind where
  issue_guarded: "begins b \<Longrightarrow> kind b = Some k \<Longrightarrow> n = Suc (counters w k) \<Longrightarrow>
    run_step dispatch begins settles kind w (Issue b n)
      (w\<lparr>store := dispatch (store w) b, inflight := inflight w @ [(b, n)],
         counters := (counters w)(k := n)\<rparr>)"
| issue_free: "begins b \<Longrightarrow> kind b = None \<Longrightarrow>
    run_step dispatch begins settles kind w (Issue b 0)
      (w\<lparr>store := dispatch (store w) b, inflight := inflight w @ [(b, 0)]\<rparr>)"
| answer: "(b, n) \<in> set (inflight w) \<Longrightarrow> settles (is_latest kind w b n) b (Some a) \<Longrightarrow>
    run_step dispatch begins settles kind w (Apply b n a)
      (w\<lparr>store := dispatch (store w) a, inflight := remove1 (b, n) (inflight w)\<rparr>)"
| silent: "(b, n) \<in> set (inflight w) \<Longrightarrow> settles (is_latest kind w b n) b None \<Longrightarrow>
    run_step dispatch begins settles kind w (Discard b n)
      (w\<lparr>inflight := remove1 (b, n) (inflight w)\<rparr>)"

text \<open>Runs from a state with nothing in flight, with the events in order.\<close>

inductive runs ::
  "('s \<Rightarrow> 'a \<Rightarrow> 's) \<Rightarrow> ('a \<Rightarrow> bool) \<Rightarrow> (bool \<Rightarrow> 'a \<Rightarrow> 'a option \<Rightarrow> bool) \<Rightarrow> ('a \<Rightarrow> 'k option) \<Rightarrow>
   's \<Rightarrow> 'a event list \<Rightarrow> ('s, 'a, 'k) running \<Rightarrow> bool"
  for dispatch begins settles kind s where
  start: "runs dispatch begins settles kind s []
    \<lparr>store = s, inflight = [], counters = (\<lambda>_. 0)\<rparr>"
| more: "runs dispatch begins settles kind s es w \<Longrightarrow>
    run_step dispatch begins settles kind w e w' \<Longrightarrow>
    runs dispatch begins settles kind s (es @ [e]) w'"

inductive_cases runs_snocE: "runs dispatch begins settles kind s (es @ [e]) w"

text \<open>What a sequence of events leaves in the store.\<close>

primrec event_action :: "'a event \<Rightarrow> 'a option" where
  "event_action (Issue b n) = Some b"
| "event_action (Apply b n a) = Some a"
| "event_action (Discard b n) = None"

definition store_after :: "('s \<Rightarrow> 'a \<Rightarrow> 's) \<Rightarrow> 's \<Rightarrow> 'a event list \<Rightarrow> 's" where
  "store_after dispatch s es = foldl dispatch s (List.map_filter event_action es)"

lemma store_after_Nil [simp]: "store_after dispatch s [] = s"
  by (simp add: store_after_def map_filter_simps)

lemma store_after_snoc [simp]:
  "store_after dispatch s (es @ [e]) =
     (case event_action e of Some a \<Rightarrow> dispatch (store_after dispatch s es) a | None \<Rightarrow> store_after dispatch s es)"
  by (simp add: store_after_def map_filter_def split: option.split)

lemma runs_store: "runs dispatch begins settles kind s es w \<Longrightarrow> store w = store_after dispatch s es"
proof (induction rule: runs.induct)
  case start
  show ?case by simp
next
  case (more es w e w')
  from more.hyps(2) more.IH show ?case by (cases rule: run_step.cases) simp_all
qed

text \<open>The request \<open>(b, n)\<close> is the newest of its kind among the events.\<close>

definition newest_issue :: "('a \<Rightarrow> 'k option) \<Rightarrow> 'a \<Rightarrow> nat \<Rightarrow> 'a event list \<Rightarrow> bool" where
  "newest_issue kind b n es \<longleftrightarrow>
     (\<exists>es1 es2. es = es1 @ Issue b n # es2 \<and> (\<forall>b' m. kind b' = kind b \<longrightarrow> Issue b' m \<notin> set es2))"

lemma newest_issue_now: "newest_issue kind b n (es @ [Issue b n])"
  unfolding newest_issue_def by (intro exI [of _ es] exI [of _ "[]"]) simp

lemma newest_issue_later:
  assumes "newest_issue kind b n es" "\<And>b' m. e = Issue b' m \<Longrightarrow> kind b' \<noteq> kind b"
  shows "newest_issue kind b n (es @ [e])"
proof -
  obtain es1 es2 where "es = es1 @ Issue b n # es2" "\<forall>b' m. kind b' = kind b \<longrightarrow> Issue b' m \<notin> set es2"
    using assms(1) by (auto simp: newest_issue_def)
  with assms(2) show ?thesis
    unfolding newest_issue_def by (intro exI [of _ es1] exI [of _ "es2 @ [e]"]) auto
qed

text \<open>What the sequence counters keep: no number exceeds its counter, and the one that equals it is the newest.\<close>

definition issue_numbered :: "('a \<Rightarrow> 'k option) \<Rightarrow> 'a event list \<Rightarrow> ('s, 'a, 'k) running \<Rightarrow> bool" where
  "issue_numbered kind es w \<longleftrightarrow> (\<forall>b n k. (b, n) \<in> set (inflight w) \<longrightarrow> kind b = Some k \<longrightarrow>
     n \<le> counters w k \<and> (n = counters w k \<longrightarrow> newest_issue kind b n es))"

lemma numbered_landed:
  assumes "issue_numbered kind es w" "set (inflight w') \<subseteq> set (inflight w)" "counters w' = counters w"
    and "\<And>b m. e \<noteq> Issue b m"
  shows "issue_numbered kind (es @ [e]) w'"
  using assms newest_issue_later unfolding issue_numbered_def by (metis subsetD)

lemma numbered_step:
  assumes inv: "issue_numbered kind es w" and step: "run_step dispatch begins settles kind w e w'"
  shows "issue_numbered kind (es @ [e]) w'"
  using step
proof (cases rule: run_step.cases)
  case (issue_guarded b k n)
  have "m \<le> counters w' k' \<and> (m = counters w' k' \<longrightarrow> newest_issue kind c m (es @ [e]))"
    if "(c, m) \<in> set (inflight w')" "kind c = Some k'" for c m k'
  proof (cases "(c, m) \<in> set (inflight w)")
    case True
    then have old: "m \<le> counters w k'" "m = counters w k' \<Longrightarrow> newest_issue kind c m es"
      using inv that(2) by (auto simp: issue_numbered_def)
    show ?thesis
    proof (cases "k' = k")
      case True
      then show ?thesis using old(1) issue_guarded by simp
    next
      case False
      then have "kind b \<noteq> kind c" using that(2) issue_guarded by simp
      then have "newest_issue kind c m (es @ [e])" if "m = counters w k'"
        using old(2) [OF that] issue_guarded(1) by (intro newest_issue_later) auto
      then show ?thesis using old(1) False issue_guarded by simp
    qed
  next
    case False
    then have "c = b" "m = n" using that(1) issue_guarded by simp_all
    then show ?thesis using that(2) issue_guarded by (simp add: newest_issue_now)
  qed
  then show ?thesis by (simp add: issue_numbered_def)
next
  case (issue_free b)
  have "m \<le> counters w' k' \<and> (m = counters w' k' \<longrightarrow> newest_issue kind c m (es @ [e]))"
    if "(c, m) \<in> set (inflight w')" "kind c = Some k'" for c m k'
  proof -
    have "(c, m) \<in> set (inflight w)" using that issue_free by auto
    then have old: "m \<le> counters w k'" "m = counters w k' \<Longrightarrow> newest_issue kind c m es"
      using inv that(2) by (auto simp: issue_numbered_def)
    have "newest_issue kind c m (es @ [e])" if "m = counters w k'"
      using old(2) [OF that] \<open>kind c = Some k'\<close> issue_free by (intro newest_issue_later) auto
    then show ?thesis using old(1) issue_free by simp
  qed
  then show ?thesis by (simp add: issue_numbered_def)
next
  case (answer b n a)
  then show ?thesis by (intro numbered_landed [OF inv]) (auto dest: set_remove1_subset [THEN subsetD])
next
  case (silent b n)
  then show ?thesis by (intro numbered_landed [OF inv]) (auto dest: set_remove1_subset [THEN subsetD])
qed

lemma runs_numbered: "runs dispatch begins settles kind s es w \<Longrightarrow> issue_numbered kind es w"
proof (induction rule: runs.induct)
  case start
  show ?case by (simp add: issue_numbered_def)
next
  case (more es w e w')
  then show ?case by (blast intro: numbered_step)
qed

text \<open>
  The contract of a busy flag. \<open>busy f s\<close>: the flag \<open>f\<close> is raised in the state; \<open>covers b f\<close>:
  the request whose BEGIN is \<open>b\<close> is one the flag stands for; \<open>fits b s\<close>: an answer to it has an effect in \<open>s\<close>.
\<close>

definition covered :: "('a \<Rightarrow> 'k option) \<Rightarrow> ('a \<Rightarrow> 'f \<Rightarrow> bool) \<Rightarrow> 'f \<Rightarrow> ('s, 'a, 'k) running \<Rightarrow> bool" where
  "covered kind covers f w \<longleftrightarrow>
     (\<exists>b n. (b, n) \<in> set (inflight w) \<and> covers b f \<and> is_latest kind w b n)"

text \<open>An answer to a request of the flag came when it did not fit.\<close>

definition lost_answer ::
  "('s \<Rightarrow> 'a \<Rightarrow> 's) \<Rightarrow> 's \<Rightarrow> ('a \<Rightarrow> 'f \<Rightarrow> bool) \<Rightarrow> ('a \<Rightarrow> 's \<Rightarrow> bool) \<Rightarrow> 'f \<Rightarrow> 'a event list \<Rightarrow> bool" where
  "lost_answer dispatch s covers fits f es \<longleftrightarrow>
     (\<exists>es1 b n a es2. es = es1 @ Apply b n a # es2 \<and> covers b f \<and> \<not> fits b (store_after dispatch s es1))"

lemma lost_later: "lost_answer dispatch s covers fits f es \<Longrightarrow> lost_answer dispatch s covers fits f (es @ [e])"
  unfolding lost_answer_def by (metis append_Cons append_assoc)

lemma lost_now:
  "covers b f \<Longrightarrow> \<not> fits b (store_after dispatch s es) \<Longrightarrow> lost_answer dispatch s covers fits f (es @ [Apply b n a])"
  unfolding lost_answer_def by blast

lemma covered_remove1:
  assumes "(b', n') \<in> set (inflight w)" "covers b' f" "is_latest kind w b' n'"
    and "(b', n') \<noteq> (b, n)" "inflight w' = remove1 (b, n) (inflight w)" "counters w' = counters w"
  shows "covered kind covers f w'"
  unfolding covered_def is_latest_def using assms by (intro exI [of _ b'] exI [of _ n']) (simp add: is_latest_def)

locale request_system =
  fixes dispatch :: "'s \<Rightarrow> 'a \<Rightarrow> 's"
    and begins :: "'a \<Rightarrow> bool"
    and settles :: "bool \<Rightarrow> 'a \<Rightarrow> 'a option \<Rightarrow> bool"
    and kind :: "'a \<Rightarrow> 'k option"
    and busy :: "'f \<Rightarrow> 's \<Rightarrow> bool"
    and covers :: "'a \<Rightarrow> 'f \<Rightarrow> bool"
    and fits :: "'a \<Rightarrow> 's \<Rightarrow> bool"
  assumes begin_raises: "begins b \<Longrightarrow> busy f (dispatch s b) \<Longrightarrow> busy f s \<or> covers b f"
    and settle_clears: "settles l b (Some a) \<Longrightarrow> covers b f \<Longrightarrow> fits b s \<Longrightarrow> \<not> busy f (dispatch s a)"
    and settle_keeps: "settles l b (Some a) \<Longrightarrow> busy f (dispatch s a) \<Longrightarrow> busy f s"
    and kind_covers: "kind b = Some k \<Longrightarrow> kind b' = Some k \<Longrightarrow> covers b f \<Longrightarrow> covers b' f"
    and stale_silent: "settles False b (Some a) \<Longrightarrow> kind b = None"
    and latest_speaks: "\<not> settles True b None"
begin

text \<open>An answer of a numbered kind that reaches the store is that of the newest request.\<close>

lemma applied_is_newest:
  assumes "runs dispatch begins settles kind s (es @ [Apply b n a]) w" "kind b = Some k"
  shows "newest_issue kind b n es \<and> settles True b (Some a) \<and> store w = dispatch (store_after dispatch s es) a"
proof -
  obtain v where v: "runs dispatch begins settles kind s es v"
    "run_step dispatch begins settles kind v (Apply b n a) w"
    using assms(1) by (rule runs_snocE) simp_all
  from v(2) have "(b, n) \<in> set (inflight v)" and a: "settles (is_latest kind v b n) b (Some a)"
    and "store w = dispatch (store v) a" by (cases rule: run_step.cases; simp)+
  moreover have l: "is_latest kind v b n" using stale_silent a assms(2) by (cases "is_latest kind v b n") auto
  ultimately show ?thesis
    using runs_numbered [OF v(1)] runs_store [OF v(1)] assms(2) by (simp add: issue_numbered_def is_latest_def)
qed

lemma busy_step:
  assumes step: "run_step dispatch begins settles kind w e w'"
    and store: "store w = store_after dispatch s es"
    and IH: "busy f (store w) \<Longrightarrow> covered kind covers f w \<or> lost_answer dispatch s covers fits f es"
    and busy: "busy f (store w')"
  shows "covered kind covers f w' \<or> lost_answer dispatch s covers fits f (es @ [e])"
proof (cases "lost_answer dispatch s covers fits f es")
  case True
  then show ?thesis by (simp add: lost_later)
next
  case False
  with IH have IH: "covered kind covers f w" if "busy f (store w)" using that by blast
  from step show ?thesis
  proof (cases rule: run_step.cases)
    case (issue_guarded b k n)
    show ?thesis
    proof (cases "covers b f")
      case True
      with issue_guarded show ?thesis unfolding covered_def by (intro disjI1 exI [of _ b]) (simp add: is_latest_def)
    next
      case False
      have "busy f (store w)"
        using begin_raises [of b f "store w"] issue_guarded busy False by simp
      from IH [OF this] obtain b' n' where *: "(b', n') \<in> set (inflight w)" "covers b' f"
        "is_latest kind w b' n'" unfolding covered_def by blast
      moreover have "kind b' \<noteq> Some k"
        using kind_covers [OF _ issue_guarded(4) *(2)] False by blast
      ultimately show ?thesis
        using issue_guarded(2) unfolding covered_def
        by (intro disjI1 exI [of _ b'] exI [of _ n']) (simp add: is_latest_def)
    qed
  next
    case (issue_free b)
    consider "covers b f" | "busy f (store w)"
      using begin_raises [of b f "store w"] issue_free busy by auto
    then show ?thesis
    proof cases
      case 1
      with issue_free show ?thesis
        unfolding covered_def by (intro disjI1 exI [of _ b] exI [of _ 0]) (simp add: is_latest_def)
    next
      case 2
      from IH [OF this] issue_free(2) show ?thesis unfolding covered_def is_latest_def by auto
    qed
  next
    case (answer b n a)
    show ?thesis
    proof (cases "covers b f")
      case True
      have "\<not> fits b (store w)" using settle_clears [OF answer(4) True] answer(2) busy by auto
      then show ?thesis using True store answer(1) by (simp add: lost_now)
    next
      case False
      have "busy f (store w)"
        using settle_keeps [OF answer(4), of f "store w"] answer(2) busy by simp
      from IH [OF this] obtain b' n' where *: "(b', n') \<in> set (inflight w)" "covers b' f"
        "is_latest kind w b' n'" unfolding covered_def by blast
      with answer(2) False show ?thesis
        by (intro disjI1 covered_remove1 [where b = b and n = n and covers = covers and kind = kind, OF *]) auto
    qed
  next
    case (silent b n)
    then have "\<not> is_latest kind w b n" using latest_speaks by metis
    moreover from silent busy have "busy f (store w)" by simp
    from IH [OF this] obtain b' n' where *: "(b', n') \<in> set (inflight w)" "covers b' f"
      "is_latest kind w b' n'" unfolding covered_def by blast
    ultimately show ?thesis using silent
      by (intro disjI1 covered_remove1 [where b = b and n = n and covers = covers and kind = kind, OF *]) auto
  qed
qed

theorem busy_covered:
  assumes "runs dispatch begins settles kind s es w"
    and "\<And>f. \<not> busy f s"
    and "busy f (store w)"
  shows "covered kind covers f w \<or> lost_answer dispatch s covers fits f es"
  using assms
proof (induction arbitrary: f rule: runs.induct)
  case start
  then show ?case by simp
next
  case (more es w e w')
  show ?case
    by (rule busy_step [OF more.hyps(2) runs_store [OF more.hyps(1)] _ more.prems(2)]) (rule more.IH [OF more.prems(1)])
qed

end

end
