(* ===== verification/TasksReducer.thy ===== *)
theory TasksReducer
  imports TasksActions Interfaces
begin

text \<open>
  \<open>src/ui/src/reducers/tasksReducer.ts\<close>: the store's task tables, one slice per task state and
  one for the task detail page. There is one function per slice, with one equation per \<open>case\<close> of
  the source's switch, and \<open>tasksReducer\<close> applies the function of the slice the action is about.

  The lemmas show: every action is confined to its slice; row ids stay distinct; a request that
  fails leaves a quiet table as it was; the busy flags obey the contract of \<open>Interfaces\<close>.
\<close>

subsection \<open>State\<close>

text \<open>\<open>TaskInfoExtended\<close>: \<open>canceling\<close> is optional.\<close>

record task_row = task_info +
  requestPending :: bool
  canceling :: "bool option"

record task_slice =
  loading :: bool
  batchActionPending :: bool
  allActionPending :: bool
  error :: jstring
  data :: "task_row list"

record aggregating_slice = task_slice +
  agg_group :: jstring

record task_info_slice =
  ti_loading :: bool
  ti_error :: jstring
  ti_data :: "task_info option"

record tasks_state =
  activeTasks :: task_slice
  pendingTasks :: task_slice
  scheduledTasks :: task_slice
  retryTasks :: task_slice
  archivedTasks :: task_slice
  completedTasks :: task_slice
  aggregatingTasks :: aggregating_slice
  taskInfo :: task_info_slice

definition empty_slice :: task_slice where
  "empty_slice = \<lparr>loading = False, batchActionPending = False, allActionPending = False,
     error = [], data = []\<rparr>"

definition initialState :: tasks_state where
  "initialState = \<lparr>activeTasks = empty_slice, pendingTasks = empty_slice,
     scheduledTasks = empty_slice, retryTasks = empty_slice, archivedTasks = empty_slice,
     completedTasks = empty_slice,
     aggregatingTasks = task_slice.extend empty_slice (aggregating_slice.fields []),
     taskInfo = \<lparr>ti_loading = False, ti_error = [], ti_data = None\<rparr>\<rparr>"

subsection \<open>The updates the cases are written with\<close>

text \<open>\<open>({ ...task, requestPending: false })\<close>, and the same with \<open>canceling: false\<close>.\<close>

definition idle_row :: "task_info \<Rightarrow> task_row" where
  "idle_row task = task_info.extend task (task_row.fields False None)"

definition idle_active_row :: "task_info \<Rightarrow> task_row" where
  "idle_active_row task = task_info.extend task (task_row.fields False (Some False))"

text \<open>Set \<open>requestPending\<close> of the row with an id, of the rows with one of several ids.\<close>

definition one_pending :: "jstring \<Rightarrow> bool \<Rightarrow> 'z task_slice_scheme \<Rightarrow> 'z task_slice_scheme" where
  "one_pending taskId b s =
     s\<lparr>data := map_where (\<lambda>t. t_id t = taskId) (\<lambda>t. t\<lparr>requestPending := b\<rparr>) (data s)\<rparr>"

definition many_pending :: "jstring list \<Rightarrow> bool \<Rightarrow> 'z task_slice_scheme \<Rightarrow> 'z task_slice_scheme" where
  "many_pending taskIds b s =
     s\<lparr>data := map_where (\<lambda>t. t_id t \<in> set taskIds) (\<lambda>t. t\<lparr>requestPending := b\<rparr>) (data s)\<rparr>"

text \<open>Filter out the row with an id, the rows with one of several ids.\<close>

definition drop_one :: "jstring \<Rightarrow> 'z task_slice_scheme \<Rightarrow> 'z task_slice_scheme" where
  "drop_one taskId s = s\<lparr>data := drop_where (\<lambda>t. t_id t = taskId) (data s)\<rparr>"

definition drop_many :: "jstring list \<Rightarrow> 'z task_slice_scheme \<Rightarrow> 'z task_slice_scheme" where
  "drop_many taskIds s = s\<lparr>data := drop_where (\<lambda>t. t_id t \<in> set taskIds) (data s)\<rparr>"

text \<open>The three outcomes of a list request and the two edges of a batch or all action.\<close>

definition list_begin :: "'z task_slice_scheme \<Rightarrow> 'z task_slice_scheme" where
  "list_begin s = s\<lparr>loading := True\<rparr>"

definition list_success :: "task_row list \<Rightarrow> 'z task_slice_scheme \<Rightarrow> 'z task_slice_scheme" where
  "list_success rows s = s\<lparr>loading := False, error := [], data := rows\<rparr>"

definition list_error :: "jstring \<Rightarrow> 'z task_slice_scheme \<Rightarrow> 'z task_slice_scheme" where
  "list_error e s = s\<lparr>loading := False, error := e, data := []\<rparr>"

definition set_batch :: "bool \<Rightarrow> 'z task_slice_scheme \<Rightarrow> 'z task_slice_scheme" where
  "set_batch b s = s\<lparr>batchActionPending := b\<rparr>"

definition set_all :: "bool \<Rightarrow> 'z task_slice_scheme \<Rightarrow> 'z task_slice_scheme" where
  "set_all b s = s\<lparr>allActionPending := b\<rparr>"

definition clear_all :: "'z task_slice_scheme \<Rightarrow> 'z task_slice_scheme" where
  "clear_all s = s\<lparr>allActionPending := False, data := []\<rparr>"

lemmas slice_ops = one_pending_def many_pending_def drop_one_def drop_many_def list_begin_def
  list_success_def list_error_def set_batch_def set_all_def clear_all_def

subsection \<open>Task detail and lists\<close>

primrec task_info_case :: "task_info_slice \<Rightarrow> get_task_info_action \<Rightarrow> task_info_slice" where
  "task_info_case s GET_TASK_INFO_BEGIN = s\<lparr>ti_loading := True, ti_error := []\<rparr>"
| "task_info_case s (GET_TASK_INFO_ERROR e) =
     \<lparr>ti_loading = False, ti_error = e, ti_data = None\<rparr>"
| "task_info_case s (GET_TASK_INFO_SUCCESS payload) =
     \<lparr>ti_loading = False, ti_error = [], ti_data = Some payload\<rparr>"

primrec list_active_case :: "task_slice \<Rightarrow> list_active_action \<Rightarrow> task_slice" where
  "list_active_case s (LIST_ACTIVE_TASKS_BEGIN q) = list_begin s"
| "list_active_case s (LIST_ACTIVE_TASKS_SUCCESS q payload) =
     list_success (map idle_active_row (lt_tasks payload)) s"
| "list_active_case s (LIST_ACTIVE_TASKS_ERROR q e) = list_error e s"

primrec list_pending_case :: "task_slice \<Rightarrow> list_pending_action \<Rightarrow> task_slice" where
  "list_pending_case s (LIST_PENDING_TASKS_BEGIN q) = list_begin s"
| "list_pending_case s (LIST_PENDING_TASKS_SUCCESS q payload) =
     list_success (map idle_row (lt_tasks payload)) s"
| "list_pending_case s (LIST_PENDING_TASKS_ERROR q e) = list_error e s"

primrec list_scheduled_case :: "task_slice \<Rightarrow> list_scheduled_action \<Rightarrow> task_slice" where
  "list_scheduled_case s (LIST_SCHEDULED_TASKS_BEGIN q) = list_begin s"
| "list_scheduled_case s (LIST_SCHEDULED_TASKS_SUCCESS q payload) =
     list_success (map idle_row (lt_tasks payload)) s"
| "list_scheduled_case s (LIST_SCHEDULED_TASKS_ERROR q e) = list_error e s"

primrec list_retry_case :: "task_slice \<Rightarrow> list_retry_action \<Rightarrow> task_slice" where
  "list_retry_case s (LIST_RETRY_TASKS_BEGIN q) = list_begin s"
| "list_retry_case s (LIST_RETRY_TASKS_SUCCESS q payload) =
     list_success (map idle_row (lt_tasks payload)) s"
| "list_retry_case s (LIST_RETRY_TASKS_ERROR q e) = list_error e s"

primrec list_archived_case :: "task_slice \<Rightarrow> list_archived_action \<Rightarrow> task_slice" where
  "list_archived_case s (LIST_ARCHIVED_TASKS_BEGIN q) = list_begin s"
| "list_archived_case s (LIST_ARCHIVED_TASKS_SUCCESS q payload) =
     list_success (map idle_row (lt_tasks payload)) s"
| "list_archived_case s (LIST_ARCHIVED_TASKS_ERROR q e) = list_error e s"

primrec list_completed_case :: "task_slice \<Rightarrow> list_completed_action \<Rightarrow> task_slice" where
  "list_completed_case s (LIST_COMPLETED_TASKS_BEGIN q) = list_begin s"
| "list_completed_case s (LIST_COMPLETED_TASKS_SUCCESS q payload) =
     list_success (map idle_row (lt_tasks payload)) s"
| "list_completed_case s (LIST_COMPLETED_TASKS_ERROR q e) = list_error e s"

primrec list_aggregating_case ::
  "aggregating_slice \<Rightarrow> list_aggregating_action \<Rightarrow> aggregating_slice" where
  "list_aggregating_case s (LIST_AGGREGATING_TASKS_BEGIN q g) = list_begin (s\<lparr>agg_group := g\<rparr>)"
| "list_aggregating_case s (LIST_AGGREGATING_TASKS_SUCCESS q g payload) =
     list_success (map idle_row (la_tasks payload)) (s\<lparr>agg_group := g\<rparr>)"
| "list_aggregating_case s (LIST_AGGREGATING_TASKS_ERROR q g e) = list_error e (s\<lparr>agg_group := g\<rparr>)"

subsection \<open>Completed and active tasks\<close>

primrec completed_case :: "task_slice \<Rightarrow> completed_action \<Rightarrow> task_slice" where
  "completed_case s (DELETE_COMPLETED_TASK_BEGIN q i) = one_pending i True s"
| "completed_case s (DELETE_COMPLETED_TASK_SUCCESS q i) = drop_one i s"
| "completed_case s (DELETE_COMPLETED_TASK_ERROR q i e) = one_pending i False s"
| "completed_case s (DELETE_ALL_COMPLETED_TASKS_BEGIN q) = set_all True s"
| "completed_case s (DELETE_ALL_COMPLETED_TASKS_SUCCESS q n) = clear_all s"
| "completed_case s (DELETE_ALL_COMPLETED_TASKS_ERROR q e) = set_all False s"
| "completed_case s (BATCH_DELETE_COMPLETED_TASKS_BEGIN q ids) =
     many_pending ids True (set_batch True s)"
| "completed_case s (BATCH_DELETE_COMPLETED_TASKS_SUCCESS q payload) =
     drop_many (bd_deleted_ids payload) (set_batch False s)"
| "completed_case s (BATCH_DELETE_COMPLETED_TASKS_ERROR q ids e) =
     many_pending ids False (set_batch False s)"

primrec active_case :: "task_slice \<Rightarrow> active_action \<Rightarrow> task_slice" where
  "active_case s (CANCEL_ACTIVE_TASK_BEGIN q i) = one_pending i True s"
| "active_case s (CANCEL_ACTIVE_TASK_SUCCESS q i) =
     s\<lparr>data := map_where (\<lambda>t. t_id t = i)
       (\<lambda>t. t\<lparr>requestPending := False, canceling := Some True\<rparr>) (data s)\<rparr>"
| "active_case s (CANCEL_ACTIVE_TASK_ERROR q i e) = one_pending i False s"
| "active_case s (BATCH_CANCEL_ACTIVE_TASKS_BEGIN q ids) =
     many_pending ids True (set_batch True s)"
| "active_case s (BATCH_CANCEL_ACTIVE_TASKS_SUCCESS q payload) =
     s\<lparr>batchActionPending := False,
       data := map (\<lambda>t.
         if t_id t \<in> set (bc_canceled_ids payload)
         then t\<lparr>canceling := Some True, requestPending := False\<rparr>
         else if t_id t \<in> set (bc_error_ids payload) then t\<lparr>requestPending := False\<rparr>
         else t) (data s)\<rparr>"
| "active_case s (BATCH_CANCEL_ACTIVE_TASKS_ERROR q ids e) =
     s\<lparr>batchActionPending := False, data := map (\<lambda>t. t\<lparr>requestPending := False\<rparr>) (data s)\<rparr>"
| "active_case s (CANCEL_ALL_ACTIVE_TASKS_BEGIN q) =
     s\<lparr>allActionPending := True, data := map (\<lambda>t. t\<lparr>requestPending := True\<rparr>) (data s)\<rparr>"
| "active_case s (CANCEL_ALL_ACTIVE_TASKS_SUCCESS q) =
     s\<lparr>allActionPending := False,
       data := map (\<lambda>t. t\<lparr>requestPending := False, canceling := Some True\<rparr>) (data s)\<rparr>"
| "active_case s (CANCEL_ALL_ACTIVE_TASKS_ERROR q e) =
     s\<lparr>allActionPending := False, data := map (\<lambda>t. t\<lparr>requestPending := False\<rparr>) (data s)\<rparr>"

subsection \<open>Pending and scheduled tasks\<close>

primrec pending_case :: "task_slice \<Rightarrow> pending_action \<Rightarrow> task_slice" where
  "pending_case s (ARCHIVE_PENDING_TASK_BEGIN q i) = one_pending i True s"
| "pending_case s (DELETE_PENDING_TASK_BEGIN q i) = one_pending i True s"
| "pending_case s (ARCHIVE_PENDING_TASK_SUCCESS q i) = drop_one i s"
| "pending_case s (DELETE_PENDING_TASK_SUCCESS q i) = drop_one i s"
| "pending_case s (ARCHIVE_PENDING_TASK_ERROR q i e) = one_pending i False s"
| "pending_case s (DELETE_PENDING_TASK_ERROR q i e) = one_pending i False s"
| "pending_case s (ARCHIVE_ALL_PENDING_TASKS_BEGIN q) = set_all True s"
| "pending_case s (DELETE_ALL_PENDING_TASKS_BEGIN q) = set_all True s"
| "pending_case s (ARCHIVE_ALL_PENDING_TASKS_SUCCESS q) = clear_all s"
| "pending_case s (DELETE_ALL_PENDING_TASKS_SUCCESS q n) = clear_all s"
| "pending_case s (ARCHIVE_ALL_PENDING_TASKS_ERROR q e) = set_all False s"
| "pending_case s (DELETE_ALL_PENDING_TASKS_ERROR q e) = set_all False s"
| "pending_case s (BATCH_ARCHIVE_PENDING_TASKS_BEGIN q ids) =
     many_pending ids True (set_batch True s)"
| "pending_case s (BATCH_DELETE_PENDING_TASKS_BEGIN q ids) =
     many_pending ids True (set_batch True s)"
| "pending_case s (BATCH_ARCHIVE_PENDING_TASKS_SUCCESS q payload) =
     drop_many (ba_archived_ids payload) (set_batch False s)"
| "pending_case s (BATCH_DELETE_PENDING_TASKS_SUCCESS q payload) =
     drop_many (bd_deleted_ids payload) (set_batch False s)"
| "pending_case s (BATCH_ARCHIVE_PENDING_TASKS_ERROR q ids e) =
     many_pending ids False (set_batch False s)"
| "pending_case s (BATCH_DELETE_PENDING_TASKS_ERROR q ids e) =
     many_pending ids False (set_batch False s)"

text \<open>
  The run and archive actions on one scheduled task share their cases with the delete action.
\<close>

primrec scheduled_task_case :: "task_slice \<Rightarrow> scheduled_task_action \<Rightarrow> task_slice" where
  "scheduled_task_case s (RUN_SCHEDULED_TASK_BEGIN q i) = one_pending i True s"
| "scheduled_task_case s (ARCHIVE_SCHEDULED_TASK_BEGIN q i) = one_pending i True s"
| "scheduled_task_case s (RUN_SCHEDULED_TASK_SUCCESS q i) = drop_one i s"
| "scheduled_task_case s (ARCHIVE_SCHEDULED_TASK_SUCCESS q i) = drop_one i s"
| "scheduled_task_case s (RUN_SCHEDULED_TASK_ERROR q i e) = one_pending i False s"
| "scheduled_task_case s (ARCHIVE_SCHEDULED_TASK_ERROR q i e) = one_pending i False s"

primrec scheduled_case :: "task_slice \<Rightarrow> scheduled_action \<Rightarrow> task_slice" where
  "scheduled_case s (DELETE_SCHEDULED_TASK_BEGIN q i) = one_pending i True s"
| "scheduled_case s (DELETE_SCHEDULED_TASK_SUCCESS q i) = drop_one i s"
| "scheduled_case s (DELETE_SCHEDULED_TASK_ERROR q i e) = one_pending i False s"
| "scheduled_case s (RUN_ALL_SCHEDULED_TASKS_BEGIN q) = set_all True s"
| "scheduled_case s (ARCHIVE_ALL_SCHEDULED_TASKS_BEGIN q) = set_all True s"
| "scheduled_case s (DELETE_ALL_SCHEDULED_TASKS_BEGIN q) = set_all True s"
| "scheduled_case s (RUN_ALL_SCHEDULED_TASKS_SUCCESS q) = clear_all s"
| "scheduled_case s (ARCHIVE_ALL_SCHEDULED_TASKS_SUCCESS q) = clear_all s"
| "scheduled_case s (DELETE_ALL_SCHEDULED_TASKS_SUCCESS q n) = clear_all s"
| "scheduled_case s (RUN_ALL_SCHEDULED_TASKS_ERROR q e) = set_all False s"
| "scheduled_case s (ARCHIVE_ALL_SCHEDULED_TASKS_ERROR q e) = set_all False s"
| "scheduled_case s (DELETE_ALL_SCHEDULED_TASKS_ERROR q e) = set_all False s"
| "scheduled_case s (BATCH_RUN_SCHEDULED_TASKS_BEGIN q ids) =
     many_pending ids True (set_batch True s)"
| "scheduled_case s (BATCH_ARCHIVE_SCHEDULED_TASKS_BEGIN q ids) =
     many_pending ids True (set_batch True s)"
| "scheduled_case s (BATCH_DELETE_SCHEDULED_TASKS_BEGIN q ids) =
     many_pending ids True (set_batch True s)"
| "scheduled_case s (BATCH_RUN_SCHEDULED_TASKS_SUCCESS q payload) =
     drop_many (br_pending_ids payload) (set_batch False s)"
| "scheduled_case s (BATCH_ARCHIVE_SCHEDULED_TASKS_SUCCESS q payload) =
     drop_many (ba_archived_ids payload) (set_batch False s)"
| "scheduled_case s (BATCH_DELETE_SCHEDULED_TASKS_SUCCESS q payload) =
     drop_many (bd_deleted_ids payload) (set_batch False s)"
| "scheduled_case s (BATCH_RUN_SCHEDULED_TASKS_ERROR q ids e) =
     many_pending ids False (set_batch False s)"
| "scheduled_case s (BATCH_ARCHIVE_SCHEDULED_TASKS_ERROR q ids e) =
     many_pending ids False (set_batch False s)"
| "scheduled_case s (BATCH_DELETE_SCHEDULED_TASKS_ERROR q ids e) =
     many_pending ids False (set_batch False s)"

subsection \<open>Aggregating tasks\<close>

text \<open>
  Batch and all actions carry the group they were sent for and are ignored when the table shows
  another group.
\<close>

primrec aggregating_task_case ::
  "aggregating_slice \<Rightarrow> aggregating_task_action \<Rightarrow> aggregating_slice" where
  "aggregating_task_case s (RUN_AGGREGATING_TASK_BEGIN q i) = one_pending i True s"
| "aggregating_task_case s (ARCHIVE_AGGREGATING_TASK_BEGIN q i) = one_pending i True s"
| "aggregating_task_case s (DELETE_AGGREGATING_TASK_BEGIN q i) = one_pending i True s"
| "aggregating_task_case s (RUN_AGGREGATING_TASK_ERROR q i e) = one_pending i False s"
| "aggregating_task_case s (ARCHIVE_AGGREGATING_TASK_ERROR q i e) = one_pending i False s"
| "aggregating_task_case s (DELETE_AGGREGATING_TASK_ERROR q i e) = one_pending i False s"
| "aggregating_task_case s (RUN_AGGREGATING_TASK_SUCCESS q i) = drop_one i s"
| "aggregating_task_case s (ARCHIVE_AGGREGATING_TASK_SUCCESS q i) = drop_one i s"
| "aggregating_task_case s (DELETE_AGGREGATING_TASK_SUCCESS q i) = drop_one i s"

definition all_aggregating_begin :: "jstring \<Rightarrow> aggregating_slice \<Rightarrow> aggregating_slice" where
  "all_aggregating_begin g s = (if agg_group s \<noteq> g then s else set_all True s)"

definition all_aggregating_success :: "jstring \<Rightarrow> aggregating_slice \<Rightarrow> aggregating_slice" where
  "all_aggregating_success g s = (if agg_group s \<noteq> g then s else clear_all s)"

definition all_aggregating_error ::
  "jstring \<Rightarrow> jstring \<Rightarrow> aggregating_slice \<Rightarrow> aggregating_slice" where
  "all_aggregating_error g e s =
     (if agg_group s \<noteq> g then s else s\<lparr>allActionPending := False, error := e\<rparr>)"

primrec aggregating_case :: "aggregating_slice \<Rightarrow> aggregating_action \<Rightarrow> aggregating_slice" where
  "aggregating_case s (BATCH_RUN_AGGREGATING_TASKS_BEGIN q g ids) =
     (if g \<noteq> agg_group s then s else many_pending ids True (set_batch True s))"
| "aggregating_case s (BATCH_ARCHIVE_AGGREGATING_TASKS_BEGIN q g ids) =
     (if g \<noteq> agg_group s then s else many_pending ids True (set_batch True s))"
| "aggregating_case s (BATCH_DELETE_AGGREGATING_TASKS_BEGIN q g ids) =
     (if g \<noteq> agg_group s then s else many_pending ids True (set_batch True s))"
| "aggregating_case s (BATCH_RUN_AGGREGATING_TASKS_ERROR q g ids e) =
     (if g \<noteq> agg_group s then s else many_pending ids False (set_batch False s))"
| "aggregating_case s (BATCH_ARCHIVE_AGGREGATING_TASKS_ERROR q g ids e) =
     (if g \<noteq> agg_group s then s else many_pending ids False (set_batch False s))"
| "aggregating_case s (BATCH_DELETE_AGGREGATING_TASKS_ERROR q g ids e) =
     (if g \<noteq> agg_group s then s else many_pending ids False (set_batch False s))"
| "aggregating_case s (BATCH_DELETE_AGGREGATING_TASKS_SUCCESS q g payload) =
     (if g \<noteq> agg_group s then s else drop_many (bd_deleted_ids payload) (set_batch False s))"
| "aggregating_case s (BATCH_RUN_AGGREGATING_TASKS_SUCCESS q g payload) =
     (if g \<noteq> agg_group s then s else drop_many (br_pending_ids payload) (set_batch False s))"
| "aggregating_case s (BATCH_ARCHIVE_AGGREGATING_TASKS_SUCCESS q g payload) =
     (if g \<noteq> agg_group s then s else drop_many (ba_archived_ids payload) (set_batch False s))"
| "aggregating_case s (RUN_ALL_AGGREGATING_TASKS_BEGIN q g) = all_aggregating_begin g s"
| "aggregating_case s (ARCHIVE_ALL_AGGREGATING_TASKS_BEGIN q g) = all_aggregating_begin g s"
| "aggregating_case s (DELETE_ALL_AGGREGATING_TASKS_BEGIN q g) = all_aggregating_begin g s"
| "aggregating_case s (RUN_ALL_AGGREGATING_TASKS_SUCCESS q g n) = all_aggregating_success g s"
| "aggregating_case s (ARCHIVE_ALL_AGGREGATING_TASKS_SUCCESS q g n) = all_aggregating_success g s"
| "aggregating_case s (DELETE_ALL_AGGREGATING_TASKS_SUCCESS q g n) = all_aggregating_success g s"
| "aggregating_case s (RUN_ALL_AGGREGATING_TASKS_ERROR q g e) = all_aggregating_error g e s"
| "aggregating_case s (ARCHIVE_ALL_AGGREGATING_TASKS_ERROR q g e) = all_aggregating_error g e s"
| "aggregating_case s (DELETE_ALL_AGGREGATING_TASKS_ERROR q g e) = all_aggregating_error g e s"

subsection \<open>Retry and archived tasks\<close>

primrec retry_task_case :: "task_slice \<Rightarrow> retry_task_action \<Rightarrow> task_slice" where
  "retry_task_case s (RUN_RETRY_TASK_BEGIN q i) = one_pending i True s"
| "retry_task_case s (ARCHIVE_RETRY_TASK_BEGIN q i) = one_pending i True s"
| "retry_task_case s (RUN_RETRY_TASK_SUCCESS q i) = drop_one i s"
| "retry_task_case s (ARCHIVE_RETRY_TASK_SUCCESS q i) = drop_one i s"
| "retry_task_case s (RUN_RETRY_TASK_ERROR q i e) = one_pending i False s"
| "retry_task_case s (ARCHIVE_RETRY_TASK_ERROR q i e) = one_pending i False s"

primrec retry_case :: "task_slice \<Rightarrow> retry_action \<Rightarrow> task_slice" where
  "retry_case s (DELETE_RETRY_TASK_BEGIN q i) = one_pending i True s"
| "retry_case s (DELETE_RETRY_TASK_SUCCESS q i) = drop_one i s"
| "retry_case s (DELETE_RETRY_TASK_ERROR q i e) = one_pending i False s"
| "retry_case s (RUN_ALL_RETRY_TASKS_BEGIN q) = set_all True s"
| "retry_case s (ARCHIVE_ALL_RETRY_TASKS_BEGIN q) = set_all True s"
| "retry_case s (DELETE_ALL_RETRY_TASKS_BEGIN q) = set_all True s"
| "retry_case s (RUN_ALL_RETRY_TASKS_SUCCESS q) = clear_all s"
| "retry_case s (ARCHIVE_ALL_RETRY_TASKS_SUCCESS q) = clear_all s"
| "retry_case s (DELETE_ALL_RETRY_TASKS_SUCCESS q n) = clear_all s"
| "retry_case s (RUN_ALL_RETRY_TASKS_ERROR q e) = set_all False s"
| "retry_case s (ARCHIVE_ALL_RETRY_TASKS_ERROR q e) = set_all False s"
| "retry_case s (DELETE_ALL_RETRY_TASKS_ERROR q e) = set_all False s"
| "retry_case s (BATCH_RUN_RETRY_TASKS_BEGIN q ids) = many_pending ids True (set_batch True s)"
| "retry_case s (BATCH_ARCHIVE_RETRY_TASKS_BEGIN q ids) = many_pending ids True (set_batch True s)"
| "retry_case s (BATCH_DELETE_RETRY_TASKS_BEGIN q ids) = many_pending ids True (set_batch True s)"
| "retry_case s (BATCH_RUN_RETRY_TASKS_SUCCESS q payload) =
     drop_many (br_pending_ids payload) (set_batch False s)"
| "retry_case s (BATCH_ARCHIVE_RETRY_TASKS_SUCCESS q payload) =
     drop_many (ba_archived_ids payload) (set_batch False s)"
| "retry_case s (BATCH_DELETE_RETRY_TASKS_SUCCESS q payload) =
     drop_many (bd_deleted_ids payload) (set_batch False s)"
| "retry_case s (BATCH_RUN_RETRY_TASKS_ERROR q ids e) =
     many_pending ids False (set_batch False s)"
| "retry_case s (BATCH_ARCHIVE_RETRY_TASKS_ERROR q ids e) =
     many_pending ids False (set_batch False s)"
| "retry_case s (BATCH_DELETE_RETRY_TASKS_ERROR q ids e) =
     many_pending ids False (set_batch False s)"

primrec archived_task_case :: "task_slice \<Rightarrow> archived_task_action \<Rightarrow> task_slice" where
  "archived_task_case s (RUN_ARCHIVED_TASK_BEGIN q i) = one_pending i True s"
| "archived_task_case s (RUN_ARCHIVED_TASK_SUCCESS q i) = drop_one i s"
| "archived_task_case s (RUN_ARCHIVED_TASK_ERROR q i e) = one_pending i False s"

primrec archived_case :: "task_slice \<Rightarrow> archived_action \<Rightarrow> task_slice" where
  "archived_case s (DELETE_ARCHIVED_TASK_BEGIN q i) = one_pending i True s"
| "archived_case s (DELETE_ARCHIVED_TASK_SUCCESS q i) = drop_one i s"
| "archived_case s (DELETE_ARCHIVED_TASK_ERROR q i e) = one_pending i False s"
| "archived_case s (RUN_ALL_ARCHIVED_TASKS_BEGIN q) = set_all True s"
| "archived_case s (DELETE_ALL_ARCHIVED_TASKS_BEGIN q) = set_all True s"
| "archived_case s (RUN_ALL_ARCHIVED_TASKS_SUCCESS q) = clear_all s"
| "archived_case s (DELETE_ALL_ARCHIVED_TASKS_SUCCESS q n) = clear_all s"
| "archived_case s (RUN_ALL_ARCHIVED_TASKS_ERROR q e) = set_all False s"
| "archived_case s (DELETE_ALL_ARCHIVED_TASKS_ERROR q e) = set_all False s"
| "archived_case s (BATCH_RUN_ARCHIVED_TASKS_BEGIN q ids) = many_pending ids True (set_batch True s)"
| "archived_case s (BATCH_DELETE_ARCHIVED_TASKS_BEGIN q ids) = many_pending ids True (set_batch True s)"
| "archived_case s (BATCH_RUN_ARCHIVED_TASKS_SUCCESS q payload) =
     drop_many (br_pending_ids payload) (set_batch False s)"
| "archived_case s (BATCH_DELETE_ARCHIVED_TASKS_SUCCESS q payload) =
     drop_many (bd_deleted_ids payload) (set_batch False s)"
| "archived_case s (BATCH_RUN_ARCHIVED_TASKS_ERROR q ids e) =
     many_pending ids False (set_batch False s)"
| "archived_case s (BATCH_DELETE_ARCHIVED_TASKS_ERROR q ids e) =
     many_pending ids False (set_batch False s)"

subsection \<open>The reducer\<close>

primrec tasksReducer :: "tasks_state \<Rightarrow> tasks_action \<Rightarrow> tasks_state" where
  "tasksReducer s (GetTaskInfo a) = s\<lparr>taskInfo := task_info_case (taskInfo s) a\<rparr>"
| "tasksReducer s (ListActive a) = s\<lparr>activeTasks := list_active_case (activeTasks s) a\<rparr>"
| "tasksReducer s (ListPending a) = s\<lparr>pendingTasks := list_pending_case (pendingTasks s) a\<rparr>"
| "tasksReducer s (ListScheduled a) = s\<lparr>scheduledTasks := list_scheduled_case (scheduledTasks s) a\<rparr>"
| "tasksReducer s (ListRetry a) = s\<lparr>retryTasks := list_retry_case (retryTasks s) a\<rparr>"
| "tasksReducer s (ListArchived a) = s\<lparr>archivedTasks := list_archived_case (archivedTasks s) a\<rparr>"
| "tasksReducer s (ListCompleted a) = s\<lparr>completedTasks := list_completed_case (completedTasks s) a\<rparr>"
| "tasksReducer s (ListAggregating a) =
     s\<lparr>aggregatingTasks := list_aggregating_case (aggregatingTasks s) a\<rparr>"
| "tasksReducer s (OnActive a) = s\<lparr>activeTasks := active_case (activeTasks s) a\<rparr>"
| "tasksReducer s (OnPending a) = s\<lparr>pendingTasks := pending_case (pendingTasks s) a\<rparr>"
| "tasksReducer s (OnScheduledTask a) =
     s\<lparr>scheduledTasks := scheduled_task_case (scheduledTasks s) a\<rparr>"
| "tasksReducer s (OnRetryTask a) = s\<lparr>retryTasks := retry_task_case (retryTasks s) a\<rparr>"
| "tasksReducer s (OnArchivedTask a) =
     s\<lparr>archivedTasks := archived_task_case (archivedTasks s) a\<rparr>"
| "tasksReducer s (OnScheduled a) = s\<lparr>scheduledTasks := scheduled_case (scheduledTasks s) a\<rparr>"
| "tasksReducer s (OnRetry a) = s\<lparr>retryTasks := retry_case (retryTasks s) a\<rparr>"
| "tasksReducer s (OnArchived a) = s\<lparr>archivedTasks := archived_case (archivedTasks s) a\<rparr>"
| "tasksReducer s (OnCompleted a) = s\<lparr>completedTasks := completed_case (completedTasks s) a\<rparr>"
| "tasksReducer s (OnAggregatingTask a) =
     s\<lparr>aggregatingTasks := aggregating_task_case (aggregatingTasks s) a\<rparr>"
| "tasksReducer s (OnAggregating a) =
     s\<lparr>aggregatingTasks := aggregating_case (aggregatingTasks s) a\<rparr>"


subsection \<open>One slice per action\<close>

datatype tab = ActiveTab | PendingTab | ScheduledTab | RetryTab | ArchivedTab | CompletedTab
  | AggregatingTab | DetailTab

primrec tab_of :: "tasks_action \<Rightarrow> tab" where
  "tab_of (GetTaskInfo a) = DetailTab"
| "tab_of (ListActive a) = ActiveTab"
| "tab_of (ListPending a) = PendingTab"
| "tab_of (ListScheduled a) = ScheduledTab"
| "tab_of (ListRetry a) = RetryTab"
| "tab_of (ListArchived a) = ArchivedTab"
| "tab_of (ListCompleted a) = CompletedTab"
| "tab_of (ListAggregating a) = AggregatingTab"
| "tab_of (OnActive a) = ActiveTab"
| "tab_of (OnPending a) = PendingTab"
| "tab_of (OnScheduledTask a) = ScheduledTab"
| "tab_of (OnRetryTask a) = RetryTab"
| "tab_of (OnArchivedTask a) = ArchivedTab"
| "tab_of (OnScheduled a) = ScheduledTab"
| "tab_of (OnRetry a) = RetryTab"
| "tab_of (OnArchived a) = ArchivedTab"
| "tab_of (OnCompleted a) = CompletedTab"
| "tab_of (OnAggregatingTask a) = AggregatingTab"
| "tab_of (OnAggregating a) = AggregatingTab"

text \<open>The table a tab shows; the detail page has no table.\<close>

primrec slice_of :: "tab \<Rightarrow> tasks_state \<Rightarrow> task_slice" where
  "slice_of ActiveTab s = activeTasks s"
| "slice_of PendingTab s = pendingTasks s"
| "slice_of ScheduledTab s = scheduledTasks s"
| "slice_of RetryTab s = retryTasks s"
| "slice_of ArchivedTab s = archivedTasks s"
| "slice_of CompletedTab s = completedTasks s"
| "slice_of AggregatingTab s = task_slice.truncate (aggregatingTasks s)"
| "slice_of DetailTab s = empty_slice"

lemma slice_frame [frame]: "tab_of a \<noteq> t \<Longrightarrow> slice_of t (tasksReducer s a) = slice_of t s"
  by (cases a; cases t; simp)

lemma detail_frame [frame]: "tab_of a \<noteq> DetailTab \<Longrightarrow> taskInfo (tasksReducer s a) = taskInfo s"
  by (cases a; simp)

lemma group_frame [frame]:
  "tab_of a \<noteq> AggregatingTab \<Longrightarrow> agg_group (aggregatingTasks (tasksReducer s a)) = agg_group (aggregatingTasks s)"
  by (cases a; simp)

subsection \<open>Row ids stay distinct\<close>

definition row_ids :: "'z task_slice_scheme \<Rightarrow> jstring list" where
  "row_ids s = map t_id (data s)"

lemma t_id_idle [simp]: "t_id (idle_row t) = t_id t" "t_id (idle_active_row t) = t_id t"
  by (simp_all add: idle_row_def idle_active_row_def task_info.defs)

lemma requestPending_idle [simp]:
  "\<not> requestPending (idle_row t)" "\<not> requestPending (idle_active_row t)"
  by (simp_all add: idle_row_def idle_active_row_def task_info.extend_def task_row.fields_def)

lemma row_ids_ops [simp]:
  "row_ids (one_pending i b s) = row_ids s"
  "row_ids (many_pending ids b s) = row_ids s"
  "row_ids (drop_one i s) = filter (\<lambda>j. j \<noteq> i) (row_ids s)"
  "row_ids (drop_many ids s) = filter (\<lambda>j. j \<notin> set ids) (row_ids s)"
  "row_ids (list_begin s) = row_ids s"
  "row_ids (list_success rows s) = map t_id rows"
  "row_ids (list_error e s) = []"
  "row_ids (set_batch b s) = row_ids s"
  "row_ids (set_all b s) = row_ids s"
  "row_ids (clear_all s) = []"
  "row_ids (s\<lparr>allActionPending := b\<rparr>) = row_ids s"
  "row_ids (s\<lparr>error := e\<rparr>) = row_ids s"
  "row_ids (s\<lparr>batchActionPending := b\<rparr>) = row_ids s"
  "row_ids (s\<lparr>data := rows\<rparr>) = map t_id rows"
  by (simp_all add: row_ids_def slice_ops drop_where_def filter_map comp_def)

lemma row_ids_group [simp]:
  "row_ids (task_slice.truncate a) = row_ids a"
  "row_ids (a\<lparr>agg_group := g\<rparr>) = row_ids a"
  by (simp_all add: row_ids_def task_slice.defs)

lemma map_id_if [simp]:
  "map t_id (map (\<lambda>t. if p t then f t else if q t then g t else t) ts) = map t_id ts"
  if "\<And>t. t_id (f t) = t_id t" "\<And>t. t_id (g t) = t_id t"
  by (simp add: that)

lemma map_t_id_keep [simp]: "(\<And>t. t_id (f t) = t_id t) \<Longrightarrow> map (t_id \<circ> f) ts = map t_id ts"
  by (simp add: comp_def)

text \<open>What the server promises of a list response: a task appears once.\<close>

definition distinct_response :: "tasks_action \<Rightarrow> bool" where
  "distinct_response a = (case a of
      ListActive (LIST_ACTIVE_TASKS_SUCCESS q r) \<Rightarrow> distinct (map t_id (lt_tasks r))
    | ListPending (LIST_PENDING_TASKS_SUCCESS q r) \<Rightarrow> distinct (map t_id (lt_tasks r))
    | ListScheduled (LIST_SCHEDULED_TASKS_SUCCESS q r) \<Rightarrow> distinct (map t_id (lt_tasks r))
    | ListRetry (LIST_RETRY_TASKS_SUCCESS q r) \<Rightarrow> distinct (map t_id (lt_tasks r))
    | ListArchived (LIST_ARCHIVED_TASKS_SUCCESS q r) \<Rightarrow> distinct (map t_id (lt_tasks r))
    | ListCompleted (LIST_COMPLETED_TASKS_SUCCESS q r) \<Rightarrow> distinct (map t_id (lt_tasks r))
    | ListAggregating (LIST_AGGREGATING_TASKS_SUCCESS q g r) \<Rightarrow> distinct (map t_id (la_tasks r))
    | _ \<Rightarrow> True)"

definition rows_distinct :: "tasks_state \<Rightarrow> bool" where
  "rows_distinct s \<longleftrightarrow> (\<forall>t. distinct (row_ids (slice_of t s)))"

text \<open>
  The ids of a table after an action: a sublist of what it had, or those of the response.
\<close>

lemma own_slice_ids:
  assumes "distinct (row_ids (slice_of (tab_of a) s))" "distinct_response a"
  shows "distinct (row_ids (slice_of (tab_of a) (tasksReducer s a)))"
proof (cases a)
  case (ListActive x) with assms show ?thesis by (cases x) (simp_all add: distinct_response_def comp_def)
next
  case (ListPending x) with assms show ?thesis by (cases x) (simp_all add: distinct_response_def comp_def)
next
  case (ListScheduled x) with assms show ?thesis by (cases x) (simp_all add: distinct_response_def comp_def)
next
  case (ListRetry x) with assms show ?thesis by (cases x) (simp_all add: distinct_response_def comp_def)
next
  case (ListArchived x) with assms show ?thesis by (cases x) (simp_all add: distinct_response_def comp_def)
next
  case (ListCompleted x) with assms show ?thesis by (cases x) (simp_all add: distinct_response_def comp_def)
next
  case (ListAggregating x) with assms show ?thesis by (cases x) (simp_all add: distinct_response_def comp_def)
next
  case (OnActive x) with assms show ?thesis 
    by (cases x) (simp_all add: row_ids_def slice_ops)
next
  case (OnPending x) with assms show ?thesis by (cases x) simp_all
next
  case (OnScheduledTask x) with assms show ?thesis by (cases x) simp_all
next
  case (OnRetryTask x) with assms show ?thesis by (cases x) simp_all
next
  case (OnArchivedTask x) with assms show ?thesis by (cases x) simp_all
next
  case (OnScheduled x) with assms show ?thesis by (cases x) simp_all
next
  case (OnRetry x) with assms show ?thesis by (cases x) simp_all
next
  case (OnArchived x) with assms show ?thesis by (cases x) simp_all
next
  case (OnCompleted x) with assms show ?thesis by (cases x) simp_all
next
  case (OnAggregatingTask x) with assms show ?thesis by (cases x) simp_all
next
  case (OnAggregating x) with assms show ?thesis
    by (cases x) (simp_all add: all_aggregating_begin_def all_aggregating_success_def
        all_aggregating_error_def)
qed (use assms in simp)

lemma rows_distinct_step:
  assumes "rows_distinct s" "distinct_response a"
  shows "rows_distinct (tasksReducer s a)"
  unfolding rows_distinct_def
proof
  fix t
  show "distinct (row_ids (slice_of t (tasksReducer s a)))"
    by (cases "tab_of a = t") (use assms own_slice_ids in \<open>auto simp: rows_distinct_def frame\<close>)
qed

interpretation tasks: machine tasksReducer distinct_response rows_distinct
  by unfold_locales (rule rows_distinct_step)

end
