(* ===== verification/TasksRequests.thy ===== *)
theory TasksRequests
  imports TasksReducer
begin

text \<open>
  The request thunks of \<open>tasksActions.ts\<close> running over \<open>tasksReducer\<close>: which BEGIN actions exist,
  how each settles, which sequence counter it draws from, and which busy flag it raises. The flags
  of the task tables are shown to obey the \<open>request_system\<close> contract, in which an answer about a group
  fits the state only while the table shows that group (\<open>aggregating_flag_sticks\<close> is what happens else).
\<close>

subsection \<open>The thunks as requests\<close>

datatype seq_counter = GetTaskInfoSeq | ListActiveSeq | ListPendingSeq | ListScheduledSeq
  | ListRetrySeq | ListArchivedSeq | ListCompletedSeq | ListAggregatingSeq

definition thunk_begins :: "tasks_action \<Rightarrow> bool" where
  "thunk_begins b \<longleftrightarrow> (\<exists>as. dispatches (b # as))"

text \<open>The thunks that number their requests, with what the comparison with the counter finds.\<close>

inductive list_thunk :: "bool \<Rightarrow> tasks_action list \<Rightarrow> bool" for latest where
  "list_thunk latest (getTaskInfoAsync env send qname ident latest)"
| "list_thunk latest (listActiveTasksAsync env send qname pageOpts latest)"
| "list_thunk latest (listPendingTasksAsync env send qname pageOpts latest)"
| "list_thunk latest (listScheduledTasksAsync env send qname pageOpts latest)"
| "list_thunk latest (listRetryTasksAsync env send qname pageOpts latest)"
| "list_thunk latest (listArchivedTasksAsync env send qname pageOpts latest)"
| "list_thunk latest (listCompletedTasksAsync env send qname pageOpts latest)"
| "list_thunk latest (listAggregatingTasksAsync env send qname gname pageOpts latest)"

lemma list_thunk_dispatches: "list_thunk latest as \<Longrightarrow> dispatches as"
  by (induction rule: list_thunk.induct) (rule dispatches.intros)+

text \<open>The thunks that number their requests, by the BEGIN action they dispatch.\<close>

definition seq_of :: "tasks_action \<Rightarrow> seq_counter option" where
  "seq_of b = (case b of
      GetTaskInfo GET_TASK_INFO_BEGIN \<Rightarrow> Some GetTaskInfoSeq
    | ListActive (LIST_ACTIVE_TASKS_BEGIN q) \<Rightarrow> Some ListActiveSeq
    | ListPending (LIST_PENDING_TASKS_BEGIN q) \<Rightarrow> Some ListPendingSeq
    | ListScheduled (LIST_SCHEDULED_TASKS_BEGIN q) \<Rightarrow> Some ListScheduledSeq
    | ListRetry (LIST_RETRY_TASKS_BEGIN q) \<Rightarrow> Some ListRetrySeq
    | ListArchived (LIST_ARCHIVED_TASKS_BEGIN q) \<Rightarrow> Some ListArchivedSeq
    | ListCompleted (LIST_COMPLETED_TASKS_BEGIN q) \<Rightarrow> Some ListCompletedSeq
    | ListAggregating (LIST_AGGREGATING_TASKS_BEGIN q g) \<Rightarrow> Some ListAggregatingSeq
    | _ \<Rightarrow> None)"

text \<open>What a thunk dispatches once its request is answered; \<open>None\<close> for a thunk that keeps silent.\<close>

definition thunk_settles :: "bool \<Rightarrow> tasks_action \<Rightarrow> tasks_action option \<Rightarrow> bool" where
  "thunk_settles latest b answer \<longleftrightarrow>
     (if seq_of b = None then (\<exists>a. answer = Some a \<and> dispatches [b, a])
      else list_thunk latest (b # (case answer of Some a \<Rightarrow> [a] | None \<Rightarrow> [])))"

lemma settles_dispatches: "thunk_settles latest b (Some a) \<Longrightarrow> dispatches [b, a]"
  by (auto simp: thunk_settles_def dest: list_thunk_dispatches split: if_splits)

lemma stale_thunk_silent: "thunk_settles False b (Some a) \<Longrightarrow> seq_of b = None"
  by (auto simp: thunk_settles_def thunk_defs elim!: list_thunk.cases split: if_splits)

lemma latest_thunk_speaks: "\<not> thunk_settles True b None"
  by (auto simp: thunk_settles_def thunk_defs elim!: list_thunk.cases split: if_splits outcome.splits)

subsection \<open>Busy flags\<close>

datatype flag = Loading tab | BatchAction tab | AllAction tab

primrec busy :: "flag \<Rightarrow> tasks_state \<Rightarrow> bool" where
  "busy (Loading t) s = (if t = DetailTab then ti_loading (taskInfo s) else loading (slice_of t s))"
| "busy (BatchAction t) s = batchActionPending (slice_of t s)"
| "busy (AllAction t) s = allActionPending (slice_of t s)"

text \<open>The group an aggregating action is about, when the table must show it.\<close>

definition group_shown :: "tasks_action \<Rightarrow> tasks_state \<Rightarrow> bool" where
  "group_shown b s = (case b of
      OnAggregating (RUN_ALL_AGGREGATING_TASKS_BEGIN q g) \<Rightarrow> agg_group (aggregatingTasks s) = g
    | OnAggregating (ARCHIVE_ALL_AGGREGATING_TASKS_BEGIN q g) \<Rightarrow> agg_group (aggregatingTasks s) = g
    | OnAggregating (DELETE_ALL_AGGREGATING_TASKS_BEGIN q g) \<Rightarrow> agg_group (aggregatingTasks s) = g
    | OnAggregating (BATCH_RUN_AGGREGATING_TASKS_BEGIN q g ids) \<Rightarrow> agg_group (aggregatingTasks s) = g
    | OnAggregating (BATCH_ARCHIVE_AGGREGATING_TASKS_BEGIN q g ids) \<Rightarrow> agg_group (aggregatingTasks s) = g
    | OnAggregating (BATCH_DELETE_AGGREGATING_TASKS_BEGIN q g ids) \<Rightarrow> agg_group (aggregatingTasks s) = g
    | _ \<Rightarrow> True)"

text \<open>The group of a BEGIN action on a whole group or on some of its tasks, and a table that shows it.\<close>

definition begin_group :: "tasks_action \<Rightarrow> jstring" where
  "begin_group b = (case b of
      OnAggregating (RUN_ALL_AGGREGATING_TASKS_BEGIN q g) \<Rightarrow> g
    | OnAggregating (ARCHIVE_ALL_AGGREGATING_TASKS_BEGIN q g) \<Rightarrow> g
    | OnAggregating (DELETE_ALL_AGGREGATING_TASKS_BEGIN q g) \<Rightarrow> g
    | OnAggregating (BATCH_RUN_AGGREGATING_TASKS_BEGIN q g ids) \<Rightarrow> g
    | OnAggregating (BATCH_ARCHIVE_AGGREGATING_TASKS_BEGIN q g ids) \<Rightarrow> g
    | OnAggregating (BATCH_DELETE_AGGREGATING_TASKS_BEGIN q g ids) \<Rightarrow> g
    | _ \<Rightarrow> [])"

definition showing :: "jstring \<Rightarrow> tasks_state" where
  "showing g = initialState\<lparr>aggregatingTasks := (aggregatingTasks initialState)\<lparr>agg_group := g\<rparr>\<rparr>"

text \<open>A request covers the flag its BEGIN action raises in a table that shows its group.\<close>

definition covers :: "tasks_action \<Rightarrow> flag \<Rightarrow> bool" where
  "covers b f \<longleftrightarrow> busy f (tasksReducer (showing (begin_group b)) b)"

lemma flags_ops [simp]:
  "loading (one_pending i b s) = loading s" "batchActionPending (one_pending i b s) = batchActionPending s"
  "allActionPending (one_pending i b s) = allActionPending s"
  "loading (many_pending ids b s) = loading s" "batchActionPending (many_pending ids b s) = batchActionPending s"
  "allActionPending (many_pending ids b s) = allActionPending s"
  "loading (drop_one i s) = loading s" "batchActionPending (drop_one i s) = batchActionPending s"
  "allActionPending (drop_one i s) = allActionPending s"
  "loading (drop_many ids s) = loading s" "batchActionPending (drop_many ids s) = batchActionPending s"
  "allActionPending (drop_many ids s) = allActionPending s"
  "loading (list_begin s) = True" "batchActionPending (list_begin s) = batchActionPending s"
  "allActionPending (list_begin s) = allActionPending s"
  "loading (list_success rows s) = False" "batchActionPending (list_success rows s) = batchActionPending s"
  "allActionPending (list_success rows s) = allActionPending s"
  "loading (list_error e s) = False" "batchActionPending (list_error e s) = batchActionPending s"
  "allActionPending (list_error e s) = allActionPending s"
  "loading (set_batch b s) = loading s" "batchActionPending (set_batch b s) = b"
  "allActionPending (set_batch b s) = allActionPending s"
  "loading (set_all b s) = loading s" "batchActionPending (set_all b s) = batchActionPending s"
  "allActionPending (set_all b s) = b"
  "loading (clear_all s) = loading s" "batchActionPending (clear_all s) = batchActionPending s"
  "allActionPending (clear_all s) = False"
  by (simp_all add: slice_ops)

lemma flags_truncate [simp]:
  "loading (task_slice.truncate s) = loading s"
  "batchActionPending (task_slice.truncate s) = batchActionPending s"
  "allActionPending (task_slice.truncate s) = allActionPending s"
  by (simp_all add: task_slice.defs)

lemma aggregating_loading [simp]:
  "loading (all_aggregating_begin g s) = loading s"
  "loading (all_aggregating_success g s) = loading s"
  "loading (all_aggregating_error g e s) = loading s"
  by (simp_all add: all_aggregating_begin_def all_aggregating_success_def all_aggregating_error_def)

lemma flags_empty [simp]:
  "\<not> loading empty_slice" "\<not> batchActionPending empty_slice" "\<not> allActionPending empty_slice"
  by (simp_all add: empty_slice_def)

lemma initially_idle [simp]: "\<not> busy f initialState"
proof -
  have "\<not> loading (slice_of t initialState)" "\<not> batchActionPending (slice_of t initialState)"
    "\<not> allActionPending (slice_of t initialState)" for t
    by (cases t; simp add: initialState_def task_slice.defs)+
  moreover have "\<not> ti_loading (taskInfo initialState)" by (simp add: initialState_def)
  ultimately show ?thesis by (cases f) simp_all
qed

lemma showing_idle [simp]: "\<not> busy f (showing g)"
proof -
  have "loading (slice_of t (showing g)) = loading (slice_of t initialState)"
    "batchActionPending (slice_of t (showing g)) = batchActionPending (slice_of t initialState)"
    "allActionPending (slice_of t (showing g)) = allActionPending (slice_of t initialState)" for t
    by (cases t; simp add: showing_def task_slice.defs)+
  moreover have "taskInfo (showing g) = taskInfo initialState" by (simp add: showing_def)
  ultimately have "busy f (showing g) = busy f initialState" by (cases f) (simp_all del: initially_idle)
  then show ?thesis by simp
qed

lemma showing_group [simp]: "agg_group (aggregatingTasks (showing g)) = g"
  by (simp add: showing_def)

text \<open>The tab a flag belongs to; an action of another tab leaves it alone.\<close>

primrec flag_tab :: "flag \<Rightarrow> tab" where
  "flag_tab (Loading t) = t"
| "flag_tab (BatchAction t) = t"
| "flag_tab (AllAction t) = t"

lemma busy_frame: "flag_tab f \<noteq> tab_of a \<Longrightarrow> busy f (tasksReducer s a) = busy f s"
  by (cases f) (auto simp: frame)

lemma raised_by_begin:
  assumes "busy f (tasksReducer s a)"
  shows "busy f s \<or> covers a f"
proof (cases "flag_tab f = tab_of a")
  case False
  with assms show ?thesis by (simp add: busy_frame)
next
  case True
  with assms show ?thesis
    unfolding covers_def
    by (cases a; rename_tac x; case_tac x; cases f;
        simp add: begin_group_def all_aggregating_begin_def all_aggregating_success_def all_aggregating_error_def
          split: if_splits)
qed

lemma covers_tab: "covers b f \<Longrightarrow> flag_tab f = tab_of b"
  unfolding covers_def using busy_frame [of f b "showing (begin_group b)"] by (cases "flag_tab f = tab_of b") simp_all

text \<open>The spinner of a table is raised by the requests of one counter and by no other.\<close>

primrec tab_seq :: "tab \<Rightarrow> seq_counter" where
  "tab_seq ActiveTab = ListActiveSeq"
| "tab_seq PendingTab = ListPendingSeq"
| "tab_seq ScheduledTab = ListScheduledSeq"
| "tab_seq RetryTab = ListRetrySeq"
| "tab_seq ArchivedTab = ListArchivedSeq"
| "tab_seq CompletedTab = ListCompletedSeq"
| "tab_seq AggregatingTab = ListAggregatingSeq"
| "tab_seq DetailTab = GetTaskInfoSeq"

lemma covers_loading: "covers b (Loading t) \<longleftrightarrow> seq_of b = Some (tab_seq t)"
proof (cases "tab_of b = t")
  case True
  have "covers b (Loading (tab_of b)) \<longleftrightarrow> seq_of b = Some (tab_seq (tab_of b))"
    unfolding covers_def seq_of_def
    by (cases b; rename_tac x; case_tac x;
        simp add: showing_def initialState_def task_slice.defs all_aggregating_begin_def all_aggregating_success_def
          all_aggregating_error_def)
  with True show ?thesis by simp
next
  case False
  have "seq_of b \<noteq> Some (tab_seq t)"
    using False unfolding seq_of_def
    by (cases b; cases t; simp split: get_task_info_action.splits list_active_action.splits
      list_pending_action.splits list_scheduled_action.splits list_retry_action.splits
      list_archived_action.splits list_completed_action.splits list_aggregating_action.splits)
  moreover have "\<not> covers b (Loading t)" using False covers_tab [of b "Loading t"] by auto
  ultimately show ?thesis by simp
qed

lemma covers_one_flag: "seq_of b = Some k \<Longrightarrow> covers b f \<Longrightarrow> f = Loading (tab_of b)"
proof -
  assume k: "seq_of b = Some k" and c: "covers b f"
  have "\<not> covers b (BatchAction (tab_of b)) \<and> \<not> covers b (AllAction (tab_of b))"
    using k unfolding covers_def seq_of_def
    by (cases b; rename_tac x; case_tac x; simp add: showing_def initialState_def task_slice.defs)
  with c covers_tab [OF c] show ?thesis by (cases f) auto
qed

lemma seq_covers:
  assumes "seq_of b = Some k" "seq_of b' = Some k" "covers b f"
  shows "covers b' f"
  using covers_one_flag [OF assms(1,3)] assms covers_loading by auto

text \<open>The answer of a request: the same tab, every flag its BEGIN raised cleared, none raised.\<close>

lemma settle_tab: "dispatches [b, a] \<Longrightarrow> tab_of a = tab_of b"
  by (erule dispatches.cases; auto simp: thunk_defs split: outcome.splits if_splits)

lemma settle_clears_own:
  "dispatches [b, a] \<Longrightarrow> f \<in> {Loading (tab_of b), BatchAction (tab_of b), AllAction (tab_of b)} \<Longrightarrow>
   group_shown b s \<Longrightarrow> covers b f \<longrightarrow> \<not> busy f (tasksReducer s a)"
  unfolding covers_def
  by (erule dispatches.cases; clarsimp simp: thunk_defs group_shown_def split: outcome.splits if_splits;
      elim disjE; simp add: begin_group_def showing_def initialState_def task_slice.defs
        all_aggregating_begin_def all_aggregating_success_def all_aggregating_error_def)

lemma settle_clears_flag: "dispatches [b, a] \<Longrightarrow> covers b f \<Longrightarrow> group_shown b s \<Longrightarrow> \<not> busy f (tasksReducer s a)"
  using settle_clears_own [of b a f s] covers_tab [of b f] by (cases f) auto

lemma settle_raises_none:
  assumes "dispatches [b, a]" shows "\<not> covers a f"
proof -
  have "f \<in> {Loading (tab_of a), BatchAction (tab_of a), AllAction (tab_of a)} \<Longrightarrow> \<not> covers a f"
    using assms unfolding covers_def
    by (elim dispatches.cases; clarsimp simp: thunk_defs split: outcome.splits if_splits;
        elim disjE; simp add: begin_group_def showing_def initialState_def task_slice.defs
          all_aggregating_success_def all_aggregating_error_def split: if_splits)
  with covers_tab [of a f] show ?thesis by (cases f) auto
qed

lemma settle_keeps_flag: "dispatches [b, a] \<Longrightarrow> busy f (tasksReducer s a) \<Longrightarrow> busy f s"
  using raised_by_begin settle_raises_none by blast

interpretation task_requests:
  request_system tasksReducer thunk_begins thunk_settles seq_of busy covers group_shown
  by unfold_locales
    (auto dest: raised_by_begin settles_dispatches settle_clears_flag settle_keeps_flag stale_thunk_silent
      simp: latest_thunk_speaks intro: seq_covers)

lemma unshown_flags: "covers b f \<Longrightarrow> \<not> group_shown b s \<Longrightarrow> f \<in> {BatchAction AggregatingTab, AllAction AggregatingTab}"
proof -
  assume c: "covers b f" and g: "\<not> group_shown b s"
  have "tab_of b = AggregatingTab" "seq_of b = None"
    using g by (auto simp: group_shown_def seq_of_def split: tasks_action.splits aggregating_action.splits)
  moreover have "f \<noteq> Loading AggregatingTab" using covers_loading [of b AggregatingTab] c \<open>seq_of b = None\<close> by auto
  ultimately show ?thesis using covers_tab [OF c] by (cases f) auto
qed

text \<open>A run of the task tables: requests issued and answered in any order from the initial state.\<close>

definition task_run :: "tasks_action event list \<Rightarrow> (tasks_state, tasks_action, seq_counter) running \<Rightarrow> bool" where
  "task_run es w \<longleftrightarrow> runs tasksReducer thunk_begins thunk_settles seq_of initialState es w"

lemma dispatches_begin: "dispatches (b # as) \<Longrightarrow> thunk_begins b"
  unfolding thunk_begins_def by blast

subsection \<open>What a settled mutation leaves\<close>

definition is_query :: "tasks_action \<Rightarrow> bool" where
  "is_query a \<longleftrightarrow> starts_with ''LIST_'' (action_type a) \<or> starts_with ''GET_'' (action_type a)"

definition is_error :: "tasks_action \<Rightarrow> bool" where
  "is_error a \<longleftrightarrow> ends_with ''_ERROR'' (action_type a)"

text \<open>Nothing pending in any table.\<close>

definition quiet_slice :: "'z task_slice_scheme \<Rightarrow> bool" where
  "quiet_slice s \<longleftrightarrow> \<not> batchActionPending s \<and> \<not> allActionPending s \<and>
     (\<forall>t \<in> set (data s). \<not> requestPending t)"

lemma row_roundtrip [simp]: "\<not> requestPending t \<Longrightarrow> t\<lparr>requestPending := False\<rparr> = t"
  by (cases t) simp

lemma map_where_undo:
  "(\<And>x. x \<in> set xs \<Longrightarrow> p x \<Longrightarrow> p (f x) \<and> g (f x) = x) \<Longrightarrow>
   (\<And>x. x \<in> set xs \<Longrightarrow> \<not> p x \<Longrightarrow> p (f x) = p (f x)) \<Longrightarrow>
   map_where p g (map_where p f xs) = xs"
  by (induction xs) (auto simp: map_where_def)

lemma one_pending_undo [simp]:
  "quiet_slice s \<Longrightarrow> one_pending i False (one_pending i True s) = s"
  by (simp add: one_pending_def quiet_slice_def map_where_undo)

lemma many_pending_undo [simp]:
  "quiet_slice s \<Longrightarrow>
   many_pending ids False (set_batch False (many_pending ids True (set_batch True s))) = s"
  by (simp add: many_pending_def set_batch_def quiet_slice_def map_where_undo)

lemma set_all_undo [simp]: "quiet_slice s \<Longrightarrow> set_all False (set_all True s) = s"
  by (simp add: set_all_def quiet_slice_def)

lemma cancel_batch_undo [simp]:
  "quiet_slice s \<Longrightarrow>
   (many_pending ids True (set_batch True s))
     \<lparr>batchActionPending := False,
      data := map (\<lambda>t. t\<lparr>requestPending := False\<rparr>) (data (many_pending ids True (set_batch True s)))\<rparr> = s"
  by (cases s) (auto simp: many_pending_def set_batch_def quiet_slice_def map_where_def comp_def
      intro!: map_idI)

lemma cancel_all_undo [simp]:
  "quiet_slice s \<Longrightarrow>
   s\<lparr>allActionPending := False,
     data := map ((\<lambda>t. t\<lparr>requestPending := False\<rparr>) \<circ> (\<lambda>t. t\<lparr>requestPending := True\<rparr>)) (data s)\<rparr> = s"
  by (cases s) (auto simp: quiet_slice_def intro!: map_idI)

lemma slice_truncate [simp]:
  "quiet_slice (task_slice.truncate s) = quiet_slice s" "data (task_slice.truncate s) = data s"
  by (simp_all add: task_slice.defs quiet_slice_def)

lemma quiet_flags [simp]:
  "quiet_slice s \<Longrightarrow> \<not> batchActionPending s" "quiet_slice s \<Longrightarrow> \<not> allActionPending s"
  "quiet_slice s \<Longrightarrow> map (requestPending_update (\<lambda>_. False)) (data s) = data s"
  by (auto simp: quiet_slice_def intro!: map_idI)

lemma agg_group_ops [simp]:
  "agg_group (many_pending ids b s) = agg_group s" "agg_group (set_batch b s) = agg_group s"
  "agg_group (set_all b s) = agg_group s" "data (set_all b s) = data s"
  by (simp_all add: slice_ops)

text \<open>All that a table shows except the error line.\<close>

definition shown :: "tab \<Rightarrow> tasks_state \<Rightarrow> task_row list \<times> bool \<times> bool \<times> bool" where
  "shown t s = (let v = slice_of t s in (data v, loading v, batchActionPending v, allActionPending v))"

lemma rollback_own:
  assumes "dispatches [b, a]" "\<not> is_query b" "is_error a" "quiet_slice (slice_of (tab_of b) s)"
  shows "shown (tab_of b) (tasksReducer (tasksReducer s b) a) = shown (tab_of b) s"
  using assms unfolding is_query_def is_error_def
  by (elim dispatches.cases; clarsimp simp: thunk_defs shown_def starts_with_def ends_with_def
      all_aggregating_begin_def all_aggregating_error_def comp_def Let_def
    split: outcome.splits if_splits)

lemma mutation_tab: "dispatches (b # as) \<Longrightarrow> \<not> is_query b \<Longrightarrow> tab_of b \<noteq> DetailTab"
  unfolding is_query_def
  by (elim dispatches.cases; clarsimp simp: thunk_defs starts_with_def)

text \<open>The ids a settling action reports as gone from the table.\<close>

definition removed_by :: "tasks_action \<Rightarrow> jstring \<Rightarrow> bool" where
  "removed_by a i = (case a of
      OnPending x \<Rightarrow> (case x of
          ARCHIVE_PENDING_TASK_SUCCESS q j \<Rightarrow> i = j
        | DELETE_PENDING_TASK_SUCCESS q j \<Rightarrow> i = j
        | ARCHIVE_ALL_PENDING_TASKS_SUCCESS q \<Rightarrow> True
        | DELETE_ALL_PENDING_TASKS_SUCCESS q n \<Rightarrow> True
        | BATCH_ARCHIVE_PENDING_TASKS_SUCCESS q r \<Rightarrow> i \<in> set (ba_archived_ids r)
        | BATCH_DELETE_PENDING_TASKS_SUCCESS q r \<Rightarrow> i \<in> set (bd_deleted_ids r)
        | _ \<Rightarrow> False)
    | OnScheduledTask x \<Rightarrow> (case x of
          RUN_SCHEDULED_TASK_SUCCESS q j \<Rightarrow> i = j
        | ARCHIVE_SCHEDULED_TASK_SUCCESS q j \<Rightarrow> i = j
        | _ \<Rightarrow> False)
    | OnRetryTask x \<Rightarrow> (case x of
          RUN_RETRY_TASK_SUCCESS q j \<Rightarrow> i = j
        | ARCHIVE_RETRY_TASK_SUCCESS q j \<Rightarrow> i = j
        | _ \<Rightarrow> False)
    | OnArchivedTask x \<Rightarrow> (case x of
          RUN_ARCHIVED_TASK_SUCCESS q j \<Rightarrow> i = j
        | _ \<Rightarrow> False)
    | OnScheduled x \<Rightarrow> (case x of
          DELETE_SCHEDULED_TASK_SUCCESS q j \<Rightarrow> i = j
        | RUN_ALL_SCHEDULED_TASKS_SUCCESS q \<Rightarrow> True
        | ARCHIVE_ALL_SCHEDULED_TASKS_SUCCESS q \<Rightarrow> True
        | DELETE_ALL_SCHEDULED_TASKS_SUCCESS q n \<Rightarrow> True
        | BATCH_RUN_SCHEDULED_TASKS_SUCCESS q r \<Rightarrow> i \<in> set (br_pending_ids r)
        | BATCH_ARCHIVE_SCHEDULED_TASKS_SUCCESS q r \<Rightarrow> i \<in> set (ba_archived_ids r)
        | BATCH_DELETE_SCHEDULED_TASKS_SUCCESS q r \<Rightarrow> i \<in> set (bd_deleted_ids r)
        | _ \<Rightarrow> False)
    | OnRetry x \<Rightarrow> (case x of
          DELETE_RETRY_TASK_SUCCESS q j \<Rightarrow> i = j
        | RUN_ALL_RETRY_TASKS_SUCCESS q \<Rightarrow> True
        | ARCHIVE_ALL_RETRY_TASKS_SUCCESS q \<Rightarrow> True
        | DELETE_ALL_RETRY_TASKS_SUCCESS q n \<Rightarrow> True
        | BATCH_RUN_RETRY_TASKS_SUCCESS q r \<Rightarrow> i \<in> set (br_pending_ids r)
        | BATCH_ARCHIVE_RETRY_TASKS_SUCCESS q r \<Rightarrow> i \<in> set (ba_archived_ids r)
        | BATCH_DELETE_RETRY_TASKS_SUCCESS q r \<Rightarrow> i \<in> set (bd_deleted_ids r)
        | _ \<Rightarrow> False)
    | OnArchived x \<Rightarrow> (case x of
          DELETE_ARCHIVED_TASK_SUCCESS q j \<Rightarrow> i = j
        | RUN_ALL_ARCHIVED_TASKS_SUCCESS q \<Rightarrow> True
        | DELETE_ALL_ARCHIVED_TASKS_SUCCESS q n \<Rightarrow> True
        | BATCH_RUN_ARCHIVED_TASKS_SUCCESS q r \<Rightarrow> i \<in> set (br_pending_ids r)
        | BATCH_DELETE_ARCHIVED_TASKS_SUCCESS q r \<Rightarrow> i \<in> set (bd_deleted_ids r)
        | _ \<Rightarrow> False)
    | OnCompleted x \<Rightarrow> (case x of
          DELETE_COMPLETED_TASK_SUCCESS q j \<Rightarrow> i = j
        | DELETE_ALL_COMPLETED_TASKS_SUCCESS q n \<Rightarrow> True
        | BATCH_DELETE_COMPLETED_TASKS_SUCCESS q r \<Rightarrow> i \<in> set (bd_deleted_ids r)
        | _ \<Rightarrow> False)
    | OnAggregatingTask x \<Rightarrow> (case x of
          RUN_AGGREGATING_TASK_SUCCESS q j \<Rightarrow> i = j
        | ARCHIVE_AGGREGATING_TASK_SUCCESS q j \<Rightarrow> i = j
        | DELETE_AGGREGATING_TASK_SUCCESS q j \<Rightarrow> i = j
        | _ \<Rightarrow> False)
    | OnAggregating x \<Rightarrow> (case x of
          RUN_ALL_AGGREGATING_TASKS_SUCCESS q g n \<Rightarrow> True
        | ARCHIVE_ALL_AGGREGATING_TASKS_SUCCESS q g n \<Rightarrow> True
        | DELETE_ALL_AGGREGATING_TASKS_SUCCESS q g n \<Rightarrow> True
        | BATCH_RUN_AGGREGATING_TASKS_SUCCESS q g r \<Rightarrow> i \<in> set (br_pending_ids r)
        | BATCH_ARCHIVE_AGGREGATING_TASKS_SUCCESS q g r \<Rightarrow> i \<in> set (ba_archived_ids r)
        | BATCH_DELETE_AGGREGATING_TASKS_SUCCESS q g r \<Rightarrow> i \<in> set (bd_deleted_ids r)
        | _ \<Rightarrow> False)
    | _ \<Rightarrow> False)"

lemma row_ids_fold: "map t_id (data s) = row_ids s"
  by (simp add: row_ids_def)

lemma map_t_id_if2:
  "(\<And>x. t_id (f x) = t_id x) \<Longrightarrow> (\<And>x. t_id (g x) = t_id x) \<Longrightarrow>
   map (\<lambda>x. t_id (if p x then f x else if q x then g x else x)) xs = map t_id xs"
  by simp

lemma removed_rows_own:
  assumes "dispatches [b, a]" "\<not> is_query b" "group_shown b s"
  shows "row_ids (slice_of (tab_of b) (tasksReducer (tasksReducer s b) a)) =
    filter (\<lambda>i. \<not> removed_by a i) (row_ids (slice_of (tab_of b) s))"
  using assms unfolding is_query_def
  by (elim dispatches.cases; clarsimp simp: thunk_defs starts_with_def removed_by_def group_shown_def
      all_aggregating_begin_def all_aggregating_success_def all_aggregating_error_def comp_def
      row_ids_fold map_t_id_if2
    split: outcome.splits if_splits)


lemma query_tabs: "dispatches [b, a] \<Longrightarrow> tab_of a = tab_of b"
  by (rule settle_tab)

subsection \<open>Properties\<close>

text \<open>C1. In every interleaving of requests and answers, a raised busy flag of a task table is
  covered by a request still in flight, for a list request the newest of its kind. Only the batch and all
  flags of the aggregating table may be raised without one, and then an answer to such a request came
  while the table showed another group. So when nothing is in flight and no group was left early, no
  spinner runs and no bulk button is disabled.\<close>

theorem busy_flags_covered:
  assumes "task_run es w" and "busy f (store w)"
  shows "(\<exists>b n. (b, n) \<in> set (inflight w) \<and> covers b f \<and> (\<forall>k. seq_of b = Some k \<longrightarrow> n = counters w k)) \<or>
    f \<in> {BatchAction AggregatingTab, AllAction AggregatingTab} \<and>
    (\<exists>es1 b n a es2. es = es1 @ Apply b n a # es2 \<and> covers b f \<and>
       \<not> group_shown b (store_after tasksReducer initialState es1))"
  using task_requests.busy_covered [OF assms(1) [unfolded task_run_def] initially_idle assms(2)] unshown_flags
  unfolding covered_def lost_answer_def is_latest_def by blast

text \<open>The rows of a list answer.\<close>

definition listed :: "tasks_action \<Rightarrow> task_info list option" where
  "listed a = (case a of
      ListActive (LIST_ACTIVE_TASKS_SUCCESS q r) \<Rightarrow> Some (lt_tasks r)
    | ListPending (LIST_PENDING_TASKS_SUCCESS q r) \<Rightarrow> Some (lt_tasks r)
    | ListScheduled (LIST_SCHEDULED_TASKS_SUCCESS q r) \<Rightarrow> Some (lt_tasks r)
    | ListRetry (LIST_RETRY_TASKS_SUCCESS q r) \<Rightarrow> Some (lt_tasks r)
    | ListArchived (LIST_ARCHIVED_TASKS_SUCCESS q r) \<Rightarrow> Some (lt_tasks r)
    | ListCompleted (LIST_COMPLETED_TASKS_SUCCESS q r) \<Rightarrow> Some (lt_tasks r)
    | ListAggregating (LIST_AGGREGATING_TASKS_SUCCESS q g r) \<Rightarrow> Some (la_tasks r)
    | _ \<Rightarrow> None)"

lemma truncate_idle [simp]: "task_info.truncate (idle_row x) = x" "task_info.truncate (idle_active_row x) = x"
  by (simp_all add: idle_row_def idle_active_row_def task_info.defs)

lemma listed_shown:
  "listed a = Some ts \<Longrightarrow> map task_info.truncate (data (slice_of (tab_of a) (tasksReducer s a))) = ts"
  unfolding listed_def
  by (cases a; rename_tac x; case_tac x; simp add: list_success_def comp_def; metis map_ident)

text \<open>C4. The answers of the list requests reach the store in order: one that is applied is the answer to
  the newest request its table has, whatever older ones are still out or answered later; it ends the
  spinner, and when it lists tasks, the table shows exactly those.\<close>

theorem newest_list_answer_shows:
  assumes "task_run (es @ [Apply b n a]) w" and "covers b (Loading t)"
  shows "(\<exists>es1 es2. es = es1 @ Issue b n # es2 \<and> (\<forall>b' m. covers b' (Loading t) \<longrightarrow> Issue b' m \<notin> set es2)) \<and>
    \<not> busy (Loading t) (store w) \<and>
    (\<forall>ts. listed a = Some ts \<longrightarrow> map task_info.truncate (data (slice_of t (store w))) = ts)"
proof -
  have k: "seq_of b = Some (tab_seq t)" using assms(2) by (simp add: covers_loading)
  note new = task_requests.applied_is_newest [OF assms(1) [unfolded task_run_def] k]
  then have d: "dispatches [b, a]" using settles_dispatches by blast
  have tab: "tab_of a = t" using settle_tab [OF d] covers_tab [OF assms(2)] by simp
  have "group_shown b v" for v using unshown_flags [OF assms(2), of v] by auto
  from settle_clears_flag [OF d assms(2) this] new have "\<not> busy (Loading t) (store w)" by (simp del: busy.simps)
  moreover have "map task_info.truncate (data (slice_of t (store w))) = ts" if "listed a = Some ts" for ts
    using listed_shown [OF that] new tab by simp
  ultimately show ?thesis using new k by (simp add: newest_issue_def covers_loading)
qed

text \<open>C3. A mutation that fails changes nothing, when no other request on its table is pending: from a table
  with no row marked and neither bulk flag raised, the BEGIN action of a cancel, run, archive or delete
  request followed by its ERROR action gives back the rows and flags of every table.\<close>

theorem failed_mutation_rolls_back:
  assumes "dispatches [b, a]" and "\<not> is_query b" and "is_error a"
    and "quiet_slice (slice_of (tab_of b) s)"
  shows "shown t (foldl tasksReducer s [b, a]) = shown t s \<and>
    taskInfo (foldl tasksReducer s [b, a]) = taskInfo s"
  using rollback_own [OF assms] query_tabs [OF assms(1)] mutation_tab [OF assms(1,2)]
  by (cases "tab_of b = t") (auto simp: shown_def frame)


text \<open>Row ids stay unique in every table after any sequence of actions whose list responses name
  each task once.\<close>

theorem table_ids_stay_distinct:
  assumes "list_all distinct_response as"
  shows "rows_distinct (foldl tasksReducer initialState as)"
proof (rule tasks.run_inv [OF _ assms])
  have "data (slice_of t initialState) = []" for t
    by (cases t) (simp_all add: initialState_def empty_slice_def task_slice.defs)
  then show "rows_distinct initialState" by (simp add: rows_distinct_def row_ids_def)
qed

subsection \<open>Two requests that do not settle cleanly\<close>

text \<open>The ids a batch BEGIN action marks.\<close>

definition batch_ids :: "tasks_action \<Rightarrow> jstring list" where
  "batch_ids b = (case b of
      OnPending (BATCH_ARCHIVE_PENDING_TASKS_BEGIN q ids) \<Rightarrow> ids
    | OnPending (BATCH_DELETE_PENDING_TASKS_BEGIN q ids) \<Rightarrow> ids
    | OnScheduled (BATCH_RUN_SCHEDULED_TASKS_BEGIN q ids) \<Rightarrow> ids
    | OnScheduled (BATCH_ARCHIVE_SCHEDULED_TASKS_BEGIN q ids) \<Rightarrow> ids
    | OnScheduled (BATCH_DELETE_SCHEDULED_TASKS_BEGIN q ids) \<Rightarrow> ids
    | OnRetry (BATCH_RUN_RETRY_TASKS_BEGIN q ids) \<Rightarrow> ids
    | OnRetry (BATCH_ARCHIVE_RETRY_TASKS_BEGIN q ids) \<Rightarrow> ids
    | OnRetry (BATCH_DELETE_RETRY_TASKS_BEGIN q ids) \<Rightarrow> ids
    | OnArchived (BATCH_RUN_ARCHIVED_TASKS_BEGIN q ids) \<Rightarrow> ids
    | OnArchived (BATCH_DELETE_ARCHIVED_TASKS_BEGIN q ids) \<Rightarrow> ids
    | OnCompleted (BATCH_DELETE_COMPLETED_TASKS_BEGIN q ids) \<Rightarrow> ids
    | OnAggregating (BATCH_RUN_AGGREGATING_TASKS_BEGIN q g ids) \<Rightarrow> ids
    | OnAggregating (BATCH_ARCHIVE_AGGREGATING_TASKS_BEGIN q g ids) \<Rightarrow> ids
    | OnAggregating (BATCH_DELETE_AGGREGATING_TASKS_BEGIN q g ids) \<Rightarrow> ids
    | _ \<Rightarrow> [])"

lemma drop_marked:
  "r \<in> set (data (drop_many gone (set_batch b (many_pending ids True s)))) \<Longrightarrow>
   t_id r \<in> set ids \<Longrightarrow> requestPending r"
  by (auto simp: drop_many_def set_batch_def many_pending_def set_map_where split: if_splits)

lemma marked_rows_own:
  assumes "dispatches [b, a]" "\<not> is_error a" "group_shown b s"
    and "r \<in> set (data (slice_of (tab_of b) (tasksReducer (tasksReducer s b) a)))"
    and "t_id r \<in> set (batch_ids b)"
  shows "requestPending r"
  using assms unfolding is_error_def
  by (elim dispatches.cases; clarsimp simp: thunk_defs batch_ids_def drop_marked
      ends_with_def starts_with_def group_shown_def split: outcome.splits if_splits)

text \<open>After a batch delete, run or archive that succeeded, the rows the request named and the
  server did not process (\<open>failed_ids\<close>, \<open>error_ids\<close>) are still marked as having a request
  pending: only the next list response clears the mark.\<close>

theorem unprocessed_rows_stay_marked:
  assumes "dispatches [b, a]" and "\<not> is_error a" and "group_shown b s"
    and "r \<in> set (data (slice_of (tab_of b) (foldl tasksReducer s [b, a])))"
    and "t_id r \<in> set (batch_ids b)"
  shows "requestPending r"
  using assms marked_rows_own by simp

lemma run_issue_guarded:
  assumes "task_run es w" "dispatches (b # as)" "seq_of b = Some k"
  shows "task_run (es @ [Issue b (Suc (counters w k))])
    (w\<lparr>store := tasksReducer (store w) b, inflight := inflight w @ [(b, Suc (counters w k))],
       counters := (counters w)(k := Suc (counters w k))\<rparr>)"
  using assms(1) unfolding task_run_def
  by (rule runs.more) (rule run_step.issue_guarded [where kind = seq_of and begins = thunk_begins,
      OF dispatches_begin [OF assms(2)] assms(3) refl])

lemma run_issue_free:
  assumes "task_run es w" "dispatches (b # as)" "seq_of b = None"
  shows "task_run (es @ [Issue b 0])
    (w\<lparr>store := tasksReducer (store w) b, inflight := inflight w @ [(b, 0)]\<rparr>)"
  using assms(1) unfolding task_run_def
  by (rule runs.more) (rule run_step.issue_free [where kind = seq_of and begins = thunk_begins,
      OF dispatches_begin [OF assms(2)] assms(3)])

lemma run_answer:
  assumes "task_run es w" "(b, n) \<in> set (inflight w)" "thunk_settles True b (Some a)"
    and "\<forall>k. seq_of b = Some k \<longrightarrow> n = counters w k"
  shows "task_run (es @ [Apply b n a])
    (w\<lparr>store := tasksReducer (store w) a, inflight := remove1 (b, n) (inflight w)\<rparr>)"
proof -
  have "is_latest seq_of w b n" using assms(4) by (simp add: is_latest_def)
  then have "run_step tasksReducer thunk_begins thunk_settles seq_of w (Apply b n a)
      (w\<lparr>store := tasksReducer (store w) a, inflight := remove1 (b, n) (inflight w)\<rparr>)"
    by (intro run_step.answer [OF assms(2)]) (simp add: assms(3))
  with assms(1) show ?thesis unfolding task_run_def by (rule runs.more)
qed

lemma run_start: "task_run [] \<lparr>store = initialState, inflight = [], counters = \<lambda>_. 0\<rparr>"
  unfolding task_run_def by (rule runs.start)

text \<open>The API of a page at the root of its origin, for concrete runs.\<close>

definition sample_env :: api_env where
  "sample_env = \<lparr>getBaseUrl = js ''/api'', stringify_page = (\<lambda>_. []), stringify_metrics = (\<lambda>_. [])\<rparr>"

lemma seg_sample: "seg (js ''q'') = Some (js ''q'')" "seg (js ''g'') = Some (js ''g'')"
  "seg (js ''h'') = Some (js ''h'')" "seg (js ''a'') = Some (js ''a'')"
  by (simp_all add: seg_def js_def utf8_def escape_byte_def unreserved_def)

lemmas sample_simps = seg_sample template_def request_def call_def paged_def thunk_defs

text \<open>The group check of the aggregating table loses the end of a batch action: a batch delete
  issued for one group, answered after the operator has switched to another group, leaves the
  table's batch flag raised with nothing in flight.\<close>

theorem aggregating_flag_sticks:
  "\<exists>es w. task_run es w \<and> inflight w = [] \<and> batchActionPending (aggregatingTasks (store w))"
proof -
  let ?q = "js ''q''" and ?g = "js ''g''" and ?h = "js ''h''"
  let ?list = "\<lambda>g. ListAggregating (LIST_AGGREGATING_TASKS_BEGIN ?q g)"
  let ?listed = "\<lambda>g. ListAggregating (LIST_AGGREGATING_TASKS_SUCCESS ?q g r)"
  let ?batch = "OnAggregating (BATCH_DELETE_AGGREGATING_TASKS_BEGIN ?q ?g [js ''a''])"
  let ?done = "OnAggregating (BATCH_DELETE_AGGREGATING_TASKS_SUCCESS ?q ?g p)"
  have seq: "\<And>g. seq_of (?list g) = Some ListAggregatingSeq" "seq_of ?batch = None"
    by (simp_all add: seq_of_def)
  have listed: "list_thunk True [?list ?g, ?listed ?g]" "list_thunk True [?list ?h, ?listed ?h]"
    using list_thunk.intros(8) [of True sample_env "\<lambda>_. Fulfilled r" ?q ?g None]
      list_thunk.intros(8) [of True sample_env "\<lambda>_. Fulfilled r" ?q ?h None]
    by (simp_all add: sample_simps listAggregatingTasks_def)
  note list = listed [THEN list_thunk_dispatches]
  have batch: "dispatches [?batch, ?done]"
    using dispatches.intros(52) [of sample_env "\<lambda>_. Fulfilled p" ?q ?g "[js ''a'']"]
    by (simp add: sample_simps batchDeleteAggregatingTasks_def)
  have gh: "?g \<noteq> ?h" by (simp add: js_def)
  note r1 = run_issue_guarded [OF run_start list(1) seq(1)]
  note r2 = run_answer [OF r1, of "?list ?g" 1 "?listed ?g"]
  note r3 = run_issue_free [OF r2 batch seq(2)]
  note r4 = run_issue_guarded [OF r3 list(2) seq(1)]
  note r5 = run_answer [OF r4, of ?batch 0 ?done]
  note r6 = run_answer [OF r5, of "?list ?h" 2 "?listed ?h"]
  show ?thesis
    by (rule exI, rule exI, rule conjI, rule r6)
      (simp_all add: thunk_settles_def listed batch seq gh list_begin_def list_success_def many_pending_def set_batch_def)
qed

subsection \<open>Concrete runs\<close>

definition sample_task :: "jstring \<Rightarrow> task_info" where
  "sample_task i = \<lparr>t_id = i, t_queue = js ''q'', t_type = js ''mail'', t_payload = [],
     t_state = js ''retry'', t_start_time = [], t_pending_since = None, t_max_retry = 25,
     t_retried = 1, t_last_failed_at = [], t_error_message = [], t_next_process_at = [],
     t_timeout_seconds = 0, t_deadline = [], t_group = [], t_completed_at = [], t_result = [],
     t_ttl_seconds = 0, t_is_orphaned = False, t_headers = None\<rparr>"

definition sample_state :: tasks_state where
  "sample_state = initialState\<lparr>retryTasks :=
     empty_slice\<lparr>data := map (\<lambda>i. idle_row (sample_task i)) [js ''a'', js ''b'']\<rparr>\<rparr>"

lemma t_id_sample [simp]: "t_id (sample_task i) = i"
  by (simp add: sample_task_def)

lemma sample_rows: "data (retryTasks sample_state) =
   [idle_row (sample_task (js ''a'')), idle_row (sample_task (js ''b''))]"
  by (simp add: sample_state_def)

lemma sample_ids_distinct: "js ''a'' \<noteq> js ''b''"
  by (simp add: js_def)

lemma pending_seq: "seq_of (ListPending (LIST_PENDING_TASKS_BEGIN q)) = Some ListPendingSeq"
  by (simp add: seq_of_def)

lemma listed_pending: "list_thunk True [ListPending (LIST_PENDING_TASKS_BEGIN (js ''q'')),
   ListPending (LIST_PENDING_TASKS_SUCCESS (js ''q'') r)]"
  using list_thunk.intros(3) [of True sample_env "\<lambda>_. Fulfilled r" "js ''q''" None]
  by (simp add: sample_simps listPendingTasks_def)

lemma pending_settles: "thunk_settles True (ListPending (LIST_PENDING_TASKS_BEGIN (js ''q'')))
   (Some (ListPending (LIST_PENDING_TASKS_SUCCESS (js ''q'') r)))"
  by (simp add: thunk_settles_def pending_seq listed_pending)

lemma refused_delete: "dispatches [OnRetry (DELETE_RETRY_TASK_BEGIN (js ''q'') (js ''a'')),
   OnRetry (DELETE_RETRY_TASK_ERROR (js ''q'') (js ''a'') (toErrorString e))]"
  using dispatches.intros(37) [of sample_env "\<lambda>_. Rejected e" "js ''q''" "js ''a''"]
  by (simp add: sample_simps deleteRetryTask_def)

lemma partial_batch: "dispatches
   [OnRetry (BATCH_DELETE_RETRY_TASKS_BEGIN (js ''q'') [js ''a'', js ''b'']),
    OnRetry (BATCH_DELETE_RETRY_TASKS_SUCCESS (js ''q'')
      \<lparr>bd_deleted_ids = [js ''a''], bd_failed_ids = [js ''b'']\<rparr>)]"
  using dispatches.intros(38) [of sample_env
      "\<lambda>_. Fulfilled \<lparr>bd_deleted_ids = [js ''a''], bd_failed_ids = [js ''b'']\<rparr>"
      "js ''q''" "[js ''a'', js ''b'']"]
  by (simp add: sample_simps batchDeleteRetryTasks_def)

theorem busy_flags_covered_witness:
  "\<exists>es w b n. task_run es w \<and> busy (Loading PendingTab) (store w) \<and>
     (b, n) \<in> set (inflight w) \<and> covers b (Loading PendingTab)"
proof -
  note r = run_issue_guarded [OF run_start listed_pending [THEN list_thunk_dispatches] pending_seq]
  let ?b = "ListPending (LIST_PENDING_TASKS_BEGIN (js ''q''))"
  let ?w = "\<lparr>store = tasksReducer initialState ?b, inflight = [(?b, 1)], counters = (\<lambda>_. 0)(ListPendingSeq := 1)\<rparr>"
  have run: "task_run [Issue ?b 1] ?w" using r by (simp del: tasksReducer.simps)
  have busy: "busy (Loading PendingTab) (store ?w)" by simp
  from busy_flags_covered [OF run busy]
  obtain b n where "(b, n) \<in> set (inflight ?w)" "covers b (Loading PendingTab)" by blast
  with run busy show ?thesis by blast
qed

theorem newest_list_answer_shows_witness:
  "\<exists>es w. task_run es w \<and> length (inflight w) = 1 \<and>
     map task_info.truncate (data (slice_of PendingTab (store w))) = [sample_task (js ''a'')]"
proof -
  let ?b = "ListPending (LIST_PENDING_TASKS_BEGIN (js ''q''))"
  let ?r = "\<lparr>lt_tasks = [sample_task (js ''a'')], lt_stats = undefined\<rparr>"
  let ?a = "ListPending (LIST_PENDING_TASKS_SUCCESS (js ''q'') ?r)"
  let ?w = "\<lparr>store = tasksReducer (tasksReducer (tasksReducer initialState ?b) ?b) ?a,
       inflight = [(?b, 1)], counters = (\<lambda>_. 0)(ListPendingSeq := 2)\<rparr>"
  note issue = run_issue_guarded [OF _ listed_pending [THEN list_thunk_dispatches] pending_seq]
  note r2 = issue [OF issue [OF run_start]]
  have "task_run
      ([] @ [Issue ?b 1] @ [Issue ?b 2])
      \<lparr>store = tasksReducer (tasksReducer initialState ?b) ?b, inflight = [(?b, 1), (?b, 2)],
       counters = (\<lambda>_. 0)(ListPendingSeq := 2)\<rparr>"
    using r2 by (simp add: numeral_2_eq_2)
  note r3 = run_answer [OF this, of ?b 2 ?a]
  have r: "task_run ([Issue ?b 1, Issue ?b 2] @ [Apply ?b 2 ?a]) ?w"
    using r3 by (simp add: pending_settles pending_seq)
  have "covers ?b (Loading PendingTab)" by (simp add: covers_loading pending_seq)
  from newest_list_answer_shows [OF r this]
  have "map task_info.truncate (data (slice_of PendingTab (store ?w))) = lt_tasks ?r"
    by (metis (no_types, lifting) listed_def tasks_action.case list_pending_action.case)
  with r show ?thesis by (intro exI [of _ "[Issue ?b 1, Issue ?b 2] @ [Apply ?b 2 ?a]"] exI [of _ ?w]) simp
qed

theorem failed_mutation_rolls_back_witness:
  "shown RetryTab (foldl tasksReducer sample_state
     [OnRetry (DELETE_RETRY_TASK_BEGIN (js ''q'') (js ''a'')),
      OnRetry (DELETE_RETRY_TASK_ERROR (js ''q'') (js ''a'') (toErrorString \<lparr>ae_response = None\<rparr>))])
   = shown RetryTab sample_state"
proof -
  have "quiet_slice (slice_of RetryTab sample_state)"
    unfolding quiet_slice_def by (simp add: sample_state_def)
  then have quiet: "quiet_slice (slice_of (tab_of (OnRetry (DELETE_RETRY_TASK_BEGIN (js ''q'') (js ''a'')))) sample_state)"
    by simp
  have query: "\<not> is_query (OnRetry (DELETE_RETRY_TASK_BEGIN (js ''q'') (js ''a'')))"
    by (simp add: is_query_def starts_with_def)
  have error: "is_error (OnRetry (DELETE_RETRY_TASK_ERROR (js ''q'') (js ''a'') e))" for e
    by (simp add: is_error_def ends_with_def starts_with_def)
  show ?thesis
    by (rule failed_mutation_rolls_back [OF refused_delete query error quiet, THEN conjunct1])
qed


theorem table_ids_stay_distinct_witness:
  "rows_distinct (foldl tasksReducer initialState
     [ListRetry (LIST_RETRY_TASKS_SUCCESS (js ''q'')
       \<lparr>lt_tasks = map sample_task [js ''a'', js ''b''], lt_stats = undefined\<rparr>)])"
  by (rule table_ids_stay_distinct) (simp add: distinct_response_def sample_ids_distinct)

theorem unprocessed_rows_stay_marked_witness:
  "\<exists>r. r \<in> set (data (retryTasks (foldl tasksReducer sample_state
     [OnRetry (BATCH_DELETE_RETRY_TASKS_BEGIN (js ''q'') [js ''a'', js ''b'']),
      OnRetry (BATCH_DELETE_RETRY_TASKS_SUCCESS (js ''q'')
        \<lparr>bd_deleted_ids = [js ''a''], bd_failed_ids = [js ''b'']\<rparr>)]))) \<and> requestPending r"
proof -
  let ?r = "(idle_row (sample_task (js ''b'')))\<lparr>requestPending := True\<rparr>"
  let ?s = "foldl tasksReducer sample_state
     [OnRetry (BATCH_DELETE_RETRY_TASKS_BEGIN (js ''q'') [js ''a'', js ''b'']),
      OnRetry (BATCH_DELETE_RETRY_TASKS_SUCCESS (js ''q'')
        \<lparr>bd_deleted_ids = [js ''a''], bd_failed_ids = [js ''b'']\<rparr>)]"
  have r: "?r \<in> set (data (retryTasks ?s))"
    using sample_ids_distinct
    by (simp add: sample_rows drop_many_def many_pending_def set_batch_def)
  then have "requestPending ?r"
    using unprocessed_rows_stay_marked [OF partial_batch, of sample_state ?r]
    by (simp add: is_error_def ends_with_def starts_with_def group_shown_def batch_ids_def)
  with r show ?thesis by blast
qed

end
