(* ===== verification/ConsoleActions.thy ===== *)
theory ConsoleActions
  imports TasksActions
begin

text \<open>
  The other action modules of \<open>src/ui/src/actions\<close>: queues, groups, servers, Redis info, metrics,
  settings and the snackbar, with the action type strings and the request thunks of each.
\<close>

subsection \<open>Queues\<close>

record list_queues_response =
  lq_queues :: "queue list"

datatype queues_action =
    LIST_QUEUES_BEGIN
  | LIST_QUEUES_SUCCESS list_queues_response
  | LIST_QUEUES_ERROR jstring
  | DELETE_QUEUE_BEGIN jstring
  | DELETE_QUEUE_SUCCESS jstring
  | DELETE_QUEUE_ERROR jstring jstring
  | PAUSE_QUEUE_BEGIN jstring
  | PAUSE_QUEUE_SUCCESS jstring
  | PAUSE_QUEUE_ERROR jstring jstring
  | RESUME_QUEUE_BEGIN jstring
  | RESUME_QUEUE_SUCCESS jstring
  | RESUME_QUEUE_ERROR jstring jstring

primrec queues_type :: "queues_action \<Rightarrow> string" where
  "queues_type LIST_QUEUES_BEGIN = ''LIST_QUEUES_BEGIN''"
| "queues_type (LIST_QUEUES_SUCCESS _) = ''LIST_QUEUES_SUCCESS''"
| "queues_type (LIST_QUEUES_ERROR _) = ''LIST_QUEUES_ERROR''"
| "queues_type (DELETE_QUEUE_BEGIN _) = ''DELETE_QUEUE_BEGIN''"
| "queues_type (DELETE_QUEUE_SUCCESS _) = ''DELETE_QUEUE_SUCCESS''"
| "queues_type (DELETE_QUEUE_ERROR _ _) = ''DELETE_QUEUE_ERROR''"
| "queues_type (PAUSE_QUEUE_BEGIN _) = ''PAUSE_QUEUE_BEGIN''"
| "queues_type (PAUSE_QUEUE_SUCCESS _) = ''PAUSE_QUEUE_SUCCESS''"
| "queues_type (PAUSE_QUEUE_ERROR _ _) = ''PAUSE_QUEUE_ERROR''"
| "queues_type (RESUME_QUEUE_BEGIN _) = ''RESUME_QUEUE_BEGIN''"
| "queues_type (RESUME_QUEUE_SUCCESS _) = ''RESUME_QUEUE_SUCCESS''"
| "queues_type (RESUME_QUEUE_ERROR _ _) = ''RESUME_QUEUE_ERROR''"

definition listQueuesAsync ::
  "api_env \<Rightarrow> (http_request \<Rightarrow> list_queues_response outcome) \<Rightarrow> queues_action list" where
  "listQueuesAsync env send =
     LIST_QUEUES_BEGIN #
       (case call send (listQueues env) of
          Fulfilled r \<Rightarrow> [LIST_QUEUES_SUCCESS r]
        | Rejected e \<Rightarrow> [LIST_QUEUES_ERROR (toErrorString e)])"

definition deleteQueueAsync ::
  "api_env \<Rightarrow> (http_request \<Rightarrow> unit outcome) \<Rightarrow> jstring \<Rightarrow> queues_action list" where
  "deleteQueueAsync env send qname =
     DELETE_QUEUE_BEGIN qname #
       (case call send (deleteQueue env qname) of
          Fulfilled _ \<Rightarrow> [DELETE_QUEUE_SUCCESS qname]
        | Rejected e \<Rightarrow> [DELETE_QUEUE_ERROR qname (toErrorString e)])"

definition pauseQueueAsync ::
  "api_env \<Rightarrow> (http_request \<Rightarrow> unit outcome) \<Rightarrow> jstring \<Rightarrow> queues_action list" where
  "pauseQueueAsync env send qname =
     PAUSE_QUEUE_BEGIN qname #
       (case call send (pauseQueue env qname) of
          Fulfilled _ \<Rightarrow> [PAUSE_QUEUE_SUCCESS qname]
        | Rejected e \<Rightarrow> [PAUSE_QUEUE_ERROR qname (toErrorString e)])"

definition resumeQueueAsync ::
  "api_env \<Rightarrow> (http_request \<Rightarrow> unit outcome) \<Rightarrow> jstring \<Rightarrow> queues_action list" where
  "resumeQueueAsync env send qname =
     RESUME_QUEUE_BEGIN qname #
       (case call send (resumeQueue env qname) of
          Fulfilled _ \<Rightarrow> [RESUME_QUEUE_SUCCESS qname]
        | Rejected e \<Rightarrow> [RESUME_QUEUE_ERROR qname (toErrorString e)])"

subsection \<open>Groups, servers, Redis info and metrics\<close>

datatype groups_action =
    LIST_GROUPS_BEGIN jstring
  | LIST_GROUPS_SUCCESS jstring list_groups_response
  | LIST_GROUPS_ERROR jstring jstring

primrec groups_type :: "groups_action \<Rightarrow> string" where
  "groups_type (LIST_GROUPS_BEGIN _) = ''LIST_GROUPS_BEGIN''"
| "groups_type (LIST_GROUPS_SUCCESS _ _) = ''LIST_GROUPS_SUCCESS''"
| "groups_type (LIST_GROUPS_ERROR _ _) = ''LIST_GROUPS_ERROR''"

definition listGroupsAsync ::
  "api_env \<Rightarrow> (http_request \<Rightarrow> list_groups_response outcome) \<Rightarrow> jstring \<Rightarrow> groups_action list" where
  "listGroupsAsync env send qname =
     LIST_GROUPS_BEGIN qname #
       (case call send (listGroups env qname) of
          Fulfilled r \<Rightarrow> [LIST_GROUPS_SUCCESS qname r]
        | Rejected e \<Rightarrow> [LIST_GROUPS_ERROR qname (toErrorString e)])"

record list_servers_response =
  ls_servers :: "server_info list"

datatype servers_action =
    LIST_SERVERS_BEGIN
  | LIST_SERVERS_SUCCESS list_servers_response
  | LIST_SERVERS_ERROR jstring

primrec servers_type :: "servers_action \<Rightarrow> string" where
  "servers_type LIST_SERVERS_BEGIN = ''LIST_SERVERS_BEGIN''"
| "servers_type (LIST_SERVERS_SUCCESS _) = ''LIST_SERVERS_SUCCESS''"
| "servers_type (LIST_SERVERS_ERROR _) = ''LIST_SERVERS_ERROR''"

definition listServersAsync ::
  "api_env \<Rightarrow> (http_request \<Rightarrow> list_servers_response outcome) \<Rightarrow> servers_action list" where
  "listServersAsync env send =
     LIST_SERVERS_BEGIN #
       (case call send (listServers env) of
          Fulfilled r \<Rightarrow> [LIST_SERVERS_SUCCESS r]
        | Rejected e \<Rightarrow> [LIST_SERVERS_ERROR (toErrorString e)])"

datatype redis_info_action =
    GET_REDIS_INFO_BEGIN
  | GET_REDIS_INFO_SUCCESS redis_info_response
  | GET_REDIS_INFO_ERROR jstring

primrec redis_info_type :: "redis_info_action \<Rightarrow> string" where
  "redis_info_type GET_REDIS_INFO_BEGIN = ''GET_REDIS_INFO_BEGIN''"
| "redis_info_type (GET_REDIS_INFO_SUCCESS _) = ''GET_REDIS_INFO_SUCCESS''"
| "redis_info_type (GET_REDIS_INFO_ERROR _) = ''GET_REDIS_INFO_ERROR''"

definition getRedisInfoAsync ::
  "api_env \<Rightarrow> (http_request \<Rightarrow> redis_info_response outcome) \<Rightarrow> redis_info_action list" where
  "getRedisInfoAsync env send =
     GET_REDIS_INFO_BEGIN #
       (case call send (getRedisInfo env) of
          Fulfilled r \<Rightarrow> [GET_REDIS_INFO_SUCCESS r]
        | Rejected e \<Rightarrow> [GET_REDIS_INFO_ERROR (toErrorString e)])"

datatype metrics_action =
    GET_METRICS_BEGIN
  | GET_METRICS_SUCCESS metrics_response
  | GET_METRICS_ERROR jstring

primrec metrics_type :: "metrics_action \<Rightarrow> string" where
  "metrics_type GET_METRICS_BEGIN = ''GET_METRICS_BEGIN''"
| "metrics_type (GET_METRICS_SUCCESS _) = ''GET_METRICS_SUCCESS''"
| "metrics_type (GET_METRICS_ERROR _) = ''GET_METRICS_ERROR''"

definition getMetricsAsync ::
  "api_env \<Rightarrow> (http_request \<Rightarrow> metrics_response outcome) \<Rightarrow> int \<Rightarrow> int \<Rightarrow> jstring list \<Rightarrow>
   metrics_action list" where
  "getMetricsAsync env send endTime duration queues =
     GET_METRICS_BEGIN #
       (case call send (getMetrics env endTime duration queues) of
          Fulfilled r \<Rightarrow> [GET_METRICS_SUCCESS r]
        | Rejected e \<Rightarrow> [GET_METRICS_ERROR (toErrorString e)])"

subsection \<open>Settings and snackbar\<close>

text \<open>\<open>ThemePreference\<close> is a numeric enum; its members are 0, 1 and 2.\<close>

datatype theme_preference = SystemDefault | Always | Never

datatype settings_action =
    POLL_INTERVAL_CHANGE int
  | THEME_PREFERENCE_CHANGE theme_preference
  | TOGGLE_DRAWER
  | TASK_ROWS_PER_PAGE_CHANGE int
  | TOGGLE_POLLING
  | POLL_TICK int

primrec settings_type :: "settings_action \<Rightarrow> string" where
  "settings_type (POLL_INTERVAL_CHANGE _) = ''POLL_INTERVAL_CHANGE''"
| "settings_type (THEME_PREFERENCE_CHANGE _) = ''THEME_PREFERENCE_CHANGE''"
| "settings_type TOGGLE_DRAWER = ''TOGGLE_DRAWER''"
| "settings_type (TASK_ROWS_PER_PAGE_CHANGE _) = ''TASK_ROWS_PER_PAGE_CHANGE''"
| "settings_type TOGGLE_POLLING = ''TOGGLE_POLLING''"
| "settings_type (POLL_TICK _) = ''POLL_TICK''"

datatype snackbar_action = CLOSE_SNACKBAR

text \<open>Every action of the store, and its type string.\<close>

datatype action =
    TasksAction tasks_action
  | QueuesAction queues_action
  | GroupsAction groups_action
  | ServersAction servers_action
  | RedisInfoAction redis_info_action
  | MetricsAction metrics_action
  | SettingsAction settings_action
  | SnackbarAction snackbar_action

primrec type_of :: "action \<Rightarrow> string" where
  "type_of (TasksAction a) = action_type a"
| "type_of (QueuesAction a) = queues_type a"
| "type_of (GroupsAction a) = groups_type a"
| "type_of (ServersAction a) = servers_type a"
| "type_of (RedisInfoAction a) = redis_info_type a"
| "type_of (MetricsAction a) = metrics_type a"
| "type_of (SettingsAction a) = settings_type a"
| "type_of (SnackbarAction a) = ''CLOSE_SNACKBAR''"

end
