(* ===== verification/QueuesReducer.thy ===== *)
theory QueuesReducer
  imports ConsoleActions Interfaces
begin

text \<open>
  \<open>src/ui/src/reducers/queuesReducer.ts\<close>: the queues the console knows, with the counters of each.
  The reducer listens to the queue actions, to the success actions of the task mutations, whose
  effect it applies to the cached counters of the queue, and to the list answers, whose statistics
  replace them. There is one \<open>_stats\<close> function per case of the source's switch.

  The lemmas show: queue names stay distinct; an action touches no queue but its own; runs and
  archives move tasks between counters without changing the total, deletes lower both alike.
\<close>

subsection \<open>State\<close>

record queue_info =
  qi_name :: jstring
  currentStats :: queue
  qi_requestPending :: bool

record queues_state =
  qs_loading :: bool
  qs_data :: "queue_info list"
  qs_error :: jstring

definition queues_initialState :: queues_state where
  "queues_initialState = \<lparr>qs_loading = False, qs_data = [], qs_error = []\<rparr>"

subsection \<open>The update shapes\<close>

text \<open>
  \<open>state.data.map(queueInfo => { if (queueInfo.name !== action.queue) return queueInfo; ... })\<close>,
  and the same for the counters of the queue.
\<close>

definition on_queue :: "jstring \<Rightarrow> (queue_info \<Rightarrow> queue_info) \<Rightarrow> queues_state \<Rightarrow> queues_state" where
  "on_queue q f s = s\<lparr>qs_data := map_where (\<lambda>i. qi_name i = q) f (qs_data s)\<rparr>"

definition on_stats :: "jstring \<Rightarrow> (queue \<Rightarrow> queue) \<Rightarrow> queues_state \<Rightarrow> queues_state" where
  "on_stats q f = on_queue q (\<lambda>i. i\<lparr>currentStats := f (currentStats i)\<rparr>)"

definition refresh_queue :: "jstring \<Rightarrow> queue \<Rightarrow> queues_state \<Rightarrow> queues_state" where
  "refresh_queue q stats s =
     s\<lparr>qs_data := drop_where (\<lambda>i. qi_name i = q) (qs_data s) @
        [\<lparr>qi_name = q, currentStats = stats, qi_requestPending = False\<rparr>]\<rparr>"

subsection \<open>Queue actions\<close>

primrec queues_case :: "queues_state \<Rightarrow> queues_action \<Rightarrow> queues_state" where
  "queues_case s LIST_QUEUES_BEGIN = s\<lparr>qs_loading := True\<rparr>"
| "queues_case s (LIST_QUEUES_SUCCESS payload) =
     s\<lparr>qs_loading := False, qs_error := [],
       qs_data := map (\<lambda>q. \<lparr>qi_name = q_queue q, currentStats = q, qi_requestPending = False\<rparr>)
         (lq_queues payload)\<rparr>"
| "queues_case s (LIST_QUEUES_ERROR e) = s\<lparr>qs_loading := False, qs_error := e\<rparr>"
| "queues_case s (DELETE_QUEUE_BEGIN q) = on_queue q (\<lambda>i. i\<lparr>qi_requestPending := True\<rparr>) s"
| "queues_case s (PAUSE_QUEUE_BEGIN q) = on_queue q (\<lambda>i. i\<lparr>qi_requestPending := True\<rparr>) s"
| "queues_case s (RESUME_QUEUE_BEGIN q) = on_queue q (\<lambda>i. i\<lparr>qi_requestPending := True\<rparr>) s"
| "queues_case s (DELETE_QUEUE_SUCCESS q) =
     s\<lparr>qs_data := drop_where (\<lambda>i. qi_name i = q) (qs_data s)\<rparr>"
| "queues_case s (PAUSE_QUEUE_SUCCESS q) =
     on_queue q (\<lambda>i. i\<lparr>qi_requestPending := False,
       currentStats := (currentStats i)\<lparr>q_paused := True\<rparr>\<rparr>) s"
| "queues_case s (RESUME_QUEUE_SUCCESS q) =
     on_queue q (\<lambda>i. i\<lparr>qi_requestPending := False,
       currentStats := (currentStats i)\<lparr>q_paused := False\<rparr>\<rparr>) s"
| "queues_case s (DELETE_QUEUE_ERROR q e) = on_queue q (\<lambda>i. i\<lparr>qi_requestPending := False\<rparr>) s"
| "queues_case s (PAUSE_QUEUE_ERROR q e) = on_queue q (\<lambda>i. i\<lparr>qi_requestPending := False\<rparr>) s"
| "queues_case s (RESUME_QUEUE_ERROR q e) = on_queue q (\<lambda>i. i\<lparr>qi_requestPending := False\<rparr>) s"

subsection \<open>Counters after a task mutation\<close>

definition run_aggregating_task_stats :: "queue \<Rightarrow> queue" where
  "run_aggregating_task_stats s =
     s\<lparr>q_pending := q_pending s + 1,
       q_aggregating := q_aggregating s - 1\<rparr>"

definition run_scheduled_task_stats :: "queue \<Rightarrow> queue" where
  "run_scheduled_task_stats s =
     s\<lparr>q_pending := q_pending s + 1,
       q_scheduled := q_scheduled s - 1\<rparr>"

definition run_retry_task_stats :: "queue \<Rightarrow> queue" where
  "run_retry_task_stats s =
     s\<lparr>q_pending := q_pending s + 1,
       q_retry := q_retry s - 1\<rparr>"

definition run_archived_task_stats :: "queue \<Rightarrow> queue" where
  "run_archived_task_stats s =
     s\<lparr>q_pending := q_pending s + 1,
       q_archived := q_archived s - 1\<rparr>"

definition archive_pending_task_stats :: "queue \<Rightarrow> queue" where
  "archive_pending_task_stats s =
     s\<lparr>q_archived := q_archived s + 1,
       q_pending := q_pending s - 1\<rparr>"

definition archive_aggregating_task_stats :: "queue \<Rightarrow> queue" where
  "archive_aggregating_task_stats s =
     s\<lparr>q_archived := q_archived s + 1,
       q_aggregating := q_aggregating s - 1\<rparr>"

definition archive_scheduled_task_stats :: "queue \<Rightarrow> queue" where
  "archive_scheduled_task_stats s =
     s\<lparr>q_archived := q_archived s + 1,
       q_scheduled := q_scheduled s - 1\<rparr>"

definition archive_retry_task_stats :: "queue \<Rightarrow> queue" where
  "archive_retry_task_stats s =
     s\<lparr>q_archived := q_archived s + 1,
       q_retry := q_retry s - 1\<rparr>"

definition delete_pending_task_stats :: "queue \<Rightarrow> queue" where
  "delete_pending_task_stats s =
     s\<lparr>q_size := q_size s - 1,
       q_pending := q_pending s - 1\<rparr>"

definition delete_scheduled_task_stats :: "queue \<Rightarrow> queue" where
  "delete_scheduled_task_stats s =
     s\<lparr>q_size := q_size s - 1,
       q_scheduled := q_scheduled s - 1\<rparr>"

definition delete_aggregating_task_stats :: "queue \<Rightarrow> queue" where
  "delete_aggregating_task_stats s =
     s\<lparr>q_size := q_size s - 1,
       q_aggregating := q_aggregating s - 1\<rparr>"

definition batch_archive_pending_tasks_stats :: "batch_archive_tasks_response \<Rightarrow> queue \<Rightarrow> queue" where
  "batch_archive_pending_tasks_stats payload s =
     s\<lparr>q_archived := q_archived s + int (length (ba_archived_ids payload)),
       q_pending := q_pending s - int (length (ba_archived_ids payload))\<rparr>"

definition batch_delete_pending_tasks_stats :: "batch_delete_tasks_response \<Rightarrow> queue \<Rightarrow> queue" where
  "batch_delete_pending_tasks_stats payload s =
     s\<lparr>q_size := q_size s - int (length (bd_deleted_ids payload)),
       q_pending := q_pending s - int (length (bd_deleted_ids payload))\<rparr>"

definition archive_all_pending_tasks_stats :: "queue \<Rightarrow> queue" where
  "archive_all_pending_tasks_stats s =
     s\<lparr>q_archived := q_archived s + q_pending s,
       q_pending := 0\<rparr>"

definition archive_all_aggregating_tasks_stats :: "int \<Rightarrow> queue \<Rightarrow> queue" where
  "archive_all_aggregating_tasks_stats n s =
     s\<lparr>q_groups := q_groups s - 1,
       q_archived := q_archived s + n,
       q_aggregating := q_aggregating s - n\<rparr>"

definition delete_all_pending_tasks_stats :: "int \<Rightarrow> queue \<Rightarrow> queue" where
  "delete_all_pending_tasks_stats n s =
     s\<lparr>q_size := q_size s - n,
       q_pending := 0\<rparr>"

definition batch_run_scheduled_tasks_stats :: "batch_run_tasks_response \<Rightarrow> queue \<Rightarrow> queue" where
  "batch_run_scheduled_tasks_stats payload s =
     s\<lparr>q_pending := q_pending s + int (length (br_pending_ids payload)),
       q_scheduled := q_scheduled s - int (length (br_pending_ids payload))\<rparr>"

definition batch_archive_scheduled_tasks_stats :: "batch_archive_tasks_response \<Rightarrow> queue \<Rightarrow> queue" where
  "batch_archive_scheduled_tasks_stats payload s =
     s\<lparr>q_archived := q_archived s + int (length (ba_archived_ids payload)),
       q_scheduled := q_scheduled s - int (length (ba_archived_ids payload))\<rparr>"

definition batch_delete_scheduled_tasks_stats :: "batch_delete_tasks_response \<Rightarrow> queue \<Rightarrow> queue" where
  "batch_delete_scheduled_tasks_stats payload s =
     s\<lparr>q_size := q_size s - int (length (bd_deleted_ids payload)),
       q_scheduled := q_scheduled s - int (length (bd_deleted_ids payload))\<rparr>"

definition run_all_aggregating_tasks_stats :: "int \<Rightarrow> queue \<Rightarrow> queue" where
  "run_all_aggregating_tasks_stats n s =
     s\<lparr>q_groups := q_groups s - 1,
       q_pending := q_pending s + n,
       q_aggregating := q_aggregating s - n\<rparr>"

definition run_all_scheduled_tasks_stats :: "queue \<Rightarrow> queue" where
  "run_all_scheduled_tasks_stats s =
     s\<lparr>q_pending := q_pending s + q_scheduled s,
       q_scheduled := 0\<rparr>"

definition archive_all_scheduled_tasks_stats :: "queue \<Rightarrow> queue" where
  "archive_all_scheduled_tasks_stats s =
     s\<lparr>q_archived := q_archived s + q_scheduled s,
       q_scheduled := 0\<rparr>"

definition delete_all_aggregating_tasks_stats :: "int \<Rightarrow> queue \<Rightarrow> queue" where
  "delete_all_aggregating_tasks_stats n s =
     s\<lparr>q_size := q_size s - n,
       q_groups := q_groups s - 1,
       q_aggregating := q_aggregating s - n\<rparr>"

definition delete_all_scheduled_tasks_stats :: "int \<Rightarrow> queue \<Rightarrow> queue" where
  "delete_all_scheduled_tasks_stats n s =
     s\<lparr>q_size := q_size s - n,
       q_scheduled := 0\<rparr>"

definition delete_retry_task_stats :: "queue \<Rightarrow> queue" where
  "delete_retry_task_stats s =
     s\<lparr>q_size := q_size s - 1,
       q_retry := q_retry s - 1\<rparr>"

definition batch_run_retry_tasks_stats :: "batch_run_tasks_response \<Rightarrow> queue \<Rightarrow> queue" where
  "batch_run_retry_tasks_stats payload s =
     s\<lparr>q_pending := q_pending s + int (length (br_pending_ids payload)),
       q_retry := q_retry s - int (length (br_pending_ids payload))\<rparr>"

definition batch_archive_retry_tasks_stats :: "batch_archive_tasks_response \<Rightarrow> queue \<Rightarrow> queue" where
  "batch_archive_retry_tasks_stats payload s =
     s\<lparr>q_archived := q_archived s + int (length (ba_archived_ids payload)),
       q_retry := q_retry s - int (length (ba_archived_ids payload))\<rparr>"

definition batch_delete_retry_tasks_stats :: "batch_delete_tasks_response \<Rightarrow> queue \<Rightarrow> queue" where
  "batch_delete_retry_tasks_stats payload s =
     s\<lparr>q_size := q_size s - int (length (bd_deleted_ids payload)),
       q_retry := q_retry s - int (length (bd_deleted_ids payload))\<rparr>"

definition batch_run_aggregating_tasks_stats :: "batch_run_tasks_response \<Rightarrow> queue \<Rightarrow> queue" where
  "batch_run_aggregating_tasks_stats payload s =
     s\<lparr>q_pending := q_pending s + int (length (br_pending_ids payload)),
       q_aggregating := q_aggregating s - int (length (br_pending_ids payload))\<rparr>"

definition batch_archive_aggregating_tasks_stats :: "batch_archive_tasks_response \<Rightarrow> queue \<Rightarrow> queue" where
  "batch_archive_aggregating_tasks_stats payload s =
     s\<lparr>q_archived := q_archived s + int (length (ba_archived_ids payload)),
       q_aggregating := q_aggregating s - int (length (ba_archived_ids payload))\<rparr>"

definition batch_delete_aggregating_tasks_stats :: "batch_delete_tasks_response \<Rightarrow> queue \<Rightarrow> queue" where
  "batch_delete_aggregating_tasks_stats payload s =
     s\<lparr>q_size := q_size s - int (length (bd_deleted_ids payload)),
       q_aggregating := q_aggregating s - int (length (bd_deleted_ids payload))\<rparr>"

definition run_all_retry_tasks_stats :: "queue \<Rightarrow> queue" where
  "run_all_retry_tasks_stats s =
     s\<lparr>q_pending := q_pending s + q_retry s,
       q_retry := 0\<rparr>"

definition archive_all_retry_tasks_stats :: "queue \<Rightarrow> queue" where
  "archive_all_retry_tasks_stats s =
     s\<lparr>q_archived := q_archived s + q_retry s,
       q_retry := 0\<rparr>"

definition delete_all_retry_tasks_stats :: "int \<Rightarrow> queue \<Rightarrow> queue" where
  "delete_all_retry_tasks_stats n s =
     s\<lparr>q_size := q_size s - n,
       q_retry := 0\<rparr>"

definition delete_archived_task_stats :: "queue \<Rightarrow> queue" where
  "delete_archived_task_stats s =
     s\<lparr>q_size := q_size s - 1,
       q_archived := q_archived s - 1\<rparr>"

definition delete_completed_task_stats :: "queue \<Rightarrow> queue" where
  "delete_completed_task_stats s =
     s\<lparr>q_size := q_size s - 1,
       q_completed := q_completed s - 1\<rparr>"

definition batch_run_archived_tasks_stats :: "batch_run_tasks_response \<Rightarrow> queue \<Rightarrow> queue" where
  "batch_run_archived_tasks_stats payload s =
     s\<lparr>q_pending := q_pending s + int (length (br_pending_ids payload)),
       q_archived := q_archived s - int (length (br_pending_ids payload))\<rparr>"

definition batch_delete_archived_tasks_stats :: "batch_delete_tasks_response \<Rightarrow> queue \<Rightarrow> queue" where
  "batch_delete_archived_tasks_stats payload s =
     s\<lparr>q_size := q_size s - int (length (bd_deleted_ids payload)),
       q_archived := q_archived s - int (length (bd_deleted_ids payload))\<rparr>"

definition batch_delete_completed_tasks_stats :: "batch_delete_tasks_response \<Rightarrow> queue \<Rightarrow> queue" where
  "batch_delete_completed_tasks_stats payload s =
     s\<lparr>q_size := q_size s - int (length (bd_deleted_ids payload)),
       q_completed := q_completed s - int (length (bd_deleted_ids payload))\<rparr>"

definition run_all_archived_tasks_stats :: "queue \<Rightarrow> queue" where
  "run_all_archived_tasks_stats s =
     s\<lparr>q_pending := q_pending s + q_archived s,
       q_archived := 0\<rparr>"

definition delete_all_archived_tasks_stats :: "int \<Rightarrow> queue \<Rightarrow> queue" where
  "delete_all_archived_tasks_stats n s =
     s\<lparr>q_size := q_size s - n,
       q_archived := 0\<rparr>"

definition delete_all_completed_tasks_stats :: "int \<Rightarrow> queue \<Rightarrow> queue" where
  "delete_all_completed_tasks_stats n s =
     s\<lparr>q_size := q_size s - n,
       q_completed := 0\<rparr>"

lemmas stats_defs =
  run_aggregating_task_stats_def
  run_scheduled_task_stats_def
  run_retry_task_stats_def
  run_archived_task_stats_def
  archive_pending_task_stats_def
  archive_aggregating_task_stats_def
  archive_scheduled_task_stats_def
  archive_retry_task_stats_def
  delete_pending_task_stats_def
  delete_scheduled_task_stats_def
  delete_aggregating_task_stats_def
  batch_archive_pending_tasks_stats_def
  batch_delete_pending_tasks_stats_def
  archive_all_pending_tasks_stats_def
  archive_all_aggregating_tasks_stats_def
  delete_all_pending_tasks_stats_def
  batch_run_scheduled_tasks_stats_def
  batch_archive_scheduled_tasks_stats_def
  batch_delete_scheduled_tasks_stats_def
  run_all_aggregating_tasks_stats_def
  run_all_scheduled_tasks_stats_def
  archive_all_scheduled_tasks_stats_def
  delete_all_aggregating_tasks_stats_def
  delete_all_scheduled_tasks_stats_def
  delete_retry_task_stats_def
  batch_run_retry_tasks_stats_def
  batch_archive_retry_tasks_stats_def
  batch_delete_retry_tasks_stats_def
  batch_run_aggregating_tasks_stats_def
  batch_archive_aggregating_tasks_stats_def
  batch_delete_aggregating_tasks_stats_def
  run_all_retry_tasks_stats_def
  archive_all_retry_tasks_stats_def
  delete_all_retry_tasks_stats_def
  delete_archived_task_stats_def
  delete_completed_task_stats_def
  batch_run_archived_tasks_stats_def
  batch_delete_archived_tasks_stats_def
  batch_delete_completed_tasks_stats_def
  run_all_archived_tasks_stats_def
  delete_all_archived_tasks_stats_def
  delete_all_completed_tasks_stats_def

subsection \<open>Task actions\<close>

definition aggregating_task_queues :: "aggregating_task_action \<Rightarrow> queues_state \<Rightarrow> queues_state" where
  "aggregating_task_queues a s = (case a of
      RUN_AGGREGATING_TASK_SUCCESS q _ \<Rightarrow> on_stats q run_aggregating_task_stats s
    | ARCHIVE_AGGREGATING_TASK_SUCCESS q _ \<Rightarrow> on_stats q archive_aggregating_task_stats s
    | DELETE_AGGREGATING_TASK_SUCCESS q _ \<Rightarrow> on_stats q delete_aggregating_task_stats s
    | _ \<Rightarrow> s)"

definition scheduled_task_queues :: "scheduled_task_action \<Rightarrow> queues_state \<Rightarrow> queues_state" where
  "scheduled_task_queues a s = (case a of
      RUN_SCHEDULED_TASK_SUCCESS q _ \<Rightarrow> on_stats q run_scheduled_task_stats s
    | ARCHIVE_SCHEDULED_TASK_SUCCESS q _ \<Rightarrow> on_stats q archive_scheduled_task_stats s
    | _ \<Rightarrow> s)"

definition retry_task_queues :: "retry_task_action \<Rightarrow> queues_state \<Rightarrow> queues_state" where
  "retry_task_queues a s = (case a of
      RUN_RETRY_TASK_SUCCESS q _ \<Rightarrow> on_stats q run_retry_task_stats s
    | ARCHIVE_RETRY_TASK_SUCCESS q _ \<Rightarrow> on_stats q archive_retry_task_stats s
    | _ \<Rightarrow> s)"

definition archived_task_queues :: "archived_task_action \<Rightarrow> queues_state \<Rightarrow> queues_state" where
  "archived_task_queues a s = (case a of
      RUN_ARCHIVED_TASK_SUCCESS q _ \<Rightarrow> on_stats q run_archived_task_stats s
    | _ \<Rightarrow> s)"

definition pending_queues :: "pending_action \<Rightarrow> queues_state \<Rightarrow> queues_state" where
  "pending_queues a s = (case a of
      ARCHIVE_PENDING_TASK_SUCCESS q _ \<Rightarrow> on_stats q archive_pending_task_stats s
    | DELETE_PENDING_TASK_SUCCESS q _ \<Rightarrow> on_stats q delete_pending_task_stats s
    | BATCH_ARCHIVE_PENDING_TASKS_SUCCESS q payload \<Rightarrow> on_stats q (batch_archive_pending_tasks_stats payload) s
    | BATCH_DELETE_PENDING_TASKS_SUCCESS q payload \<Rightarrow> on_stats q (batch_delete_pending_tasks_stats payload) s
    | ARCHIVE_ALL_PENDING_TASKS_SUCCESS q \<Rightarrow> on_stats q archive_all_pending_tasks_stats s
    | DELETE_ALL_PENDING_TASKS_SUCCESS q n \<Rightarrow> on_stats q (delete_all_pending_tasks_stats n) s
    | _ \<Rightarrow> s)"

definition scheduled_queues :: "scheduled_action \<Rightarrow> queues_state \<Rightarrow> queues_state" where
  "scheduled_queues a s = (case a of
      DELETE_SCHEDULED_TASK_SUCCESS q _ \<Rightarrow> on_stats q delete_scheduled_task_stats s
    | BATCH_RUN_SCHEDULED_TASKS_SUCCESS q payload \<Rightarrow> on_stats q (batch_run_scheduled_tasks_stats payload) s
    | BATCH_ARCHIVE_SCHEDULED_TASKS_SUCCESS q payload \<Rightarrow> on_stats q (batch_archive_scheduled_tasks_stats payload) s
    | BATCH_DELETE_SCHEDULED_TASKS_SUCCESS q payload \<Rightarrow> on_stats q (batch_delete_scheduled_tasks_stats payload) s
    | RUN_ALL_SCHEDULED_TASKS_SUCCESS q \<Rightarrow> on_stats q run_all_scheduled_tasks_stats s
    | ARCHIVE_ALL_SCHEDULED_TASKS_SUCCESS q \<Rightarrow> on_stats q archive_all_scheduled_tasks_stats s
    | DELETE_ALL_SCHEDULED_TASKS_SUCCESS q n \<Rightarrow> on_stats q (delete_all_scheduled_tasks_stats n) s
    | _ \<Rightarrow> s)"

definition aggregating_queues :: "aggregating_action \<Rightarrow> queues_state \<Rightarrow> queues_state" where
  "aggregating_queues a s = (case a of
      ARCHIVE_ALL_AGGREGATING_TASKS_SUCCESS q _ n \<Rightarrow> on_stats q (archive_all_aggregating_tasks_stats n) s
    | RUN_ALL_AGGREGATING_TASKS_SUCCESS q _ n \<Rightarrow> on_stats q (run_all_aggregating_tasks_stats n) s
    | DELETE_ALL_AGGREGATING_TASKS_SUCCESS q _ n \<Rightarrow> on_stats q (delete_all_aggregating_tasks_stats n) s
    | BATCH_RUN_AGGREGATING_TASKS_SUCCESS q _ payload \<Rightarrow> on_stats q (batch_run_aggregating_tasks_stats payload) s
    | BATCH_ARCHIVE_AGGREGATING_TASKS_SUCCESS q _ payload \<Rightarrow> on_stats q (batch_archive_aggregating_tasks_stats payload) s
    | BATCH_DELETE_AGGREGATING_TASKS_SUCCESS q _ payload \<Rightarrow> on_stats q (batch_delete_aggregating_tasks_stats payload) s
    | _ \<Rightarrow> s)"

definition retry_queues :: "retry_action \<Rightarrow> queues_state \<Rightarrow> queues_state" where
  "retry_queues a s = (case a of
      DELETE_RETRY_TASK_SUCCESS q _ \<Rightarrow> on_stats q delete_retry_task_stats s
    | BATCH_RUN_RETRY_TASKS_SUCCESS q payload \<Rightarrow> on_stats q (batch_run_retry_tasks_stats payload) s
    | BATCH_ARCHIVE_RETRY_TASKS_SUCCESS q payload \<Rightarrow> on_stats q (batch_archive_retry_tasks_stats payload) s
    | BATCH_DELETE_RETRY_TASKS_SUCCESS q payload \<Rightarrow> on_stats q (batch_delete_retry_tasks_stats payload) s
    | RUN_ALL_RETRY_TASKS_SUCCESS q \<Rightarrow> on_stats q run_all_retry_tasks_stats s
    | ARCHIVE_ALL_RETRY_TASKS_SUCCESS q \<Rightarrow> on_stats q archive_all_retry_tasks_stats s
    | DELETE_ALL_RETRY_TASKS_SUCCESS q n \<Rightarrow> on_stats q (delete_all_retry_tasks_stats n) s
    | _ \<Rightarrow> s)"

definition archived_queues :: "archived_action \<Rightarrow> queues_state \<Rightarrow> queues_state" where
  "archived_queues a s = (case a of
      DELETE_ARCHIVED_TASK_SUCCESS q _ \<Rightarrow> on_stats q delete_archived_task_stats s
    | BATCH_RUN_ARCHIVED_TASKS_SUCCESS q payload \<Rightarrow> on_stats q (batch_run_archived_tasks_stats payload) s
    | BATCH_DELETE_ARCHIVED_TASKS_SUCCESS q payload \<Rightarrow> on_stats q (batch_delete_archived_tasks_stats payload) s
    | RUN_ALL_ARCHIVED_TASKS_SUCCESS q \<Rightarrow> on_stats q run_all_archived_tasks_stats s
    | DELETE_ALL_ARCHIVED_TASKS_SUCCESS q n \<Rightarrow> on_stats q (delete_all_archived_tasks_stats n) s
    | _ \<Rightarrow> s)"

definition completed_queues :: "completed_action \<Rightarrow> queues_state \<Rightarrow> queues_state" where
  "completed_queues a s = (case a of
      DELETE_COMPLETED_TASK_SUCCESS q _ \<Rightarrow> on_stats q delete_completed_task_stats s
    | BATCH_DELETE_COMPLETED_TASKS_SUCCESS q payload \<Rightarrow> on_stats q (batch_delete_completed_tasks_stats payload) s
    | DELETE_ALL_COMPLETED_TASKS_SUCCESS q n \<Rightarrow> on_stats q (delete_all_completed_tasks_stats n) s
    | _ \<Rightarrow> s)"

lemmas task_queues_defs =
  aggregating_task_queues_def
  scheduled_task_queues_def
  retry_task_queues_def
  archived_task_queues_def
  pending_queues_def
  scheduled_queues_def
  aggregating_queues_def
  retry_queues_def
  archived_queues_def
  completed_queues_def

text \<open>The list answers replace the counters of their queue; the completed list does not.\<close>

definition queues_task_case :: "queues_state \<Rightarrow> tasks_action \<Rightarrow> queues_state" where
  "queues_task_case s a = (case a of
      ListActive (LIST_ACTIVE_TASKS_SUCCESS q payload) \<Rightarrow> refresh_queue q (lt_stats payload) s
    | ListPending (LIST_PENDING_TASKS_SUCCESS q payload) \<Rightarrow> refresh_queue q (lt_stats payload) s
    | ListScheduled (LIST_SCHEDULED_TASKS_SUCCESS q payload) \<Rightarrow> refresh_queue q (lt_stats payload) s
    | ListRetry (LIST_RETRY_TASKS_SUCCESS q payload) \<Rightarrow> refresh_queue q (lt_stats payload) s
    | ListArchived (LIST_ARCHIVED_TASKS_SUCCESS q payload) \<Rightarrow> refresh_queue q (lt_stats payload) s
    | ListAggregating (LIST_AGGREGATING_TASKS_SUCCESS q g payload) \<Rightarrow> refresh_queue q (la_stats payload) s
    | OnAggregatingTask x \<Rightarrow> aggregating_task_queues x s
    | OnScheduledTask x \<Rightarrow> scheduled_task_queues x s
    | OnRetryTask x \<Rightarrow> retry_task_queues x s
    | OnArchivedTask x \<Rightarrow> archived_task_queues x s
    | OnPending x \<Rightarrow> pending_queues x s
    | OnScheduled x \<Rightarrow> scheduled_queues x s
    | OnAggregating x \<Rightarrow> aggregating_queues x s
    | OnRetry x \<Rightarrow> retry_queues x s
    | OnArchived x \<Rightarrow> archived_queues x s
    | OnCompleted x \<Rightarrow> completed_queues x s
    | _ \<Rightarrow> s)"

definition queues_group_case :: "queues_state \<Rightarrow> groups_action \<Rightarrow> queues_state" where
  "queues_group_case s a = (case a of
      LIST_GROUPS_SUCCESS q payload \<Rightarrow> on_stats q (\<lambda>_. lg_stats payload) s
    | _ \<Rightarrow> s)"

definition queuesReducer :: "queues_state \<Rightarrow> action \<Rightarrow> queues_state" where
  "queuesReducer s a = (case a of
      QueuesAction x \<Rightarrow> queues_case s x
    | TasksAction x \<Rightarrow> queues_task_case s x
    | GroupsAction x \<Rightarrow> queues_group_case s x
    | _ \<Rightarrow> s)"


subsection \<open>Queue names stay distinct\<close>

definition queue_names :: "queues_state \<Rightarrow> jstring list" where
  "queue_names s = map qi_name (qs_data s)"

definition distinct_queues :: "action \<Rightarrow> bool" where
  "distinct_queues a = (case a of
      QueuesAction (LIST_QUEUES_SUCCESS payload) \<Rightarrow> distinct (map q_queue (lq_queues payload))
    | _ \<Rightarrow> True)"

definition names_distinct :: "queues_state \<Rightarrow> bool" where
  "names_distinct s \<longleftrightarrow> distinct (queue_names s)"

lemma queue_names_ops [simp]:
  "(\<And>i. qi_name (f i) = qi_name i) \<Longrightarrow> queue_names (on_queue q f s) = queue_names s"
  "queue_names (on_stats q g s) = queue_names s"
  "queue_names (refresh_queue q st s) = filter (\<lambda>n. n \<noteq> q) (queue_names s) @ [q]"
  by (simp_all add: queue_names_def on_queue_def on_stats_def refresh_queue_def drop_where_def
      filter_map comp_def)

lemma queue_names_case:
  "queue_names (queues_case s a) = (case a of
      LIST_QUEUES_SUCCESS payload \<Rightarrow> map q_queue (lq_queues payload)
    | DELETE_QUEUE_SUCCESS q \<Rightarrow> filter (\<lambda>n. n \<noteq> q) (queue_names s)
    | _ \<Rightarrow> queue_names s)"
  by (cases a) (simp_all add: queue_names_def on_queue_def drop_where_def filter_map comp_def)

text \<open>A task action keeps the names, or moves the queue of a list answer to the end.\<close>

lemma queue_names_task_case:
  "queue_names (queues_task_case s a) = queue_names s \<or>
   (\<exists>q. task_action_queue a = Some q \<and>
     queue_names (queues_task_case s a) = filter (\<lambda>n. n \<noteq> q) (queue_names s) @ [q])"
  unfolding queues_task_case_def task_queues_defs
  by (cases a; rename_tac x; case_tac x; simp)

lemma names_distinct_step:
  assumes "names_distinct s" "distinct_queues a"
  shows "names_distinct (queuesReducer s a)"
proof (cases a)
  case (TasksAction x)
  with assms(1) queue_names_task_case [of s x] show ?thesis
    by (auto simp: names_distinct_def queuesReducer_def)
next
  case (QueuesAction x)
  with assms show ?thesis
    by (cases x) (simp_all add: names_distinct_def queuesReducer_def distinct_queues_def queue_names_case
        del: queues_case.simps)
next
  case (GroupsAction x)
  with assms(1) show ?thesis
    by (cases x) (simp_all add: names_distinct_def queuesReducer_def queues_group_case_def)
qed (use assms in \<open>simp_all add: queuesReducer_def\<close>)

interpretation queues: machine queuesReducer distinct_queues names_distinct
  by unfold_locales (rule names_distinct_step)

subsection \<open>An action touches its own queue only\<close>

definition lookup_queue :: "jstring \<Rightarrow> queues_state \<Rightarrow> queue_info option" where
  "lookup_queue q s = List.find (\<lambda>i. qi_name i = q) (qs_data s)"

lemma find_append: "List.find p (xs @ ys) = (case List.find p xs of None \<Rightarrow> List.find p ys | Some x \<Rightarrow> Some x)"
  by (induction xs) auto

lemma find_drop_other:
  "q \<noteq> r \<Longrightarrow>
   List.find (\<lambda>i. qi_name i = r) (drop_where (\<lambda>i. qi_name i = q) xs) = List.find (\<lambda>i. qi_name i = r) xs"
  by (induction xs) auto

lemma find_map_other:
  "(\<And>x. qi_name (f x) = qi_name x) \<Longrightarrow> q \<noteq> r \<Longrightarrow>
   List.find (\<lambda>i. qi_name i = r) (map_where (\<lambda>i. qi_name i = q) f xs) = List.find (\<lambda>i. qi_name i = r) xs"
  by (induction xs) auto

lemma lookup_other [frame]:
  "(\<And>i. qi_name (f i) = qi_name i) \<Longrightarrow> q \<noteq> r \<Longrightarrow> lookup_queue r (on_queue q f s) = lookup_queue r s"
  "q \<noteq> r \<Longrightarrow> lookup_queue r (on_stats q g s) = lookup_queue r s"
  "q \<noteq> r \<Longrightarrow> lookup_queue r (refresh_queue q st s) = lookup_queue r s"
  by (auto simp: lookup_queue_def on_queue_def on_stats_def refresh_queue_def find_map_other
      find_append find_drop_other split: option.splits)

text \<open>The queue an action is about; \<open>None\<close> for the list of all queues and for foreign actions.\<close>

primrec queues_action_queue :: "queues_action \<Rightarrow> jstring option" where
  "queues_action_queue LIST_QUEUES_BEGIN = None"
| "queues_action_queue (LIST_QUEUES_SUCCESS _) = None"
| "queues_action_queue (LIST_QUEUES_ERROR _) = None"
| "queues_action_queue (DELETE_QUEUE_BEGIN q) = Some q"
| "queues_action_queue (DELETE_QUEUE_SUCCESS q) = Some q"
| "queues_action_queue (DELETE_QUEUE_ERROR q _) = Some q"
| "queues_action_queue (PAUSE_QUEUE_BEGIN q) = Some q"
| "queues_action_queue (PAUSE_QUEUE_SUCCESS q) = Some q"
| "queues_action_queue (PAUSE_QUEUE_ERROR q _) = Some q"
| "queues_action_queue (RESUME_QUEUE_BEGIN q) = Some q"
| "queues_action_queue (RESUME_QUEUE_SUCCESS q) = Some q"
| "queues_action_queue (RESUME_QUEUE_ERROR q _) = Some q"

primrec groups_action_queue :: "groups_action \<Rightarrow> jstring" where
  "groups_action_queue (LIST_GROUPS_BEGIN q) = q"
| "groups_action_queue (LIST_GROUPS_SUCCESS q _) = q"
| "groups_action_queue (LIST_GROUPS_ERROR q _) = q"

primrec action_queue :: "action \<Rightarrow> jstring option" where
  "action_queue (TasksAction a) = task_action_queue a"
| "action_queue (QueuesAction a) = queues_action_queue a"
| "action_queue (GroupsAction a) = Some (groups_action_queue a)"
| "action_queue (ServersAction a) = None"
| "action_queue (RedisInfoAction a) = None"
| "action_queue (MetricsAction a) = None"
| "action_queue (SettingsAction a) = None"
| "action_queue (SnackbarAction a) = None"

lemma task_case_other:
  "task_action_queue a = Some q \<Longrightarrow> q \<noteq> r \<Longrightarrow> lookup_queue r (queues_task_case s a) = lookup_queue r s"
  unfolding queues_task_case_def task_queues_defs
  by (cases a; rename_tac x; case_tac x; simp add: frame)

text \<open>An action about one queue leaves what the console shows of every other queue as it is.\<close>

theorem other_queues_untouched:
  assumes "action_queue a = Some q" and "q \<noteq> r"
  shows "lookup_queue r (queuesReducer s a) = lookup_queue r s"
proof (cases a)
  case (TasksAction x)
  with assms task_case_other show ?thesis by (simp add: queuesReducer_def)
next
  case (QueuesAction x)
  with assms show ?thesis
    by (cases x) (simp_all add: queuesReducer_def frame, simp_all add: lookup_queue_def find_drop_other)
next
  case (GroupsAction x)
  with assms show ?thesis
    by (cases x) (simp_all add: queuesReducer_def queues_group_case_def frame)
qed (use assms in simp_all)

subsection \<open>The counters stay balanced\<close>

definition counted :: "queue \<Rightarrow> int" where
  "counted q = q_active q + q_pending q + q_aggregating q + q_scheduled q + q_retry q +
     q_archived q + q_completed q"

definition drift :: "queue_info \<Rightarrow> int" where
  "drift i = q_size (currentStats i) - counted (currentStats i)"

text \<open>How many tasks more than a delete-all answer reports the console had counted in its state.\<close>

definition miscounted :: "tasks_action \<Rightarrow> queue_info \<Rightarrow> int" where
  "miscounted a i = (let c = currentStats i in case a of
      OnPending (DELETE_ALL_PENDING_TASKS_SUCCESS q n) \<Rightarrow> (if qi_name i = q then q_pending c - n else 0)
    | OnScheduled (DELETE_ALL_SCHEDULED_TASKS_SUCCESS q n) \<Rightarrow> (if qi_name i = q then q_scheduled c - n else 0)
    | OnRetry (DELETE_ALL_RETRY_TASKS_SUCCESS q n) \<Rightarrow> (if qi_name i = q then q_retry c - n else 0)
    | OnArchived (DELETE_ALL_ARCHIVED_TASKS_SUCCESS q n) \<Rightarrow> (if qi_name i = q then q_archived c - n else 0)
    | OnCompleted (DELETE_ALL_COMPLETED_TASKS_SUCCESS q n) \<Rightarrow> (if qi_name i = q then q_completed c - n else 0)
    | _ \<Rightarrow> 0)"

text \<open>Actions that carry fresh statistics of a queue.\<close>

definition carries_stats :: "tasks_action \<Rightarrow> bool" where
  "carries_stats a \<longleftrightarrow> starts_with ''LIST_'' (action_type a)"

lemma drift_on_stats:
  "(\<And>i. qi_name i = q \<Longrightarrow> q_size (f (currentStats i)) - counted (f (currentStats i)) = drift i + d i) \<Longrightarrow>
   (\<And>i. qi_name i \<noteq> q \<Longrightarrow> d i = 0) \<Longrightarrow>
   map drift (qs_data (on_stats q f s)) = map (\<lambda>i. drift i + d i) (qs_data s)"
  by (simp add: on_stats_def on_queue_def map_where_def drift_def)

lemma drift_task_case:
  assumes "\<not> carries_stats a"
  shows "map drift (qs_data (queues_task_case s a)) = map (\<lambda>i. drift i + miscounted a i) (qs_data s)"
  using assms unfolding queues_task_case_def task_queues_defs
  by (cases a; rename_tac x; case_tac x;
      (simp add: carries_stats_def starts_with_def)?;
      (intro drift_on_stats)?; simp add: stats_defs counted_def drift_def miscounted_def)

text \<open>C9. A task mutation keeps every queue's counters balanced: the difference between a queue's
  size and the sum of its seven counters is the same before and after. A delete-all of one state, which
  takes the reported number from the size and sets the counter to zero, shifts it by what the console had
  counted beyond the reported number, so not at all when the two agree.\<close>

theorem counters_stay_balanced:
  assumes "\<not> carries_stats a"
  shows "map drift (qs_data (queuesReducer s (TasksAction a))) = map (\<lambda>i. drift i + miscounted a i) (qs_data s)"
  using drift_task_case [OF assms] by (simp add: queuesReducer_def)

subsection \<open>A concrete queue\<close>

definition sample_queue :: "jstring \<Rightarrow> queue" where
  "sample_queue n = \<lparr>q_queue = n, q_paused = False, q_size = 5, q_groups = 0, q_latency_msec = 0,
     q_display_latency = [], q_memory_usage_bytes = 0, q_active = 1, q_pending = 3,
     q_aggregating = 0, q_scheduled = 0, q_retry = 1, q_archived = 0, q_completed = 0,
     q_processed = 0, q_succeeded = 0, q_failed = 0, q_timestamp = []\<rparr>"

definition sample_queues :: queues_state where
  "sample_queues = queues_case queues_initialState
     (LIST_QUEUES_SUCCESS \<lparr>lq_queues = [sample_queue (js ''q''), sample_queue (js ''r'')]\<rparr>)"

lemma sample_names: "js ''q'' \<noteq> js ''r''"
  by (simp add: js_def)

theorem other_queues_untouched_witness:
  "lookup_queue (js ''r'') (queuesReducer sample_queues (QueuesAction (DELETE_QUEUE_SUCCESS (js ''q'')))) =
   lookup_queue (js ''r'') sample_queues"
  by (rule other_queues_untouched [of _ "js ''q''"]) (simp_all add: sample_names)

theorem counters_stay_balanced_witness:
  "map drift (qs_data (queuesReducer sample_queues
     (TasksAction (OnPending (DELETE_ALL_PENDING_TASKS_SUCCESS (js ''q'') 2))))) = [1, 0]"
proof -
  let ?a = "OnPending (DELETE_ALL_PENDING_TASKS_SUCCESS (js ''q'') 2)"
  have "map (\<lambda>i. drift i + miscounted ?a i) (qs_data sample_queues) = [1, 0]"
    using sample_names by (simp add: sample_queues_def sample_queue_def drift_def counted_def miscounted_def)
  then show ?thesis
    using counters_stay_balanced [of ?a sample_queues]
    by (simp add: carries_stats_def starts_with_def)
qed

end
