(* ===== verification/Reducers.thy ===== *)
theory Reducers
  imports ConsoleActions Interfaces
begin

text \<open>
  The small reducers of \<open>src/ui/src/reducers\<close>: groups, servers, Redis info, metrics, settings and
  the snackbar. The snackbar's switch is split into one message function per run of cases; each
  gives the message an action opens the snackbar with, if any.
\<close>

subsection \<open>Groups, servers, Redis info, metrics\<close>

record groups_state =
  gs_loading :: bool
  gs_data :: "group_info list"
  gs_error :: jstring

definition groups_initialState :: groups_state where
  "groups_initialState = \<lparr>gs_loading = False, gs_data = [], gs_error = []\<rparr>"

definition groupsReducer :: "groups_state \<Rightarrow> action \<Rightarrow> groups_state" where
  "groupsReducer s a = (case a of
      GroupsAction (LIST_GROUPS_BEGIN q) \<Rightarrow> s\<lparr>gs_loading := True\<rparr>
    | GroupsAction (LIST_GROUPS_ERROR q e) \<Rightarrow> s\<lparr>gs_loading := False, gs_error := e\<rparr>
    | GroupsAction (LIST_GROUPS_SUCCESS q payload) \<Rightarrow>
        s\<lparr>gs_loading := False, gs_error := [], gs_data := lg_groups payload\<rparr>
    | TasksAction (ListAggregating (LIST_AGGREGATING_TASKS_SUCCESS q g payload)) \<Rightarrow>
        s\<lparr>gs_data := la_groups payload\<rparr>
    | _ \<Rightarrow> s)"

record servers_state =
  ss_loading :: bool
  ss_error :: jstring
  ss_data :: "server_info list"

definition servers_initialState :: servers_state where
  "servers_initialState = \<lparr>ss_loading = False, ss_error = [], ss_data = []\<rparr>"

definition serversReducer :: "servers_state \<Rightarrow> action \<Rightarrow> servers_state" where
  "serversReducer s a = (case a of
      ServersAction LIST_SERVERS_BEGIN \<Rightarrow> s\<lparr>ss_loading := True\<rparr>
    | ServersAction (LIST_SERVERS_SUCCESS payload) \<Rightarrow>
        \<lparr>ss_loading = False, ss_error = [], ss_data = ls_servers payload\<rparr>
    | ServersAction (LIST_SERVERS_ERROR e) \<Rightarrow> s\<lparr>ss_error := e, ss_loading := False\<rparr>
    | _ \<Rightarrow> s)"

record redis_info_state =
  rs_loading :: bool
  rs_error :: jstring
  rs_address :: jstring
  rs_data :: "redis_info option"
  rs_rawData :: "jstring option"
  rs_cluster :: bool
  rs_rawClusterNodes :: "jstring option"
  rs_queueLocations :: "queue_location list option"

definition redis_initialState :: redis_info_state where
  "redis_initialState = \<lparr>rs_loading = False, rs_error = [], rs_address = [], rs_data = None,
     rs_rawData = None, rs_cluster = False, rs_rawClusterNodes = None, rs_queueLocations = None\<rparr>"

definition redisInfoReducer :: "redis_info_state \<Rightarrow> action \<Rightarrow> redis_info_state" where
  "redisInfoReducer s a = (case a of
      RedisInfoAction GET_REDIS_INFO_BEGIN \<Rightarrow> s\<lparr>rs_loading := True\<rparr>
    | RedisInfoAction (GET_REDIS_INFO_ERROR e) \<Rightarrow> s\<lparr>rs_loading := False, rs_error := e\<rparr>
    | RedisInfoAction (GET_REDIS_INFO_SUCCESS payload) \<Rightarrow>
        \<lparr>rs_loading = False, rs_error = [], rs_address = ri_address payload,
         rs_data = Some (ri_info payload), rs_rawData = Some (ri_raw_info payload),
         rs_cluster = ri_cluster payload, rs_rawClusterNodes = Some (ri_raw_cluster_nodes payload),
         rs_queueLocations = ri_queue_locations payload\<rparr>
    | _ \<Rightarrow> s)"

record metrics_state =
  ms_loading :: bool
  ms_error :: jstring
  ms_data :: "metrics_response option"

definition metrics_initialState :: metrics_state where
  "metrics_initialState = \<lparr>ms_loading = False, ms_error = [], ms_data = None\<rparr>"

definition metricsReducer :: "metrics_state \<Rightarrow> action \<Rightarrow> metrics_state" where
  "metricsReducer s a = (case a of
      MetricsAction GET_METRICS_BEGIN \<Rightarrow> s\<lparr>ms_loading := True\<rparr>
    | MetricsAction (GET_METRICS_ERROR e) \<Rightarrow> s\<lparr>ms_loading := False, ms_error := e\<rparr>
    | MetricsAction (GET_METRICS_SUCCESS payload) \<Rightarrow>
        \<lparr>ms_loading = False, ms_error = [], ms_data = Some payload\<rparr>
    | _ \<Rightarrow> s)"

subsection \<open>Settings\<close>

text \<open>\<open>defaultPageSize\<close> and \<open>rowsPerPageOptions\<close> are the constants of \<open>src/ui/src/constants.ts\<close>.\<close>

definition defaultPageSize :: int where
  "defaultPageSize = 20"

definition rowsPerPageOptions :: "int list" where
  "rowsPerPageOptions = [10, 20, 50, 100]"

record settings_state =
  pollInterval :: int
  themePreference :: theme_preference
  isDrawerOpen :: bool
  taskRowsPerPage :: int
  pollingActive :: bool
  lastUpdatedAt :: int

definition settings_initialState :: settings_state where
  "settings_initialState = \<lparr>pollInterval = 8, themePreference = SystemDefault, isDrawerOpen = True,
     taskRowsPerPage = defaultPageSize, pollingActive = True, lastUpdatedAt = 0\<rparr>"

primrec settings_case :: "settings_state \<Rightarrow> settings_action \<Rightarrow> settings_state" where
  "settings_case s (POLL_INTERVAL_CHANGE v) = s\<lparr>pollInterval := v\<rparr>"
| "settings_case s (THEME_PREFERENCE_CHANGE v) = s\<lparr>themePreference := v\<rparr>"
| "settings_case s TOGGLE_DRAWER = s\<lparr>isDrawerOpen := \<not> isDrawerOpen s\<rparr>"
| "settings_case s (TASK_ROWS_PER_PAGE_CHANGE v) = s\<lparr>taskRowsPerPage := v\<rparr>"
| "settings_case s TOGGLE_POLLING = s\<lparr>pollingActive := \<not> pollingActive s\<rparr>"
| "settings_case s (POLL_TICK v) = s\<lparr>lastUpdatedAt := v\<rparr>"

definition settingsReducer :: "settings_state \<Rightarrow> action \<Rightarrow> settings_state" where
  "settingsReducer s a = (case a of SettingsAction x \<Rightarrow> settings_case s x | _ \<Rightarrow> s)"

subsection \<open>Snackbar\<close>

record snackbar_state =
  isOpen :: bool
  message :: jstring

definition snackbar_initialState :: snackbar_state where
  "snackbar_initialState = \<lparr>isOpen = False, message = []\<rparr>"

text \<open>\<open>n === 1 ? one : many\<close>.\<close>

definition plural :: "nat \<Rightarrow> string \<Rightarrow> string \<Rightarrow> jstring" where
  "plural n one many = (if n = 1 then js one else js many)"

definition active_message :: "tasks_action \<Rightarrow> jstring option" where
  "active_message a = (case a of
      OnActive (BATCH_CANCEL_ACTIVE_TASKS_SUCCESS _ p) \<Rightarrow> Some (js ''Cancelation signal sent to '' @ js_of_nat (length (bc_canceled_ids p)) @ js '' '' @ plural (length (bc_canceled_ids p)) ''task'' ''tasks'')
    | OnActive (CANCEL_ALL_ACTIVE_TASKS_SUCCESS q) \<Rightarrow> Some (js ''Cancelation signal sent to all tasks in '' @ q @ js '' queue'')
    | _ \<Rightarrow> None)"

definition single_message :: "tasks_action \<Rightarrow> jstring option" where
  "single_message a = (case a of
      OnScheduledTask (RUN_SCHEDULED_TASK_SUCCESS _ _) \<Rightarrow> Some (js ''Scheduled task is now pending'')
    | OnRetryTask (RUN_RETRY_TASK_SUCCESS _ _) \<Rightarrow> Some (js ''Retry task is now pending'')
    | OnArchivedTask (RUN_ARCHIVED_TASK_SUCCESS _ _) \<Rightarrow> Some (js ''Archived task is now pending'')
    | OnAggregatingTask (RUN_AGGREGATING_TASK_SUCCESS _ _) \<Rightarrow> Some (js ''Aggregating task is now pending'')
    | OnPending (ARCHIVE_PENDING_TASK_SUCCESS _ _) \<Rightarrow> Some (js ''Pending task is now archived'')
    | OnScheduledTask (ARCHIVE_SCHEDULED_TASK_SUCCESS _ _) \<Rightarrow> Some (js ''Scheduled task is now archived'')
    | OnRetryTask (ARCHIVE_RETRY_TASK_SUCCESS _ _) \<Rightarrow> Some (js ''Retry task is now archived'')
    | OnAggregatingTask (ARCHIVE_AGGREGATING_TASK_SUCCESS _ _) \<Rightarrow> Some (js ''Aggregating task is now archived'')
    | OnPending (DELETE_PENDING_TASK_SUCCESS _ _) \<Rightarrow> Some (js ''Pending task deleted'')
    | OnScheduled (DELETE_SCHEDULED_TASK_SUCCESS _ _) \<Rightarrow> Some (js ''Scheduled task deleted'')
    | OnAggregatingTask (DELETE_AGGREGATING_TASK_SUCCESS _ _) \<Rightarrow> Some (js ''Aggregating task deleted'')
    | _ \<Rightarrow> None)"

definition batch_message :: "tasks_action \<Rightarrow> jstring option" where
  "batch_message a = (case a of
      OnScheduled (BATCH_RUN_SCHEDULED_TASKS_SUCCESS _ p) \<Rightarrow> Some (js_of_nat (length (br_pending_ids p)) @ js '' scheduled '' @ plural (length (br_pending_ids p)) ''task is'' ''tasks are'' @ js '' now pending'')
    | OnAggregating (BATCH_RUN_AGGREGATING_TASKS_SUCCESS _ _ p) \<Rightarrow> Some (js_of_nat (length (br_pending_ids p)) @ js '' aggregating '' @ plural (length (br_pending_ids p)) ''task is'' ''tasks are'' @ js '' now pending'')
    | OnAggregating (BATCH_ARCHIVE_AGGREGATING_TASKS_SUCCESS _ _ p) \<Rightarrow> Some (js_of_nat (length (ba_archived_ids p)) @ js '' aggregating '' @ plural (length (ba_archived_ids p)) ''task is'' ''tasks are'' @ js '' now archived'')
    | OnAggregating (BATCH_DELETE_AGGREGATING_TASKS_SUCCESS _ _ p) \<Rightarrow> Some (js_of_nat (length (bd_deleted_ids p)) @ js '' aggregating '' @ plural (length (bd_deleted_ids p)) ''task'' ''tasks'' @ js '' deleted'')
    | OnPending (BATCH_ARCHIVE_PENDING_TASKS_SUCCESS _ p) \<Rightarrow> Some (js_of_nat (length (ba_archived_ids p)) @ js '' pending '' @ plural (length (ba_archived_ids p)) ''task is'' ''tasks are'' @ js '' now archived'')
    | OnPending (BATCH_DELETE_PENDING_TASKS_SUCCESS _ p) \<Rightarrow> Some (js_of_nat (length (bd_deleted_ids p)) @ js '' pending '' @ plural (length (bd_deleted_ids p)) ''task'' ''tasks'' @ js '' deleted'')
    | OnScheduled (BATCH_ARCHIVE_SCHEDULED_TASKS_SUCCESS _ p) \<Rightarrow> Some (js_of_nat (length (ba_archived_ids p)) @ js '' scheduled '' @ plural (length (ba_archived_ids p)) ''task is'' ''tasks are'' @ js '' now archived'')
    | OnScheduled (BATCH_DELETE_SCHEDULED_TASKS_SUCCESS _ p) \<Rightarrow> Some (js_of_nat (length (bd_deleted_ids p)) @ js '' scheduled '' @ plural (length (bd_deleted_ids p)) ''task'' ''tasks'' @ js '' deleted'')
    | _ \<Rightarrow> None)"

definition all_message :: "tasks_action \<Rightarrow> jstring option" where
  "all_message a = (case a of
      OnPending (ARCHIVE_ALL_PENDING_TASKS_SUCCESS _) \<Rightarrow> Some (js ''All pending tasks are now archived'')
    | OnPending (DELETE_ALL_PENDING_TASKS_SUCCESS _ _) \<Rightarrow> Some (js ''All pending tasks deleted'')
    | OnAggregating (RUN_ALL_AGGREGATING_TASKS_SUCCESS _ g _) \<Rightarrow> Some (js ''All tasks in group '' @ g @ js ''  are now pending'')
    | OnAggregating (ARCHIVE_ALL_AGGREGATING_TASKS_SUCCESS _ g _) \<Rightarrow> Some (js ''All tasks in group '' @ g @ js '' are now archived'')
    | OnAggregating (DELETE_ALL_AGGREGATING_TASKS_SUCCESS _ g _) \<Rightarrow> Some (js ''All tasks in group '' @ g @ js '' deleted'')
    | OnScheduled (RUN_ALL_SCHEDULED_TASKS_SUCCESS _) \<Rightarrow> Some (js ''All scheduled tasks are now pending'')
    | OnScheduled (ARCHIVE_ALL_SCHEDULED_TASKS_SUCCESS _) \<Rightarrow> Some (js ''All scheduled tasks are now archived'')
    | OnScheduled (DELETE_ALL_SCHEDULED_TASKS_SUCCESS _ _) \<Rightarrow> Some (js ''All scheduled tasks deleted'')
    | _ \<Rightarrow> None)"

definition retry_message :: "tasks_action \<Rightarrow> jstring option" where
  "retry_message a = (case a of
      OnRetry (DELETE_RETRY_TASK_SUCCESS _ _) \<Rightarrow> Some (js ''Retry task deleted'')
    | OnRetry (BATCH_RUN_RETRY_TASKS_SUCCESS _ p) \<Rightarrow> Some (js_of_nat (length (br_pending_ids p)) @ js '' retry '' @ plural (length (br_pending_ids p)) ''task is'' ''tasks are'' @ js '' now pending'')
    | OnRetry (BATCH_ARCHIVE_RETRY_TASKS_SUCCESS _ p) \<Rightarrow> Some (js_of_nat (length (ba_archived_ids p)) @ js '' retry '' @ plural (length (ba_archived_ids p)) ''task is'' ''tasks are'' @ js '' now archived'')
    | OnRetry (BATCH_DELETE_RETRY_TASKS_SUCCESS _ p) \<Rightarrow> Some (js_of_nat (length (bd_deleted_ids p)) @ js '' retry '' @ plural (length (bd_deleted_ids p)) ''task'' ''tasks'' @ js '' deleted'')
    | OnRetry (RUN_ALL_RETRY_TASKS_SUCCESS _) \<Rightarrow> Some (js ''All retry tasks are now pending'')
    | OnRetry (ARCHIVE_ALL_RETRY_TASKS_SUCCESS _) \<Rightarrow> Some (js ''All retry tasks are now archived'')
    | OnRetry (DELETE_ALL_RETRY_TASKS_SUCCESS _ _) \<Rightarrow> Some (js ''All retry tasks deleted'')
    | _ \<Rightarrow> None)"

definition archived_message :: "tasks_action \<Rightarrow> jstring option" where
  "archived_message a = (case a of
      OnArchived (DELETE_ARCHIVED_TASK_SUCCESS _ _) \<Rightarrow> Some (js ''Archived task deleted'')
    | OnArchived (BATCH_RUN_ARCHIVED_TASKS_SUCCESS _ p) \<Rightarrow> Some (js_of_nat (length (br_pending_ids p)) @ js '' archived '' @ plural (length (br_pending_ids p)) ''task is'' ''tasks are'' @ js '' now pending'')
    | OnArchived (BATCH_DELETE_ARCHIVED_TASKS_SUCCESS _ p) \<Rightarrow> Some (js_of_nat (length (bd_deleted_ids p)) @ js '' archived '' @ plural (length (bd_deleted_ids p)) ''task'' ''tasks'' @ js '' deleted'')
    | OnArchived (RUN_ALL_ARCHIVED_TASKS_SUCCESS _) \<Rightarrow> Some (js ''All archived tasks are now pending'')
    | OnArchived (DELETE_ALL_ARCHIVED_TASKS_SUCCESS _ _) \<Rightarrow> Some (js ''All archived tasks deleted'')
    | _ \<Rightarrow> None)"

definition completed_message :: "tasks_action \<Rightarrow> jstring option" where
  "completed_message a = (case a of
      OnCompleted (DELETE_COMPLETED_TASK_SUCCESS _ _) \<Rightarrow> Some (js ''Completed task deleted'')
    | OnCompleted (DELETE_ALL_COMPLETED_TASKS_SUCCESS _ _) \<Rightarrow> Some (js ''All completed tasks deleted'')
    | OnCompleted (BATCH_DELETE_COMPLETED_TASKS_SUCCESS _ p) \<Rightarrow> Some (js_of_nat (length (bd_deleted_ids p)) @ js '' completed '' @ plural (length (bd_deleted_ids p)) ''task'' ''tasks'' @ js '' deleted'')
    | _ \<Rightarrow> None)"

lemmas message_defs = active_message_def single_message_def batch_message_def all_message_def
  retry_message_def archived_message_def completed_message_def

text \<open>The message of an action: the cases of the source's switch, in its order.\<close>

definition snackbar_message :: "tasks_action \<Rightarrow> jstring option" where
  "snackbar_message a =
     List.find (\<lambda>_. True) (List.map_filter (\<lambda>f. f a)
       [active_message, single_message, batch_message, all_message, retry_message,
        archived_message, completed_message])"

definition snackbarReducer :: "snackbar_state \<Rightarrow> action \<Rightarrow> snackbar_state" where
  "snackbarReducer s a = (case a of
      SnackbarAction CLOSE_SNACKBAR \<Rightarrow> s\<lparr>isOpen := False\<rparr>
    | TasksAction x \<Rightarrow> (case snackbar_message x of
          Some m \<Rightarrow> \<lparr>isOpen = True, message = m\<rparr>
        | None \<Rightarrow> s)
    | _ \<Rightarrow> s)"

end
