(* ===== verification/Store.thy ===== *)
theory Store
  imports TasksRequests QueuesReducer Reducers
begin

text \<open>
  The Redux store of \<open>src/ui/src/store.ts\<close> and the persistence of the settings
  (\<open>src/ui/src/localStorage.ts\<close>): the root reducer, the middleware that turns failed mutations
  into toasts, the throttled save and the validated load.

  A JSON text is modelled by the value it denotes. Browser storage is the document saved under
  \<open>asynqmon:state\<close>; it may be missing, or hold a text that does not parse.
\<close>

subsection \<open>Root reducer\<close>

record app_state =
  settings :: settings_state
  queues :: queues_state
  tasks :: tasks_state
  groups :: groups_state
  servers :: servers_state
  snackbar :: snackbar_state
  redis :: redis_info_state
  metrics :: metrics_state

definition app_initialState :: app_state where
  "app_initialState = \<lparr>settings = settings_initialState, queues = queues_initialState,
     tasks = initialState, groups = groups_initialState, servers = servers_initialState,
     snackbar = snackbar_initialState, redis = redis_initialState, metrics = metrics_initialState\<rparr>"

definition rootReducer :: "app_state \<Rightarrow> action \<Rightarrow> app_state" where
  "rootReducer s a =
     \<lparr>settings = settingsReducer (settings s) a,
      queues = queuesReducer (queues s) a,
      tasks = (case a of TasksAction x \<Rightarrow> tasksReducer (tasks s) x | _ \<Rightarrow> tasks s),
      groups = groupsReducer (groups s) a,
      servers = serversReducer (servers s) a,
      snackbar = snackbarReducer (snackbar s) a,
      redis = redisInfoReducer (redis s) a,
      metrics = metricsReducer (metrics s) a\<rparr>"

subsection \<open>Failed mutations become toasts\<close>

text \<open>The \<open>error\<close> field of an action, where it has one.\<close>

definition task_error :: "tasks_action \<Rightarrow> jstring option" where
  "task_error a = (case a of
      GetTaskInfo (GET_TASK_INFO_ERROR e) \<Rightarrow> Some e
    | ListActive (LIST_ACTIVE_TASKS_ERROR _ e) \<Rightarrow> Some e
    | ListPending (LIST_PENDING_TASKS_ERROR _ e) \<Rightarrow> Some e
    | ListScheduled (LIST_SCHEDULED_TASKS_ERROR _ e) \<Rightarrow> Some e
    | ListRetry (LIST_RETRY_TASKS_ERROR _ e) \<Rightarrow> Some e
    | ListArchived (LIST_ARCHIVED_TASKS_ERROR _ e) \<Rightarrow> Some e
    | ListCompleted (LIST_COMPLETED_TASKS_ERROR _ e) \<Rightarrow> Some e
    | ListAggregating (LIST_AGGREGATING_TASKS_ERROR _ _ e) \<Rightarrow> Some e
    | OnActive (CANCEL_ACTIVE_TASK_ERROR _ _ e) \<Rightarrow> Some e
    | OnActive (CANCEL_ALL_ACTIVE_TASKS_ERROR _ e) \<Rightarrow> Some e
    | OnActive (BATCH_CANCEL_ACTIVE_TASKS_ERROR _ _ e) \<Rightarrow> Some e
    | OnPending (DELETE_PENDING_TASK_ERROR _ _ e) \<Rightarrow> Some e
    | OnPending (BATCH_DELETE_PENDING_TASKS_ERROR _ _ e) \<Rightarrow> Some e
    | OnPending (DELETE_ALL_PENDING_TASKS_ERROR _ e) \<Rightarrow> Some e
    | OnPending (ARCHIVE_PENDING_TASK_ERROR _ _ e) \<Rightarrow> Some e
    | OnPending (BATCH_ARCHIVE_PENDING_TASKS_ERROR _ _ e) \<Rightarrow> Some e
    | OnPending (ARCHIVE_ALL_PENDING_TASKS_ERROR _ e) \<Rightarrow> Some e
    | OnScheduledTask (RUN_SCHEDULED_TASK_ERROR _ _ e) \<Rightarrow> Some e
    | OnScheduledTask (ARCHIVE_SCHEDULED_TASK_ERROR _ _ e) \<Rightarrow> Some e
    | OnRetryTask (RUN_RETRY_TASK_ERROR _ _ e) \<Rightarrow> Some e
    | OnRetryTask (ARCHIVE_RETRY_TASK_ERROR _ _ e) \<Rightarrow> Some e
    | OnArchivedTask (RUN_ARCHIVED_TASK_ERROR _ _ e) \<Rightarrow> Some e
    | OnScheduled (DELETE_SCHEDULED_TASK_ERROR _ _ e) \<Rightarrow> Some e
    | OnScheduled (BATCH_DELETE_SCHEDULED_TASKS_ERROR _ _ e) \<Rightarrow> Some e
    | OnScheduled (BATCH_RUN_SCHEDULED_TASKS_ERROR _ _ e) \<Rightarrow> Some e
    | OnScheduled (RUN_ALL_SCHEDULED_TASKS_ERROR _ e) \<Rightarrow> Some e
    | OnScheduled (BATCH_ARCHIVE_SCHEDULED_TASKS_ERROR _ _ e) \<Rightarrow> Some e
    | OnScheduled (ARCHIVE_ALL_SCHEDULED_TASKS_ERROR _ e) \<Rightarrow> Some e
    | OnScheduled (DELETE_ALL_SCHEDULED_TASKS_ERROR _ e) \<Rightarrow> Some e
    | OnRetry (DELETE_RETRY_TASK_ERROR _ _ e) \<Rightarrow> Some e
    | OnRetry (BATCH_DELETE_RETRY_TASKS_ERROR _ _ e) \<Rightarrow> Some e
    | OnRetry (BATCH_RUN_RETRY_TASKS_ERROR _ _ e) \<Rightarrow> Some e
    | OnRetry (RUN_ALL_RETRY_TASKS_ERROR _ e) \<Rightarrow> Some e
    | OnRetry (BATCH_ARCHIVE_RETRY_TASKS_ERROR _ _ e) \<Rightarrow> Some e
    | OnRetry (ARCHIVE_ALL_RETRY_TASKS_ERROR _ e) \<Rightarrow> Some e
    | OnRetry (DELETE_ALL_RETRY_TASKS_ERROR _ e) \<Rightarrow> Some e
    | OnArchived (DELETE_ARCHIVED_TASK_ERROR _ _ e) \<Rightarrow> Some e
    | OnArchived (BATCH_DELETE_ARCHIVED_TASKS_ERROR _ _ e) \<Rightarrow> Some e
    | OnArchived (BATCH_RUN_ARCHIVED_TASKS_ERROR _ _ e) \<Rightarrow> Some e
    | OnArchived (RUN_ALL_ARCHIVED_TASKS_ERROR _ e) \<Rightarrow> Some e
    | OnArchived (DELETE_ALL_ARCHIVED_TASKS_ERROR _ e) \<Rightarrow> Some e
    | OnCompleted (DELETE_COMPLETED_TASK_ERROR _ _ e) \<Rightarrow> Some e
    | OnCompleted (BATCH_DELETE_COMPLETED_TASKS_ERROR _ _ e) \<Rightarrow> Some e
    | OnCompleted (DELETE_ALL_COMPLETED_TASKS_ERROR _ e) \<Rightarrow> Some e
    | OnAggregatingTask (DELETE_AGGREGATING_TASK_ERROR _ _ e) \<Rightarrow> Some e
    | OnAggregatingTask (RUN_AGGREGATING_TASK_ERROR _ _ e) \<Rightarrow> Some e
    | OnAggregatingTask (ARCHIVE_AGGREGATING_TASK_ERROR _ _ e) \<Rightarrow> Some e
    | OnAggregating (BATCH_DELETE_AGGREGATING_TASKS_ERROR _ _ _ e) \<Rightarrow> Some e
    | OnAggregating (BATCH_RUN_AGGREGATING_TASKS_ERROR _ _ _ e) \<Rightarrow> Some e
    | OnAggregating (RUN_ALL_AGGREGATING_TASKS_ERROR _ _ e) \<Rightarrow> Some e
    | OnAggregating (BATCH_ARCHIVE_AGGREGATING_TASKS_ERROR _ _ _ e) \<Rightarrow> Some e
    | OnAggregating (ARCHIVE_ALL_AGGREGATING_TASKS_ERROR _ _ e) \<Rightarrow> Some e
    | OnAggregating (DELETE_ALL_AGGREGATING_TASKS_ERROR _ _ e) \<Rightarrow> Some e
    | _ \<Rightarrow> None)"

definition queues_error :: "queues_action \<Rightarrow> jstring option" where
  "queues_error a = (case a of
      LIST_QUEUES_ERROR e \<Rightarrow> Some e
    | DELETE_QUEUE_ERROR _ e \<Rightarrow> Some e
    | PAUSE_QUEUE_ERROR _ e \<Rightarrow> Some e
    | RESUME_QUEUE_ERROR _ e \<Rightarrow> Some e
    | _ \<Rightarrow> None)"

definition error_of :: "action \<Rightarrow> jstring option" where
  "error_of a = (case a of
      TasksAction x \<Rightarrow> task_error x
    | QueuesAction x \<Rightarrow> queues_error x
    | GroupsAction (LIST_GROUPS_ERROR _ e) \<Rightarrow> Some e
    | ServersAction (LIST_SERVERS_ERROR e) \<Rightarrow> Some e
    | RedisInfoAction (GET_REDIS_INFO_ERROR e) \<Rightarrow> Some e
    | MetricsAction (GET_METRICS_ERROR e) \<Rightarrow> Some e
    | _ \<Rightarrow> None)"

text \<open>The toast an action raises: its text and its id.\<close>

definition errorToast :: "action \<Rightarrow> (jstring \<times> string) option" where
  "errorToast a =
     (if ends_with ''_ERROR'' (type_of a) \<and> \<not> starts_with ''LIST_'' (type_of a) \<and>
         \<not> starts_with ''GET_'' (type_of a)
      then (case error_of a of
          Some e \<Rightarrow> if e \<noteq> [] then Some (e, type_of a) else None
        | None \<Rightarrow> None)
      else None)"

text \<open>Dispatching actions in order: the state, and the toasts raised.\<close>

fun dispatch_all :: "app_state \<Rightarrow> action list \<Rightarrow> app_state \<times> (jstring \<times> string) list" where
  "dispatch_all s [] = (s, [])"
| "dispatch_all s (a # as) =
     (let (s', ts) = dispatch_all (rootReducer s a) as
      in (s', (case errorToast a of None \<Rightarrow> ts | Some t \<Rightarrow> t # ts)))"

text \<open>What the operator hears of an answer: a snackbar message or a toast.\<close>

lemma answer_feedback:
  assumes "dispatches [b, a]" "\<not> is_query b"
  shows "snackbar_message b = None \<and> errorToast (TasksAction b) = None \<and>
    (if is_error a
     then snackbar_message a = None \<and>
       (\<exists>e. errorToast (TasksAction a) = Some (e, action_type a) \<and> e \<noteq> [])
     else errorToast (TasksAction a) = None \<and>
       ((\<exists>m. snackbar_message a = Some m \<and> m \<noteq> []) \<or>
        (\<exists>q i. a = OnActive (CANCEL_ACTIVE_TASK_SUCCESS q i))))"
  using assms unfolding is_query_def is_error_def
  by (elim dispatches.cases; clarsimp simp: thunk_defs errorToast_def error_of_def task_error_def
      starts_with_def ends_with_def snackbar_message_def message_defs map_filter_simps
      split: outcome.splits if_splits)


lemma root_snackbar [simp]:
  "snackbar (rootReducer s (TasksAction a)) = (case snackbar_message a of
      None \<Rightarrow> snackbar s | Some m \<Rightarrow> \<lparr>isOpen = True, message = m\<rparr>)"
  by (simp add: rootReducer_def snackbarReducer_def split: option.split)

lemma cancel_marks_row:
  assumes "t_id r = i" "r \<in> set (data (active_case v (CANCEL_ACTIVE_TASK_SUCCESS q i)))"
  shows "canceling r = Some True \<and> \<not> requestPending r"
proof -
  have "r \<in> (\<lambda>t. if t_id t = i then t\<lparr>requestPending := False, canceling := Some True\<rparr> else t) ` set (data v)"
    using assms(2) by (simp add: map_where_def)
  then obtain t where "r = (if t_id t = i then t\<lparr>requestPending := False, canceling := Some True\<rparr> else t)" by blast
  with assms(1) show ?thesis by (cases "t_id t = i") simp_all
qed

lemma cancel_leaves_snackbar: "snackbar_message (OnActive (CANCEL_ACTIVE_TASK_SUCCESS q i)) = None"
  by (simp add: snackbar_message_def message_defs map_filter_simps)

lemma root_active:
  "activeTasks (tasks (rootReducer s (TasksAction (OnActive x)))) = active_case (activeTasks (tasks s)) x"
  by (simp add: rootReducer_def)

text \<open>C10. Every mutation of tasks answers the operator once: a failure raises exactly one toast, with
  a text that is not empty and the action type as its id, and leaves the snackbar alone; a success
  raises no toast and opens the snackbar with a message. The cancelation of one active task is the
  exception: its success leaves the snackbar alone and marks the row of the task as canceling instead.\<close>

theorem mutation_answers_operator:
  assumes "dispatches [b, a]" and "\<not> is_query b"
    and "dispatch_all s [TasksAction b, TasksAction a] = (s', toasts)"
  shows "if is_error a
    then (\<exists>e. toasts = [(e, action_type a)] \<and> e \<noteq> []) \<and> snackbar s' = snackbar s
    else toasts = [] \<and>
      (isOpen (snackbar s') \<and> message (snackbar s') \<noteq> [] \<or>
       (\<exists>q i. a = OnActive (CANCEL_ACTIVE_TASK_SUCCESS q i) \<and> snackbar s' = snackbar s \<and>
          (\<forall>r \<in> set (data (activeTasks (tasks s'))). t_id r = i \<longrightarrow> canceling r = Some True \<and> \<not> requestPending r)))"
  using answer_feedback [OF assms(1,2)] assms(3)
  by (auto simp: root_active cancel_leaves_snackbar cancel_marks_row simp del: active_case.simps split: if_splits)

subsection \<open>JSON values\<close>

text \<open>\<open>JFloat\<close> stands for a number that is not an integer.\<close>

datatype json = JNull | JBool bool | JInt int | JFloat | JString jstring | JArray "json list"
  | JObject "(string \<times> json) list"

text \<open>A property of a parsed value: the last binding of its name; only objects have one here.\<close>

definition json_field :: "string \<Rightarrow> json \<Rightarrow> json option" where
  "json_field k v = (case v of JObject kvs \<Rightarrow> map_of (rev kvs) k | _ \<Rightarrow> None)"

subsection \<open>Validation\<close>

definition POLL_INTERVAL_MIN :: int where
  "POLL_INTERVAL_MIN = 2"

definition POLL_INTERVAL_MAX :: int where
  "POLL_INTERVAL_MAX = 20"

text \<open>The enum member of a number, if it is one of \<open>Object.values(ThemePreference)\<close>.\<close>

definition theme_of :: "int \<Rightarrow> theme_preference option" where
  "theme_of n = (if n = 0 then Some SystemDefault else if n = 1 then Some Always
     else if n = 2 then Some Never else None)"

primrec theme_number :: "theme_preference \<Rightarrow> int" where
  "theme_number SystemDefault = 0"
| "theme_number Always = 1"
| "theme_number Never = 2"

text \<open>The statements of \<open>sanitizeSettings\<close>, one per field, over the value built so far.\<close>

definition take_pollInterval :: "json \<Rightarrow> settings_state \<Rightarrow> settings_state" where
  "take_pollInterval s out = (case json_field ''pollInterval'' s of
      Some (JInt n) \<Rightarrow>
        if POLL_INTERVAL_MIN \<le> n \<and> n \<le> POLL_INTERVAL_MAX then out\<lparr>pollInterval := n\<rparr> else out
    | _ \<Rightarrow> out)"

definition take_taskRowsPerPage :: "json \<Rightarrow> settings_state \<Rightarrow> settings_state" where
  "take_taskRowsPerPage s out = (case json_field ''taskRowsPerPage'' s of
      Some (JInt n) \<Rightarrow> if n \<in> set rowsPerPageOptions then out\<lparr>taskRowsPerPage := n\<rparr> else out
    | _ \<Rightarrow> out)"

definition take_themePreference :: "json \<Rightarrow> settings_state \<Rightarrow> settings_state" where
  "take_themePreference s out = (case json_field ''themePreference'' s of
      Some (JInt n) \<Rightarrow> (case theme_of n of Some t \<Rightarrow> out\<lparr>themePreference := t\<rparr> | None \<Rightarrow> out)
    | _ \<Rightarrow> out)"

definition take_isDrawerOpen :: "json \<Rightarrow> settings_state \<Rightarrow> settings_state" where
  "take_isDrawerOpen s out = (case json_field ''isDrawerOpen'' s of
      Some (JBool b) \<Rightarrow> out\<lparr>isDrawerOpen := b\<rparr> | _ \<Rightarrow> out)"

definition take_pollingActive :: "json \<Rightarrow> settings_state \<Rightarrow> settings_state" where
  "take_pollingActive s out = (case json_field ''pollingActive'' s of
      Some (JBool b) \<Rightarrow> out\<lparr>pollingActive := b\<rparr> | _ \<Rightarrow> out)"

lemmas take_defs = take_pollInterval_def take_taskRowsPerPage_def take_themePreference_def
  take_isDrawerOpen_def take_pollingActive_def

definition sanitizeSettings :: "json option \<Rightarrow> settings_state" where
  "sanitizeSettings raw = (case raw of
      Some (JObject kvs) \<Rightarrow>
        take_pollingActive (JObject kvs) (take_isDrawerOpen (JObject kvs)
          (take_themePreference (JObject kvs) (take_taskRowsPerPage (JObject kvs)
            (take_pollInterval (JObject kvs) settings_initialState))))
    | _ \<Rightarrow> settings_initialState)"

definition valid_settings :: "settings_state \<Rightarrow> bool" where
  "valid_settings s \<longleftrightarrow> POLL_INTERVAL_MIN \<le> pollInterval s \<and> pollInterval s \<le> POLL_INTERVAL_MAX \<and>
     taskRowsPerPage s \<in> set rowsPerPageOptions"

text \<open>Every statement keeps the settings valid and the refresh time as it is.\<close>

definition fresh_settings :: "settings_state \<Rightarrow> bool" where
  "fresh_settings s \<longleftrightarrow> valid_settings s \<and> lastUpdatedAt s = 0"

lemma fresh_initial: "fresh_settings settings_initialState"
  by (simp add: fresh_settings_def valid_settings_def settings_initialState_def POLL_INTERVAL_MIN_def
      POLL_INTERVAL_MAX_def rowsPerPageOptions_def defaultPageSize_def)

lemma fresh_take:
  assumes "fresh_settings out"
  shows "fresh_settings (take_pollInterval s out)" "fresh_settings (take_taskRowsPerPage s out)"
    "fresh_settings (take_themePreference s out)" "fresh_settings (take_isDrawerOpen s out)"
    "fresh_settings (take_pollingActive s out)"
  using assms
  by (simp_all add: take_defs fresh_settings_def valid_settings_def split: option.split json.split)

lemma fresh_sanitized: "fresh_settings (sanitizeSettings raw)"
  by (simp add: sanitizeSettings_def fresh_take fresh_initial split: option.split json.split)

text \<open>C33. Whatever is found in storage, the settings loaded from it are usable: the poll interval is
  within the slider's bounds and the page size is one the tables offer, and the refresh time of the
  previous session is never restored.\<close>

theorem sanitized_settings_are_valid:
  "valid_settings (sanitizeSettings raw) \<and> lastUpdatedAt (sanitizeSettings raw) = 0"
  using fresh_sanitized [of raw] by (simp add: fresh_settings_def)

subsection \<open>Saving and loading\<close>

text \<open>\<open>JSON.stringify({ settings })\<close> after the session-only field is deleted.\<close>

definition settings_document :: "settings_state \<Rightarrow> json" where
  "settings_document s = JObject [(''settings'', JObject
     [(''pollInterval'', JInt (pollInterval s)),
      (''themePreference'', JInt (theme_number (themePreference s))),
      (''isDrawerOpen'', JBool (isDrawerOpen s)),
      (''taskRowsPerPage'', JInt (taskRowsPerPage s)),
      (''pollingActive'', JBool (pollingActive s))])]"

datatype stored = Missing | Malformed | Document json

definition loadState :: "stored \<Rightarrow> settings_state option" where
  "loadState st = (case st of
      Missing \<Rightarrow> None
    | Malformed \<Rightarrow> None
    | Document savedState \<Rightarrow> Some (sanitizeSettings (json_field ''settings'' savedState)))"

lemma theme_of_number [simp]: "theme_of (theme_number t) = Some t"
  by (cases t) (simp_all add: theme_of_def)

lemma load_saved:
  "valid_settings s \<Longrightarrow> loadState (Document (settings_document s)) = Some (s\<lparr>lastUpdatedAt := 0\<rparr>)"
  by (cases s) (simp add: loadState_def settings_document_def sanitizeSettings_def json_field_def
      valid_settings_def settings_initialState_def take_defs)

text \<open>
  The subscription: a dispatch starts a timer unless one is running; when it fires, the current
  settings are written unless they are what was written last. \<open>ok\<close> is whether
  \<open>localStorage.setItem\<close> succeeds (it throws when the quota is exceeded).
\<close>

record saver =
  sv_state :: app_state
  sv_timer :: bool
  sv_lastSerialized :: "json option"
  sv_storage :: stored

datatype saver_event = Dispatched action | TimerFired bool

definition saveState :: "bool \<Rightarrow> saver \<Rightarrow> saver" where
  "saveState ok v =
     (let serializedState = settings_document (settings (sv_state v)) in
      if sv_lastSerialized v = Some serializedState then v
      else if ok then v\<lparr>sv_storage := Document serializedState, sv_lastSerialized := Some serializedState\<rparr>
      else v)"

fun saver_step :: "saver \<Rightarrow> saver_event \<Rightarrow> saver" where
  "saver_step v (Dispatched a) = v\<lparr>sv_state := rootReducer (sv_state v) a, sv_timer := True\<rparr>"
| "saver_step v (TimerFired ok) = (if sv_timer v then saveState ok (v\<lparr>sv_timer := False\<rparr>) else v)"

definition boot :: "stored \<Rightarrow> saver" where
  "boot st = \<lparr>sv_state = (case loadState st of
       None \<Rightarrow> app_initialState
     | Some s \<Rightarrow> app_initialState\<lparr>settings := s\<rparr>),
     sv_timer = False, sv_lastSerialized = None, sv_storage = st\<rparr>"

text \<open>What the controls of the console can ask for.\<close>

definition offered :: "action \<Rightarrow> bool" where
  "offered a \<longleftrightarrow> (case a of
      SettingsAction (POLL_INTERVAL_CHANGE v) \<Rightarrow> POLL_INTERVAL_MIN \<le> v \<and> v \<le> POLL_INTERVAL_MAX
    | SettingsAction (TASK_ROWS_PER_PAGE_CHANGE v) \<Rightarrow> v \<in> set rowsPerPageOptions
    | _ \<Rightarrow> True)"

definition good_event :: "saver_event \<Rightarrow> bool" where
  "good_event e \<longleftrightarrow> (case e of Dispatched a \<Rightarrow> offered a | TimerFired ok \<Rightarrow> ok)"

text \<open>
  Between saves: with no timer running, storage is what the last boot left or holds the current
  settings.
\<close>

definition saved :: "saver \<Rightarrow> bool" where
  "saved v \<longleftrightarrow> valid_settings (settings (sv_state v)) \<and>
     (\<forall>d. sv_lastSerialized v = Some d \<longrightarrow> sv_storage v = Document d) \<and>
     (\<not> sv_timer v \<and> sv_lastSerialized v \<noteq> None \<longrightarrow>
        sv_lastSerialized v = Some (settings_document (settings (sv_state v))))"

lemma valid_settings_step:
  "valid_settings (settings s) \<Longrightarrow> offered a \<Longrightarrow> valid_settings (settings (rootReducer s a))"
  by (cases a; simp add: rootReducer_def settingsReducer_def; rename_tac x; case_tac x;
      simp add: offered_def valid_settings_def)

lemma saved_step: "saved v \<Longrightarrow> good_event e \<Longrightarrow> saved (saver_step v e)"
  by (cases e) (auto simp: saved_def good_event_def saveState_def Let_def valid_settings_step)

interpretation saver: machine saver_step good_event saved
  by unfold_locales (rule saved_step)

lemma dispatched_saved:
  "list_all good_event es \<Longrightarrow> Dispatched a \<in> set es \<Longrightarrow>
   sv_timer (foldl saver_step v es) \<or> sv_lastSerialized (foldl saver_step v es) \<noteq> None"
proof (induction es rule: rev_induct)
  case (snoc e es)
  then show ?case by (cases e) (auto simp: saveState_def Let_def good_event_def)
qed simp



theorem mutation_answers_operator_witness:
  "\<exists>s' e. dispatch_all app_initialState
     [TasksAction (OnRetry (DELETE_RETRY_TASK_BEGIN (js ''q'') (js ''a''))),
      TasksAction (OnRetry (DELETE_RETRY_TASK_ERROR (js ''q'') (js ''a'')
        (toErrorString \<lparr>ae_response = None\<rparr>)))] = (s', [(e, ''DELETE_RETRY_TASK_ERROR'')]) \<and> e \<noteq> []"
proof -
  let ?b = "OnRetry (DELETE_RETRY_TASK_BEGIN (js ''q'') (js ''a''))"
  let ?a = "OnRetry (DELETE_RETRY_TASK_ERROR (js ''q'') (js ''a'') (toErrorString \<lparr>ae_response = None\<rparr>))"
  obtain s' ts where d: "dispatch_all app_initialState [TasksAction ?b, TasksAction ?a] = (s', ts)"
    by (meson surj_pair)
  have "\<not> is_query ?b" "is_error ?a"
    by (simp_all add: is_query_def is_error_def starts_with_def ends_with_def)
  with mutation_answers_operator [OF refused_delete _ d] d show ?thesis by auto
qed

end
