(* ===== verification/Selection.thy ===== *)
theory Selection
  imports "HOL-Library.Multiset" Prelude
begin

text \<open>
  \<open>src/ui/src/lib/selection.ts\<close>: grouping a selection by queue, and running the calls of a bulk verb
  with a bounded number in flight.

  The workers of \<open>runWithConcurrency\<close> are JavaScript tasks: between two awaits nothing interleaves,
  so a run is a sequence of settlements, each followed by the synchronous part of the worker that
  waited for it. A settlement names the index of its item and how its call ended.
\<close>

subsection \<open>Grouping by queue\<close>

record target =
  tg_queue :: jstring
  tg_id :: jstring

text \<open>\<open>byQueue\<close> is a \<open>Map\<close>: it keeps the order of first insertion.\<close>

definition group_key :: "target \<Rightarrow> jstring" where
  "group_key t = tg_queue t @ js '' '' @ tg_id t"

definition group_step ::
  "(jstring \<times> jstring list) list \<times> jstring list \<Rightarrow> target \<Rightarrow> (jstring \<times> jstring list) list \<times> jstring list" where
  "group_step s t =
     (let (byQueue, seen) = s; key = group_key t
      in if key \<in> set seen then s
         else ((case map_of byQueue (tg_queue t) of
                  Some ids \<Rightarrow> map (\<lambda>(q, xs). if q = tg_queue t then (q, xs @ [tg_id t]) else (q, xs)) byQueue
                | None \<Rightarrow> byQueue @ [(tg_queue t, [tg_id t])]),
               key # seen))"

definition groupByQueue :: "target list \<Rightarrow> (jstring \<times> jstring list) list" where
  "groupByQueue tasks = fst (foldl group_step ([], []) tasks)"

text \<open>The calls of \<open>runSelectionVerb\<close> (\<open>src/ui/src/views/TasksGlobalView.tsx\<close>), in order.\<close>

datatype selection_call = BatchCall jstring "jstring list" | SingleCall jstring jstring

definition BATCH_SELECTION_THRESHOLD :: nat where
  "BATCH_SELECTION_THRESHOLD = 20"

definition SELECTION_CONCURRENCY :: nat where
  "SELECTION_CONCURRENCY = 4"

definition selection_calls :: "bool \<Rightarrow> target list \<Rightarrow> selection_call list" where
  "selection_calls has_batch targets =
     (if has_batch \<and> length targets > BATCH_SELECTION_THRESHOLD
      then map (\<lambda>(q, ids). BatchCall q ids) (groupByQueue targets)
      else map (\<lambda>t. SingleCall (tg_queue t) (tg_id t)) targets)"

subsection \<open>Bounded concurrency\<close>

text \<open>
  An item is \<open>None\<close> at a hole of the array. An error is \<open>None\<close> when a call rejects with
  \<open>undefined\<close>, which the code cannot tell from no error. \<open>p_called\<close> logs the indices \<open>fn\<close> was called
  with, in order; \<open>p_error\<close> is \<open>firstError\<close>.
\<close>

datatype 'e settlement = Done | Failed "'e option"

record 'e pool =
  p_next :: nat
  p_flight :: "nat list"
  p_called :: "nat list"
  p_error :: "'e option"

text \<open>The worker's loop up to its next await: the index it calls \<open>fn\<close> with, if any.\<close>

function pull :: "'a option list \<Rightarrow> nat \<Rightarrow> nat option \<times> nat" where
  "pull items i =
     (if i \<ge> length items then (None, Suc i)
      else if items ! i = None then pull items (Suc i)
      else (Some i, Suc i))"
  by pat_completeness auto
termination by (relation "measure (\<lambda>(items, i). length items - i)") auto

declare pull.simps [simp del]

definition worker_pull :: "'a option list \<Rightarrow> 'e pool \<Rightarrow> 'e pool" where
  "worker_pull items p = (case pull items (p_next p) of
     (None, n) \<Rightarrow> p\<lparr>p_next := n\<rparr>
   | (Some i, n) \<Rightarrow> p\<lparr>p_next := n, p_flight := p_flight p @ [i], p_called := p_called p @ [i]\<rparr>)"

definition worker_count :: "'a option list \<Rightarrow> int \<Rightarrow> nat" where
  "worker_count items limit = nat (max 1 (min limit (int (length items))))"

definition start_pool :: "'a option list \<Rightarrow> int \<Rightarrow> 'e pool" where
  "start_pool items limit =
     (worker_pull items ^^ worker_count items limit)
       \<lparr>p_next = 0, p_flight = [], p_called = [], p_error = None\<rparr>"

definition settle :: "'a option list \<Rightarrow> nat \<Rightarrow> 'e settlement \<Rightarrow> 'e pool \<Rightarrow> 'e pool" where
  "settle items i r p =
     worker_pull items
       (p\<lparr>p_flight := remove1 i (p_flight p),
          p_error := (case r of Done \<Rightarrow> p_error p
            | Failed e \<Rightarrow> if p_error p = None then e else p_error p)\<rparr>)"

text \<open>A run: the settlements, each of a call that is in flight.\<close>

inductive pool_run :: "'a option list \<Rightarrow> int \<Rightarrow> (nat \<times> 'e settlement) list \<Rightarrow> 'e pool \<Rightarrow> bool"
  for items :: "'a option list" and limit :: int where
  start: "pool_run items limit [] (start_pool items limit)"
| settle: "pool_run items limit rs p \<Longrightarrow> i \<in> set (p_flight p) \<Longrightarrow>
    pool_run items limit (rs @ [(i, r)]) (settle items i r p)"

text \<open>\<open>Promise.all\<close> resolves when no call is in flight; the error is then thrown, if there is one.\<close>

definition pool_result :: "'e pool \<Rightarrow> 'e option option" where
  "pool_result p = (if p_flight p = [] then Some (p_error p) else None)"

inductive_cases pool_run_snocE: "pool_run items limit (rs @ [x]) p"

subsection \<open>Grouping refines its specification\<close>

text \<open>First occurrences, in order.\<close>

definition firsts :: "'a list \<Rightarrow> 'a list" where
  "firsts xs = rev (remdups (rev xs))"

lemma firsts_Nil [simp]: "firsts [] = []"
  by (simp add: firsts_def)

lemma firsts_snoc [simp]: "firsts (xs @ [x]) = (if x \<in> set xs then firsts xs else firsts xs @ [x])"
  by (simp add: firsts_def)

lemma set_firsts [simp]: "set (firsts xs) = set xs"
  by (simp add: firsts_def)

lemma distinct_firsts [simp]: "distinct (firsts xs)"
  by (simp add: firsts_def)

definition grouped :: "target list \<Rightarrow> (jstring \<times> jstring list) list" where
  "grouped ts =
     map (\<lambda>q. (q, firsts (map tg_id (filter (\<lambda>t. tg_queue t = q) ts)))) (firsts (map tg_queue ts))"

lemma map_of_grouped:
  "map_of (grouped ts) q =
   (if q \<in> tg_queue ` set ts then Some (firsts (map tg_id (filter (\<lambda>t. tg_queue t = q) ts))) else None)"
  by (auto simp: grouped_def map_of_map_restrict restrict_map_def)

lemma group_key_inj:
  assumes "32 \<notin> set (tg_queue t)" "32 \<notin> set (tg_queue u)" "group_key t = group_key u"
  shows "t = u"
proof -
  have eq: "tg_queue t @ 32 # tg_id t = tg_queue u @ 32 # tg_id u"
    using assms(3) by (simp add: group_key_def js_def)
  have "takeWhile (\<lambda>c. c \<noteq> 32) (tg_queue t @ 32 # tg_id t) = tg_queue t"
    "takeWhile (\<lambda>c. c \<noteq> 32) (tg_queue u @ 32 # tg_id u) = tg_queue u"
    using assms(1,2) by (auto simp: takeWhile_append)
  then have "tg_queue t = tg_queue u" using eq by simp
  with eq show ?thesis by (cases t; cases u) simp
qed

lemma target_eq: "tg_id t = tg_id u \<Longrightarrow> tg_queue t = tg_queue u \<Longrightarrow> t = (u :: target)"
  by (cases t; cases u) simp

lemma grouped_snoc:
  assumes "tg_id t \<notin> tg_id ` {x \<in> set ts. tg_queue x = tg_queue t}" "tg_queue t \<in> tg_queue ` set ts"
  shows "grouped (ts @ [t]) =
    map (\<lambda>(q, xs). if q = tg_queue t then (q, xs @ [tg_id t]) else (q, xs)) (grouped ts)"
proof -
  have "firsts (map tg_id (filter (\<lambda>x. tg_queue x = q) (ts @ [t]))) =
      firsts (map tg_id (filter (\<lambda>x. tg_queue x = q) ts)) @ (if q = tg_queue t then [tg_id t] else [])" for q
    using assms(1) by (cases "q = tg_queue t") simp_all
  then show ?thesis using assms(2) by (simp add: grouped_def)
qed

lemma group_loop:
  assumes "\<forall>t \<in> set ts. 32 \<notin> set (tg_queue t)"
  shows "fst (foldl group_step ([], []) ts) = grouped ts \<and>
    set (snd (foldl group_step ([], []) ts)) = group_key ` set ts"
  using assms
proof (induction ts rule: rev_induct)
  case (snoc t ts)
  obtain m seen where s: "foldl group_step ([], []) ts = (m, seen)" by fastforce
  with snoc have IH: "m = grouped ts" "set seen = group_key ` set ts" by auto
  have st: "foldl group_step ([], []) (ts @ [t]) = group_step (m, seen) t" by (simp add: s)
  have key: "group_key t \<in> set seen \<longleftrightarrow> t \<in> set ts"
    using group_key_inj snoc.prems by (auto simp: IH(2))
  show ?case
  proof (cases "t \<in> set ts")
    case True
    then have "grouped (ts @ [t]) = grouped ts"
      by (auto simp: grouped_def intro!: arg_cong [where f = "\<lambda>x. map x _"])
    with True IH key show ?thesis unfolding st by (auto simp: group_step_def)
  next
    case t: False
    show ?thesis
    proof (cases "tg_queue t \<in> tg_queue ` set ts")
      case True
      have new: "tg_id t \<notin> tg_id ` {x \<in> set ts. tg_queue x = tg_queue t}"
      proof
        assume "tg_id t \<in> tg_id ` {x \<in> set ts. tg_queue x = tg_queue t}"
        then obtain u where u: "u \<in> set ts" "tg_queue u = tg_queue t" "tg_id u = tg_id t" by auto
        then have "u = t" by (intro target_eq) simp_all
        with u(1) t show False by simp
      qed
      have "grouped (ts @ [t]) =
          map (\<lambda>(q, xs). if q = tg_queue t then (q, xs @ [tg_id t]) else (q, xs)) (grouped ts)"
        using True by (rule grouped_snoc [OF new])
      with True t IH key show ?thesis unfolding st by (auto simp: group_step_def map_of_grouped Let_def)
    next
      case False
      then have "filter (\<lambda>x. tg_queue x = tg_queue t) ts = []" unfolding filter_empty_conv by (metis imageI)
      with False have "grouped (ts @ [t]) = grouped ts @ [(tg_queue t, [tg_id t])]"
        by (auto simp: grouped_def firsts_def)
      with False t IH key show ?thesis unfolding st by (auto simp: group_step_def map_of_grouped Let_def)
    qed
  qed
qed (simp add: grouped_def)

text \<open>Grouping a selection whose queue names have no space gives, for every queue in order of first
  encounter, its ids in order of first encounter, each once: one batch request per queue, together
  naming exactly the selected tasks.\<close>

theorem groups_cover_selection:
  assumes "\<forall>t \<in> set ts. 32 \<notin> set (tg_queue t)"
  shows "groupByQueue ts = grouped ts \<and> distinct (map fst (groupByQueue ts)) \<and>
    (\<forall>q i. (\<exists>ids. (q, ids) \<in> set (groupByQueue ts) \<and> i \<in> set ids) \<longleftrightarrow>
      \<lparr>tg_queue = q, tg_id = i\<rparr> \<in> set ts)"
proof (intro conjI allI)
  show g: "groupByQueue ts = grouped ts" using group_loop [OF assms] by (simp add: groupByQueue_def)
  show "distinct (map fst (groupByQueue ts))" unfolding g by (simp add: grouped_def comp_def)
  show "(\<exists>ids. (q, ids) \<in> set (groupByQueue ts) \<and> i \<in> set ids) \<longleftrightarrow> \<lparr>tg_queue = q, tg_id = i\<rparr> \<in> set ts" for q i
  proof
    assume "\<lparr>tg_queue = q, tg_id = i\<rparr> \<in> set ts"
    then show "\<exists>ids. (q, ids) \<in> set (groupByQueue ts) \<and> i \<in> set ids"
      unfolding g by (force simp: grouped_def)
  next
    assume "\<exists>ids. (q, ids) \<in> set (groupByQueue ts) \<and> i \<in> set ids"
    then obtain t where t: "t \<in> set ts" "tg_queue t = q" "tg_id t = i" unfolding g by (auto simp: grouped_def)
    from t(2,3) have "t = \<lparr>tg_queue = q, tg_id = i\<rparr>" by (cases t) simp
    with t(1) show "\<lparr>tg_queue = q, tg_id = i\<rparr> \<in> set ts" by simp
  qed
qed

text \<open>Two different tasks whose queue and id read the same with one space between them are taken
  for one: the second is left out of the batch requests.\<close>

theorem space_in_queue_drops_task:
  assumes "group_key t = group_key u"
  shows "groupByQueue [t, u] = [(tg_queue t, [tg_id t])]"
  using assms by (simp add: groupByQueue_def group_step_def)


lemma groups_cover_selection_witness:
  "groupByQueue [\<lparr>tg_queue = js ''a'', tg_id = js ''1''\<rparr>, \<lparr>tg_queue = js ''b'', tg_id = js ''2''\<rparr>,
     \<lparr>tg_queue = js ''a'', tg_id = js ''3''\<rparr>] =
   grouped [\<lparr>tg_queue = js ''a'', tg_id = js ''1''\<rparr>, \<lparr>tg_queue = js ''b'', tg_id = js ''2''\<rparr>,
     \<lparr>tg_queue = js ''a'', tg_id = js ''3''\<rparr>]"
  by (rule groups_cover_selection [THEN conjunct1]) (simp add: js_def)

lemma space_in_queue_drops_task_witness:
  "groupByQueue [\<lparr>tg_queue = js ''a b'', tg_id = js ''c''\<rparr>, \<lparr>tg_queue = js ''a'', tg_id = js ''b c''\<rparr>] =
     [(js ''a b'', [js ''c''])]"
  using space_in_queue_drops_task [of "\<lparr>tg_queue = js ''a b'', tg_id = js ''c''\<rparr>" "\<lparr>tg_queue = js ''a'', tg_id = js ''b c''\<rparr>"]
  by (simp add: group_key_def js_def)

subsection \<open>The pool\<close>

text \<open>The indices below \<open>n\<close> that hold an item.\<close>

definition live :: "'a option list \<Rightarrow> nat \<Rightarrow> nat list" where
  "live items n = filter (\<lambda>i. items ! i \<noteq> None) [0..<min n (length items)]"

definition item_indices :: "'a option list \<Rightarrow> nat list" where
  "item_indices items = filter (\<lambda>i. items ! i \<noteq> None) [0..<length items]"

fun first_error :: "(nat \<times> 'e settlement) list \<Rightarrow> 'e option" where
  "first_error [] = None"
| "first_error ((i, Failed (Some e)) # rs) = Some e"
| "first_error (x # rs) = first_error rs"

lemma first_error_snoc:
  "first_error (rs @ [(i, r)]) =
   (case first_error rs of Some e \<Rightarrow> Some e | None \<Rightarrow> (case r of Done \<Rightarrow> None | Failed e \<Rightarrow> e))"
proof (induction rs rule: first_error.induct)
  case 1
  show ?case by (cases r; cases "case r of Failed e \<Rightarrow> e | Done \<Rightarrow> None") auto
qed simp_all

lemma live_prefix: "\<exists>rest. item_indices items = live items n @ rest"
proof -
  have "[0..<length items] = [0..<min n (length items)] @ [min n (length items)..<length items]"
    using upt_add_eq_append [of 0 "min n (length items)" "length items - min n (length items)"] by simp
  then show ?thesis unfolding item_indices_def live_def by (metis filter_append)
qed

lemma live_Suc:
  "live items (Suc i) =
   (if i < length items \<and> items ! i \<noteq> None then live items i @ [i] else live items i)"
  by (auto simp: live_def min_def not_less_eq_eq le_Suc_eq)

lemma live_all: "length items \<le> n \<Longrightarrow> live items n = item_indices items"
  by (simp add: live_def item_indices_def)

lemma pull_live:
  "case pull items i of
     (None, n) \<Rightarrow> live items i = item_indices items \<and> live items n = item_indices items
   | (Some j, n) \<Rightarrow> live items n = live items i @ [j]"
proof (induction items i rule: pull.induct)
  case (1 items i)
  then show ?case
    by (subst pull.simps) (auto simp: live_Suc live_all split: prod.splits option.splits if_splits)
qed

definition pool_ok :: "'a option list \<Rightarrow> nat \<Rightarrow> (nat \<times> 'e settlement) list \<Rightarrow> 'e pool \<Rightarrow> bool" where
  "pool_ok items k rs p \<longleftrightarrow>
     p_called p = live items (p_next p) \<and>
     mset (p_flight p) + mset (map fst rs) = mset (p_called p) \<and>
     length (p_flight p) \<le> k \<and>
     (length (p_flight p) < k \<longrightarrow> p_called p = item_indices items) \<and>
     p_error p = first_error rs"

lemma worker_pull_ok:
  assumes "pool_ok items k rs p"
  shows "pool_ok items (Suc k) rs (worker_pull items p)"
proof (cases "pull items (p_next p)")
  case (Pair j n)
  note pl = pull_live [of items "p_next p", unfolded Pair]
  show ?thesis
  proof (cases j)
    case None
    with Pair pl assms show ?thesis by (auto simp: pool_ok_def worker_pull_def)
  next
    case (Some i)
    obtain rest where "item_indices items = live items n @ rest" using live_prefix by blast
    with pl Some have "live items (p_next p) \<noteq> item_indices items" by auto
    with assms have "length (p_flight p) = k" by (auto simp: pool_ok_def)
    with Pair pl Some assms show ?thesis by (auto simp: pool_ok_def worker_pull_def)
  qed
qed

lemma settle_ok:
  assumes "pool_ok items (Suc k) rs p" "i \<in> set (p_flight p)"
  shows "pool_ok items (Suc k) (rs @ [(i, r)]) (settle items i r p)"
proof -
  let ?p = "p\<lparr>p_flight := remove1 i (p_flight p),
      p_error := (case r of Done \<Rightarrow> p_error p | Failed e \<Rightarrow> if p_error p = None then e else p_error p)\<rparr>"
  have m: "mset (remove1 i (p_flight p)) + add_mset i M = mset (p_flight p) + M" for M
    using assms(2) by simp
  have l: "length (p_flight p) = Suc (length (remove1 i (p_flight p)))"
    using assms(2) length_pos_if_in_set [of i "p_flight p"] by (simp add: length_remove1)
  have e: "p_error ?p = first_error (rs @ [(i, r)])"
    using assms(1) by (cases r; cases "first_error rs") (simp_all add: pool_ok_def first_error_snoc)
  have "mset (p_flight ?p) + mset (map fst (rs @ [(i, r)])) = mset (p_called ?p)"
    using assms(1) m [of "mset (map fst rs)"] by (simp add: pool_ok_def)
  then have "pool_ok items k (rs @ [(i, r)]) ?p"
    using assms(1) l e unfolding pool_ok_def by auto
  then show ?thesis unfolding settle_def by (rule worker_pull_ok)
qed

lemma start_ok: "pool_ok items (worker_count items limit) [] (start_pool items limit)"
proof -
  have "pool_ok items k [] ((worker_pull items ^^ k) \<lparr>p_next = 0, p_flight = [], p_called = [], p_error = None\<rparr>)"
    for k :: nat
  proof (induction k)
    case 0
    then show ?case by (simp add: pool_ok_def live_def)
  next
    case (Suc k)
    then show ?case by (simp add: worker_pull_ok)
  qed
  then show ?thesis by (simp add: start_pool_def)
qed

lemma run_ok: "pool_run items limit rs p \<Longrightarrow> pool_ok items (worker_count items limit) rs p"
proof (induction rule: pool_run.induct)
  case start
  show ?case by (rule start_ok)
next
  case (settle rs p i r)
  have "worker_count items limit = Suc (worker_count items limit - 1)" by (simp add: worker_count_def)
  with settle show ?case using settle_ok [of items "worker_count items limit - 1" rs p i r] by simp
qed

text \<open>C31. However the calls settle, at most \<open>max(1, limit)\<close> are in flight; they are made in the order of
  the items, each item once; and a call is settled or in flight, never lost.\<close>

theorem pool_is_bounded:
  assumes "pool_run items limit rs p"
  shows "int (length (p_flight p)) \<le> max 1 limit \<and>
    (\<exists>rest. item_indices items = p_called p @ rest) \<and> distinct (p_called p) \<and>
    mset (p_flight p) + mset (map fst rs) = mset (p_called p)"
proof -
  note ok = run_ok [OF assms, unfolded pool_ok_def]
  have "int (worker_count items limit) \<le> max 1 limit"
    by (auto simp: worker_count_def max_def min_def)
  moreover have "distinct (p_called p)" using ok by (simp add: live_def)
  ultimately show ?thesis using ok live_prefix [of items "p_next p"] by auto
qed

text \<open>C30. Every run ends: it takes exactly one settlement per item, a run that has not ended can go on,
  and when it ends every item was called, and the first error settled, if any, is thrown.\<close>

theorem pool_runs_all_items:
  assumes "pool_run items limit rs p"
  shows "length rs \<le> length (item_indices items) \<and>
    (pool_result p = None \<longleftrightarrow> length rs < length (item_indices items)) \<and>
    (pool_result p = None \<longleftrightarrow> (\<exists>i. \<forall>r. pool_run items limit (rs @ [(i, r)]) (settle items i r p))) \<and>
    (pool_result p \<noteq> None \<longrightarrow>
      p_called p = item_indices items \<and> mset (map fst rs) = mset (item_indices items) \<and>
      pool_result p = Some (first_error rs))"
proof -
  note ok = run_ok [OF assms, unfolded pool_ok_def]
  obtain rest where rest: "item_indices items = p_called p @ rest"
    using ok live_prefix [of items "p_next p"] by auto
  have len: "length (p_flight p) + length rs = length (p_called p)"
    using ok by (metis length_map size_mset size_union)
  have pos: "0 < worker_count items limit" by (simp add: worker_count_def)
  have all: "p_flight p = [] \<Longrightarrow> p_called p = item_indices items" using ok pos by (metis list.size(3))
  have step: "(\<exists>i. \<forall>r. pool_run items limit (rs @ [(i, r)]) (settle items i r p)) \<longleftrightarrow> p_flight p \<noteq> []"
  proof
    assume "p_flight p \<noteq> []"
    then have "hd (p_flight p) \<in> set (p_flight p)" by simp
    then show "\<exists>i. \<forall>r. pool_run items limit (rs @ [(i, r)]) (settle items i r p)"
      using pool_run.settle [OF assms] by blast
  next
    assume "\<exists>i. \<forall>r. pool_run items limit (rs @ [(i, r)]) (settle items i r p)"
    then obtain i q where "pool_run items limit (rs @ [(i, Done)]) q" by blast
    then have q: "pool_ok items (worker_count items limit) (rs @ [(i, Done)]) q" by (rule run_ok)
    then have "size (mset (p_flight q) + mset (map fst (rs @ [(i, Done)]))) = size (mset (p_called q))"
      unfolding pool_ok_def by simp
    then have "length (rs @ [(i, Done)]) \<le> length (p_called q)" by simp
    moreover have "p_called q = live items (p_next q)" using q by (simp add: pool_ok_def)
    moreover have "length (live items (p_next q)) \<le> length (item_indices items)"
      using live_prefix [of items "p_next q"] by auto
    ultimately have "length rs < length (item_indices items)" by simp
    then show "p_flight p \<noteq> []" using all len by auto
  qed
  have "length rs \<le> length (item_indices items)" using rest len by simp
  moreover have "p_flight p \<noteq> [] \<longleftrightarrow> length rs < length (item_indices items)"
  proof (cases "p_flight p = []")
    case True
    with rest len all show ?thesis by simp
  next
    case False
    then have "0 < length (p_flight p)" by simp
    then have "length rs < length (item_indices items)" using len unfolding rest length_append by linarith
    with False show ?thesis by simp
  qed
  moreover have "p_flight p = [] \<Longrightarrow> mset (map fst rs) = mset (p_called p)" using ok by simp
  moreover have "p_error p = first_error rs" using ok by simp
  ultimately show ?thesis using all unfolding step by (auto simp: pool_result_def)
qed


text \<open>Three slots, one of them a hole, two workers: the second item fails first.\<close>

definition sample_items :: "nat option list" where
  "sample_items = [Some 10, None, Some 12]"

definition sample_run :: "(nat \<times> nat settlement) list" where
  "sample_run = [(2, Failed (Some 7)), (0, Done)]"

definition sample_end :: "nat pool" where
  "sample_end = settle sample_items 0 Done (settle sample_items 2 (Failed (Some 7)) (start_pool sample_items 2))"

lemma sample_pool:
  "p_flight (start_pool sample_items 2) = [0, 2]" "p_flight (settle sample_items 2 r (start_pool sample_items 2)) = [0]"
  "p_flight sample_end = []"
  by (simp_all add: sample_items_def sample_end_def settle_def start_pool_def worker_count_def numeral_2_eq_2
      worker_pull_def pull.simps)

lemma sample_pool_run: "pool_run sample_items 2 sample_run sample_end"
proof -
  have "pool_run sample_items 2 ([] @ [(2, Failed (Some 7))])
      (settle sample_items 2 (Failed (Some 7)) (start_pool sample_items 2))"
    by (rule pool_run.settle [OF pool_run.start]) (simp add: sample_pool)
  from pool_run.settle [OF this, of 0 Done] show ?thesis
    by (simp add: sample_pool sample_run_def sample_end_def)
qed

lemma pool_is_bounded_witness: "mset (p_called sample_end) = {#0, 2#} \<and> distinct (p_called sample_end)"
  using pool_is_bounded [OF sample_pool_run] by (simp add: sample_pool sample_run_def add_mset_commute)

lemma pool_runs_all_items_witness:
  "pool_run sample_items 2 sample_run sample_end \<and> pool_result sample_end = Some (Some 7)"
  using pool_runs_all_items [OF sample_pool_run] sample_pool_run
  by (simp add: pool_result_def sample_pool sample_run_def)

end
