(* ===== verification/Refcount.thy ===== *)
theory Refcount
  imports Prelude
begin

text \<open>
  The contract of a resource shared by reference counting: \<open>acquire\<close> hands out a release function,
  releasing twice does nothing, and the count is the number of handles not yet released. The
  overlay mute of \<open>src/ui/src/lib/keymap.ts\<close> and the event stream of
  \<open>src/ui/src/hooks/useJobsEvents.ts\<close> are its two providers.

  A handle is the index of its release function; \<open>flags\<close> are the \<open>released\<close> variables the release
  functions close over.
\<close>

definition holders :: "bool list \<Rightarrow> nat set" where
  "holders flags = {h. h < length flags \<and> \<not> flags ! h}"

lemma finite_holders [simp]: "finite (holders flags)"
  by (simp add: holders_def)

lemma holders_acquired: "holders (flags @ [False]) = insert (length flags) (holders flags)"
  by (auto simp: holders_def nth_append)

lemma holders_released: "holders (flags[h := True]) = holders flags - {h}"
  by (cases "h < length flags") (auto simp: holders_def nth_list_update split: if_splits)

locale refcounted =
  fixes count :: "'s \<Rightarrow> int"
    and flags :: "'s \<Rightarrow> bool list"
    and acquire :: "'s \<Rightarrow> 's"
    and release :: "nat \<Rightarrow> 's \<Rightarrow> 's"
  assumes count_acquire: "count (acquire s) = count s + 1"
    and flags_acquire: "flags (acquire s) = flags s @ [False]"
    and count_release: "h \<in> holders (flags s) \<Longrightarrow> 0 < count s \<Longrightarrow> count (release h s) = count s - 1"
    and flags_release: "h \<in> holders (flags s) \<Longrightarrow> flags (release h s) = (flags s)[h := True]"
    and release_again: "h \<notin> holders (flags s) \<Longrightarrow> release h s = s"
begin

definition balanced :: "'s \<Rightarrow> bool" where
  "balanced s \<longleftrightarrow> count s = int (card (holders (flags s)))"

lemma balanced_acquire: "balanced s \<Longrightarrow> balanced (acquire s)"
proof -
  assume "balanced s"
  moreover have "length (flags s) \<notin> holders (flags s)" by (simp add: holders_def)
  ultimately show ?thesis by (simp add: balanced_def count_acquire flags_acquire holders_acquired)
qed

lemma held_pos: "balanced s \<Longrightarrow> h \<in> holders (flags s) \<Longrightarrow> 0 < count s"
  by (auto simp: balanced_def card_gt_0_iff)

lemma balanced_release: "balanced s \<Longrightarrow> balanced (release h s)"
proof (cases "h \<in> holders (flags s)")
  case True
  assume b: "balanced s"
  have "0 < card (holders (flags s))" using True by (auto simp: card_gt_0_iff)
  then show ?thesis
    using b True held_pos [OF b True]
    by (simp add: balanced_def count_release flags_release holders_released)
qed (simp add: release_again)

lemma zero_iff: "balanced s \<Longrightarrow> count s = 0 \<longleftrightarrow> holders (flags s) = {}"
  by (simp add: balanced_def)

end

end
