(* ===== verification/Keymap.thy ===== *)
theory Keymap
  imports Refcount
begin

text \<open>
  \<open>src/ui/src/lib/keymap.ts\<close>: normalising a key event to a chord, the mute that modal surfaces hold, and
  the dispatch of a chord to its binding. \<open>toLowerCase\<close> follows the Unicode tables of the browser and
  is the parameter \<open>lower\<close>. A binding is modelled by its two options; what it triggers is outside.
\<close>

subsection \<open>Events\<close>

record key_event =
  ke_key :: jstring
  ke_alt :: bool
  ke_meta :: bool
  ke_ctrl :: bool
  ke_shift :: bool
  ke_defaultPrevented :: bool
  ke_target :: "(jstring \<times> bool) option"

text \<open>A target that is an HTML element is its tag name and \<open>isContentEditable\<close>; \<open>None\<close> is any other.\<close>

definition isTypingContext :: "(jstring \<times> bool) option \<Rightarrow> bool" where
  "isTypingContext target = (case target of
     None \<Rightarrow> False
   | Some (tag, editable) \<Rightarrow>
       if tag = js ''INPUT'' \<or> tag = js ''TEXTAREA'' \<or> tag = js ''SELECT'' then True else editable)"

definition keyOf :: "(jstring \<Rightarrow> jstring) \<Rightarrow> key_event \<Rightarrow> jstring" where
  "keyOf lower e =
     (let k = ke_key e
      in if ke_alt e then []
         else if ke_meta e \<or> ke_ctrl e
         then (if length k = 1 then js ''mod+'' @ lower k else [])
         else if length k = 1
         then (if ke_shift e \<and> 65 \<le> hd k \<and> hd k \<le> 90 then js ''shift+'' @ lower k else k)
         else lower k)"

subsection \<open>Overlay mute\<close>

record mute_state =
  overlayMuteCount :: int
  overlayAttr :: bool
  muteReleased :: "bool list"

definition mute_init :: mute_state where
  "mute_init = \<lparr>overlayMuteCount = 0, overlayAttr = False, muteReleased = []\<rparr>"

definition acquireOverlayMute :: "mute_state \<Rightarrow> mute_state" where
  "acquireOverlayMute s =
     s\<lparr>overlayMuteCount := overlayMuteCount s + 1, overlayAttr := True, muteReleased := muteReleased s @ [False]\<rparr>"

text \<open>The function the \<open>h\<close>-th call of \<open>acquireOverlayMute\<close> returned.\<close>

definition releaseOverlayMute :: "nat \<Rightarrow> mute_state \<Rightarrow> mute_state" where
  "releaseOverlayMute h s =
     (if h \<ge> length (muteReleased s) then s
      else if muteReleased s ! h then s
      else let s = s\<lparr>muteReleased := (muteReleased s)[h := True], overlayMuteCount := overlayMuteCount s - 1\<rparr>
           in if overlayMuteCount s \<le> 0 then s\<lparr>overlayMuteCount := 0, overlayAttr := False\<rparr> else s)"

datatype mute_event = Open | Close nat

primrec mute_step :: "mute_state \<Rightarrow> mute_event \<Rightarrow> mute_state" where
  "mute_step s Open = acquireOverlayMute s"
| "mute_step s (Close h) = releaseOverlayMute h s"

subsection \<open>Dispatch\<close>

record key_binding =
  kb_allowInInput :: bool
  kb_allowInOverlay :: bool

text \<open>The binding a \<open>keydown\<close> fires, if any.\<close>

definition dispatchKey ::
  "(jstring \<Rightarrow> jstring) \<Rightarrow> mute_state \<Rightarrow> (jstring \<rightharpoonup> key_binding) \<Rightarrow> key_event \<Rightarrow> jstring option" where
  "dispatchKey lower s keymap e =
     (if ke_defaultPrevented e then None
      else let chord = keyOf lower e
           in if chord = [] then None
              else case keymap chord of
                None \<Rightarrow> None
              | Some b \<Rightarrow>
                  if \<not> kb_allowInInput b \<and> isTypingContext (ke_target e) then None
                  else if \<not> kb_allowInOverlay b \<and> overlayAttr s then None
                  else Some chord)"

subsection \<open>Properties\<close>

interpretation mute: refcounted overlayMuteCount muteReleased acquireOverlayMute releaseOverlayMute
  by unfold_locales (auto simp: acquireOverlayMute_def releaseOverlayMute_def holders_def Let_def)

definition mute_inv :: "mute_state \<Rightarrow> bool" where
  "mute_inv s \<longleftrightarrow> mute.balanced s \<and> overlayAttr s = (0 < overlayMuteCount s)"

lemma mute_step_inv: "mute_inv s \<Longrightarrow> mute_inv (mute_step s e)"
proof (cases e)
  case Open
  assume "mute_inv s"
  then have "0 \<le> overlayMuteCount s" by (simp add: mute_inv_def mute.balanced_def)
  with Open \<open>mute_inv s\<close> show ?thesis
    using mute.balanced_acquire by (simp add: mute_inv_def) (simp add: acquireOverlayMute_def)
next
  case (Close h)
  assume "mute_inv s"
  with Close show ?thesis
    using mute.balanced_release [of s h]
    by (auto simp: mute_inv_def) (auto simp: releaseOverlayMute_def Let_def split: if_splits)
qed

lemma mute_run_inv: "mute_inv (foldl mute_step mute_init es)"
proof (induction es rule: rev_induct)
  case Nil
  show ?case by (simp add: mute_inv_def mute_init_def mute.balanced_def holders_def)
qed (simp add: mute_step_inv)

text \<open>However dialogs, drawers and palettes overlap and however often each release function is called,
  the page is muted exactly while one of them has not been released; so a page binding that did not
  opt in never fires behind an open one, and none is muted once all are closed.\<close>

theorem overlay_mutes_page:
  "overlayAttr (foldl mute_step mute_init es) \<longleftrightarrow> holders (muteReleased (foldl mute_step mute_init es)) \<noteq> {}"
  using mute_run_inv [of es] mute.zero_iff [of "foldl mute_step mute_init es"]
  by (auto simp: mute_inv_def mute.balanced_def card_gt_0_iff)

text \<open>A chord fires its binding exactly when no handler prevented it, and the typing context and the
  overlay either are absent or are allowed by the binding; a chord with Alt never fires.\<close>

theorem chord_fires_exactly:
  "dispatchKey lower s keymap e = Some chord \<longleftrightarrow>
   \<not> ke_defaultPrevented e \<and> chord = keyOf lower e \<and> chord \<noteq> [] \<and> \<not> ke_alt e \<and>
   (\<exists>b. keymap chord = Some b \<and> \<not> (isTypingContext (ke_target e) \<and> \<not> kb_allowInInput b) \<and>
     \<not> (overlayAttr s \<and> \<not> kb_allowInOverlay b))"
proof -
  have alt: "ke_alt e \<Longrightarrow> keyOf lower e = []" by (simp add: keyOf_def)
  show ?thesis
  proof (cases "keymap (keyOf lower e)")
    case None
    then show ?thesis by (auto simp: dispatchKey_def Let_def)
  next
    case (Some b)
    with alt show ?thesis by (simp add: dispatchKey_def Let_def) blast
  qed
qed

end
