(* ===== verification/Aql.thy ===== *)
theory Aql
  imports Prelude
begin

text \<open>
  \<open>src/ui/src/lib/aql.ts\<close>: the query text of the task console. The text is the single source of
  truth; facet chips, state pills and pivots edit it by clauses. A loop over an index into the
  string is a recursion over the rest of the string.

  The lemmas show that the tokenizer splits the text without losing a character, that rebuilding
  and tokenizing again gives the tokens back, and hence what each editor does to the clauses. The
  editors see the text through the contract \<open>token_text\<close> only.
\<close>

subsection \<open>Tokenizer\<close>

definition blank :: "nat \<Rightarrow> bool" where
  "blank c \<longleftrightarrow> c = 32 \<or> c = 9"

text \<open>The inner loop: the token at the start of the text, and what follows it.\<close>

fun scan_token :: "bool \<Rightarrow> jstring \<Rightarrow> jstring \<times> jstring" where
  "scan_token inQuote [] = ([], [])"
| "scan_token inQuote (c # cs) =
     (if c = 34 then (let (t, r) = scan_token (\<not> inQuote) cs in (c # t, r))
      else if blank c \<and> \<not> inQuote then ([], c # cs)
      else (let (t, r) = scan_token inQuote cs in (c # t, r)))"

lemma scan_token_append: "scan_token b s = (t, r) \<Longrightarrow> s = t @ r"
  by (induction b s arbitrary: t r rule: scan_token.induct)
    (auto simp: Let_def split: if_splits prod.splits)

lemma scan_token_nonempty:
  "\<not> blank c \<Longrightarrow> scan_token False (c # cs) = (t, r) \<Longrightarrow> t \<noteq> []"
  by (auto simp: Let_def split: if_splits prod.splits)

function tokens_from :: "nat \<Rightarrow> jstring \<Rightarrow> (jstring \<times> nat) list" where
  "tokens_from i [] = []"
| "tokens_from i (c # cs) =
     (if blank c then tokens_from (Suc i) cs
      else let (t, r) = scan_token False (c # cs) in (t, i) # tokens_from (i + length t) r)"
  by pat_completeness auto
termination
proof (relation "measure (\<lambda>(i, s). length s)")
  fix i c cs t r x
  assume "\<not> blank c" "x = scan_token False (c # cs)" "(t, r) = x"
  then have "c # cs = t @ r" "t \<noteq> []"
    using scan_token_append scan_token_nonempty by metis+
  then have "length (c # cs) = length t + length r" "length t > 0"
    by (metis length_append) (use \<open>t \<noteq> []\<close> in simp)
  then show "((i + length t, r), (i, c # cs)) \<in> measure (\<lambda>(i, s). length s)"
    by simp
qed simp_all

definition tokenizeAql :: "jstring \<Rightarrow> (jstring \<times> nat) list" where
  "tokenizeAql q = tokens_from 0 q"

subsection \<open>Clauses\<close>

record aql_clause =
  cl_field :: jstring
  cl_op :: jstring
  cl_value :: jstring
  cl_raw :: jstring
  cl_pos :: nat

definition FLAGS :: "jstring list" where
  "FLAGS = [js ''past_due'', js ''orphaned'']"

definition OPS :: "jstring list" where
  "OPS = [js ''>='', js ''<='', js ''='', js ''~'', js ''>'', js ''<'']"

definition unquote :: "jstring \<Rightarrow> jstring" where
  "unquote v =
     (if length v \<ge> 2 \<and> starts_with [34] v \<and> ends_with [34] v then butlast (tl v) else v)"

definition find_op :: "jstring \<Rightarrow> jstring option" where
  "find_op s = List.find (\<lambda>op. starts_with op s) OPS"

text \<open>
  The operator loop over a token, \<open>field\<close> being the text before the index: the field, the operator
  and the rest of the token, unless the token has no operator outside quotes or starts with one.
\<close>

fun split_clause :: "bool \<Rightarrow> jstring \<Rightarrow> jstring \<Rightarrow> (jstring \<times> jstring \<times> jstring) option" where
  "split_clause inQuote field [] = None"
| "split_clause inQuote field (c # cs) =
     (if c = 34 then split_clause (\<not> inQuote) (field @ [c]) cs
      else if inQuote then split_clause inQuote (field @ [c]) cs
      else case find_op (c # cs) of
        Some op' \<Rightarrow> if field \<noteq> [] then Some (field, op', drop (length op') (c # cs)) else None
      | None \<Rightarrow> split_clause inQuote (field @ [c]) cs)"

definition parse_clause :: "jstring \<times> nat \<Rightarrow> aql_clause" where
  "parse_clause t = (case t of (text, pos) \<Rightarrow>
     if text \<in> set FLAGS then \<lparr>cl_field = text, cl_op = [], cl_value = [], cl_raw = text, cl_pos = pos\<rparr>
     else case split_clause False [] text of
       Some (field, op', rest) \<Rightarrow>
         \<lparr>cl_field = field, cl_op = op', cl_value = unquote rest, cl_raw = text, cl_pos = pos\<rparr>
     | None \<Rightarrow> \<lparr>cl_field = [], cl_op = [], cl_value = unquote text, cl_raw = text, cl_pos = pos\<rparr>)"

definition parseAqlClauses :: "jstring \<Rightarrow> aql_clause list" where
  "parseAqlClauses q = map parse_clause (tokenizeAql q)"

text \<open>\<open>/^[A-Za-z_][A-Za-z0-9_.]*(>=|<=|=|~|>|<)/\<close>: the class excludes every operator character.\<close>

definition field_start :: "nat \<Rightarrow> bool" where
  "field_start c \<longleftrightarrow> 65 \<le> c \<and> c \<le> 90 \<or> 97 \<le> c \<and> c \<le> 122 \<or> c = 95"

definition field_char :: "nat \<Rightarrow> bool" where
  "field_char c \<longleftrightarrow> field_start c \<or> is_digit c \<or> c = 46"

definition clause_shaped :: "jstring \<Rightarrow> bool" where
  "clause_shaped s \<longleftrightarrow> s \<noteq> [] \<and> field_start (hd s) \<and> find_op (dropWhile field_char s) \<noteq> None"

definition isAqlQuery :: "jstring \<Rightarrow> bool" where
  "isAqlQuery q \<longleftrightarrow> list_ex (\<lambda>t. clause_shaped (fst t) \<or> fst t \<in> set FLAGS) (tokenizeAql q)"

definition quoteAqlValue :: "jstring \<Rightarrow> jstring" where
  "quoteAqlValue v = (if list_ex is_ws v then [34] @ v @ [34] else v)"

definition getClause :: "jstring \<Rightarrow> jstring \<Rightarrow> aql_clause option" where
  "getClause q field = List.find (\<lambda>c. cl_field c = field) (parseAqlClauses q)"

definition rebuild :: "jstring list \<Rightarrow> jstring" where
  "rebuild tokens = join (js '' '') (filter (\<lambda>t. t \<noteq> []) tokens)"

subsection \<open>Editing clauses\<close>

text \<open>
  The \<open>map\<close> of \<open>setClause\<close> and \<open>applyTimeChip\<close> with its flag \<open>replaced\<close>: the first clause of the
  field becomes \<open>token\<close>, later ones the empty string. The flag after the loop says whether one was
  found.
\<close>

fun replace_first :: "jstring \<Rightarrow> jstring \<Rightarrow> bool \<Rightarrow> aql_clause list \<Rightarrow> jstring list \<times> bool" where
  "replace_first field token replaced [] = ([], replaced)"
| "replace_first field token replaced (c # cs) =
     (if cl_field c \<noteq> field
      then (let (ts, b) = replace_first field token replaced cs in (cl_raw c # ts, b))
      else if replaced
      then (let (ts, b) = replace_first field token True cs in ([] # ts, b))
      else (let (ts, b) = replace_first field token True cs in (token # ts, b)))"

definition setClause :: "jstring \<Rightarrow> jstring \<Rightarrow> jstring \<Rightarrow> jstring \<Rightarrow> jstring" where
  "setClause q field op' value =
     (let next' = quoteAqlValue value;
          token = (if value = [] then [] else field @ op' @ next');
          (mapped, replaced) = replace_first field token False (parseAqlClauses q);
          tokens = filter (\<lambda>t. t \<noteq> []) mapped;
          tokens = (if \<not> replaced \<and> value \<noteq> [] then tokens @ [field @ op' @ next'] else tokens)
      in rebuild tokens)"

definition removeClause :: "jstring \<Rightarrow> jstring \<Rightarrow> jstring option \<Rightarrow> jstring" where
  "removeClause q field value =
     rebuild (map cl_raw (filter
       (\<lambda>c. \<not> (cl_field c = field \<and> (case value of None \<Rightarrow> True | Some v \<Rightarrow> cl_value c = v)))
       (parseAqlClauses q)))"

subsection \<open>Metadata clauses\<close>

record meta_pair =
  mp_key :: jstring
  mp_value :: jstring

definition metaClausesOf :: "jstring \<Rightarrow> meta_pair list" where
  "metaClausesOf q =
     map (\<lambda>c. \<lparr>mp_key = drop 5 (cl_field c), mp_value = cl_value c\<rparr>)
       (filter (\<lambda>c. starts_with (js ''meta.'') (cl_field c) \<and> length (cl_field c) > 5 \<and> cl_op c = js ''='')
         (parseAqlClauses q))"

definition hasMetaClause :: "jstring \<Rightarrow> jstring \<Rightarrow> jstring \<Rightarrow> bool" where
  "hasMetaClause q key value \<longleftrightarrow> list_ex (\<lambda>p. mp_key p = key \<and> mp_value p = value) (metaClausesOf q)"

definition addMetaClause :: "jstring \<Rightarrow> jstring \<Rightarrow> jstring \<Rightarrow> jstring" where
  "addMetaClause q key value =
     (if hasMetaClause q key value then q
      else let token = js ''meta.'' @ key @ js ''='' @ quoteAqlValue value
           in if q = [] then token else q @ js '' '' @ token)"

definition removeMetaClause :: "jstring \<Rightarrow> jstring \<Rightarrow> jstring \<Rightarrow> jstring" where
  "removeMetaClause q key value =
     rebuild (map cl_raw (filter
       (\<lambda>c. \<not> (cl_field c = js ''meta.'' @ key \<and> cl_op c = js ''='' \<and> cl_value c = value))
       (parseAqlClauses q)))"

subsection \<open>Legacy URLs and rejections\<close>

text \<open>\<open>queue\<close>, \<open>state\<close> and \<open>freeText\<close> may be absent; an absent \<open>meta\<close> is the empty list.\<close>

record legacy_parts =
  lp_queue :: "jstring option"
  lp_state :: "jstring option"
  lp_meta :: "meta_pair list"
  lp_freeText :: "jstring option"

definition aqlFromLegacy :: "legacy_parts \<Rightarrow> jstring" where
  "aqlFromLegacy parts =
     (let tokens =
            (case lp_queue parts of
               Some q \<Rightarrow> if q \<noteq> [] \<and> q \<noteq> js ''all'' then [js ''queue='' @ quoteAqlValue q] else []
             | None \<Rightarrow> []) @
            (case lp_state parts of
               Some s \<Rightarrow> if s \<noteq> [] then [js ''state='' @ s] else []
             | None \<Rightarrow> []) @
            map (\<lambda>p. js ''meta.'' @ mp_key p @ js ''='' @ quoteAqlValue (mp_value p)) (lp_meta parts);
          free = trim (case lp_freeText parts of Some t \<Rightarrow> t | None \<Rightarrow> [])
      in if free \<noteq> [] then
           (if tokens = [] then free
            else join (js '' '') (tokens @ [if list_ex is_ws free then [34] @ free @ [34] else free]))
         else join (js '' '') tokens)"

definition caretLine :: "jstring \<Rightarrow> int \<Rightarrow> jstring" where
  "caretLine query position =
     (let p = max 0 (min position (max 0 (int (length query))))
      in replicate (nat p) 32 @ js ''^'')"

subsection \<open>What the tokenizer gives\<close>

text \<open>The texts of the tokens, in order.\<close>

definition token_texts :: "jstring \<Rightarrow> jstring list" where
  "token_texts q = map fst (tokenizeAql q)"

text \<open>Whether a scan that starts in the given state ends inside a quote.\<close>

fun ends_quoted :: "bool \<Rightarrow> jstring \<Rightarrow> bool" where
  "ends_quoted b [] = b"
| "ends_quoted b (c # cs) = ends_quoted (if c = 34 then \<not> b else b) cs"

lemma ends_quoted_append [simp]: "ends_quoted b (s @ t) = ends_quoted (ends_quoted b s) t"
  by (induction b s rule: ends_quoted.induct) auto

text \<open>A complete token: not empty, scanned as one, every quote closed.\<close>

definition token :: "jstring \<Rightarrow> bool" where
  "token t \<longleftrightarrow> t \<noteq> [] \<and> scan_token False t = (t, []) \<and> \<not> ends_quoted False t"

lemma scan_token_rest: "scan_token b s = (t, r) \<Longrightarrow> r \<noteq> [] \<Longrightarrow> blank (hd r) \<and> \<not> ends_quoted b t"
  by (induction b s arbitrary: t r rule: scan_token.induct)
    (auto simp: Let_def split: if_splits prod.splits)

lemma scan_token_idem: "scan_token b s = (t, r) \<Longrightarrow> scan_token b t = (t, [])"
  by (induction b s arbitrary: t r rule: scan_token.induct)
    (auto simp: Let_def split: if_splits prod.splits)

lemma scan_token_then_blank:
  "scan_token b t = (t, []) \<Longrightarrow> \<not> ends_quoted b t \<Longrightarrow> blank c \<Longrightarrow> scan_token b (t @ c # r) = (t, c # r)"
  by (induction b t rule: scan_token.induct)
    (auto simp: Let_def blank_def split: if_splits prod.splits)

lemma token_not_blank: "token t \<Longrightarrow> \<exists>c cs. t = c # cs \<and> \<not> blank c"
  by (cases t) (auto simp: token_def blank_def split: if_splits)

text \<open>A text whose quotes are closed has complete tokens only.\<close>

lemma tokens_complete:
  "\<not> ends_quoted False s \<Longrightarrow> list_all token (map fst (tokens_from i s))"
proof (induction i s rule: tokens_from.induct)
  case (2 i c cs)
  show ?case
  proof (cases "blank c")
    case True
    with 2 show ?thesis by (auto simp: blank_def)
  next
    case False
    obtain t r where tr: "scan_token False (c # cs) = (t, r)" by fastforce
    have s: "c # cs = t @ r" by (rule scan_token_append [OF tr])
    have quoted: "\<not> ends_quoted False t"
    proof (cases "r = []")
      case True
      with s 2(3) show ?thesis by simp
    qed (use scan_token_rest [OF tr] in simp)
    have "ends_quoted False (t @ r) = ends_quoted False r" using quoted by simp
    with 2(3) s have "\<not> ends_quoted False r" by simp
    with 2(2) [OF False tr [symmetric] refl] False tr show ?thesis
      using scan_token_idem [OF tr] scan_token_nonempty [OF False tr] quoted
      by (simp add: token_def del: scan_token.simps)
  qed
qed simp

text \<open>Tokenizing a joined list of complete tokens gives the list back.\<close>

lemma tokens_from_join:
  "list_all token ts \<Longrightarrow> map fst (tokens_from i (join (js '' '') ts)) = ts"
proof (induction ts arbitrary: i)
  case (Cons x ts)
  then have x: "token x" by simp
  from token_not_blank [OF x] obtain c cs where c: "x = c # cs" "\<not> blank c" by blast
  have sp: "js '' '' = [32]" by (simp add: js_def)
  show ?case
  proof (cases ts)
    case Nil
    with c x show ?thesis by (simp add: token_def del: scan_token.simps)
  next
    case (Cons y ys)
    have "scan_token False (x @ 32 # join [32] ts) = (x, 32 # join [32] ts)"
      using x by (intro scan_token_then_blank) (simp_all add: token_def blank_def)
    moreover have "map fst (tokens_from (Suc (i + length x)) (join [32] ts)) = ts"
      using Cons.IH Cons.prems sp by simp
    moreover have "join [32] (x # ts) = x @ 32 # join [32] ts" using Cons by simp
    ultimately show ?thesis using c
      by (simp add: sp blank_def del: scan_token.simps join.simps)
  qed
qed simp

text \<open>Positions do not matter to the texts.\<close>

lemma tokens_from_texts: "map fst (tokens_from i s) = map fst (tokens_from j s)"
proof (induction i s arbitrary: j rule: tokens_from.induct)
  case (2 i c cs)
  show ?case
  proof (cases "blank c")
    case True
    with 2(1) [OF True, of "Suc j"] show ?thesis by simp
  next
    case False
    obtain t r where tr: "scan_token False (c # cs) = (t, r)" by fastforce
    with 2(2) [OF False tr [symmetric] refl, of "j + length t"] False show ?thesis
      by (simp del: scan_token.simps)
  qed
qed simp

lemma scan_token_more:
  "scan_token b s = (t, r) \<Longrightarrow> r \<noteq> [] \<Longrightarrow> scan_token b (s @ x) = (t, r @ x)"
  by (induction b s arbitrary: t r rule: scan_token.induct)
    (auto simp: Let_def split: if_splits prod.splits)

lemma tokens_from_append:
  "\<not> ends_quoted False s \<Longrightarrow>
   map fst (tokens_from i (s @ 32 # x)) = map fst (tokens_from i s) @ map fst (tokens_from j x)"
proof (induction i s rule: tokens_from.induct)
  case (1 i)
  then show ?case using tokens_from_texts by (simp add: blank_def)
next
  case (2 i c cs)
  show ?case
  proof (cases "blank c")
    case True
    with 2 show ?thesis by (auto simp: blank_def)
  next
    case False
    obtain t r where tr: "scan_token False (c # cs) = (t, r)" by fastforce
    have s: "c # cs = t @ r" by (rule scan_token_append [OF tr])
    show ?thesis
    proof (cases "r = []")
      case True
      have "\<not> ends_quoted False t" using s True 2(3) by simp
      with True tr have "scan_token False (t @ 32 # x) = (t, 32 # x)"
        using scan_token_idem [OF tr] by (intro scan_token_then_blank) (simp_all add: blank_def)
      moreover have "c # cs @ 32 # x = t @ 32 # x" using s True by auto
      ultimately have "scan_token False (c # cs @ 32 # x) = (t, 32 # x)" by (simp only:)
      with False tr True show ?thesis
        using tokens_from_texts [of "Suc (i + length t)" x j] by (simp add: blank_def del: scan_token.simps)
    next
      case r: False
      have "\<not> ends_quoted False t" using scan_token_rest [OF tr r] by simp
      moreover have "ends_quoted False (t @ r) = ends_quoted (ends_quoted False t) r"
        by (rule ends_quoted_append)
      ultimately have "\<not> ends_quoted False r" using 2(3) s by simp
      with 2(2) [OF False tr [symmetric] refl]
      have IH: "map fst (tokens_from (i + length t) (r @ 32 # x)) =
          map fst (tokens_from (i + length t) r) @ map fst (tokens_from j x)" by blast
      have "scan_token False ((c # cs) @ 32 # x) = (t, r @ 32 # x)"
        by (rule scan_token_more [OF tr r])
      with False tr IH show ?thesis by (simp del: scan_token.simps)
    qed
  qed
qed

text \<open>
  The contract the editors rely on: the texts of a query whose quotes are closed are whole tokens,
  and gluing whole tokens is undone by taking the texts.
\<close>

locale token_text =
  fixes texts :: "jstring \<Rightarrow> jstring list"
    and glue :: "jstring list \<Rightarrow> jstring"
    and closed_text :: "jstring \<Rightarrow> bool"
    and whole :: "jstring \<Rightarrow> bool"
  assumes whole_texts: "closed_text q \<Longrightarrow> list_all whole (texts q)"
    and texts_glue: "list_all whole ts \<Longrightarrow> texts (glue ts) = ts"
begin

lemma glue_filter: "closed_text q \<Longrightarrow> texts (glue (filter P (texts q))) = filter P (texts q)"
  using whole_texts [of q] by (intro texts_glue) (auto simp: list_all_iff)

lemma glue_edit:
  "closed_text q \<Longrightarrow> set ts \<subseteq> set (texts q) \<union> new \<Longrightarrow> (\<And>t. t \<in> new \<Longrightarrow> whole t) \<Longrightarrow> texts (glue ts) = ts"
  using whole_texts [of q] by (intro texts_glue) (auto simp: list_all_iff)

end

definition quotes_closed :: "jstring \<Rightarrow> bool" where
  "quotes_closed q \<longleftrightarrow> \<not> ends_quoted False q"

lemma rebuild_whole: "list_all token ts \<Longrightarrow> rebuild ts = join (js '' '') ts"
  unfolding rebuild_def by (rule arg_cong [of _ _ "join (js '' '')"], rule filter_True)
    (auto simp: list_all_iff token_def)

interpretation aql: token_text token_texts rebuild quotes_closed token
proof unfold_locales
  show "list_all token (token_texts q)" if "quotes_closed q" for q
    using tokens_complete that by (simp add: quotes_closed_def token_texts_def tokenizeAql_def)
  show "token_texts (rebuild ts) = ts" if "list_all token ts" for ts
    using tokens_from_join that by (simp add: rebuild_whole token_texts_def tokenizeAql_def)
qed

lemma texts_append:
  "quotes_closed q \<Longrightarrow> token_texts (q @ 32 # x) = token_texts q @ token_texts x"
  using tokens_from_append [of q 0 x 0] by (simp add: token_texts_def tokenizeAql_def quotes_closed_def)

lemma texts_token: "token t \<Longrightarrow> token_texts t = [t]"
  using tokens_from_join [of "[t]" 0] by (simp add: token_texts_def tokenizeAql_def)

lemma texts_Nil [simp]: "token_texts [] = []"
  by (simp add: token_texts_def tokenizeAql_def)

subsection \<open>Clauses of a text\<close>

text \<open>A clause without its position depends on the token alone.\<close>

definition clause_of :: "jstring \<Rightarrow> aql_clause" where
  "clause_of t = parse_clause (t, 0)"

definition clauses :: "jstring \<Rightarrow> aql_clause list" where
  "clauses q = map (\<lambda>c. c\<lparr>cl_pos := 0\<rparr>) (parseAqlClauses q)"

lemma parse_clause_pos: "parse_clause (t, p) = (clause_of t)\<lparr>cl_pos := p\<rparr>"
  by (simp add: clause_of_def parse_clause_def split: option.split)

lemma clause_of_pos [simp]: "(clause_of t)\<lparr>cl_pos := 0\<rparr> = clause_of t"
  by (simp add: clause_of_def parse_clause_def split: option.split)

lemma cl_raw_clause_of [simp]: "cl_raw (clause_of t) = t"
  by (simp add: clause_of_def parse_clause_def split: option.split)

lemma parse_clause_unplaced: "(parse_clause x)\<lparr>cl_pos := 0\<rparr> = clause_of (fst x)"
  by (cases x) (simp add: parse_clause_pos)

lemma clauses_texts: "clauses q = map clause_of (token_texts q)"
  by (simp add: clauses_def parseAqlClauses_def token_texts_def parse_clause_unplaced)

lemma map_parse:
  "map f (parseAqlClauses q) = map f (clauses q)" if "\<And>c p. f (c\<lparr>cl_pos := p\<rparr>) = f c"
  by (simp add: clauses_def comp_def that)

subsection \<open>Well-formed clauses\<close>

text \<open>Field names as the console writes them, and values without a quote.\<close>

definition plain_field :: "jstring \<Rightarrow> bool" where
  "plain_field f \<longleftrightarrow> f \<noteq> [] \<and> (\<forall>c \<in> set f. field_char c)"

definition plain_value :: "jstring \<Rightarrow> jstring \<Rightarrow> bool" where
  "plain_value op' v \<longleftrightarrow> v \<noteq> [] \<and> 34 \<notin> set v \<and> (op' \<in> {js ''>'', js ''<''} \<longrightarrow> hd v \<noteq> 61)"

lemma op_codes: "OPS = [[62, 61], [60, 61], [61], [126], [62], [60]]"
  by (simp add: OPS_def js_def)

lemma find_op_other: "c \<notin> {60, 61, 62, 126} \<Longrightarrow> find_op (c # cs) = None"
  by (simp add: find_op_def op_codes starts_with_def)

lemma find_op_here:
  assumes "op' \<in> set OPS" "w \<noteq> []" "op' \<in> {js ''>'', js ''<''} \<longrightarrow> hd w \<noteq> 61"
  shows "find_op (op' @ w) = Some op'"
proof -
  obtain c cs where w: "w = c # cs" using assms(2) by (cases w) auto
  have "op' = [62, 61] \<or> op' = [60, 61] \<or> op' = [61] \<or> op' = [126] \<or> op' = [62] \<or> op' = [60]"
    using assms(1) by (simp add: op_codes)
  then show ?thesis using assms(3) unfolding w
    by (elim disjE) (simp_all add: find_op_def op_codes starts_with_def js_def)
qed

lemma field_char_plain: "field_char c \<Longrightarrow> c \<notin> {60, 61, 62, 126} \<and> c \<noteq> 34 \<and> \<not> blank c"
  by (auto simp: field_char_def field_start_def is_digit_def blank_def)

lemma split_clause_field:
  assumes "\<forall>c \<in> set f. field_char c" "pre @ f \<noteq> []" "op' \<in> set OPS" "find_op (op' @ w) = Some op'"
  shows "split_clause False pre (f @ op' @ w) = Some (pre @ f, op', w)"
  using assms
proof (induction f arbitrary: pre)
  case Nil
  then obtain c cs where op: "op' = c # cs" "c \<noteq> 34" by (auto simp: op_codes)
  with Nil show ?case by simp
next
  case (Cons c f)
  then have "find_op (c # f @ op' @ w) = None" "c \<noteq> 34"
    using find_op_other field_char_plain by (metis list.set_intros(1))+
  with Cons.prems Cons.IH [of "pre @ [c]"] show ?case by simp
qed

lemma unquote_quote: "34 \<notin> set v \<Longrightarrow> unquote (quoteAqlValue v) = v"
proof (cases "list_ex is_ws v")
  case True
  then show ?thesis by (simp add: quoteAqlValue_def unquote_def ends_with_def starts_with_def butlast_append)
next
  case False
  moreover assume "34 \<notin> set v"
  ultimately show ?thesis by (cases v) (auto simp: quoteAqlValue_def unquote_def starts_with_def)
qed

lemma flag_no_op: "t \<in> set FLAGS \<Longrightarrow> c \<in> set t \<Longrightarrow> field_char c"
  by (auto simp: FLAGS_def js_def field_char_def field_start_def)

lemma op_char_not_field: "op' \<in> set OPS \<Longrightarrow> \<exists>c \<in> set op'. \<not> field_char c"
  by (auto simp: op_codes field_char_def field_start_def is_digit_def)

text \<open>The token \<open>setClause\<close> writes reads back as the clause it stands for.\<close>

lemma clause_of_written:
  assumes "plain_field f" "op' \<in> set OPS" "plain_value op' v"
  shows "clause_of (f @ op' @ quoteAqlValue v) =
    \<lparr>cl_field = f, cl_op = op', cl_value = v, cl_raw = f @ op' @ quoteAqlValue v, cl_pos = 0\<rparr>"
proof -
  let ?w = "quoteAqlValue v"
  have v: "34 \<notin> set v" "v \<noteq> []" using assms(3) by (auto simp: plain_value_def)
  have "?w \<noteq> []" using v by (simp add: quoteAqlValue_def)
  moreover have "op' \<in> {js ''>'', js ''<''} \<longrightarrow> hd ?w \<noteq> 61"
    using assms(3) by (simp add: plain_value_def quoteAqlValue_def)
  ultimately have "find_op (op' @ ?w) = Some op'" using find_op_here assms(2) by blast
  then have "split_clause False [] (f @ op' @ ?w) = Some (f, op', ?w)"
    using split_clause_field [of f "[]"] assms(1,2) by (simp add: plain_field_def)
  moreover have "f @ op' @ ?w \<notin> set FLAGS"
    using op_char_not_field [OF assms(2)] flag_no_op by fastforce
  ultimately show ?thesis using unquote_quote v by (simp add: clause_of_def parse_clause_def)
qed

lemma scan_plain:
  "\<forall>c \<in> set s. c \<noteq> 34 \<and> (blank c \<longrightarrow> b) \<Longrightarrow>
   scan_token b (s @ r) = (s @ fst (scan_token b r), snd (scan_token b r))"
proof (induction s)
  case (Cons a s)
  then have "\<forall>c \<in> set s. c \<noteq> 34 \<and> (blank c \<longrightarrow> b)" by simp
  from Cons.IH [OF this] Cons.prems show ?case by (simp add: Let_def split_beta)
qed simp

lemma ends_quoted_plain: "34 \<notin> set s \<Longrightarrow> ends_quoted b s = b"
  by (induction s) auto

lemma op_chars: "op' \<in> set OPS \<Longrightarrow> c \<in> set op' \<Longrightarrow> c \<noteq> 34 \<and> \<not> blank c"
  by (auto simp: op_codes blank_def)

lemma token_written:
  assumes "plain_field f" "op' \<in> set OPS" "34 \<notin> set v"
  shows "token (f @ op' @ quoteAqlValue v)"
proof -
  have fo: "\<forall>c \<in> set (f @ op'). c \<noteq> 34 \<and> \<not> blank c"
    using assms(1,2) op_chars field_char_plain by (auto simp: plain_field_def)
  have "scan_token False (quoteAqlValue v) = (quoteAqlValue v, [])"
  proof (cases "list_ex is_ws v")
    case True
    have "\<forall>c \<in> set v. c \<noteq> 34 \<and> (blank c \<longrightarrow> True)" using assms(3) by auto
    from scan_plain [OF this, of "[34]"] True show ?thesis by (simp add: quoteAqlValue_def)
  next
    case False
    then have "\<forall>c \<in> set v. c \<noteq> 34 \<and> \<not> blank c"
      using assms(3) by (auto simp: list_ex_iff is_ws_def blank_def)
    with False show ?thesis using scan_plain [of v False "[]"] by (simp add: quoteAqlValue_def)
  qed
  then have "scan_token False ((f @ op') @ quoteAqlValue v) = ((f @ op') @ quoteAqlValue v, [])"
    using scan_plain [of "f @ op'" False "quoteAqlValue v"] fo by simp
  moreover have "\<not> ends_quoted False (quoteAqlValue v)"
    using assms(3) by (simp add: quoteAqlValue_def ends_quoted_plain)
  moreover have "ends_quoted False (f @ op') = False" using fo by (intro ends_quoted_plain) auto
  ultimately show ?thesis
    using assms(1) unfolding token_def plain_field_def append_assoc [symmetric] ends_quoted_append by simp
qed

subsection \<open>What an editor leaves\<close>

text \<open>The token list \<open>setClause\<close> and \<open>applyTimeChip\<close> build.\<close>

definition edited :: "jstring \<Rightarrow> jstring \<Rightarrow> jstring \<Rightarrow> jstring list" where
  "edited q field t =
     (let (mapped, replaced) = replace_first field t False (parseAqlClauses q);
          ts = filter (\<lambda>t. t \<noteq> []) mapped
      in if \<not> replaced \<and> t \<noteq> [] then ts @ [t] else ts)"

definition field_of :: "jstring \<Rightarrow> jstring" where
  "field_of t = cl_field (clause_of t)"

lemma parse_fields [simp]: "cl_field (parse_clause x) = field_of (fst x)" "cl_raw (parse_clause x) = fst x"
  by (cases x; simp add: parse_clause_pos field_of_def)+

text \<open>The loop on the texts alone.\<close>

fun replace_text :: "jstring \<Rightarrow> jstring \<Rightarrow> bool \<Rightarrow> jstring list \<Rightarrow> jstring list \<times> bool" where
  "replace_text f t b [] = ([], b)"
| "replace_text f t b (x # xs) =
     (if field_of x \<noteq> f then (let (ts, b') = replace_text f t b xs in (x # ts, b'))
      else if b then (let (ts, b') = replace_text f t True xs in ([] # ts, b'))
      else (let (ts, b') = replace_text f t True xs in (t # ts, b')))"

lemma replace_first_text:
  "replace_first f t b (map parse_clause xs) = replace_text f t b (map fst xs)"
  by (induction xs arbitrary: b) (auto simp: Let_def split_beta)

lemma replace_text_others:
  "\<forall>x \<in> set xs. x \<noteq> [] \<Longrightarrow> t = [] \<or> field_of t = f \<Longrightarrow>
   filter (\<lambda>x. field_of x \<noteq> f) (filter (\<lambda>x. x \<noteq> []) (fst (replace_text f t b xs))) =
   filter (\<lambda>x. field_of x \<noteq> f) xs"
  by (induction xs arbitrary: b) (auto simp: Let_def split_beta)

lemma replace_text_own:
  "\<forall>x \<in> set xs. x \<noteq> [] \<Longrightarrow> t = [] \<or> field_of t = f \<Longrightarrow>
   filter (\<lambda>x. field_of x = f) (filter (\<lambda>x. x \<noteq> []) (fst (replace_text f t b xs))) =
   (if \<not> b \<and> t \<noteq> [] \<and> (\<exists>x \<in> set xs. field_of x = f) then [t] else [])"
  by (induction xs arbitrary: b) (auto simp: Let_def split_beta)

lemma replace_text_flag: "snd (replace_text f t b xs) = (b \<or> (\<exists>x \<in> set xs. field_of x = f))"
  by (induction xs arbitrary: b) (auto simp: Let_def split_beta)

lemma replace_text_set:
  "set (filter (\<lambda>x. x \<noteq> []) (fst (replace_text f t b xs))) \<subseteq> set xs \<union> {t}"
  by (induction xs arbitrary: b) (auto simp: Let_def split_beta)

lemma edited_texts:
  "edited q f t =
     (let r = replace_text f t False (token_texts q);
          ts = filter (\<lambda>t. t \<noteq> []) (fst r)
      in if \<not> snd r \<and> t \<noteq> [] then ts @ [t] else ts)"
  by (simp add: edited_def parseAqlClauses_def replace_first_text token_texts_def Let_def split_beta)

lemma texts_nonempty: "x \<in> set (token_texts q) \<Longrightarrow> x \<noteq> []"
proof -
  have "[] \<notin> set (map fst (tokens_from i s))" for i s
  proof (induction i s rule: tokens_from.induct)
    case (2 i c cs)
    show ?case
    proof (cases "blank c")
      case False
      obtain t r where tr: "scan_token False (c # cs) = (t, r)" by fastforce
      with 2(2) [OF False tr [symmetric] refl] scan_token_nonempty [OF False tr] False show ?thesis
        by (simp del: scan_token.simps)
    qed (use 2 in simp)
  qed simp
  then show "x \<in> set (token_texts q) \<Longrightarrow> x \<noteq> []"
    unfolding token_texts_def tokenizeAql_def by blast
qed

lemma edited_filters:
  assumes "t = [] \<or> field_of t = f"
  shows "filter (\<lambda>x. field_of x \<noteq> f) (edited q f t) = filter (\<lambda>x. field_of x \<noteq> f) (token_texts q)"
    and "filter (\<lambda>x. field_of x = f) (edited q f t) = (if t = [] then [] else [t])"
proof -
  have ne: "\<forall>x \<in> set (token_texts q). x \<noteq> []" using texts_nonempty by blast
  show "filter (\<lambda>x. field_of x \<noteq> f) (edited q f t) = filter (\<lambda>x. field_of x \<noteq> f) (token_texts q)"
    using replace_text_others [OF ne assms, of False] assms by (auto simp: edited_texts Let_def)
  show "filter (\<lambda>x. field_of x = f) (edited q f t) = (if t = [] then [] else [t])"
    using replace_text_own [OF ne assms, of False] assms
    by (auto simp: edited_texts Let_def replace_text_flag)
qed

lemma token_texts_edited:
  assumes "quotes_closed q" "t = [] \<or> token t"
  shows "token_texts (rebuild (edited q f t)) = edited q f t"
proof (rule aql.glue_edit [OF assms(1), where new = "{t} - {[]}"])
  show "set (edited q f t) \<subseteq> set (token_texts q) \<union> ({t} - {[]})"
    using replace_text_set [of f t False "token_texts q"] by (auto simp: edited_texts Let_def)
qed (use assms(2) in auto)

lemma quoteAqlValue_nonempty [simp]: "v \<noteq> [] \<Longrightarrow> quoteAqlValue v \<noteq> []"
  by (simp add: quoteAqlValue_def)

lemma setClause_edited:
  "setClause q f op' v = rebuild (edited q f (if v = [] then [] else f @ op' @ quoteAqlValue v))"
  by (simp add: setClause_def edited_def Let_def split_beta)

subsection \<open>Properties of the editors\<close>

text \<open>The clauses of a field, and the others, as the console reads them back.\<close>

definition clauses_on :: "jstring \<Rightarrow> jstring \<Rightarrow> aql_clause list" where
  "clauses_on f q = filter (\<lambda>c. cl_field c = f) (clauses q)"

definition clauses_off :: "jstring \<Rightarrow> jstring \<Rightarrow> aql_clause list" where
  "clauses_off f q = filter (\<lambda>c. cl_field c \<noteq> f) (clauses q)"

lemma clauses_on_off_texts:
  "clauses_on f q = map clause_of (filter (\<lambda>x. field_of x = f) (token_texts q))"
  "clauses_off f q = map clause_of (filter (\<lambda>x. field_of x \<noteq> f) (token_texts q))"
  by (simp_all add: clauses_on_def clauses_off_def clauses_texts filter_map comp_def field_of_def)

lemma edit_clauses:
  assumes "quotes_closed q" "t = [] \<or> token t \<and> field_of t = f"
  shows "clauses_on f (rebuild (edited q f t)) = (if t = [] then [] else [clause_of t])"
    and "clauses_off f (rebuild (edited q f t)) = clauses_off f q"
  using assms edited_filters [of t f q] token_texts_edited [OF assms(1), of t f]
  by (auto simp: clauses_on_off_texts)

text \<open>
  The tokenizer never invents, drops or reorders a character: the tokens are the slices of the text
  at their offsets, in increasing order, and outside them the text is blank.
\<close>

definition token_span :: "jstring \<times> nat \<Rightarrow> nat set" where
  "token_span t = {snd t ..< snd t + length (fst t)}"

lemma tokens_from_slices:
  "t \<in> set (tokens_from i s) \<Longrightarrow>
   i \<le> snd t \<and> snd t + length (fst t) \<le> i + length s \<and>
   take (length (fst t)) (drop (snd t - i) s) = fst t"
proof (induction i s rule: tokens_from.induct)
  case (2 i c cs)
  show ?case
  proof (cases "blank c")
    case True
    with 2(1) [OF True] 2(3) have *: "Suc i \<le> snd t" "snd t + length (fst t) \<le> Suc i + length cs"
      "take (length (fst t)) (drop (snd t - Suc i) cs) = fst t" by simp_all
    then have "snd t - i = Suc (snd t - Suc i)" by simp
    with * show ?thesis by simp
  next
    case False
    obtain u r where ur: "scan_token False (c # cs) = (u, r)" by fastforce
    have s: "c # cs = u @ r" by (rule scan_token_append [OF ur])
    then have len: "length (c # cs) = length u + length r" by (metis length_append)
    from 2(3) False ur consider "t = (u, i)" | "t \<in> set (tokens_from (i + length u) r)"
      by (auto simp del: scan_token.simps)
    then show ?thesis
    proof cases
      case 1
      then show ?thesis unfolding s using len by simp
    next
      case 2
      from "2.IH"(2) [OF False ur [symmetric] refl this]
      have *: "i + length u \<le> snd t" "snd t + length (fst t) \<le> i + length u + length r"
        "take (length (fst t)) (drop (snd t - (i + length u)) r) = fst t" by simp_all
      then have "drop (snd t - i) (u @ r) = drop (snd t - (i + length u)) r" by simp
      with * len show ?thesis unfolding s by simp
    qed
  qed
qed simp

lemma tokens_from_cover:
  "k < length s \<Longrightarrow> \<not> blank (s ! k) \<Longrightarrow> \<exists>t \<in> set (tokens_from i s). i + k \<in> token_span t"
proof (induction i s arbitrary: k rule: tokens_from.induct)
  case (2 i c cs)
  show ?case
  proof (cases "blank c")
    case True
    with 2(3,4) obtain j where "k = Suc j" by (cases k) auto
    with 2(1) [OF True, of j] 2(3,4) True show ?thesis by simp
  next
    case False
    obtain u r where ur: "scan_token False (c # cs) = (u, r)" by fastforce
    have s: "c # cs = u @ r" by (rule scan_token_append [OF ur])
    have ts: "tokens_from i (c # cs) = (u, i) # tokens_from (i + length u) r"
      using False ur by (simp del: scan_token.simps)
    show ?thesis
    proof (cases "k < length u")
      case True
      then show ?thesis unfolding ts by (simp add: token_span_def)
    next
      case k: False
      have "k - length u < length r" "\<not> blank (r ! (k - length u))"
        using 2(3,4) k unfolding s by (auto simp: nth_append)
      from 2(2) [OF False ur [symmetric] refl this] k show ?thesis unfolding ts by auto
    qed
  qed
qed simp

lemma tokens_from_sorted:
  "sorted_wrt (\<lambda>t u. snd t + length (fst t) \<le> snd u) (tokens_from i s)"
proof (induction i s rule: tokens_from.induct)
  case (2 i c cs)
  then show ?case
    using tokens_from_slices [of _ "i + length (fst (scan_token False (c # cs)))" "snd (scan_token False (c # cs))"]
    by (auto simp del: scan_token.simps split: prod.split)
qed simp

text \<open>The tokenizer loses nothing: every token is the slice of the query at its offset, tokens
  come in order without overlap, and every character outside them is blank.\<close>

theorem tokenizer_partitions_query:
  "(\<forall>t \<in> set (tokenizeAql q). take (length (fst t)) (drop (snd t) q) = fst t \<and> fst t \<noteq> []) \<and>
   (\<forall>k < length q. \<not> blank (q ! k) \<longrightarrow> (\<exists>t \<in> set (tokenizeAql q). k \<in> token_span t)) \<and>
   sorted_wrt (\<lambda>t u. snd t + length (fst t) \<le> snd u) (tokenizeAql q)"
  using tokens_from_slices [of _ 0 q] tokens_from_cover [of _ q 0] tokens_from_sorted [of 0 q]
    texts_nonempty [of _ q]
  by (auto simp: tokenizeAql_def token_texts_def)

text \<open>C13. Setting a clause: in a query whose quotes are closed, and for a field of word characters and a value
  that is not empty, without a double quote and not starting with an equals sign after a less or greater
  sign, \<open>setClause\<close> leaves exactly one clause of the field, which reads back with the operator and value that
  were set, and every other clause as it was, in order.\<close>

theorem setClause_sets_one_clause:
  assumes "quotes_closed q" and "plain_field f" and "op' \<in> set OPS" and "plain_value op' v"
  shows "clauses_on f (setClause q f op' v) =
      [\<lparr>cl_field = f, cl_op = op', cl_value = v, cl_raw = f @ op' @ quoteAqlValue v, cl_pos = 0\<rparr>] \<and>
    clauses_off f (setClause q f op' v) = clauses_off f q"
proof -
  let ?t = "f @ op' @ quoteAqlValue v"
  have v: "v \<noteq> []" "34 \<notin> set v" using assms(4) by (auto simp: plain_value_def)
  have c: "clause_of ?t = \<lparr>cl_field = f, cl_op = op', cl_value = v, cl_raw = ?t, cl_pos = 0\<rparr>"
    by (rule clause_of_written [OF assms(2-4)])
  have "token ?t \<and> field_of ?t = f"
    using token_written [OF assms(2,3) v(2)] c by (simp add: field_of_def)
  then show ?thesis
    using edit_clauses [OF assms(1), of ?t f] v c by (simp add: setClause_edited)
qed

lemma removeClause_texts:
  "quotes_closed q \<Longrightarrow> token_texts (removeClause q f None) = filter (\<lambda>x. field_of x \<noteq> f) (token_texts q)"
  using aql.glue_filter [of q "\<lambda>x. field_of x \<noteq> f"]
  by (simp add: removeClause_def parseAqlClauses_def filter_map comp_def token_texts_def)

lemma quotes_closed_rebuild: "list_all token ts \<Longrightarrow> quotes_closed (rebuild ts)"
proof -
  assume ts: "list_all token ts"
  then have "\<not> ends_quoted False (join [32] ts)"
    by (induction "[32] :: jstring" ts rule: join.induct) (auto simp: token_def)
  then show ?thesis using rebuild_whole [OF ts] by (simp add: quotes_closed_def js_def)
qed

lemma edited_tokens:
  "quotes_closed q \<Longrightarrow> t = [] \<or> token t \<Longrightarrow> list_all token (edited q f t)"
  using replace_text_set [of f t False "token_texts q"] aql.whole_texts [of q]
  by (auto simp: edited_texts Let_def list_all_iff)

text \<open>Removing a clause: \<open>removeClause\<close> leaves no clause of the field and every other clause as it
  was; setting a clause and removing the field again is the same as removing the field.\<close>

theorem removeClause_undoes_setClause:
  assumes "quotes_closed q" and "plain_field f" and "op' \<in> set OPS" and "plain_value op' v"
  shows "clauses_on f (removeClause q f None) = [] \<and>
    clauses_off f (removeClause q f None) = clauses_off f q \<and>
    token_texts (removeClause (setClause q f op' v) f None) = token_texts (removeClause q f None)"
proof -
  let ?t = "f @ op' @ quoteAqlValue v"
  have v: "v \<noteq> []" "34 \<notin> set v" using assms(4) by (auto simp: plain_value_def)
  have t: "token ?t" "field_of ?t = f"
    using token_written [OF assms(2,3) v(2)] clause_of_written [OF assms(2-4)] by (simp_all add: field_of_def)
  then have "quotes_closed (rebuild (edited q f ?t))"
    using assms(1) by (intro quotes_closed_rebuild edited_tokens) simp_all
  then have "token_texts (removeClause (setClause q f op' v) f None) =
      filter (\<lambda>x. field_of x \<noteq> f) (edited q f ?t)"
    using token_texts_edited [OF assms(1), of ?t f] t v by (simp add: setClause_edited removeClause_texts)
  then show ?thesis
    using edited_filters(1) [of ?t f q] t assms(1)
    by (auto simp: removeClause_texts clauses_on_off_texts filter_empty_conv)
qed

text \<open>The pairs of a clause list; positions do not matter.\<close>

definition pairs_of :: "aql_clause list \<Rightarrow> meta_pair list" where
  "pairs_of cs = map (\<lambda>c. \<lparr>mp_key = drop 5 (cl_field c), mp_value = cl_value c\<rparr>)
     (filter (\<lambda>c. starts_with (js ''meta.'') (cl_field c) \<and> length (cl_field c) > 5 \<and> cl_op c = js ''='') cs)"

lemma metaClausesOf_clauses: "metaClausesOf q = pairs_of (clauses q)"
  by (simp add: metaClausesOf_def pairs_of_def clauses_def filter_map comp_def)

lemma pairs_of_append: "pairs_of (cs @ ds) = pairs_of cs @ pairs_of ds"
  by (simp add: pairs_of_def)

lemma meta_field: "starts_with (js ''meta.'') f \<and> drop 5 f = k \<longleftrightarrow> f = js ''meta.'' @ k"
  by (auto simp: starts_with_iff js_def)

lemma pairs_of_remove:
  "k \<noteq> [] \<Longrightarrow>
   pairs_of (filter (\<lambda>c. \<not> (cl_field c = js ''meta.'' @ k \<and> cl_op c = js ''='' \<and> cl_value c = v)) cs) =
   filter (\<lambda>p. p \<noteq> \<lparr>mp_key = k, mp_value = v\<rparr>) (pairs_of cs)"
proof (induction cs)
  case (Cons c cs)
  let ?P = "\<lambda>c. starts_with (js ''meta.'') (cl_field c) \<and> length (cl_field c) > 5 \<and> cl_op c = js ''=''"
  let ?pair = "\<lambda>c. \<lparr>mp_key = drop 5 (cl_field c), mp_value = cl_value c\<rparr>"
  have cons: "pairs_of (c # cs) = (if ?P c then ?pair c # pairs_of cs else pairs_of cs)" for c cs
    by (simp add: pairs_of_def)
  have len: "length (js ''meta.'') = 5" by (simp add: js_def)
  have "(cl_field c = js ''meta.'' @ k \<and> cl_op c = js ''='' \<and> cl_value c = v) \<longleftrightarrow>
      ?P c \<and> ?pair c = \<lparr>mp_key = k, mp_value = v\<rparr>"
    using meta_field [of "cl_field c" k] Cons.prems len by auto
  then show ?case
    using Cons.IH [OF Cons.prems] by (simp only: filter.simps cons if_split) (simp add: cons)
qed (simp add: pairs_of_def)

definition plain_key :: "jstring \<Rightarrow> bool" where
  "plain_key k \<longleftrightarrow> k \<noteq> [] \<and> (\<forall>c \<in> set k. field_char c)"

lemma meta_written:
  assumes "plain_key k" "plain_value (js ''='') v"
  shows "clause_of (js ''meta.'' @ k @ js ''='' @ quoteAqlValue v) =
      \<lparr>cl_field = js ''meta.'' @ k, cl_op = js ''='', cl_value = v,
       cl_raw = js ''meta.'' @ k @ js ''='' @ quoteAqlValue v, cl_pos = 0\<rparr>"
    and "token (js ''meta.'' @ k @ js ''='' @ quoteAqlValue v)"
proof -
  have f: "plain_field (js ''meta.'' @ k)"
    using assms(1) by (auto simp: plain_field_def plain_key_def js_def field_char_def field_start_def)
  have o: "js ''='' \<in> set OPS" by (simp add: OPS_def)
  show "clause_of (js ''meta.'' @ k @ js ''='' @ quoteAqlValue v) =
      \<lparr>cl_field = js ''meta.'' @ k, cl_op = js ''='', cl_value = v,
       cl_raw = js ''meta.'' @ k @ js ''='' @ quoteAqlValue v, cl_pos = 0\<rparr>"
    using clause_of_written [OF f o assms(2)] by simp
  show "token (js ''meta.'' @ k @ js ''='' @ quoteAqlValue v)"
    using token_written [OF f o] assms(2) by (simp add: plain_value_def)
qed

lemma clauses_append_meta:
  assumes "quotes_closed q" "token t"
  shows "clauses (if q = [] then t else q @ js '' '' @ t) = clauses q @ [clause_of t]"
  using assms texts_append [of q t] texts_token [of t] by (simp add: clauses_texts js_def)

lemma removeMeta_clauses:
  "quotes_closed q \<Longrightarrow> clauses (removeMetaClause q k v) =
   filter (\<lambda>c. \<not> (cl_field c = js ''meta.'' @ k \<and> cl_op c = js ''='' \<and> cl_value c = v)) (clauses q)"
proof -
  assume q: "quotes_closed q"
  let ?P = "\<lambda>x. \<not> (cl_field (clause_of x) = js ''meta.'' @ k \<and> cl_op (clause_of x) = js ''='' \<and>
      cl_value (clause_of x) = v)"
  have "map cl_raw (filter (\<lambda>c. \<not> (cl_field c = js ''meta.'' @ k \<and> cl_op c = js ''='' \<and> cl_value c = v))
      (parseAqlClauses q)) = filter ?P (token_texts q)"
    by (auto simp: parseAqlClauses_def token_texts_def filter_map comp_def split_beta parse_clause_pos
        field_of_def intro!: filter_cong arg_cong [where f = "map fst"])
  then show ?thesis
    using aql.glue_filter [OF q, of ?P]
    by (simp add: removeMetaClause_def clauses_texts filter_map comp_def)
qed

text \<open>Metadata chips: after \<open>addMetaClause\<close> the query has the pair, adding it again changes nothing,
  and the other pairs are as before; after \<open>removeMetaClause\<close> the query does not have it and every
  other pair is as before.\<close>

theorem meta_chips_toggle:
  assumes "quotes_closed q" and "plain_key k" and "plain_value (js ''='') v"
  shows "hasMetaClause (addMetaClause q k v) k v \<and>
    addMetaClause (addMetaClause q k v) k v = addMetaClause q k v \<and>
    filter (\<lambda>p. p \<noteq> \<lparr>mp_key = k, mp_value = v\<rparr>) (metaClausesOf (addMetaClause q k v)) =
      filter (\<lambda>p. p \<noteq> \<lparr>mp_key = k, mp_value = v\<rparr>) (metaClausesOf q) \<and>
    metaClausesOf (removeMetaClause q k v) =
      filter (\<lambda>p. p \<noteq> \<lparr>mp_key = k, mp_value = v\<rparr>) (metaClausesOf q)"
proof -
  let ?t = "js ''meta.'' @ k @ js ''='' @ quoteAqlValue v"
  note w = meta_written [OF assms(2,3)]
  have k: "k \<noteq> []" using assms(2) by (simp add: plain_key_def)
  have "pairs_of [clause_of ?t] = [\<lparr>mp_key = k, mp_value = v\<rparr>]"
    using w(1) k by (simp add: pairs_of_def js_def starts_with_def)
  then have add: "metaClausesOf (addMetaClause q k v) =
      (if hasMetaClause q k v then metaClausesOf q else metaClausesOf q @ [\<lparr>mp_key = k, mp_value = v\<rparr>])"
    using clauses_append_meta [OF assms(1) w(2)]
    by (cases "hasMetaClause q k v") (simp_all add: addMetaClause_def Let_def metaClausesOf_clauses pairs_of_append)
  then have has: "hasMetaClause (addMetaClause q k v) k v"
    by (cases "hasMetaClause q k v") (auto simp: hasMetaClause_def)
  moreover have "addMetaClause (addMetaClause q k v) k v = addMetaClause q k v"
    using has by (simp add: addMetaClause_def)
  moreover have "metaClausesOf (removeMetaClause q k v) =
      filter (\<lambda>p. p \<noteq> \<lparr>mp_key = k, mp_value = v\<rparr>) (metaClausesOf q)"
    using removeMeta_clauses [OF assms(1)] pairs_of_remove [OF k] by (simp add: metaClausesOf_clauses)
  ultimately show ?thesis using add by auto
qed

subsection \<open>The properties at a concrete query\<close>

text \<open>\<open>queue=default error~"time out" past_due queue=low\<close>.\<close>

definition sample_query :: jstring where
  "sample_query = js ''queue=default error~'' @ [34] @ js ''time out'' @ [34] @ js '' past_due queue=low''"

lemma sample_query_closed: "quotes_closed sample_query"
  by (simp add: quotes_closed_def sample_query_def js_def)

lemma tokenizer_partitions_query_witness:
  "\<not> blank (sample_query ! 3) \<and> (\<exists>t. t \<in> set (tokenizeAql sample_query) \<and> 3 \<in> token_span t)"
proof -
  have "3 < length sample_query" "\<not> blank (sample_query ! 3)"
    by (simp_all add: sample_query_def js_def blank_def)
  then show ?thesis using tokenizer_partitions_query [of sample_query] by blast
qed

lemma setClause_sets_one_clause_witness:
  "map cl_value (clauses_on (js ''queue'') (setClause sample_query (js ''queue'') (js ''='') (js ''my queue''))) =
     [js ''my queue''] \<and>
   clauses_off (js ''queue'') (setClause sample_query (js ''queue'') (js ''='') (js ''my queue'')) =
     clauses_off (js ''queue'') sample_query"
proof -
  have "plain_field (js ''queue'')" "js ''='' \<in> set OPS" "plain_value (js ''='') (js ''my queue'')"
    by (simp_all add: plain_field_def field_char_def field_start_def OPS_def plain_value_def js_def)
  from setClause_sets_one_clause [OF sample_query_closed this] show ?thesis by simp
qed

lemma removeClause_undoes_setClause_witness:
  "token_texts (removeClause (setClause sample_query (js ''state'') (js ''='') (js ''retry'')) (js ''state'') None) =
     token_texts (removeClause sample_query (js ''state'') None)"
proof -
  have "plain_field (js ''state'')" "js ''='' \<in> set OPS" "plain_value (js ''='') (js ''retry'')"
    by (simp_all add: plain_field_def field_char_def field_start_def OPS_def plain_value_def js_def)
  from removeClause_undoes_setClause [OF sample_query_closed this] show ?thesis by simp
qed

lemma meta_chips_toggle_witness:
  "hasMetaClause (addMetaClause sample_query (js ''tenant'') (js ''acme inc'')) (js ''tenant'') (js ''acme inc'')"
proof -
  have "plain_key (js ''tenant'')" "plain_value (js ''='') (js ''acme inc'')"
    by (simp_all add: plain_key_def field_char_def field_start_def plain_value_def js_def)
  from meta_chips_toggle [OF sample_query_closed this] show ?thesis by simp
qed

end
