(* ===== verification/Numbers.thy ===== *)
theory Numbers
  imports Complex_Main "HOL-Library.Log_Nat" Prelude
begin

text \<open>
  \<open>Number(s)\<close> for a string \<open>s\<close>, as the URL parsers of \<open>src/ui/src/lib/urlstate.ts\<close> use it: the
  grammar of StringNumericLiteral and the rounding of its value to the nearest double, ties to even.
  A number is kept as an exact rational; the sign of zero, which no comparison of the console sees,
  is not kept.
\<close>

datatype number = NaN | Infinite bool | Finite rat

subsection \<open>Rounding to a double\<close>

definition round_half_even :: "rat \<Rightarrow> int" where
  "round_half_even x =
     (let f = \<lfloor>x\<rfloor>; d = x - of_int f
      in if d < 1 / 2 then f else if d > 1 / 2 then f + 1 else if even f then f else f + 1)"

text \<open>The exponent of the leading bit of a positive rational.\<close>

definition binade :: "rat \<Rightarrow> int" where
  "binade x =
     (let (a, b) = quotient_of x;
          k = int (floorlog 2 (nat a)) - int (floorlog 2 (nat b))
      in if 2 powi k \<le> x then k else k - 1)"

definition round_double :: "rat \<Rightarrow> number" where
  "round_double x =
     (if x = 0 then Finite 0
      else let u = max (binade \<bar>x\<bar> - 52) (- 1074);
               r = of_int (round_half_even (\<bar>x\<bar> / 2 powi u)) * 2 powi u
           in if r \<ge> 2 ^ 1024 then Infinite (x < 0) else Finite (if x < 0 then - r else r))"

subsection \<open>Numeric literals\<close>

text \<open>Digits of a literal \<open>0x\<close>, \<open>0o\<close> or \<open>0b\<close>.\<close>

definition digit_in :: "nat \<Rightarrow> nat \<Rightarrow> nat option" where
  "digit_in base c =
     (let d = (if is_digit c then c - 48
               else if 97 \<le> c \<and> c \<le> 102 then c - 87
               else if 65 \<le> c \<and> c \<le> 70 then c - 55 else base)
      in if d < base then Some d else None)"

fun digits_in :: "nat \<Rightarrow> nat \<Rightarrow> jstring \<Rightarrow> nat option" where
  "digits_in base n [] = Some n"
| "digits_in base n (c # cs) =
     (case digit_in base c of Some d \<Rightarrow> digits_in base (base * n + d) cs | None \<Rightarrow> None)"

definition radix_literal :: "nat \<Rightarrow> jstring \<Rightarrow> number" where
  "radix_literal base s =
     (case digits_in base 0 s of
        Some n \<Rightarrow> if s = [] then NaN else round_double (of_nat n)
      | None \<Rightarrow> NaN)"

text \<open>The exponent part after the digits: empty, or \<open>e\<close> with an optional sign and digits.\<close>

definition exponent_part :: "jstring \<Rightarrow> int option" where
  "exponent_part s = (case s of
     [] \<Rightarrow> Some 0
   | c # r \<Rightarrow>
       if c = 101 \<or> c = 69
       then (let (sign, ds) = (case r of
                  [] \<Rightarrow> (1, [])
                | d # ds \<Rightarrow> if d = 45 then (- 1, ds) else if d = 43 then (1, ds) else (1, r))
             in if ds \<noteq> [] \<and> list_all is_digit ds then Some (sign * int (digits_value ds)) else None)
       else None)"

text \<open>An unsigned decimal literal: its exact value, if it is one.\<close>

definition decimal_literal :: "jstring \<Rightarrow> rat option" where
  "decimal_literal s =
     (let ip = takeWhile is_digit s;
          r = dropWhile is_digit s;
          (fp, r) = (case r of
              c # r' \<Rightarrow> if c = 46 then (takeWhile is_digit r', dropWhile is_digit r') else ([], r)
            | [] \<Rightarrow> ([], r))
      in if ip = [] \<and> fp = [] then None
         else map_option (\<lambda>e. of_nat (digits_value (ip @ fp)) * 10 powi (e - int (length fp)))
           (exponent_part r))"

definition unsigned_number :: "bool \<Rightarrow> jstring \<Rightarrow> number" where
  "unsigned_number neg s =
     (if s = js ''Infinity'' then Infinite neg
      else case decimal_literal s of
        Some x \<Rightarrow> round_double (if neg then - x else x)
      | None \<Rightarrow> NaN)"

definition js_number :: "jstring \<Rightarrow> number" where
  "js_number s = (case trim s of
     [] \<Rightarrow> Finite 0
   | c # r \<Rightarrow>
       if c = 48 \<and> r \<noteq> [] \<and> hd r \<in> {120, 88} then radix_literal 16 (tl r)
       else if c = 48 \<and> r \<noteq> [] \<and> hd r \<in> {111, 79} then radix_literal 8 (tl r)
       else if c = 48 \<and> r \<noteq> [] \<and> hd r \<in> {98, 66} then radix_literal 2 (tl r)
       else if c = 45 then unsigned_number True r
       else if c = 43 then unsigned_number False r
       else unsigned_number False (c # r))"

text \<open>\<open>Number(params.get(key))\<close>: an absent parameter is \<open>null\<close>, hence 0.\<close>

definition number_param :: "jstring option \<Rightarrow> number" where
  "number_param v = (case v of None \<Rightarrow> Finite 0 | Some s \<Rightarrow> js_number s)"

subsection \<open>Small integers are exact\<close>

lemma round_half_even_int [simp]: "round_half_even (of_int n) = n"
  by (simp add: round_half_even_def)

lemma floorlog_two: "0 < n \<Longrightarrow> 2 ^ (floorlog 2 n - 1) \<le> n \<and> n < 2 ^ floorlog 2 n"
  by (rule floorlog_bounds) simp_all

lemma floorlog_pos: "0 < n \<Longrightarrow> 0 < floorlog 2 n"
  by (simp add: floorlog_def)

lemma powi_pred: "0 < l \<Longrightarrow> (2::rat) powi (int l - 1) = of_nat (2 ^ (l - 1))"
  by (cases l) simp_all

lemma quotient_of_nat: "quotient_of (of_nat n) = (int n, 1)"
  using quotient_of_int [of "int n"] by simp

lemma binade_nat:
  assumes "0 < n"
  shows "binade (of_nat n) = int (floorlog 2 n) - 1"
proof -
  let ?l = "floorlog 2 n"
  have one: "floorlog 2 1 = 1" by (simp add: floorlog_def)
  have "of_nat (2 ^ (?l - 1)) \<le> (of_nat n :: rat)"
    using floorlog_two [OF assms] by (simp only: of_nat_le_iff)
  then have "(2::rat) powi (int ?l - 1) \<le> of_nat n"
    using powi_pred [OF floorlog_pos [OF assms]] by simp
  then show ?thesis unfolding binade_def by (simp add: quotient_of_nat one [simplified] Let_def)
qed

lemma round_double_nat:
  assumes "n < 2 ^ 53"
  shows "round_double (of_nat n) = Finite (of_nat n)"
proof (cases "n = 0")
  case False
  let ?l = "floorlog 2 n"
  have n: "0 < n" using False by simp
  have "(2::nat) ^ (?l - 1) < 2 ^ 53" using floorlog_two [OF n] assms by linarith
  then have "?l - 1 < 53" by (simp only: power_strict_increasing_iff)
  then have l: "?l \<le> 53" by simp
  let ?u = "int ?l - 53"
  have u: "max (binade \<bar>of_nat n :: rat\<bar> - 52) (- 1074) = ?u" using binade_nat [OF n] by simp
  have pw: "(2::rat) powi ?u * 2 ^ (53 - ?l) = 1"
    using l by (simp add: power_int_def nat_diff_distrib' field_simps)
  then have q: "(of_nat n :: rat) / 2 powi ?u = of_int (int n * 2 ^ (53 - ?l))"
    by (simp add: field_simps)
  have r: "of_int (int n * 2 ^ (53 - ?l)) * (2::rat) powi ?u = of_nat n"
    using pw by (simp add: field_simps)
  have "(of_nat n :: rat) < of_nat (2 ^ 53)" using assms by (simp only: of_nat_less_iff)
  also have "\<dots> \<le> 2 ^ 1024" by simp
  finally show ?thesis using n u unfolding round_double_def Let_def by (simp add: q r del: of_int_mult)
qed (simp add: round_double_def)

lemma digits_takeWhile: "\<forall>c \<in> set s. is_digit c \<Longrightarrow> takeWhile is_digit s = s \<and> dropWhile is_digit s = []"
  by (simp add: takeWhile_eq_all_conv dropWhile_eq_Nil_conv)

lemma js_number_nat [simp]:
  assumes "n < 2 ^ 53"
  shows "js_number (js_of_nat n) = Finite (of_nat n)"
proof -
  let ?s = "js_of_nat n"
  have d: "\<forall>c \<in> set ?s. is_digit c" by (rule js_of_nat_digits)
  obtain c r where s: "?s = c # r" using js_of_nat_nonempty by (cases ?s) auto
  have c: "is_digit c" "\<forall>x \<in> set r. is_digit x" using d s by auto
  have "r \<noteq> [] \<Longrightarrow> is_digit (hd r)" using c by (cases r) auto
  then have x: "\<not> (r \<noteq> [] \<and> hd r \<in> {120, 88})" "\<not> (r \<noteq> [] \<and> hd r \<in> {111, 79})"
    "\<not> (r \<noteq> [] \<and> hd r \<in> {98, 66})" by (auto simp: is_digit_def)
  have "c \<noteq> 45" "c \<noteq> 43" "?s \<noteq> js ''Infinity''" using c(1) s by (auto simp: is_digit_def js_def)
  moreover have "decimal_literal ?s = Some (of_nat n)"
    unfolding decimal_literal_def Let_def digits_takeWhile [OF d, THEN conjunct1]
      digits_takeWhile [OF d, THEN conjunct2] by (simp add: exponent_part_def)
  moreover have "trim (c # r) = c # r" using trim_js_of_nat [of n] s by simp
  ultimately show ?thesis
    using x s round_double_nat [OF assms] by (auto simp: js_number_def unsigned_number_def)
qed

end
