(* ===== verification/UrlState.thy ===== *)
theory UrlState
  imports Requests Aql Numbers
begin

text \<open>
  \<open>src/ui/src/lib/urlstate.ts\<close>: the state of the task console and of the queues directory in the
  URL, the tracked scan job and the task drawer. A \<open>URLSearchParams\<close> object is the list of its
  name-value pairs; the console relies on four laws of it, stated in the locale \<open>search_params\<close>.

  The lemmas show that what the console writes it reads back, that parameters it does not own are
  kept, and what the migration of older links makes of them.
\<close>

subsection \<open>URLSearchParams\<close>

text \<open>The conversion to scalar values: a lone surrogate becomes U+FFFD.\<close>

fun to_usv :: "jstring \<Rightarrow> jstring" where
  "to_usv [] = []"
| "to_usv (c # cs) =
     (if 0xDC00 \<le> c \<and> c \<le> 0xDFFF then 0xFFFD # to_usv cs
      else if c < 0xD800 \<or> 0xDBFF < c then c # to_usv cs
      else case cs of
        [] \<Rightarrow> [0xFFFD]
      | d # ds \<Rightarrow> if 0xDC00 \<le> d \<and> d \<le> 0xDFFF then c # d # to_usv ds else 0xFFFD # to_usv cs)"

type_synonym params = "(jstring \<times> jstring) list"

definition get_all :: "params \<Rightarrow> jstring \<Rightarrow> jstring list" where
  "get_all ps k = map snd (filter (\<lambda>p. fst p = k) ps)"

definition get_param :: "params \<Rightarrow> jstring \<Rightarrow> jstring option" where
  "get_param ps k = (case get_all ps k of [] \<Rightarrow> None | v # _ \<Rightarrow> Some v)"

definition delete_param :: "params \<Rightarrow> jstring \<Rightarrow> params" where
  "delete_param ps k = filter (\<lambda>p. fst p \<noteq> k) ps"

text \<open>\<open>set\<close>: the first pair of the name takes the value and the others go; else a pair is appended.\<close>

fun set_param :: "params \<Rightarrow> jstring \<Rightarrow> jstring \<Rightarrow> params" where
  "set_param [] k v = [(k, to_usv v)]"
| "set_param (p # ps) k v =
     (if fst p = k then (k, to_usv v) # delete_param ps k else p # set_param ps k v)"

text \<open>\<open>toString\<close>: application/x-www-form-urlencoded.\<close>

definition form_byte :: "nat \<Rightarrow> jstring" where
  "form_byte b =
     (if b = 32 then [43]
      else if 48 \<le> b \<and> b \<le> 57 \<or> 65 \<le> b \<and> b \<le> 90 \<or> 97 \<le> b \<and> b \<le> 122 \<or> b \<in> {42, 45, 46, 95} then [b]
      else [37, hex_digit (b div 16), hex_digit (b mod 16)])"

definition form_encode :: "jstring \<Rightarrow> jstring" where
  "form_encode s =
     concat (map form_byte (concat (map utf8 (case code_points s of Some ps \<Rightarrow> ps | None \<Rightarrow> []))))"

definition params_toString :: "params \<Rightarrow> jstring" where
  "params_toString ps = join (js ''&'') (map (\<lambda>(k, v). form_encode k @ js ''='' @ form_encode v) ps)"

subsection \<open>The laws the console relies on\<close>

locale search_params =
  fixes all :: "'p \<Rightarrow> jstring \<Rightarrow> jstring list"
    and put :: "'p \<Rightarrow> jstring \<Rightarrow> jstring \<Rightarrow> 'p"
    and remove :: "'p \<Rightarrow> jstring \<Rightarrow> 'p"
    and usv :: "jstring \<Rightarrow> jstring"
  assumes all_put: "all (put p k v) k' = (if k' = k then [usv v] else all p k')"
    and all_remove: "all (remove p k) k' = (if k' = k then [] else all p k')"
begin

lemma all_cleared: "all (foldl remove p ks) k' = (if k' \<in> set ks then [] else all p k')"
  by (induction ks arbitrary: p) (auto simp: all_remove)

text \<open>A writer: entries that are present are set, one after the other.\<close>

lemma all_written:
  "distinct (map fst es) \<Longrightarrow>
   all (foldl (\<lambda>q (k, w). case w of Some v \<Rightarrow> put q k v | None \<Rightarrow> q) p es) k' =
   (case map_of es k' of Some (Some v) \<Rightarrow> [usv v] | _ \<Rightarrow> all p k')"
proof (induction es arbitrary: p)
  case (Cons e es)
  obtain k w where e: "e = (k, w)" by fastforce
  from Cons e have "map_of es k = None" by (simp add: map_of_eq_None_iff)
  with Cons e show ?case by (auto simp: all_put split: option.split)
qed simp

lemma all_rewritten:
  "distinct (map fst es) \<Longrightarrow> set (map fst es) \<subseteq> set ks \<Longrightarrow>
   all (foldl (\<lambda>q (k, w). case w of Some v \<Rightarrow> put q k v | None \<Rightarrow> q) (foldl remove p ks) es) k' =
   (if k' \<in> set ks then (case map_of es k' of Some (Some v) \<Rightarrow> [usv v] | _ \<Rightarrow> []) else all p k')"
  using map_of_SomeD [of es k'] by (force simp: all_written all_cleared split: option.split)

end

lemma get_all_delete: "get_all (delete_param ps k) k' = (if k' = k then [] else get_all ps k')"
  by (induction ps) (auto simp: get_all_def delete_param_def)

interpretation url: search_params get_all set_param delete_param to_usv
proof unfold_locales
  show "get_all (set_param ps k v) k' = (if k' = k then [to_usv v] else get_all ps k')" for ps k v k'
  proof (induction ps)
    case (Cons p ps)
    have "get_all (p # qs) k' = (if fst p = k' then snd p # get_all qs k' else get_all qs k')" for p qs
      by (simp add: get_all_def)
    with Cons show ?case using get_all_delete [of ps k k'] by (cases p) auto
  qed (simp add: get_all_def)
qed (rule get_all_delete)

subsection \<open>Console state\<close>

datatype console_task_state = Active | Pending | Aggregating | Scheduled | Retry | Archived | Completed

datatype result_mode = Rows | GroupError | GroupType

definition CONSOLE_STATES :: "(jstring \<times> console_task_state) list" where
  "CONSOLE_STATES =
     [(js ''active'', Active), (js ''pending'', Pending), (js ''aggregating'', Aggregating),
      (js ''scheduled'', Scheduled), (js ''retry'', Retry), (js ''archived'', Archived),
      (js ''completed'', Completed)]"

definition PAGE_SIZES :: "int list" where
  "PAGE_SIZES = [20, 50, 100]"

definition RESULT_MODES :: "(jstring \<times> result_mode) list" where
  "RESULT_MODES = [(js ''rows'', Rows), (js ''group:error'', GroupError), (js ''group:type'', GroupType)]"

primrec mode_name :: "result_mode \<Rightarrow> jstring" where
  "mode_name Rows = js ''rows''"
| "mode_name GroupError = js ''group:error''"
| "mode_name GroupType = js ''group:type''"

record console_state =
  cs_q :: jstring
  cs_state :: console_task_state
  cs_queue :: jstring
  cs_meta :: "meta_pair list"
  cs_page :: int
  cs_size :: int
  cs_mode :: result_mode

definition DEFAULT_CONSOLE_STATE :: console_state where
  "DEFAULT_CONSOLE_STATE =
     \<lparr>cs_q = [], cs_state = Pending, cs_queue = js ''all'', cs_meta = [], cs_page = 0, cs_size = 20,
      cs_mode = Rows\<rparr>"

definition CONSOLE_PARAMS :: "jstring list" where
  "CONSOLE_PARAMS =
     [js ''q'', js ''state'', js ''queue'', js ''meta'', js ''page'', js ''size'', js ''mode'']"

definition index_of :: "nat \<Rightarrow> jstring \<Rightarrow> nat option" where
  "index_of c s = (if c \<in> set s then Some (length (takeWhile (\<lambda>x. x \<noteq> c) s)) else None)"

definition last_index_of :: "nat \<Rightarrow> jstring \<Rightarrow> nat option" where
  "last_index_of c s =
     (if c \<in> set s then Some (length s - 1 - length (takeWhile (\<lambda>x. x \<noteq> c) (rev s))) else None)"

definition parseMetaParam :: "jstring \<Rightarrow> meta_pair list" where
  "parseMetaParam raw = (case index_of 58 raw of
     Some i \<Rightarrow> if i = 0 then [] else [\<lparr>mp_key = take i raw, mp_value = drop (Suc i) raw\<rparr>]
   | None \<Rightarrow> [])"

definition serializeMetaPair :: "meta_pair \<Rightarrow> jstring" where
  "serializeMetaPair p = mp_key p @ js '':'' @ mp_value p"

definition deriveFromQuery :: "jstring \<Rightarrow> console_task_state \<times> jstring \<times> meta_pair list" where
  "deriveFromQuery q =
     (let stateClause = getClause q (js ''state'');
          queueClause = getClause q (js ''queue'');
          state = (case stateClause of Some c \<Rightarrow> cl_value c | None \<Rightarrow> [])
      in ((case map_of CONSOLE_STATES state of Some s \<Rightarrow> s | None \<Rightarrow> cs_state DEFAULT_CONSOLE_STATE),
          (case queueClause of
             Some c \<Rightarrow> if cl_value c \<noteq> [] then cl_value c else cs_queue DEFAULT_CONSOLE_STATE
           | None \<Rightarrow> cs_queue DEFAULT_CONSOLE_STATE),
          metaClausesOf q))"

definition param_text :: "params \<Rightarrow> jstring \<Rightarrow> jstring" where
  "param_text ps k = (case get_param ps k of Some v \<Rightarrow> v | None \<Rightarrow> [])"

text \<open>The query with the parameters of older links folded into it.\<close>

definition migrated_query :: "params \<Rightarrow> jstring" where
  "migrated_query ps =
     (let q = param_text ps (js ''q'');
          legacyState = param_text ps (js ''state'');
          legacyQueue = param_text ps (js ''queue'');
          legacyMeta = concat (map parseMetaParam (get_all ps (js ''meta'')))
      in if legacyState \<noteq> [] \<or> legacyQueue \<noteq> [] \<or> length legacyMeta > 0
         then aqlFromLegacy
           \<lparr>lp_queue = (if getClause q (js ''queue'') \<noteq> None then None else Some legacyQueue),
            lp_state = (if getClause q (js ''state'') = None \<and> map_of CONSOLE_STATES legacyState \<noteq> None
                        then Some legacyState else None),
            lp_meta = filter (\<lambda>p. \<not> list_ex (\<lambda>x. mp_key x = mp_key p \<and> mp_value x = mp_value p)
                        (metaClausesOf q)) legacyMeta,
            lp_freeText = Some q\<rparr>
         else q)"

definition page_of :: "number \<Rightarrow> int" where
  "page_of n = (case n of
     Finite x \<Rightarrow> if x = of_int \<lfloor>x\<rfloor> \<and> x > 1 then \<lfloor>x\<rfloor> - 1 else 0
   | _ \<Rightarrow> 0)"

text \<open>\<open>options.includes(n) ? n : default\<close>\<close>

definition one_of :: "int list \<Rightarrow> int \<Rightarrow> number \<Rightarrow> int" where
  "one_of options fallback n = (case n of
     Finite x \<Rightarrow> (case List.find (\<lambda>i. of_int i = x) options of Some i \<Rightarrow> i | None \<Rightarrow> fallback)
   | _ \<Rightarrow> fallback)"

definition console_state_of :: "jstring \<Rightarrow> int \<Rightarrow> int \<Rightarrow> result_mode \<Rightarrow> console_state" where
  "console_state_of q page size' mode =
     (let (state, queue, meta) = deriveFromQuery q
      in \<lparr>cs_q = q, cs_state = state, cs_queue = queue, cs_meta = meta, cs_page = page,
          cs_size = size', cs_mode = mode\<rparr>)"

definition parseConsoleState :: "params \<Rightarrow> console_state" where
  "parseConsoleState ps =
     (let mode = param_text ps (js ''mode'');
          size' = number_param (get_param ps (js ''size''));
          page = number_param (get_param ps (js ''page''))
      in console_state_of (migrated_query ps) (page_of page)
           (one_of PAGE_SIZES (cs_size DEFAULT_CONSOLE_STATE) size')
           (case map_of RESULT_MODES mode of Some m \<Rightarrow> m | None \<Rightarrow> cs_mode DEFAULT_CONSOLE_STATE))"

definition set_when :: "bool \<Rightarrow> jstring \<Rightarrow> jstring \<Rightarrow> params \<Rightarrow> params" where
  "set_when b k v ps = (if b then set_param ps k v else ps)"

definition serializeConsoleState :: "console_state \<Rightarrow> params \<Rightarrow> params" where
  "serializeConsoleState s base =
     (let ps = foldl delete_param base CONSOLE_PARAMS;
          ps = set_when (cs_q s \<noteq> []) (js ''q'') (cs_q s) ps;
          ps = set_when (cs_page s > 0) (js ''page'') (js_of_int (cs_page s + 1)) ps;
          ps = set_when (cs_size s \<noteq> cs_size DEFAULT_CONSOLE_STATE) (js ''size'') (js_of_int (cs_size s)) ps
      in set_when (cs_mode s \<noteq> cs_mode DEFAULT_CONSOLE_STATE) (js ''mode'') (mode_name (cs_mode s)) ps)"

subsection \<open>Queues directory\<close>

datatype sort_key = SName | SPending | SActive | SScheduled | SRetry | SArchived | SCompleted
  | SOldestPendingAge | SLatency | SProcessedToday | SFailedToday | SErrorRate | SConsumers

datatype sort_dir = Asc | Desc

definition DIRECTORY_SORT_KEYS :: "(jstring \<times> sort_key) list" where
  "DIRECTORY_SORT_KEYS =
     [(js ''name'', SName), (js ''pending'', SPending), (js ''active'', SActive),
      (js ''scheduled'', SScheduled), (js ''retry'', SRetry), (js ''archived'', SArchived),
      (js ''completed'', SCompleted), (js ''oldest_pending_age'', SOldestPendingAge),
      (js ''latency'', SLatency), (js ''processed_today'', SProcessedToday),
      (js ''failed_today'', SFailedToday), (js ''error_rate'', SErrorRate),
      (js ''consumers'', SConsumers)]"

primrec sort_name :: "sort_key \<Rightarrow> jstring" where
  "sort_name SName = js ''name''"
| "sort_name SPending = js ''pending''"
| "sort_name SActive = js ''active''"
| "sort_name SScheduled = js ''scheduled''"
| "sort_name SRetry = js ''retry''"
| "sort_name SArchived = js ''archived''"
| "sort_name SCompleted = js ''completed''"
| "sort_name SOldestPendingAge = js ''oldest_pending_age''"
| "sort_name SLatency = js ''latency''"
| "sort_name SProcessedToday = js ''processed_today''"
| "sort_name SFailedToday = js ''failed_today''"
| "sort_name SErrorRate = js ''error_rate''"
| "sort_name SConsumers = js ''consumers''"

primrec dir_name :: "sort_dir \<Rightarrow> jstring" where
  "dir_name Asc = js ''asc''"
| "dir_name Desc = js ''desc''"

definition DIRECTORY_LIMITS :: "int list" where
  "DIRECTORY_LIMITS = [50, 100, 200]"

record directory_state =
  ds_sort :: sort_key
  ds_dir :: sort_dir
  ds_f :: jstring
  ds_cursor :: jstring
  ds_limit :: int

definition DEFAULT_DIRECTORY_STATE :: directory_state where
  "DEFAULT_DIRECTORY_STATE =
     \<lparr>ds_sort = SOldestPendingAge, ds_dir = Desc, ds_f = [], ds_cursor = [], ds_limit = 100\<rparr>"

definition DIRECTORY_PARAMS :: "jstring list" where
  "DIRECTORY_PARAMS = [js ''sort'', js ''dir'', js ''f'', js ''cursor'', js ''limit'']"

definition parseDirectoryState :: "params \<Rightarrow> directory_state" where
  "parseDirectoryState ps =
     (let sort' = param_text ps (js ''sort'');
          dir = param_text ps (js ''dir'');
          limit = number_param (get_param ps (js ''limit''))
      in \<lparr>ds_sort = (case map_of DIRECTORY_SORT_KEYS sort' of
            Some k \<Rightarrow> k | None \<Rightarrow> ds_sort DEFAULT_DIRECTORY_STATE),
          ds_dir = (if dir = js ''asc'' then Asc else if dir = js ''desc'' then Desc
                    else ds_dir DEFAULT_DIRECTORY_STATE),
          ds_f = param_text ps (js ''f''),
          ds_cursor = param_text ps (js ''cursor''),
          ds_limit = one_of DIRECTORY_LIMITS (ds_limit DEFAULT_DIRECTORY_STATE) limit\<rparr>)"

definition serializeDirectoryState :: "directory_state \<Rightarrow> params \<Rightarrow> params" where
  "serializeDirectoryState s base =
     (let ps = foldl delete_param base DIRECTORY_PARAMS;
          ps = set_when (ds_sort s \<noteq> ds_sort DEFAULT_DIRECTORY_STATE) (js ''sort'') (sort_name (ds_sort s)) ps;
          ps = set_when (ds_dir s \<noteq> ds_dir DEFAULT_DIRECTORY_STATE) (js ''dir'') (dir_name (ds_dir s)) ps;
          ps = set_when (ds_f s \<noteq> []) (js ''f'') (ds_f s) ps;
          ps = set_when (ds_cursor s \<noteq> []) (js ''cursor'') (ds_cursor s) ps
      in set_when (ds_limit s \<noteq> ds_limit DEFAULT_DIRECTORY_STATE) (js ''limit'') (js_of_int (ds_limit s)) ps)"

subsection \<open>Scan job and task drawer\<close>

definition SCANJOB_PARAM :: jstring where
  "SCANJOB_PARAM = js ''scanjob''"

definition parseScanJob :: "params \<Rightarrow> jstring option" where
  "parseScanJob ps =
     (case get_param ps SCANJOB_PARAM of Some r \<Rightarrow> if r \<noteq> [] then Some r else None | None \<Rightarrow> None)"

definition withScanJob :: "params \<Rightarrow> jstring option \<Rightarrow> params" where
  "withScanJob ps i = (case i of
     Some j \<Rightarrow> if j \<noteq> [] then set_param ps SCANJOB_PARAM j else delete_param ps SCANJOB_PARAM
   | None \<Rightarrow> delete_param ps SCANJOB_PARAM)"

record peek_target =
  pt_queue :: jstring
  pt_id :: jstring

definition parsePeek :: "jstring option \<Rightarrow> peek_target option" where
  "parsePeek raw = (case raw of
     None \<Rightarrow> None
   | Some r \<Rightarrow>
       if r = [] then None
       else (case last_index_of 47 r of
         None \<Rightarrow> None
       | Some i \<Rightarrow>
           if i = 0 \<or> i = length r - 1 then None
           else Some \<lparr>pt_queue = take i r, pt_id = drop (Suc i) r\<rparr>))"

definition serializePeek :: "peek_target \<Rightarrow> jstring" where
  "serializePeek t = pt_queue t @ js ''/'' @ pt_id t"

text \<open>The parameters of the canonical link of a task, and the search string made of them.\<close>

definition taskDrawerParams :: "jstring \<Rightarrow> jstring \<Rightarrow> params" where
  "taskDrawerParams queue taskId =
     set_param
       (serializeConsoleState
         (DEFAULT_CONSOLE_STATE\<lparr>cs_q := aqlFromLegacy
            \<lparr>lp_queue = Some queue, lp_state = None, lp_meta = [], lp_freeText = None\<rparr>\<rparr>) [])
       (js ''peek'') (serializePeek \<lparr>pt_queue = queue, pt_id = taskId\<rparr>)"

definition taskDrawerSearch :: "jstring \<Rightarrow> jstring \<Rightarrow> jstring" where
  "taskDrawerSearch queue taskId = js ''?'' @ params_toString (taskDrawerParams queue taskId)"


subsection \<open>Strings without a lone surrogate\<close>

fun well_formed :: "jstring \<Rightarrow> bool" where
  "well_formed [] = True"
| "well_formed (c # cs) =
     (if 0xDC00 \<le> c \<and> c \<le> 0xDFFF then False
      else if c < 0xD800 \<or> 0xDBFF < c then well_formed cs
      else case cs of [] \<Rightarrow> False | d # ds \<Rightarrow> 0xDC00 \<le> d \<and> d \<le> 0xDFFF \<and> well_formed ds)"

definition plain_unit :: "nat \<Rightarrow> bool" where
  "plain_unit c \<longleftrightarrow> c < 0xD800 \<or> 0xDFFF < c"

lemma to_usv_well_formed [simp]: "well_formed s \<Longrightarrow> to_usv s = s"
  by (induction s rule: well_formed.induct) (auto split: if_splits list.splits)

lemma well_formed_to_usv [simp]: "well_formed (to_usv s)"
  by (induction s rule: to_usv.induct) (auto split: list.split)

lemma well_formed_Cons_plain [simp]: "plain_unit c \<Longrightarrow> well_formed (c # s) = well_formed s"
  by (auto simp: plain_unit_def)

lemma well_formed_append [intro]: "well_formed s \<Longrightarrow> well_formed t \<Longrightarrow> well_formed (s @ t)"
  by (induction s rule: well_formed.induct) (auto split: if_splits list.splits)

lemma well_formed_parts: "well_formed (s @ c # t) \<Longrightarrow> plain_unit c \<Longrightarrow> well_formed s \<and> well_formed t"
proof (induction s rule: well_formed.induct)
  case (2 x xs)
  consider "0xDC00 \<le> x \<and> x \<le> 0xDFFF" | "plain_unit x" | "\<not> (0xDC00 \<le> x \<and> x \<le> 0xDFFF)" "\<not> plain_unit x"
    by blast
  then show ?case
  proof cases
    case 2
    then have x: "\<not> (0xDC00 \<le> x \<and> x \<le> 0xDFFF)" "x < 0xD800 \<or> 0xDBFF < x" by (auto simp: plain_unit_def)
    from 2 "2.prems" have "well_formed (xs @ c # t)" by (simp del: well_formed.simps(2))
    from "2.IH"(1) [OF x this "2.prems"(2)] 2 show ?thesis by (simp del: well_formed.simps(2))
  next
    case 3
    then have x: "\<not> (x < 0xD800 \<or> 0xDBFF < x)" by (auto simp: plain_unit_def)
    with 3 "2.prems" "2.IH"(2) [OF 3(1) x] show ?thesis
      by (cases xs) (auto simp: plain_unit_def)
  qed (use "2.prems" in simp)
qed (auto simp: plain_unit_def split: if_splits)

lemma well_formed_plain: "\<forall>c \<in> set s. plain_unit c \<Longrightarrow> well_formed s"
  by (induction s) (simp_all del: well_formed.simps(2))

lemma well_formed_js [simp]: "well_formed (js s)"
proof (rule well_formed_plain, rule ballI)
  fix c assume "c \<in> set (js s)"
  then obtain d :: char where "c = of_char d" by (auto simp: js_def)
  then have "c < 256" by simp
  then show "plain_unit c" by (simp add: plain_unit_def)
qed

lemma well_formed_strip: "\<forall>c \<in> set a. plain_unit c \<Longrightarrow> well_formed (a @ b) \<Longrightarrow> well_formed b"
  by (induction a) (simp_all del: well_formed.simps(2))

lemma well_formed_strip_end:
  assumes "\<forall>c \<in> set b. plain_unit c" "well_formed (a @ b)"
  shows "well_formed a"
  using assms well_formed_parts [of a "hd b" "tl b"] by (cases b) (simp_all del: well_formed.simps(2))

lemma split_end: "s = rev (dropWhile P (rev s)) @ rev (takeWhile P (rev s))"
  by (metis rev_append rev_rev_ident takeWhile_dropWhile_id)

lemma is_ws_plain: "is_ws c \<Longrightarrow> plain_unit c"
  by (auto simp: is_ws_def plain_unit_def)

lemma well_formed_trim: "well_formed s \<Longrightarrow> well_formed (trim s)"
proof -
  assume s: "well_formed s"
  have t: "s = takeWhile is_ws s @ trim_start s" by (simp add: trim_start_def)
  have "well_formed (trim_start s)"
    by (rule well_formed_strip [of "takeWhile is_ws s"])
      (use s t in \<open>auto dest!: set_takeWhileD simp: is_ws_plain\<close>)
  moreover have "trim_start s = trim s @ rev (takeWhile is_ws (rev (trim_start s)))"
    using split_end [of "trim_start s" is_ws] by (simp add: trim_def trim_start_def)
  ultimately show ?thesis
    using well_formed_strip_end [of "rev (takeWhile is_ws (rev (trim_start s)))" "trim s"]
    by (metis is_ws_plain set_rev set_takeWhileD)
qed

lemma well_formed_quote [intro]: "well_formed v \<Longrightarrow> well_formed (quoteAqlValue v)"
  unfolding quoteAqlValue_def by (auto simp: plain_unit_def)

lemma well_formed_join: "well_formed sep \<Longrightarrow> list_all well_formed ts \<Longrightarrow> well_formed (join sep ts)"
  by (induction sep ts rule: join.induct) auto

definition well_formed_pair :: "meta_pair \<Rightarrow> bool" where
  "well_formed_pair p \<longleftrightarrow> well_formed (mp_key p) \<and> well_formed (mp_value p)"

lemma well_formed_legacy:
  assumes "\<And>q. lp_queue parts = Some q \<Longrightarrow> well_formed q" "\<And>s. lp_state parts = Some s \<Longrightarrow> well_formed s"
    "\<And>t. lp_freeText parts = Some t \<Longrightarrow> well_formed t" "list_all well_formed_pair (lp_meta parts)"
  shows "well_formed (aqlFromLegacy parts)"
proof -
  let ?free = "trim (case lp_freeText parts of Some t \<Rightarrow> t | None \<Rightarrow> [])"
  let ?ts = "(case lp_queue parts of
               Some q \<Rightarrow> if q \<noteq> [] \<and> q \<noteq> js ''all'' then [js ''queue='' @ quoteAqlValue q] else []
             | None \<Rightarrow> []) @
            (case lp_state parts of
               Some s \<Rightarrow> if s \<noteq> [] then [js ''state='' @ s] else []
             | None \<Rightarrow> []) @
            map (\<lambda>p. js ''meta.'' @ mp_key p @ js ''='' @ quoteAqlValue (mp_value p)) (lp_meta parts)"
  have free: "well_formed ?free" using assms(3) by (auto intro!: well_formed_trim split: option.split)
  have q: "well_formed (if list_ex is_ws ?free then [34] @ ?free @ [34] else ?free)"
    using well_formed_quote [OF free] by (simp add: quoteAqlValue_def)
  have "list_all well_formed ?ts"
    using assms by (auto simp: list_all_iff well_formed_pair_def intro!: well_formed_append split: option.split)
  then have "well_formed (join (js '' '') ?ts)"
    "well_formed (join (js '' '') (?ts @ [if list_ex is_ws ?free then [34] @ ?free @ [34] else ?free]))"
    using q by (intro well_formed_join; simp)+
  with free show ?thesis by (simp add: aqlFromLegacy_def Let_def)
qed

lemma index_of_split:
  assumes "index_of c s = Some i"
  shows "s = take i s @ c # drop (Suc i) s"
proof -
  obtain a b where s: "s = a @ c # b" "c \<notin> set a"
    using assms split_list_first [of c s] by (auto simp: index_of_def split: if_splits)
  then have "takeWhile (\<lambda>x. x \<noteq> c) s = a" by (auto simp: takeWhile_append)
  with assms have "i = length a" by (auto simp: index_of_def split: if_splits)
  with s show ?thesis by simp
qed

lemma parseMetaParam_well_formed: "well_formed raw \<Longrightarrow> list_all well_formed_pair (parseMetaParam raw)"
proof (cases "index_of 58 raw")
  case (Some i)
  assume "well_formed raw"
  then have "well_formed (take i raw @ 58 # drop (Suc i) raw)" using index_of_split [OF Some] by simp
  then have "well_formed (take i raw) \<and> well_formed (drop (Suc i) raw)"
    by (rule well_formed_parts) (simp add: plain_unit_def)
  with Some show ?thesis by (simp add: parseMetaParam_def well_formed_pair_def)
qed (simp add: parseMetaParam_def)

text \<open>What every \<open>URLSearchParams\<close> object guarantees of its values.\<close>

definition well_formed_params :: "params \<Rightarrow> bool" where
  "well_formed_params ps \<longleftrightarrow> list_all (\<lambda>p. well_formed (snd p)) ps"

lemma well_formed_set_param: "well_formed_params ps \<Longrightarrow> well_formed_params (set_param ps k v)"
  by (induction ps)
    (auto simp: well_formed_params_def well_formed_to_usv delete_param_def list_all_iff)

lemma get_all_well_formed: "well_formed_params ps \<Longrightarrow> list_all well_formed (get_all ps k)"
  by (auto simp: well_formed_params_def get_all_def list_all_iff)

lemma param_text_well_formed: "well_formed_params ps \<Longrightarrow> well_formed (param_text ps k)"
  using get_all_well_formed [of ps k]
  by (auto simp: param_text_def get_param_def split: list.split option.split)

lemma migrated_query_well_formed:
  assumes "well_formed_params ps"
  shows "well_formed (migrated_query ps)"
proof -
  note t = param_text_well_formed [OF assms]
  have "list_all well_formed_pair (concat (map parseMetaParam (get_all ps k)))" for k
    using get_all_well_formed [OF assms, of k] parseMetaParam_well_formed
    by (fastforce simp: list_all_iff)
  then have m: "list_all well_formed_pair (filter P (concat (map parseMetaParam (get_all ps k))))" for P k
    by (auto simp: list_all_iff)
  show ?thesis
    unfolding migrated_query_def Let_def
    by (auto intro!: well_formed_legacy t m split: if_splits)
qed


subsection \<open>Reading back what was written\<close>

lemma js_eq [simp]: "js s = js t \<longleftrightarrow> s = t"
  unfolding js_def by (rule inj_map_eq_map) (simp add: inj_on_def)

lemma Nil_eq_js [simp]: "[] = js s \<longleftrightarrow> s = []"
  by (auto simp: js_def)

lemma get_param_single: "get_all ps k = [v] \<Longrightarrow> get_param ps k = Some v"
  "get_all ps k = [] \<Longrightarrow> get_param ps k = None"
  by (simp_all add: get_param_def)

lemma console_written:
  "serializeConsoleState s base =
   foldl (\<lambda>q (k, w). case w of Some v \<Rightarrow> set_param q k v | None \<Rightarrow> q) (foldl delete_param base CONSOLE_PARAMS)
     [(js ''q'', if cs_q s \<noteq> [] then Some (cs_q s) else None),
      (js ''page'', if cs_page s > 0 then Some (js_of_int (cs_page s + 1)) else None),
      (js ''size'', if cs_size s \<noteq> 20 then Some (js_of_int (cs_size s)) else None),
      (js ''mode'', if cs_mode s \<noteq> Rows then Some (mode_name (cs_mode s)) else None)]"
  by (simp add: serializeConsoleState_def set_when_def Let_def DEFAULT_CONSOLE_STATE_def)

lemma get_all_written:
  "get_all (foldl (\<lambda>q (k, w). case w of Some v \<Rightarrow> set_param q k v | None \<Rightarrow> q) (foldl delete_param base CONSOLE_PARAMS)
      [(js ''q'', a), (js ''page'', b), (js ''size'', c), (js ''mode'', d)]) k =
   (case (if k = js ''q'' then a else if k = js ''page'' then b else if k = js ''size'' then c
          else if k = js ''mode'' then d else None) of
      Some v \<Rightarrow> [to_usv v]
    | None \<Rightarrow> if k \<in> set CONSOLE_PARAMS then [] else get_all base k)"
  by (subst url.all_rewritten)
    (simp_all add: CONSOLE_PARAMS_def split: option.split)

lemma get_all_console:
  "get_all (serializeConsoleState s base) k =
   (if k = js ''q'' then (if cs_q s \<noteq> [] then [to_usv (cs_q s)] else [])
    else if k = js ''page'' then (if cs_page s > 0 then [to_usv (js_of_int (cs_page s + 1))] else [])
    else if k = js ''size'' then (if cs_size s \<noteq> 20 then [to_usv (js_of_int (cs_size s))] else [])
    else if k = js ''mode'' then (if cs_mode s \<noteq> Rows then [to_usv (mode_name (cs_mode s))] else [])
    else if k \<in> set CONSOLE_PARAMS then [] else get_all base k)"
  unfolding console_written get_all_written by (simp add: CONSOLE_PARAMS_def)

lemma js_of_int_plain: "well_formed (js_of_int i)"
proof (rule well_formed_plain, rule ballI)
  fix c assume "c \<in> set (js_of_int i)"
  then have "is_digit c \<or> c = 45"
    using js_of_nat_digits [of "nat i"] js_of_nat_digits [of "nat (- i)"]
    by (auto simp: js_of_int_def split: if_splits)
  then show "plain_unit c" by (auto simp: is_digit_def plain_unit_def)
qed

lemma number_of_int: "0 \<le> i \<Longrightarrow> i < 2 ^ 53 \<Longrightarrow> js_number (js_of_int i) = Finite (of_int i)"
  using js_number_nat [of "nat i"] by (simp add: js_of_int_def nat_less_iff)

lemma one_of_member:
  assumes "i \<in> set options"
  shows "one_of options fallback (Finite (of_int i)) = i"
proof -
  have "List.find (\<lambda>j. of_int j = (of_int i :: rat)) options = Some i"
    using assms by (induction options) auto
  then show ?thesis by (simp add: one_of_def)
qed

lemma page_read:
  assumes "0 \<le> p" "p < 2 ^ 53 - 1"
  shows "page_of (number_param (if p > 0 then Some (js_of_int (p + 1)) else None)) = p"
proof (cases "p > 0")
  case True
  then have "js_number (js_of_int (p + 1)) = Finite (of_int (p + 1))"
    using assms by (intro number_of_int) simp_all
  with True show ?thesis by (simp add: number_param_def page_of_def del: of_int_add)
qed (use assms in \<open>simp add: number_param_def page_of_def\<close>)

lemma mode_named: "map_of RESULT_MODES (mode_name m) = Some m"
  by (cases m) (simp_all add: RESULT_MODES_def)

lemma mode_unnamed: "map_of RESULT_MODES [] = None"
  by (simp add: RESULT_MODES_def)

lemma mode_well_formed: "well_formed (mode_name m)"
  by (cases m) (simp_all only: mode_name.simps well_formed_js)

lemma state_of_fields:
  "cs_q (console_state_of q p z m) = q" "cs_page (console_state_of q p z m) = p"
  "cs_size (console_state_of q p z m) = z" "cs_mode (console_state_of q p z m) = m"
  by (simp_all add: console_state_of_def split_beta)

lemma console_reads_back:
  assumes "well_formed q" "0 \<le> p" "p < 2 ^ 53 - 1" "z \<in> set PAGE_SIZES"
  shows "parseConsoleState (serializeConsoleState (console_state_of q p z m) base) = console_state_of q p z m"
proof -
  let ?s = "console_state_of q p z m" let ?ps = "serializeConsoleState ?s base"
  note get = get_all_console [of ?s base, unfolded state_of_fields]
  have q: "param_text ?ps (js ''q'') = q"
    using assms(1) by (simp add: param_text_def get_param_def get)
  have legacy: "param_text ?ps (js ''state'') = []" "param_text ?ps (js ''queue'') = []"
      "get_all ?ps (js ''meta'') = []"
    by (simp_all add: param_text_def get_param_def get CONSOLE_PARAMS_def)
  have "migrated_query ?ps = q" by (simp add: migrated_query_def q legacy)
  moreover have "get_param ?ps (js ''page'') = (if p > 0 then Some (js_of_int (p + 1)) else None)"
    by (simp add: get_param_def get js_of_int_plain)
  moreover have "one_of PAGE_SIZES 20 (number_param (get_param ?ps (js ''size''))) = z"
  proof -
    have "get_param ?ps (js ''size'') = (if z \<noteq> 20 then Some (js_of_int z) else None)"
      by (simp add: get_param_def get js_of_int_plain)
    moreover have "js_number (js_of_int z) = Finite (of_int z)" "one_of PAGE_SIZES 20 (Finite 0) = 20"
      using assms(4) by (auto simp: PAGE_SIZES_def one_of_def intro!: number_of_int)
    ultimately show ?thesis
      using one_of_member [OF assms(4), of 20] by (simp add: number_param_def)
  qed
  moreover have "param_text ?ps (js ''mode'') = (if m \<noteq> Rows then mode_name m else [])"
    using mode_well_formed by (simp add: param_text_def get_param_def get)
  ultimately show ?thesis
    using page_read [OF assms(2,3)] mode_named mode_unnamed
    by (simp add: parseConsoleState_def DEFAULT_CONSOLE_STATE_def)
qed

lemma page_of_nonneg: "0 \<le> page_of n"
  by (cases n) (auto simp: page_of_def le_floor_iff)

lemma one_of_in: "one_of options fallback n \<in> set options \<union> {fallback}"
  by (cases n) (auto simp: one_of_def find_Some_iff split: option.split)


text \<open>The pairs of other names, in order.\<close>

lemma set_param_others: "K k \<Longrightarrow> filter (\<lambda>p. \<not> K (fst p)) (set_param ps k v) = filter (\<lambda>p. \<not> K (fst p)) ps"
  by (induction ps) (auto simp: delete_param_def intro!: filter_cong)

lemma delete_params_others:
  "\<forall>k \<in> set ks. K k \<Longrightarrow> filter (\<lambda>p. \<not> K (fst p)) (foldl delete_param ps ks) = filter (\<lambda>p. \<not> K (fst p)) ps"
  by (induction ks arbitrary: ps) (auto simp: delete_param_def intro!: filter_cong)

lemma rewritten_others:
  "\<forall>k \<in> set (map fst es). k \<in> set ks \<Longrightarrow>
   filter (\<lambda>p. fst p \<notin> set ks)
     (foldl (\<lambda>q (k, w). case w of Some v \<Rightarrow> set_param q k v | None \<Rightarrow> q) (foldl delete_param ps ks) es) =
   filter (\<lambda>p. fst p \<notin> set ks) ps"
proof (induction es rule: rev_induct)
  case Nil
  then show ?case using delete_params_others [of ks "\<lambda>k. k \<in> set ks"] by simp
next
  case (snoc e es)
  then show ?case
    using set_param_others [of "\<lambda>k. k \<in> set ks" "fst e"]
    by (auto simp: split_beta split: option.split)
qed

text \<open>C12. A console link reproduces the view: the state parsed from any URL, written back over any base
  parameters and parsed again, is the same state; the written URL has no parameter of the older
  links, and the pairs of the names the console does not own are kept, in order. The page number is
  bounded by the integers a double holds exactly.\<close>

theorem console_url_round_trip:
  assumes "well_formed_params ps" and "cs_page (parseConsoleState ps) < 2 ^ 53 - 1"
  shows "parseConsoleState (serializeConsoleState (parseConsoleState ps) base) = parseConsoleState ps \<and>
    filter (\<lambda>p. fst p \<in> {js ''state'', js ''queue'', js ''meta''})
      (serializeConsoleState (parseConsoleState ps) base) = [] \<and>
    filter (\<lambda>p. fst p \<notin> set CONSOLE_PARAMS) (serializeConsoleState (parseConsoleState ps) base) =
      filter (\<lambda>p. fst p \<notin> set CONSOLE_PARAMS) base"
proof (intro conjI)
  let ?z = "one_of PAGE_SIZES (cs_size DEFAULT_CONSOLE_STATE) (number_param (get_param ps (js ''size'')))"
  let ?out = "serializeConsoleState (parseConsoleState ps) base"
  have "?z \<in> set PAGE_SIZES"
    using one_of_in [of PAGE_SIZES] by (auto simp: PAGE_SIZES_def DEFAULT_CONSOLE_STATE_def)
  then show "parseConsoleState ?out = parseConsoleState ps"
    using assms(2) unfolding parseConsoleState_def [of ps] Let_def state_of_fields
    by (intro console_reads_back migrated_query_well_formed assms(1) page_of_nonneg)
  have "get_all ?out (js n) = []" if "n \<in> {''state'', ''queue'', ''meta''}" for n
    using that by (auto simp: get_all_console CONSOLE_PARAMS_def)
  then show "filter (\<lambda>p. fst p \<in> {js ''state'', js ''queue'', js ''meta''}) ?out = []"
    unfolding get_all_def filter_empty_conv map_is_Nil_conv by blast
  show "filter (\<lambda>p. fst p \<notin> set CONSOLE_PARAMS) ?out = filter (\<lambda>p. fst p \<notin> set CONSOLE_PARAMS) base"
    unfolding console_written by (rule rewritten_others) (simp add: CONSOLE_PARAMS_def)
qed

lemma directory_written:
  "serializeDirectoryState s base =
   foldl (\<lambda>q (k, w). case w of Some v \<Rightarrow> set_param q k v | None \<Rightarrow> q) (foldl delete_param base DIRECTORY_PARAMS)
     [(js ''sort'', if ds_sort s \<noteq> SOldestPendingAge then Some (sort_name (ds_sort s)) else None),
      (js ''dir'', if ds_dir s \<noteq> Desc then Some (dir_name (ds_dir s)) else None),
      (js ''f'', if ds_f s \<noteq> [] then Some (ds_f s) else None),
      (js ''cursor'', if ds_cursor s \<noteq> [] then Some (ds_cursor s) else None),
      (js ''limit'', if ds_limit s \<noteq> 100 then Some (js_of_int (ds_limit s)) else None)]"
  by (simp add: serializeDirectoryState_def set_when_def Let_def DEFAULT_DIRECTORY_STATE_def)

lemma get_all_directory_written:
  "get_all (foldl (\<lambda>q (k, w). case w of Some v \<Rightarrow> set_param q k v | None \<Rightarrow> q) (foldl delete_param base DIRECTORY_PARAMS)
      [(js ''sort'', a), (js ''dir'', b), (js ''f'', c), (js ''cursor'', d), (js ''limit'', e)]) k =
   (case (if k = js ''sort'' then a else if k = js ''dir'' then b else if k = js ''f'' then c
          else if k = js ''cursor'' then d else if k = js ''limit'' then e else None) of
      Some v \<Rightarrow> [to_usv v]
    | None \<Rightarrow> if k \<in> set DIRECTORY_PARAMS then [] else get_all base k)"
  by (subst url.all_rewritten)
    (simp_all add: DIRECTORY_PARAMS_def split: option.split)

lemma sort_named: "map_of DIRECTORY_SORT_KEYS (sort_name k) = Some k"
  by (cases k) (simp_all add: DIRECTORY_SORT_KEYS_def)

lemma sort_unnamed: "map_of DIRECTORY_SORT_KEYS [] = None"
  by (simp add: DIRECTORY_SORT_KEYS_def)

lemma sort_well_formed: "well_formed (sort_name k)" "well_formed (dir_name d)"
  by (cases k; simp only: sort_name.simps well_formed_js) (cases d; simp only: dir_name.simps well_formed_js)

text \<open>The queues directory reads back exactly the sort, direction, filter, cursor and limit it wrote
  into the URL, and keeps the parameters it does not own.\<close>

theorem directory_url_round_trip:
  assumes "well_formed (ds_f s)" and "well_formed (ds_cursor s)" and "ds_limit s \<in> set DIRECTORY_LIMITS"
  shows "parseDirectoryState (serializeDirectoryState s base) = s \<and>
    filter (\<lambda>p. fst p \<notin> set DIRECTORY_PARAMS) (serializeDirectoryState s base) =
      filter (\<lambda>p. fst p \<notin> set DIRECTORY_PARAMS) base"
proof
  let ?ps = "serializeDirectoryState s base"
  have "get_all ?ps k = (case (if k = js ''sort'' then if ds_sort s \<noteq> SOldestPendingAge then Some (sort_name (ds_sort s)) else None
        else if k = js ''dir'' then if ds_dir s \<noteq> Desc then Some (dir_name (ds_dir s)) else None
        else if k = js ''f'' then if ds_f s \<noteq> [] then Some (ds_f s) else None
        else if k = js ''cursor'' then if ds_cursor s \<noteq> [] then Some (ds_cursor s) else None
        else if k = js ''limit'' then if ds_limit s \<noteq> 100 then Some (js_of_int (ds_limit s)) else None
        else None) of Some v \<Rightarrow> [to_usv v] | None \<Rightarrow> if k \<in> set DIRECTORY_PARAMS then [] else get_all base k)" for k
    unfolding directory_written by (rule get_all_directory_written)
  note get = this
  have "param_text ?ps (js ''sort'') = (if ds_sort s \<noteq> SOldestPendingAge then sort_name (ds_sort s) else [])"
    "param_text ?ps (js ''dir'') = (if ds_dir s \<noteq> Desc then dir_name (ds_dir s) else [])"
    "param_text ?ps (js ''f'') = ds_f s" "param_text ?ps (js ''cursor'') = ds_cursor s"
    "get_param ?ps (js ''limit'') = (if ds_limit s \<noteq> 100 then Some (js_of_int (ds_limit s)) else None)"
    using assms(1,2) sort_well_formed js_of_int_plain
    by (simp_all add: param_text_def get_param_def get DIRECTORY_PARAMS_def)
  moreover have "one_of DIRECTORY_LIMITS 100 (number_param
      (if ds_limit s \<noteq> 100 then Some (js_of_int (ds_limit s)) else None)) = ds_limit s"
  proof -
    have "js_number (js_of_int (ds_limit s)) = Finite (of_int (ds_limit s))"
      "one_of DIRECTORY_LIMITS 100 (Finite 0) = 100"
      using assms(3) by (auto simp: DIRECTORY_LIMITS_def one_of_def intro!: number_of_int)
    then show ?thesis using one_of_member [OF assms(3), of 100] by (simp add: number_param_def)
  qed
  ultimately show "parseDirectoryState ?ps = s"
    using sort_named sort_unnamed
    by (cases "ds_dir s") (simp_all add: parseDirectoryState_def DEFAULT_DIRECTORY_STATE_def)
  show "filter (\<lambda>p. fst p \<notin> set DIRECTORY_PARAMS) ?ps = filter (\<lambda>p. fst p \<notin> set DIRECTORY_PARAMS) base"
    unfolding directory_written by (rule rewritten_others) (simp add: DIRECTORY_PARAMS_def)
qed

lemma last_index_of_last: "c \<notin> set b \<Longrightarrow> last_index_of c (a @ c # b) = Some (length a)"
  by (auto simp: last_index_of_def takeWhile_append)

lemma peek_reads_back:
  assumes "pt_queue t \<noteq> []" "pt_id t \<noteq> []" "47 \<notin> set (pt_id t)"
  shows "parsePeek (Some (serializePeek t)) = Some t"
proof -
  have "serializePeek t = pt_queue t @ 47 # pt_id t" by (simp add: serializePeek_def js_def)
  then show ?thesis
    using last_index_of_last [OF assms(3), of "pt_queue t"] assms(1,2) by (cases t) (simp add: parsePeek_def)
qed

text \<open>The drawer parameter names a task faithfully exactly when its queue and id are not empty and the
  id has no slash.\<close>

theorem peek_names_task:
  "parsePeek (Some (serializePeek t)) = Some t \<longleftrightarrow> pt_queue t \<noteq> [] \<and> pt_id t \<noteq> [] \<and> 47 \<notin> set (pt_id t)"
proof (cases "47 \<in> set (pt_id t)")
  case True
  then obtain a b where id: "pt_id t = a @ 47 # b" "47 \<notin> set b" using split_list_last by fastforce
  then have "serializePeek t = (pt_queue t @ 47 # a) @ 47 # b" by (simp add: serializePeek_def js_def)
  then have "last_index_of 47 (serializePeek t) = Some (length (pt_queue t @ 47 # a))"
    using last_index_of_last [OF id(2), of "pt_queue t @ 47 # a"] by simp
  then have "parsePeek (Some (serializePeek t)) = Some t \<Longrightarrow> t = \<lparr>pt_queue = pt_queue t @ 47 # a, pt_id = b\<rparr>"
    using \<open>serializePeek t = _\<close> by (simp add: parsePeek_def split: if_splits)
  then have "parsePeek (Some (serializePeek t)) = Some t \<Longrightarrow> pt_id t = b"
    by (metis peek_target.select_convs(2))
  then show ?thesis using id by auto
next
  case False
  moreover have "parsePeek (Some (serializePeek t)) = Some t \<Longrightarrow> pt_queue t \<noteq> [] \<and> pt_id t \<noteq> []"
    using last_index_of_last [OF False, of "pt_queue t"]
    by (auto simp: parsePeek_def serializePeek_def js_def)
  ultimately show ?thesis using peek_reads_back by blast
qed

subsection \<open>Queries derived from links\<close>

text \<open>The value of the first clause of a field depends on the texts of the tokens alone.\<close>

lemma getClause_value:
  "map_option cl_value (getClause q f) =
   map_option (\<lambda>x. cl_value (clause_of x)) (List.find (\<lambda>x. field_of x = f) (token_texts q))"
proof -
  have v: "cl_value (parse_clause x) = cl_value (clause_of (fst x))" for x
    by (cases x) (simp add: parse_clause_pos)
  have "map_option cl_value (List.find (\<lambda>c. cl_field c = f) (map parse_clause xs)) =
      map_option (\<lambda>x. cl_value (clause_of x)) (List.find (\<lambda>x. field_of x = f) (map fst xs))" for xs
    by (induction xs) (simp_all add: v)
  then show ?thesis by (simp add: getClause_def parseAqlClauses_def token_texts_def)
qed

lemma deriveFromQuery_texts:
  "deriveFromQuery q =
     (let v = (\<lambda>f. map_option (\<lambda>x. cl_value (clause_of x)) (List.find (\<lambda>x. field_of x = js f) (token_texts q)))
      in ((case map_of CONSOLE_STATES (case v ''state'' of Some x \<Rightarrow> x | None \<Rightarrow> []) of
             Some s \<Rightarrow> s | None \<Rightarrow> Pending),
          (case v ''queue'' of Some x \<Rightarrow> if x \<noteq> [] then x else js ''all'' | None \<Rightarrow> js ''all''),
          pairs_of (map clause_of (token_texts q))))"
  using getClause_value [of q "js ''state''"] getClause_value [of q "js ''queue''"]
  by (auto simp: deriveFromQuery_def Let_def DEFAULT_CONSOLE_STATE_def metaClausesOf_clauses clauses_texts
      map_option_case split: option.splits)

lemma clause_eq_written:
  assumes "f = js ''queue'' \<or> f = js ''state''" "plain_value (js ''='') v"
  shows "token (f @ js ''='' @ quoteAqlValue v)" "field_of (f @ js ''='' @ quoteAqlValue v) = f"
    "cl_value (clause_of (f @ js ''='' @ quoteAqlValue v)) = v"
proof -
  have f: "plain_field f" using assms(1) by (auto simp: plain_field_def js_def field_char_def field_start_def)
  have o: "js ''='' \<in> set OPS" by (simp add: OPS_def)
  show "token (f @ js ''='' @ quoteAqlValue v)"
    using token_written [OF f o] assms(2) by (simp add: plain_value_def)
  show "field_of (f @ js ''='' @ quoteAqlValue v) = f"
    "cl_value (clause_of (f @ js ''='' @ quoteAqlValue v)) = v"
    using clause_of_written [OF f o assms(2)] by (simp_all add: field_of_def)
qed

lemma state_value_plain:
  assumes "map_of CONSOLE_STATES s = Some st"
  shows "plain_value (js ''='') s" "quoteAqlValue s = s"
  using map_of_SomeD [OF assms]
  by (auto simp: CONSOLE_STATES_def plain_value_def quoteAqlValue_def is_ws_def js_def)

lemma meta_token_field: "plain_key k \<Longrightarrow> plain_value (js ''='') v \<Longrightarrow>
   field_of (js ''meta.'' @ k @ js ''='' @ quoteAqlValue v) = js ''meta.'' @ k"
  using meta_written(1) by (simp add: field_of_def)

lemma texts_join: "list_all token ts \<Longrightarrow> token_texts (join (js '' '') ts) = ts"
  using aql.texts_glue rebuild_whole by metis


lemma page_url_defaults: "migrated_query ps = q \<Longrightarrow>
   cs_state (parseConsoleState ps) = fst (deriveFromQuery q) \<and>
   cs_queue (parseConsoleState ps) = fst (snd (deriveFromQuery q)) \<and>
   cs_meta (parseConsoleState ps) = snd (snd (deriveFromQuery q))"
  by (simp add: parseConsoleState_def console_state_of_def split_beta)

text \<open>The tokens an older link contributes.\<close>

definition meta_token :: "meta_pair \<Rightarrow> jstring" where
  "meta_token p = js ''meta.'' @ mp_key p @ js ''='' @ quoteAqlValue (mp_value p)"

definition plain_pair :: "meta_pair \<Rightarrow> bool" where
  "plain_pair p \<longleftrightarrow> plain_key (mp_key p) \<and> plain_value (js ''='') (mp_value p)"

lemma meta_token_facts:
  assumes "plain_pair p"
  shows "token (meta_token p)" "field_of (meta_token p) = js ''meta.'' @ mp_key p"
    "pairs_of [clause_of (meta_token p)] = [p]"
  using meta_written [of "mp_key p" "mp_value p"] meta_token_field [of "mp_key p" "mp_value p"] assms
  by (simp_all add: plain_pair_def meta_token_def pairs_of_def starts_with_def js_def plain_key_def)

lemma meta_tokens_pairs: "list_all plain_pair ps \<Longrightarrow> pairs_of (map (\<lambda>p. clause_of (meta_token p)) ps) = ps"
proof (induction ps)
  case (Cons p ps)
  have "pairs_of (clause_of (meta_token p) # map (\<lambda>p. clause_of (meta_token p)) ps) =
      pairs_of [clause_of (meta_token p)] @ pairs_of (map (\<lambda>p. clause_of (meta_token p)) ps)"
    by (simp add: pairs_of_def)
  with Cons meta_token_facts [of p] show ?case by simp
qed (simp add: pairs_of_def)

lemma meta_field_other: "js ''meta.'' @ k \<noteq> js ''queue''" "js ''meta.'' @ k \<noteq> js ''state''"
  by (simp_all add: js_def)

lemma find_meta_token:
  "list_all plain_pair ps \<Longrightarrow> f = js ''queue'' \<or> f = js ''state'' \<Longrightarrow>
   List.find (\<lambda>x. field_of x = f) (map meta_token ps) = None"
  using meta_token_facts(2) meta_field_other by (auto simp: find_None_iff list_all_iff)

lemma parseMetaParam_serialize:
  assumes "plain_key (mp_key p)"
  shows "parseMetaParam (serializeMetaPair p) = [p]"
proof -
  have "58 \<notin> set (mp_key p)" "mp_key p \<noteq> []"
    using assms by (auto simp: plain_key_def field_char_def field_start_def is_digit_def)
  then have "index_of 58 (mp_key p @ 58 # mp_value p) = Some (length (mp_key p))"
    by (auto simp: index_of_def takeWhile_append)
  then show ?thesis using \<open>mp_key p \<noteq> []\<close> by (simp add: parseMetaParam_def serializeMetaPair_def js_def)
qed

text \<open>A link of an earlier release, with a queue, a state and metadata parameters and no query,
  opens the console on exactly that queue, state and metadata.\<close>

theorem legacy_link_keeps_filters:
  assumes "get_all ps (js ''q'') = []" and "get_all ps (js ''queue'') = [qn]"
    and "get_all ps (js ''state'') = [sn]" and "get_all ps (js ''meta'') = map serializeMetaPair metas"
    and "plain_value (js ''='') qn" and "qn \<noteq> js ''all''"
    and "map_of CONSOLE_STATES sn = Some st" and "list_all plain_pair metas"
  shows "cs_queue (parseConsoleState ps) = qn \<and> cs_state (parseConsoleState ps) = st \<and>
    cs_meta (parseConsoleState ps) = metas"
proof -
  let ?qt = "js ''queue'' @ js ''='' @ quoteAqlValue qn" and ?st = "js ''state'' @ js ''='' @ quoteAqlValue sn"
  have sv: "plain_value (js ''='') sn" "quoteAqlValue sn = sn" by (rule state_value_plain [OF assms(7)])+
  note qt = clause_eq_written [where f = "js ''queue''", OF _ assms(5), simplified]
  note st = clause_eq_written [where f = "js ''state''", OF _ sv(1), simplified]
  have texts: "param_text ps (js ''q'') = []" "param_text ps (js ''queue'') = qn" "param_text ps (js ''state'') = sn"
    using assms(1-3) by (simp_all add: param_text_def get_param_def)
  have ne: "qn \<noteq> []" "sn \<noteq> []" using assms(5) sv by (auto simp: plain_value_def)
  have "concat (map parseMetaParam (map serializeMetaPair metas)) = metas"
    using assms(8) by (induction metas) (simp_all add: parseMetaParam_serialize plain_pair_def)
  then have "migrated_query ps = join (js '' '') (?qt # ?st # map meta_token metas)"
    using texts ne assms(4,6,7) sv(2)
    by (simp add: migrated_query_def Let_def getClause_def parseAqlClauses_def tokenizeAql_def
        metaClausesOf_def aqlFromLegacy_def meta_token_def [abs_def])
      (simp add: js_def)
  moreover have "token_texts (join (js '' '') (?qt # ?st # map meta_token metas)) = ?qt # ?st # map meta_token metas"
    using qt(1) st(1) meta_token_facts(1) assms(8) by (intro texts_join) (auto simp: list_all_iff)
  ultimately have texts': "token_texts (migrated_query ps) = ?qt # ?st # map meta_token metas" by simp
  have "pairs_of (map clause_of (?qt # ?st # map meta_token metas)) = metas"
  proof -
    have "pairs_of (clause_of ?qt # clause_of ?st # cs) = pairs_of cs" for cs
      using qt(2) st(2) by (simp add: pairs_of_def field_of_def starts_with_def js_def)
    then show ?thesis using meta_tokens_pairs [OF assms(8)] by (simp add: comp_def)
  qed
  then show ?thesis
    using page_url_defaults [OF refl, of ps] qt st ne assms(7)
    by (simp add: deriveFromQuery_texts texts' Let_def)
qed


lemma get_all_Nil [simp]: "get_all [] k = []"
  by (simp add: get_all_def)

lemma split_names:
  "js ''state='' = js ''state'' @ js ''=''" "js ''queue='' = js ''queue'' @ js ''=''" "js ''/'' = [47]"
  by (simp_all add: js_def)

lemma set_trim: "c \<in> set (trim q) \<Longrightarrow> c \<in> set q"
  by (auto simp: trim_def trim_start_def dest!: set_dropWhileD)

text \<open>A quoted run of text is one token, without a field.\<close>

lemma quoted_token:
  assumes "34 \<notin> set t"
  shows "token ([34] @ t @ [34])" "field_of ([34] @ t @ [34]) = []" "cl_op (clause_of ([34] @ t @ [34])) = []"
proof -
  have q: "\<forall>c \<in> set t. c \<noteq> 34 \<and> (blank c \<longrightarrow> True)" using assms by auto
  show "token ([34] @ t @ [34])"
    using scan_plain [OF q, of "[34]"] assms by (simp add: token_def ends_quoted_plain)
  have "split_clause True f (t @ [34]) = None" for f
    using assms by (induction t arbitrary: f) auto
  moreover have "[34] @ t @ [34] \<notin> set FLAGS" by (auto simp: FLAGS_def js_def)
  ultimately show "field_of ([34] @ t @ [34]) = []" "cl_op (clause_of ([34] @ t @ [34])) = []"
    by (simp_all add: field_of_def clause_of_def parse_clause_def)
qed

text \<open>A link that carries a query of several words and a state parameter loses every clause of the
  query: the migration quotes the whole query as one free text, so the console opens on all queues
  and without metadata filters, whatever the query named.\<close>

theorem mixed_link_drops_clauses:
  assumes "get_all ps (js ''q'') = [q]" and "get_all ps (js ''queue'') = []"
    and "get_all ps (js ''state'') = [sn]" and "get_all ps (js ''meta'') = []"
    and "map_of CONSOLE_STATES sn = Some st" and "getClause q (js ''state'') = None"
    and "34 \<notin> set q" and "list_ex is_ws (trim q)"
  shows "cs_queue (parseConsoleState ps) = js ''all'' \<and> cs_meta (parseConsoleState ps) = [] \<and>
    cs_state (parseConsoleState ps) = st"
proof -
  let ?st = "js ''state'' @ js ''='' @ quoteAqlValue sn" and ?free = "[34] @ trim q @ [34]"
  have sv: "plain_value (js ''='') sn" "quoteAqlValue sn = sn" by (rule state_value_plain [OF assms(5)])+
  note st = clause_eq_written [where f = "js ''state''", OF _ sv(1), simplified]
  have quote: "34 \<notin> set (trim q)" using assms(7) set_trim by blast
  have texts: "param_text ps (js ''q'') = q" "param_text ps (js ''queue'') = []" "param_text ps (js ''state'') = sn"
    using assms(1-3) by (simp_all add: param_text_def get_param_def)
  have ne: "sn \<noteq> []" "trim q \<noteq> []" using sv assms(8) by (auto simp: plain_value_def)
  have "migrated_query ps = join (js '' '') [?st, ?free]"
    using texts ne assms(4-6,8) sv(2) by (simp add: migrated_query_def Let_def aqlFromLegacy_def split_names)
  moreover have "token_texts (join (js '' '') [?st, ?free]) = [?st, ?free]"
    using quoted_token(1) [OF quote] st(1) by (intro texts_join) simp
  ultimately have texts': "token_texts (migrated_query ps) = [?st, ?free]" by simp
  have "pairs_of (map clause_of [?st, ?free]) = []"
    using quoted_token(2) [OF quote] st(2) by (simp add: pairs_of_def field_of_def starts_with_def js_def)
  then show ?thesis
    using page_url_defaults [OF refl, of ps] quoted_token(2) [OF quote] st assms(5)
    by (simp add: deriveFromQuery_texts texts' Let_def)
qed

text \<open>The canonical link of a task opens the console on the task's queue and the drawer on the task.\<close>

theorem task_link_opens_task:
  assumes "plain_value (js ''='') qn" and "well_formed qn" and "qn \<noteq> js ''all''"
    and "i \<noteq> []" and "47 \<notin> set i" and "well_formed i"
  shows "cs_queue (parseConsoleState (taskDrawerParams qn i)) = qn \<and>
    cs_state (parseConsoleState (taskDrawerParams qn i)) = Pending \<and>
    cs_page (parseConsoleState (taskDrawerParams qn i)) = 0 \<and>
    parsePeek (get_param (taskDrawerParams qn i) (js ''peek'')) = Some \<lparr>pt_queue = qn, pt_id = i\<rparr>"
proof -
  let ?qt = "js ''queue'' @ js ''='' @ quoteAqlValue qn"
  note qt = clause_eq_written [where f = "js ''queue''", OF _ assms(1), simplified]
  have ne: "qn \<noteq> []" using assms(1) by (simp add: plain_value_def)
  let ?s = "DEFAULT_CONSOLE_STATE\<lparr>cs_q := ?qt\<rparr>"
  have legacy: "aqlFromLegacy \<lparr>lp_queue = Some qn, lp_state = None, lp_meta = [], lp_freeText = None\<rparr> = ?qt"
    using ne assms(3) by (simp add: aqlFromLegacy_def split_names)
  have wf: "well_formed ?qt" using assms(2) by (intro well_formed_append well_formed_js well_formed_quote)
  have get: "get_all (taskDrawerParams qn i) k =
      (if k = js ''peek'' then [to_usv (qn @ 47 # i)]
       else if k = js ''q'' then [?qt] else [])" for k
    using wf by (simp add: taskDrawerParams_def legacy url.all_put get_all_console serializePeek_def
        DEFAULT_CONSOLE_STATE_def CONSOLE_PARAMS_def split_names)
  have "migrated_query (taskDrawerParams qn i) = ?qt"
    by (simp add: migrated_query_def param_text_def get_param_def get Let_def)
  moreover have "token_texts ?qt = [?qt]" by (rule texts_token [OF qt(1)])
  moreover have "well_formed (qn @ 47 # i)" using assms(2,6) by (auto simp: plain_unit_def)
  then have "get_param (taskDrawerParams qn i) (js ''peek'') = Some (serializePeek \<lparr>pt_queue = qn, pt_id = i\<rparr>)"
    by (simp add: get_param_def get serializePeek_def split_names)
  moreover have "parsePeek (Some (serializePeek \<lparr>pt_queue = qn, pt_id = i\<rparr>)) = Some \<lparr>pt_queue = qn, pt_id = i\<rparr>"
    using peek_reads_back [of "\<lparr>pt_queue = qn, pt_id = i\<rparr>"] ne assms(4,5) by simp
  moreover have "cs_page (parseConsoleState (taskDrawerParams qn i)) = 0"
    by (simp add: parseConsoleState_def state_of_fields get_param_def get number_param_def page_of_def)
  ultimately show ?thesis
    using page_url_defaults [of "taskDrawerParams qn i" ?qt] qt ne
    by (simp add: deriveFromQuery_texts Let_def CONSOLE_STATES_def)
qed

subsection \<open>The properties at concrete links\<close>

definition sample_params :: params where
  "sample_params =
     [(js ''q'', js ''queue=billing error~x''), (js ''page'', js ''3''), (js ''peek'', js ''billing/8f3a''),
      (js ''size'', js ''50'')]"

lemma console_url_round_trip_witness:
  "parseConsoleState (serializeConsoleState (parseConsoleState sample_params) sample_params) =
     parseConsoleState sample_params"
proof -
  have "well_formed_params sample_params"
    by (simp add: well_formed_params_def sample_params_def)
  moreover have "cs_page (parseConsoleState sample_params) = 2"
  proof -
    have "get_param sample_params (js ''page'') = Some (js_of_int 3)"
      by (simp add: sample_params_def get_param_def get_all_def js_of_int_def js_of_nat.simps js_def)
    then show ?thesis
      by (simp add: parseConsoleState_def state_of_fields number_param_def number_of_int page_of_def)
  qed
  ultimately show ?thesis using console_url_round_trip [of sample_params sample_params] by simp
qed

lemma directory_url_round_trip_witness:
  "parseDirectoryState (serializeDirectoryState
     \<lparr>ds_sort = SErrorRate, ds_dir = Asc, ds_f = js ''consumers=0'', ds_cursor = js ''opaque+1'', ds_limit = 200\<rparr>
     sample_params) =
   \<lparr>ds_sort = SErrorRate, ds_dir = Asc, ds_f = js ''consumers=0'', ds_cursor = js ''opaque+1'', ds_limit = 200\<rparr>"
  using directory_url_round_trip [of "\<lparr>ds_sort = SErrorRate, ds_dir = Asc, ds_f = js ''consumers=0'',
      ds_cursor = js ''opaque+1'', ds_limit = 200\<rparr>" sample_params]
  by (simp add: DIRECTORY_LIMITS_def)

lemma legacy_link_keeps_filters_witness:
  "cs_queue (parseConsoleState [(js ''queue'', js ''billing''), (js ''state'', js ''retry''),
     (js ''meta'', js ''region:eu'')]) = js ''billing'' \<and>
   cs_state (parseConsoleState [(js ''queue'', js ''billing''), (js ''state'', js ''retry''),
     (js ''meta'', js ''region:eu'')]) = Retry"
proof -
  let ?ps = "[(js ''queue'', js ''billing''), (js ''state'', js ''retry''), (js ''meta'', js ''region:eu'')]"
  let ?m = "[\<lparr>mp_key = js ''region'', mp_value = js ''eu''\<rparr>]"
  have "get_all ?ps (js ''q'') = []" "get_all ?ps (js ''queue'') = [js ''billing'']"
    "get_all ?ps (js ''state'') = [js ''retry'']" "get_all ?ps (js ''meta'') = map serializeMetaPair ?m"
    by (simp_all add: get_all_def) (simp add: serializeMetaPair_def js_def)
  moreover have "plain_value (js ''='') (js ''billing'')" "list_all plain_pair ?m"
    by (simp_all add: plain_value_def plain_pair_def plain_key_def field_char_def field_start_def js_def)
  moreover have "map_of CONSOLE_STATES (js ''retry'') = Some Retry" by (simp add: CONSOLE_STATES_def)
  ultimately show ?thesis using legacy_link_keeps_filters [of ?ps "js ''billing''" "js ''retry''" ?m Retry] by simp
qed

lemma mixed_link_drops_clauses_witness:
  "map_option cl_value (getClause (js ''queue=billing error~x'') (js ''queue'')) = Some (js ''billing'') \<and>
   cs_queue (parseConsoleState [(js ''q'', js ''queue=billing error~x''), (js ''state'', js ''retry'')]) = js ''all''"
proof -
  let ?q = "js ''queue=billing error~x''" and ?ps = "[(js ''q'', js ''queue=billing error~x''), (js ''state'', js ''retry'')]"
  have "get_all ?ps (js ''q'') = [?q]" "get_all ?ps (js ''queue'') = []"
    "get_all ?ps (js ''state'') = [js ''retry'']" "get_all ?ps (js ''meta'') = []"
    by (simp_all add: get_all_def)
  moreover have "map_of CONSOLE_STATES (js ''retry'') = Some Retry" by (simp add: CONSOLE_STATES_def)
  moreover have "getClause ?q (js ''state'') = None"
    "map_option cl_value (getClause ?q (js ''queue'')) = Some (js ''billing'')"
    by code_simp+
  moreover have "34 \<notin> set ?q" "list_ex is_ws (trim ?q)"
    by (simp_all add: js_def trim_def trim_start_def is_ws_def)
  ultimately show ?thesis using mixed_link_drops_clauses [of ?ps ?q "js ''retry''" Retry] by simp
qed

lemma task_link_opens_task_witness:
  "parsePeek (get_param (taskDrawerParams (js ''billing'') (js ''8f3a'')) (js ''peek'')) =
     Some \<lparr>pt_queue = js ''billing'', pt_id = js ''8f3a''\<rparr>"
proof -
  have "plain_value (js ''='') (js ''billing'')" "47 \<notin> set (js ''8f3a'')"
    by (simp_all add: plain_value_def js_def)
  then show ?thesis using task_link_opens_task [of "js ''billing''" "js ''8f3a''"] by simp
qed

end
