(* ===== verification/Formats.thy ===== *)
theory Formats
  imports Numbers
begin

text \<open>
  How numbers become text: \<open>Math.round\<close>, \<open>toFixed\<close>, \<open>toLocaleString("en-US")\<close> of an integer and
  \<open>String(n)\<close>, which the labels of the console are built with; and \<open>humanizeMs\<close> of
  \<open>src/ui/src/lib/fleet.ts\<close>, which every other formatter ends in.
\<close>

subsection \<open>The standard functions\<close>

text \<open>The double an operation on finite doubles gives; no value here comes near the largest one.\<close>

definition dbl :: "rat \<Rightarrow> rat" where
  "dbl x = (case round_double x of Finite y \<Rightarrow> y | _ \<Rightarrow> x)"

definition math_round :: "rat \<Rightarrow> int" where
  "math_round x = \<lfloor>x + 1 / 2\<rfloor>"

definition pad_left :: "nat \<Rightarrow> nat \<Rightarrow> jstring \<Rightarrow> jstring" where
  "pad_left n c s = replicate (n - length s) c @ s"

text \<open>\<open>x.toFixed(f)\<close> for \<open>|x| < 10 ^ 21\<close>: the nearest multiple, the larger of two.\<close>

definition to_fixed :: "nat \<Rightarrow> rat \<Rightarrow> jstring" where
  "to_fixed f x =
     (let n = nat \<lfloor>\<bar>x\<bar> * 10 ^ f + 1 / 2\<rfloor>;
          s = pad_left (Suc f) 48 (js_of_nat n);
          k = length s - f
      in (if x < 0 then js ''-'' else []) @ take k s @ (if f = 0 then [] else 46 # drop k s))"

text \<open>Groups of three digits from the right.\<close>

function group_digits :: "jstring \<Rightarrow> jstring" where
  "group_digits s =
     (if length s \<le> 3 then s
      else group_digits (take (length s - 3) s) @ [44] @ drop (length s - 3) s)"
  by pat_completeness auto
termination by (relation "measure length") auto

declare group_digits.simps [simp del]

definition locale_int :: "int \<Rightarrow> jstring" where
  "locale_int i = (if i < 0 then 45 # group_digits (js_of_nat (nat (- i))) else group_digits (js_of_nat (nat i)))"

text \<open>The same for any finite number: at most three fraction digits, halves away from zero.\<close>

definition locale_number :: "rat \<Rightarrow> jstring" where
  "locale_number x =
     (let n = nat \<lfloor>\<bar>x\<bar> * 1000 + 1 / 2\<rfloor>;
          fp = rev (dropWhile (\<lambda>c. c = 48) (rev (pad_left 3 48 (js_of_nat (n mod 1000)))))
      in (if x < 0 then [45] else []) @ group_digits (js_of_nat (n div 1000)) @ (if fp = [] then [] else 46 # fp))"

text \<open>
  \<open>String(x)\<close> of a positive double: the shortest run of digits that reads back, nearest to the value.
  \<open>decimal_point x\<close> is the \<open>n\<close> with \<open>10 ^ (n - 1) \<le> x < 10 ^ n\<close>.
\<close>

definition decimal_point :: "rat \<Rightarrow> int" where
  "decimal_point x =
     (let (a, b) = quotient_of x;
          k = int (length (js_of_nat (nat a))) - int (length (js_of_nat (nat b)))
      in if x < 10 powi k then k else k + 1)"

definition shortest_digits :: "rat \<Rightarrow> jstring \<times> int" where
  "shortest_digits x =
     (let e = decimal_point x;
          cand = (\<lambda>k. round_half_even (x / 10 powi (e - int k)));
          ok = (\<lambda>k. round_double (of_int (cand k) * 10 powi (e - int k)) = Finite x);
          k = (case List.find ok [1..<17] of Some k \<Rightarrow> k | None \<Rightarrow> 17)
      in if cand k = 10 ^ k then (js ''1'', e + 1) else (js_of_nat (nat (cand k)), e))"

definition positive_string :: "rat \<Rightarrow> jstring" where
  "positive_string x =
     (let (ds, n) = shortest_digits x; k = int (length ds)
      in if k \<le> n \<and> n \<le> 21 then ds @ replicate (nat (n - k)) 48
         else if 0 < n \<and> n \<le> 21 then take (nat n) ds @ [46] @ drop (nat n) ds
         else if - 6 < n \<and> n \<le> 0 then js ''0.'' @ replicate (nat (- n)) 48 @ ds
         else take 1 ds @ (if k = 1 then [] else 46 # drop 1 ds) @ js ''e'' @
           (if n - 1 < 0 then js ''-'' else js ''+'') @ js_of_nat (nat \<bar>n - 1\<bar>))"

definition number_string :: "number \<Rightarrow> jstring" where
  "number_string v = (case v of
     NaN \<Rightarrow> js ''NaN''
   | Infinite neg \<Rightarrow> (if neg then js ''-Infinity'' else js ''Infinity'')
   | Finite x \<Rightarrow> if x = 0 then js ''0'' else if x < 0 then 45 # positive_string (- x) else positive_string x)"

subsection \<open>Durations\<close>

text \<open>The tones of chips and rows, \<open>FcTone\<close>.\<close>

datatype tone = Crit | Warn | Good | Info | Mut

text \<open>The em dash of an absent value.\<close>

definition DASH :: jstring where
  "DASH = [8212]"

definition two_units :: "int \<Rightarrow> string \<Rightarrow> int \<Rightarrow> string \<Rightarrow> jstring" where
  "two_units a u b v =
     js_of_int a @ js u @ (if b > 0 then js '' '' @ js_of_int b @ js v else [])"

definition humanizeMs :: "number option \<Rightarrow> jstring" where
  "humanizeMs ms = (case ms of
     Some (Finite x) \<Rightarrow>
       if x \<le> 0 then DASH
       else let s = \<lfloor>x / 1000\<rfloor> in
         if s < 1 then js ''<1s''
         else let d = s div 86400; h = s mod 86400 div 3600; m = s mod 3600 div 60; sec = s mod 60 in
           if d > 0 then two_units d ''d'' h ''h''
           else if h > 0 then two_units h ''h'' m ''m''
           else if m > 0 then two_units m ''m'' sec ''s''
           else js_of_int sec @ js ''s''
   | _ \<Rightarrow> DASH)"

abbreviation humanize :: "int \<Rightarrow> jstring" where
  "humanize ms \<equiv> humanizeMs (Some (Finite (of_int ms)))"

end
