(* ===== verification/BulkJob.thy ===== *)
theory BulkJob
  imports UrlState Formats
begin

text \<open>
  \<open>src/ui/src/lib/bulkjob.ts\<close> and the bulk-job types of \<open>src/ui/src/api.ts\<close>: how a job's scope is
  written out, when its confirm button unlocks, and the estimates of its progress. Counts are
  integers a double holds exactly; a quotient is rounded as JavaScript rounds it. \<open>toLocaleString\<close>
  depends on the browser's locale and is the parameter \<open>locale_string\<close>.
\<close>

subsection \<open>Types\<close>

datatype job_verb = VRun | VArchive | VDelete | VCancel | VCount

datatype job_phase = PPreview | PExecute

datatype job_state = Previewing | PreviewReady | Running | Paused | Canceled | JobDone | JobFailed

datatype cost_class = Cheap | ListRemoval

text \<open>An absent \<open>queue\<close>, \<open>q\<close> or \<open>aql\<close> reads like the empty string, an absent \<open>meta\<close> like the empty list.\<close>

record job_scope =
  js_queue :: jstring
  js_state :: jstring
  js_q :: jstring
  js_meta :: "jstring list"
  js_aql :: jstring

record job_counts =
  jc_candidates :: int
  jc_acted :: int
  jc_skipped :: int
  jc_failed :: int
  jc_scanned :: int

record job_info =
  ji_id :: jstring
  ji_verb :: job_verb
  ji_scope :: job_scope
  ji_phase :: job_phase
  ji_state :: job_state
  ji_throttle :: int
  ji_reason :: jstring
  ji_actor :: jstring
  ji_counts :: job_counts
  ji_cost_class :: cost_class
  ji_cost_list_len :: int
  ji_preview_complete :: bool
  ji_proceed_on_partial :: bool
  ji_created_at :: jstring
  ji_started_at :: jstring
  ji_finished_at :: jstring
  ji_preview_completed_at :: jstring
  ji_fence :: int
  ji_error :: jstring
  ji_failures_overflow :: int
  ji_ctl_pending :: jstring

text \<open>U+2014, the dash of the operator texts.\<close>

definition dash :: jstring where
  "dash = [32, 8212, 32]"

subsection \<open>Texts\<close>

definition scopeLabel :: "job_scope \<Rightarrow> jstring" where
  "scopeLabel s =
     join (js '' '')
       ([js ''queue='' @ (if js_queue s \<noteq> [] then js_queue s else js ''all''), js ''state='' @ js_state s] @
        concat (map (\<lambda>m. case index_of 58 m of
            Some i \<Rightarrow> if i > 0 then [take i m @ js ''='' @ drop (Suc i) m] else []
          | None \<Rightarrow> []) (js_meta s)) @
        (if js_q s \<noteq> [] then [js ''q~'' @ [34] @ js_q s @ [34]] else []) @
        (if js_aql s \<noteq> [] then [js_aql s] else []))"

text \<open>\<open>None\<close>: the switch has no case for \<open>count\<close>, which no caller passes.\<close>

definition verbSemantics :: "job_verb \<Rightarrow> jstring option" where
  "verbSemantics v = (case v of
     VArchive \<Rightarrow> Some (js ''Archive moves tasks to the dead-letter set'' @ dash @ js ''recoverable.'')
   | VDelete \<Rightarrow> Some (js ''Delete is gone forever'' @ dash @ js ''not recoverable.'')
   | VCancel \<Rightarrow> Some (js ''Cancel is a cooperative signal'' @ dash @
       js ''the handler must honor context cancellation, and a worker must be subscribed for it to have any effect.'')
   | VRun \<Rightarrow> Some (js ''Run enqueues each task for immediate processing (now-only; asynq cannot schedule to a specific time).'')
   | VCount \<Rightarrow> None)"

definition ARCHIVE_TRIM_CAP :: int where
  "ARCHIVE_TRIM_CAP = 10000"

definition TYPED_CONFIRM_THRESHOLD :: int where
  "TYPED_CONFIRM_THRESHOLD = 1000"

definition archiveTrimWarning :: "(int \<Rightarrow> jstring) \<Rightarrow> job_verb \<Rightarrow> int \<Rightarrow> jstring option" where
  "archiveTrimWarning locale_string verb count =
     (if verb \<noteq> VArchive \<or> count \<le> ARCHIVE_TRIM_CAP then None
      else let discarded = count - ARCHIVE_TRIM_CAP
           in Some (js ''Archiving '' @ locale_string count @
                js '' tasks into a 10k-capped set will discard the oldest '' @ locale_string discarded @ js ''.''))"

definition typedConfirmPhrase :: "job_verb \<Rightarrow> int \<Rightarrow> jstring option" where
  "typedConfirmPhrase verb count =
     (if verb \<noteq> VDelete \<or> count \<le> TYPED_CONFIRM_THRESHOLD then None
      else Some (js ''DELETE '' @ js_of_int count))"

definition verifyVerdict :: "int \<Rightarrow> bool \<Rightarrow> job_scope \<Rightarrow> job_counts \<Rightarrow> jstring" where
  "verifyVerdict liveMatches truncated scope counts =
     (let scopeText = scopeLabel scope
      in if liveMatches = 0 then js ''Scope now matches 0 tasks'' @ dash @ js ''drained. ('' @ scopeText @ js '')''
         else let n = (if truncated then js_of_int liveMatches @ js ''+'' else js_of_int liveMatches)
              in js ''Scope still matches '' @ n @ js '' task(s)'' @ dash @ js ''was '' @
                 js_of_int (jc_candidates counts) @ js '' at preview; '' @
                 js_of_int (jc_acted counts) @ js '' acted, '' @ js_of_int (jc_skipped counts) @ js '' skipped, '' @
                 js_of_int (jc_failed counts) @ js '' failed. '' @
                 js ''New tasks may have entered the scope since. ('' @ scopeText @ js '')'')"

subsection \<open>The execute gate\<close>

record gate_input =
  gi_verb :: job_verb
  gi_previewComplete :: bool
  gi_candidates :: int
  gi_reason :: jstring
  gi_typedConfirm :: jstring
  gi_proceedOnPartial :: bool

record gate_result =
  gr_ok :: bool
  gr_blockedBecause :: jstring

definition blocked :: "jstring \<Rightarrow> gate_result" where
  "blocked why = \<lparr>gr_ok = False, gr_blockedBecause = why\<rparr>"

definition gateExecute :: "gate_input \<Rightarrow> gate_result" where
  "gateExecute input =
     (if trim (gi_reason input) = []
      then blocked (js ''A reason is required'' @ dash @ js ''it goes to the audit log.'')
      else if \<not> gi_previewComplete input \<and> gi_verb input = VDelete
      then blocked (js ''Delete requires a completed preview. The button unlocks when the count is exact.'')
      else if \<not> gi_previewComplete input \<and> \<not> gi_proceedOnPartial input
      then blocked (js ''Preview is still counting'' @ dash @
        js ''acknowledge proceeding on a partial count, or wait.'')
      else
        (let phrase = (if gi_previewComplete input
               then typedConfirmPhrase (gi_verb input) (gi_candidates input) else None)
         in case phrase of
              Some p \<Rightarrow>
                if trim (gi_typedConfirm input) \<noteq> p
                then blocked (js ''Type '' @ [34] @ p @ [34] @ js '' to confirm.'')
                else \<lparr>gr_ok = True, gr_blockedBecause = []\<rparr>
            | None \<Rightarrow> \<lparr>gr_ok = True, gr_blockedBecause = []\<rparr>))"

subsection \<open>Progress\<close>

definition isTerminalJobState :: "job_state \<Rightarrow> bool" where
  "isTerminalJobState s \<longleftrightarrow> s = JobDone \<or> s = Canceled \<or> s = JobFailed"

definition number_min :: "number \<Rightarrow> number \<Rightarrow> number" where
  "number_min a b = (case (a, b) of
     (Finite x, Finite y) \<Rightarrow> Finite (min x y)
   | (Infinite False, y) \<Rightarrow> y
   | (x, Infinite False) \<Rightarrow> x
   | (Infinite True, Finite y) \<Rightarrow> Infinite True
   | (Infinite True, Infinite True) \<Rightarrow> Infinite True
   | (Finite x, Infinite True) \<Rightarrow> Infinite True
   | _ \<Rightarrow> NaN)"

definition jobProgress :: "job_counts \<Rightarrow> number option" where
  "jobProgress c =
     (if jc_candidates c \<le> 0 then None
      else let finished = jc_acted c + jc_skipped c + jc_failed c
           in Some (number_min (Finite 1) (round_double (of_int finished / of_int (jc_candidates c)))))"

definition executeEtaSeconds :: "job_counts \<Rightarrow> int \<Rightarrow> number option" where
  "executeEtaSeconds c throttle =
     (if throttle \<le> 0 \<or> jc_candidates c \<le> 0 then None
      else let remaining = jc_candidates c - jc_acted c - jc_skipped c - jc_failed c
           in if remaining \<le> 0 then None else Some (round_double (of_int remaining / of_int throttle)))"

text \<open>One observation of a scan: when, and how many tasks were scanned.\<close>

record scan_sample =
  ss_t :: int
  ss_scanned :: int

definition scanEtaSeconds :: "scan_sample \<Rightarrow> scan_sample \<Rightarrow> int \<Rightarrow> rat option" where
  "scanEtaSeconds first latest estimate =
     (if estimate \<le> 0 then None
      else let dtSec = dbl (of_int (ss_t latest - ss_t first) / 1000);
               scannedDelta = ss_scanned latest - ss_scanned first
           in if dtSec \<le> 0 \<or> scannedDelta \<le> 0 then None
              else let remaining = estimate - ss_scanned latest
                   in if remaining \<le> 0 then None
                      else Some (dbl (of_int remaining / dbl (of_int scannedDelta / dtSec))))"

definition fmtEta :: "rat \<Rightarrow> jstring" where
  "fmtEta seconds =
     (if seconds < 1 then js ''<1s''
      else if seconds < 90 then js ''~'' @ js_of_int \<lceil>seconds\<rceil> @ js ''s''
      else if seconds < 3600 then js ''~'' @ js_of_int \<lceil>dbl (seconds / 60)\<rceil> @ js ''m''
      else js ''~'' @ to_fixed 1 (dbl (seconds / 3600)) @ js ''h'')"

definition costEstimateLabel :: "int \<Rightarrow> int \<Rightarrow> jstring" where
  "costEstimateLabel matches listLen =
     (let seconds = dbl (dbl (of_int (matches * listLen)) / 10000000)
      in if seconds < 1 then js ''under a second''
         else if seconds < 60 then js ''~'' @ js_of_int \<lceil>seconds\<rceil> @ js ''s''
         else if seconds < 3600 then js ''~'' @ js_of_int \<lceil>dbl (seconds / 60)\<rceil> @ js '' min''
         else js ''~'' @ to_fixed 1 (dbl (seconds / 3600)) @ js '' h'')"

definition THROTTLE_OPTIONS :: "int list" where
  "THROTTLE_OPTIONS = [100, 200, 500, 1000]"

definition DEFAULT_THROTTLE :: int where
  "DEFAULT_THROTTLE = 200"

subsection \<open>Properties\<close>

text \<open>C38. The confirm button of a bulk job unlocks exactly when a reason is given, the preview is complete
  or, except for a delete, the partial count is acknowledged, and for a delete of more than 1000
  tasks the phrase with the exact count is typed; a blocked button always says why.\<close>

theorem gate_opens_exactly:
  "(gr_ok (gateExecute g) \<longleftrightarrow>
     trim (gi_reason g) \<noteq> [] \<and>
     (gi_previewComplete g \<or> gi_verb g \<noteq> VDelete \<and> gi_proceedOnPartial g) \<and>
     \<not> (gi_verb g = VDelete \<and> gi_candidates g > 1000 \<and>
        trim (gi_typedConfirm g) \<noteq> js ''DELETE '' @ js_of_int (gi_candidates g))) \<and>
   (gr_blockedBecause (gateExecute g) = [] \<longleftrightarrow> gr_ok (gateExecute g))"
  by (auto simp: gateExecute_def blocked_def typedConfirmPhrase_def TYPED_CONFIRM_THRESHOLD_def dash_def Let_def
      split: option.split)

lemma round_half_even_nonneg: "0 \<le> x \<Longrightarrow> 0 \<le> round_half_even x"
  by (auto simp: round_half_even_def Let_def le_floor_iff)

lemma round_double_nonneg:
  assumes "0 \<le> x"
  shows "round_double x = Infinite False \<or> (\<exists>y. round_double x = Finite y \<and> 0 \<le> y)"
proof (cases "x = 0")
  case False
  with assms have "0 \<le> \<bar>x\<bar> / 2 powi k" "0 \<le> (2::rat) powi k" for k :: int by simp_all
  then have "0 \<le> (of_int (round_half_even (\<bar>x\<bar> / 2 powi k)) :: rat) * 2 powi k" for k :: int
    using round_half_even_nonneg by (intro mult_nonneg_nonneg) simp_all
  then show ?thesis using False assms by (simp add: round_double_def Let_def)
qed (simp add: round_double_def)

text \<open>The progress of a job is unknown exactly while it has no candidates; otherwise it is a fraction
  between 0 and 1, and 1 once every candidate is acted on, skipped or failed.\<close>

theorem job_progress_is_fraction:
  assumes "0 \<le> jc_acted c" and "0 \<le> jc_skipped c" and "0 \<le> jc_failed c"
  shows "(jobProgress c = None \<longleftrightarrow> jc_candidates c \<le> 0) \<and>
    (\<forall>n. jobProgress c = Some n \<longrightarrow> (\<exists>y. n = Finite y \<and> 0 \<le> y \<and> y \<le> 1)) \<and>
    (jc_candidates c > 0 \<and> jc_acted c + jc_skipped c + jc_failed c = jc_candidates c \<longrightarrow>
      jobProgress c = Some (Finite 1))"
proof (intro conjI allI impI)
  show "jobProgress c = None \<longleftrightarrow> jc_candidates c \<le> 0" by (simp add: jobProgress_def Let_def)
  show "\<exists>y. n = Finite y \<and> 0 \<le> y \<and> y \<le> 1" if "jobProgress c = Some n" for n
  proof -
    let ?x = "of_int (jc_acted c + jc_skipped c + jc_failed c) / of_int (jc_candidates c) :: rat"
    from that have n: "n = number_min (Finite 1) (round_double ?x)" and "0 < jc_candidates c"
      by (auto simp: jobProgress_def Let_def split: if_splits)
    then have "0 \<le> ?x" using assms by simp
    from round_double_nonneg [OF this] show ?thesis
      unfolding n by (auto simp: number_min_def)
  qed
  show "jobProgress c = Some (Finite 1)"
    if "jc_candidates c > 0 \<and> jc_acted c + jc_skipped c + jc_failed c = jc_candidates c"
    using that round_double_nat [of 1] by (simp add: jobProgress_def Let_def number_min_def)
qed

lemma job_progress_is_fraction_witness:
  "jobProgress \<lparr>jc_candidates = 3, jc_acted = 1, jc_skipped = 2, jc_failed = 0, jc_scanned = 9\<rparr> = Some (Finite 1)"
  using job_progress_is_fraction [of "\<lparr>jc_candidates = 3, jc_acted = 1, jc_skipped = 2, jc_failed = 0, jc_scanned = 9\<rparr>"]
  by simp

end
