(* ===== verification/JobsFeed.thy ===== *)
theory JobsFeed
  imports BulkJob Refcount
begin

text \<open>
  \<open>src/ui/src/hooks/useJobsEvents.ts\<close> and \<open>useJobProgress.ts\<close>: the one event stream of a tab, shared by
  reference counting, with its watchdog and its reconnect timer, and the tracker of one job that
  reads from it.

  The module's variables are the fields of \<open>feed\<close>; what the browser keeps for it, the
  \<open>EventSource\<close> objects not yet closed and the timers and intervals not yet cleared, are the fields
  \<open>fd_streams\<close>, \<open>fd_timers\<close> and \<open>fd_intervals\<close>. Every callback runs to its end, so a run is a sequence
  of events, each with the time \<open>Date.now()\<close> gives.
\<close>

subsection \<open>State\<close>

datatype feed_source = Sse | Poll

record jobs_snapshot =
  sn_jobs :: "jstring \<rightharpoonup> job_info"
  sn_source :: feed_source
  sn_lastEventAt :: int

record feed =
  fd_snapshot :: jobs_snapshot
  fd_es :: "nat option"
  fd_reconnectTimer :: "nat option"
  fd_backoff :: int
  fd_refs :: int
  fd_watchdogTimer :: "nat option"
  fd_lastAnyEventAt :: int
  fd_released :: "bool list"
  fd_streams :: "nat list"
  fd_timers :: "nat list"
  fd_intervals :: "nat list"
  fd_fresh :: nat

definition INITIAL_BACKOFF_MS :: int where "INITIAL_BACKOFF_MS = 5000"
definition MAX_BACKOFF_MS :: int where "MAX_BACKOFF_MS = 60000"
definition WATCHDOG_MS :: int where "WATCHDOG_MS = 45000"

definition INITIAL_SNAPSHOT :: jobs_snapshot where
  "INITIAL_SNAPSHOT = \<lparr>sn_jobs = Map.empty, sn_source = Poll, sn_lastEventAt = 0\<rparr>"

definition feed_init :: feed where
  "feed_init = \<lparr>fd_snapshot = INITIAL_SNAPSHOT, fd_es = None, fd_reconnectTimer = None,
     fd_backoff = INITIAL_BACKOFF_MS, fd_refs = 0, fd_watchdogTimer = None, fd_lastAnyEventAt = 0,
     fd_released = [], fd_streams = [], fd_timers = [], fd_intervals = [], fd_fresh = 0\<rparr>"

subsection \<open>Operations\<close>

definition onPing :: "int \<Rightarrow> feed \<Rightarrow> feed" where
  "onPing now s = s\<lparr>fd_lastAnyEventAt := now\<rparr>"

text \<open>One entry of a frame: an entry without an id is skipped, and a finished job is not reopened.\<close>

definition merge_job :: "(jstring \<rightharpoonup> job_info) \<Rightarrow> job_info option \<Rightarrow> (jstring \<rightharpoonup> job_info)" where
  "merge_job jobs entry = (case entry of
     None \<Rightarrow> jobs
   | Some j \<Rightarrow>
       if ji_id j = [] then jobs
       else (case jobs (ji_id j) of
         Some cur \<Rightarrow>
           if isTerminalJobState (ji_state cur) \<and> \<not> isTerminalJobState (ji_state j) then jobs
           else jobs(ji_id j \<mapsto> j)
       | None \<Rightarrow> jobs(ji_id j \<mapsto> j)))"

text \<open>A \<open>jobs\<close> frame; \<open>None\<close> when its text does not parse.\<close>

definition onJobs :: "int \<Rightarrow> job_info option list option \<Rightarrow> feed \<Rightarrow> feed" where
  "onJobs now data s =
     (let s = s\<lparr>fd_backoff := INITIAL_BACKOFF_MS, fd_lastAnyEventAt := now\<rparr>
      in case data of
           None \<Rightarrow> s
         | Some incoming \<Rightarrow>
             s\<lparr>fd_snapshot := \<lparr>sn_jobs = foldl merge_job (sn_jobs (fd_snapshot s)) incoming,
                sn_source = Sse, sn_lastEventAt = now\<rparr>\<rparr>)"

definition remove_opt :: "nat option \<Rightarrow> nat list \<Rightarrow> nat list" where
  "remove_opt x xs = (case x of Some i \<Rightarrow> filter (\<lambda>j. j \<noteq> i) xs | None \<Rightarrow> xs)"

definition closeStream :: "bool \<Rightarrow> feed \<Rightarrow> feed" where
  "closeStream retry s =
     (let s = s\<lparr>fd_streams := remove_opt (fd_es s) (fd_streams s), fd_es := None\<rparr>;
          s = s\<lparr>fd_intervals := remove_opt (fd_watchdogTimer s) (fd_intervals s), fd_watchdogTimer := None\<rparr>
      in if \<not> retry \<or> fd_refs s = 0 then s
         else let s = s\<lparr>fd_snapshot := (fd_snapshot s)\<lparr>sn_source := Poll\<rparr>\<rparr>;
                  s = s\<lparr>fd_timers := remove_opt (fd_reconnectTimer s) (fd_timers s)\<rparr>
              in s\<lparr>fd_reconnectTimer := Some (fd_fresh s), fd_timers := fd_fresh s # fd_timers s,
                   fd_fresh := Suc (fd_fresh s), fd_backoff := min (fd_backoff s * 2) MAX_BACKOFF_MS\<rparr>)"

definition watchdogCheck :: "int \<Rightarrow> feed \<Rightarrow> feed" where
  "watchdogCheck now s =
     (if fd_es s = None then s
      else if now - fd_lastAnyEventAt s > WATCHDOG_MS then closeStream True s else s)"

text \<open>\<open>supported\<close>: the browser has \<open>EventSource\<close>.\<close>

definition openStream :: "bool \<Rightarrow> int \<Rightarrow> feed \<Rightarrow> feed" where
  "openStream supported now s =
     (if fd_refs s = 0 \<or> fd_es s \<noteq> None \<or> \<not> supported then s
      else s\<lparr>fd_reconnectTimer := None, fd_es := Some (fd_fresh s), fd_streams := fd_fresh s # fd_streams s,
             fd_lastAnyEventAt := now, fd_watchdogTimer := Some (Suc (fd_fresh s)),
             fd_intervals := Suc (fd_fresh s) # fd_intervals s, fd_fresh := Suc (Suc (fd_fresh s))\<rparr>)"

definition acquire :: "bool \<Rightarrow> int \<Rightarrow> feed \<Rightarrow> feed" where
  "acquire supported now s =
     openStream supported now (s\<lparr>fd_refs := fd_refs s + 1, fd_released := fd_released s @ [False]\<rparr>)"

definition release :: "nat \<Rightarrow> feed \<Rightarrow> feed" where
  "release h s =
     (if h \<ge> length (fd_released s) then s
      else if fd_released s ! h then s
      else let s = s\<lparr>fd_released := (fd_released s)[h := True], fd_refs := fd_refs s - 1\<rparr>
           in if fd_refs s > 0 then s
              else let s = closeStream False s;
                       s = s\<lparr>fd_timers := remove_opt (fd_reconnectTimer s) (fd_timers s), fd_reconnectTimer := None\<rparr>
                   in s\<lparr>fd_backoff := INITIAL_BACKOFF_MS, fd_lastAnyEventAt := 0, fd_snapshot := INITIAL_SNAPSHOT\<rparr>)"

subsection \<open>Events\<close>

text \<open>
  A frame, a ping or an error arrives on an open stream, a timer fires once, an interval ticks until
  it is cleared; an event whose source is gone does not happen.
\<close>

datatype feed_event =
    Attach
  | Detach nat
  | Frame nat "job_info option list option"
  | Ping nat
  | StreamError nat
  | TimerFired nat
  | Tick nat

definition feed_step :: "bool \<Rightarrow> feed \<Rightarrow> int \<times> feed_event \<Rightarrow> feed" where
  "feed_step supported s e = (case e of (now, ev) \<Rightarrow> (case ev of
     Attach \<Rightarrow> acquire supported now s
   | Detach h \<Rightarrow> release h s
   | Frame i data \<Rightarrow> if i \<in> set (fd_streams s) then onJobs now data s else s
   | Ping i \<Rightarrow> if i \<in> set (fd_streams s) then onPing now s else s
   | StreamError i \<Rightarrow> if i \<in> set (fd_streams s) then closeStream True s else s
   | TimerFired k \<Rightarrow>
       if k \<in> set (fd_timers s)
       then openStream supported now (s\<lparr>fd_timers := filter (\<lambda>j. j \<noteq> k) (fd_timers s)\<rparr>) else s
   | Tick k \<Rightarrow> if k \<in> set (fd_intervals s) then watchdogCheck now s else s))"

subsection \<open>Invariant\<close>

lemma openStream_frame:
  "fd_refs (openStream b now s) = fd_refs s" "fd_released (openStream b now s) = fd_released s"
  by (simp_all add: openStream_def)

lemma closeStream_frame:
  "fd_refs (closeStream b s) = fd_refs s" "fd_released (closeStream b s) = fd_released s"
  by (simp_all add: closeStream_def Let_def)

interpretation feed: refcounted fd_refs fd_released "acquire supported now" release for supported now
  by unfold_locales
    (auto simp: acquire_def release_def holders_def Let_def openStream_frame closeStream_frame)

text \<open>
  One connection at most, with its watchdog; none, and everything as at the start, without a
  consumer; and while there is a consumer, a connection or the timer that will open the next one.
\<close>

definition feed_inv :: "bool \<Rightarrow> feed \<Rightarrow> bool" where
  "feed_inv supported s \<longleftrightarrow>
     feed.balanced s \<and>
     fd_streams s = (case fd_es s of Some i \<Rightarrow> [i] | None \<Rightarrow> []) \<and>
     fd_intervals s = (case fd_watchdogTimer s of Some k \<Rightarrow> [k] | None \<Rightarrow> []) \<and>
     (fd_es s = None \<longleftrightarrow> fd_watchdogTimer s = None) \<and>
     (fd_refs s = 0 \<longrightarrow> fd_es s = None \<and> fd_reconnectTimer s = None \<and>
        fd_snapshot s = INITIAL_SNAPSHOT \<and> fd_backoff s = INITIAL_BACKOFF_MS) \<and>
     (supported \<and> fd_refs s > 0 \<and> fd_es s = None \<longrightarrow>
        (\<exists>k. fd_reconnectTimer s = Some k \<and> k \<in> set (fd_timers s))) \<and>
     (sn_source (fd_snapshot s) = Sse \<longrightarrow> fd_es s \<noteq> None) \<and>
     INITIAL_BACKOFF_MS \<le> fd_backoff s \<and> fd_backoff s \<le> MAX_BACKOFF_MS"


lemmas feed_defs = feed_inv_def feed.balanced_def INITIAL_BACKOFF_MS_def MAX_BACKOFF_MS_def

lemma onPing_inv: "feed_inv b s \<Longrightarrow> feed_inv b (onPing now s)"
  by (auto simp: onPing_def feed_inv_def feed.balanced_def)

lemma onJobs_inv:
  assumes "feed_inv b s" "fd_es s \<noteq> None"
  shows "feed_inv b (onJobs now data s)"
  using assms by (cases data) (auto simp: onJobs_def feed_defs Let_def)

lemma remove_opt_single: "remove_opt x (case x of Some i \<Rightarrow> [i] | None \<Rightarrow> []) = []"
  by (cases x) (simp_all add: remove_opt_def)

lemma closeStream_inv:
  assumes "feed_inv b s" "fd_refs s \<noteq> 0"
  shows "feed_inv b (closeStream True s)"
  using assms by (auto simp: closeStream_def feed_defs Let_def remove_opt_single)

lemma openStream_inv:
  assumes "feed.balanced s" "fd_streams s = (case fd_es s of Some i \<Rightarrow> [i] | None \<Rightarrow> [])"
    "fd_intervals s = (case fd_watchdogTimer s of Some k \<Rightarrow> [k] | None \<Rightarrow> [])"
    "fd_es s = None \<longleftrightarrow> fd_watchdogTimer s = None"
    "fd_refs s = 0 \<longrightarrow> fd_es s = None \<and> fd_reconnectTimer s = None \<and>
        fd_snapshot s = INITIAL_SNAPSHOT \<and> fd_backoff s = INITIAL_BACKOFF_MS"
    "sn_source (fd_snapshot s) = Sse \<longrightarrow> fd_es s \<noteq> None"
    "INITIAL_BACKOFF_MS \<le> fd_backoff s" "fd_backoff s \<le> MAX_BACKOFF_MS"
  shows "feed_inv b (openStream b now s)"
proof (cases "fd_refs s = 0 \<or> fd_es s \<noteq> None \<or> \<not> b")
  case True
  with assms show ?thesis by (auto simp: openStream_def feed_inv_def)
next
  case False
  with assms show ?thesis by (simp add: openStream_def feed_defs)
qed

lemma feed_refs_nonneg: "feed_inv b s \<Longrightarrow> 0 \<le> fd_refs s"
  by (simp add: feed_defs)

lemma acquire_inv:
  assumes "feed_inv b s"
  shows "feed_inv b (acquire b now s)"
proof -
  let ?s = "s\<lparr>fd_refs := fd_refs s + 1, fd_released := fd_released s @ [False]\<rparr>"
  have "length (fd_released s) \<notin> holders (fd_released s)" by (simp add: holders_def)
  then have "feed.balanced ?s" using assms by (simp add: feed_defs holders_acquired)
  moreover have "fd_refs ?s \<noteq> 0" using feed_refs_nonneg [OF assms] by simp
  ultimately show ?thesis
    unfolding acquire_def using assms by (intro openStream_inv) (auto simp: feed_inv_def)
qed

lemma release_inv:
  assumes "feed_inv b s"
  shows "feed_inv b (release h s)"
proof -
  have bal: "feed.balanced (release h s)"
    using assms feed.balanced_release [of s h] by (simp add: feed_inv_def)
  show ?thesis
  proof (cases "h \<in> holders (fd_released s)")
    case False
    with assms show ?thesis using feed.release_again [of h s] by simp
  next
    case True
    then have h: "h < length (fd_released s)" "\<not> fd_released s ! h" by (simp_all add: holders_def)
    have "feed.balanced s" using assms by (simp add: feed_inv_def)
    from feed.held_pos [OF this True] have pos: "0 < fd_refs s" .
    show ?thesis
    proof (cases "fd_refs s = 1")
      case True
      with h bal assms show ?thesis
        by (auto simp: release_def closeStream_def Let_def feed_inv_def remove_opt_single INITIAL_SNAPSHOT_def
            INITIAL_BACKOFF_MS_def MAX_BACKOFF_MS_def)
    next
      case False
      with h bal assms pos show ?thesis by (auto simp: release_def Let_def feed_inv_def)
    qed
  qed
qed

lemma stream_open: "feed_inv b s \<Longrightarrow> i \<in> set (fd_streams s) \<Longrightarrow> fd_es s \<noteq> None \<and> fd_refs s \<noteq> 0"
  by (auto simp: feed_inv_def split: option.splits)

lemma watchdogCheck_inv: "feed_inv b s \<Longrightarrow> feed_inv b (watchdogCheck now s)"
  using closeStream_inv [of b s] by (auto simp: watchdogCheck_def) (auto simp: feed_inv_def)

lemma timer_inv:
  assumes "feed_inv b s"
  shows "feed_inv b (openStream b now (s\<lparr>fd_timers := ts\<rparr>))"
  using assms by (intro openStream_inv) (auto simp: feed_inv_def feed.balanced_def)

lemma feed_step_inv: "feed_inv b s \<Longrightarrow> feed_inv b (feed_step b s e)"
proof -
  assume s: "feed_inv b s"
  obtain now ev where e: "e = (now, ev)" by fastforce
  show ?thesis
    using s onJobs_inv [OF s] stream_open [OF s] closeStream_inv [OF s]
    by (cases ev) (auto simp: e feed_step_def acquire_inv release_inv onPing_inv watchdogCheck_inv timer_inv)
qed

definition feed_run :: "bool \<Rightarrow> (int \<times> feed_event) list \<Rightarrow> feed" where
  "feed_run supported es = foldl (feed_step supported) feed_init es"

lemma feed_run_inv: "feed_inv b (feed_run b es)"
  unfolding feed_run_def
proof (induction es rule: rev_induct)
  case Nil
  show ?case by (simp add: feed_init_def feed_defs holders_def INITIAL_SNAPSHOT_def)
qed (simp add: feed_step_inv)

text \<open>C5. However consumers come and go, and whatever the connection does, a tab holds at most one event
  stream, each with its watchdog running; without a consumer it holds none and its state is the
  initial one; the reconnect delay stays between 5 and 60 seconds; and the consumers are told the
  stream covers them only while one is open.\<close>

theorem one_stream_per_tab:
  "length (fd_streams (feed_run b es)) \<le> 1 \<and>
   length (fd_intervals (feed_run b es)) = length (fd_streams (feed_run b es)) \<and>
   (holders (fd_released (feed_run b es)) = {} \<longrightarrow>
     fd_streams (feed_run b es) = [] \<and> fd_snapshot (feed_run b es) = INITIAL_SNAPSHOT \<and>
     fd_backoff (feed_run b es) = INITIAL_BACKOFF_MS) \<and>
   fd_backoff (feed_run b es) \<in> {5000 .. 60000} \<and>
   (sn_source (fd_snapshot (feed_run b es)) = Sse \<longrightarrow> fd_streams (feed_run b es) \<noteq> [])"
proof -
  have i: "feed_inv b (feed_run b es)" by (rule feed_run_inv)
  then have "feed.balanced (feed_run b es)" by (simp add: feed_inv_def)
  from feed.zero_iff [OF this] i show ?thesis
    by (auto simp: feed_inv_def INITIAL_BACKOFF_MS_def MAX_BACKOFF_MS_def split: option.splits)
qed

text \<open>C6. The feed never gives up: while a consumer is attached there is an open stream, or a pending timer
  whose firing opens one.\<close>

theorem feed_always_reconnects:
  assumes "holders (fd_released (feed_run True es)) \<noteq> {}"
  shows "fd_streams (feed_run True es) \<noteq> [] \<or>
    (\<exists>k. k \<in> set (fd_timers (feed_run True es)) \<and>
      (\<forall>now. fd_streams (feed_run True (es @ [(now, TimerFired k)])) \<noteq> []))"
proof -
  let ?s = "feed_run True es"
  have i: "feed_inv True ?s" by (rule feed_run_inv)
  then have "feed.balanced ?s" by (simp add: feed_inv_def)
  from feed.zero_iff [OF this] assms feed_refs_nonneg [OF i] have refs: "0 < fd_refs ?s" by auto
  show ?thesis
  proof (cases "fd_es ?s")
    case None
    with i refs obtain k where k: "k \<in> set (fd_timers ?s)" by (auto simp: feed_inv_def)
    have "feed_run True (es @ [(now, TimerFired k)]) =
        openStream True now (?s\<lparr>fd_timers := filter (\<lambda>j. j \<noteq> k) (fd_timers ?s)\<rparr>)" for now
      using k by (simp add: feed_run_def feed_step_def)
    then show ?thesis using k None refs by (auto simp: openStream_def)
  next
    case (Some j)
    with i show ?thesis by (simp add: feed_inv_def)
  qed
qed

subsection \<open>Jobs in the snapshot\<close>

lemma merge_terminal:
  "jobs i = Some j \<Longrightarrow> isTerminalJobState (ji_state j) \<Longrightarrow>
   \<exists>j'. merge_job jobs entry i = Some j' \<and> isTerminalJobState (ji_state j')"
  by (cases entry) (auto simp: merge_job_def split: option.split)

lemma merges_terminal:
  "jobs i = Some j \<Longrightarrow> isTerminalJobState (ji_state j) \<Longrightarrow>
   \<exists>j'. foldl merge_job jobs es i = Some j' \<and> isTerminalJobState (ji_state j')"
proof (induction es arbitrary: jobs j)
  case (Cons e es)
  from merge_terminal [of jobs i j e] Cons.prems obtain j' where
    "merge_job jobs e i = Some j'" "isTerminalJobState (ji_state j')" by blast
  with Cons.IH [of "merge_job jobs e" j'] show ?case by simp
qed simp

lemma step_terminal:
  assumes "sn_jobs (fd_snapshot s) i = Some j" "isTerminalJobState (ji_state j)"
  shows "fd_snapshot (feed_step b s e) = INITIAL_SNAPSHOT \<or>
    (\<exists>j'. sn_jobs (fd_snapshot (feed_step b s e)) i = Some j' \<and> isTerminalJobState (ji_state j'))"
proof -
  obtain now ev where e: "e = (now, ev)" by fastforce
  show ?thesis
  proof (cases ev)
    case (Frame k data)
    with e assms merges_terminal [where jobs = "sn_jobs (fd_snapshot s)", OF assms] show ?thesis
      by (cases data) (simp_all add: feed_step_def onJobs_def Let_def)
  qed (use e assms in \<open>simp_all add: feed_step_def acquire_def release_def openStream_def closeStream_def
      onPing_def watchdogCheck_def Let_def\<close>)
qed

text \<open>C39. A job once shown as done, canceled or failed is never shown as running again, in whatever order
  frames arrive, until the last consumer detaches and the cache is reset.\<close>

theorem finished_job_stays_finished:
  assumes "sn_jobs (fd_snapshot (feed_run b es)) i = Some j" and "isTerminalJobState (ji_state j)"
    and "\<forall>k \<le> length later. fd_snapshot (feed_run b (es @ take k later)) \<noteq> INITIAL_SNAPSHOT"
  shows "\<exists>j'. sn_jobs (fd_snapshot (feed_run b (es @ later))) i = Some j' \<and> isTerminalJobState (ji_state j')"
  using assms(3)
proof (induction later rule: rev_induct)
  case (snoc e later)
  have "\<forall>k \<le> length later. fd_snapshot (feed_run b (es @ take k later)) \<noteq> INITIAL_SNAPSHOT"
  proof (intro allI impI)
    fix k assume "k \<le> length later"
    with snoc.prems [rule_format, of k] show "fd_snapshot (feed_run b (es @ take k later)) \<noteq> INITIAL_SNAPSHOT"
      by simp
  qed
  from snoc.IH [OF this] obtain j' where
    j': "sn_jobs (fd_snapshot (feed_run b (es @ later))) i = Some j'" "isTerminalJobState (ji_state j')" by blast
  have "feed_run b (es @ later @ [e]) = feed_step b (feed_run b (es @ later)) e" by (simp add: feed_run_def)
  with step_terminal [OF j', of b e] snoc.prems [rule_format, of "length (later @ [e])"] show ?case by simp
qed (use assms in simp)


text \<open>A consumer that attaches while a reconnect is pending opens the stream at once and forgets the
  timer without clearing it: the timer stays pending, outside the reach of the teardown.\<close>

theorem late_consumer_orphans_timer:
  assumes "holders (fd_released (feed_run True es)) \<noteq> {}" and "fd_streams (feed_run True es) = []"
  shows "fd_streams (feed_run True (es @ [(now, Attach)])) \<noteq> [] \<and>
    fd_reconnectTimer (feed_run True (es @ [(now, Attach)])) = None \<and>
    fd_timers (feed_run True (es @ [(now, Attach)])) = fd_timers (feed_run True es) \<and>
    fd_timers (feed_run True es) \<noteq> []"
proof -
  let ?s = "feed_run True es"
  have i: "feed_inv True ?s" by (rule feed_run_inv)
  then have "feed.balanced ?s" by (simp add: feed_inv_def)
  from feed.zero_iff [OF this] assms(1) feed_refs_nonneg [OF i] have refs: "0 < fd_refs ?s" by auto
  have es: "fd_es ?s = None" using i assms(2) by (auto simp: feed_inv_def split: option.splits)
  have "feed_run True (es @ [(now, Attach)]) = acquire True now ?s" by (simp add: feed_run_def feed_step_def)
  then show ?thesis using i refs es by (auto simp: acquire_def openStream_def feed_inv_def)
qed

subsection \<open>The tracker of one job\<close>

datatype notify = NotifyPending | NotifyFired

text \<open>\<open>tk_calls\<close> logs the calls of \<open>onSettled\<close>.\<close>

record tracker =
  tk_job :: "job_info option"
  tk_error :: jstring
  tk_notify :: "notify option"
  tk_calls :: "job_info list"

text \<open>The state after the effect that resets the tracker for a new job id.\<close>

definition tracker_init :: tracker where
  "tracker_init = \<lparr>tk_job = None, tk_error = [], tk_notify = None, tk_calls = []\<rparr>"

definition observe :: "(job_info \<Rightarrow> bool) \<Rightarrow> tracker \<Rightarrow> job_info \<Rightarrow> tracker" where
  "observe settled s incoming =
     (let s = s\<lparr>tk_job := (case tk_job s of
            Some prev \<Rightarrow>
              if isTerminalJobState (ji_state prev) \<and> \<not> isTerminalJobState (ji_state incoming)
              then Some prev else Some incoming
          | None \<Rightarrow> Some incoming),
          tk_error := []\<rparr>;
          isSettled = settled incoming
      in case tk_notify s of
           None \<Rightarrow> s\<lparr>tk_notify := Some (if isSettled then NotifyFired else NotifyPending)\<rparr>
         | Some NotifyPending \<Rightarrow>
             if isSettled then s\<lparr>tk_notify := Some NotifyFired, tk_calls := tk_calls s @ [incoming]\<rparr> else s
         | Some NotifyFired \<Rightarrow> s)"

text \<open>The interval of the poll effect, in milliseconds, and whether a tick waits for a quiet stream.\<close>

definition FALLBACK_POLL_MS :: int where "FALLBACK_POLL_MS = 2000"
definition STALE_POLL_MS :: int where "STALE_POLL_MS = 10000"
definition STALE_EVENT_MS :: int where "STALE_EVENT_MS = 45000"

definition poll_plan :: "bool \<Rightarrow> bool \<Rightarrow> int option" where
  "poll_plan settledNow sseCovering =
     (if \<not> settledNow \<and> \<not> sseCovering then Some FALLBACK_POLL_MS
      else if \<not> settledNow then Some STALE_POLL_MS else None)"

definition tick_fetches :: "bool \<Rightarrow> int \<Rightarrow> int \<Rightarrow> bool" where
  "tick_fetches sseCovering now lastEventAt \<longleftrightarrow> \<not> sseCovering \<or> now - lastEventAt > STALE_EVENT_MS"

lemma observe_fired:
  "tk_notify s = Some NotifyFired \<Longrightarrow>
   tk_calls (foldl (observe f) s os) = tk_calls s \<and> tk_notify (foldl (observe f) s os) = Some NotifyFired"
proof (induction os arbitrary: s)
  case (Cons j os)
  then have "tk_notify (observe f s j) = Some NotifyFired" "tk_calls (observe f s j) = tk_calls s"
    by (simp_all add: observe_def Let_def)
  with Cons.IH [of "observe f s j"] show ?case by simp
qed simp

lemma observe_pending:
  "tk_notify s = Some NotifyPending \<Longrightarrow>
   tk_calls (foldl (observe f) s os) = tk_calls s @ take 1 (filter f os)"
proof (induction os arbitrary: s)
  case (Cons j os)
  show ?case
  proof (cases "f j")
    case True
    with Cons.prems have "tk_notify (observe f s j) = Some NotifyFired" "tk_calls (observe f s j) = tk_calls s @ [j]"
      by (simp_all add: observe_def Let_def)
    with True observe_fired [of "observe f s j" f os] show ?thesis by simp
  next
    case False
    with Cons.prems have "tk_notify (observe f s j) = Some NotifyPending" "tk_calls (observe f s j) = tk_calls s"
      by (simp_all add: observe_def Let_def)
    with False Cons.IH [of "observe f s j"] show ?thesis by simp
  qed
qed simp

text \<open>The settlement of a tracked job is announced once, with the first settled observation, and only
  when it was seen unsettled before: a page opened on a settled job announces nothing.\<close>

theorem settlement_announced_once:
  "tk_calls (foldl (observe settled) tracker_init obs) =
     (case obs of [] \<Rightarrow> [] | first # rest \<Rightarrow> if settled first then [] else take 1 (filter settled rest))"
proof (cases obs)
  case Nil
  then show ?thesis by (simp add: tracker_init_def)
next
  case (Cons j js)
  show ?thesis
  proof (cases "settled j")
    case True
    then have "tk_notify (observe settled tracker_init j) = Some NotifyFired"
      "tk_calls (observe settled tracker_init j) = []" by (simp_all add: observe_def tracker_init_def)
    with True Cons observe_fired [of "observe settled tracker_init j" settled js] show ?thesis by simp
  next
    case False
    then have "tk_notify (observe settled tracker_init j) = Some NotifyPending"
      "tk_calls (observe settled tracker_init j) = []" by (simp_all add: observe_def tracker_init_def)
    with False Cons observe_pending [of "observe settled tracker_init j" settled js] show ?thesis by simp
  qed
qed

subsection \<open>The properties on a concrete run\<close>

definition sample_job :: "job_state \<Rightarrow> job_info" where
  "sample_job st =
     \<lparr>ji_id = js ''jb_1'', ji_verb = VDelete,
      ji_scope = \<lparr>js_queue = js ''low'', js_state = js ''retry'', js_q = [], js_meta = [], js_aql = []\<rparr>,
      ji_phase = PExecute, ji_state = st, ji_throttle = 200, ji_reason = js ''drain'', ji_actor = js ''ops'',
      ji_counts = \<lparr>jc_candidates = 3, jc_acted = 3, jc_skipped = 0, jc_failed = 0, jc_scanned = 3\<rparr>,
      ji_cost_class = Cheap, ji_cost_list_len = 0, ji_preview_complete = True, ji_proceed_on_partial = False,
      ji_created_at = [], ji_started_at = [], ji_finished_at = [], ji_preview_completed_at = [],
      ji_fence = 1, ji_error = [], ji_failures_overflow = 0, ji_ctl_pending = []\<rparr>"

text \<open>A consumer attaches, the job finishes, a late frame arrives, the connection breaks.\<close>

definition sample_events :: "(int \<times> feed_event) list" where
  "sample_events = [(0, Attach), (10, Frame 0 (Some [Some (sample_job JobDone)]))]"

lemma sample_feed:
  "feed_run True sample_events =
     \<lparr>fd_snapshot = \<lparr>sn_jobs = [js ''jb_1'' \<mapsto> sample_job JobDone], sn_source = Sse, sn_lastEventAt = 10\<rparr>,
      fd_es = Some 0, fd_reconnectTimer = None, fd_backoff = 5000, fd_refs = 1, fd_watchdogTimer = Some 1,
      fd_lastAnyEventAt = 10, fd_released = [False], fd_streams = [0], fd_timers = [], fd_intervals = [1],
      fd_fresh = 2\<rparr>"
  by (simp add: feed_run_def sample_events_def feed_step_def acquire_def openStream_def onJobs_def merge_job_def
      feed_init_def INITIAL_SNAPSHOT_def INITIAL_BACKOFF_MS_def sample_job_def)

lemma sample_feed_broken:
  "fd_streams (feed_run True (sample_events @ [(20, StreamError 0)])) = []"
  "fd_released (feed_run True (sample_events @ [(20, StreamError 0)])) = [False]"
  "fd_snapshot (feed_run True (sample_events @ [(20, StreamError 0)])) =
     \<lparr>sn_jobs = [js ''jb_1'' \<mapsto> sample_job JobDone], sn_source = Poll, sn_lastEventAt = 10\<rparr>"
proof -
  have "feed_run True (sample_events @ [e]) = feed_step True (feed_run True sample_events) e" for e
    by (simp add: feed_run_def)
  then show "fd_streams (feed_run True (sample_events @ [(20, StreamError 0)])) = []"
    "fd_released (feed_run True (sample_events @ [(20, StreamError 0)])) = [False]"
    "fd_snapshot (feed_run True (sample_events @ [(20, StreamError 0)])) =
       \<lparr>sn_jobs = [js ''jb_1'' \<mapsto> sample_job JobDone], sn_source = Poll, sn_lastEventAt = 10\<rparr>"
    by (simp_all add: sample_feed feed_step_def closeStream_def remove_opt_def)
qed

lemma one_stream_per_tab_witness:
  "sn_source (fd_snapshot (feed_run True sample_events)) = Sse \<and> fd_streams (feed_run True sample_events) \<noteq> []"
  using one_stream_per_tab [of True sample_events] by (simp add: sample_feed)

lemma feed_always_reconnects_witness:
  "\<exists>k. fd_streams (feed_run True ((sample_events @ [(20, StreamError 0)]) @ [(30, TimerFired k)])) \<noteq> []"
proof -
  have "holders (fd_released (feed_run True (sample_events @ [(20, StreamError 0)]))) \<noteq> {}"
    by (simp add: sample_feed_broken holders_def)
  from feed_always_reconnects [OF this] sample_feed_broken(1) show ?thesis by auto
qed

lemma finished_job_stays_finished_witness:
  "\<exists>j'. sn_jobs (fd_snapshot (feed_run True (sample_events @ [(20, StreamError 0)]))) (js ''jb_1'') = Some j' \<and>
     isTerminalJobState (ji_state j')"
proof -
  have a: "sn_jobs (fd_snapshot (feed_run True sample_events)) (js ''jb_1'') = Some (sample_job JobDone)"
    by (simp add: sample_feed)
  have b: "isTerminalJobState (ji_state (sample_job JobDone))" by (simp add: sample_job_def isTerminalJobState_def)
  have "\<forall>k \<le> length [(20 :: int, StreamError 0)].
      fd_snapshot (feed_run True (sample_events @ take k [(20, StreamError 0)])) \<noteq> INITIAL_SNAPSHOT"
  proof (intro allI impI)
    fix k assume "k \<le> length [(20 :: int, StreamError 0)]"
    then consider "k = 0" | "k = 1" by fastforce
    then show "fd_snapshot (feed_run True (sample_events @ take k [(20, StreamError 0)])) \<noteq> INITIAL_SNAPSHOT"
      by cases (simp_all add: sample_feed sample_feed_broken INITIAL_SNAPSHOT_def)
  qed
  from finished_job_stays_finished [OF a b this] show ?thesis .
qed

lemma late_consumer_orphans_timer_witness:
  "fd_timers (feed_run True ((sample_events @ [(20, StreamError 0)]) @ [(30, Attach)])) \<noteq> [] \<and>
   fd_reconnectTimer (feed_run True ((sample_events @ [(20, StreamError 0)]) @ [(30, Attach)])) = None"
  using late_consumer_orphans_timer [of "sample_events @ [(20, StreamError 0)]" 30]
  by (simp add: sample_feed_broken holders_def)

end
