(* ===== verification/Fuzzy.thy ===== *)
theory Fuzzy
  imports "HOL-Library.Sublist" "HOL-Library.Multiset" Formats
begin

text \<open>
  \<open>src/ui/src/lib/fuzzy.ts\<close>: the matcher of the command palette. \<open>toLowerCase\<close> follows the Unicode tables
  of the browser and is the parameter \<open>lower\<close>. Scores are doubles: every operation that can lose
  digits is rounded (\<open>dbl\<close>); the sums of halves are exact.
\<close>

record fuzzy_match =
  fm_score :: rat
  fm_indices :: "nat list"

text \<open>\<open>- _ : . /\<close> and space.\<close>

definition BOUNDARIES :: "nat list" where
  "BOUNDARIES = [45, 95, 58, 46, 47, 32]"

text \<open>The inner \<open>while\<close>: the next occurrence of \<open>c\<close> at or after \<open>ti\<close>.\<close>

function scan_to :: "jstring \<Rightarrow> nat \<Rightarrow> nat \<Rightarrow> nat option" where
  "scan_to t c ti = (if ti < length t then if t ! ti = c then Some ti else scan_to t c (Suc ti) else None)"
  by pat_completeness auto
termination by (relation "measure (\<lambda>(t, c, ti). length t - ti)") auto

declare scan_to.simps [simp del]

fun match_chars :: "jstring \<Rightarrow> jstring \<Rightarrow> nat \<Rightarrow> nat list \<Rightarrow> rat \<Rightarrow> (nat list \<times> rat) option" where
  "match_chars t [] ti indices score = Some (indices, score)"
| "match_chars t (c # q) ti indices score = (case scan_to t c ti of
     None \<Rightarrow> None
   | Some found \<Rightarrow>
       let score = score + 1;
           score = (if indices \<noteq> [] \<and> found = Suc (last indices) then score + 2 else score);
           score = (if found = 0 \<or> t ! (found - 1) \<in> set BOUNDARIES then score + 3 / 2 else score)
       in match_chars t q (Suc found) (indices @ [found]) score)"

definition matchFrom :: "jstring \<Rightarrow> jstring \<Rightarrow> nat \<Rightarrow> nat \<Rightarrow> fuzzy_match option" where
  "matchFrom q t text_length start =
     map_option (\<lambda>(indices, score).
       let score = dbl (score - dbl (of_nat (case indices of i # _ \<Rightarrow> i | [] \<Rightarrow> 0) * dbl (1 / 10)));
           score = dbl (score - dbl (of_nat text_length * dbl (1 / 100)))
       in \<lparr>fm_score = score, fm_indices = indices\<rparr>) (match_chars t q start [] 0)"

function anchor_loop :: "jstring \<Rightarrow> jstring \<Rightarrow> nat \<Rightarrow> nat \<Rightarrow> fuzzy_match option \<Rightarrow> fuzzy_match option" where
  "anchor_loop q t len start best =
     (if start < length t then
        if q = [] \<or> t ! start \<noteq> hd q then anchor_loop q t len (Suc start) best
        else (case matchFrom q t len start of
          None \<Rightarrow> best
        | Some m \<Rightarrow> anchor_loop q t len (Suc start)
            (case best of
               None \<Rightarrow> Some m
             | Some b \<Rightarrow> if fm_score m > fm_score b then Some m else Some b))
      else best)"
  by pat_completeness auto
termination by (relation "measure (\<lambda>(q, t, len, start, best). length t - start)") auto

declare anchor_loop.simps [simp del]

definition fuzzyMatch :: "(jstring \<Rightarrow> jstring) \<Rightarrow> jstring \<Rightarrow> jstring \<Rightarrow> fuzzy_match option" where
  "fuzzyMatch lower query text =
     (if query = [] then Some \<lparr>fm_score = 0, fm_indices = []\<rparr>
      else anchor_loop (lower query) (lower text) (length text) 0 None)"

text \<open>\<open>Array.prototype.sort\<close> is stable, as \<open>sort_key\<close> is. \<open>None\<close> is the limit \<open>Infinity\<close>.\<close>

definition fuzzyFilter ::
  "(jstring \<Rightarrow> jstring) \<Rightarrow> jstring \<Rightarrow> 'a list \<Rightarrow> ('a \<Rightarrow> jstring) \<Rightarrow> nat option \<Rightarrow> ('a \<times> fuzzy_match) list" where
  "fuzzyFilter lower query items key limit =
     (let out = List.map_filter (\<lambda>item. map_option (\<lambda>m. (item, m)) (fuzzyMatch lower query (key item))) items;
          out = sort_key (\<lambda>r. - fm_score (snd r)) out
      in case limit of None \<Rightarrow> out | Some n \<Rightarrow> take n out)"

subsection \<open>Greedy matching is complete\<close>

lemma scan_to_Some:
  "scan_to t c ti = Some f \<Longrightarrow> ti \<le> f \<and> f < length t \<and> t ! f = c \<and> (\<forall>k. ti \<le> k \<and> k < f \<longrightarrow> t ! k \<noteq> c)"
proof (induction t c ti rule: scan_to.induct)
  case (1 t c ti)
  show ?case
  proof (cases "ti < length t \<and> t ! ti \<noteq> c")
    case True
    with 1 have "Suc ti \<le> f \<and> f < length t \<and> t ! f = c \<and> (\<forall>k. Suc ti \<le> k \<and> k < f \<longrightarrow> t ! k \<noteq> c)"
      by (simp add: scan_to.simps [of t c ti])
    with True show ?thesis by (metis Suc_leD le_eq_less_or_eq Suc_leI)
  next
    case False
    with 1(2) show ?thesis by (auto simp: scan_to.simps [of t c ti] split: if_splits)
  qed
qed

lemma scan_to_step:
  "subseq (c # q) (drop ti t) \<longleftrightarrow> (\<exists>f. scan_to t c ti = Some f \<and> subseq q (drop (Suc f) t))"
proof (induction t c ti rule: scan_to.induct)
  case (1 t c ti)
  show ?case
  proof (cases "ti < length t")
    case True
    then have d: "drop ti t = t ! ti # drop (Suc ti) t" by (rule Cons_nth_drop_Suc [symmetric])
    show ?thesis
    proof (cases "t ! ti = c")
      case eq: True
      with True show ?thesis unfolding d by (simp add: scan_to.simps [of t c ti])
    next
      case False
      with True 1 [OF True False] show ?thesis unfolding d by (simp add: scan_to.simps [of t c ti])
    qed
  qed (simp add: scan_to.simps [of t c ti])
qed

lemma match_chars_complete: "match_chars t q ti is s \<noteq> None \<longleftrightarrow> subseq q (drop ti t)"
proof (induction t q ti "is" s rule: match_chars.induct)
  case (2 t c q ti "is" s)
  show ?case
  proof (cases "scan_to t c ti")
    case None
    then show ?thesis using scan_to_step [of c q ti t] by simp
  next
    case (Some f)
    with 2 scan_to_step [of c q ti t] show ?thesis by (simp add: Let_def)
  qed
qed simp

lemma matchFrom_complete: "matchFrom q t len start \<noteq> None \<longleftrightarrow> subseq q (drop start t)"
  using match_chars_complete [of t q start "[]" 0] by (simp add: matchFrom_def)

lemma anchor_loop_keeps: "best \<noteq> None \<Longrightarrow> anchor_loop q t len start best \<noteq> None"
proof (induction q t len start best rule: anchor_loop.induct)
  case (1 q t len start best)
  then show ?case
    by (subst anchor_loop.simps) (auto split: option.split)
qed

lemma anchor_loop_complete:
  "q \<noteq> [] \<Longrightarrow> anchor_loop q t len start None \<noteq> None \<longleftrightarrow> subseq q (drop start t)"
proof (induction "length t - start" arbitrary: start rule: less_induct)
  case less
  obtain c q' where q: "q = c # q'" using less.prems by (cases q) auto
  show ?case
  proof (cases "start < length t")
    case True
    then have d: "drop start t = t ! start # drop (Suc start) t" by (rule Cons_nth_drop_Suc [symmetric])
    show ?thesis
    proof (cases "t ! start = hd q")
      case eq: True
      show ?thesis
      proof (cases "matchFrom q t len start")
        case None
        with True eq q matchFrom_complete [of q t len start] show ?thesis
          by (subst anchor_loop.simps) simp
      next
        case (Some m)
        with True eq q matchFrom_complete [of q t len start] anchor_loop_keeps [of "Some m" q t len "Suc start"]
        show ?thesis by (subst anchor_loop.simps) simp
      qed
    next
      case False
      have "anchor_loop q t len (Suc start) None \<noteq> None \<longleftrightarrow> subseq q (drop (Suc start) t)"
        using True less.prems by (intro less.hyps) simp_all
      with True False q show ?thesis unfolding d by (subst anchor_loop.simps) simp
    qed
  next
    case False
    with q show ?thesis by (subst anchor_loop.simps) simp
  qed
qed

subsection \<open>What a match says\<close>

definition marks :: "jstring \<Rightarrow> jstring \<Rightarrow> nat list \<Rightarrow> bool" where
  "marks q t is \<longleftrightarrow> length is = length q \<and> sorted_wrt (<) is \<and>
     (\<forall>j < length is. is ! j < length t \<and> t ! (is ! j) = q ! j)"

lemma match_chars_marks:
  "match_chars t q ti is s = Some (ks, r) \<Longrightarrow> marks p t is \<Longrightarrow> (\<forall>i \<in> set is. i < ti) \<Longrightarrow> marks (p @ q) t ks"
proof (induction t q ti "is" s arbitrary: p rule: match_chars.induct)
  case (2 t c q ti "is" s)
  from 2(2) obtain f where f: "scan_to t c ti = Some f" by (auto split: option.splits)
  note sf = scan_to_Some [OF f]
  have m: "marks (p @ [c]) t (is @ [f])"
    using 2(3,4) sf by (auto simp: marks_def sorted_wrt_append nth_append less_Suc_eq)
  have "\<forall>i \<in> set (is @ [f]). i < Suc f" using 2(4) sf by auto
  from 2(1) [OF f refl refl refl _ m this] 2(2) f show ?case by (simp add: Let_def)
qed simp

lemma matchFrom_marks: "matchFrom q t len start = Some m \<Longrightarrow> marks q t (fm_indices m)"
  using match_chars_marks [of t q start "[]" 0 _ _ "[]"] by (auto simp: matchFrom_def marks_def Let_def)

lemma anchor_loop_marks:
  "(\<And>b. best = Some b \<Longrightarrow> marks q t (fm_indices b)) \<Longrightarrow> anchor_loop q t len start best = Some m \<Longrightarrow>
   marks q t (fm_indices m)"
proof (induction q t len start best rule: anchor_loop.induct)
  case (1 q t len start best)
  show ?case
  proof (cases "start < length t \<and> q \<noteq> [] \<and> t ! start = hd q")
    case False
    with 1 show ?thesis
      by (cases "start < length t") (auto simp: anchor_loop.simps [of q t len start best])
  next
    case True
    show ?thesis
    proof (cases "matchFrom q t len start")
      case None
      with True 1(3,4) show ?thesis by (simp add: anchor_loop.simps [of q t len start best])
    next
      case (Some x)
      let ?b = "case best of None \<Rightarrow> Some x | Some b \<Rightarrow> if fm_score x > fm_score b then Some x else Some b"
      have "anchor_loop q t len (Suc start) ?b = Some m"
        using 1(4) True Some by (simp add: anchor_loop.simps [of q t len start best])
      moreover have "marks q t (fm_indices b)" if "?b = Some b" for b
        using that 1(3) matchFrom_marks [OF Some] by (auto split: option.splits if_splits)
      ultimately show ?thesis using 1(2) [of x] True Some by simp
    qed
  qed
qed

text \<open>C40. The matcher finds exactly the texts that contain the query as a subsequence, case aside, and the
  indices it marks are increasing positions of the query's characters, one for each, in the folded text.\<close>

theorem fuzzy_finds_subsequences:
  assumes "query \<noteq> []" and "lower query \<noteq> []"
  shows "(fuzzyMatch lower query text \<noteq> None \<longleftrightarrow> subseq (lower query) (lower text)) \<and>
    (\<forall>m. fuzzyMatch lower query text = Some m \<longrightarrow>
      length (fm_indices m) = length (lower query) \<and> sorted_wrt (<) (fm_indices m) \<and>
      map (\<lambda>i. lower text ! i) (fm_indices m) = lower query)"
proof (intro conjI allI impI)
  show "fuzzyMatch lower query text \<noteq> None \<longleftrightarrow> subseq (lower query) (lower text)"
    using anchor_loop_complete [OF assms(2), of "lower text" "length text" 0] assms(1) by (simp add: fuzzyMatch_def)
  fix m assume "fuzzyMatch lower query text = Some m"
  then have "marks (lower query) (lower text) (fm_indices m)"
    using anchor_loop_marks [of None "lower query" "lower text" "length text" 0 m] assms(1)
    by (simp add: fuzzyMatch_def)
  then show "length (fm_indices m) = length (lower query)" "sorted_wrt (<) (fm_indices m)"
    "map (\<lambda>i. lower text ! i) (fm_indices m) = lower query"
    by (auto simp: marks_def intro!: nth_equalityI)
qed

lemma fuzzy_finds_subsequences_witness:
  "fuzzyMatch id (js ''bil'') (js ''global-billing'') \<noteq> None \<and> subseq (js ''bil'') (js ''global-billing'')"
proof -
  have s: "subseq (js ''bil'') (js ''global-billing'')" by (simp add: js_def)
  then show ?thesis using fuzzy_finds_subsequences [of "js ''bil''" id "js ''global-billing''"] by simp
qed

text \<open>The filter of the palette keeps exactly the items that match, best score first, and items of
  equal score in their order.\<close>

theorem fuzzy_filter_ranks:
  "mset (map fst (fuzzyFilter lower query items key None)) =
     mset (filter (\<lambda>i. fuzzyMatch lower query (key i) \<noteq> None) items) \<and>
   sorted_wrt (\<lambda>a b. fm_score (snd a) \<ge> fm_score (snd b)) (fuzzyFilter lower query items key None) \<and>
   filter (\<lambda>r. fm_score (snd r) = x) (fuzzyFilter lower query items key None) =
     filter (\<lambda>r. fm_score (snd r) = x)
       (map (\<lambda>i. (i, the (fuzzyMatch lower query (key i)))) (filter (\<lambda>i. fuzzyMatch lower query (key i) \<noteq> None) items)) \<and>
   fuzzyFilter lower query items key (Some n) = take n (fuzzyFilter lower query items key None)"
proof (intro conjI)
  let ?f = "\<lambda>r. - fm_score (snd r)"
  let ?out = "map (\<lambda>i. (i, the (fuzzyMatch lower query (key i)))) (filter (\<lambda>i. fuzzyMatch lower query (key i) \<noteq> None) items)"
  have out: "List.map_filter (\<lambda>item. map_option (\<lambda>m. (item, m)) (fuzzyMatch lower query (key item))) items = ?out"
    by (induction items) (auto simp: List.map_filter_simps split: option.split)
  have all: "fuzzyFilter lower query items key None = sort_key ?f ?out"
    unfolding fuzzyFilter_def Let_def out by simp
  show "mset (map fst (fuzzyFilter lower query items key None)) =
      mset (filter (\<lambda>i. fuzzyMatch lower query (key i) \<noteq> None) items)"
    unfolding all by (simp add: image_mset.compositionality comp_def)
  have "sorted (map ?f (sort_key ?f ?out))" by (rule sorted_sort_key)
  then show "sorted_wrt (\<lambda>a b. fm_score (snd a) \<ge> fm_score (snd b)) (fuzzyFilter lower query items key None)"
    unfolding all by (simp add: sorted_wrt_map)
  show "filter (\<lambda>r. fm_score (snd r) = x) (fuzzyFilter lower query items key None) =
      filter (\<lambda>r. fm_score (snd r) = x) ?out"
    using sort_key_stable [of ?f "- x" ?out] unfolding all by simp
  show "fuzzyFilter lower query items key (Some n) = take n (fuzzyFilter lower query items key None)"
    by (simp add: fuzzyFilter_def Let_def)
qed

end
