(* ===== verification/ApiConsole.thy ===== *)
theory ApiConsole
  imports BulkJob UrlState
begin

text \<open>
  The wire types of the endpoints that components call, from \<open>src/ui/src/api.ts\<close>, \<open>api-fleet.ts\<close>,
  \<open>api-errors.ts\<close>, \<open>api-hygiene.ts\<close>, \<open>api-series.ts\<close> and \<open>api-views.ts\<close>. The conventions are those of
  \<open>Api\<close>: an optional field is an \<open>option\<close>, a count is an \<open>int\<close>, a rate a \<open>rat\<close>, a \<open>Record\<close> the list of its
  members; a union of literals the server answers with is the text it sends.
\<close>

datatype hygiene_kind = Inventory | Storage | DeadLetter | SchedulerHealth

datatype series_window = Window3h | Window24h | Window30d

record search_tasks_response =
  str_tasks :: "task_info list"
  str_total :: int
  str_scanned :: int
  str_truncated :: bool
  str_page :: int
  str_size :: int
  str_mode :: "jstring option"
  str_exact :: "bool option"
  str_state :: "jstring option"
  str_cursor :: "jstring option"
  str_scan_cursor :: "jstring option"
  str_candidate_estimate :: "int option"
  str_budget :: "int option"
  str_pending_since_unknown :: "int option"

record state_counts_response =
  scr_queue :: jstring
  scr_counts :: "(jstring \<times> int) list"
  scr_source :: jstring
  scr_refreshed_at :: jstring

record task_metadata_response =
  tmr_facets :: "(jstring \<times> jstring \<times> int) list"
  tmr_scanned :: int
  tmr_truncated :: bool

record task_aggregate_response =
  tar_by :: jstring
  tar_groups :: "(jstring \<times> int) list"
  tar_total :: int
  tar_scanned :: int
  tar_truncated :: bool

record bulk_filtered_response =
  bfr_processed :: int
  bfr_errors :: int
  bfr_scanned :: int
  bfr_truncated :: bool

record scheduler_entry =
  entry_id :: jstring
  entry_spec :: jstring
  entry_task_type :: jstring
  entry_task_payload :: jstring
  entry_options :: "jstring list"
  entry_next_enqueue_at :: jstring
  entry_prev_enqueue_at :: "jstring option"

record list_scheduler_entries_response =
  lser_entries :: "scheduler_entry list"

record scheduler_enqueue_event =
  see_task_id :: jstring
  see_enqueued_at :: jstring

record list_scheduler_enqueue_events_response =
  lseer_events :: "scheduler_enqueue_event list"

record daily_stat =
  day_queue :: jstring
  day_processed :: int
  day_succeeded :: int
  day_failed :: int
  day_date :: jstring

record get_queue_response =
  gqr_current :: queue
  gqr_history :: "daily_stat list"

record observed_attempt =
  oa_n :: int
  oa_start :: jstring
  oa_duration_ms :: int
  oa_outcome :: jstring
  oa_error :: "jstring option"
  oa_worker :: jstring

record observed_summary =
  os_first_seen :: "jstring option"
  os_total_attempts :: int
  os_last_duration_ms :: int
  os_last_outcome :: "jstring option"
  os_total_busy_ms :: int

record observed_task_response =
  otr_present :: bool
  otr_attempts :: "observed_attempt list"
  otr_summary :: "observed_summary option"

record features_response =
  fr_features :: bool
  fr_correlation_keys :: "(jstring list) option"
  fr_payload_detail_limit :: "int option"

record job_sample_row =
  jsr_id :: jstring
  jsr_queue :: jstring
  jsr_type :: jstring
  jsr_payload :: jstring

record job_item_failure =
  jif_queue :: jstring
  jif_id :: jstring
  jif_error :: jstring

record audit_entry =
  ae2_id :: jstring
  ae2_event :: jstring
  ae2_actor :: jstring
  ae2_verb :: jstring
  ae2_scope :: job_scope
  ae2_reason :: jstring
  ae2_job_id :: jstring
  ae2_preview_count :: int
  ae2_acted :: int
  ae2_skipped :: int
  ae2_failed :: int
  ae2_at :: jstring

record job_results_response =
  jrr_tasks :: "task_info list"
  jrr_total_candidates :: int
  jrr_offset :: int
  jrr_vanished :: int

record fleet_stats =
  fs_queues_total :: int
  fs_paused_queues :: int
  fs_zero_consumer_queues :: int
  fs_pending :: int
  fs_active :: int
  fs_scheduled :: int
  fs_retry :: int
  fs_archived :: int
  fs_completed :: int
  fs_groups :: int
  fs_orphan_candidates :: int
  fs_past_due_scheduled :: int
  fs_processed_today :: int
  fs_failed_today :: int
  fs_error_rate :: rat
  fs_servers :: int
  fs_workers_total :: int
  fs_workers_busy :: int
  fs_redis_memory_used_bytes :: int
  fs_redis_memory_max_bytes :: int

record fleet_coverage =
  fc_tier :: int
  fc_queues_total :: int
  fc_refreshed_pct_5m :: int
  fc_updated_at :: jstring
  fc_budget :: "int option"
  fc_full_rotation_seconds_est :: "int option"
  fc_hot_set_size :: "int option"

record fleet_overview_response =
  for_fleet :: fleet_stats
  for_coverage :: fleet_coverage

record fleet_queue_row =
  fq_queue :: jstring
  fq_pending :: int
  fq_active :: int
  fq_scheduled :: int
  fq_retry :: int
  fq_archived :: int
  fq_completed :: int
  fq_groups :: int
  fq_paused :: bool
  fq_paused_since :: "jstring option"
  fq_processed_today :: int
  fq_failed_today :: int
  fq_error_rate :: rat
  fq_orphan_candidates :: int
  fq_next_retry_at :: "jstring option"
  fq_past_due_scheduled :: int
  fq_oldest_pending_since :: "jstring option"
  fq_oldest_pending_age_ms :: int
  fq_latency_ms :: int
  fq_consumers :: int
  fq_refreshed_at :: jstring

record fleet_queues_response =
  fqr_queues :: "fleet_queue_row list"
  fqr_total_matched :: int
  fqr_next_cursor :: "jstring option"
  fqr_filter_ignored :: "jstring option"
  fqr_coverage :: fleet_coverage

record attention_finding =
  find_queue :: jstring
  find_detector :: jstring
  find_severity :: int
  find_sentence :: jstring
  find_value :: int
  find_chips :: "jstring list"
  find_since :: jstring
  find_suggested_query :: jstring
  find_series_scope :: "jstring option"
  find_series_metric :: "jstring option"

record learning_detector =
  ld_detector :: jstring
  ld_until :: jstring

record fleet_attention_response =
  far_findings :: "attention_finding list"
  far_updated_at :: jstring
  far_detectors_live :: int
  far_detectors_learning :: int
  far_learning :: "(learning_detector list) option"

record coverage_consumer =
  cc_server_id :: jstring
  cc_host :: jstring
  cc_pid :: int
  cc_weight :: int
  cc_strict_priority :: bool

record coverage_row =
  cov_queue :: jstring
  cov_pending :: "int option"
  cov_consumers :: "coverage_consumer list"
  cov_total_concurrency :: int
  cov_status :: jstring

record coverage_response =
  cr2_rows :: "coverage_row list"
  cr2_updated_at :: jstring

record cancel_listeners_response =
  clr_listeners :: int
  clr_approximate :: bool
  clr_nodes :: int

record scheduler_row =
  srow_stable_key :: jstring
  srow_entry :: scheduler_entry
  srow_live :: bool
  srow_first_seen :: jstring
  srow_last_seen :: jstring
  srow_gone_since :: "jstring option"
  srow_live_count :: "int option"

record schedulers_response =
  sr_entries :: "scheduler_row list"

record scheduler_outcome_event =
  oev_task_id :: jstring
  oev_enqueued_at :: jstring
  oev_outcome :: jstring
  oev_state :: "jstring option"
  oev_reason :: "jstring option"

record scheduler_outcomes_response =
  sor_stable_key :: jstring
  sor_queue :: jstring
  sor_retention_seconds :: int
  sor_history_cap :: int
  sor_events :: "scheduler_outcome_event list"

record run_scheduler_entry_response =
  rser_task :: task_info
  rser_applied_options :: "jstring list"
  rser_skipped_options :: "jstring list"

record retry_histogram_response =
  rhist_queue :: jstring
  rhist_from :: jstring
  rhist_bucket_seconds :: int
  rhist_past_due :: int
  rhist_buckets :: "int list"
  rhist_beyond :: int
  rhist_total :: int
  rhist_exact :: bool

record pending_wait_sample_response =
  pwait_queue :: jstring
  pwait_list_len :: int
  pwait_head_probes :: int
  pwait_tail_probes :: int
  pwait_sampled :: int
  pwait_waits_ms :: "int list"
  pwait_method :: jstring
  pwait_sampled_at :: jstring

record health_role =
  hr2_role :: jstring
  hr2_title :: jstring
  hr2_holder :: jstring
  hr2_held_by_this_replica :: bool
  hr2_ttl_ms :: int
  hr2_fence :: int

record health_sweep =
  hsw_at :: jstring
  hsw_queues :: int
  hsw_refreshed :: int
  hsw_read_cmds :: int
  hsw_write_cmds :: int
  hsw_duration_ms :: int

record health_series =
  hse_mode :: jstring
  hse_queue_ceiling :: int

record health_stats =
  hst_available :: bool
  hst_reason :: "jstring option"
  hst_tier :: "int option"
  hst_command_budget :: "int option"
  hst_hot_set_size :: "int option"
  hst_full_rotation_seconds_est :: "int option"
  hst_queues_total :: "int option"
  hst_coverage_pct_5m :: "int option"
  hst_updated_at :: "jstring option"
  hst_source :: "jstring option"
  hst_last_sweep_local :: "health_sweep option"
  hst_series :: "health_series option"

record health_roles_response =
  hrr_roles :: "health_role list"
  hrr_stats :: health_stats
  hrr_updated_at :: jstring

record error_signature_queue_cell =
  esqc_queue :: jstring
  esqc_type :: jstring
  esqc_count :: int
  esqc_archived :: int
  esqc_retry_sampled :: int
  esqc_sampled :: bool

record error_signature_task_ref =
  estr_queue :: jstring
  estr_id :: jstring

record error_signature_row =
  esr_sig :: jstring
  esr_template :: jstring
  esr_count :: int
  esr_count_is_lower_bound :: bool
  esr_archived_count :: int
  esr_retry_sampled_count :: int
  esr_first_seen :: jstring
  esr_last_seen :: jstring
  esr_trend :: jstring
  esr_queues :: "error_signature_queue_cell list"
  esr_sample_task_refs :: "error_signature_task_ref list"

record error_signature_honesty =
  esh_archived_exact :: bool
  esh_retry_sampled :: bool
  esh_trimmed_queues :: "jstring list"

record list_error_signatures_response =
  lesr_signatures :: "error_signature_row list"
  lesr_total_signatures :: int
  lesr_honesty :: error_signature_honesty
  lesr_counter_failed_today :: int
  lesr_index_count_total :: int
  lesr_tail_indexed_at :: jstring
  lesr_retry_sampled_at :: jstring

record error_signature_counter_row =
  escr_queue :: jstring
  escr_failed :: int

record get_error_signature_response =
  gesr_signature :: error_signature_row
  gesr_honesty :: error_signature_honesty
  gesr_failed_today_by_queue :: "error_signature_counter_row list"
  gesr_failed_today_queues_total :: int
  gesr_counter_failed_today :: int
  gesr_index_count_total :: int
  gesr_tail_indexed_at :: jstring
  gesr_retry_sampled_at :: jstring
  gesr_count_over_time_available :: bool

record hygiene_card =
  hcard_kind :: hygiene_kind
  hcard_title :: jstring
  hcard_enabled :: bool
  hcard_interval_seconds :: int
  hcard_last_generated_at :: jstring
  hcard_summary :: "((jstring \<times> int) list) option"

record list_hygiene_response =
  lhr_reports :: "hygiene_card list"

record inventory_row =
  ir_queue :: jstring
  ir_size :: int
  ir_pending :: int
  ir_consumers :: int
  ir_paused :: bool
  ir_paused_since :: "jstring option"
  ir_last_activity_at :: "jstring option"
  ir_last_activity_source :: jstring
  ir_dead_candidate :: bool
  ir_dead_evidence :: "jstring option"
  ir_zero_consumer_pending :: bool
  ir_paused_over_7d :: bool

record inventory_report =
  ir2_rows :: "inventory_row list"
  ir2_queues_total :: int
  ir2_rows_truncated :: bool
  ir2_probe_cap :: int
  ir2_probes_capped :: bool

record queue_memory_row =
  qmr_queue :: jstring
  qmr_tasks :: int
  qmr_struct_bytes :: int
  qmr_sampled_tasks :: int
  qmr_avg_task_bytes :: int
  qmr_estimated_bytes :: int
  qmr_sampled_at :: jstring

record payload_offender =
  po2_queue :: jstring
  po2_id :: jstring
  po2_state :: jstring
  po2_msg_bytes :: int

record retention_row =
  rr_queue :: jstring
  rr_counts :: "int list"
  rr_total :: int

record retention_histogram =
  rh_bucket_labels :: "jstring list"
  rh_fleet :: retention_row
  rh_queues :: "retention_row list"
  rh_queues_truncated :: bool

record storage_report =
  sr2_memory :: "queue_memory_row list"
  sr2_not_sampled_queues :: int
  sr2_sample_per_queue :: int
  sr2_method :: jstring
  sr2_offenders :: "payload_offender list"
  sr2_retention :: retention_histogram

record dead_letter_cluster =
  dlc_sig :: jstring
  dlc_template :: jstring
  dlc_archived :: int
  dlc_lower_bound :: bool

record dead_letter_action =
  dla_label :: jstring
  dla_verb :: jstring
  dla_queue :: jstring
  dla_state :: jstring
  dla_aql :: jstring
  dla_estimate :: int

record dead_letter_queue_row =
  dlqr_queue :: jstring
  dlqr_archived :: int
  dlqr_buckets :: "int list"
  dlqr_older_than_threshold :: int
  dlqr_at_trim_cap :: bool
  dlqr_clusters :: "dead_letter_cluster list"
  dlqr_action :: "dead_letter_action option"

record dead_letter_report =
  dlr_bucket_labels :: "jstring list"
  dlr_action_threshold_days :: int
  dlr_queues :: "dead_letter_queue_row list"
  dlr_queues_with_archived :: int
  dlr_queues_truncated :: bool
  dlr_clusters_indexed_at :: "jstring option"

record sched_issue =
  si_stable_key :: jstring
  si_task_type :: jstring
  si_spec :: jstring
  si_queue :: jstring
  si_last_seen_at :: "jstring option"
  si_retention_seconds :: int
  si_consumers :: int

record scheduler_health_report =
  shr_gone :: "sched_issue list"
  shr_retention_less :: "sched_issue list"
  shr_zero_consumer_targets :: "sched_issue list"
  shr_live_entries :: int
  shr_snapshots :: int

record hygiene_report =
  hrep_kind :: hygiene_kind
  hrep_generated_at :: jstring
  hrep_data_as_of :: "jstring option"
  hrep_summary :: "(jstring \<times> int) list"
  hrep_inventory :: "inventory_report option"
  hrep_storage :: "storage_report option"
  hrep_dead_letter :: "dead_letter_report option"
  hrep_scheduler_health :: "scheduler_health_report option"

record hygiene_config =
  hc_enabled :: bool
  hc_interval_seconds :: int

record series_point =
  sp_t :: int
  sp_v :: "rat option"

record series_response =
  sers_scope :: jstring
  sers_metric :: jstring
  sers_window :: series_window
  sers_period :: int
  sers_points :: "series_point list"
  sers_learning_until :: "jstring option"

record series_spec =
  sspec_scope :: jstring
  sspec_metric :: jstring
  sspec_window :: series_window
  sspec_points :: "int option"

record series_batch_response =
  sbr_series :: "series_response list"

record deploy_marker =
  dm_id :: jstring
  dm_label :: jstring
  dm_actor :: jstring
  dm_at :: jstring

record list_markers_response =
  lmr_markers :: "deploy_marker list"

record saved_view =
  view_id :: jstring
  view_name :: jstring
  view_target :: jstring
  view_state :: "(jstring \<times> jstring) list"
  view_created_by :: jstring
  view_created_at :: jstring
  view_updated_at :: jstring
  view_version :: int
  view_system :: bool

record list_views_response =
  lvr_views :: "saved_view list"

end
