(* ===== verification/JsSort.thy ===== *)
theory JsSort
  imports Complex_Main "HOL-Library.List_Lexorder" "HOL-Library.Product_Lexorder" "HOL-Library.Multiset" Prelude
begin

text \<open>
  \<open>Array.prototype.sort\<close> with a comparator, which every table of the console goes through. The
  language fixes the result when the comparator is consistent: the stable sorted permutation. It is
  computed here by stable insertion, and the locale \<open>comparator\<close> says what a comparison function of the
  source must satisfy for the result to be the sort by a key. The comparator returns a number, of
  which only the sign matters.

  Strings compare by code units, \<open>a < b\<close> on the lists of \<open>List_Lexorder\<close>.
\<close>

primrec insert_by :: "('a \<Rightarrow> 'a \<Rightarrow> rat) \<Rightarrow> 'a \<Rightarrow> 'a list \<Rightarrow> 'a list" where
  "insert_by cmp x [] = [x]"
| "insert_by cmp x (y # ys) = (if cmp x y \<le> 0 then x # y # ys else y # insert_by cmp x ys)"

definition js_sort :: "('a \<Rightarrow> 'a \<Rightarrow> rat) \<Rightarrow> 'a list \<Rightarrow> 'a list" where
  "js_sort cmp xs = foldr (insert_by cmp) xs []"

text \<open>\<open>a < b ? -1 : a > b ? 1 : 0\<close> and \<open>a < b ? -1 : 1\<close>.\<close>

definition cmp3 :: "'k::linorder \<Rightarrow> 'k \<Rightarrow> rat" where
  "cmp3 a b = (if a < b then - 1 else if b < a then 1 else 0)"

definition cmp2 :: "'k::linorder \<Rightarrow> 'k \<Rightarrow> rat" where
  "cmp2 a b = (if a < b then - 1 else 1)"

lemma mset_insert_by [simp]: "mset (insert_by cmp x ys) = add_mset x (mset ys)"
  by (induction ys) auto

lemma mset_js_sort [simp]: "mset (js_sort cmp xs) = mset xs"
  unfolding js_sort_def by (induction xs) auto

lemma set_js_sort [simp]: "set (js_sort cmp xs) = set xs"
  by (metis mset_js_sort set_mset_mset)

lemma length_js_sort [simp]: "length (js_sort cmp xs) = length xs"
  by (metis mset_js_sort size_mset)

text \<open>The contract of a comparator: it orders elements with different keys by their keys.\<close>

locale comparator =
  fixes cmp :: "'a \<Rightarrow> 'a \<Rightarrow> rat" and key :: "'a \<Rightarrow> 'k::linorder"
  assumes before: "key a < key b \<Longrightarrow> cmp a b < 0"
    and after: "key b < key a \<Longrightarrow> 0 < cmp a b"
begin

lemma insert_by_insort: "key x \<notin> key ` set ys \<Longrightarrow> insert_by cmp x ys = insort_key key x ys"
proof (induction ys)
  case (Cons y ys)
  then have "key x \<noteq> key y" by auto
  then have "cmp x y \<le> 0 \<longleftrightarrow> key x \<le> key y"
    using before [of x y] after [of y x] by (cases "key x" "key y" rule: linorder_cases) auto
  with Cons show ?case by simp
qed simp

lemma sort_distinct: "distinct (map key xs) \<Longrightarrow> js_sort cmp xs = sort_key key xs"
proof (induction xs)
  case (Cons x xs)
  then have "js_sort cmp (x # xs) = insert_by cmp x (sort_key key xs)" by (simp add: js_sort_def)
  with Cons.prems show ?case by (simp add: insert_by_insort)
qed (simp add: js_sort_def)

lemma insert_by_sorted: "sorted (map key ys) \<Longrightarrow> sorted (map key (insert_by cmp x ys))"
proof (induction ys)
  case (Cons y ys)
  have set: "set (insert_by cmp x ys) = insert x (set ys)"
    by (metis mset_insert_by set_mset_add_mset_insert set_mset_mset)
  have "key x \<le> key y" if "cmp x y \<le> 0" using after [of y x] that by (meson not_less)
  moreover have "key y \<le> key x" if "\<not> cmp x y \<le> 0" using before [of x y] that by (meson not_less less_le)
  ultimately show ?case using Cons by (fastforce simp: set)
qed simp

lemma sorted: "sorted (map key (js_sort cmp xs))"
  unfolding js_sort_def by (induction xs) (auto intro: insert_by_sorted)

end

text \<open>A comparator that answers 0 on equal keys sorts stably, whatever the list.\<close>

locale stable_comparator = comparator +
  assumes tie: "key a = key b \<Longrightarrow> cmp a b = 0"
begin

lemma sort: "js_sort cmp xs = sort_key key xs"
proof -
  have "insert_by cmp x ys = insort_key key x ys" for x ys
  proof (induction ys)
    case (Cons y ys)
    have "cmp x y \<le> 0 \<longleftrightarrow> key x \<le> key y"
      using before [of x y] after [of y x] tie [of x y] by (cases "key x" "key y" rule: linorder_cases) auto
    with Cons show ?case by simp
  qed simp
  then show ?thesis unfolding js_sort_def by (induction xs) simp_all
qed

end

end
