(* ===== verification/Json.thy ===== *)
theory Json
  imports Numbers
begin

text \<open>
  \<open>JSON.parse\<close>, which decides in the console what a payload is: a tokenizer and a stack machine over
  the tokens. A member list keeps the members of an object in the order of their first occurrence,
  the last value of a repeated name wins; \<open>entries\<close> is the order \<open>Object.entries\<close> visits them in.
\<close>

datatype jvalue = VNull | VBool bool | VNumber number | VString jstring | VArray "jvalue list"
  | VObject "(jstring \<times> jvalue) list"

datatype jtoken = TPunct nat | TText jstring | TAtom jvalue

subsection \<open>Tokens\<close>

definition json_ws :: "nat \<Rightarrow> bool" where
  "json_ws c \<longleftrightarrow> c = 32 \<or> c = 9 \<or> c = 10 \<or> c = 13"

definition simple_escape :: "nat \<Rightarrow> nat option" where
  "simple_escape e =
     (if e = 34 \<or> e = 92 \<or> e = 47 then Some e
      else if e = 98 then Some 8 else if e = 102 then Some 12 else if e = 110 then Some 10
      else if e = 114 then Some 13 else if e = 116 then Some 9 else None)"

text \<open>What follows a backslash: the code unit it stands for and the rest.\<close>

definition json_escape :: "jstring \<Rightarrow> (nat \<times> jstring) option" where
  "json_escape cs = (case cs of
     [] \<Rightarrow> None
   | e # r \<Rightarrow>
       if e = 117
       then (if length r < 4 then None else map_option (\<lambda>x. (x, drop 4 r)) (digits_in 16 0 (take 4 r)))
       else map_option (\<lambda>x. (x, r)) (simple_escape e))"

lemma json_escape_shorter: "json_escape cs = Some (x, r) \<Longrightarrow> length r < length cs"
  by (auto simp: json_escape_def split: list.splits if_splits)

text \<open>The text after the opening quote: its value and what follows the closing quote.\<close>

function json_text :: "jstring \<Rightarrow> (jstring \<times> jstring) option" where
  "json_text [] = None"
| "json_text (c # cs) =
     (if c = 34 then Some ([], cs)
      else if c < 32 then None
      else if c = 92
      then (case json_escape cs of
          Some (x, r) \<Rightarrow> map_option (\<lambda>(s, r). (x # s, r)) (json_text r)
        | None \<Rightarrow> None)
      else map_option (\<lambda>(s, r). (c # s, r)) (json_text cs))"
  by pat_completeness auto
termination by (relation "measure length") (auto dest: json_escape_shorter)

lemma json_text_shorter: "json_text cs = Some (s, r) \<Longrightarrow> length r < length cs"
proof (induction cs arbitrary: s r rule: json_text.induct)
  case (2 c cs)
  show ?case
  proof (cases "c = 92")
    case True
    then obtain x r1 s1 where "json_escape cs = Some (x, r1)" "json_text r1 = Some (s1, r)"
      using 2(3) by (auto split: option.splits)
    with True 2(1) [of "(x, r1)" x r1] json_escape_shorter show ?thesis by fastforce
  next
    case False
    with 2(2,3) show ?thesis by (fastforce split: if_splits)
  qed
qed simp

text \<open>\<open>-?(0|[1-9]\d*)(\.\d+)?([eE][+-]?\d+)?\<close>.\<close>

definition json_number :: "jstring \<Rightarrow> bool" where
  "json_number s \<longleftrightarrow>
     (let u = (case s of c # r \<Rightarrow> if c = 45 then r else s | [] \<Rightarrow> []);
          ip = takeWhile is_digit u;
          r = dropWhile is_digit u;
          (fp, e) = (case r of
              c # r' \<Rightarrow> if c = 46 then (takeWhile is_digit r', dropWhile is_digit r') else ([48], r)
            | [] \<Rightarrow> ([48], []))
      in (ip = [48] \<or> ip \<noteq> [] \<and> hd ip \<noteq> 48) \<and> fp \<noteq> [] \<and> exponent_part e \<noteq> None)"

definition atom_char :: "nat \<Rightarrow> bool" where
  "atom_char c \<longleftrightarrow> is_digit c \<or> 97 \<le> c \<and> c \<le> 122 \<or> c \<in> {69, 43, 45, 46}"

definition json_atom :: "jstring \<Rightarrow> jvalue option" where
  "json_atom s =
     (if s = js ''null'' then Some VNull
      else if s = js ''true'' then Some (VBool True)
      else if s = js ''false'' then Some (VBool False)
      else if json_number s then Some (VNumber (js_number s))
      else None)"

function json_tokens :: "jstring \<Rightarrow> jtoken list option" where
  "json_tokens [] = Some []"
| "json_tokens (c # cs) =
     (if json_ws c then json_tokens cs
      else if c \<in> {91, 93, 123, 125, 44, 58} then map_option (Cons (TPunct c)) (json_tokens cs)
      else if c = 34
      then (case json_text cs of
          Some (s, r) \<Rightarrow> map_option (Cons (TText s)) (json_tokens r)
        | None \<Rightarrow> None)
      else case json_atom (takeWhile atom_char (c # cs)) of
          Some v \<Rightarrow>
            if atom_char c then map_option (Cons (TAtom v)) (json_tokens (dropWhile atom_char cs)) else None
        | None \<Rightarrow> None)"
  by pat_completeness auto
termination
  by (relation "measure length")
    (auto dest: json_text_shorter simp: less_Suc_eq_le length_dropWhile_le)

subsection \<open>The machine\<close>

definition put_member :: "jstring \<times> 'v \<Rightarrow> (jstring \<times> 'v) list \<Rightarrow> (jstring \<times> 'v) list" where
  "put_member m ms =
     (if fst m \<in> fst ` set ms then map (\<lambda>x. if fst x = fst m then m else x) ms else ms @ [m])"

text \<open>An array with the elements read so far, or an object with its members and the name just read.\<close>

datatype frame = InArray "jvalue list" | InObject "(jstring \<times> jvalue) list" jstring

text \<open>
  What comes next: a value (or the end of an array that has just begun), a name (or the end of an
  object that has just begun), the colon after a name; or a value has just been read.
\<close>

datatype expect = Value bool | Name "(jstring \<times> jvalue) list" bool | Colon "(jstring \<times> jvalue) list" jstring
  | After jvalue

type_synonym machine = "frame list \<times> expect"

definition value_punct :: "frame list \<Rightarrow> bool \<Rightarrow> nat \<Rightarrow> machine option" where
  "value_punct fs first c =
     (if c = 91 then Some (InArray [] # fs, Value True)
      else if c = 123 then Some (fs, Name [] True)
      else case fs of
        InArray [] # fs' \<Rightarrow> if c = 93 \<and> first then Some (fs', After (VArray [])) else None
      | _ \<Rightarrow> None)"

definition after_punct :: "frame list \<Rightarrow> jvalue \<Rightarrow> nat \<Rightarrow> machine option" where
  "after_punct fs v c = (case fs of
     InArray vs # fs' \<Rightarrow>
       if c = 44 then Some (InArray (vs @ [v]) # fs', Value False)
       else if c = 93 then Some (fs', After (VArray (vs @ [v]))) else None
   | InObject ms k # fs' \<Rightarrow>
       if c = 44 then Some (fs', Name (put_member (k, v) ms) False)
       else if c = 125 then Some (fs', After (VObject (put_member (k, v) ms))) else None
   | [] \<Rightarrow> None)"

definition json_step :: "jtoken \<Rightarrow> machine \<Rightarrow> machine option" where
  "json_step t m = (case m of
     (fs, Value first) \<Rightarrow> (case t of
         TText s \<Rightarrow> Some (fs, After (VString s))
       | TAtom v \<Rightarrow> Some (fs, After v)
       | TPunct c \<Rightarrow> value_punct fs first c)
   | (fs, Name ms first) \<Rightarrow> (case t of
         TText k \<Rightarrow> Some (fs, Colon ms k)
       | TPunct c \<Rightarrow> if c = 125 \<and> first then Some (fs, After (VObject [])) else None
       | TAtom v \<Rightarrow> None)
   | (fs, Colon ms k) \<Rightarrow> (if t = TPunct 58 then Some (InObject ms k # fs, Value False) else None)
   | (fs, After v) \<Rightarrow> (case t of TPunct c \<Rightarrow> after_punct fs v c | _ \<Rightarrow> None))"

primrec json_run :: "jtoken list \<Rightarrow> machine \<Rightarrow> machine option" where
  "json_run [] m = Some m"
| "json_run (t # ts) m = (case json_step t m of Some m' \<Rightarrow> json_run ts m' | None \<Rightarrow> None)"

definition json_parse :: "jstring \<Rightarrow> jvalue option" where
  "json_parse s = (case json_tokens s of
     Some ts \<Rightarrow> (case json_run ts ([], Value False) of Some ([], After v) \<Rightarrow> Some v | _ \<Rightarrow> None)
   | None \<Rightarrow> None)"

subsection \<open>The machine reads what is written\<close>

fun with_commas :: "jtoken list list \<Rightarrow> jtoken list" where
  "with_commas [] = []"
| "with_commas [x] = x"
| "with_commas (x # xs) = x @ TPunct 44 # with_commas xs"

primrec written :: "jvalue \<Rightarrow> jtoken list" where
  "written VNull = [TAtom VNull]"
| "written (VBool b) = [TAtom (VBool b)]"
| "written (VNumber n) = [TAtom (VNumber n)]"
| "written (VString s) = [TText s]"
| "written (VArray vs) = TPunct 91 # with_commas (map written vs) @ [TPunct 93]"
| "written (VObject ms) =
     TPunct 123 # with_commas (map (\<lambda>(k, w). TText k # TPunct 58 # w) (map (map_prod id written) ms)) @ [TPunct 125]"

primrec distinct_names :: "jvalue \<Rightarrow> bool" where
  "distinct_names VNull = True"
| "distinct_names (VBool b) = True"
| "distinct_names (VNumber n) = True"
| "distinct_names (VString s) = True"
| "distinct_names (VArray vs) = list_all id (map distinct_names vs)"
| "distinct_names (VObject ms) =
     (distinct (map fst ms) \<and> list_all snd (map (map_prod id distinct_names) ms))"

lemmas step_simps = json_step_def after_punct_def value_punct_def

lemma run_elements:
  assumes "vs \<noteq> []"
    and "\<And>v fs b ts. v \<in> set vs \<Longrightarrow> json_run (written v @ ts) (fs, Value b) = json_run ts (fs, After v)"
  shows "json_run (with_commas (map written vs) @ TPunct 93 # ts) (InArray us # fs, Value b) =
    json_run ts (fs, After (VArray (us @ vs)))"
  using assms
proof (induction vs arbitrary: us b rule: list_nonempty_induct)
  case (cons v vs)
  then have "with_commas (map written (v # vs)) = written v @ TPunct 44 # with_commas (map written vs)"
    by (cases vs) auto
  with cons.IH [of "us @ [v]" False] cons.prems show ?case by (simp add: step_simps)
qed (simp add: step_simps)

lemma run_members:
  assumes "ms \<noteq> []"
    and "\<And>v fs b ts. v \<in> snd ` set ms \<Longrightarrow> json_run (written v @ ts) (fs, Value b) = json_run ts (fs, After v)"
    and "distinct (map fst (ns @ ms))"
  shows "json_run (with_commas (map (\<lambda>(k, w). TText k # TPunct 58 # w) (map (map_prod id written) ms)) @
      TPunct 125 # ts) (fs, Name ns b) = json_run ts (fs, After (VObject (ns @ ms)))"
  using assms
proof (induction ms arbitrary: ns b rule: list_nonempty_induct)
  case (single m)
  then show ?case by (cases m) (simp add: step_simps put_member_def)
next
  case (cons m ms)
  obtain k v where m: "m = (k, v)" by (cases m)
  have w: "with_commas (map (\<lambda>(k, w). TText k # TPunct 58 # w) (map (map_prod id written) (m # ms))) =
      (TText k # TPunct 58 # written v) @
      TPunct 44 # with_commas (map (\<lambda>(k, w). TText k # TPunct 58 # w) (map (map_prod id written) ms))"
    using cons.hyps m by (cases ms) auto
  have put: "put_member (k, v) ns = ns @ [(k, v)]"
    using cons.prems(2) m by (auto simp: put_member_def)
  from cons.IH [of "ns @ [(k, v)]" False] cons.prems m show ?case
    unfolding w by (simp add: step_simps put id_def)
qed

lemma json_reads_back:
  "distinct_names v \<Longrightarrow> json_run (written v @ ts) (fs, Value b) = json_run ts (fs, After v)"
proof (induction v arbitrary: fs b ts)
  case (VArray vs)
  show ?case
  proof (cases "vs = []")
    case False
    from VArray have "json_run (written v @ ts) (fs, Value b) = json_run ts (fs, After v)"
      if "v \<in> set vs" for v fs b ts
      using that by (simp add: list_all_iff)
    with run_elements [OF False, of ts "[]" fs True] show ?thesis by (simp add: step_simps)
  qed (simp add: step_simps)
next
  case (VObject ms)
  show ?case
  proof (cases "ms = []")
    case False
    have IH: "json_run (written v @ ts) (fs, Value b) = json_run ts (fs, After v)"
      if "v \<in> snd ` set ms" for v fs b ts
    proof -
      from that obtain m where m: "m \<in> set ms" "v \<in> Basic_BNFs.snds m" by (auto simp: snds.simps)
      with VObject.prems have "distinct_names v" by (auto simp: list_all_iff snds.simps)
      then show ?thesis by (rule VObject.IH [OF m])
    qed
    from VObject.prems have "distinct (map fst ([] @ ms))" by simp
    from run_members [OF False IH this, of ts fs True] show ?thesis by (simp add: step_simps)
  qed (simp add: step_simps)
qed (simp_all add: step_simps)

subsection \<open>Objects\<close>

text \<open>Names that are array indices come first, in numeric order.\<close>

definition index_name :: "jstring \<Rightarrow> bool" where
  "index_name k \<longleftrightarrow> k \<noteq> [] \<and> list_all is_digit k \<and> (k = [48] \<or> hd k \<noteq> 48) \<and> digits_value k < 2 ^ 32 - 1"

definition entries :: "(jstring \<times> 'v) list \<Rightarrow> (jstring \<times> 'v) list" where
  "entries ms = sort_key (\<lambda>m. digits_value (fst m)) (filter (\<lambda>m. index_name (fst m)) ms) @
     filter (\<lambda>m. \<not> index_name (fst m)) ms"

end
