(* ===== verification/Enqueue.thy ===== *)
theory Enqueue
  imports Api JsSort Json
begin

text \<open>
  \<open>src/ui/src/lib/enqueue.ts\<close>: the form that clones a task and enqueues it. The draft keeps what the
  operator typed; \<open>draftErrors\<close> is the validation the submit button waits for, and
  \<open>buildEnqueueRequest\<close> the body that is sent. A \<open>Record\<close> of messages is the list of its entries in
  the order they are set; every key is set once.
\<close>

record header_row =
  hr_name :: jstring
  hr_value :: jstring

record clone_draft =
  cd_type :: jstring
  cd_queue :: jstring
  cd_payload :: jstring
  cd_payloadBase64 :: bool
  cd_maxRetry :: jstring
  cd_timeoutSeconds :: jstring
  cd_retentionSeconds :: jstring
  cd_uniqueTtlSeconds :: jstring
  cd_processInSeconds :: jstring
  cd_reason :: jstring
  cd_headers :: "header_row list"

record enqueue_task_request =
  eq_type :: jstring
  eq_payload :: jstring
  eq_payload_base64 :: "bool option"
  eq_max_retry :: "number option"
  eq_timeout_seconds :: "number option"
  eq_retention_seconds :: "number option"
  eq_unique_ttl_seconds :: "number option"
  eq_process_in_seconds :: "number option"
  eq_reason :: "jstring option"
  eq_headers :: "(jstring \<rightharpoonup> jstring) option"

definition headerRowsFromTask :: "task_info \<Rightarrow> header_row list" where
  "headerRowsFromTask task = (case t_headers task of
     None \<Rightarrow> []
   | Some h \<Rightarrow> js_sort (\<lambda>a b. cmp3 (hr_name a) (hr_name b))
       (map (\<lambda>(name, value). \<lparr>hr_name = name, hr_value = value\<rparr>) h))"

definition prefillFromTask :: "task_info \<Rightarrow> clone_draft" where
  "prefillFromTask task =
     \<lparr>cd_type = t_type task, cd_queue = t_queue task, cd_payload = t_payload task, cd_payloadBase64 = False,
      cd_maxRetry = js_of_int (t_max_retry task),
      cd_timeoutSeconds = (if t_timeout_seconds task > 0 then js_of_int (t_timeout_seconds task) else []),
      cd_retentionSeconds = [], cd_uniqueTtlSeconds = [], cd_processInSeconds = [], cd_reason = [],
      cd_headers = headerRowsFromTask task\<rparr>"

definition isBlankHeaderRow :: "header_row \<Rightarrow> bool" where
  "isBlankHeaderRow row \<longleftrightarrow> trim (hr_name row) = [] \<and> hr_value row = []"

text \<open>\<open>new TextEncoder().encode(text).length\<close>; a lone surrogate becomes U+FFFD, three bytes.\<close>

fun utf8Bytes :: "jstring \<Rightarrow> nat" where
  "utf8Bytes [] = 0"
| "utf8Bytes (c # cs) =
     (if c < 0x80 then 1 + utf8Bytes cs
      else if c < 0x800 then 2 + utf8Bytes cs
      else if 0xD800 \<le> c \<and> c \<le> 0xDBFF
      then (case cs of
          d # ds \<Rightarrow> if 0xDC00 \<le> d \<and> d \<le> 0xDFFF then 4 + utf8Bytes ds else 3 + utf8Bytes cs
        | [] \<Rightarrow> 3)
      else 3 + utf8Bytes cs)"

datatype payload_json_state = PayloadEmpty | PayloadValid | PayloadInvalid

definition payloadJsonState :: "jstring \<Rightarrow> payload_json_state" where
  "payloadJsonState text =
     (if trim text = [] then PayloadEmpty else if json_parse text \<noteq> None then PayloadValid else PayloadInvalid)"

text \<open>\<open>text.replace(/\s/g, "")\<close>.\<close>

definition strip_ws :: "jstring \<Rightarrow> jstring" where
  "strip_ws s = filter (\<lambda>c. \<not> is_ws c) s"

definition base64_char :: "nat \<Rightarrow> bool" where
  "base64_char c \<longleftrightarrow> 65 \<le> c \<and> c \<le> 90 \<or> 97 \<le> c \<and> c \<le> 122 \<or> is_digit c \<or> c = 43 \<or> c = 47"

definition isLikelyBase64 :: "jstring \<Rightarrow> bool" where
  "isLikelyBase64 text \<longleftrightarrow>
     (let compact = strip_ws text
      in length compact mod 4 = 0 \<and> dropWhile base64_char compact \<in> {[], js ''='', js ''==''})"

definition MAX_RETRY :: int where "MAX_RETRY = 1000"
definition MAX_TIMEOUT :: int where "MAX_TIMEOUT = 7 * 24 * 60 * 60"
definition MAX_RETENTION :: int where "MAX_RETENTION = 90 * 24 * 60 * 60"
definition MAX_UNIQUE_TTL :: int where "MAX_UNIQUE_TTL = 30 * 24 * 60 * 60"
definition MAX_PROCESS_IN :: int where "MAX_PROCESS_IN = 365 * 24 * 60 * 60"

definition MAX_HEADERS :: nat where "MAX_HEADERS = 64"
definition MAX_NAME_BYTES :: nat where "MAX_NAME_BYTES = 256"
definition MAX_VALUE_BYTES :: nat where "MAX_VALUE_BYTES = 4096"

definition intField :: "jstring \<Rightarrow> string \<Rightarrow> int \<Rightarrow> int \<Rightarrow> jstring option" where
  "intField value label lo hi =
     (if trim value = [] then None
      else case js_number value of
        Finite n \<Rightarrow>
          if n \<notin> \<int> then Some (js label @ js '': must be a whole number'')
          else if n < of_int lo then Some (js label @ js '': must be >= '' @ js_of_int lo)
          else if n > of_int hi then Some (js label @ js '': must be <= '' @ js_of_int hi)
          else None
      | _ \<Rightarrow> Some (js label @ js '': must be a whole number''))"

type_synonym errors = "(jstring \<times> jstring) list"

definition err_if :: "jstring \<Rightarrow> jstring option \<Rightarrow> errors" where
  "err_if key msg = (case msg of Some m \<Rightarrow> [(key, m)] | None \<Rightarrow> [])"

definition header_msg :: "jstring set \<Rightarrow> header_row \<Rightarrow> jstring option" where
  "header_msg seen row =
     (let name = trim (hr_name row)
      in if name = [] then Some (js ''a header name must not be blank'')
         else if utf8Bytes name > MAX_NAME_BYTES
         then Some (js ''name exceeds '' @ js_of_nat MAX_NAME_BYTES @ js '' bytes'')
         else if utf8Bytes (hr_value row) > MAX_VALUE_BYTES
         then Some (js ''value exceeds '' @ js_of_nat MAX_VALUE_BYTES @ js '' bytes'')
         else if name \<in> seen then Some (js ''duplicate header name'')
         else None)"

fun row_errors :: "nat \<Rightarrow> jstring set \<Rightarrow> header_row list \<Rightarrow> errors" where
  "row_errors i seen [] = []"
| "row_errors i seen (row # rows) =
     (if isBlankHeaderRow row then row_errors (Suc i) seen rows
      else let name = trim (hr_name row)
        in err_if (js ''header:'' @ js_of_nat i) (header_msg seen row) @
           row_errors (Suc i) (if name = [] then seen else insert name seen) rows)"

definition headerErrors :: "header_row list \<Rightarrow> errors" where
  "headerErrors rows =
     (let live = filter (\<lambda>r. \<not> isBlankHeaderRow r) rows
      in (if length live > MAX_HEADERS
          then [(js ''headers'', js ''at most '' @ js_of_nat MAX_HEADERS @ js '' headers (got '' @
            js_of_nat (length live) @ js '')'')] else []) @ row_errors 0 {} rows)"

definition draftErrors :: "clone_draft \<Rightarrow> errors" where
  "draftErrors d =
     err_if (js ''type'') (if trim (cd_type d) = [] then Some (js ''required'') else None) @
     err_if (js ''queue'') (if trim (cd_queue d) = [] then Some (js ''required'') else None) @
     err_if (js ''payload'') (if cd_payloadBase64 d \<and> cd_payload d \<noteq> [] \<and> \<not> isLikelyBase64 (cd_payload d)
       then Some (js ''not valid base64'') else None) @
     err_if (js ''maxRetry'') (intField (cd_maxRetry d) ''max retry'' 0 MAX_RETRY) @
     err_if (js ''timeoutSeconds'') (intField (cd_timeoutSeconds d) ''timeout'' 0 MAX_TIMEOUT) @
     err_if (js ''retentionSeconds'') (intField (cd_retentionSeconds d) ''retention'' 0 MAX_RETENTION) @
     err_if (js ''uniqueTtlSeconds'') (intField (cd_uniqueTtlSeconds d) ''unique TTL'' 1 MAX_UNIQUE_TTL) @
     err_if (js ''processInSeconds'') (intField (cd_processInSeconds d) ''process in'' 0 MAX_PROCESS_IN) @
     headerErrors (cd_headers d)"

text \<open>
  \<open>out[name] = value\<close> on an object literal. The name \<open>__proto__\<close> is the setter every object inherits:
  assigning a string to it stores nothing.
\<close>

definition obj_assign :: "jstring \<Rightarrow> 'v \<Rightarrow> (jstring \<rightharpoonup> 'v) \<Rightarrow> (jstring \<rightharpoonup> 'v)" where
  "obj_assign name value out = (if name = js ''__proto__'' then out else out(name \<mapsto> value))"

fun header_loop :: "header_row list \<Rightarrow> (jstring \<rightharpoonup> jstring) \<Rightarrow> nat \<Rightarrow> (jstring \<rightharpoonup> jstring) \<times> nat" where
  "header_loop [] out n = (out, n)"
| "header_loop (row # rows) out n =
     (if isBlankHeaderRow row then header_loop rows out n
      else let name = trim (hr_name row)
        in if name = [] then header_loop rows out n
           else header_loop rows (obj_assign name (hr_value row) out) (n + 1))"

definition headersFromRows :: "header_row list \<Rightarrow> (jstring \<rightharpoonup> jstring) option" where
  "headersFromRows rows = (let (out, n) = header_loop rows Map.empty 0 in if n > 0 then Some out else None)"

definition number_field :: "jstring \<Rightarrow> number option" where
  "number_field value = (if trim value \<noteq> [] then Some (js_number value) else None)"

definition buildEnqueueRequest :: "clone_draft \<Rightarrow> enqueue_task_request" where
  "buildEnqueueRequest d =
     \<lparr>eq_type = trim (cd_type d),
      eq_payload = (if cd_payloadBase64 d then strip_ws (cd_payload d) else cd_payload d),
      eq_payload_base64 = (if cd_payloadBase64 d then Some True else None),
      eq_max_retry = number_field (cd_maxRetry d),
      eq_timeout_seconds = number_field (cd_timeoutSeconds d),
      eq_retention_seconds = number_field (cd_retentionSeconds d),
      eq_unique_ttl_seconds = number_field (cd_uniqueTtlSeconds d),
      eq_process_in_seconds = number_field (cd_processInSeconds d),
      eq_reason = (if trim (cd_reason d) \<noteq> [] then Some (trim (cd_reason d)) else None),
      eq_headers = headersFromRows (cd_headers d)\<rparr>"

subsection \<open>The headers\<close>

interpretation header_order: stable_comparator "\<lambda>a b. cmp3 (hr_name a) (hr_name b)" hr_name
  by unfold_locales (auto simp: cmp3_def)

text \<open>The same task always prefills the same rows.\<close>

lemma headerRowsFromTask_sorted:
  "t_headers task = Some h \<Longrightarrow>
   headerRowsFromTask task = sort_key hr_name (map (\<lambda>(name, value). \<lparr>hr_name = name, hr_value = value\<rparr>) h)"
  by (simp add: headerRowsFromTask_def header_order.sort)

abbreviation live_rows :: "header_row list \<Rightarrow> header_row list" where
  "live_rows rows \<equiv> filter (\<lambda>r. \<not> isBlankHeaderRow r) rows"

abbreviation wire_name :: "header_row \<Rightarrow> jstring" where
  "wire_name r \<equiv> trim (hr_name r)"

lemma err_if_Nil [simp]: "err_if k m = [] \<longleftrightarrow> m = None"
  by (simp add: err_if_def split: option.split)

lemma header_msg_None:
  "header_msg seen r = None \<longleftrightarrow> wire_name r \<noteq> [] \<and> utf8Bytes (wire_name r) \<le> MAX_NAME_BYTES \<and>
     utf8Bytes (hr_value r) \<le> MAX_VALUE_BYTES \<and> wire_name r \<notin> seen"
  by (auto simp: header_msg_def Let_def)

lemma row_errors_Nil:
  "row_errors i seen rows = [] \<longleftrightarrow>
     (\<forall>r \<in> set (live_rows rows). wire_name r \<noteq> [] \<and> utf8Bytes (wire_name r) \<le> MAX_NAME_BYTES \<and>
        utf8Bytes (hr_value r) \<le> MAX_VALUE_BYTES \<and> wire_name r \<notin> seen) \<and>
     distinct (map wire_name (live_rows rows))"
proof (induction rows arbitrary: i seen)
  case (Cons r rows)
  show ?case
  proof (cases "isBlankHeaderRow r \<or> header_msg seen r \<noteq> None")
    case True
    with Cons show ?thesis
      by (cases "isBlankHeaderRow r") (auto simp: Let_def header_msg_None split: option.splits)
  next
    case False
    then have m: "header_msg seen r = None" and b: "\<not> isBlankHeaderRow r" by simp_all
    from m have n: "wire_name r \<noteq> []" by (simp add: header_msg_None)
    from Cons [of "Suc i" "insert (wire_name r) seen"] m b n show ?thesis
      by (auto simp: Let_def header_msg_None image_iff)
  qed
qed simp

lemma header_loop_live:
  "(\<forall>r \<in> set (live_rows rows). wire_name r \<noteq> []) \<Longrightarrow>
   header_loop rows out n =
     (foldl (\<lambda>m r. obj_assign (wire_name r) (hr_value r) m) out (live_rows rows), n + length (live_rows rows))"
  by (induction rows arbitrary: out n) (simp_all add: Let_def)

lemma foldl_obj_assign:
  "distinct (map wire_name rs) \<Longrightarrow> \<forall>r \<in> set rs. wire_name r \<noteq> js ''__proto__'' \<Longrightarrow>
   foldl (\<lambda>m r. obj_assign (wire_name r) (hr_value r) m) out rs =
     out ++ map_of (map (\<lambda>r. (wire_name r, hr_value r)) rs)"
proof (induction rs arbitrary: out)
  case (Cons r rs)
  then have "wire_name r \<notin> dom (map_of (map (\<lambda>r. (wire_name r, hr_value r)) rs))"
    by (auto simp: dom_map_of_conv_image_fst image_iff)
  with Cons show ?case by (auto simp: obj_assign_def map_add_def fun_eq_iff split: option.splits)
qed simp

text \<open>A typed number and the request field it becomes: absent exactly when nothing was typed, otherwise the number typed,
  an integer within bounds.\<close>

definition field_sent :: "int \<Rightarrow> int \<Rightarrow> jstring \<Rightarrow> number option \<Rightarrow> bool" where
  "field_sent lo hi typed f \<longleftrightarrow>
     (if trim typed = [] then f = None
      else f = Some (js_number typed) \<and>
        (case js_number typed of Finite x \<Rightarrow> x \<in> \<int> \<and> of_int lo \<le> x \<and> x \<le> of_int hi | _ \<Rightarrow> False))"

lemma intField_sent: "intField v l lo hi = None \<Longrightarrow> field_sent lo hi v (number_field v)"
  by (auto simp: field_sent_def number_field_def intField_def split: number.splits if_splits)

text \<open>C11. A draft the form finds no error in, with no header named \<open>__proto__\<close> (see \<open>proto_header_is_lost\<close>), is sent
  as it was typed: the trimmed type, not blank; the payload, in base64 mode without its white space and
  marked as base64; every number that was typed, an integer within the server's bounds, and none that was
  not; the trimmed reason if there is one; and the header map exactly the rows that are not blank, none of
  them lost, at most 64 of them and each within the byte bounds.\<close>

theorem clean_draft_is_sent_whole:
  assumes "draftErrors d = []" and "\<forall>r \<in> set (cd_headers d). trim (hr_name r) \<noteq> js ''__proto__''"
  shows "eq_type (buildEnqueueRequest d) = trim (cd_type d) \<and> trim (cd_type d) \<noteq> [] \<and>
    (if cd_payloadBase64 d
     then eq_payload (buildEnqueueRequest d) = filter (\<lambda>c. \<not> is_ws c) (cd_payload d) \<and>
       eq_payload_base64 (buildEnqueueRequest d) = Some True
     else eq_payload (buildEnqueueRequest d) = cd_payload d \<and> eq_payload_base64 (buildEnqueueRequest d) = None) \<and>
    field_sent 0 1000 (cd_maxRetry d) (eq_max_retry (buildEnqueueRequest d)) \<and>
    field_sent 0 604800 (cd_timeoutSeconds d) (eq_timeout_seconds (buildEnqueueRequest d)) \<and>
    field_sent 0 7776000 (cd_retentionSeconds d) (eq_retention_seconds (buildEnqueueRequest d)) \<and>
    field_sent 1 2592000 (cd_uniqueTtlSeconds d) (eq_unique_ttl_seconds (buildEnqueueRequest d)) \<and>
    field_sent 0 31536000 (cd_processInSeconds d) (eq_process_in_seconds (buildEnqueueRequest d)) \<and>
    (case eq_reason (buildEnqueueRequest d) of None \<Rightarrow> trim (cd_reason d) = [] | Some r \<Rightarrow> r = trim (cd_reason d) \<and> r \<noteq> []) \<and>
    (case eq_headers (buildEnqueueRequest d) of
       None \<Rightarrow> live_rows (cd_headers d) = []
     | Some m \<Rightarrow> live_rows (cd_headers d) \<noteq> [] \<and> card (dom m) = length (live_rows (cd_headers d)) \<and>
         card (dom m) \<le> 64 \<and>
         (\<forall>r \<in> set (live_rows (cd_headers d)). m (trim (hr_name r)) = Some (hr_value r)) \<and>
         (\<forall>n v. m n = Some v \<longrightarrow> n \<noteq> [] \<and> utf8Bytes n \<le> 256 \<and> utf8Bytes v \<le> 4096))"
proof -
  let ?live = "live_rows (cd_headers d)"
  let ?m = "map_of (map (\<lambda>r. (wire_name r, hr_value r)) ?live)"
  from assms(1) have fields: "trim (cd_type d) \<noteq> []"
    "field_sent 0 MAX_RETRY (cd_maxRetry d) (number_field (cd_maxRetry d))"
    "field_sent 0 MAX_TIMEOUT (cd_timeoutSeconds d) (number_field (cd_timeoutSeconds d))"
    "field_sent 0 MAX_RETENTION (cd_retentionSeconds d) (number_field (cd_retentionSeconds d))"
    "field_sent 1 MAX_UNIQUE_TTL (cd_uniqueTtlSeconds d) (number_field (cd_uniqueTtlSeconds d))"
    "field_sent 0 MAX_PROCESS_IN (cd_processInSeconds d) (number_field (cd_processInSeconds d))"
    and rows: "length ?live \<le> MAX_HEADERS" "row_errors 0 {} (cd_headers d) = []"
    by (auto simp: draftErrors_def headerErrors_def Let_def intro: intField_sent split: if_splits)
  have live: "\<forall>r \<in> set ?live. wire_name r \<noteq> [] \<and> utf8Bytes (wire_name r) \<le> 256 \<and> utf8Bytes (hr_value r) \<le> 4096"
    and dist: "distinct (map wire_name ?live)"
    using rows(2) by (simp_all add: row_errors_Nil MAX_NAME_BYTES_def MAX_VALUE_BYTES_def)
  have "\<forall>r \<in> set ?live. wire_name r \<noteq> []" using live by blast
  from header_loop_live [OF this, of Map.empty 0] foldl_obj_assign [OF dist, of Map.empty] assms(2)
  have h: "headersFromRows (cd_headers d) = (if ?live = [] then None else Some ?m)"
    by (simp add: headersFromRows_def)
  have "dom ?m = set (map wire_name ?live)" by (force simp: dom_map_of_conv_image_fst)
  then have card: "card (dom ?m) = length ?live" by (metis dist distinct_card length_map)
  have all: "?m (wire_name r) = Some (hr_value r)" if "r \<in> set ?live" for r
    using that dist by (intro map_of_is_SomeI) (auto simp: comp_def)
  have of: "n \<noteq> [] \<and> utf8Bytes n \<le> 256 \<and> utf8Bytes v \<le> 4096" if "?m n = Some v" for n v
    using map_of_SomeD [OF that] live by auto
  from fields show ?thesis
    using h card all of rows(1)
    by (simp add: buildEnqueueRequest_def strip_ws_def MAX_RETRY_def MAX_TIMEOUT_def MAX_RETENTION_def MAX_UNIQUE_TTL_def
        MAX_PROCESS_IN_def MAX_HEADERS_def)
qed

definition sample_draft :: clone_draft where
  "sample_draft =
     \<lparr>cd_type = js ''email:send'', cd_queue = js ''low'', cd_payload = js ''{}'', cd_payloadBase64 = False,
      cd_maxRetry = js ''25'', cd_timeoutSeconds = [], cd_retentionSeconds = [], cd_uniqueTtlSeconds = [],
      cd_processInSeconds = [], cd_reason = [],
      cd_headers = [\<lparr>hr_name = js ''trace'', hr_value = js ''a1''\<rparr>, \<lparr>hr_name = [], hr_value = []\<rparr>]\<rparr>"

lemma js_25: "js ''25'' = js_of_nat 25"
  by (simp add: js_def js_of_nat.simps)

lemma sample_draft_clean: "draftErrors sample_draft = []"
proof -
  have "js_number (js ''25'') = Finite 25" unfolding js_25 using js_number_nat [of 25] by simp
  moreover have "trim (js ''25'') \<noteq> []" "trim (js ''email:send'') \<noteq> []" "trim (js ''low'') \<noteq> []"
    "trim (js ''trace'') = js ''trace''"
    by (simp_all add: js_def trim_def trim_start_def is_ws_def)
  ultimately show ?thesis
    by (simp add: draftErrors_def sample_draft_def intField_def headerErrors_def isBlankHeaderRow_def
        header_msg_None MAX_RETRY_def MAX_HEADERS_def MAX_NAME_BYTES_def MAX_VALUE_BYTES_def js_def)
qed

lemma clean_draft_is_sent_whole_witness:
  "eq_max_retry (buildEnqueueRequest sample_draft) = Some (js_number (js ''25'')) \<and>
   eq_payload (buildEnqueueRequest sample_draft) = js ''{}'' \<and>
   card (dom (the (eq_headers (buildEnqueueRequest sample_draft)))) \<le> 64"
proof -
  have "\<forall>r \<in> set (cd_headers sample_draft). trim (hr_name r) \<noteq> js ''__proto__''"
    by (simp add: sample_draft_def js_def trim_def trim_start_def is_ws_def)
  moreover have "trim (js ''25'') \<noteq> []" by (simp add: js_def trim_def trim_start_def is_ws_def)
  ultimately show ?thesis
    using clean_draft_is_sent_whole [OF sample_draft_clean]
    by (auto simp: sample_draft_def isBlankHeaderRow_def js_def field_sent_def split: option.splits)
qed

text \<open>A header named \<open>__proto__\<close> passes the checks and is missing from the request.\<close>

lemma proto_header_is_lost:
  "headerErrors [\<lparr>hr_name = js ''__proto__'', hr_value = js ''v''\<rparr>] = [] \<and>
   headersFromRows [\<lparr>hr_name = js ''__proto__'', hr_value = js ''v''\<rparr>] = Some Map.empty"
proof -
  have "trim (js ''__proto__'') = js ''__proto__''" by (simp add: js_def trim_def trim_start_def is_ws_def)
  then show ?thesis
    by (simp add: headerErrors_def headersFromRows_def isBlankHeaderRow_def header_msg_None obj_assign_def
        MAX_HEADERS_def MAX_NAME_BYTES_def MAX_VALUE_BYTES_def js_def)
qed

end
