(* ===== verification/Endpoints.thy ===== *)
theory Endpoints
  imports ApiConsole Enqueue
begin

text \<open>
  The requests components make directly: search, counts, facets and aggregates of the task console, bulk
  jobs, audit, observed runs, enqueue and features of \<open>src/ui/src/api.ts\<close>, and the endpoints of
  \<open>api-fleet.ts\<close>, \<open>api-errors.ts\<close>, \<open>api-hygiene.ts\<close>, \<open>api-series.ts\<close> and \<open>api-views.ts\<close>. As in \<open>Requests\<close>,
  an endpoint is the request it builds. A query string is a \<open>URLSearchParams\<close> object or, where the code
  uses the \<open>query-string\<close> package, a parameter. \<open>JSON.stringify\<close> of a series specification is a
  parameter too.
\<close>

datatype api_method = GET | POST | PUT | DELETE

record 'b api_call =
  ac_method :: api_method
  ac_url :: jstring
  ac_data :: "'b option"

definition get_call :: "jstring option \<Rightarrow> unit api_call option" where
  "get_call url = map_option (\<lambda>u. \<lparr>ac_method = GET, ac_url = u, ac_data = None\<rparr>) url"

definition body_call :: "api_method \<Rightarrow> jstring option \<Rightarrow> 'b \<Rightarrow> 'b api_call option" where
  "body_call m url body = map_option (\<lambda>u. \<lparr>ac_method = m, ac_url = u, ac_data = Some body\<rparr>) url"

definition bare_call :: "api_method \<Rightarrow> jstring option \<Rightarrow> unit api_call option" where
  "bare_call m url = map_option (\<lambda>u. \<lparr>ac_method = m, ac_url = u, ac_data = None\<rparr>) url"

text \<open>\<open>if (x) usp.set(k, x)\<close>: the empty text and 0 are falsy; and \<open>append\<close>.\<close>

definition set_text :: "string \<Rightarrow> jstring option \<Rightarrow> params \<Rightarrow> params" where
  "set_text k v ps = (case v of Some s \<Rightarrow> if s \<noteq> [] then set_param ps (js k) s else ps | None \<Rightarrow> ps)"

definition set_number :: "string \<Rightarrow> int option \<Rightarrow> params \<Rightarrow> params" where
  "set_number k v ps = (case v of Some n \<Rightarrow> if n \<noteq> 0 then set_param ps (js k) (js_of_int n) else ps | None \<Rightarrow> ps)"

definition append_all :: "string \<Rightarrow> jstring list \<Rightarrow> params \<Rightarrow> params" where
  "append_all k vs ps = ps @ map (\<lambda>v. (js k, to_usv v)) vs"

definition with_query :: "jstring option \<Rightarrow> params \<Rightarrow> jstring option" where
  "with_query url ps = map_option (\<lambda>u. u @ js ''?'' @ params_toString ps) url"

definition with_query_if :: "jstring option \<Rightarrow> params \<Rightarrow> jstring option" where
  "with_query_if url ps = (let qs = params_toString ps in if qs \<noteq> [] then with_query url ps else url)"

subsection \<open>The task console\<close>

record task_filter =
  tf_queue :: "jstring option"
  tf_state :: jstring
  tf_q :: "jstring option"
  tf_meta :: "jstring list"

text \<open>The four statements that searchTasks, taskMetadata and taskAggregate begin with.\<close>

definition filter_params :: "task_filter \<Rightarrow> params" where
  "filter_params f =
     append_all ''meta'' (tf_meta f)
       (set_text ''q'' (tf_q f) (set_param (set_text ''queue'' (tf_queue f) []) (js ''state'') (tf_state f)))"

record search_page =
  sp_page :: "int option"
  sp_size :: "int option"
  sp_maxScan :: "int option"
  sp_cursor :: "jstring option"
  sp_scanCursor :: "jstring option"

definition search_params_of :: "task_filter \<Rightarrow> search_page \<Rightarrow> params" where
  "search_params_of f p =
     set_text ''scan_cursor'' (sp_scanCursor p) (set_text ''cursor'' (sp_cursor p)
       (set_number ''max_scan'' (sp_maxScan p) (set_number ''size'' (sp_size p)
         (set_number ''page'' (sp_page p) (filter_params f)))))"

definition searchTasks :: "api_env \<Rightarrow> task_filter \<Rightarrow> search_page \<Rightarrow> unit api_call option" where
  "searchTasks env f p = get_call (with_query (template env [Lit ''/tasks'']) (search_params_of f p))"

definition taskStateCounts :: "api_env \<Rightarrow> jstring option \<Rightarrow> unit api_call option" where
  "taskStateCounts env queue =
     get_call (with_query_if (template env [Lit ''/tasks/state_counts''])
       (if queue = Some (js ''all'') then [] else set_text ''queue'' queue []))"

definition metadata_params :: "task_filter \<Rightarrow> int option \<Rightarrow> int option \<Rightarrow> params" where
  "metadata_params f maxScan limit =
     set_number ''limit'' limit (set_number ''max_scan'' maxScan (filter_params f))"

definition taskMetadata :: "api_env \<Rightarrow> task_filter \<Rightarrow> int option \<Rightarrow> int option \<Rightarrow> unit api_call option" where
  "taskMetadata env f maxScan limit =
     get_call (with_query (template env [Lit ''/task_metadata'']) (metadata_params f maxScan limit))"

datatype aggregate_by = ByType | ByError | ByQueue

primrec by_name :: "aggregate_by \<Rightarrow> jstring" where
  "by_name ByType = js ''type''"
| "by_name ByError = js ''error''"
| "by_name ByQueue = js ''queue''"

definition aggregate_params :: "task_filter \<Rightarrow> aggregate_by \<Rightarrow> int option \<Rightarrow> int option \<Rightarrow> params" where
  "aggregate_params f by maxScan limit =
     set_number ''limit'' limit (set_number ''max_scan'' maxScan
       (set_param (filter_params f) (js ''by'') (by_name by)))"

definition taskAggregate ::
  "api_env \<Rightarrow> task_filter \<Rightarrow> aggregate_by \<Rightarrow> int option \<Rightarrow> int option \<Rightarrow> unit api_call option" where
  "taskAggregate env f by maxScan limit =
     get_call (with_query (template env [Lit ''/task_aggregate'']) (aggregate_params f by maxScan limit))"

datatype filtered_action = FDelete | FRun | FArchive | FCancel

record bulk_filtered_body =
  bb_filter :: task_filter
  bb_action :: filtered_action
  bb_max_scan :: "int option"

definition bulkFilteredTasks ::
  "api_env \<Rightarrow> task_filter \<Rightarrow> filtered_action \<Rightarrow> int option \<Rightarrow> bulk_filtered_body api_call option" where
  "bulkFilteredTasks env f action maxScan =
     body_call POST (template env [Lit ''/tasks:batch_filtered''])
       \<lparr>bb_filter = f, bb_action = action, bb_max_scan = maxScan\<rparr>"

subsection \<open>Single tasks\<close>

definition observed_request :: "api_env \<Rightarrow> jstring \<Rightarrow> jstring \<Rightarrow> unit api_call option" where
  "observed_request env qname i =
     get_call (template env [Lit ''/queues/'', Seg qname, Lit ''/tasks/'', Seg i, Lit ''/observed''])"

text \<open>A 404 is the expected absence and resolves \<open>null\<close>; other failures are rethrown.\<close>

definition getObservedTask :: "observed_task_response outcome \<Rightarrow> observed_task_response option outcome" where
  "getObservedTask answer = (case answer of
     Fulfilled r \<Rightarrow> Fulfilled (Some r)
   | Rejected e \<Rightarrow> (case ae_response e of
         Some r \<Rightarrow> if hr_status r = 404 then Fulfilled None else Rejected e
       | None \<Rightarrow> Rejected e))"

definition enqueueTask :: "api_env \<Rightarrow> jstring \<Rightarrow> enqueue_task_request \<Rightarrow> enqueue_task_request api_call option" where
  "enqueueTask env qname body = body_call POST (template env [Lit ''/queues/'', Seg qname, Lit ''/tasks'']) body"

subsection \<open>Jobs and audit\<close>

record create_job_body =
  cj_verb :: job_verb
  cj_scope :: job_scope
  cj_reason :: jstring
  cj_throttle :: "int option"

definition createJob :: "api_env \<Rightarrow> create_job_body \<Rightarrow> create_job_body api_call option" where
  "createJob env body = body_call POST (template env [Lit ''/jobs'']) body"

definition listJobs :: "api_env \<Rightarrow> int option \<Rightarrow> unit api_call option" where
  "listJobs env limit = get_call (with_query (template env [Lit ''/jobs'']) (set_number ''limit'' limit []))"

definition getJob :: "api_env \<Rightarrow> jstring \<Rightarrow> int option \<Rightarrow> int option \<Rightarrow> unit api_call option" where
  "getJob env i failuresOffset failuresLimit =
     get_call (with_query (template env [Lit ''/jobs/'', Seg i])
       (set_number ''failures_limit'' failuresLimit (set_number ''failures_offset'' failuresOffset [])))"

definition getJobResults :: "api_env \<Rightarrow> jstring \<Rightarrow> int option \<Rightarrow> int option \<Rightarrow> unit api_call option" where
  "getJobResults env i offset limit =
     get_call (with_query (template env [Lit ''/jobs/'', Seg i, Lit ''/results''])
       (set_number ''limit'' limit (set_number ''offset'' offset [])))"

record execute_job_body =
  ej_proceed_on_partial :: "bool option"
  ej_throttle :: "int option"
  ej_reason :: "jstring option"

definition executeJob :: "api_env \<Rightarrow> jstring \<Rightarrow> execute_job_body \<Rightarrow> execute_job_body api_call option" where
  "executeJob env i body = body_call POST (template env [Lit ''/jobs/'', Seg i, Lit ''/execute'']) body"

definition listAudit :: "api_env \<Rightarrow> int option \<Rightarrow> unit api_call option" where
  "listAudit env limit = get_call (with_query (template env [Lit ''/audit'']) (set_number ''limit'' limit []))"

subsection \<open>Fleet\<close>

definition getFleetOverview :: "api_env \<Rightarrow> unit api_call option" where
  "getFleetOverview env = get_call (template env [Lit ''/fleet/overview''])"

record fleet_queues_query =
  fqq_sort :: "jstring option"
  fqq_dir :: "sort_dir option"
  fqq_cursor :: "jstring option"
  fqq_limit :: "int option"
  fqq_f :: "jstring option"

definition listFleetQueues ::
  "api_env \<Rightarrow> (jstring \<Rightarrow> fleet_queues_query \<Rightarrow> jstring) \<Rightarrow> fleet_queues_query \<Rightarrow> unit api_call option" where
  "listFleetQueues env stringifyUrl query =
     get_call (map_option (\<lambda>u. stringifyUrl u query) (template env [Lit ''/fleet/queues'']))"

definition getFleetAttention :: "api_env \<Rightarrow> unit api_call option" where
  "getFleetAttention env = get_call (template env [Lit ''/fleet/attention''])"

definition getCoverage :: "api_env \<Rightarrow> unit api_call option" where
  "getCoverage env = get_call (template env [Lit ''/coverage''])"

definition getCancelListeners :: "api_env \<Rightarrow> unit api_call option" where
  "getCancelListeners env = get_call (template env [Lit ''/cancel-listeners''])"

definition listSchedulers :: "api_env \<Rightarrow> unit api_call option" where
  "listSchedulers env = get_call (template env [Lit ''/schedulers''])"

definition getSchedulerOutcomes :: "api_env \<Rightarrow> jstring \<Rightarrow> unit api_call option" where
  "getSchedulerOutcomes env stableKey =
     get_call (template env [Lit ''/schedulers/'', Seg stableKey, Lit ''/outcomes''])"

text \<open>The body is the reason, when there is one.\<close>

definition runSchedulerEntry :: "api_env \<Rightarrow> jstring \<Rightarrow> jstring option \<Rightarrow> jstring option api_call option" where
  "runSchedulerEntry env stableKey reason =
     body_call POST (template env [Lit ''/schedulers/'', Seg stableKey, Lit ''/run''])
       (case reason of Some r \<Rightarrow> if r \<noteq> [] then Some r else None | None \<Rightarrow> None)"

definition getRetryHistogram :: "api_env \<Rightarrow> jstring \<Rightarrow> int option \<Rightarrow> int option \<Rightarrow> unit api_call option" where
  "getRetryHistogram env qname window buckets =
     get_call (with_query_if (template env [Lit ''/queues/'', Seg qname, Lit ''/retry_histogram''])
       (set_number ''buckets'' buckets (set_number ''window'' window [])))"

definition getPendingWaitSample :: "api_env \<Rightarrow> jstring \<Rightarrow> int option \<Rightarrow> unit api_call option" where
  "getPendingWaitSample env qname probes =
     get_call (map_option
       (\<lambda>u. u @ (case probes of Some n \<Rightarrow> if n \<noteq> 0 then js ''?probes='' @ js_of_int n else [] | None \<Rightarrow> []))
       (template env [Lit ''/queues/'', Seg qname, Lit ''/pending_wait_sample'']))"

definition getHealthRoles :: "api_env \<Rightarrow> unit api_call option" where
  "getHealthRoles env = get_call (template env [Lit ''/health/roles''])"

definition fleetEventsUrl :: "api_env \<Rightarrow> jstring" where
  "fleetEventsUrl env = getBaseUrl env @ js ''/fleet/events''"

subsection \<open>Errors, hygiene, series, views\<close>

definition listErrorSignatures ::
  "api_env \<Rightarrow> (jstring \<Rightarrow> int option \<times> jstring option \<Rightarrow> jstring) \<Rightarrow> int option \<times> jstring option \<Rightarrow>
   unit api_call option" where
  "listErrorSignatures env stringifyUrl query =
     get_call (map_option (\<lambda>u. stringifyUrl u query) (template env [Lit ''/errors/signatures'']))"

definition getErrorSignature :: "api_env \<Rightarrow> jstring \<Rightarrow> unit api_call option" where
  "getErrorSignature env sig = get_call (template env [Lit ''/errors/signatures/'', Seg sig])"

primrec kind_name :: "hygiene_kind \<Rightarrow> jstring" where
  "kind_name Inventory = js ''inventory''"
| "kind_name Storage = js ''storage''"
| "kind_name DeadLetter = js ''dead-letter''"
| "kind_name SchedulerHealth = js ''scheduler-health''"

definition listHygiene :: "api_env \<Rightarrow> unit api_call option" where
  "listHygiene env = get_call (template env [Lit ''/hygiene''])"

definition getHygieneReport :: "api_env \<Rightarrow> hygiene_kind \<Rightarrow> unit api_call option" where
  "getHygieneReport env kind = get_call (template env [Lit ''/hygiene/'', Seg (kind_name kind)])"

definition runHygieneReport :: "api_env \<Rightarrow> hygiene_kind \<Rightarrow> unit api_call option" where
  "runHygieneReport env kind =
     bare_call POST (template env [Lit ''/hygiene/'', Seg (kind_name kind), Lit ''/run''])"

definition putHygieneConfig :: "api_env \<Rightarrow> hygiene_kind \<Rightarrow> hygiene_config \<Rightarrow> hygiene_config api_call option" where
  "putHygieneConfig env kind config =
     body_call PUT (template env [Lit ''/hygiene/'', Seg (kind_name kind), Lit ''/config'']) config"

primrec window_name :: "series_window \<Rightarrow> jstring" where
  "window_name Window3h = js ''3h''"
| "window_name Window24h = js ''24h''"
| "window_name Window30d = js ''30d''"

definition getSeries :: "api_env \<Rightarrow> series_spec \<Rightarrow> unit api_call option" where
  "getSeries env spec =
     get_call (with_query (template env [Lit ''/series''])
       (set_number ''points'' (sspec_points spec)
         [(js ''scope'', to_usv (sspec_scope spec)), (js ''metric'', to_usv (sspec_metric spec)),
          (js ''window'', window_name (sspec_window spec))]))"

definition getSeriesBatch :: "api_env \<Rightarrow> (series_spec list \<Rightarrow> jstring) \<Rightarrow> series_spec list \<Rightarrow> unit api_call option" where
  "getSeriesBatch env stringify specs =
     get_call (with_query (template env [Lit ''/series/batch'']) [(js ''specs'', to_usv (stringify specs))])"

definition listMarkers :: "api_env \<Rightarrow> series_window \<Rightarrow> unit api_call option" where
  "listMarkers env window =
     get_call (map_option (\<lambda>u. u @ js ''?window='' @ window_name window) (template env [Lit ''/markers'']))"

definition createMarker :: "api_env \<Rightarrow> jstring \<Rightarrow> jstring api_call option" where
  "createMarker env label = body_call POST (template env [Lit ''/markers'']) label"

datatype view_target = TargetTasks | TargetQueues

record upsert_view_body =
  uv_name :: jstring
  uv_target :: view_target
  uv_state :: "(jstring \<times> jstring) list"

text \<open>The body of an update: the fields given, and the version that was read.\<close>

record update_view_body =
  up_name :: "jstring option"
  up_target :: "view_target option"
  up_state :: "(jstring \<times> jstring) list option"
  up_version :: int

definition listViews :: "api_env \<Rightarrow> unit api_call option" where
  "listViews env = get_call (template env [Lit ''/views''])"

definition createView :: "api_env \<Rightarrow> upsert_view_body \<Rightarrow> upsert_view_body api_call option" where
  "createView env body = body_call POST (template env [Lit ''/views'']) body"

definition updateView ::
  "api_env \<Rightarrow> jstring \<Rightarrow> int \<Rightarrow> update_view_body \<Rightarrow> update_view_body api_call option" where
  "updateView env i version body =
     body_call PUT (template env [Lit ''/views/'', Seg i]) (body\<lparr>up_version := version\<rparr>)"

definition deleteView :: "api_env \<Rightarrow> jstring \<Rightarrow> unit api_call option" where
  "deleteView env i = bare_call DELETE (template env [Lit ''/views/'', Seg i])"

text \<open>The two meanings of a 409: the version is stale, or the name is taken.\<close>

definition body_error :: "http_response \<Rightarrow> jstring option" where
  "body_error r = (case hr_data r of BodyObject e \<Rightarrow> e | _ \<Rightarrow> None)"

definition isViewChangedError :: "axios_error \<Rightarrow> bool" where
  "isViewChangedError e = (case ae_response e of
     Some r \<Rightarrow> hr_status r = 409 \<and> body_error r = Some (js ''view changed'')
   | None \<Rightarrow> False)"

definition isDuplicateNameError :: "axios_error \<Rightarrow> bool" where
  "isDuplicateNameError e = (case ae_response e of
     Some r \<Rightarrow> hr_status r = 409 \<and>
       js_includes (js ''already exists'') (case body_error r of Some t \<Rightarrow> t | None \<Rightarrow> [])
   | None \<Rightarrow> False)"

subsection \<open>What a query string carries\<close>

lemma get_all_append_all:
  "get_all (append_all k vs ps) k' = get_all ps k' @ (if k' = js k then map to_usv vs else [])"
  by (induction vs) (auto simp: append_all_def get_all_def)

lemma get_all_set_text:
  "get_all (set_text k v ps) k' =
     (case v of Some s \<Rightarrow> if s \<noteq> [] \<and> k' = js k then [to_usv s] else get_all ps k' | None \<Rightarrow> get_all ps k')"
  by (simp add: set_text_def url.all_put split: option.split)

lemma get_all_set_number:
  "get_all (set_number k v ps) k' =
     (case v of Some n \<Rightarrow> if n \<noteq> 0 \<and> k' = js k then [to_usv (js_of_int n)] else get_all ps k' | None \<Rightarrow> get_all ps k')"
  by (simp add: set_number_def url.all_put split: option.split)

lemmas get_all_sets = get_all_append_all get_all_set_text get_all_set_number url.all_put

definition sent_text :: "jstring option \<Rightarrow> jstring list" where
  "sent_text v = (case v of Some s \<Rightarrow> if s \<noteq> [] then [to_usv s] else [] | None \<Rightarrow> [])"

lemma filter_params_all:
  "get_all (filter_params f) (js ''queue'') = sent_text (tf_queue f)"
  "get_all (filter_params f) (js ''state'') = [to_usv (tf_state f)]"
  "get_all (filter_params f) (js ''q'') = sent_text (tf_q f)"
  "get_all (filter_params f) (js ''meta'') = map to_usv (tf_meta f)"
  by (auto simp: filter_params_def get_all_sets sent_text_def split: option.split)

text \<open>The rows, the facets and the aggregates of the task console answer the same filter: the three
  requests carry the queue, the state, the query and every metadata pair in order, each under its
  name and each exactly once, whatever page, limit or budget they ask for.\<close>

theorem same_filter_everywhere:
  assumes "ps \<in> {search_params_of f p, metadata_params f maxScan limit, aggregate_params f by maxScan limit}"
  shows "get_all ps (js ''queue'') = sent_text (tf_queue f) \<and>
    get_all ps (js ''state'') = [to_usv (tf_state f)] \<and>
    get_all ps (js ''q'') = sent_text (tf_q f) \<and>
    get_all ps (js ''meta'') = map to_usv (tf_meta f)"
proof -
  have keep: "get_all ps k = get_all (filter_params f) k"
    if "k \<in> {js ''queue'', js ''state'', js ''q'', js ''meta''}" for k
    using assms that
    by (auto simp: search_params_of_def metadata_params_def aggregate_params_def get_all_sets split: option.split)
  show ?thesis by (simp add: keep filter_params_all)
qed

definition sample_filter :: task_filter where
  "sample_filter =
     \<lparr>tf_queue = None, tf_state = js ''retry'', tf_q = Some (js ''error~eof''), tf_meta = [js ''a:1'', js ''b:2'']\<rparr>"

lemma same_filter_everywhere_witness:
  "get_all (aggregate_params sample_filter ByType (Some 500) None) (js ''meta'') =
     [to_usv (js ''a:1''), to_usv (js ''b:2'')]"
proof -
  have "aggregate_params sample_filter ByType (Some 500) None
      \<in> {search_params_of sample_filter p, metadata_params sample_filter (Some 500) None,
         aggregate_params sample_filter ByType (Some 500) None}" for p by simp
  from same_filter_everywhere [OF this] show ?thesis by (simp add: sample_filter_def)
qed

text \<open>The two meanings of a conflict exclude each other.\<close>

lemma conflicts_disjoint: "isViewChangedError e \<Longrightarrow> \<not> isDuplicateNameError e"
  by (auto simp: isViewChangedError_def isDuplicateNameError_def js_def starts_with_def split: option.splits)

lemma observed_absence:
  "getObservedTask answer = Fulfilled None \<longleftrightarrow>
     (\<exists>e r. answer = Rejected e \<and> ae_response e = Some r \<and> hr_status r = 404)"
  by (auto simp: getObservedTask_def split: outcome.splits option.splits if_splits)

end
