(* ===== verification/Errsig.thy ===== *)
theory Errsig
  imports "HOL-Library.Sublist" Formats UrlState
begin

text \<open>
  \<open>src/ui/src/lib/errsig.ts\<close>: the Errors screen. A signature is a template of an error message with
  the placeholders \<open>~N~\<close>, \<open>~ID~\<close>, \<open>~HOST~\<close> and \<open>~S~\<close>; the bulk verbs run on the query built from its
  literal text.
\<close>

subsection \<open>Labels\<close>

definition trendTone :: "jstring \<Rightarrow> tone" where
  "trendTone trend =
     (if trend = js ''growing'' then Crit else if trend = js ''new'' then Warn
      else if trend = js ''recovering'' then Good else Mut)"

text \<open>A lower bound is prefixed with the sign for at least.\<close>

definition formatSigCount :: "number \<Rightarrow> bool \<Rightarrow> jstring" where
  "formatSigCount count isLowerBound =
     (let n = (case count of Finite x \<Rightarrow> locale_number x | _ \<Rightarrow> DASH)
      in if isLowerBound then 8805 # n else n)"

record blast_cell =
  bc_queue :: jstring
  bc_type :: jstring

definition blastLabel :: "blast_cell list \<Rightarrow> jstring" where
  "blastLabel cells =
     js_of_nat (card (set (map bc_queue cells))) @ js ''q '' @ [215] @ js '' '' @
     js_of_nat (card (set (map bc_type cells))) @ js ''t''"

subsection \<open>Segments\<close>

record template_segment =
  sg_text :: jstring
  sg_placeholder :: bool

definition PLACEHOLDERS :: "jstring list" where
  "PLACEHOLDERS = [js ''~N~'', js ''~ID~'', js ''~HOST~'', js ''~S~'']"

definition placeholder_at :: "jstring \<Rightarrow> jstring option" where
  "placeholder_at s = List.find (\<lambda>p. starts_with p s) PLACEHOLDERS"

text \<open>\<open>template.split(PLACEHOLDER_RE)\<close>: literals and placeholders in turn, \<open>acc\<close> the literal so far.\<close>

function split_template :: "jstring \<Rightarrow> jstring \<Rightarrow> jstring list" where
  "split_template acc [] = [acc]"
| "split_template acc (c # cs) =
     (case placeholder_at (c # cs) of
        Some p \<Rightarrow> acc # p # split_template [] (drop (length p) (c # cs))
      | None \<Rightarrow> split_template (acc @ [c]) cs)"
  by pat_completeness auto
termination
proof (relation "measure (\<lambda>(acc, s). length s)", simp)
  fix acc c cs p
  assume "placeholder_at (c # cs) = Some p"
  then have "p \<in> set PLACEHOLDERS" by (auto simp: placeholder_at_def find_Some_iff)
  then have "p \<noteq> []" by (auto simp: PLACEHOLDERS_def js_def)
  then show "(([], drop (length p) (c # cs)), acc, c # cs) \<in> measure (\<lambda>(acc, s). length s)"
    by (cases p) auto
qed simp

definition templateSegments :: "jstring \<Rightarrow> template_segment list" where
  "templateSegments tmpl =
     map (\<lambda>part. \<lparr>sg_text = part, sg_placeholder = part \<in> set PLACEHOLDERS\<rparr>)
       (filter (\<lambda>part. part \<noteq> []) (split_template [] tmpl))"

subsection \<open>The scope of a signature\<close>

datatype sig_scope_state = ScopeRetry | ScopeArchived

primrec scope_name :: "sig_scope_state \<Rightarrow> jstring" where
  "scope_name ScopeRetry = js ''retry''"
| "scope_name ScopeArchived = js ''archived''"

definition SIG_SCOPE_STATES :: "sig_scope_state list" where
  "SIG_SCOPE_STATES = [ScopeRetry, ScopeArchived]"

datatype sig_verb = SigRun | SigArchive | SigDelete

definition sigVerbsForState :: "sig_scope_state \<Rightarrow> sig_verb list" where
  "sigVerbsForState st = (if st = ScopeArchived then [SigRun, SigDelete] else [SigRun, SigArchive, SigDelete])"

definition MIN_LITERAL :: nat where
  "MIN_LITERAL = 4"

definition clean :: "jstring \<Rightarrow> jstring" where
  "clean s = trim (takeWhile (\<lambda>c. c \<noteq> 34) s)"

definition longest :: "jstring list \<Rightarrow> jstring" where
  "longest segments = foldl (\<lambda>best seg. if length (clean seg) > length best then clean seg else best) [] segments"

definition sigLiteralPrefix :: "jstring \<Rightarrow> jstring" where
  "sigLiteralPrefix tmpl =
     (let segments = filter (\<lambda>s. s \<notin> set PLACEHOLDERS) (split_template [] tmpl);
          prefix = clean (hd (split_template [] tmpl))
      in if length prefix \<ge> MIN_LITERAL then prefix
         else let best = longest segments in if length best \<ge> MIN_LITERAL then best else [])"

definition sigErrorClause :: "jstring \<Rightarrow> jstring option" where
  "sigErrorClause tmpl =
     (let prefix = sigLiteralPrefix tmpl
      in if prefix = [] then None else Some (js ''error~'' @ [34] @ prefix @ [34]))"

definition sigScopeAql :: "jstring \<Rightarrow> sig_scope_state \<Rightarrow> jstring option" where
  "sigScopeAql tmpl st =
     map_option (\<lambda>clause. js ''state='' @ scope_name st @ js '' '' @ clause) (sigErrorClause tmpl)"

definition sigTasksSearch :: "jstring \<Rightarrow> sig_scope_state \<Rightarrow> peek_target option \<Rightarrow> jstring" where
  "sigTasksSearch tmpl st peek =
     (let ps = (case sigScopeAql tmpl st of Some aql \<Rightarrow> set_param [] (js ''q'') aql | None \<Rightarrow> []);
          ps = (case peek of Some p \<Rightarrow> set_param ps (js ''peek'') (pt_queue p @ js ''/'' @ pt_id p) | None \<Rightarrow> ps);
          s = params_toString ps
      in if s \<noteq> [] then js ''?'' @ s else [])"

subsection \<open>Segments lose nothing\<close>

lemma placeholder_at_Some:
  "placeholder_at s = Some p \<Longrightarrow> p \<in> set PLACEHOLDERS \<and> s = p @ drop (length p) s"
  unfolding placeholder_at_def find_Some_iff
  by (metis append_take_drop_id nth_mem starts_with_def)

lemma concat_split_template: "concat (split_template acc s) = acc @ s"
proof (induction acc s rule: split_template.induct)
  case (2 acc c cs)
  show ?case
  proof (cases "placeholder_at (c # cs)")
    case (Some p)
    with 2(2) [OF Some] placeholder_at_Some [OF Some] show ?thesis by simp
  qed (use 2(1) in simp)
qed simp

lemma split_template_nonempty: "split_template acc s \<noteq> []"
  by (induction acc s rule: split_template.induct) (auto split: option.split)

text \<open>The segments of a template are the template: read in order they give it back, none is empty, and
  one is highlighted exactly when it is a placeholder.\<close>

theorem segments_give_template:
  "concat (map sg_text (templateSegments tmpl)) = tmpl \<and>
   (\<forall>s \<in> set (templateSegments tmpl). sg_text s \<noteq> [] \<and>
     (sg_placeholder s \<longleftrightarrow> sg_text s \<in> {js ''~N~'', js ''~ID~'', js ''~HOST~'', js ''~S~''}))"
proof -
  have "concat (filter (\<lambda>part. part \<noteq> []) ps) = concat ps" for ps :: "jstring list"
    by (induction ps) auto
  then show ?thesis
    using concat_split_template [of "[]" tmpl]
    by (auto simp: templateSegments_def comp_def PLACEHOLDERS_def)
qed

lemma segments_give_template_witness:
  "concat (map sg_text (templateSegments (js ''refused ~N~''))) = js ''refused ~N~'' \<and>
   (\<forall>s. s \<in> set (templateSegments (js ''refused ~N~'')) \<longrightarrow> sg_text s \<noteq> [])"
  using segments_give_template [of "js ''refused ~N~''"] by blast

subsection \<open>The scope reads back\<close>

lemma sublist_clean: "sublist (clean s) s"
proof -
  have d: "sublist (dropWhile P xs) xs" for P and xs :: jstring
    by (metis sublist_append_leftI takeWhile_dropWhile_id sublist_order.order.refl)
  have "sublist (rev (dropWhile P (rev xs))) xs" for P and xs :: jstring
    using d [of P "rev xs"] by (metis rev_rev_ident sublist_rev)
  with d have "sublist (trim xs) xs" for xs
    unfolding trim_def trim_start_def by (meson sublist_order.order.trans)
  moreover have "sublist (takeWhile (\<lambda>c. c \<noteq> 34) s) s"
    by (metis sublist_append_rightI takeWhile_dropWhile_id sublist_order.order.refl)
  ultimately show ?thesis unfolding clean_def by (meson sublist_order.order.trans)
qed

lemma clean_no_quote: "34 \<notin> set (clean s)"
  unfolding clean_def by (auto dest!: set_trim dest: set_takeWhileD)

lemma sublist_concat: "x \<in> set xs \<Longrightarrow> sublist x (concat xs)"
  by (metis concat.simps(2) concat_append split_list sublist_appendI)

lemma longest_cases: "longest segs = [] \<or> (\<exists>s \<in> set segs. longest segs = clean s)"
  unfolding longest_def by (induction segs rule: rev_induct) auto

lemma sigLiteralPrefix_literal:
  assumes "sigLiteralPrefix tmpl \<noteq> []"
  shows "sublist (sigLiteralPrefix tmpl) tmpl \<and> 34 \<notin> set (sigLiteralPrefix tmpl) \<and>
    4 \<le> length (sigLiteralPrefix tmpl)"
proof -
  let ?parts = "split_template [] tmpl"
  have "\<exists>s \<in> set ?parts. sigLiteralPrefix tmpl = clean s"
    using assms hd_in_set [OF split_template_nonempty] longest_cases [of "filter (\<lambda>s. s \<notin> set PLACEHOLDERS) ?parts"]
    by (auto simp: sigLiteralPrefix_def Let_def split: if_splits)
  then obtain s where s: "s \<in> set ?parts" "sigLiteralPrefix tmpl = clean s" by blast
  have "sublist (clean s) (concat ?parts)"
    using sublist_clean sublist_concat [OF s(1)] by (meson sublist_order.order.trans)
  then have "sublist (sigLiteralPrefix tmpl) tmpl" by (simp add: s(2) concat_split_template)
  moreover have "4 \<le> length (sigLiteralPrefix tmpl)"
    using assms by (auto simp: sigLiteralPrefix_def Let_def MIN_LITERAL_def split: if_splits)
  ultimately show ?thesis using s(2) clean_no_quote by simp
qed

abbreviation error_token :: "jstring \<Rightarrow> jstring" where
  "error_token v \<equiv> js ''error'' @ js ''~'' @ [34] @ v @ [34]"

lemma clause_of_quoted:
  assumes "34 \<notin> set v"
  shows "clause_of (error_token v) =
    \<lparr>cl_field = js ''error'', cl_op = js ''~'', cl_value = v, cl_raw = error_token v, cl_pos = 0\<rparr>"
proof -
  have "js ''~'' \<in> set OPS" by (simp add: OPS_def)
  then have "find_op (js ''~'' @ [34] @ v @ [34]) = Some (js ''~'')"
    using find_op_here [of "js ''~''" "[34] @ v @ [34]"] by (simp add: js_def)
  then have "split_clause False [] (error_token v) = Some (js ''error'', js ''~'', [34] @ v @ [34])"
    using split_clause_field [of "js ''error''" "[]" "js ''~''" "[34] @ v @ [34]"] \<open>js ''~'' \<in> set OPS\<close>
    by (simp add: js_def field_char_def field_start_def)
  moreover have "error_token v \<notin> set FLAGS" by (simp add: FLAGS_def js_def)
  moreover have "unquote ([34] @ v @ [34]) = v"
    by (simp add: unquote_def ends_with_def starts_with_def butlast_append)
  ultimately show ?thesis by (simp add: clause_of_def parse_clause_def)
qed

lemma token_quoted: "34 \<notin> set v \<Longrightarrow> token (error_token v)"
proof -
  assume v: "34 \<notin> set v"
  then have "\<forall>c \<in> set v. c \<noteq> 34 \<and> (blank c \<longrightarrow> True)" by auto
  from scan_plain [OF this, of "[34]"] have "scan_token False ([34] @ v @ [34]) = ([34] @ v @ [34], [])"
    by simp
  moreover have "\<forall>c \<in> set (js ''error~''). c \<noteq> 34 \<and> (blank c \<longrightarrow> False)" by (simp add: js_def blank_def)
  from scan_plain [OF this, of "[34] @ v @ [34]"]
  have "scan_token False (error_token v) = (js ''error~'' @ fst (scan_token False ([34] @ v @ [34])),
      snd (scan_token False ([34] @ v @ [34])))"
    by (simp add: js_def)
  ultimately show ?thesis using v by (simp add: token_def js_def ends_quoted_plain)
qed

lemma state_token: "clause_of (js ''state='' @ scope_name st) =
    \<lparr>cl_field = js ''state'', cl_op = js ''='', cl_value = scope_name st,
     cl_raw = js ''state='' @ scope_name st, cl_pos = 0\<rparr>"
  and state_token_closed: "quotes_closed (js ''state='' @ scope_name st)"
  and state_token_whole: "token (js ''state='' @ scope_name st)"
proof -
  have q: "quoteAqlValue (scope_name st) = scope_name st"
    by (cases st) (simp_all add: quoteAqlValue_def is_ws_def js_def)
  have p: "plain_field (js ''state'')" "js ''='' \<in> set OPS" "plain_value (js ''='') (scope_name st)"
    by (cases st; simp add: plain_field_def field_char_def field_start_def OPS_def plain_value_def js_def)+
  have e: "js ''state'' @ js ''='' @ scope_name st = js ''state='' @ scope_name st" by (simp add: js_def)
  show "clause_of (js ''state='' @ scope_name st) =
    \<lparr>cl_field = js ''state'', cl_op = js ''='', cl_value = scope_name st,
     cl_raw = js ''state='' @ scope_name st, cl_pos = 0\<rparr>"
    using clause_of_written [OF p] unfolding q e .
  show t: "token (js ''state='' @ scope_name st)"
    using token_written [OF p(1,2), of "scope_name st"] p(3) unfolding q e by (simp add: plain_value_def)
  then show "quotes_closed (js ''state='' @ scope_name st)" by (simp add: token_def quotes_closed_def)
qed

text \<open>The scope a signature's verbs run on reads back as what it says: the query is exactly the state
  clause and one \<open>error~\<close> clause, whose value is literal text of the template, at least four
  characters long and free of quotes.\<close>

theorem signature_scope_reads_back:
  assumes "sigScopeAql tmpl st = Some q"
  shows "\<exists>v. clauses q =
      [\<lparr>cl_field = js ''state'', cl_op = js ''='', cl_value = scope_name st,
        cl_raw = js ''state='' @ scope_name st, cl_pos = 0\<rparr>,
       \<lparr>cl_field = js ''error'', cl_op = js ''~'', cl_value = v, cl_raw = js ''error~'' @ [34] @ v @ [34], cl_pos = 0\<rparr>] \<and>
    sublist v tmpl \<and> 4 \<le> length v \<and> 34 \<notin> set v"
proof -
  let ?v = "sigLiteralPrefix tmpl"
  have e: "js ''error~'' = js ''error'' @ js ''~''" by (simp add: js_def)
  from assms have v: "?v \<noteq> []" and q: "q = (js ''state='' @ scope_name st) @ 32 # error_token ?v"
    by (auto simp: sigScopeAql_def sigErrorClause_def Let_def js_def split: if_splits)
  note lit = sigLiteralPrefix_literal [OF v]
  have "clauses q = [clause_of (js ''state='' @ scope_name st), clause_of (error_token ?v)]"
    unfolding q clauses_texts texts_append [OF state_token_closed] texts_token [OF state_token_whole]
      texts_token [OF token_quoted [OF lit [THEN conjunct2, THEN conjunct1]]] by (simp only: list.map append.simps)
  then show ?thesis using lit clause_of_quoted [of ?v] state_token [of st] by (auto simp: e)
qed

definition sample_template :: jstring where
  "sample_template = js ''refused ~N~''"

lemma signature_scope_reads_back_witness:
  "sigScopeAql sample_template ScopeRetry \<noteq> None \<and>
   (\<exists>v. length (clauses (the (sigScopeAql sample_template ScopeRetry))) = 2 \<and> sublist v sample_template \<and> 4 \<le> length v)"
proof -
  have "sigScopeAql sample_template ScopeRetry = Some (js ''state=retry error~'' @ [34] @ js ''refused'' @ [34])"
    by (simp add: sigScopeAql_def sigErrorClause_def sigLiteralPrefix_def sample_template_def MIN_LITERAL_def clean_def
        placeholder_at_def PLACEHOLDERS_def starts_with_def trim_def trim_start_def is_ws_def js_def)
  with signature_scope_reads_back [OF this] show ?thesis by auto
qed

end
