(* ===== verification/Metadata.thy ===== *)
theory Metadata
  imports Json Formats JsSort Aql
begin

text \<open>
  \<open>src/ui/src/lib/metadata.ts\<close> and \<open>src/ui/src/lib/correlation.ts\<close>: a JSON payload as filterable pairs, the
  chips offered for a page of tasks, the correlation id of a task and the flow of the tasks that share
  it. \<open>localeCompare\<close> follows the collation of the browser and is the parameter \<open>collate\<close>;
  \<open>Date.parse\<close> is the parameter \<open>date_parse\<close>, \<open>None\<close> for \<open>NaN\<close>.
\<close>

subsection \<open>Pairs\<close>

text \<open>\<open>String(value)\<close> of a scalar; \<open>null\<close> and objects are skipped.\<close>

definition scalar_string :: "jvalue \<Rightarrow> jstring option" where
  "scalar_string v = (case v of
     VBool b \<Rightarrow> Some (if b then js ''true'' else js ''false'')
   | VNumber n \<Rightarrow> Some (number_string n)
   | VString s \<Rightarrow> Some s
   | _ \<Rightarrow> None)"

definition parseMetadata :: "jstring \<Rightarrow> meta_pair list" where
  "parseMetadata payload =
     (if payload = [] then []
      else case json_parse payload of
        Some (VObject ms) \<Rightarrow>
          List.map_filter (\<lambda>(k, v). map_option (\<lambda>s. \<lparr>mp_key = k, mp_value = s\<rparr>) (scalar_string v)) (entries ms)
      | _ \<Rightarrow> [])"

definition matchesMetadata :: "jstring \<Rightarrow> meta_pair list \<Rightarrow> bool" where
  "matchesMetadata payload filters \<longleftrightarrow>
     filters = [] \<or>
     (let pairs = parseMetadata payload
      in list_all (\<lambda>f. list_ex (\<lambda>p. mp_key p = mp_key f \<and> mp_value p = mp_value f) pairs) filters)"

text \<open>One step of the counting loop: the map of \<open>key NUL value\<close> in insertion order.\<close>

definition count_pair :: "meta_pair \<Rightarrow> (jstring \<times> meta_pair \<times> nat) list \<Rightarrow> (jstring \<times> meta_pair \<times> nat) list" where
  "count_pair pair counts =
     (let id = mp_key pair @ [0] @ mp_value pair
      in if id \<in> fst ` set counts
         then map (\<lambda>(i, p, n). if i = id then (i, p, n + 1) else (i, p, n)) counts
         else counts @ [(id, pair, 1)])"

definition chip_order :: "(jstring \<Rightarrow> jstring \<Rightarrow> int) \<Rightarrow> meta_pair \<times> nat \<Rightarrow> meta_pair \<times> nat \<Rightarrow> rat" where
  "chip_order collate a b =
     (if snd a \<noteq> snd b then of_nat (snd b) - of_nat (snd a)
      else let k = collate (mp_key (fst a)) (mp_key (fst b))
        in of_int (if k \<noteq> 0 then k else collate (mp_value (fst a)) (mp_value (fst b))))"

definition collectMetadata :: "(jstring \<Rightarrow> jstring \<Rightarrow> int) \<Rightarrow> jstring list \<Rightarrow> nat \<Rightarrow> meta_pair list" where
  "collectMetadata collate payloads limit =
     (let counts = fold count_pair (concat (map parseMetadata payloads)) []
      in map fst (take limit (js_sort (chip_order collate) (map snd counts))))"

definition metaId :: "meta_pair \<Rightarrow> jstring" where
  "metaId p = mp_key p @ js ''='' @ mp_value p"

subsection \<open>Correlation\<close>

record correlation_ref =
  cr_key :: jstring
  cr_value :: jstring
  cr_nested :: bool

definition DEFAULT_CORRELATION_KEYS :: "jstring list" where
  "DEFAULT_CORRELATION_KEYS = [js ''trace_id'', js ''correlation_id'', js ''request_id'']"

fun top_hit :: "meta_pair list \<Rightarrow> jstring list \<Rightarrow> correlation_ref option" where
  "top_hit pairs [] = None"
| "top_hit pairs (key # keys) =
     (case List.find (\<lambda>p. mp_key p = key \<and> mp_value p \<noteq> []) pairs of
        Some p \<Rightarrow> Some \<lparr>cr_key = key, cr_value = mp_value p, cr_nested = False\<rparr>
      | None \<Rightarrow> top_hit pairs keys)"

text \<open>\<open>v[key]\<close> of a parsed object , as a text; members every object inherits (\<open>constructor\<close>) are not keys of a correlation id.\<close>

definition nested_value :: "jstring \<Rightarrow> jvalue \<Rightarrow> jstring option" where
  "nested_value key v = (case v of
     VObject ms \<Rightarrow> (case Option.bind (map_of ms key) scalar_string of
         Some s \<Rightarrow> if s = [] then None else Some s
       | None \<Rightarrow> None)
   | _ \<Rightarrow> None)"

definition nested_hit :: "jvalue list \<Rightarrow> jstring list \<Rightarrow> correlation_ref option" where
  "nested_hit vs keys =
     first_some (\<lambda>key. map_option (\<lambda>s. \<lparr>cr_key = key, cr_value = s, cr_nested = True\<rparr>)
       (first_some (nested_value key) vs)) keys"

definition extractCorrelation :: "jstring \<Rightarrow> jstring list \<Rightarrow> correlation_ref option" where
  "extractCorrelation payload keys =
     (case top_hit (parseMetadata payload) keys of
        Some r \<Rightarrow> Some r
      | None \<Rightarrow> (case json_parse payload of
          Some (VObject ms) \<Rightarrow> nested_hit (map snd (entries ms)) keys
        | _ \<Rightarrow> None))"

subsection \<open>The flow of a correlation id\<close>

record flow_task =
  ft_id :: jstring
  ft_queue :: jstring
  ft_completed_at :: "jstring option"
  ft_last_failed_at :: "jstring option"

definition observedAt :: "flow_task \<Rightarrow> jstring" where
  "observedAt t =
     (let s = (case ft_completed_at t of
            Some c \<Rightarrow> if c \<noteq> [] then c else (case ft_last_failed_at t of Some f \<Rightarrow> f | None \<Rightarrow> [])
          | None \<Rightarrow> (case ft_last_failed_at t of Some f \<Rightarrow> f | None \<Rightarrow> []))
      in if starts_with (js ''0001-'') s then [] else s)"

definition MAX_SAFE_INTEGER :: int where
  "MAX_SAFE_INTEGER = 9007199254740991"

definition observedAtMs :: "(jstring \<Rightarrow> int option) \<Rightarrow> flow_task \<Rightarrow> int" where
  "observedAtMs date_parse t =
     (let s = observedAt t
      in case (if s \<noteq> [] then date_parse s else None) of Some ms \<Rightarrow> ms | None \<Rightarrow> MAX_SAFE_INTEGER)"

definition flow_order ::
  "(jstring \<Rightarrow> jstring \<Rightarrow> int) \<Rightarrow> (jstring \<Rightarrow> int option) \<Rightarrow> flow_task \<Rightarrow> flow_task \<Rightarrow> rat" where
  "flow_order collate date_parse a b =
     (let d = observedAtMs date_parse a - observedAtMs date_parse b
      in of_int (if d \<noteq> 0 then d else collate (ft_id a) (ft_id b)))"

text \<open>The two loops: the first task of each id is kept.\<close>

fun dedupe :: "jstring set \<Rightarrow> flow_task list \<Rightarrow> flow_task list" where
  "dedupe seen [] = []"
| "dedupe seen (t # ts) = (if ft_id t \<in> seen then dedupe seen ts else t # dedupe (insert (ft_id t) seen) ts)"

definition mergeFlowTasks ::
  "(jstring \<Rightarrow> jstring \<Rightarrow> int) \<Rightarrow> (jstring \<Rightarrow> int option) \<Rightarrow> flow_task list list \<Rightarrow> flow_task list" where
  "mergeFlowTasks collate date_parse results =
     js_sort (flow_order collate date_parse) (dedupe {} (concat results))"

definition distinctQueues :: "flow_task list \<Rightarrow> nat" where
  "distinctQueues tasks = card (set (map ft_queue tasks))"

subsection \<open>Chips\<close>

lemma matches_pair: "p \<in> set (parseMetadata payload) \<Longrightarrow> matchesMetadata payload [p]"
  by (auto simp: matchesMetadata_def list_ex_iff)

lemma matchesMetadata_all:
  "matchesMetadata payload fs \<longleftrightarrow> (\<forall>f \<in> set fs. f \<in> set (parseMetadata payload))"
proof -
  have "list_ex (\<lambda>p. mp_key p = mp_key f \<and> mp_value p = mp_value f) ps \<longleftrightarrow> f \<in> set ps" for f :: meta_pair and ps
    by (induction ps) auto
  then show ?thesis by (auto simp: matchesMetadata_def list_all_iff)
qed

abbreviation chip_id :: "meta_pair \<Rightarrow> jstring" where
  "chip_id p \<equiv> mp_key p @ [0] @ mp_value p"

abbreviation counted :: "(jstring \<times> meta_pair \<times> nat) list \<Rightarrow> meta_pair list" where
  "counted counts \<equiv> map (\<lambda>x. fst (snd x)) counts"

lemma count_pair_known:
  assumes "chip_id p \<in> fst ` set counts"
  shows "map fst (count_pair p counts) = map fst counts" "counted (count_pair p counts) = counted counts"
  using assms by (auto simp: count_pair_def)

lemma count_pair_new:
  "chip_id p \<notin> fst ` set counts \<Longrightarrow> count_pair p counts = counts @ [(chip_id p, p, 1)]"
  by (simp add: count_pair_def)

lemma fold_count_pair:
  "distinct (map fst counts) \<Longrightarrow> map fst counts = map chip_id (counted counts) \<Longrightarrow>
   distinct (counted (fold count_pair ps counts)) \<and>
   set (counted (fold count_pair ps counts)) \<subseteq> set ps \<union> set (counted counts)"
proof (induction ps arbitrary: counts)
  case Nil
  then have "distinct (map chip_id (counted counts))" by metis
  then have "distinct (counted counts)" by (rule distinct_map [THEN iffD1, THEN conjunct1])
  then show ?case by simp
next
  case (Cons p ps)
  show ?case
  proof (cases "chip_id p \<in> fst ` set counts")
    case True
    note k = count_pair_known [OF True]
    from Cons.IH [of "count_pair p counts", unfolded k] Cons.prems show ?thesis by auto
  next
    case False
    note n = count_pair_new [OF False]
    have "distinct (map fst (counts @ [(chip_id p, p, 1)]))" using Cons.prems(1) False by simp
    moreover have "map fst (counts @ [(chip_id p, p, 1)]) = map chip_id (counted (counts @ [(chip_id p, p, 1)]))"
      using Cons.prems(2) by simp
    ultimately show ?thesis using Cons.IH [of "counts @ [(chip_id p, p, 1)]"] by (auto simp: n)
  qed
qed

text \<open>Metadata chips are honest: every pair read from a payload filters that payload in, a filter
  matches exactly the payloads that carry all its pairs, and every chip offered for a page of
  payloads is offered once and matches one of them.\<close>

theorem chips_match_a_payload:
  "matchesMetadata payload (parseMetadata payload) \<and>
   (matchesMetadata payload fs \<longleftrightarrow> set fs \<subseteq> set (parseMetadata payload)) \<and>
   distinct (collectMetadata collate payloads limit) \<and>
   length (collectMetadata collate payloads limit) \<le> limit \<and>
   (\<forall>chip \<in> set (collectMetadata collate payloads limit). \<exists>p \<in> set payloads. matchesMetadata p [chip])"
proof -
  let ?counts = "fold count_pair (concat (map parseMetadata payloads)) []"
  let ?sorted = "js_sort (chip_order collate) (map snd ?counts)"
  have "mset (map fst ?sorted) = mset (map (\<lambda>x. fst (snd x)) ?counts)"
    by (simp add: image_mset.compositionality comp_def)
  moreover have "distinct (map (\<lambda>x. fst (snd x)) ?counts)"
    and sub: "set (counted ?counts) \<subseteq> set (concat (map parseMetadata payloads))"
    using fold_count_pair [of "[]" "concat (map parseMetadata payloads)"] by auto
  ultimately have d: "distinct (map fst ?sorted)" and s: "set (map fst ?sorted) \<subseteq> set (concat (map parseMetadata payloads))"
    by (metis mset_eq_imp_distinct_iff, metis mset_eq_setD sub)
  have c: "collectMetadata collate payloads limit = take limit (map fst ?sorted)"
    by (simp add: collectMetadata_def take_map)
  have "\<exists>p \<in> set payloads. matchesMetadata p [chip]" if "chip \<in> set (collectMetadata collate payloads limit)" for chip
  proof -
    from that have "chip \<in> set (map fst ?sorted)" unfolding c by (rule in_set_takeD)
    then have "chip \<in> set (concat (map parseMetadata payloads))" by (rule subsetD [OF s])
    then obtain p where "p \<in> set payloads" "chip \<in> set (parseMetadata p)" by auto
    then show ?thesis using matches_pair [of chip p] by blast
  qed
  moreover have "matchesMetadata payload (parseMetadata payload)"
    and "matchesMetadata payload fs \<longleftrightarrow> set fs \<subseteq> set (parseMetadata payload)"
    by (auto simp: matchesMetadata_all)
  moreover have "distinct (collectMetadata collate payloads limit)" "length (collectMetadata collate payloads limit) \<le> limit"
    unfolding c using d by (simp_all del: mset_map)
  ultimately show ?thesis by blast
qed

subsection \<open>References\<close>

lemma top_hit_Some:
  "top_hit pairs keys = Some r \<Longrightarrow>
   \<not> cr_nested r \<and> cr_key r \<in> set keys \<and> cr_value r \<noteq> [] \<and> \<lparr>mp_key = cr_key r, mp_value = cr_value r\<rparr> \<in> set pairs"
proof (induction keys)
  case (Cons k keys)
  show ?case
  proof (cases "List.find (\<lambda>p. mp_key p = k \<and> mp_value p \<noteq> []) pairs")
    case (Some p)
    then have "p \<in> set pairs" "mp_key p = k" "mp_value p \<noteq> []" by (auto simp: find_Some_iff)
    moreover have "\<lparr>mp_key = mp_key p, mp_value = mp_value p\<rparr> = p" by simp
    ultimately have "\<lparr>mp_key = k, mp_value = mp_value p\<rparr> \<in> set pairs" "mp_value p \<noteq> []" by metis+
    then show ?thesis using Some Cons.prems by auto
  qed (use Cons in simp)
qed simp

lemma top_hit_None:
  "top_hit pairs keys = None \<longleftrightarrow> (\<forall>k \<in> set keys. \<forall>p \<in> set pairs. mp_key p = k \<longrightarrow> mp_value p = [])"
proof (induction keys)
  case (Cons k keys)
  show ?case
  proof (cases "List.find (\<lambda>p. mp_key p = k \<and> mp_value p \<noteq> []) pairs")
    case (Some p)
    then have "p \<in> set pairs" "mp_key p = k" "mp_value p \<noteq> []" by (auto simp: find_Some_iff)
    then show ?thesis using Some by auto
  next
    case None
    then have "\<forall>p \<in> set pairs. mp_key p = k \<longrightarrow> mp_value p = []" by (auto simp: find_None_iff)
    then show ?thesis using None Cons by simp
  qed
qed simp

lemma nested_hit_nested: "nested_hit vs keys = Some r \<Longrightarrow> cr_nested r"
  unfolding nested_hit_def by (induction keys) (auto split: option.splits)

text \<open>A correlation id found at the top level is one the metadata filter finds: the search for its pair
  matches the payload it was taken from. The deeper search is used exactly when no configured key has
  a value at the top level.\<close>

theorem correlation_is_searchable:
  assumes "extractCorrelation payload keys = Some r"
  shows "(\<not> cr_nested r \<longrightarrow> cr_key r \<in> set keys \<and> cr_value r \<noteq> [] \<and>
      matchesMetadata payload [\<lparr>mp_key = cr_key r, mp_value = cr_value r\<rparr>]) \<and>
    (cr_nested r \<longleftrightarrow> (\<forall>k \<in> set keys. \<forall>p \<in> set (parseMetadata payload). mp_key p = k \<longrightarrow> mp_value p = []))"
proof (cases "top_hit (parseMetadata payload) keys")
  case None
  with assms have "cr_nested r"
    by (auto simp: extractCorrelation_def intro: nested_hit_nested split: option.splits jvalue.splits)
  with None show ?thesis by (simp add: top_hit_None)
next
  case (Some r')
  with assms have "r' = r" by (simp add: extractCorrelation_def)
  with Some top_hit_Some [of "parseMetadata payload" keys r] top_hit_None [of "parseMetadata payload" keys]
  show ?thesis by (auto simp: matchesMetadata_all)
qed

text \<open>\<open>{"trace_id":true}\<close>.\<close>

definition sample_payload :: jstring where
  "sample_payload = js ''{'' @ [34] @ js ''trace_id'' @ [34] @ js '':true}''"

lemma correlation_is_searchable_witness:
  "matchesMetadata sample_payload [\<lparr>mp_key = js ''trace_id'', mp_value = js ''true''\<rparr>]"
proof -
  have "extractCorrelation sample_payload DEFAULT_CORRELATION_KEYS =
      Some \<lparr>cr_key = js ''trace_id'', cr_value = js ''true'', cr_nested = False\<rparr>"
    by code_simp
  from correlation_is_searchable [OF this] show ?thesis by simp
qed

lemma chips_match_a_payload_witness:
  "\<lparr>mp_key = js ''trace_id'', mp_value = js ''true''\<rparr> \<in> set (collectMetadata (\<lambda>a b. 0) [sample_payload] 24) \<and>
   matchesMetadata sample_payload [\<lparr>mp_key = js ''trace_id'', mp_value = js ''true''\<rparr>]"
proof -
  have m: "\<lparr>mp_key = js ''trace_id'', mp_value = js ''true''\<rparr> \<in> set (collectMetadata (\<lambda>a b. 0) [sample_payload] 24)"
    by code_simp
  with chips_match_a_payload [of sample_payload "[]" "\<lambda>a b. 0" "[sample_payload]" 24] show ?thesis by auto
qed

subsection \<open>The flow\<close>

lemma dedupe_props:
  "distinct (map ft_id (dedupe seen ts)) \<and> set (dedupe seen ts) \<subseteq> set ts \<and>
   ft_id ` set (dedupe seen ts) = ft_id ` set ts - seen"
proof (induction ts arbitrary: seen)
  case (Cons t ts)
  show ?case using Cons [of seen] Cons [of "insert (ft_id t) seen"] by auto
qed simp

text \<open>Both sorts order by their first key.\<close>

interpretation flow: comparator "flow_order collate date_parse" "observedAtMs date_parse"
  by unfold_locales (auto simp: flow_order_def Let_def)

interpretation chips: comparator "chip_order collate" "\<lambda>c. - int (snd c)"
  by unfold_locales (auto simp: chip_order_def)

text \<open>The flow lists every task once, by observed time, those without one last.\<close>

lemma flow_lists_tasks_once:
  "distinct (map ft_id (mergeFlowTasks collate date_parse results)) \<and>
   ft_id ` set (mergeFlowTasks collate date_parse results) = ft_id ` set (concat results) \<and>
   sorted (map (observedAtMs date_parse) (mergeFlowTasks collate date_parse results))"
proof -
  let ?d = "dedupe {} (concat results)"
  have "mset (map ft_id (mergeFlowTasks collate date_parse results)) = mset (map ft_id ?d)"
    by (simp add: mergeFlowTasks_def)
  moreover have "distinct (map ft_id ?d)" and i: "ft_id ` set ?d = ft_id ` set (concat results)"
    using dedupe_props [of "{}" "concat results"] by simp_all
  ultimately have "distinct (map ft_id (mergeFlowTasks collate date_parse results))"
    by (metis mset_eq_imp_distinct_iff)
  moreover have "ft_id ` set (mergeFlowTasks collate date_parse results) = ft_id ` set (concat results)"
    unfolding i [symmetric] by (simp add: mergeFlowTasks_def)
  moreover have "sorted (map (observedAtMs date_parse) (mergeFlowTasks collate date_parse results))"
    unfolding mergeFlowTasks_def by (rule flow.sorted)
  ultimately show ?thesis by blast
qed

text \<open>The chips come most frequent first.\<close>

lemma chips_by_frequency:
  "sorted (map (\<lambda>c. - int (snd c)) (js_sort (chip_order collate) (map snd (fold count_pair ps []))))"
  by (rule chips.sorted)

end
