(* ===== verification/Polling.thy ===== *)
theory Polling
  imports ApiConsole ConsoleActions Metadata
begin

text \<open>
  The hooks of \<open>src/ui/src/hooks/index.tsx\<close> that fetch: \<open>usePolling\<close> calls a function on mount, when its
  parameters change, on an interval and when the tab becomes visible again; \<open>useLatestOnly\<close> drops the
  answers of superseded calls; \<open>useIsDark\<close>. And \<open>hooks/useFeatures.ts\<close>, the capability probe shared by
  every component.

  A hook is a state and the steps the browser may take next, in any order: an effect run, a timer, a
  visibility change, the settling of a promise.
\<close>

subsection \<open>Cadence\<close>

definition MIN_POLL_INTERVAL_SECONDS :: rat where
  "MIN_POLL_INTERVAL_SECONDS = 2"

definition MAX_POLL_INTERVAL_SECONDS :: rat where
  "MAX_POLL_INTERVAL_SECONDS = 20"

definition clampPollInterval :: "number \<Rightarrow> rat" where
  "clampPollInterval seconds = (case seconds of
     Finite x \<Rightarrow> min MAX_POLL_INTERVAL_SECONDS (max MIN_POLL_INTERVAL_SECONDS x)
   | _ \<Rightarrow> MAX_POLL_INTERVAL_SECONDS)"

lemma clamp_bounds: "2 \<le> clampPollInterval n" "clampPollInterval n \<le> 20"
  by (auto simp: clampPollInterval_def MIN_POLL_INTERVAL_SECONDS_def MAX_POLL_INTERVAL_SECONDS_def split: number.split)

subsection \<open>usePolling\<close>

text \<open>What the polled function did: returned a promise, returned something else, or threw.\<close>

datatype call_result = Promise | Sync | Throws

text \<open>
  \<open>po_calls\<close> are the promises that have not settled, each with whether its tick was forced; \<open>po_timer\<close> is the
  period of the running interval.
\<close>

record poll_hook =
  po_inFlight :: nat
  po_calls :: "bool list"
  po_timer :: "rat option"
  po_interval :: number
  po_listening :: bool
  po_hidden :: bool
  po_ticks :: nat

definition poll_init :: "bool \<Rightarrow> poll_hook" where
  "poll_init hidden =
     \<lparr>po_inFlight = 0, po_calls = [], po_timer = None, po_interval = NaN, po_listening = False, po_hidden = hidden,
      po_ticks = 0\<rparr>"

text \<open>\<open>tick(force)\<close>: the new state, and whether the exception of the function was rethrown.\<close>

definition poll_tick :: "bool \<Rightarrow> call_result \<Rightarrow> poll_hook \<Rightarrow> poll_hook \<times> bool" where
  "poll_tick force r s =
     (if \<not> force \<and> po_inFlight s > 0 then (s, False)
      else case r of
        Promise \<Rightarrow>
          (s\<lparr>po_inFlight := po_inFlight s + 1, po_calls := po_calls s @ [force], po_ticks := po_ticks s + 1\<rparr>, False)
      | Sync \<Rightarrow> (s\<lparr>po_ticks := po_ticks s + 1\<rparr>, False)
      | Throws \<Rightarrow> (s, True))"

definition poll_start :: "poll_hook \<Rightarrow> poll_hook" where
  "poll_start s =
     (if po_timer s = None then s\<lparr>po_timer := Some (clampPollInterval (po_interval s) * 1000)\<rparr> else s)"

definition poll_stop :: "poll_hook \<Rightarrow> poll_hook" where
  "poll_stop s = s\<lparr>po_timer := None\<rparr>"

definition poll_cleanup :: "poll_hook \<Rightarrow> poll_hook" where
  "poll_cleanup s = (poll_stop s)\<lparr>po_listening := False\<rparr>"

definition poll_effect :: "bool \<Rightarrow> number \<Rightarrow> call_result \<Rightarrow> poll_hook \<Rightarrow> poll_hook" where
  "poll_effect pollingActive interval r s =
     (let (s, threw) = poll_tick True r (s\<lparr>po_interval := interval\<rparr>)
      in if threw \<or> \<not> pollingActive then s
         else (if po_hidden s then s else poll_start s)\<lparr>po_listening := True\<rparr>)"

definition onVisibilityChange :: "call_result \<Rightarrow> poll_hook \<Rightarrow> poll_hook" where
  "onVisibilityChange r s =
     (if po_hidden s then poll_stop s
      else let (s, threw) = poll_tick False r s in if threw then s else poll_start s)"

text \<open>The settling of the promise of a call.\<close>

definition poll_settle :: "nat \<Rightarrow> poll_hook \<Rightarrow> poll_hook" where
  "poll_settle i s = s\<lparr>po_inFlight := po_inFlight s - 1, po_calls := take i (po_calls s) @ drop (Suc i) (po_calls s)\<rparr>"

text \<open>Runs, with the number of effect runs: mounts and changes of parameters.\<close>

inductive poll_run :: "nat \<Rightarrow> poll_hook \<Rightarrow> bool" where
  start: "poll_run 0 (poll_init hidden)"
| effect: "poll_run n s \<Longrightarrow> poll_run (Suc n) (poll_effect pollingActive interval r (poll_cleanup s))"
| unmount: "poll_run n s \<Longrightarrow> poll_run n (poll_cleanup s)"
| fires: "poll_run n s \<Longrightarrow> po_timer s \<noteq> None \<Longrightarrow> poll_run n (fst (poll_tick False r s))"
| visibility: "poll_run n s \<Longrightarrow>
    poll_run n (if po_listening s then onVisibilityChange r (s\<lparr>po_hidden := h\<rparr>) else s\<lparr>po_hidden := h\<rparr>)"
| settles: "poll_run n s \<Longrightarrow> i < length (po_calls s) \<Longrightarrow> poll_run n (poll_settle i s)"

definition poll_sane :: "nat \<Rightarrow> poll_hook \<Rightarrow> bool" where
  "poll_sane n s \<longleftrightarrow>
     po_inFlight s = length (po_calls s) \<and> length (filter Not (po_calls s)) \<le> 1 \<and> length (filter id (po_calls s)) \<le> n \<and>
     (case po_timer s of None \<Rightarrow> True | Some ms \<Rightarrow> po_listening s \<and> \<not> po_hidden s \<and> 2000 \<le> ms \<and> ms \<le> 20000)"

lemmas poll_defs = poll_tick_def poll_start_def poll_stop_def poll_cleanup_def poll_effect_def onVisibilityChange_def

lemma sane_tick_false: "poll_sane n s \<Longrightarrow> poll_sane n (fst (poll_tick False r s))"
  by (auto simp: poll_sane_def poll_tick_def split: call_result.split option.splits)

lemma sane_tick_true: "poll_sane n s \<Longrightarrow> poll_sane (Suc n) (fst (poll_tick True r s))"
  by (auto simp: poll_sane_def poll_tick_def split: call_result.split option.splits)

lemma sane_start:
  "poll_sane n s \<Longrightarrow> po_listening s \<Longrightarrow> \<not> po_hidden s \<Longrightarrow> poll_sane n (poll_start s)"
  using clamp_bounds [of "po_interval s"] by (auto simp: poll_sane_def poll_start_def)

lemma sane_stop: "poll_sane n s \<Longrightarrow> poll_sane n (poll_cleanup s)" "poll_sane n s \<Longrightarrow> poll_sane n ((poll_stop s)\<lparr>po_hidden := h\<rparr>)"
  by (auto simp: poll_sane_def poll_cleanup_def poll_stop_def)

lemma tick_frame [simp]:
  "po_timer (fst (poll_tick f r s)) = po_timer s" "po_listening (fst (poll_tick f r s)) = po_listening s"
  "po_hidden (fst (poll_tick f r s)) = po_hidden s"
  by (auto simp: poll_tick_def split: call_result.split)

lemma sane_effect: "poll_sane n s \<Longrightarrow> po_timer s = None \<Longrightarrow> poll_sane (Suc n) (poll_effect active interval r s)"
proof -
  assume s: "poll_sane n s" "po_timer s = None"
  let ?t = "fst (poll_tick True r (s\<lparr>po_interval := interval\<rparr>))"
  have t: "poll_sane (Suc n) ?t" "po_timer ?t = None"
    using s sane_tick_true [of n "s\<lparr>po_interval := interval\<rparr>" r] by (simp_all add: poll_sane_def)
  then have "poll_sane (Suc n) (?t\<lparr>po_listening := True\<rparr>)" by (simp add: poll_sane_def)
  moreover have "poll_sane (Suc n) ((poll_start ?t)\<lparr>po_listening := True\<rparr>)" if "\<not> po_hidden ?t"
  proof -
    have "(poll_start ?t)\<lparr>po_listening := True\<rparr> = poll_start (?t\<lparr>po_listening := True\<rparr>)" by (simp add: poll_start_def)
    then show ?thesis using that calculation by (simp add: sane_start)
  qed
  ultimately show ?thesis using t by (auto simp: poll_effect_def split_beta Let_def)
qed

lemma filter_without: "i < length xs \<Longrightarrow> length (filter P (take i xs @ drop (Suc i) xs)) \<le> length (filter P xs)"
proof -
  assume "i < length xs"
  then have "xs = take i xs @ xs ! i # drop (Suc i) xs" by (rule id_take_nth_drop)
  then have "filter P xs = filter P (take i xs) @ filter P (xs ! i # drop (Suc i) xs)" by (metis filter_append)
  then show ?thesis by simp
qed

lemma poll_run_sane: "poll_run n s \<Longrightarrow> poll_sane n s"
proof (induction rule: poll_run.induct)
  case (start hidden)
  then show ?case by (simp add: poll_sane_def poll_init_def)
next
  case (effect n s)
  then show ?case by (intro sane_effect sane_stop) (simp_all add: poll_cleanup_def poll_stop_def)
next
  case (unmount n s)
  then show ?case by (intro sane_stop(1))
next
  case (fires n s r)
  then show ?case by (intro sane_tick_false)
next
  case (visibility n s r h)
  show ?case
  proof (cases "po_listening s \<and> \<not> h")
    case False
    with visibility sane_stop(2) [of n s h] show ?thesis
      by (auto simp: onVisibilityChange_def poll_stop_def poll_sane_def split: option.splits)
  next
    case True
    have s: "poll_sane n (s\<lparr>po_hidden := False\<rparr>)" using visibility(2) by (auto simp: poll_sane_def split: option.splits)
    with True sane_tick_false [OF s, of r] show ?thesis
      by (auto simp: onVisibilityChange_def split_beta Let_def intro: sane_start)
  qed
next
  case (settles n s i)
  with filter_without [of i "po_calls s" Not] filter_without [of i "po_calls s" id] show ?case
    by (auto simp: poll_sane_def poll_settle_def split: option.splits)
qed

text \<open>C8. A server that hangs is not flooded: however timers, visibility changes, parameter changes and answers
  interleave, the calls in flight are counted exactly, at most one of them was started by the interval or by
  the tab becoming visible, the others by a mount or a change of parameters, and the interval runs only
  while the hook listens and the tab is visible, every 2 to 20 seconds.\<close>

theorem polling_never_piles_up:
  assumes "poll_run n s"
  shows "po_inFlight s = length (po_calls s) \<and> length (po_calls s) \<le> n + 1 \<and>
    length (filter Not (po_calls s)) \<le> 1 \<and>
    (po_inFlight s > 0 \<longrightarrow> poll_tick False r s = (s, False)) \<and>
    (\<forall>ms. po_timer s = Some ms \<longrightarrow> po_listening s \<and> \<not> po_hidden s \<and> 2000 \<le> ms \<and> ms \<le> 20000)"
proof -
  note s = poll_run_sane [OF assms]
  have "length (filter id (po_calls s)) + length (filter Not (po_calls s)) = length (po_calls s)"
    using sum_length_filter_compl [of id "po_calls s"] by (simp add: comp_def)
  with s have "length (po_calls s) \<le> n + 1" by (simp add: poll_sane_def)
  then show ?thesis using s by (auto simp: poll_sane_def poll_tick_def)
qed

lemma polling_never_piles_up_witness:
  "po_inFlight (poll_effect True (Finite 5) Promise (poll_cleanup (poll_init False))) = 1 \<and>
   poll_tick False Promise (poll_effect True (Finite 5) Promise (poll_cleanup (poll_init False))) =
     (poll_effect True (Finite 5) Promise (poll_cleanup (poll_init False)), False)"
proof -
  have r: "poll_run 1 (poll_effect True (Finite 5) Promise (poll_cleanup (poll_init False)))"
    using poll_run.effect [OF poll_run.start] by simp
  have "po_inFlight (poll_effect True (Finite 5) Promise (poll_cleanup (poll_init False))) = 1"
    by (simp add: poll_defs poll_init_def)
  with polling_never_piles_up [OF r] show ?thesis by simp
qed

subsection \<open>useLatestOnly\<close>

text \<open>
  The sequence counter, and a consumer that shows an answer only if its call is the newest:
  \<open>if (!isCurrent()) return; setRows(...)\<close>.
\<close>

record 'r latest =
  la_seq :: nat
  la_shown :: "(nat \<times> 'r) option"

datatype 'r latest_event = BeginFetch | Answered nat 'r

definition isCurrent :: "nat \<Rightarrow> 'r latest \<Rightarrow> bool" where
  "isCurrent mine s \<longleftrightarrow> mine = la_seq s"

fun latest_step :: "'r latest \<Rightarrow> 'r latest_event \<Rightarrow> 'r latest" where
  "latest_step s BeginFetch = s\<lparr>la_seq := la_seq s + 1\<rparr>"
| "latest_step s (Answered mine r) = (if isCurrent mine s then s\<lparr>la_shown := Some (mine, r)\<rparr> else s)"

lemma latest_shown_newest:
  assumes "la_shown s = None \<or> fst (the (la_shown s)) \<le> la_seq s"
  shows "la_shown (latest_step s e) = la_shown s \<or> fst (the (la_shown (latest_step s e))) = la_seq s"
    and "la_shown (latest_step s e) = None \<or> fst (the (la_shown (latest_step s e))) \<le> la_seq (latest_step s e)"
  using assms by (cases e; auto simp: isCurrent_def)+

subsection \<open>Theme and features\<close>

definition useIsDark :: "theme_preference \<Rightarrow> bool \<Rightarrow> bool" where
  "useIsDark themePreference prefersDark =
     (if themePreference = Always then True else if themePreference = Never then False else prefersDark)"

text \<open>The module-level probe: not asked, in flight, or answered; a failure forgets it so that it is asked again.\<close>

datatype features_cache = NotAsked | InFlight | Known features_response

definition ask_features :: "features_cache \<Rightarrow> features_cache \<times> bool" where
  "ask_features c = (if c = NotAsked then (InFlight, True) else (c, False))"

definition features_settled :: "features_response outcome \<Rightarrow> features_cache" where
  "features_settled answer = (case answer of Fulfilled f \<Rightarrow> Known f | Rejected e \<Rightarrow> NotAsked)"

definition useEnqueueEnabled :: "bool \<Rightarrow> features_cache \<Rightarrow> bool" where
  "useEnqueueEnabled readOnly c = (if readOnly then False else case c of Known f \<Rightarrow> fr_features f | _ \<Rightarrow> False)"

definition usePayloadDetailLimit :: "features_cache \<Rightarrow> int" where
  "usePayloadDetailLimit c = (case c of
     Known f \<Rightarrow> (case fr_payload_detail_limit f of Some n \<Rightarrow> if n > 0 then n else 0 | None \<Rightarrow> 0)
   | _ \<Rightarrow> 0)"

definition useCorrelationKeys :: "features_cache \<Rightarrow> jstring list" where
  "useCorrelationKeys c = (case c of
     Known f \<Rightarrow> (case fr_correlation_keys f of Some ks \<Rightarrow> if ks \<noteq> [] then ks else DEFAULT_CORRELATION_KEYS
       | None \<Rightarrow> DEFAULT_CORRELATION_KEYS)
   | _ \<Rightarrow> DEFAULT_CORRELATION_KEYS)"

lemma features_defaults:
  "useEnqueueEnabled True c = False" "useCorrelationKeys c \<noteq> []" "0 \<le> usePayloadDetailLimit c"
  by (auto simp: useEnqueueEnabled_def useCorrelationKeys_def usePayloadDetailLimit_def DEFAULT_CORRELATION_KEYS_def
      split: features_cache.split option.split)

end
