(* ===== verification/FleetEvents.thy ===== *)
theory FleetEvents
  imports JobsFeed ApiConsole
begin

text \<open>
  \<open>src/ui/src/hooks/useFleetEvents.ts\<close>: the live aggregates of the fleet screen, from an event stream when it
  delivers and from polling otherwise. The variables of the effect are fields of \<open>fleet_feed\<close>, with what the
  browser keeps for it: the streams not closed, the pending timers and the fetches in flight. When the effect
  runs again the old one is disposed first: its streams and timers are gone and its fetches find
  \<open>disposed\<close> set, so only the state the hook returns survives. The document's text of an error is a
  parameter of the event.
\<close>

record fleet_view =
  fv_overview :: "fleet_overview_response option"
  fv_attention :: "fleet_attention_response option"
  fv_source :: feed_source
  fv_updatedAt :: int
  fv_error :: jstring
  fv_pollTicks :: nat

record fleet_feed =
  fe_view :: fleet_view
  fe_active :: bool
  fe_disposed :: bool
  fe_es :: "nat option"
  fe_reconnectTimer :: "nat option"
  fe_pollTimer :: bool
  fe_backoff :: int
  fe_sseHealthy :: bool
  fe_lastEventAt :: int
  fe_streams :: "nat list"
  fe_timers :: "nat list"
  fe_fetches :: "nat list"
  fe_fresh :: nat

text \<open>\<open>WATCHDOG_MS\<close> of this hook; the back-off bounds are those of the job feed.\<close>

definition FLEET_WATCHDOG_MS :: int where
  "FLEET_WATCHDOG_MS = 60000"

definition fleet_touch :: "int \<Rightarrow> fleet_view \<Rightarrow> fleet_view" where
  "fleet_touch now v = v\<lparr>fv_updatedAt := now, fv_error := [], fv_pollTicks := fv_pollTicks v + 1\<rparr>"

text \<open>The start of \<open>fetchNow\<close>, and what happens when both requests have settled.\<close>

definition fetch_start :: "fleet_feed \<Rightarrow> fleet_feed" where
  "fetch_start s = s\<lparr>fe_fetches := fe_fresh s # fe_fetches s, fe_fresh := Suc (fe_fresh s)\<rparr>"

datatype ('r, 'e) settled = SFulfilled 'r | SRejected 'e

definition fetch_end ::
  "int \<Rightarrow> (fleet_overview_response, jstring) settled \<Rightarrow> (fleet_attention_response, jstring) settled \<Rightarrow>
   fleet_feed \<Rightarrow> fleet_feed" where
  "fetch_end now ov att s =
     (if fe_disposed s then s
      else let v = fe_view s;
               v = (case ov of SFulfilled o' \<Rightarrow> v\<lparr>fv_overview := Some o'\<rparr> | _ \<Rightarrow> v);
               v = (case att of SFulfilled a \<Rightarrow> v\<lparr>fv_attention := Some a\<rparr> | _ \<Rightarrow> v);
               v = (case (ov, att) of (SRejected _, SRejected _) \<Rightarrow> v | _ \<Rightarrow> fleet_touch now v);
               errs = (case ov of SRejected e \<Rightarrow> [js ''overview: '' @ e] | _ \<Rightarrow> []) @
                      (case att of SRejected e \<Rightarrow> [js ''attention: '' @ e] | _ \<Rightarrow> [])
           in s\<lparr>fe_view := (if errs \<noteq> [] then v\<lparr>fv_error := join [32, 183, 32] errs\<rparr> else v)\<rparr>)"

text \<open>A frame of either event; \<open>None\<close> when its text does not parse.\<close>

datatype fleet_frame = OverviewFrame fleet_overview_response | AttentionFrame fleet_attention_response

definition fleet_event :: "int \<Rightarrow> fleet_frame option \<Rightarrow> fleet_feed \<Rightarrow> fleet_feed" where
  "fleet_event now frame s =
     (if fe_disposed s then s
      else let s = s\<lparr>fe_sseHealthy := True, fe_lastEventAt := now, fe_backoff := INITIAL_BACKOFF_MS,
                 fe_view := (fe_view s)\<lparr>fv_source := Sse\<rparr>\<rparr>
           in case frame of
                None \<Rightarrow> s
              | Some (OverviewFrame o') \<Rightarrow> s\<lparr>fe_view := fleet_touch now ((fe_view s)\<lparr>fv_overview := Some o'\<rparr>)\<rparr>
              | Some (AttentionFrame a) \<Rightarrow> s\<lparr>fe_view := fleet_touch now ((fe_view s)\<lparr>fv_attention := Some a\<rparr>)\<rparr>)"

definition fleet_open :: "bool \<Rightarrow> fleet_feed \<Rightarrow> fleet_feed" where
  "fleet_open supported s =
     (if fe_disposed s \<or> \<not> supported then s
      else s\<lparr>fe_es := Some (fe_fresh s), fe_streams := fe_fresh s # fe_streams s, fe_fresh := Suc (fe_fresh s)\<rparr>)"

text \<open>\<open>setTimeout(openStream, backoff)\<close> and the doubling.\<close>

definition schedule_reconnect :: "fleet_feed \<Rightarrow> fleet_feed" where
  "schedule_reconnect s =
     s\<lparr>fe_reconnectTimer := Some (fe_fresh s), fe_timers := fe_fresh s # fe_timers s, fe_fresh := Suc (fe_fresh s),
       fe_backoff := min (fe_backoff s * 2) MAX_BACKOFF_MS\<rparr>"

definition fleet_close :: "fleet_feed \<Rightarrow> fleet_feed" where
  "fleet_close s = s\<lparr>fe_streams := remove_opt (fe_es s) (fe_streams s), fe_es := None\<rparr>"

definition fleet_error :: "fleet_feed \<Rightarrow> fleet_feed" where
  "fleet_error s =
     (let s = (fleet_close s)\<lparr>fe_sseHealthy := False\<rparr>
      in if fe_disposed s then s
         else schedule_reconnect (s\<lparr>fe_view := (fe_view s)\<lparr>fv_source := Poll\<rparr>\<rparr>))"

text \<open>The callback of the poll interval.\<close>

definition fleet_tick :: "bool \<Rightarrow> int \<Rightarrow> fleet_feed \<Rightarrow> fleet_feed" where
  "fleet_tick hidden now s =
     (if hidden then s
      else let s = (if fe_sseHealthy s \<and> fe_lastEventAt s > 0 \<and> now - fe_lastEventAt s > FLEET_WATCHDOG_MS
             then let s = (fleet_close (s\<lparr>fe_sseHealthy := False, fe_view := (fe_view s)\<lparr>fv_source := Poll\<rparr>\<rparr>));
                      s = s\<lparr>fe_timers := remove_opt (fe_reconnectTimer s) (fe_timers s)\<rparr>
                  in schedule_reconnect s
             else s)
           in if fe_sseHealthy s then s else fetch_start s)"

text \<open>The cleanup of the effect, and the effect itself.\<close>

definition fleet_dispose :: "fleet_feed \<Rightarrow> fleet_feed" where
  "fleet_dispose s =
     (let s = s\<lparr>fe_disposed := True, fe_streams := remove_opt (fe_es s) (fe_streams s)\<rparr>
      in s\<lparr>fe_timers := remove_opt (fe_reconnectTimer s) (fe_timers s), fe_pollTimer := False\<rparr>)"

definition fleet_effect :: "bool \<Rightarrow> bool \<Rightarrow> fleet_feed \<Rightarrow> fleet_feed" where
  "fleet_effect supported pollingActive s =
     (let s = s\<lparr>fe_active := pollingActive, fe_disposed := False, fe_es := None, fe_reconnectTimer := None,
            fe_pollTimer := False, fe_backoff := INITIAL_BACKOFF_MS, fe_sseHealthy := False, fe_lastEventAt := 0,
            fe_fetches := []\<rparr>;
          s = fetch_start s
      in if pollingActive then (fleet_open supported s)\<lparr>fe_pollTimer := True\<rparr> else s)"

definition fleet_init :: "bool \<Rightarrow> bool \<Rightarrow> fleet_feed" where
  "fleet_init supported pollingActive = fleet_effect supported pollingActive
     \<lparr>fe_view = \<lparr>fv_overview = None, fv_attention = None, fv_source = Poll, fv_updatedAt = 0, fv_error = [],
        fv_pollTicks = 0\<rparr>,
      fe_active = False, fe_disposed = True, fe_es = None, fe_reconnectTimer = None, fe_pollTimer = False,
      fe_backoff = INITIAL_BACKOFF_MS, fe_sseHealthy = False, fe_lastEventAt = 0, fe_streams = [], fe_timers = [],
      fe_fetches = [], fe_fresh = 0\<rparr>"

subsection \<open>Runs\<close>

text \<open>
  The runs, with the frames the streams have delivered so far: which stream, and when. \<open>Date.now()\<close> is positive.
\<close>

inductive fleet_run :: "bool \<Rightarrow> (nat \<times> int) list \<Rightarrow> fleet_feed \<Rightarrow> bool" for supported where
  mount: "fleet_run supported [] (fleet_init supported pollingActive)"
| rerun: "fleet_run supported h s \<Longrightarrow> fleet_run supported h (fleet_effect supported pollingActive (fleet_dispose s))"
| unmount: "fleet_run supported h s \<Longrightarrow> fleet_run supported h (fleet_dispose s)"
| frame: "fleet_run supported h s \<Longrightarrow> i \<in> set (fe_streams s) \<Longrightarrow> 0 < now \<Longrightarrow>
    fleet_run supported ((i, now) # h) (fleet_event now frame s)"
| fails: "fleet_run supported h s \<Longrightarrow> i \<in> set (fe_streams s) \<Longrightarrow> fleet_run supported h (fleet_error s)"
| fires: "fleet_run supported h s \<Longrightarrow> i \<in> set (fe_timers s) \<Longrightarrow>
    fleet_run supported h (fleet_open supported (s\<lparr>fe_timers := filter (\<lambda>j. j \<noteq> i) (fe_timers s)\<rparr>))"
| ticks: "fleet_run supported h s \<Longrightarrow> fe_pollTimer s \<Longrightarrow> fleet_run supported h (fleet_tick hidden now s)"
| fetched: "fleet_run supported h s \<Longrightarrow> i \<in> set (fe_fetches s) \<Longrightarrow>
    fleet_run supported h (fetch_end now ov att (s\<lparr>fe_fetches := filter (\<lambda>j. j \<noteq> i) (fe_fetches s)\<rparr>))"

text \<open>
  While it runs, the feed has either the stream it holds or a timer that will open one; disposed it has
  nothing.
\<close>

definition fleet_sane :: "bool \<Rightarrow> fleet_feed \<Rightarrow> bool" where
  "fleet_sane supported s \<longleftrightarrow>
     5000 \<le> fe_backoff s \<and> fe_backoff s \<le> 60000 \<and>
     (if fe_disposed s then fe_streams s = [] \<and> fe_timers s = [] \<and> \<not> fe_pollTimer s
      else (fe_pollTimer s \<longleftrightarrow> fe_active s) \<and> (fe_sseHealthy s \<longrightarrow> fe_es s \<noteq> None) \<and>
        (case fe_es s of
           Some i \<Rightarrow> fe_streams s = [i] \<and> fe_timers s = [] \<and> fe_active s \<and> supported
         | None \<Rightarrow> fe_streams s = [] \<and>
             (if fe_active s \<and> supported then \<exists>i. fe_timers s = [i] \<and> fe_reconnectTimer s = Some i else fe_timers s = [])))"

lemmas fleet_defs = fleet_open_def schedule_reconnect_def fleet_close_def remove_opt_def fetch_start_def

lemma sane_dispose: "fleet_sane supported s \<Longrightarrow> fleet_sane supported (fleet_dispose s)"
  by (cases "fe_es s"; cases "fe_disposed s"; cases "fe_active s \<and> supported")
    (auto simp: fleet_sane_def fleet_dispose_def remove_opt_def Let_def split: option.splits)

lemma dispose_clears: "fleet_sane supported s \<Longrightarrow> fe_streams (fleet_dispose s) = [] \<and> fe_timers (fleet_dispose s) = []"
  by (cases "fe_es s"; cases "fe_disposed s"; cases "fe_active s \<and> supported")
    (auto simp: fleet_sane_def fleet_dispose_def remove_opt_def Let_def split: option.splits)

lemma feed_sane_effect:
  "fe_streams s = [] \<Longrightarrow> fe_timers s = [] \<Longrightarrow> fleet_sane supported (fleet_effect supported active s)"
  by (auto simp: fleet_sane_def fleet_effect_def fleet_defs INITIAL_BACKOFF_MS_def Let_def)

text \<open>The fields the invariant does not read.\<close>

lemma sane_view: "fleet_sane supported (s\<lparr>fe_view := v\<rparr>) = fleet_sane supported s"
  by (simp add: fleet_sane_def cong: option.case_cong)

lemma sane_fetches: "fleet_sane supported (s\<lparr>fe_fetches := fs\<rparr>) = fleet_sane supported s"
  by (simp add: fleet_sane_def cong: option.case_cong)

lemma sane_fresh: "fleet_sane supported (s\<lparr>fe_fresh := n\<rparr>) = fleet_sane supported s"
  by (simp add: fleet_sane_def cong: option.case_cong)

lemma sane_fetch_start: "fleet_sane supported s \<Longrightarrow> fleet_sane supported (fetch_start s)"
  by (simp add: fetch_start_def sane_fresh sane_fetches)

lemma sane_stream:
  "fleet_sane supported s \<Longrightarrow> i \<in> set (fe_streams s) \<Longrightarrow>
   \<not> fe_disposed s \<and> fe_es s = Some i \<and> fe_streams s = [i] \<and> fe_timers s = [] \<and> fe_active s \<and> supported \<and>
   fe_pollTimer s \<and> 5000 \<le> fe_backoff s \<and> fe_backoff s \<le> 60000"
  by (cases "fe_es s") (auto simp: fleet_sane_def split: if_splits)

lemma sane_timer:
  "fleet_sane supported s \<Longrightarrow> i \<in> set (fe_timers s) \<Longrightarrow>
   \<not> fe_disposed s \<and> fe_es s = None \<and> fe_streams s = [] \<and> fe_timers s = [i] \<and> fe_active s \<and> supported \<and>
   fe_pollTimer s \<and> \<not> fe_sseHealthy s \<and> 5000 \<le> fe_backoff s \<and> fe_backoff s \<le> 60000"
  by (cases "fe_es s") (auto simp: fleet_sane_def split: if_splits)

lemma sane_healthy:
  "fleet_sane supported s \<Longrightarrow> fe_sseHealthy s \<Longrightarrow> fe_pollTimer s \<Longrightarrow> \<exists>i. i \<in> set (fe_streams s)"
  by (cases "fe_es s") (auto simp: fleet_sane_def split: if_splits)

lemma sane_event:
  assumes "fleet_sane supported s" "i \<in> set (fe_streams s)"
  shows "fleet_sane supported (fleet_event now frame s)"
  using sane_stream [OF assms] assms(1)
  by (cases frame; simp add: fleet_event_def fleet_sane_def INITIAL_BACKOFF_MS_def Let_def split: fleet_frame.split)

lemma sane_error:
  assumes "fleet_sane supported s" "i \<in> set (fe_streams s)"
  shows "fleet_sane supported (fleet_error s)"
  using sane_stream [OF assms] assms(1)
  by (auto simp: fleet_error_def fleet_sane_def fleet_defs MAX_BACKOFF_MS_def Let_def)

lemma sane_fires:
  assumes "fleet_sane supported s" "i \<in> set (fe_timers s)"
  shows "fleet_sane supported (fleet_open supported (s\<lparr>fe_timers := filter (\<lambda>j. j \<noteq> i) (fe_timers s)\<rparr>))"
  using sane_timer [OF assms] assms(1) by (auto simp: fleet_sane_def fleet_defs)

lemma sane_watchdog:
  assumes "fleet_sane supported s" "i \<in> set (fe_streams s)"
  shows "fleet_sane supported (schedule_reconnect
    (let t = fleet_close (s\<lparr>fe_sseHealthy := False, fe_view := v\<rparr>)
     in t\<lparr>fe_timers := remove_opt (fe_reconnectTimer t) (fe_timers t)\<rparr>))"
  using sane_stream [OF assms] assms(1)
  by (auto simp: fleet_sane_def fleet_defs MAX_BACKOFF_MS_def Let_def split: option.split)

lemma sane_tick:
  assumes "fleet_sane supported s" "fe_pollTimer s"
  shows "fleet_sane supported (fleet_tick hidden now s)"
proof (cases "fe_sseHealthy s")
  case True
  then obtain i where "i \<in> set (fe_streams s)" using assms sane_healthy by blast
  then show ?thesis using assms(1) sane_watchdog [OF assms(1), of i]
    by (simp add: fleet_tick_def Let_def sane_fetch_start)
next
  case False
  then show ?thesis using assms(1) by (simp add: fleet_tick_def sane_fetch_start)
qed

lemma sane_fetch_end: "fleet_sane supported s \<Longrightarrow> fleet_sane supported (fetch_end now ov att s)"
  by (simp add: fetch_end_def Let_def sane_view)

lemma run_sane: "fleet_run supported h s \<Longrightarrow> fleet_sane supported s"
proof (induction rule: fleet_run.induct)
  case (mount active)
  show ?case unfolding fleet_init_def by (rule feed_sane_effect) simp_all
next
  case (rerun h s active)
  then show ?case using dispose_clears by (blast intro: feed_sane_effect)
qed (auto intro: sane_dispose sane_event sane_error sane_fires sane_tick sane_fetch_end simp: sane_fetches)

text \<open>A feed that takes its stream for healthy has had a frame of the stream it holds, and knows when.\<close>

definition heard :: "(nat \<times> int) list \<Rightarrow> fleet_feed \<Rightarrow> bool" where
  "heard h s \<longleftrightarrow> (fe_sseHealthy s \<and> \<not> fe_disposed s \<longrightarrow>
     0 < fe_lastEventAt s \<and> (\<exists>i. fe_es s = Some i \<and> (i, fe_lastEventAt s) \<in> set h))"

lemma run_heard: "fleet_run supported h s \<Longrightarrow> heard h s"
proof (induction rule: fleet_run.induct)
  case (mount active)
  show ?case by (simp add: heard_def fleet_init_def fleet_effect_def fleet_defs Let_def)
next
  case (rerun h s active)
  show ?case by (simp add: heard_def fleet_effect_def fleet_defs Let_def)
next
  case (unmount h s)
  show ?case by (simp add: heard_def fleet_dispose_def Let_def)
next
  case (frame h s i now frame)
  then show ?case using sane_stream [OF run_sane [OF frame.hyps(1)] frame.hyps(2)]
    by (simp add: heard_def fleet_event_def Let_def split: option.split fleet_frame.split)
next
  case (fails h s i)
  show ?case by (simp add: heard_def fleet_error_def schedule_reconnect_def fleet_close_def Let_def)
next
  case (fires h s i)
  then show ?case using sane_timer [OF run_sane [OF fires.hyps(1)] fires.hyps(2)]
    by (simp add: heard_def fleet_open_def)
next
  case (ticks h s hidden now)
  then show ?case
    by (simp add: heard_def fleet_tick_def fetch_start_def schedule_reconnect_def fleet_close_def Let_def)
next
  case (fetched h s i now ov att)
  then show ?case by (simp add: heard_def fetch_end_def Let_def)
qed

subsection \<open>Properties\<close>

lemma sane_counts:
  "fleet_sane supported s \<Longrightarrow>
   length (fe_streams s) + length (fe_timers s) =
     (if \<not> fe_disposed s \<and> fe_active s \<and> supported then 1 else 0) \<and>
   5000 \<le> fe_backoff s \<and> fe_backoff s \<le> 60000"
  by (cases "fe_es s") (auto simp: fleet_sane_def split: if_splits)

text \<open>A visible tick of the poll timer fetches, unless the stream has delivered within the watchdog's minute.\<close>

lemma tick_fetches:
  assumes "fleet_run supported h s" "fe_pollTimer s"
  shows "length (fe_fetches (fleet_tick False now s)) = Suc (length (fe_fetches s)) \<or>
    (\<exists>i t. fe_streams s = [i] \<and> (i, t) \<in> set h \<and> now - t \<le> 60000)"
proof (cases "fe_sseHealthy s")
  case True
  have sane: "fleet_sane supported s" by (rule run_sane [OF assms(1)])
  obtain i where i: "i \<in> set (fe_streams s)" using sane_healthy [OF sane True assms(2)] by blast
  note open_stream = sane_stream [OF sane i]
  have "heard h s" by (rule run_heard [OF assms(1)])
  with True open_stream have h: "0 < fe_lastEventAt s" "(i, fe_lastEventAt s) \<in> set h" by (simp_all add: heard_def)
  show ?thesis
  proof (cases "now - fe_lastEventAt s \<le> 60000")
    case True
    with open_stream h show ?thesis by blast
  next
    case False
    with True h show ?thesis
      by (simp add: fleet_tick_def fetch_start_def schedule_reconnect_def fleet_close_def FLEET_WATCHDOG_MS_def Let_def)
  qed
next
  case False
  then show ?thesis by (simp add: fleet_tick_def fetch_start_def)
qed

text \<open>C7. The fleet screen is never without a source, nor with two. In every run of the feed, through effects
  that start again, frames, errors, time-outs, answers and the end of the component, exactly one of an open
  stream and a pending reconnect exists while the feed runs unpaused, neither when it is paused, disposed or the
  browser has no event stream, the reconnect delay stays within five seconds and a minute, and a visible tick of
  the poll timer starts a fetch unless the stream that is open has delivered a frame within the last minute.\<close>

theorem fleet_feed_has_one_source:
  assumes "fleet_run supported h s"
  shows "length (fe_streams s) + length (fe_timers s) =
      (if \<not> fe_disposed s \<and> fe_active s \<and> supported then 1 else 0) \<and>
    5000 \<le> fe_backoff s \<and> fe_backoff s \<le> 60000 \<and>
    (fe_pollTimer s \<longrightarrow>
      length (fe_fetches (fleet_tick False now s)) = Suc (length (fe_fetches s)) \<or>
      (\<exists>i t. fe_streams s = [i] \<and> (i, t) \<in> set h \<and> now - t \<le> 60000))"
  using sane_counts [OF run_sane [OF assms]] tick_fetches [OF assms, of now] by blast

definition sample_fleet :: fleet_feed where
  "sample_fleet = fleet_error (fleet_event 1000 None (fleet_init True True))"

lemma sample_fleet_run: "fleet_run True [(1, 1000)] sample_fleet"
  unfolding sample_fleet_def
proof (rule fleet_run.fails)
  show "fleet_run True [(1, 1000)] (fleet_event 1000 None (fleet_init True True))"
    by (rule fleet_run.frame [OF fleet_run.mount])
      (simp_all add: fleet_init_def fleet_effect_def fleet_defs Let_def)
  show "1 \<in> set (fe_streams (fleet_event 1000 None (fleet_init True True)))"
    by (simp add: fleet_init_def fleet_effect_def fleet_defs fleet_event_def Let_def)
qed

lemma sample_fleet_timer: "fe_timers sample_fleet = [2] \<and> fe_pollTimer sample_fleet"
  by (simp add: sample_fleet_def fleet_init_def fleet_effect_def fleet_defs fleet_event_def fleet_error_def Let_def)

theorem fleet_feed_has_one_source_witness:
  "fe_timers sample_fleet = [2] \<and> fe_streams sample_fleet = [] \<and> fe_backoff sample_fleet \<le> 60000 \<and>
   fe_fetches (fleet_tick False 2000 sample_fleet) \<noteq> fe_fetches sample_fleet"
  using fleet_feed_has_one_source [OF sample_fleet_run, of 2000] sample_fleet_timer
  by (auto split: if_splits)

text \<open>
  Two ways the hook is off. Pausing disposes the effect without touching the source it shows: a feed that
  delivered keeps saying \<open>live stream\<close> (\<open>FleetView.tsx\<close>) with no stream open. And an answer of a fetch is
  applied whenever it comes, so one asked before the stream's frame replaces the newer data of that frame.
\<close>

lemma paused_feed_claims_live:
  assumes "d = fleet_effect supported False (fleet_dispose (fleet_event now frame s))"
    and "fleet_run supported h s" "i \<in> set (fe_streams s)" "0 < now"
  shows "fv_source (fe_view d) = Sse" and "fe_streams d = []" and "fe_timers d = []" and "\<not> fe_pollTimer d"
proof -
  have run: "fleet_run supported ((i, now) # h) (fleet_event now frame s)" using assms(2-4) by (rule fleet_run.frame)
  have c: "fe_streams (fleet_dispose (fleet_event now frame s)) = []"
    "fe_timers (fleet_dispose (fleet_event now frame s)) = []"
    using dispose_clears [OF run_sane [OF run]] by simp_all
  have live: "\<not> fe_disposed s" using sane_stream [OF run_sane [OF assms(2)] assms(3)] by simp
  show "fv_source (fe_view d) = Sse" using live
    by (simp add: assms(1) fleet_effect_def fetch_start_def fleet_dispose_def fleet_event_def fleet_touch_def Let_def
        split: option.split fleet_frame.split)
  show "fe_streams d = []" "fe_timers d = []" "\<not> fe_pollTimer d"
    using c by (simp_all add: assms(1) fleet_effect_def fetch_start_def Let_def)
qed

lemma late_answer_replaces_frame:
  "\<not> fe_disposed s \<Longrightarrow>
   fv_overview (fe_view (fetch_end t (SFulfilled older) att (fleet_event now (Some (OverviewFrame newer)) s))) = Some older"
  by (cases att) (simp_all add: fetch_end_def fleet_event_def fleet_touch_def Let_def)

end
