(* ===== verification/JsonText.thy ===== *)
theory JsonText
  imports "HOL-Library.Multiset" Json Formats
begin

text \<open>
  \<open>JSON.stringify\<close>, with and without indentation, for the values \<open>JSON.parse\<close> returns, and the functions of
  \<open>src/ui/src/utils.ts\<close> that decide how a payload is shown. What is written is read back: every
  object with its members in the order \<open>Object.entries\<close> visits them.
\<close>

subsection \<open>Quoting\<close>

definition hex_lower :: "nat \<Rightarrow> nat" where
  "hex_lower d = (if d < 10 then 48 + d else 87 + d)"

text \<open>\<open>\uXXXX\<close>.\<close>

definition unicode_escape :: "nat \<Rightarrow> jstring" where
  "unicode_escape c =
     [92, 117, hex_lower (c div 4096), hex_lower (c div 256 mod 16), hex_lower (c div 16 mod 16), hex_lower (c mod 16)]"

definition quote_unit :: "nat \<Rightarrow> jstring" where
  "quote_unit c =
     (if c = 34 \<or> c = 92 then [92, c]
      else if c = 8 then [92, 98] else if c = 9 then [92, 116] else if c = 10 then [92, 110]
      else if c = 12 then [92, 102] else if c = 13 then [92, 114]
      else if c < 32 then unicode_escape c else [c])"

text \<open>A pair of surrogates stays; a lone one is escaped.\<close>

fun quote_units :: "jstring \<Rightarrow> jstring" where
  "quote_units [] = []"
| "quote_units (c # cs) =
     (if 0xD800 \<le> c \<and> c \<le> 0xDBFF
      then (case cs of
          d # ds \<Rightarrow> if 0xDC00 \<le> d \<and> d \<le> 0xDFFF then c # d # quote_units ds else unicode_escape c @ quote_units cs
        | [] \<Rightarrow> unicode_escape c)
      else if 0xDC00 \<le> c \<and> c \<le> 0xDFFF then unicode_escape c @ quote_units cs
      else quote_unit c @ quote_units cs)"

definition json_quote :: "jstring \<Rightarrow> jstring" where
  "json_quote s = 34 # quote_units s @ [34]"

subsection \<open>Values\<close>

text \<open>A number that is not finite is written \<open>null\<close>.\<close>

definition number_text :: "number \<Rightarrow> jstring" where
  "number_text n = (case n of Finite x \<Rightarrow> number_string n | _ \<Rightarrow> js ''null'')"

text \<open>The separators: nothing without a gap, else a line feed and the indentation.\<close>

definition line_break :: "nat \<Rightarrow> nat \<Rightarrow> jstring" where
  "line_break gap depth = (if gap = 0 then [] else 10 # replicate (gap * depth) 32)"

definition bracketed :: "nat \<Rightarrow> nat \<Rightarrow> nat \<Rightarrow> nat \<Rightarrow> jstring list \<Rightarrow> jstring" where
  "bracketed l r gap depth items =
     (if items = [] then [l, r]
      else [l] @ line_break gap (Suc depth) @ join (44 # line_break gap (Suc depth)) items @ line_break gap depth @ [r])"

primrec stringify :: "jvalue \<Rightarrow> nat \<Rightarrow> nat \<Rightarrow> jstring" where
  "stringify VNull gap depth = js ''null''"
| "stringify (VBool b) gap depth = (if b then js ''true'' else js ''false'')"
| "stringify (VNumber n) gap depth = number_text n"
| "stringify (VString s) gap depth = json_quote s"
| "stringify (VArray vs) gap depth =
     bracketed 91 93 gap depth (map (\<lambda>f. f gap (Suc depth)) (map stringify vs))"
| "stringify (VObject ms) gap depth =
     bracketed 123 125 gap depth
       (map (\<lambda>(k, f). json_quote k @ [58] @ (if gap = 0 then [] else [32]) @ f gap (Suc depth))
         (entries (map (map_prod id stringify) ms)))"

definition json_stringify :: "nat \<Rightarrow> jvalue \<Rightarrow> jstring" where
  "json_stringify gap v = stringify v gap 0"

text \<open>The value with the members of every object in the order they are written.\<close>

primrec canonical :: "jvalue \<Rightarrow> jvalue" where
  "canonical VNull = VNull"
| "canonical (VBool b) = VBool b"
| "canonical (VNumber n) = VNumber n"
| "canonical (VString s) = VString s"
| "canonical (VArray vs) = VArray (map canonical vs)"
| "canonical (VObject ms) = VObject (entries (map (map_prod id canonical) ms))"

subsection \<open>Payloads\<close>

definition isJsonPayload :: "jstring \<Rightarrow> bool" where
  "isJsonPayload p \<longleftrightarrow> json_parse p \<noteq> None"

definition prettifyPayload :: "jstring \<Rightarrow> jstring" where
  "prettifyPayload p = (case json_parse p of Some v \<Rightarrow> json_stringify 2 v | None \<Rightarrow> p)"

text \<open>The default equality of the frozen tables, on values that are JSON.\<close>

definition jsonEquals :: "jvalue \<Rightarrow> jvalue \<Rightarrow> bool" where
  "jsonEquals a b \<longleftrightarrow> json_stringify 0 a = json_stringify 0 b"

subsection \<open>Reading a quoted text\<close>

lemma digit_in_hex_lower: "d < 16 \<Longrightarrow> digit_in 16 (hex_lower d) = Some d"
  by (auto simp: digit_in_def hex_lower_def is_digit_def Let_def)

lemma digits_in_unicode:
  assumes "c < 0x10000"
  shows "digits_in 16 0 (drop 2 (unicode_escape c)) = Some c"
proof -
  have "c div 4096 < 16" using assms by simp
  moreover have "16 * (16 * (16 * (c div 4096) + c div 256 mod 16) + c div 16 mod 16) + c mod 16 = c"
    by (simp add: div_mult2_eq [of c 16 16, simplified] div_mult2_eq [of c 256 16, simplified])
  ultimately show ?thesis by (simp add: unicode_escape_def digit_in_hex_lower)
qed

lemma json_text_escaped:
  "json_escape cs = Some (x, r) \<Longrightarrow> json_text (92 # cs) = map_option (\<lambda>(s, r). (x # s, r)) (json_text r)"
  by (subst json_text.simps) simp

lemma json_text_unicode:
  assumes "c < 0x10000"
  shows "json_text (unicode_escape c @ r) = map_option (\<lambda>(s, r). (c # s, r)) (json_text r)"
proof -
  have u: "unicode_escape c @ r = 92 # 117 # drop 2 (unicode_escape c) @ r" by (simp add: unicode_escape_def)
  have "take 4 (drop 2 (unicode_escape c) @ r) = drop 2 (unicode_escape c)"
    "drop 4 (drop 2 (unicode_escape c) @ r) = r" by (simp_all add: unicode_escape_def)
  then have "json_escape (117 # drop 2 (unicode_escape c) @ r) = Some (c, r)"
    using digits_in_unicode [OF assms] by (simp add: json_escape_def) (simp add: unicode_escape_def)
  then show ?thesis unfolding u by (rule json_text_escaped)
qed

lemma json_text_plain:
  "32 \<le> c \<Longrightarrow> c \<noteq> 34 \<Longrightarrow> c \<noteq> 92 \<Longrightarrow> json_text (c # r) = map_option (\<lambda>(s, r). (c # s, r)) (json_text r)"
  by (subst json_text.simps) simp

lemma json_text_simple:
  "simple_escape e = Some x \<Longrightarrow> e \<noteq> 117 \<Longrightarrow> json_text (92 # e # r) = map_option (\<lambda>(s, r). (x # s, r)) (json_text r)"
  by (rule json_text_escaped) (simp add: json_escape_def)

lemma json_text_quote_unit:
  assumes "c < 0x10000"
  shows "json_text (quote_unit c @ r) = map_option (\<lambda>(s, r). (c # s, r)) (json_text r)"
proof (cases "c \<in> {34, 92, 8, 9, 10, 12, 13}")
  case True
  then show ?thesis
    by (auto simp: quote_unit_def json_text_simple simple_escape_def simp del: json_text.simps)
next
  case False
  then show ?thesis using assms
    by (simp add: quote_unit_def json_text_unicode json_text_plain del: json_text.simps)
qed

lemma json_text_quoted:
  "list_all (\<lambda>c. c < 0x10000) s \<Longrightarrow> json_text (quote_units s @ 34 # r) = Some (s, r)"
proof (induction s rule: quote_units.induct)
  case 1
  then show ?case by simp
next
  case (2 c cs)
  show ?case
  proof (cases "0xD800 \<le> c \<and> c \<le> 0xDBFF")
    case high: True
    show ?thesis
    proof (cases cs)
      case Nil
      with 2(5) high show ?thesis by (simp add: json_text_unicode del: json_text.simps) (simp add: json_text.simps)
    next
      case (Cons d ds)
      show ?thesis
      proof (cases "0xDC00 \<le> d \<and> d \<le> 0xDFFF")
        case True
        with 2(1) [OF high Cons True] 2(5) high Cons show ?thesis
          by (simp add: json_text_plain del: json_text.simps)
      next
        case False
        with 2(2) [OF high Cons False] 2(5) high Cons show ?thesis
          by (auto simp: json_text_unicode quote_units.simps(2) [of c] simp del: json_text.simps quote_units.simps(2))
      qed
    qed
  next
    case False
    with 2 show ?thesis
      by (cases "0xDC00 \<le> c \<and> c \<le> 0xDFFF")
        (auto simp: json_text_unicode json_text_quote_unit simp del: json_text.simps)
  qed
qed

subsection \<open>Reading a written value\<close>

lemma tokens_ws: "json_ws c \<Longrightarrow> json_tokens (c # r) = json_tokens r"
  by (subst json_tokens.simps) simp

lemma tokens_spaces: "json_tokens (replicate n 32 @ r) = json_tokens r"
  by (induction n) (simp_all add: tokens_ws json_ws_def del: json_tokens.simps)

lemma tokens_break: "json_tokens (line_break gap depth @ r) = json_tokens r"
  by (simp add: line_break_def tokens_spaces tokens_ws [of 10] json_ws_def del: json_tokens.simps)

lemma tokens_punct:
  "c \<in> {91, 93, 123, 125, 44, 58} \<Longrightarrow> json_tokens (c # r) = map_option (Cons (TPunct c)) (json_tokens r)"
  by (subst json_tokens.simps) (auto simp: json_ws_def)

lemma tokens_quote:
  "list_all (\<lambda>c. c < 0x10000) s \<Longrightarrow> json_tokens (json_quote s @ r) = map_option (Cons (TText s)) (json_tokens r)"
  by (subst json_quote_def, simp only: append.simps append_assoc, subst json_tokens.simps)
    (simp add: json_ws_def json_text_quoted)

definition ends_atom :: "jstring \<Rightarrow> bool" where
  "ends_atom r \<longleftrightarrow> r = [] \<or> \<not> atom_char (hd r)"

lemma tokens_atom:
  assumes "json_atom s = Some v" "s \<noteq> []" "list_all atom_char s" "ends_atom r"
  shows "json_tokens (s @ r) = map_option (Cons (TAtom v)) (json_tokens r)"
proof -
  obtain c cs where s: "s = c # cs" using assms(2) by (cases s) auto
  have rest: "takeWhile atom_char r = []" "dropWhile atom_char r = r"
    using assms(4) by (cases r; simp add: ends_atom_def)+
  from assms(3) s have "takeWhile atom_char (s @ r) = s" "dropWhile atom_char (cs @ r) = r"
    by (simp_all add: list_all_iff takeWhile_append2 dropWhile_append2 rest)
  moreover have "atom_char c" using assms(3) s by simp
  moreover from this have "\<not> json_ws c" "c \<notin> {91, 93, 123, 125, 44, 58}" "c \<noteq> 34"
    by (auto simp: atom_char_def json_ws_def is_digit_def)
  ultimately show ?thesis using assms(1) unfolding s append.simps by (subst json_tokens.simps) auto
qed

lemma tokens_items:
  assumes "xs \<noteq> []"
    and "\<And>x r. x \<in> set xs \<Longrightarrow> ends_atom r \<Longrightarrow> json_tokens (tx x @ r) = map_option ((@) (tk x)) (json_tokens r)"
    and "ends_atom r"
  shows "json_tokens (join (44 # line_break gap depth) (map tx xs) @ r) =
    map_option ((@) (with_commas (map tk xs))) (json_tokens r)"
  using assms
proof (induction xs rule: list_nonempty_induct)
  case (single x)
  then show ?case by simp
next
  case (cons x xs)
  have "ends_atom (44 # s)" for s by (simp add: ends_atom_def atom_char_def is_digit_def)
  with cons.prems cons.IH cons.hyps show ?case
    by (cases xs) (simp_all add: tokens_punct tokens_break option.map_comp comp_def del: json_tokens.simps)
qed

lemma tokens_bracketed:
  assumes "\<And>x r. x \<in> set xs \<Longrightarrow> ends_atom r \<Longrightarrow> json_tokens (tx x @ r) = map_option ((@) (tk x)) (json_tokens r)"
    and "(a, b) \<in> {(91, 93), (123, 125)}"
  shows "json_tokens (bracketed a b gap depth (map tx xs) @ r) =
    map_option ((@) (TPunct a # with_commas (map tk xs) @ [TPunct b])) (json_tokens r)"
proof -
  have p: "json_tokens (a # s) = map_option (Cons (TPunct a)) (json_tokens s)"
    "json_tokens (b # s) = map_option (Cons (TPunct b)) (json_tokens s)" for s
    using assms(2) by (auto intro: tokens_punct simp del: json_tokens.simps)
  show ?thesis
  proof (cases "xs = []")
    case True
    then show ?thesis
      by (cases "json_tokens r") (simp_all add: bracketed_def p del: json_tokens.simps)
  next
    case False
    have "ends_atom (line_break gap depth @ b # r)"
      using assms(2) by (auto simp: ends_atom_def line_break_def atom_char_def is_digit_def)
    then have "json_tokens (join (44 # line_break gap (Suc depth)) (map tx xs) @ line_break gap depth @ b # r) =
        map_option ((@) (with_commas (map tk xs))) (json_tokens (line_break gap depth @ b # r))"
      by (intro tokens_items [OF False] assms(1))
    with False show ?thesis
      by (cases "json_tokens r") (simp_all add: bracketed_def p tokens_break del: json_tokens.simps)
  qed
qed

subsection \<open>The round trip\<close>

lemma insort_key_map: "insort_key k (f x) (map f xs) = map f (insort_key (k \<circ> f) x xs)"
  by (induction xs) auto

lemma sort_key_map: "sort_key k (map f xs) = map f (sort_key (k \<circ> f) xs)"
  by (induction xs) (simp_all add: insort_key_map comp_def)

lemma entries_map: "entries (map (map_prod id f) ms) = map (map_prod id f) (entries ms)"
  by (simp add: entries_def filter_map comp_def sort_key_map)

lemma mset_entries: "mset (entries ms) = mset ms"
  using multiset_partition [of "mset ms" "\<lambda>m. index_name (fst m)"] by (simp add: entries_def)

lemma set_entries [simp]: "set (entries ms) = set ms"
  using mset_entries [of ms] by (rule mset_eq_setD)

lemma distinct_entries: "distinct (map fst (entries ms)) \<longleftrightarrow> distinct (map fst ms)"
  by (rule mset_eq_imp_distinct_iff) (simp add: mset_entries)

lemma entries_entries [simp]: "entries (entries ms) = entries ms"
  by (simp add: entries_def filter_sort [symmetric] sort_key_id_if_sorted)

text \<open>What is needed of a value to be read back: strings of code units, names once, numbers whose text gives the number.\<close>

definition number_reads :: "number \<Rightarrow> bool" where
  "number_reads n \<longleftrightarrow> number_text n \<noteq> [] \<and> list_all atom_char (number_text n) \<and> json_atom (number_text n) = Some (VNumber n)"

abbreviation units :: "jstring \<Rightarrow> bool" where
  "units s \<equiv> list_all (\<lambda>c. c < 0x10000) s"

primrec well_shaped :: "jvalue \<Rightarrow> bool" where
  "well_shaped VNull = True"
| "well_shaped (VBool b) = True"
| "well_shaped (VNumber n) = True"
| "well_shaped (VString s) = units s"
| "well_shaped (VArray vs) = list_all id (map well_shaped vs)"
| "well_shaped (VObject ms) =
     (distinct (map fst ms) \<and> list_all (\<lambda>(k, b). units k \<and> b) (map (map_prod id well_shaped) ms))"

primrec numbers_read :: "jvalue \<Rightarrow> bool" where
  "numbers_read VNull = True"
| "numbers_read (VBool b) = True"
| "numbers_read (VNumber n) = number_reads n"
| "numbers_read (VString s) = True"
| "numbers_read (VArray vs) = list_all id (map numbers_read vs)"
| "numbers_read (VObject ms) = list_all snd (map (map_prod id numbers_read) ms)"

lemma member_induct [case_names null bool number string array object]:
  assumes "P VNull" "\<And>b. P (VBool b)" "\<And>n. P (VNumber n)" "\<And>s. P (VString s)"
    and "\<And>vs. (\<And>v. v \<in> set vs \<Longrightarrow> P v) \<Longrightarrow> P (VArray vs)"
    and "\<And>ms. (\<And>k v. (k, v) \<in> set ms \<Longrightarrow> P v) \<Longrightarrow> P (VObject ms)"
  shows "P v"
proof (induction v)
  case (VObject ms)
  have "P v" if "(k, v) \<in> set ms" for k v by (rule VObject [OF that]) (simp add: snds.simps)
  then show ?case by (rule assms(6))
qed (use assms in auto)

lemma stringify_tokens:
  "well_shaped v \<Longrightarrow> numbers_read v \<Longrightarrow> ends_atom r \<Longrightarrow>
   json_tokens (stringify v gap depth @ r) = map_option ((@) (written (canonical v))) (json_tokens r)"
proof (induction v arbitrary: gap depth r rule: member_induct)
  case null
  then show ?case
    using tokens_atom [of "js ''null''" VNull r] by (simp add: json_atom_def atom_char_def js_def del: json_tokens.simps)
next
  case (bool b)
  then show ?case
    using tokens_atom [of "js ''true''" "VBool True" r] tokens_atom [of "js ''false''" "VBool False" r]
    by (cases b) (simp_all add: json_atom_def atom_char_def js_def del: json_tokens.simps)
next
  case (number n)
  then show ?case
    using tokens_atom [of "number_text n" "VNumber n" r] by (simp add: number_reads_def comp_def del: json_tokens.simps)
next
  case (string s)
  then show ?case by (simp add: tokens_quote del: json_tokens.simps)
next
  case (array vs)
  have "json_tokens (stringify v gap (Suc depth) @ r) = map_option ((@) (written (canonical v))) (json_tokens r)"
    if "v \<in> set vs" "ends_atom r" for v r
    using array.IH [OF that(1)] array.prems that by (simp add: list_all_iff)
  from tokens_bracketed [where xs = vs and tx = "\<lambda>v. stringify v gap (Suc depth)" and
      tk = "\<lambda>v. written (canonical v)" and a = 91 and b = 93, OF this]
  show ?case by (cases "json_tokens r") (simp_all add: comp_def del: json_tokens.simps)
next
  case (object ms)
  let ?tx = "\<lambda>(k, v). json_quote k @ [58] @ (if gap = 0 then [] else [32]) @ stringify v gap (Suc depth)"
  let ?tk = "\<lambda>(k, v). TText k # TPunct 58 # written (canonical v)"
  have "json_tokens (?tx x @ r) = map_option ((@) (?tk x)) (json_tokens r)"
    if x: "x \<in> set (entries ms)" "ends_atom r" for x r
  proof -
    obtain k v where kv: "x = (k, v)" by (cases x)
    with x object.prems have "units k" "well_shaped v" "numbers_read v" "(k, v) \<in> set ms"
      by (auto simp: list_all_iff)
    with object.IH [of k v r gap "Suc depth"] x(2) show ?thesis unfolding kv
      by (cases "json_tokens r"; cases "gap = 0")
        (simp_all add: tokens_quote tokens_punct tokens_ws json_ws_def del: json_tokens.simps)
  qed
  moreover have "(123 :: nat, 125 :: nat) \<in> {(91, 93), (123, 125)}" by simp
  ultimately have read: "json_tokens (bracketed 123 125 gap depth (map ?tx (entries ms)) @ r) =
      map_option ((@) (TPunct 123 # with_commas (map ?tk (entries ms)) @ [TPunct 125])) (json_tokens r)"
    by (rule tokens_bracketed [where xs = "entries ms" and tx = ?tx and tk = ?tk and a = 123 and b = 125])
  have "stringify (VObject ms) gap depth = bracketed 123 125 gap depth (map ?tx (entries ms))"
    by (simp add: entries_map comp_def case_prod_unfold)
  moreover have "written (canonical (VObject ms)) = TPunct 123 # with_commas (map ?tk (entries ms)) @ [TPunct 125]"
    by (simp add: entries_map comp_def case_prod_unfold)
  ultimately show ?case by (simp only:) (rule read)
qed

lemma distinct_names_canonical: "well_shaped v \<Longrightarrow> distinct_names (canonical v)"
  by (induction v rule: member_induct) (auto simp: list_all_iff entries_map distinct_entries comp_def split_beta)

lemma stringify_reads_back:
  assumes "well_shaped v" "numbers_read v"
  shows "json_parse (json_stringify gap v) = Some (canonical v)"
proof -
  have "json_tokens (json_stringify gap v) = Some (written (canonical v))"
    using stringify_tokens [OF assms, of "[]" gap 0] by (simp add: json_stringify_def ends_atom_def)
  then show ?thesis
    using json_reads_back [OF distinct_names_canonical [OF assms(1)], of "[]" "[]" False]
    by (simp add: json_parse_def)
qed

lemma stringify_canonical: "stringify (canonical v) = stringify v"
proof (induction v rule: member_induct)
  case (array vs)
  then have "map stringify (map canonical vs) = map stringify vs" by simp
  then show ?case by (simp only: canonical.simps stringify.simps fun_eq_iff) simp
next
  case (object ms)
  then have "map (map_prod id stringify) (map (map_prod id canonical) (entries ms)) = map (map_prod id stringify) (entries ms)"
    by auto
  then have "entries (map (map_prod id stringify) (entries (map (map_prod id canonical) ms))) =
      entries (map (map_prod id stringify) ms)"
    by (simp only: entries_map entries_entries)
  then show ?case by (simp add: fun_eq_iff)
qed simp_all

subsection \<open>What the parser gives\<close>

text \<open>The values, names and texts the machine holds; the invariant of its run.\<close>

primrec good_frame :: "frame \<Rightarrow> bool" where
  "good_frame (InArray vs) = list_all well_shaped vs"
| "good_frame (InObject ms k) = (well_shaped (VObject ms) \<and> units k)"

primrec good_expect :: "expect \<Rightarrow> bool" where
  "good_expect (Value b) = True"
| "good_expect (Name ms b) = well_shaped (VObject ms)"
| "good_expect (Colon ms k) = (well_shaped (VObject ms) \<and> units k)"
| "good_expect (After v) = well_shaped v"

primrec good_token :: "jtoken \<Rightarrow> bool" where
  "good_token (TPunct c) = True"
| "good_token (TText s) = units s"
| "good_token (TAtom v) = well_shaped v"

definition good_machine :: "machine \<Rightarrow> bool" where
  "good_machine m \<longleftrightarrow> list_all good_frame (fst m) \<and> good_expect (snd m)"

lemma well_shaped_object:
  "well_shaped (VObject ms) \<longleftrightarrow> distinct (map fst ms) \<and> (\<forall>m \<in> set ms. units (fst m) \<and> well_shaped (snd m))"
  by (auto simp: list_all_iff)

lemma put_member_names: "map fst (put_member m ms) = (if fst m \<in> fst ` set ms then map fst ms else map fst ms @ [fst m])"
  by (auto simp: put_member_def)

lemma well_shaped_put:
  "well_shaped (VObject ms) \<Longrightarrow> units k \<Longrightarrow> well_shaped v \<Longrightarrow> well_shaped (VObject (put_member (k, v) ms))"
  unfolding well_shaped_object put_member_names by (auto simp: put_member_def)

lemma good_step:
  assumes "good_machine m" "good_token t" "json_step t m = Some m'"
  shows "good_machine m'"
proof -
  obtain fs e where m: "m = (fs, e)" by (cases m)
  show ?thesis
  proof (cases e)
    case (After v)
    with assms m show ?thesis
      by (auto simp: good_machine_def json_step_def after_punct_def well_shaped_put list_all_iff
          simp del: well_shaped.simps(6) split: jtoken.splits list.splits frame.splits if_splits)
  qed (use assms m in \<open>auto simp: good_machine_def json_step_def value_punct_def
      split: jtoken.splits list.splits frame.splits if_splits\<close>)
qed

lemma good_run: "json_run ts m = Some m' \<Longrightarrow> good_machine m \<Longrightarrow> list_all good_token ts \<Longrightarrow> good_machine m'"
  by (induction ts arbitrary: m) (auto dest: good_step split: option.splits)

lemma digits_in_bound: "digits_in 16 n cs = Some x \<Longrightarrow> x < 16 ^ length cs * (n + 1)"
proof (induction cs arbitrary: n)
  case (Cons c cs)
  then obtain d where d: "digit_in 16 c = Some d" "digits_in 16 (16 * n + d) cs = Some x"
    by (auto split: option.splits)
  then have "d < 16" by (auto simp: digit_in_def Let_def split: if_splits)
  then have "16 * n + d + 1 \<le> 16 * (n + 1)" by simp
  then have "16 ^ length cs * (16 * n + d + 1) \<le> 16 ^ length cs * (16 * (n + 1))" by (rule mult_le_mono2)
  moreover have "16 ^ length (c # cs) * (n + 1) = 16 ^ length cs * (16 * (n + 1))"
    by (simp add: algebra_simps)
  ultimately show ?case using Cons.IH [OF d(2)] by linarith
qed simp

lemma json_escape_unit:
  assumes "json_escape cs = Some (x, r)"
  shows "x < 0x10000"
proof -
  have "x < 0x10000" if "digits_in 16 0 (take 4 s) = Some x" "\<not> length s < 4" for s
    using digits_in_bound [OF that(1)] that(2) by simp
  with assms show ?thesis
    by (auto simp: json_escape_def simple_escape_def split: list.splits if_splits)
qed

lemma json_escape_rest: "json_escape cs = Some (x, r) \<Longrightarrow> units cs \<Longrightarrow> units r"
  by (auto simp: json_escape_def list_all_iff dest: in_set_dropD split: list.splits if_splits)

lemma json_text_units: "json_text cs = Some (s, r) \<Longrightarrow> units cs \<Longrightarrow> units s \<and> units r"
proof (induction cs arbitrary: s r rule: json_text.induct)
  case (2 c cs)
  show ?case
  proof (cases "c = 92")
    case True
    then obtain x r1 s1 where e: "json_escape cs = Some (x, r1)" "json_text r1 = Some (s1, r)" "s = x # s1"
      using 2(3) by (auto split: option.splits)
    have "units r1" using json_escape_rest [OF e(1)] 2(4) by simp
    with True 2(1) [OF _ _ _ e(1)] e json_escape_unit [OF e(1)] show ?thesis by auto
  next
    case False
    with 2(2-4) show ?thesis by (fastforce split: if_splits)
  qed
qed simp

lemma good_tokens: "json_tokens cs = Some ts \<Longrightarrow> units cs \<Longrightarrow> list_all good_token ts"
proof (induction cs arbitrary: ts rule: json_tokens.induct)
  case (2 c cs)
  have atom: "good_token (TAtom v)" if "json_atom s = Some v" for s v
    using that by (auto simp: json_atom_def split: if_splits)
  have drop: "units (dropWhile p cs)" for p
    using 2(6) by (auto simp: list_all_iff dest: set_dropWhileD)
  consider "json_ws c" | "\<not> json_ws c" "c \<in> {91, 93, 123, 125, 44, 58}" | "\<not> json_ws c" "c = 34"
    | "\<not> json_ws c" "c \<notin> {91, 93, 123, 125, 44, 58}" "c \<noteq> 34" by blast
  then show ?case
  proof cases
    case 1
    with 2 show ?thesis by simp
  next
    case 2
    with "2.IH"(2) "2.prems" show ?thesis by auto
  next
    case 3
    with "2.prems" obtain s r ts' where t: "json_text cs = Some (s, r)" "json_tokens r = Some ts'" "ts = TText s # ts'"
      by (auto split: option.splits)
    from t(1) "2.prems" have "units s" "units r" using json_text_units by auto
    with 3 t "2.IH"(3) [of "(s, r)" s r] show ?thesis by auto
  next
    case 4
    with "2.prems" obtain v ts' where t: "json_atom (takeWhile atom_char (c # cs)) = Some v" "atom_char c"
      "json_tokens (dropWhile atom_char cs) = Some ts'" "ts = TAtom v # ts'"
      by (auto split: option.splits if_splits)
    with 4 "2.IH"(4) [of v] drop atom show ?thesis by auto
  qed
qed simp

lemma json_parse_well_shaped:
  assumes "json_parse p = Some v" "units p"
  shows "well_shaped v"
proof -
  from assms(1) obtain ts where ts: "json_tokens p = Some ts" "json_run ts ([], Value False) = Some ([], After v)"
    by (auto simp: json_parse_def split: option.splits list.splits expect.splits prod.splits)
  from good_run [OF ts(2)] good_tokens [OF ts(1) assms(2)] show ?thesis by (simp add: good_machine_def)
qed

text \<open>C35. A payload whose numbers are ones whose text gives them back (not \<open>-0\<close> and none beyond the doubles, see
  \<open>prettify_confuses_numbers\<close>) is shown as what it is: what \<open>prettifyPayload\<close> prints parses to the value the payload
  parses to, its members in the order \<open>Object.entries\<close> gives; printing it again changes nothing; and a payload
  that is not JSON is shown as it stands.\<close>

theorem prettify_keeps_value:
  assumes "units p" and "\<And>v. json_parse p = Some v \<Longrightarrow> numbers_read v"
  shows "json_parse (prettifyPayload p) = map_option canonical (json_parse p) \<and>
    prettifyPayload (prettifyPayload p) = prettifyPayload p \<and>
    (isJsonPayload (prettifyPayload p) \<longleftrightarrow> isJsonPayload p) \<and>
    (\<not> isJsonPayload p \<longrightarrow> prettifyPayload p = p)"
proof (cases "json_parse p")
  case None
  then show ?thesis by (simp add: prettifyPayload_def isJsonPayload_def)
next
  case (Some v)
  with stringify_reads_back [OF json_parse_well_shaped [OF Some assms(1)] assms(2) [OF Some], of 2]
  show ?thesis
    by (simp add: prettifyPayload_def isJsonPayload_def json_stringify_def stringify_canonical)
qed

lemma number_zero: "js_number [48] = Finite 0"
  using js_number_nat [of 0] by (simp add: js_of_nat.simps js_def)

lemma zero_reads: "number_reads (Finite 0)"
proof -
  show ?thesis using number_zero
    by (simp add: number_reads_def number_text_def number_string_def json_atom_def json_number_def exponent_part_def
        atom_char_def is_digit_def js_def)
qed

text \<open>\<open>{"b":0,"7":[null]}\<close>: the index comes first.\<close>

definition sample_json :: jstring where
  "sample_json = js ''{'' @ [34] @ js ''b'' @ [34] @ js '':0,'' @ [34] @ js ''7'' @ [34] @ js '':[null]}''"

lemma sample_json_value: "json_parse sample_json = Some (VObject [(js ''b'', VNumber (Finite 0)), (js ''7'', VArray [VNull])])"
  using number_zero
  by (simp add: sample_json_def json_parse_def json_ws_def atom_char_def is_digit_def json_atom_def json_number_def
      exponent_part_def json_step_def value_punct_def after_punct_def put_member_def js_def)

lemma prettify_keeps_value_witness:
  "json_parse (prettifyPayload sample_json) =
     Some (VObject [(js ''7'', VArray [VNull]), (js ''b'', VNumber (Finite 0))])"
proof -
  have u: "units sample_json" by (simp add: sample_json_def js_def)
  have "numbers_read v" if "json_parse sample_json = Some v" for v
    using that zero_reads by (auto simp: sample_json_value)
  then have "json_parse (prettifyPayload sample_json) = map_option canonical (json_parse sample_json)"
    using prettify_keeps_value [OF u, THEN conjunct1] by blast
  moreover have "canonical (VObject [(js ''b'', VNumber (Finite 0)), (js ''7'', VArray [VNull])]) =
      VObject [(js ''7'', VArray [VNull]), (js ''b'', VNumber (Finite 0))]"
    by (simp add: entries_def index_name_def is_digit_def digits_value_def js_def)
  ultimately show ?thesis by (simp add: sample_json_value)
qed

text \<open>
  A number that is not exactly a double is shown as another one: two payloads that differ in the last digit
  of an identifier look the same.
\<close>

lemma floorlog_between: "2 ^ k \<le> n \<Longrightarrow> n < 2 ^ Suc k \<Longrightarrow> floorlog 2 n = Suc k"
  by (rule antisym) (auto intro!: floorlog_leI floorlog_geI)

lemma round_double_past_53:
  "round_double 9007199254740993 = Finite 9007199254740992" "round_double 9007199254740992 = Finite 9007199254740992"
proof -
  have f: "floorlog 2 (9007199254740993 :: nat) = 54" "floorlog 2 (9007199254740992 :: nat) = 54"
    using floorlog_between [of 53 9007199254740993] floorlog_between [of 53 9007199254740992] by simp_all
  have b: "binade 9007199254740993 = 53" "binade 9007199254740992 = 53"
    using binade_nat [of 9007199254740993] binade_nat [of 9007199254740992] f by simp_all
  have "\<lfloor>9007199254740993 / 2 :: rat\<rfloor> = 4503599627370496" by (rule floor_unique) simp_all
  then show "round_double 9007199254740993 = Finite 9007199254740992" "round_double 9007199254740992 = Finite 9007199254740992"
    by (simp_all add: round_double_def b round_half_even_def Let_def)
qed

lemma prettify_confuses_numbers:
  "prettifyPayload (js ''9007199254740993'') = prettifyPayload (js ''9007199254740992'')"
proof -
  have "json_parse (js ''9007199254740993'') = json_parse (js ''9007199254740992'')"
    by (simp add: json_parse_def json_ws_def atom_char_def is_digit_def json_atom_def json_number_def js_number_def
        unsigned_number_def decimal_literal_def exponent_part_def digits_value_def json_step_def round_double_past_53
        trim_def trim_start_def is_ws_def js_def)
  moreover have "json_parse (js ''9007199254740993'') \<noteq> None"
    by (simp add: json_parse_def json_ws_def atom_char_def is_digit_def json_atom_def json_number_def js_number_def
        unsigned_number_def decimal_literal_def exponent_part_def digits_value_def json_step_def round_double_past_53
        trim_def trim_start_def is_ws_def js_def)
  ultimately show ?thesis by (auto simp: prettifyPayload_def)
qed

end
