(* ===== verification/Base64.thy ===== *)
theory Base64
  imports JsonText Requests
begin

text \<open>
  \<open>src/ui/src/lib/base64.ts\<close>: finding base64 texts in a payload, in four layers: the shape of the text, the classes
  of its characters, strict UTF-8 without control characters, and a mark of real text. Whether a code
  point is Unicode punctuation (\<open>\p{P}\<close>) is the parameter \<open>is_punct\<close>. Next to the decoder stands the
  standard encoder, the specification it is compared with.
\<close>

subsection \<open>Sextets\<close>

definition upper :: "nat \<Rightarrow> bool" where
  "upper c \<longleftrightarrow> 65 \<le> c \<and> c \<le> 90"

definition lower :: "nat \<Rightarrow> bool" where
  "lower c \<longleftrightarrow> 97 \<le> c \<and> c \<le> 122"

text \<open>The value of a character of the standard alphabet.\<close>

definition sextet :: "nat \<Rightarrow> nat option" where
  "sextet c =
     (if upper c then Some (c - 65) else if lower c then Some (c - 71) else if is_digit c then Some (c + 4)
      else if c = 43 then Some 62 else if c = 47 then Some 63 else None)"

definition sextet_char :: "nat \<Rightarrow> nat" where
  "sextet_char v =
     (if v < 26 then 65 + v else if v < 52 then 71 + v else if v < 62 then v - 4 else if v = 62 then 43 else 47)"

text \<open>\<open>atob\<close> of a padded text in groups of four, without white space.\<close>

definition group_bytes :: "nat \<Rightarrow> nat \<Rightarrow> nat \<Rightarrow> nat \<Rightarrow> nat list" where
  "group_bytes a b c d = [a * 4 + b div 16, b mod 16 * 16 + c div 4, c mod 4 * 64 + d]"

fun atob :: "jstring \<Rightarrow> nat list option" where
  "atob [] = Some []"
| "atob [a, b, c, d] =
     (case (sextet a, sextet b) of
        (Some x, Some y) \<Rightarrow>
          if d = 61
          then (if c = 61 then Some (take 1 (group_bytes x y 0 0))
                else map_option (\<lambda>z. take 2 (group_bytes x y z 0)) (sextet c))
          else (case (sextet c, sextet d) of (Some z, Some w) \<Rightarrow> Some (group_bytes x y z w) | _ \<Rightarrow> None)
      | _ \<Rightarrow> None)"
| "atob (a # b # c # d # e # r) =
     (case (sextet a, sextet b, sextet c, sextet d) of
        (Some x, Some y, Some z, Some w) \<Rightarrow> map_option ((@) (group_bytes x y z w)) (atob (e # r))
      | _ \<Rightarrow> None)"
| "atob _ = None"

text \<open>The encoder of the standard.\<close>

fun btoa :: "nat list \<Rightarrow> jstring" where
  "btoa [] = []"
| "btoa [x] = map sextet_char [x div 4, x mod 4 * 16] @ [61, 61]"
| "btoa [x, y] = map sextet_char [x div 4, x mod 4 * 16 + y div 16, y mod 16 * 4] @ [61]"
| "btoa (x # y # z # r) =
     map sextet_char [x div 4, x mod 4 * 16 + y div 16, y mod 16 * 4 + z div 64, z mod 64] @ btoa r"

subsection \<open>Strict UTF-8\<close>

definition continuation :: "nat \<Rightarrow> bool" where
  "continuation b \<longleftrightarrow> 0x80 \<le> b \<and> b < 0xC0"

text \<open>The code points, \<open>None\<close> for an ill-formed sequence: no overlong form, no surrogate, nothing above U+10FFFF.\<close>

fun utf8_strict :: "nat list \<Rightarrow> nat list option" where
  "utf8_strict [] = Some []"
| "utf8_strict (b # bs) =
     (if b < 0x80 then map_option (Cons b) (utf8_strict bs)
      else if 0xC2 \<le> b \<and> b < 0xE0
      then (case bs of
          c # r \<Rightarrow> if continuation c then map_option (Cons ((b - 0xC0) * 0x40 + (c - 0x80))) (utf8_strict r) else None
        | _ \<Rightarrow> None)
      else if 0xE0 \<le> b \<and> b < 0xF0
      then (case bs of
          c # d # r \<Rightarrow>
            (let p = (b - 0xE0) * 0x1000 + (c - 0x80) * 0x40 + (d - 0x80)
             in if continuation c \<and> continuation d \<and> 0x800 \<le> p \<and> \<not> (0xD800 \<le> p \<and> p < 0xE000)
                then map_option (Cons p) (utf8_strict r) else None)
        | _ \<Rightarrow> None)
      else if 0xF0 \<le> b \<and> b < 0xF5
      then (case bs of
          c # d # e # r \<Rightarrow>
            (let p = (b - 0xF0) * 0x40000 + (c - 0x80) * 0x1000 + (d - 0x80) * 0x40 + (e - 0x80)
             in if continuation c \<and> continuation d \<and> continuation e \<and> 0x10000 \<le> p \<and> p < 0x110000
                then map_option (Cons p) (utf8_strict r) else None)
        | _ \<Rightarrow> None)
      else None)"

text \<open>\<open>new TextDecoder("utf-8", { fatal: true }).decode\<close>: a byte order mark at the start is dropped.\<close>

definition text_decode :: "nat list \<Rightarrow> nat list option" where
  "text_decode bytes = map_option (\<lambda>ps. case ps of p # r \<Rightarrow> if p = 0xFEFF then r else ps | [] \<Rightarrow> []) (utf8_strict bytes)"

subsection \<open>The layers\<close>

definition MIN_ENCODED_LEN :: nat where "MIN_ENCODED_LEN = 16"
definition MIN_DECODED_BYTES :: nat where "MIN_DECODED_BYTES = 16"

definition std_char :: "nat \<Rightarrow> bool" where
  "std_char c \<longleftrightarrow> upper c \<or> lower c \<or> is_digit c \<or> c = 43 \<or> c = 47"

definition url_char :: "nat \<Rightarrow> bool" where
  "url_char c \<longleftrightarrow> upper c \<or> lower c \<or> is_digit c \<or> c = 95 \<or> c = 45"

text \<open>\<open>/^[...]+={0,2}$/\<close>.\<close>

definition padded :: "(nat \<Rightarrow> bool) \<Rightarrow> jstring \<Rightarrow> bool" where
  "padded p s \<longleftrightarrow> takeWhile p s \<noteq> [] \<and> dropWhile p s \<in> {[], [61], [61, 61]}"

definition hasControlChar :: "jstring \<Rightarrow> bool" where
  "hasControlChar text \<longleftrightarrow> list_ex (\<lambda>c. c \<notin> {9, 10, 13} \<and> (c < 32 \<or> c = 127)) text"

definition looksLikeText :: "(nat \<Rightarrow> bool) \<Rightarrow> nat list \<Rightarrow> bool" where
  "looksLikeText is_punct ps =
     (let t = trim (concat (map code_units ps))
      in (if t \<noteq> [] \<and> hd t \<in> {123, 91}
          then (case json_parse t of Some (VArray _) \<Rightarrow> True | Some (VObject _) \<Rightarrow> True | _ \<Rightarrow> False) else False) \<or>
         list_ex (\<lambda>p. is_ws p \<or> is_punct p) ps)"

definition normalize :: "jstring \<Rightarrow> jstring" where
  "normalize un =
     (let n = map (\<lambda>c. if c = 45 then 43 else if c = 95 then 47 else c) un
      in n @ replicate ((4 - length n mod 4) mod 4) 61)"

text \<open>\<open>s.replace(/=+$/, "")\<close>.\<close>

definition strip_padding :: "jstring \<Rightarrow> jstring" where
  "strip_padding s = rev (dropWhile (\<lambda>c. c = 61) (rev s))"

definition class_guard :: "jstring \<Rightarrow> bool" where
  "class_guard s \<longleftrightarrow>
     of_bool (list_ex lower s) + of_bool (list_ex upper s) + of_bool (list_ex is_digit s) \<ge> (2 :: nat) \<or>
     list_ex (\<lambda>c. c \<in> {43, 47, 61}) s"

definition tryDecodeBase64Text :: "(nat \<Rightarrow> bool) \<Rightarrow> jstring \<Rightarrow> jstring option" where
  "tryDecodeBase64Text is_punct s =
     (if length s < MIN_ENCODED_LEN then None
      else if \<not> padded std_char s \<and> \<not> padded url_char s then None
      else let un = strip_padding s in
        if length un mod 4 = 1 then None
        else if \<not> class_guard s then None
        else case atob (normalize un) of
          None \<Rightarrow> None
        | Some bytes \<Rightarrow>
            if length bytes < MIN_DECODED_BYTES then None
            else (case text_decode bytes of
                None \<Rightarrow> None
              | Some ps \<Rightarrow>
                  let text = concat (map code_units ps)
                  in if hasControlChar text then None
                     else if \<not> looksLikeText is_punct ps then None else Some text))"

subsection \<open>A payload\<close>

definition is_structure :: "jvalue \<Rightarrow> bool" where
  "is_structure v \<longleftrightarrow> (case v of VArray _ \<Rightarrow> True | VObject _ \<Rightarrow> True | _ \<Rightarrow> False)"

text \<open>A decoded text as a value: the structure it parses to, else the text.\<close>

definition embedded :: "jstring \<Rightarrow> jvalue" where
  "embedded decoded = (case json_parse decoded of Some v \<Rightarrow> if is_structure v then v else VString decoded | None \<Rightarrow> VString decoded)"

definition walk_text :: "(nat \<Rightarrow> bool) \<Rightarrow> jstring \<Rightarrow> jstring \<Rightarrow> jvalue \<times> jstring list" where
  "walk_text is_punct path s = (case tryDecodeBase64Text is_punct s of
     None \<Rightarrow> (VString s, [])
   | Some decoded \<Rightarrow> (embedded decoded, [if path \<noteq> [] then path else js ''$'']))"

text \<open>
  \<open>out[k] = v\<close> on an object literal: the name \<open>__proto__\<close> sets the prototype, which \<open>JSON.stringify\<close> does not
  print.
\<close>

definition assign :: "(jstring \<times> jvalue) list \<Rightarrow> jstring \<times> jvalue \<Rightarrow> (jstring \<times> jvalue) list" where
  "assign out m = (if fst m = js ''__proto__'' then out else put_member m out)"

text \<open>The value with the fields decoded, and the paths of those.\<close>

primrec walk :: "jvalue \<Rightarrow> (nat \<Rightarrow> bool) \<Rightarrow> jstring \<Rightarrow> jvalue \<times> jstring list" where
  "walk VNull is_punct path = (VNull, [])"
| "walk (VBool b) is_punct path = (VBool b, [])"
| "walk (VNumber n) is_punct path = (VNumber n, [])"
| "walk (VString s) is_punct path = walk_text is_punct path s"
| "walk (VArray vs) is_punct path =
     (let rs = map (\<lambda>(i, f). f is_punct (path @ [91] @ js_of_nat i @ [93])) (enumerate 0 (map walk vs))
      in (VArray (map fst rs), concat (map snd rs)))"
| "walk (VObject ms) is_punct path =
     (let rs = map (\<lambda>(k, f). (k, f is_punct (if path \<noteq> [] then path @ [46] @ k else k)))
            (entries (map (map_prod id walk) ms))
      in (VObject (foldl assign [] (map (\<lambda>(k, r). (k, fst r)) rs)), concat (map (\<lambda>(k, r). snd r) rs)))"

record decoded_fields =
  df_text :: jstring
  df_paths :: "jstring list"

definition decodeBase64Fields :: "(nat \<Rightarrow> bool) \<Rightarrow> jstring \<Rightarrow> decoded_fields option" where
  "decodeBase64Fields is_punct raw =
     (let trimmed = trim raw
      in if \<not> (trimmed \<noteq> [] \<and> hd trimmed \<in> {123, 91})
         then (case tryDecodeBase64Text is_punct trimmed of
             None \<Rightarrow> None
           | Some decoded \<Rightarrow> (case json_parse decoded of
                 Some v \<Rightarrow> if is_structure v then Some \<lparr>df_text = json_stringify 2 v, df_paths = [js ''$'']\<rparr>
                   else Some \<lparr>df_text = decoded, df_paths = [js ''$'']\<rparr>
               | None \<Rightarrow> Some \<lparr>df_text = decoded, df_paths = [js ''$'']\<rparr>))
         else case json_parse trimmed of
           None \<Rightarrow> None
         | Some obj \<Rightarrow>
             let (transformed, paths) = walk obj is_punct []
             in if paths = [] then None else Some \<lparr>df_text = json_stringify 2 transformed, df_paths = paths\<rparr>)"

subsection \<open>The decoder inverts the encoder\<close>

lemma sextet_sextet_char: "v < 64 \<Longrightarrow> sextet (sextet_char v) = Some v"
  by (auto simp: sextet_def sextet_char_def upper_def lower_def is_digit_def)

lemma sextet_char_plain: "v < 64 \<Longrightarrow> std_char (sextet_char v) \<and> sextet_char v \<noteq> 61"
  by (auto simp: sextet_char_def std_char_def upper_def lower_def is_digit_def)

lemma group_bytes_encoded:
  fixes x y z :: nat
  assumes "x < 256" "y < 256" "z < 256"
  shows "group_bytes (x div 4) (x mod 4 * 16 + y div 16) (y mod 16 * 4 + z div 64) (z mod 64) = [x, y, z]"
proof -
  have "y div 16 < 16" "z div 64 < 4" using assms by simp_all
  then show ?thesis by (simp add: group_bytes_def)
qed

lemma group_sextets:
  fixes x y z :: nat
  assumes "x < 256" "y < 256" "z < 256"
  shows "x div 4 < 64" "x mod 4 * 16 + y div 16 < 64" "y mod 16 * 4 + z div 64 < 64" "z mod 64 < 64"
proof -
  have "y div 16 < 16" "z div 64 < 4" "x mod 4 < 4" "y mod 16 < 16" using assms by simp_all
  then show "x mod 4 * 16 + y div 16 < 64" "y mod 16 * 4 + z div 64 < 64" by linarith+
qed (use assms in simp_all)

lemma btoa_nonempty: "bs \<noteq> [] \<Longrightarrow> \<exists>e r. btoa bs = e # r"
  by (cases bs rule: btoa.cases) auto

lemma atob_btoa: "list_all (\<lambda>b. b < 256) bs \<Longrightarrow> atob (btoa bs) = Some bs"
proof (induction bs rule: btoa.induct)
  case (2 x)
  with group_sextets [of x 0 0] group_bytes_encoded [of x 0 0] show ?case by (simp add: sextet_sextet_char)
next
  case (3 x y)
  with group_sextets [of x y 0] group_bytes_encoded [of x y 0] sextet_char_plain [of "y mod 16 * 4"] show ?case
    by (simp add: sextet_sextet_char)
next
  case (4 x y z r)
  note g = group_sextets [of x y z] group_bytes_encoded [of x y z] sextet_char_plain [of "z mod 64"]
  show ?case
  proof (cases "r = []")
    case True
    with 4 g show ?thesis by (simp add: sextet_sextet_char)
  next
    case False
    then obtain e t where "btoa r = e # t" using btoa_nonempty by blast
    with 4 g show ?thesis by (simp add: sextet_sextet_char)
  qed
qed simp

lemma length_btoa: "length bs \<le> length (btoa bs)"
  by (induction bs rule: btoa.induct) auto

text \<open>An encoded text is plain characters and the padding their number asks for.\<close>

lemma btoa_shape:
  "list_all (\<lambda>b. b < 256) bs \<Longrightarrow>
   \<exists>ss n. btoa bs = ss @ replicate n 61 \<and> list_all std_char ss \<and> n = (4 - length ss mod 4) mod 4 \<and> n \<le> 2 \<and>
     (bs \<noteq> [] \<longrightarrow> ss \<noteq> [])"
proof (induction bs rule: btoa.induct)
  case 1
  then show ?case by simp
next
  case (2 x)
  with group_sextets [of x 0 0] sextet_char_plain show ?case
    by (intro exI [of _ "map sextet_char [x div 4, x mod 4 * 16]"] exI [of _ 2]) (simp add: numeral_2_eq_2)
next
  case (3 x y)
  with group_sextets [of x y 0] sextet_char_plain show ?case
    by (intro exI [of _ "map sextet_char [x div 4, x mod 4 * 16 + y div 16, y mod 16 * 4]"] exI [of _ 1]) simp
next
  case (4 x y z r)
  then obtain ss n where r: "btoa r = ss @ replicate n 61" "list_all std_char ss" "n = (4 - length ss mod 4) mod 4" "n \<le> 2"
    by auto
  let ?g = "map sextet_char [x div 4, x mod 4 * 16 + y div 16, y mod 16 * 4 + z div 64, z mod 64]"
  have "list_all std_char ?g" using 4(2) group_sextets [of x y z] sextet_char_plain by simp
  moreover have "length (?g @ ss) mod 4 = length ss mod 4" using mod_add_self1 [of 4 "length ss"] by (simp add: add.commute)
  ultimately show ?case using r by (intro exI [of _ "?g @ ss"] exI [of _ n]) simp
qed

lemma std_char_facts: "std_char c \<Longrightarrow> c \<noteq> 61 \<and> c \<noteq> 45 \<and> c \<noteq> 95"
  by (auto simp: std_char_def upper_def lower_def is_digit_def)

lemma encoded_layers:
  assumes "list_all (\<lambda>b. b < 256) bs" "bs \<noteq> []"
  shows "padded std_char (btoa bs)" and "length (strip_padding (btoa bs)) mod 4 \<noteq> 1"
    and "normalize (strip_padding (btoa bs)) = btoa bs"
proof -
  obtain ss n where s: "btoa bs = ss @ replicate n 61" "list_all std_char ss" "n = (4 - length ss mod 4) mod 4"
      "n \<le> 2" "ss \<noteq> []"
    using btoa_shape [OF assms(1)] assms(2) by blast
  have no: "\<not> std_char 61" by (simp add: std_char_def upper_def lower_def is_digit_def)
  have ss: "\<forall>c \<in> set ss. std_char c" using s(2) by (simp add: list_all_iff)
  have "takeWhile std_char (replicate n 61) = []" "dropWhile std_char (replicate n 61) = replicate n 61"
    using no by (cases n; simp)+
  then have "takeWhile std_char (btoa bs) = ss" "dropWhile std_char (btoa bs) = replicate n 61"
    using ss unfolding s(1) by (simp_all add: takeWhile_append2 dropWhile_append2)
  moreover have "n \<in> {0, 1, 2}" using s(4) by auto
  ultimately show "padded std_char (btoa bs)" using s(5) by (auto simp: padded_def numeral_2_eq_2)
  have "rev ss \<noteq> [] \<and> hd (rev ss) \<noteq> 61" using s(5) ss std_char_facts by (simp add: hd_rev)
  then have d: "dropWhile (\<lambda>c. c = 61) (rev ss) = rev ss" by (cases "rev ss") simp_all
  have "dropWhile (\<lambda>c. c = 61) (replicate n 61 @ rev ss) = rev ss"
    by (subst dropWhile_append2) (simp_all add: d)
  then have strip: "strip_padding (btoa bs) = ss"
    unfolding s(1) strip_padding_def by simp
  have "length ss mod 4 \<noteq> 1" using s(3,4) by (cases "length ss mod 4 = 1") simp_all
  then show "length (strip_padding (btoa bs)) mod 4 \<noteq> 1" by (simp add: strip)
  have "map (\<lambda>c. if c = 45 then 43 else if c = 95 then 47 else c) ss = ss"
    using ss std_char_facts by (auto intro: map_idI)
  then show "normalize (strip_padding (btoa bs)) = btoa bs" unfolding strip normalize_def by (simp add: s(1) s(3) [symmetric])
qed

subsection \<open>The strict decoder inverts UTF-8\<close>

definition scalar :: "nat \<Rightarrow> bool" where
  "scalar p \<longleftrightarrow> p < 0x110000 \<and> \<not> (0xD800 \<le> p \<and> p < 0xE000)"

lemma utf8_strict_utf8:
  assumes "scalar p"
  shows "utf8_strict (utf8 p @ r) = map_option (Cons p) (utf8_strict r)"
proof -
  have "p div 0x1000 = p div 0x40 div 0x40" "p div 0x40000 = p div 0x1000 div 0x40"
    by (simp_all add: div_mult2_eq [symmetric])
  moreover have "p div 0x40 * 0x40 + p mod 0x40 = p" "p div 0x1000 div 0x40 * 0x40 + p div 0x1000 mod 0x40 = p div 0x1000"
    "p div 0x40 div 0x40 * 0x40 + p div 0x40 mod 0x40 = p div 0x40" by (simp_all only: div_mult_mod_eq)
  ultimately have sum: "p div 0x1000 * 0x1000 + p div 0x40 mod 0x40 * 0x40 + p mod 0x40 = p"
    "p div 0x40000 * 0x40000 + p div 0x1000 mod 0x40 * 0x1000 + p div 0x40 mod 0x40 * 0x40 + p mod 0x40 = p"
    by linarith+
  consider "p < 0x80" | "0x80 \<le> p" "p < 0x800" | "0x800 \<le> p" "p < 0x10000" | "0x10000 \<le> p" by linarith
  then show ?thesis
  proof cases
    case 1
    then show ?thesis by (simp add: utf8_def)
  next
    case 2
    then have "2 \<le> p div 0x40" "p div 0x40 < 0x20" by (simp_all add: less_eq_div_iff_mult_less_eq)
    with 2 show ?thesis by (simp add: utf8_def continuation_def)
  next
    case 3
    then have "p div 0x1000 < 0x10" by simp
    with 3 assms sum(1) show ?thesis by (simp add: utf8_def continuation_def scalar_def Let_def)
  next
    case 4
    with assms have "p div 0x40000 < 5" by (simp add: scalar_def)
    with 4 assms sum(2) show ?thesis by (simp add: utf8_def continuation_def scalar_def Let_def)
  qed
qed

lemma utf8_strict_points: "list_all scalar ps \<Longrightarrow> utf8_strict (concat (map utf8 ps)) = Some ps"
  by (induction ps) (simp_all add: utf8_strict_utf8)

lemma code_points_scalar: "code_points s = Some ps \<Longrightarrow> utf16 s \<Longrightarrow> list_all scalar ps"
proof (induction s arbitrary: ps rule: code_points.induct)
  case (2 c cs)
  show ?case
  proof (cases "c < 0xD800 \<or> 0xDBFF < c")
    case True
    with 2 show ?thesis by (auto simp: scalar_def utf16_def split: if_splits)
  next
    case False
    with 2(3) obtain d ds qs where q: "cs = d # ds" "0xDC00 \<le> d \<and> d \<le> 0xDFFF" "code_points ds = Some qs"
      "ps = ((c - 0xD800) * 0x400 + (d - 0xDC00) + 0x10000) # qs"
      by (auto split: list.splits if_splits)
    have "list_all scalar qs" using 2(2) [OF _ False q(1) q(2) q(3)] 2(3,4) q(1) by (auto simp: utf16_def split: if_splits)
    moreover have "c - 0xD800 < 0x400" "d - 0xDC00 < 0x400" using False q(2) by auto
    then have "scalar ((c - 0xD800) * 0x400 + (d - 0xDC00) + 0x10000)" by (auto simp: scalar_def)
    ultimately show ?thesis using q(4) by simp
  qed
qed simp

text \<open>A text encoded in standard base64 is found and shown as it was: when it is at least sixteen bytes of
  UTF-8, has no control character, looks like text and its encoding is not all of one class. And what is
  shown is always such a text: the raw string was long enough and of one of the two alphabets, and the
  text has no control characters and looks like text.\<close>

theorem base64_text_is_found:
  assumes "utf16 t" "code_points t = Some ps" "ps = [] \<or> hd ps \<noteq> 0xFEFF"
    and "16 \<le> length (concat (map utf8 ps))" "\<not> hasControlChar t" "looksLikeText is_punct ps"
    and "class_guard (btoa (concat (map utf8 ps)))"
  shows "tryDecodeBase64Text is_punct (btoa (concat (map utf8 ps))) = Some t"
proof -
  let ?bs = "concat (map utf8 ps)"
  have units: "concat (map code_units ps) = t" and scalars: "list_all scalar ps"
    using code_points_units [OF assms(2,1)] code_points_scalar [OF assms(2,1)] by auto
  then have b: "list_all (\<lambda>b. b < 256) ?bs"
    using utf8_bytes by (auto simp: list_all_iff scalar_def)
  have ne: "?bs \<noteq> []" using assms(4) by (metis list.size(3) not_numeral_le_zero)
  have "text_decode ?bs = Some ps"
    unfolding text_decode_def utf8_strict_points [OF scalars] using assms(3) by (cases ps) simp_all
  moreover have "16 \<le> length (btoa ?bs)" using assms(4) length_btoa [of ?bs] by linarith
  ultimately show ?thesis
    using encoded_layers [OF b ne] atob_btoa [OF b] assms(4-7) units
    by (simp add: tryDecodeBase64Text_def MIN_ENCODED_LEN_def MIN_DECODED_BYTES_def Let_def)
qed

lemma base64_text_is_found_witness:
  "tryDecodeBase64Text (\<lambda>_. False) (btoa (concat (map utf8 (js ''hello world, this'')))) = Some (js ''hello world, this'')"
  by (rule base64_text_is_found [of "js ''hello world, this''"])
     (simp_all add: js_def utf16_def utf8_def hasControlChar_def looksLikeText_def trim_def is_ws_def class_guard_def
        sextet_char_def upper_def lower_def is_digit_def code_units_def)

lemma decoded_text_sound:
  assumes "tryDecodeBase64Text is_punct s = Some t"
  shows "16 \<le> length s \<and> (padded std_char s \<or> padded url_char s) \<and> class_guard s \<and> \<not> hasControlChar t \<and>
    (\<exists>bs ps. atob (normalize (strip_padding s)) = Some bs \<and> 16 \<le> length bs \<and> text_decode bs = Some ps \<and>
       t = concat (map code_units ps) \<and> looksLikeText is_punct ps)"
  using assms by (auto simp: tryDecodeBase64Text_def MIN_ENCODED_LEN_def MIN_DECODED_BYTES_def Let_def
      split: if_splits option.splits)

text \<open>A member called \<open>__proto__\<close> is lost from the decoded view, though the object had it.\<close>

lemma assign_names: "fst ` set (assign out m) \<subseteq> fst ` set out \<union> ({fst m} - {js ''__proto__''})"
  by (auto simp: assign_def put_member_def split: if_splits)

lemma assign_all_proto: "js ''__proto__'' \<notin> fst ` set out \<Longrightarrow> js ''__proto__'' \<notin> fst ` set (foldl assign out ms)"
proof (induction ms arbitrary: out)
  case (Cons m ms)
  then show ?case using assign_names [of out m] by (simp only: foldl_Cons) blast
qed simp

lemma walk_loses_proto: "walk (VObject ms) is_punct path = (VObject out, ps) \<Longrightarrow> js ''__proto__'' \<notin> fst ` set out"
  using assign_all_proto [of "[]"] by (auto simp: Let_def)

end
