(* ===== verification/Journey.thy ===== *)
theory Journey
  imports Prelude
begin

text \<open>
  \<open>src/ui/src/lib/journey.ts\<close>: the path of a task through the state machine of the server, drawn from the
  fields a task stores, and the edges of that path.
\<close>

subsection \<open>States\<close>

datatype journey_state = JScheduled | JPending | JAggregating | JActive | JRetry | JCompleted | JArchived

definition JOURNEY_STATES :: "(jstring \<times> journey_state) list" where
  "JOURNEY_STATES =
     [(js ''scheduled'', JScheduled), (js ''pending'', JPending), (js ''aggregating'', JAggregating), (js ''active'', JActive),
      (js ''retry'', JRetry), (js ''completed'', JCompleted), (js ''archived'', JArchived)]"

record journey_input =
  jin_state :: jstring
  jin_retried :: int
  jin_group :: "jstring option"
  jin_completed_at :: "jstring option"
  jin_last_failed_at :: "jstring option"

record journey =
  jn_current :: "journey_state option"
  jn_traversed :: "journey_state set"
  jn_retryAttempts :: int
  jn_viaGroup :: bool

definition zeroTimestamp :: jstring where
  "zeroTimestamp = js ''0001-01-01T00:00:00Z''"

definition hasTimestamp :: "jstring option \<Rightarrow> bool" where
  "hasTimestamp s \<longleftrightarrow> (case s of None \<Rightarrow> False | Some x \<Rightarrow> x \<noteq> [] \<and> x \<noteq> js ''-'' \<and> x \<noteq> zeroTimestamp)"

text \<open>Which evidence of a past run a task has.\<close>

definition hasRun :: "journey_input \<Rightarrow> journey_state option \<Rightarrow> bool" where
  "hasRun t current \<longleftrightarrow>
     current = Some JActive \<or> current = Some JRetry \<or> current = Some JCompleted \<or> jin_retried t > 0 \<or>
     hasTimestamp (jin_last_failed_at t)"

definition deriveJourney :: "journey_input \<Rightarrow> journey" where
  "deriveJourney t =
     (let current = map_of JOURNEY_STATES (jin_state t);
          viaGroup = ((case jin_group t of None \<Rightarrow> False | Some g \<Rightarrow> g \<noteq> []) \<or> current = Some JAggregating);
          start = set_option current \<union> (if viaGroup then {JAggregating} else {});
          ran = start \<union> (if hasRun t current then {JPending, JActive} else {});
          retried = ran \<union> (if jin_retried t > 0 \<or> current = Some JRetry then {JRetry} else {});
          traversed = retried \<union> (if hasTimestamp (jin_completed_at t) then {JCompleted} else {})
      in \<lparr>jn_current = current, jn_traversed = traversed, jn_retryAttempts = jin_retried t, jn_viaGroup = viaGroup\<rparr>)"

subsection \<open>Edges\<close>

datatype journey_edge =
    Scheduled_Pending | Pending_Aggregating | Aggregating_Active | Pending_Active | Active_Completed | Active_Retry
  | Retry_Pending | Retry_Archived

definition journeyEdges :: "journey \<Rightarrow> journey_edge set" where
  "journeyEdges j =
     (let has = (\<lambda>s. s \<in> jn_traversed j)
      in (if has JScheduled \<and> has JPending then {Scheduled_Pending} else {}) \<union>
         (if jn_viaGroup j
          then (if has JAggregating \<and> has JPending then {Pending_Aggregating} else {}) \<union>
               (if has JAggregating \<and> has JActive then {Aggregating_Active} else {})
          else if has JPending \<and> has JActive then {Pending_Active} else {}) \<union>
         (if has JCompleted then {Active_Completed} else {}) \<union>
         (if has JRetry then {Active_Retry} \<union> (if has JPending then {Retry_Pending} else {}) else {}) \<union>
         (if has JArchived \<and> jn_retryAttempts j > 0 then {Retry_Archived} else {}))"

datatype state_tone = ToneGood | ToneWarn | ToneCrit | ToneInfo | ToneMut

primrec STATE_TONE :: "journey_state \<Rightarrow> state_tone" where
  "STATE_TONE JScheduled = ToneMut"
| "STATE_TONE JPending = ToneMut"
| "STATE_TONE JAggregating = ToneMut"
| "STATE_TONE JActive = ToneInfo"
| "STATE_TONE JRetry = ToneWarn"
| "STATE_TONE JCompleted = ToneGood"
| "STATE_TONE JArchived = ToneCrit"

subsection \<open>What an edge claims\<close>

text \<open>The two states an edge joins.\<close>

primrec edge_from :: "journey_edge \<Rightarrow> journey_state" where
  "edge_from Scheduled_Pending = JScheduled"
| "edge_from Pending_Aggregating = JPending"
| "edge_from Aggregating_Active = JAggregating"
| "edge_from Pending_Active = JPending"
| "edge_from Active_Completed = JActive"
| "edge_from Active_Retry = JActive"
| "edge_from Retry_Pending = JRetry"
| "edge_from Retry_Archived = JRetry"

primrec edge_to :: "journey_edge \<Rightarrow> journey_state" where
  "edge_to Scheduled_Pending = JPending"
| "edge_to Pending_Aggregating = JAggregating"
| "edge_to Aggregating_Active = JActive"
| "edge_to Pending_Active = JActive"
| "edge_to Active_Completed = JCompleted"
| "edge_to Active_Retry = JRetry"
| "edge_to Retry_Pending = JPending"
| "edge_to Retry_Archived = JArchived"

lemmas journey_defs = deriveJourney_def journeyEdges_def hasRun_def Let_def

lemma active_iff: "JActive \<in> jn_traversed (deriveJourney t) \<longleftrightarrow> hasRun t (map_of JOURNEY_STATES (jin_state t))"
  by (cases "map_of JOURNEY_STATES (jin_state t)") (auto simp: journey_defs)

text \<open>A state is marked only for the reasons the fields give.\<close>

lemma traversed_evidence:
  "s \<in> jn_traversed (deriveJourney t) \<Longrightarrow>
   jn_current (deriveJourney t) = Some s \<or> s = JAggregating \<and> jn_viaGroup (deriveJourney t) \<or>
   s \<in> {JPending, JActive} \<and> hasRun t (jn_current (deriveJourney t)) \<or> s = JRetry \<and> jin_retried t > 0 \<or>
   s = JCompleted \<and> hasTimestamp (jin_completed_at t)"
  by (auto simp: deriveJourney_def Let_def split: if_splits)

lemma edge_drawn:
  "e \<in> journeyEdges j \<longleftrightarrow>
     (case e of
        Scheduled_Pending \<Rightarrow> JScheduled \<in> jn_traversed j \<and> JPending \<in> jn_traversed j
      | Pending_Aggregating \<Rightarrow> jn_viaGroup j \<and> JAggregating \<in> jn_traversed j \<and> JPending \<in> jn_traversed j
      | Aggregating_Active \<Rightarrow> jn_viaGroup j \<and> JAggregating \<in> jn_traversed j \<and> JActive \<in> jn_traversed j
      | Pending_Active \<Rightarrow> \<not> jn_viaGroup j \<and> JPending \<in> jn_traversed j \<and> JActive \<in> jn_traversed j
      | Active_Completed \<Rightarrow> JCompleted \<in> jn_traversed j
      | Active_Retry \<Rightarrow> JRetry \<in> jn_traversed j
      | Retry_Pending \<Rightarrow> JRetry \<in> jn_traversed j \<and> JPending \<in> jn_traversed j
      | Retry_Archived \<Rightarrow> JArchived \<in> jn_traversed j \<and> jn_retryAttempts j > 0)"
proof -
  have drawn: "x \<in> (if c then {y} else {}) \<longleftrightarrow> c \<and> x = y" for x y :: journey_edge and c by simp
  have chosen: "x \<in> (if c then A else B) \<longleftrightarrow> (if c then x \<in> A else x \<in> B)" for x :: journey_edge and A B c by simp
  show ?thesis
    by (cases e; cases "jn_viaGroup j"; cases "JRetry \<in> jn_traversed j") (simp_all add: journeyEdges_def Let_def drawn chosen)
qed

lemma retried_marked: "jn_retryAttempts (deriveJourney t) > 0 \<Longrightarrow> JRetry \<in> jn_traversed (deriveJourney t)"
  by (simp add: deriveJourney_def Let_def)

lemma retry_ran: "JRetry \<in> jn_traversed (deriveJourney t) \<Longrightarrow> JActive \<in> jn_traversed (deriveJourney t)"
  unfolding active_iff using traversed_evidence [of JRetry t] by (auto simp: deriveJourney_def hasRun_def Let_def)

lemma completed_evidence:
  "JCompleted \<in> jn_traversed (deriveJourney t) \<Longrightarrow>
   jn_current (deriveJourney t) = Some JCompleted \<or> hasTimestamp (jin_completed_at t)"
  using traversed_evidence [of JCompleted t] by auto

text \<open>The journey graph draws no path it cannot prove: both ends of every edge are states the task's fields
  prove, except that a completion time alone draws the edge from active to completed. A grouped task
  never gets the direct arc and an ungrouped one never the two of its group; and an archived task
  with no recorded run and no completion time gets no edge at all.\<close>

theorem journey_edges_proven:
  "(\<forall>e. e \<in> journeyEdges (deriveJourney t) \<longrightarrow>
      edge_to e \<in> jn_traversed (deriveJourney t) \<and>
      (edge_from e \<in> jn_traversed (deriveJourney t) \<or>
       e = Active_Completed \<and> hasTimestamp (jin_completed_at t) \<and> \<not> hasRun t (jn_current (deriveJourney t)))) \<and>
   (Pending_Active \<in> journeyEdges (deriveJourney t) \<longrightarrow>
      Pending_Aggregating \<notin> journeyEdges (deriveJourney t) \<and> Aggregating_Active \<notin> journeyEdges (deriveJourney t)) \<and>
   (jn_current (deriveJourney t) = Some JArchived \<and> jin_retried t \<le> 0 \<and> \<not> hasTimestamp (jin_last_failed_at t) \<and>
      \<not> hasTimestamp (jin_completed_at t) \<longrightarrow> journeyEdges (deriveJourney t) = {})"
proof -
  let ?j = "deriveJourney t"
  have ends: "edge_to e \<in> jn_traversed ?j \<and> (edge_from e \<in> jn_traversed ?j \<or> e = Active_Completed)"
    if "e \<in> journeyEdges ?j" for e
    using that retry_ran [of t] retried_marked [of t] by (cases e) (auto simp: edge_drawn)
  have alone: "hasTimestamp (jin_completed_at t) \<and> \<not> hasRun t (jn_current ?j)"
    if "Active_Completed \<in> journeyEdges ?j" "JActive \<notin> jn_traversed ?j"
    using that completed_evidence [of t] active_iff [of t] by (auto simp: edge_drawn deriveJourney_def hasRun_def Let_def)
  have from_active: "edge_from Active_Completed = JActive" by simp
  have direct: "Pending_Active \<in> journeyEdges ?j \<longrightarrow> Pending_Aggregating \<notin> journeyEdges ?j \<and> Aggregating_Active \<notin> journeyEdges ?j"
    by (simp add: edge_drawn)
  have empty: "journeyEdges ?j = {}"
    if "jn_current ?j = Some JArchived" "jin_retried t \<le> 0" "\<not> hasTimestamp (jin_last_failed_at t)"
      "\<not> hasTimestamp (jin_completed_at t)"
    using that by (simp add: journey_defs)
  show ?thesis using ends alone from_active direct empty by metis
qed

definition sample_journey :: journey_input where
  "sample_journey =
     \<lparr>jin_state = js ''retry'', jin_retried = 2, jin_group = Some (js ''mail''), jin_completed_at = None,
      jin_last_failed_at = Some (js ''2026-07-01T10:00:00Z'')\<rparr>"

lemma journey_edges_proven_witness:
  "journeyEdges (deriveJourney sample_journey) =
     {Pending_Aggregating, Aggregating_Active, Active_Retry, Retry_Pending} \<and>
   edge_from Active_Retry \<in> jn_traversed (deriveJourney sample_journey)"
proof -
  have e: "journeyEdges (deriveJourney sample_journey) =
      {Pending_Aggregating, Aggregating_Active, Active_Retry, Retry_Pending}"
    by (auto simp: journey_defs sample_journey_def JOURNEY_STATES_def hasTimestamp_def js_def split: if_splits)
  with journey_edges_proven [of sample_journey] show ?thesis by blast
qed

end
