(* ===== verification/Doubles.thy ===== *)
theory Doubles
  imports Formats
begin

text \<open>
  Order facts about the double an operation gives: rounding is monotone and keeps signs, so what the
  libraries compute on doubles stays within the bounds the exact arithmetic has.
\<close>

subsection \<open>Rounding to an integer\<close>

lemma round_half_even_floor: "\<lfloor>x\<rfloor> \<le> round_half_even x \<and> round_half_even x \<le> \<lfloor>x\<rfloor> + 1"
  by (simp add: round_half_even_def Let_def)

lemma round_half_even_mono:
  assumes "x \<le> y"
  shows "round_half_even x \<le> round_half_even y"
proof (cases "\<lfloor>x\<rfloor> = \<lfloor>y\<rfloor>")
  case True
  with assms show ?thesis by (simp add: round_half_even_def Let_def)
next
  case False
  with floor_mono [OF assms] have "\<lfloor>x\<rfloor> + 1 \<le> \<lfloor>y\<rfloor>" by linarith
  with round_half_even_floor [of x] round_half_even_floor [of y] show ?thesis by linarith
qed

lemma round_half_even_le: "x \<le> of_int n \<Longrightarrow> round_half_even x \<le> n"
  using round_half_even_mono [of x "of_int n"] by simp

lemma round_half_even_ge: "of_int n \<le> x \<Longrightarrow> n \<le> round_half_even x"
  using round_half_even_mono [of "of_int n" x] by simp

subsection \<open>The leading bit\<close>

lemma binade_bounds:
  assumes "0 < x"
  shows "2 powi binade x \<le> x \<and> x < 2 powi (binade x + 1)"
proof -
  obtain a b where q: "quotient_of x = (a, b)" by force
  have b: "0 < b" and x: "x = of_int a / of_int b" using quotient_of_denom_pos [OF q] quotient_of_div [OF q] by auto
  have a: "0 < a" using assms x b by (simp add: zero_less_divide_iff)
  obtain m n where mn: "a = int m" "b = int n" "0 < m" "0 < n" using a b by (metis pos_int_cases)
  let ?l = "floorlog 2 m" and ?k = "floorlog 2 n"
  have l: "2 powi (int ?l - 1) \<le> (of_nat m :: rat)" "(of_nat m :: rat) < 2 powi int ?l"
    using floorlog_two [OF mn(3)] powi_pred [OF floorlog_pos [OF mn(3)]]
    by (simp_all flip: of_nat_power add: power_int_def)
  have k: "2 powi (int ?k - 1) \<le> (of_nat n :: rat)" "(of_nat n :: rat) < 2 powi int ?k"
    using floorlog_two [OF mn(4)] powi_pred [OF floorlog_pos [OF mn(4)]]
    by (simp_all flip: of_nat_power add: power_int_def)
  have pos: "0 < (of_nat n :: rat)" using mn(4) by simp
  have d: "2 powi (i - j) * 2 powi j = (2 powi i :: rat)" for i j :: int by (simp flip: power_int_add)
  have "2 powi (int ?l - 1 - int ?k) * of_nat n \<le> 2 powi (int ?l - 1 - int ?k) * (2 powi int ?k :: rat)"
    using k by (intro mult_left_mono) simp_all
  also have "\<dots> = 2 powi (int ?l - 1)" unfolding d [of "int ?l - 1" "int ?k"] ..
  also have "\<dots> \<le> of_nat m" by (rule l(1))
  finally have lo: "2 powi (int ?l - int ?k - 1) \<le> x" using pos by (simp add: x mn field_simps)
  have "of_nat m < 2 powi (int ?l - int ?k + 1) * (2 powi (int ?k - 1) :: rat)"
    using l by (simp flip: power_int_add)
  also have "\<dots> \<le> 2 powi (int ?l - int ?k + 1) * of_nat n" using k by (intro mult_left_mono) simp_all
  finally have hi: "x < 2 powi (int ?l - int ?k + 1)" using pos by (simp add: x mn field_simps)
  from lo hi show ?thesis by (simp add: binade_def q mn Let_def)
qed

lemma powi_two_le: "i \<le> j \<Longrightarrow> (2 :: rat) powi i \<le> 2 powi j"
  by (simp add: power_int_increasing)

lemma powi_two_less: "(2 :: rat) powi i < 2 powi j \<Longrightarrow> i < j"
  using powi_two_le [of j i] by fastforce

lemma binade_mono: "0 < x \<Longrightarrow> x \<le> y \<Longrightarrow> binade x \<le> binade y"
  using binade_bounds [of x] binade_bounds [of y] powi_two_less [of "binade x" "binade y + 1"] by linarith

subsection \<open>Rounding to a double\<close>

text \<open>The magnitude of the double, before the check for overflow.\<close>

definition nearest :: "rat \<Rightarrow> rat" where
  "nearest x = (let u = max (binade x - 52) (- 1074) in of_int (round_half_even (x / 2 powi u)) * 2 powi u)"

lemma round_double_nearest:
  "round_double x = (if x = 0 then Finite 0 else if nearest \<bar>x\<bar> \<ge> 2 ^ 1024 then Infinite (x < 0)
     else Finite (if x < 0 then - nearest \<bar>x\<bar> else nearest \<bar>x\<bar>))"
  unfolding round_double_def nearest_def Let_def by simp

lemma nearest_nonneg: "0 < x \<Longrightarrow> 0 \<le> nearest x"
  unfolding nearest_def Let_def by (intro mult_nonneg_nonneg) (simp_all add: round_half_even_ge)

lemma nearest_mono:
  assumes "0 < x" "x \<le> y"
  shows "nearest x \<le> nearest y"
proof -
  define u where "u = max (binade x - 52) (- 1074)"
  define v where "v = max (binade y - 52) (- 1074)"
  have n: "nearest x = of_int (round_half_even (x / 2 powi u)) * 2 powi u"
    "nearest y = of_int (round_half_even (y / 2 powi v)) * 2 powi v"
    by (simp_all add: nearest_def u_def v_def Let_def)
  show ?thesis
  proof (cases "u = v")
    case True
    have "x / 2 powi v \<le> y / 2 powi v" using assms by (simp add: divide_right_mono)
    from round_half_even_mono [OF this] show ?thesis unfolding n True by (simp add: mult_right_mono)
  next
    case False
    with binade_mono [OF assms] have uv: "u < v" "v = binade y - 52" "binade x - 52 \<le> u"
      by (auto simp: u_def v_def)
    define w where "w = nat (v + 52 - u)"
    have w: "int w = v + 52 - u" using uv by (simp add: w_def)
    have "x < 2 powi (binade x + 1)" using binade_bounds assms by blast
    also have "\<dots> \<le> 2 powi (v + 52)" using uv by (intro powi_two_le) simp
    also have "\<dots> = 2 powi int w * 2 powi u" unfolding w by (simp flip: power_int_add)
    finally have "x / 2 powi u \<le> 2 powi int w" by (simp add: divide_le_eq less_imp_le)
    then have "round_half_even (x / 2 powi u) \<le> 2 ^ w" by (intro round_half_even_le) simp
    then have "of_int (round_half_even (x / 2 powi u)) \<le> (2 powi int w :: rat)"
      by (metis of_int_le_iff of_int_numeral of_int_power power_int_of_nat)
    then have "nearest x \<le> 2 powi int w * 2 powi u" unfolding n by (simp add: mult_right_mono)
    also have "\<dots> = 2 ^ 52 * 2 powi v" unfolding w using power_int_add [of "2 :: rat" 52 v] by (simp flip: power_int_add add: add.commute)
    also have "\<dots> \<le> nearest y"
    proof -
      have "2 powi (v + 52) \<le> y" using binade_bounds [of y] assms uv by simp
      then have "2 ^ 52 \<le> y / 2 powi v" by (simp add: le_divide_eq power_int_add mult.commute)
      then have "2 ^ 52 \<le> round_half_even (y / 2 powi v)" by (intro round_half_even_ge) simp
      then have "(2 ^ 52 :: rat) \<le> of_int (round_half_even (y / 2 powi v))"
        by (metis of_int_le_iff of_int_numeral of_int_power)
      then show ?thesis unfolding n by (simp add: mult_right_mono)
    qed
    finally show ?thesis .
  qed
qed

lemma dbl_zero [simp]: "dbl 0 = 0"
  by (simp add: dbl_def round_double_def)

lemma dbl_nonneg: "0 \<le> x \<Longrightarrow> 0 \<le> dbl x"
  using nearest_nonneg [of x] by (cases "x = 0") (simp_all add: dbl_def round_double_nearest)

lemma dbl_nonpos: "x \<le> 0 \<Longrightarrow> dbl x \<le> 0"
  using nearest_nonneg [of "- x"] by (cases "x = 0") (simp_all add: dbl_def round_double_nearest)

lemma dbl_nat: "n < 2 ^ 53 \<Longrightarrow> dbl (of_nat n) = of_nat n"
  by (simp add: dbl_def round_double_nat)

lemma dbl_numeral [simp]: "numeral k < (2 ^ 53 :: nat) \<Longrightarrow> dbl (numeral k) = numeral k"
  using dbl_nat [of "numeral k"] by simp

lemma dbl_uminus [simp]: "dbl (- x) = - dbl x"
  by (auto simp: dbl_def round_double_nearest)

text \<open>Below a number that is exact, hence far from overflow.\<close>

lemma dbl_mono_exact:
  assumes "0 \<le> x" "x \<le> of_nat n" "n < 2 ^ 53"
  shows "dbl x \<le> of_nat n"
proof (cases "x = 0")
  case False
  with assms have "nearest x \<le> nearest (of_nat n)" by (intro nearest_mono) simp_all
  moreover have "round_double (of_nat n) = Finite (of_nat n)" using round_double_nat [OF assms(3)] .
  with False assms have "nearest (of_nat n) = of_nat n"
    unfolding round_double_nearest by (simp split: if_splits)
  moreover have "(of_nat n :: rat) < 2 ^ 1024"
  proof -
    have "(of_nat n :: rat) < of_nat (2 ^ 53)" using assms(3) unfolding of_nat_less_iff .
    then show ?thesis by simp
  qed
  ultimately show ?thesis using False assms(1) by (simp add: dbl_def round_double_nearest)
qed simp

subsection \<open>Differences of doubles\<close>

text \<open>
  The difference of two different doubles never rounds to zero, since both are multiples of the smallest
  positive one. So a comparator that subtracts has the sign of the exact difference.
\<close>

lemma nearest_pos:
  assumes "2 powi - 1074 \<le> x"
  shows "0 < nearest x"
proof -
  define u where "u = max (binade x - 52) (- 1074)"
  have x: "0 < x" using assms by (rule less_le_trans [rotated]) simp
  have "2 powi u \<le> x"
  proof (cases "u = - 1074")
    case False
    then have "(2 :: rat) powi u \<le> 2 powi binade x" by (intro powi_two_le) (simp add: u_def)
    with binade_bounds [OF x] show ?thesis by linarith
  next
    case True
    with assms show ?thesis by (simp only:)
  qed
  then have "1 \<le> round_half_even (x / 2 powi u)" by (intro round_half_even_ge) (simp add: le_divide_eq)
  then show ?thesis unfolding nearest_def Let_def u_def [symmetric] by simp
qed

lemma dbl_pos: "2 powi - 1074 \<le> x \<Longrightarrow> 0 < dbl x"
  using nearest_pos [of x] zero_less_power_int [of "2 :: rat" "- 1074"]
  by (auto simp: dbl_def round_double_nearest)

lemma dbl_difference:
  assumes "x = of_int k * 2 powi - 1074" "y = of_int l * 2 powi - 1074" "y < x"
  shows "0 < dbl (x - y)" and "dbl (y - x) < 0"
proof -
  have "l < k" using assms by (simp add: mult_less_cancel_right)
  then have "of_int 1 \<le> (of_int (k - l) :: rat)" unfolding of_int_le_iff by simp
  then have "1 * 2 powi - 1074 \<le> of_int (k - l) * (2 powi - 1074 :: rat)" by (intro mult_right_mono) simp_all
  then have "2 powi - 1074 \<le> x - y" by (simp add: assms algebra_simps)
  from dbl_pos [OF this] show "0 < dbl (x - y)" .
  with dbl_uminus [of "x - y"] show "dbl (y - x) < 0" by simp
qed

end
