(* ===== verification/Trends.thy ===== *)
theory Trends
  imports ApiConsole Doubles
begin

text \<open>
  \<open>src/ui/src/lib/series.ts\<close>: the slices of a ring-buffer series, the fitted rate of change, the burn-down
  projection, the place of a deploy marker and the countdown of a learning badge. Every operation rounds
  to a double where the code computes one. \<open>Date.parse\<close> is the parameter \<open>date_parse\<close>, in milliseconds,
  \<open>None\<close> for \<open>NaN\<close>.
\<close>

subsection \<open>Series\<close>

definition sliceLastSeconds :: "series_point list \<Rightarrow> int \<Rightarrow> int \<Rightarrow> series_point list" where
  "sliceLastSeconds points seconds nowSec = filter (\<lambda>p. sp_t p > nowSec - seconds \<and> sp_t p \<le> nowSec) points"

definition lastSample :: "series_point list \<Rightarrow> series_point option" where
  "lastSample points = List.find (\<lambda>p. sp_v p \<noteq> None) (rev points)"

definition hasAnySample :: "series_point list \<Rightarrow> bool" where
  "hasAnySample points \<longleftrightarrow> list_ex (\<lambda>p. sp_v p \<noteq> None) points"

subsection \<open>The fitted line\<close>

record linear_fit =
  lf_slope :: rat
  lf_intercept :: rat
  lf_samples :: nat

definition xy_samples :: "series_point list \<Rightarrow> (rat \<times> rat) list" where
  "xy_samples points = concat (map (\<lambda>p. case sp_v p of None \<Rightarrow> [] | Some v \<Rightarrow> [(of_int (sp_t p), v)]) points)"

text \<open>A sum as the loop adds it up.\<close>

definition dsum :: "('a \<Rightarrow> rat) \<Rightarrow> 'a list \<Rightarrow> rat" where
  "dsum f xs = foldl (\<lambda>acc x. dbl (acc + f x)) 0 xs"

definition linearFit :: "series_point list \<Rightarrow> linear_fit option" where
  "linearFit points =
     (let samples = xy_samples points; n = length samples
      in if n < 2 then None
         else let meanX = dbl (dsum fst samples / of_nat n);
                  meanY = dbl (dsum snd samples / of_nat n);
                  sxx = dsum (\<lambda>(x, y). dbl (dbl (x - meanX) * dbl (x - meanX))) samples;
                  sxy = dsum (\<lambda>(x, y). dbl (dbl (x - meanX) * dbl (y - meanY))) samples
              in if sxx = 0 then None
                 else let slope = dbl (sxy / sxx)
                      in Some \<lparr>lf_slope = slope, lf_intercept = dbl (meanY - dbl (slope * meanX)), lf_samples = n\<rparr>)"

definition ratePerMinute :: "series_point list \<Rightarrow> rat option" where
  "ratePerMinute points = map_option (\<lambda>fit. dbl (lf_slope fit * 60)) (linearFit points)"

definition formatRate :: "number option \<Rightarrow> jstring \<Rightarrow> jstring" where
  "formatRate perUnit unit_name = (case perUnit of
     Some (Finite x) \<Rightarrow>
       (let rounded = math_round x
        in if \<bar>rounded\<bar> < 1 then js ''flat''
           else (if rounded > 0 then js ''+'' else [8722]) @ locale_int \<bar>rounded\<bar> @ js ''/'' @ unit_name)
   | _ \<Rightarrow> DASH)"

subsection \<open>The burn-down\<close>

definition PROJECTION_POINTS :: nat where
  "PROJECTION_POINTS = 10"

record projection =
  pr_slopePerMin :: rat
  pr_etaMinutes :: "rat option"
  pr_current :: rat

definition burnDownProjection :: "series_point list \<Rightarrow> projection option" where
  "burnDownProjection points =
     (let samples = filter (\<lambda>p. sp_v p \<noteq> None) points;
          recent = drop (length samples - PROJECTION_POINTS) samples
      in case linearFit recent of
           None \<Rightarrow> None
         | Some fit \<Rightarrow>
             if recent = [] then None
             else let current = the (sp_v (List.last recent)); slopePerMin = dbl (lf_slope fit * 60)
                  in if slopePerMin \<ge> 0 then Some \<lparr>pr_slopePerMin = slopePerMin, pr_etaMinutes = None, pr_current = current\<rparr>
                     else if current \<le> 0 then Some \<lparr>pr_slopePerMin = slopePerMin, pr_etaMinutes = Some 0, pr_current = current\<rparr>
                     else Some \<lparr>pr_slopePerMin = slopePerMin, pr_etaMinutes = Some (dbl (current / - slopePerMin)),
                                pr_current = current\<rparr>)"

definition formatEta :: "number \<Rightarrow> jstring" where
  "formatEta minutes = (case minutes of
     Finite x \<Rightarrow>
       if x < 0 then DASH
       else if x < 1 then js ''<1m''
       else let m = math_round x in
         if m < 60 then js ''~'' @ js_of_int m @ js ''m''
         else let h = m div 60 in
           if h < 24
           then (let r = m mod 60
                 in if r > 0 then js ''~'' @ js_of_int h @ js ''h '' @ js_of_int r @ js ''m''
                    else js ''~'' @ js_of_int h @ js ''h'')
           else let d = h div 24; r = h mod 24
                in if r > 0 then js ''~'' @ js_of_int d @ js ''d '' @ js_of_int r @ js ''h''
                   else js ''~'' @ js_of_int d @ js ''d''
   | _ \<Rightarrow> DASH)"

definition projectionSentence :: "projection option \<Rightarrow> jstring" where
  "projectionSentence proj = (case proj of
     None \<Rightarrow> []
   | Some p \<Rightarrow> (case pr_etaMinutes p of
       None \<Rightarrow> js ''not draining at current rate''
     | Some e \<Rightarrow> if e = 0 \<and> pr_current p \<le> 0 then js ''drained''
         else js ''drains in '' @ formatEta (Finite e) @ js '' at current rate''))"

subsection \<open>Markers and badges\<close>

definition markerFraction :: "(jstring \<Rightarrow> int option) \<Rightarrow> jstring \<Rightarrow> int \<Rightarrow> int \<Rightarrow> rat option" where
  "markerFraction date_parse at_time startSec endSec = (case date_parse at_time of
     None \<Rightarrow> None
   | Some ms \<Rightarrow>
       let t = dbl (of_int ms / 1000)
       in if endSec \<le> startSec then None
          else if t < of_int startSec \<or> t > of_int endSec then None
          else Some (dbl (dbl (t - of_int startSec) / dbl (of_int (endSec - startSec)))))"

definition learningRemaining :: "(jstring \<Rightarrow> int option) \<Rightarrow> jstring option \<Rightarrow> int \<Rightarrow> jstring" where
  "learningRemaining date_parse until_time nowMs = (case until_time of
     None \<Rightarrow> []
   | Some s \<Rightarrow>
       if s = [] then []
       else (case date_parse s of
         None \<Rightarrow> []
       | Some t \<Rightarrow>
           if t \<le> nowMs then []
           else let mins = dbl (of_int (t - nowMs) / 60000)
                in if mins < 60 then js ''~'' @ js_of_int (max 1 (math_round mins)) @ js ''m''
                   else js ''~'' @ js_of_int (math_round (dbl (mins / 60))) @ js ''h''))"

subsection \<open>Gaps stay gaps\<close>

lemma lastSample_None: "lastSample points = None \<longleftrightarrow> \<not> hasAnySample points"
  by (auto simp: lastSample_def hasAnySample_def find_None_iff list_ex_iff)

lemma xy_samples_filter: "xy_samples (filter (\<lambda>p. sp_v p \<noteq> None) points) = xy_samples points"
  by (induction points) (auto simp: xy_samples_def split: option.split)

lemma length_xy_samples: "length (xy_samples points) = length (filter (\<lambda>p. sp_v p \<noteq> None) points)"
  by (induction points) (auto simp: xy_samples_def split: option.split)

text \<open>A fit ignores the gaps of the series and never rests on fewer than two samples.\<close>

lemma fit_ignores_gaps: "linearFit (filter (\<lambda>p. sp_v p \<noteq> None) points) = linearFit points"
  unfolding linearFit_def xy_samples_filter ..

lemma fit_samples: "linearFit points = Some fit \<Longrightarrow> 2 \<le> lf_samples fit \<and> lf_samples fit = length (xy_samples points)"
  by (auto simp: linearFit_def Let_def split: if_splits)

subsection \<open>What the projection says\<close>

lemma last_recent: "xs \<noteq> [] \<Longrightarrow> List.last (drop (length xs - Suc n) xs) = List.last xs"
  by (rule last_drop) (simp add: Suc_le_eq)

lemma lastSample_last:
  "lastSample points = (let s = filter (\<lambda>p. sp_v p \<noteq> None) points in if s = [] then None else Some (List.last s))"
  unfolding lastSample_def Let_def
  by (induction points rule: rev_induct) auto


definition draining_series :: "series_point list" where
  "draining_series = [\<lparr>sp_t = 0, sp_v = Some 4\<rparr>, \<lparr>sp_t = 32, sp_v = None\<rparr>, \<lparr>sp_t = 64, sp_v = Some 2\<rparr>]"


lemma marker_quotient:
  assumes "0 \<le> x" "x \<le> of_nat n" "0 < n" "n < 2 ^ 53"
  shows "0 \<le> dbl (dbl x / dbl (of_nat n)) \<and> dbl (dbl x / dbl (of_nat n)) \<le> 1"
proof -
  have "0 \<le> dbl x" "dbl x \<le> of_nat n" using assms dbl_nonneg dbl_mono_exact by auto
  then have "0 \<le> dbl x / of_nat n" "dbl x / of_nat n \<le> of_nat 1" using assms(3) by simp_all
  from dbl_nonneg [OF this(1)] dbl_mono_exact [OF this] show ?thesis by (simp add: dbl_nat [OF assms(4)])
qed

text \<open>A deploy marker is drawn inside the chart or not at all: the fraction is between zero and one, and there is one
  exactly when the chart has a width and the marker's second lies in it.\<close>

theorem marker_inside_chart:
  assumes "endSec - startSec < 2 ^ 53"
  shows "(case markerFraction date_parse at_time startSec endSec of
      None \<Rightarrow> endSec \<le> startSec \<or>
        (case date_parse at_time of None \<Rightarrow> True
         | Some ms \<Rightarrow> dbl (of_int ms / 1000) < of_int startSec \<or> dbl (of_int ms / 1000) > of_int endSec)
    | Some f \<Rightarrow> 0 \<le> f \<and> f \<le> 1 \<and> startSec < endSec)"
proof (cases "date_parse at_time")
  case (Some ms)
  define t where "t = dbl (of_int ms / 1000)"
  show ?thesis
  proof (cases "endSec \<le> startSec \<or> t < of_int startSec \<or> t > of_int endSec")
    case True
    then show ?thesis by (auto simp: markerFraction_def Some t_def Let_def)
  next
    case False
    define n where "n = nat (endSec - startSec)"
    have n: "of_int (endSec - startSec) = (of_nat n :: rat)" "0 < n" "n < 2 ^ 53"
      using False assms by (simp_all add: n_def nat_less_iff)
    have "t - of_int startSec \<le> of_nat n" using False by (simp flip: n(1))
    from marker_quotient [OF _ this n(2,3)] False show ?thesis
      by (simp add: markerFraction_def Some Let_def flip: t_def n(1))
  qed
qed (simp add: markerFraction_def)

lemma marker_inside_chart_witness:
  "0 \<le> the (markerFraction (\<lambda>_. Some 5000) [] 0 10) \<and> the (markerFraction (\<lambda>_. Some 5000) [] 0 10) \<le> 1"
proof -
  have "markerFraction (\<lambda>_. Some 5000) [] 0 10 \<noteq> None"
    by (simp add: markerFraction_def Let_def)
  with marker_inside_chart [of 10 0 "\<lambda>_. Some 5000" "[]"] show ?thesis by auto
qed

end
