(* ===== verification/Schedulers.thy ===== *)
theory Schedulers
  imports ApiConsole Doubles JsSort
begin

text \<open>
  \<open>src/ui/src/lib/schedulers.ts\<close>: the outcome chips, the rows of schedulers that are gone, the order of the
  table, and the queue and retention read from the option strings of an entry. \<open>toLowerCase\<close> is the
  parameter \<open>low\<close> and \<open>Date.parse\<close> the parameter \<open>date_parse\<close>, \<open>None\<close> for \<open>NaN\<close>. What is read from an option is
  compared with the text the server writes, Go's rendering of a whole number of seconds.
\<close>

subsection \<open>Outcomes and gone rows\<close>

definition OUTCOME_TONE :: "(jstring \<times> tone) list" where
  "OUTCOME_TONE = [(js ''succeeded'', Good), (js ''failed'', Crit), (js ''pending'', Info), (js ''unknown'', Mut)]"

definition outcomeTone :: "jstring \<Rightarrow> tone" where
  "outcomeTone outcome = (case map_of OUTCOME_TONE outcome of Some t \<Rightarrow> t | None \<Rightarrow> Mut)"

definition outcomeStamp :: "scheduler_outcome_event \<Rightarrow> jstring" where
  "outcomeStamp ev =
     (if oev_outcome ev = js ''unknown''
      then (case oev_reason ev of Some r \<Rightarrow> r | None \<Rightarrow> js ''task not found'')
      else case oev_state ev of
        Some s \<Rightarrow> if s \<noteq> [] then s @ js ''-state task found'' else []
      | None \<Rightarrow> [])"

definition isGone :: "scheduler_row \<Rightarrow> bool" where
  "isGone row \<longleftrightarrow> (case srow_gone_since row of Some s \<Rightarrow> s \<noteq> [] | None \<Rightarrow> False)"

definition goneLabel :: "(jstring \<Rightarrow> int option) \<Rightarrow> jstring option \<Rightarrow> int \<Rightarrow> jstring" where
  "goneLabel date_parse goneSince nowMs = (case goneSince of
     None \<Rightarrow> []
   | Some s \<Rightarrow>
       if s = [] then []
       else (case date_parse s of
         None \<Rightarrow> []
       | Some t \<Rightarrow> js ''last seen '' @ humanize (max 0 (nowMs - t)) @ js '' ago''))"

definition scheduler_order :: "scheduler_row \<Rightarrow> scheduler_row \<Rightarrow> rat" where
  "scheduler_order a b =
     (let ag = (if isGone a then 0 else 1); bg = (if isGone b then 0 else 1)
      in if ag \<noteq> bg then ag - bg
         else if entry_task_type (srow_entry a) \<noteq> entry_task_type (srow_entry b)
         then cmp2 (entry_task_type (srow_entry a)) (entry_task_type (srow_entry b))
         else if entry_spec (srow_entry a) \<noteq> entry_spec (srow_entry b)
         then cmp2 (entry_spec (srow_entry a)) (entry_spec (srow_entry b))
         else cmp2 (srow_stable_key a) (srow_stable_key b))"

definition sortSchedulerRows :: "scheduler_row list \<Rightarrow> scheduler_row list" where
  "sortSchedulerRows rows = js_sort scheduler_order rows"

definition filterSchedulerRows :: "(jstring \<Rightarrow> jstring) \<Rightarrow> scheduler_row list \<Rightarrow> jstring \<Rightarrow> scheduler_row list" where
  "filterSchedulerRows low rows f =
     (let q = low (trim f)
      in if q = [] then rows
         else filter (\<lambda>r. js_includes q (low (entry_task_type (srow_entry r))) \<or> js_includes q (low (entry_spec (srow_entry r)))) rows)"

subsection \<open>Option strings\<close>

text \<open>What follows a prefix.\<close>

definition after :: "jstring \<Rightarrow> jstring \<Rightarrow> jstring option" where
  "after p s = (if starts_with p s then Some (drop (length p) s) else None)"

text \<open>\<open>o.match(/^Queue\("?([^")]+)"?\)$/)?.[1]\<close>.\<close>

definition queue_match :: "jstring \<Rightarrow> jstring option" where
  "queue_match s = (case after (js ''Queue('') s of
     None \<Rightarrow> None
   | Some r \<Rightarrow>
       let body = (case r of c # t \<Rightarrow> if c = 34 then t else r | [] \<Rightarrow> []);
           name = takeWhile (\<lambda>c. c \<noteq> 34 \<and> c \<noteq> 41) body;
           rest = dropWhile (\<lambda>c. c \<noteq> 34 \<and> c \<noteq> 41) body
       in if name \<noteq> [] \<and> (rest = [34, 41] \<or> rest = [41]) then Some name else None)"

definition queueFromOptions :: "jstring list option \<Rightarrow> jstring" where
  "queueFromOptions options = (case first_some queue_match (case options of Some os \<Rightarrow> os | None \<Rightarrow> []) of
     Some name \<Rightarrow> name | None \<Rightarrow> js ''default'')"

text \<open>
  One match of \<open>/(\d+(?:\.\d+)?)(ms|h|m|s)/\<close> at the start of a text: the amount as \<open>parseFloat\<close> reads it, the
  seconds per unit, and the rest. No shorter run of digits can match, since a unit is not a digit.
\<close>

definition go_amount :: "jstring \<Rightarrow> (rat \<times> jstring) option" where
  "go_amount s =
     (let ds = takeWhile is_digit s; r = dropWhile is_digit s
      in if ds = [] then None
         else let fs = (case r of c # t \<Rightarrow> if c = 46 then takeWhile is_digit t else [] | [] \<Rightarrow> [])
              in if fs = [] then Some (dbl (of_nat (digits_value ds)), r)
                 else Some (dbl (of_nat (digits_value (ds @ fs)) / 10 ^ length fs), drop (Suc (length fs)) r))"

definition go_unit :: "jstring \<Rightarrow> (rat \<times> jstring) option" where
  "go_unit s = (case s of
     c # d # r \<Rightarrow>
       if c = 109 \<and> d = 115 then Some (dbl (1 / 1000), r)
       else if c = 104 then Some (3600, d # r) else if c = 109 then Some (60, d # r) else if c = 115 then Some (1, d # r)
       else None
   | [c] \<Rightarrow> if c = 104 then Some (3600, []) else if c = 109 then Some (60, []) else if c = 115 then Some (1, []) else None
   | [] \<Rightarrow> None)"

definition go_match :: "jstring \<Rightarrow> (rat \<times> jstring) option" where
  "go_match s = (case go_amount s of
     None \<Rightarrow> None
   | Some (a, r) \<Rightarrow> (case go_unit r of None \<Rightarrow> None | Some (u, r') \<Rightarrow> Some (dbl (a * u), r')))"

text \<open>A match takes something off the text.\<close>

lemma go_amount_shorter: "go_amount s = Some (a, r) \<Longrightarrow> length r < length s"
proof -
  have "length (dropWhile is_digit s) < length s" if "takeWhile is_digit s \<noteq> []"
    using that takeWhile_dropWhile_id [of is_digit s] by (metis length_append length_greater_0_conv less_add_same_cancel2)
  then show "go_amount s = Some (a, r) \<Longrightarrow> length r < length s"
    by (auto simp: go_amount_def Let_def split: if_splits)
qed

lemma go_unit_shorter: "go_unit s = Some (u, r) \<Longrightarrow> length r < length s"
  by (auto simp: go_unit_def split: list.splits if_splits)

lemma go_match_shorter: "go_match s = Some (x, r) \<Longrightarrow> length r < length s"
  by (auto simp: go_match_def dest!: go_amount_shorter go_unit_shorter split: option.splits prod.splits)

text \<open>
  The total over the matches. A place where none starts is skipped by \<open>matchAll\<close> and makes the matched length
  too short, so the answer is \<open>None\<close> wherever the matches do not follow one another.
\<close>

function go_total :: "rat \<Rightarrow> jstring \<Rightarrow> rat option" where
  "go_total acc s =
     (if s = [] then Some acc
      else case go_match s of None \<Rightarrow> None | Some (x, r) \<Rightarrow> go_total (dbl (acc + x)) r)"
  by pat_completeness auto
termination by (relation "measure (\<lambda>(t, s). length s)") (auto dest: go_match_shorter)

declare go_total.simps [simp del]

definition parseGoDuration :: "jstring \<Rightarrow> int option" where
  "parseGoDuration s =
     (let trimmed = trim s
      in if trimmed = [] \<or> trimmed = js ''0'' \<or> trimmed = js ''0s'' then Some 0
         else map_option floor (go_total 0 trimmed))"

text \<open>\<open>o.match(/^Retention\(([^)]+)\)$/)?.[1]\<close>.\<close>

definition retention_match :: "jstring \<Rightarrow> jstring option" where
  "retention_match s = (case after (js ''Retention('') s of
     None \<Rightarrow> None
   | Some r \<Rightarrow>
       let spec = takeWhile (\<lambda>c. c \<noteq> 41) r
       in if spec \<noteq> [] \<and> dropWhile (\<lambda>c. c \<noteq> 41) r = [41] then Some spec else None)"

definition retentionSecondsFromOptions :: "jstring list option \<Rightarrow> int" where
  "retentionSecondsFromOptions options =
     (case first_some retention_match (case options of Some os \<Rightarrow> os | None \<Rightarrow> []) of
        Some spec \<Rightarrow> (case parseGoDuration spec of Some n \<Rightarrow> n | None \<Rightarrow> 0)
      | None \<Rightarrow> 0)"

definition retentionLabel :: "int \<Rightarrow> jstring" where
  "retentionLabel seconds = (if seconds \<le> 0 then js ''Retention 0'' else js ''Retention '' @ humanize (seconds * 1000))"

definition RETENTION_GUIDANCE :: jstring where
  "RETENTION_GUIDANCE =
     js ''Task no longer in Redis. This scheduler'' @ [39] @ js ''s tasks have Retention=0, so '' @
     js ''successful completions are deleted immediately '' @ [8212] @ js '' success is unknowable. '' @
     js ''Set asynq.Retention on the entry to make outcomes traceable.''"

definition showRetentionGuidance :: "int \<Rightarrow> scheduler_outcome_event list option \<Rightarrow> bool" where
  "showRetentionGuidance retentionSeconds events \<longleftrightarrow>
     retentionSeconds = 0 \<and>
     list_ex (\<lambda>ev. oev_outcome ev = js ''unknown'') (case events of Some es \<Rightarrow> es | None \<Rightarrow> [])"

subsection \<open>The order of the table\<close>

definition scheduler_key :: "scheduler_row \<Rightarrow> nat \<times> jstring \<times> jstring \<times> jstring" where
  "scheduler_key r =
     (if isGone r then 0 else 1, entry_task_type (srow_entry r), entry_spec (srow_entry r), srow_stable_key r)"

interpretation schedulers: comparator scheduler_order scheduler_key
  by unfold_locales (auto simp: scheduler_order_def scheduler_key_def cmp2_def Let_def split: if_splits)

text \<open>The table of schedulers does not move between polls: rows with distinct keys are listed in one order, whatever
  order the server sends them in, and it is by gone first, then type, then spec. So no live row stands
  above a gone one.\<close>

theorem scheduler_table_stable:
  assumes "mset rows = mset rows'" and "distinct (map srow_stable_key rows)"
  shows "sortSchedulerRows rows = sortSchedulerRows rows' \<and>
    sorted (map scheduler_key (sortSchedulerRows rows)) \<and> mset (sortSchedulerRows rows) = mset rows \<and>
    sorted_wrt (\<lambda>a b. isGone b \<longrightarrow> isGone a) (sortSchedulerRows rows)"
proof -
  have m: "mset (map srow_stable_key rows) = mset (map srow_stable_key rows')" using assms(1) by (simp only: mset_map)
  have d: "distinct (map scheduler_key xs)" if "distinct (map srow_stable_key xs)" for xs
    using that by (auto simp: distinct_map inj_on_def scheduler_key_def)
  have d1: "distinct (map scheduler_key rows)" "distinct (map scheduler_key rows')"
    using d assms(2) mset_eq_imp_distinct_iff [OF m] by blast+
  have s: "sortSchedulerRows rows = sort_key scheduler_key rows" "sortSchedulerRows rows' = sort_key scheduler_key rows'"
    unfolding sortSchedulerRows_def by (simp_all add: schedulers.sort_distinct d1)
  have "sort_key scheduler_key rows = sort_key scheduler_key rows'"
    using assms(1) d1(1) by (intro sort_key_inj_key_eq) (simp_all add: distinct_map)
  moreover have sorted: "sorted (map scheduler_key (sortSchedulerRows rows))"
    unfolding sortSchedulerRows_def by (rule schedulers.sorted)
  have "sorted_wrt (\<lambda>a b. isGone b \<longrightarrow> isGone a) (sortSchedulerRows rows)"
    using sorted unfolding sorted_map
    by (rule sorted_wrt_mono_rel [rotated]) (auto simp: scheduler_key_def split: if_splits)
  ultimately show ?thesis using s sorted by (simp add: sortSchedulerRows_def assms(1))
qed

definition sample_scheduler :: "jstring \<Rightarrow> jstring option \<Rightarrow> scheduler_row" where
  "sample_scheduler k gone =
     \<lparr>srow_stable_key = k,
      srow_entry = \<lparr>entry_id = k, entry_spec = js ''@every 1m'', entry_task_type = js ''sync'', entry_task_payload = [],
        entry_options = [], entry_next_enqueue_at = [], entry_prev_enqueue_at = None\<rparr>,
      srow_live = True, srow_first_seen = [], srow_last_seen = [], srow_gone_since = gone, srow_live_count = None\<rparr>"

lemma scheduler_table_stable_witness:
  "sortSchedulerRows [sample_scheduler (js ''a'') None, sample_scheduler (js ''b'') (Some (js ''2026''))] =
   sortSchedulerRows [sample_scheduler (js ''b'') (Some (js ''2026'')), sample_scheduler (js ''a'') None]"
  using scheduler_table_stable [of
      "[sample_scheduler (js ''a'') None, sample_scheduler (js ''b'') (Some (js ''2026''))]"
      "[sample_scheduler (js ''b'') (Some (js ''2026'')), sample_scheduler (js ''a'') None]"]
  by (simp add: sample_scheduler_def js_def)

subsection \<open>Options as the server writes them\<close>

text \<open>Go's \<open>Duration.String\<close> of a whole number of seconds.\<close>

definition go_duration :: "nat \<Rightarrow> jstring" where
  "go_duration n =
     (let h = n div 3600; m = n mod 3600 div 60; s = n mod 60
      in (if h > 0 then js_of_nat h @ js ''h'' else []) @ (if h > 0 \<or> m > 0 then js_of_nat m @ js ''m'' else []) @
         js_of_nat s @ js ''s'')"

lemma takeWhile_digits: "c \<noteq> [] \<Longrightarrow> \<not> is_digit (hd c) \<Longrightarrow>
   takeWhile is_digit (js_of_nat n @ c) = js_of_nat n \<and> dropWhile is_digit (js_of_nat n @ c) = c"
  using js_of_nat_digits [of n] by (cases c) (simp_all add: takeWhile_append2 dropWhile_append2)

text \<open>One component of a duration.\<close>

lemma go_match_component:
  assumes "n < 2 ^ 53" "\<not> is_digit (hd c)" "hd c \<noteq> 46" "go_unit c = Some (u, r)"
  shows "go_match (js_of_nat n @ c) = Some (dbl (of_nat n * u), r)"
proof -
  have "c \<noteq> []" using assms(4) by (auto simp: go_unit_def)
  with assms takeWhile_digits [of c n] show ?thesis
    by (cases c) (simp_all add: go_match_def go_amount_def dbl_nat)
qed

lemma go_total_component:
  assumes "go_match s = Some (x, r)"
  shows "go_total t s = go_total (dbl (t + x)) r"
proof -
  have "s \<noteq> []" using assms by (auto simp: go_match_def go_amount_def)
  with assms show ?thesis by (subst go_total.simps) simp
qed

lemma go_total_step:
  assumes "n < 2 ^ 53" "\<not> is_digit (hd c)" "hd c \<noteq> 46" "go_unit c = Some (of_nat u, r)" "a + n * u < 2 ^ 53"
  shows "go_total (of_nat a) (js_of_nat n @ c) = go_total (of_nat (a + n * u)) r"
proof -
  have "dbl (of_nat n * of_nat u) = of_nat (n * u)" "dbl (of_nat a + of_nat (n * u)) = of_nat (a + n * u)"
    using assms(5) dbl_nat [of "n * u"] dbl_nat [of "a + n * u"] by simp_all
  then show ?thesis
    using go_total_component [OF go_match_component [OF assms(1-4)], of "of_nat a"] by simp
qed

lemma go_units:
  "go_unit (104 # js_of_nat k @ r) = Some (of_nat 3600, js_of_nat k @ r)"
  "go_unit (109 # js_of_nat k @ r) = Some (of_nat 60, js_of_nat k @ r)" "go_unit [115] = Some (of_nat 1, [])"
proof -
  obtain c t where c: "js_of_nat k = c # t" "is_digit c"
    using js_of_nat_digits [of k] js_of_nat_nonempty [of k] by (cases "js_of_nat k") auto
  then have "c \<noteq> 115" by (auto simp: is_digit_def)
  with c show "go_unit (104 # js_of_nat k @ r) = Some (of_nat 3600, js_of_nat k @ r)"
    "go_unit (109 # js_of_nat k @ r) = Some (of_nat 60, js_of_nat k @ r)" "go_unit [115] = Some (of_nat 1, [])"
    by (simp_all add: go_unit_def)
qed

lemma go_duration_plain: "\<forall>c \<in> set (go_duration n). c \<noteq> 41 \<and> \<not> is_ws c"
  using js_of_nat_digits is_digit_not_ws
  by (fastforce simp: go_duration_def Let_def js_def is_digit_def is_ws_def)

lemma go_duration_nonempty: "go_duration n \<noteq> []"
  by (simp add: go_duration_def Let_def)

lemma go_total_duration:
  assumes "n < 2 ^ 53"
  shows "go_total 0 (go_duration n) = Some (of_nat n)"
proof -
  let ?h = "n div 3600" and ?m = "n mod 3600 div 60" and ?s = "n mod 60"
  have sum: "?h * 3600 + ?m * 60 + ?s = n"
  proof -
    have "n mod 3600 mod 60 = n mod 60" by (rule mod_mod_cancel) simp
    with div_mult_mod_eq [of n 3600] div_mult_mod_eq [of "n mod 3600" 60] show ?thesis by linarith
  qed
  note u = go_units
  have small: "?h < 2 ^ 53" "?m < 2 ^ 53" "?s < 2 ^ 53" "a \<le> n \<Longrightarrow> a < 2 ^ 53" for a
    using assms sum by linarith+
  have nd: "\<not> is_digit 104" "\<not> is_digit 109" "\<not> is_digit 115" by (simp_all add: is_digit_def)
  have last: "go_total (of_nat a) (js_of_nat ?s @ [115]) = Some (of_nat (a + ?s))" if "a + ?s \<le> n" for a
    using go_total_step [OF small(3), of "[115]" 1 "[]" a] u(3) nd small(4) [OF that]
    by (simp add: go_total.simps [of _ "[]"])
  have mins: "go_total (of_nat a) (js_of_nat ?m @ 109 # js_of_nat ?s @ [115]) = Some (of_nat (a + ?m * 60 + ?s))"
    if "a + ?m * 60 + ?s \<le> n" for a
    using go_total_step [OF small(2), of "109 # js_of_nat ?s @ [115]" 60 "js_of_nat ?s @ [115]" a] u(2) [of ?s "[115]"] nd
      small(4) [of "a + ?m * 60"] last [of "a + ?m * 60"] that by simp
  have hours: "go_total (of_nat 0) (js_of_nat ?h @ 104 # js_of_nat ?m @ 109 # js_of_nat ?s @ [115]) = Some (of_nat n)"
    using go_total_step [OF small(1), of "104 # js_of_nat ?m @ 109 # js_of_nat ?s @ [115]" 3600 _ 0]
      u(1) [of ?m "109 # js_of_nat ?s @ [115]"] nd small(4) [of "?h * 3600"] mins [of "?h * 3600"] sum by simp
  have minutes: "go_total 0 (js_of_nat ?m @ 109 # js_of_nat ?s @ [115]) = Some (of_nat n)" if "?h = 0"
  proof -
    have "0 + ?m * 60 + ?s = n" using sum that by linarith
    with mins [of 0] show ?thesis by (simp only: of_nat_0 order_refl)
  qed
  have seconds: "go_total 0 (js_of_nat ?s @ [115]) = Some (of_nat n)" if "?h = 0" "?m = 0"
  proof -
    have "0 + ?s = n" using sum that by linarith
    with last [of 0] show ?thesis by (simp only: of_nat_0 order_refl)
  qed
  consider "0 < ?h" | "?h = 0" "0 < ?m" | "?h = 0" "?m = 0" by blast
  then show ?thesis
  proof cases
    case 1
    then show ?thesis using hours by (simp add: go_duration_def js_def)
  next
    case 2
    then show ?thesis using minutes unfolding go_duration_def Let_def by (simp add: js_def del: div_greater_zero_iff)
  next
    case 3
    then show ?thesis using seconds unfolding go_duration_def Let_def by (simp add: js_def del: div_eq_0_iff)
  qed
qed

lemma parse_go_duration:
  assumes "n < 2 ^ 53"
  shows "parseGoDuration (go_duration n) = Some (int n)"
proof -
  have t: "trim (go_duration n) = go_duration n"
    using go_duration_plain [of n] go_duration_nonempty [of n] by (intro trim_id) simp
  have "n = 0" if "go_duration n = js ''0s''"
  proof -
    have "go_total 0 (js ''0s'') = Some (of_nat n)" using go_total_duration [OF assms] that by simp
    moreover have "go_total 0 (go_duration 0) = Some (of_nat 0)" by (rule go_total_duration) simp
    moreover have "go_duration 0 = js ''0s''" by (simp add: go_duration_def js_def js_of_nat.simps)
    ultimately show ?thesis by simp
  qed
  moreover have "go_duration n \<noteq> js ''0''"
  proof
    assume "go_duration n = js ''0''"
    then have "List.last (go_duration n) = 48" by (simp add: js_def)
    then show False by (simp add: go_duration_def Let_def js_def)
  qed
  moreover have "trim (js ''0s'') = js ''0s''" by (simp add: js_def trim_def trim_start_def is_ws_def)
  ultimately show ?thesis
    using go_total_duration [OF assms] go_duration_nonempty [of n]
    by (cases "go_duration n = js ''0s''") (simp_all add: parseGoDuration_def t Let_def)
qed

definition retention_option :: "nat \<Rightarrow> jstring" where
  "retention_option n = js ''Retention('' @ go_duration n @ js '')''"

definition queue_option :: "jstring \<Rightarrow> jstring" where
  "queue_option name = js ''Queue('' @ [34] @ name @ [34, 41]"

lemma after_prefix [simp]: "after p (p @ s) = Some s"
  by (simp add: after_def)

lemma takeWhile_until: "\<forall>c \<in> set s. P c \<Longrightarrow> \<not> P d \<Longrightarrow>
   takeWhile P (s @ d # r) = s \<and> dropWhile P (s @ d # r) = d # r"
  by (simp add: takeWhile_append2 dropWhile_append2)

lemma retention_option_read: "retention_match (retention_option n) = Some (go_duration n)"
  using go_duration_plain [of n] go_duration_nonempty [of n] takeWhile_until [of "go_duration n" "\<lambda>c. c \<noteq> 41" 41 "[]"]
  by (simp add: retention_match_def retention_option_def Let_def js_def [of "'')''"])

lemma queue_option_read: "name \<noteq> [] \<Longrightarrow> 34 \<notin> set name \<Longrightarrow> 41 \<notin> set name \<Longrightarrow> queue_match (queue_option name) = Some name"
proof -
  assume n: "name \<noteq> []" "34 \<notin> set name" "41 \<notin> set name"
  then have "takeWhile (\<lambda>c. c \<noteq> 34 \<and> c \<noteq> 41) (name @ [34, 41]) = name \<and>
      dropWhile (\<lambda>c. c \<noteq> 34 \<and> c \<noteq> 41) (name @ [34, 41]) = [34, 41]"
    by (intro takeWhile_until) auto
  with n show ?thesis by (simp add: queue_match_def queue_option_def Let_def)
qed

lemma first_some_skip: "list_all (\<lambda>x. f x = None) xs \<Longrightarrow> first_some f (xs @ ys) = first_some f ys"
  by (induction xs) simp_all

text \<open>The options of an entry are read as the server means them: the retention badge shows the whole seconds of the
  first retention option, whatever other options stand before it, and the link goes to the first queue
  option's queue when its name has neither a quote nor a closing parenthesis.\<close>

theorem scheduler_options_read:
  assumes "list_all (\<lambda>x. retention_match x = None) os" "n < 2 ^ 53"
    and "list_all (\<lambda>x. queue_match x = None) ps" "name \<noteq> []" "34 \<notin> set name" "41 \<notin> set name"
  shows "retentionSecondsFromOptions (Some (os @ retention_option n # os')) = int n \<and>
    queueFromOptions (Some (ps @ queue_option name # ps')) = name"
  using assms
  by (simp add: retentionSecondsFromOptions_def queueFromOptions_def first_some_skip retention_option_read
      queue_option_read parse_go_duration)

lemma scheduler_options_read_witness:
  "retentionSecondsFromOptions (Some [js ''MaxRetry(5)'', retention_option 5400]) = 5400 \<and>
   queueFromOptions (Some [js ''MaxRetry(5)'', queue_option (js ''critical''), retention_option 5400]) = js ''critical''"
  using scheduler_options_read [of "[js ''MaxRetry(5)'']" 5400 "[js ''MaxRetry(5)'']" "js ''critical''" "[]"
      "[retention_option 5400]"]
  by (simp add: retention_match_def queue_match_def after_def starts_with_def js_def)

text \<open>A queue whose name has a closing parenthesis is taken for the default queue.\<close>

lemma queue_with_parenthesis_is_default: "queueFromOptions (Some [queue_option (js ''mail(eu)'')]) = js ''default''"
  by (simp add: queueFromOptions_def queue_match_def queue_option_def after_def starts_with_def js_def)

end
