(* ===== verification/Workers.thy ===== *)
theory Workers
  imports UrlState Api ApiConsole Doubles JsSort
begin

text \<open>
  \<open>src/ui/src/lib/workers.ts\<close>: how much of its deadline a worker has used, the ranking of the stuck workers of
  the fleet, the coverage chips and the link to an active task. \<open>Date.parse\<close> is the parameter
  \<open>date_parse\<close>, \<open>None\<close> for \<open>NaN\<close>, and \<open>toLowerCase\<close> the parameter \<open>low\<close>.
\<close>

subsection \<open>Budgets\<close>

record worker_budget =
  wb_elapsedMs :: "int option"
  wb_budgetMs :: "int option"
  wb_pct :: "rat option"

definition wire_instant :: "(jstring \<Rightarrow> int option) \<Rightarrow> jstring option \<Rightarrow> int option" where
  "wire_instant date_parse raw = (case raw of
     None \<Rightarrow> None
   | Some s \<Rightarrow> if s = [] then None else (case date_parse s of None \<Rightarrow> None | Some t \<Rightarrow> if t \<le> 0 then None else Some t))"

definition workerBudget :: "(jstring \<Rightarrow> int option) \<Rightarrow> jstring option \<Rightarrow> jstring option \<Rightarrow> int \<Rightarrow> worker_budget" where
  "workerBudget date_parse startTime deadline nowMs = (case wire_instant date_parse startTime of
     None \<Rightarrow> \<lparr>wb_elapsedMs = None, wb_budgetMs = None, wb_pct = None\<rparr>
   | Some start \<Rightarrow>
       let elapsed = max 0 (nowMs - start)
       in case wire_instant date_parse deadline of
            None \<Rightarrow> \<lparr>wb_elapsedMs = Some elapsed, wb_budgetMs = None, wb_pct = None\<rparr>
          | Some e \<Rightarrow>
              if e \<le> start then \<lparr>wb_elapsedMs = Some elapsed, wb_budgetMs = None, wb_pct = None\<rparr>
              else \<lparr>wb_elapsedMs = Some elapsed, wb_budgetMs = Some (e - start),
                    wb_pct = Some (dbl (of_int elapsed / of_int (e - start)))\<rparr>)"

definition budgetTone :: "number option \<Rightarrow> tone option" where
  "budgetTone pct = (case pct of
     Some (Finite x) \<Rightarrow> if x \<ge> dbl (9 / 10) then Some Crit else if x \<ge> 3 / 4 then Some Warn else None
   | _ \<Rightarrow> None)"

subsection \<open>Stuck workers\<close>

record stuck_worker =
  sw_serverId :: jstring
  sw_host :: jstring
  sw_pid :: int
  sw_worker :: worker_info
  sw_elapsedMs :: int
  sw_budgetMs :: int
  sw_pct :: rat

text \<open>The row of a worker, if its budget can be computed.\<close>

definition worker_row :: "(jstring \<Rightarrow> int option) \<Rightarrow> int \<Rightarrow> server_info \<Rightarrow> worker_info \<Rightarrow> stuck_worker list" where
  "worker_row date_parse nowMs s w =
     (let b = workerBudget date_parse (Some (w_start_time w)) (Some (w_deadline w)) nowMs
      in case (wb_pct b, wb_budgetMs b, wb_elapsedMs b) of
           (Some p, Some bm, Some em) \<Rightarrow>
             [\<lparr>sw_serverId = s_id s, sw_host = s_host s, sw_pid = s_pid s, sw_worker = w, sw_elapsedMs = em,
               sw_budgetMs = bm, sw_pct = p\<rparr>]
         | _ \<Rightarrow> [])"

definition server_rows :: "(jstring \<Rightarrow> int option) \<Rightarrow> int \<Rightarrow> server_info \<Rightarrow> stuck_worker list" where
  "server_rows date_parse nowMs s = concat (map (worker_row date_parse nowMs s) (s_active_workers s))"

text \<open>The difference of two shares is left exact: only its sign matters, which rounding keeps (\<open>dbl_difference\<close>).\<close>

definition stuck_order :: "stuck_worker \<Rightarrow> stuck_worker \<Rightarrow> rat" where
  "stuck_order a b =
     (if sw_pct b \<noteq> sw_pct a then sw_pct b - sw_pct a
      else if sw_elapsedMs b \<noteq> sw_elapsedMs a then of_int (sw_elapsedMs b - sw_elapsedMs a)
      else cmp2 (w_task_id (sw_worker a)) (w_task_id (sw_worker b)))"

definition stuckWorkers :: "(jstring \<Rightarrow> int option) \<Rightarrow> server_info list \<Rightarrow> int \<Rightarrow> nat \<Rightarrow> stuck_worker list" where
  "stuckWorkers date_parse servers nowMs limit =
     take limit (js_sort stuck_order (concat (map (server_rows date_parse nowMs) servers)))"

subsection \<open>Coverage\<close>

definition COVERAGE_TONE :: "(jstring \<times> tone) list" where
  "COVERAGE_TONE = [(js ''uncovered'', Crit), (js ''starved'', Warn), (js ''ok'', Good)]"

definition coverageChipLabel :: "jstring \<Rightarrow> jstring" where
  "coverageChipLabel status =
     (if status = js ''uncovered'' then js ''UNCOVERED'' else if status = js ''starved'' then js ''STARVED''
      else js ''COVERED'')"

definition filterCoverageRows :: "(jstring \<Rightarrow> jstring) \<Rightarrow> coverage_row list \<Rightarrow> jstring \<Rightarrow> coverage_row list" where
  "filterCoverageRows low rows query =
     (let q = low (trim query) in if q = [] then rows else filter (\<lambda>r. js_includes q (low (cov_queue r))) rows)"

subsection \<open>The link to an active task\<close>

definition activeDrawerParams :: "jstring \<Rightarrow> jstring \<Rightarrow> params" where
  "activeDrawerParams queue taskId =
     set_param
       (serializeConsoleState
         (DEFAULT_CONSOLE_STATE\<lparr>cs_q := aqlFromLegacy
            \<lparr>lp_queue = Some queue, lp_state = Some (js ''active''), lp_meta = [], lp_freeText = None\<rparr>\<rparr>) [])
       (js ''peek'') (serializePeek \<lparr>pt_queue = queue, pt_id = taskId\<rparr>)"

definition activeTaskDrawerSearch :: "jstring \<Rightarrow> jstring \<Rightarrow> jstring" where
  "activeTaskDrawerSearch queue taskId = js ''?'' @ params_toString (activeDrawerParams queue taskId)"

subsection \<open>The ranking\<close>

text \<open>Worst first: by share of the budget, then by elapsed time, then by task id.\<close>

definition stuck_key :: "stuck_worker \<Rightarrow> rat \<times> int \<times> jstring" where
  "stuck_key r = (- sw_pct r, - sw_elapsedMs r, w_task_id (sw_worker r))"

interpretation stuck: comparator stuck_order stuck_key
  by unfold_locales (auto simp: stuck_order_def stuck_key_def cmp2_def split: if_splits)

lemma budget_computed:
  assumes "wb_pct (workerBudget date_parse st dl now) = Some p"
  shows "\<exists>em bm. wb_elapsedMs (workerBudget date_parse st dl now) = Some em \<and>
    wb_budgetMs (workerBudget date_parse st dl now) = Some bm \<and> 0 \<le> em \<and> 0 < bm \<and> p = dbl (of_int em / of_int bm)"
proof -
  obtain b where b: "wire_instant date_parse st = Some b"
    using assms by (cases "wire_instant date_parse st") (simp_all add: workerBudget_def)
  moreover obtain e where e: "wire_instant date_parse dl = Some e" "b < e"
    using assms b by (cases "wire_instant date_parse dl") (auto simp: workerBudget_def Let_def split: if_splits)
  ultimately show ?thesis using assms by (simp add: workerBudget_def Let_def)
qed

lemma worker_row_budget:
  assumes "r \<in> set (worker_row date_parse nowMs s w)"
  shows "0 \<le> sw_elapsedMs r \<and> 0 < sw_budgetMs r \<and> sw_pct r = dbl (of_int (sw_elapsedMs r) / of_int (sw_budgetMs r)) \<and>
   sw_worker r = w \<and> sw_serverId r = s_id s"
proof -
  let ?b = "workerBudget date_parse (Some (w_start_time w)) (Some (w_deadline w)) nowMs"
  obtain p where p: "wb_pct ?b = Some p" using assms by (cases "wb_pct ?b") (simp_all add: worker_row_def)
  from budget_computed [OF p] assms show ?thesis by (auto simp: worker_row_def Let_def p)
qed

lemma server_rows_budget:
  assumes "r \<in> set (server_rows date_parse nowMs s)"
  shows "0 \<le> sw_elapsedMs r \<and> 0 < sw_budgetMs r \<and> sw_pct r = dbl (of_int (sw_elapsedMs r) / of_int (sw_budgetMs r)) \<and>
   s_id s = sw_serverId r \<and> sw_worker r \<in> set (s_active_workers s)"
proof -
  obtain w where "w \<in> set (s_active_workers s)" "r \<in> set (worker_row date_parse nowMs s w)"
    using assms by (auto simp: server_rows_def)
  with worker_row_budget [OF this(2)] show ?thesis by simp
qed

lemma sorted_take_drop: "sorted xs \<Longrightarrow> x \<in> set (take n xs) \<Longrightarrow> y \<in> set (drop n xs) \<Longrightarrow> x \<le> y"
  by (metis append_take_drop_id sorted_append)

text \<open>The stuck-worker table is the top of the fleet: it lists as many workers as asked for, worst share of the budget
  first, none of them without a deadline after its start, and no worker left out ranks before one
  that is listed.\<close>

theorem stuck_workers_top:
  "length (stuckWorkers date_parse servers nowMs limit) =
     min limit (length (concat (map (server_rows date_parse nowMs) servers))) \<and>
   sorted (map stuck_key (stuckWorkers date_parse servers nowMs limit)) \<and>
   (\<exists>left_out. mset (stuckWorkers date_parse servers nowMs limit) + mset left_out =
        mset (concat (map (server_rows date_parse nowMs) servers)) \<and>
      list_all (\<lambda>r. list_all (\<lambda>l. stuck_key r \<le> stuck_key l) left_out) (stuckWorkers date_parse servers nowMs limit)) \<and>
   list_all (\<lambda>r. 0 \<le> sw_elapsedMs r \<and> 0 < sw_budgetMs r \<and>
       sw_pct r = dbl (of_int (sw_elapsedMs r) / of_int (sw_budgetMs r)) \<and>
       list_ex (\<lambda>s. s_id s = sw_serverId r \<and> sw_worker r \<in> set (s_active_workers s)) servers)
     (stuckWorkers date_parse servers nowMs limit)"
proof -
  let ?all = "concat (map (server_rows date_parse nowMs) servers)"
  let ?xs = "js_sort stuck_order ?all"
  have sorted: "sorted (map stuck_key ?xs)" by (rule stuck.sorted)
  have key: "stuck_key r \<le> stuck_key l" if "r \<in> set (take limit ?xs)" "l \<in> set (drop limit ?xs)" for r l
    using sorted_take_drop [OF sorted, of "stuck_key r" limit "stuck_key l"] that by (simp add: take_map drop_map)
  have "mset (take limit ?xs) + mset (drop limit ?xs) = mset ?all"
    by (metis append_take_drop_id mset_append mset_js_sort)
  then have left: "\<exists>left_out. mset (take limit ?xs) + mset left_out = mset ?all \<and>
      list_all (\<lambda>r. list_all (\<lambda>l. stuck_key r \<le> stuck_key l) left_out) (take limit ?xs)"
    using key by (intro exI [of _ "drop limit ?xs"]) (simp add: list_all_iff)
  have "sorted (map stuck_key (take limit ?xs))" using sorted_wrt_take [OF sorted] by (simp add: take_map)
  moreover have "list_all (\<lambda>r. 0 \<le> sw_elapsedMs r \<and> 0 < sw_budgetMs r \<and>
       sw_pct r = dbl (of_int (sw_elapsedMs r) / of_int (sw_budgetMs r)) \<and>
       list_ex (\<lambda>s. s_id s = sw_serverId r \<and> sw_worker r \<in> set (s_active_workers s)) servers) (take limit ?xs)"
    unfolding list_all_iff list_ex_iff
  proof
    fix r assume "r \<in> set (take limit ?xs)"
    then have "r \<in> set ?all" using in_set_takeD by fastforce
    then obtain s where "s \<in> set servers" "r \<in> set (server_rows date_parse nowMs s)" by auto
    with server_rows_budget [OF this(2)] show "0 \<le> sw_elapsedMs r \<and> 0 < sw_budgetMs r \<and>
       sw_pct r = dbl (of_int (sw_elapsedMs r) / of_int (sw_budgetMs r)) \<and>
       (\<exists>s \<in> set servers. s_id s = sw_serverId r \<and> sw_worker r \<in> set (s_active_workers s))" by blast
  qed
  ultimately show ?thesis using left unfolding stuckWorkers_def by (simp add: min.commute)
qed

subsection \<open>The link reads back\<close>

text \<open>The link to an active task opens the console on the worker's queue and the active state, on the first page, with
  the drawer on the task.\<close>

theorem active_link_opens_task:
  assumes "plain_value (js ''='') qn" and "well_formed qn" and "qn \<noteq> js ''all''"
    and "i \<noteq> []" and "47 \<notin> set i" and "well_formed i"
  shows "cs_queue (parseConsoleState (activeDrawerParams qn i)) = qn \<and>
    cs_state (parseConsoleState (activeDrawerParams qn i)) = Active \<and>
    cs_page (parseConsoleState (activeDrawerParams qn i)) = 0 \<and>
    parsePeek (get_param (activeDrawerParams qn i) (js ''peek'')) = Some \<lparr>pt_queue = qn, pt_id = i\<rparr>"
proof -
  let ?qt = "js ''queue'' @ js ''='' @ quoteAqlValue qn" and ?st = "js ''state'' @ js ''='' @ quoteAqlValue (js ''active'')"
  have named: "map_of CONSOLE_STATES (js ''active'') = Some Active" by (simp add: CONSOLE_STATES_def)
  note sv = state_value_plain [OF named]
  note qt = clause_eq_written [where f = "js ''queue''", OF _ assms(1), simplified]
  note st = clause_eq_written [where f = "js ''state''", OF _ sv(1), simplified]
  have ne: "qn \<noteq> []" using assms(1) by (simp add: plain_value_def)
  let ?q = "join (js '' '') [?qt, ?st]"
  have legacy: "aqlFromLegacy \<lparr>lp_queue = Some qn, lp_state = Some (js ''active''), lp_meta = [], lp_freeText = None\<rparr> = ?q"
    using ne assms(3) sv(2) by (simp add: aqlFromLegacy_def split_names)
  have wf: "well_formed ?q"
    using assms(2) by (auto intro!: well_formed_append well_formed_js well_formed_quote)
  have get: "get_all (activeDrawerParams qn i) k =
      (if k = js ''peek'' then [to_usv (qn @ 47 # i)] else if k = js ''q'' then [?q] else [])" for k
    using wf by (simp add: activeDrawerParams_def legacy url.all_put get_all_console serializePeek_def
        DEFAULT_CONSOLE_STATE_def CONSOLE_PARAMS_def split_names)
  have migrated: "migrated_query (activeDrawerParams qn i) = ?q"
    by (simp add: migrated_query_def param_text_def get_param_def get Let_def)
  have texts: "token_texts ?q = [?qt, ?st]" using qt(1) st(1) by (intro texts_join) simp
  have "well_formed (qn @ 47 # i)" using assms(2,6) by (auto simp: plain_unit_def)
  then have peek: "get_param (activeDrawerParams qn i) (js ''peek'') = Some (serializePeek \<lparr>pt_queue = qn, pt_id = i\<rparr>)"
    by (simp add: get_param_def get serializePeek_def split_names)
  have "parsePeek (Some (serializePeek \<lparr>pt_queue = qn, pt_id = i\<rparr>)) = Some \<lparr>pt_queue = qn, pt_id = i\<rparr>"
    using peek_reads_back [of "\<lparr>pt_queue = qn, pt_id = i\<rparr>"] ne assms(4,5) by simp
  moreover have "cs_page (parseConsoleState (activeDrawerParams qn i)) = 0"
    by (simp add: parseConsoleState_def state_of_fields get_param_def get number_param_def page_of_def)
  ultimately show ?thesis
    using page_url_defaults [OF migrated] qt st ne named peek
    unfolding deriveFromQuery_texts texts Let_def by simp
qed

lemma active_link_opens_task_witness:
  "cs_state (parseConsoleState (activeDrawerParams (js ''billing'') (js ''8f3a''))) = Active"
proof -
  have "plain_value (js ''='') (js ''billing'')" "47 \<notin> set (js ''8f3a'')"
    by (simp_all add: plain_value_def js_def)
  then show ?thesis using active_link_opens_task [of "js ''billing''" "js ''8f3a''"] by simp
qed

end
