(* ===== verification/Hygiene.thy ===== *)
theory Hygiene
  imports ApiConsole BulkJob Doubles
begin

text \<open>
  \<open>src/ui/src/lib/hygiene.ts\<close>: the catalog of reports, the schedule editor, the job a dead-letter report
  offers, the chips of a report and the texts of the screen.
\<close>

subsection \<open>The catalog\<close>

definition HYGIENE_KINDS :: "hygiene_kind list" where
  "HYGIENE_KINDS = [Inventory, Storage, DeadLetter, SchedulerHealth]"

primrec KIND_TITLES :: "hygiene_kind \<Rightarrow> jstring" where
  "KIND_TITLES Inventory = js ''Queue inventory''"
| "KIND_TITLES Storage = js ''Storage attribution''"
| "KIND_TITLES DeadLetter = js ''Dead-letter digest''"
| "KIND_TITLES SchedulerHealth = js ''Scheduler health''"

primrec KIND_QUESTIONS :: "hygiene_kind \<Rightarrow> jstring" where
  "KIND_QUESTIONS Inventory = js ''which queues are dead, unconsumed, or forgotten-paused?''"
| "KIND_QUESTIONS Storage = js ''where does the Redis memory actually go, and when does it come back?''"
| "KIND_QUESTIONS DeadLetter = js ''what is rotting in the archives, and what can go?''"
| "KIND_QUESTIONS SchedulerHealth = js ''which cron entries are dead, untraceable, or aimed at nobody?''"

subsection \<open>The schedule editor\<close>

record interval_preset =
  ip_label :: jstring
  ip_seconds :: int

definition INTERVAL_PRESETS :: "interval_preset list" where
  "INTERVAL_PRESETS =
     [\<lparr>ip_label = js ''hourly'', ip_seconds = 3600\<rparr>, \<lparr>ip_label = js ''daily'', ip_seconds = 24 * 3600\<rparr>,
      \<lparr>ip_label = js ''weekly'', ip_seconds = 7 * 24 * 3600\<rparr>, \<lparr>ip_label = js ''monthly'', ip_seconds = 30 * 24 * 3600\<rparr>]"

definition MIN_INTERVAL_SECONDS :: int where "MIN_INTERVAL_SECONDS = 60"
definition MAX_INTERVAL_SECONDS :: int where "MAX_INTERVAL_SECONDS = 90 * 24 * 3600"

definition validInterval :: "number \<Rightarrow> bool" where
  "validInterval seconds \<longleftrightarrow> (case seconds of
     Finite x \<Rightarrow> x = of_int \<lfloor>x\<rfloor> \<and> x \<ge> of_int MIN_INTERVAL_SECONDS \<and> x \<le> of_int MAX_INTERVAL_SECONDS
   | _ \<Rightarrow> False)"

definition formatInterval :: "int \<Rightarrow> jstring" where
  "formatInterval seconds = (case List.find (\<lambda>p. ip_seconds p = seconds) INTERVAL_PRESETS of
     Some preset \<Rightarrow> ip_label preset
   | None \<Rightarrow>
       if seconds mod (24 * 3600) = 0 then js ''every '' @ js_of_int (seconds div (24 * 3600)) @ js ''d''
       else if seconds mod 3600 = 0 then js ''every '' @ js_of_int (seconds div 3600) @ js ''h''
       else if seconds mod 60 = 0 then js ''every '' @ js_of_int (seconds div 60) @ js ''m''
       else js ''every '' @ js_of_int seconds @ js ''s'')"

definition intervalOptions :: "int \<Rightarrow> interval_preset list" where
  "intervalOptions currentSeconds =
     (if list_ex (\<lambda>p. ip_seconds p = currentSeconds) INTERVAL_PRESETS then INTERVAL_PRESETS
      else INTERVAL_PRESETS @ [\<lparr>ip_label = formatInterval currentSeconds, ip_seconds = currentSeconds\<rparr>])"

subsection \<open>The job of a report\<close>

definition deadLetterActionScope :: "dead_letter_action \<Rightarrow> job_scope" where
  "deadLetterActionScope action =
     \<lparr>js_queue = dla_queue action, js_state = dla_state action, js_q = [], js_meta = [], js_aql = dla_aql action\<rparr>"

subsection \<open>Chips\<close>

record summary_chip =
  sc_label :: jstring
  sc_value :: int
  sc_tone :: tone
  sc_formatted :: "jstring option"

text \<open>The units a value is divided down to: three divisions at most after the first.\<close>

fun byte_scale :: "rat \<Rightarrow> string \<Rightarrow> string list \<Rightarrow> jstring" where
  "byte_scale v u [] = (if v \<ge> 100 then js_of_int (math_round v) else to_fixed 1 v) @ js '' '' @ js u"
| "byte_scale v u (u' # us) =
     (if v \<ge> 1024 then byte_scale (v / 1024) u' us
      else (if v \<ge> 100 then js_of_int (math_round v) else to_fixed 1 v) @ js '' '' @ js u)"

definition formatBytes :: "number \<Rightarrow> jstring" where
  "formatBytes n = (case n of
     Finite x \<Rightarrow>
       if x < 0 then DASH
       else if x < 1024 then number_string n @ js '' B''
       else byte_scale (x / 1024) ''KB'' [''MB'', ''GB'', ''TB'']
   | _ \<Rightarrow> DASH)"

definition count_chip :: "string \<Rightarrow> int \<Rightarrow> tone \<Rightarrow> summary_chip" where
  "count_chip label v t = \<lparr>sc_label = js label, sc_value = v, sc_tone = (if v > 0 then t else Mut), sc_formatted = None\<rparr>"

definition summary_value :: "(jstring \<times> int) list \<Rightarrow> string \<Rightarrow> int" where
  "summary_value summary key = (case map_of summary (js key) of Some v \<Rightarrow> v | None \<Rightarrow> 0)"

definition summaryChips :: "hygiene_kind \<Rightarrow> (jstring \<times> int) list option \<Rightarrow> summary_chip list" where
  "summaryChips kind summary = (case summary of
     None \<Rightarrow> []
   | Some s \<Rightarrow>
       let n = summary_value s in
       case kind of
         Inventory \<Rightarrow>
           [count_chip ''dead-queue candidates (30d silent)'' (n ''dead_queue_candidates'') Warn,
            count_chip ''zero-consumer with pending'' (n ''zero_consumer_pending'') Crit,
            count_chip ''paused > 7d'' (n ''paused_over_7d'') Warn,
            count_chip ''queues total'' (n ''queues_total'') Mut]
       | Storage \<Rightarrow>
           [(count_chip ''estimated memory (sampled queues)'' (n ''estimated_bytes'') Mut)
              \<lparr>sc_formatted := Some (formatBytes (Finite (of_int (n ''estimated_bytes''))))\<rparr>,
            count_chip ''queues not sampled'' (n ''not_sampled_queues'') Warn,
            count_chip ''completed reclaim in 24h'' (n ''reclaim_24h'') Mut,
            count_chip ''reclaim past due'' (n ''reclaim_past_due'') Warn]
       | DeadLetter \<Rightarrow>
           [count_chip ''archived total'' (n ''archived_total'') Mut,
            count_chip ''older than 30d'' (n ''older_than_30d'') Warn,
            count_chip ''queues at 10k archive cap'' (n ''trim_cap_queues'') Warn]
       | SchedulerHealth \<Rightarrow>
           [count_chip ''SCHEDULER GONE'' (n ''gone'') Crit,
            count_chip ''retention-less entries (outcome unknowable)'' (n ''retention_less'') Warn,
            count_chip ''entries targeting zero-consumer queues'' (n ''zero_consumer_targets'') Warn])"

definition ACTIVITY_SOURCES :: "(jstring \<times> jstring) list" where
  "ACTIVITY_SOURCES =
     [(js ''active_now'', js ''tasks in flight at snapshot''), (js ''counters_today'', js ''counter movement today''),
      (js ''oldest_pending'', js ''oldest pending enqueue (lower bound)''), (js ''series'', js ''series rollup (30d)''),
      (js ''daily_counters'', js ''daily counters (30d)''), (js ''none'', js ''no activity observed in 30d'')]"

definition activitySourceLabel :: "jstring \<Rightarrow> jstring" where
  "activitySourceLabel source = (case map_of ACTIVITY_SOURCES source of
     Some l \<Rightarrow> l | None \<Rightarrow> js ''not probed '' @ [8212] @ js '' no cheap evidence'')"

definition nothingScheduled :: "hygiene_card list \<Rightarrow> bool" where
  "nothingScheduled cards \<longleftrightarrow>
     cards \<noteq> [] \<and> list_all (\<lambda>c. \<not> hcard_enabled c \<and> hcard_last_generated_at c = []) cards"

subsection \<open>The select never lies\<close>

lemma preset_cases:
  "formatInterval 3600 = js ''hourly''" "formatInterval 86400 = js ''daily''" "formatInterval 604800 = js ''weekly''"
  "formatInterval 2592000 = js ''monthly''"
  by (simp_all add: formatInterval_def INTERVAL_PRESETS_def)

lemma js_of_int_digits: "0 \<le> i \<Longrightarrow> js_of_int i = js_of_nat (nat i)"
  by (simp add: js_of_int_def)

text \<open>What a custom label says: the amount and the last letter determine the seconds.\<close>

definition unit_seconds :: "nat \<Rightarrow> int" where
  "unit_seconds c = (if c = 100 then 86400 else if c = 104 then 3600 else if c = 109 then 60 else 1)"

definition label_seconds :: "jstring \<Rightarrow> int" where
  "label_seconds s =
     (if s = js ''hourly'' then 3600 else if s = js ''daily'' then 86400 else if s = js ''weekly'' then 604800
      else if s = js ''monthly'' then 2592000
      else int (digits_value (butlast (drop 6 s))) * unit_seconds (last s))"

lemma label_every: "label_seconds (js ''every '' @ js_of_nat n @ js [c]) = int n * unit_seconds (of_char c)"
proof -
  have "js ''every '' @ t \<noteq> js ''hourly'' \<and> js ''every '' @ t \<noteq> js ''daily'' \<and> js ''every '' @ t \<noteq> js ''weekly'' \<and>
      js ''every '' @ t \<noteq> js ''monthly''" for t
    by (simp add: js_def)
  then have "label_seconds (js ''every '' @ js_of_nat n @ js [c]) =
      int (digits_value (butlast (drop 6 (js ''every '' @ js_of_nat n @ js [c])))) *
        unit_seconds (last (js ''every '' @ js_of_nat n @ js [c]))"
    by (simp only: label_seconds_def if_False)
  moreover have "drop 6 (js ''every '' @ t) = t" for t by (simp add: js_def)
  moreover have "butlast (js_of_nat n @ js [c]) = js_of_nat n" "last (js ''every '' @ js_of_nat n @ js [c]) = of_char c"
    by (simp_all add: js_def butlast_append)
  ultimately show ?thesis by (simp only: digits_value_js_of_nat)
qed

lemma label_reads_back:
  assumes "0 \<le> seconds"
  shows "label_seconds (formatInterval seconds) = seconds"
proof (cases "seconds \<in> {3600, 86400, 604800, 2592000}")
  case True
  then show ?thesis by (auto simp: preset_cases label_seconds_def js_def)
next
  case False
  then have find: "List.find (\<lambda>p. ip_seconds p = seconds) INTERVAL_PRESETS = None"
    by (simp add: INTERVAL_PRESETS_def)
  have nn: "0 \<le> seconds div d" if "0 < d" for d using assms that by (simp add: pos_imp_zdiv_nonneg_iff)
  have label: "label_seconds (js ''every '' @ js_of_int i @ js [c]) = i * unit_seconds (of_char c)" if "0 \<le> i" for i c
    using label_every [of "nat i" c] that by (simp add: js_of_int_digits)
  consider "seconds mod 86400 = 0" | "seconds mod 86400 \<noteq> 0" "seconds mod 3600 = 0"
    | "seconds mod 86400 \<noteq> 0" "seconds mod 3600 \<noteq> 0" "seconds mod 60 = 0"
    | "seconds mod 86400 \<noteq> 0" "seconds mod 3600 \<noteq> 0" "seconds mod 60 \<noteq> 0" by blast
  then show ?thesis
  proof cases
    case 1
    with find label [OF nn [of 86400], of "CHR ''d''"] div_mult_mod_eq [of seconds 86400] show ?thesis by (simp add: formatInterval_def unit_seconds_def)
  next
    case 2
    with find div_mult_mod_eq [of seconds 3600] label [OF nn [of 3600], of "CHR ''h''"] show ?thesis by (simp add: formatInterval_def unit_seconds_def)
  next
    case 3
    with find div_mult_mod_eq [of seconds 60] label [OF nn [of 60], of "CHR ''m''"] show ?thesis by (simp add: formatInterval_def unit_seconds_def)
  next
    case 4
    with find label [OF assms, of "CHR ''s''"] show ?thesis by (simp add: formatInterval_def unit_seconds_def)
  qed
qed

text \<open>The schedule select never lies about the stored interval: whatever it is, exactly one of the options is it, and
  the options carry different labels, each saying its own number of seconds.\<close>

theorem interval_select_honest:
  assumes "0 \<le> current"
  shows "length (filter (\<lambda>p. ip_seconds p = current) (intervalOptions current)) = 1 \<and>
    distinct (map ip_label (intervalOptions current)) \<and>
    list_all (\<lambda>p. ip_label p = formatInterval (ip_seconds p) \<and> label_seconds (ip_label p) = ip_seconds p)
      (intervalOptions current)"
proof (cases "list_ex (\<lambda>p. ip_seconds p = current) INTERVAL_PRESETS")
  case True
  then show ?thesis
    by (auto simp: intervalOptions_def INTERVAL_PRESETS_def preset_cases label_seconds_def js_def)
next
  case False
  then have c: "current \<noteq> 3600" "current \<noteq> 86400" "current \<noteq> 604800" "current \<noteq> 2592000"
    by (auto simp: INTERVAL_PRESETS_def)
  note r = label_reads_back [OF assms]
  have "formatInterval current \<noteq> js ''hourly''" "formatInterval current \<noteq> js ''daily''"
    "formatInterval current \<noteq> js ''weekly''" "formatInterval current \<noteq> js ''monthly''"
    using c r by (auto simp: label_seconds_def)
  moreover have "label_seconds (js ''hourly'') = 3600" "label_seconds (js ''daily'') = 86400"
    "label_seconds (js ''weekly'') = 604800" "label_seconds (js ''monthly'') = 2592000"
    by (simp_all add: label_seconds_def)
  ultimately show ?thesis using c r False
    by (simp add: intervalOptions_def INTERVAL_PRESETS_def preset_cases)
qed

lemma interval_select_honest_witness:
  "length (filter (\<lambda>p. ip_seconds p = 43200) (intervalOptions 43200)) = 1"
  using interval_select_honest [of 43200] by simp

text \<open>A chip is raised only by a positive count, and a report without a summary has none.\<close>

lemma chips_quiet_without_counts: "summaryChips kind (Some []) \<noteq> [] \<and> list_all (\<lambda>c. sc_tone c = Mut) (summaryChips kind (Some []))"
  by (cases kind) (simp_all add: summaryChips_def count_chip_def summary_value_def Let_def)

end
