(* ===== verification/TimeChips.thy ===== *)
theory TimeChips
  imports UrlState
begin

text \<open>
  \<open>src/ui/src/lib/timechips.ts\<close>: the time quick-picks of the query bar. A chip writes one clause
  into the query text; the failure-window chips stamp an absolute time when they are clicked. A
  \<open>Date\<close> is its time value, an integer number of milliseconds; \<open>None\<close> stands for the RangeError of
  a time value out of range.
\<close>

subsection \<open>\<open>toISOString\<close>\<close>

text \<open>Year, month and day of a day number counted from 1970-01-01, proleptic Gregorian.\<close>

definition civil_of_days :: "int \<Rightarrow> int \<times> int \<times> int" where
  "civil_of_days days =
     (let z = days + 719468;
          era = z div 146097;
          doe = z mod 146097;
          yoe = (doe - doe div 1460 + doe div 36524 - doe div 146096) div 365;
          doy = doe - (365 * yoe + yoe div 4 - yoe div 100);
          mp = (5 * doy + 2) div 153;
          d = doy - (153 * mp + 2) div 5 + 1;
          m = (if mp < 10 then mp + 3 else mp - 9)
      in (yoe + era * 400 + (if m \<le> 2 then 1 else 0), m, d))"

definition pad :: "nat \<Rightarrow> int \<Rightarrow> jstring" where
  "pad w n = (let s = js_of_nat (nat n) in replicate (w - length s) 48 @ s)"

definition year_text :: "int \<Rightarrow> jstring" where
  "year_text y =
     (if 0 \<le> y \<and> y \<le> 9999 then pad 4 y
      else if y < 0 then 45 # pad 6 (- y) else 43 # pad 6 y)"

definition toISOString :: "int \<Rightarrow> jstring option" where
  "toISOString t =
     (if t < - 8640000000000000 \<or> 8640000000000000 < t then None
      else let (y, m, d) = civil_of_days (t div 86400000); ms = t mod 86400000
           in Some (year_text y @ js ''-'' @ pad 2 m @ js ''-'' @ pad 2 d @ js ''T'' @
                pad 2 (ms div 3600000) @ js '':'' @ pad 2 (ms div 60000 mod 60) @ js '':'' @
                pad 2 (ms div 1000 mod 60) @ js ''.'' @ pad 3 (ms mod 1000) @ js ''Z''))"

text \<open>\<open>s.replace(/\.\d{3}Z$/, "Z")\<close>\<close>

definition drop_millis :: "jstring \<Rightarrow> jstring" where
  "drop_millis s =
     (let n = length s - 5; t = drop n s
      in if length t = 5 \<and> t ! 0 = 46 \<and> is_digit (t ! 1) \<and> is_digit (t ! 2) \<and> is_digit (t ! 3) \<and> t ! 4 = 90
         then take n s @ js ''Z'' else s)"

definition rfc3339 :: "int \<Rightarrow> jstring option" where
  "rfc3339 t = map_option drop_millis (toISOString t)"

subsection \<open>Chips\<close>

record time_chip =
  tc_label :: jstring
  tc_field :: jstring
  tc_op :: jstring
  tc_value :: jstring
  tc_agoMs :: "int option"

definition chip :: "string \<Rightarrow> string \<Rightarrow> string \<Rightarrow> string \<Rightarrow> int option \<Rightarrow> time_chip" where
  "chip label field op' value ago =
     \<lparr>tc_label = js label, tc_field = js field, tc_op = js op', tc_value = js value, tc_agoMs = ago\<rparr>"

definition HOUR_MS :: int where
  "HOUR_MS = 3600000"

fun TIME_CHIPS :: "console_task_state \<Rightarrow> time_chip list" where
  "TIME_CHIPS Pending =
     [chip ''waiting >5m'' ''pending_age'' ''>'' ''5m'' None,
      chip ''>30m'' ''pending_age'' ''>'' ''30m'' None,
      chip ''>2h'' ''pending_age'' ''>'' ''2h'' None,
      chip ''no queued-at record'' ''pending_age'' ''='' ''unknown'' None]"
| "TIME_CHIPS Active =
     [chip ''running >30s'' ''running'' ''>'' ''30s'' None,
      chip ''>5m'' ''running'' ''>'' ''5m'' None]"
| "TIME_CHIPS Aggregating = []"
| "TIME_CHIPS Scheduled =
     [chip ''fires <10m'' ''next_run'' ''<'' ''10m'' None,
      chip ''<1h'' ''next_run'' ''<'' ''1h'' None,
      chip ''past due'' ''past_due'' '''' '''' None]"
| "TIME_CHIPS Retry =
     [chip ''fires <10m'' ''next_run'' ''<'' ''10m'' None,
      chip ''failed last 1h'' ''failed_after'' ''='' '''' (Some HOUR_MS),
      chip ''last 24h'' ''failed_after'' ''='' '''' (Some (24 * HOUR_MS))]"
| "TIME_CHIPS Archived =
     [chip ''died >1d'' ''died'' ''>'' ''1d'' None,
      chip ''>7d'' ''died'' ''>'' ''7d'' None,
      chip ''failed last 24h'' ''failed_after'' ''='' '''' (Some (24 * HOUR_MS))]"
| "TIME_CHIPS Completed =
     [chip ''expires <1h'' ''expires'' ''<'' ''1h'' None,
      chip ''<24h'' ''expires'' ''<'' ''24h'' None]"

definition timeChipClause :: "time_chip \<Rightarrow> int \<Rightarrow> jstring option" where
  "timeChipClause c now =
     (if tc_op c = [] then Some (tc_field c)
      else map_option (\<lambda>value. tc_field c @ tc_op c @ value)
        (case tc_agoMs c of Some ago \<Rightarrow> rfc3339 (now - ago) | None \<Rightarrow> Some (tc_value c)))"

definition applyTimeChip :: "jstring \<Rightarrow> time_chip \<Rightarrow> int \<Rightarrow> jstring option" where
  "applyTimeChip q c now =
     map_option (\<lambda>written.
       let (mapped, replaced) = replace_first (tc_field c) written False (parseAqlClauses q);
           tokens = filter (\<lambda>t. t \<noteq> []) mapped;
           tokens = (if \<not> replaced then tokens @ [written] else tokens)
       in join (js '' '') tokens) (timeChipClause c now)"

definition isTimeChipActive :: "jstring \<Rightarrow> time_chip \<Rightarrow> bool" where
  "isTimeChipActive q c =
     (if tc_agoMs c \<noteq> None then False
      else case timeChipClause c 0 of
        Some written \<Rightarrow> list_ex (\<lambda>x. cl_raw x = written) (parseAqlClauses q)
      | None \<Rightarrow> False)"

subsection \<open>The clause of a chip\<close>

definition stamp_char :: "nat \<Rightarrow> bool" where
  "stamp_char c \<longleftrightarrow> is_digit c \<or> c \<in> {45, 43, 58, 84, 46, 90}"

lemma pad_stamp: "list_all stamp_char (pad w n)"
  using js_of_nat_digits [of "nat n"] by (auto simp: pad_def Let_def stamp_char_def is_digit_def list_all_iff)

lemma year_stamp: "list_all stamp_char (year_text y)"
  by (simp add: year_text_def pad_stamp) (simp add: stamp_char_def)

lemma js_stamp: "list_all stamp_char (js ''-'')" "list_all stamp_char (js ''T'')"
  "list_all stamp_char (js '':'')" "list_all stamp_char (js ''.'')" "list_all stamp_char (js ''Z'')"
  by (simp_all add: js_def stamp_char_def)

lemma toISOString_stamp:
  assumes "toISOString t = Some s"
  shows "list_all stamp_char s"
proof -
  obtain y m d where "civil_of_days (t div 86400000) = (y, m, d)" by (rule prod_cases3)
  with assms show ?thesis
    unfolding toISOString_def Let_def by (auto simp only: prod.case option.inject list_all_append
        pad_stamp year_stamp js_stamp option.distinct split: if_splits)
qed

lemma rfc3339_stamp:
  assumes "rfc3339 t = Some s"
  shows "s \<noteq> []" "\<forall>c \<in> set s. stamp_char c"
proof -
  from assms obtain r where r: "toISOString t = Some r" "s = drop_millis r" by (auto simp: rfc3339_def)
  have "r \<noteq> []" using r(1) by (auto simp: toISOString_def Let_def split_beta js_def split: if_splits)
  with r show "s \<noteq> []" by (auto simp: drop_millis_def Let_def js_def)
  have "set (drop_millis r) \<subseteq> set r \<union> {90}"
    by (auto simp: drop_millis_def Let_def js_def dest: in_set_takeD)
  then show "\<forall>c \<in> set s. stamp_char c"
    using toISOString_stamp [OF r(1)] r(2) by (auto simp: stamp_char_def list_all_iff)
qed

lemma rfc3339_defined: "\<bar>t\<bar> \<le> 8640000000000000 \<Longrightarrow> \<exists>s. rfc3339 t = Some s"
  by (auto simp: rfc3339_def toISOString_def Let_def split_beta)

lemma stamp_quote: "\<forall>c \<in> set s. stamp_char c \<Longrightarrow> quoteAqlValue s = s \<and> 34 \<notin> set s"
  by (auto simp: quoteAqlValue_def list_ex_iff stamp_char_def is_ws_def is_digit_def)

definition plain_chip :: "time_chip \<Rightarrow> bool" where
  "plain_chip c \<longleftrightarrow>
     (if tc_op c = [] then tc_field c \<in> set FLAGS \<and> tc_agoMs c = None
      else plain_field (tc_field c) \<and> tc_op c \<in> set OPS \<and>
        (case tc_agoMs c of
           Some ago \<Rightarrow> tc_op c = js ''='' \<and> 0 \<le> ago \<and> ago \<le> 24 * HOUR_MS
         | None \<Rightarrow> plain_value (tc_op c) (tc_value c) \<and> quoteAqlValue (tc_value c) = tc_value c))"

lemma time_chips_plain: "c \<in> set (TIME_CHIPS st) \<Longrightarrow> plain_chip c"
proof -
  have "list_all plain_chip (TIME_CHIPS st)"
    by (cases st)
      (simp_all add: chip_def plain_chip_def plain_field_def plain_value_def OPS_def FLAGS_def quoteAqlValue_def
        field_char_def field_start_def is_ws_def js_def HOUR_MS_def)
  then show "c \<in> set (TIME_CHIPS st) \<Longrightarrow> plain_chip c" by (simp add: list_all_iff)
qed

lemma flag_token: "f \<in> set FLAGS \<Longrightarrow> token f \<and> field_of f = f"
  by (auto simp: FLAGS_def js_def token_def blank_def field_of_def clause_of_def parse_clause_def)

lemma chip_token:
  assumes "plain_chip c" "timeChipClause c now = Some t"
  shows "token t" "field_of t = tc_field c"
proof -
  have "token t \<and> field_of t = tc_field c"
  proof (cases "tc_op c = []")
    case True
    with assms flag_token show ?thesis by (simp add: plain_chip_def timeChipClause_def)
  next
    case False
    with assms have f: "plain_field (tc_field c)" and o: "tc_op c \<in> set OPS" by (simp_all add: plain_chip_def)
    from False assms(2) obtain v where v: "t = tc_field c @ tc_op c @ v"
      "(case tc_agoMs c of Some ago \<Rightarrow> rfc3339 (now - ago) | None \<Rightarrow> Some (tc_value c)) = Some v"
      by (auto simp: timeChipClause_def)
    have "plain_value (tc_op c) v \<and> quoteAqlValue v = v"
    proof (cases "tc_agoMs c")
      case None
      with v(2) assms(1) False show ?thesis by (simp add: plain_chip_def)
    next
      case (Some ago)
      with v(2) have r: "rfc3339 (now - ago) = Some v" by simp
      have "tc_op c = js ''=''" using assms(1) False Some by (simp add: plain_chip_def)
      then show ?thesis
        using rfc3339_stamp [OF r] stamp_quote [of v] by (simp add: plain_value_def)
    qed
    then show ?thesis
      using token_written [OF f o, of v] clause_of_written [OF f o, of v] v(1)
      by (simp add: field_of_def plain_value_def)
  qed
  then show "token t" "field_of t = tc_field c" by simp_all
qed

lemma applyTimeChip_edited:
  assumes "timeChipClause c now = Some t" "token t" "quotes_closed q"
  shows "applyTimeChip q c now = Some (rebuild (edited q (tc_field c) t))"
proof -
  have "t \<noteq> []" using assms(2) by (simp add: token_def)
  moreover have "list_all token (edited q (tc_field c) t)" using assms(2,3) by (intro edited_tokens) simp_all
  ultimately show ?thesis
    using rebuild_whole assms(1) by (simp add: applyTimeChip_def edited_def Let_def split_beta)
qed

lemma replace_text_none: "\<forall>x \<in> set xs. field_of x \<noteq> f \<Longrightarrow> replace_text f t b xs = (xs, b)"
  by (induction xs arbitrary: b) simp_all

lemma replace_text_same:
  "filter (\<lambda>x. field_of x = f) xs = [t] \<Longrightarrow> replace_text f t False xs = (xs, True)"
  by (induction xs) (auto simp: filter_empty_conv replace_text_none split: if_splits)

lemma token_nonempty: "token t \<Longrightarrow> t \<noteq> []"
  by (simp add: token_def)

lemma raws: "map cl_raw (parseAqlClauses q) = token_texts q"
  by (simp add: parseAqlClauses_def token_texts_def)

lemma in_filter_single: "filter P xs = [x] \<Longrightarrow> x \<in> set xs"
  by (metis filter_is_subset list.set_intros(1) subsetD)

lemma edited_again:
  assumes "quotes_closed q" "token t" "field_of t = f"
  shows "edited (rebuild (edited q f t)) f t = edited q f t"
proof -
  have t: "t \<noteq> []" using assms(2) by (simp add: token_def)
  let ?E = "edited q f t"
  have "filter (\<lambda>x. field_of x = f) ?E = [t]" using edited_filters(2) [of t f q] assms(3) t by simp
  then have r: "replace_text f t False ?E = (?E, True)" by (rule replace_text_same)
  have texts: "token_texts (rebuild ?E) = ?E" using token_texts_edited [OF assms(1), of t f] assms(2) by simp
  have "list_all token ?E" using assms(1,2) by (intro edited_tokens) simp_all
  then have "\<forall>x \<in> set ?E. x \<noteq> []" unfolding list_all_iff using token_nonempty by blast
  then have "filter (\<lambda>x. x \<noteq> []) ?E = ?E" by (rule filter_True)
  then show ?thesis
    by (simp only: edited_texts [of "rebuild ?E"] texts r Let_def fst_conv snd_conv simp_thms if_False)
qed

text \<open>Clicking a time chip in a query whose quotes are closed leaves exactly one clause of the chip's
  field, the chip's, and every other clause as it was; the chip then shows as active, unless its
  value is stamped at click time; clicking it again at the same instant changes nothing.\<close>

theorem time_chip_applies:
  assumes "quotes_closed q" and "c \<in> set (TIME_CHIPS st)" and "\<bar>now\<bar> \<le> 8639999900000000"
  shows "\<exists>t q'. timeChipClause c now = Some t \<and> applyTimeChip q c now = Some q' \<and>
    clauses_on (tc_field c) q' = [clause_of t] \<and> clauses_off (tc_field c) q' = clauses_off (tc_field c) q \<and>
    isTimeChipActive q' c = (tc_agoMs c = None) \<and> applyTimeChip q' c now = Some q'"
proof -
  note p = time_chips_plain [OF assms(2)]
  have "\<exists>t. timeChipClause c now = Some t"
  proof (cases "tc_agoMs c")
    case (Some ago)
    then have "\<bar>now - ago\<bar> \<le> 8640000000000000"
      using p assms(3) by (auto simp: plain_chip_def HOUR_MS_def split: if_splits)
    with Some rfc3339_defined show ?thesis by (fastforce simp: timeChipClause_def)
  qed (simp add: timeChipClause_def)
  then obtain t where t: "timeChipClause c now = Some t" by blast
  note tok = chip_token [OF p t]
  let ?q = "rebuild (edited q (tc_field c) t)"
  have ne: "t \<noteq> []" using tok(1) by (simp add: token_def)
  have texts: "token_texts ?q = edited q (tc_field c) t" using token_texts_edited [OF assms(1)] tok(1) by simp
  have "t \<in> set (edited q (tc_field c) t)"
    using edited_filters(2) [of t "tc_field c" q] tok(2) ne in_filter_single by metis
  then have raw: "\<exists>x \<in> set (parseAqlClauses ?q). cl_raw x = t"
    using texts raws [of ?q] by (metis in_set_conv_nth length_map nth_map nth_mem)
  have "tc_agoMs c = None \<Longrightarrow> timeChipClause c 0 = Some t" using t by (simp add: timeChipClause_def split: if_splits)
  with raw have "tc_agoMs c = None \<Longrightarrow> isTimeChipActive ?q c"
    by (simp add: isTimeChipActive_def list_ex_iff)
  then have "isTimeChipActive ?q c = (tc_agoMs c = None)"
    by (auto simp: isTimeChipActive_def)
  moreover have "quotes_closed ?q"
    using edited_tokens [OF assms(1)] tok(1) by (intro quotes_closed_rebuild) simp
  ultimately show ?thesis
    using t applyTimeChip_edited [OF t tok(1)] assms(1) edit_clauses [OF assms(1), of t "tc_field c"] tok ne
      edited_again [OF assms(1) tok] by auto
qed

lemma time_chip_applies_witness:
  "\<exists>q'. applyTimeChip sample_query (chip ''last 24h'' ''failed_after'' ''='' '''' (Some (24 * HOUR_MS))) 1753500000000 =
     Some q' \<and> clauses_off (js ''failed_after'') q' = clauses_off (js ''failed_after'') sample_query"
  using time_chip_applies [OF sample_query_closed,
      of "chip ''last 24h'' ''failed_after'' ''='' '''' (Some (24 * HOUR_MS))" Retry 1753500000000]
  by (auto simp: chip_def)

end
