(* ===== verification/Workspace.thy ===== *)
theory Workspace
  imports Formats JsSort ApiConsole TimeChips
begin

text \<open>
  \<open>src/ui/src/lib/workspace.ts\<close>: the queue workspace. Its tab lives in the URL; the Attention tab is
  synthesized from what was already fetched; active rows are ranked by how much of their deadline is
  used. \<open>Date.parse\<close> is the parameter \<open>date_parse\<close>, \<open>None\<close> for \<open>NaN\<close>; the clock is an argument.
\<close>

subsection \<open>Tab and focus\<close>

datatype workspace_tab = TabAttention | TabState console_task_state

definition WORKSPACE_TABS :: "(jstring \<times> workspace_tab) list" where
  "WORKSPACE_TABS =
     [(js ''attention'', TabAttention), (js ''pending'', TabState Pending), (js ''active'', TabState Active),
      (js ''aggregating'', TabState Aggregating), (js ''scheduled'', TabState Scheduled),
      (js ''retry'', TabState Retry), (js ''archived'', TabState Archived), (js ''completed'', TabState Completed)]"

definition FOCUS_STATES :: "(jstring \<times> console_task_state) list" where
  "FOCUS_STATES =
     [(js ''pending'', Pending), (js ''active'', Active), (js ''aggregating'', Aggregating),
      (js ''scheduled'', Scheduled), (js ''retry'', Retry), (js ''archived'', Archived),
      (js ''completed'', Completed)]"

primrec state_text :: "console_task_state \<Rightarrow> jstring" where
  "state_text Pending = js ''pending''"
| "state_text Active = js ''active''"
| "state_text Aggregating = js ''aggregating''"
| "state_text Scheduled = js ''scheduled''"
| "state_text Retry = js ''retry''"
| "state_text Archived = js ''archived''"
| "state_text Completed = js ''completed''"

primrec tab_text :: "workspace_tab \<Rightarrow> jstring" where
  "tab_text TabAttention = js ''attention''"
| "tab_text (TabState s) = state_text s"

record workspace_params =
  wp_tab :: workspace_tab
  wp_focus :: "console_task_state option"

definition parseWorkspaceParams :: "params \<Rightarrow> workspace_params" where
  "parseWorkspaceParams ps =
     (let tab = (case map_of WORKSPACE_TABS (param_text ps (js ''status'')) of Some t \<Rightarrow> t | None \<Rightarrow> TabAttention)
      in \<lparr>wp_tab = tab,
          wp_focus = (if tab = TabAttention then map_of FOCUS_STATES (param_text ps (js ''focus'')) else None)\<rparr>)"

definition serializeWorkspaceTab :: "workspace_tab \<Rightarrow> params \<Rightarrow> params" where
  "serializeWorkspaceTab tab base =
     (let ps = delete_param base (js ''focus'')
      in if tab = TabAttention then delete_param ps (js ''status'') else set_param ps (js ''status'') (tab_text tab))"

subsection \<open>Budget of an active task\<close>

record task_budget =
  tb_elapsedMs :: "int option"
  tb_budgetMs :: "int option"
  tb_pct :: "rat option"

definition parseWireTime :: "(jstring \<Rightarrow> int option) \<Rightarrow> jstring option \<Rightarrow> int option" where
  "parseWireTime date_parse raw = (case raw of
     Some s \<Rightarrow> if s = [] then None
       else (case date_parse s of Some t \<Rightarrow> if t \<le> 0 then None else Some t | None \<Rightarrow> None)
   | None \<Rightarrow> None)"

definition activeTaskBudget :: "(jstring \<Rightarrow> int option) \<Rightarrow> task_info \<Rightarrow> int \<Rightarrow> task_budget" where
  "activeTaskBudget date_parse task nowMs =
     (case parseWireTime date_parse (Some (t_start_time task)) of
        None \<Rightarrow> \<lparr>tb_elapsedMs = None, tb_budgetMs = None, tb_pct = None\<rparr>
      | Some start \<Rightarrow>
          let elapsedMs = max 0 (nowMs - start);
              budgetMs = (case parseWireTime date_parse (Some (t_deadline task)) of
                  Some e \<Rightarrow> if e > start then Some (e - start)
                    else if t_timeout_seconds task > 0 then Some (t_timeout_seconds task * 1000) else None
                | None \<Rightarrow> if t_timeout_seconds task > 0 then Some (t_timeout_seconds task * 1000) else None)
          in (case budgetMs of
                None \<Rightarrow> \<lparr>tb_elapsedMs = Some elapsedMs, tb_budgetMs = None, tb_pct = None\<rparr>
              | Some b \<Rightarrow> \<lparr>tb_elapsedMs = Some elapsedMs, tb_budgetMs = Some b,
                  tb_pct = Some (dbl (of_int elapsedMs / of_int b))\<rparr>))"

definition budget_order :: "task_info \<times> task_budget \<Rightarrow> task_info \<times> task_budget \<Rightarrow> rat" where
  "budget_order a b =
     (if t_is_orphaned (fst a) \<noteq> t_is_orphaned (fst b) then (if t_is_orphaned (fst a) then 1 else - 1)
      else
        (let ties = (let ae = (case tb_elapsedMs (snd a) of Some e \<Rightarrow> e | None \<Rightarrow> - 1);
                         be = (case tb_elapsedMs (snd b) of Some e \<Rightarrow> e | None \<Rightarrow> - 1)
                     in if ae \<noteq> be then of_int (be - ae)
                        else cmp2 (t_id (fst a)) (t_id (fst b)))
         in case (tb_pct (snd a), tb_pct (snd b)) of
              (None, None) \<Rightarrow> ties
            | (None, Some _) \<Rightarrow> 1
            | (Some _, None) \<Rightarrow> - 1
            | (Some ap, Some bp) \<Rightarrow> if ap \<noteq> bp then bp - ap else ties))"

definition sortByBudgetPct :: "(jstring \<Rightarrow> int option) \<Rightarrow> task_info list \<Rightarrow> int \<Rightarrow> task_info list" where
  "sortByBudgetPct date_parse tasks nowMs =
     map fst (js_sort budget_order (map (\<lambda>t. (t, activeTaskBudget date_parse t nowMs)) tasks))"

subsection \<open>Attention\<close>

datatype attention_kind = KOrphans | KRetryStorm | KPendingAge | KPastDue | KPaused | KArchiveCap | KArchivedDelta

record attention_item =
  ai_kind :: attention_kind
  ai_tone :: tone
  ai_chip :: jstring
  ai_sentence :: jstring
  ai_focusState :: console_task_state

record attention_input =
  an_counts :: "(jstring \<times> int) list option"
  an_fleetRow :: "fleet_queue_row option"
  an_activeTasks :: "task_info list"
  an_scheduledTasks :: "task_info list"
  an_retryHistogram :: "retry_histogram_response option"
  an_history :: "daily_stat list"
  an_nowMs :: int
  an_pendingAgeSloMs :: "int option"

definition DEFAULT_PENDING_AGE_SLO_MS :: int where
  "DEFAULT_PENDING_AGE_SLO_MS = 5 * 60 * 1000"

definition ARCHIVE_CAP :: int where
  "ARCHIVE_CAP = 10000"

definition RETRY_STORM_WINDOW_S :: int where
  "RETRY_STORM_WINDOW_S = 300"

definition retryFireWithin :: "retry_histogram_response option \<Rightarrow> int \<Rightarrow> int" where
  "retryFireWithin hist horizonSeconds = (case hist of
     None \<Rightarrow> 0
   | Some h \<Rightarrow>
       if rhist_bucket_seconds h \<le> 0 then 0
       else let n = max 0 (min (int (length (rhist_buckets h)))
                  \<lceil>dbl (of_int horizonSeconds / of_int (rhist_bucket_seconds h))\<rceil>)
            in rhist_past_due h + sum_list (take (nat n) (rhist_buckets h)))"

definition orphanedActives :: "task_info list \<Rightarrow> task_info list" where
  "orphanedActives activeTasks = filter t_is_orphaned activeTasks"

definition pastDueScheduled :: "(jstring \<Rightarrow> int option) \<Rightarrow> task_info list \<Rightarrow> int \<Rightarrow> task_info list" where
  "pastDueScheduled date_parse scheduledTasks nowMs =
     filter (\<lambda>t. case parseWireTime date_parse (Some (t_next_process_at t)) of Some due \<Rightarrow> due < nowMs | None \<Rightarrow> False)
       scheduledTasks"

record retry_row =
  rr_task :: task_info
  rr_countdownMs :: "int option"

definition countdown_order :: "retry_row \<Rightarrow> retry_row \<Rightarrow> rat" where
  "countdown_order a b = (case (rr_countdownMs a, rr_countdownMs b) of
     (None, None) \<Rightarrow> 0
   | (None, Some _) \<Rightarrow> 1
   | (Some _, None) \<Rightarrow> - 1
   | (Some x, Some y) \<Rightarrow> of_int (x - y))"

definition upcomingRetries :: "(jstring \<Rightarrow> int option) \<Rightarrow> task_info list \<Rightarrow> int \<Rightarrow> retry_row list" where
  "upcomingRetries date_parse retryTasks nowMs =
     js_sort countdown_order (map (\<lambda>task. \<lparr>rr_task = task,
       rr_countdownMs = map_option (\<lambda>due. due - nowMs) (parseWireTime date_parse (Some (t_next_process_at task)))\<rparr>)
       retryTasks)"

definition formatCountdown :: "int option \<Rightarrow> jstring" where
  "formatCountdown countdownMs = (case countdownMs of
     None \<Rightarrow> DASH
   | Some ms \<Rightarrow> if ms \<le> 0 then js ''due now'' else js ''in '' @ humanize ms)"

record failure_delta =
  fd_today :: int
  fd_yesterday :: int

text \<open>The UTC date \<open>offset\<close> days ago; \<open>None\<close> when \<open>toISOString\<close> throws.\<close>

definition utc_day :: "int \<Rightarrow> int \<Rightarrow> jstring option" where
  "utc_day nowMs offset = map_option (take 10) (toISOString (nowMs - offset * 86400000))"

definition failed_on :: "daily_stat list \<Rightarrow> jstring \<Rightarrow> int option" where
  "failed_on history d = map_of (rev (map (\<lambda>h. (day_date h, day_failed h)) history)) d"

definition archivedDelta :: "daily_stat list \<Rightarrow> int \<Rightarrow> failure_delta option" where
  "archivedDelta history nowMs =
     (if history = [] then None
      else let today = Option.bind (utc_day nowMs 0) (failed_on history);
               yesterday = Option.bind (utc_day nowMs 1) (failed_on history)
           in if today = None \<and> yesterday = None then None
              else Some \<lparr>fd_today = (case today of Some n \<Rightarrow> n | None \<Rightarrow> 0),
                         fd_yesterday = (case yesterday of Some n \<Rightarrow> n | None \<Rightarrow> 0)\<rparr>)"

text \<open>One push per finding, in the order of the source.\<close>

definition item_when :: "bool \<Rightarrow> attention_item \<Rightarrow> attention_item list" where
  "item_when b i = (if b then [i] else [])"

abbreviation row_int :: "(fleet_queue_row \<Rightarrow> int) \<Rightarrow> attention_input \<Rightarrow> int" where
  "row_int f input \<equiv> (case an_fleetRow input of Some r \<Rightarrow> f r | None \<Rightarrow> 0)"

definition spaced_dash :: jstring where
  "spaced_dash = js '' '' @ DASH @ js '' ''"

definition paused_item :: "(jstring \<Rightarrow> int option) \<Rightarrow> attention_input \<Rightarrow> attention_item list" where
  "paused_item date_parse input = (case an_fleetRow input of
     Some r \<Rightarrow>
       (let since = parseWireTime date_parse (fq_paused_since r)
        in item_when (fq_paused r)
          \<lparr>ai_kind = KPaused, ai_tone = Warn,
           ai_chip = (case since of Some s \<Rightarrow> js ''PAUSED '' @ humanize (an_nowMs input - s) | None \<Rightarrow> js ''PAUSED''),
           ai_sentence = js ''queue is paused'' @ spaced_dash @
             js ''producers can still enqueue, nothing is being consumed'',
           ai_focusState = Pending\<rparr>)
   | None \<Rightarrow> [])"

definition orphan_count :: "attention_input \<Rightarrow> int" where
  "orphan_count input =
     max (row_int fq_orphan_candidates input) (int (length (orphanedActives (an_activeTasks input))))"

definition orphans_item :: "attention_input \<Rightarrow> attention_item list" where
  "orphans_item input =
     item_when (orphan_count input > 0)
       \<lparr>ai_kind = KOrphans, ai_tone = Warn, ai_chip = js ''ORPHANS '' @ locale_int (orphan_count input),
        ai_sentence = js ''active tasks with an expired lease'' @ spaced_dash @
          js ''worker crash suspected; asynq'' @ [39] @ js ''s recoverer will requeue them on lease expiry'',
        ai_focusState = Active\<rparr>"

definition slo_ms :: "attention_input \<Rightarrow> int" where
  "slo_ms input = (case an_pendingAgeSloMs input of Some s \<Rightarrow> s | None \<Rightarrow> DEFAULT_PENDING_AGE_SLO_MS)"

definition pending_age_item :: "attention_input \<Rightarrow> attention_item list" where
  "pending_age_item input =
     (let ageMs = row_int fq_oldest_pending_age_ms input; sloMs = slo_ms input
      in item_when (ageMs \<ge> sloMs)
        \<lparr>ai_kind = KPendingAge, ai_tone = (if ageMs \<ge> 6 * sloMs then Crit else Warn), ai_chip = js ''PENDING AGE'',
         ai_sentence = js ''oldest pending task has waited '' @ humanize ageMs @ js '' vs '' @ humanize sloMs @ js '' SLO'',
         ai_focusState = Pending\<rparr>)"

definition retry_storm_item :: "attention_input \<Rightarrow> attention_item list" where
  "retry_storm_item input =
     (let storm = retryFireWithin (an_retryHistogram input) RETRY_STORM_WINDOW_S
      in item_when (storm > 0)
        \<lparr>ai_kind = KRetryStorm, ai_tone = (if storm \<ge> 1000 then Crit else Warn), ai_chip = js ''RETRY STORM'',
         ai_sentence = locale_int storm @ js '' retries fire in the next 5m (exact, from retry scores)'',
         ai_focusState = Retry\<rparr>)"

definition past_due_count :: "(jstring \<Rightarrow> int option) \<Rightarrow> attention_input \<Rightarrow> int" where
  "past_due_count date_parse input =
     max (row_int fq_past_due_scheduled input)
       (int (length (pastDueScheduled date_parse (an_scheduledTasks input) (an_nowMs input))))"

definition past_due_item :: "(jstring \<Rightarrow> int option) \<Rightarrow> attention_input \<Rightarrow> attention_item list" where
  "past_due_item date_parse input =
     item_when (past_due_count date_parse input > 0)
       \<lparr>ai_kind = KPastDue, ai_tone = Warn, ai_chip = js ''PAST-DUE '' @ locale_int (past_due_count date_parse input),
        ai_sentence = js ''scheduled tasks whose fire time is behind now'' @ spaced_dash @
          js ''asynq'' @ [39] @ js ''s forwarder may be stalled'',
        ai_focusState = Scheduled\<rparr>"

definition archived_count :: "attention_input \<Rightarrow> int" where
  "archived_count input =
     (case Option.bind (an_counts input) (\<lambda>c. map_of c (js ''archived'')) of
        Some n \<Rightarrow> n
      | None \<Rightarrow> row_int fq_archived input)"

definition archive_cap_item :: "attention_input \<Rightarrow> attention_item list" where
  "archive_cap_item input =
     item_when (archived_count input \<ge> ARCHIVE_CAP)
       \<lparr>ai_kind = KArchiveCap, ai_tone = Warn, ai_chip = js ''ARCHIVE CAP'',
        ai_sentence = js ''archived set is at asynq'' @ [39] @ js ''s 10k trim cap'' @ spaced_dash @
          js ''every further archive discards the oldest entry; archived-derived counts are lower bounds'',
        ai_focusState = Archived\<rparr>"

definition delta_item :: "attention_input \<Rightarrow> attention_item list" where
  "delta_item input = (case archivedDelta (an_history input) (an_nowMs input) of
     None \<Rightarrow> []
   | Some d \<Rightarrow>
       item_when (fd_today d > 0)
         \<lparr>ai_kind = KArchivedDelta,
          ai_tone = (if fd_yesterday d > 0 \<and> fd_today d \<ge> 5 * fd_yesterday d then Warn else Mut),
          ai_chip = js ''FAILED '' @ [916],
          ai_sentence = locale_int (fd_today d) @ js '' failures today vs '' @ locale_int (fd_yesterday d) @
            js '' yesterday (daily counters)'',
          ai_focusState = Archived\<rparr>)"

primrec tone_rank :: "tone \<Rightarrow> int" where
  "tone_rank Crit = 0"
| "tone_rank Warn = 1"
| "tone_rank Mut = 2"
| "tone_rank Good = 3"
| "tone_rank Info = 3"

definition attention_items :: "(jstring \<Rightarrow> int option) \<Rightarrow> attention_input \<Rightarrow> attention_item list" where
  "attention_items date_parse input =
     paused_item date_parse input @ orphans_item input @ pending_age_item input @ retry_storm_item input @
     past_due_item date_parse input @ archive_cap_item input @ delta_item input"

definition synthesizeAttention :: "(jstring \<Rightarrow> int option) \<Rightarrow> attention_input \<Rightarrow> attention_item list" where
  "synthesizeAttention date_parse input =
     js_sort (\<lambda>a b. of_int (tone_rank (ai_tone a) - tone_rank (ai_tone b))) (attention_items date_parse input)"

definition healthySummary :: "fleet_queue_row option \<Rightarrow> daily_stat list \<Rightarrow> int \<Rightarrow> jstring" where
  "healthySummary fleetRow history nowMs =
     (let age = (case fleetRow of Some r \<Rightarrow> fq_oldest_pending_age_ms r | None \<Rightarrow> 0)
      in join (js '' '')
        ([js ''Nothing anomalous.'',
          if age > 0 then js ''Oldest pending '' @ humanize age @ js ''.'' else js ''No pending backlog.''] @
         (case archivedDelta history nowMs of
            None \<Rightarrow> []
          | Some d \<Rightarrow> [if fd_today d = 0 then js ''No failures today.''
              else locale_int (fd_today d) @ js '' failures today.''])))"

subsection \<open>Histograms\<close>

definition histogramBars :: "int list \<Rightarrow> int list" where
  "histogramBars counts =
     (let m = foldl max 0 counts
      in if m \<le> 0 then map (\<lambda>_. 0) counts
         else map (\<lambda>c. math_round (dbl (dbl (of_int c / of_int m) * 100))) counts)"

text \<open>The peak loop: the first bucket with the largest count above 0.\<close>

fun peak_loop :: "nat \<Rightarrow> int list \<Rightarrow> int \<Rightarrow> nat option \<Rightarrow> nat option" where
  "peak_loop i [] peak hot = hot"
| "peak_loop i (c # cs) peak hot = (if c > peak then peak_loop (Suc i) cs c (Some i) else peak_loop (Suc i) cs peak hot)"

record retry_histogram_view =
  rv_bars :: "int list"
  rv_hotIndex :: int
  rv_next5m :: int
  rv_pastDue :: int
  rv_beyond :: int
  rv_total :: int
  rv_stormLabel :: jstring

text \<open>\<open>clockLabel\<close> reads the local time zone: the offset in minutes at an instant is a parameter.\<close>

definition clockLabel :: "(int \<Rightarrow> int) \<Rightarrow> int \<Rightarrow> jstring" where
  "clockLabel tz ms =
     (let m = (ms div 60000 + tz ms) mod 1440
      in pad_left 2 48 (js_of_int (m div 60)) @ js '':'' @ pad_left 2 48 (js_of_int (m mod 60)))"

definition storm_label ::
  "(jstring \<Rightarrow> int option) \<Rightarrow> (int \<Rightarrow> int) \<Rightarrow> retry_histogram_response \<Rightarrow> nat option \<Rightarrow> jstring" where
  "storm_label date_parse tz h hot = (case (hot, date_parse (rhist_from h)) of
     (Some i, Some fromMs) \<Rightarrow>
       (let lo = fromMs + int i * rhist_bucket_seconds h * 1000; hi = lo + rhist_bucket_seconds h * 1000
        in js ''storm lands '' @ clockLabel tz lo @ [8211] @ clockLabel tz hi)
   | _ \<Rightarrow> [])"

definition retryHistogramView ::
  "(jstring \<Rightarrow> int option) \<Rightarrow> (int \<Rightarrow> int) \<Rightarrow> retry_histogram_response option \<Rightarrow> retry_histogram_view option" where
  "retryHistogramView date_parse tz hist = map_option (\<lambda>h.
     let hot = peak_loop 0 (rhist_buckets h) 0 None
     in \<lparr>rv_bars = histogramBars (rhist_buckets h),
         rv_hotIndex = (case hot of Some i \<Rightarrow> int i | None \<Rightarrow> - 1),
         rv_next5m = retryFireWithin hist RETRY_STORM_WINDOW_S,
         rv_pastDue = rhist_past_due h, rv_beyond = rhist_beyond h, rv_total = rhist_total h,
         rv_stormLabel = storm_label date_parse tz h hot\<rparr>) hist"

definition bucketLabel :: "retry_histogram_response \<Rightarrow> int \<Rightarrow> jstring" where
  "bucketLabel h i =
     (let mins = dbl (of_int (i * rhist_bucket_seconds h) / 60)
      in js ''+'' @ (if mins \<in> \<int> then js_of_int \<lfloor>mins\<rfloor> else to_fixed 1 mins) @ js ''m'')"

definition WAIT_BUCKET_BOUNDS_MS :: "rat list" where
  "WAIT_BUCKET_BOUNDS_MS = [1000, 10000, 60000, 300000, 900000, 3600000, 21600000]"

definition EN_DASH :: jstring where
  "EN_DASH = [8211]"

definition WAIT_BUCKET_LABELS :: "jstring list" where
  "WAIT_BUCKET_LABELS =
     [js ''<1s'', js ''1'' @ EN_DASH @ js ''10s'', js ''10s'' @ EN_DASH @ js ''1m'', js ''1'' @ EN_DASH @ js ''5m'',
      js ''5'' @ EN_DASH @ js ''15m'', js ''15m'' @ EN_DASH @ js ''1h'', js ''1'' @ EN_DASH @ js ''6h'',
      [8805] @ js ''6h'']"

record wait_bucket =
  wb_label :: jstring
  wb_count :: nat

definition wait_index :: "rat \<Rightarrow> nat" where
  "wait_index w =
     (case List.find (\<lambda>i. w < WAIT_BUCKET_BOUNDS_MS ! i) [0..<length WAIT_BUCKET_BOUNDS_MS] of
        Some i \<Rightarrow> i
      | None \<Rightarrow> length WAIT_BUCKET_LABELS - 1)"

fun count_wait :: "nat list \<Rightarrow> number \<Rightarrow> nat list" where
  "count_wait counts (Finite w) =
     (if w < 0 then counts else counts[wait_index w := counts ! wait_index w + 1])"
| "count_wait counts _ = counts"

definition bucketWaitsMs :: "number list \<Rightarrow> wait_bucket list" where
  "bucketWaitsMs waitsMs =
     map (\<lambda>(label, n). \<lparr>wb_label = label, wb_count = n\<rparr>)
       (zip WAIT_BUCKET_LABELS (foldl count_wait (replicate (length WAIT_BUCKET_LABELS) 0) waitsMs))"

record pending_wait_view =
  pv_buckets :: "wait_bucket list"
  pv_bars :: "int list"
  pv_sampled :: int
  pv_listLen :: int
  pv_method :: jstring

definition pendingWaitView :: "pending_wait_sample_response option \<Rightarrow> pending_wait_view option" where
  "pendingWaitView sample = map_option (\<lambda>s.
     let buckets = bucketWaitsMs (map (\<lambda>w. Finite (of_int w)) (pwait_waits_ms s))
     in \<lparr>pv_buckets = buckets, pv_bars = histogramBars (map (\<lambda>b. int (wb_count b)) buckets),
         pv_sampled = pwait_sampled s, pv_listLen = pwait_list_len s, pv_method = pwait_method s\<rparr>) sample"

subsection \<open>Error clusters\<close>

record error_cluster =
  ec_label :: jstring
  ec_retryCount :: int
  ec_archivedCount :: int
  ec_total :: int

text \<open>One step of either loop, over the map in insertion order.\<close>

definition add_cluster :: "bool \<Rightarrow> error_cluster list \<Rightarrow> jstring \<times> int \<Rightarrow> error_cluster list" where
  "add_cluster retry m g =
     (if fst g = [] then m
      else let bump = (\<lambda>c. c\<lparr>ec_retryCount := ec_retryCount c + (if retry then snd g else 0),
                 ec_archivedCount := ec_archivedCount c + (if retry then 0 else snd g),
                 ec_total := ec_total c + snd g\<rparr>)
           in if fst g \<in> ec_label ` set m then map (\<lambda>c. if ec_label c = fst g then bump c else c) m
              else m @ [bump \<lparr>ec_label = fst g, ec_retryCount = 0, ec_archivedCount = 0, ec_total = 0\<rparr>])"

definition cluster_order :: "error_cluster \<Rightarrow> error_cluster \<Rightarrow> rat" where
  "cluster_order a b =
     (if ec_total a \<noteq> ec_total b then of_int (ec_total b - ec_total a) else cmp2 (ec_label a) (ec_label b))"

definition merged_clusters :: "(jstring \<times> int) list \<Rightarrow> (jstring \<times> int) list \<Rightarrow> error_cluster list" where
  "merged_clusters retryGroups archivedGroups =
     foldl (add_cluster False) (foldl (add_cluster True) [] retryGroups) archivedGroups"

definition mergeErrorClusters :: "(jstring \<times> int) list \<Rightarrow> (jstring \<times> int) list \<Rightarrow> nat \<Rightarrow> error_cluster list" where
  "mergeErrorClusters retryGroups archivedGroups limit =
     take limit (js_sort cluster_order (merged_clusters retryGroups archivedGroups))"

subsection \<open>The tab\<close>

lemma tab_induct:
  assumes "P TabAttention" "P (TabState Pending)" "P (TabState Active)" "P (TabState Aggregating)"
    "P (TabState Scheduled)" "P (TabState Retry)" "P (TabState Archived)" "P (TabState Completed)"
  shows "P tab"
proof (cases tab)
  case (TabState s)
  with assms show ?thesis by (cases s) simp_all
qed (use assms in simp)

lemma workspace_tab_round_trip:
  "parseWorkspaceParams (serializeWorkspaceTab tab base) = \<lparr>wp_tab = tab, wp_focus = None\<rparr> \<and>
   (k \<notin> {js ''status'', js ''focus''} \<longrightarrow> get_all (serializeWorkspaceTab tab base) k = get_all base k)"
proof -
  have usv: "to_usv (tab_text tab) = tab_text tab" by (induction rule: tab_induct) (simp_all add: js_def)
  have focus: "get_all (serializeWorkspaceTab tab base) (js ''focus'') = []"
    and status: "get_all (serializeWorkspaceTab tab base) (js ''status'') =
      (if tab = TabAttention then [] else [tab_text tab])"
    by (simp_all add: serializeWorkspaceTab_def Let_def url.all_put url.all_remove usv)
  have "map_of WORKSPACE_TABS (if tab = TabAttention then [] else tab_text tab) =
      (if tab = TabAttention then None else Some tab)"
    by (induction rule: tab_induct) (simp_all add: WORKSPACE_TABS_def)
  moreover have "map_of FOCUS_STATES [] = None" by (simp add: FOCUS_STATES_def)
  moreover have "param_text (serializeWorkspaceTab tab base) (js ''focus'') = []"
    and "param_text (serializeWorkspaceTab tab base) (js ''status'') = (if tab = TabAttention then [] else tab_text tab)"
    by (simp_all add: param_text_def get_param_def focus status)
  ultimately have "parseWorkspaceParams (serializeWorkspaceTab tab base) = \<lparr>wp_tab = tab, wp_focus = None\<rparr>"
    unfolding parseWorkspaceParams_def Let_def by simp
  then show ?thesis by (auto simp: serializeWorkspaceTab_def Let_def url.all_put url.all_remove)
qed

subsection \<open>The orders are consistent\<close>

text \<open>What \<open>budget_order\<close> compares by: orphans last, then unknown budgets last, then the share used, the
  time elapsed and the id.\<close>

definition budget_key :: "task_info \<times> task_budget \<Rightarrow> bool \<times> bool \<times> rat \<times> int \<times> jstring" where
  "budget_key x =
     (t_is_orphaned (fst x), tb_pct (snd x) = None, - (case tb_pct (snd x) of Some p \<Rightarrow> p | None \<Rightarrow> 0),
      - (case tb_elapsedMs (snd x) of Some e \<Rightarrow> e | None \<Rightarrow> - 1), t_id (fst x))"

lemma cmp2_sign: "a < b \<Longrightarrow> cmp2 a b < 0" "b < a \<Longrightarrow> 0 < cmp2 a b"
  by (auto simp: cmp2_def)

interpretation budget: comparator budget_order budget_key
proof unfold_locales
  show "budget_key a < budget_key b \<Longrightarrow> budget_order a b < 0"
    and "budget_key b < budget_key a \<Longrightarrow> 0 < budget_order a b" for a b
    by (cases "tb_pct (snd a)"; cases "tb_pct (snd b)";
        force simp: budget_key_def budget_order_def Let_def less_prod_def cmp2_def split: if_splits)+
qed

interpretation clusters: comparator cluster_order "\<lambda>c. (- ec_total c, ec_label c)"
  by unfold_locales (auto simp: cluster_order_def less_prod_def cmp2_def split: if_splits)

interpretation countdown: stable_comparator countdown_order
    "\<lambda>r. (rr_countdownMs r = None, case rr_countdownMs r of Some ms \<Rightarrow> ms | None \<Rightarrow> 0)"
proof unfold_locales
  let ?key = "\<lambda>r. (rr_countdownMs r = None, case rr_countdownMs r of Some ms \<Rightarrow> ms | None \<Rightarrow> 0)"
  show "?key a < ?key b \<Longrightarrow> countdown_order a b < 0" and "?key b < ?key a \<Longrightarrow> 0 < countdown_order a b"
    and "?key a = ?key b \<Longrightarrow> countdown_order a b = 0" for a b
    by (cases "rr_countdownMs a"; cases "rr_countdownMs b"; simp add: countdown_order_def less_prod_def)+
qed

interpretation attention: stable_comparator
    "\<lambda>a b. of_int (tone_rank (ai_tone a) - tone_rank (ai_tone b))" "\<lambda>a. tone_rank (ai_tone a)"
  by unfold_locales auto

subsection \<open>Active tasks\<close>

definition worse_budget :: "rat option \<Rightarrow> rat option \<Rightarrow> bool" where
  "worse_budget p q \<longleftrightarrow> (case q of None \<Rightarrow> True | Some y \<Rightarrow> (case p of Some x \<Rightarrow> y \<le> x | None \<Rightarrow> False))"

lemma budget_key_le:
  assumes "budget_key (a, p) \<le> budget_key (b, q)"
  shows "(t_is_orphaned a \<longrightarrow> t_is_orphaned b) \<and>
    (t_is_orphaned a = t_is_orphaned b \<longrightarrow> worse_budget (tb_pct p) (tb_pct q))"
  using assms by (cases "tb_pct p"; cases "tb_pct q") (auto simp: budget_key_def less_eq_prod_def worse_budget_def)

abbreviation budgeted :: "(jstring \<Rightarrow> int option) \<Rightarrow> int \<Rightarrow> task_info list \<Rightarrow> (task_info \<times> task_budget) list" where
  "budgeted date_parse now tasks \<equiv> map (\<lambda>t. (t, activeTaskBudget date_parse t now)) tasks"

lemma budget_keys_distinct:
  assumes "distinct (map t_id tasks)"
  shows "distinct (map budget_key (budgeted date_parse now tasks))"
proof -
  have "distinct (map (\<lambda>(a, b, c, d, i). i) (map budget_key (budgeted date_parse now tasks)))"
    using assms by (simp add: budget_key_def comp_def)
  then show ?thesis by (rule distinct_map [THEN iffD1, THEN conjunct1])
qed

lemma budget_sorted_stable:
  assumes "distinct (map t_id tasks)" and "mset tasks' = mset tasks"
  shows "sortByBudgetPct date_parse tasks' now = sortByBudgetPct date_parse tasks now"
proof -
  let ?b = "budgeted date_parse now"
  have "distinct (map t_id tasks')" using assms by (metis mset_eq_imp_distinct_iff mset_map)
  then have "js_sort budget_order (?b tasks') = sort_key budget_key (?b tasks')"
    by (intro budget.sort_distinct budget_keys_distinct)
  also have "\<dots> = sort_key budget_key (?b tasks)"
  proof (rule sort_key_inj_key_eq)
    show "mset (?b tasks') = mset (sort_key budget_key (?b tasks))" using assms(2) by simp
    have "set tasks' = set tasks" using assms(2) by (rule mset_eq_setD)
    then show "inj_on budget_key (set (?b tasks'))"
      using budget_keys_distinct [OF assms(1), of date_parse now] by (auto simp: distinct_map inj_on_def)
    show "sorted (map budget_key (sort_key budget_key (?b tasks)))" by (rule sorted_sort_key)
  qed
  also have "\<dots> = js_sort budget_order (?b tasks)"
    by (rule budget.sort_distinct [OF budget_keys_distinct [OF assms(1)], symmetric])
  finally show ?thesis by (simp add: sortByBudgetPct_def)
qed

lemma budget_sorted:
  "sorted_wrt (\<lambda>a b. (t_is_orphaned a \<longrightarrow> t_is_orphaned b) \<and>
      (t_is_orphaned a = t_is_orphaned b \<longrightarrow>
        worse_budget (tb_pct (activeTaskBudget date_parse a now)) (tb_pct (activeTaskBudget date_parse b now))))
    (sortByBudgetPct date_parse tasks now)"
proof -
  let ?s = "js_sort budget_order (budgeted date_parse now tasks)"
  have "sorted_wrt (\<lambda>x y. budget_key x \<le> budget_key y) ?s"
    using budget.sorted [of "budgeted date_parse now tasks"] by (simp add: sorted_wrt_map)
  then have "sorted_wrt (\<lambda>x y. (t_is_orphaned (fst x) \<longrightarrow> t_is_orphaned (fst y)) \<and>
        (t_is_orphaned (fst x) = t_is_orphaned (fst y) \<longrightarrow>
          worse_budget (tb_pct (activeTaskBudget date_parse (fst x) now))
            (tb_pct (activeTaskBudget date_parse (fst y) now)))) ?s"
    by (rule sorted_wrt_mono_rel [rotated]) (auto dest: budget_key_le)
  then show ?thesis by (simp add: sortByBudgetPct_def sorted_wrt_map)
qed

text \<open>The wedged worker is row one: the active table shows every task once, orphans last, the rest by the
  share of their deadline used, unknown deadlines after known ones; and the order does not depend on the
  order the tasks arrived in, so that rows do not jump between polls.\<close>

theorem wedged_worker_first:
  assumes "distinct (map t_id tasks)" and "mset tasks' = mset tasks"
  shows "mset (sortByBudgetPct date_parse tasks now) = mset tasks \<and>
    sorted_wrt (\<lambda>a b. (t_is_orphaned a \<longrightarrow> t_is_orphaned b) \<and>
        (t_is_orphaned a = t_is_orphaned b \<longrightarrow>
          worse_budget (tb_pct (activeTaskBudget date_parse a now)) (tb_pct (activeTaskBudget date_parse b now))))
      (sortByBudgetPct date_parse tasks now) \<and>
    sortByBudgetPct date_parse tasks' now = sortByBudgetPct date_parse tasks now"
  using budget_sorted budget_sorted_stable [OF assms]
  by (simp add: sortByBudgetPct_def image_mset.compositionality comp_def)

subsection \<open>Clusters\<close>

definition count_of :: "jstring \<Rightarrow> (jstring \<times> int) list \<Rightarrow> int" where
  "count_of l gs = sum_list (map snd (filter (\<lambda>g. fst g = l) gs))"

definition cluster_spec :: "(jstring \<times> int) list \<Rightarrow> (jstring \<times> int) list \<Rightarrow> error_cluster list \<Rightarrow> bool" where
  "cluster_spec rs as m \<longleftrightarrow>
     distinct (map ec_label m) \<and> ec_label ` set m = fst ` (set rs \<union> set as) - {[]} \<and>
     (\<forall>c \<in> set m. ec_retryCount c = count_of (ec_label c) rs \<and> ec_archivedCount c = count_of (ec_label c) as \<and>
       ec_total c = ec_retryCount c + ec_archivedCount c)"

lemma count_of_append [simp]: "count_of l (gs @ [g]) = count_of l gs + (if fst g = l then snd g else 0)"
  by (simp add: count_of_def)

lemma count_of_absent: "l \<notin> fst ` set gs \<Longrightarrow> count_of l gs = 0"
  unfolding count_of_def by (induction gs) auto

lemma add_cluster_labels:
  "map ec_label (add_cluster b m g) =
     map ec_label m @ (if fst g = [] \<or> fst g \<in> ec_label ` set m then [] else [fst g])"
  by (auto simp: add_cluster_def Let_def)

lemma add_cluster_spec:
  assumes "cluster_spec rs as m"
  shows "cluster_spec (rs @ (if b then [g] else [])) (as @ (if b then [] else [g])) (add_cluster b m g)"
proof -
  let ?rs = "rs @ (if b then [g] else [])" and ?as = "as @ (if b then [] else [g])"
  have d: "distinct (map ec_label (add_cluster b m g))"
    using assms unfolding add_cluster_labels by (auto simp: cluster_spec_def)
  have "ec_label ` set (add_cluster b m g) = set (map ec_label (add_cluster b m g))" by simp
  also have "\<dots> = fst ` (set ?rs \<union> set ?as) - {[]}"
    using assms unfolding add_cluster_labels by (auto simp: cluster_spec_def)
  finally have l: "ec_label ` set (add_cluster b m g) = fst ` (set ?rs \<union> set ?as) - {[]}" .
  have "\<forall>c \<in> set (add_cluster b m g). ec_retryCount c = count_of (ec_label c) ?rs \<and>
      ec_archivedCount c = count_of (ec_label c) ?as \<and> ec_total c = ec_retryCount c + ec_archivedCount c"
  proof (cases "fst g = []")
    case True
    then have "\<forall>c \<in> set m. ec_label c \<noteq> fst g" using assms by (auto simp: cluster_spec_def)
    with True assms show ?thesis by (auto simp: add_cluster_def cluster_spec_def)
  next
    case False
    show ?thesis
    proof (cases "fst g \<in> ec_label ` set m")
      case True
      with False assms show ?thesis by (auto simp: add_cluster_def cluster_spec_def Let_def)
    next
      case new: False
      with assms False have "fst g \<notin> fst ` set rs" "fst g \<notin> fst ` set as" by (auto simp: cluster_spec_def)
      then have "count_of (fst g) rs = 0" "count_of (fst g) as = 0" by (simp_all add: count_of_absent)
      moreover have "\<forall>c \<in> set m. ec_label c \<noteq> fst g" using new by (auto simp: image_iff)
      ultimately show ?thesis using False new assms by (auto simp: add_cluster_def cluster_spec_def Let_def)
    qed
  qed
  with d l show ?thesis unfolding cluster_spec_def by blast
qed

lemma merged_clusters_spec: "cluster_spec rs as (merged_clusters rs as)"
proof -
  have "cluster_spec rs [] (foldl (add_cluster True) [] rs)"
  proof (induction rs rule: rev_induct)
    case (snoc g rs)
    from add_cluster_spec [OF snoc, of True g] show ?case by simp
  qed (simp add: cluster_spec_def)
  then have "cluster_spec rs as (foldl (add_cluster False) (foldl (add_cluster True) [] rs) as)"
  proof (induction as rule: rev_induct)
    case (snoc g as)
    from add_cluster_spec [OF snoc(1) [OF snoc(2)], of False g] show ?case by simp
  qed simp
  then show ?thesis by (simp add: merged_clusters_def)
qed

text \<open>The error clusters of a queue conserve the counts they merge: every listed cluster carries exactly
  the retry and archived counts of its signature and their sum, each signature is listed once, larger
  totals first, and a signature is left out only when the limit is reached.\<close>

theorem clusters_conserve_counts:
  "(\<forall>c \<in> set (mergeErrorClusters rs as limit). ec_label c \<noteq> [] \<and>
      ec_retryCount c = count_of (ec_label c) rs \<and> ec_archivedCount c = count_of (ec_label c) as \<and>
      ec_total c = count_of (ec_label c) rs + count_of (ec_label c) as) \<and>
   distinct (map ec_label (mergeErrorClusters rs as limit)) \<and>
   sorted_wrt (\<lambda>a b. ec_total a \<ge> ec_total b) (mergeErrorClusters rs as limit) \<and>
   length (mergeErrorClusters rs as limit) = min limit (card (fst ` (set rs \<union> set as) - {[]}))"
proof -
  let ?m = "merged_clusters rs as"
  let ?s = "js_sort cluster_order ?m"
  note spec = merged_clusters_spec [of rs as, unfolded cluster_spec_def]
  have sub: "set (mergeErrorClusters rs as limit) \<subseteq> set ?m"
    using set_take_subset [of limit ?s] by (simp add: mergeErrorClusters_def)
  have "mset (map ec_label ?s) = mset (map ec_label ?m)" by simp
  with spec have d: "distinct (map ec_label ?s)" by (metis mset_eq_imp_distinct_iff)
  have "length ?m = card (ec_label ` set ?m)" using spec by (metis distinct_card length_map set_map)
  then have len: "length (mergeErrorClusters rs as limit) = min limit (card (fst ` (set rs \<union> set as) - {[]}))"
    using spec by (simp add: mergeErrorClusters_def min.commute)
  have "sorted_wrt (\<lambda>a b. (- ec_total a, ec_label a) \<le> (- ec_total b, ec_label b)) ?s"
    using clusters.sorted [of ?m] by (simp add: sorted_wrt_map)
  then have "sorted_wrt (\<lambda>a b. ec_total a \<ge> ec_total b) ?s"
    by (rule sorted_wrt_mono_rel [rotated]) (auto simp: less_eq_prod_def)
  then have "sorted_wrt (\<lambda>a b. ec_total a \<ge> ec_total b) (mergeErrorClusters rs as limit)"
    unfolding mergeErrorClusters_def by (rule sorted_wrt_take)
  moreover have "distinct (map ec_label (mergeErrorClusters rs as limit))"
    using d by (simp add: mergeErrorClusters_def take_map [symmetric])
  moreover have "\<forall>c \<in> set (mergeErrorClusters rs as limit). ec_label c \<noteq> [] \<and>
      ec_retryCount c = count_of (ec_label c) rs \<and> ec_archivedCount c = count_of (ec_label c) as \<and>
      ec_total c = count_of (ec_label c) rs + count_of (ec_label c) as"
  proof
    fix c assume "c \<in> set (mergeErrorClusters rs as limit)"
    with sub have c: "c \<in> set ?m" by blast
    with spec have "ec_label c \<in> fst ` (set rs \<union> set as) - {[]}" by blast
    with spec c show "ec_label c \<noteq> [] \<and>
      ec_retryCount c = count_of (ec_label c) rs \<and> ec_archivedCount c = count_of (ec_label c) as \<and>
      ec_total c = count_of (ec_label c) rs + count_of (ec_label c) as" by auto
  qed
  ultimately show ?thesis using len by blast
qed

lemma clusters_conserve_counts_witness:
  "length (mergeErrorClusters [(js ''eof'', 2)] [] 8) = 1 \<and>
   ec_total (hd (mergeErrorClusters [(js ''eof'', 2)] [] 8)) =
     count_of (ec_label (hd (mergeErrorClusters [(js ''eof'', 2)] [] 8))) [(js ''eof'', 2)]"
proof -
  let ?m = "mergeErrorClusters [(js ''eof'', 2)] [] 8"
  have one: "length ?m = 1"
    using clusters_conserve_counts [of "[(js ''eof'', 2)]" "[]" 8] by simp
  then have "hd ?m \<in> set ?m" by (cases ?m) simp_all
  then show ?thesis
    using one clusters_conserve_counts [of "[(js ''eof'', 2)]" "[]" 8] by (auto simp: count_of_def)
qed

definition sample_active :: "string \<Rightarrow> bool \<Rightarrow> string \<Rightarrow> task_info" where
  "sample_active i orphaned start =
     \<lparr>t_id = js i, t_queue = js ''low'', t_type = js ''email'', t_payload = [], t_state = js ''active'',
      t_start_time = js start, t_pending_since = None, t_max_retry = 25, t_retried = 0, t_last_failed_at = [],
      t_error_message = [], t_next_process_at = [], t_timeout_seconds = 1800, t_deadline = [], t_group = [],
      t_completed_at = [], t_result = [], t_ttl_seconds = 0, t_is_orphaned = orphaned, t_headers = None\<rparr>"

lemma wedged_worker_first_witness:
  "sortByBudgetPct (\<lambda>s. if s = js ''10:00'' then Some 36000000 else Some 37000000)
     [sample_active ''a'' True ''10:00'', sample_active ''b'' False ''10:30''] 38000000 =
   sortByBudgetPct (\<lambda>s. if s = js ''10:00'' then Some 36000000 else Some 37000000)
     [sample_active ''b'' False ''10:30'', sample_active ''a'' True ''10:00''] 38000000"
proof -
  have "distinct (map t_id [sample_active ''b'' False ''10:30'', sample_active ''a'' True ''10:00''])"
    by (simp add: sample_active_def)
  moreover have "mset [sample_active ''a'' True ''10:00'', sample_active ''b'' False ''10:30''] =
      mset [sample_active ''b'' False ''10:30'', sample_active ''a'' True ''10:00'']" by simp
  ultimately show ?thesis by (rule wedged_worker_first [THEN conjunct2, THEN conjunct2])
qed

subsection \<open>Histograms and attention\<close>

lemma wait_index_bound: "wait_index w < length WAIT_BUCKET_LABELS"
proof (cases "List.find (\<lambda>i. w < WAIT_BUCKET_BOUNDS_MS ! i) [0..<length WAIT_BUCKET_BOUNDS_MS]")
  case (Some i)
  then have "i < length WAIT_BUCKET_BOUNDS_MS" by (auto simp: find_Some_iff)
  with Some show ?thesis by (simp add: wait_index_def WAIT_BUCKET_BOUNDS_MS_def WAIT_BUCKET_LABELS_def)
qed (simp add: wait_index_def WAIT_BUCKET_LABELS_def)

fun countable_wait :: "number \<Rightarrow> bool" where
  "countable_wait (Finite w) = (0 \<le> w)"
| "countable_wait _ = False"

text \<open>The wait histogram drops a sample exactly when it is negative or not finite.\<close>

lemma wait_counts_conserved:
  "sum_list (map wb_count (bucketWaitsMs waits)) = length (filter countable_wait waits)"
proof -
  let ?z = "replicate (length WAIT_BUCKET_LABELS) 0"
  have step: "length (count_wait counts w) = length counts \<and>
      sum_list (count_wait counts w) = sum_list counts + (if countable_wait w then 1 else 0)"
    if "length counts = length WAIT_BUCKET_LABELS" for counts w
    using that wait_index_bound by (cases w) (auto simp: sum_list_update not_less)
  have "length (foldl count_wait ?z waits) = length WAIT_BUCKET_LABELS \<and>
      sum_list (foldl count_wait ?z waits) = length (filter countable_wait waits)"
    by (induction waits rule: rev_induct) (use step in \<open>auto simp: sum_list_replicate\<close>)
  moreover have "map wb_count (map (\<lambda>(label, n). \<lparr>wb_label = label, wb_count = n\<rparr>) (zip ls ns)) = ns"
    if "length ns = length ls" for ls :: "jstring list" and ns
    using that map_snd_zip [of ls ns] by (simp add: comp_def split_beta)
  ultimately show ?thesis by (simp add: bucketWaitsMs_def)
qed

lemma item_when_kinds [simp]: "ai_kind ` set (item_when b i) = (if b then {ai_kind i} else {})"
  by (simp add: item_when_def)

text \<open>The specification: the condition under which a finding of each kind is shown.\<close>

primrec anomaly :: "(jstring \<Rightarrow> int option) \<Rightarrow> attention_input \<Rightarrow> attention_kind \<Rightarrow> bool" where
  "anomaly date_parse input KPaused = (\<exists>r. an_fleetRow input = Some r \<and> fq_paused r)"
| "anomaly date_parse input KOrphans =
     (row_int fq_orphan_candidates input > 0 \<or> (\<exists>t \<in> set (an_activeTasks input). t_is_orphaned t))"
| "anomaly date_parse input KPendingAge = (slo_ms input \<le> row_int fq_oldest_pending_age_ms input)"
| "anomaly date_parse input KRetryStorm = (retryFireWithin (an_retryHistogram input) 300 > 0)"
| "anomaly date_parse input KPastDue =
     (row_int fq_past_due_scheduled input > 0 \<or>
      (\<exists>t \<in> set (an_scheduledTasks input). \<exists>due.
         parseWireTime date_parse (Some (t_next_process_at t)) = Some due \<and> due < an_nowMs input))"
| "anomaly date_parse input KArchiveCap = (archived_count input \<ge> 10000)"
| "anomaly date_parse input KArchivedDelta =
     (\<exists>d. archivedDelta (an_history input) (an_nowMs input) = Some d \<and> fd_today d > 0)"

lemma orphan_count_pos: "orphan_count input > 0 \<longleftrightarrow> anomaly date_parse input KOrphans"
  by (auto simp: orphan_count_def orphanedActives_def less_max_iff_disj filter_empty_conv)

lemma past_due_count_pos: "past_due_count date_parse input > 0 \<longleftrightarrow> anomaly date_parse input KPastDue"
  by (auto simp: past_due_count_def pastDueScheduled_def less_max_iff_disj filter_empty_conv split: option.splits)

lemma attention_kinds:
  "map ai_kind (attention_items date_parse input) =
   filter (anomaly date_parse input)
     [KPaused, KOrphans, KPendingAge, KRetryStorm, KPastDue, KArchiveCap, KArchivedDelta]"
  by (simp add: attention_items_def paused_item_def orphans_item_def pending_age_item_def retry_storm_item_def
      past_due_item_def archive_cap_item_def delta_item_def item_when_def Let_def ARCHIVE_CAP_def
      RETRY_STORM_WINDOW_S_def orphan_count_pos [where date_parse = date_parse] past_due_count_pos
      del: anomaly.simps(2,5) split: option.split)

lemma synthesized_kinds:
  "mset (map ai_kind (synthesizeAttention date_parse input)) = mset (map ai_kind (attention_items date_parse input))"
  by (simp add: synthesizeAttention_def)

text \<open>The Attention tab shows exactly the anomalies its inputs prove: a finding of each kind appears
  exactly under its condition, at most once, the most severe first.\<close>

theorem attention_is_exact:
  "set (map ai_kind (synthesizeAttention date_parse input)) = {k. anomaly date_parse input k} \<and>
   distinct (map ai_kind (synthesizeAttention date_parse input)) \<and>
   sorted (map (\<lambda>i. tone_rank (ai_tone i)) (synthesizeAttention date_parse input))"
proof (intro conjI)
  let ?kinds = "map ai_kind (attention_items date_parse input)"
  have "distinct ?kinds" unfolding attention_kinds by (rule distinct_filter) simp
  then show "distinct (map ai_kind (synthesizeAttention date_parse input))"
    using synthesized_kinds [of date_parse input] by (metis mset_eq_imp_distinct_iff)
  have "k \<in> set [KPaused, KOrphans, KPendingAge, KRetryStorm, KPastDue, KArchiveCap, KArchivedDelta]" for k
    by (cases k) simp_all
  then have "set ?kinds = {k. anomaly date_parse input k}" unfolding attention_kinds set_filter by blast
  then show "set (map ai_kind (synthesizeAttention date_parse input)) = {k. anomaly date_parse input k}"
    using synthesized_kinds [of date_parse input] by (metis mset_eq_setD)
  show "sorted (map (\<lambda>i. tone_rank (ai_tone i)) (synthesizeAttention date_parse input))"
    unfolding synthesizeAttention_def by (rule attention.sorted)
qed

end
