(* ===== verification/Fleet.thy ===== *)
theory Fleet
  imports Workspace
begin

text \<open>
  \<open>src/ui/src/lib/fleet.ts\<close>: ages, staleness and severities of the fleet screens, and the link the console
  makes of a query the attention engine suggests. (\<open>humanizeMs\<close> is in \<open>Formats\<close>.) A number that may be
  absent or not finite is a \<open>number option\<close>.
\<close>

subsection \<open>Ages and severities\<close>

definition ageTone :: "number option \<Rightarrow> tone option" where
  "ageTone ms = (case ms of
     Some (Finite x) \<Rightarrow>
       if x \<le> 0 then None
       else if x \<ge> 30 * 60 * 1000 then Some Crit else if x \<ge> 5 * 60 * 1000 then Some Warn else None
   | _ \<Rightarrow> None)"

definition STALE_ROW_THRESHOLD_MS :: int where
  "STALE_ROW_THRESHOLD_MS = 15000"

definition isStale :: "(jstring \<Rightarrow> int option) \<Rightarrow> jstring option \<Rightarrow> int \<Rightarrow> int \<Rightarrow> bool" where
  "isStale date_parse refreshedAt nowMs thresholdMs = (case refreshedAt of
     None \<Rightarrow> True
   | Some r \<Rightarrow> if r = [] then True
       else (case date_parse r of None \<Rightarrow> True | Some t \<Rightarrow> nowMs - t > thresholdMs))"

definition severityTone :: "int \<Rightarrow> tone" where
  "severityTone severity = (if severity \<ge> 5 then Crit else if severity \<ge> 3 then Warn else Info)"

definition AGE_DETECTORS :: "jstring list" where
  "AGE_DETECTORS = [js ''PENDING_AGE'', js ''PAUSED_LONG'', js ''GROUP_STALL'', js ''SCHEDULER_GONE'']"

definition formatFindingValue :: "jstring \<Rightarrow> number \<Rightarrow> jstring" where
  "formatFindingValue detector value = (case value of
     Finite x \<Rightarrow>
       if detector \<in> set AGE_DETECTORS then humanizeMs (Some (round_double (x * 1000))) else locale_number x
   | _ \<Rightarrow> DASH)"

definition formatLatencyMs :: "number option \<Rightarrow> jstring" where
  "formatLatencyMs ms = (case ms of
     Some (Finite x) \<Rightarrow>
       if x < 0 then DASH
       else if x = 0 then js ''0ms''
       else if x < 1000 then js_of_int (math_round x) @ js ''ms''
       else humanizeMs (Some (Finite x))
   | _ \<Rightarrow> DASH)"

definition formatErrorRate :: "number option \<Rightarrow> jstring" where
  "formatErrorRate rate = (case rate of
     Some (Finite x) \<Rightarrow> to_fixed 1 (if x \<le> 1 then dbl (x * 100) else x) @ js ''%''
   | _ \<Rightarrow> DASH)"

definition SEV_STRIPE :: "tone \<Rightarrow> jstring option" where
  "SEV_STRIPE t = (case t of
     Crit \<Rightarrow> Some (js ''bg-[var(--fc-crit)]'')
   | Warn \<Rightarrow> Some (js ''bg-[var(--fc-warn)]'')
   | Info \<Rightarrow> Some (js ''bg-[var(--fc-acc-dim)]'')
   | _ \<Rightarrow> None)"

subsection \<open>A suggested query\<close>

datatype target_kind = ToTasks | ToQueues | ToSchedulers | ToWorkspace

record attention_target =
  at_kind :: target_kind
  at_search :: jstring
  at_queue :: "jstring option"

record fleet_clause =
  fl_key :: jstring
  fl_op :: jstring
  fl_value :: jstring

text \<open>
  \<open>/(?:[^\s"]+|"[^"]*")+/g\<close>: white space ends a token unless it is inside closed quotes; a quote that is
  never closed ends the token and is skipped.
\<close>

function query_tokens :: "jstring \<Rightarrow> jstring \<Rightarrow> jstring list" where
  "query_tokens acc [] = (if acc = [] then [] else [acc])"
| "query_tokens acc (c # cs) =
     (if c = 34 then
        (if 34 \<in> set cs
         then query_tokens (acc @ [34] @ takeWhile (\<lambda>x. x \<noteq> 34) cs @ [34]) (tl (dropWhile (\<lambda>x. x \<noteq> 34) cs))
         else (if acc = [] then [] else [acc]) @ query_tokens [] cs)
      else if is_ws c then (if acc = [] then [] else [acc]) @ query_tokens [] cs
      else query_tokens (acc @ [c]) cs)"
  by pat_completeness auto
termination
proof (relation "measure (\<lambda>(acc, s). length s)", simp_all)
  fix cs :: jstring
  have "length (dropWhile (\<lambda>x. x \<noteq> 34) cs) \<le> length cs" by (rule length_dropWhile_le)
  then show "length (dropWhile (\<lambda>x. x \<noteq> 34) cs) - Suc 0 < Suc (length cs)" by linarith
qed

text \<open>\<open>value.replace(/^"|"$/g, "")\<close>.\<close>

definition strip_quotes :: "jstring \<Rightarrow> jstring" where
  "strip_quotes v =
     (let v1 = (if v \<noteq> [] \<and> hd v = 34 then tl v else v)
      in if v1 \<noteq> [] \<and> last v1 = 34 then butlast v1 else v1)"

text \<open>\<open>CLAUSE_RE\<close>; \<open>.*$\<close> does not match over a line terminator.\<close>

definition line_end :: "nat \<Rightarrow> bool" where
  "line_end c \<longleftrightarrow> c \<in> {10, 13, 0x2028, 0x2029}"

definition fleet_clause_of :: "jstring \<Rightarrow> fleet_clause option" where
  "fleet_clause_of t =
     (let key = takeWhile field_char t; r = dropWhile field_char t
      in if key = [] \<or> \<not> field_start (hd key) then None
         else case find_op r of
           None \<Rightarrow> None
         | Some op' \<Rightarrow>
             let value = drop (length op') r
             in if list_ex line_end value then None
                else Some \<lparr>fl_key = key, fl_op = op', fl_value = strip_quotes value\<rparr>)"

definition parseClauses :: "jstring \<Rightarrow> fleet_clause list" where
  "parseClauses q = List.map_filter fleet_clause_of (query_tokens [] q)"

definition search_of :: "params \<Rightarrow> jstring" where
  "search_of ps = (let s = params_toString ps in if s \<noteq> [] then js ''?'' @ s else [])"

definition equals_clauses :: "string \<Rightarrow> fleet_clause list \<Rightarrow> fleet_clause list" where
  "equals_clauses key cls = filter (\<lambda>c. fl_key c = js key \<and> fl_op c = js ''='') cls"

text \<open>The queue and the focus, when the workspace is the target of a query with this state clause.\<close>

definition workspace_of :: "fleet_clause list \<Rightarrow> fleet_clause \<Rightarrow> (jstring \<times> console_task_state) option" where
  "workspace_of cls stateClause =
     (let extras = filter (\<lambda>c. fl_key c \<noteq> js ''queue'' \<and> fl_key c \<noteq> js ''state'') cls
      in case equals_clauses ''queue'' cls of
           [queueClause] \<Rightarrow>
             if fl_value queueClause \<noteq> [] \<and>
                list_all (\<lambda>c. fl_key c \<in> {js ''pending_age'', js ''next_run'', js ''group''}) extras
             then map_option (\<lambda>s. (fl_value queueClause, s)) (map_of FOCUS_STATES (fl_value stateClause))
             else None
         | _ \<Rightarrow> None)"

definition console_params :: "jstring \<Rightarrow> params" where
  "console_params raw = serializeConsoleState (DEFAULT_CONSOLE_STATE\<lparr>cs_q := raw\<rparr>) []"

definition directory_params :: "jstring \<Rightarrow> params" where
  "directory_params raw = serializeDirectoryState (DEFAULT_DIRECTORY_STATE\<lparr>ds_f := raw\<rparr>) []"

definition attentionTarget :: "jstring \<Rightarrow> attention_target" where
  "attentionTarget suggestedQuery =
     (let raw = trim suggestedQuery
      in if raw = [] then \<lparr>at_kind = ToQueues, at_search = [], at_queue = None\<rparr>
         else if raw = js ''schedulers'' \<or> starts_with (js ''schedulers '') raw
         then (let type' = (case equals_clauses ''type'' (parseClauses raw) of c # _ \<Rightarrow> fl_value c | [] \<Rightarrow> [])
               in \<lparr>at_kind = ToSchedulers,
                   at_search = search_of (if type' \<noteq> [] then set_param [] (js ''filter'') type' else []),
                   at_queue = None\<rparr>)
         else let cls = parseClauses raw
              in case equals_clauses ''state'' cls of
                   [] \<Rightarrow> \<lparr>at_kind = ToQueues, at_search = search_of (directory_params raw), at_queue = None\<rparr>
                 | stateClause # _ \<Rightarrow>
                     (case workspace_of cls stateClause of
                        Some (queue, focus) \<Rightarrow>
                          \<lparr>at_kind = ToWorkspace,
                           at_search = js ''?'' @ params_toString (set_param [] (js ''focus'') (state_text focus)),
                           at_queue = Some queue\<rparr>
                      | None \<Rightarrow>
                          \<lparr>at_kind = ToTasks, at_search = search_of (console_params raw), at_queue = None\<rparr>))"

subsection \<open>Routes\<close>

lemma console_params_only: "get_all (console_params raw) k = (if k = js ''q'' \<and> raw \<noteq> [] then [to_usv raw] else [])"
  unfolding console_params_def get_all_console
  by (auto simp: DEFAULT_CONSOLE_STATE_def)

lemma directory_params_only: "get_all (directory_params raw) k = (if k = js ''f'' \<and> raw \<noteq> [] then [to_usv raw] else [])"
  unfolding directory_params_def directory_written get_all_directory_written
  by (auto simp: DEFAULT_DIRECTORY_STATE_def)

lemma focus_named: "map_of FOCUS_STATES v = Some s \<Longrightarrow> state_text s = v"
  by (auto simp: FOCUS_STATES_def split: if_splits)

text \<open>What each surface receives of a suggested query.\<close>

definition carries :: "jstring \<Rightarrow> attention_target \<Rightarrow> bool" where
  "carries raw t \<longleftrightarrow> (case at_kind t of
     ToTasks \<Rightarrow> equals_clauses ''state'' (parseClauses raw) \<noteq> [] \<and>
       (\<exists>ps. at_search t = search_of ps \<and> (\<forall>k. get_all ps k = (if k = js ''q'' then [to_usv raw] else [])))
   | ToQueues \<Rightarrow>
       (\<exists>ps. at_search t = search_of ps \<and> (\<forall>k. get_all ps k = (if k = js ''f'' \<and> raw \<noteq> [] then [to_usv raw] else [])))
   | ToSchedulers \<Rightarrow>
       (\<exists>ps. at_search t = search_of ps \<and> (\<forall>k. k \<noteq> js ''filter'' \<longrightarrow> get_all ps k = []))
   | ToWorkspace \<Rightarrow>
       (\<exists>qc sc rest. equals_clauses ''queue'' (parseClauses raw) = [qc] \<and>
          equals_clauses ''state'' (parseClauses raw) = sc # rest \<and> at_queue t = Some (fl_value qc) \<and>
          at_search t = js ''?'' @ params_toString [(js ''focus'', fl_value sc)] \<and>
          (\<forall>c \<in> set (parseClauses raw).
             fl_key c \<in> {js ''queue'', js ''state'', js ''pending_age'', js ''next_run'', js ''group''})))"

lemma carries_nothing: "raw = [] \<Longrightarrow> carries raw \<lparr>at_kind = ToQueues, at_search = [], at_queue = None\<rparr>"
  using search_of_def [of "[]"] by (auto simp: carries_def params_toString_def intro!: exI [of _ "[]"])

lemma carries_schedulers:
  "carries raw \<lparr>at_kind = ToSchedulers, at_search = search_of (if ty \<noteq> [] then set_param [] (js ''filter'') ty else []),
     at_queue = None\<rparr>"
proof -
  have "\<forall>k. k \<noteq> js ''filter'' \<longrightarrow> get_all (if ty \<noteq> [] then set_param [] (js ''filter'') ty else []) k = []"
    by (auto simp: get_all_def)
  then show ?thesis unfolding carries_def by auto
qed

lemma carries_directory:
  "carries raw \<lparr>at_kind = ToQueues, at_search = search_of (directory_params raw), at_queue = None\<rparr>"
  using directory_params_only [of raw] by (auto simp: carries_def)

lemma carries_console:
  "raw \<noteq> [] \<Longrightarrow> equals_clauses ''state'' (parseClauses raw) \<noteq> [] \<Longrightarrow>
   carries raw \<lparr>at_kind = ToTasks, at_search = search_of (console_params raw), at_queue = None\<rparr>"
  using console_params_only [of raw] by (auto simp: carries_def)

lemma carries_workspace:
  assumes "equals_clauses ''state'' (parseClauses raw) = sc # rest"
    and "workspace_of (parseClauses raw) sc = Some (queue, focus)"
  shows "carries raw \<lparr>at_kind = ToWorkspace,
    at_search = js ''?'' @ params_toString (set_param [] (js ''focus'') (state_text focus)), at_queue = Some queue\<rparr>"
proof -
  let ?cs = "parseClauses raw"
  from assms(2) obtain qc where qc: "equals_clauses ''queue'' ?cs = [qc]" "queue = fl_value qc"
    "map_of FOCUS_STATES (fl_value sc) = Some focus"
    "list_all (\<lambda>c. fl_key c \<in> {js ''pending_age'', js ''next_run'', js ''group''})
       (filter (\<lambda>c. fl_key c \<noteq> js ''queue'' \<and> fl_key c \<noteq> js ''state'') ?cs)"
    by (auto simp: workspace_of_def Let_def split: list.splits if_splits)
  have "to_usv (state_text focus) = state_text focus" by (cases focus) simp_all
  then have "set_param [] (js ''focus'') (state_text focus) = [(js ''focus'', fl_value sc)]"
    using focus_named [OF qc(3)] by simp
  moreover have "\<forall>c \<in> set ?cs. fl_key c \<in> {js ''queue'', js ''state'', js ''pending_age'', js ''next_run'', js ''group''}"
    using qc(4) by (auto simp: list_all_iff)
  ultimately show ?thesis using assms(1) qc(1,2) by (auto simp: carries_def)
qed

text \<open>A suggested query reaches the surface that can answer it: one with a state clause goes to the console
  as it is, the only parameter of the link, unless it names exactly one queue and uses only what the
  workspace shows, when that queue's workspace opens focused on the first state it names; one without
  goes to the directory as it is.\<close>

theorem suggested_query_reaches_surface:
  "carries (trim q) (attentionTarget q)"
proof (cases "trim q = [] \<or> trim q = js ''schedulers'' \<or> starts_with (js ''schedulers '') (trim q)")
  case True
  then show ?thesis
    by (cases "trim q = []") (simp_all only: attentionTarget_def Let_def carries_nothing carries_schedulers if_True if_False simp_thms)
next
  case False
  show ?thesis
  proof (cases "equals_clauses ''state'' (parseClauses (trim q))")
    case Nil
    with False carries_directory [of "trim q"] show ?thesis by (simp add: attentionTarget_def Let_def)
  next
    case (Cons sc rest)
    with False carries_console [of "trim q"] carries_workspace [OF Cons] show ?thesis
      by (cases "workspace_of (parseClauses (trim q)) sc") (auto simp: attentionTarget_def Let_def)
  qed
qed

text \<open>
  The workspace drops what it has no place for: a second state, another operator on the queue and any bare
  word are gone although the query named them.
\<close>

lemma workspace_drops_clauses:
  "attentionTarget (js ''queue=a state=retry queue~b urgent'') =
   \<lparr>at_kind = ToWorkspace, at_search = js ''?focus=retry'', at_queue = Some (js ''a'')\<rparr>"
proof -
  let ?q = "js ''queue=a state=retry queue~b urgent''"
  have "query_tokens [] ?q = [js ''queue=a'', js ''state=retry'', js ''queue~b'', js ''urgent'']"
    by (simp add: js_def is_ws_def)
  then have cs: "parseClauses ?q = [\<lparr>fl_key = js ''queue'', fl_op = js ''='', fl_value = js ''a''\<rparr>,
      \<lparr>fl_key = js ''state'', fl_op = js ''='', fl_value = js ''retry''\<rparr>,
      \<lparr>fl_key = js ''queue'', fl_op = js ''~'', fl_value = js ''b''\<rparr>]"
    by (simp add: parseClauses_def fleet_clause_of_def List.map_filter_simps field_char_def field_start_def
        is_digit_def find_op_def op_codes starts_with_def strip_quotes_def line_end_def js_def)
  have "trim ?q = ?q" by (simp add: trim_def trim_start_def is_ws_def js_def)
  moreover have "\<not> starts_with (js ''schedulers '') ?q" by (simp add: starts_with_def js_def)
  moreover have "params_toString [(js ''focus'', js ''retry'')] = js ''focus=retry''"
    by (simp add: params_toString_def form_encode_def form_byte_def utf8_def js_def)
  ultimately show ?thesis
    by (simp add: attentionTarget_def Let_def cs equals_clauses_def workspace_of_def FOCUS_STATES_def)
      (simp add: js_def)
qed

end
