(* ===== verification/Paths.thy ===== *)
theory Paths
  imports Fleet Requests
begin

text \<open>
  \<open>src/ui/src/paths.ts\<close>: the routes of the console and the links into it. \<open>window.ROOT_PATH\<close> is the parameter
  \<open>rootp\<close>. A link is \<open>None\<close> where \<open>encodeURIComponent\<close> throws.
\<close>

subsection \<open>Routes\<close>

record routes =
  p_HOME :: jstring
  p_QUEUES :: jstring
  p_SETTINGS :: jstring
  p_SERVERS :: jstring
  p_SCHEDULERS :: jstring
  p_QUEUE_DETAILS :: jstring
  p_TASKS :: jstring
  p_ERRORS :: jstring
  p_OPS :: jstring
  p_HYGIENE :: jstring
  p_REDIS :: jstring
  p_TASK_DETAILS :: jstring
  p_QUEUE_METRICS :: jstring

definition paths :: "jstring \<Rightarrow> routes" where
  "paths rootp =
     \<lparr>p_HOME = rootp @ js ''/'', p_QUEUES = rootp @ js ''/queues'', p_SETTINGS = rootp @ js ''/settings'',
      p_SERVERS = rootp @ js ''/servers'', p_SCHEDULERS = rootp @ js ''/schedulers'',
      p_QUEUE_DETAILS = rootp @ js ''/queues/:qname'', p_TASKS = rootp @ js ''/tasks'', p_ERRORS = rootp @ js ''/errors'',
      p_OPS = rootp @ js ''/ops'', p_HYGIENE = rootp @ js ''/hygiene'', p_REDIS = rootp @ js ''/redis'',
      p_TASK_DETAILS = rootp @ js ''/queues/:qname/tasks/:taskId'', p_QUEUE_METRICS = rootp @ js ''/q/metrics''\<rparr>"

subsection \<open>Links\<close>

text \<open>\<open>s.replace(p, r)\<close> with a string pattern and a replacement without \<open>$\<close>: the first occurrence.\<close>

fun replace_once :: "jstring \<Rightarrow> jstring \<Rightarrow> jstring \<Rightarrow> jstring" where
  "replace_once p r [] = (if p = [] then r else [])"
| "replace_once p r (c # cs) =
     (if starts_with p (c # cs) then r @ drop (length p) (c # cs) else c # replace_once p r cs)"

definition queueDetailsPath :: "jstring \<Rightarrow> jstring \<Rightarrow> jstring option \<Rightarrow> jstring option" where
  "queueDetailsPath rootp qname taskStatus =
     map_option (\<lambda>u.
       (let path = replace_once (js '':qname'') u (p_QUEUE_DETAILS (paths rootp))
        in case taskStatus of
             Some st \<Rightarrow> if st \<noteq> [] then path @ js ''?status='' @ st else path
           | None \<Rightarrow> path)) (seg qname)"

definition taskDetailsPath :: "jstring \<Rightarrow> jstring \<Rightarrow> jstring \<Rightarrow> jstring" where
  "taskDetailsPath rootp qname taskId = p_TASKS (paths rootp) @ taskDrawerSearch qname taskId"

definition attentionFindingPath :: "jstring \<Rightarrow> jstring \<Rightarrow> jstring option" where
  "attentionFindingPath rootp suggestedQuery =
     (let target = attentionTarget suggestedQuery
      in case at_queue target of
           Some q \<Rightarrow>
             if at_kind target = ToWorkspace \<and> q \<noteq> []
             then map_option (\<lambda>p. p @ at_search target) (queueDetailsPath rootp q None)
             else Some ((case at_kind target of ToTasks \<Rightarrow> p_TASKS (paths rootp) | ToSchedulers \<Rightarrow> p_SCHEDULERS (paths rootp)
                         | _ \<Rightarrow> p_QUEUES (paths rootp)) @ at_search target)
         | None \<Rightarrow> Some ((case at_kind target of ToTasks \<Rightarrow> p_TASKS (paths rootp) | ToSchedulers \<Rightarrow> p_SCHEDULERS (paths rootp)
                         | _ \<Rightarrow> p_QUEUES (paths rootp)) @ at_search target))"

subsection \<open>A queue's path names the queue\<close>

lemma replace_first_skip:
  assumes "hd p \<notin> set a" "p \<noteq> []"
  shows "replace_once p r (a @ p @ b) = a @ r @ b"
  using assms(1)
proof (induction a)
  case Nil
  obtain c cs where p: "p @ b = c # cs" using assms(2) by (cases p) auto
  have "starts_with p (p @ b)" "drop (length p) (p @ b) = b" by simp_all
  then show ?case unfolding append_Nil p by simp
next
  case (Cons c a)
  then have "\<not> starts_with p (c # a @ p @ b)" using assms(2) by (cases p) (auto simp: starts_with_def)
  with Cons show ?case by simp
qed

lemma queue_path:
  assumes "58 \<notin> set rootp" "seg qname = Some u"
  shows "queueDetailsPath rootp qname None = Some (rootp @ js ''/queues/'' @ u)"
proof -
  have "p_QUEUE_DETAILS (paths rootp) = (rootp @ js ''/queues/'') @ js '':qname'' @ []" by (simp add: paths_def js_def)
  then have "replace_once (js '':qname'') u (p_QUEUE_DETAILS (paths rootp)) = (rootp @ js ''/queues/'') @ u @ []"
    using assms(1) by (simp only:) (rule replace_first_skip; simp add: js_def)
  then show ?thesis using assms(2) by (simp add: queueDetailsPath_def Let_def)
qed

text \<open>The replacement has none of the patterns \<open>replace\<close> treats specially.\<close>

lemma seg_plain: "utf16 s \<Longrightarrow> seg s = Some u \<Longrightarrow> 36 \<notin> set u \<and> 47 \<notin> set u \<and> 63 \<notin> set u \<and> 35 \<notin> set u"
  using seg_safe [of s u] by (auto simp: url_safe_def unreserved_def)

text \<open>A queue's link leads to the queue, whatever its name: the path ends in one segment that decodes to the name, so
  two queues never share a link. It fails only for a name that is not well-formed text. An attention
  finding about one queue leads to the same path with its focus.\<close>

theorem queue_link_names_queue:
  assumes "58 \<notin> set rootp" "utf16 qname" "qname \<noteq> []"
  shows "(case seg qname of
      None \<Rightarrow> queueDetailsPath rootp qname None = None
    | Some u \<Rightarrow> queueDetailsPath rootp qname None = Some (rootp @ js ''/queues/'' @ u) \<and> decode_segment u = qname \<and>
        47 \<notin> set u \<and> 63 \<notin> set u \<and> 35 \<notin> set u \<and>
        (at_kind (attentionTarget q) = ToWorkspace \<and> at_queue (attentionTarget q) = Some qname \<longrightarrow>
           attentionFindingPath rootp q = Some (rootp @ js ''/queues/'' @ u @ at_search (attentionTarget q))))"
proof (cases "seg qname")
  case None
  then show ?thesis by (simp add: queueDetailsPath_def)
next
  case (Some u)
  note p = queue_path [OF assms(1) Some]
  have "attentionFindingPath rootp q = Some (rootp @ js ''/queues/'' @ u @ at_search (attentionTarget q))"
    if "at_kind (attentionTarget q) = ToWorkspace" "at_queue (attentionTarget q) = Some qname"
    using that assms(3) p by (simp add: attentionFindingPath_def Let_def)
  with Some p decode_seg [OF assms(2) Some] seg_plain [OF assms(2) Some] show ?thesis by simp
qed

lemma queue_link_names_queue_witness:
  "queueDetailsPath [] (js ''a/b'') None = Some (js ''/queues/a%2Fb'')"
proof -
  have "seg (js ''a/b'') = Some (js ''a%2Fb'')"
    by (simp add: seg_def js_def utf8_def escape_byte_def unreserved_def hex_digit_def)
  with queue_link_names_queue [of "[]" "js ''a/b''" "[]"] show ?thesis by (simp add: js_def utf16_def)
qed

end
