(* ===== verification/Durations.thy ===== *)
theory Durations
  imports Schedulers UrlState
begin

text \<open>
  The durations of \<open>src/ui/src/utils.ts\<close>. \<open>Date.now()\<close> is the argument \<open>now\<close> and \<open>Date.parse\<close> the parameter
  \<open>date_parse\<close>, \<open>None\<close> for \<open>NaN\<close>; \<open>dayjs\<close>, which formats an absolute time, is a package and the parameter
  \<open>format_date\<close>, \<open>None\<close> for an invalid date. The totals passed to \<open>durationFromSeconds\<close> are whole numbers at
  every call.
\<close>

subsection \<open>Durations\<close>

record duration =
  du_hour :: int
  du_minute :: int
  du_second :: int
  du_totalSeconds :: int

definition durationFromSeconds :: "int \<Rightarrow> duration" where
  "durationFromSeconds totalSeconds =
     (let hour = totalSeconds div 3600;
          minute = (totalSeconds - 3600 * hour) div 60;
          second = totalSeconds - 3600 * hour - 60 * minute
      in \<lparr>du_hour = hour, du_minute = minute, du_second = second, du_totalSeconds = totalSeconds\<rparr>)"

definition durationBetween :: "rat \<Rightarrow> rat \<Rightarrow> duration" where
  "durationBetween start e = durationFromSeconds \<lfloor>dbl (dbl (start - e) / 1000)\<rfloor>"

definition stringifyDuration :: "duration \<Rightarrow> jstring" where
  "stringifyDuration d =
     (if du_hour d > 24
      then (let n = du_hour d div 24 in js_of_int n @ (if n = 1 then js '' day'' else js '' days''))
      else (if du_hour d \<noteq> 0 then js_of_int (du_hour d) @ js ''h'' else []) @
           (if du_minute d \<noteq> 0 then js_of_int (du_minute d) @ js ''m'' else []) @ js_of_int (du_second d) @ js ''s'')"

definition stringifyDurationMs :: "number \<Rightarrow> jstring" where
  "stringifyDurationMs ms = (case ms of
     Finite x \<Rightarrow>
       if x < 0 then js ''-''
       else if x < 1 then js ''<1ms''
       else if x < 1000 then js_of_int (math_round x) @ js ''ms''
       else if x < 60000 then to_fixed 1 (dbl (x / 1000)) @ js ''s''
       else stringifyDuration (durationFromSeconds (math_round (dbl (x / 1000))))
   | _ \<Rightarrow> js ''-'')"

definition zero_timestamp :: jstring where
  "zero_timestamp = js ''0001-01-01T00:00:00Z''"

definition parseTimestamp :: "(jstring \<Rightarrow> int option) \<Rightarrow> jstring \<Rightarrow> int option" where
  "parseTimestamp date_parse timestamp =
     (if timestamp = [] \<or> timestamp = js ''-'' \<or> timestamp = zero_timestamp then None else date_parse timestamp)"

definition durationBefore :: "(jstring \<Rightarrow> int option) \<Rightarrow> int \<Rightarrow> jstring \<Rightarrow> jstring" where
  "durationBefore date_parse now timestamp = (case parseTimestamp date_parse timestamp of
     None \<Rightarrow> js ''-''
   | Some ms \<Rightarrow>
       let d = durationBetween (of_int ms) (of_int now)
       in if du_totalSeconds d < 1 then js ''now'' else js ''in '' @ stringifyDuration d)"

definition timeAgoUnix :: "int \<Rightarrow> number \<Rightarrow> jstring" where
  "timeAgoUnix now unixtime = (case unixtime of
     Finite x \<Rightarrow> if x = 0 then [] else stringifyDuration (durationBetween (of_int now) (dbl (x * 1000))) @ js '' ago''
   | _ \<Rightarrow> [])"

definition timeAgo :: "(jstring \<Rightarrow> int option) \<Rightarrow> int \<Rightarrow> jstring \<Rightarrow> jstring" where
  "timeAgo date_parse now timestamp = (case parseTimestamp date_parse timestamp of
     None \<Rightarrow> js ''-'' | Some ms \<Rightarrow> timeAgoUnix now (Finite (dbl (of_int ms / 1000))))"

definition durationSince :: "(jstring \<Rightarrow> int option) \<Rightarrow> int \<Rightarrow> jstring \<Rightarrow> jstring" where
  "durationSince date_parse now timestamp = (case parseTimestamp date_parse timestamp of
     None \<Rightarrow> js ''-''
   | Some ms \<Rightarrow>
       let d = durationBetween (of_int now) (of_int ms)
       in if du_totalSeconds d < 1 then js ''0s'' else stringifyDuration d)"

definition formatTimestamp :: "(jstring \<Rightarrow> jstring option) \<Rightarrow> jstring \<Rightarrow> jstring" where
  "formatTimestamp format_date timestamp =
     (if timestamp = [] \<or> timestamp = zero_timestamp then js ''-''
      else case format_date timestamp of Some s \<Rightarrow> s | None \<Rightarrow> timestamp)"

definition uuidPrefix :: "jstring \<Rightarrow> jstring" where
  "uuidPrefix uuid = (case index_of 45 uuid of None \<Rightarrow> uuid | Some idx \<Rightarrow> take idx uuid)"

definition percentage :: "int \<Rightarrow> int \<Rightarrow> jstring" where
  "percentage numerator denominator =
     (if denominator = 0 then js ''0.00%''
      else to_fixed 2 (dbl (dbl (of_int numerator / of_int denominator) * 100)) @ js '' %'')"

definition currentUnixtime :: "int \<Rightarrow> int" where
  "currentUnixtime now = now div 1000"

subsection \<open>The parts of a duration\<close>

lemma duration_parts:
  "du_totalSeconds (durationFromSeconds n) = n \<and>
   n = 3600 * du_hour (durationFromSeconds n) + 60 * du_minute (durationFromSeconds n) + du_second (durationFromSeconds n) \<and>
   0 \<le> du_minute (durationFromSeconds n) \<and> du_minute (durationFromSeconds n) < 60 \<and>
   0 \<le> du_second (durationFromSeconds n) \<and> du_second (durationFromSeconds n) < 60"
proof -
  have "n - 3600 * (n div 3600) = n mod 3600" by (simp add: minus_mult_div_eq_mod)
  moreover have "n mod 3600 - 60 * (n mod 3600 div 60) = n mod 3600 mod 60" by (simp add: minus_mult_div_eq_mod)
  moreover have "0 \<le> n mod 3600" "n mod 3600 < 3600" by simp_all
  moreover from this have "n mod 3600 div 60 < 60" "0 \<le> n mod 3600 div 60" by (simp_all add: pos_imp_zdiv_nonneg_iff)
  ultimately show ?thesis by (simp add: durationFromSeconds_def Let_def)
qed

lemma hour_small: "0 \<le> n \<Longrightarrow> n < 90000 \<Longrightarrow> 0 \<le> du_hour (durationFromSeconds n) \<and> du_hour (durationFromSeconds n) \<le> 24"
  using duration_parts [of n] by linarith

text \<open>The total of a text of hours, minutes and seconds, any of the first two left out when zero.\<close>

definition hms_text :: "nat \<Rightarrow> nat \<Rightarrow> nat \<Rightarrow> jstring" where
  "hms_text h m s =
     (if h \<noteq> 0 then js_of_nat h @ [104] else []) @ (if m \<noteq> 0 then js_of_nat m @ [109] else []) @ js_of_nat s @ [115]"

lemma go_total_hms:
  assumes "h * 3600 + m * 60 + s < 2 ^ 53"
  shows "go_total 0 (hms_text h m s) = Some (of_nat (h * 3600 + m * 60 + s))"
proof -
  have nd: "\<not> is_digit 104" "\<not> is_digit 109" "\<not> is_digit 115" by (simp_all add: is_digit_def)
  have secs: "go_total (of_nat a) (js_of_nat s @ [115]) = Some (of_nat (a + s))" if "a + s < 2 ^ 53" for a
    using go_total_step [of s "[115]" 1 "[]" a] go_units(3) nd that by (simp add: go_total.simps [of _ "[]"])
  have mins: "go_total (of_nat a) ((if m \<noteq> 0 then js_of_nat m @ [109] else []) @ js_of_nat s @ [115]) =
      Some (of_nat (a + m * 60 + s))" if "a + m * 60 + s < 2 ^ 53" for a
    using go_total_step [of m "109 # js_of_nat s @ [115]" 60 "js_of_nat s @ [115]" a] go_units(2) [of s "[115]"] nd
      secs [of "a + m * 60"] secs [of a] that by (cases "m = 0") simp_all
  show ?thesis
  proof (cases "h = 0")
    case True
    then show ?thesis using mins [of 0] assms by (simp add: hms_text_def)
  next
    case False
    let ?r = "(if m \<noteq> 0 then js_of_nat m @ [109] else []) @ js_of_nat s @ [115]"
    have "go_unit (104 # ?r) = Some (of_nat 3600, ?r)"
      using go_units(1) [of m "109 # js_of_nat s @ [115]"] go_units(1) [of s "[115]"] by (cases "m = 0") simp_all
    then have "go_total (of_nat 0) (js_of_nat h @ 104 # ?r) = go_total (of_nat (0 + h * 3600)) ?r"
      using nd assms by (intro go_total_step) simp_all
    with mins [of "h * 3600"] assms False show ?thesis by (simp add: hms_text_def)
  qed
qed

lemma hms_text_chars: "c \<in> set (hms_text h m s) \<Longrightarrow> \<not> is_ws c"
  using js_of_nat_digits is_digit_not_ws by (fastforce simp: hms_text_def is_ws_def)

lemma parse_hms:
  assumes "h * 3600 + m * 60 + s < 2 ^ 53"
  shows "parseGoDuration (hms_text h m s) = Some (int (h * 3600 + m * 60 + s))"
proof -
  have ne: "hms_text h m s \<noteq> []" by (simp add: hms_text_def)
  have t: "trim (hms_text h m s) = hms_text h m s"
    using ne by (intro trim_id) (metis hms_text_chars hd_in_set last_in_set)
  have zero: "go_total 0 (js ''0s'') = Some 0"
    using go_total_hms [of 0 0 0] by (simp add: hms_text_def js_def js_of_nat.simps)
  have "List.last (hms_text h m s) = 115" by (simp add: hms_text_def)
  then have "hms_text h m s \<noteq> js ''0''" by (auto simp: js_def)
  moreover have "trim (js ''0s'') = js ''0s''" by (simp add: js_def trim_def trim_start_def is_ws_def)
  ultimately show ?thesis using go_total_hms [OF assms] ne zero
    by (cases "hms_text h m s = js ''0s''") (simp_all add: parseGoDuration_def t Let_def del: of_nat_add of_nat_mult)
qed

text \<open>A duration is shown exactly up to twenty-five hours: the text of a whole number of seconds, read as a duration,
  is that number. From there on only whole days are shown, rounded down.\<close>

theorem duration_text_exact:
  assumes "0 \<le> n"
  shows "(n < 90000 \<longrightarrow> parseGoDuration (stringifyDuration (durationFromSeconds n)) = Some n) \<and>
    (90000 \<le> n \<longrightarrow> stringifyDuration (durationFromSeconds n) =
       js_of_int (n div 86400) @ (if n div 86400 = 1 then js '' day'' else js '' days''))"
proof (cases "n < 90000")
  case True
  let ?d = "durationFromSeconds n"
  note p = duration_parts [of n] and h = hour_small [OF assms True]
  have "stringifyDuration ?d = hms_text (nat (du_hour ?d)) (nat (du_minute ?d)) (nat (du_second ?d))"
    using p h by (simp add: stringifyDuration_def hms_text_def js_of_int_def js_def)
  moreover have "nat (du_hour ?d) * 3600 + nat (du_minute ?d) * 60 + nat (du_second ?d) = nat n"
    using p h by linarith
  ultimately show ?thesis
    using parse_hms [of "nat (du_hour ?d)" "nat (du_minute ?d)" "nat (du_second ?d)"] True assms by simp
next
  case False
  then have h: "24 < du_hour (durationFromSeconds n)" using duration_parts [of n] by linarith
  have "du_hour (durationFromSeconds n) div 24 = n div 86400"
    by (simp add: durationFromSeconds_def Let_def zdiv_zmult2_eq [of 24 n 3600, simplified])
  with False h show ?thesis by (simp add: stringifyDuration_def Let_def)
qed

lemma duration_text_exact_witness:
  "parseGoDuration (stringifyDuration (durationFromSeconds 7384)) = Some 7384"
  using duration_text_exact [of 7384] by simp

text \<open>
  A moment a few seconds ahead of the browser's clock is shown as a negative hour: only \<open>timeAgo\<close> does not
  stop at zero.
\<close>

lemma time_ago_of_future:
  "timeAgoUnix 1000000 (Finite 1005) = js ''-1h59m55s ago'' \<and>
   durationSince (\<lambda>_. Some 1005000) 1000000 (js ''x'') = js ''0s''"
proof -
  have d: "durationBetween 1000000 1005000 = \<lparr>du_hour = - 1, du_minute = 59, du_second = 55, du_totalSeconds = - 5\<rparr>"
    by (simp add: durationBetween_def durationFromSeconds_def)
  have "stringifyDuration \<lparr>du_hour = - 1, du_minute = 59, du_second = 55, du_totalSeconds = - 5\<rparr> = js ''-1h59m55s''"
    by (simp add: stringifyDuration_def js_of_int_def js_of_nat.simps js_def)
  then show ?thesis
    by (simp add: timeAgoUnix_def durationSince_def parseTimestamp_def zero_timestamp_def d) (simp add: js_def)
qed

end
