(* ===== verification/Palette.thy ===== *)
theory Palette
  imports UrlState BulkJob
begin

text \<open>
  \<open>src/ui/src/lib/palette.ts\<close>, the detector of pasted task ids and the verbs each state allows, and
  \<open>src/ui/src/lib/filter.ts\<close>, the substring filter of the tables. \<open>toLowerCase\<close> of any text is the parameter
  \<open>low\<close>; of a task id, which is ASCII, it is computed.
\<close>

subsection \<open>Task ids\<close>

definition is_hex :: "nat \<Rightarrow> bool" where
  "is_hex c \<longleftrightarrow> 48 \<le> c \<and> c \<le> 57 \<or> 97 \<le> c \<and> c \<le> 102 \<or> 65 \<le> c \<and> c \<le> 70"

definition ascii_lower :: "jstring \<Rightarrow> jstring" where
  "ascii_lower s = map (\<lambda>c. if 65 \<le> c \<and> c \<le> 90 then c + 32 else c) s"

text \<open>\<open>UUID_RE.test\<close>: groups of 8, 4, 4, 4 and 12 hexadecimal digits with dashes between.\<close>

fun hex_groups :: "nat list \<Rightarrow> jstring \<Rightarrow> bool" where
  "hex_groups [] s = False"
| "hex_groups [n] s = (length s = n \<and> list_all is_hex s)"
| "hex_groups (n # m # ns) s =
     (list_all is_hex (take n s) \<and> n < length s \<and> s ! n = 45 \<and> hex_groups (m # ns) (drop (Suc n) s))"

definition is_uuid :: "jstring \<Rightarrow> bool" where
  "is_uuid s \<longleftrightarrow> hex_groups [8, 4, 4, 4, 12] s"

record task_ref =
  tr_id :: jstring
  tr_queue :: "jstring option"

definition parseTaskIdInput :: "jstring \<Rightarrow> task_ref option" where
  "parseTaskIdInput raw =
     (let s = trim raw
      in if s = [] then None
         else if is_uuid s then Some \<lparr>tr_id = ascii_lower s, tr_queue = None\<rparr>
         else case last_index_of 47 s of
           None \<Rightarrow> None
         | Some i \<Rightarrow>
             if i > 0 \<and> i < length s - 1
             then let queue = take i s; id' = drop (Suc i) s
                  in if is_uuid id' \<and> \<not> list_ex is_ws queue
                     then Some \<lparr>tr_id = ascii_lower id', tr_queue = Some queue\<rparr> else None
             else None)"

definition STATE_BULK_VERBS :: "console_task_state \<Rightarrow> job_verb list" where
  "STATE_BULK_VERBS st = (case st of
     Active \<Rightarrow> [VCancel]
   | Pending \<Rightarrow> [VArchive, VDelete]
   | Aggregating \<Rightarrow> [VRun, VArchive, VDelete]
   | Scheduled \<Rightarrow> [VRun, VArchive, VDelete]
   | Retry \<Rightarrow> [VRun, VArchive, VDelete]
   | Archived \<Rightarrow> [VRun, VDelete]
   | Completed \<Rightarrow> [VDelete])"

definition TASK_LOOKUP_STATES :: "console_task_state list" where
  "TASK_LOOKUP_STATES = [Active, Pending, Retry, Scheduled, Archived, Completed, Aggregating]"

subsection \<open>The filter of the tables\<close>

definition matchesQuery :: "(jstring \<Rightarrow> jstring) \<Rightarrow> jstring \<Rightarrow> jstring \<Rightarrow> bool" where
  "matchesQuery low haystack query \<longleftrightarrow>
     (let needle = low (trim query) in needle = [] \<or> js_includes needle (low haystack))"

subsection \<open>What a paste is taken for\<close>

lemma lookup_covers_states: "st \<in> set TASK_LOOKUP_STATES \<and> distinct TASK_LOOKUP_STATES"
  by (cases st) (simp_all add: TASK_LOOKUP_STATES_def)

lemma hex_groups_split:
  "hex_groups (n # m # ns) s \<longleftrightarrow>
   (\<exists>a t. s = a @ 45 # t \<and> length a = n \<and> list_all is_hex a \<and> hex_groups (m # ns) t)"
proof
  assume h: "hex_groups (n # m # ns) s"
  then have "s = take n s @ s ! n # drop (Suc n) s" by (intro id_take_nth_drop) simp
  with h show "\<exists>a t. s = a @ 45 # t \<and> length a = n \<and> list_all is_hex a \<and> hex_groups (m # ns) t"
    by (intro exI [of _ "take n s"] exI [of _ "drop (Suc n) s"]) simp
qed (auto simp: nth_append)

lemma hex_groups_induct [consumes 1, case_names last group]:
  assumes "hex_groups ns s"
    and "\<And>n s. length s = n \<Longrightarrow> list_all is_hex s \<Longrightarrow> P [n] s"
    and "\<And>n m ns a t. length a = n \<Longrightarrow> list_all is_hex a \<Longrightarrow> P (m # ns) t \<Longrightarrow> P (n # m # ns) (a @ 45 # t)"
  shows "P ns s"
  using assms(1)
proof (induction ns arbitrary: s)
  case (Cons n ms)
  show ?case
  proof (cases ms)
    case Nil
    with Cons.prems have "length s = n" "list_all is_hex s" by simp_all
    then show ?thesis unfolding Nil by (rule assms(2))
  next
    case (Cons m ns)
    with Cons.prems obtain a t where "s = a @ 45 # t" "length a = n" "list_all is_hex a" "hex_groups (m # ns) t"
      using hex_groups_split by blast
    with Cons Cons.IH [of t] show ?thesis using assms(3) by simp
  qed
qed simp

lemma hex_groups_chars: "hex_groups ns s \<Longrightarrow> \<forall>c \<in> set s. is_hex c \<or> c = 45"
  by (induction rule: hex_groups_induct) (auto simp: list_all_iff)

lemma uuid_length: "hex_groups ns s \<Longrightarrow> Suc (length s) = sum_list ns + length ns"
  by (induction rule: hex_groups_induct) auto

lemma uuid_facts:
  assumes "is_uuid s"
  shows "length s = 36" "47 \<notin> set s" "\<forall>c \<in> set s. \<not> is_ws c" "s \<noteq> []"
proof -
  have g: "hex_groups [8, 4, 4, 4, 12] s" using assms by (simp add: is_uuid_def)
  show l: "length s = 36" using uuid_length [OF g] by simp
  show "47 \<notin> set s" "\<forall>c \<in> set s. \<not> is_ws c"
    using hex_groups_chars [OF g] by (auto simp: is_hex_def is_ws_def)
  show "s \<noteq> []" using l by auto
qed

lemma is_hex_lower: "is_hex c \<Longrightarrow> is_hex (if 65 \<le> c \<and> c \<le> 90 then c + 32 else c)"
  by (auto simp: is_hex_def)

lemma list_all_lower: "list_all is_hex s \<Longrightarrow> list_all is_hex (ascii_lower s)"
  unfolding ascii_lower_def by (induction s) (simp_all add: is_hex_lower del: if_split)

lemma lower_append: "ascii_lower (a @ 45 # t) = ascii_lower a @ 45 # ascii_lower t" "length (ascii_lower a) = length a"
  by (simp_all add: ascii_lower_def)

lemma hex_groups_lower: "hex_groups ns s \<Longrightarrow> hex_groups ns (ascii_lower s)"
proof (induction rule: hex_groups_induct)
  case (last n s)
  then show ?case by (simp add: list_all_lower lower_append)
next
  case (group n m ns a t)
  have "hex_groups (n # m # ns) (ascii_lower a @ 45 # ascii_lower t)"
    unfolding hex_groups_split using group list_all_lower lower_append(2) by blast
  then show ?case by (simp only: lower_append(1))
qed

text \<open>The palette recognises a task by what the drawer writes: the peek value of a task with an id of the server's
  form, pasted with blanks around it and in any case, gives that id in lower case and the task's queue,
  and a bare id gives the id alone. Pasting the answer again changes nothing.\<close>

theorem pasted_task_is_found:
  assumes "is_uuid i" and "q = [] \<or> \<not> list_ex is_ws q" and "list_all is_ws a" "list_all is_ws b"
  shows "parseTaskIdInput (a @ (if q = [] then i else serializePeek \<lparr>pt_queue = q, pt_id = i\<rparr>) @ b) =
      Some \<lparr>tr_id = ascii_lower i, tr_queue = (if q = [] then None else Some q)\<rparr> \<and>
    is_uuid (ascii_lower i) \<and> ascii_lower (ascii_lower i) = ascii_lower i"
proof -
  note u = uuid_facts [OF assms(1)]
  let ?s = "if q = [] then i else q @ 47 # i"
  have plain: "\<forall>c \<in> set ?s. \<not> is_ws c"
    using u(3) assms(2) by (auto simp: list_ex_iff is_ws_def)
  have ne: "?s \<noteq> []" using u(4) by simp
  have trim: "trim (a @ ?s @ b) = ?s"
  proof -
    have drop: "dropWhile is_ws (c @ r) = r" if "list_all is_ws c" "r \<noteq> []" "\<not> is_ws (hd r)" for c r
      using that by (induction c) (simp_all add: dropWhile_hd)
    have "hd ?s \<in> set ?s" "hd (rev ?s) \<in> set ?s" using ne by (simp_all only: hd_in_set hd_rev last_in_set not_False_eq_True)
    then have "\<not> is_ws (hd ?s)" "\<not> is_ws (hd (rev ?s))" using plain by blast+
    moreover have "hd (?s @ b) = hd ?s" using ne by (rule hd_append2)
    ultimately have "trim_start (a @ (?s @ b)) = ?s @ b" "trim_start (rev b @ rev ?s) = rev ?s"
      unfolding trim_start_def using drop [of a "?s @ b"] drop [of "rev b" "rev ?s"] assms(3,4) ne
      by (simp_all del: rev_append rev.simps add: list_all_rev)
    then show ?thesis unfolding trim_def by (simp only: rev_append rev_rev_ident)
  qed
  have lower: "is_uuid (ascii_lower i)" using assms(1) hex_groups_lower unfolding is_uuid_def by blast
  have again: "ascii_lower (ascii_lower i) = ascii_lower i" by (auto simp: ascii_lower_def)
  show ?thesis
  proof (cases "q = []")
    case True
    then show ?thesis using trim u assms(1) lower again by (simp add: parseTaskIdInput_def)
  next
    case False
    have "\<not> is_uuid (q @ 47 # i)" using uuid_facts(2) [of "q @ 47 # i"] by auto
    moreover have "last_index_of 47 (q @ 47 # i) = Some (length q)" using last_index_of_last [OF u(2)] .
    moreover have "\<not> list_ex is_ws q" using assms(2) False by blast
    ultimately show ?thesis
      using trim u assms(1) lower again False by (simp add: parseTaskIdInput_def serializePeek_def js_def Let_def)
  qed
qed

definition sample_uuid :: jstring where
  "sample_uuid = js ''8F3A0000-1234-4abc-9def-0123456789ab''"

lemma pasted_task_is_found_witness:
  "parseTaskIdInput ([32] @ serializePeek \<lparr>pt_queue = js ''mail/eu'', pt_id = sample_uuid\<rparr> @ [10]) =
   Some \<lparr>tr_id = ascii_lower sample_uuid, tr_queue = Some (js ''mail/eu'')\<rparr>"
proof -
  have "is_uuid sample_uuid"
    by (simp add: is_uuid_def sample_uuid_def js_def list_all_iff is_hex_def numeral_eq_Suc)
  then show ?thesis
    using pasted_task_is_found [of sample_uuid "js ''mail/eu''" "[32]" "[10]"] by (simp add: js_def is_ws_def)
qed

end
