(* ===== verification/Frozen.thy ===== *)
theory Frozen
  imports Prelude
begin

text \<open>
  \<open>src/ui/src/lib/frozen.ts\<close> and \<open>src/ui/src/hooks/useFrozenData.ts\<close>: while the operator hovers a table,
  holds a selection or has a drawer open, the rows shown stop following the rows fetched. The equality of
  two answers is the parameter \<open>equals\<close>, as it is a parameter of the code (its default compares
  \<open>JSON.stringify\<close>).
\<close>

record 'a frozen_state =
  fz_data :: 'a
  fz_live :: 'a
  fz_pending :: nat
  fz_frozen :: bool

datatype 'a frozen_action = FzLive 'a | FzSet bool | FzApply

definition frozenInit :: "'a \<Rightarrow> 'a frozen_state" where
  "frozenInit d = \<lparr>fz_data = d, fz_live = d, fz_pending = 0, fz_frozen = False\<rparr>"

fun frozenReduce :: "('a \<Rightarrow> 'a \<Rightarrow> bool) \<Rightarrow> 'a frozen_state \<Rightarrow> 'a frozen_action \<Rightarrow> 'a frozen_state" where
  "frozenReduce equals s (FzLive d) =
     (if \<not> fz_frozen s then \<lparr>fz_data = d, fz_live = d, fz_pending = 0, fz_frozen = False\<rparr>
      else let changed = \<not> equals d (fz_live s)
        in s\<lparr>fz_live := d, fz_pending := (if changed then fz_pending s + 1 else fz_pending s)\<rparr>)"
| "frozenReduce equals s (FzSet f) =
     (if f = fz_frozen s then s
      else if f then s\<lparr>fz_frozen := True\<rparr>
      else \<lparr>fz_data = fz_live s, fz_live = fz_live s, fz_pending = 0, fz_frozen = False\<rparr>)"
| "frozenReduce equals s FzApply = s\<lparr>fz_data := fz_live s, fz_pending := 0\<rparr>"

subsection \<open>The hook\<close>

text \<open>What the refs hold between renders, besides the state.\<close>

record ('a, 'k) frozen_hook =
  fh_state :: "'a frozen_state"
  fh_flushNext :: bool
  fh_resetKey :: 'k
  fh_frozenDep :: bool

text \<open>
  One render with the three inputs and its effects in order: the reset effect, the freeze effect when
  \<open>frozen\<close> changed, the live effect when the identity of \<open>live\<close> changed.
\<close>

definition reset_effect :: "'a \<Rightarrow> bool \<Rightarrow> 'k \<Rightarrow> ('a, 'k) frozen_hook \<Rightarrow> ('a, 'k) frozen_hook" where
  "reset_effect live frozen key h =
     (if fh_resetKey h = key then h
      else h\<lparr>fh_resetKey := key, fh_flushNext := True, fh_state := (frozenInit live)\<lparr>fz_frozen := frozen\<rparr>\<rparr>)"

definition freeze_effect :: "('a \<Rightarrow> 'a \<Rightarrow> bool) \<Rightarrow> bool \<Rightarrow> ('a, 'k) frozen_hook \<Rightarrow> ('a, 'k) frozen_hook" where
  "freeze_effect equals frozen h =
     (if fh_frozenDep h = frozen then h
      else h\<lparr>fh_frozenDep := frozen, fh_state := frozenReduce equals (fh_state h) (FzSet frozen)\<rparr>)"

definition live_effect :: "('a \<Rightarrow> 'a \<Rightarrow> bool) \<Rightarrow> 'a \<Rightarrow> bool \<Rightarrow> ('a, 'k) frozen_hook \<Rightarrow> ('a, 'k) frozen_hook" where
  "live_effect equals live newLive h =
     (if \<not> newLive then h
      else let s = fh_state h;
               changed = \<not> equals live (fz_live s);
               next' = frozenReduce equals s (FzLive live)
           in if changed \<and> fh_flushNext h
              then h\<lparr>fh_flushNext := False, fh_state := frozenReduce equals next' FzApply\<rparr>
              else h\<lparr>fh_state := next'\<rparr>)"

definition frozen_render ::
  "('a \<Rightarrow> 'a \<Rightarrow> bool) \<Rightarrow> 'a \<Rightarrow> bool \<Rightarrow> bool \<Rightarrow> 'k \<Rightarrow> ('a, 'k) frozen_hook \<Rightarrow> ('a, 'k) frozen_hook" where
  "frozen_render equals live newLive frozen key h =
     live_effect equals live newLive (freeze_effect equals frozen (reset_effect live frozen key h))"

definition hook_apply :: "('a \<Rightarrow> 'a \<Rightarrow> bool) \<Rightarrow> ('a, 'k) frozen_hook \<Rightarrow> ('a, 'k) frozen_hook" where
  "hook_apply equals h = h\<lparr>fh_state := frozenReduce equals (fh_state h) FzApply\<rparr>"

definition applyNextChange :: "('a, 'k) frozen_hook \<Rightarrow> ('a, 'k) frozen_hook" where
  "applyNextChange h = h\<lparr>fh_flushNext := True\<rparr>"

subsection \<open>What the table shows and the pill counts\<close>

text \<open>
  The specification: whether the view is frozen, the answer it shows, and the answers that arrived since. An
  unfrozen view shows each answer at once; thawing and applying show the last one.
\<close>

type_synonym 'a suspension = "bool \<times> 'a \<times> 'a list"

fun suspended :: "'a suspension \<Rightarrow> 'a frozen_action \<Rightarrow> 'a suspension" where
  "suspended (frozen, x, ys) (FzLive d) = (if frozen then (True, x, ys @ [d]) else (False, d, []))"
| "suspended (frozen, x, ys) (FzSet f) = (if f then (True, x, ys) else (False, last (x # ys), []))"
| "suspended (frozen, x, ys) FzApply = (frozen, last (x # ys), [])"

fun changes :: "('a \<Rightarrow> 'a \<Rightarrow> bool) \<Rightarrow> 'a \<Rightarrow> 'a list \<Rightarrow> nat" where
  "changes equals x [] = 0"
| "changes equals x (y # ys) = (if equals y x then 0 else 1) + changes equals y ys"

text \<open>The state of the program that stands for a state of the specification.\<close>

fun frozen_of :: "('a \<Rightarrow> 'a \<Rightarrow> bool) \<Rightarrow> 'a suspension \<Rightarrow> 'a frozen_state" where
  "frozen_of equals (frozen, x, ys) =
     \<lparr>fz_data = x, fz_live = last (x # ys), fz_pending = changes equals x ys, fz_frozen = frozen\<rparr>"

text \<open>The answers of a sequence of actions, and whether it ends frozen.\<close>

primrec answer_of :: "'a frozen_action \<Rightarrow> 'a list" where
  "answer_of (FzLive d) = [d]"
| "answer_of (FzSet f) = []"
| "answer_of FzApply = []"

definition answers :: "'a frozen_action list \<Rightarrow> 'a list" where
  "answers acts = concat (map answer_of acts)"

lemma changes_append: "changes equals x (ys @ [d]) = changes equals x ys + (if equals d (last (x # ys)) then 0 else 1)"
  by (induction ys arbitrary: x) auto

lemma frozen_step: "\<not> fst a \<Longrightarrow> snd (snd a) = [] \<Longrightarrow> frozenReduce equals (frozen_of equals a) act = frozen_of equals (suspended a act)"
  "fst a \<Longrightarrow> frozenReduce equals (frozen_of equals a) act = frozen_of equals (suspended a act)"
  by (cases a; cases act; simp add: changes_append Let_def)+

lemma suspended_empty: "(\<not> fst a \<longrightarrow> snd (snd a) = []) \<Longrightarrow> \<not> fst (suspended a act) \<Longrightarrow> snd (snd (suspended a act)) = []"
  by (cases a; cases act) (auto split: if_splits)

lemma suspended_run: "\<not> fst (foldl suspended (False, d, []) acts) \<Longrightarrow> snd (snd (foldl suspended (False, d, []) acts)) = []"
  by (induction acts rule: rev_induct) (auto dest!: suspended_empty [rotated])

lemma suspended_last: "last (fst (snd (suspended a act)) # snd (snd (suspended a act))) =
    last ((fst (snd a) # snd (snd a)) @ answer_of act) \<or> \<not> fst a \<and> snd (snd a) \<noteq> []"
  by (cases a; cases act) auto

text \<open>C14. The frozen view refines its specification: after any sequence of answers, freezes and clicks the
  state is that of a view that shows every answer at once while it is not frozen, keeps the one it shows
  while it is, and shows the last one when it thaws or is told to apply it; the pill counts the answers since
  that differ from the one before. The buffer always holds the last answer of all, and an unfrozen view
  shows it with nothing pending.\<close>

theorem frozen_view_counts_changes:
  "foldl (frozenReduce equals) (frozenInit d) acts = frozen_of equals (foldl suspended (False, d, []) acts) \<and>
   fz_live (foldl (frozenReduce equals) (frozenInit d) acts) = last (d # answers acts) \<and>
   (\<not> fz_frozen (foldl (frozenReduce equals) (frozenInit d) acts) \<longrightarrow>
      fz_data (foldl (frozenReduce equals) (frozenInit d) acts) = last (d # answers acts) \<and>
      fz_pending (foldl (frozenReduce equals) (frozenInit d) acts) = 0)"
proof -
  have run: "foldl (frozenReduce equals) (frozenInit d) acts = frozen_of equals (foldl suspended (False, d, []) acts)"
    for acts
  proof (induction acts rule: rev_induct)
    case (snoc act acts)
    let ?a = "foldl suspended (False, d, []) acts"
    have "frozenReduce equals (frozen_of equals ?a) act = frozen_of equals (suspended ?a act)"
      by (cases "fst ?a") (simp_all add: frozen_step suspended_run)
    with snoc show ?case by simp
  qed (simp add: frozenInit_def)
  have live: "last (fst (snd (foldl suspended (False, d, []) acts)) # snd (snd (foldl suspended (False, d, []) acts))) =
      last (d # answers acts)"
  proof (induction acts rule: rev_induct)
    case (snoc act acts)
    let ?a = "foldl suspended (False, d, []) acts"
    have "last (fst (snd (suspended ?a act)) # snd (snd (suspended ?a act))) = last ((fst (snd ?a) # snd (snd ?a)) @ answer_of act)"
      using suspended_last [of ?a act] suspended_run [of d acts] by auto
    also have "\<dots> = last ((d # answers acts) @ answer_of act)" using snoc by (auto simp: last_append split: if_splits)
    finally show ?case by (simp add: answers_def)
  qed (simp add: answers_def)
  obtain f x ys where a: "foldl suspended (False, d, []) acts = (f, x, ys)" by (cases "foldl suspended (False, d, []) acts") auto
  show ?thesis using live suspended_run [of d acts] unfolding run a by (auto split: if_splits)
qed

lemma frozen_view_counts_changes_witness:
  "fz_pending (foldl (frozenReduce (=)) (frozenInit (0::nat)) [FzSet True, FzLive 1, FzLive 1, FzLive 2]) = 2 \<and>
   fz_data (foldl (frozenReduce (=)) (frozenInit (0::nat)) [FzSet True, FzLive 1, FzLive 2, FzSet False]) = 2"
proof -
  have "foldl suspended (False, 0, []) [FzSet True, FzLive (1::nat), FzLive 1, FzLive 2] = (True, 0, [1, 1, 2])" by simp
  with frozen_view_counts_changes [of "(=)" "0::nat" "[FzSet True, FzLive 1, FzLive 1, FzLive 2]"]
  have "fz_pending (foldl (frozenReduce (=)) (frozenInit (0::nat)) [FzSet True, FzLive 1, FzLive 1, FzLive 2]) =
      changes (=) (0::nat) [1, 1, 2]"
    by (simp only: frozen_of.simps frozen_state.simps)
  moreover have "\<not> fz_frozen (foldl (frozenReduce (=)) (frozenInit (0::nat)) [FzSet True, FzLive 1, FzLive 2, FzSet False])"
    by (simp add: frozenInit_def Let_def)
  with frozen_view_counts_changes [of "(=)" "0::nat" "[FzSet True, FzLive 1, FzLive 2, FzSet False]"]
  have "fz_data (foldl (frozenReduce (=)) (frozenInit (0::nat)) [FzSet True, FzLive 1, FzLive 2, FzSet False]) = 2"
    by (simp add: answers_def)
  ultimately show ?thesis by simp
qed

text \<open>A deliberate change of view is never paused: after a new reset key the next answer that differs is
  shown, frozen or not.\<close>

lemma reset_shows_next:
  assumes "fh_resetKey h \<noteq> key" and "\<not> equals d' live"
  shows "fz_data (fh_state (frozen_render equals d' True frozen key (frozen_render equals live False frozen key h))) = d'"
  using assms by (auto simp: frozen_render_def reset_effect_def freeze_effect_def live_effect_def frozenInit_def Let_def)

lemma mutation_shows_next:
  assumes "\<not> equals d' (fz_live (fh_state h))" "fh_resetKey h = key" "fh_frozenDep h = frozen"
  shows "fz_data (fh_state (frozen_render equals d' True frozen key (applyNextChange h))) = d'"
  using assms by (auto simp: frozen_render_def reset_effect_def freeze_effect_def live_effect_def applyNextChange_def Let_def)

end
