(* ===== verification/ConsoleRows.thy ===== *)
theory ConsoleRows
  imports Requests Palette Selection Frozen TimeChips ApiConsole Metadata
begin

text \<open>
  The rows of the task console (\<open>src/ui/src/views/TasksGlobalView.tsx\<close>): the actions each state offers, the
  rows merged from a continued scan, the keyboard and selection over them, the completions of the query
  bar, and how a click composes a clause into the query. \<open>toLowerCase\<close> is the parameter \<open>low\<close>.
\<close>

subsection \<open>The actions of a state\<close>

datatype row_verb = RRun | RArchive | RDelete | RCancel

type_synonym row_action = "api_env \<Rightarrow> jstring \<Rightarrow> jstring \<Rightarrow> http_request option"
type_synonym batch_action = "api_env \<Rightarrow> jstring \<Rightarrow> jstring list \<Rightarrow> http_request option"

definition actionFns :: "console_task_state \<Rightarrow> (row_verb \<times> row_action) list" where
  "actionFns st = (case st of
     Active \<Rightarrow> [(RCancel, cancelActiveTask)]
   | Pending \<Rightarrow> [(RDelete, deletePendingTask), (RArchive, archivePendingTask)]
   | Aggregating \<Rightarrow> []
   | Scheduled \<Rightarrow> [(RRun, runScheduledTask), (RArchive, archiveScheduledTask), (RDelete, deleteScheduledTask)]
   | Retry \<Rightarrow> [(RRun, runRetryTask), (RArchive, archiveRetryTask), (RDelete, deleteRetryTask)]
   | Archived \<Rightarrow> [(RRun, runArchivedTask), (RDelete, deleteArchivedTask)]
   | Completed \<Rightarrow> [(RDelete, deleteCompletedTask)])"

definition batchActionFns :: "console_task_state \<Rightarrow> (row_verb \<times> batch_action) list" where
  "batchActionFns st = (case st of
     Active \<Rightarrow> [(RCancel, batchCancelActiveTasks)]
   | Pending \<Rightarrow> [(RDelete, batchDeletePendingTasks), (RArchive, batchArchivePendingTasks)]
   | Aggregating \<Rightarrow> []
   | Scheduled \<Rightarrow>
       [(RRun, batchRunScheduledTasks), (RArchive, batchArchiveScheduledTasks), (RDelete, batchDeleteScheduledTasks)]
   | Retry \<Rightarrow> [(RRun, batchRunRetryTasks), (RArchive, batchArchiveRetryTasks), (RDelete, batchDeleteRetryTasks)]
   | Archived \<Rightarrow> [(RRun, batchRunArchivedTasks), (RDelete, batchDeleteArchivedTasks)]
   | Completed \<Rightarrow> [(RDelete, batchDeleteCompletedTasks)])"

primrec job_verb_of :: "row_verb \<Rightarrow> job_verb" where
  "job_verb_of RRun = VRun"
| "job_verb_of RArchive = VArchive"
| "job_verb_of RDelete = VDelete"
| "job_verb_of RCancel = VCancel"

definition scanJobVerb :: "console_task_state \<Rightarrow> job_verb" where
  "scanJobVerb st = (case st of
     Active \<Rightarrow> VCount | Pending \<Rightarrow> VCount | Aggregating \<Rightarrow> VCount | Scheduled \<Rightarrow> VCount | Retry \<Rightarrow> VCount
   | Archived \<Rightarrow> VCount | Completed \<Rightarrow> VCount)"

text \<open>The buttons of the whole-scope bar, with their labels.\<close>

primrec job_verb_name :: "job_verb \<Rightarrow> jstring" where
  "job_verb_name VRun = js ''run''"
| "job_verb_name VArchive = js ''archive''"
| "job_verb_name VDelete = js ''delete''"
| "job_verb_name VCancel = js ''cancel''"
| "job_verb_name VCount = js ''count''"

definition bulkActions :: "console_task_state \<Rightarrow> (job_verb \<times> jstring) list" where
  "bulkActions st =
     map (\<lambda>v. (v, case job_verb_name v of c # cs \<Rightarrow> (c - 32) # cs | [] \<Rightarrow> [])) (STATE_BULK_VERBS st)"

text \<open>\<open>isAqlRejection\<close> of \<open>src/ui/src/lib/aql.ts\<close>, on the parsed body of an error.\<close>

definition member :: "string \<Rightarrow> jvalue \<Rightarrow> jvalue option" where
  "member k v = (case v of VObject ms \<Rightarrow> map_of ms (js k) | _ \<Rightarrow> None)"

definition isAqlRejection :: "jvalue \<Rightarrow> bool" where
  "isAqlRejection data \<longleftrightarrow>
     (case member ''error'' data of Some (VString _) \<Rightarrow> True | _ \<Rightarrow> False) \<and>
     (case member ''position'' data of Some (VNumber _) \<Rightarrow> True | _ \<Rightarrow> False)"

subsection \<open>Query bar\<close>

text \<open>
  \<open>/(?:^|\s)queue=(\S*)$/\<close>: the last run without white space starts with \<open>queue=\<close>. The text before that run,
  the separator included, and what follows the sign.
\<close>

definition queue_tail :: "jstring \<Rightarrow> (jstring \<times> jstring) option" where
  "queue_tail s =
     (let t = rev (takeWhile (\<lambda>c. \<not> is_ws c) (rev s)); before = rev (dropWhile (\<lambda>c. \<not> is_ws c) (rev s))
      in if starts_with (js ''queue='') t then Some (before, drop 6 t) else None)"

definition queuePrefix :: "jstring \<Rightarrow> jstring option" where
  "queuePrefix searchInput = map_option snd (queue_tail searchInput)"

definition queueSuggestions :: "(jstring \<Rightarrow> jstring) \<Rightarrow> jstring list \<Rightarrow> jstring option \<Rightarrow> jstring list" where
  "queueSuggestions low queues prefix = (case prefix of
     None \<Rightarrow> []
   | Some p \<Rightarrow> take 8 (filter (\<lambda>q. starts_with (low p) (low q) \<and> q \<noteq> p) queues))"

text \<open>The match includes one separator; it is written back as a blank if it is one and dropped otherwise.\<close>

definition applyQueueSuggestion :: "jstring \<Rightarrow> jstring \<Rightarrow> jstring" where
  "applyQueueSuggestion searchInput name = (case queue_tail searchInput of
     None \<Rightarrow> searchInput
   | Some (before, _) \<Rightarrow>
       if before = [] then js ''queue='' @ name
       else if last before = 32 then butlast before @ js '' queue='' @ name
       else butlast before @ js ''queue='' @ name)"

subsection \<open>Clauses composed by a click\<close>

definition state_name :: "console_task_state \<Rightarrow> jstring" where
  "state_name st = (case st of
     Active \<Rightarrow> js ''active'' | Pending \<Rightarrow> js ''pending'' | Aggregating \<Rightarrow> js ''aggregating''
   | Scheduled \<Rightarrow> js ''scheduled'' | Retry \<Rightarrow> js ''retry'' | Archived \<Rightarrow> js ''archived'' | Completed \<Rightarrow> js ''completed'')"

definition setStateClause :: "console_state \<Rightarrow> console_task_state \<Rightarrow> console_state" where
  "setStateClause view st = view\<lparr>cs_q := setClause (cs_q view) (js ''state'') (js ''='') (state_name st), cs_page := 0\<rparr>"

definition addFilter :: "console_state \<Rightarrow> meta_pair \<Rightarrow> console_state" where
  "addFilter view p = view\<lparr>cs_q := addMetaClause (cs_q view) (mp_key p) (mp_value p), cs_page := 0\<rparr>"

definition removeFilter :: "console_state \<Rightarrow> meta_pair \<Rightarrow> console_state" where
  "removeFilter view p = view\<lparr>cs_q := removeMetaClause (cs_q view) (mp_key p) (mp_value p), cs_page := 0\<rparr>"

text \<open>\<open>None\<close> when \<open>toISOString\<close> throws.\<close>

definition toggleTimeChip :: "console_state \<Rightarrow> time_chip \<Rightarrow> bool \<Rightarrow> int \<Rightarrow> console_state option" where
  "toggleTimeChip view ch active nowMs =
     map_option (\<lambda>q. view\<lparr>cs_q := q, cs_page := 0\<rparr>)
       (if active then Some (removeClause (cs_q view) (tc_field ch) None) else applyTimeChip (cs_q view) ch nowMs)"

record pivot_request =
  pv_q :: "jstring option"
  pv_queue :: "jstring option"
  pv_meta :: "meta_pair option"

definition handlePivot :: "console_state \<Rightarrow> pivot_request \<Rightarrow> console_state" where
  "handlePivot view p =
     (let q = cs_q view;
          q = (case pv_q p of Some v \<Rightarrow> setClause q (js ''type'') (js ''='') v | None \<Rightarrow> q);
          q = (case pv_queue p of Some v \<Rightarrow> if v \<noteq> [] then setClause q (js ''queue'') (js ''='') v else q | None \<Rightarrow> q);
          q = (case pv_meta p of Some m \<Rightarrow> addMetaClause q (mp_key m) (mp_value m) | None \<Rightarrow> q)
      in view\<lparr>cs_q := q, cs_page := 0\<rparr>)"

text \<open>The chips offered: the facets of the whole filtered set that are not clauses yet.\<close>

definition facet_pair :: "jstring \<times> jstring \<times> int \<Rightarrow> meta_pair" where
  "facet_pair f = \<lparr>mp_key = fst f, mp_value = fst (snd f)\<rparr>"

definition offered_chips :: "(jstring \<times> jstring \<times> int) list \<Rightarrow> meta_pair list \<Rightarrow> (jstring \<times> jstring \<times> int) list" where
  "offered_chips facets active = filter (\<lambda>f. metaId (facet_pair f) \<notin> set (map metaId active)) facets"

definition countLabel :: "(jstring \<times> int) list option \<Rightarrow> console_task_state \<Rightarrow> jstring" where
  "countLabel stateCounts st = (case stateCounts of
     None \<Rightarrow> []
   | Some cs \<Rightarrow> (case map_of cs (state_name st) of None \<Rightarrow> [] | Some n \<Rightarrow> if n < 0 then DASH else locale_int n))"

subsection \<open>Rows\<close>

definition seen_key :: "task_info \<Rightarrow> jstring" where
  "seen_key t = t_queue t @ js '':'' @ t_id t"

definition visibleTasks :: "bool \<Rightarrow> task_info list \<Rightarrow> task_info list \<Rightarrow> task_info list \<Rightarrow> task_info list" where
  "visibleTasks jobResultsMode jobTasks tasks extraTasks =
     (if jobResultsMode then jobTasks
      else if extraTasks = [] then tasks
      else tasks @ filter (\<lambda>t. seen_key t \<notin> set (map seen_key tasks)) extraTasks)"

definition rendered_fields :: "task_info \<Rightarrow> jstring \<times> jstring \<times> jstring \<times> jstring \<times> jstring" where
  "rendered_fields x = (t_id x, t_queue x, t_type x, t_payload x, t_state x)"

definition renderedRowsEqual :: "task_info list \<Rightarrow> task_info list \<Rightarrow> bool" where
  "renderedRowsEqual a b \<longleftrightarrow> length a = length b \<and> list_all2 (\<lambda>x y. rendered_fields x = rendered_fields y) a b"

definition rowKey :: "task_info \<Rightarrow> jstring" where
  "rowKey t = t_queue t @ js ''/'' @ t_id t"

subsection \<open>Selection and focus\<close>

record row_selection =
  rs_focusIdx :: int
  rs_selected :: "jstring set"
  rs_selectAnchor :: int

definition clearSelection :: "row_selection \<Rightarrow> row_selection" where
  "clearSelection s = s\<lparr>rs_selected := {}, rs_selectAnchor := - 1\<rparr>"

text \<open>\<open>rows[i]\<close>, \<open>undefined\<close> out of range.\<close>

definition row_at :: "task_info list \<Rightarrow> int \<Rightarrow> task_info option" where
  "row_at rows i = (if 0 \<le> i \<and> i < int (length rows) then Some (rows ! nat i) else None)"

definition toggleSelect :: "task_info list \<Rightarrow> int \<Rightarrow> row_selection \<Rightarrow> row_selection" where
  "toggleSelect rows idx s = (case row_at rows idx of
     None \<Rightarrow> s
   | Some t \<Rightarrow>
       s\<lparr>rs_selected := (if rowKey t \<in> rs_selected s then rs_selected s - {rowKey t} else insert (rowKey t) (rs_selected s)),
         rs_selectAnchor := idx\<rparr>)"

text \<open>The rows from \<open>a\<close> to \<open>b\<close>, both ends included, those that exist.\<close>

definition row_range :: "task_info list \<Rightarrow> int \<Rightarrow> int \<Rightarrow> task_info list" where
  "row_range rows a b = take (nat (b + 1) - nat a) (drop (nat a) rows)"

definition rangeSelect :: "task_info list \<Rightarrow> int \<Rightarrow> row_selection \<Rightarrow> row_selection" where
  "rangeSelect rows idx s =
     (if rs_selectAnchor s < 0 then toggleSelect rows idx s
      else let a = min (rs_selectAnchor s) idx; b = max (rs_selectAnchor s) idx
           in s\<lparr>rs_selected := rs_selected s \<union> set (map rowKey (row_range rows a b))\<rparr>)"

definition moveFocus :: "task_info list \<Rightarrow> int \<Rightarrow> row_selection \<Rightarrow> row_selection" where
  "moveFocus rows delta s =
     (let i = rs_focusIdx s; n = int (length rows)
      in s\<lparr>rs_focusIdx :=
             (if rows = [] then - 1
              else if i < 0 then (if delta > 0 then 0 else n - 1) else max 0 (min (n - 1) (i + delta)))\<rparr>)"

definition clampFocus :: "task_info list \<Rightarrow> row_selection \<Rightarrow> row_selection" where
  "clampFocus rows s = s\<lparr>rs_focusIdx := min (rs_focusIdx s) (int (length rows) - 1)\<rparr>"

definition selectedTasks :: "task_info list \<Rightarrow> row_selection \<Rightarrow> task_info list" where
  "selectedTasks rows s = filter (\<lambda>t. rowKey t \<in> rs_selected s) rows"

text \<open>Whether a verb opens its confirmation.\<close>

definition openSelectionVerb :: "bool \<Rightarrow> console_task_state \<Rightarrow> task_info list \<Rightarrow> row_selection \<Rightarrow> row_verb \<Rightarrow> bool" where
  "openSelectionVerb readOnly st rows s verb \<longleftrightarrow>
     \<not> readOnly \<and> selectedTasks rows s \<noteq> [] \<and> map_of (actionFns st) verb \<noteq> None"

datatype row_command = MoveTo int | Toggle | Range | Peek | OpenVerb row_verb

definition row_keys :: "(jstring \<times> row_command) list" where
  "row_keys =
     [(js ''j'', MoveTo 1), (js ''k'', MoveTo (- 1)), (js ''x'', Toggle), (js ''shift+x'', Range), (js ''p'', Peek),
      (js ''r'', OpenVerb RRun), (js ''e'', OpenVerb RArchive), (js ''#'', OpenVerb RDelete)]"

text \<open>What the selection becomes; \<open>p\<close> and the verbs open a drawer or a confirmation and leave it alone.\<close>

definition row_key_step :: "task_info list \<Rightarrow> row_command \<Rightarrow> row_selection \<Rightarrow> row_selection" where
  "row_key_step rows cmd s = (case cmd of
     MoveTo d \<Rightarrow> moveFocus rows d s
   | Toggle \<Rightarrow> if rs_focusIdx s \<ge> 0 then toggleSelect rows (rs_focusIdx s) s else s
   | Range \<Rightarrow> if rs_focusIdx s \<ge> 0 then rangeSelect rows (rs_focusIdx s) s else s
   | _ \<Rightarrow> s)"

definition peek_target_of :: "task_info list \<Rightarrow> row_selection \<Rightarrow> peek_target option" where
  "peek_target_of rows s = map_option (\<lambda>t. \<lparr>pt_queue = t_queue t, pt_id = t_id t\<rparr>) (row_at rows (rs_focusIdx s))"

subsection \<open>The matrices agree\<close>

text \<open>The paths of a single and of a batch request of a verb.\<close>

definition verb_path :: "console_task_state \<Rightarrow> row_verb \<Rightarrow> api_env \<Rightarrow> jstring \<Rightarrow> jstring \<Rightarrow> http_request option" where
  "verb_path st v env qn i =
     (let tasks = ''/'' @ map char_of (state_name st) @ ''_tasks/''
      in case v of
           RDelete \<Rightarrow> request DeleteMethod (template env [Lit ''/queues/'', Seg qn, Lit tasks, Seg i]) NoBody
         | _ \<Rightarrow> request PostMethod
             (template env [Lit ''/queues/'', Seg qn, Lit tasks, Seg i, Lit ('':'' @ map char_of (job_verb_name (job_verb_of v)))])
             NoBody)"

definition batch_path :: "console_task_state \<Rightarrow> row_verb \<Rightarrow> api_env \<Rightarrow> jstring \<Rightarrow> jstring list \<Rightarrow> http_request option" where
  "batch_path st v env qn ids =
     request PostMethod
       (template env [Lit ''/queues/'', Seg qn,
          Lit (''/'' @ map char_of (state_name st) @ ''_tasks:batch_'' @ map char_of (job_verb_name (job_verb_of v)))])
       (TaskIds ids)"

lemma char_of_js [simp]: "map char_of (js s) = s"
  by (simp add: js_def comp_def)

lemmas matrix_requests =
  cancelActiveTask_def deletePendingTask_def archivePendingTask_def runScheduledTask_def archiveScheduledTask_def
  deleteScheduledTask_def runRetryTask_def archiveRetryTask_def deleteRetryTask_def runArchivedTask_def
  deleteArchivedTask_def deleteCompletedTask_def
  batchCancelActiveTasks_def batchDeletePendingTasks_def batchArchivePendingTasks_def batchRunScheduledTasks_def
  batchArchiveScheduledTasks_def batchDeleteScheduledTasks_def batchRunRetryTasks_def batchArchiveRetryTasks_def
  batchDeleteRetryTasks_def batchRunArchivedTasks_def batchDeleteArchivedTasks_def batchDeleteCompletedTasks_def

text \<open>C37. The matrices of the console agree: in every state a row and a selection sent as batches offer the same verbs,
  and so does the whole scope, except for aggregating tasks, which only the whole scope can run, archive and
  delete; and the request of a verb names that state and that verb, for one task and for a batch alike.\<close>

theorem verb_matrices_agree:
  "set (map fst (actionFns st)) = set (map fst (batchActionFns st)) \<and>
   (if st = Aggregating then actionFns st = [] \<and> set (STATE_BULK_VERBS st) = {VRun, VArchive, VDelete}
    else set (map (job_verb_of \<circ> fst) (actionFns st)) = set (STATE_BULK_VERBS st)) \<and>
   list_all (\<lambda>(v, f). f = verb_path st v) (actionFns st) \<and>
   list_all (\<lambda>(v, f). f = batch_path st v) (batchActionFns st)"
  by (cases st)
    (auto simp: actionFns_def batchActionFns_def STATE_BULK_VERBS_def verb_path_def batch_path_def state_name_def
      matrix_requests fun_eq_iff Let_def)

lemma verb_matrices_agree_witness:
  "set (map (job_verb_of \<circ> fst) (actionFns Retry)) = set (STATE_BULK_VERBS Retry)"
  using verb_matrices_agree [of Retry] by simp

subsection \<open>Selection\<close>

lemma row_at_Some: "row_at rows i = Some t \<Longrightarrow> t \<in> set rows"
  by (auto simp: row_at_def split: if_splits)

text \<open>What a verb acts on is what the operator marked: toggling a row twice changes nothing, a range adds exactly the
  rows between the two ends and removes none, moving the focus stays inside the table, and the keys
  never mark a row that is not shown.\<close>

theorem selection_keys_exact:
  assumes "rs_selected s \<subseteq> set (map rowKey rows)"
  shows "rs_selected (toggleSelect rows i (toggleSelect rows i s)) = rs_selected s \<and>
    (0 \<le> rs_selectAnchor s \<longrightarrow> rs_selected (rangeSelect rows i s) =
       rs_selected s \<union> set (map rowKey (row_range rows (min (rs_selectAnchor s) i) (max (rs_selectAnchor s) i)))) \<and>
    rs_selected (row_key_step rows cmd s) \<subseteq> set (map rowKey rows) \<and>
    (rows \<noteq> [] \<longrightarrow> 0 \<le> rs_focusIdx (moveFocus rows d s) \<and> rs_focusIdx (moveFocus rows d s) < int (length rows))"
proof -
  have range: "set (row_range rows a b) \<subseteq> set rows" for a b
    unfolding row_range_def by (meson order_trans set_drop_subset set_take_subset)
  have toggle: "rs_selected (toggleSelect rows j s) \<subseteq> set (map rowKey rows)" for j
    using assms row_at_Some [of rows j] by (auto simp: toggleSelect_def split: option.split)
  have ranged: "rs_selected (rangeSelect rows j s) \<subseteq> set (map rowKey rows)" for j
  proof -
    have "set (map rowKey (row_range rows a b)) \<subseteq> set (map rowKey rows)" for a b
      unfolding set_map by (rule image_mono [OF range])
    then show ?thesis using assms toggle [of j] by (simp add: rangeSelect_def Let_def del: set_map)
  qed
  have twice: "rs_selected (toggleSelect rows i (toggleSelect rows i s)) = rs_selected s"
    by (cases "row_at rows i") (auto simp: toggleSelect_def)
  have keys: "rs_selected (row_key_step rows cmd s) \<subseteq> set (map rowKey rows)"
    using assms toggle ranged by (cases cmd) (auto simp: row_key_step_def moveFocus_def Let_def)
  have "0 \<le> rs_focusIdx (moveFocus rows d s) \<and> rs_focusIdx (moveFocus rows d s) < int (length rows)" if "rows \<noteq> []"
    using that by (cases "length rows") (auto simp: moveFocus_def Let_def)
  with twice keys show ?thesis by (simp add: rangeSelect_def Let_def)
qed

text \<open>
  Two rows whose queue and id run together are one row to the selection and to the merge of a continued
  scan: a toggle of one marks both, and the second window loses a task it found.
\<close>

definition sample_row :: "string \<Rightarrow> string \<Rightarrow> task_info" where
  "sample_row qn i =
     \<lparr>t_id = js i, t_queue = js qn, t_type = [], t_payload = [], t_state = [], t_start_time = [], t_pending_since = None,
      t_max_retry = 0, t_retried = 0, t_last_failed_at = [], t_error_message = [], t_next_process_at = [],
      t_timeout_seconds = 0, t_deadline = [], t_group = [], t_completed_at = [], t_result = [], t_ttl_seconds = 0,
      t_is_orphaned = False, t_headers = None\<rparr>"

lemma selection_keys_exact_witness:
  "rs_selected (toggleSelect [sample_row ''a'' ''1''] 0 (toggleSelect [sample_row ''a'' ''1''] 0
     \<lparr>rs_focusIdx = 0, rs_selected = {}, rs_selectAnchor = - 1\<rparr>)) = {}"
  using selection_keys_exact [of "\<lparr>rs_focusIdx = 0, rs_selected = {}, rs_selectAnchor = - 1\<rparr>" "[sample_row ''a'' ''1'']" 0]
  by simp

lemma row_keys_collide:
  "selectedTasks [sample_row ''a'' ''b/c'', sample_row ''a/b'' ''c'']
     (toggleSelect [sample_row ''a'' ''b/c'', sample_row ''a/b'' ''c''] 0
        \<lparr>rs_focusIdx = 0, rs_selected = {}, rs_selectAnchor = - 1\<rparr>) =
     [sample_row ''a'' ''b/c'', sample_row ''a/b'' ''c''] \<and>
   visibleTasks False [] [sample_row ''a:b'' ''c''] [sample_row ''a'' ''b:c''] = [sample_row ''a:b'' ''c'']"
  by (simp add: selectedTasks_def toggleSelect_def row_at_def rowKey_def sample_row_def visibleTasks_def seen_key_def js_def)

text \<open>With keys that do not collide the merged rows are the two windows, each task once.\<close>

lemma merged_rows:
  assumes "inj_on seen_key (set tasks \<union> set extra)"
  shows "set (visibleTasks False jt tasks extra) = set tasks \<union> set extra"
  using assms by (auto simp: visibleTasks_def inj_on_def)

text \<open>
  A completion replaces the partial word, and the bar then reads back as naming that queue.
\<close>

lemma suggestion_completes:
  assumes "queue_tail s = Some (before, p)" "before = [] \<or> last before = 32" "\<forall>c \<in> set name. \<not> is_ws c"
  shows "queuePrefix (applyQueueSuggestion s name) = Some name"
proof -
  have "applyQueueSuggestion s name = before @ js ''queue='' @ name"
    using assms(1,2) by (cases before rule: rev_cases) (auto simp: applyQueueSuggestion_def js_def)
  moreover have "\<forall>c \<in> set (js ''queue='' @ name). \<not> is_ws c" using assms(3) by (auto simp: js_def is_ws_def)
  then have "takeWhile (\<lambda>c. \<not> is_ws c) (rev (js ''queue='' @ name) @ rev before) =
      rev (js ''queue='' @ name) @ takeWhile (\<lambda>c. \<not> is_ws c) (rev before)"
    by (intro takeWhile_append2) auto
  moreover have "takeWhile (\<lambda>c. \<not> is_ws c) (rev before) = []"
    using assms(2) by (cases before rule: rev_cases) (auto simp: is_ws_def)
  ultimately show ?thesis
    by (simp add: queuePrefix_def queue_tail_def Let_def js_def starts_with_def)
qed

text \<open>Any other separator is lost: the completion glues the clause to the word before it.\<close>

lemma suggestion_after_tab_glues:
  "applyQueueSuggestion (js ''boom'' @ [9] @ js ''queue=ma'') (js ''mail'') = js ''boomqueue=mail''"
  by (simp add: applyQueueSuggestion_def queue_tail_def js_def is_ws_def starts_with_def)

end
