(* ===== verification/TasksConsole.thy ===== *)
theory TasksConsole
  imports ConsoleRows Endpoints
begin

text \<open>
  The state of the task console (\<open>src/ui/src/views/TasksGlobalView.tsx\<close>): what it fetches, when it throws an
  answer away, and what a change of the filter resets. A step is one callback: a click, a tick of a
  poll interval, an answer, or a \<open>render\<close>, the effects of one commit in their order. An effect reads
  the state of the render it belongs to, so it takes that state as its first argument. The text typed
  into the query bar and not yet written into the URL is not part of the model.

  A setter of URL parameters works on the parameters of its render, as \<open>react-router\<close> documents: two in
  one commit do not see each other.
\<close>

subsection \<open>State\<close>

record search_meta =
  sm_mode :: jstring
  sm_exact :: bool
  sm_cursor :: jstring
  sm_scanCursor :: jstring
  sm_candidateEstimate :: int
  sm_scanned :: int
  sm_pendingSinceUnknown :: int

text \<open>The continuation of a budgeted scan. The cursor is \<open>None\<close> until the first continuation, empty at the end.\<close>

record scan_window =
  xw_tasks :: "task_info list"
  xw_scanned :: int
  xw_pendingUnknown :: int
  xw_matches :: int
  xw_cursor :: "jstring option"

record job_results =
  jr_tasks :: "task_info list"
  jr_total :: int
  jr_vanished :: int
  jr_page :: int

type_synonym search_call = "task_filter \<times> search_page"

text \<open>
  What is in flight. A mutation carries what its closure will fetch again when it settles: the search and
  the page of job results of the render it was started in, and whether it clears the selection.
\<close>

datatype flight =
    SearchFlight nat search_call | ContinueFlight search_call | JobFlight nat jstring int int
  | CountsFlight nat jstring | FacetsFlight nat task_filter | AnalyticsFlight nat task_filter int
  | MutationFlight "search_call option" "(jstring \<times> int \<times> int) option" bool

text \<open>What the dependency lists of the effects name.\<close>

record console_deps =
  dp_view :: console_state
  dp_cursor :: jstring
  dp_jobMode :: bool
  dp_scanJobId :: "jstring option"
  dp_jobPage :: int
  dp_version :: nat

text \<open>\<open>cn_version\<close> counts the new arrays among the rows, so that it stands for the identity of \<open>visibleTasks\<close>.\<close>

record tasks_console =
  cn_params :: params
  cn_deps :: "console_deps option"
  cn_filterMounted :: bool
  cn_tasks :: "task_info list"
  cn_loading :: bool
  cn_total :: int
  cn_truncated :: bool
  cn_meta :: search_meta
  cn_error :: jstring
  cn_rejection :: "(jvalue \<times> jstring) option"
  cn_cursorStack :: "jstring list"
  cn_extra :: scan_window
  cn_continuing :: bool
  cn_job :: "job_info option"
  cn_results :: job_results
  cn_pivotPending :: bool
  cn_rows :: row_selection
  cn_frozen :: "(task_info list, jstring) frozen_hook"
  cn_hovering :: bool
  cn_version :: nat
  cn_stateCounts :: "(jstring \<times> int) list option"
  cn_facets :: "(jstring \<times> jstring \<times> int) list"
  cn_errorGroups :: "(jstring \<times> int) list"
  cn_typeGroups :: "(jstring \<times> int) list"
  cn_tasksSeq :: nat
  cn_jobSeq :: nat
  cn_countsSeq :: nat
  cn_facetsSeq :: nat
  cn_analyticsSeq :: nat
  cn_flights :: "flight list"

definition no_meta :: search_meta where
  "no_meta =
     \<lparr>sm_mode = js ''legacy'', sm_exact = False, sm_cursor = [], sm_scanCursor = [], sm_candidateEstimate = 0, sm_scanned = 0,
      sm_pendingSinceUnknown = 0\<rparr>"

definition no_window :: scan_window where
  "no_window = \<lparr>xw_tasks = [], xw_scanned = 0, xw_pendingUnknown = 0, xw_matches = 0, xw_cursor = None\<rparr>"

definition no_results :: job_results where
  "no_results = \<lparr>jr_tasks = [], jr_total = 0, jr_vanished = 0, jr_page = 0\<rparr>"

definition no_rows :: row_selection where
  "no_rows = \<lparr>rs_focusIdx = - 1, rs_selected = {}, rs_selectAnchor = - 1\<rparr>"

subsection \<open>What a render derives\<close>

definition view_of :: "tasks_console \<Rightarrow> console_state" where
  "view_of s = parseConsoleState (cn_params s)"

definition peek_of :: "tasks_console \<Rightarrow> peek_target option" where
  "peek_of s = parsePeek (get_param (cn_params s) (js ''peek''))"

definition currentCursor :: "tasks_console \<Rightarrow> jstring" where
  "currentCursor s = (if cn_cursorStack s = [] then [] else last (cn_cursorStack s))"

definition scanJobId :: "tasks_console \<Rightarrow> jstring option" where
  "scanJobId s = parseScanJob (cn_params s)"

definition jobResultsMode :: "tasks_console \<Rightarrow> bool" where
  "jobResultsMode s \<longleftrightarrow> scanJobId s \<noteq> None \<and> (case cn_job s of None \<Rightarrow> False | Some j \<Rightarrow> ji_preview_complete j)"

text \<open>\<open>`${view.q}|${view.state}|${view.queue}|${view.size}`\<close>.\<close>

definition key_text :: "jstring \<Rightarrow> jstring \<Rightarrow> jstring \<Rightarrow> int \<Rightarrow> jstring" where
  "key_text q st qn size' = q @ js ''|'' @ st @ js ''|'' @ qn @ js ''|'' @ js_of_int size'"

definition filterKey :: "console_state \<Rightarrow> jstring" where
  "filterKey v = key_text (cs_q v) (state_name (cs_state v)) (cs_queue v) (cs_size v)"

definition deps_of :: "tasks_console \<Rightarrow> console_deps" where
  "deps_of s =
     \<lparr>dp_view = view_of s, dp_cursor = currentCursor s, dp_jobMode = jobResultsMode s, dp_scanJobId = scanJobId s,
      dp_jobPage = jr_page (cn_results s), dp_version = cn_version s\<rparr>"

definition totalPages :: "tasks_console \<Rightarrow> int" where
  "totalPages s = max 1 \<lceil>(of_int (cn_total s) / of_int (cs_size (view_of s)) :: rat)\<rceil>"

definition isCursorMode :: "tasks_console \<Rightarrow> bool" where
  "isCursorMode s \<longleftrightarrow> sm_mode (cn_meta s) = js ''cursor''"

definition effectiveScanCursor :: "tasks_console \<Rightarrow> jstring" where
  "effectiveScanCursor s = (case xw_cursor (cn_extra s) of Some c \<Rightarrow> c | None \<Rightarrow> sm_scanCursor (cn_meta s))"

definition scanPartial :: "tasks_console \<Rightarrow> bool" where
  "scanPartial s \<longleftrightarrow> sm_mode (cn_meta s) = js ''scan'' \<and> effectiveScanCursor s \<noteq> []"

definition scannedTotal :: "tasks_console \<Rightarrow> int" where
  "scannedTotal s = sm_scanned (cn_meta s) + xw_scanned (cn_extra s)"

definition pendingUnknownTotal :: "tasks_console \<Rightarrow> int" where
  "pendingUnknownTotal s = sm_pendingSinceUnknown (cn_meta s) + xw_pendingUnknown (cn_extra s)"

definition visible_of :: "tasks_console \<Rightarrow> task_info list" where
  "visible_of s = visibleTasks (jobResultsMode s) (jr_tasks (cn_results s)) (cn_tasks s) (xw_tasks (cn_extra s))"

definition frozen_now :: "tasks_console \<Rightarrow> bool" where
  "frozen_now s \<longleftrightarrow> cn_hovering s \<or> rs_selected (cn_rows s) \<noteq> {} \<or> peek_of s \<noteq> None"

definition shown_rows :: "tasks_console \<Rightarrow> task_info list" where
  "shown_rows s = fz_data (fh_state (cn_frozen s))"

definition isFailureState :: "console_task_state \<Rightarrow> bool" where
  "isFailureState st \<longleftrightarrow> st = Retry \<or> st = Archived"

definition isGroupMode :: "console_state \<Rightarrow> bool" where
  "isGroupMode v \<longleftrightarrow> isFailureState (cs_state v) \<and> cs_mode v \<noteq> Rows"

subsection \<open>Requests\<close>

definition filter_of :: "console_state \<Rightarrow> task_filter" where
  "filter_of v =
     \<lparr>tf_queue = Some (cs_queue v), tf_state = state_name (cs_state v), tf_q = Some (cs_q v), tf_meta = []\<rparr>"

definition search_call_of :: "tasks_console \<Rightarrow> search_call" where
  "search_call_of s =
     (filter_of (view_of s),
      \<lparr>sp_page = Some (cs_page (view_of s) + 1), sp_size = Some (cs_size (view_of s)), sp_maxScan = None,
       sp_cursor = (if currentCursor s = [] then None else Some (currentCursor s)), sp_scanCursor = None\<rparr>)"

text \<open>
  \<open>fetchTasks\<close> and \<open>fetchJobResults\<close> as the closures of one render: the request they make, \<open>None\<close> where
  they return at once.
\<close>

definition tasks_closure :: "tasks_console \<Rightarrow> search_call option" where
  "tasks_closure r = (if jobResultsMode r then None else Some (search_call_of r))"

definition fetchTasks :: "search_call option \<Rightarrow> tasks_console \<Rightarrow> tasks_console" where
  "fetchTasks closure s = (case closure of
     None \<Rightarrow> s
   | Some c \<Rightarrow>
       let mine = cn_tasksSeq s + 1 in s\<lparr>cn_tasksSeq := mine, cn_flights := cn_flights s @ [SearchFlight mine c]\<rparr>)"

definition results_closure :: "tasks_console \<Rightarrow> (jstring \<times> int \<times> int) option" where
  "results_closure r = (case scanJobId r of
     Some j \<Rightarrow>
       if jobResultsMode r then Some (j, jr_page (cn_results r) * cs_size (view_of r), cs_size (view_of r)) else None
   | None \<Rightarrow> None)"

definition fetchJobResults :: "(jstring \<times> int \<times> int) option \<Rightarrow> tasks_console \<Rightarrow> tasks_console" where
  "fetchJobResults closure s = (case closure of
     None \<Rightarrow> s
   | Some (j, offset, size') \<Rightarrow>
       let mine = cn_jobSeq s + 1
       in s\<lparr>cn_jobSeq := mine, cn_loading := True, cn_flights := cn_flights s @ [JobFlight mine j offset size']\<rparr>)"

definition fetchCounts :: "tasks_console \<Rightarrow> tasks_console \<Rightarrow> tasks_console" where
  "fetchCounts r s =
     (let mine = cn_countsSeq s + 1
      in s\<lparr>cn_countsSeq := mine, cn_flights := cn_flights s @ [CountsFlight mine (cs_queue (view_of r))]\<rparr>)"

definition fetchFacets :: "tasks_console \<Rightarrow> tasks_console \<Rightarrow> tasks_console" where
  "fetchFacets r s =
     (let mine = cn_facetsSeq s + 1
      in s\<lparr>cn_facetsSeq := mine, cn_flights := cn_flights s @ [FacetsFlight mine (filter_of (view_of r))]\<rparr>)"

definition fetchAnalytics :: "tasks_console \<Rightarrow> tasks_console \<Rightarrow> tasks_console" where
  "fetchAnalytics r s =
     (if \<not> isFailureState (cs_state (view_of r)) then s\<lparr>cn_errorGroups := [], cn_typeGroups := []\<rparr>
      else let mine = cn_analyticsSeq s + 1
           in s\<lparr>cn_analyticsSeq := mine,
                cn_flights := cn_flights s @
                  [AnalyticsFlight mine (filter_of (view_of r)) (if isGroupMode (view_of r) then 50 else 8)]\<rparr>)"

subsection \<open>Answers\<close>

text \<open>An error: the status and parsed body of the response, if there is one, and the text shown for it.\<close>

record fetch_failure =
  ff_response :: "(int \<times> jvalue) option"
  ff_text :: jstring

definition meta_of :: "search_tasks_response \<Rightarrow> search_meta" where
  "meta_of r =
     \<lparr>sm_mode = (case str_mode r of Some x \<Rightarrow> x | None \<Rightarrow> js ''legacy''),
      sm_exact = (case str_exact r of Some x \<Rightarrow> x | None \<Rightarrow> False),
      sm_cursor = (case str_cursor r of Some x \<Rightarrow> x | None \<Rightarrow> []),
      sm_scanCursor = (case str_scan_cursor r of Some x \<Rightarrow> x | None \<Rightarrow> []),
      sm_candidateEstimate = (case str_candidate_estimate r of Some x \<Rightarrow> x | None \<Rightarrow> 0), sm_scanned = str_scanned r,
      sm_pendingSinceUnknown = (case str_pending_since_unknown r of Some x \<Rightarrow> x | None \<Rightarrow> 0)\<rparr>"

definition search_answered :: "nat \<Rightarrow> search_call \<Rightarrow> fetch_failure + search_tasks_response \<Rightarrow> tasks_console \<Rightarrow> tasks_console" where
  "search_answered mine c answer s =
     (if mine \<noteq> cn_tasksSeq s then s
      else (case answer of
          Inr r \<Rightarrow>
            let gone = (case peek_of s of
                  None \<Rightarrow> False
                | Some pk \<Rightarrow> \<not> list_ex (\<lambda>t. t_id t = pt_id pk \<and> t_queue t = pt_queue pk) (str_tasks r))
            in s\<lparr>cn_tasks := str_tasks r, cn_version := cn_version s + 1, cn_total := str_total r,
                 cn_truncated := str_truncated r, cn_meta := meta_of r, cn_error := [], cn_rejection := None,
                 cn_pivotPending := False,
                 cn_params := (if cn_pivotPending s \<and> gone then delete_param (cn_params s) (js ''peek'') else cn_params s)\<rparr>
        | Inl e \<Rightarrow> (case ff_response e of
              Some (status, data) \<Rightarrow>
                if status = 400 \<and> isAqlRejection data
                then s\<lparr>cn_rejection := Some (data, the (tf_q (fst c))), cn_error := []\<rparr>
                else s\<lparr>cn_error := ff_text e\<rparr>
            | None \<Rightarrow> s\<lparr>cn_error := ff_text e\<rparr>))\<lparr>cn_loading := False\<rparr>)"

definition job_answered :: "nat \<Rightarrow> fetch_failure + job_results_response \<Rightarrow> tasks_console \<Rightarrow> tasks_console" where
  "job_answered mine answer s =
     (if mine \<noteq> cn_jobSeq s then s
      else (case answer of
          Inr r \<Rightarrow> s\<lparr>cn_results := (cn_results s)\<lparr>jr_tasks := jrr_tasks r, jr_total := jrr_total_candidates r,
                    jr_vanished := jrr_vanished r\<rparr>, cn_version := cn_version s + 1, cn_error := []\<rparr>
        | Inl e \<Rightarrow> s\<lparr>cn_error := ff_text e\<rparr>)\<lparr>cn_loading := False\<rparr>)"

definition counts_answered :: "nat \<Rightarrow> fetch_failure + state_counts_response \<Rightarrow> tasks_console \<Rightarrow> tasks_console" where
  "counts_answered mine answer s = (case answer of
     Inr r \<Rightarrow> if mine \<noteq> cn_countsSeq s then s else s\<lparr>cn_stateCounts := Some (scr_counts r)\<rparr>
   | Inl _ \<Rightarrow> s)"

definition facets_answered :: "nat \<Rightarrow> fetch_failure + task_metadata_response \<Rightarrow> tasks_console \<Rightarrow> tasks_console" where
  "facets_answered mine answer s =
     (if mine \<noteq> cn_facetsSeq s then s
      else s\<lparr>cn_facets := (case answer of Inr r \<Rightarrow> tmr_facets r | Inl _ \<Rightarrow> [])\<rparr>)"

text \<open>Both groupings are asked for at once; one failure fails both.\<close>

definition analytics_answered ::
  "nat \<Rightarrow> fetch_failure + task_aggregate_response \<times> task_aggregate_response \<Rightarrow> tasks_console \<Rightarrow> tasks_console" where
  "analytics_answered mine answer s =
     (if mine \<noteq> cn_analyticsSeq s then s
      else (case answer of
          Inr (byError, byType) \<Rightarrow> s\<lparr>cn_errorGroups := tar_groups byError, cn_typeGroups := tar_groups byType\<rparr>
        | Inl _ \<Rightarrow> s\<lparr>cn_errorGroups := [], cn_typeGroups := []\<rparr>))"

subsection \<open>Continuing a scan\<close>

definition continueScan :: "tasks_console \<Rightarrow> tasks_console" where
  "continueScan s =
     (if effectiveScanCursor s = [] \<or> cn_continuing s then s
      else s\<lparr>cn_continuing := True,
             cn_flights := cn_flights s @
               [ContinueFlight (filter_of (view_of s),
                  \<lparr>sp_page = None, sp_size = Some (cs_size (view_of s)), sp_maxScan = None, sp_cursor = None,
                   sp_scanCursor = Some (effectiveScanCursor s)\<rparr>)]\<rparr>)"

definition continue_answered :: "fetch_failure + search_tasks_response \<Rightarrow> tasks_console \<Rightarrow> tasks_console" where
  "continue_answered answer s = (case answer of
     Inr r \<Rightarrow>
       s\<lparr>cn_extra :=
           \<lparr>xw_tasks = xw_tasks (cn_extra s) @ str_tasks r, xw_scanned = xw_scanned (cn_extra s) + str_scanned r,
            xw_pendingUnknown = xw_pendingUnknown (cn_extra s) +
              (case str_pending_since_unknown r of Some n \<Rightarrow> n | None \<Rightarrow> 0),
            xw_matches = xw_matches (cn_extra s) + str_total r,
            xw_cursor = Some (case str_scan_cursor r of Some c \<Rightarrow> c | None \<Rightarrow> [])\<rparr>,
         cn_version := cn_version s + 1, cn_continuing := False\<rparr>
   | Inl e \<Rightarrow> s\<lparr>cn_error := ff_text e, cn_continuing := False\<rparr>)"

subsection \<open>The scan job\<close>

definition scanSettled :: "job_info \<Rightarrow> bool" where
  "scanSettled j \<longleftrightarrow> ji_preview_complete j \<or> isTerminalJobState (ji_state j)"

text \<open>The tracker shows a job; \<open>announce\<close> is whether it calls \<open>onSettled\<close>.\<close>

definition onScanSettled :: "job_info \<Rightarrow> tasks_console \<Rightarrow> tasks_console" where
  "onScanSettled j s =
     (if ji_preview_complete j \<and> \<not> isTerminalJobState (ji_state j)
      then s\<lparr>cn_extra := no_window, cn_version := cn_version s + 1\<rparr> else s)"

definition job_seen :: "job_info \<Rightarrow> bool \<Rightarrow> tasks_console \<Rightarrow> tasks_console" where
  "job_seen j announce s =
     (let s = s\<lparr>cn_job := Some j\<rparr> in if announce \<and> scanSettled j then onScanSettled j s else s)"

record scan_scope =
  sj_verb :: job_verb
  sj_queue :: jstring
  sj_state :: jstring
  sj_q :: "jstring option"
  sj_aql :: "jstring option"

definition scanAsJob :: "tasks_console \<Rightarrow> scan_scope" where
  "scanAsJob s =
     (let v = view_of s; isAql = isAqlQuery (cs_q v)
      in \<lparr>sj_verb = scanJobVerb (cs_state v), sj_queue = cs_queue v, sj_state = state_name (cs_state v),
          sj_q = (if \<not> isAql \<and> cs_q v \<noteq> [] then Some (cs_q v) else None), sj_aql = (if isAql then Some (cs_q v) else None)\<rparr>)"

definition setScanJobParam :: "jstring option \<Rightarrow> tasks_console \<Rightarrow> tasks_console" where
  "setScanJobParam i s = s\<lparr>cn_params := withScanJob (cn_params s) i\<rparr>"

text \<open>Dismissing a job that has not settled cancels it too; the id of the job to cancel comes with the state.\<close>

definition dismissScanJob :: "tasks_console \<Rightarrow> jstring option \<times> tasks_console" where
  "dismissScanJob s =
     ((case (scanJobId s, cn_job s) of (Some i, Some j) \<Rightarrow> if scanSettled j then None else Some i | _ \<Rightarrow> None),
      setScanJobParam None s)"

subsection \<open>Effects\<close>

definition changed :: "tasks_console \<Rightarrow> (console_deps \<Rightarrow> 'a) \<Rightarrow> bool" where
  "changed r f \<longleftrightarrow> (case cn_deps r of None \<Rightarrow> True | Some d \<Rightarrow> f d \<noteq> f (deps_of r))"

definition job_reset_effect :: "tasks_console \<Rightarrow> tasks_console \<Rightarrow> tasks_console" where
  "job_reset_effect r s =
     (if changed r dp_scanJobId then s\<lparr>cn_job := None, cn_results := no_results, cn_version := cn_version s + 1\<rparr> else s)"

definition job_fetch_effect :: "tasks_console \<Rightarrow> tasks_console \<Rightarrow> tasks_console" where
  "job_fetch_effect r s =
     (if changed r (\<lambda>d. (dp_jobMode d, dp_scanJobId d, dp_jobPage d, cs_size (dp_view d))) then fetchJobResults (results_closure r) s else s)"

text \<open>What the fetch of the rows depends on.\<close>

definition fetch_deps :: "console_deps \<Rightarrow> jstring \<times> console_task_state \<times> jstring \<times> int \<times> int \<times> jstring \<times> bool" where
  "fetch_deps d =
     (cs_queue (dp_view d), cs_state (dp_view d), cs_q (dp_view d), cs_page (dp_view d), cs_size (dp_view d), dp_cursor d,
      dp_jobMode d)"

definition tasks_effect :: "tasks_console \<Rightarrow> tasks_console \<Rightarrow> tasks_console" where
  "tasks_effect r s = (if changed r fetch_deps then fetchTasks (tasks_closure r) s else s)"

definition counts_effect :: "tasks_console \<Rightarrow> tasks_console \<Rightarrow> tasks_console" where
  "counts_effect r s = (if changed r (\<lambda>d. cs_queue (dp_view d)) then fetchCounts r s else s)"

definition facets_effect :: "tasks_console \<Rightarrow> tasks_console \<Rightarrow> tasks_console" where
  "facets_effect r s =
     (if changed r (\<lambda>d. (cs_queue (dp_view d), cs_state (dp_view d), cs_q (dp_view d))) then fetchFacets r s else s)"

definition analytics_effect :: "tasks_console \<Rightarrow> tasks_console \<Rightarrow> tasks_console" where
  "analytics_effect r s =
     (if changed r (\<lambda>d. (isFailureState (cs_state (dp_view d)), isGroupMode (dp_view d), cs_queue (dp_view d),
           cs_state (dp_view d), cs_q (dp_view d)))
      then fetchAnalytics r s else s)"

definition filter_effect :: "tasks_console \<Rightarrow> tasks_console \<Rightarrow> tasks_console" where
  "filter_effect r s =
     (if changed r (\<lambda>d. filterKey (dp_view d))
      then s\<lparr>cn_tasks := [], cn_version := cn_version s + 1, cn_loading := True, cn_cursorStack := [], cn_extra := no_window,
             cn_params := (if cn_filterMounted s then withScanJob (cn_params r) None else cn_params s),
             cn_filterMounted := True, cn_rows := no_rows\<rparr>
      else s)"

definition clamp_effect :: "tasks_console \<Rightarrow> tasks_console \<Rightarrow> tasks_console" where
  "clamp_effect r s =
     (if \<not> cn_loading r \<and> \<not> isCursorMode r \<and> \<not> jobResultsMode r \<and> cs_page (view_of r) > totalPages r - 1
      then s\<lparr>cn_params := serializeConsoleState ((view_of r)\<lparr>cs_page := totalPages r - 1\<rparr>) (cn_params r)\<rparr>
      else s)"

definition frozen_effect :: "tasks_console \<Rightarrow> tasks_console \<Rightarrow> tasks_console" where
  "frozen_effect r s =
     s\<lparr>cn_frozen := frozen_render renderedRowsEqual (visible_of r) (changed r (\<lambda>d. (dp_version d, dp_jobMode d))) (frozen_now r)
         (filterKey (view_of r)) (cn_frozen s)\<rparr>"

definition focus_effect :: "tasks_console \<Rightarrow> tasks_console \<Rightarrow> tasks_console" where
  "focus_effect r s = s\<lparr>cn_rows := clampFocus (shown_rows r) (cn_rows s)\<rparr>"

definition render :: "tasks_console \<Rightarrow> tasks_console" where
  "render r =
     (focus_effect r (frozen_effect r (clamp_effect r (filter_effect r (analytics_effect r (facets_effect r
       (counts_effect r (tasks_effect r (job_fetch_effect r (job_reset_effect r r))))))))))\<lparr>cn_deps := Some (deps_of r)\<rparr>"

definition console_init :: "params \<Rightarrow> tasks_console" where
  "console_init ps =
     \<lparr>cn_params = ps, cn_deps = None, cn_filterMounted = False, cn_tasks = [], cn_loading = True, cn_total = 0,
      cn_truncated = False, cn_meta = no_meta, cn_error = [], cn_rejection = None, cn_cursorStack = [],
      cn_extra = no_window, cn_continuing = False, cn_job = None, cn_results = no_results, cn_pivotPending = False,
      cn_rows = no_rows,
      cn_frozen = \<lparr>fh_state = frozenInit [], fh_flushNext = False, fh_resetKey = filterKey (parseConsoleState ps), fh_frozenDep = False\<rparr>,
      cn_hovering = False, cn_version = 0, cn_stateCounts = None, cn_facets = [], cn_errorGroups = [], cn_typeGroups = [],
      cn_tasksSeq = 0, cn_jobSeq = 0, cn_countsSeq = 0, cn_facetsSeq = 0, cn_analyticsSeq = 0, cn_flights = []\<rparr>"

subsection \<open>Handlers\<close>

definition set_view :: "(console_state \<Rightarrow> console_state) \<Rightarrow> tasks_console \<Rightarrow> tasks_console" where
  "set_view f s = s\<lparr>cn_params := serializeConsoleState (f (view_of s)) (cn_params s)\<rparr>"

definition setPeekParam :: "peek_target option \<Rightarrow> tasks_console \<Rightarrow> tasks_console" where
  "setPeekParam target s =
     s\<lparr>cn_params := (case target of
         Some t \<Rightarrow> set_param (cn_params s) (js ''peek'') (serializePeek t)
       | None \<Rightarrow> delete_param (cn_params s) (js ''peek''))\<rparr>"

definition pivot :: "pivot_request \<Rightarrow> tasks_console \<Rightarrow> tasks_console" where
  "pivot p s = set_view (\<lambda>v. handlePivot v p) (s\<lparr>cn_pivotPending := True\<rparr>)"

text \<open>
  \<open>runAction\<close> and \<open>runSelectionVerb\<close>: the requests go out, and when they have settled the closures of the
  render they were started in fetch again.
\<close>

definition mutation_started :: "bool \<Rightarrow> tasks_console \<Rightarrow> tasks_console" where
  "mutation_started clear s = s\<lparr>cn_flights := cn_flights s @ [MutationFlight (tasks_closure s) (results_closure s) clear]\<rparr>"

definition mutation_settled ::
  "search_call option \<Rightarrow> (jstring \<times> int \<times> int) option \<Rightarrow> bool \<Rightarrow> jstring option \<Rightarrow> tasks_console \<Rightarrow> tasks_console" where
  "mutation_settled search results clear failed s =
     fetchJobResults results (fetchTasks search
       (s\<lparr>cn_error := (case failed of Some e \<Rightarrow> e | None \<Rightarrow> []),
          cn_rows := (if clear then clearSelection (cn_rows s) else cn_rows s),
          cn_frozen := applyNextChange (cn_frozen s)\<rparr>))"

definition nextWindow :: "tasks_console \<Rightarrow> tasks_console" where
  "nextWindow s = (if sm_cursor (cn_meta s) = [] then s else s\<lparr>cn_cursorStack := cn_cursorStack s @ [sm_cursor (cn_meta s)]\<rparr>)"

definition previousWindow :: "tasks_console \<Rightarrow> tasks_console" where
  "previousWindow s = s\<lparr>cn_cursorStack := butlast (cn_cursorStack s)\<rparr>"

definition setJobPage :: "int \<Rightarrow> tasks_console \<Rightarrow> tasks_console" where
  "setJobPage delta s =
     (let p = jr_page (cn_results s)
      in if delta < 0 then (if p = 0 then s else s\<lparr>cn_results := (cn_results s)\<lparr>jr_page := max 0 (p - 1)\<rparr>\<rparr>)
         else if (p + 1) * cs_size (view_of s) \<ge> jr_total (cn_results s) then s
         else s\<lparr>cn_results := (cn_results s)\<lparr>jr_page := p + 1\<rparr>\<rparr>)"

definition nextPage :: "tasks_console \<Rightarrow> tasks_console" where
  "nextPage s = (if cs_page (view_of s) \<ge> totalPages s - 1 then s else set_view (\<lambda>v. v\<lparr>cs_page := cs_page v + 1\<rparr>) s)"

definition previousPage :: "tasks_console \<Rightarrow> tasks_console" where
  "previousPage s = (if cs_page (view_of s) = 0 then s else set_view (\<lambda>v. v\<lparr>cs_page := cs_page v - 1\<rparr>) s)"

subsection \<open>Runs\<close>

text \<open>The effects of the last render saw the state as it is: React renders before the next callback.\<close>

definition stable :: "tasks_console \<Rightarrow> bool" where
  "stable s \<longleftrightarrow> cn_deps s = Some (deps_of s)"

definition landed :: "flight \<Rightarrow> tasks_console \<Rightarrow> tasks_console" where
  "landed f s = s\<lparr>cn_flights := remove1 f (cn_flights s)\<rparr>"

definition call_key :: "search_call \<Rightarrow> jstring" where
  "call_key c = key_text (the (tf_q (fst c))) (tf_state (fst c)) (the (tf_queue (fst c))) (the (sp_size (snd c)))"

text \<open>
  The runs, with what the server may answer to a search. A run is clean as long as every mutation settles
  under the filter it was started under. \<open>url\<close> is any change of the parameters: a view, a page, the
  drawer, a link, the history.
\<close>

inductive console_run :: "(search_call \<Rightarrow> search_tasks_response \<Rightarrow> bool) \<Rightarrow> bool \<Rightarrow> tasks_console \<Rightarrow> bool" for server where
  start: "console_run server True (console_init ps)"
| render: "console_run server k s \<Longrightarrow> console_run server k (render s)"
| url: "console_run server k s \<Longrightarrow> stable s \<Longrightarrow> console_run server k (s\<lparr>cn_params := ps, cn_pivotPending := p\<rparr>)"
| tick: "console_run server k s \<Longrightarrow> stable s \<Longrightarrow> console_run server k (fetchTasks (tasks_closure s) s)"
| tick_counts: "console_run server k s \<Longrightarrow> stable s \<Longrightarrow> console_run server k (fetchCounts s s)"
| found: "console_run server k s \<Longrightarrow> stable s \<Longrightarrow> SearchFlight n c \<in> set (cn_flights s) \<Longrightarrow> server c r \<Longrightarrow>
    console_run server k (search_answered n c (Inr r) (landed (SearchFlight n c) s))"
| not_found: "console_run server k s \<Longrightarrow> stable s \<Longrightarrow> SearchFlight n c \<in> set (cn_flights s) \<Longrightarrow>
    console_run server k (search_answered n c (Inl e) (landed (SearchFlight n c) s))"
| job: "console_run server k s \<Longrightarrow> stable s \<Longrightarrow> console_run server k (job_seen j announce s)"
| job_page: "console_run server k s \<Longrightarrow> stable s \<Longrightarrow> JobFlight n i off sz \<in> set (cn_flights s) \<Longrightarrow>
    console_run server k (job_answered n ja (landed (JobFlight n i off sz) s))"
| counts: "console_run server k s \<Longrightarrow> stable s \<Longrightarrow> CountsFlight n qn \<in> set (cn_flights s) \<Longrightarrow>
    console_run server k (counts_answered n ca (landed (CountsFlight n qn) s))"
| facets: "console_run server k s \<Longrightarrow> stable s \<Longrightarrow> FacetsFlight n tf \<in> set (cn_flights s) \<Longrightarrow>
    console_run server k (facets_answered n fa (landed (FacetsFlight n tf) s))"
| analytics: "console_run server k s \<Longrightarrow> stable s \<Longrightarrow> AnalyticsFlight n tf most \<in> set (cn_flights s) \<Longrightarrow>
    console_run server k (analytics_answered n aa (landed (AnalyticsFlight n tf most) s))"
| continue: "console_run server k s \<Longrightarrow> stable s \<Longrightarrow> console_run server k (continueScan s)"
| continued: "console_run server k s \<Longrightarrow> stable s \<Longrightarrow> ContinueFlight c \<in> set (cn_flights s) \<Longrightarrow>
    console_run server k (continue_answered xa (landed (ContinueFlight c) s))"
| mutate: "console_run server k s \<Longrightarrow> stable s \<Longrightarrow> console_run server k (mutation_started clear s)"
| mutated: "console_run server k s \<Longrightarrow> stable s \<Longrightarrow> MutationFlight mc mr clear \<in> set (cn_flights s) \<Longrightarrow>
    console_run server (k \<and> (case mc of None \<Rightarrow> True | Some c \<Rightarrow> call_key c = filterKey (view_of s)))
      (mutation_settled mc mr clear failed (landed (MutationFlight mc mr clear) s))"
| next_window: "console_run server k s \<Longrightarrow> stable s \<Longrightarrow> console_run server k (nextWindow s)"
| previous_window: "console_run server k s \<Longrightarrow> stable s \<Longrightarrow> console_run server k (previousWindow s)"
| turn_page: "console_run server k s \<Longrightarrow> stable s \<Longrightarrow> console_run server k (setJobPage delta s)"
| keys: "console_run server k s \<Longrightarrow> stable s \<Longrightarrow>
    console_run server k (s\<lparr>cn_rows := row_key_step (shown_rows s) cmd (cn_rows s)\<rparr>)"
| hover: "console_run server k s \<Longrightarrow> stable s \<Longrightarrow> console_run server k (s\<lparr>cn_hovering := h\<rparr>)"
| pill: "console_run server k s \<Longrightarrow> stable s \<Longrightarrow>
    console_run server k (s\<lparr>cn_frozen := hook_apply renderedRowsEqual (cn_frozen s)\<rparr>)"

subsection \<open>What the effects leave alone\<close>

text \<open>The part of the state the rows depend on.\<close>

definition search_part :: "tasks_console \<Rightarrow> task_info list \<times> nat \<times> console_deps option \<times> bool" where
  "search_part s = (cn_tasks s, cn_tasksSeq s, cn_deps s, cn_filterMounted s)"

definition searches :: "tasks_console \<Rightarrow> (nat \<times> search_call) set" where
  "searches s = {(n, c). SearchFlight n c \<in> set (cn_flights s)}"

named_theorems console_frame \<open>steps that leave the rows and their requests alone\<close>

lemma frame_job_reset [console_frame]:
  "search_part (job_reset_effect r s) = search_part s" "searches (job_reset_effect r s) = searches s"
  by (simp_all add: job_reset_effect_def search_part_def searches_def)

lemma frame_job_results [console_frame]:
  "search_part (fetchJobResults cl s) = search_part s" "searches (fetchJobResults cl s) = searches s"
  by (auto simp: fetchJobResults_def search_part_def searches_def Let_def split: option.split)

lemma frame_job_fetch [console_frame]:
  "search_part (job_fetch_effect r s) = search_part s" "searches (job_fetch_effect r s) = searches s"
  by (simp_all add: job_fetch_effect_def console_frame)

lemma frame_counts [console_frame]:
  "search_part (fetchCounts r s) = search_part s" "searches (fetchCounts r s) = searches s"
  "search_part (counts_effect r s) = search_part s" "searches (counts_effect r s) = searches s"
  by (auto simp: counts_effect_def fetchCounts_def search_part_def searches_def Let_def)

lemma frame_facets [console_frame]:
  "search_part (facets_effect r s) = search_part s" "searches (facets_effect r s) = searches s"
  by (auto simp: facets_effect_def fetchFacets_def search_part_def searches_def Let_def)

lemma frame_analytics [console_frame]:
  "search_part (analytics_effect r s) = search_part s" "searches (analytics_effect r s) = searches s"
  by (auto simp: analytics_effect_def fetchAnalytics_def search_part_def searches_def Let_def)

lemma frame_late_effects [console_frame]:
  "search_part (clamp_effect r s) = search_part s" "searches (clamp_effect r s) = searches s"
  "search_part (frozen_effect r s) = search_part s" "searches (frozen_effect r s) = searches s"
  "search_part (focus_effect r s) = search_part s" "searches (focus_effect r s) = searches s"
  by (simp_all add: clamp_effect_def frozen_effect_def focus_effect_def search_part_def searches_def)

text \<open>The two effects that touch them.\<close>

lemma tasks_effect_part:
  "search_part (tasks_effect r s) =
     (cn_tasks s, cn_tasksSeq s + (if changed r fetch_deps \<and> \<not> jobResultsMode r then 1 else 0), cn_deps s, cn_filterMounted s)"
  "searches (tasks_effect r s) =
     searches s \<union> (if changed r fetch_deps \<and> \<not> jobResultsMode r then {(cn_tasksSeq s + 1, search_call_of r)} else {})"
  by (auto simp: tasks_effect_def fetchTasks_def tasks_closure_def search_part_def searches_def Let_def)

lemma filter_effect_part:
  "search_part (filter_effect r s) =
     (if changed r (\<lambda>d. filterKey (dp_view d)) then ([], cn_tasksSeq s, cn_deps s, True) else search_part s)"
  "searches (filter_effect r s) = searches s"
  by (simp_all add: filter_effect_def search_part_def searches_def)

lemma searches_deps: "searches (s\<lparr>cn_deps := d\<rparr>) = searches s"
  by (simp add: searches_def)

lemma parts_of: "search_part s = (ts, n, d, m) \<longleftrightarrow> cn_tasks s = ts \<and> cn_tasksSeq s = n \<and> cn_deps s = d \<and> cn_filterMounted s = m"
  by (simp add: search_part_def)

lemma render_part:
  "cn_deps (render r) = Some (deps_of r)"
  "cn_tasks (render r) = (if changed r (\<lambda>d. filterKey (dp_view d)) then [] else cn_tasks r)"
  "cn_tasksSeq (render r) = cn_tasksSeq r + (if changed r fetch_deps \<and> \<not> jobResultsMode r then 1 else 0)"
  "cn_filterMounted (render r) = (cn_filterMounted r \<or> changed r (\<lambda>d. filterKey (dp_view d)))"
  "searches (render r) =
     searches r \<union> (if changed r fetch_deps \<and> \<not> jobResultsMode r then {(cn_tasksSeq r + 1, search_call_of r)} else {})"
proof -
  define a where "a = job_fetch_effect r (job_reset_effect r r)"
  define b where "b = facets_effect r (counts_effect r (tasks_effect r a))"
  define c where "c = filter_effect r (analytics_effect r b)"
  have pa: "search_part a = search_part r" "searches a = searches r" by (simp_all add: a_def console_frame)
  have pb: "search_part (analytics_effect r b) = search_part (tasks_effect r a)"
    "searches (analytics_effect r b) = searches (tasks_effect r a)" by (simp_all add: b_def console_frame)
  have render: "render r = (focus_effect r (frozen_effect r (clamp_effect r c)))\<lparr>cn_deps := Some (deps_of r)\<rparr>"
    by (simp add: render_def a_def b_def c_def)
  have pr: "search_part (focus_effect r (frozen_effect r (clamp_effect r c))) = search_part c"
    "searches (focus_effect r (frozen_effect r (clamp_effect r c))) = searches c" by (simp_all add: console_frame)
  have part: "cn_tasks (render r) = cn_tasks c" "cn_tasksSeq (render r) = cn_tasksSeq c"
    "cn_filterMounted (render r) = cn_filterMounted c" "searches (render r) = searches c"
    using pr unfolding render search_part_def by (simp_all add: searches_deps)
  have fb: "cn_tasks (analytics_effect r b) = cn_tasks r"
    "cn_tasksSeq (analytics_effect r b) = cn_tasksSeq r + (if changed r fetch_deps \<and> \<not> jobResultsMode r then 1 else 0)"
    "cn_filterMounted (analytics_effect r b) = cn_filterMounted r"
    using pb(1) tasks_effect_part(1) [of r a] pa(1) by (simp_all add: search_part_def)
  have fc: "cn_tasks c = (if changed r (\<lambda>d. filterKey (dp_view d)) then [] else cn_tasks r)"
    "cn_tasksSeq c = cn_tasksSeq (analytics_effect r b)"
    "cn_filterMounted c = (cn_filterMounted r \<or> changed r (\<lambda>d. filterKey (dp_view d)))"
    using filter_effect_part(1) [of r "analytics_effect r b"] fb by (simp_all add: c_def search_part_def split: if_splits)
  have sc: "searches c = searches r \<union> (if changed r fetch_deps \<and> \<not> jobResultsMode r then {(cn_tasksSeq r + 1, search_call_of r)} else {})"
    using pb(2) tasks_effect_part(2) [of r a] pa by (simp add: c_def filter_effect_part(2) search_part_def)
  show "cn_deps (render r) = Some (deps_of r)" by (simp add: render)
  show "cn_tasks (render r) = (if changed r (\<lambda>d. filterKey (dp_view d)) then [] else cn_tasks r)"
    "cn_tasksSeq (render r) = cn_tasksSeq r + (if changed r fetch_deps \<and> \<not> jobResultsMode r then 1 else 0)"
    "cn_filterMounted (render r) = (cn_filterMounted r \<or> changed r (\<lambda>d. filterKey (dp_view d)))"
    "searches (render r) =
      searches r \<union> (if changed r fetch_deps \<and> \<not> jobResultsMode r then {(cn_tasksSeq r + 1, search_call_of r)} else {})"
    using part fb fc sc by simp_all
qed

text \<open>A filter changed in job-results mode leaves the mode: the parameter goes in the same commit.\<close>

lemma render_leaves_job_mode:
  assumes "jobResultsMode r" "cn_filterMounted r" "changed r (\<lambda>d. filterKey (dp_view d))"
  shows "\<not> jobResultsMode (render r)"
proof -
  have params: "cn_params (focus_effect r (frozen_effect r s)) = cn_params s" for s
    by (simp add: focus_effect_def frozen_effect_def)
  have clamp: "cn_params (clamp_effect r s) = cn_params s" for s using assms(1) by (simp add: clamp_effect_def)
  have mounted: "cn_filterMounted (analytics_effect r (facets_effect r (counts_effect r (tasks_effect r
      (job_fetch_effect r (job_reset_effect r r)))))) = cn_filterMounted r"
    using tasks_effect_part(1) [of r "job_fetch_effect r (job_reset_effect r r)"]
    by (metis (no_types, lifting) frame_analytics(1) frame_counts(3) frame_facets(1) frame_job_fetch(1) frame_job_reset(1)
        parts_of search_part_def)
  have "cn_params (render r) = withScanJob (cn_params r) None"
    using assms(2,3) by (simp add: render_def params clamp filter_effect_def mounted)
  then have "scanJobId (render r) = None"
    by (simp add: scanJobId_def withScanJob_def parseScanJob_def get_param_def get_all_delete)
  then show ?thesis by (simp add: jobResultsMode_def)
qed

subsection \<open>The rows answer the filter\<close>

definition committed :: "tasks_console \<Rightarrow> jstring \<Rightarrow> bool" where
  "committed s k \<longleftrightarrow> (case cn_deps s of None \<Rightarrow> False | Some d \<Rightarrow> filterKey (dp_view d) = k)"

text \<open>Job-results mode has been left and the next render will fetch.\<close>

definition refetch_due :: "tasks_console \<Rightarrow> bool" where
  "refetch_due s \<longleftrightarrow> (case cn_deps s of None \<Rightarrow> False | Some d \<Rightarrow> dp_jobMode d \<and> \<not> jobResultsMode s)"

definition rows_ok :: "(search_call \<Rightarrow> search_tasks_response \<Rightarrow> bool) \<Rightarrow> tasks_console \<Rightarrow> bool" where
  "rows_ok server s \<longleftrightarrow>
     (cn_tasks s = [] \<or> (\<exists>c r. server c r \<and> str_tasks r = cn_tasks s \<and> committed s (call_key c))) \<and>
     (\<forall>n c. (n, c) \<in> searches s \<longrightarrow>
        n \<le> cn_tasksSeq s \<and> (n = cn_tasksSeq s \<longrightarrow> committed s (call_key c) \<or> refetch_due s)) \<and>
     (cn_deps s = None \<longrightarrow> searches s = {} \<and> cn_job s = None) \<and>
     (cn_deps s \<noteq> None \<longrightarrow> cn_filterMounted s)"

lemma call_key_of_search: "call_key (search_call_of s) = filterKey (view_of s)"
  by (simp add: call_key_def search_call_of_def filter_of_def filterKey_def)

lemma stable_committed: "stable s \<Longrightarrow> committed s k \<longleftrightarrow> filterKey (view_of s) = k"
  by (simp add: stable_def committed_def deps_of_def)

lemma stable_not_due: "stable s \<Longrightarrow> \<not> refetch_due s"
  by (simp add: stable_def refetch_due_def deps_of_def)

lemma committed_part: "search_part s' = search_part s \<Longrightarrow> committed s' = committed s"
  by (auto simp: fun_eq_iff committed_def search_part_def)

text \<open>A change of the filter is a change of what the fetch depends on.\<close>

lemma key_change_refetches: "changed r (\<lambda>d. filterKey (dp_view d)) \<Longrightarrow> changed r fetch_deps"
  by (auto simp: changed_def filterKey_def fetch_deps_def split: option.splits)

lemma rows_ok_render:
  assumes "rows_ok server r"
  shows "rows_ok server (render r)"
proof -
  let ?k = "changed r (\<lambda>d. filterKey (dp_view d))" and ?f = "changed r fetch_deps \<and> \<not> jobResultsMode r"
  have com: "committed (render r) k \<longleftrightarrow> filterKey (view_of r) = k" for k
    by (simp add: committed_def render_part deps_of_def)
  have same: "committed r k \<Longrightarrow> committed (render r) k" if "\<not> ?k" for k
    using that unfolding com by (auto simp: committed_def changed_def deps_of_def split: option.splits)
  have none: "\<not> jobResultsMode r" if "cn_deps r = None"
    using assms that by (simp add: rows_ok_def jobResultsMode_def)
  have due: "refetch_due (render r)" if "jobResultsMode r" ?k
  proof -
    have "cn_filterMounted r" using assms none that(1) by (auto simp: rows_ok_def)
    from render_leaves_job_mode [OF that(1) this that(2)] that(1) show ?thesis
      by (simp add: refetch_due_def render_part deps_of_def)
  qed
  have undue: "\<not> refetch_due r" if "\<not> ?f"
  proof
    assume "refetch_due r"
    then obtain d where d: "cn_deps r = Some d" "dp_jobMode d" "\<not> jobResultsMode r"
      by (auto simp: refetch_due_def split: option.splits)
    then have "fetch_deps d \<noteq> fetch_deps (deps_of r)" by (simp add: fetch_deps_def deps_of_def)
    then have "changed r fetch_deps" using d(1) by (simp add: changed_def)
    with that d(3) show False by blast
  qed
  have old: "committed (render r) (call_key c) \<or> refetch_due (render r)"
    if "(n, c) \<in> searches r" "n = cn_tasksSeq r" "\<not> ?f" for n c
  proof (cases ?k)
    case True
    then show ?thesis using key_change_refetches that(3) due by blast
  next
    case False
    then show ?thesis using assms that undue same unfolding rows_ok_def by blast
  qed
  have le: "n \<le> cn_tasksSeq r" if "(n, c) \<in> searches r" for n c using assms that unfolding rows_ok_def by blast
  have "n \<le> cn_tasksSeq (render r) \<and>
      (n = cn_tasksSeq (render r) \<longrightarrow> committed (render r) (call_key c) \<or> refetch_due (render r))"
    if m: "(n, c) \<in> searches (render r)" for n c
  proof (cases ?f)
    case True
    then have seq: "cn_tasksSeq (render r) = cn_tasksSeq r + 1" by (simp add: render_part)
    from m True consider "(n, c) \<in> searches r" | "n = cn_tasksSeq r + 1" "c = search_call_of r"
      by (auto simp: render_part)
    then show ?thesis
    proof cases
      case 1
      from le [OF this] show ?thesis unfolding seq by simp
    next
      case 2
      then show ?thesis unfolding seq by (simp add: com call_key_of_search)
    qed
  next
    case False
    then have seq: "cn_tasksSeq (render r) = cn_tasksSeq r" and s: "(n, c) \<in> searches r"
      using m by (auto simp: render_part)
    show ?thesis unfolding seq using le [OF s] old [OF s _ False] by blast
  qed
  moreover have "cn_tasks (render r) = [] \<or> (\<exists>c q. server c q \<and> str_tasks q = cn_tasks (render r) \<and> committed (render r) (call_key c))"
  proof (cases ?k)
    case False
    then have "cn_tasks (render r) = cn_tasks r" by (simp add: render_part)
    then show ?thesis using assms same [OF False] unfolding rows_ok_def by metis
  qed (simp add: render_part)
  moreover have "cn_filterMounted (render r)"
    using assms by (cases "cn_deps r") (auto simp: render_part rows_ok_def changed_def)
  ultimately show ?thesis unfolding rows_ok_def by (simp add: render_part(1))
qed

text \<open>A step of a stable state that leaves the rows alone and adds no search.\<close>

lemma rows_ok_frame:
  assumes "rows_ok server s" "stable s" "search_part s' = search_part s" "searches s' \<subseteq> searches s"
  shows "rows_ok server s'"
proof -
  have com: "committed s' = committed s" by (rule committed_part [OF assms(3)])
  have eq: "cn_tasks s' = cn_tasks s" "cn_tasksSeq s' = cn_tasksSeq s" "cn_deps s' = cn_deps s" "cn_filterMounted s' = cn_filterMounted s"
    using assms(3) by (simp_all add: search_part_def)
  show ?thesis using assms(1,4) stable_not_due [OF assms(2)] assms(2)
    unfolding rows_ok_def com eq by (auto simp: stable_def)
qed

lemma rows_ok_fetch:
  assumes "rows_ok server s" "committed s (call_key c)"
  shows "rows_ok server (fetchTasks (Some c) s)"
proof -
  have searches: "searches (fetchTasks (Some c) s) = insert (cn_tasksSeq s + 1, c) (searches s)"
    by (auto simp: fetchTasks_def searches_def Let_def)
  have com: "committed (fetchTasks (Some c) s) k = committed s k" for k by (simp add: fetchTasks_def committed_def Let_def)
  have eq: "cn_tasks (fetchTasks (Some c) s) = cn_tasks s" "cn_tasksSeq (fetchTasks (Some c) s) = cn_tasksSeq s + 1"
    "cn_deps (fetchTasks (Some c) s) = cn_deps s" "cn_filterMounted (fetchTasks (Some c) s) = cn_filterMounted s"
    by (simp_all add: fetchTasks_def Let_def)
  have deps: "cn_deps s \<noteq> None" using assms(2) by (cases "cn_deps s") (simp_all add: committed_def)
  have "m \<le> cn_tasksSeq s + 1 \<and> (m = cn_tasksSeq s + 1 \<longrightarrow> committed s (call_key d))"
    if "(m, d) \<in> insert (cn_tasksSeq s + 1, c) (searches s)" for m d
  proof (cases "(m, d) \<in> searches s")
    case True
    with assms(1) have "m \<le> cn_tasksSeq s" unfolding rows_ok_def by blast
    then show ?thesis by simp
  qed (use that assms(2) in simp)
  then show ?thesis using assms(1) deps unfolding rows_ok_def searches com eq by blast
qed

lemma searches_landed: "searches (landed f s) \<subseteq> searches s" "search_part (landed f s) = search_part s"
  by (auto simp: searches_def landed_def search_part_def dest: notin_set_remove1 in_set_remove1 [THEN iffD1, rotated]
      set_remove1_subset [THEN subsetD])

lemma searches_flights: "cn_flights s' = cn_flights s \<Longrightarrow> searches s' = searches s"
  by (simp add: searches_def)

lemma rows_ok_found:
  assumes "rows_ok server s" "stable s" "SearchFlight n c \<in> set (cn_flights s)" "server c r"
  shows "rows_ok server (search_answered n c (Inr r) (landed (SearchFlight n c) s))"
proof (cases "n = cn_tasksSeq s")
  case False
  then have "search_answered n c (Inr r) (landed (SearchFlight n c) s) = landed (SearchFlight n c) s"
    by (simp add: search_answered_def landed_def)
  then show ?thesis using rows_ok_frame [OF assms(1,2)] searches_landed by metis
next
  case True
  let ?s' = "search_answered n c (Inr r) (landed (SearchFlight n c) s)"
  have "(n, c) \<in> searches s" using assms(3) by (simp add: searches_def)
  then have key: "committed s (call_key c)" using assms(1) stable_not_due [OF assms(2)] True unfolding rows_ok_def by blast
  have deps: "cn_deps s \<noteq> None" using assms(2) by (simp add: stable_def)
  have eq: "cn_tasks ?s' = str_tasks r" "cn_tasksSeq ?s' = cn_tasksSeq s" "cn_deps ?s' = cn_deps s"
    "cn_filterMounted ?s' = cn_filterMounted s" "cn_flights ?s' = cn_flights (landed (SearchFlight n c) s)"
    using True by (simp_all add: search_answered_def landed_def Let_def)
  have com: "committed ?s' = committed s" by (simp add: fun_eq_iff committed_def eq)
  have sub: "searches ?s' \<subseteq> searches s" using searches_landed(1) searches_flights [OF eq(5)] by simp
  show ?thesis
    using assms(1,4) key sub deps stable_not_due [OF assms(2)] unfolding rows_ok_def com eq by blast
qed

text \<open>The other steps of a stable state.\<close>

lemma frame_not_found:
  "search_part (search_answered n c (Inl e) s) = search_part s" "searches (search_answered n c (Inl e) s) = searches s"
  by (auto simp: search_answered_def search_part_def searches_def split: option.splits)

lemma frame_answers:
  "search_part (job_answered n ja s) = search_part s" "searches (job_answered n ja s) = searches s"
  "search_part (counts_answered n ca s) = search_part s" "searches (counts_answered n ca s) = searches s"
  "search_part (facets_answered n fa s) = search_part s" "searches (facets_answered n fa s) = searches s"
  "search_part (analytics_answered n aa s) = search_part s" "searches (analytics_answered n aa s) = searches s"
  "search_part (continue_answered xa s) = search_part s" "searches (continue_answered xa s) = searches s"
  "search_part (job_seen j announce s) = search_part s" "searches (job_seen j announce s) = searches s"
  by (simp_all add: job_answered_def counts_answered_def facets_answered_def analytics_answered_def continue_answered_def
      job_seen_def onScanSettled_def search_part_def searches_def Let_def split: sum.split prod.split)

lemma frame_handlers:
  "search_part (continueScan s) = search_part s" "searches (continueScan s) = searches s"
  "search_part (mutation_started clear s) = search_part s" "searches (mutation_started clear s) = searches s"
  "search_part (nextWindow s) = search_part s" "searches (nextWindow s) = searches s"
  "search_part (previousWindow s) = search_part s" "searches (previousWindow s) = searches s"
  "search_part (setJobPage delta s) = search_part s" "searches (setJobPage delta s) = searches s"
  by (simp_all add: continueScan_def mutation_started_def nextWindow_def previousWindow_def setJobPage_def
      search_part_def searches_def Let_def)

lemma frame_updates:
  "search_part (s\<lparr>cn_params := ps, cn_pivotPending := p\<rparr>) = search_part s"
  "searches (s\<lparr>cn_params := ps, cn_pivotPending := p\<rparr>) = searches s"
  "search_part (s\<lparr>cn_rows := rw\<rparr>) = search_part s" "searches (s\<lparr>cn_rows := rw\<rparr>) = searches s"
  "search_part (s\<lparr>cn_hovering := h\<rparr>) = search_part s" "searches (s\<lparr>cn_hovering := h\<rparr>) = searches s"
  "search_part (s\<lparr>cn_frozen := fz\<rparr>) = search_part s" "searches (s\<lparr>cn_frozen := fz\<rparr>) = searches s"
  by (simp_all add: search_part_def searches_def)

lemmas frames = console_frame frame_not_found frame_answers frame_handlers frame_updates

lemma rows_ok_job_results:
  assumes "rows_ok server t"
  shows "rows_ok server (fetchJobResults mr t)"
proof -
  let ?t = "fetchJobResults mr t"
  have eq: "cn_tasks ?t = cn_tasks t" "cn_tasksSeq ?t = cn_tasksSeq t" "cn_deps ?t = cn_deps t"
    "cn_filterMounted ?t = cn_filterMounted t"
    using frame_job_results(1) [of mr t] by (simp_all add: search_part_def)
  have job: "cn_job ?t = cn_job t" "cn_params ?t = cn_params t"
    by (auto simp: fetchJobResults_def Let_def split: option.split)
  then have "jobResultsMode ?t = jobResultsMode t" by (simp add: jobResultsMode_def scanJobId_def)
  then have due: "refetch_due ?t = refetch_due t" by (simp add: refetch_due_def eq split: option.split)
  have com: "committed ?t = committed t" by (rule committed_part [OF frame_job_results(1)])
  show ?thesis using assms unfolding rows_ok_def eq com due job frame_job_results(2) .
qed

lemma rows_ok_mutated:
  assumes "rows_ok server s" "stable s" "\<And>c. mc = Some c \<Longrightarrow> call_key c = filterKey (view_of s)"
  shows "rows_ok server (mutation_settled mc mr clear failed (landed f s))"
proof -
  let ?s1 = "(landed f s)\<lparr>cn_error := (case failed of Some e \<Rightarrow> e | None \<Rightarrow> []),
      cn_rows := (if clear then clearSelection (cn_rows (landed f s)) else cn_rows (landed f s)),
      cn_frozen := applyNextChange (cn_frozen (landed f s))\<rparr>"
  have flights: "cn_flights ?s1 = cn_flights (landed f s)" by simp
  have part: "search_part ?s1 = search_part s" "searches ?s1 \<subseteq> searches s"
    using searches_landed [of f s] searches_flights [OF flights] by (simp_all add: search_part_def)
  have com: "committed ?s1 k = committed s k" for k using committed_part [OF part(1)] by simp
  have ok: "rows_ok server ?s1" by (rule rows_ok_frame [OF assms(1,2) part])
  have "rows_ok server (fetchTasks mc ?s1)"
  proof (cases mc)
    case (Some c)
    then have "committed ?s1 (call_key c)" using assms(2,3) stable_committed by (simp add: com)
    with rows_ok_fetch [OF ok] Some show ?thesis by simp
  qed (simp add: fetchTasks_def ok)
  then have "rows_ok server (fetchJobResults mr (fetchTasks mc ?s1))" by (rule rows_ok_job_results)
  then show ?thesis by (simp only: mutation_settled_def)
qed

lemma rows_ok_landed:
  assumes "rows_ok server s" "stable s" "search_part s' = search_part (landed f s)" "searches s' = searches (landed f s)"
  shows "rows_ok server s'"
  using rows_ok_frame [OF assms(1,2), of s'] searches_landed [of f s] assms(3,4) by simp

lemma rows_ok_same:
  assumes "rows_ok server s" "stable s" "search_part s' = search_part s" "searches s' = searches s"
  shows "rows_ok server s'"
  using rows_ok_frame [OF assms(1-3)] assms(4) by simp

lemma rows_ok_run: "console_run server k s \<Longrightarrow> k \<Longrightarrow> rows_ok server s"
proof (induction rule: console_run.induct)
  case (start ps)
  show ?case by (simp add: rows_ok_def console_init_def searches_def)
next
  case (render k s)
  then show ?case using rows_ok_render by blast
next
  case (tick k s)
  then show ?case
    using rows_ok_fetch [of server s "search_call_of s"] stable_committed [of s] call_key_of_search [of s]
    by (cases "jobResultsMode s") (simp_all add: tasks_closure_def fetchTasks_def)
next
  case (found k s n c r)
  then show ?case using rows_ok_found by blast
next
  case (mutated k s mc mr clear failed)
  then show ?case by (intro rows_ok_mutated) auto
next
  case (not_found k s n c e)
  then show ?case by (intro rows_ok_landed [OF _ _ frame_not_found]) auto
next
  case (job_page k s n i off sz ja)
  then show ?case by (intro rows_ok_landed [OF _ _ frame_answers(1,2)]) auto
next
  case (counts k s n qn ca)
  then show ?case by (intro rows_ok_landed [OF _ _ frame_answers(3,4)]) auto
next
  case (facets k s n tf fa)
  then show ?case by (intro rows_ok_landed [OF _ _ frame_answers(5,6)]) auto
next
  case (analytics k s n tf most aa)
  then show ?case by (intro rows_ok_landed [OF _ _ frame_answers(7,8)]) auto
next
  case (continued k s c xa)
  then show ?case by (intro rows_ok_landed [OF _ _ frame_answers(9,10)]) auto
next
  case (job k s j announce)
  then show ?case by (intro rows_ok_same [OF _ _ frame_answers(11,12)]) auto
qed (simp_all only: rows_ok_same [OF _ _ frame_updates(1,2)] rows_ok_same [OF _ _ frame_updates(3,4)]
    rows_ok_same [OF _ _ frame_updates(5,6)] rows_ok_same [OF _ _ frame_updates(7,8)] rows_ok_same [OF _ _ frame_counts(1,2)]
    rows_ok_same [OF _ _ frame_handlers(1,2)] rows_ok_same [OF _ _ frame_handlers(3,4)]
    rows_ok_same [OF _ _ frame_handlers(5,6)] rows_ok_same [OF _ _ frame_handlers(7,8)]
    rows_ok_same [OF _ _ frame_handlers(9,10)])

end
