(* ===== verification/ConsoleRuns.thy ===== *)
theory ConsoleRuns
  imports TasksConsole
begin

text \<open>
  What the runs of the task console show: the rows answer the filter, and where the view falls short of it.
\<close>

subsection \<open>The rows answer the filter\<close>

text \<open>C34. The rows of the console answer the query above them: whatever the order of clicks, ticks, renders and answers,
  the rows fetched are those of an answer to a search with the filter the URL now names, as long as no
  row action settles under a filter other than the one it was started under.\<close>

theorem console_rows_answer_filter:
  assumes "console_run server True s" "stable s"
  shows "cn_tasks s = [] \<or>
    (\<exists>c r. server c r \<and> str_tasks r = cn_tasks s \<and> call_key c = filterKey (view_of s))"
  using rows_ok_run [OF assms(1)] unfolding rows_ok_def stable_committed [OF assms(2)] by metis

subsection \<open>A run\<close>

definition sample_answer :: "task_info list \<Rightarrow> search_tasks_response" where
  "sample_answer ts =
     \<lparr>str_tasks = ts, str_total = int (length ts), str_scanned = 0, str_truncated = False, str_page = 1, str_size = 20,
      str_mode = None, str_exact = None, str_state = None, str_cursor = None, str_scan_cursor = None,
      str_candidate_estimate = None, str_budget = None, str_pending_since_unknown = None\<rparr>"

definition first_call :: search_call where
  "first_call = search_call_of (console_init [])"

text \<open>The console opened without parameters, after its first render and the next.\<close>

definition opened :: tasks_console where
  "opened = render (console_init [])"

definition settled_open :: tasks_console where
  "settled_open = render opened"

lemma default_view: "parseConsoleState [] = DEFAULT_CONSOLE_STATE"
  by (simp add: parseConsoleState_def console_state_of_def DEFAULT_CONSOLE_STATE_def param_text_def migrated_query_def
      get_param_def number_param_def page_of_def one_of_def RESULT_MODES_def deriveFromQuery_def Let_def getClause_def
      metaClausesOf_def parseAqlClauses_def tokenizeAql_def CONSOLE_STATES_def PAGE_SIZES_def)

lemmas effect_defs =
  job_reset_effect_def job_fetch_effect_def tasks_effect_def counts_effect_def facets_effect_def analytics_effect_def
  filter_effect_def clamp_effect_def frozen_effect_def focus_effect_def fetchTasks_def fetchJobResults_def tasks_closure_def
  results_closure_def fetchCounts_def fetchFacets_def fetchAnalytics_def Let_def

lemmas view_defs =
  jobResultsMode_def scanJobId_def parseScanJob_def get_param_def view_of_def default_view currentCursor_def changed_def
  deps_of_def fetch_deps_def

lemma opened_fields:
  "cn_params opened = []" "cn_job opened = None" "cn_cursorStack opened = []" "cn_deps opened = Some (deps_of (console_init []))"
  "cn_results opened = no_results" "cn_version opened = 2" "cn_filterMounted opened" "cn_loading opened"
  "cn_tasksSeq opened = 1" "SearchFlight 1 first_call \<in> set (cn_flights opened)" "cn_pivotPending opened = False"
  by (simp_all add: opened_def render_def effect_defs view_defs console_init_def first_call_def)

text \<open>A render to which nothing but the rows is new leaves the rest of the state alone.\<close>

lemma render_settles:
  assumes "cn_deps r = Some d" "d\<lparr>dp_version := 0\<rparr> = (deps_of r)\<lparr>dp_version := 0\<rparr>"
    "cn_loading r \<or> cs_page (view_of r) \<le> totalPages r - 1"
  shows "\<exists>fz rw. render r = r\<lparr>cn_frozen := fz, cn_rows := rw, cn_deps := Some (deps_of r)\<rparr>"
proof -
  obtain n where d: "d = (deps_of r)\<lparr>dp_version := n\<rparr>"
    using assms(2) by (cases d; cases "deps_of r") auto
  have same: "\<not> changed r f" if "\<And>e m. f (e\<lparr>dp_version := m\<rparr>) = f e" for f
    using that by (simp add: changed_def assms(1) d)
  have "render r = (focus_effect r (frozen_effect r (clamp_effect r r)))\<lparr>cn_deps := Some (deps_of r)\<rparr>"
    unfolding render_def job_reset_effect_def job_fetch_effect_def tasks_effect_def counts_effect_def facets_effect_def
      analytics_effect_def filter_effect_def by (simp add: same fetch_deps_def)
  moreover have "clamp_effect r r = r" using assms(3) by (auto simp: clamp_effect_def)
  ultimately show ?thesis by (auto simp: focus_effect_def frozen_effect_def)
qed

lemma deps_of_shown: "deps_of (r\<lparr>cn_frozen := fz, cn_rows := rw, cn_deps := d\<rparr>) = deps_of r"
  by (simp add: deps_of_def view_of_def currentCursor_def jobResultsMode_def scanJobId_def)

lemma render_stable:
  assumes "cn_deps r = Some d" "d\<lparr>dp_version := 0\<rparr> = (deps_of r)\<lparr>dp_version := 0\<rparr>"
    "cn_loading r \<or> cs_page (view_of r) \<le> totalPages r - 1"
  shows "stable (render r)" "cn_tasks (render r) = cn_tasks r" "cn_flights (render r) = cn_flights r"
    "deps_of (render r) = deps_of r" "cn_tasksSeq (render r) = cn_tasksSeq r" "cn_meta (render r) = cn_meta r"
    "cn_params (render r) = cn_params r" "cn_loading (render r) = cn_loading r" "cn_pivotPending (render r) = cn_pivotPending r"
    "cn_cursorStack (render r) = cn_cursorStack r" "cn_job (render r) = cn_job r" "cn_results (render r) = cn_results r"
  using render_settles [OF assms] by (auto simp: stable_def deps_of_shown)

lemma opened_stable: "stable settled_open" "cn_flights settled_open = cn_flights opened" "deps_of settled_open = deps_of opened"
    "cn_tasksSeq settled_open = 1" "cn_params settled_open = []" "cn_pivotPending settled_open = False"
    "cn_cursorStack settled_open = []" "cn_job settled_open = None" "cn_results settled_open = no_results"
proof -
  have same: "(deps_of (console_init []))\<lparr>dp_version := 0\<rparr> = (deps_of opened)\<lparr>dp_version := 0\<rparr>"
    by (simp add: deps_of_def view_of_def currentCursor_def jobResultsMode_def scanJobId_def opened_fields console_init_def)
  note settled = render_stable [OF opened_fields(4) same disjI1 [OF opened_fields(8)]]
  show "stable settled_open" "cn_flights settled_open = cn_flights opened" "deps_of settled_open = deps_of opened"
    "cn_tasksSeq settled_open = 1" "cn_params settled_open = []" "cn_pivotPending settled_open = False"
    "cn_cursorStack settled_open = []" "cn_job settled_open = None" "cn_results settled_open = no_results"
    using settled opened_fields by (simp_all add: settled_open_def)
qed

text \<open>The answer lands in a stable state and leaves the dependencies of the fetch alone.\<close>

definition answered_open :: tasks_console where
  "answered_open =
     search_answered 1 first_call (Inr (sample_answer [sample_row ''a'' ''1''])) (landed (SearchFlight 1 first_call) settled_open)"

definition first_rows :: tasks_console where
  "first_rows = render answered_open"

lemma answered_fields:
  "cn_tasks answered_open = [sample_row ''a'' ''1'']" "cn_deps answered_open = cn_deps settled_open"
  "cn_params answered_open = []" "cn_cursorStack answered_open = []" "cn_job answered_open = None"
  "cn_results answered_open = no_results" "cn_total answered_open = 1"
  using opened_stable(4-9) by (simp_all add: answered_open_def search_answered_def landed_def sample_answer_def Let_def)

lemma first_rows_stable: "stable first_rows" "cn_tasks first_rows = [sample_row ''a'' ''1'']"
proof -
  have d: "cn_deps answered_open = Some (deps_of settled_open)"
    using opened_stable(1) by (simp add: answered_fields stable_def)
  have same: "(deps_of settled_open)\<lparr>dp_version := 0\<rparr> = (deps_of answered_open)\<lparr>dp_version := 0\<rparr>"
    by (simp add: deps_of_def view_of_def currentCursor_def jobResultsMode_def scanJobId_def answered_fields opened_stable)
  have page: "cs_page (view_of answered_open) \<le> totalPages answered_open - 1"
    by (simp add: view_of_def answered_fields default_view DEFAULT_CONSOLE_STATE_def totalPages_def)
  note shown = render_stable [OF d same disjI2 [OF page]]
  show "stable first_rows" "cn_tasks first_rows = [sample_row ''a'' ''1'']"
    using shown(1,2) by (simp_all add: first_rows_def answered_fields)
qed

lemma first_rows_run: "console_run (\<lambda>c r. r = sample_answer [sample_row ''a'' ''1'']) True first_rows"
proof -
  let ?server = "\<lambda>c r. r = sample_answer [sample_row ''a'' ''1'']"
  have "console_run ?server True settled_open"
    unfolding settled_open_def opened_def by (intro console_run.render console_run.start)
  then show ?thesis unfolding first_rows_def answered_open_def
    by (intro console_run.render console_run.found opened_stable) (simp_all add: opened_stable opened_fields(10) [unfolded One_nat_def])
qed

lemma console_rows_answer_filter_witness:
  "\<exists>c r. r = sample_answer [sample_row ''a'' ''1''] \<and> str_tasks r = cn_tasks first_rows \<and>
     call_key c = filterKey (view_of first_rows)"
  using console_rows_answer_filter [OF first_rows_run first_rows_stable(1)] by (simp add: first_rows_stable(2))

subsection \<open>Where the view falls short\<close>

text \<open>What a render leaves alone of the last answer and of a continuation.\<close>

definition answer_part :: "tasks_console \<Rightarrow> search_meta \<times> int \<times> bool" where
  "answer_part s = (cn_meta s, cn_total s, cn_continuing s)"

lemma answer_frame:
  "answer_part (job_reset_effect r s) = answer_part s" "answer_part (fetchJobResults cl s) = answer_part s"
  "answer_part (fetchTasks tc s) = answer_part s" "answer_part (counts_effect r s) = answer_part s"
  "answer_part (facets_effect r s) = answer_part s" "answer_part (analytics_effect r s) = answer_part s"
  "answer_part (filter_effect r s) = answer_part s" "answer_part (clamp_effect r s) = answer_part s"
  "answer_part (frozen_effect r s) = answer_part s" "answer_part (focus_effect r s) = answer_part s"
  "answer_part (s\<lparr>cn_deps := d\<rparr>) = answer_part s"
  by (auto simp: effect_defs answer_part_def split: option.split)

lemma answer_frame_effects:
  "answer_part (job_fetch_effect r s) = answer_part s" "answer_part (tasks_effect r s) = answer_part s"
  by (simp_all add: job_fetch_effect_def tasks_effect_def answer_frame)

lemma render_answer: "cn_meta (render r) = cn_meta r" "cn_total (render r) = cn_total r" "cn_continuing (render r) = cn_continuing r"
proof -
  have "answer_part (render r) = answer_part r" by (simp add: render_def answer_frame answer_frame_effects)
  then show "cn_meta (render r) = cn_meta r" "cn_total (render r) = cn_total r" "cn_continuing (render r) = cn_continuing r"
    by (simp_all add: answer_part_def)
qed

lemma render_window: "changed r (\<lambda>d. filterKey (dp_view d)) \<Longrightarrow> cn_extra (render r) = no_window"
proof -
  have "cn_extra (focus_effect r (frozen_effect r (clamp_effect r s))) = cn_extra s" for s
    by (simp add: focus_effect_def frozen_effect_def clamp_effect_def)
  then show "changed r (\<lambda>d. filterKey (dp_view d)) \<Longrightarrow> cn_extra (render r) = no_window"
    by (simp add: render_def filter_effect_def)
qed

text \<open>
  A continued scan that answers after the filter has changed is appended all the same: its rows stand under
  the new filter, and the next continuation takes up the old scan's cursor.
\<close>

lemma late_continuation_mixes_filters:
  assumes "changed r (\<lambda>d. filterKey (dp_view d))"
  shows "xw_tasks (cn_extra (continue_answered (Inr a) (landed f (render r)))) = str_tasks a \<and>
    xw_cursor (cn_extra (continue_answered (Inr a) (landed f (render r)))) =
      Some (case str_scan_cursor a of Some c \<Rightarrow> c | None \<Rightarrow> [])"
  using render_window [OF assms] by (simp add: continue_answered_def landed_def no_window_def)

text \<open>
  A change of the filter clears the rows but neither the total nor the scan cursor of the last answer. Until
  the next answer the whole-scope bar offers the old total under the new filter, and Continue sends the
  old cursor with the new query.
\<close>

lemma stale_cursor_meets_new_filter:
  assumes "changed r (\<lambda>d. filterKey (dp_view d))" "\<not> cn_continuing r"
    and "sm_mode (cn_meta r) = js ''scan''" "sm_scanCursor (cn_meta r) \<noteq> []"
  shows "cn_tasks (render r) = [] \<and> cn_total (render r) = cn_total r \<and> scanPartial (render r) \<and>
    ContinueFlight (filter_of (view_of (render r)),
       \<lparr>sp_page = None, sp_size = Some (cs_size (view_of (render r))), sp_maxScan = None, sp_cursor = None,
        sp_scanCursor = Some (sm_scanCursor (cn_meta r))\<rparr>) \<in> set (cn_flights (continueScan (render r)))"
proof -
  have cursor: "effectiveScanCursor (render r) = sm_scanCursor (cn_meta r)"
    by (simp add: effectiveScanCursor_def render_window [OF assms(1)] no_window_def render_answer)
  then show ?thesis using assms render_part(2) [of r] by (simp add: scanPartial_def render_answer continueScan_def)
qed

text \<open>
  A page is compared with the pages of the last answer even when it belongs to another filter: going back to
  a page of a longer listing lands on the last page the shorter one had.
\<close>

lemma clamp_uses_old_total:
  assumes "\<not> cn_loading r" "\<not> isCursorMode r" "\<not> jobResultsMode r" "cs_page (view_of r) > totalPages r - 1"
  shows "cn_params (render r) = serializeConsoleState ((view_of r)\<lparr>cs_page := totalPages r - 1\<rparr>) (cn_params r)"
proof -
  have "cn_params (focus_effect r (frozen_effect r s)) = cn_params s" for s
    by (simp add: focus_effect_def frozen_effect_def)
  then show ?thesis using assms by (simp add: render_def clamp_effect_def)
qed

text \<open>
  When a row action settles, the closures of the render it was started in fetch again. If the filter has
  changed since, the fetch of the old filter becomes the newest: the answer to the new filter is thrown
  away and the rows of the old one are shown.
\<close>

lemma stale_action_shows_old_filter:
  assumes "s' = mutation_settled (Some c) None clear failed s"
  shows "search_answered (cn_tasksSeq s) d (Inr a) s' = s' \<and>
    SearchFlight (cn_tasksSeq s') c \<in> set (cn_flights s') \<and>
    cn_tasks (search_answered (cn_tasksSeq s') c (Inr b) s') = str_tasks b"
  by (simp add: assms mutation_settled_def fetchTasks_def fetchJobResults_def search_answered_def Let_def)

lemma frozen_frame:
  "cn_frozen (job_reset_effect r s) = cn_frozen s" "cn_frozen (fetchJobResults cl s) = cn_frozen s"
  "cn_frozen (fetchTasks tc s) = cn_frozen s" "cn_frozen (counts_effect r s) = cn_frozen s"
  "cn_frozen (facets_effect r s) = cn_frozen s" "cn_frozen (analytics_effect r s) = cn_frozen s"
  "cn_frozen (filter_effect r s) = cn_frozen s" "cn_frozen (clamp_effect r s) = cn_frozen s"
  by (auto simp: effect_defs split: option.split)

lemma frozen_frame_effects:
  "cn_frozen (job_fetch_effect r s) = cn_frozen s" "cn_frozen (tasks_effect r s) = cn_frozen s"
  by (simp_all add: job_fetch_effect_def tasks_effect_def frozen_frame)

text \<open>
  While a row is selected, hovered or open, the table keeps its rows across a change of the page: the key
  that resets it names the filter but not the page.
\<close>

lemma page_change_stays_frozen:
  assumes "fh_resetKey (cn_frozen r) = filterKey (view_of r)" "fh_frozenDep (cn_frozen r)" "frozen_now r"
    and "fz_frozen (fh_state (cn_frozen r))" "\<not> fh_flushNext (cn_frozen r)"
  shows "shown_rows (render r) = shown_rows r"
proof -
  have "cn_frozen (render r) = frozen_render renderedRowsEqual (visible_of r) (changed r (\<lambda>d. (dp_version d, dp_jobMode d)))
      (frozen_now r) (filterKey (view_of r)) (cn_frozen r)"
    by (simp add: render_def focus_effect_def frozen_effect_def frozen_frame frozen_frame_effects)
  then show ?thesis
    using assms by (simp add: shown_rows_def frozen_render_def reset_effect_def freeze_effect_def live_effect_def Let_def)
qed

end
