(* ===== verification/BulkModal.thy ===== *)
theory BulkModal
  imports JobsFeed Endpoints
begin

text \<open>
  The dialog of a bulk job (\<open>src/ui/src/components/BulkJobModal.tsx\<close>): a preview job is created when it opens, its counts
  stream in, and the gate decides when the job may be executed. A step is one callback: an edit, a click,
  an answer or an observation of the job. The dialog is mounted when it opens and unmounted when it
  closes; an answer that comes later still runs the rest of its callback, but changes no state.

  The sample and the failures of a job are not shown here and are left out.
\<close>

subsection \<open>State\<close>

text \<open>The promise of \<open>createPreview\<close>: waiting for the new job, then for its details.\<close>

datatype preview_wait = WaitCreate create_job_body | WaitDetail jstring

text \<open>
  \<open>bm_jobId\<close> is the state and the ref of the same name, set together; \<open>bm_started\<close> likewise. \<open>bm_cancels\<close> and
  \<open>bm_accepted\<close> log the jobs a cancel was sent for and the executions the server accepted.
\<close>

record bulk_modal =
  bm_open :: bool
  bm_verb :: job_verb
  bm_scope :: job_scope
  bm_job :: "job_info option"
  bm_reason :: jstring
  bm_throttle :: int
  bm_typedConfirm :: jstring
  bm_proceedOnPartial :: bool
  bm_error :: jstring
  bm_busy :: bool
  bm_started :: bool
  bm_jobId :: "jstring option"
  bm_tracker :: tracker
  bm_preview :: "preview_wait option"
  bm_executes :: "(jstring \<times> execute_job_body) list"
  bm_cancels :: "jstring list"
  bm_accepted :: "jstring list"

subsection \<open>Opening\<close>

definition preview_body :: "job_verb \<Rightarrow> job_scope \<Rightarrow> create_job_body" where
  "preview_body verb scope =
     \<lparr>cj_verb = verb, cj_scope = scope, cj_reason = js ''(preview only'' @ dash @ js ''not yet confirmed)'',
      cj_throttle = Some DEFAULT_THROTTLE\<rparr>"

definition modal_open :: "job_verb \<Rightarrow> job_scope \<Rightarrow> bulk_modal" where
  "modal_open verb scope =
     \<lparr>bm_open = True, bm_verb = verb, bm_scope = scope, bm_job = None, bm_reason = [], bm_throttle = DEFAULT_THROTTLE,
      bm_typedConfirm = [], bm_proceedOnPartial = False, bm_error = [], bm_busy = False, bm_started = False,
      bm_jobId = None, bm_tracker = tracker_init, bm_preview = Some (WaitCreate (preview_body verb scope)),
      bm_executes = [], bm_cancels = [], bm_accepted = []\<rparr>"

text \<open>\<open>createPreview\<close> after each of its two requests. Once the dialog is gone only the second request is still made.\<close>

definition preview_created :: "job_info \<Rightarrow> bulk_modal \<Rightarrow> bulk_modal" where
  "preview_created j s =
     (let s = s\<lparr>bm_preview := Some (WaitDetail (ji_id j))\<rparr>
      in if bm_open s then s\<lparr>bm_jobId := Some (ji_id j), bm_tracker := tracker_init\<rparr> else s)"

definition preview_detailed :: "job_info \<Rightarrow> bulk_modal \<Rightarrow> bulk_modal" where
  "preview_detailed d s =
     (let s = s\<lparr>bm_preview := None\<rparr> in if bm_open s then s\<lparr>bm_job := Some d\<rparr> else s)"

definition preview_failed :: "jstring \<Rightarrow> bulk_modal \<Rightarrow> bulk_modal" where
  "preview_failed e s =
     (let s = s\<lparr>bm_preview := None\<rparr> in if bm_open s then s\<lparr>bm_error := e\<rparr> else s)"

subsection \<open>The job as it goes on\<close>

text \<open>
  An observation of \<open>useJobProgress\<close>. The effect on \<open>liveJob\<close> runs when the tracker took the observation over:
  an unfinished frame of a finished job leaves it alone.
\<close>

definition live_seen :: "job_info \<Rightarrow> bulk_modal \<Rightarrow> bulk_modal" where
  "live_seen j s =
     (let stale = (case tk_job (bm_tracker s) of
            Some prev \<Rightarrow> isTerminalJobState (ji_state prev) \<and> \<not> isTerminalJobState (ji_state j)
          | None \<Rightarrow> False)
      in s\<lparr>bm_tracker := observe (\<lambda>j. isTerminalJobState (ji_state j)) (bm_tracker s) j,
           bm_job := (if stale then bm_job s else Some j)\<rparr>)"

text \<open>The toast of \<open>onSettled\<close>: the outcome of an execution, nothing for a preview that was canceled.\<close>

definition onSettled :: "(int \<Rightarrow> jstring) \<Rightarrow> jstring \<Rightarrow> job_info \<Rightarrow> (bool \<times> jstring) option" where
  "onSettled locale_string verb j =
     (if ji_phase j \<noteq> PExecute then None
      else if ji_state j = JobDone
      then Some (True, js ''Bulk '' @ verb @ js '' complete'' @ dash @ locale_string (jc_acted (ji_counts j)) @ js '' acted, '' @
        locale_string (jc_skipped (ji_counts j)) @ js '' skipped, '' @ locale_string (jc_failed (ji_counts j)) @ js '' failed'')
      else if ji_state j = JobFailed
      then Some (False, js ''Bulk '' @ verb @ js '' failed'' @ (if ji_error j \<noteq> [] then dash @ ji_error j else []))
      else None)"

subsection \<open>The gate\<close>

definition counts_of :: "bulk_modal \<Rightarrow> job_counts" where
  "counts_of s = (case bm_job s of
     Some j \<Rightarrow> ji_counts j
   | None \<Rightarrow> \<lparr>jc_candidates = 0, jc_acted = 0, jc_skipped = 0, jc_failed = 0, jc_scanned = 0\<rparr>)"

definition previewComplete :: "bulk_modal \<Rightarrow> bool" where
  "previewComplete s = (case bm_job s of Some j \<Rightarrow> ji_preview_complete j | None \<Rightarrow> False)"

definition isListRemoval :: "bulk_modal \<Rightarrow> bool" where
  "isListRemoval s = (case bm_job s of Some j \<Rightarrow> ji_cost_class j = ListRemoval | None \<Rightarrow> False)"

definition confirmPhrase :: "bulk_modal \<Rightarrow> jstring option" where
  "confirmPhrase s =
     (if previewComplete s then typedConfirmPhrase (bm_verb s) (jc_candidates (counts_of s)) else None)"

definition gate_of :: "bulk_modal \<Rightarrow> gate_result" where
  "gate_of s =
     gateExecute
       \<lparr>gi_verb = bm_verb s, gi_previewComplete = previewComplete s, gi_candidates = jc_candidates (counts_of s),
        gi_reason = bm_reason s, gi_typedConfirm = bm_typedConfirm s, gi_proceedOnPartial = bm_proceedOnPartial s\<rparr>"

subsection \<open>Executing and closing\<close>

definition handleExecute :: "bulk_modal \<Rightarrow> bulk_modal" where
  "handleExecute s = (case bm_jobId s of
     None \<Rightarrow> s
   | Some i \<Rightarrow>
       if \<not> gr_ok (gate_of s) \<or> bm_busy s then s
       else s\<lparr>bm_busy := True, bm_error := [],
              bm_executes := bm_executes s @
                [(i, \<lparr>ej_proceed_on_partial = Some (bm_proceedOnPartial s), ej_throttle = Some (bm_throttle s),
                      ej_reason = Some (bm_reason s)\<rparr>)]\<rparr>)"

definition execute_accepted :: "jstring \<times> execute_job_body \<Rightarrow> bulk_modal \<Rightarrow> bulk_modal" where
  "execute_accepted x s =
     (let s = s\<lparr>bm_executes := remove1 x (bm_executes s), bm_accepted := bm_accepted s @ [fst x]\<rparr>
      in if bm_open s then s\<lparr>bm_started := True, bm_busy := False\<rparr> else s)"

definition execute_failed :: "jstring \<times> execute_job_body \<Rightarrow> jstring \<Rightarrow> bulk_modal \<Rightarrow> bulk_modal" where
  "execute_failed x e s =
     (let s = s\<lparr>bm_executes := remove1 x (bm_executes s)\<rparr>
      in if bm_open s then s\<lparr>bm_error := e, bm_busy := False\<rparr> else s)"

definition handleClose :: "bulk_modal \<Rightarrow> bulk_modal" where
  "handleClose s =
     s\<lparr>bm_open := False,
       bm_cancels := (case bm_jobId s of
          Some i \<Rightarrow> if bm_started s then bm_cancels s else bm_cancels s @ [i]
        | None \<Rightarrow> bm_cancels s)\<rparr>"

subsection \<open>Texts\<close>

text \<open>The meter of the preview, the meter of the execution and the width of its bar in percent.\<close>

definition preview_text :: "(int \<Rightarrow> jstring) \<Rightarrow> bulk_modal \<Rightarrow> jstring" where
  "preview_text locale_string s =
     (if bm_job s = None then js ''starting preview'' @ [8230]
      else if previewComplete s then locale_string (jc_candidates (counts_of s)) @ js '' tasks'' @ dash @ js ''exact''
      else [8805] @ locale_string (jc_candidates (counts_of s)) @ js '' and counting'' @ [8230])"

definition job_state_name :: "job_state \<Rightarrow> jstring" where
  "job_state_name st = (case st of
     Previewing \<Rightarrow> js ''previewing'' | PreviewReady \<Rightarrow> js ''preview_ready'' | Running \<Rightarrow> js ''running'' | Paused \<Rightarrow> js ''paused''
   | Canceled \<Rightarrow> js ''canceled'' | JobDone \<Rightarrow> js ''done'' | JobFailed \<Rightarrow> js ''failed'')"

definition finished :: "bulk_modal \<Rightarrow> bool" where
  "finished s = (case bm_job s of Some j \<Rightarrow> isTerminalJobState (ji_state j) | None \<Rightarrow> False)"

definition execEta :: "bulk_modal \<Rightarrow> number option" where
  "execEta s = (case bm_job s of
     Some j \<Rightarrow>
       if isTerminalJobState (ji_state j) then None
       else executeEtaSeconds (counts_of s) (if ji_throttle j \<noteq> 0 then ji_throttle j else bm_throttle s)
   | None \<Rightarrow> None)"

definition execute_text :: "(int \<Rightarrow> jstring) \<Rightarrow> bulk_modal \<Rightarrow> jstring" where
  "execute_text locale_string s =
     (let c = counts_of s; execDone = jc_acted c + jc_skipped c + jc_failed c in
      case bm_job s of
        Some j \<Rightarrow>
          if isTerminalJobState (ji_state j)
          then job_state_name (ji_state j) @ dash @ locale_string (jc_acted c) @ js '' acted, '' @
            locale_string (jc_skipped c) @ js '' skipped, '' @ locale_string (jc_failed c) @ js '' failed''
          else locale_string execDone @ js '' of '' @ locale_string (jc_candidates c) @
            (if ji_state j = Paused then [32, 183] @ js '' paused'' else []) @
            (case execEta s of Some (Finite x) \<Rightarrow> [32, 183] @ js '' ETA '' @ fmtEta x | _ \<Rightarrow> [])
      | None \<Rightarrow> locale_string execDone @ js '' of '' @ locale_string (jc_candidates c))"

definition bar_width :: "bulk_modal \<Rightarrow> int option" where
  "bar_width s =
     (if finished s then Some 100
      else (case jobProgress (counts_of s) of
          None \<Rightarrow> Some 0 | Some (Finite x) \<Rightarrow> Some (math_round (dbl (x * 100))) | _ \<Rightarrow> None))"

subsection \<open>Runs\<close>

text \<open>
  The runs of a dialog opened for \<open>v\<close> and \<open>sc\<close>, with what the server may answer to the creation of a job. The
  server answers a request for a job with that job, and the stream is asked for it by its id. The flag
  is whether the parent still passes the verb the dialog was opened with; the scope it passes may change. The button is there until the
  execution has started; \<open>leave\<close> is an unmount that does not go through the dialog's own buttons.
\<close>

inductive modal_run :: "(create_job_body \<Rightarrow> job_info \<Rightarrow> bool) \<Rightarrow> job_verb \<Rightarrow> job_scope \<Rightarrow> bool \<Rightarrow> bulk_modal \<Rightarrow> bool" for server v sc where
  opened: "modal_run server v sc True (modal_open v sc)"
| props: "modal_run server v sc k s \<Longrightarrow> bm_open s \<Longrightarrow>
    modal_run server v sc (k \<and> v' = v) (s\<lparr>bm_verb := v', bm_scope := sc'\<rparr>)"
| created: "modal_run server v sc k s \<Longrightarrow> bm_preview s = Some (WaitCreate body) \<Longrightarrow> server body j \<Longrightarrow>
    modal_run server v sc k (preview_created j s)"
| detailed: "modal_run server v sc k s \<Longrightarrow> bm_preview s = Some (WaitDetail i) \<Longrightarrow> ji_id d = i \<Longrightarrow>
    modal_run server v sc k (preview_detailed d s)"
| refused: "modal_run server v sc k s \<Longrightarrow> bm_preview s \<noteq> None \<Longrightarrow> modal_run server v sc k (preview_failed e s)"
| live: "modal_run server v sc k s \<Longrightarrow> bm_open s \<Longrightarrow> bm_jobId s = Some (ji_id j) \<Longrightarrow> modal_run server v sc k (live_seen j s)"
| reason: "modal_run server v sc k s \<Longrightarrow> bm_open s \<Longrightarrow> modal_run server v sc k (s\<lparr>bm_reason := r\<rparr>)"
| throttle: "modal_run server v sc k s \<Longrightarrow> bm_open s \<Longrightarrow> t \<in> set THROTTLE_OPTIONS \<Longrightarrow>
    modal_run server v sc k (s\<lparr>bm_throttle := t\<rparr>)"
| typed: "modal_run server v sc k s \<Longrightarrow> bm_open s \<Longrightarrow> modal_run server v sc k (s\<lparr>bm_typedConfirm := c\<rparr>)"
| partial: "modal_run server v sc k s \<Longrightarrow> bm_open s \<Longrightarrow> modal_run server v sc k (s\<lparr>bm_proceedOnPartial := p\<rparr>)"
| execute: "modal_run server v sc k s \<Longrightarrow> bm_open s \<Longrightarrow> \<not> bm_started s \<Longrightarrow> modal_run server v sc k (handleExecute s)"
| accepted: "modal_run server v sc k s \<Longrightarrow> x \<in> set (bm_executes s) \<Longrightarrow> modal_run server v sc k (execute_accepted x s)"
| rejected: "modal_run server v sc k s \<Longrightarrow> x \<in> set (bm_executes s) \<Longrightarrow> modal_run server v sc k (execute_failed x e s)"
| closed: "modal_run server v sc k s \<Longrightarrow> bm_open s \<Longrightarrow> modal_run server v sc k (handleClose s)"
| leave: "modal_run server v sc k s \<Longrightarrow> bm_open s \<Longrightarrow> modal_run server v sc k (s\<lparr>bm_open := False\<rparr>)"

subsection \<open>What is executed was confirmed\<close>

definition modal_ok :: "(create_job_body \<Rightarrow> job_info \<Rightarrow> bool) \<Rightarrow> job_verb \<Rightarrow> job_scope \<Rightarrow> bool \<Rightarrow> bulk_modal \<Rightarrow> bool" where
  "modal_ok server v sc k s \<longleftrightarrow>
     (k \<longrightarrow> bm_verb s = v) \<and>
     (\<forall>i. bm_jobId s = Some i \<longrightarrow> (\<exists>j. server (preview_body v sc) j \<and> ji_id j = i)) \<and>
     (\<forall>d. bm_job s = Some d \<longrightarrow> bm_jobId s = Some (ji_id d)) \<and>
     (\<forall>body. bm_preview s = Some (WaitCreate body) \<longrightarrow> body = preview_body v sc \<and> bm_jobId s = None) \<and>
     (\<forall>i. bm_preview s = Some (WaitDetail i) \<longrightarrow> bm_open s \<longrightarrow> bm_jobId s = Some i)"

definition handed_over :: "bulk_modal \<Rightarrow> bool" where
  "handed_over s \<longleftrightarrow>
     bm_throttle s \<in> set THROTTLE_OPTIONS \<and>
     (bm_open s \<longrightarrow> length (bm_executes s) = (if bm_busy s then 1 else 0) \<and> (bm_started s \<longrightarrow> \<not> bm_busy s) \<and>
        length (bm_accepted s) = (if bm_started s then 1 else 0) \<and> bm_cancels s = []) \<and>
     length (bm_executes s) + length (bm_accepted s) \<le> 1"

lemmas modal_steps =
  modal_open_def preview_created_def preview_detailed_def preview_failed_def live_seen_def handleExecute_def
  execute_accepted_def execute_failed_def handleClose_def Let_def

lemma modal_ok_run: "modal_run server v sc k s \<Longrightarrow> modal_ok server v sc k s"
proof (induction rule: modal_run.induct)
  case (created k s body j)
  then show ?case by (auto simp: modal_ok_def preview_created_def Let_def)
next
  case (live k s j)
  then show ?case by (auto simp: modal_ok_def live_seen_def Let_def)
qed (auto simp: modal_ok_def modal_steps split: option.splits if_splits)

lemma handed_over_run: "modal_run server v sc k s \<Longrightarrow> handed_over s"
proof (induction rule: modal_run.induct)
  case (accepted k s x)
  then have "length (remove1 x (bm_executes s)) + 1 = length (bm_executes s)"
    by (simp add: length_remove1) (metis Suc_pred length_pos_if_in_set)
  moreover have "length (bm_executes s) + length (bm_accepted s) \<le> 1" using accepted.IH by (simp add: handed_over_def)
  ultimately have "length (remove1 x (bm_executes s)) = 0" "length (bm_accepted s) = 0" by linarith+
  with accepted.IH show ?case by (auto simp: handed_over_def execute_accepted_def Let_def)
next
  case (rejected k s x e)
  then have "length (remove1 x (bm_executes s)) + 1 = length (bm_executes s)"
    by (simp add: length_remove1) (metis Suc_pred length_pos_if_in_set)
  with rejected.IH show ?case by (auto simp: handed_over_def execute_failed_def Let_def split: if_splits)
next
  case opened
  show ?case by (simp add: handed_over_def modal_open_def DEFAULT_THROTTLE_def THROTTLE_OPTIONS_def)
qed (auto simp: handed_over_def modal_steps split: option.splits if_splits)

text \<open>C15. A bulk job is executed only as confirmed. In every run in which the parent keeps the verb it opened the dialog for
  (it may change the scope it shows): a click on the button sends one request, for the job this dialog created
  when it was opened, for the verb and scope it was opened with, with a reason and an offered throttle, while
  no other request is out, none was accepted and the job was not canceled; a delete only when the preview of
  that very job was complete, and of more than a thousand tasks only with the phrase naming the exact count.\<close>

theorem bulk_execute_is_confirmed:
  assumes "modal_run server v sc True s" "bm_open s" "\<not> bm_started s" "handleExecute s \<noteq> s"
  shows "(\<exists>i j. server (preview_body v sc) j \<and> ji_id j = i \<and>
      bm_executes (handleExecute s) =
        [(i, \<lparr>ej_proceed_on_partial = Some (bm_proceedOnPartial s), ej_throttle = Some (bm_throttle s), ej_reason = Some (bm_reason s)\<rparr>)] \<and>
      (v = VDelete \<longrightarrow> (\<exists>d. bm_job s = Some d \<and> ji_id d = i \<and> ji_preview_complete d \<and>
         (jc_candidates (ji_counts d) > 1000 \<longrightarrow>
            trim (bm_typedConfirm s) = js ''DELETE '' @ js_of_int (jc_candidates (ji_counts d)))))) \<and>
    trim (bm_reason s) \<noteq> [] \<and> bm_throttle s \<in> set THROTTLE_OPTIONS \<and> bm_accepted s = [] \<and> bm_cancels s = []"
proof -
  have ok: "modal_ok server v sc True s" and over: "handed_over s"
    using modal_ok_run handed_over_run assms(1) by blast+
  obtain i where i: "bm_jobId s = Some i" and gate: "gr_ok (gate_of s)" and busy: "\<not> bm_busy s"
    using assms(4) by (auto simp: handleExecute_def split: option.splits if_splits)
  have verb: "bm_verb s = v" using ok by (simp add: modal_ok_def)
  obtain j where j: "server (preview_body v sc) j" "ji_id j = i"
    using ok i by (auto simp: modal_ok_def)
  have sent: "bm_executes (handleExecute s) =
      [(i, \<lparr>ej_proceed_on_partial = Some (bm_proceedOnPartial s), ej_throttle = Some (bm_throttle s), ej_reason = Some (bm_reason s)\<rparr>)]"
    using over busy assms(2) gate i by (simp add: handed_over_def handleExecute_def)
  have conditions: "trim (bm_reason s) \<noteq> []"
    "bm_verb s = VDelete \<Longrightarrow> previewComplete s"
    "bm_verb s = VDelete \<Longrightarrow> jc_candidates (counts_of s) > 1000 \<Longrightarrow>
       trim (bm_typedConfirm s) = js ''DELETE '' @ js_of_int (jc_candidates (counts_of s))"
    using gate by (auto simp: gate_of_def gateExecute_def blocked_def typedConfirmPhrase_def TYPED_CONFIRM_THRESHOLD_def
        Let_def split: if_splits)
  have delete: "\<exists>d. bm_job s = Some d \<and> ji_id d = i \<and> ji_preview_complete d \<and>
      (jc_candidates (ji_counts d) > 1000 \<longrightarrow>
         trim (bm_typedConfirm s) = js ''DELETE '' @ js_of_int (jc_candidates (ji_counts d)))" if "v = VDelete"
    using conditions(2,3) verb that ok i
    by (auto simp: modal_ok_def previewComplete_def counts_of_def split: option.splits)
  have "bm_throttle s \<in> set THROTTLE_OPTIONS" "bm_accepted s = []" "bm_cancels s = []"
    using over assms(2,3) by (simp_all add: handed_over_def)
  then show ?thesis using j sent delete conditions(1) by blast
qed

text \<open>A delete opened on the retry tasks of a queue, its preview complete, its reason typed.\<close>

definition sample_scope :: job_scope where
  "sample_scope = \<lparr>js_queue = js ''low'', js_state = js ''retry'', js_q = [], js_meta = [], js_aql = []\<rparr>"

definition confirmed_modal :: bulk_modal where
  "confirmed_modal =
     (preview_detailed (sample_job PreviewReady) (preview_created (sample_job PreviewReady) (modal_open VDelete sample_scope)))
       \<lparr>bm_reason := js ''drain''\<rparr>"

lemma confirmed_fields:
  "bm_open confirmed_modal" "\<not> bm_started confirmed_modal" "bm_verb confirmed_modal = VDelete"
  "bm_jobId confirmed_modal = Some (js ''jb_1'')" "bm_job confirmed_modal = Some (sample_job PreviewReady)"
  "bm_reason confirmed_modal = js ''drain''" "\<not> bm_busy confirmed_modal"
  by (simp_all add: confirmed_modal_def modal_open_def preview_created_def preview_detailed_def sample_job_def)

lemma confirmed_gate: "gr_ok (gate_of confirmed_modal)"
  by (simp add: gate_of_def gateExecute_def confirmed_fields previewComplete_def counts_of_def sample_job_def
      typedConfirmPhrase_def TYPED_CONFIRM_THRESHOLD_def trim_def trim_start_def is_ws_def js_def Let_def)

lemma confirmed_run: "modal_run (\<lambda>body j. j = sample_job PreviewReady) VDelete sample_scope True confirmed_modal"
  unfolding confirmed_modal_def
  by (rule modal_run.reason [OF modal_run.detailed [OF modal_run.created [OF modal_run.opened]]])
    (simp_all add: modal_open_def preview_created_def preview_detailed_def)

lemma bulk_execute_is_confirmed_witness:
  "bm_executes (handleExecute confirmed_modal) =
     [(js ''jb_1'', \<lparr>ej_proceed_on_partial = Some (bm_proceedOnPartial confirmed_modal),
        ej_throttle = Some (bm_throttle confirmed_modal), ej_reason = Some (bm_reason confirmed_modal)\<rparr>)]"
proof -
  have "handleExecute confirmed_modal \<noteq> confirmed_modal"
  proof
    assume "handleExecute confirmed_modal = confirmed_modal"
    then have "bm_busy (handleExecute confirmed_modal) = bm_busy confirmed_modal" by simp
    then show False by (simp add: handleExecute_def confirmed_fields confirmed_gate)
  qed
  from bulk_execute_is_confirmed [OF confirmed_run confirmed_fields(1,2) this]
  show ?thesis by (simp add: sample_job_def)
qed

subsection \<open>Where the dialog falls short\<close>

text \<open>
  The scope shown is the parent's at the moment, the job is that of the opening: when the query bar's debounced
  write lands after the click, the dialog names another scope than the one it executes.
\<close>

lemma scope_shown_may_differ: "handleExecute (s\<lparr>bm_scope := sc'\<rparr>) = (handleExecute s)\<lparr>bm_scope := sc'\<rparr>"
  by (simp add: handleExecute_def gate_of_def previewComplete_def counts_of_def split: option.split)

text \<open>Escape while the execution is being handed over cancels the job that was just confirmed.\<close>

lemma escape_cancels_execution:
  assumes "bm_jobId s = Some i" "gr_ok (gate_of s)" "\<not> bm_busy s" "\<not> bm_started s"
  shows "i \<in> set (map fst (bm_executes (handleClose (handleExecute s)))) \<and> i \<in> set (bm_cancels (handleClose (handleExecute s)))"
  using assms by (simp add: handleExecute_def handleClose_def)

text \<open>A dialog closed before its preview job is known cancels nothing, and the job stays.\<close>

lemma early_close_leaves_preview:
  "bm_cancels (preview_created j (handleClose (modal_open v sc))) = []"
  by (simp add: preview_created_def handleClose_def modal_open_def)

text \<open>The details asked for at the start replace a newer observation when they come later.\<close>

lemma late_details_replace_frame:
  "bm_open s \<Longrightarrow> previewComplete (preview_detailed d (live_seen j s)) = ji_preview_complete d"
  by (simp add: preview_detailed_def live_seen_def previewComplete_def Let_def)

end
