(* ===== verification/TaskDrawer.thy ===== *)
theory TaskDrawer
  imports ConsoleRows Endpoints TasksActions Base64 Keymap
begin

text \<open>
  The task drawer (\<open>src/ui/src/components/TaskDrawer.tsx\<close>): which task it shows and acts on while it walks from one to
  the next, the events of the lifecycle strip, the keys, and the Flow tab. A step is one callback, as in
  the task console: an effect reads the state of the render it belongs to. The ticks that only redraw,
  the flash of a copy button and the markup are left out.
\<close>

subsection \<open>Actions of a state\<close>

type_synonym task_thunk = "api_env \<Rightarrow> (http_request \<Rightarrow> unit outcome) \<Rightarrow> jstring \<Rightarrow> jstring \<Rightarrow> tasks_action list"

definition runThunks :: "(jstring \<times> task_thunk) list" where
  "runThunks =
     [(js ''scheduled'', runScheduledTaskAsync), (js ''retry'', runRetryTaskAsync), (js ''archived'', runArchivedTaskAsync)]"

definition archiveThunks :: "(jstring \<times> task_thunk) list" where
  "archiveThunks =
     [(js ''scheduled'', archiveScheduledTaskAsync), (js ''retry'', archiveRetryTaskAsync), (js ''pending'', archivePendingTaskAsync)]"

definition deleteThunks :: "(jstring \<times> task_thunk) list" where
  "deleteThunks =
     [(js ''scheduled'', deleteScheduledTaskAsync), (js ''retry'', deleteRetryTaskAsync), (js ''archived'', deleteArchivedTaskAsync),
      (js ''pending'', deletePendingTaskAsync), (js ''completed'', deleteCompletedTaskAsync)]"

subsection \<open>State\<close>

datatype drawer_tab = TabDetail | TabFlow

record flow_result =
  fw_tasks :: "flow_task list"
  fw_total :: nat
  fw_queues :: nat
  fw_truncated :: bool

text \<open>What is in flight; a flow search carries the run of the effect that started it.\<close>

datatype drawer_flight = InfoFlight peek_target | ObservedFlight peek_target | FlowFlight nat correlation_ref

text \<open>
  What the dependency lists name. \<open>corr\<close> is a new object whenever the task is: it is the version of the task when
  there is a correlation.
\<close>

record drawer_deps =
  dd_peekKey :: jstring
  dd_tab :: drawer_tab
  dd_corr :: "nat option"
  dd_flow :: "flow_result option"
  dd_flowLoading :: bool

record task_drawer =
  dw_peek :: peek_target
  dw_deps :: "drawer_deps option"
  dw_taskInfo :: "task_info option"
  dw_version :: nat
  dw_fetchErr :: jstring
  dw_observed :: "observed_task_response option"
  dw_confirmDelete :: bool
  dw_cloneOpen :: bool
  dw_tab :: drawer_tab
  dw_flow :: "flow_result option"
  dw_flowLoading :: bool
  dw_flowErr :: jstring
  dw_flowRun :: nat
  dw_flights :: "drawer_flight list"

definition FLOW_CAP :: nat where "FLOW_CAP = 50"

definition FLOW_STATES :: "console_task_state list" where
  "FLOW_STATES = [Active, Pending, Aggregating, Scheduled, Retry, Archived, Completed]"

definition drawer_init :: "peek_target \<Rightarrow> task_drawer" where
  "drawer_init p =
     \<lparr>dw_peek = p, dw_deps = None, dw_taskInfo = None, dw_version = 0, dw_fetchErr = [], dw_observed = None,
      dw_confirmDelete = False, dw_cloneOpen = False, dw_tab = TabDetail, dw_flow = None, dw_flowLoading = False,
      dw_flowErr = [], dw_flowRun = 0, dw_flights = []\<rparr>"

subsection \<open>What a render derives\<close>

definition peekKey :: "peek_target \<Rightarrow> jstring" where
  "peekKey p = pt_queue p @ js ''/'' @ pt_id p"

text \<open>The guard: the task in state is shown and acted on only while it is the one the URL names.\<close>

definition task_of :: "task_drawer \<Rightarrow> task_info option" where
  "task_of s = (case dw_taskInfo s of
     None \<Rightarrow> None
   | Some t \<Rightarrow> if t_id t = pt_id (dw_peek s) \<and> t_queue t = pt_queue (dw_peek s) then Some t else None)"

definition corr_of :: "jstring list \<Rightarrow> task_drawer \<Rightarrow> correlation_ref option" where
  "corr_of keys s = (case task_of s of None \<Rightarrow> None | Some t \<Rightarrow> extractCorrelation (t_payload t) keys)"

definition drawer_deps_of :: "jstring list \<Rightarrow> task_drawer \<Rightarrow> drawer_deps" where
  "drawer_deps_of keys s =
     \<lparr>dd_peekKey = peekKey (dw_peek s), dd_tab = dw_tab s,
      dd_corr = (if corr_of keys s = None then None else Some (dw_version s)), dd_flow = dw_flow s,
      dd_flowLoading = dw_flowLoading s\<rparr>"

definition metaPairs :: "task_drawer \<Rightarrow> meta_pair list" where
  "metaPairs s = (case task_of s of None \<Rightarrow> [] | Some t \<Rightarrow> parseMetadata (t_payload t))"

text \<open>The headers by name, in the order of code units.\<close>

definition taskHeaders :: "task_drawer \<Rightarrow> (jstring \<times> jstring) list" where
  "taskHeaders s = (case Option.bind (task_of s) t_headers of
     None \<Rightarrow> [] | Some h \<Rightarrow> map (\<lambda>k. (k, the (map_of h k))) (sort (remdups (map fst h))))"

definition row_index :: "peek_target \<Rightarrow> task_info list \<Rightarrow> nat option" where
  "row_index p rows =
     (let i = length (takeWhile (\<lambda>t. \<not> (t_id t = pt_id p \<and> t_queue t = pt_queue p)) rows)
      in if i < length rows then Some i else None)"

definition prevTask :: "peek_target \<Rightarrow> task_info list \<Rightarrow> task_info option" where
  "prevTask p rows = (case row_index p rows of Some i \<Rightarrow> if i > 0 then Some (rows ! (i - 1)) else None | None \<Rightarrow> None)"

definition nextTask :: "peek_target \<Rightarrow> task_info list \<Rightarrow> task_info option" where
  "nextTask p rows = (case row_index p rows of
     Some i \<Rightarrow> if i + 1 < length rows then Some (rows ! (i + 1)) else None | None \<Rightarrow> None)"

definition target_of :: "task_info \<Rightarrow> peek_target" where
  "target_of t = \<lparr>pt_queue = t_queue t, pt_id = t_id t\<rparr>"

text \<open>The number of code points, a lone surrogate counted as one, against the server's cap.\<close>

fun code_point_count :: "jstring \<Rightarrow> nat" where
  "code_point_count [] = 0"
| "code_point_count [c] = 1"
| "code_point_count (c # d # cs) =
     (if 0xD800 \<le> c \<and> c \<le> 0xDBFF \<and> 0xDC00 \<le> d \<and> d \<le> 0xDFFF then Suc (code_point_count cs)
      else Suc (code_point_count (d # cs)))"

definition payloadTruncated :: "int \<Rightarrow> task_drawer \<Rightarrow> bool" where
  "payloadTruncated limit s \<longleftrightarrow>
     limit > 0 \<and> int (case task_of s of None \<Rightarrow> 0 | Some t \<Rightarrow> code_point_count (t_payload t)) > limit"

text \<open>Which buttons are offered.\<close>

definition drawer_state :: "task_drawer \<Rightarrow> jstring" where
  "drawer_state s = (case task_of s of None \<Rightarrow> [] | Some t \<Rightarrow> t_state t)"

definition can_thunk :: "bool \<Rightarrow> (jstring \<times> task_thunk) list \<Rightarrow> task_drawer \<Rightarrow> bool" where
  "can_thunk readOnly thunks s \<longleftrightarrow> \<not> readOnly \<and> task_of s \<noteq> None \<and> map_of thunks (drawer_state s) \<noteq> None"

definition canCancel :: "bool \<Rightarrow> task_drawer \<Rightarrow> bool" where
  "canCancel readOnly s \<longleftrightarrow> \<not> readOnly \<and> task_of s \<noteq> None \<and> drawer_state s = js ''active''"

definition canClone :: "bool \<Rightarrow> bool \<Rightarrow> task_drawer \<Rightarrow> bool" where
  "canClone enqueueEnabled readOnly s \<longleftrightarrow> enqueueEnabled \<and> \<not> readOnly \<and> task_of s \<noteq> None"

text \<open>What stands in the body in place of the task.\<close>

datatype drawer_body = NotFoundBody jstring | LoadingBody | DetailBody | FlowBody

definition body_of :: "task_drawer \<Rightarrow> drawer_body" where
  "body_of s =
     (if dw_fetchErr s \<noteq> [] \<and> task_of s = None then NotFoundBody (dw_fetchErr s)
      else if task_of s = None then LoadingBody
      else if dw_tab s = TabDetail then DetailBody else FlowBody)"

subsection \<open>Lifecycle strip\<close>

datatype lifecycle_event =
    EvEnqueued jstring | EvGroup jstring bool | EvWaiting jstring | EvStarted jstring "jstring option" | EvScheduled jstring
  | EvError jstring jstring int int | EvNextRetry jstring | EvDied jstring | EvArchivedManually
  | EvCompleted jstring "int option" | EvObservedRun int

definition event_when :: "bool \<Rightarrow> lifecycle_event \<Rightarrow> lifecycle_event list" where
  "event_when b e = (if b then [e] else [])"

definition lifecycle_events :: "task_info \<Rightarrow> observed_task_response option \<Rightarrow> lifecycle_event list" where
  "lifecycle_events t observed =
     [EvEnqueued (t_queue t)] @
     event_when (t_group t \<noteq> []) (EvGroup (t_group t) (t_state t = js ''aggregating'')) @
     (case t_pending_since t of
        Some since \<Rightarrow> event_when (t_state t = js ''pending'' \<and> since \<noteq> []) (EvWaiting since)
      | None \<Rightarrow> []) @
     event_when (t_state t = js ''active'' \<and> t_start_time t \<noteq> [])
       (EvStarted (t_start_time t) (if t_deadline t \<noteq> [] then Some (t_deadline t) else None)) @
     event_when (t_state t = js ''scheduled'' \<and> t_next_process_at t \<noteq> []) (EvScheduled (t_next_process_at t)) @
     event_when (t_error_message t \<noteq> [])
       (EvError (t_error_message t) (t_last_failed_at t) (t_retried t) (t_max_retry t)) @
     event_when (t_state t = js ''retry'' \<and> t_next_process_at t \<noteq> []) (EvNextRetry (t_next_process_at t)) @
     event_when (t_state t = js ''archived'')
       (if t_last_failed_at t \<noteq> [] then EvDied (t_last_failed_at t) else EvArchivedManually) @
     event_when (t_state t = js ''completed'' \<and> t_completed_at t \<noteq> [])
       (EvCompleted (t_completed_at t) (if t_ttl_seconds t > 0 then Some (t_ttl_seconds t) else None)) @
     (case observed of
        Some o1 \<Rightarrow> (case otr_summary o1 of
            Some sm \<Rightarrow> event_when (otr_present o1) (EvObservedRun (os_last_duration_ms sm)) | None \<Rightarrow> [])
      | None \<Rightarrow> [])"

subsection \<open>Keys\<close>

datatype drawer_key = KeyNothing | KeyClose | KeyPeek peek_target

text \<open>A press of a key whose target is no text field.\<close>

definition drawer_onKey :: "task_info list \<Rightarrow> task_drawer \<Rightarrow> jstring \<Rightarrow> drawer_key" where
  "drawer_onKey rows s key =
     (if dw_cloneOpen s then KeyNothing
      else if key = js ''Escape'' then (if dw_confirmDelete s then KeyNothing else KeyClose)
      else if key = js ''['' then (case prevTask (dw_peek s) rows of Some t \<Rightarrow> KeyPeek (target_of t) | None \<Rightarrow> KeyNothing)
      else if key = js '']'' then (case nextTask (dw_peek s) rows of Some t \<Rightarrow> KeyPeek (target_of t) | None \<Rightarrow> KeyNothing)
      else KeyNothing)"

text \<open>
  The focus trap: the elements of the panel that take the focus, the element that has it (\<open>None\<close> for the panel
  itself) and whether Shift is down; the element the focus is put on, \<open>None\<close> where the browser moves it.
\<close>

definition trapTab :: "'a list \<Rightarrow> 'a option \<Rightarrow> bool \<Rightarrow> 'a option" where
  "trapTab focusables active shift =
     (if focusables = [] then None
      else if shift then (if active = Some (hd focusables) \<or> active = None then Some (List.last focusables) else None)
      else if active = Some (List.last focusables) then Some (hd focusables) else None)"

subsection \<open>Requests and answers\<close>

definition fetchInfo :: "peek_target \<Rightarrow> task_drawer \<Rightarrow> task_drawer" where
  "fetchInfo p s = s\<lparr>dw_flights := dw_flights s @ [InfoFlight p]\<rparr>"

definition info_answered :: "peek_target \<Rightarrow> jstring + task_info \<Rightarrow> task_drawer \<Rightarrow> task_drawer" where
  "info_answered p answer s =
     (case answer of
        Inr info \<Rightarrow> s\<lparr>dw_taskInfo := Some info, dw_version := dw_version s + 1, dw_fetchErr := []\<rparr>
      | Inl e \<Rightarrow> s\<lparr>dw_fetchErr := e\<rparr>)\<lparr>dw_flights := dw_flights s @ [ObservedFlight p]\<rparr>"

definition observed_answered :: "jstring + observed_task_response option \<Rightarrow> task_drawer \<Rightarrow> task_drawer" where
  "observed_answered answer s = (case answer of Inr ob \<Rightarrow> s\<lparr>dw_observed := ob\<rparr> | Inl _ \<Rightarrow> s)"

definition flow_of :: "task_info \<Rightarrow> flow_task" where
  "flow_of t =
     \<lparr>ft_id = t_id t, ft_queue = t_queue t, ft_completed_at = Some (t_completed_at t),
      ft_last_failed_at = Some (t_last_failed_at t)\<rparr>"

text \<open>The searches of the Flow tab, one per state.\<close>

definition flow_call :: "correlation_ref \<Rightarrow> console_task_state \<Rightarrow> task_filter \<times> search_page" where
  "flow_call c st =
     (\<lparr>tf_queue = None, tf_state = state_name st, tf_q = (if cr_nested c then Some (cr_value c) else None),
       tf_meta = (if cr_nested c then [] else [cr_key c @ js '':'' @ cr_value c])\<rparr>,
      \<lparr>sp_page = None, sp_size = Some (int FLOW_CAP), sp_maxScan = None, sp_cursor = None, sp_scanCursor = None\<rparr>)"

definition flow_result_of ::
  "(jstring \<Rightarrow> jstring \<Rightarrow> int) \<Rightarrow> (jstring \<Rightarrow> int option) \<Rightarrow> (task_info list \<times> bool) list \<Rightarrow> flow_result" where
  "flow_result_of collate date_parse resps =
     (let merged = mergeFlowTasks collate date_parse (map (\<lambda>r. map flow_of (fst r)) resps)
      in \<lparr>fw_tasks = take FLOW_CAP merged, fw_total = length merged, fw_queues = distinctQueues merged,
          fw_truncated = list_ex snd resps\<rparr>)"

text \<open>A search whose effect has been cleaned up is canceled: nothing is set.\<close>

definition flow_answered :: "nat \<Rightarrow> jstring + flow_result \<Rightarrow> task_drawer \<Rightarrow> task_drawer" where
  "flow_answered n answer s =
     (if n \<noteq> dw_flowRun s then s
      else (case answer of
          Inr r \<Rightarrow> s\<lparr>dw_flow := Some r, dw_flowErr := []\<rparr> | Inl e \<Rightarrow> s\<lparr>dw_flowErr := e\<rparr>)\<lparr>dw_flowLoading := False\<rparr>)"

subsection \<open>Effects\<close>

definition drawer_changed :: "jstring list \<Rightarrow> task_drawer \<Rightarrow> (drawer_deps \<Rightarrow> 'a) \<Rightarrow> bool" where
  "drawer_changed keys r f \<longleftrightarrow> (case dw_deps r of None \<Rightarrow> True | Some d \<Rightarrow> f d \<noteq> f (drawer_deps_of keys r))"

definition poll_effect_info :: "jstring list \<Rightarrow> task_drawer \<Rightarrow> task_drawer \<Rightarrow> task_drawer" where
  "poll_effect_info keys r s = (if drawer_changed keys r dd_peekKey then fetchInfo (dw_peek r) s else s)"

definition drawer_reset :: "jstring list \<Rightarrow> task_drawer \<Rightarrow> task_drawer \<Rightarrow> task_drawer" where
  "drawer_reset keys r s =
     (if drawer_changed keys r dd_peekKey
      then s\<lparr>dw_taskInfo := None, dw_fetchErr := [], dw_tab := TabDetail, dw_flow := None, dw_flowErr := [],
             dw_observed := None, dw_confirmDelete := False, dw_cloneOpen := False\<rparr>
      else s)"

definition flow_deps :: "drawer_deps \<Rightarrow> drawer_tab \<times> nat option \<times> flow_result option \<times> bool" where
  "flow_deps d = (dd_tab d, dd_corr d, dd_flow d, dd_flowLoading d)"

text \<open>The cleanup of the last run cancels it, then the effect runs.\<close>

definition flow_effect :: "jstring list \<Rightarrow> task_drawer \<Rightarrow> task_drawer \<Rightarrow> task_drawer" where
  "flow_effect keys r s =
     (if drawer_changed keys r flow_deps
      then (let s = s\<lparr>dw_flowRun := dw_flowRun s + 1\<rparr> in
        case corr_of keys r of
          None \<Rightarrow> s
        | Some c \<Rightarrow>
            if dw_tab r \<noteq> TabFlow \<or> dw_flow r \<noteq> None \<or> dw_flowLoading r then s
            else s\<lparr>dw_flowLoading := True, dw_flights := dw_flights s @ [FlowFlight (dw_flowRun s) c]\<rparr>)
      else s)"

definition drawer_render :: "jstring list \<Rightarrow> task_drawer \<Rightarrow> task_drawer" where
  "drawer_render keys r =
     (flow_effect keys r (drawer_reset keys r (poll_effect_info keys r r)))\<lparr>dw_deps := Some (drawer_deps_of keys r)\<rparr>"

subsection \<open>Actions\<close>

text \<open>\<open>doRun\<close>, \<open>doArchive\<close>, \<open>doDelete\<close> and \<open>doCancel\<close>: what is dispatched.\<close>

definition do_thunk ::
  "(jstring \<times> task_thunk) list \<Rightarrow> api_env \<Rightarrow> (http_request \<Rightarrow> unit outcome) \<Rightarrow> task_drawer \<Rightarrow> tasks_action list" where
  "do_thunk thunks env send s = (case (map_of thunks (drawer_state s), task_of s) of
     (Some thunk, Some t) \<Rightarrow> thunk env send (t_queue t) (t_id t) | _ \<Rightarrow> [])"

definition doCancel :: "api_env \<Rightarrow> (http_request \<Rightarrow> unit outcome) \<Rightarrow> task_drawer \<Rightarrow> tasks_action list" where
  "doCancel env send s = (case task_of s of Some t \<Rightarrow> cancelActiveTaskAsync env send (t_queue t) (t_id t) | None \<Rightarrow> [])"

subsection \<open>Runs\<close>

definition drawer_stable :: "jstring list \<Rightarrow> task_drawer \<Rightarrow> bool" where
  "drawer_stable keys s \<longleftrightarrow> dw_deps s = Some (drawer_deps_of keys s)"

definition drawer_landed :: "drawer_flight \<Rightarrow> task_drawer \<Rightarrow> task_drawer" where
  "drawer_landed f s = s\<lparr>dw_flights := remove1 f (dw_flights s)\<rparr>"

text \<open>
  The runs, with what the server may answer to a request for a task. \<open>tick\<close> is a poll and the fetch after an
  action, whose closure may be that of an earlier task.
\<close>

inductive drawer_run :: "jstring list \<Rightarrow> (peek_target \<Rightarrow> task_info \<Rightarrow> bool) \<Rightarrow> task_drawer \<Rightarrow> bool" for keys server where
  start: "drawer_run keys server (drawer_init p)"
| render: "drawer_run keys server s \<Longrightarrow> drawer_run keys server (drawer_render keys s)"
| peek: "drawer_run keys server s \<Longrightarrow> drawer_stable keys s \<Longrightarrow> drawer_run keys server (s\<lparr>dw_peek := p\<rparr>)"
| tick: "drawer_run keys server s \<Longrightarrow> drawer_stable keys s \<Longrightarrow> drawer_run keys server (fetchInfo p s)"
| info: "drawer_run keys server s \<Longrightarrow> drawer_stable keys s \<Longrightarrow> InfoFlight p \<in> set (dw_flights s) \<Longrightarrow> server p t \<Longrightarrow>
    drawer_run keys server (info_answered p (Inr t) (drawer_landed (InfoFlight p) s))"
| no_info: "drawer_run keys server s \<Longrightarrow> drawer_stable keys s \<Longrightarrow> InfoFlight p \<in> set (dw_flights s) \<Longrightarrow>
    drawer_run keys server (info_answered p (Inl e) (drawer_landed (InfoFlight p) s))"
| observed: "drawer_run keys server s \<Longrightarrow> drawer_stable keys s \<Longrightarrow> ObservedFlight p \<in> set (dw_flights s) \<Longrightarrow>
    drawer_run keys server (observed_answered ob (drawer_landed (ObservedFlight p) s))"
| flow: "drawer_run keys server s \<Longrightarrow> drawer_stable keys s \<Longrightarrow> FlowFlight n c \<in> set (dw_flights s) \<Longrightarrow>
    drawer_run keys server (flow_answered n fr (drawer_landed (FlowFlight n c) s))"
| tab: "drawer_run keys server s \<Longrightarrow> drawer_stable keys s \<Longrightarrow> drawer_run keys server (s\<lparr>dw_tab := tb\<rparr>)"
| confirm: "drawer_run keys server s \<Longrightarrow> drawer_stable keys s \<Longrightarrow> drawer_run keys server (s\<lparr>dw_confirmDelete := b\<rparr>)"
| clone: "drawer_run keys server s \<Longrightarrow> drawer_stable keys s \<Longrightarrow> drawer_run keys server (s\<lparr>dw_cloneOpen := b\<rparr>)"

subsection \<open>The task shown and acted on\<close>

definition drawer_thunks :: "row_verb \<Rightarrow> (jstring \<times> task_thunk) list" where
  "drawer_thunks v = (case v of
     RRun \<Rightarrow> runThunks | RArchive \<Rightarrow> archiveThunks | RDelete \<Rightarrow> deleteThunks
   | RCancel \<Rightarrow> [(js ''active'', cancelActiveTaskAsync)])"

text \<open>What the button of a verb dispatches.\<close>

definition drawer_dispatch :: "row_verb \<Rightarrow> api_env \<Rightarrow> (http_request \<Rightarrow> unit outcome) \<Rightarrow> task_drawer \<Rightarrow> tasks_action list" where
  "drawer_dispatch v env send s =
     (if v = RCancel then (if canCancel False s then doCancel env send s else [])
      else do_thunk (drawer_thunks v) env send s)"

lemma dispatch_thunk: "drawer_dispatch v env send s = do_thunk (drawer_thunks v) env send s"
  by (simp add: drawer_dispatch_def drawer_thunks_def do_thunk_def doCancel_def canCancel_def split: option.split)

lemmas drawer_thunk_lists = runThunks_def archiveThunks_def deleteThunks_def

lemmas drawer_thunk_defs =
  runScheduledTaskAsync_def runRetryTaskAsync_def runArchivedTaskAsync_def
  archiveScheduledTaskAsync_def archiveRetryTaskAsync_def archivePendingTaskAsync_def deleteScheduledTaskAsync_def
  deleteRetryTaskAsync_def deleteArchivedTaskAsync_def deletePendingTaskAsync_def deleteCompletedTaskAsync_def
  cancelActiveTaskAsync_def

text \<open>
  A request reported to the store, given its answer: the BEGIN action, then the action of the outcome, a failure with
  the text of its error; and the three of one family, as their types say.
\<close>

definition action_stem :: "nat \<Rightarrow> tasks_action \<Rightarrow> string" where
  "action_stem n a = take (length (action_type a) - n) (action_type a)"

definition one_family :: "tasks_action \<Rightarrow> tasks_action \<Rightarrow> (jstring \<Rightarrow> tasks_action) \<Rightarrow> bool" where
  "one_family b ok err \<longleftrightarrow>
     ends_with ''_BEGIN'' (action_type b) \<and> ends_with ''_SUCCESS'' (action_type ok) \<and> action_stem 8 ok = action_stem 6 b \<and>
     (\<forall>m. ends_with ''_ERROR'' (action_type (err m)) \<and> action_stem 6 (err m) = action_stem 6 b) \<and> inj err"

definition reported :: "unit outcome \<Rightarrow> tasks_action \<Rightarrow> tasks_action \<Rightarrow> (jstring \<Rightarrow> tasks_action) \<Rightarrow> tasks_action list" where
  "reported answer b ok err = b # (case answer of Fulfilled _ \<Rightarrow> [ok] | Rejected e \<Rightarrow> [err (toErrorString e)])"

text \<open>A thunk that makes the request \<open>f\<close> and reports it, whatever the answer.\<close>

definition thunk_reports :: "task_thunk \<Rightarrow> (api_env \<Rightarrow> jstring \<Rightarrow> jstring \<Rightarrow> http_request option) \<Rightarrow> bool" where
  "thunk_reports thunk f \<longleftrightarrow> (\<forall>env q i. \<exists>b ok err. one_family b ok err \<and>
     (\<forall>send. thunk env send q i = reported (call send (f env q i)) b ok err))"

lemma thunk_reportsI:
  "(\<And>env send q i. thunk env send q i = reported (call send (f env q i)) (b q i) (ok q i) (err q i)) \<Longrightarrow>
   (\<And>q i. one_family (b q i) (ok q i) (err q i)) \<Longrightarrow> thunk_reports thunk f"
  unfolding thunk_reports_def by blast

lemmas family_simps = one_family_def ends_with_def starts_with_def action_stem_def inj_def

lemma thunks_report:
  "thunk_reports runScheduledTaskAsync runScheduledTask" "thunk_reports runRetryTaskAsync runRetryTask"
  "thunk_reports runArchivedTaskAsync runArchivedTask" "thunk_reports archiveScheduledTaskAsync archiveScheduledTask"
  "thunk_reports archiveRetryTaskAsync archiveRetryTask" "thunk_reports archivePendingTaskAsync archivePendingTask"
  "thunk_reports deleteScheduledTaskAsync deleteScheduledTask" "thunk_reports deleteRetryTaskAsync deleteRetryTask"
  "thunk_reports deleteArchivedTaskAsync deleteArchivedTask" "thunk_reports deletePendingTaskAsync deletePendingTask"
  "thunk_reports deleteCompletedTaskAsync deleteCompletedTask" "thunk_reports cancelActiveTaskAsync cancelActiveTask"
  by - (rule thunk_reportsI, simp only: drawer_thunk_defs reported_def, simp add: family_simps)+

text \<open>A button is offered in the states where a row offers the action, and makes and reports that action's request.\<close>

lemma thunk_of_row_action:
  "(case map_of (drawer_thunks v) (state_name st) of
      None \<Rightarrow> map_of (actionFns st) v = None
    | Some thunk \<Rightarrow> (\<exists>f. map_of (actionFns st) v = Some f \<and> thunk_reports thunk f))"
  by (cases st; cases v)
    (simp_all add: drawer_thunks_def state_name_def actionFns_def drawer_thunk_lists thunks_report)

lemma task_answered:
  "drawer_run keys server s \<Longrightarrow> dw_taskInfo s = Some t \<Longrightarrow> \<exists>p. server p t"
proof (induction arbitrary: t rule: drawer_run.induct)
  case (render s)
  have "dw_taskInfo (drawer_render keys s) = None \<or> dw_taskInfo (drawer_render keys s) = dw_taskInfo s"
    by (auto simp: drawer_render_def flow_effect_def drawer_reset_def poll_effect_info_def fetchInfo_def Let_def
        split: option.split)
  with render show ?case by auto
next
  case (flow s n c fr)
  then show ?case by (auto simp: flow_answered_def drawer_landed_def split: sum.splits if_splits)
qed (auto simp: drawer_init_def fetchInfo_def info_answered_def observed_answered_def drawer_landed_def split: sum.splits)

text \<open>C16. The drawer acts on the task the URL names: whatever requests of other tasks are still out, the task it holds is
  one the server gave for that name, and the button of a verb makes exactly the request a row of that state would
  make, for that queue and id, and reports its outcome, success or the text of the failure; where a state offers a
  row no such action the button does nothing. (The observed run and the error line are not guarded:
  \<open>late_observed_is_shown\<close>, \<open>late_error_reads_not_found\<close>.) The server answers a request for a task with that task.\<close>

theorem drawer_acts_on_peeked_task:
  assumes "drawer_run keys server s" "task_of s = Some t" "t_state t = state_name st"
    and "\<And>p x. server p x \<Longrightarrow> t_id x = pt_id p \<and> t_queue x = pt_queue p"
  shows "server (dw_peek s) t \<and>
    (case map_of (actionFns st) v of
       None \<Rightarrow> \<forall>send. drawer_dispatch v env send s = []
     | Some f \<Rightarrow> \<exists>b ok err. one_family b ok err \<and>
         (\<forall>send. drawer_dispatch v env send s =
            reported (call send (f env (pt_queue (dw_peek s)) (pt_id (dw_peek s)))) b ok err))"
proof -
  have t: "dw_taskInfo s = Some t" "t_id t = pt_id (dw_peek s)" "t_queue t = pt_queue (dw_peek s)"
    using assms(2) by (auto simp: task_of_def split: option.splits if_splits)
  obtain p where p: "server p t" using task_answered [OF assms(1) t(1)] by blast
  then have "p = dw_peek s" using assms(4) [OF p] t(2,3) by (cases p; cases "dw_peek s") simp
  then have "server (dw_peek s) t" using p by simp
  have act: "drawer_dispatch v env send s = (case map_of (drawer_thunks v) (state_name st) of
      Some thunk \<Rightarrow> thunk env send (pt_queue (dw_peek s)) (pt_id (dw_peek s)) | None \<Rightarrow> [])" for send
    by (simp add: dispatch_thunk do_thunk_def drawer_state_def assms(2,3) t split: option.split)
  note row = thunk_of_row_action [where v = v and st = st]
  show ?thesis
  proof (cases "map_of (drawer_thunks v) (state_name st)")
    case None
    with row have "map_of (actionFns st) v = None" by simp
    with None show ?thesis using \<open>server (dw_peek s) t\<close> by (simp add: act)
  next
    case (Some thunk)
    then obtain f where f: "map_of (actionFns st) v = Some f"
      and "thunk_reports thunk f"
      using row by (simp only: option.case) blast
    then show ?thesis using \<open>server (dw_peek s) t\<close> unfolding f act Some option.case thunk_reports_def by blast
  qed
qed

text \<open>A run: the drawer opens on a task with a correlation and its task arrives.\<close>

definition sample_drawer_row :: task_info where
  "sample_drawer_row = (sample_row ''mail'' ''t1'')\<lparr>t_state := js ''retry'', t_payload := sample_payload\<rparr>"

definition sample_server :: "peek_target \<Rightarrow> task_info \<Rightarrow> bool" where
  "sample_server p t \<longleftrightarrow> t = sample_drawer_row \<and> p = target_of sample_drawer_row"

definition drawer_at_task :: "jstring list \<Rightarrow> task_drawer" where
  "drawer_at_task keys =
     info_answered (target_of sample_drawer_row) (Inr sample_drawer_row)
       (drawer_landed (InfoFlight (target_of sample_drawer_row)) (drawer_render keys (drawer_init (target_of sample_drawer_row))))"

lemmas drawer_eval =
  drawer_render_def poll_effect_info_def drawer_reset_def flow_effect_def drawer_changed_def drawer_init_def
  drawer_deps_of_def corr_of_def task_of_def fetchInfo_def info_answered_def drawer_landed_def target_of_def
  flow_deps_def sample_drawer_row_def sample_row_def

lemma sample_drawer_run: "drawer_run keys sample_server (drawer_at_task keys)"
proof -
  let ?s = "drawer_render keys (drawer_init (target_of sample_drawer_row))"
  have "drawer_run keys sample_server ?s" by (intro drawer_run.intros)
  moreover have "drawer_stable keys ?s" by (simp add: drawer_stable_def drawer_eval Let_def)
  moreover have "InfoFlight (target_of sample_drawer_row) \<in> set (dw_flights ?s)" by (simp add: drawer_eval Let_def)
  moreover have "sample_server (target_of sample_drawer_row) sample_drawer_row" by (simp add: sample_server_def)
  ultimately show ?thesis unfolding drawer_at_task_def by (rule drawer_run.info)
qed

lemma sample_drawer_task: "task_of (drawer_at_task keys) = Some sample_drawer_row"
  by (simp add: drawer_at_task_def drawer_eval Let_def)

lemma drawer_acts_on_peeked_task_witness:
  "\<forall>env send keys. length (drawer_dispatch RRun env send (drawer_at_task keys)) = 2"
proof (intro allI)
  fix env :: api_env and send :: "http_request \<Rightarrow> unit outcome" and keys :: "jstring list"
  have "sample_server p x \<Longrightarrow> t_id x = pt_id p \<and> t_queue x = pt_queue p" for p x
    by (simp add: sample_server_def target_of_def)
  moreover have "t_state sample_drawer_row = state_name Retry" by (simp add: sample_drawer_row_def sample_row_def state_name_def)
  moreover obtain f where f: "map_of (actionFns Retry) RRun = Some f" by (simp add: actionFns_def)
  ultimately obtain req b ok err where "drawer_dispatch RRun env send (drawer_at_task keys) = reported (call send req) b ok err"
    using drawer_acts_on_peeked_task [OF sample_drawer_run sample_drawer_task, where st = Retry and v = RRun]
    unfolding f option.case by blast
  then show "length (drawer_dispatch RRun env send (drawer_at_task keys)) = 2"
    by (simp add: reported_def split: outcome.split)
qed

subsection \<open>The Flow tab\<close>

definition flow_inv :: "task_drawer \<Rightarrow> bool" where
  "flow_inv s \<longleftrightarrow>
     dw_flow s = None \<and>
     (\<forall>n c. FlowFlight n c \<in> set (dw_flights s) \<longrightarrow>
        n < dw_flowRun s \<or> n = dw_flowRun s \<and> dw_flowLoading s \<and> (\<exists>d. dw_deps s = Some d \<and> \<not> dd_flowLoading d)) \<and>
     (\<forall>d. dw_deps s = Some d \<longrightarrow> (dd_tab d = TabFlow \<and> dd_corr d \<noteq> None \<longrightarrow> dw_flowLoading s))"

lemma flow_inv_render:
  assumes "flow_inv r"
  shows "flow_inv (drawer_render keys r)"
proof -
  let ?s = "drawer_reset keys r (poll_effect_info keys r r)"
  have s: "dw_flow ?s = None" "dw_flowRun ?s = dw_flowRun r" "dw_flowLoading ?s = dw_flowLoading r"
    "FlowFlight n c \<in> set (dw_flights ?s) \<longleftrightarrow> FlowFlight n c \<in> set (dw_flights r)" for n c
    using assms by (auto simp: flow_inv_def drawer_reset_def poll_effect_info_def fetchInfo_def)
  have corr: "dd_corr (drawer_deps_of keys r) \<noteq> None \<longleftrightarrow> corr_of keys r \<noteq> None" by (simp add: drawer_deps_of_def)
  have flow: "dw_flow r = None" using assms by (simp add: flow_inv_def)
  show ?thesis
  proof (cases "drawer_changed keys r flow_deps")
    case False
    then obtain d where d: "dw_deps r = Some d" "flow_deps d = flow_deps (drawer_deps_of keys r)"
      by (auto simp: drawer_changed_def split: option.splits)
    then have "dd_flowLoading d = dw_flowLoading r" "dd_tab d = dw_tab r" "dd_corr d = dd_corr (drawer_deps_of keys r)"
      by (simp_all add: flow_deps_def drawer_deps_of_def)
    with assms d False show ?thesis
      by (auto simp: flow_inv_def drawer_render_def flow_effect_def s) (auto simp: drawer_deps_of_def)
  next
    case True
    have old: "n < Suc (dw_flowRun r)" if "FlowFlight n c \<in> set (dw_flights r)" for n c
      using assms that unfolding flow_inv_def by (metis less_Suc_eq)
    show ?thesis
    proof (cases "corr_of keys r = None \<or> dw_tab r \<noteq> TabFlow \<or> dw_flowLoading r")
      case idle: True
      then have "flow_effect keys r ?s = ?s\<lparr>dw_flowRun := dw_flowRun r + 1\<rparr>"
        using True flow by (auto simp: flow_effect_def s Let_def split: option.split)
      then show ?thesis using idle old corr
        by (auto simp: flow_inv_def drawer_render_def s) (auto simp: drawer_deps_of_def)
    next
      case False
      then obtain c where "corr_of keys r = Some c" by auto
      then have "flow_effect keys r ?s =
          ?s\<lparr>dw_flowRun := dw_flowRun r + 1, dw_flowLoading := True, dw_flights := dw_flights ?s @ [FlowFlight (dw_flowRun r + 1) c]\<rparr>"
        using True False flow by (simp add: flow_effect_def s Let_def)
      then show ?thesis using False old
        by (auto simp: flow_inv_def drawer_render_def s) (auto simp: drawer_deps_of_def)
    qed
  qed
qed

lemma flow_stale:
  assumes "flow_inv s" "drawer_stable keys s" "FlowFlight n c \<in> set (dw_flights s)"
  shows "n < dw_flowRun s"
proof -
  from assms(1,3) consider "n < dw_flowRun s" | d where "dw_flowLoading s" "dw_deps s = Some d" "\<not> dd_flowLoading d"
    unfolding flow_inv_def by blast
  then show ?thesis
  proof cases
    case 2
    then have "dd_flowLoading d" using assms(2) by (auto simp: drawer_stable_def drawer_deps_of_def)
    with 2(3) show ?thesis by simp
  qed
qed

text \<open>A step that leaves the state of the Flow tab alone and adds no search of it.\<close>

lemma flow_inv_frame:
  assumes "flow_inv s" "dw_flow s' = dw_flow s" "dw_flowRun s' = dw_flowRun s" "dw_flowLoading s' = dw_flowLoading s"
    "dw_deps s' = dw_deps s" "\<And>n c. FlowFlight n c \<in> set (dw_flights s') \<Longrightarrow> FlowFlight n c \<in> set (dw_flights s)"
  shows "flow_inv s'"
  using assms unfolding flow_inv_def by metis

lemma flow_inv_run: "drawer_run keys server s \<Longrightarrow> flow_inv s"
proof (induction rule: drawer_run.induct)
  case (start p)
  show ?case by (simp add: flow_inv_def drawer_init_def)
next
  case (render s)
  then show ?case using flow_inv_render by blast
next
  case (flow s n c fr)
  then have "n < dw_flowRun s" using flow_stale by blast
  then show ?case using flow.IH
    by (intro flow_inv_frame [OF flow.IH])
      (auto simp: flow_answered_def drawer_landed_def dest: set_remove1_subset [THEN subsetD])
next
  case (info s p t)
  then show ?case by (intro flow_inv_frame [OF info.IH])
      (auto simp: info_answered_def drawer_landed_def dest: set_remove1_subset [THEN subsetD])
next
  case (no_info s p e)
  then show ?case by (intro flow_inv_frame [OF no_info.IH])
      (auto simp: info_answered_def drawer_landed_def dest: set_remove1_subset [THEN subsetD])
next
  case (observed s p ob)
  then show ?case by (intro flow_inv_frame [OF observed.IH])
      (auto simp: observed_answered_def drawer_landed_def dest: set_remove1_subset [THEN subsetD] split: sum.splits)
qed (auto simp: flow_inv_def fetchInfo_def)

text \<open>The Flow tab never fills: the effect that starts its search sets the loading flag it depends on, so the render
  that follows cancels the search; no answer is ever taken over, and from the first time the tab is
  opened on a task with a correlation the drawer stays in the loading state.\<close>

theorem flow_tab_never_fills:
  assumes "drawer_run keys server s" "drawer_stable keys s"
  shows "dw_flow s = None \<and> (dw_tab s = TabFlow \<and> corr_of keys s \<noteq> None \<longrightarrow> dw_flowLoading s) \<and>
    (FlowFlight n c \<in> set (dw_flights s) \<longrightarrow> flow_answered n fr s = s)"
proof -
  have inv: "flow_inv s" by (rule flow_inv_run [OF assms(1)])
  have "dw_flowLoading s" if "dw_tab s = TabFlow" "corr_of keys s \<noteq> None"
    using inv assms(2) that unfolding flow_inv_def drawer_stable_def by (auto simp: drawer_deps_of_def)
  moreover have "flow_answered n fr s = s" if "FlowFlight n c \<in> set (dw_flights s)"
    using flow_stale [OF inv assms(2) that] by (simp add: flow_answered_def)
  ultimately show ?thesis using inv by (simp add: flow_inv_def)
qed

definition drawer_at_flow :: task_drawer where
  "drawer_at_flow =
     (let open_tab = drawer_render DEFAULT_CORRELATION_KEYS
            ((drawer_render DEFAULT_CORRELATION_KEYS (drawer_at_task DEFAULT_CORRELATION_KEYS))\<lparr>dw_tab := TabFlow\<rparr>)
      in drawer_render DEFAULT_CORRELATION_KEYS open_tab)"

lemma sample_corr:
  "extractCorrelation sample_payload DEFAULT_CORRELATION_KEYS =
     Some \<lparr>cr_key = js ''trace_id'', cr_value = js ''true'', cr_nested = False\<rparr>"
  by code_simp

lemma flow_tab_never_fills_witness:
  "drawer_run DEFAULT_CORRELATION_KEYS sample_server drawer_at_flow \<and> dw_flowLoading drawer_at_flow \<and>
   dw_flights drawer_at_flow \<noteq> [] \<and> dw_flow drawer_at_flow = None"
proof -
  let ?K = DEFAULT_CORRELATION_KEYS
  have st: "drawer_stable ?K (drawer_render ?K (drawer_at_task ?K))"
    by (simp add: drawer_stable_def drawer_at_task_def drawer_eval Let_def sample_corr)
  have run: "drawer_run ?K sample_server drawer_at_flow"
    unfolding drawer_at_flow_def Let_def
    by (intro drawer_run.render drawer_run.tab sample_drawer_run st)
  have stable: "drawer_stable ?K drawer_at_flow"
    by (simp add: drawer_stable_def drawer_at_flow_def drawer_at_task_def drawer_eval Let_def sample_corr)
  have tab: "dw_tab drawer_at_flow = TabFlow" and corr: "corr_of ?K drawer_at_flow \<noteq> None"
    and fl: "dw_flights drawer_at_flow \<noteq> []"
    by (simp_all add: drawer_at_flow_def drawer_at_task_def drawer_eval Let_def sample_corr)
  from flow_tab_never_fills [OF run stable] tab corr run fl show ?thesis by blast
qed

subsection \<open>Answers of an earlier task\<close>

text \<open>
  The guard covers the task, not the error and not the observed record: what an earlier task's requests bring
  late is shown for the task at hand.
\<close>

lemma late_error_reads_not_found:
  assumes "dw_taskInfo s = None" "e \<noteq> []"
  shows "body_of (info_answered p (Inl e) s) = NotFoundBody e"
  using assms by (simp add: info_answered_def body_of_def task_of_def)

lemma late_observed_is_shown:
  assumes "task_of s = Some t" "otr_present ob" "otr_summary ob = Some sm"
  shows "task_of (observed_answered (Inr (Some ob)) s) = Some t \<and>
    EvObservedRun (os_last_duration_ms sm) \<in>
      set (lifecycle_events t (dw_observed (observed_answered (Inr (Some ob)) s)))"
  using assms by (auto simp: observed_answered_def task_of_def lifecycle_events_def event_when_def split: option.splits if_splits)

subsection \<open>Neighbours\<close>

lemma row_index_Some:
  assumes "row_index p rows = Some i"
  shows "i < length rows \<and> target_of (rows ! i) = p"
proof -
  let ?P = "\<lambda>t. \<not> (t_id t = pt_id p \<and> t_queue t = pt_queue p)"
  have i: "i = length (takeWhile ?P rows)" "i < length rows"
    using assms by (auto simp: row_index_def Let_def split: if_splits)
  then have "\<not> ?P (rows ! i)" using nth_length_takeWhile [of ?P rows] by simp
  with i show ?thesis by (cases p) (simp add: target_of_def)
qed

lemma row_index_at:
  assumes "distinct (map target_of rows)" "i < length rows"
  shows "row_index (target_of (rows ! i)) rows = Some i"
proof -
  let ?P = "\<lambda>t. \<not> (t_id t = pt_id (target_of (rows ! i)) \<and> t_queue t = pt_queue (target_of (rows ! i)))"
  have "?P (rows ! j)" if "j < i" for j
  proof -
    from that assms have "map target_of rows ! j \<noteq> map target_of rows ! i"
      by (subst nth_eq_iff_index_eq) auto
    with that assms show ?thesis by (auto simp: target_of_def)
  qed
  then have "takeWhile ?P rows = take i rows" by (intro takeWhile_eq_take_P_nth) (auto simp: target_of_def)
  then show ?thesis using assms(2) by (simp add: row_index_def Let_def)
qed

text \<open>Walking forward and back again ends where it began, over rows without a duplicate.\<close>

lemma next_then_prev:
  assumes "distinct (map target_of rows)" "nextTask p rows = Some t"
  shows "Option.bind (prevTask (target_of t) rows) (\<lambda>u. Some (target_of u)) = Some p"
proof -
  obtain i where i: "row_index p rows = Some i" "i + 1 < length rows" "t = rows ! (i + 1)"
    using assms(2) by (auto simp: nextTask_def split: option.splits if_splits)
  have "row_index (target_of t) rows = Some (i + 1)" using row_index_at [OF assms(1) i(2)] i(3) by simp
  then show ?thesis using row_index_Some [OF i(1)] by (simp add: prevTask_def)
qed

end
