(* ===== verification/OpsView.thy ===== *)
theory OpsView
  imports JobsFeed Endpoints Trends Hygiene Durations JsSort
begin

text \<open>
  The operations screen (\<open>src/ui/src/views/OpsView.tsx\<close>): the job rows merged from the polled list and the event
  feed, the expanded row with its failure report and its verification, the controls of a job, the
  burn-down of the verified state and the panel of the console's own background work. A step is one
  callback; an effect reads the state of the render it belongs to.
\<close>

subsection \<open>Rows\<close>

text \<open>
  \<open>live\<close> lists the members of \<open>liveJobs\<close> in the order \<open>Object.values\<close> gives them. Two fresh jobs of one instant
  make the comparator inconsistent; their order is then the engine's.
\<close>

definition fresh_order :: "job_info \<Rightarrow> job_info \<Rightarrow> rat" where
  "fresh_order a b = (if ji_created_at a < ji_created_at b then 1 else - 1)"

definition live_row :: "(jstring \<times> job_info) list \<Rightarrow> job_info \<Rightarrow> job_info" where
  "live_row liveJobs j = (case map_of liveJobs (ji_id j) of
     None \<Rightarrow> j
   | Some l \<Rightarrow> if isTerminalJobState (ji_state j) \<and> \<not> isTerminalJobState (ji_state l) then j else l)"

definition ops_rows :: "job_info list \<Rightarrow> (jstring \<times> job_info) list \<Rightarrow> job_info list" where
  "ops_rows jobs liveJobs =
     (if liveJobs = [] then jobs
      else js_sort fresh_order (filter (\<lambda>l. ji_id l \<notin> set (map ji_id jobs)) (map snd liveJobs)) @
        map (live_row liveJobs) jobs)"

definition hasActive :: "job_info list \<Rightarrow> bool" where
  "hasActive rows = list_ex (\<lambda>j. \<not> isTerminalJobState (ji_state j)) rows"

text \<open>Whether the list is fetched every two seconds beside the poll of the settings.\<close>

definition tight_poll :: "job_info list \<Rightarrow> feed_source \<Rightarrow> bool" where
  "tight_poll rows liveSource \<longleftrightarrow> hasActive rows \<and> liveSource \<noteq> Sse"

subsection \<open>State\<close>

record job_detail =
  jd_job :: job_info
  jd_sample :: "job_sample_row list"
  jd_failures :: "job_item_failure list"
  jd_failures_total :: int

record verify_state =
  vs_loading :: bool
  vs_verdict :: jstring
  vs_error :: jstring

datatype ops_flight = AllFlight | DetailFlight jstring | VerifyFlight job_info

text \<open>What the dependency lists name. \<open>od_version\<close> counts the identities of \<open>rows\<close>.\<close>

record ops_deps =
  od_expanded :: "jstring option"
  od_rowState :: "job_state option"
  od_version :: nat

record ops_view =
  ov_jobs :: "job_info list"
  ov_live :: "(jstring \<times> job_info) list"
  ov_version :: nat
  ov_audit :: "audit_entry list"
  ov_error :: jstring
  ov_loading :: bool
  ov_expanded :: "jstring option"
  ov_detail :: "job_detail option"
  ov_verify :: "verify_state option"
  ov_detailTimer :: "jstring option"
  ov_deps :: "ops_deps option"
  ov_flights :: "ops_flight list"

definition ops_init :: ops_view where
  "ops_init =
     \<lparr>ov_jobs = [], ov_live = [], ov_version = 0, ov_audit = [], ov_error = [], ov_loading = True, ov_expanded = None,
      ov_detail = None, ov_verify = None, ov_detailTimer = None, ov_deps = None, ov_flights = []\<rparr>"

definition rows_of :: "ops_view \<Rightarrow> job_info list" where
  "rows_of s = ops_rows (ov_jobs s) (ov_live s)"

definition expanded_row :: "ops_view \<Rightarrow> job_info option" where
  "expanded_row s = List.find (\<lambda>j. Some (ji_id j) = ov_expanded s) (rows_of s)"

definition ops_deps_of :: "ops_view \<Rightarrow> ops_deps" where
  "ops_deps_of s =
     \<lparr>od_expanded = ov_expanded s, od_rowState = map_option ji_state (expanded_row s), od_version = ov_version s\<rparr>"

definition ops_stable :: "ops_view \<Rightarrow> bool" where
  "ops_stable s \<longleftrightarrow> ov_deps s = Some (ops_deps_of s)"

subsection \<open>Requests and answers\<close>

definition ops_send :: "ops_flight \<Rightarrow> ops_view \<Rightarrow> ops_view" where
  "ops_send f s = s\<lparr>ov_flights := ov_flights s @ [f]\<rparr>"

definition all_answered :: "jstring + (job_info list \<times> audit_entry list) \<Rightarrow> ops_view \<Rightarrow> ops_view" where
  "all_answered answer s =
     (case answer of
        Inr (jobs, audit) \<Rightarrow> s\<lparr>ov_jobs := jobs, ov_version := ov_version s + 1, ov_audit := audit, ov_error := []\<rparr>
      | Inl e \<Rightarrow> s\<lparr>ov_error := e\<rparr>)\<lparr>ov_loading := False\<rparr>"

definition live_changed :: "(jstring \<times> job_info) list \<Rightarrow> ops_view \<Rightarrow> ops_view" where
  "live_changed liveJobs s =
     s\<lparr>ov_live := liveJobs, ov_version := (if liveJobs = [] \<and> ov_live s = [] then ov_version s else ov_version s + 1)\<rparr>"

definition detail_answered :: "jstring + job_detail \<Rightarrow> ops_view \<Rightarrow> ops_view" where
  "detail_answered answer s = (case answer of Inr d \<Rightarrow> s\<lparr>ov_detail := Some d\<rparr> | Inl e \<Rightarrow> s\<lparr>ov_error := e\<rparr>)"

text \<open>The search a verification sends: the scope of the job, without its query in the task language.\<close>

definition verify_call :: "api_env \<Rightarrow> job_scope \<Rightarrow> unit api_call option" where
  "verify_call env scope =
     searchTasks env
       \<lparr>tf_queue = Some (if js_queue scope \<noteq> [] then js_queue scope else js ''all''), tf_state = js_state scope,
        tf_q = Some (js_q scope), tf_meta = js_meta scope\<rparr>
       \<lparr>sp_page = Some 1, sp_size = Some 1, sp_maxScan = None, sp_cursor = None, sp_scanCursor = None\<rparr>"

definition runVerify :: "job_info \<Rightarrow> ops_view \<Rightarrow> ops_view" where
  "runVerify j s =
     ops_send (VerifyFlight j) (s\<lparr>ov_verify := Some \<lparr>vs_loading = True, vs_verdict = [], vs_error = []\<rparr>\<rparr>)"

definition verify_answered :: "job_info \<Rightarrow> jstring + (int \<times> bool) \<Rightarrow> ops_view \<Rightarrow> ops_view" where
  "verify_answered j answer s =
     s\<lparr>ov_verify := Some (case answer of
          Inr (n, truncated) \<Rightarrow>
            \<lparr>vs_loading = False, vs_verdict = verifyVerdict n truncated (ji_scope j) (ji_counts j), vs_error = []\<rparr>
        | Inl e \<Rightarrow> \<lparr>vs_loading = False, vs_verdict = [], vs_error = e\<rparr>)\<rparr>"

subsection \<open>Effects\<close>

definition ops_changed :: "ops_view \<Rightarrow> (ops_deps \<Rightarrow> 'a) \<Rightarrow> bool" where
  "ops_changed r f \<longleftrightarrow> (case ov_deps r of None \<Rightarrow> True | Some d \<Rightarrow> f d \<noteq> f (ops_deps_of r))"

definition detail_effect :: "ops_view \<Rightarrow> ops_view \<Rightarrow> ops_view" where
  "detail_effect r s =
     (if \<not> ops_changed r (\<lambda>d. (od_expanded d, od_rowState d)) then s
      else
        let s = s\<lparr>ov_detailTimer := None, ov_detail := None, ov_verify := None\<rparr> in
        case ov_expanded r of
          None \<Rightarrow> s
        | Some i \<Rightarrow>
            if i = [] then s
            else
              let s = ops_send (DetailFlight i) s in
              case expanded_row r of
                Some row \<Rightarrow> if isTerminalJobState (ji_state row) then s else s\<lparr>ov_detailTimer := Some i\<rparr>
              | None \<Rightarrow> s)"

definition verify_effect :: "ops_view \<Rightarrow> ops_view \<Rightarrow> ops_view" where
  "verify_effect r s =
     (if \<not> ops_changed r (\<lambda>d. (od_expanded d, od_version d)) \<or> ov_expanded r \<in> {None, Some []} then s
      else case expanded_row r of
        Some row \<Rightarrow> if ji_state row = JobDone \<and> ov_verify r = None then runVerify row s else s
      | None \<Rightarrow> s)"

definition ops_render :: "ops_view \<Rightarrow> ops_view" where
  "ops_render r = (verify_effect r (detail_effect r r))\<lparr>ov_deps := Some (ops_deps_of r)\<rparr>"

subsection \<open>Handlers\<close>

definition toggle_row :: "jstring \<Rightarrow> ops_view \<Rightarrow> ops_view" where
  "toggle_row i s = s\<lparr>ov_expanded := (if ov_expanded s = Some i then None else Some i)\<rparr>"

datatype job_control = PauseJob | ResumeJob | CancelJob

text \<open>The buttons of a row, and what follows the answer of the server.\<close>

definition offered_controls :: "bool \<Rightarrow> job_info \<Rightarrow> job_control list" where
  "offered_controls readOnly j =
     (if readOnly then []
      else (if ji_state j \<in> {Running, Previewing} then [PauseJob] else []) @
        (if ji_state j = Paused \<or> ji_ctl_pending j = js ''pause'' then [ResumeJob] else []) @
        (if \<not> isTerminalJobState (ji_state j) then [CancelJob] else []))"

definition ctl_answered :: "jstring option \<Rightarrow> ops_view \<Rightarrow> ops_view" where
  "ctl_answered failed s = ops_send AllFlight (s\<lparr>ov_error := (case failed of None \<Rightarrow> [] | Some e \<Rightarrow> e)\<rparr>)"

subsection \<open>Verification panel\<close>

datatype verify_panel = VerifyWaits | VerifyCounting | VerifyFailed jstring | VerifyDrained jstring | VerifyRemaining jstring | VerifyNone

definition verify_panel_of :: "job_info \<Rightarrow> verify_state option \<Rightarrow> verify_panel" where
  "verify_panel_of j v =
     (if ji_state j \<noteq> JobDone then VerifyWaits
      else case v of
        None \<Rightarrow> VerifyNone
      | Some v \<Rightarrow>
          if vs_loading v then VerifyCounting
          else if vs_error v \<noteq> [] then VerifyFailed (vs_error v)
          else if vs_verdict v = [] then VerifyNone
          else if js_includes (js ''drained'') (vs_verdict v) then VerifyDrained (vs_verdict v)
          else VerifyRemaining (vs_verdict v))"

text \<open>The failure report: the rows shown and how many more there are.\<close>

definition failure_report :: "job_detail option \<Rightarrow> job_item_failure list \<times> int" where
  "failure_report detail = (case detail of
     None \<Rightarrow> ([], 0)
   | Some d \<Rightarrow>
       (jd_failures d,
        if jd_failures d \<noteq> [] \<and> jd_failures_total d > int (length (jd_failures d))
        then jd_failures_total d - int (length (jd_failures d)) else 0))"

subsection \<open>Burn-down\<close>

definition STATE_METRIC :: "(jstring \<times> jstring) list" where
  "STATE_METRIC =
     [(js ''pending'', js ''pending''), (js ''active'', js ''active''), (js ''retry'', js ''retry''), (js ''archived'', js ''archived'')]"

definition burn_scope :: "job_scope \<Rightarrow> jstring" where
  "burn_scope sc =
     (if js_queue sc \<noteq> [] \<and> js_queue sc \<noteq> js ''all'' then js ''queue:'' @ js_queue sc else js ''fleet'')"

record burn_down =
  bd_series :: "series_response option"
  bd_failed :: bool

definition series_spec_of :: "job_scope \<Rightarrow> series_spec option" where
  "series_spec_of sc =
     map_option (\<lambda>metric. \<lparr>sspec_scope = burn_scope sc, sspec_metric = metric, sspec_window = Window3h, sspec_points = None\<rparr>)
       (map_of STATE_METRIC (js_state sc))"

definition burn_answered :: "bool \<Rightarrow> series_response option \<Rightarrow> burn_down \<Rightarrow> burn_down" where
  "burn_answered disposed answer s =
     (if disposed then s
      else case answer of Some r \<Rightarrow> s\<lparr>bd_series := Some r, bd_failed := False\<rparr> | None \<Rightarrow> s\<lparr>bd_failed := True\<rparr>)"

datatype burn_panel = BurnHidden | BurnLearning | BurnChart "series_point list" jstring bool

definition burn_panel_of :: "int \<Rightarrow> job_scope \<Rightarrow> burn_down \<Rightarrow> burn_panel" where
  "burn_panel_of nowSec sc s =
     (case (map_of STATE_METRIC (js_state sc), bd_failed s, bd_series s) of
        (Some _, False, Some series) \<Rightarrow>
          (case burnDownProjection (sers_points series) of
             None \<Rightarrow> BurnLearning
           | Some proj \<Rightarrow>
               BurnChart (sliceLastSeconds (sers_points series) (30 * 60) nowSec) (projectionSentence (Some proj))
                 (pr_etaMinutes proj \<noteq> None))
      | _ \<Rightarrow> BurnHidden)"

subsection \<open>Audit log and system activity\<close>

definition audit_text :: "(int \<Rightarrow> jstring) \<Rightarrow> audit_entry \<Rightarrow> jstring" where
  "audit_text locale_string e =
     (if ae2_event e = js ''job_finished''
      then ae2_verb e @ js '' finished'' @ dash @ locale_string (ae2_acted e) @ js '' acted, '' @
        locale_string (ae2_skipped e) @ js '' skipped, '' @ locale_string (ae2_failed e) @ js '' failed (preview '' @
        locale_string (ae2_preview_count e) @ js '')''
      else ae2_verb e @ js '' job created'')"

record system_panel =
  sy_health :: "health_roles_response option"
  sy_hygiene :: "hygiene_card list option"

definition health_answered :: "health_roles_response option \<Rightarrow> system_panel \<Rightarrow> system_panel" where
  "health_answered answer s = s\<lparr>sy_health := answer\<rparr>"

definition hygiene_answered :: "list_hygiene_response option \<Rightarrow> system_panel \<Rightarrow> system_panel" where
  "hygiene_answered answer s = s\<lparr>sy_hygiene := map_option lhr_reports answer\<rparr>"

definition panel_shown :: "system_panel \<Rightarrow> bool" where
  "panel_shown s \<longleftrightarrow> \<not> (sy_health s = None \<and> sy_hygiene s = None)"

definition hygiene_line :: "hygiene_card \<Rightarrow> jstring" where
  "hygiene_line c = (if hcard_enabled c then formatInterval (hcard_interval_seconds c) else js ''disabled'')"

definition role_holder :: "health_role \<Rightarrow> jstring" where
  "role_holder r = (if hr2_holder r \<noteq> [] then hr2_holder r else js ''unheld'')"

subsection \<open>Each job once, and finished jobs stay finished\<close>

lemma insert_by_sorted_wrt:
  assumes "\<And>y. cmp x y \<le> 0 \<Longrightarrow> R x y" "\<And>y. \<not> cmp x y \<le> 0 \<Longrightarrow> R y x" "transp R" "sorted_wrt R ys"
  shows "sorted_wrt R (insert_by cmp x ys)"
  using assms(4)
proof (induction ys)
  case (Cons y ys)
  have "set (insert_by cmp x ys) = insert x (set ys)" by (metis mset_insert_by set_mset_add_mset_insert set_mset_mset)
  moreover have "R x z" if "R x y" "z \<in> set ys" for z using that Cons.prems transpD [OF assms(3)] by auto
  ultimately show ?case using Cons assms(1) [of y] assms(2) [of y] by auto
qed simp

lemma fresh_newest_first: "sorted_wrt (\<lambda>a b. ji_created_at b \<le> ji_created_at a) (js_sort fresh_order ls)"
proof -
  have "sorted_wrt (\<lambda>a b. ji_created_at b \<le> ji_created_at a) (foldr (insert_by fresh_order) ls [])"
  proof (induction ls)
    case (Cons l ls)
    have "sorted_wrt (\<lambda>a b. ji_created_at b \<le> ji_created_at a) (insert_by fresh_order l (foldr (insert_by fresh_order) ls []))"
      by (rule insert_by_sorted_wrt) (auto simp: fresh_order_def transp_def Cons.IH split: if_splits)
    then show ?case by simp
  qed simp
  then show ?thesis by (simp add: js_sort_def)
qed

lemma distinct_js_sort: "distinct (map f (js_sort cmp xs)) \<longleftrightarrow> distinct (map f xs)"
proof -
  have "mset (map f (js_sort cmp xs)) = mset (map f xs)" by simp
  then show ?thesis by (rule mset_eq_imp_distinct_iff)
qed

lemma live_row_id:
  assumes "\<forall>(k, l) \<in> set liveJobs. ji_id l = k"
  shows "ji_id (live_row liveJobs j) = ji_id j"
  using assms by (auto simp: live_row_def dest!: map_of_SomeD split: option.split)

lemma live_row_finished:
  "isTerminalJobState (ji_state (live_row liveJobs j)) \<longleftrightarrow>
     isTerminalJobState (ji_state j) \<or>
     (\<exists>l. map_of liveJobs (ji_id j) = Some l \<and> isTerminalJobState (ji_state l))"
  by (auto simp: live_row_def split: option.split)

text \<open>C17. The rows show every job of either source once: the jobs of the list in its order, before them those only the feed
  knows, newest first; and a job is shown as finished exactly when one of the two sources says so.\<close>

theorem ops_rows_show_each_job_once:
  assumes "distinct (map ji_id jobs)" "distinct (map fst liveJobs)" "\<forall>(k, l) \<in> set liveJobs. ji_id l = k"
  shows "distinct (map ji_id (ops_rows jobs liveJobs)) \<and>
    (\<exists>fresh. ops_rows jobs liveJobs = fresh @ map (live_row liveJobs) jobs \<and>
       set fresh = {l \<in> snd ` set liveJobs. ji_id l \<notin> ji_id ` set jobs} \<and>
       sorted_wrt (\<lambda>a b. ji_created_at b \<le> ji_created_at a) fresh) \<and>
    (\<forall>r \<in> set (ops_rows jobs liveJobs). isTerminalJobState (ji_state r) \<longleftrightarrow>
       (\<exists>j \<in> set jobs \<union> snd ` set liveJobs. ji_id j = ji_id r \<and> isTerminalJobState (ji_state j)))"
proof -
  define fresh where
    "fresh = (if liveJobs = [] then []
       else js_sort fresh_order (filter (\<lambda>l. ji_id l \<notin> set (map ji_id jobs)) (map snd liveJobs)))"
  have rows: "ops_rows jobs liveJobs = fresh @ map (live_row liveJobs) jobs"
    by (simp add: ops_rows_def live_row_def map_idI fresh_def)
  have members: "set fresh = {l \<in> snd ` set liveJobs. ji_id l \<notin> ji_id ` set jobs}" by (auto simp: fresh_def)
  have order: "sorted_wrt (\<lambda>a b. ji_created_at b \<le> ji_created_at a) fresh" by (simp add: fresh_newest_first fresh_def)
  have keys: "map ji_id (map snd liveJobs) = map fst liveJobs" using assms(3) by (induction liveJobs) auto
  have "distinct (map ji_id (filter (\<lambda>l. ji_id l \<notin> set (map ji_id jobs)) (map snd liveJobs)))"
    using assms(2) unfolding keys [symmetric] by (rule distinct_map_filter)
  then have "distinct (map ji_id fresh)"
    by (cases "liveJobs = []") (simp add: fresh_def, simp only: fresh_def if_False distinct_js_sort)
  moreover have ids: "map ji_id (map (live_row liveJobs) jobs) = map ji_id jobs"
    using live_row_id [OF assms(3)] by simp
  moreover have "set (map ji_id fresh) \<inter> set (map ji_id jobs) = {}" using members by auto
  ultimately have "distinct (map ji_id (ops_rows jobs liveJobs))"
    unfolding rows map_append ids distinct_append using assms(1) by blast
  moreover have "isTerminalJobState (ji_state r) \<longleftrightarrow>
      (\<exists>j \<in> set jobs \<union> snd ` set liveJobs. ji_id j = ji_id r \<and> isTerminalJobState (ji_state j))"
    if r: "r \<in> set (ops_rows jobs liveJobs)" for r
  proof -
    have live: "map_of liveJobs (ji_id l) = Some l \<longleftrightarrow> l \<in> snd ` set liveJobs" for l
      using assms(2,3) by (force dest: map_of_SomeD simp: map_of_eq_Some_iff)
    have "r \<in> set fresh \<or> r \<in> live_row liveJobs ` set jobs" using r unfolding rows by simp
    then consider (new) "r \<in> snd ` set liveJobs" "ji_id r \<notin> ji_id ` set jobs"
      | (old) j where "j \<in> set jobs" "r = live_row liveJobs j" 
      unfolding members by blast
    then show ?thesis
    proof cases
      case new
      have only: "j = r" if j: "j \<in> set jobs \<union> snd ` set liveJobs" "ji_id j = ji_id r" for j
      proof -
        have "ji_id j \<notin> ji_id ` set jobs" using new(2) by (simp only: j(2) not_False_eq_True)
        then have "j \<in> snd ` set liveJobs" using j(1) by blast
        then have "map_of liveJobs (ji_id j) = Some j" "map_of liveJobs (ji_id r) = Some r" using live new(1) by blast+
        then show ?thesis unfolding j(2) by simp
      qed
      have "r \<in> set jobs \<union> snd ` set liveJobs" using new(1) by (rule UnI2)
      moreover have "isTerminalJobState (ji_state r)"
        if "j \<in> set jobs \<union> snd ` set liveJobs \<and> ji_id j = ji_id r \<and> isTerminalJobState (ji_state j)" for j
        using that only [of j] by simp
      ultimately show ?thesis by blast
    next
      case old
      then have i: "ji_id r = ji_id j" using live_row_id [OF assms(3)] by simp
      have "k = j" if "k \<in> set jobs" "ji_id k = ji_id j" for k
        using that old(1) assms(1) by (auto simp: distinct_map dest: inj_onD)
      then have own: "k \<in> set jobs \<and> ji_id k = ji_id j \<longleftrightarrow> k = j" for k using old(1) by blast
      have feed: "map_of liveJobs (ji_id j) = Some k \<longleftrightarrow> k \<in> snd ` set liveJobs \<and> ji_id k = ji_id j" for k
      proof
        assume found: "map_of liveJobs (ji_id j) = Some k"
        then have "ji_id k = ji_id j" using map_of_SomeD [OF found] assms(3) by auto
        then show "k \<in> snd ` set liveJobs \<and> ji_id k = ji_id j" using found live [of k] by simp
      next
        assume "k \<in> snd ` set liveJobs \<and> ji_id k = ji_id j"
        then show "map_of liveJobs (ji_id j) = Some k" using live [of k] by simp
      qed
      have "isTerminalJobState (ji_state r) \<longleftrightarrow> isTerminalJobState (ji_state j) \<or>
          (\<exists>l. map_of liveJobs (ji_id j) = Some l \<and> isTerminalJobState (ji_state l))"
        unfolding old(2) by (rule live_row_finished)
      moreover have "(\<exists>k \<in> set jobs \<union> snd ` set liveJobs. ji_id k = ji_id j \<and> isTerminalJobState (ji_state k)) \<longleftrightarrow>
          (\<exists>k. (k \<in> set jobs \<and> ji_id k = ji_id j) \<and> isTerminalJobState (ji_state k)) \<or>
          (\<exists>k. (k \<in> snd ` set liveJobs \<and> ji_id k = ji_id j) \<and> isTerminalJobState (ji_state k))"
        by blast
      ultimately show ?thesis unfolding i own feed [symmetric] by simp
    qed
  qed
  ultimately show ?thesis using rows members order by blast
qed

text \<open>A finished job that the feed still reports as running, and one the list does not know.\<close>

lemma ops_rows_show_each_job_once_witness:
  "distinct (map ji_id (ops_rows [sample_job JobDone]
     [(js ''jb_1'', sample_job Running), (js ''jb_2'', (sample_job Paused)\<lparr>ji_id := js ''jb_2''\<rparr>)])) \<and>
   map ji_state (ops_rows [sample_job JobDone]
     [(js ''jb_1'', sample_job Running), (js ''jb_2'', (sample_job Paused)\<lparr>ji_id := js ''jb_2''\<rparr>)]) = [Paused, JobDone]"
proof -
  let ?l = "[(js ''jb_1'', sample_job Running), (js ''jb_2'', (sample_job Paused)\<lparr>ji_id := js ''jb_2''\<rparr>)]"
  have "distinct (map ji_id [sample_job JobDone])" "distinct (map fst ?l)" "\<forall>(k, l) \<in> set ?l. ji_id l = k"
    by (simp_all add: sample_job_def js_def)
  from ops_rows_show_each_job_once [OF this] have "distinct (map ji_id (ops_rows [sample_job JobDone] ?l))" by (rule conjunct1)
  moreover have "map ji_state (ops_rows [sample_job JobDone] ?l) = [Paused, JobDone]"
    by (simp add: ops_rows_def live_row_def sample_job_def js_def js_sort_def isTerminalJobState_def)
  ultimately show ?thesis by blast
qed

subsection \<open>The panel and the row it belongs to\<close>

definition ops_landed :: "ops_flight \<Rightarrow> ops_view \<Rightarrow> ops_view" where
  "ops_landed f s = s\<lparr>ov_flights := remove1 f (ov_flights s)\<rparr>"

text \<open>Nothing that belongs to one row is out.\<close>

definition quiet_panel :: "ops_view \<Rightarrow> bool" where
  "quiet_panel s \<longleftrightarrow> set (ov_flights s) \<subseteq> {AllFlight}"

text \<open>
  The runs; the server answers a request for a job with that job. In a patient run a row is opened or closed
  only while no request of the panel is out.
\<close>

inductive ops_run :: "bool \<Rightarrow> ops_view \<Rightarrow> bool" for patient where
  start: "ops_run patient ops_init"
| render: "ops_run patient s \<Longrightarrow> ops_run patient (ops_render s)"
| poll: "ops_run patient s \<Longrightarrow> ops_stable s \<Longrightarrow> ops_run patient (ops_send AllFlight s)"
| listed: "ops_run patient s \<Longrightarrow> ops_stable s \<Longrightarrow> AllFlight \<in> set (ov_flights s) \<Longrightarrow>
    ops_run patient (all_answered a (ops_landed AllFlight s))"
| live: "ops_run patient s \<Longrightarrow> ops_stable s \<Longrightarrow> ops_run patient (live_changed l s)"
| tick: "ops_run patient s \<Longrightarrow> ops_stable s \<Longrightarrow> ov_detailTimer s = Some i \<Longrightarrow>
    ops_run patient (ops_send (DetailFlight i) s)"
| detail: "ops_run patient s \<Longrightarrow> ops_stable s \<Longrightarrow> DetailFlight (ji_id (jd_job d)) \<in> set (ov_flights s) \<Longrightarrow>
    ops_run patient (detail_answered (Inr d) (ops_landed (DetailFlight (ji_id (jd_job d))) s))"
| no_detail: "ops_run patient s \<Longrightarrow> ops_stable s \<Longrightarrow> DetailFlight i \<in> set (ov_flights s) \<Longrightarrow>
    ops_run patient (detail_answered (Inl e) (ops_landed (DetailFlight i) s))"
| verified: "ops_run patient s \<Longrightarrow> ops_stable s \<Longrightarrow> VerifyFlight j \<in> set (ov_flights s) \<Longrightarrow>
    ops_run patient (verify_answered j a (ops_landed (VerifyFlight j) s))"
| recheck: "ops_run patient s \<Longrightarrow> ops_stable s \<Longrightarrow> expanded_row s = Some j \<Longrightarrow> ops_run patient (runVerify j s)"
| control: "ops_run patient s \<Longrightarrow> ops_stable s \<Longrightarrow> ops_run patient (ctl_answered e s)"
| toggle: "ops_run patient s \<Longrightarrow> ops_stable s \<Longrightarrow> (patient \<Longrightarrow> quiet_panel s) \<Longrightarrow> ops_run patient (toggle_row i s)"

text \<open>The row the effects have last run for.\<close>

definition panel_row :: "ops_view \<Rightarrow> jstring option" where
  "panel_row s = Option.bind (ov_deps s) od_expanded"

definition verdict_of_row :: "jstring option \<Rightarrow> verify_state \<Rightarrow> bool" where
  "verdict_of_row i v \<longleftrightarrow>
     vs_verdict v = [] \<or>
     (\<exists>(j :: job_info) n truncated. Some (ji_id j) = i \<and> vs_verdict v = verifyVerdict n truncated (ji_scope j) (ji_counts j))"

definition flight_of_row :: "jstring option \<Rightarrow> ops_flight \<Rightarrow> bool" where
  "flight_of_row i f = (case f of
     AllFlight \<Rightarrow> True | DetailFlight k \<Rightarrow> Some k = i | VerifyFlight j \<Rightarrow> Some (ji_id j) = i)"

definition panel_ok :: "ops_view \<Rightarrow> bool" where
  "panel_ok s \<longleftrightarrow>
     (\<forall>d. ov_detail s = Some d \<longrightarrow> Some (ji_id (jd_job d)) = panel_row s) \<and>
     (\<forall>v. ov_verify s = Some v \<longrightarrow> verdict_of_row (panel_row s) v) \<and>
     (\<forall>f \<in> set (ov_flights s). flight_of_row (panel_row s) f) \<and>
     (\<forall>i. ov_detailTimer s = Some i \<longrightarrow> Some i = panel_row s) \<and>
     (ov_expanded s = panel_row s \<or> quiet_panel s)"

lemma expanded_row_id: "expanded_row s = Some j \<Longrightarrow> Some (ji_id j) = ov_expanded s"
  by (auto simp: expanded_row_def find_Some_iff)

lemma quiet_of_row: "quiet_panel s \<Longrightarrow> \<forall>f \<in> set (ov_flights s). flight_of_row i f"
  by (auto simp: quiet_panel_def flight_of_row_def)

text \<open>What an effect leaves behind is about the row it ran for.\<close>

definition panel_about :: "jstring option \<Rightarrow> ops_view \<Rightarrow> bool" where
  "panel_about i s \<longleftrightarrow>
     (\<forall>d. ov_detail s = Some d \<longrightarrow> Some (ji_id (jd_job d)) = i) \<and>
     (\<forall>v. ov_verify s = Some v \<longrightarrow> verdict_of_row i v) \<and>
     (\<forall>f \<in> set (ov_flights s). flight_of_row i f) \<and>
     (\<forall>k. ov_detailTimer s = Some k \<longrightarrow> Some k = i)"

lemma panel_ok_iff: "panel_ok s \<longleftrightarrow> panel_about (panel_row s) s \<and> (ov_expanded s = panel_row s \<or> quiet_panel s)"
  by (auto simp: panel_ok_def panel_about_def)

lemma about_send: "panel_about i s \<Longrightarrow> flight_of_row i f \<Longrightarrow> panel_about i (ops_send f s)"
  by (auto simp: panel_about_def ops_send_def)

lemma about_runVerify: "panel_about i s \<Longrightarrow> Some (ji_id j) = i \<Longrightarrow> panel_about i (runVerify j s)"
  unfolding runVerify_def
  by (rule about_send) (auto simp: panel_about_def verdict_of_row_def flight_of_row_def)

lemma about_verify_effect: "panel_about (ov_expanded r) s \<Longrightarrow> panel_about (ov_expanded r) (verify_effect r s)"
  by (auto simp: verify_effect_def dest: expanded_row_id intro: about_runVerify split: option.split)

lemma about_detail_effect:
  assumes "panel_ok r"
  shows "panel_about (ov_expanded r) (detail_effect r r)"
proof (cases "ops_changed r (\<lambda>d. (od_expanded d, od_rowState d))")
  case False
  then have "ov_expanded r = panel_row r"
    by (auto simp: ops_changed_def panel_row_def ops_deps_of_def split: option.splits)
  with assms False show ?thesis by (simp add: detail_effect_def panel_ok_iff)
next
  case True
  have "\<forall>f \<in> set (ov_flights r). flight_of_row (ov_expanded r) f"
  proof (cases "ov_expanded r = panel_row r")
    case True
    with assms show ?thesis by (simp add: panel_ok_def)
  next
    case False
    with assms show ?thesis by (intro quiet_of_row) (simp add: panel_ok_def)
  qed
  then have cleared: "panel_about (ov_expanded r) (r\<lparr>ov_detailTimer := None, ov_detail := None, ov_verify := None\<rparr>)"
    by (simp add: panel_about_def)
  have timer: "panel_about (Some i) (s\<lparr>ov_detailTimer := Some i\<rparr>)" if "panel_about (Some i) s" for s i
    using that by (auto simp: panel_about_def)
  show ?thesis using True cleared
    by (auto simp: detail_effect_def Let_def flight_of_row_def intro!: timer about_send split: option.split)
qed

lemma panel_ok_render:
  assumes "panel_ok r"
  shows "panel_ok (ops_render r)"
proof -
  have "panel_about (ov_expanded r) (verify_effect r (detail_effect r r))"
    by (rule about_verify_effect [OF about_detail_effect [OF assms]])
  moreover have "ov_expanded (verify_effect r (detail_effect r r)) = ov_expanded r"
    by (auto simp: verify_effect_def detail_effect_def runVerify_def ops_send_def Let_def split: option.split)
  ultimately show ?thesis
    by (simp add: panel_ok_iff ops_render_def panel_row_def ops_deps_of_def panel_about_def)
qed

text \<open>A step that leaves the row and the effects alone.\<close>

lemma panel_ok_step:
  assumes "panel_ok s" "ops_stable s" "ov_expanded s' = ov_expanded s" "ov_deps s' = ov_deps s"
    "panel_about (panel_row s) s \<Longrightarrow> panel_about (panel_row s) s'"
  shows "panel_ok s'"
proof -
  have "ov_expanded s = panel_row s" using assms(2) by (simp add: ops_stable_def panel_row_def ops_deps_of_def)
  with assms show ?thesis by (simp add: panel_ok_iff panel_row_def)
qed

lemma stable_row: "ops_stable s \<Longrightarrow> panel_row s = ov_expanded s"
  by (simp add: ops_stable_def panel_row_def ops_deps_of_def)

lemma about_landed: "panel_about i s \<Longrightarrow> panel_about i (ops_landed f s)"
  by (auto simp: panel_about_def ops_landed_def dest: set_remove1_subset [THEN subsetD])

lemma about_detail: "panel_about i s \<Longrightarrow> Some (ji_id (jd_job d)) = i \<Longrightarrow> panel_about i (detail_answered (Inr d) s)"
  by (simp add: panel_about_def detail_answered_def)

lemma about_verify: "panel_about i s \<Longrightarrow> Some (ji_id j) = i \<Longrightarrow> panel_about i (verify_answered j a s)"
  using verdict_of_row_def by (auto simp: panel_about_def verify_answered_def split: sum.splits) fastforce+

lemma about_frame:
  "panel_about i (all_answered x s) = panel_about i s" "panel_about i (live_changed l s) = panel_about i s"
  "panel_about i (detail_answered (Inl e) s) = panel_about i s"
  by (simp_all add: panel_about_def all_answered_def live_changed_def detail_answered_def split: sum.split prod.split)

lemma flight_about: "panel_ok s \<Longrightarrow> f \<in> set (ov_flights s) \<Longrightarrow> flight_of_row (panel_row s) f"
  by (simp add: panel_ok_def)

lemma panel_ok_run: "ops_run True s \<Longrightarrow> panel_ok s"
proof (induction rule: ops_run.induct)
  case start
  show ?case by (simp add: panel_ok_def ops_init_def panel_row_def quiet_panel_def)
next
  case (render s)
  then show ?case by (intro panel_ok_render)
next
  case (poll s)
  then show ?case by (intro panel_ok_step [OF poll.IH]) 
      (simp_all add: about_send flight_of_row_def, simp_all add: ops_send_def)
next
  case (listed s a)
  then show ?case
    by (intro panel_ok_step [OF listed.IH])
      (simp_all add: about_frame about_landed, simp_all add: all_answered_def ops_landed_def split: sum.split prod.split)
next
  case (live s l)
  then show ?case by (intro panel_ok_step [OF live.IH]) (simp_all add: about_frame, simp_all add: live_changed_def)
next
  case (tick s i)
  then have "Some i = panel_row s" by (simp add: panel_ok_def)
  with tick show ?case
    by (intro panel_ok_step [OF tick.IH]) (simp_all add: about_send flight_of_row_def, simp_all add: ops_send_def)
next
  case (detail s d)
  then have "Some (ji_id (jd_job d)) = panel_row s" using flight_about by (fastforce simp: flight_of_row_def)
  with detail show ?case
    by (intro panel_ok_step [OF detail.IH])
      (simp_all add: about_detail about_landed, simp_all add: detail_answered_def ops_landed_def)
next
  case (no_detail s i e)
  then show ?case
    by (intro panel_ok_step [OF no_detail.IH])
      (simp_all add: about_frame about_landed, simp_all add: detail_answered_def ops_landed_def)
next
  case (verified s j a)
  then have "Some (ji_id j) = panel_row s" using flight_about by (fastforce simp: flight_of_row_def)
  with verified show ?case
    by (intro panel_ok_step [OF verified.IH])
      (simp_all add: about_verify about_landed, simp_all add: verify_answered_def ops_landed_def)
next
  case (recheck s j)
  then have "Some (ji_id j) = panel_row s" using expanded_row_id stable_row by simp
  with recheck show ?case
    by (intro panel_ok_step [OF recheck.IH]) (simp_all add: about_runVerify, simp_all add: runVerify_def ops_send_def)
next
  case (control s e)
  then show ?case
    by (intro panel_ok_step [OF control.IH])
      (auto simp: ctl_answered_def panel_about_def ops_send_def flight_of_row_def)
next
  case (toggle s i)
  then show ?case by (simp add: panel_ok_def toggle_row_def panel_row_def quiet_panel_def)
qed


text \<open>A finished job is listed and its row opened; its details and the count of its scope arrive.\<close>

definition sample_detail :: job_detail where
  "sample_detail = \<lparr>jd_job = sample_job JobDone, jd_sample = [], jd_failures = [], jd_failures_total = 0\<rparr>"

definition ops_listed :: ops_view where
  "ops_listed =
     ops_render (all_answered (Inr ([sample_job JobDone], [])) (ops_landed AllFlight (ops_send AllFlight (ops_render ops_init))))"

definition ops_opened :: ops_view where
  "ops_opened = ops_render (toggle_row (js ''jb_1'') ops_listed)"

definition ops_checked :: ops_view where
  "ops_checked =
     verify_answered (sample_job JobDone) (Inr (0, False)) (ops_landed (VerifyFlight (sample_job JobDone))
       (detail_answered (Inr sample_detail) (ops_landed (DetailFlight (js ''jb_1'')) ops_opened)))"

lemmas ops_eval =
  ops_init_def ops_render_def verify_effect_def detail_effect_def ops_changed_def ops_deps_of_def ops_stable_def
  expanded_row_def rows_of_def ops_rows_def ops_send_def ops_landed_def all_answered_def detail_answered_def
  verify_answered_def runVerify_def toggle_row_def quiet_panel_def

lemma ops_listed_value:
  "ops_listed =
     ops_init\<lparr>ov_jobs := [sample_job JobDone], ov_version := 1, ov_loading := False,
       ov_deps := Some \<lparr>od_expanded = None, od_rowState = None, od_version = 1\<rparr>\<rparr>"
  by (simp add: ops_listed_def ops_eval)

lemma ops_opened_value:
  "ops_opened = ops_listed
     \<lparr>ov_expanded := Some (js ''jb_1''), ov_verify := Some \<lparr>vs_loading = True, vs_verdict = [], vs_error = []\<rparr>,
      ov_deps := Some \<lparr>od_expanded = Some (js ''jb_1''), od_rowState = Some JobDone, od_version = 1\<rparr>,
      ov_flights := [DetailFlight (js ''jb_1''), VerifyFlight (sample_job JobDone)]\<rparr>"
  unfolding ops_opened_def ops_listed_value
  by (simp add: ops_eval sample_job_def isTerminalJobState_def)

lemma ops_opened_run: "ops_run True ops_opened"
proof -
  have "ops_stable (ops_render ops_init)" "ops_stable (ops_send AllFlight (ops_render ops_init))"
    "AllFlight \<in> set (ov_flights (ops_send AllFlight (ops_render ops_init)))"
    by (simp_all add: ops_eval)
  then have "ops_run True ops_listed" unfolding ops_listed_def by (intro ops_run.intros)
  moreover have "ops_stable ops_listed" "quiet_panel ops_listed" by (simp_all add: ops_listed_value ops_eval)
  ultimately show ?thesis unfolding ops_opened_def by (intro ops_run.render ops_run.toggle)
qed

lemma ops_opened_stable: "ops_stable ops_opened"
  by (simp add: ops_opened_value ops_listed_value ops_eval) (simp add: sample_job_def)


subsection \<open>Where the panel falls short\<close>

text \<open>
  An answer that comes after another row was opened is taken over: the verdict of the earlier job is shown under
  the later one.
\<close>

lemma late_verdict_under_other_row:
  assumes "ov_expanded s \<noteq> Some i"
  shows "ov_expanded (verify_answered j (Inr (n, cut')) (ops_landed f (ops_render (toggle_row i s)))) = Some i \<and>
    ov_verify (verify_answered j (Inr (n, cut')) (ops_landed f (ops_render (toggle_row i s)))) =
      Some \<lparr>vs_loading = False, vs_verdict = verifyVerdict n cut' (ji_scope j) (ji_counts j), vs_error = []\<rparr>"
  using assms
  by (auto simp: ops_render_def verify_effect_def detail_effect_def toggle_row_def runVerify_def ops_send_def ops_landed_def
      verify_answered_def Let_def split: option.split)

text \<open>
  The row opened while another's verdict stands is not verified by itself: the effect that starts it reads the
  verdict of the render before, and the render that clears it changes neither of its dependencies.
\<close>

lemma stable_unchanged: "ops_stable s \<Longrightarrow> \<not> ops_changed s f"
  by (simp add: ops_changed_def ops_stable_def)

lemma switch_skips_verification:
  assumes "ops_stable s" "ov_verify s \<noteq> None" "ov_expanded s \<noteq> Some i"
  shows "ov_verify (ops_render (toggle_row i s)) = None \<and>
    ov_verify (ops_render (ops_render (toggle_row i s))) = None \<and>
    ov_flights (ops_render (ops_render (toggle_row i s))) = ov_flights (ops_render (toggle_row i s))"
proof -
  let ?t = "toggle_row i s"
  have t: "ov_expanded ?t = Some i" "ov_verify ?t = ov_verify s" "ov_deps ?t = Some (ops_deps_of s)"
    using assms by (simp_all add: toggle_row_def ops_stable_def)
  have "ops_changed ?t (\<lambda>d. (od_expanded d, od_rowState d))"
    using t assms(3) by (simp add: ops_changed_def ops_deps_of_def)
  then have none: "ov_verify (ops_render ?t) = None"
    using t assms(2)
    by (auto simp: ops_render_def verify_effect_def detail_effect_def ops_send_def Let_def split: option.split)
  have "ops_stable (ops_render ?t)"
  proof -
    have "ops_deps_of (ops_render ?t) = ops_deps_of ?t"
      by (auto simp: ops_render_def verify_effect_def detail_effect_def ops_send_def runVerify_def Let_def ops_deps_of_def
          expanded_row_def rows_of_def split: option.split)
    then show ?thesis by (simp add: ops_stable_def ops_render_def)
  qed
  note same = stable_unchanged [OF this]
  have "ov_flights (ops_render (ops_render ?t)) = ov_flights (ops_render ?t)"
    "ov_verify (ops_render (ops_render ?t)) = ov_verify (ops_render ?t)"
    by (simp_all add: ops_render_def [of "ops_render ?t"] verify_effect_def detail_effect_def same)
  with none show ?thesis by simp
qed

text \<open>The search of a verification does not carry the query in the task language: such a job is verified against its whole state.\<close>

lemma verification_ignores_aql: "verify_call env (scope\<lparr>js_aql := q\<rparr>) = verify_call env scope"
  by (simp add: verify_call_def)

text \<open>The colour is read from the text, and the text names the scope.\<close>

lemma includes_append: "js_includes p s \<Longrightarrow> js_includes p (a @ s @ b)"
proof (induction a)
  case Nil
  then show ?case
  proof (induction s)
    case (Cons c s)
    have "starts_with p (c # s @ b)" if "starts_with p (c # s)"
      using that unfolding starts_with_iff by (metis append_Cons append_assoc)
    with Cons show ?case by auto
  qed (cases b; simp add: starts_with_def)
next
  case (Cons c a)
  then show ?case by simp
qed

lemma drained_scope_reads_drained:
  assumes "ji_state j = JobDone" "js_includes (js ''drained'') (scopeLabel scope)"
  shows "\<exists>verdict. verify_panel_of j (Some \<lparr>vs_loading = False, vs_verdict = verifyVerdict n truncated scope c, vs_error = []\<rparr>) =
    VerifyDrained verdict"
proof -
  have "\<exists>x y. verifyVerdict n truncated scope c = x @ scopeLabel scope @ y"
    unfolding verifyVerdict_def Let_def by (simp only: append_assoc split: if_split) (metis append_assoc)
  then have "js_includes (js ''drained'') (verifyVerdict n truncated scope c)" using includes_append [OF assms(2)] by auto
  moreover from this have "verifyVerdict n truncated scope c \<noteq> []" by auto
  ultimately show ?thesis using assms(1) by (simp add: verify_panel_of_def)
qed

end
