(* ===== verification/SavedViews.thy ===== *)
theory SavedViews
  imports UrlState Paths Endpoints
begin

text \<open>
  Saved views, from the button to the palette: the state a view keeps (\<open>views/TasksGlobalView.tsx\<close>,
  \<open>views/QueuesDirectoryView.tsx\<close>), the dialog that names and posts it (\<open>components/SaveViewModal.tsx\<close>) and the link the
  palette opens for it (\<open>openView\<close> of \<open>components/CommandPalette.tsx\<close>). Lower case is the parameter \<open>low\<close>.
\<close>

subsection \<open>What is kept\<close>

text \<open>\<open>Object.fromEntries\<close>: the last value of a name, in the place of the first.\<close>

fun obj_put :: "jstring \<Rightarrow> jstring \<Rightarrow> (jstring \<times> jstring) list \<Rightarrow> (jstring \<times> jstring) list" where
  "obj_put k v [] = [(k, v)]"
| "obj_put k v (p # ps) = (if fst p = k then (k, v) # ps else p # obj_put k v ps)"

definition from_entries :: "params \<Rightarrow> (jstring \<times> jstring) list" where
  "from_entries ps = foldl (\<lambda>obj p. obj_put (fst p) (snd p) obj) [] ps"

definition consoleViewState :: "console_state \<Rightarrow> (jstring \<times> jstring) list" where
  "consoleViewState view = from_entries (serializeConsoleState (view\<lparr>cs_page := 0\<rparr>) [])"

definition directoryViewState :: "directory_state \<Rightarrow> (jstring \<times> jstring) list" where
  "directoryViewState view = from_entries (serializeDirectoryState (view\<lparr>ds_cursor := []\<rparr>) [])"

subsection \<open>What is opened\<close>

definition openView_params :: "saved_view \<Rightarrow> params" where
  "openView_params v = foldl (\<lambda>ps p. if snd p \<noteq> [] then set_param ps (fst p) (snd p) else ps) [] (view_state v)"

definition openView :: "jstring \<Rightarrow> saved_view \<Rightarrow> jstring" where
  "openView rootp v =
     (let base = (if view_target v = js ''queues'' then p_QUEUES (paths rootp) else p_TASKS (paths rootp));
          qs = params_toString (openView_params v)
      in if qs \<noteq> [] then base @ js ''?'' @ qs else base)"

subsection \<open>The dialog\<close>

text \<open>\<open>NamesFlight\<close> waits for the list of views, \<open>CreateFlight\<close> for the answer to the post.\<close>

datatype save_flight = NamesFlight upsert_view_body | CreateFlight upsert_view_body

record save_modal =
  sv_open :: bool
  sv_name :: jstring
  sv_busy :: bool
  sv_error :: jstring
  sv_flights :: "save_flight list"
  sv_saved :: "upsert_view_body list"

definition save_init :: save_modal where
  "save_init = \<lparr>sv_open = False, sv_name = [], sv_busy = False, sv_error = [], sv_flights = [], sv_saved = []\<rparr>"

text \<open>The parent opens the dialog and the effect on \<open>open\<close> clears it.\<close>

definition save_opened :: "save_modal \<Rightarrow> save_modal" where
  "save_opened s = s\<lparr>sv_open := True, sv_name := [], sv_error := [], sv_busy := False\<rparr>"

definition save_closed :: "save_modal \<Rightarrow> save_modal" where
  "save_closed s = s\<lparr>sv_open := False\<rparr>"

definition stateEcho :: "(jstring \<times> jstring) list \<Rightarrow> jstring" where
  "stateEcho state = join (js ''  '') (map (\<lambda>p. fst p @ js ''='' @ snd p) state)"

definition save_click :: "view_target \<Rightarrow> (jstring \<times> jstring) list \<Rightarrow> save_modal \<Rightarrow> save_modal" where
  "save_click target state s =
     (let trimmed = trim (sv_name s)
      in if trimmed = [] \<or> sv_busy s then s
         else s\<lparr>sv_busy := True,
                sv_flights := sv_flights s @ [NamesFlight \<lparr>uv_name = trimmed, uv_target = target, uv_state = state\<rparr>]\<rparr>)"

definition name_clash :: "(jstring \<Rightarrow> jstring) \<Rightarrow> saved_view list \<Rightarrow> jstring \<Rightarrow> saved_view option" where
  "name_clash low views trimmed = List.find (\<lambda>v. low (trim (view_name v)) = low trimmed) views"

definition taken_text :: "jstring \<Rightarrow> jstring" where
  "taken_text name = js ''A view named '' @ [8220] @ name @ [8221] @ js '' already exists'' @ dash @ js ''pick another name.''"

definition save_flight_done :: "save_flight \<Rightarrow> save_modal \<Rightarrow> save_modal" where
  "save_flight_done f s = s\<lparr>sv_flights := remove1 f (sv_flights s)\<rparr>"

definition names_listed :: "(jstring \<Rightarrow> jstring) \<Rightarrow> saved_view list \<Rightarrow> upsert_view_body \<Rightarrow> save_modal \<Rightarrow> save_modal" where
  "names_listed low views body s =
     (let s = save_flight_done (NamesFlight body) s
      in case name_clash low views (uv_name body) of
           Some clash \<Rightarrow> s\<lparr>sv_error := taken_text (view_name clash), sv_busy := False\<rparr>
         | None \<Rightarrow> s\<lparr>sv_flights := sv_flights s @ [CreateFlight body]\<rparr>)"

definition view_created :: "upsert_view_body \<Rightarrow> save_modal \<Rightarrow> save_modal" where
  "view_created body s = save_closed ((save_flight_done (CreateFlight body) s)\<lparr>sv_saved := sv_saved s @ [body]\<rparr>)"

definition save_failed :: "axios_error \<Rightarrow> jstring \<Rightarrow> save_flight \<Rightarrow> save_modal \<Rightarrow> save_modal" where
  "save_failed e trimmed f s =
     (save_flight_done f s)
       \<lparr>sv_error := (if isDuplicateNameError e then taken_text trimmed else toErrorString e), sv_busy := False\<rparr>"

subsection \<open>A saved view opens as it was saved\<close>

lemma get_all_in: "(k, v) \<in> set ps \<Longrightarrow> v \<in> set (get_all ps k)"
  by (force simp: get_all_def)

text \<open>Pairs with names that do not repeat, none empty, each as \<open>URLSearchParams\<close> keeps it.\<close>

definition plain_pairs :: "params \<Rightarrow> bool" where
  "plain_pairs ps \<longleftrightarrow> distinct (map fst ps) \<and> (\<forall>p \<in> set ps. snd p \<noteq> [] \<and> to_usv (snd p) = snd p)"

lemma get_all_distinct:
  "distinct (map fst ps) \<Longrightarrow> get_all ps k = (case map_of ps k of Some v \<Rightarrow> [v] | None \<Rightarrow> [])"
proof (induction ps)
  case (Cons p ps)
  then have "map_of ps (fst p) = None" by (simp add: map_of_eq_None_iff)
  with Cons show ?case by (auto simp: get_all_def)
qed (simp add: get_all_def)

lemma single_values_distinct:
  assumes "\<And>k. length (get_all ps k) \<le> 1"
  shows "distinct (map fst ps)"
  using assms
proof (induction ps)
  case (Cons p ps)
  have "length (get_all ps k) \<le> 1" for k using Cons.prems [of k] by (auto simp: get_all_def split: if_splits)
  moreover have "fst p \<notin> set (map fst ps)"
  proof
    assume "fst p \<in> set (map fst ps)"
    then obtain v where "(fst p, v) \<in> set ps" by auto
    then have "get_all ps (fst p) \<noteq> []" using get_all_in by fastforce
    with Cons.prems [of "fst p"] show False by (auto simp: get_all_def)
  qed
  ultimately show ?case using Cons.IH by simp
qed simp

lemma obj_put_new: "k \<notin> set (map fst ps) \<Longrightarrow> obj_put k v ps = ps @ [(k, v)]"
  by (induction ps) auto

lemma from_entries_distinct: "distinct (map fst ps) \<Longrightarrow> from_entries ps = ps"
proof (induction ps rule: rev_induct)
  case (snoc p ps)
  then show ?case by (simp add: from_entries_def obj_put_new)
qed (simp add: from_entries_def)

lemma get_all_absent: "k \<notin> set (map fst ps) \<Longrightarrow> get_all ps k = []"
  by (induction ps) (auto simp: get_all_def)

lemma opened_all:
  "plain_pairs st \<Longrightarrow>
   get_all (foldl (\<lambda>ps p. if snd p \<noteq> [] then set_param ps (fst p) (snd p) else ps) [] st) k = get_all st k"
proof (induction st rule: rev_induct)
  case (snoc p st)
  then have "plain_pairs st" "to_usv (snd p) = snd p" "snd p \<noteq> []" "fst p \<notin> set (map fst st)"
    by (auto simp: plain_pairs_def)
  moreover from this(4) have "get_all st (fst p) = []" by (rule get_all_absent)
  ultimately show ?case using snoc.IH by (auto simp: url.all_put) (simp_all add: get_all_def)
qed (simp add: get_all_def)

text \<open>Any order of the members of the stored object opens the same parameters.\<close>

lemma reopened:
  assumes "plain_pairs ps" "mset (view_state v) = mset (from_entries ps)"
  shows "get_all (openView_params v) k = get_all ps k"
proof -
  have d: "distinct (map fst ps)" using assms(1) by (simp add: plain_pairs_def)
  have same: "mset (view_state v) = mset ps" using assms(2) by (simp add: from_entries_distinct [OF d])
  then have dv: "distinct (map fst (view_state v))"
    using d by (metis mset_eq_imp_distinct_iff mset_map)
  have set: "set (view_state v) = set ps" using same by (rule mset_eq_setD)
  have "plain_pairs (view_state v)" using assms(1) dv by (simp add: plain_pairs_def set)
  then have "get_all (openView_params v) k = get_all (view_state v) k" unfolding openView_params_def by (rule opened_all)
  also have "map_of (view_state v) k = map_of ps k" using map_of_inject_set [OF dv d] set by simp
  then have "get_all (view_state v) k = get_all ps k" by (simp add: get_all_distinct dv d)
  finally show ?thesis .
qed

lemma parse_console_cong: "(\<And>k. get_all ps k = get_all qs k) \<Longrightarrow> parseConsoleState ps = parseConsoleState qs"
  by (simp add: parseConsoleState_def migrated_query_def param_text_def get_param_def)

lemma parse_directory_cong: "(\<And>k. get_all ps k = get_all qs k) \<Longrightarrow> parseDirectoryState ps = parseDirectoryState qs"
  by (simp add: parseDirectoryState_def param_text_def get_param_def)

lemma plain_pairsI:
  assumes "\<And>k. get_all ps k = [] \<or> (\<exists>v. get_all ps k = [v] \<and> v \<noteq> [] \<and> to_usv v = v)"
  shows "plain_pairs ps"
proof -
  have "length (get_all ps k) \<le> 1" for k using assms [of k] by auto
  moreover have "snd p \<noteq> [] \<and> to_usv (snd p) = snd p" if "p \<in> set ps" for p
    using get_all_in [of "fst p" "snd p" ps] that assms [of "fst p"] by auto
  ultimately show ?thesis by (simp add: plain_pairs_def single_values_distinct)
qed

lemma js_of_int_written: "js_of_int i \<noteq> [] \<and> to_usv (js_of_int i) = js_of_int i"
  by (simp add: js_of_int_nonempty js_of_int_plain)

lemma console_plain_pairs:
  assumes "well_formed (cs_q s)"
  shows "plain_pairs (serializeConsoleState s [])"
proof (rule plain_pairsI)
  have "mode_name m \<noteq> [] \<and> to_usv (mode_name m) = mode_name m" for m
    using mode_well_formed [of m] by (cases m) simp_all
  then show "get_all (serializeConsoleState s []) k = [] \<or>
      (\<exists>v. get_all (serializeConsoleState s []) k = [v] \<and> v \<noteq> [] \<and> to_usv v = v)" for k
    using assms by (simp add: get_all_console js_of_int_written)
qed

text \<open>C27. A saved view reopens: whatever order the server keeps its members in, the link opened for a view of the task
  console shows the query, page size and mode it was saved with, on the first page, and the link of a
  view of the directory the sort, direction, filter and limit, from the start.\<close>

theorem saved_view_reopens:
  assumes "well_formed_params ps" "mset (view_state v) = mset (consoleViewState (parseConsoleState ps))"
    and "well_formed (ds_f d)" "ds_limit d \<in> set DIRECTORY_LIMITS" "mset (view_state w) = mset (directoryViewState d)"
  shows "parseConsoleState (openView_params v) = (parseConsoleState ps)\<lparr>cs_page := 0\<rparr> \<and>
    parseDirectoryState (openView_params w) = d\<lparr>ds_cursor := []\<rparr>"
proof
  let ?c = "(parseConsoleState ps)\<lparr>cs_page := 0\<rparr>"
  obtain q p z m where c: "parseConsoleState ps = console_state_of q p z m" "well_formed q" "z \<in> set PAGE_SIZES"
  proof -
    let ?z = "one_of PAGE_SIZES (cs_size DEFAULT_CONSOLE_STATE) (number_param (get_param ps (js ''size'')))"
    have "?z \<in> set PAGE_SIZES"
      using one_of_in [of PAGE_SIZES] by (auto simp: PAGE_SIZES_def DEFAULT_CONSOLE_STATE_def)
    then show ?thesis using that migrated_query_well_formed [OF assms(1)] unfolding parseConsoleState_def Let_def by blast
  qed
  have first: "?c = console_state_of q 0 z m" by (simp add: c(1) console_state_of_def split_beta)
  have "get_all (openView_params v) k = get_all (serializeConsoleState ?c []) k" for k
    using assms(2) unfolding consoleViewState_def
    by (intro reopened console_plain_pairs) (simp_all add: first state_of_fields c(2))
  then have "parseConsoleState (openView_params v) = parseConsoleState (serializeConsoleState ?c [])"
    by (rule parse_console_cong)
  also have "\<dots> = ?c" unfolding first by (rule console_reads_back) (simp_all add: c(2,3))
  finally show "parseConsoleState (openView_params v) = ?c" .
next
  let ?d = "d\<lparr>ds_cursor := []\<rparr>"
  have "plain_pairs (serializeDirectoryState ?d [])"
  proof (rule plain_pairsI)
    have "sort_name x \<noteq> []" "dir_name y \<noteq> []" for x y by (cases x; simp) (cases y; simp)
    then show "get_all (serializeDirectoryState ?d []) k = [] \<or>
        (\<exists>v. get_all (serializeDirectoryState ?d []) k = [v] \<and> v \<noteq> [] \<and> to_usv v = v)" for k
      unfolding directory_written get_all_directory_written
      using assms(3) sort_well_formed by (simp add: js_of_int_written)
  qed
  then have "get_all (openView_params w) k = get_all (serializeDirectoryState ?d []) k" for k
    using assms(5) unfolding directoryViewState_def by (rule reopened)
  then have "parseDirectoryState (openView_params w) = parseDirectoryState (serializeDirectoryState ?d [])"
    by (rule parse_directory_cong)
  also have "\<dots> = ?d" using directory_url_round_trip [of ?d "[]"] assms(3,4) by simp
  finally show "parseDirectoryState (openView_params w) = ?d" .
qed

definition sample_view :: "(jstring \<times> jstring) list \<Rightarrow> saved_view" where
  "sample_view state =
     \<lparr>view_id = js ''v1'', view_name = js ''storm'', view_target = js ''tasks'', view_state = state, view_created_by = [],
      view_created_at = [], view_updated_at = [], view_version = 1, view_system = False\<rparr>"

definition sample_opened :: params where
  "sample_opened = [(js ''q'', js ''state=retry error~eof''), (js ''page'', js ''3''), (js ''size'', js ''50'')]"

lemma saved_view_reopens_witness:
  "parseConsoleState (openView_params (sample_view (rev (consoleViewState (parseConsoleState sample_opened))))) =
     (parseConsoleState sample_opened)\<lparr>cs_page := 0\<rparr> \<and>
   parseDirectoryState (openView_params (sample_view (directoryViewState DEFAULT_DIRECTORY_STATE))) = DEFAULT_DIRECTORY_STATE"
proof -
  have "well_formed_params sample_opened" by (simp add: well_formed_params_def sample_opened_def)
  moreover have "mset (view_state (sample_view (rev st))) = mset st" for st by (simp add: sample_view_def)
  moreover have "well_formed (ds_f DEFAULT_DIRECTORY_STATE)" "ds_limit DEFAULT_DIRECTORY_STATE \<in> set DIRECTORY_LIMITS"
    by (simp_all add: DEFAULT_DIRECTORY_STATE_def DIRECTORY_LIMITS_def)
  moreover have "mset (view_state (sample_view st)) = mset st" for st by (simp add: sample_view_def)
  ultimately have "parseConsoleState (openView_params (sample_view (rev (consoleViewState (parseConsoleState sample_opened))))) =
       (parseConsoleState sample_opened)\<lparr>cs_page := 0\<rparr> \<and>
     parseDirectoryState (openView_params (sample_view (directoryViewState DEFAULT_DIRECTORY_STATE))) =
       DEFAULT_DIRECTORY_STATE\<lparr>ds_cursor := []\<rparr>"
    by (rule saved_view_reopens)
  then show ?thesis by (simp add: DEFAULT_DIRECTORY_STATE_def)
qed

subsection \<open>What the dialog posts\<close>

text \<open>A name that is taken, in any case and with any blanks around it, is not posted; a free one is posted once.\<close>

lemma taken_name_not_posted:
  "CreateFlight b \<in> set (sv_flights (names_listed low views body s)) \<Longrightarrow>
   CreateFlight b \<in> set (sv_flights s) \<or>
   b = body \<and> (\<forall>v \<in> set views. low (trim (view_name v)) \<noteq> low (uv_name body))"
  by (auto simp: names_listed_def save_flight_done_def name_clash_def find_None_iff Let_def
      split: option.splits dest: set_remove1_subset [THEN subsetD])

text \<open>
  Closing the dialog does not withdraw a save: it lands in the dialog opened next, which it closes when it
  succeeds and whose error line it writes when it fails.
\<close>

lemma late_save_closes_next_dialog:
  "\<not> sv_open (view_created body (save_opened (save_closed s))) \<and>
   sv_open (save_failed e t (CreateFlight body) (save_opened (save_closed s))) \<and>
   sv_error (save_failed e t (CreateFlight body) (save_opened (save_closed s))) \<noteq> []"
  using toErrorString_nonempty [of e]
  by (simp add: view_created_def save_failed_def save_flight_done_def save_opened_def save_closed_def taken_text_def)

end
