(* ===== verification/CommandPalette.thy ===== *)
theory CommandPalette
  imports Fuzzy Palette SavedViews ConsoleRows Formats
begin

text \<open>
  The command palette (\<open>src/ui/src/components/CommandPalette.tsx\<close>): the entries for what is typed, the highlighted one, and
  the lookup of a pasted task id across the states. \<open>rootp\<close> is \<open>window.ROOT_PATH\<close>, \<open>lower\<close> is \<open>toLowerCase\<close>.
\<close>

subsection \<open>State\<close>

text \<open>The fields the palette reads of a queue row; the fallback list does not know the consumers.\<close>

record palette_queue =
  pq_queue :: jstring
  pq_pending :: int
  pq_paused :: bool
  pq_consumers :: int

definition cached_queue :: "fleet_queue_row \<Rightarrow> palette_queue" where
  "cached_queue r = \<lparr>pq_queue = fq_queue r, pq_pending = fq_pending r, pq_paused = fq_paused r, pq_consumers = fq_consumers r\<rparr>"

definition fallback_queue :: "queue \<Rightarrow> palette_queue" where
  "fallback_queue q = \<lparr>pq_queue = q_queue q, pq_pending = q_pending q, pq_paused = q_paused q, pq_consumers = - 1\<rparr>"

datatype lookup_state = LookupIdle | LookupBusy | LookupNotFound

text \<open>A lookup has one search out at a time: the state it asks for and those still to ask.\<close>

datatype palette_flight =
    QueuesFlight nat | FallbackFlight nat | ViewsFlight nat
  | LookupFlight task_ref console_task_state "console_task_state list"

text \<open>\<open>pl_opening\<close> counts the runs of the effect on \<open>open\<close>; \<open>pl_entries\<close> is the length the clamp has last run for;
  \<open>pl_visited\<close> logs the navigations.\<close>

record palette =
  pl_open :: bool
  pl_input :: jstring
  pl_highlight :: int
  pl_queues :: "palette_queue list"
  pl_views :: "saved_view list"
  pl_lookup :: lookup_state
  pl_pendingVerb :: "(job_verb \<times> job_scope) option"
  pl_location :: params
  pl_onTasks :: bool
  pl_opening :: nat
  pl_entries :: "nat option"
  pl_flights :: "palette_flight list"
  pl_visited :: "jstring list"

definition palette_init :: "bool \<Rightarrow> params \<Rightarrow> palette" where
  "palette_init onTasks location =
     \<lparr>pl_open = False, pl_input = [], pl_highlight = 0, pl_queues = [], pl_views = [], pl_lookup = LookupIdle,
      pl_pendingVerb = None, pl_location = location, pl_onTasks = onTasks, pl_opening = 0, pl_entries = None,
      pl_flights = [], pl_visited = []\<rparr>"

subsection \<open>Opening\<close>

definition palette_opened :: "palette \<Rightarrow> palette" where
  "palette_opened s =
     s\<lparr>pl_open := True, pl_input := [], pl_highlight := 0, pl_lookup := LookupIdle, pl_opening := pl_opening s + 1,
       pl_flights := pl_flights s @ [QueuesFlight (pl_opening s + 1), ViewsFlight (pl_opening s + 1)]\<rparr>"

definition palette_closed :: "palette \<Rightarrow> palette" where
  "palette_closed s = s\<lparr>pl_open := False, pl_opening := pl_opening s + (if pl_open s then 1 else 0)\<rparr>"

definition queues_loaded :: "nat \<Rightarrow> jstring + fleet_queue_row list \<Rightarrow> palette \<Rightarrow> palette" where
  "queues_loaded n answer s = (case answer of
     Inr rows \<Rightarrow> if n = pl_opening s then s\<lparr>pl_queues := map cached_queue rows\<rparr> else s
   | Inl _ \<Rightarrow> s\<lparr>pl_flights := pl_flights s @ [FallbackFlight n]\<rparr>)"

definition fallback_loaded :: "nat \<Rightarrow> jstring + queue list \<Rightarrow> palette \<Rightarrow> palette" where
  "fallback_loaded n answer s =
     (if n \<noteq> pl_opening s then s
      else s\<lparr>pl_queues := (case answer of Inr qs \<Rightarrow> map fallback_queue qs | Inl _ \<Rightarrow> [])\<rparr>)"

definition views_loaded :: "nat \<Rightarrow> jstring + saved_view list \<Rightarrow> palette \<Rightarrow> palette" where
  "views_loaded n answer s =
     (if n \<noteq> pl_opening s then s else s\<lparr>pl_views := (case answer of Inr vs \<Rightarrow> vs | Inl _ \<Rightarrow> [])\<rparr>)"

subsection \<open>Entries\<close>

datatype palette_kind = KQueue | KView | KVerb | KTask | KGoTo

text \<open>What an entry does; a path is \<open>None\<close> where \<open>encodeURIComponent\<close> throws.\<close>

datatype palette_deed =
    RunNothing | RunLookup task_ref | RunGo "jstring option" | RunView saved_view | RunVerb job_verb job_scope

record palette_entry =
  pe_key :: jstring
  pe_kind :: palette_kind
  pe_label :: jstring
  pe_match :: "fuzzy_match option"
  pe_hint :: "jstring option"
  pe_chip :: "(jstring \<times> jstring) option"
  pe_run :: palette_deed

definition MAX_QUEUE_ROWS :: nat where "MAX_QUEUE_ROWS = 6"

definition MAX_VIEW_ROWS :: nat where "MAX_VIEW_ROWS = 10"

definition lookup_label :: "lookup_state \<Rightarrow> jstring \<Rightarrow> jstring" where
  "lookup_label l i = (case l of
     LookupBusy \<Rightarrow> js ''Looking up '' @ i @ js '' across states'' @ [8230]
   | LookupNotFound \<Rightarrow> js ''No task '' @ i @ js '' found in any state (scan window may be partial)''
   | LookupIdle \<Rightarrow> js ''Open task '' @ i)"

definition lookup_entry :: "lookup_state \<Rightarrow> task_ref \<Rightarrow> palette_entry" where
  "lookup_entry l r =
     \<lparr>pe_key = js ''task-lookup'', pe_kind = KTask, pe_label = lookup_label l (tr_id r), pe_match = None, pe_hint = None,
      pe_chip = None, pe_run = (if l = LookupIdle then RunLookup r else RunNothing)\<rparr>"

definition queue_entry :: "jstring \<Rightarrow> palette_queue \<times> fuzzy_match \<Rightarrow> palette_entry" where
  "queue_entry rootp x =
     (let q = fst x
      in \<lparr>pe_key = js ''queue-'' @ pq_queue q, pe_kind = KQueue, pe_label = pq_queue q, pe_match = Some (snd x),
          pe_hint = (if pq_pending q \<ge> 0 then Some (locale_int (pq_pending q) @ js '' pending'') else None),
          pe_chip = (if pq_consumers q = 0 \<and> pq_pending q > 0 then Some (js ''crit'', js ''no consumers'')
                     else if pq_paused q then Some (js ''warn'', js ''paused'') else None),
          pe_run = RunGo (queueDetailsPath rootp (pq_queue q) None)\<rparr>)"

definition view_entry :: "saved_view \<times> fuzzy_match \<Rightarrow> palette_entry" where
  "view_entry x =
     (let v = fst x
      in \<lparr>pe_key = js ''view-'' @ view_id v, pe_kind = KView, pe_label = view_name v, pe_match = Some (snd x),
          pe_hint = (if view_system v then None else Some ([183, 32] @ view_created_by v)),
          pe_chip = (if view_system v then Some (js ''mut'', js ''system'') else None), pe_run = RunView v\<rparr>)"

definition verb_label :: "job_verb \<Rightarrow> jstring" where
  "verb_label v =
     (case job_verb_name v of c # cs \<Rightarrow> (c - 32) # cs | [] \<Rightarrow> []) @ js '' all matching current filter'' @ [8230]"

definition verb_scope :: "console_state \<Rightarrow> job_scope" where
  "verb_scope view =
     (let isAql = isAqlQuery (cs_q view)
      in \<lparr>js_queue = cs_queue view, js_state = state_name (cs_state view), js_q = (if isAql then [] else cs_q view),
          js_meta = [], js_aql = (if isAql then cs_q view else [])\<rparr>)"

definition verb_entry :: "console_state \<Rightarrow> job_verb \<times> fuzzy_match \<Rightarrow> palette_entry" where
  "verb_entry view x =
     \<lparr>pe_key = js ''verb-'' @ job_verb_name (fst x), pe_kind = KVerb, pe_label = verb_label (fst x), pe_match = Some (snd x),
      pe_hint = Some (if cs_q view \<noteq> [] then cs_q view else js ''state='' @ state_name (cs_state view)),
      pe_chip = None, pe_run = RunVerb (fst x) (verb_scope view)\<rparr>"

definition palette_nav :: "jstring \<Rightarrow> bool \<Rightarrow> (jstring \<times> jstring) list" where
  "palette_nav rootp metrics =
     [(js ''Overview'', p_HOME (paths rootp)), (js ''Queues'', p_QUEUES (paths rootp)), (js ''Tasks'', p_TASKS (paths rootp)),
      (js ''Errors'', p_ERRORS (paths rootp)), (js ''Workers'', p_SERVERS (paths rootp)),
      (js ''Schedulers'', p_SCHEDULERS (paths rootp)), (js ''Operations'', p_OPS (paths rootp)),
      (js ''Hygiene'', p_HYGIENE (paths rootp)), (js ''Redis'', p_REDIS (paths rootp)), (js ''Settings'', p_SETTINGS (paths rootp))] @
     (if metrics then [(js ''Metrics'', p_QUEUE_METRICS (paths rootp))] else [])"

definition goto_entry :: "(jstring \<times> jstring) \<times> fuzzy_match \<Rightarrow> palette_entry" where
  "goto_entry x =
     \<lparr>pe_key = js ''goto-'' @ fst (fst x), pe_kind = KGoTo, pe_label = fst (fst x), pe_match = Some (snd x), pe_hint = None,
      pe_chip = None, pe_run = RunGo (Some (snd (fst x)))\<rparr>"

text \<open>What the palette runs in: the mount path, read-only mode, whether the metrics page exists, and \<open>toLowerCase\<close>.\<close>

record palette_env =
  pv_root :: jstring
  pv_readOnly :: bool
  pv_metrics :: bool
  pv_lower :: "jstring \<Rightarrow> jstring"

definition palette_consoleState :: "palette \<Rightarrow> console_state option" where
  "palette_consoleState s = (if pl_onTasks s then Some (parseConsoleState (pl_location s)) else None)"

definition offered_entries ::
  "palette_env \<Rightarrow> jstring \<Rightarrow> palette_queue list \<Rightarrow> saved_view list \<Rightarrow> console_state option \<Rightarrow> palette_entry list" where
  "offered_entries e input queues views consoleState =
     (let nav = palette_nav (pv_root e) (pv_metrics e)
      in map (queue_entry (pv_root e)) (fuzzyFilter (pv_lower e) input queues pq_queue (Some MAX_QUEUE_ROWS)) @
         map view_entry (fuzzyFilter (pv_lower e) input views view_name (Some MAX_VIEW_ROWS)) @
         (case consoleState of
            Some view \<Rightarrow>
              if pv_readOnly e then []
              else map (verb_entry view)
                (fuzzyFilter (pv_lower e) input (STATE_BULK_VERBS (cs_state view)) verb_label (Some 4))
          | None \<Rightarrow> []) @
         map goto_entry (fuzzyFilter (pv_lower e) input nav fst (Some (if input \<noteq> [] then 4 else length nav))))"

definition no_match_entry :: palette_entry where
  "no_match_entry =
     \<lparr>pe_key = js ''empty'', pe_kind = KTask, pe_label = js ''No matches'' @ dash @ js ''paste a task ID to open it in any state'',
      pe_match = None, pe_hint = None, pe_chip = None, pe_run = RunNothing\<rparr>"

definition entries_of ::
  "palette_env \<Rightarrow> jstring \<Rightarrow> lookup_state \<Rightarrow> palette_queue list \<Rightarrow> saved_view list \<Rightarrow> console_state option \<Rightarrow>
   palette_entry list" where
  "entries_of e input lookup queues views consoleState =
     (case parseTaskIdInput input of
        Some r \<Rightarrow> [lookup_entry lookup r]
      | None \<Rightarrow>
          (let out = offered_entries e input queues views consoleState
           in if out = [] \<and> input \<noteq> [] then [no_match_entry] else out))"

definition palette_entries :: "palette_env \<Rightarrow> palette \<Rightarrow> palette_entry list" where
  "palette_entries e s = entries_of e (pl_input s) (pl_lookup s) (pl_queues s) (pl_views s) (palette_consoleState s)"

subsection \<open>Highlight\<close>

definition clamp_highlight :: "palette_env \<Rightarrow> palette \<Rightarrow> palette" where
  "clamp_highlight e s =
     (let n = length (palette_entries e s)
      in if pl_entries s = Some n then s
         else s\<lparr>pl_highlight := min (pl_highlight s) (max 0 (int n - 1)), pl_entries := Some n\<rparr>)"

definition palette_typed :: "jstring \<Rightarrow> palette \<Rightarrow> palette" where
  "palette_typed t s = s\<lparr>pl_input := t, pl_highlight := 0, pl_lookup := LookupIdle\<rparr>"

definition arrow_down :: "palette_env \<Rightarrow> palette \<Rightarrow> palette" where
  "arrow_down e s = s\<lparr>pl_highlight := min (pl_highlight s + 1) (int (length (palette_entries e s)) - 1)\<rparr>"

definition arrow_up :: "palette \<Rightarrow> palette" where
  "arrow_up s = s\<lparr>pl_highlight := max (pl_highlight s - 1) 0\<rparr>"

definition hover_entry :: "nat \<Rightarrow> palette \<Rightarrow> palette" where
  "hover_entry i s = s\<lparr>pl_highlight := int i\<rparr>"

subsection \<open>Running an entry\<close>

definition lookup_started :: "task_ref \<Rightarrow> palette \<Rightarrow> palette" where
  "lookup_started r s =
     s\<lparr>pl_lookup := LookupBusy,
       pl_flights := pl_flights s @ [LookupFlight r (hd TASK_LOOKUP_STATES) (tl TASK_LOOKUP_STATES)]\<rparr>"

definition visit :: "jstring \<Rightarrow> palette \<Rightarrow> palette" where
  "visit path s = palette_closed (s\<lparr>pl_visited := pl_visited s @ [path]\<rparr>)"

definition run_entry :: "palette_env \<Rightarrow> palette_deed \<Rightarrow> palette \<Rightarrow> palette" where
  "run_entry e r s = (case r of
     RunNothing \<Rightarrow> s
   | RunLookup t \<Rightarrow> lookup_started t s
   | RunGo path \<Rightarrow> (case path of Some p \<Rightarrow> visit p s | None \<Rightarrow> s)
   | RunView v \<Rightarrow> visit (openView (pv_root e) v) s
   | RunVerb v scope \<Rightarrow> palette_closed (s\<lparr>pl_pendingVerb := Some (v, scope)\<rparr>))"

definition enter :: "palette_env \<Rightarrow> palette \<Rightarrow> palette" where
  "enter e s =
     (let es = palette_entries e s
      in if 0 \<le> pl_highlight s \<and> pl_highlight s < int (length es) then run_entry e (pe_run (es ! nat (pl_highlight s))) s
         else s)"

subsection \<open>Lookup\<close>

definition lookup_call :: "api_env \<Rightarrow> task_ref \<Rightarrow> console_task_state \<Rightarrow> unit api_call option" where
  "lookup_call env r st =
     searchTasks env
       \<lparr>tf_queue = tr_queue r, tf_state = state_name st, tf_q = Some (js ''id='' @ tr_id r), tf_meta = []\<rparr>
       \<lparr>sp_page = None, sp_size = Some 1, sp_maxScan = None, sp_cursor = None, sp_scanCursor = None\<rparr>"

definition hit_params :: "jstring \<Rightarrow> console_task_state \<Rightarrow> task_info \<Rightarrow> params" where
  "hit_params i st hit =
     set_param (set_param [] (js ''q'') (js ''id='' @ i @ js '' state='' @ state_name st)) (js ''peek'')
       (serializePeek \<lparr>pt_queue = t_queue hit, pt_id = t_id hit\<rparr>)"

definition hit_link :: "jstring \<Rightarrow> jstring \<Rightarrow> console_task_state \<Rightarrow> task_info \<Rightarrow> jstring" where
  "hit_link rootp i st hit = p_TASKS (paths rootp) @ js ''?'' @ params_toString (hit_params i st hit)"

definition palette_landed :: "palette_flight \<Rightarrow> palette \<Rightarrow> palette" where
  "palette_landed f s = s\<lparr>pl_flights := remove1 f (pl_flights s)\<rparr>"

definition lookup_answered ::
  "jstring \<Rightarrow> task_ref \<Rightarrow> console_task_state \<Rightarrow> console_task_state list \<Rightarrow> jstring + task_info list \<Rightarrow> palette \<Rightarrow> palette" where
  "lookup_answered rootp r st rest answer s = (case answer of
     Inl _ \<Rightarrow> s\<lparr>pl_lookup := LookupNotFound\<rparr>
   | Inr ts \<Rightarrow> (case List.find (\<lambda>t. t_id t = tr_id r) ts of
       Some hit \<Rightarrow> visit (hit_link rootp (tr_id r) st hit) s
     | None \<Rightarrow> (case rest of
         [] \<Rightarrow> s\<lparr>pl_lookup := LookupNotFound\<rparr>
       | st' # rest' \<Rightarrow> s\<lparr>pl_flights := pl_flights s @ [LookupFlight r st' rest']\<rparr>)))"

subsection \<open>There is always an entry to run\<close>

lemma fuzzy_empty_query: "fuzzyFilter lower [] items key (Some n) = take n (map (\<lambda>i. (i, \<lparr>fm_score = 0, fm_indices = []\<rparr>)) items)"
proof -
  have "List.map_filter (\<lambda>item. map_option (\<lambda>m. (item, m)) (fuzzyMatch lower [] (key item))) items =
      map (\<lambda>i. (i, \<lparr>fm_score = 0, fm_indices = []\<rparr>)) items"
    by (induction items) (simp_all add: List.map_filter_simps fuzzyMatch_def)
  moreover have "sort_key (\<lambda>r. - fm_score (snd r)) (map (\<lambda>i. (i, \<lparr>fm_score = 0, fm_indices = []\<rparr>)) items) =
      map (\<lambda>i. (i, \<lparr>fm_score = 0, fm_indices = []\<rparr>)) items"
    by (intro sort_key_id_if_sorted) (simp add: comp_def map_replicate_const)
  ultimately show ?thesis by (simp add: fuzzyFilter_def)
qed

lemma palette_entries_nonempty: "palette_entries e s \<noteq> []"
proof (cases "parseTaskIdInput (pl_input s)")
  case None
  show ?thesis
  proof (cases "pl_input s = []")
    case True
    with None show ?thesis by (simp add: palette_entries_def entries_of_def offered_entries_def Let_def fuzzy_empty_query palette_nav_def)
  next
    case False
    with None show ?thesis by (auto simp: palette_entries_def entries_of_def Let_def)
  qed
qed (simp add: palette_entries_def entries_of_def)

text \<open>Every callback is followed by the clamp of its commit.\<close>

inductive palette_event :: "palette_env \<Rightarrow> palette \<Rightarrow> palette \<Rightarrow> bool" for e s where
  open_it: "palette_event e s (palette_opened s)"
| close_it: "palette_event e s (palette_closed s)"
| typed: "palette_event e s (palette_typed t s)"
| down: "palette_event e s (arrow_down e s)"
| up: "palette_event e s (arrow_up s)"
| hover: "i < length (palette_entries e s) \<Longrightarrow> palette_event e s (hover_entry i s)"
| enter: "palette_event e s (enter e s)"
| click: "x \<in> set (palette_entries e s) \<Longrightarrow> palette_event e s (run_entry e (pe_run x) s)"
| queues: "QueuesFlight n \<in> set (pl_flights s) \<Longrightarrow>
    palette_event e s (queues_loaded n qs (palette_landed (QueuesFlight n) s))"
| fallback: "FallbackFlight n \<in> set (pl_flights s) \<Longrightarrow>
    palette_event e s (fallback_loaded n fs (palette_landed (FallbackFlight n) s))"
| views: "ViewsFlight n \<in> set (pl_flights s) \<Longrightarrow>
    palette_event e s (views_loaded n vs (palette_landed (ViewsFlight n) s))"
| looked_up: "LookupFlight r st rest \<in> set (pl_flights s) \<Longrightarrow>
    palette_event e s (lookup_answered (pv_root e) r st rest a (palette_landed (LookupFlight r st rest) s))"
| relocated: "palette_event e s (s\<lparr>pl_onTasks := b, pl_location := ps\<rparr>)"
| verb_done: "palette_event e s (s\<lparr>pl_pendingVerb := None\<rparr>)"

inductive palette_run :: "palette_env \<Rightarrow> palette \<Rightarrow> bool" for e where
  start: "palette_run e (clamp_highlight e (palette_init b ps))"
| step: "palette_run e s \<Longrightarrow> palette_event e s s' \<Longrightarrow> palette_run e (clamp_highlight e s')"

text \<open>The highlight against the length the clamp has last seen.\<close>

definition highlight_ok :: "palette \<Rightarrow> bool" where
  "highlight_ok s \<longleftrightarrow> 0 \<le> pl_highlight s \<and> (\<forall>n. pl_entries s = Some n \<longrightarrow> pl_highlight s < int n)"

lemma clamped:
  assumes "highlight_ok s"
  shows "highlight_ok (clamp_highlight e s)"
    "pl_entries (clamp_highlight e s) = Some (length (palette_entries e (clamp_highlight e s)))"
proof -
  have same: "palette_entries e (s\<lparr>pl_highlight := h, pl_entries := n\<rparr>) = palette_entries e s" for h n
  proof -
    have "palette_consoleState (s\<lparr>pl_highlight := h, pl_entries := n\<rparr>) = palette_consoleState s"
      by (simp add: palette_consoleState_def)
    then show ?thesis by (simp add: palette_entries_def)
  qed
  have "length (palette_entries e s) > 0" using palette_entries_nonempty by simp
  then show "highlight_ok (clamp_highlight e s)"
    using assms by (auto simp: highlight_ok_def clamp_highlight_def Let_def)
  show "pl_entries (clamp_highlight e s) = Some (length (palette_entries e (clamp_highlight e s)))"
    by (simp add: clamp_highlight_def Let_def same)
qed

lemma highlight_ok_frame:
  "highlight_ok (palette_closed s) = highlight_ok s" "highlight_ok (palette_landed f s) = highlight_ok s"
  "highlight_ok (visit p s) = highlight_ok s" "highlight_ok (lookup_started r s) = highlight_ok s"
  "highlight_ok (queues_loaded n qs s) = highlight_ok s" "highlight_ok (fallback_loaded n fs s) = highlight_ok s"
  "highlight_ok (views_loaded n vs s) = highlight_ok s" "highlight_ok (lookup_answered root' r st rest a s) = highlight_ok s"
  "highlight_ok (s\<lparr>pl_pendingVerb := v\<rparr>) = highlight_ok s" "highlight_ok (s\<lparr>pl_onTasks := b, pl_location := ps\<rparr>) = highlight_ok s"
  "highlight_ok (run_entry e x s) = highlight_ok s"
  by (simp_all add: highlight_ok_def palette_closed_def palette_landed_def visit_def lookup_started_def queues_loaded_def
      fallback_loaded_def views_loaded_def lookup_answered_def run_entry_def
      split: sum.split option.split list.split palette_deed.split)

lemma event_highlight:
  assumes "palette_event e s s'" "highlight_ok s" "pl_entries s = Some (length (palette_entries e s))"
  shows "highlight_ok s'"
  using assms(1)
proof cases
  case open_it
  have "length (palette_entries e s) > 0" using palette_entries_nonempty by simp
  with assms(3) show ?thesis by (simp add: open_it highlight_ok_def palette_opened_def)
next
  case (typed t)
  have "length (palette_entries e s) > 0" using palette_entries_nonempty by simp
  with assms(3) show ?thesis by (simp add: typed highlight_ok_def palette_typed_def)
next
  case down
  have "length (palette_entries e s) > 0" using palette_entries_nonempty by simp
  with assms(2,3) show ?thesis by (auto simp: down highlight_ok_def arrow_down_def)
next
  case (hover i)
  with assms(3) show ?thesis by (simp add: highlight_ok_def hover_entry_def)
next
  case up
  with assms(2) show ?thesis by (auto simp: highlight_ok_def arrow_up_def)
next
  case enter
  with assms(2) show ?thesis by (simp add: enter_def Let_def highlight_ok_frame)
qed (use assms(2) in \<open>simp_all add: highlight_ok_frame\<close>)

lemma palette_run_ok:
  "palette_run e s \<Longrightarrow> highlight_ok s \<and> pl_entries s = Some (length (palette_entries e s))"
proof (induction rule: palette_run.induct)
  case (start b ps)
  have "highlight_ok (palette_init b ps)" by (simp add: highlight_ok_def palette_init_def)
  then show ?case using clamped by blast
next
  case (step s s')
  then show ?case using clamped event_highlight by blast
qed

text \<open>C28. Enter always runs the highlighted entry: in every run of the palette, whatever is typed, pressed, loaded or
  looked up, the list has an entry, the highlight is within it, and Enter does what that entry says.\<close>

theorem palette_enter_runs_highlighted:
  assumes "palette_run e s"
  shows "0 \<le> pl_highlight s \<and> nat (pl_highlight s) < length (palette_entries e s) \<and>
    enter e s = run_entry e (pe_run (palette_entries e s ! nat (pl_highlight s))) s"
  using palette_run_ok [OF assms] by (auto simp: highlight_ok_def enter_def Let_def)

lemma palette_enter_runs_highlighted_witness:
  "pl_lookup (enter \<lparr>pv_root = [], pv_readOnly = False, pv_metrics = False, pv_lower = id\<rparr>
     (clamp_highlight \<lparr>pv_root = [], pv_readOnly = False, pv_metrics = False, pv_lower = id\<rparr>
       (palette_typed sample_uuid (clamp_highlight \<lparr>pv_root = [], pv_readOnly = False, pv_metrics = False, pv_lower = id\<rparr>
          (palette_init False []))))) = LookupBusy"
proof -
  let ?e = "\<lparr>pv_root = [], pv_readOnly = False, pv_metrics = False, pv_lower = id\<rparr>"
  let ?s = "clamp_highlight ?e (palette_typed sample_uuid (clamp_highlight ?e (palette_init False [])))"
  have "palette_run ?e ?s" by (rule palette_run.step [OF palette_run.start palette_event.typed])
  note runs = palette_enter_runs_highlighted [OF this]
  have "is_uuid sample_uuid"
    by (simp add: is_uuid_def sample_uuid_def js_def list_all_iff is_hex_def numeral_eq_Suc)
  then have "parseTaskIdInput sample_uuid = Some \<lparr>tr_id = ascii_lower sample_uuid, tr_queue = None\<rparr>"
    using pasted_task_is_found [of sample_uuid "[]" "[]" "[]"] by simp
  then have "palette_entries ?e ?s = [lookup_entry LookupIdle \<lparr>tr_id = ascii_lower sample_uuid, tr_queue = None\<rparr>]"
    by (simp add: palette_entries_def entries_of_def clamp_highlight_def palette_typed_def palette_init_def Let_def)
  with runs show ?thesis by (simp add: lookup_entry_def run_entry_def lookup_started_def)
qed

subsection \<open>The lookup finds the task\<close>

text \<open>A lookup left alone: the search that is out is answered, until none is. The fuel bounds the searches.\<close>

definition lookups_of :: "task_ref \<Rightarrow> palette_flight list \<Rightarrow> palette_flight list" where
  "lookups_of r fs = filter (\<lambda>f. case f of LookupFlight r' _ _ \<Rightarrow> r' = r | _ \<Rightarrow> False) fs"

fun lookup_drive ::
  "jstring \<Rightarrow> (console_task_state \<Rightarrow> jstring + task_info list) \<Rightarrow> task_ref \<Rightarrow> nat \<Rightarrow> palette \<Rightarrow> palette" where
  "lookup_drive rootp ans r 0 s = s"
| "lookup_drive rootp ans r (Suc n) s = (case lookups_of r (pl_flights s) of
     LookupFlight r' st rest # _ \<Rightarrow>
       lookup_drive rootp ans r n (lookup_answered rootp r st rest (ans st) (palette_landed (LookupFlight r st rest) s))
   | _ \<Rightarrow> s)"

lemma lower_uuid: "is_uuid s \<Longrightarrow> is_uuid (ascii_lower s)"
  unfolding is_uuid_def by (rule hex_groups_lower)

lemma parsed_is_uuid: "parseTaskIdInput raw = Some r \<Longrightarrow> is_uuid (tr_id r)"
  by (auto simp: parseTaskIdInput_def Let_def lower_uuid split: if_splits option.splits)

lemma drive_step:
  assumes "lookups_of r (pl_flights s) = [LookupFlight r st rest]"
  shows "lookup_drive rootp ans r (Suc n) s =
      lookup_drive rootp ans r n (lookup_answered rootp r st rest (ans st) (palette_landed (LookupFlight r st rest) s))"
    "lookups_of r (pl_flights (palette_landed (LookupFlight r st rest) s)) = []"
  using assms by (simp_all add: palette_landed_def lookups_of_def filter_remove1)

lemma drive_misses:
  assumes "\<forall>x \<in> set (st # pre). \<exists>ts. ans x = Inr ts \<and> tr_id r \<notin> t_id ` set ts"
    and "lookups_of r (pl_flights s) = [LookupFlight r st (pre @ st' # post)]"
  shows "\<exists>s'. lookup_drive rootp ans r (Suc (length pre) + n) s = lookup_drive rootp ans r n s' \<and>
    lookups_of r (pl_flights s') = [LookupFlight r st' post] \<and> pl_visited s' = pl_visited s"
  using assms
proof (induction pre arbitrary: st s)
  case Nil
  then obtain ts where ts: "ans st = Inr ts" "List.find (\<lambda>t. t_id t = tr_id r) ts = None"
    by (auto simp: image_iff find_None_iff) metis
  let ?s = "lookup_answered rootp r st (st' # post) (ans st) (palette_landed (LookupFlight r st (st' # post)) s)"
  have "lookups_of r (pl_flights s) = [LookupFlight r st (st' # post)]" using Nil.prems(2) by simp
  note step = drive_step(1) [OF this, where rootp = rootp and ans = ans and n = n] drive_step(2) [OF this]
  have "pl_visited ?s = pl_visited s" using ts by (simp add: lookup_answered_def palette_landed_def)
  moreover have "lookups_of r (pl_flights ?s) = [LookupFlight r st' post]"
    using step(2) ts by (simp add: lookup_answered_def lookups_of_def)
  ultimately show ?case using step(1) by auto
next
  case (Cons x pre)
  then obtain ts where ts: "ans st = Inr ts" "List.find (\<lambda>t. t_id t = tr_id r) ts = None"
    by (auto simp: image_iff find_None_iff) metis
  let ?s = "lookup_answered rootp r st (x # pre @ st' # post) (ans st) (palette_landed (LookupFlight r st (x # pre @ st' # post)) s)"
  have "lookups_of r (pl_flights s) = [LookupFlight r st (x # pre @ st' # post)]" using Cons.prems(2) by simp
  note step = drive_step(1) [OF this, where rootp = rootp and ans = ans and n = "Suc (length pre) + n"] drive_step(2) [OF this]
  have v: "pl_visited ?s = pl_visited s" using ts by (simp add: lookup_answered_def palette_landed_def)
  have "lookups_of r (pl_flights ?s) = [LookupFlight r x (pre @ st' # post)]"
    using step(2) ts by (simp add: lookup_answered_def lookups_of_def)
  moreover have "\<forall>y \<in> set (x # pre). \<exists>ts. ans y = Inr ts \<and> tr_id r \<notin> t_id ` set ts" using Cons.prems(1) by simp
  ultimately have "\<exists>s'. lookup_drive rootp ans r (Suc (length pre) + n) ?s = lookup_drive rootp ans r n s' \<and>
      lookups_of r (pl_flights s') = [LookupFlight r st' post] \<and> pl_visited s' = pl_visited ?s"
    by (intro Cons.IH)
  then show ?case using step(1) v by (simp del: lookup_drive.simps)
qed

lemma drive_hit:
  assumes "ans st = Inr ts" "List.find (\<lambda>t. t_id t = tr_id r) ts = Some hit"
    and "lookups_of r (pl_flights s) = [LookupFlight r st rest]"
  shows "\<not> pl_open (lookup_drive rootp ans r (Suc n) s) \<and>
    pl_visited (lookup_drive rootp ans r (Suc n) s) = pl_visited s @ [hit_link rootp (tr_id r) st hit]"
proof -
  let ?s = "visit (hit_link rootp (tr_id r) st hit) (palette_landed (LookupFlight r st rest) s)"
  have "lookup_drive rootp ans r (Suc n) s = lookup_drive rootp ans r n ?s"
    using drive_step(1) [OF assms(3)] assms(1,2) by (simp add: lookup_answered_def)
  moreover have "lookups_of r (pl_flights ?s) = []"
    using drive_step(2) [OF assms(3)] by (simp add: visit_def palette_closed_def)
  then have "lookup_drive rootp ans r n ?s = ?s" by (cases n) simp_all
  ultimately show ?thesis by (simp add: visit_def palette_closed_def palette_landed_def)
qed


text \<open>A retry task of the queue mail, searched for after active and pending answered without it.\<close>

definition sample_answers :: "console_task_state \<Rightarrow> jstring + task_info list" where
  "sample_answers st =
     Inr (if st = Retry then [(sample_row ''mail'' ''x'')\<lparr>t_id := ascii_lower sample_uuid\<rparr>] else [])"


subsection \<open>Where the lookup falls short\<close>

text \<open>A lookup is never given up: its hit takes the operator away from whatever was typed since, or after the palette was closed.\<close>

lemma late_hit_navigates:
  assumes "List.find (\<lambda>t. t_id t = tr_id r) ts = Some hit"
  shows "pl_visited (lookup_answered rootp r st rest (Inr ts) (palette_closed (palette_typed t s))) =
    pl_visited s @ [hit_link rootp (tr_id r) st hit]"
  using assms by (simp add: lookup_answered_def visit_def palette_closed_def palette_typed_def)

text \<open>
  And its miss is told of the id typed since, which was never looked up and now cannot be: the entry does
  nothing until the text changes. An error reads the same.
\<close>

lemma late_miss_blocks_next:
  assumes "parseTaskIdInput t = Some r'"
  shows "palette_entries e (lookup_answered rootp r st [] (Inr []) (palette_typed t s)) = [lookup_entry LookupNotFound r'] \<and>
    palette_entries e (lookup_answered rootp r st rest (Inl err) (palette_typed t s)) = [lookup_entry LookupNotFound r'] \<and>
    pe_run (lookup_entry LookupNotFound r') = RunNothing"
  using assms
  by (simp add: lookup_answered_def palette_typed_def palette_entries_def entries_of_def lookup_entry_def)

text \<open>The verbs offered for the console's query act on the very scope the console's own dialog acts on.\<close>

lemma palette_verbs_act_on_console_scope:
  assumes "parseTaskIdInput (pl_input s) = None" "x \<in> set (palette_entries e s)" "pe_run x = RunVerb v scope"
  shows "pl_onTasks s \<and> \<not> pv_readOnly e \<and> scope = verb_scope (parseConsoleState (pl_location s)) \<and>
    v \<in> set (STATE_BULK_VERBS (cs_state (parseConsoleState (pl_location s))))"
proof -
  have verbs: "fst y \<in> set items" if "y \<in> set (fuzzyFilter lower q items key (Some n))" for y lower q key n and items :: "job_verb list"
    using that by (auto simp: fuzzyFilter_def Let_def List.map_filter_def dest!: in_set_takeD)
  let ?view = "parseConsoleState (pl_location s)"
  have "x \<in> set (offered_entries e (pl_input s) (pl_queues s) (pl_views s) (palette_consoleState s))"
    using assms by (auto simp: palette_entries_def entries_of_def no_match_entry_def Let_def split: if_splits)
  then have "pl_onTasks s \<and> \<not> pv_readOnly e \<and>
      x \<in> verb_entry ?view ` set (fuzzyFilter (pv_lower e) (pl_input s) (STATE_BULK_VERBS (cs_state ?view)) verb_label (Some 4))"
    unfolding offered_entries_def Let_def set_append Un_iff set_map
  proof (elim disjE)
    assume "x \<in> set (case palette_consoleState s of
        Some view \<Rightarrow> if pv_readOnly e then []
          else map (verb_entry view) (fuzzyFilter (pv_lower e) (pl_input s) (STATE_BULK_VERBS (cs_state view)) verb_label (Some 4))
      | None \<Rightarrow> [])"
    then show ?thesis by (auto simp: palette_consoleState_def split: if_splits)
  qed (use assms(3) in \<open>auto simp: queue_entry_def view_entry_def goto_entry_def Let_def\<close>)
  then show ?thesis using assms(3) verbs by (auto simp: verb_entry_def)
qed

end
