(* ===== verification/FetchViews.thy ===== *)
theory FetchViews
  imports Polling Formats
begin

text \<open>
  What the fetched screens under \<open>src/ui/src/views\<close> share: \<open>fmt\<close>, \<open>split\<close>, and the discipline of \<open>useLatestOnly\<close>
  (\<open>hooks/index.tsx\<close>) as a contract. Every fetch takes the next number; its answer is applied only while that number
  is the last one given out. The contract is what a screen promises of its own state; the client gets that a screen
  whose last fetch has been answered shows the answer to what it asks for.
\<close>

definition fmt :: "number option \<Rightarrow> jstring" where
  "fmt n = (case n of Some (Finite x) \<Rightarrow> locale_number x | _ \<Rightarrow> DASH)"

abbreviation fmt_int :: "int \<Rightarrow> jstring" where
  "fmt_int i \<equiv> fmt (Some (Finite (of_int i)))"

text \<open>\<open>s.split(c)\<close> with a separator of one unit, which takes apart what \<open>join\<close> put together.\<close>

fun split_unit :: "nat \<Rightarrow> jstring \<Rightarrow> jstring list" where
  "split_unit c [] = [[]]"
| "split_unit c (x # xs) =
     (if x = c then [] # split_unit c xs else (x # hd (split_unit c xs)) # tl (split_unit c xs))"

lemma split_unit_nonempty: "split_unit c xs \<noteq> []"
  by (induction xs) auto

lemma split_unit_append: "c \<notin> set xs \<Longrightarrow> split_unit c (xs @ c # ys) = xs # split_unit c ys"
  by (induction xs) auto

lemma split_unit_single: "c \<notin> set xs \<Longrightarrow> split_unit c xs = [xs]"
  by (induction xs) auto

lemma split_unit_join: "xss \<noteq> [] \<Longrightarrow> \<forall>xs \<in> set xss. c \<notin> set xs \<Longrightarrow> split_unit c (join [c] xss) = xss"
proof (induction xss)
  case (Cons xs xss)
  then show ?case
    by (cases xss) (simp_all add: join_Cons split_unit_single split_unit_append)
qed simp

subsection \<open>Numbered requests\<close>

text \<open>Taking a request out of a list of numbered ones.\<close>

lemma distinct_remove_numbered: "distinct (map fst xs) \<Longrightarrow> distinct (map fst (remove1 x xs))"
  by (auto simp: distinct_map intro: inj_on_diff)

lemma other_number_kept: "k \<noteq> fst x \<Longrightarrow> k \<in> fst ` set (remove1 x xs) \<longleftrightarrow> k \<in> fst ` set xs"
  by (induction xs) auto

lemma number_gone:
  assumes "distinct (map fst xs)" "x \<in> set xs"
  shows "fst x \<notin> fst ` set (remove1 x xs)"
proof -
  have "distinct xs" using assms(1) by (simp add: distinct_map)
  moreover have "y = x" if "y \<in> set xs" "fst y = fst x" for y
    using assms that by (auto simp: distinct_map dest: inj_onD)
  ultimately show ?thesis by force
qed

subsection \<open>The contract\<close>

text \<open>
  \<open>num\<close> is the last number given out, \<open>out\<close> the fetches not yet answered, each with what it asked, \<open>asked\<close> what the
  screen asks for now, and \<open>known s q\<close> says that the screen shows an answer to \<open>q\<close>, or the error of one.
\<close>

locale latest_only =
  fixes num :: "'s \<Rightarrow> nat"
    and out :: "'s \<Rightarrow> (nat \<times> 'q) list"
    and asked :: "'s \<Rightarrow> 'q"
    and known :: "'s \<Rightarrow> 'q \<Rightarrow> bool"
    and honest :: "'q \<Rightarrow> 'a \<Rightarrow> bool"
    and ask :: "'q \<Rightarrow> 's \<Rightarrow> 's"
    and answer :: "nat \<Rightarrow> 'q \<Rightarrow> 'a \<Rightarrow> 's \<Rightarrow> 's"
  assumes ask_num: "num (ask q s) = num s + 1"
    and ask_out: "out (ask q s) = out s @ [(num s + 1, q)]"
    and ask_asked: "asked (ask q s) = asked s"
    and answer_num: "num (answer n q a s) = num s"
    and answer_asked: "asked (answer n q a s) = asked s"
    and answer_out: "out (answer n q a s) = remove1 (n, q) (out s)"
    and answer_current: "n = num s \<Longrightarrow> honest q a \<Longrightarrow> known (answer n q a s) q"
    and answer_late: "n \<noteq> num s \<Longrightarrow> known (answer n q a s) = known s"
begin

definition numbered :: "'s \<Rightarrow> bool" where
  "numbered s \<longleftrightarrow> distinct (map fst (out s)) \<and> (\<forall>x \<in> set (out s). fst x \<le> num s)"

definition current :: "'s \<Rightarrow> bool" where
  "current s \<longleftrightarrow> (\<forall>q. (num s, q) \<in> set (out s) \<longrightarrow> q = asked s) \<and>
     (num s \<noteq> 0 \<and> num s \<notin> fst ` set (out s) \<longrightarrow> known s (asked s))"

lemma numbered_ask: "numbered s \<Longrightarrow> numbered (ask q s)"
  unfolding numbered_def ask_num ask_out by fastforce

lemma numbered_answer: "numbered s \<Longrightarrow> numbered (answer n q a s)"
  unfolding numbered_def answer_num answer_out
  by (auto simp: distinct_remove_numbered dest: set_remove1_subset [THEN subsetD])

lemma current_ask: "numbered s \<Longrightarrow> current (ask (asked s) s)"
  unfolding numbered_def current_def ask_num ask_out ask_asked by fastforce

lemma current_answer:
  assumes "numbered s" "current s" "(n, q) \<in> set (out s)" "honest q a"
  shows "current (answer n q a s)"
proof (cases "n = num s")
  case True
  then have q: "q = asked s" using assms(2,3) by (simp add: current_def)
  have "num s \<notin> fst ` set (remove1 (n, q) (out s))"
    using number_gone [OF _ assms(3)] assms(1) True by (simp add: numbered_def)
  moreover from this have "(num s, x) \<notin> set (remove1 (n, q) (out s))" for x by force
  ultimately show ?thesis
    using answer_current [OF True assms(4)] q by (simp add: current_def answer_num answer_out answer_asked)
next
  case False
  then have "(num s, x) \<in> set (remove1 (n, q) (out s)) \<longleftrightarrow> (num s, x) \<in> set (out s)" for x by simp
  then show ?thesis
    using assms(2) answer_late [OF False] other_number_kept [of "num s" "(n, q)" "out s"] False
    by (simp add: current_def answer_num answer_out answer_asked)
qed

text \<open>A step that touches none of the five keeps both.\<close>

lemma same_parts:
  assumes "num s' = num s" "out s' = out s" "asked s' = asked s" "known s' = known s"
  shows "numbered s' \<longleftrightarrow> numbered s" "current s' \<longleftrightarrow> current s"
  using assms by (simp_all add: numbered_def current_def)

lemma settled_known: "current s \<Longrightarrow> num s \<noteq> 0 \<Longrightarrow> num s \<notin> fst ` set (out s) \<Longrightarrow> known s (asked s)"
  by (simp add: current_def)

lemma unasked:
  assumes "out s = []" "num s = 0"
  shows "numbered s" "current s"
  using assms by (simp_all add: numbered_def current_def)

end

end
