(* ===== verification/DirectoryView.thy ===== *)
theory DirectoryView
  imports FetchViews Frozen UrlState Endpoints JsonText Fleet Durations
begin

text \<open>
  The queues directory (\<open>src/ui/src/views/QueuesDirectoryView.tsx\<close>): its fetch, the sort and paging handlers, the
  freeze of the hovered table, pause and resume, the trend column, and the cells of a row. A step is one callback
  followed by the effects of its commit (\<open>dir_commit\<close>). What the server may answer to a query is the relation \<open>server\<close>.
\<close>

subsection \<open>Rows\<close>

definition DIR_ARCHIVE_CAP :: int where "DIR_ARCHIVE_CAP = 10000"

definition SPARK_ROW_CAP :: nat where "SPARK_ROW_CAP = 50"

definition SPARK_POINTS :: int where "SPARK_POINTS = 60"

text \<open>A column: its label, the key it sorts by, and whether it is numeric.\<close>

definition COLUMNS :: "(jstring \<times> sort_key option \<times> bool) list" where
  "COLUMNS =
     [(js ''Queue'', Some SName, False), (js ''Pending'', Some SPending, True), (js ''Trend 30m'', None, False),
      (js ''Active'', Some SActive, True), (js ''Scheduled'', Some SScheduled, True), (js ''Retry'', Some SRetry, True),
      (js ''Archived'', Some SArchived, True), (js ''Oldest pend'', Some SOldestPendingAge, True),
      (js ''Latency'', Some SLatency, True), (js ''Proc today'', Some SProcessedToday, True),
      (js ''Fail today'', Some SFailedToday, True), (js ''Err rate'', Some SErrorRate, True),
      (js ''Consumers'', Some SConsumers, True), (js ''Paused since'', None, False), ([], None, False)]"

definition uncovered :: "fleet_queue_row \<Rightarrow> bool" where
  "uncovered row \<longleftrightarrow> fq_consumers row = 0 \<and> fq_pending row > 0"

definition row_chips :: "fleet_queue_row \<Rightarrow> (tone \<times> jstring) list" where
  "row_chips row =
     (if fq_paused row then [(Mut, js ''paused'')] else []) @
     (if uncovered row then [(Crit, js ''no consumers'')] else []) @
     (if fq_orphan_candidates row > 0 then [(Warn, js ''orphans '' @ fmt_int (fq_orphan_candidates row))] else []) @
     (if fq_archived row \<ge> DIR_ARCHIVE_CAP then [(Warn, js ''archive cap'')] else [])"

definition row_stripe :: "fleet_queue_row \<Rightarrow> tone option" where
  "row_stripe row = (if uncovered row then Some Crit else if fq_paused row then Some Warn else None)"

definition scheduled_cell :: "fleet_queue_row \<Rightarrow> jstring" where
  "scheduled_cell row =
     fmt_int (fq_scheduled row) @
     (if fq_past_due_scheduled row > 0 then js ''(+'' @ fmt_int (fq_past_due_scheduled row) @ js '' due)'' else [])"

definition oldest_cell :: "fleet_queue_row \<Rightarrow> jstring \<times> tone option" where
  "oldest_cell row =
     (humanize (fq_oldest_pending_age_ms row), ageTone (Some (Finite (of_int (fq_oldest_pending_age_ms row)))))"

definition error_cell :: "fleet_queue_row \<Rightarrow> jstring \<times> bool" where
  "error_cell row = (formatErrorRate (Some (Finite (fq_error_rate row))), fq_error_rate row \<ge> 25 / 100)"

definition paused_cell :: "(jstring \<Rightarrow> int option) \<Rightarrow> int \<Rightarrow> fleet_queue_row \<Rightarrow> jstring" where
  "paused_cell date_parse now row =
     (if \<not> fq_paused row then DASH
      else case fq_paused_since row of
        Some t \<Rightarrow> if t \<noteq> [] then timeAgo date_parse now t else js ''paused''
      | None \<Rightarrow> js ''paused'')"

definition stale_dot :: "(jstring \<Rightarrow> int option) \<Rightarrow> int \<Rightarrow> fleet_queue_row \<Rightarrow> jstring option" where
  "stale_dot date_parse now row =
     (if isStale date_parse (Some (fq_refreshed_at row)) now STALE_ROW_THRESHOLD_MS
      then Some (js ''refreshed '' @ timeAgo date_parse now (fq_refreshed_at row) @ dash @ js ''cold tier'') else None)"

text \<open>What the button of a row does: \<open>True\<close> is pause.\<close>

definition row_action :: "fleet_queue_row \<Rightarrow> bool" where
  "row_action row \<longleftrightarrow> \<not> fq_paused row"

subsection \<open>Equality of two pages\<close>

text \<open>The row as the server sends it, without \<open>refreshed_at\<close>; an absent field is left out.\<close>

abbreviation "num_field k i \<equiv> [(js k, VNumber (Finite (of_int i)))]"

definition text_field :: "jstring \<Rightarrow> jstring option \<Rightarrow> (jstring \<times> jvalue) list" where
  "text_field k t = (case t of Some x \<Rightarrow> [(k, VString x)] | None \<Rightarrow> [])"

definition row_json :: "fleet_queue_row \<Rightarrow> jvalue" where
  "row_json r = VObject
     ([(js ''queue'', VString (fq_queue r))] @ num_field ''pending'' (fq_pending r) @ num_field ''active'' (fq_active r) @
      num_field ''scheduled'' (fq_scheduled r) @ num_field ''retry'' (fq_retry r) @ num_field ''archived'' (fq_archived r) @
      num_field ''completed'' (fq_completed r) @ num_field ''groups'' (fq_groups r) @
      [(js ''paused'', VBool (fq_paused r))] @ text_field (js ''paused_since'') (fq_paused_since r) @
      num_field ''processed_today'' (fq_processed_today r) @ num_field ''failed_today'' (fq_failed_today r) @
      [(js ''error_rate'', VNumber (Finite (fq_error_rate r)))] @ num_field ''orphan_candidates'' (fq_orphan_candidates r) @
      text_field (js ''next_retry_at'') (fq_next_retry_at r) @
      num_field ''past_due_scheduled'' (fq_past_due_scheduled r) @
      text_field (js ''oldest_pending_since'') (fq_oldest_pending_since r) @
      num_field ''oldest_pending_age_ms'' (fq_oldest_pending_age_ms r) @ num_field ''latency_ms'' (fq_latency_ms r) @
      num_field ''consumers'' (fq_consumers r))"

fun dirRowsEqual :: "fleet_queue_row list \<Rightarrow> fleet_queue_row list \<Rightarrow> bool" where
  "dirRowsEqual [] [] = True"
| "dirRowsEqual (a # as) (b # bs) = (json_stringify 0 (row_json a) = json_stringify 0 (row_json b) \<and> dirRowsEqual as bs)"
| "dirRowsEqual _ _ = False"

subsection \<open>State\<close>

text \<open>
  Of what is in flight: the fetches of rows with their number and query; the pauses and resumes, each with the view its
  closure fetches again; and the batches of the trend column, with the run of the effect they belong to.
\<close>

record directory =
  dy_url :: params
  dy_resp :: "fleet_queues_response option"
  dy_error :: jstring
  dy_loading :: bool
  dy_dismissed :: "jstring option"
  dy_filterInput :: jstring
  dy_hovering :: bool
  dy_saveOpen :: bool
  dy_num :: nat
  dy_out :: "(nat \<times> fleet_queues_query) list"
  dy_levers :: "(directory_state \<times> jstring \<times> bool) list"
  dy_sparks :: "jstring \<Rightarrow> series_response option"
  dy_sparkNames :: jstring
  dy_sparkRun :: nat
  dy_sparksOut :: "(nat \<times> series_spec list) list"
  dy_hook :: "(fleet_queue_row list, jstring) frozen_hook"
  dy_liveChanged :: bool
  dy_filterSeen :: jstring
  dy_polled :: "directory_state option"
  dy_toasts :: "(bool \<times> jstring) list"

definition view_of_dir :: "directory \<Rightarrow> directory_state" where
  "view_of_dir s = parseDirectoryState (dy_url s)"

definition liveRows :: "directory \<Rightarrow> fleet_queue_row list" where
  "liveRows s = (case dy_resp s of Some r \<Rightarrow> fqr_queues r | None \<Rightarrow> [])"

definition shownRows :: "directory \<Rightarrow> fleet_queue_row list" where
  "shownRows s = fz_data (fh_state (dy_hook s))"

definition resetKey :: "directory_state \<Rightarrow> jstring" where
  "resetKey v = join [124] [sort_name (ds_sort v), dir_name (ds_dir v), ds_f v, ds_cursor v, js_of_int (ds_limit v)]"

definition dir_init :: "params \<Rightarrow> directory" where
  "dir_init ps =
     \<lparr>dy_url = ps, dy_resp = None, dy_error = [], dy_loading = True, dy_dismissed = None,
      dy_filterInput = ds_f (parseDirectoryState ps), dy_hovering = False, dy_saveOpen = False, dy_num = 0, dy_out = [],
      dy_levers = [], dy_sparks = (\<lambda>_. None), dy_sparkNames = [], dy_sparkRun = 0, dy_sparksOut = [],
      dy_hook = \<lparr>fh_state = frozenInit [], fh_flushNext = False, fh_resetKey = resetKey (parseDirectoryState ps),
        fh_frozenDep = False\<rparr>,
      dy_liveChanged = False, dy_filterSeen = ds_f (parseDirectoryState ps), dy_polled = None, dy_toasts = []\<rparr>"

subsection \<open>The URL\<close>

definition dirUpdateView :: "(directory_state \<Rightarrow> directory_state) \<Rightarrow> directory \<Rightarrow> directory" where
  "dirUpdateView f s = s\<lparr>dy_url := serializeDirectoryState (f (parseDirectoryState (dy_url s))) (dy_url s)\<rparr>"

definition onSort :: "sort_key \<Rightarrow> directory \<Rightarrow> directory" where
  "onSort key s =
     (let view = view_of_dir s
      in if ds_sort view = key
         then dirUpdateView (\<lambda>v. v\<lparr>ds_dir := (if ds_dir view = Desc then Asc else Desc), ds_cursor := []\<rparr>) s
         else dirUpdateView (\<lambda>v. v\<lparr>ds_sort := key, ds_dir := (if key = SName then Asc else Desc), ds_cursor := []\<rparr>) s)"

definition applyFilter :: "directory \<Rightarrow> directory" where
  "applyFilter s =
     (if dy_filterInput s \<noteq> ds_f (view_of_dir s)
      then dirUpdateView (\<lambda>v. v\<lparr>ds_f := dy_filterInput s, ds_cursor := []\<rparr>) s else s)"

definition clearFilter :: "directory \<Rightarrow> directory" where
  "clearFilter s = dirUpdateView (\<lambda>v. v\<lparr>ds_f := [], ds_cursor := []\<rparr>) s"

definition setLimit :: "int \<Rightarrow> directory \<Rightarrow> directory" where
  "setLimit n s = dirUpdateView (\<lambda>v. v\<lparr>ds_limit := n, ds_cursor := []\<rparr>) s"

definition firstPage :: "directory \<Rightarrow> directory" where
  "firstPage s = (if ds_cursor (view_of_dir s) = [] then s else dirUpdateView (\<lambda>v. v\<lparr>ds_cursor := []\<rparr>) s)"

definition nextDirectoryPage :: "directory \<Rightarrow> directory" where
  "nextDirectoryPage s = (case Option.bind (dy_resp s) fqr_next_cursor of
     Some c \<Rightarrow> if c \<noteq> [] then dirUpdateView (\<lambda>v. v\<lparr>ds_cursor := c\<rparr>) s else s
   | None \<Rightarrow> s)"

subsection \<open>Rows\<close>

definition query_of :: "directory_state \<Rightarrow> fleet_queues_query" where
  "query_of v =
     \<lparr>fqq_sort = Some (sort_name (ds_sort v)), fqq_dir = Some (ds_dir v),
      fqq_cursor = (if ds_cursor v \<noteq> [] then Some (ds_cursor v) else None), fqq_limit = Some (ds_limit v),
      fqq_f = (if ds_f v \<noteq> [] then Some (ds_f v) else None)\<rparr>"

definition ask_rows :: "fleet_queues_query \<Rightarrow> directory \<Rightarrow> directory" where
  "ask_rows q s = s\<lparr>dy_num := dy_num s + 1, dy_out := dy_out s @ [(dy_num s + 1, q)]\<rparr>"

definition fetchQueues :: "directory_state \<Rightarrow> directory \<Rightarrow> directory" where
  "fetchQueues v s = ask_rows (query_of v) s"

definition rows_answered ::
  "nat \<Rightarrow> fleet_queues_query \<Rightarrow> axios_error + fleet_queues_response \<Rightarrow> directory \<Rightarrow> directory" where
  "rows_answered mine q answer s =
     (let s = s\<lparr>dy_out := remove1 (mine, q) (dy_out s), dy_loading := False\<rparr>
      in if mine \<noteq> dy_num s then s
         else case answer of
           Inr r \<Rightarrow> s\<lparr>dy_resp := Some r, dy_liveChanged := True, dy_error := []\<rparr>
         | Inl e \<Rightarrow> s\<lparr>dy_error := toErrorString e\<rparr>)"

subsection \<open>Pause and resume\<close>

definition doPauseResume :: "jstring \<Rightarrow> bool \<Rightarrow> directory \<Rightarrow> directory" where
  "doPauseResume queue pause s = s\<lparr>dy_levers := dy_levers s @ [(view_of_dir s, queue, pause)]\<rparr>"

definition lever_call :: "api_env \<Rightarrow> jstring \<Rightarrow> bool \<Rightarrow> http_request option" where
  "lever_call env queue pause = (if pause then pauseQueue env queue else resumeQueue env queue)"

definition lever_toast :: "jstring \<Rightarrow> bool \<Rightarrow> axios_error option \<Rightarrow> bool \<times> jstring" where
  "lever_toast queue pause failure = (case failure of
     None \<Rightarrow> (True, js ''Queue '' @ queue @
       (if pause then js '' paused'' @ dash @ js ''consumers stop dequeuing until resumed.'' else js '' resumed.''))
   | Some e \<Rightarrow> (False, js ''Could not '' @ js (if pause then ''pause'' else ''resume'') @ js '' '' @ queue @ js '': '' @ toErrorString e))"

definition lever_answered ::
  "directory_state \<Rightarrow> jstring \<Rightarrow> bool \<Rightarrow> axios_error option \<Rightarrow> directory \<Rightarrow> directory" where
  "lever_answered v queue pause failure s =
     (let s = s\<lparr>dy_levers := remove1 (v, queue, pause) (dy_levers s),
                dy_toasts := dy_toasts s @ [lever_toast queue pause failure]\<rparr>
      in case failure of None \<Rightarrow> fetchQueues v s | Some _ \<Rightarrow> s)"

subsection \<open>Trends\<close>

text \<open>The names of the top rows, joined and split again at a NUL.\<close>

definition sparkNames :: "directory \<Rightarrow> jstring" where
  "sparkNames s = join [0] (map fq_queue (take SPARK_ROW_CAP (liveRows s)))"

definition spark_specs :: "jstring \<Rightarrow> series_spec list" where
  "spark_specs names =
     map (\<lambda>q. \<lparr>sspec_scope = js ''queue:'' @ q, sspec_metric = js ''pending'', sspec_window = Window3h,
       sspec_points = Some SPARK_POINTS\<rparr>) (split_unit 0 names)"

definition fetchSparks :: "directory \<Rightarrow> directory" where
  "fetchSparks s = s\<lparr>dy_sparksOut := dy_sparksOut s @ [(dy_sparkRun s, spark_specs (dy_sparkNames s))]\<rparr>"

definition spark_tick :: "directory \<Rightarrow> directory" where
  "spark_tick s = (if dy_sparkNames s = [] then s else fetchSparks s)"

definition queue_of_scope :: "jstring \<Rightarrow> jstring" where
  "queue_of_scope scope = (if starts_with (js ''queue:'') scope then drop 6 scope else scope)"

definition sparks_answered ::
  "nat \<Rightarrow> series_spec list \<Rightarrow> axios_error + series_response list \<Rightarrow> directory \<Rightarrow> directory" where
  "sparks_answered run specs answer s =
     (let s = s\<lparr>dy_sparksOut := remove1 (run, specs) (dy_sparksOut s)\<rparr>
      in case answer of
           Inr series \<Rightarrow> if run \<noteq> dy_sparkRun s then s
             else s\<lparr>dy_sparks := map_of (rev (map (\<lambda>x. (queue_of_scope (sers_scope x), x)) series))\<rparr>
         | Inl _ \<Rightarrow> s)"

text \<open>The cell of a row: its series, when it is among the top rows.\<close>

definition spark_cell :: "directory \<Rightarrow> nat \<Rightarrow> fleet_queue_row \<Rightarrow> series_response option" where
  "spark_cell s i row = (if i < SPARK_ROW_CAP then dy_sparks s (fq_queue row) else None)"

subsection \<open>The effects of a commit\<close>

definition filter_input_effect :: "directory \<Rightarrow> directory" where
  "filter_input_effect s =
     (if ds_f (view_of_dir s) = dy_filterSeen s then s
      else s\<lparr>dy_filterSeen := ds_f (view_of_dir s), dy_filterInput := ds_f (view_of_dir s)\<rparr>)"

definition rows_effect :: "directory \<Rightarrow> directory" where
  "rows_effect s =
     (if dy_polled s = Some (view_of_dir s) then s
      else fetchQueues (view_of_dir s) (s\<lparr>dy_polled := Some (view_of_dir s)\<rparr>))"

definition sparks_effect :: "directory \<Rightarrow> directory" where
  "sparks_effect s =
     (if sparkNames s = dy_sparkNames s then s
      else spark_tick (s\<lparr>dy_sparkNames := sparkNames s, dy_sparkRun := dy_sparkRun s + 1\<rparr>))"

definition frozen_rows_effect :: "directory \<Rightarrow> directory" where
  "frozen_rows_effect s =
     s\<lparr>dy_hook := frozen_render dirRowsEqual (liveRows s) (dy_liveChanged s) (dy_hovering s) (resetKey (view_of_dir s)) (dy_hook s),
       dy_liveChanged := False\<rparr>"

definition dir_commit :: "directory \<Rightarrow> directory" where
  "dir_commit s = frozen_rows_effect (sparks_effect (rows_effect (filter_input_effect s)))"

subsection \<open>What is shown\<close>

datatype dir_body = DirLoading | DirUnavailable jstring | DirEmpty jstring | DirRows "fleet_queue_row list"

definition dir_body_of :: "directory \<Rightarrow> dir_body" where
  "dir_body_of s =
     (if dy_resp s = None \<and> dy_loading s then DirLoading
      else if dy_resp s = None \<and> dy_error s \<noteq> [] then DirUnavailable (dy_error s)
      else if shownRows s = [] then DirEmpty (ds_f (view_of_dir s))
      else DirRows (shownRows s))"

definition ignored_note :: "directory \<Rightarrow> jstring option" where
  "ignored_note s = (case Option.bind (dy_resp s) fqr_filter_ignored of
     Some t \<Rightarrow> if t \<noteq> [] \<and> dy_dismissed s \<noteq> Some t then Some t else None
   | None \<Rightarrow> None)"

definition dismissNote :: "directory \<Rightarrow> directory" where
  "dismissNote s = s\<lparr>dy_dismissed := Option.bind (dy_resp s) fqr_filter_ignored\<rparr>"

definition refresh_failing :: "directory \<Rightarrow> jstring option" where
  "refresh_failing s = (if dy_error s \<noteq> [] \<and> dy_resp s \<noteq> None then Some (dy_error s) else None)"

definition sortLabel :: "directory_state \<Rightarrow> jstring" where
  "sortLabel v = (case List.find (\<lambda>c. fst (snd c) = Some (ds_sort v)) COLUMNS of
     Some c \<Rightarrow> fst c | None \<Rightarrow> sort_name (ds_sort v))"

definition aria_sort :: "directory_state \<Rightarrow> sort_key option \<Rightarrow> jstring option" where
  "aria_sort v key =
     (if key = Some (ds_sort v) then Some (if ds_dir v = Desc then js ''descending'' else js ''ascending'') else None)"

subsection \<open>Runs\<close>

definition dir_honest ::
  "(fleet_queues_query \<Rightarrow> fleet_queues_response \<Rightarrow> bool) \<Rightarrow> fleet_queues_query \<Rightarrow> axios_error + fleet_queues_response \<Rightarrow> bool" where
  "dir_honest server q a = (case a of Inr r \<Rightarrow> server q r | Inl e \<Rightarrow> True)"

text \<open>With \<open>patient\<close>, a pause or resume settles under the view it was clicked in.\<close>

inductive dir_event ::
  "(fleet_queues_query \<Rightarrow> fleet_queues_response \<Rightarrow> bool) \<Rightarrow> bool \<Rightarrow> directory \<Rightarrow> directory \<Rightarrow> bool"
  for server patient s where
  sorted_by: "dir_event server patient s (onSort k s)"
| typed: "dir_event server patient s (s\<lparr>dy_filterInput := t\<rparr>)"
| filtered: "dir_event server patient s (applyFilter s)"
| cleared: "dir_event server patient s (clearFilter s)"
| limited: "dir_event server patient s (setLimit n s)"
| back_to_first: "dir_event server patient s (firstPage s)"
| paged: "dir_event server patient s (nextDirectoryPage s)"
| moved: "dir_event server patient s (s\<lparr>dy_url := ps\<rparr>)"
| hovered: "dir_event server patient s (s\<lparr>dy_hovering := b\<rparr>)"
| applied: "dir_event server patient s (s\<lparr>dy_hook := hook_apply dirRowsEqual (dy_hook s)\<rparr>)"
| dismissed: "dir_event server patient s (dismissNote s)"
| saving: "dir_event server patient s (s\<lparr>dy_saveOpen := b\<rparr>)"
| polled: "dir_event server patient s (fetchQueues (view_of_dir s) s)"
| trends: "dir_event server patient s (spark_tick s)"
| lever: "dir_event server patient s (doPauseResume q b s)"
| lever_landed: "(v, q, b) \<in> set (dy_levers s) \<Longrightarrow> (patient \<Longrightarrow> v = view_of_dir s) \<Longrightarrow>
    dir_event server patient s (lever_answered v q b f s)"
| rows_landed: "(n, q) \<in> set (dy_out s) \<Longrightarrow> dir_honest server q a \<Longrightarrow>
    dir_event server patient s (rows_answered n q a s)"
| sparks_landed: "(r, specs) \<in> set (dy_sparksOut s) \<Longrightarrow> dir_event server patient s (sparks_answered r specs sa s)"

inductive directory_run ::
  "(fleet_queues_query \<Rightarrow> fleet_queues_response \<Rightarrow> bool) \<Rightarrow> bool \<Rightarrow> directory \<Rightarrow> bool" for server patient where
  start: "directory_run server patient (dir_commit (dir_init ps))"
| step: "directory_run server patient s \<Longrightarrow> dir_event server patient s s' \<Longrightarrow> directory_run server patient (dir_commit s')"

definition dir_asked :: "directory \<Rightarrow> fleet_queues_query" where
  "dir_asked s = query_of (view_of_dir s)"

definition dir_known ::
  "(fleet_queues_query \<Rightarrow> fleet_queues_response \<Rightarrow> bool) \<Rightarrow> directory \<Rightarrow> fleet_queues_query \<Rightarrow> bool" where
  "dir_known server s q \<longleftrightarrow> dy_error s \<noteq> [] \<or> (\<exists>r. dy_resp s = Some r \<and> server q r)"

interpretation dirq: latest_only dy_num dy_out dir_asked "dir_known server" "dir_honest server" ask_rows rows_answered
  for server
  by unfold_locales
    (auto simp: ask_rows_def rows_answered_def dir_asked_def view_of_dir_def dir_known_def dir_honest_def Let_def fun_eq_iff
      split: sum.splits)

text \<open>The buffer of the hovered table, after a commit and before the effects of the next.\<close>

definition hook_pre :: "directory \<Rightarrow> bool" where
  "hook_pre s \<longleftrightarrow>
     (let h = dy_hook s; z = fh_state h
      in (dy_liveChanged s \<or> fz_live z = liveRows s) \<and> fz_frozen z = fh_frozenDep h \<and> (\<not> fz_frozen z \<longrightarrow> fz_data z = fz_live z))"

definition hook_ok :: "directory \<Rightarrow> bool" where
  "hook_ok s \<longleftrightarrow> hook_pre s \<and> \<not> dy_liveChanged s \<and> fh_frozenDep (dy_hook s) = dy_hovering s"

lemma frozen_render_ok:
  assumes "new \<or> fz_live (fh_state h) = live" "fz_frozen (fh_state h) = fh_frozenDep h"
    "\<not> fz_frozen (fh_state h) \<longrightarrow> fz_data (fh_state h) = fz_live (fh_state h)"
  shows "let h' = frozen_render equals live new frozen key h; z = fh_state h'
    in fz_live z = live \<and> fz_frozen z = frozen \<and> fh_frozenDep h' = frozen \<and> (\<not> frozen \<longrightarrow> fz_data z = live)"
  using assms by (auto simp: frozen_render_def reset_effect_def freeze_effect_def live_effect_def frozenInit_def Let_def)

lemma hook_commits: "hook_pre s \<Longrightarrow> hook_ok (frozen_rows_effect s)"
  using frozen_render_ok [of "dy_liveChanged s" "dy_hook s" "liveRows s" dirRowsEqual "dy_hovering s" "resetKey (view_of_dir s)"]
  by (auto simp: hook_pre_def hook_ok_def frozen_rows_effect_def liveRows_def Let_def)

definition dir_parts :: "directory \<Rightarrow> nat \<times> (nat \<times> fleet_queues_query) list \<times> fleet_queues_response option \<times> jstring" where
  "dir_parts s = (dy_num s, dy_out s, dy_resp s, dy_error s)"

definition dir_pre :: "(fleet_queues_query \<Rightarrow> fleet_queues_response \<Rightarrow> bool) \<Rightarrow> directory \<Rightarrow> bool" where
  "dir_pre server s \<longleftrightarrow> dirq.numbered s \<and> hook_pre s \<and>
     (dy_polled s = Some (view_of_dir s) \<longrightarrow> dy_num s \<noteq> 0 \<and> dirq.current server s)"

definition dir_ok :: "(fleet_queues_query \<Rightarrow> fleet_queues_response \<Rightarrow> bool) \<Rightarrow> directory \<Rightarrow> bool" where
  "dir_ok server s \<longleftrightarrow> dir_pre server s \<and> hook_ok s \<and> dy_polled s = Some (view_of_dir s)"

lemma dir_parts_same:
  assumes "dir_parts s' = dir_parts s"
  shows "dirq.numbered s' = dirq.numbered s"
    "view_of_dir s' = view_of_dir s \<Longrightarrow> dirq.current server s' = dirq.current server s"
  using assms by (auto simp: dir_parts_def dirq.numbered_def dirq.current_def dir_known_def dir_asked_def)

lemma dir_effect_frames:
  "dir_parts (filter_input_effect s) = dir_parts s" "dir_parts (sparks_effect s) = dir_parts s"
  "dir_parts (frozen_rows_effect s) = dir_parts s"
  "dy_url (filter_input_effect s) = dy_url s" "dy_url (rows_effect s) = dy_url s" "dy_url (sparks_effect s) = dy_url s"
  "dy_url (frozen_rows_effect s) = dy_url s"
  "dy_polled (filter_input_effect s) = dy_polled s" "dy_polled (sparks_effect s) = dy_polled s"
  "dy_polled (frozen_rows_effect s) = dy_polled s"
  "hook_pre (filter_input_effect s) = hook_pre s" "hook_pre (rows_effect s) = hook_pre s" "hook_pre (sparks_effect s) = hook_pre s"
  by (simp_all add: filter_input_effect_def sparks_effect_def rows_effect_def frozen_rows_effect_def spark_tick_def fetchSparks_def
      fetchQueues_def ask_rows_def dir_parts_def hook_pre_def liveRows_def)

lemma dir_commits:
  assumes "dir_pre server s"
  shows "dir_ok server (dir_commit s)"
proof -
  let ?f = "filter_input_effect s"
  let ?r = "rows_effect ?f"
  have view: "view_of_dir (dir_commit s) = view_of_dir s" "view_of_dir ?f = view_of_dir s" "view_of_dir ?r = view_of_dir s"
    by (simp_all add: view_of_dir_def dir_commit_def dir_effect_frames)
  have parts: "dir_parts (dir_commit s) = dir_parts ?r" by (simp add: dir_commit_def dir_effect_frames)
  have num: "dirq.numbered ?f" using assms dir_parts_same(1) [OF dir_effect_frames(1)] by (simp add: dir_pre_def)
  have "dy_polled ?r = Some (view_of_dir s) \<and> dy_num ?r \<noteq> 0 \<and> dirq.numbered ?r \<and> dirq.current server ?r"
  proof (cases "dy_polled s = Some (view_of_dir s)")
    case True
    then have "?r = ?f" by (simp add: rows_effect_def view dir_effect_frames)
    moreover have "dy_num ?f = dy_num s" using dir_effect_frames(1) [of s] by (simp add: dir_parts_def)
    ultimately show ?thesis
      using True assms num dir_parts_same(2) [OF dir_effect_frames(1) view(2)] by (simp add: dir_pre_def dir_effect_frames)
  next
    case False
    let ?p = "?f\<lparr>dy_polled := Some (view_of_dir s)\<rparr>"
    have r: "?r = ask_rows (dir_asked ?p) ?p"
      using False by (simp add: rows_effect_def view dir_effect_frames fetchQueues_def dir_asked_def view_of_dir_def)
    have "dirq.numbered ?p" using num dir_parts_same(1) [of ?p ?f] by (simp add: dir_parts_def)
    then show ?thesis unfolding r
      using dirq.current_ask [of ?p server] dirq.numbered_ask [of ?p] by (simp add: ask_rows_def)
  qed
  moreover have "dy_num (dir_commit s) = dy_num ?r" using parts by (simp add: dir_parts_def)
  moreover have "dy_polled (dir_commit s) = dy_polled ?r" by (simp add: dir_commit_def dir_effect_frames)
  moreover have "hook_ok (dir_commit s)"
    unfolding dir_commit_def using assms by (intro hook_commits) (simp add: dir_effect_frames dir_pre_def)
  ultimately show ?thesis
    using dir_parts_same(1) [OF parts] dir_parts_same(2) [OF parts, of server] view by (simp add: dir_ok_def dir_pre_def hook_ok_def)
qed

text \<open>A callback that leaves the rows and their fetches alone.\<close>

lemma dir_untouched:
  assumes "dir_ok server s" "dir_parts s' = dir_parts s" "dy_polled s' = dy_polled s" "hook_pre s'"
  shows "dir_pre server s'"
  using assms dir_parts_same(1) [OF assms(2)] dir_parts_same(2) [OF assms(2), of server]
  by (auto simp: dir_ok_def dir_pre_def dir_parts_def)

lemma dir_asking:
  assumes "dir_pre server s" "dy_polled s = Some (view_of_dir s)"
  shows "dir_pre server (fetchQueues (view_of_dir s) s)"
proof -
  have "fetchQueues (view_of_dir s) s = ask_rows (dir_asked s) s" by (simp add: fetchQueues_def dir_asked_def)
  moreover have "hook_pre (ask_rows q s) = hook_pre s" for q by (simp add: hook_pre_def ask_rows_def liveRows_def)
  ultimately show ?thesis
    using assms dirq.current_ask [of s server] dirq.numbered_ask [of s] by (simp add: dir_pre_def ask_rows_def)
qed

lemma hook_pre_frame:
  assumes "dy_hook s' = dy_hook s" "dy_liveChanged s' = dy_liveChanged s" "dy_resp s' = dy_resp s"
  shows "hook_pre s' = hook_pre s"
  using assms by (simp add: hook_pre_def liveRows_def)

lemmas dir_handler_defs =
  onSort_def applyFilter_def clearFilter_def setLimit_def firstPage_def nextDirectoryPage_def dirUpdateView_def dismissNote_def
  spark_tick_def fetchSparks_def doPauseResume_def sparks_answered_def Let_def

lemma dir_event_ok:
  assumes "dir_event server True s s'" "dir_ok server s"
  shows "dir_pre server s'"
proof -
  have hook: "hook_pre s" and pre: "dir_pre server s" and polled: "dy_polled s = Some (view_of_dir s)"
    using assms(2) by (simp_all add: dir_ok_def dir_pre_def)
  have still: "dir_pre server x" if "dir_parts x = dir_parts s" "dy_polled x = dy_polled s" "dy_hook x = dy_hook s"
      "dy_liveChanged x = dy_liveChanged s" "dy_resp x = dy_resp s" for x
    using dir_untouched [OF assms(2) that(1,2)] hook_pre_frame [OF that(3-5)] hook by simp
  from assms(1) show ?thesis
  proof cases
    case (lever_landed v q b f)
    let ?t = "s\<lparr>dy_levers := remove1 (v, q, b) (dy_levers s), dy_toasts := dy_toasts s @ [lever_toast q b f]\<rparr>"
    have t: "dir_pre server ?t" by (rule still) (simp_all add: dir_parts_def)
    moreover have "view_of_dir ?t = view_of_dir s" by (simp add: view_of_dir_def)
    ultimately have "dir_pre server (fetchQueues (view_of_dir s) ?t)" using dir_asking [OF t] polled by simp
    with t lever_landed show ?thesis by (cases f) (simp_all add: lever_answered_def Let_def)
  next
    case (rows_landed n q a)
    have "dirq.numbered s'" using pre rows_landed dirq.numbered_answer by (simp add: dir_pre_def)
    moreover have "dirq.current server s'"
      using pre polled rows_landed dirq.current_answer by (auto simp: dir_pre_def)
    moreover have "dy_num s' = dy_num s" "dy_polled s' = dy_polled s" "view_of_dir s' = view_of_dir s"
      using rows_landed by (simp_all add: rows_answered_def Let_def view_of_dir_def split: sum.split)
    moreover have "hook_pre s'"
      using hook rows_landed by (auto simp: rows_answered_def Let_def hook_pre_def liveRows_def split: sum.split)
    ultimately show ?thesis using pre polled by (simp add: dir_pre_def)
  next
    case applied
    have "hook_pre s'" using hook applied by (auto simp: hook_pre_def hook_apply_def Let_def liveRows_def)
    then show ?thesis using dir_untouched [OF assms(2)] applied by (simp add: dir_parts_def)
  next
    case polled
    then show ?thesis using dir_asking [OF pre] \<open>dy_polled s = Some (view_of_dir s)\<close> by simp
  qed (rule still; simp add: dir_parts_def dir_handler_defs split: option.split sum.split)+
qed

lemma directory_run_ok: "directory_run server True s \<Longrightarrow> dir_ok server s"
proof (induction rule: directory_run.induct)
  case (start ps)
  have "dir_pre server (dir_init ps)"
    using dirq.unasked(1) [of "dir_init ps"] by (simp add: dir_pre_def hook_pre_def dir_init_def frozenInit_def liveRows_def)
  then show ?case by (rule dir_commits)
next
  case (step s s')
  then show ?case using dir_event_ok dir_commits by blast
qed

text \<open>C19. The directory shows what its URL asks for: in every run, whatever the order of clicks, polls and answers, once the
  last fetch has been answered without an error the page is an answer to the sort, filter, cursor and limit of
  the URL, and while the table is not hovered its rows are those shown, as long as no pause or resume settles
  under another view than the one it was clicked in.\<close>

theorem directory_shows_query:
  assumes "directory_run server True s" "dy_num s \<notin> fst ` set (dy_out s)" "dy_error s = []"
  shows "\<exists>r. dy_resp s = Some r \<and> server (query_of (view_of_dir s)) r \<and> (\<not> dy_hovering s \<longrightarrow> shownRows s = fqr_queues r)"
proof -
  have ok: "dir_ok server s" using assms(1) by (rule directory_run_ok)
  then have "dir_known server s (dir_asked s)"
    using dirq.settled_known [OF _ _ assms(2), of server] by (simp add: dir_ok_def dir_pre_def)
  with ok assms(3) show ?thesis
    by (auto simp: dir_known_def dir_asked_def dir_ok_def hook_ok_def hook_pre_def shownRows_def liveRows_def Let_def)
qed

text \<open>A directory opened without parameters, and its first page.\<close>

definition sample_page :: fleet_queues_response where
  "sample_page =
     \<lparr>fqr_queues = [], fqr_total_matched = 0, fqr_next_cursor = None, fqr_filter_ignored = None,
      fqr_coverage = \<lparr>fc_tier = 0, fc_queues_total = 0, fc_refreshed_pct_5m = 100, fc_updated_at = [], fc_budget = None,
        fc_full_rotation_seconds_est = None, fc_hot_set_size = None\<rparr>\<rparr>"

definition dir_opened :: directory where
  "dir_opened = dir_commit (dir_init [])"

lemma default_directory: "parseDirectoryState [] = DEFAULT_DIRECTORY_STATE"
  by (simp add: parseDirectoryState_def DEFAULT_DIRECTORY_STATE_def param_text_def get_param_def number_param_def one_of_def
      sort_unnamed DIRECTORY_LIMITS_def Let_def)

lemma directory_shows_query_witness:
  "\<exists>r. dy_resp (dir_commit (rows_answered 1 (query_of DEFAULT_DIRECTORY_STATE) (Inr sample_page) dir_opened)) = Some r \<and>
     r = sample_page"
proof -
  let ?q = "query_of DEFAULT_DIRECTORY_STATE"
  let ?server = "\<lambda>q r. q = ?q \<and> r = sample_page"
  let ?a = "rows_answered 1 ?q (Inr sample_page) dir_opened"
  have opened: "dy_url dir_opened = []" "dy_num dir_opened = 1" "dy_out dir_opened = [(1, ?q)]"
    "dy_polled dir_opened = Some DEFAULT_DIRECTORY_STATE"
    by (simp_all add: dir_opened_def dir_commit_def dir_init_def filter_input_effect_def rows_effect_def sparks_effect_def
        frozen_rows_effect_def fetchQueues_def ask_rows_def view_of_dir_def default_directory sparkNames_def liveRows_def)
  have event: "dir_event ?server True dir_opened ?a"
    by (rule dir_event.rows_landed) (simp_all add: opened dir_honest_def)
  have "directory_run ?server True dir_opened" unfolding dir_opened_def by (rule directory_run.start)
  from this event have run: "directory_run ?server True (dir_commit ?a)" by (rule directory_run.step)
  have parts: "dir_parts (dir_commit ?a) = (1, [], Some sample_page, [])"
  proof -
    have "dy_polled (filter_input_effect ?a) = Some (view_of_dir (filter_input_effect ?a))"
      by (simp add: dir_effect_frames view_of_dir_def rows_answered_def Let_def opened default_directory)
    then have "rows_effect (filter_input_effect ?a) = filter_input_effect ?a" by (simp add: rows_effect_def)
    then have "dir_parts (dir_commit ?a) = dir_parts ?a" by (simp add: dir_commit_def dir_effect_frames)
    then show ?thesis by (simp add: dir_parts_def rows_answered_def Let_def opened)
  qed
  then have "dy_num (dir_commit ?a) \<notin> fst ` set (dy_out (dir_commit ?a))" "dy_error (dir_commit ?a) = []"
    by (simp_all add: dir_parts_def)
  from directory_shows_query [OF run this] show ?thesis by auto
qed

subsection \<open>Sorting\<close>

text \<open>A click on a header sorts by it, worst first but for names, and a second click turns the order round; both start at the first page.\<close>

lemma sort_click:
  assumes "well_formed (ds_f (view_of_dir s))" "ds_limit (view_of_dir s) \<in> set DIRECTORY_LIMITS"
  shows "view_of_dir (onSort key s) =
    (view_of_dir s)\<lparr>ds_sort := key, ds_cursor := [],
      ds_dir := (if ds_sort (view_of_dir s) = key then (if ds_dir (view_of_dir s) = Desc then Asc else Desc)
                 else if key = SName then Asc else Desc)\<rparr>"
proof -
  have round: "view_of_dir (dirUpdateView f s) = f (view_of_dir s)"
    if "well_formed (ds_f (f (view_of_dir s)))" "well_formed (ds_cursor (f (view_of_dir s)))"
      "ds_limit (f (view_of_dir s)) \<in> set DIRECTORY_LIMITS" for f
    using directory_url_round_trip [OF that, of "dy_url s"] by (simp add: view_of_dir_def dirUpdateView_def)
  have "well_formed []" by simp
  with assms round show ?thesis by (auto simp: onSort_def Let_def)
qed

subsection \<open>Trends\<close>

text \<open>The trend column asks for one series per top row, at most fifty, whatever the names.\<close>

lemma trend_specs_cover_rows:
  assumes "\<forall>r \<in> set (liveRows s). 0 \<notin> set (fq_queue r)" "liveRows s \<noteq> []"
  shows "map sspec_scope (spark_specs (sparkNames s)) = map (\<lambda>r. js ''queue:'' @ fq_queue r) (take SPARK_ROW_CAP (liveRows s)) \<and>
    length (spark_specs (sparkNames s)) \<le> 50"
proof -
  let ?names = "map fq_queue (take SPARK_ROW_CAP (liveRows s))"
  have "?names \<noteq> []" using assms(2) by (simp add: SPARK_ROW_CAP_def)
  moreover have "\<forall>xs \<in> set ?names. 0 \<notin> set xs" using assms(1) by (auto dest: in_set_takeD)
  ultimately have "split_unit 0 (sparkNames s) = ?names" unfolding sparkNames_def by (rule split_unit_join)
  then show ?thesis by (simp add: spark_specs_def comp_def SPARK_ROW_CAP_def)
qed

subsection \<open>Where the directory falls short\<close>

lemma page_equal_but_for_stamp: "dirRowsEqual rows (map (\<lambda>r. r\<lparr>fq_refreshed_at := stamp r\<rparr>) rows)"
  by (induction rows) (simp_all add: row_json_def)

text \<open>
  Pause and resume are buttons of the rows, but nothing flushes the freeze for them: the refetched page is held back while
  the pointer is on the table, and the button just used still offers the same action.
\<close>

lemma lever_stays_frozen:
  assumes "hook_ok s" "dy_hovering s" "\<not> fh_flushNext (dy_hook s)" "fh_resetKey (dy_hook s) = resetKey (view_of_dir s)"
  shows "shownRows (dir_commit (rows_answered n q a s)) = shownRows s"
proof -
  let ?a = "rows_answered n q a s"
  let ?b = "sparks_effect (rows_effect (filter_input_effect ?a))"
  have hook: "dy_hook ?b = dy_hook s" "dy_hovering ?b = dy_hovering s" "dy_url ?b = dy_url s"
    by (simp_all add: sparks_effect_def spark_tick_def fetchSparks_def rows_effect_def fetchQueues_def ask_rows_def
        filter_input_effect_def rows_answered_def Let_def split: sum.split)
  have "fz_frozen (fh_state (dy_hook s))" "fh_frozenDep (dy_hook s)" using assms(1,2) by (auto simp: hook_ok_def hook_pre_def Let_def)
  then have "shownRows (frozen_rows_effect ?b) = shownRows s"
    using assms(2-4) hook
    by (simp add: shownRows_def frozen_rows_effect_def frozen_render_def reset_effect_def freeze_effect_def live_effect_def
        view_of_dir_def Let_def)
  then show ?thesis by (simp add: dir_commit_def)
qed

text \<open>
  A pause that settles after the operator sorted anew fetches the view it was clicked in, under the newest number: that
  page replaces the one of the URL until the next poll.
\<close>

lemma late_lever_shows_old_view:
  assumes "dy_polled s = Some (view_of_dir s)"
  shows "let s' = dir_commit (lever_answered v q b None s) in
    (dy_num s', query_of v) \<in> set (dy_out s') \<and> view_of_dir s' = view_of_dir s \<and>
    dy_resp (rows_answered (dy_num s') (query_of v) (Inr r) s') = Some r"
proof -
  let ?l = "lever_answered v q b None s"
  have "rows_effect (filter_input_effect ?l) = filter_input_effect ?l"
    using assms by (simp add: rows_effect_def dir_effect_frames lever_answered_def fetchQueues_def ask_rows_def view_of_dir_def)
  then have parts: "dir_parts (dir_commit ?l) = dir_parts ?l" by (simp add: dir_commit_def dir_effect_frames)
  have "view_of_dir (dir_commit ?l) = view_of_dir s"
    by (simp add: dir_commit_def view_of_dir_def dir_effect_frames lever_answered_def fetchQueues_def ask_rows_def)
  with parts show ?thesis
    by (simp add: Let_def dir_parts_def lever_answered_def fetchQueues_def ask_rows_def rows_answered_def)
qed

text \<open>An answer that comes too late is thrown away but ends the loading state: before any page has come the screen says that there are no queues.\<close>

lemma late_answer_claims_empty:
  assumes "dy_resp s = None" "dy_error s = []" "n \<noteq> dy_num s" "shownRows s = []"
  shows "dir_body_of (rows_answered n q a s) = DirEmpty (ds_f (view_of_dir s))"
  using assms by (simp add: dir_body_of_def rows_answered_def shownRows_def view_of_dir_def)

end
