(* ===== verification/ErrorsView.thy ===== *)
theory ErrorsView
  imports FetchViews Errsig Endpoints BulkJob Paths Durations
begin

text \<open>
  The error explorer (\<open>src/ui/src/views/ErrorsView.tsx\<close>): the list of signatures under a sort, the detail of the selected
  one, and the bulk verbs scoped to it. A step is one callback followed by the effects of its commit (\<open>errors_commit\<close>).
\<close>

subsection \<open>State\<close>

datatype errors_sort = ByLastSeen | ByCount

text \<open>
  \<open>ev_out\<close> holds the lists in flight with their number, \<open>ev_detailOut\<close> the details with the run of the effect that sent them;
  \<open>ev_listed\<close> stands for the identity of the list answered last, a dependency of that effect.
\<close>

record errors_view =
  ev_url :: params
  ev_resp :: "list_error_signatures_response option"
  ev_detail :: "get_error_signature_response option"
  ev_error :: jstring
  ev_loading :: bool
  ev_job :: "(job_verb \<times> job_scope) option"
  ev_scopeState :: sig_scope_state
  ev_num :: nat
  ev_out :: "(nat \<times> errors_sort) list"
  ev_listed :: nat
  ev_detailRun :: nat
  ev_detailDeps :: "(jstring \<times> nat) option"
  ev_detailOut :: "(nat \<times> jstring) list"
  ev_polled :: "errors_sort option"

definition selectedSig :: "errors_view \<Rightarrow> jstring" where
  "selectedSig s = (case get_param (ev_url s) (js ''sig'') of Some g \<Rightarrow> g | None \<Rightarrow> [])"

definition sort_of :: "errors_view \<Rightarrow> errors_sort" where
  "sort_of s = (if get_param (ev_url s) (js ''sort'') = Some (js ''count'') then ByCount else ByLastSeen)"

definition errors_init :: "params \<Rightarrow> errors_view" where
  "errors_init ps =
     \<lparr>ev_url = ps, ev_resp = None, ev_detail = None, ev_error = [], ev_loading = True, ev_job = None,
      ev_scopeState = ScopeRetry, ev_num = 0, ev_out = [], ev_listed = 0, ev_detailRun = 0, ev_detailDeps = None,
      ev_detailOut = [], ev_polled = None\<rparr>"

subsection \<open>The list\<close>

definition errors_sort_name :: "errors_sort \<Rightarrow> jstring" where
  "errors_sort_name s = (case s of ByLastSeen \<Rightarrow> js ''last_seen'' | ByCount \<Rightarrow> js ''count'')"

definition list_call :: "api_env \<Rightarrow> (jstring \<Rightarrow> int option \<times> jstring option \<Rightarrow> jstring) \<Rightarrow> errors_sort \<Rightarrow> unit api_call option" where
  "list_call env stringifyUrl s = listErrorSignatures env stringifyUrl (Some 50, Some (errors_sort_name s))"

definition ask_list :: "errors_sort \<Rightarrow> errors_view \<Rightarrow> errors_view" where
  "ask_list q s = s\<lparr>ev_num := ev_num s + 1, ev_out := ev_out s @ [(ev_num s + 1, q)]\<rparr>"

definition list_answered ::
  "nat \<Rightarrow> errors_sort \<Rightarrow> axios_error + list_error_signatures_response \<Rightarrow> errors_view \<Rightarrow> errors_view" where
  "list_answered mine q answer s =
     (let s = s\<lparr>ev_out := remove1 (mine, q) (ev_out s)\<rparr>
      in if mine \<noteq> ev_num s then s
         else case answer of
           Inr r \<Rightarrow> s\<lparr>ev_resp := Some r, ev_listed := ev_listed s + 1, ev_error := [], ev_loading := False\<rparr>
         | Inl e \<Rightarrow> s\<lparr>ev_error := toErrorString e, ev_loading := False\<rparr>)"

definition select_sig :: "jstring \<Rightarrow> errors_view \<Rightarrow> errors_view" where
  "select_sig sig s =
     s\<lparr>ev_url := (if get_param (ev_url s) (js ''sig'') = Some sig then delete_param (ev_url s) (js ''sig'')
                 else set_param (ev_url s) (js ''sig'') sig)\<rparr>"

definition setSort :: "errors_sort \<Rightarrow> errors_view \<Rightarrow> errors_view" where
  "setSort q s =
     s\<lparr>ev_url := (if q = ByLastSeen then delete_param (ev_url s) (js ''sort'')
                 else set_param (ev_url s) (js ''sort'') (errors_sort_name q))\<rparr>"

subsection \<open>The detail\<close>

text \<open>Without a detail its panel is unmounted, and its state is chosen anew.\<close>

definition set_detail :: "get_error_signature_response option \<Rightarrow> errors_view \<Rightarrow> errors_view" where
  "set_detail d s = s\<lparr>ev_detail := d, ev_scopeState := (if d = None then ScopeRetry else ev_scopeState s)\<rparr>"

definition sig_detail_effect :: "errors_view \<Rightarrow> errors_view" where
  "sig_detail_effect s =
     (let g = selectedSig s; deps = (g, ev_listed s)
      in if ev_detailDeps s = Some deps then s
         else let s = s\<lparr>ev_detailDeps := Some deps, ev_detailRun := ev_detailRun s + 1\<rparr>
           in if g = [] then set_detail None s
              else s\<lparr>ev_detailOut := ev_detailOut s @ [(ev_detailRun s, g)]\<rparr>)"

definition sig_detail_answered ::
  "nat \<Rightarrow> jstring \<Rightarrow> axios_error + get_error_signature_response \<Rightarrow> errors_view \<Rightarrow> errors_view" where
  "sig_detail_answered run sig answer s =
     (let s = s\<lparr>ev_detailOut := remove1 (run, sig) (ev_detailOut s)\<rparr>
      in if run \<noteq> ev_detailRun s then s
         else set_detail (case answer of Inr d \<Rightarrow> Some d | Inl _ \<Rightarrow> None) s)"

definition list_effect :: "errors_view \<Rightarrow> errors_view" where
  "list_effect s = (if ev_polled s = Some (sort_of s) then s else ask_list (sort_of s) (s\<lparr>ev_polled := Some (sort_of s)\<rparr>))"

definition errors_commit :: "errors_view \<Rightarrow> errors_view" where
  "errors_commit s = sig_detail_effect (list_effect s)"

subsection \<open>The verbs\<close>

primrec sig_job_verb :: "sig_verb \<Rightarrow> job_verb" where
  "sig_job_verb SigRun = VRun"
| "sig_job_verb SigArchive = VArchive"
| "sig_job_verb SigDelete = VDelete"

primrec verbTitle :: "sig_verb \<Rightarrow> jstring" where
  "verbTitle SigRun = js ''Retry all with this signature'' @ [8230] @ js '' (throttled by default)''"
| "verbTitle SigArchive = js ''Archive all with this signature'' @ [8230]"
| "verbTitle SigDelete = js ''Delete all with this signature'' @ [8230]"

text \<open>The buttons of the panel, with the scope each hands to the dialog; none when no part of the template is selective enough.\<close>

definition verb_buttons :: "bool \<Rightarrow> errors_view \<Rightarrow> (sig_verb \<times> job_scope) list" where
  "verb_buttons readOnly s = (case ev_detail s of
     None \<Rightarrow> []
   | Some d \<Rightarrow>
       if readOnly then []
       else case sigErrorClause (esr_template (gesr_signature d)) of
         None \<Rightarrow> []
       | Some clause \<Rightarrow>
           map (\<lambda>v. (v, \<lparr>js_queue = js ''all'', js_state = scope_name (ev_scopeState s), js_q = [], js_meta = [],
                         js_aql = clause\<rparr>)) (sigVerbsForState (ev_scopeState s)))"

definition onVerb :: "sig_verb \<Rightarrow> job_scope \<Rightarrow> errors_view \<Rightarrow> errors_view" where
  "onVerb v scope s = s\<lparr>ev_job := Some (sig_job_verb v, scope)\<rparr>"

definition setScopeState :: "sig_scope_state \<Rightarrow> errors_view \<Rightarrow> errors_view" where
  "setScopeState st s = s\<lparr>ev_scopeState := st\<rparr>"

subsection \<open>What is shown\<close>

definition sample_links :: "jstring \<Rightarrow> nat \<Rightarrow> error_signature_row \<Rightarrow> (jstring \<times> jstring) list" where
  "sample_links rootp n row =
     map (\<lambda>r. (p_TASKS (paths rootp) @ sigTasksSearch (esr_template row) ScopeArchived
                 (Some \<lparr>pt_queue = estr_queue r, pt_id = estr_id r\<rparr>), take n (estr_id r) @ [8230]))
       (esr_sample_task_refs row)"

definition row_links :: "jstring \<Rightarrow> error_signature_row \<Rightarrow> (jstring \<times> jstring) list" where
  "row_links rootp row = take 3 (sample_links rootp 6 row)"

definition console_link :: "jstring \<Rightarrow> error_signature_row \<Rightarrow> jstring" where
  "console_link rootp row = p_TASKS (paths rootp) @ sigTasksSearch (esr_template row) ScopeArchived None"

definition seen_text :: "(jstring \<Rightarrow> int option) \<Rightarrow> int \<Rightarrow> jstring \<Rightarrow> jstring" where
  "seen_text date_parse now t = (if t \<noteq> [] then timeAgo date_parse now t else DASH)"

text \<open>The failures of a queue today, from the counters, next to the signature's own count.\<close>

definition counter_cell :: "get_error_signature_response \<Rightarrow> error_signature_queue_cell \<Rightarrow> jstring" where
  "counter_cell d c = (case List.find (\<lambda>f. escr_queue f = esqc_queue c) (gesr_failed_today_by_queue d) of
     Some f \<Rightarrow> fmt_int (escr_failed f) | None \<Rightarrow> DASH)"

definition neverIndexed :: "errors_view \<Rightarrow> bool" where
  "neverIndexed s \<longleftrightarrow> (\<exists>r. ev_resp s = Some r \<and> lesr_tail_indexed_at r = [] \<and> lesr_retry_sampled_at r = [])"

datatype errors_note = NoNote | LoadingNote | NeverIndexedNote | NothingFailedNote

definition errors_note_of :: "errors_view \<Rightarrow> errors_note" where
  "errors_note_of s =
     (let rows = (case ev_resp s of Some r \<Rightarrow> lesr_signatures r | None \<Rightarrow> [])
      in if ev_loading s \<and> ev_resp s = None then LoadingNote
         else if \<not> ev_loading s \<and> rows = [] \<and> ev_error s = [] then (if neverIndexed s then NeverIndexedNote else NothingFailedNote)
         else NoNote)"

definition trimmed_chip :: "list_error_signatures_response \<Rightarrow> jstring option" where
  "trimmed_chip r =
     (let n = length (esh_trimmed_queues (lesr_honesty r))
      in if n > 0 then Some (js ''lower bounds'' @ dash @ js_of_nat n @ js '' queue'' @
           (if n > 1 then js ''s'' else []) @ js '' at archive cap'') else None)"

definition index_text :: "(jstring \<Rightarrow> int option) \<Rightarrow> int \<Rightarrow> list_error_signatures_response \<Rightarrow> jstring" where
  "index_text date_parse now r =
     (let ago = (\<lambda>t. if t \<noteq> [] then timeAgo date_parse now t else js ''never'')
      in js ''index '' @ formatSigCount (Finite (of_int (lesr_index_count_total r))) (esh_trimmed_queues (lesr_honesty r) \<noteq> []) @
         js '' '' @ [183] @ js '' counters '' @ fmt_int (lesr_counter_failed_today r) @ js '' failed today '' @ [183] @
         js '' tail '' @ ago (lesr_tail_indexed_at r) @ js '' '' @ [183] @ js '' sample '' @ ago (lesr_retry_sampled_at r))"

subsection \<open>Runs\<close>

text \<open>What the server may answer: a list to a sort, a detail to a signature.\<close>

record errors_server =
  es_list :: "errors_sort \<Rightarrow> list_error_signatures_response \<Rightarrow> bool"
  es_detail :: "jstring \<Rightarrow> get_error_signature_response \<Rightarrow> bool"

definition list_honest :: "errors_server \<Rightarrow> errors_sort \<Rightarrow> axios_error + list_error_signatures_response \<Rightarrow> bool" where
  "list_honest server q a = (case a of Inr r \<Rightarrow> es_list server q r | Inl e \<Rightarrow> True)"

definition detail_honest :: "errors_server \<Rightarrow> jstring \<Rightarrow> axios_error + get_error_signature_response \<Rightarrow> bool" where
  "detail_honest server g a = (case a of Inr r \<Rightarrow> es_detail server g r | Inl e \<Rightarrow> True)"

inductive errors_event :: "errors_server \<Rightarrow> errors_view \<Rightarrow> errors_view \<Rightarrow> bool" for server s where
  selected: "errors_event server s (select_sig g s)"
| sorted_by: "errors_event server s (setSort q s)"
| moved: "errors_event server s (s\<lparr>ev_url := ps\<rparr>)"
| polled: "errors_event server s (ask_list (sort_of s) s)"
| listed: "(n, q) \<in> set (ev_out s) \<Longrightarrow> list_honest server q a \<Longrightarrow> errors_event server s (list_answered n q a s)"
| detailed: "(n, g) \<in> set (ev_detailOut s) \<Longrightarrow> detail_honest server g d \<Longrightarrow>
    errors_event server s (sig_detail_answered n g d s)"
| scoped: "ev_detail s \<noteq> None \<Longrightarrow> errors_event server s (setScopeState st s)"
| verb: "(v, scope) \<in> set (verb_buttons False s) \<Longrightarrow> errors_event server s (onVerb v scope s)"
| job_closed: "errors_event server s (s\<lparr>ev_job := None\<rparr>)"

inductive errors_run :: "errors_server \<Rightarrow> errors_view \<Rightarrow> bool" for server where
  start: "errors_run server (errors_commit (errors_init ps))"
| step: "errors_run server s \<Longrightarrow> errors_event server s s' \<Longrightarrow> errors_run server (errors_commit s')"

definition list_known :: "errors_server \<Rightarrow> errors_view \<Rightarrow> errors_sort \<Rightarrow> bool" where
  "list_known server s q \<longleftrightarrow> ev_error s \<noteq> [] \<or> (\<exists>r. ev_resp s = Some r \<and> es_list server q r)"

interpretation errq: latest_only ev_num ev_out sort_of "list_known server" "list_honest server" ask_list list_answered
  for server
  by unfold_locales
    (auto simp: ask_list_def list_answered_def sort_of_def list_known_def list_honest_def Let_def fun_eq_iff split: sum.splits)

text \<open>The detail follows the same discipline with the runs of its effect for numbers.\<close>

definition detail_known :: "errors_server \<Rightarrow> errors_view \<Rightarrow> jstring \<Rightarrow> bool" where
  "detail_known server s g \<longleftrightarrow> (\<forall>d. ev_detail s = Some d \<longrightarrow> es_detail server g d)"

definition ask_detail :: "jstring \<Rightarrow> errors_view \<Rightarrow> errors_view" where
  "ask_detail g s = s\<lparr>ev_detailRun := ev_detailRun s + 1, ev_detailOut := ev_detailOut s @ [(ev_detailRun s + 1, g)]\<rparr>"

interpretation detq: latest_only ev_detailRun ev_detailOut selectedSig "detail_known server" "detail_honest server"
    ask_detail sig_detail_answered
  for server
  by unfold_locales
    (auto simp: ask_detail_def sig_detail_answered_def selectedSig_def detail_known_def detail_honest_def set_detail_def Let_def
      fun_eq_iff split: sum.splits)

definition errors_ok :: "errors_server \<Rightarrow> errors_view \<Rightarrow> bool" where
  "errors_ok server s \<longleftrightarrow> errq.numbered s \<and> errq.current server s \<and> ev_num s \<noteq> 0 \<and> ev_polled s = Some (sort_of s) \<and>
     detq.numbered s \<and> detq.current server s \<and> ev_detailRun s \<noteq> 0 \<and> ev_detailDeps s = Some (selectedSig s, ev_listed s)"

definition errors_pre :: "errors_server \<Rightarrow> errors_view \<Rightarrow> bool" where
  "errors_pre server s \<longleftrightarrow> errq.numbered s \<and> detq.numbered s \<and>
     (ev_polled s = Some (sort_of s) \<longrightarrow> ev_num s \<noteq> 0 \<and> errq.current server s) \<and>
     (ev_detailDeps s = Some (selectedSig s, ev_listed s) \<longrightarrow> ev_detailRun s \<noteq> 0 \<and> detq.current server s)"

text \<open>The parts each of the two depends on.\<close>

definition list_parts where "list_parts s = (ev_num s, ev_out s, ev_resp s, ev_error s)"

definition detail_parts where "detail_parts s = (ev_detailRun s, ev_detailOut s, ev_detail s)"

lemma list_parts_same:
  assumes "list_parts s' = list_parts s"
  shows "errq.numbered s' = errq.numbered s"
    "sort_of s' = sort_of s \<Longrightarrow> errq.current server s' = errq.current server s" "ev_num s' = ev_num s"
  using assms by (auto simp: list_parts_def errq.numbered_def errq.current_def list_known_def)

lemma detail_parts_same:
  assumes "detail_parts s' = detail_parts s"
  shows "detq.numbered s' = detq.numbered s"
    "selectedSig s' = selectedSig s \<Longrightarrow> detq.current server s' = detq.current server s" "ev_detailRun s' = ev_detailRun s"
  using assms by (auto simp: detail_parts_def detq.numbered_def detq.current_def detail_known_def)

lemma list_effect_ok:
  assumes "errors_pre server s"
  shows "errors_pre server (list_effect s) \<and> ev_polled (list_effect s) = Some (sort_of (list_effect s))"
proof (cases "ev_polled s = Some (sort_of s)")
  case True
  then show ?thesis using assms by (simp add: list_effect_def)
next
  case False
  let ?p = "s\<lparr>ev_polled := Some (sort_of s)\<rparr>"
  have e: "list_effect s = ask_list (sort_of ?p) ?p" using False by (simp add: list_effect_def sort_of_def)
  have "errq.numbered ?p" using assms list_parts_same(1) [of ?p s] by (simp add: errors_pre_def list_parts_def)
  then have "errq.numbered (list_effect s)" "errq.current server (list_effect s)"
    unfolding e by (rule errq.numbered_ask, rule errq.current_ask)
  moreover have d: "detail_parts (list_effect s) = detail_parts s" by (simp add: e ask_list_def detail_parts_def)
  moreover have "selectedSig (list_effect s) = selectedSig s" by (simp add: e ask_list_def selectedSig_def)
  moreover have "ev_detailDeps (list_effect s) = ev_detailDeps s" "ev_listed (list_effect s) = ev_listed s"
    "ev_polled (list_effect s) = Some (sort_of (list_effect s))" "ev_num (list_effect s) \<noteq> 0"
    by (simp_all add: e ask_list_def sort_of_def)
  ultimately show ?thesis
    using assms detail_parts_same [OF d] by (auto simp: errors_pre_def)
qed

lemma sig_detail_effect_ok:
  assumes "errors_pre server s" "ev_polled s = Some (sort_of s)"
  shows "errors_ok server (sig_detail_effect s)"
proof (cases "ev_detailDeps s = Some (selectedSig s, ev_listed s)")
  case True
  then show ?thesis using assms by (simp add: sig_detail_effect_def errors_ok_def errors_pre_def)
next
  case False
  let ?d = "s\<lparr>ev_detailDeps := Some (selectedSig s, ev_listed s)\<rparr>"
  have list: "list_parts (sig_detail_effect s) = list_parts s" "ev_url (sig_detail_effect s) = ev_url s"
    "ev_polled (sig_detail_effect s) = ev_polled s"
    by (simp_all add: sig_detail_effect_def list_parts_def set_detail_def Let_def)
  have url: "sort_of (sig_detail_effect s) = sort_of s" "selectedSig (sig_detail_effect s) = selectedSig s"
    using list(2) by (simp_all add: sort_of_def selectedSig_def)
  have deps: "ev_detailDeps (sig_detail_effect s) = Some (selectedSig s, ev_listed s)" "ev_listed (sig_detail_effect s) = ev_listed s"
    "ev_detailRun (sig_detail_effect s) \<noteq> 0"
    using False by (simp_all add: sig_detail_effect_def set_detail_def Let_def)
  have num: "detq.numbered ?d" using assms(1) detail_parts_same(1) [of ?d s] by (simp add: errors_pre_def detail_parts_def)
  have "detq.numbered (sig_detail_effect s) \<and> detq.current server (sig_detail_effect s)"
  proof (cases "selectedSig s = []")
    case True
    have bound: "(ev_detailRun s + 1, g) \<notin> set (ev_detailOut s)" for g using num by (fastforce simp: detq.numbered_def)
    have "sig_detail_effect s = set_detail None (?d\<lparr>ev_detailRun := ev_detailRun s + 1\<rparr>)"
      using False True by (simp add: sig_detail_effect_def selectedSig_def)
    with num bound show ?thesis
      by (fastforce simp: detq.numbered_def detq.current_def set_detail_def detail_known_def)
  next
    case sig: False
    have "sig_detail_effect s = ask_detail (selectedSig ?d) ?d"
      using False sig by (simp add: sig_detail_effect_def ask_detail_def selectedSig_def Let_def)
    with num show ?thesis by (simp add: detq.numbered_ask detq.current_ask)
  qed
  with assms list url deps list_parts_same [OF list(1)] show ?thesis by (auto simp: errors_ok_def errors_pre_def)
qed

lemma errors_commits: "errors_pre server s \<Longrightarrow> errors_ok server (errors_commit s)"
  using list_effect_ok sig_detail_effect_ok unfolding errors_commit_def by blast

lemma errors_event_ok:
  assumes "errors_event server s s'" "errors_ok server s"
  shows "errors_pre server s'"
proof -
  have still: "errors_pre server x"
    if "list_parts x = list_parts s" "detail_parts x = detail_parts s" "ev_polled x = ev_polled s"
      "ev_detailDeps x = ev_detailDeps s" "ev_listed x = ev_listed s" for x
    using assms(2) that list_parts_same [OF that(1)] detail_parts_same [OF that(2)]
    by (auto simp: errors_ok_def errors_pre_def)
  from assms(1) show ?thesis
  proof cases
    case polled
    have d: "detail_parts s' = detail_parts s" "selectedSig s' = selectedSig s" "ev_detailDeps s' = ev_detailDeps s"
      "ev_listed s' = ev_listed s"
      by (simp_all add: polled ask_list_def detail_parts_def selectedSig_def)
    have "errq.numbered s'" "errq.current server s'"
      using assms(2) errq.numbered_ask [of s] errq.current_ask [of s server] by (simp_all add: polled errors_ok_def)
    moreover have "ev_num s' \<noteq> 0" by (simp add: polled ask_list_def)
    ultimately show ?thesis
      using assms(2) d detail_parts_same [OF d(1)] by (auto simp: errors_ok_def errors_pre_def)
  next
    case (listed n q a)
    have d: "detail_parts s' = detail_parts s" "selectedSig s' = selectedSig s" "ev_detailDeps s' = ev_detailDeps s"
      by (simp_all add: listed list_answered_def detail_parts_def selectedSig_def Let_def split: sum.split)
    have "errq.numbered s'" "errq.current server s'"
      using assms(2) listed errq.numbered_answer [of s] errq.current_answer [of s server] by (auto simp: errors_ok_def)
    moreover have "ev_num s' = ev_num s" by (simp add: listed list_answered_def Let_def split: sum.split)
    ultimately show ?thesis
      using assms(2) d detail_parts_same [OF d(1)] by (auto simp: errors_ok_def errors_pre_def)
  next
    case (detailed n g d)
    have l: "list_parts s' = list_parts s" "sort_of s' = sort_of s" "ev_polled s' = ev_polled s"
      "ev_detailRun s' = ev_detailRun s"
      by (simp_all add: detailed sig_detail_answered_def list_parts_def sort_of_def set_detail_def Let_def split: sum.split)
    have "detq.numbered s'" "detq.current server s'"
      using assms(2) detailed detq.numbered_answer [of s] detq.current_answer [of s server] by (auto simp: errors_ok_def)
    then show ?thesis
      using assms(2) l list_parts_same [OF l(1)] by (auto simp: errors_ok_def errors_pre_def)
  qed (rule still; simp add: list_parts_def detail_parts_def select_sig_def setSort_def setScopeState_def onVerb_def)+
qed

lemma errors_run_ok: "errors_run server s \<Longrightarrow> errors_ok server s"
proof (induction rule: errors_run.induct)
  case (start ps)
  have "errors_pre server (errors_init ps)"
    using errq.unasked(1) [of "errors_init ps"] detq.unasked(1) [of "errors_init ps"] by (simp add: errors_pre_def errors_init_def)
  then show ?case by (rule errors_commits)
next
  case (step s s')
  then show ?case using errors_event_ok errors_commits by blast
qed

lemma verb_button_scope:
  assumes "(v, scope) \<in> set (verb_buttons readOnly s)"
  shows "\<exists>d. ev_detail s = Some d \<and> js_queue scope = js ''all'' \<and> js_state scope = scope_name (ev_scopeState s) \<and>
    sigErrorClause (esr_template (gesr_signature d)) = Some (js_aql scope)"
proof (cases "ev_detail s")
  case (Some d)
  then show ?thesis
    using assms by (cases "sigErrorClause (esr_template (gesr_signature d))") (auto simp: verb_buttons_def split: if_splits)
qed (use assms in \<open>simp add: verb_buttons_def\<close>)

text \<open>C20. The error explorer shows what its URL names: in every run, once the latest list request has been answered and no
  error is shown the rows are those of an answer to the sort of the URL (until then, or after a failed fetch, they may
  be those of an earlier sort); and once the detail asked for last has been answered the panel is gone or is that of the signature the URL names, so that its verbs act on that signature's
  clause.\<close>

theorem errors_view_shows_selection:
  assumes "errors_run server s"
  shows "(ev_num s \<notin> fst ` set (ev_out s) \<and> ev_error s = [] \<longrightarrow> (\<exists>r. ev_resp s = Some r \<and> es_list server (sort_of s) r)) \<and>
    (ev_detailRun s \<notin> fst ` set (ev_detailOut s) \<longrightarrow>
       (\<forall>d. ev_detail s = Some d \<longrightarrow> es_detail server (selectedSig s) d) \<and>
       (\<forall>(v, scope) \<in> set (verb_buttons readOnly s).
          \<exists>d. es_detail server (selectedSig s) d \<and> js_queue scope = js ''all'' \<and> js_state scope = scope_name (ev_scopeState s) \<and>
            sigErrorClause (esr_template (gesr_signature d)) = Some (js_aql scope)))"
proof -
  have ok: "errors_ok server s" using assms by (rule errors_run_ok)
  have detail: "detail_known server s (selectedSig s)" if "ev_detailRun s \<notin> fst ` set (ev_detailOut s)"
    using detq.settled_known [OF _ _ that, of server] ok by (simp add: errors_ok_def)
  have "list_known server s (sort_of s)" if "ev_num s \<notin> fst ` set (ev_out s)"
    using errq.settled_known [OF _ _ that, of server] ok by (simp add: errors_ok_def)
  then have "ev_num s \<notin> fst ` set (ev_out s) \<and> ev_error s = [] \<longrightarrow> (\<exists>r. ev_resp s = Some r \<and> es_list server (sort_of s) r)"
    by (auto simp: list_known_def)
  moreover have "\<exists>d. es_detail server (selectedSig s) d \<and> js_queue scope = js ''all'' \<and> js_state scope = scope_name (ev_scopeState s) \<and>
      sigErrorClause (esr_template (gesr_signature d)) = Some (js_aql scope)"
    if "ev_detailRun s \<notin> fst ` set (ev_detailOut s)" "(v, scope) \<in> set (verb_buttons readOnly s)" for v scope
    using detail [OF that(1)] verb_button_scope [OF that(2)] by (auto simp: detail_known_def)
  ultimately show ?thesis using detail by (auto simp: detail_known_def)
qed

text \<open>A signature selected in the list and answered, its panel with three verbs.\<close>

definition sample_signature :: get_error_signature_response where
  "sample_signature =
     \<lparr>gesr_signature = \<lparr>esr_sig = js ''e1'', esr_template = sample_template, esr_count = 3, esr_count_is_lower_bound = False,
        esr_archived_count = 2, esr_retry_sampled_count = 1, esr_first_seen = [], esr_last_seen = [], esr_trend = js ''new'',
        esr_queues = [], esr_sample_task_refs = []\<rparr>,
      gesr_honesty = \<lparr>esh_archived_exact = True, esh_retry_sampled = True, esh_trimmed_queues = []\<rparr>,
      gesr_failed_today_by_queue = [], gesr_failed_today_queues_total = 0, gesr_counter_failed_today = 0,
      gesr_index_count_total = 0, gesr_tail_indexed_at = [], gesr_retry_sampled_at = [],
      gesr_count_over_time_available = False\<rparr>"

definition errors_opened :: errors_view where
  "errors_opened = errors_commit (errors_init [(js ''sig'', js ''e1'')])"

definition errors_detailed :: errors_view where
  "errors_detailed = errors_commit (sig_detail_answered 1 (js ''e1'') (Inr sample_signature) errors_opened)"

lemma errors_view_shows_selection_witness:
  "ev_detail errors_detailed = Some sample_signature \<and>
   list_all (\<lambda>(v, scope). js_state scope = js ''retry'' \<and> sigErrorClause sample_template = Some (js_aql scope))
     (verb_buttons False errors_detailed)"
proof -
  let ?server = "\<lparr>es_list = \<lambda>q r. True, es_detail = \<lambda>g d. g = js ''e1'' \<and> d = sample_signature\<rparr>"
  have sel: "selectedSig (errors_init [(js ''sig'', js ''e1'')]) = js ''e1''"
    by (simp add: selectedSig_def errors_init_def get_param_def get_all_def)
  have opened: "ev_detailOut errors_opened = [(1, js ''e1'')]" "ev_detailRun errors_opened = 1" "ev_listed errors_opened = 0"
    "ev_detailDeps errors_opened = Some (js ''e1'', 0)" "ev_polled errors_opened = Some ByLastSeen"
    "ev_url errors_opened = [(js ''sig'', js ''e1'')]" "ev_scopeState errors_opened = ScopeRetry"
    by (simp_all add: errors_opened_def errors_commit_def list_effect_def sig_detail_effect_def ask_list_def errors_init_def
        selectedSig_def sort_of_def get_param_def get_all_def js_eq Let_def)
  have event: "errors_event ?server errors_opened (sig_detail_answered 1 (js ''e1'') (Inr sample_signature) errors_opened)"
    by (rule errors_event.detailed) (simp_all add: opened detail_honest_def)
  have "errors_run ?server errors_opened" unfolding errors_opened_def by (rule errors_run.start)
  from this event have run: "errors_run ?server errors_detailed" unfolding errors_detailed_def by (rule errors_run.step)
  have detailed: "ev_detail errors_detailed = Some sample_signature" "ev_detailOut errors_detailed = []"
    "ev_scopeState errors_detailed = ScopeRetry"
    by (simp_all add: errors_detailed_def errors_commit_def list_effect_def sig_detail_effect_def sig_detail_answered_def
        set_detail_def opened selectedSig_def sort_of_def get_param_def get_all_def js_eq Let_def)
  from errors_view_shows_selection [OF run, of False] detailed show ?thesis by (fastforce simp: sample_signature_def list_all_iff)
qed

subsection \<open>Where the view falls short\<close>

text \<open>
  Selecting another signature leaves the panel of the one before in place until its detail has come, with its verbs: the
  highlighted row and the buttons then name different signatures.
\<close>

lemma panel_of_previous_selection:
  assumes "ev_detail s = Some d" "sigErrorClause (esr_template (gesr_signature d)) = Some clause" "g \<noteq> []" "to_usv g = g"
    and "selectedSig s \<noteq> g"
  shows "selectedSig (errors_commit (select_sig g s)) = g \<and> ev_detail (errors_commit (select_sig g s)) = Some d \<and>
    (\<exists>scope. (SigDelete, scope) \<in> set (verb_buttons False (errors_commit (select_sig g s))) \<and> js_aql scope = clause)"
proof -
  let ?s = "errors_commit (select_sig g s)"
  have "get_param (ev_url s) (js ''sig'') \<noteq> Some g" using assms(5) by (auto simp: selectedSig_def)
  then have url: "ev_url ?s = set_param (ev_url s) (js ''sig'') g"
    by (simp add: errors_commit_def list_effect_def sig_detail_effect_def ask_list_def set_detail_def select_sig_def Let_def)
  then have sel: "selectedSig ?s = g" using assms(4) by (simp add: selectedSig_def get_param_def url.all_put)
  let ?l = "list_effect (select_sig g s)"
  have "ev_url ?l = ev_url ?s" by (simp add: errors_commit_def sig_detail_effect_def set_detail_def Let_def)
  then have "selectedSig ?l \<noteq> []" using sel assms(3) by (simp add: selectedSig_def)
  moreover have "ev_detail ?l = Some d" using assms(1) by (simp add: list_effect_def ask_list_def select_sig_def)
  ultimately have "ev_detail ?s = Some d" by (simp add: errors_commit_def sig_detail_effect_def Let_def)
  then show ?thesis using sel assms(2) by (auto simp: verb_buttons_def sigVerbsForState_def)
qed

end
