(* ===== verification/ServersView.thy ===== *)
theory ServersView
  imports FetchViews Workers Paths Reducers Durations JsSort
begin

text \<open>
  The workers screen (\<open>src/ui/src/views/ServersView.tsx\<close>): the coverage and cancel widgets with their chained fetches, the
  rows of servers and workers, the jump from a consumer to its server. A step is one callback.
\<close>

subsection \<open>State\<close>

text \<open>
  \<open>wv_out\<close> holds the fetches waiting for the coverage, with their number, \<open>wv_cancelOut\<close> those waiting for the listeners;
  \<open>wv_flashTimers\<close> the timers of the flash, by server.
\<close>

record workers_view =
  wv_coverage :: "coverage_response option"
  wv_coverageError :: jstring
  wv_cancel :: "cancel_listeners_response option"
  wv_cancelError :: jstring
  wv_num :: nat
  wv_out :: "(nat \<times> unit) list"
  wv_cancelOut :: "nat list"
  wv_filter :: jstring
  wv_expanded :: "jstring \<Rightarrow> bool"
  wv_flash :: "jstring option"
  wv_flashTimers :: "jstring list"

definition workers_init :: workers_view where
  "workers_init =
     \<lparr>wv_coverage = None, wv_coverageError = [], wv_cancel = None, wv_cancelError = [], wv_num = 0, wv_out = [],
      wv_cancelOut = [], wv_filter = [], wv_expanded = (\<lambda>_. False), wv_flash = None, wv_flashTimers = []\<rparr>"

subsection \<open>The widgets\<close>

definition ask_widgets :: "unit \<Rightarrow> workers_view \<Rightarrow> workers_view" where
  "ask_widgets u s = s\<lparr>wv_num := wv_num s + 1, wv_out := wv_out s @ [(wv_num s + 1, u)]\<rparr>"

text \<open>The coverage of a superseded fetch ends it; its failure does not.\<close>

definition coverage_answered :: "nat \<Rightarrow> unit \<Rightarrow> axios_error + coverage_response \<Rightarrow> workers_view \<Rightarrow> workers_view" where
  "coverage_answered mine u answer s =
     (let s = s\<lparr>wv_out := remove1 (mine, u) (wv_out s)\<rparr>
      in case answer of
           Inr cov \<Rightarrow>
             if mine \<noteq> wv_num s then s
             else s\<lparr>wv_coverage := Some cov, wv_coverageError := [], wv_cancelOut := wv_cancelOut s @ [mine]\<rparr>
         | Inl e \<Rightarrow>
             s\<lparr>wv_coverageError := (if mine = wv_num s then toErrorString e else wv_coverageError s),
               wv_cancelOut := wv_cancelOut s @ [mine]\<rparr>)"

definition listeners_answered :: "nat \<Rightarrow> axios_error + cancel_listeners_response \<Rightarrow> workers_view \<Rightarrow> workers_view" where
  "listeners_answered mine answer s =
     (let s = s\<lparr>wv_cancelOut := remove1 mine (wv_cancelOut s)\<rparr>
      in if mine \<noteq> wv_num s then s
         else case answer of
           Inr cl \<Rightarrow> s\<lparr>wv_cancel := Some cl, wv_cancelError := []\<rparr>
         | Inl e \<Rightarrow> s\<lparr>wv_cancelError := toErrorString e\<rparr>)"

subsection \<open>The table\<close>

definition toggle_server :: "jstring \<Rightarrow> workers_view \<Rightarrow> workers_view" where
  "toggle_server i s = s\<lparr>wv_expanded := (wv_expanded s)(i := \<not> wv_expanded s i)\<rparr>"

definition jumpToServer :: "jstring \<Rightarrow> workers_view \<Rightarrow> workers_view" where
  "jumpToServer i s =
     s\<lparr>wv_expanded := (wv_expanded s)(i := True), wv_flash := Some i, wv_flashTimers := wv_flashTimers s @ [i]\<rparr>"

definition flash_over :: "jstring \<Rightarrow> workers_view \<Rightarrow> workers_view" where
  "flash_over i s =
     s\<lparr>wv_flash := (if wv_flash s = Some i then None else wv_flash s), wv_flashTimers := remove1 i (wv_flashTimers s)\<rparr>"

subsection \<open>Texts\<close>

definition shortId :: "jstring \<Rightarrow> jstring" where
  "shortId i = (if length i > 10 then take 8 i @ [8230] else i)"

definition bar_pct :: "rat \<Rightarrow> rat" where
  "bar_pct pct = min 100 (max 2 (dbl (pct * 100)))"

text \<open>The bar of a budget: its width in percent and its tone, none for the accent color; no bar without a deadline.\<close>

definition budget_bar :: "rat option \<Rightarrow> (rat \<times> tone option) option" where
  "budget_bar pct = map_option (\<lambda>p. (bar_pct p, budgetTone (Some (Finite p)))) pct"

definition coverageNote :: "coverage_row \<Rightarrow> jstring" where
  "coverageNote row =
     (if cov_status row = js ''uncovered'' then
        (case cov_pending row of Some n \<Rightarrow> fmt_int n @ js '' pending will not run'' | None \<Rightarrow> js ''no live consumer'')
      else if cov_status row = js ''starved'' then js ''strict priority; higher-priority queues non-empty''
      else [])"

definition coverage_age :: "(jstring \<Rightarrow> int option) \<Rightarrow> int \<Rightarrow> coverage_response \<Rightarrow> jstring" where
  "coverage_age date_parse now c = (case date_parse (cr2_updated_at c) of
     Some t \<Rightarrow> js_of_int (max 0 (math_round (dbl (of_int (now - t) / 1000))))
   | None \<Rightarrow> js ''NaN'') @ js ''s ago''"

datatype coverage_body = CoverageUnavailable jstring | CoverageLoading | CoverageNone jstring | CoverageRows "coverage_row list"

definition coverage_body_of :: "(jstring \<Rightarrow> jstring) \<Rightarrow> workers_view \<Rightarrow> coverage_body" where
  "coverage_body_of low s = (case wv_coverage s of
     None \<Rightarrow> if wv_coverageError s \<noteq> [] then CoverageUnavailable (wv_coverageError s) else CoverageLoading
   | Some c \<Rightarrow>
       (let rows = filterCoverageRows low (cr2_rows c) (wv_filter s)
        in if rows = [] then CoverageNone (wv_filter s) else CoverageRows rows))"

definition row_pending_text :: "coverage_row \<Rightarrow> jstring" where
  "row_pending_text row = (case cov_pending row of Some n \<Rightarrow> fmt_int n | None \<Rightarrow> DASH)"

definition row_slots :: "coverage_row \<Rightarrow> jstring" where
  "row_slots row = (if cov_consumers row = [] then DASH else fmt_int (cov_total_concurrency row))"

definition consumer_text :: "coverage_consumer \<Rightarrow> jstring" where
  "consumer_text c =
     cc_host c @ js '':'' @ js_of_int (cc_pid c) @ [32, 215] @ js_of_int (cc_weight c) @
     (if cc_strict_priority c then js '' strict'' else [])"

datatype cancel_body = CancelUnavailable jstring | CancelLoading | CancelShown jstring bool jstring

definition cancel_body_of :: "bool \<Rightarrow> workers_view \<Rightarrow> cancel_body" where
  "cancel_body_of hasServers s = (case wv_cancel s of
     None \<Rightarrow> if wv_cancelError s \<noteq> [] then CancelUnavailable (wv_cancelError s) else CancelLoading
   | Some c \<Rightarrow> CancelShown (fmt_int (clr_listeners c)) (clr_listeners c = 0 \<and> hasServers)
       (if clr_approximate c
        then js ''summed across '' @ js_of_int (clr_nodes c) @ js '' reachable node'' @
             (if clr_nodes c = 1 then [] else js ''s'') @ js ''; per-node counts on Redis Cluster'' @ dash @ js ''treat as approximate''
        else js ''exact '' @ [183] @ js '' single Redis node '' @ [183] @
             js '' cancel is cooperative pub/sub with no delivery guarantee''))"

definition worker_link :: "jstring \<Rightarrow> worker_info \<Rightarrow> jstring" where
  "worker_link appTasksPath w = appTasksPath @ activeTaskDrawerSearch (w_queue w) (w_task_id w)"

definition elapsed_text :: "worker_budget \<Rightarrow> jstring" where
  "elapsed_text b =
     (case wb_elapsedMs b of None \<Rightarrow> DASH | Some e \<Rightarrow> if e > 0 then humanize e else js ''0s'') @
     (case wb_budgetMs b of Some m \<Rightarrow> js '' / '' @ humanize m | None \<Rightarrow> [32, 183] @ js '' no deadline'')"

definition deadline_chip :: "worker_budget \<Rightarrow> jstring option" where
  "deadline_chip b = (case wb_pct b of
     Some p \<Rightarrow> if budgetTone (Some (Finite p)) = Some Crit
       then Some (js_of_int (math_round (dbl (p * 100))) @ js ''% of deadline'') else None
   | None \<Rightarrow> None)"

definition stuck_rows ::
  "(jstring \<Rightarrow> int option) \<Rightarrow> int \<Rightarrow> jstring \<Rightarrow> server_info list \<Rightarrow> (jstring \<times> jstring \<times> jstring \<times> jstring) list" where
  "stuck_rows date_parse now appTasksPath servers =
     map (\<lambda>s. (sw_host s @ js '':'' @ js_of_int (sw_pid s), worker_link appTasksPath (sw_worker s),
               shortId (w_task_id (sw_worker s)), js_of_int (math_round (dbl (sw_pct s * 100))) @ js ''%''))
       (stuckWorkers date_parse servers now 10)"

definition serverStatusTone :: "jstring \<Rightarrow> tone" where
  "serverStatusTone status =
     (if status = js ''active'' then Good
      else if status = js ''closed'' \<or> status = js ''stopped'' then Mut else Warn)"

definition busy_pct :: "server_info \<Rightarrow> rat" where
  "busy_pct s = (if s_concurrency s > 0 then dbl (of_nat (length (s_active_workers s)) / of_int (s_concurrency s)) else 0)"

definition busy_text :: "server_info \<Rightarrow> jstring" where
  "busy_text s =
     js_of_nat (length (s_active_workers s)) @ js ''/'' @ js_of_int (s_concurrency s) @ js '' '' @
     js_of_int (math_round (dbl (busy_pct s * 100))) @ js ''%''"

definition weight_order :: "jstring \<times> int \<Rightarrow> jstring \<times> int \<Rightarrow> rat" where
  "weight_order a b = of_int (snd b - snd a)"

definition starvable :: "server_info \<Rightarrow> int \<Rightarrow> bool" where
  "starvable s w =
     (let weights = map snd (s_queue_priorities s); minW = foldr min weights w; maxW = foldr max weights w
      in s_strict_priority_enabled s \<and> w = minW \<and> maxW > minW)"

text \<open>The chips of a server's queues: the queue, its weight, and whether it may starve.\<close>

definition queue_chips :: "server_info \<Rightarrow> (jstring \<times> int \<times> bool) list" where
  "queue_chips s = map (\<lambda>(q, w). (q, w, starvable s w)) (js_sort weight_order (s_queue_priorities s))"

definition chip_text :: "jstring \<times> int \<times> bool \<Rightarrow> jstring" where
  "chip_text c = fst c @ [183] @ js_of_int (fst (snd c)) @ (if snd (snd c) then js '' strict'' else [])"

definition totals_text :: "server_info list \<Rightarrow> jstring" where
  "totals_text servers =
     (let slots = sum_list (map s_concurrency servers); busy = sum_list (map (\<lambda>s. int (length (s_active_workers s))) servers)
      in fmt_int (int (length servers)) @ js '' live '' @ [183, 32] @ fmt_int slots @ js '' slots '' @ [183, 32] @
         js_of_int (if slots > 0 then math_round (dbl (dbl (of_int busy / of_int slots) * 100)) else 0) @ js ''% busy'')"

definition noServers :: "servers_state \<Rightarrow> bool" where
  "noServers s \<longleftrightarrow> \<not> ss_loading s \<and> ss_error s = [] \<and> ss_data s = []"

subsection \<open>Runs\<close>

inductive workers_run :: "workers_view \<Rightarrow> bool" where
  mounted: "workers_run (ask_widgets () workers_init)"
| polled: "workers_run s \<Longrightarrow> workers_run (ask_widgets () s)"
| covered: "workers_run s \<Longrightarrow> (n, u) \<in> set (wv_out s) \<Longrightarrow> workers_run (coverage_answered n u a s)"
| listened: "workers_run s \<Longrightarrow> n \<in> set (wv_cancelOut s) \<Longrightarrow> workers_run (listeners_answered n a s)"
| filtered: "workers_run s \<Longrightarrow> workers_run (s\<lparr>wv_filter := t\<rparr>)"
| toggled: "workers_run s \<Longrightarrow> workers_run (toggle_server i s)"
| jumped: "workers_run s \<Longrightarrow> workers_run (jumpToServer i s)"
| flashed: "workers_run s \<Longrightarrow> i \<in> set (wv_flashTimers s) \<Longrightarrow> workers_run (flash_over i s)"

definition coverage_known :: "workers_view \<Rightarrow> unit \<Rightarrow> bool" where
  "coverage_known s u \<longleftrightarrow> wv_coverage s \<noteq> None \<or> wv_coverageError s \<noteq> []"

definition cancel_known :: "workers_view \<Rightarrow> bool" where
  "cancel_known s \<longleftrightarrow> wv_cancel s \<noteq> None \<or> wv_cancelError s \<noteq> []"

interpretation covq: latest_only wv_num wv_out "\<lambda>_. ()" coverage_known "\<lambda>_ _. True" ask_widgets coverage_answered
  by unfold_locales
    (auto simp: ask_widgets_def coverage_answered_def coverage_known_def Let_def fun_eq_iff split: sum.splits)

text \<open>Once the coverage of the last fetch has been answered, its listeners are out or known.\<close>

definition chained :: "workers_view \<Rightarrow> bool" where
  "chained s \<longleftrightarrow> wv_num s \<notin> fst ` set (wv_out s) \<longrightarrow> wv_num s \<in> set (wv_cancelOut s) \<or> cancel_known s"

definition widgets_ok :: "workers_view \<Rightarrow> bool" where
  "widgets_ok s \<longleftrightarrow> covq.numbered s \<and> covq.current s \<and> wv_num s \<noteq> 0 \<and> chained s"

lemma widgets_frame:
  assumes "wv_num s' = wv_num s" "wv_out s' = wv_out s" "wv_cancelOut s' = wv_cancelOut s" "wv_coverage s' = wv_coverage s"
    "wv_coverageError s' = wv_coverageError s" "wv_cancel s' = wv_cancel s" "wv_cancelError s' = wv_cancelError s"
  shows "widgets_ok s' = widgets_ok s"
  using assms by (simp add: widgets_ok_def covq.numbered_def covq.current_def chained_def coverage_known_def cancel_known_def)

lemma widgets_run_ok: "workers_run s \<Longrightarrow> widgets_ok s"
proof (induction rule: workers_run.induct)
  case mounted
  have "covq.numbered workers_init" by (rule covq.unasked) (simp_all add: workers_init_def)
  from covq.numbered_ask [OF this] covq.current_ask [OF this] show ?case
    by (simp add: widgets_ok_def chained_def ask_widgets_def workers_init_def)
next
  case (polled s)
  then have "covq.numbered s" by (simp add: widgets_ok_def)
  from covq.numbered_ask [OF this] covq.current_ask [OF this] show ?case
    by (simp add: widgets_ok_def chained_def ask_widgets_def)
next
  case (covered s n u a)
  let ?s = "coverage_answered n u a s"
  have s: "covq.numbered s" "covq.current s" "wv_num s \<noteq> 0" "chained s" using covered.IH by (simp_all add: widgets_ok_def)
  have "covq.numbered ?s" "covq.current ?s"
    using s(1,2) covered.hyps(2) covq.numbered_answer covq.current_answer by blast+
  moreover have "chained ?s"
  proof (cases "n = wv_num s")
    case True
    then show ?thesis by (auto simp: chained_def coverage_answered_def Let_def split: sum.split)
  next
    case False
    then have "wv_num s \<in> fst ` set (remove1 (n, u) (wv_out s)) \<longleftrightarrow> wv_num s \<in> fst ` set (wv_out s)"
      by (simp add: other_number_kept)
    then show ?thesis using s(4) False
      by (auto simp: chained_def coverage_answered_def cancel_known_def Let_def split: sum.split)
  qed
  moreover have "wv_num ?s = wv_num s" by (simp add: coverage_answered_def Let_def split: sum.split)
  ultimately show ?case using s(3) by (simp add: widgets_ok_def)
next
  case (listened s n a)
  let ?s = "listeners_answered n a s"
  have same: "wv_num ?s = wv_num s" "wv_out ?s = wv_out s" "coverage_known ?s = coverage_known s"
    by (auto simp: listeners_answered_def coverage_known_def Let_def fun_eq_iff split: sum.split)
  have "chained ?s"
    using listened.IH by (auto simp: widgets_ok_def chained_def listeners_answered_def cancel_known_def Let_def split: sum.split)
  with listened.IH same covq.same_parts [of ?s s] show ?case by (simp add: widgets_ok_def)
next
  case (filtered s t)
  then show ?case using widgets_frame [of "s\<lparr>wv_filter := t\<rparr>" s] by simp
next
  case (toggled s i)
  then show ?case using widgets_frame [of "toggle_server i s" s] by (simp add: toggle_server_def)
next
  case (jumped s i)
  then show ?case using widgets_frame [of "jumpToServer i s" s] by (simp add: jumpToServer_def)
next
  case (flashed s i)
  then show ?case using widgets_frame [of "flash_over i s" s] by (simp add: flash_over_def)
qed

text \<open>C21. Neither widget of the workers screen waits for ever: in every run, however polls and answers interleave, once no
  request is out both the coverage and the cancel widget show an answer or an error.\<close>

theorem worker_widgets_settle:
  assumes "workers_run s" "wv_out s = []" "wv_cancelOut s = []"
  shows "coverage_body_of low s \<noteq> CoverageLoading \<and> cancel_body_of hasServers s \<noteq> CancelLoading"
proof -
  have ok: "widgets_ok s" using assms(1) by (rule widgets_run_ok)
  then have "coverage_known s ()" using covq.settled_known [of s] assms(2) by (simp add: widgets_ok_def)
  moreover have "cancel_known s" using ok assms(2,3) by (simp add: widgets_ok_def chained_def)
  ultimately show ?thesis
    by (auto simp: coverage_known_def cancel_known_def coverage_body_of_def cancel_body_of_def Let_def split: option.split)
qed

definition refused :: axios_error where
  "refused = \<lparr>ae_response = None\<rparr>"

lemma worker_widgets_settle_witness:
  "\<forall>low. coverage_body_of low (listeners_answered 1 (Inl refused) (coverage_answered 1 () (Inl refused) (ask_widgets () workers_init))) \<noteq>
     CoverageLoading"
proof
  fix low
  let ?a = "coverage_answered 1 () (Inl refused) (ask_widgets () workers_init)"
  have "workers_run (ask_widgets () workers_init)" by (rule workers_run.mounted)
  then have "workers_run ?a" by (rule workers_run.covered) (simp add: ask_widgets_def workers_init_def)
  then have run: "workers_run (listeners_answered 1 (Inl refused) ?a)"
    by (rule workers_run.listened) (simp add: coverage_answered_def ask_widgets_def workers_init_def)
  have "wv_out (listeners_answered 1 (Inl refused) ?a) = []" "wv_cancelOut (listeners_answered 1 (Inl refused) ?a) = []"
    by (simp_all add: listeners_answered_def coverage_answered_def ask_widgets_def workers_init_def)
  from worker_widgets_settle [OF run this]
  show "coverage_body_of low (listeners_answered 1 (Inl refused) ?a) \<noteq> CoverageLoading" by blast
qed

subsection \<open>The queues of a server\<close>

interpretation weights: stable_comparator weight_order "\<lambda>c. - snd c"
  by unfold_locales (simp_all add: weight_order_def)

lemma foldr_min_Min: "foldr min ws (w :: int) = Min (insert w (set ws))"
  by (induction ws) (simp_all add: insert_commute)

lemma foldr_max_Max: "foldr max ws (w :: int) = Max (insert w (set ws))"
  by (induction ws) (simp_all add: insert_commute)

text \<open>The chips list every queue of the server once, heaviest first, and mark a queue exactly when the server is strict, no
  queue weighs less, and some queue weighs more.\<close>

lemma server_chips_mark_starvable:
  "mset (map (\<lambda>c. (fst c, fst (snd c))) (queue_chips s)) = mset (s_queue_priorities s) \<and>
   sorted_wrt (\<lambda>a b. fst (snd b) \<le> fst (snd a)) (queue_chips s) \<and>
   (\<forall>c \<in> set (queue_chips s). snd (snd c) \<longleftrightarrow> s_strict_priority_enabled s \<and>
      (\<forall>(q, w) \<in> set (s_queue_priorities s). fst (snd c) \<le> w) \<and> (\<exists>(q, w) \<in> set (s_queue_priorities s). fst (snd c) < w))"
proof (intro conjI ballI)
  show "mset (map (\<lambda>c. (fst c, fst (snd c))) (queue_chips s)) = mset (s_queue_priorities s)"
    by (simp add: queue_chips_def comp_def case_prod_beta)
  show "sorted_wrt (\<lambda>a b. fst (snd b) \<le> fst (snd a)) (queue_chips s)"
    using weights.sorted [of "s_queue_priorities s"]
    by (simp add: queue_chips_def sorted_wrt_map case_prod_beta sorted_map)
next
  fix c
  assume "c \<in> set (queue_chips s)"
  then have "snd (snd c) = starvable s (fst (snd c))" by (auto simp: queue_chips_def)
  moreover have "starvable s w \<longleftrightarrow> s_strict_priority_enabled s \<and> (\<forall>(q, x) \<in> set (s_queue_priorities s). w \<le> x) \<and>
      (\<exists>(q, x) \<in> set (s_queue_priorities s). w < x)" for w
  proof -
    let ?W = "snd ` set (s_queue_priorities s)"
    have "w = Min (insert w ?W) \<longleftrightarrow> (\<forall>x \<in> ?W. w \<le> x)"
      by (metis Min_le Min_eqI finite_imageI finite_insert finite_set insertI1 insert_iff order_refl)
    moreover have "w < Max (insert w ?W) \<longleftrightarrow> (\<exists>x \<in> ?W. w < x)" by (subst Max_gr_iff) auto
    ultimately show ?thesis by (auto simp: starvable_def Let_def foldr_min_Min foldr_max_Max case_prod_beta)
  qed
  ultimately show "snd (snd c) \<longleftrightarrow> s_strict_priority_enabled s \<and> (\<forall>(q, w) \<in> set (s_queue_priorities s). fst (snd c) \<le> w) \<and>
      (\<exists>(q, w) \<in> set (s_queue_priorities s). fst (snd c) < w)"
    by simp
qed

subsection \<open>Where the screen falls short\<close>

text \<open>The store starts out neither loading nor failed: the first render says that no server is alive, before anything was asked.\<close>

lemma first_render_claims_no_servers: "noServers servers_initialState"
  by (simp add: noServers_def servers_initialState_def)

text \<open>A second jump to a server is cut short by the timer of the first.\<close>

lemma second_flash_cut_short:
  assumes "wv_flash s = Some i"
  shows "wv_flash (flash_over i (jumpToServer i s)) = None \<and> i \<in> set (wv_flashTimers (jumpToServer i s))"
  by (simp add: flash_over_def jumpToServer_def)

end
