(* ===== verification/SchedulersView.thy ===== *)
theory SchedulersView
  imports FetchViews Schedulers Hygiene Paths Durations TimeChips UrlState Endpoints
begin

text \<open>
  The schedulers screen (\<open>src/ui/src/views/SchedulersView.tsx\<close>): the table of entries, the outcome trace of an expanded
  one, the two-step button that fires an entry by hand, and the panel of the console's own schedules.
\<close>

subsection \<open>The entries\<close>

record schedulers_view =
  cv_rows :: "scheduler_row list option"
  cv_error :: jstring
  cv_filter :: jstring
  cv_expanded :: "jstring list"
  cv_nowMs :: int
  cv_num :: nat
  cv_out :: "(nat \<times> unit) list"

definition schedulers_init :: "params \<Rightarrow> int \<Rightarrow> schedulers_view" where
  "schedulers_init ps now =
     \<lparr>cv_rows = None, cv_error = [], cv_filter = (case get_param ps (js ''filter'') of Some f \<Rightarrow> f | None \<Rightarrow> []),
      cv_expanded = [], cv_nowMs = now, cv_num = 0, cv_out = []\<rparr>"

definition ask_entries :: "unit \<Rightarrow> schedulers_view \<Rightarrow> schedulers_view" where
  "ask_entries u s = s\<lparr>cv_num := cv_num s + 1, cv_out := cv_out s @ [(cv_num s + 1, u)]\<rparr>"

definition entries_answered ::
  "nat \<Rightarrow> unit \<Rightarrow> (axios_error + scheduler_row list) \<times> int \<Rightarrow> schedulers_view \<Rightarrow> schedulers_view" where
  "entries_answered mine u answer s =
     (let s = s\<lparr>cv_out := remove1 (mine, u) (cv_out s)\<rparr>
      in if mine \<noteq> cv_num s then s
         else case fst answer of
           Inr rows \<Rightarrow> s\<lparr>cv_rows := Some rows, cv_error := [], cv_nowMs := snd answer\<rparr>
         | Inl e \<Rightarrow> s\<lparr>cv_error := toErrorString e\<rparr>)"

definition toggle_entry :: "jstring \<Rightarrow> schedulers_view \<Rightarrow> schedulers_view" where
  "toggle_entry k s =
     s\<lparr>cv_expanded := (if k \<in> set (cv_expanded s) then removeAll k (cv_expanded s) else cv_expanded s @ [k])\<rparr>"

definition visible_entries :: "(jstring \<Rightarrow> jstring) \<Rightarrow> schedulers_view \<Rightarrow> scheduler_row list" where
  "visible_entries low s = (case cv_rows s of
     None \<Rightarrow> [] | Some rows \<Rightarrow> sortSchedulerRows (filterSchedulerRows low rows (cv_filter s)))"

definition goneCount :: "schedulers_view \<Rightarrow> nat" where
  "goneCount s = length (filter isGone (case cv_rows s of Some rows \<Rightarrow> rows | None \<Rightarrow> []))"

datatype entries_body = EntriesLoading | NoMatch | NoneObserved | EntriesShown "scheduler_row list"

definition entries_body_of :: "(jstring \<Rightarrow> jstring) \<Rightarrow> schedulers_view \<Rightarrow> entries_body" where
  "entries_body_of low s =
     (if cv_rows s = None \<and> cv_error s = [] then EntriesLoading
      else if visible_entries low s = [] then (if trim (cv_filter s) \<noteq> [] then NoMatch else NoneObserved)
      else EntriesShown (visible_entries low s))"

text \<open>The status of a row: the chip, and the count of entries that share the registration.\<close>

datatype entry_status = Gone jstring | Live "int option" | NotHeartbeating

definition entry_status_of :: "(jstring \<Rightarrow> int option) \<Rightarrow> int \<Rightarrow> scheduler_row \<Rightarrow> entry_status" where
  "entry_status_of date_parse nowMs row =
     (if isGone row then Gone (goneLabel date_parse (srow_gone_since row) nowMs)
      else if srow_live row then
        Live (case srow_live_count row of Some n \<Rightarrow> if n > 1 then Some n else None | None \<Rightarrow> None)
      else NotHeartbeating)"

definition next_cell :: "(jstring \<Rightarrow> int option) \<Rightarrow> int \<Rightarrow> scheduler_row \<Rightarrow> jstring" where
  "next_cell date_parse now row =
     (if isGone row then DASH else durationBefore date_parse now (entry_next_enqueue_at (srow_entry row)))"

definition prev_cell :: "(jstring \<Rightarrow> int option) \<Rightarrow> int \<Rightarrow> scheduler_row \<Rightarrow> jstring" where
  "prev_cell date_parse now row = (case entry_prev_enqueue_at (srow_entry row) of
     Some t \<Rightarrow> if t \<noteq> [] then timeAgo date_parse now t else [8211]
   | None \<Rightarrow> [8211])"

definition retention_chip :: "scheduler_row \<Rightarrow> jstring \<times> tone" where
  "retention_chip row =
     (let sec = retentionSecondsFromOptions (Some (entry_options (srow_entry row)))
      in (retentionLabel sec, if sec = 0 then Warn else Mut))"

definition queue_chip :: "scheduler_row \<Rightarrow> jstring" where
  "queue_chip row = queueFromOptions (Some (entry_options (srow_entry row)))"

subsection \<open>The outcome trace\<close>

text \<open>\<open>tr_run\<close> counts the runs of the effect on the key; an answer to an earlier run is thrown away.\<close>

record outcome_trace =
  ot_key :: jstring
  ot_resp :: "scheduler_outcomes_response option"
  ot_error :: jstring
  ot_run :: nat
  ot_out :: "(nat \<times> jstring) list"

definition trace_init :: "jstring \<Rightarrow> outcome_trace" where
  "trace_init k = \<lparr>ot_key = k, ot_resp = None, ot_error = [], ot_run = 0, ot_out = []\<rparr>"

definition ask_trace :: "jstring \<Rightarrow> outcome_trace \<Rightarrow> outcome_trace" where
  "ask_trace k s =
     s\<lparr>ot_resp := None, ot_error := [], ot_run := ot_run s + 1, ot_out := ot_out s @ [(ot_run s + 1, k)]\<rparr>"

definition trace_answered ::
  "nat \<Rightarrow> jstring \<Rightarrow> axios_error + scheduler_outcomes_response \<Rightarrow> outcome_trace \<Rightarrow> outcome_trace" where
  "trace_answered run k answer s =
     (let s = s\<lparr>ot_out := remove1 (run, k) (ot_out s)\<rparr>
      in if run \<noteq> ot_run s then s
         else case answer of Inr r \<Rightarrow> s\<lparr>ot_resp := Some r\<rparr> | Inl e \<Rightarrow> s\<lparr>ot_error := toErrorString e\<rparr>)"

text \<open>The parent gives the trace another key: the effect runs.\<close>

definition trace_rekeyed :: "jstring \<Rightarrow> outcome_trace \<Rightarrow> outcome_trace" where
  "trace_rekeyed k s = (if ot_key s = k then s else ask_trace k (s\<lparr>ot_key := k\<rparr>))"

datatype trace_body = TraceFailed jstring | TraceLoading | TraceShown scheduler_outcomes_response

definition trace_body_of :: "outcome_trace \<Rightarrow> trace_body" where
  "trace_body_of s =
     (if ot_error s \<noteq> [] then TraceFailed (ot_error s)
      else case ot_resp s of None \<Rightarrow> TraceLoading | Some r \<Rightarrow> TraceShown r)"

text \<open>A line of the trace: the outcome and its tone, the link of its task, what is known of it.\<close>

definition trace_line :: "jstring \<Rightarrow> jstring \<Rightarrow> scheduler_outcome_event \<Rightarrow> jstring \<times> tone \<times> jstring \<times> jstring \<times> jstring" where
  "trace_line rootp queue ev =
     (oev_outcome ev, outcomeTone (oev_outcome ev), taskDetailsPath rootp queue (oev_task_id ev), uuidPrefix (oev_task_id ev),
      outcomeStamp ev)"

definition trace_guidance :: "scheduler_outcomes_response \<Rightarrow> bool" where
  "trace_guidance r \<longleftrightarrow> showRetentionGuidance (sor_retention_seconds r) (Some (sor_events r))"

subsection \<open>Run now\<close>

text \<open>\<open>rn_out\<close> counts the requests in flight; the last two fields count what was confirmed and what was enqueued.
  The effect that resets the confirmation with \<open>row.stable_key\<close> never meets another key: the rows are keyed by it.\<close>

record run_now =
  rn_confirming :: bool
  rn_busy :: bool
  rn_out :: nat
  rn_opened :: nat
  rn_enqueued :: nat
  rn_toasts :: "(bool \<times> jstring) list"

definition run_now_init :: run_now where
  "run_now_init = \<lparr>rn_confirming = False, rn_busy = False, rn_out = 0, rn_opened = 0, rn_enqueued = 0, rn_toasts = []\<rparr>"

definition run_now_click :: "bool \<Rightarrow> run_now \<Rightarrow> run_now" where
  "run_now_click enabled s =
     (if enabled \<and> \<not> rn_confirming s then s\<lparr>rn_confirming := True, rn_opened := rn_opened s + 1\<rparr> else s)"

definition run_now_cancel :: "run_now \<Rightarrow> run_now" where
  "run_now_cancel s = (if rn_confirming s \<and> \<not> rn_busy s then s\<lparr>rn_confirming := False\<rparr> else s)"

definition fire :: "run_now \<Rightarrow> run_now" where
  "fire s = (if \<not> rn_confirming s \<or> rn_busy s then s else s\<lparr>rn_busy := True, rn_out := rn_out s + 1\<rparr>)"

definition fire_call :: "api_env \<Rightarrow> scheduler_row \<Rightarrow> jstring option api_call option" where
  "fire_call env row = runSchedulerEntry env (srow_stable_key row) None"

definition fired :: "run_scheduler_entry_response \<Rightarrow> run_now \<Rightarrow> run_now" where
  "fired r s =
     s\<lparr>rn_out := rn_out s - 1, rn_enqueued := rn_enqueued s + 1, rn_confirming := False, rn_busy := False,
       rn_toasts := rn_toasts s @ [(True, js ''Task enqueued into '' @ t_queue (rser_task r))]\<rparr>"

definition fire_failed :: "axios_error \<Rightarrow> run_now \<Rightarrow> run_now" where
  "fire_failed e s =
     s\<lparr>rn_out := rn_out s - 1, rn_busy := False,
       rn_toasts := rn_toasts s @ [(False, js ''Run now failed: '' @ toErrorString e)]\<rparr>"

definition skipped_text :: "run_scheduler_entry_response \<Rightarrow> jstring" where
  "skipped_text r =
     t_id (rser_task r) @
     (if rser_skipped_options r \<noteq> [] then [32, 183] @ js '' not applied: '' @ join (js ''; '') (rser_skipped_options r) else [])"

text \<open>The link of the toast; \<open>None\<close> where \<open>encodeURIComponent\<close> throws.\<close>

definition created_link :: "jstring \<Rightarrow> jstring \<Rightarrow> jstring \<Rightarrow> jstring option" where
  "created_link rootp queue ident =
     Option.bind (seg queue) (\<lambda>q.
       map_option (\<lambda>p. p_TASKS (paths rootp) @ js ''?queue='' @ q @ js ''&peek='' @ p)
         (seg (serializePeek \<lparr>pt_queue = queue, pt_id = ident\<rparr>)))"

inductive run_now_run :: "run_now \<Rightarrow> bool" where
  start: "run_now_run run_now_init"
| clicked: "run_now_run s \<Longrightarrow> run_now_run (run_now_click enabled s)"
| canceled: "run_now_run s \<Longrightarrow> run_now_run (run_now_cancel s)"
| confirmed: "run_now_run s \<Longrightarrow> run_now_run (fire s)"
| answered: "run_now_run s \<Longrightarrow> rn_out s > 0 \<Longrightarrow> run_now_run (fired r s)"
| refused: "run_now_run s \<Longrightarrow> rn_out s > 0 \<Longrightarrow> run_now_run (fire_failed e s)"

text \<open>C22. An entry is fired by hand only when confirmed, once per confirmation: in every run of the button, however it is
  clicked and whenever the server answers, at most one request is out, only while the confirm step is shown
  and marked busy, and the tasks enqueued and the request out are at most as many as the confirm steps opened.\<close>

theorem run_now_is_confirmed:
  assumes "run_now_run s"
  shows "rn_out s \<le> 1 \<and> (rn_out s = 1 \<longleftrightarrow> rn_busy s) \<and> (rn_busy s \<longrightarrow> rn_confirming s) \<and>
    rn_enqueued s + rn_out s \<le> rn_opened s"
proof -
  have "rn_out s \<le> 1 \<and> (rn_out s = 1 \<longleftrightarrow> rn_busy s) \<and> (rn_busy s \<longrightarrow> rn_confirming s) \<and>
      rn_enqueued s + (if rn_confirming s then 1 else 0) \<le> rn_opened s"
    using assms
    by (induction rule: run_now_run.induct)
      (auto simp: run_now_init_def run_now_click_def run_now_cancel_def fire_def fired_def fire_failed_def split: if_splits)
  then show ?thesis by (auto split: if_splits)
qed

lemma run_now_is_confirmed_witness:
  "rn_enqueued (fire (fire_failed \<lparr>ae_response = None\<rparr> (fire (fire (run_now_click True run_now_init))))) = 0 \<and>
   rn_out (fire (fire_failed \<lparr>ae_response = None\<rparr> (fire (fire (run_now_click True run_now_init))))) \<le> 1"
proof -
  let ?f = "fire (fire (run_now_click True run_now_init))"
  have "run_now_run ?f" by (intro run_now_run.confirmed run_now_run.clicked run_now_run.start)
  then have "run_now_run (fire_failed \<lparr>ae_response = None\<rparr> ?f)"
    by (rule run_now_run.refused) (simp add: fire_def run_now_click_def run_now_init_def)
  then have "run_now_run (fire (fire_failed \<lparr>ae_response = None\<rparr> ?f))" by (rule run_now_run.confirmed)
  from run_now_is_confirmed [OF this] show ?thesis
    by (simp add: fire_def fire_failed_def run_now_click_def run_now_init_def)
qed

subsection \<open>The console's own schedules\<close>

record schedules_panel =
  kp_cards :: "hygiene_card list option"
  kp_num :: nat
  kp_out :: "(nat \<times> unit) list"

definition ask_schedules :: "unit \<Rightarrow> schedules_panel \<Rightarrow> schedules_panel" where
  "ask_schedules u s = s\<lparr>kp_num := kp_num s + 1, kp_out := kp_out s @ [(kp_num s + 1, u)]\<rparr>"

definition schedules_answered :: "nat \<Rightarrow> unit \<Rightarrow> axios_error + hygiene_card list \<Rightarrow> schedules_panel \<Rightarrow> schedules_panel" where
  "schedules_answered mine u answer s =
     (let s = s\<lparr>kp_out := remove1 (mine, u) (kp_out s)\<rparr>
      in if mine \<noteq> kp_num s then s
         else s\<lparr>kp_cards := (case answer of Inr cs \<Rightarrow> Some cs | Inl _ \<Rightarrow> None)\<rparr>)"

definition schedules_shown :: "schedules_panel \<Rightarrow> hygiene_card list" where
  "schedules_shown s = (case kp_cards s of Some cs \<Rightarrow> cs | None \<Rightarrow> [])"

definition schedule_text :: "hygiene_card \<Rightarrow> jstring" where
  "schedule_text c = (if hcard_enabled c then js ''every '' @ humanize (hcard_interval_seconds c * 1000) else js ''disabled'')"

definition last_run_text :: "(jstring \<Rightarrow> int option) \<Rightarrow> int \<Rightarrow> hygiene_card \<Rightarrow> jstring" where
  "last_run_text date_parse now c =
     (if hcard_last_generated_at c = [] then js ''never'' else timeAgo date_parse now (hcard_last_generated_at c))"

text \<open>When a report is due; \<open>None\<close> where \<open>toISOString\<close> throws, which ends the render.\<close>

definition nextDue :: "(jstring \<Rightarrow> int option) \<Rightarrow> int \<Rightarrow> hygiene_card \<Rightarrow> jstring option" where
  "nextDue date_parse now c =
     (if \<not> hcard_enabled c then Some DASH
      else if hcard_last_generated_at c = [] then Some (js ''on next scheduler tick'')
      else case date_parse (hcard_last_generated_at c) of
        None \<Rightarrow> None
      | Some t \<Rightarrow>
          (let dueMs = t + hcard_interval_seconds c * 1000
           in if dueMs \<le> now then Some (js ''due now'')
              else map_option (durationBefore date_parse now) (toISOString dueMs)))"

subsection \<open>The fetches\<close>

definition entries_known :: "(scheduler_row list \<Rightarrow> bool) \<Rightarrow> schedulers_view \<Rightarrow> unit \<Rightarrow> bool" where
  "entries_known server s u \<longleftrightarrow> cv_error s \<noteq> [] \<or> (\<exists>rows. cv_rows s = Some rows \<and> server rows)"

definition entries_honest :: "(scheduler_row list \<Rightarrow> bool) \<Rightarrow> unit \<Rightarrow> (axios_error + scheduler_row list) \<times> int \<Rightarrow> bool" where
  "entries_honest server u a = (case fst a of Inr rows \<Rightarrow> server rows | Inl _ \<Rightarrow> True)"

interpretation entq: latest_only cv_num cv_out "\<lambda>_. ()" "entries_known server" "entries_honest server" ask_entries entries_answered
  for server
  by unfold_locales
    (auto simp: ask_entries_def entries_answered_def entries_known_def entries_honest_def Let_def fun_eq_iff split: sum.splits)

definition trace_known :: "(jstring \<Rightarrow> scheduler_outcomes_response \<Rightarrow> bool) \<Rightarrow> outcome_trace \<Rightarrow> jstring \<Rightarrow> bool" where
  "trace_known server s k \<longleftrightarrow> ot_error s \<noteq> [] \<or> (\<exists>r. ot_resp s = Some r \<and> server k r)"

definition trace_honest :: "(jstring \<Rightarrow> scheduler_outcomes_response \<Rightarrow> bool) \<Rightarrow> jstring \<Rightarrow> axios_error + scheduler_outcomes_response \<Rightarrow> bool" where
  "trace_honest server k a = (case a of Inr r \<Rightarrow> server k r | Inl _ \<Rightarrow> True)"

interpretation traceq: latest_only ot_run ot_out ot_key "trace_known server" "trace_honest server" ask_trace trace_answered
  for server
  by unfold_locales
    (auto simp: ask_trace_def trace_answered_def trace_known_def trace_honest_def Let_def fun_eq_iff split: sum.splits)

text \<open>What the panel of the console's schedules shows is an answer, or nothing after a failure.\<close>

definition schedules_known :: "(hygiene_card list \<Rightarrow> bool) \<Rightarrow> schedules_panel \<Rightarrow> unit \<Rightarrow> bool" where
  "schedules_known server s u \<longleftrightarrow> (\<forall>cs. kp_cards s = Some cs \<longrightarrow> server cs)"

interpretation kpq: latest_only kp_num kp_out "\<lambda>_. ()" "schedules_known server"
    "\<lambda>_ a. case a of Inr cs \<Rightarrow> server cs | Inl _ \<Rightarrow> True" ask_schedules schedules_answered
  for server
  by unfold_locales
    (auto simp: ask_schedules_def schedules_answered_def schedules_known_def Let_def fun_eq_iff split: sum.splits)

text \<open>The trace of an entry: rows are rekeyed and answers come in any order.\<close>

inductive trace_run :: "(jstring \<Rightarrow> scheduler_outcomes_response \<Rightarrow> bool) \<Rightarrow> outcome_trace \<Rightarrow> bool" for server where
  mounted: "trace_run server (ask_trace k (trace_init k))"
| rekeyed: "trace_run server s \<Longrightarrow> trace_run server (trace_rekeyed k s)"
| landed: "trace_run server s \<Longrightarrow> (n, k) \<in> set (ot_out s) \<Longrightarrow> trace_honest server k a \<Longrightarrow> trace_run server (trace_answered n k a s)"

lemma trace_run_ok: "trace_run server s \<Longrightarrow> traceq.numbered s \<and> traceq.current server s \<and> ot_run s \<noteq> 0"
proof (induction rule: trace_run.induct)
  case (mounted k)
  have "traceq.numbered (trace_init k)" by (rule traceq.unasked) (simp_all add: trace_init_def)
  from traceq.numbered_ask [OF this] traceq.current_ask [OF this, of server] show ?case
    by (simp add: trace_init_def ask_trace_def)
next
  case (rekeyed s k)
  show ?case
  proof (cases "ot_key s = k")
    case False
    have "traceq.numbered (s\<lparr>ot_key := k\<rparr>)" using rekeyed by (simp add: traceq.numbered_def)
    from traceq.numbered_ask [OF this] traceq.current_ask [OF this, of server] False show ?thesis
      by (simp add: trace_rekeyed_def ask_trace_def)
  qed (use rekeyed in \<open>simp add: trace_rekeyed_def\<close>)
next
  case (landed s n k a)
  moreover have "ot_run (trace_answered n k a s) = ot_run s" by (simp add: trace_answered_def Let_def split: sum.split)
  ultimately show ?case using traceq.numbered_answer traceq.current_answer by simp
qed

text \<open>An expanded entry shows its own history: whatever trace is shown once its request has been answered is an answer to its key.\<close>

lemma trace_is_of_its_entry:
  assumes "trace_run server s" "ot_run s \<notin> fst ` set (ot_out s)" "trace_body_of s = TraceShown r"
  shows "server (ot_key s) r"
  using traceq.settled_known [OF _ _ assms(2), of server] trace_run_ok [OF assms(1)] assms(3)
  by (auto simp: trace_known_def trace_body_of_def split: option.splits if_splits)

subsection \<open>Where the screen falls short\<close>

text \<open>When the first retrieval fails the table says that no entries were observed, under the alert that says they could not be retrieved.\<close>

lemma failed_retrieval_reads_empty:
  assumes "cv_rows s = None" "cv_filter s = []" "n = cv_num s"
  shows "entries_body_of low (entries_answered n u (Inl e, now) s) = NoneObserved"
  using assms by (simp add: entries_body_of_def entries_answered_def visible_entries_def Let_def)

text \<open>The comment says the panel stays hidden when its reports cannot be reached; one failed refresh removes a panel on display.\<close>

lemma failed_refresh_hides_schedules:
  assumes "n = kp_num s"
  shows "schedules_shown (schedules_answered n u (Inl e) s) = []"
  using assms by (simp add: schedules_shown_def schedules_answered_def)

text \<open>A report whose last run the browser cannot read breaks the render of the whole screen.\<close>

lemma unreadable_stamp_breaks_render:
  assumes "hcard_enabled c" "hcard_last_generated_at c \<noteq> []" "date_parse (hcard_last_generated_at c) = None"
  shows "nextDue date_parse now c = None"
  using assms by (simp add: nextDue_def)

end
