(* ===== verification/HygieneView.thy ===== *)
theory HygieneView
  imports FetchViews Hygiene Durations Endpoints
begin

text \<open>
  The hygiene screen (\<open>src/ui/src/views/HygieneView.tsx\<close>): the cards in their display order, the schedule editor of a card,
  its report with Run now, and the texts of the four full reports.
\<close>

subsection \<open>The cards\<close>

record hygiene_view =
  hg_cards :: "hygiene_card list option"
  hg_loadError :: jstring
  hg_pendingAction :: "dead_letter_action option"
  hg_num :: nat
  hg_out :: "(nat \<times> unit) list"
  hg_enabling :: nat

definition hygiene_init :: hygiene_view where
  "hygiene_init =
     \<lparr>hg_cards = None, hg_loadError = [], hg_pendingAction = None, hg_num = 0, hg_out = [], hg_enabling = 0\<rparr>"

text \<open>\<open>new Map\<close> of the reports by kind: the last report of a kind counts.\<close>

definition byKind :: "hygiene_card list \<Rightarrow> hygiene_kind \<Rightarrow> hygiene_card option" where
  "byKind reports = map_of (rev (map (\<lambda>r. (hcard_kind r, r)) reports))"

definition ordered_cards :: "hygiene_card list \<Rightarrow> hygiene_card list" where
  "ordered_cards reports = List.map_filter (byKind reports) HYGIENE_KINDS"

definition ask_cards :: "unit \<Rightarrow> hygiene_view \<Rightarrow> hygiene_view" where
  "ask_cards u s = s\<lparr>hg_num := hg_num s + 1, hg_out := hg_out s @ [(hg_num s + 1, u)]\<rparr>"

definition cards_answered :: "nat \<Rightarrow> unit \<Rightarrow> axios_error + hygiene_card list \<Rightarrow> hygiene_view \<Rightarrow> hygiene_view" where
  "cards_answered mine u answer s =
     (let s = s\<lparr>hg_out := remove1 (mine, u) (hg_out s)\<rparr>
      in if mine \<noteq> hg_num s then s
         else case answer of
           Inr reports \<Rightarrow> s\<lparr>hg_cards := Some (ordered_cards reports), hg_loadError := []\<rparr>
         | Inl e \<Rightarrow> s\<lparr>hg_loadError := toErrorString e\<rparr>)"

definition weekly_inventory :: hygiene_config where
  "weekly_inventory = \<lparr>hc_enabled = True, hc_interval_seconds = 7 * 24 * 3600\<rparr>"

definition enableWeeklyInventory :: "hygiene_view \<Rightarrow> hygiene_view" where
  "enableWeeklyInventory s = s\<lparr>hg_enabling := hg_enabling s + 1\<rparr>"

definition enabled_answered :: "axios_error option \<Rightarrow> hygiene_view \<Rightarrow> hygiene_view" where
  "enabled_answered failure s =
     (let s = s\<lparr>hg_enabling := hg_enabling s - 1\<rparr>
      in case failure of None \<Rightarrow> ask_cards () s | Some e \<Rightarrow> s\<lparr>hg_loadError := toErrorString e\<rparr>)"

text \<open>The dialog of a pending action deletes, whatever verb the report names.\<close>

definition pending_job :: "hygiene_view \<Rightarrow> (job_verb \<times> job_scope) option" where
  "pending_job s = map_option (\<lambda>a. (VDelete, deadLetterActionScope a)) (hg_pendingAction s)"

definition offers_weekly :: "bool \<Rightarrow> hygiene_view \<Rightarrow> bool" where
  "offers_weekly readOnly s \<longleftrightarrow> \<not> readOnly \<and> (\<exists>cs. hg_cards s = Some cs \<and> nothingScheduled cs)"

definition cards_known :: "(hygiene_card list \<Rightarrow> bool) \<Rightarrow> hygiene_view \<Rightarrow> unit \<Rightarrow> bool" where
  "cards_known server s u \<longleftrightarrow> hg_loadError s \<noteq> [] \<or> (\<exists>rs. server rs \<and> hg_cards s = Some (ordered_cards rs))"

interpretation cardq: latest_only hg_num hg_out "\<lambda>_. ()" "cards_known server"
    "\<lambda>_ a. case a of Inr rs \<Rightarrow> server rs | Inl _ \<Rightarrow> True" ask_cards cards_answered
  for server
  by unfold_locales
    (auto simp: ask_cards_def cards_answered_def cards_known_def Let_def fun_eq_iff split: sum.splits)

lemma byKind_Some: "byKind reports k = Some c \<Longrightarrow> c \<in> set reports \<and> hcard_kind c = k"
  by (auto simp: byKind_def dest!: map_of_SomeD)

lemma byKind_None: "byKind reports k = None \<longleftrightarrow> k \<notin> hcard_kind ` set reports"
  by (force simp: byKind_def map_of_eq_None_iff)

text \<open>The screen shows one card for every kind of report the server has, in the order of the display, whatever order or
  repetition the answer has, and nothing that was not in it.\<close>

theorem hygiene_cards_in_order:
  "map hcard_kind (ordered_cards reports) = filter (\<lambda>k. k \<in> hcard_kind ` set reports) HYGIENE_KINDS \<and>
   distinct (map hcard_kind (ordered_cards reports)) \<and> set (ordered_cards reports) \<subseteq> set reports \<and>
   (distinct (map hcard_kind reports) \<longrightarrow> set (ordered_cards reports) = set reports)"
proof -
  have kinds: "map hcard_kind (List.map_filter (byKind reports) ks) = filter (\<lambda>k. k \<in> hcard_kind ` set reports) ks" for ks
  proof (induction ks)
    case (Cons k ks)
    show ?case
    proof (cases "byKind reports k")
      case None
      with Cons byKind_None [of reports k] show ?thesis by (simp add: List.map_filter_simps)
    next
      case (Some c)
      with Cons byKind_Some [OF Some] show ?thesis by (auto simp: List.map_filter_simps)
    qed
  qed (simp add: List.map_filter_simps)
  have sub: "set (ordered_cards reports) \<subseteq> set reports"
    by (auto simp: ordered_cards_def List.map_filter_def dest: byKind_Some)
  moreover have "set reports \<subseteq> set (ordered_cards reports)" if "distinct (map hcard_kind reports)"
  proof
    fix c
    assume c: "c \<in> set reports"
    then obtain d where d: "byKind reports (hcard_kind c) = Some d" using byKind_None [of reports "hcard_kind c"] by auto
    then have "d = c" using byKind_Some [OF d] c that by (auto simp: distinct_map dest: inj_onD)
    moreover have "hcard_kind c \<in> set HYGIENE_KINDS" by (cases "hcard_kind c") (simp_all add: HYGIENE_KINDS_def)
    ultimately show "c \<in> set (ordered_cards reports)" using d by (force simp: ordered_cards_def List.map_filter_def)
  qed
  moreover have "distinct (map hcard_kind (ordered_cards reports))"
    unfolding ordered_cards_def kinds by (rule distinct_filter) (simp add: HYGIENE_KINDS_def)
  moreover have "map hcard_kind (ordered_cards reports) = filter (\<lambda>k. k \<in> hcard_kind ` set reports) HYGIENE_KINDS"
    unfolding ordered_cards_def by (rule kinds)
  ultimately show ?thesis by blast
qed

definition sample_card :: "hygiene_kind \<Rightarrow> hygiene_card" where
  "sample_card k =
     \<lparr>hcard_kind = k, hcard_title = KIND_TITLES k, hcard_enabled = False, hcard_interval_seconds = 86400,
      hcard_last_generated_at = [], hcard_summary = None\<rparr>"

lemma hygiene_cards_in_order_witness:
  "set (ordered_cards [sample_card Storage, sample_card Inventory]) = {sample_card Storage, sample_card Inventory}"
proof -
  have "distinct (map hcard_kind [sample_card Storage, sample_card Inventory])" by (simp add: sample_card_def)
  with hygiene_cards_in_order [of "[sample_card Storage, sample_card Inventory]"]
  have "set (ordered_cards [sample_card Storage, sample_card Inventory]) = set [sample_card Storage, sample_card Inventory]" by blast
  then show ?thesis by simp
qed

subsection \<open>The schedule editor\<close>

text \<open>\<open>se_card\<close> is the card's own schedule; the key of the editor names it, so another schedule mounts a new editor.\<close>

record schedule_editor =
  se_card :: hygiene_config
  se_enabled :: bool
  se_interval :: int
  se_saving :: bool
  se_error :: jstring
  se_instance :: nat
  se_out :: "(nat \<times> hygiene_config) list"

definition editor_mounted :: "hygiene_config \<Rightarrow> schedule_editor" where
  "editor_mounted c =
     \<lparr>se_card = c, se_enabled = hc_enabled c, se_interval = hc_interval_seconds c, se_saving = False, se_error = [],
      se_instance = 0, se_out = []\<rparr>"

definition card_refreshed :: "hygiene_config \<Rightarrow> schedule_editor \<Rightarrow> schedule_editor" where
  "card_refreshed c s =
     (if c = se_card s then s
      else (editor_mounted c)\<lparr>se_instance := se_instance s + 1, se_out := se_out s\<rparr>)"

definition dirty :: "schedule_editor \<Rightarrow> bool" where
  "dirty s \<longleftrightarrow> se_enabled s \<noteq> hc_enabled (se_card s) \<or> se_interval s \<noteq> hc_interval_seconds (se_card s)"

definition save_schedule :: "schedule_editor \<Rightarrow> schedule_editor" where
  "save_schedule s =
     (if \<not> validInterval (Finite (of_int (se_interval s))) \<or> se_saving s then s
      else s\<lparr>se_saving := True, se_error := [],
             se_out := se_out s @ [(se_instance s, \<lparr>hc_enabled = se_enabled s, hc_interval_seconds = se_interval s\<rparr>)]\<rparr>)"

text \<open>The settling of a save: an editor that was replaced is gone. \<open>onSaved\<close> fetches the cards again.\<close>

definition schedule_saved :: "nat \<Rightarrow> hygiene_config \<Rightarrow> axios_error option \<Rightarrow> schedule_editor \<Rightarrow> schedule_editor" where
  "schedule_saved i c failure s =
     (let s = s\<lparr>se_out := remove1 (i, c) (se_out s)\<rparr>
      in if i \<noteq> se_instance s then s
         else s\<lparr>se_saving := False, se_error := (case failure of Some e \<Rightarrow> toErrorString e | None \<Rightarrow> se_error s)\<rparr>)"

inductive editor_run :: "schedule_editor \<Rightarrow> bool" where
  mounted: "editor_run (editor_mounted c)"
| switched: "editor_run s \<Longrightarrow> editor_run (s\<lparr>se_enabled := b\<rparr>)"
| chosen: "editor_run s \<Longrightarrow> editor_run (s\<lparr>se_interval := n\<rparr>)"
| saving: "editor_run s \<Longrightarrow> editor_run (save_schedule s)"
| saved: "editor_run s \<Longrightarrow> (i, c) \<in> set (se_out s) \<Longrightarrow> editor_run (schedule_saved i c f s)"
| refreshed: "editor_run s \<Longrightarrow> editor_run (card_refreshed c s)"

definition editor_ok :: "schedule_editor \<Rightarrow> bool" where
  "editor_ok s \<longleftrightarrow>
     (\<forall>(i, c) \<in> set (se_out s). i \<le> se_instance s \<and> MIN_INTERVAL_SECONDS \<le> hc_interval_seconds c \<and>
        hc_interval_seconds c \<le> MAX_INTERVAL_SECONDS) \<and>
     distinct (map fst (se_out s)) \<and> (se_saving s \<longleftrightarrow> se_instance s \<in> fst ` set (se_out s))"

lemma valid_int: "validInterval (Finite (of_int n)) \<longleftrightarrow> MIN_INTERVAL_SECONDS \<le> n \<and> n \<le> MAX_INTERVAL_SECONDS"
  by (simp add: validInterval_def)

lemma editor_run_ok: "editor_run s \<Longrightarrow> editor_ok s"
proof (induction rule: editor_run.induct)
  case (saving s)
  then show ?case by (auto simp: editor_ok_def save_schedule_def valid_int)
next
  case (saved s i c f)
  have sub: "set (remove1 (i, c) (se_out s)) \<subseteq> set (se_out s)" by (rule set_remove1_subset)
  have dist: "distinct (map fst (remove1 (i, c) (se_out s)))"
    using saved.IH by (simp add: editor_ok_def distinct_remove_numbered)
  show ?case
  proof (cases "i = se_instance s")
    case True
    have "se_instance s \<notin> fst ` set (remove1 (i, c) (se_out s))"
      using number_gone [OF _ saved.hyps(2)] saved.IH True by (simp add: editor_ok_def)
    with saved.IH sub dist True show ?thesis by (auto simp: editor_ok_def schedule_saved_def Let_def)
  next
    case False
    with saved.IH sub dist other_number_kept [of "se_instance s" "(i, c)" "se_out s"] show ?thesis by (auto simp: editor_ok_def schedule_saved_def Let_def)
  qed
next
  case (refreshed s c)
  then have "se_instance s + 1 \<notin> fst ` set (se_out s)" by (auto simp: editor_ok_def)
  with refreshed.IH show ?case by (fastforce simp: editor_ok_def card_refreshed_def editor_mounted_def)
qed (simp_all add: editor_ok_def editor_mounted_def)

text \<open>C23. A schedule that is saved is one the server takes: in every run of the editor each configuration sent has an
  interval between a minute and ninety days, one editor has at most one save out, and the button says so
  exactly while it is.\<close>

theorem schedule_saves_are_valid:
  assumes "editor_run s"
  shows "(\<forall>(i, c) \<in> set (se_out s). 60 \<le> hc_interval_seconds c \<and> hc_interval_seconds c \<le> 7776000) \<and>
    distinct (map fst (se_out s)) \<and> (se_saving s \<longleftrightarrow> (\<exists>c. (se_instance s, c) \<in> set (se_out s)))"
  using editor_run_ok [OF assms] by (force simp: editor_ok_def MIN_INTERVAL_SECONDS_def MAX_INTERVAL_SECONDS_def)

lemma schedule_saves_are_valid_witness:
  "se_saving (save_schedule (save_schedule (editor_mounted weekly_inventory))) \<and>
   length (se_out (save_schedule (save_schedule (editor_mounted weekly_inventory)))) = 1"
proof -
  let ?s = "save_schedule (save_schedule (editor_mounted weekly_inventory))"
  have "editor_run ?s" by (intro editor_run.saving editor_run.mounted)
  from schedule_saves_are_valid [OF this] have "se_saving ?s \<longleftrightarrow> (\<exists>c. (se_instance ?s, c) \<in> set (se_out ?s))" by blast
  moreover have "se_out ?s = [(0, weekly_inventory)]" "se_instance ?s = 0"
    by (simp_all add: save_schedule_def editor_mounted_def weekly_inventory_def valid_int MIN_INTERVAL_SECONDS_def
        MAX_INTERVAL_SECONDS_def)
  ultimately show ?thesis by simp
qed

subsection \<open>The report of a card\<close>

text \<open>A load carries the \<open>expanded\<close> of the click that sent it.\<close>

datatype report_flight = RunFlight | LoadFlight bool

record report_card =
  rc_running :: bool
  rc_expanded :: bool
  rc_report :: "hygiene_report option"
  rc_error :: jstring
  rc_out :: "report_flight list"

definition card_init :: report_card where
  "card_init = \<lparr>rc_running = False, rc_expanded = False, rc_report = None, rc_error = [], rc_out = []\<rparr>"

definition runNow :: "report_card \<Rightarrow> report_card" where
  "runNow s = (if rc_running s then s else s\<lparr>rc_running := True, rc_error := [], rc_out := rc_out s @ [RunFlight]\<rparr>)"

text \<open>A run that succeeded also fetches the cards again (\<open>onChanged\<close>).\<close>

definition run_answered :: "axios_error + hygiene_report \<Rightarrow> report_card \<Rightarrow> report_card" where
  "run_answered answer s =
     (let s = s\<lparr>rc_out := remove1 RunFlight (rc_out s), rc_running := False\<rparr>
      in case answer of
           Inr rep \<Rightarrow> s\<lparr>rc_report := Some rep, rc_expanded := True\<rparr>
         | Inl e \<Rightarrow> s\<lparr>rc_error := toErrorString e\<rparr>)"

definition openReport :: "report_card \<Rightarrow> report_card" where
  "openReport s =
     (if \<not> rc_expanded s \<and> rc_report s = None then s\<lparr>rc_out := rc_out s @ [LoadFlight (rc_expanded s)]\<rparr>
      else s\<lparr>rc_expanded := \<not> rc_expanded s\<rparr>)"

definition load_answered :: "bool \<Rightarrow> axios_error + hygiene_report \<Rightarrow> report_card \<Rightarrow> report_card" where
  "load_answered expanded answer s =
     (let s = s\<lparr>rc_out := remove1 (LoadFlight expanded) (rc_out s), rc_expanded := \<not> expanded\<rparr>
      in case answer of
           Inr rep \<Rightarrow> s\<lparr>rc_report := Some rep, rc_error := []\<rparr>
         | Inl e \<Rightarrow> s\<lparr>rc_error := toErrorString e\<rparr>)"

definition report_shown :: "report_card \<Rightarrow> hygiene_report option" where
  "report_shown s = (if rc_expanded s then rc_report s else None)"

definition card_stamp :: "(jstring \<Rightarrow> int option) \<Rightarrow> int \<Rightarrow> hygiene_card \<Rightarrow> jstring" where
  "card_stamp date_parse now c =
     (if hcard_enabled c then formatInterval (hcard_interval_seconds c) else js ''not scheduled'') @ [32, 183, 32] @
     (if hcard_last_generated_at c \<noteq> [] then js ''generated '' @ timeAgo date_parse now (hcard_last_generated_at c)
      else js ''never generated'')"

definition report_stamp :: "(jstring \<Rightarrow> int option) \<Rightarrow> int \<Rightarrow> hygiene_report \<Rightarrow> jstring" where
  "report_stamp date_parse now r =
     js ''generated '' @ timeAgo date_parse now (hrep_generated_at r) @
     (case hrep_data_as_of r of
        Some t \<Rightarrow> if t \<noteq> [] then [32, 183] @ js '' data as of '' @ timeAgo date_parse now t else []
      | None \<Rightarrow> [])"

text \<open>A report opened before Run now is clicked, and answered after it, replaces the one just generated.\<close>

lemma late_report_replaces_run:
  "rc_report (load_answered False (Inr older) (run_answered (Inr fresh) (runNow (openReport card_init)))) = Some older"
  by (simp add: load_answered_def)

text \<open>A report that could not be loaded is open all the same: the button says Close report and nothing is shown.\<close>

lemma failed_load_opens_nothing:
  "rc_expanded (load_answered False (Inl e) (openReport card_init)) \<and>
   report_shown (load_answered False (Inl e) (openReport card_init)) = None"
  by (simp add: load_answered_def openReport_def card_init_def report_shown_def)

subsection \<open>The full reports\<close>

definition inventory_note :: "inventory_report \<Rightarrow> jstring" where
  "inventory_note rep =
     (if ir2_rows_truncated rep then js ''Showing the first rows of '' @ fmt_int (ir2_queues_total rep) @ js '' queues. '' else []) @
     (if ir2_probes_capped rep then js ''Dead-queue probing capped at '' @ fmt_int (ir2_probe_cap rep) @
        js '' candidates this run'' @ dash @ js ''unprobed queues stay unflagged.'' else [])"

definition inventory_flags :: "inventory_row \<Rightarrow> (tone \<times> jstring) list" where
  "inventory_flags r =
     (if ir_dead_candidate r then [(Warn, js ''dead candidate'')] else []) @
     (if ir_zero_consumer_pending r then [(Crit, js ''zero-consumer + pending'')] else []) @
     (if ir_paused_over_7d r then [(Warn, js ''paused > 7d'')] else [])"

definition inventory_activity :: "(jstring \<Rightarrow> int option) \<Rightarrow> int \<Rightarrow> inventory_row \<Rightarrow> jstring \<times> jstring" where
  "inventory_activity date_parse now r =
     (case ir_last_activity_at r of Some t \<Rightarrow> if t \<noteq> [] then timeAgo date_parse now t else DASH | None \<Rightarrow> DASH,
      activitySourceLabel (ir_last_activity_source r))"

definition memory_cells :: "(jstring \<Rightarrow> int option) \<Rightarrow> int \<Rightarrow> queue_memory_row \<Rightarrow> jstring list" where
  "memory_cells date_parse now m =
     [qmr_queue m, fmt_int (qmr_tasks m), formatBytes (Finite (of_int (qmr_estimated_bytes m))),
      formatBytes (Finite (of_int (qmr_avg_task_bytes m))),
      js_of_int (qmr_sampled_tasks m) @ js '' tasks '' @ [183, 32] @ timeAgo date_parse now (qmr_sampled_at m)]"

definition not_sampled_note :: "storage_report \<Rightarrow> jstring" where
  "not_sampled_note st =
     (if sr2_not_sampled_queues st > 0
      then fmt_int (sr2_not_sampled_queues st) @ js '' more queue'' @ (if sr2_not_sampled_queues st = 1 then [] else js ''s'') @
           js '' with tasks were not sampled this run'' @ dash @ js ''no number is shown rather than a wrong one.''
      else [])"

definition offender_cells :: "payload_offender \<Rightarrow> jstring list" where
  "offender_cells p =
     [po2_queue p, take 8 (po2_id p) @ [8230], po2_state p, formatBytes (Finite (of_int (po2_msg_bytes p)))]"

definition retention_cells :: "retention_row \<Rightarrow> jstring list" where
  "retention_cells r = rr_queue r # map fmt_int (rr_counts r) @ [fmt_int (rr_total r)]"

definition dead_letter_clusters :: "dead_letter_queue_row \<Rightarrow> jstring list" where
  "dead_letter_clusters q =
     (if dlqr_clusters q = [] then [js ''no index data'']
      else map (\<lambda>c. (if dlc_lower_bound c then [8805] else []) @ fmt_int (dlc_archived c) @ [32, 215, 32] @ dlc_template c)
        (dlqr_clusters q))"

definition dead_letter_button :: "dead_letter_queue_row \<Rightarrow> jstring option" where
  "dead_letter_button q =
     map_option (\<lambda>a. dla_label a @ js '' ('' @ fmt_int (dla_estimate a) @ js '') as job'' @ [8230]) (dlqr_action q)"

definition dead_letter_note :: "dead_letter_report \<Rightarrow> jstring" where
  "dead_letter_note dl =
     (if dlr_queues_truncated dl
      then js ''Showing the top '' @ js_of_nat (length (dlr_queues dl)) @ js '' of '' @ fmt_int (dlr_queues_with_archived dl) @
           js '' queues with archived tasks.''
      else [])"

definition issue_sections ::
  "(jstring \<Rightarrow> int option) \<Rightarrow> int \<Rightarrow> scheduler_health_report \<Rightarrow> (jstring \<times> tone \<times> (sched_issue \<times> jstring) list) list" where
  "issue_sections date_parse now sh =
     [(js ''Scheduler gone'', Crit,
       map (\<lambda>r. (r, case si_last_seen_at r of
              Some t \<Rightarrow> if t \<noteq> [] then js ''last seen '' @ timeAgo date_parse now t else [] | None \<Rightarrow> [])) (shr_gone sh)),
      (js ''Retention-less entries'' @ dash @ js ''outcome unknowable'', Warn,
       map (\<lambda>r. (r, js ''set asynq.Retention to make outcomes traceable'')) (shr_retention_less sh)),
      (js ''Entries targeting zero-consumer queues'', Warn,
       map (\<lambda>r. (r, js_of_int (si_consumers r) @ js '' consumers on '' @ si_queue r)) (shr_zero_consumer_targets sh))]"

definition health_counts :: "scheduler_health_report \<Rightarrow> jstring" where
  "health_counts sh = fmt_int (shr_live_entries sh) @ js '' live entries '' @ [183, 32] @ fmt_int (shr_snapshots sh) @ js '' snapshots''"

end
