(* ===== verification/FleetView.thy ===== *)
theory FleetView
  imports FetchViews JsSort Trends Errsig FleetEvents Endpoints Paths Durations
begin

text \<open>
  The fleet overview (\<open>src/ui/src/views/FleetView.tsx\<close>): the series of the tiles and of the attention rail, fetched in one
  batch, the tiles, the rail, the button that drops a deploy marker, and the failure pulse. \<open>useFleetEvents\<close>, which feeds
  it, is in \<open>FleetEvents\<close>. \<open>Date.parse\<close> is \<open>date_parse\<close>; \<open>pretty-bytes\<close> is the parameter \<open>prettyBytes\<close>.
\<close>

subsection \<open>Fleet series and markers\<close>

definition STALE_FLEET_MS :: int where "STALE_FLEET_MS = 30000"

definition FLEET_SPARK_POINTS :: int where "FLEET_SPARK_POINTS = 60"

definition seriesKeyOf :: "jstring \<Rightarrow> jstring \<Rightarrow> series_window \<Rightarrow> jstring" where
  "seriesKeyOf scope metric window = scope @ [124] @ metric @ [124] @ window_name window"

definition spark_spec :: "jstring \<Rightarrow> jstring \<Rightarrow> series_spec" where
  "spark_spec scope metric =
     \<lparr>sspec_scope = scope, sspec_metric = metric, sspec_window = Window3h, sspec_points = Some FLEET_SPARK_POINTS\<rparr>"

definition KPI_SPECS :: "series_spec list" where
  "KPI_SPECS =
     map (\<lambda>m. spark_spec (js ''fleet'') (js m)) [''pending'', ''active'', ''retry'', ''archived''] @
     [\<lparr>sspec_scope = js ''fleet'', sspec_metric = js ''failed_delta'', sspec_window = Window24h, sspec_points = None\<rparr>]"

definition MAX_FINDING_SPECS :: nat where
  "MAX_FINDING_SPECS = 60 - length KPI_SPECS"

text \<open>\<open>f.series_scope && f.series_metric\<close>: the series a finding names.\<close>

definition series_ref :: "attention_finding \<Rightarrow> (jstring \<times> jstring) option" where
  "series_ref f = (case (find_series_scope f, find_series_metric f) of
     (Some s, Some m) \<Rightarrow> if s \<noteq> [] \<and> m \<noteq> [] then Some (s, m) else None
   | _ \<Rightarrow> None)"

definition ref_text :: "jstring \<times> jstring \<Rightarrow> jstring" where
  "ref_text r = fst r @ [124] @ snd r"

text \<open>The set of references, sorted, which makes the order of insertion irrelevant; cut and joined.\<close>

definition finding_refs :: "attention_finding list \<Rightarrow> jstring list" where
  "finding_refs findings =
     take MAX_FINDING_SPECS (js_sort cmp3 (remdups (map ref_text (List.map_filter series_ref findings))))"

definition findingKey :: "attention_finding list \<Rightarrow> jstring" where
  "findingKey findings = join [44] (finding_refs findings)"

definition ref_spec :: "jstring \<Rightarrow> series_spec option" where
  "ref_spec ref = (case split_unit 124 ref of scope # metric # _ \<Rightarrow> Some (spark_spec scope metric) | _ \<Rightarrow> None)"

definition batch_specs :: "jstring \<Rightarrow> series_spec list" where
  "batch_specs key = KPI_SPECS @ List.map_filter ref_spec (if key = [] then [] else split_unit 44 key)"

text \<open>\<open>fl_polled\<close> is the key the interval runs with, \<open>fl_out\<close> the keys of the batches in flight.\<close>

record fleet_series =
  fl_series :: "jstring \<Rightarrow> series_response option"
  fl_markers :: "deploy_marker list"
  fl_polled :: "jstring option"
  fl_out :: "jstring list"

definition fleet_series_init :: fleet_series where
  "fleet_series_init = \<lparr>fl_series = Map.empty, fl_markers = [], fl_polled = None, fl_out = []\<rparr>"

definition series_table :: "series_response list \<Rightarrow> jstring \<Rightarrow> series_response option" where
  "series_table rs = foldl (\<lambda>t r. t(seriesKeyOf (sers_scope r) (sers_metric r) (sers_window r) \<mapsto> r)) Map.empty rs"

definition refresh_series :: "fleet_series \<Rightarrow> fleet_series" where
  "refresh_series s = (case fl_polled s of None \<Rightarrow> s | Some k \<Rightarrow> s\<lparr>fl_out := fl_out s @ [k]\<rparr>)"

text \<open>The effect of a commit whose rail has the given findings.\<close>

definition series_effect :: "attention_finding list \<Rightarrow> fleet_series \<Rightarrow> fleet_series" where
  "series_effect findings s =
     (let k = findingKey findings
      in if fl_polled s = Some k then s else refresh_series (s\<lparr>fl_polled := Some k\<rparr>))"

text \<open>Both requests have answered, or one has failed.\<close>

definition series_answered ::
  "jstring \<Rightarrow> (series_batch_response \<times> list_markers_response) option \<Rightarrow> fleet_series \<Rightarrow> fleet_series" where
  "series_answered k answer s =
     (let s = s\<lparr>fl_out := remove1 k (fl_out s)\<rparr>
      in case answer of
           Some (b, mk) \<Rightarrow> s\<lparr>fl_series := series_table (sbr_series b), fl_markers := lmr_markers mk\<rparr>
         | None \<Rightarrow> s)"

definition fleetSpark :: "fleet_series \<Rightarrow> string \<Rightarrow> series_response option" where
  "fleetSpark s metric = fl_series s (seriesKeyOf (js ''fleet'') (js metric) Window3h)"

definition sparkFor :: "fleet_series \<Rightarrow> attention_finding \<Rightarrow> series_response option" where
  "sparkFor s f = (case series_ref f of None \<Rightarrow> None | Some (scope, metric) \<Rightarrow> fl_series s (seriesKeyOf scope metric Window3h))"

definition pulse_of :: "fleet_series \<Rightarrow> series_response option" where
  "pulse_of s = fl_series s (seriesKeyOf (js ''fleet'') (js ''failed_delta'') Window24h)"

definition rate_of :: "fleet_series \<Rightarrow> string \<Rightarrow> bool \<Rightarrow> jstring option" where
  "rate_of s metric perHour = (case fleetSpark s metric of
     None \<Rightarrow> None
   | Some r \<Rightarrow> map_option (\<lambda>perMin.
       if perHour then formatRate (Some (Finite (dbl (perMin * 60)))) (js ''hr'')
       else formatRate (Some (Finite perMin)) (js ''min'')) (ratePerMinute (sers_points r)))"

subsection \<open>The tiles\<close>

record kpi_tile =
  kt_label :: jstring
  kt_value :: jstring
  kt_to :: jstring
  kt_badge :: "jstring option"
  kt_sub :: "jstring option"
  kt_spark :: "series_response option"
  kt_delta :: "jstring option"
  kt_gauge :: "rat option"

definition plain_tile :: "string \<Rightarrow> jstring \<Rightarrow> jstring \<Rightarrow> jstring \<Rightarrow> kpi_tile" where
  "plain_tile label value_text link sub_text =
     \<lparr>kt_label = js label, kt_value = value_text, kt_to = link, kt_badge = None, kt_sub = Some sub_text, kt_spark = None,
      kt_delta = None, kt_gauge = None\<rparr>"

text \<open>The colour and the width, in percent, of a gauge.\<close>

definition gauge_class :: "rat \<Rightarrow> jstring" where
  "gauge_class g =
     (if g \<ge> dbl (9 / 10) then js ''bg-[var(--fc-crit)]''
      else if g \<ge> 3 / 4 then js ''bg-[var(--fc-warn)]'' else js ''bg-[var(--fc-acc)]'')"

definition gauge_width :: "rat \<Rightarrow> rat" where
  "gauge_width g = min 100 (max 0 (dbl (g * 100)))"

definition busyPct :: "fleet_stats \<Rightarrow> int" where
  "busyPct F =
     (if fs_workers_total F > 0
      then math_round (dbl (dbl (of_int (fs_workers_busy F) / of_int (fs_workers_total F)) * 100)) else 0)"

definition tasks_in :: "jstring \<Rightarrow> string \<Rightarrow> jstring" where
  "tasks_in rootp st = p_TASKS (paths rootp) @ js ''?state='' @ js st"

definition kpi_tiles :: "(int \<Rightarrow> jstring) \<Rightarrow> jstring \<Rightarrow> fleet_stats \<Rightarrow> fleet_series \<Rightarrow> kpi_tile list" where
  "kpi_tiles prettyBytes rootp F s =
     (let memMax = fs_redis_memory_max_bytes F; memUsed = fs_redis_memory_used_bytes F
      in [(plain_tile ''pending'' (fmt_int (fs_pending F)) (p_TASKS (paths rootp)) [])
            \<lparr>kt_spark := fleetSpark s ''pending'', kt_delta := rate_of s ''pending'' False\<rparr>,
          (plain_tile ''active'' (fmt_int (fs_active F)) (tasks_in rootp ''active'')
            (js ''of '' @ fmt_int (fs_workers_total F) @ js '' slots''))
            \<lparr>kt_badge := (if fs_orphan_candidates F > 0 then Some (js ''orphans '' @ fmt_int (fs_orphan_candidates F)) else None),
             kt_spark := fleetSpark s ''active''\<rparr>,
          (plain_tile ''retry'' (fmt_int (fs_retry F)) (tasks_in rootp ''retry'') [])
            \<lparr>kt_spark := fleetSpark s ''retry'', kt_delta := rate_of s ''retry'' False\<rparr>,
          (plain_tile ''archived'' (fmt_int (fs_archived F)) (tasks_in rootp ''archived'')
            (fmt_int (fs_failed_today F) @ js '' failed today '' @ [183, 32] @ formatErrorRate (Some (Finite (fs_error_rate F)))))
            \<lparr>kt_spark := fleetSpark s ''archived'', kt_delta := rate_of s ''archived'' True\<rparr>,
          plain_tile ''completed'' (fmt_int (fs_completed F)) (tasks_in rootp ''completed'')
            (fmt_int (fs_processed_today F) @ js '' processed today''),
          plain_tile ''scheduled'' (fmt_int (fs_scheduled F)) (tasks_in rootp ''scheduled'')
            (if fs_past_due_scheduled F > 0 then js ''past-due: '' @ fmt_int (fs_past_due_scheduled F) else js ''none past-due''),
          plain_tile ''workers'' (fmt_int (fs_servers F) @ js '' srv'') (p_SERVERS (paths rootp))
            (fmt_int (fs_workers_total F) @ js '' slots '' @ [183, 32] @ js_of_int (busyPct F) @ js ''% busy''),
          plain_tile ''queues'' (fmt_int (fs_queues_total F)) (p_QUEUES (paths rootp))
            (fmt_int (fs_paused_queues F) @ js '' paused '' @ [183, 32] @ fmt_int (fs_zero_consumer_queues F) @ js '' zero-consumer''),
          (plain_tile ''redis''
            (if memMax > 0 then prettyBytes memUsed @ js '' / '' @ prettyBytes memMax else prettyBytes memUsed)
            (p_REDIS (paths rootp)) [])
            \<lparr>kt_sub := (if memMax > 0 then None else Some (js ''no maxmemory limit'')),
             kt_gauge := (if memMax > 0 then Some (dbl (of_int memUsed / of_int memMax)) else None)\<rparr>])"

subsection \<open>The rail\<close>

record finding_row =
  fnr_stripe :: jstring
  fnr_tone :: tone
  fnr_chips :: "jstring list"
  fnr_spark :: "series_response option"
  fnr_sparkTone :: tone
  fnr_value :: jstring
  fnr_since :: jstring
  fnr_to :: "jstring option"

definition finding_row_of :: "(jstring \<Rightarrow> int option) \<Rightarrow> int \<Rightarrow> jstring \<Rightarrow> fleet_series \<Rightarrow> attention_finding \<Rightarrow> finding_row" where
  "finding_row_of date_parse now rootp s f =
     (let t = severityTone (find_severity f)
      in \<lparr>fnr_stripe = (case SEV_STRIPE t of Some c \<Rightarrow> c | None \<Rightarrow> the (SEV_STRIPE Info)), fnr_tone = t,
          fnr_chips = find_chips f, fnr_spark = sparkFor s f,
          fnr_sparkTone = (if t = Crit then Crit else if t = Warn then Warn else Mut),
          fnr_value = formatFindingValue (find_detector f) (Finite (of_int (find_value f))),
          fnr_since = js ''since '' @ timeAgo date_parse now (find_since f),
          fnr_to = attentionFindingPath rootp (find_suggested_query f)\<rparr>)"

definition learning_chip :: "(jstring \<Rightarrow> int option) \<Rightarrow> int \<Rightarrow> learning_detector \<Rightarrow> jstring option" where
  "learning_chip date_parse now l =
     (let remaining = learningRemaining date_parse (Some (ld_until l)) now
      in if remaining = [] then None
         else Some (List.map (\<lambda>c. if c = 95 then 32 else c) (ld_detector l) @ [32, 183, 32] @ js ''learning '' @ [8212] @
                    js '' active in '' @ remaining))"

definition learning_badges :: "(jstring \<Rightarrow> int option) \<Rightarrow> int \<Rightarrow> learning_detector list option \<Rightarrow> jstring list" where
  "learning_badges date_parse now learning =
     (case learning of None \<Rightarrow> [] | Some ls \<Rightarrow> List.map_filter (learning_chip date_parse now) ls)"

definition detectors_live_text :: "fleet_attention_response \<Rightarrow> jstring" where
  "detectors_live_text a = js_of_int (far_detectors_live a) @ js '' detectors live''"

definition detectors_text :: "fleet_attention_response \<Rightarrow> jstring" where
  "detectors_text a = detectors_live_text a @
     (if far_detectors_learning a > 0 then [32, 183, 32] @ js_of_int (far_detectors_learning a) @ js '' learning'' else [])"

text \<open>The line under the all-healthy sentence.\<close>

definition quiet_text :: "(jstring \<Rightarrow> int option) \<Rightarrow> int \<Rightarrow> fleet_attention_response \<Rightarrow> jstring" where
  "quiet_text date_parse now a = (case far_learning a of
     Some (l # ls) \<Rightarrow>
       if far_detectors_learning a > 0
       then detectors_text a @ js '' ('' @
         join (js '', '') (filter (\<lambda>t. t \<noteq> []) (map (\<lambda>d. learningRemaining date_parse (Some (ld_until d)) now) (l # ls))) @
         js '' remaining)''
       else detectors_text a
   | _ \<Rightarrow> detectors_text a)"

datatype rail_body = RailUnavailable | RailHealthy jstring jstring | RailRows "finding_row list"

definition rail_of :: "(jstring \<Rightarrow> int option) \<Rightarrow> int \<Rightarrow> jstring \<Rightarrow> fleet_stats \<Rightarrow> fleet_series \<Rightarrow>
    fleet_attention_response option \<Rightarrow> rail_body" where
  "rail_of date_parse now rootp F s attention = (case attention of
     None \<Rightarrow> RailUnavailable
   | Some a \<Rightarrow>
       if far_findings a = []
       then RailHealthy (js ''All healthy '' @ [8212, 32] @ fmt_int (fs_queues_total F) @ js '' queues quiet.'') (quiet_text date_parse now a)
       else RailRows (map (finding_row_of date_parse now rootp s) (far_findings a)))"

subsection \<open>Freshness\<close>

definition fleet_stale :: "int \<Rightarrow> int \<Rightarrow> bool" where
  "fleet_stale now updatedAt \<longleftrightarrow> updatedAt > 0 \<and> now - updatedAt > STALE_FLEET_MS"

definition stale_text :: "int \<Rightarrow> int \<Rightarrow> jstring" where
  "stale_text now updatedAt = js ''Overview data is '' @ js_of_int (math_round (dbl (of_int (now - updatedAt) / 1000))) @ js ''s stale''"

definition coverage_stamp :: "int \<Rightarrow> fleet_overview_response \<Rightarrow> fleet_view \<Rightarrow> jstring" where
  "coverage_stamp now ov v =
     js ''totals cover '' @ js_of_int (fc_refreshed_pct_5m (for_coverage ov)) @ js ''% of queues refreshed <5m '' @
     [183] @ js '' tier '' @ js_of_int (fc_tier (for_coverage ov)) @ [32, 183] @ js '' processed today '' @
     fmt_int (fs_processed_today (for_fleet ov)) @ [32, 183, 32] @
     (if fv_source v = Sse then js ''live stream'' else js ''polling'') @ [32, 183] @ js '' updated '' @
     (if fv_updatedAt v > 0 then js_of_int (max 0 (math_round (dbl (of_int (now - fv_updatedAt v) / 1000)))) @ js ''s ago''
      else js ''never'')"

datatype fleet_body = FleetUnavailable jstring | FleetWaiting
  | FleetShown "jstring option" "kpi_tile list" jstring rail_body

definition fleet_body_of ::
  "(jstring \<Rightarrow> int option) \<Rightarrow> (int \<Rightarrow> jstring) \<Rightarrow> int \<Rightarrow> jstring \<Rightarrow> fleet_view \<Rightarrow> fleet_series \<Rightarrow> fleet_body" where
  "fleet_body_of date_parse prettyBytes now rootp v s = (case fv_overview v of
     None \<Rightarrow> if fv_error v \<noteq> [] then FleetUnavailable (fv_error v) else FleetWaiting
   | Some ov \<Rightarrow>
       FleetShown (if fleet_stale now (fv_updatedAt v) then Some (stale_text now (fv_updatedAt v)) else None)
         (kpi_tiles prettyBytes rootp (for_fleet ov) s) (coverage_stamp now ov v)
         (rail_of date_parse now rootp (for_fleet ov) s (fv_attention v)))"

subsection \<open>The marker button\<close>

text \<open>\<open>am_out\<close> are the markers being created.\<close>

record add_marker =
  am_open :: bool
  am_label :: jstring
  am_busy :: bool
  am_out :: "jstring list"

definition add_marker_init :: add_marker where
  "add_marker_init = \<lparr>am_open = False, am_label = [], am_busy = False, am_out = []\<rparr>"

definition open_marker :: "bool \<Rightarrow> add_marker \<Rightarrow> add_marker" where
  "open_marker readOnly m = (if readOnly then m else m\<lparr>am_open := True\<rparr>)"

definition type_label :: "jstring \<Rightarrow> add_marker \<Rightarrow> add_marker" where
  "type_label t m = (if am_open m then m\<lparr>am_label := t\<rparr> else m)"

definition escape_marker :: "add_marker \<Rightarrow> add_marker" where
  "escape_marker m = m\<lparr>am_open := False\<rparr>"

definition submit_marker :: "add_marker \<Rightarrow> add_marker" where
  "submit_marker m =
     (if \<not> am_open m \<or> trim (am_label m) = [] \<or> am_busy m then m
      else m\<lparr>am_busy := True, am_out := am_out m @ [trim (am_label m)]\<rparr>)"

text \<open>The answer to a creation, with the series, which \<open>onCreated\<close> refreshes.\<close>

definition marker_answered :: "jstring \<Rightarrow> bool \<Rightarrow> add_marker \<times> fleet_series \<Rightarrow> add_marker \<times> fleet_series" where
  "marker_answered label created ms =
     (let m = (fst ms)\<lparr>am_out := remove1 label (am_out (fst ms)), am_busy := False\<rparr>
      in if created then (m\<lparr>am_label := [], am_open := False\<rparr>, refresh_series (snd ms)) else (m, snd ms))"

subsection \<open>The failure pulse\<close>

record failure_pulse =
  fp_sigs :: "error_signature_row list option"
  fp_trimmed :: nat
  fp_out :: nat

definition failure_pulse_init :: failure_pulse where
  "failure_pulse_init = \<lparr>fp_sigs = None, fp_trimmed = 0, fp_out = 0\<rparr>"

definition sigs_call :: "api_env \<Rightarrow> (jstring \<Rightarrow> int option \<times> jstring option \<Rightarrow> jstring) \<Rightarrow> unit api_call option" where
  "sigs_call env stringifyUrl = listErrorSignatures env stringifyUrl (Some 5, Some (js ''count''))"

definition fetch_sigs :: "failure_pulse \<Rightarrow> failure_pulse" where
  "fetch_sigs p = p\<lparr>fp_out := fp_out p + 1\<rparr>"

definition sigs_answered :: "list_error_signatures_response option \<Rightarrow> failure_pulse \<Rightarrow> failure_pulse" where
  "sigs_answered answer p =
     (let p = p\<lparr>fp_out := fp_out p - 1\<rparr>
      in case answer of
           Some r \<Rightarrow> p\<lparr>fp_sigs := Some (lesr_signatures r), fp_trimmed := length (esh_trimmed_queues (lesr_honesty r))\<rparr>
         | None \<Rightarrow> p\<lparr>fp_sigs := None\<rparr>)"

definition trimmed_text :: "failure_pulse \<Rightarrow> jstring option" where
  "trimmed_text p =
     (if fp_trimmed p > 0
      then Some (js ''lower bounds '' @ [8212, 32] @ js_of_nat (fp_trimmed p) @ js '' queue'' @
                 (if fp_trimmed p > 1 then js ''s'' else []) @ js '' at archive cap'')
      else None)"

record sig_link =
  sgl_tone :: tone
  sgl_trend :: jstring
  sgl_template :: jstring
  sgl_count :: jstring
  sgl_to :: "jstring option"

datatype sig_strip = NoSignatures | SigLinks "sig_link list"

definition sig_link_of :: "jstring \<Rightarrow> error_signature_row \<Rightarrow> sig_link" where
  "sig_link_of rootp r =
     \<lparr>sgl_tone = trendTone (esr_trend r), sgl_trend = esr_trend r, sgl_template = esr_template r,
      sgl_count = formatSigCount (Finite (of_int (esr_count r))) (esr_count_is_lower_bound r),
      sgl_to = map_option (\<lambda>u. p_ERRORS (paths rootp) @ js ''?sig='' @ u) (seg (esr_sig r))\<rparr>"

definition sig_strip_of :: "jstring \<Rightarrow> failure_pulse \<Rightarrow> sig_strip" where
  "sig_strip_of rootp p = (case fp_sigs p of
     Some (r # rs) \<Rightarrow> SigLinks (map (sig_link_of rootp) (r # rs))
   | _ \<Rightarrow> NoSignatures)"

text \<open>The title of a bar and the count under the chart.\<close>

definition bar_title :: "(int \<Rightarrow> jstring) \<Rightarrow> series_point \<Rightarrow> jstring" where
  "bar_title hourFmt p =
     locale_number (case sp_v p of Some v \<Rightarrow> v | None \<Rightarrow> 0) @ js '' failed '' @ [183] @ js '' hour of '' @ hourFmt (sp_t p)"

definition markers_text :: "deploy_marker list \<Rightarrow> jstring" where
  "markers_text ms =
     (if ms = [] then []
      else js_of_nat (length ms) @ js '' deploy marker'' @ (if length ms > 1 then js ''s'' else []) @ [32, 183, 32])"

subsection \<open>Keys and batches\<close>

text \<open>A reference that the joins can take apart again.\<close>

definition clean_ref :: "jstring \<times> jstring \<Rightarrow> bool" where
  "clean_ref r \<longleftrightarrow> {44, 124} \<inter> (set (fst r) \<union> set (snd r)) = {}"

lemma window_name_clean: "44 \<notin> set (window_name w)" "124 \<notin> set (window_name w)"
  by (cases w; simp add: js_def)+

lemma window_name_inj: "window_name v = window_name w \<longleftrightarrow> v = w"
  by (cases v; cases w) simp_all

lemma seriesKeyOf_eq:
  assumes "124 \<notin> set s" "124 \<notin> set m" "seriesKeyOf s' m' w' = seriesKeyOf s m w"
  shows "s' = s \<and> m' = m \<and> w' = w"
proof -
  have "count_list (seriesKeyOf s' m' w') 124 = 2"
    unfolding assms(3) using assms(1,2) by (simp add: seriesKeyOf_def window_name_clean)
  then have "count_list s' 124 = 0" "count_list m' 124 = 0" by (simp_all add: seriesKeyOf_def)
  then have "124 \<notin> set s'" "124 \<notin> set m'" by (simp_all add: count_list_0_iff)
  then have "split_unit 124 (seriesKeyOf s' m' w') = [s', m', window_name w']"
    by (simp add: seriesKeyOf_def split_unit_append split_unit_single window_name_clean)
  moreover have "split_unit 124 (seriesKeyOf s m w) = [s, m, window_name w]"
    using assms(1,2) by (simp add: seriesKeyOf_def split_unit_append split_unit_single window_name_clean)
  ultimately have "[s', m', window_name w'] = [s, m, window_name w]" unfolding assms(3) by (rule trans [OF sym])
  then show ?thesis by (simp add: window_name_inj)
qed

abbreviation response_key :: "series_response \<Rightarrow> jstring" where
  "response_key r \<equiv> seriesKeyOf (sers_scope r) (sers_metric r) (sers_window r)"

lemma series_table_Some: "series_table rs k = Some r \<Longrightarrow> r \<in> set rs \<and> response_key r = k"
  unfolding series_table_def by (induction rs rule: rev_induct) (auto split: if_splits)

lemma series_table_None: "series_table rs k = None \<longleftrightarrow> k \<notin> response_key ` set rs"
  unfolding series_table_def by (induction rs rule: rev_induct) auto

lemma map_filter_all: "\<forall>x \<in> set xs. f x = Some (g x) \<Longrightarrow> List.map_filter f xs = map g xs"
  by (induction xs) (simp_all add: List.map_filter_simps)

lemma ref_spec_text: "clean_ref r \<Longrightarrow> ref_spec (ref_text r) = Some (spark_spec (fst r) (snd r))"
  by (simp add: ref_spec_def ref_text_def clean_ref_def split_unit_append split_unit_single)

lemma finding_refs_sub: "set (finding_refs fs) \<subseteq> ref_text ` (set (List.map_filter series_ref fs))"
  by (auto simp: finding_refs_def dest!: in_set_takeD)

lemma split_findingKey:
  assumes "\<forall>r \<in> set (finding_refs fs). 44 \<notin> set r \<and> r \<noteq> []"
  shows "(if findingKey fs = [] then [] else split_unit 44 (findingKey fs)) = finding_refs fs"
proof (cases "finding_refs fs")
  case Nil
  then show ?thesis by (simp add: findingKey_def)
next
  case (Cons r rs)
  then have "findingKey fs \<noteq> []" using assms by (cases rs) (simp_all add: findingKey_def join_Cons)
  moreover have "split_unit 44 (findingKey fs) = finding_refs fs"
    unfolding findingKey_def using assms Cons by (intro split_unit_join) auto
  ultimately show ?thesis by simp
qed

lemma batch_specs_refs:
  assumes "\<forall>r \<in> set (List.map_filter series_ref fs). clean_ref r"
  shows "batch_specs (findingKey fs) = KPI_SPECS @ map (\<lambda>t. the (ref_spec t)) (finding_refs fs)"
proof -
  have clean: "\<exists>r \<in> set (List.map_filter series_ref fs). t = ref_text r \<and> clean_ref r" if "t \<in> set (finding_refs fs)" for t
    using that finding_refs_sub [of fs] assms by blast
  have "44 \<notin> set t \<and> t \<noteq> []" if "t \<in> set (finding_refs fs)" for t
    using clean [OF that] by (auto simp: ref_text_def clean_ref_def)
  then have "batch_specs (findingKey fs) = KPI_SPECS @ List.map_filter ref_spec (finding_refs fs)"
    using split_findingKey [of fs] by (simp add: batch_specs_def)
  moreover have "\<forall>t \<in> set (finding_refs fs). ref_spec t = Some (the (ref_spec t))"
    using clean ref_spec_text by fastforce
  ultimately show ?thesis using map_filter_all by metis
qed

lemma finding_refs_all:
  assumes "card (set (List.map_filter series_ref fs)) \<le> MAX_FINDING_SPECS"
  shows "set (finding_refs fs) = ref_text ` set (List.map_filter series_ref fs)"
proof -
  let ?ts = "remdups (map ref_text (List.map_filter series_ref fs))"
  have "length ?ts = card (ref_text ` set (List.map_filter series_ref fs))" by (simp add: length_remdups_card_conv)
  also have "\<dots> \<le> MAX_FINDING_SPECS" using assms card_image_le [OF finite_set] le_trans by blast
  finally show ?thesis by (simp add: finding_refs_def)
qed

lemma length_KPI_SPECS: "length KPI_SPECS = 5"
  by (simp add: KPI_SPECS_def)

lemma fleet_asked:
  assumes "\<forall>r \<in> set (List.map_filter series_ref fs). clean_ref r"
    and "card (set (List.map_filter series_ref fs)) \<le> MAX_FINDING_SPECS" "r \<in> set (List.map_filter series_ref fs)"
  shows "spark_spec (fst r) (snd r) \<in> set (batch_specs (findingKey fs))"
proof -
  have "ref_text r \<in> set (finding_refs fs)" using finding_refs_all [OF assms(2)] assms(3) by simp
  moreover have "the (ref_spec (ref_text r)) = spark_spec (fst r) (snd r)" using ref_spec_text assms(1,3) by simp
  ultimately show ?thesis unfolding batch_specs_refs [OF assms(1)] by force
qed

text \<open>
  The batch carries the five series of the tiles and then those of the rail; for names the joins can take apart it stays
  within the sixty the server accepts and each series of the rail is asked for, when they are few enough.
\<close>

theorem fleet_batch_fits:
  assumes "\<forall>r \<in> set (List.map_filter series_ref fs). clean_ref r"
  shows "take 5 (batch_specs (findingKey fs)) = KPI_SPECS \<and> length (batch_specs (findingKey fs)) \<le> 60 \<and>
    (card (set (List.map_filter series_ref fs)) \<le> MAX_FINDING_SPECS \<longrightarrow>
       (\<forall>r \<in> set (List.map_filter series_ref fs). spark_spec (fst r) (snd r) \<in> set (batch_specs (findingKey fs))))"
proof -
  have "length (finding_refs fs) \<le> 55" by (simp add: finding_refs_def MAX_FINDING_SPECS_def length_KPI_SPECS)
  then show ?thesis using fleet_asked [OF assms] by (simp add: batch_specs_refs [OF assms] length_KPI_SPECS)
qed

subsection \<open>Sparks belong to their findings\<close>

lemma batch_specs_3h:
  assumes "sp \<in> set (batch_specs k)" "sspec_window sp = Window3h"
  shows "sp = spark_spec (sspec_scope sp) (sspec_metric sp)"
proof -
  have ref: "q = spark_spec (sspec_scope q) (sspec_metric q)" if "ref_spec t = Some q" for t q
    using that by (auto simp: ref_spec_def spark_spec_def split: list.splits)
  have "sp \<in> set KPI_SPECS \<or> (\<exists>t. ref_spec t = Some sp)"
    using assms(1) by (auto simp: batch_specs_def List.map_filter_def)
  then show ?thesis using ref assms(2) by (auto simp: KPI_SPECS_def spark_spec_def)
qed

text \<open>What a server promises of a series it is asked for.\<close>

definition serves :: "(series_spec \<Rightarrow> series_response) \<Rightarrow> bool" where
  "serves serve \<longleftrightarrow> (\<forall>sp. sers_scope (serve sp) = sspec_scope sp \<and> sers_metric (serve sp) = sspec_metric sp \<and>
     sers_window (serve sp) = sspec_window sp)"

definition batch_of :: "(series_spec \<Rightarrow> series_response) \<Rightarrow> jstring \<Rightarrow> series_batch_response" where
  "batch_of serve k = \<lparr>sbr_series = map serve (batch_specs k)\<rparr>"

lemma spark_of_batch:
  assumes "serves serve" "series_ref f = Some (sc, m)" "clean_ref (sc, m)"
  shows "sparkFor (series_answered k (Some (batch_of serve k, mk)) s) f =
    (if spark_spec sc m \<in> set (batch_specs k) then Some (serve (spark_spec sc m)) else None)"
proof -
  let ?t = "series_table (map serve (batch_specs k)) (seriesKeyOf sc m Window3h)"
  have key: "response_key (serve sp) = seriesKeyOf (sspec_scope sp) (sspec_metric sp) (sspec_window sp)" for sp
    using assms(1) by (simp add: serves_def)
  have same: "sp = spark_spec sc m" if "sp \<in> set (batch_specs k)" "response_key (serve sp) = seriesKeyOf sc m Window3h" for sp
    using seriesKeyOf_eq [of sc m, OF _ _ that(2) [unfolded key]] batch_specs_3h [OF that(1)] assms(3)
    by (auto simp: clean_ref_def)
  have "?t = (if spark_spec sc m \<in> set (batch_specs k) then Some (serve (spark_spec sc m)) else None)"
  proof (cases ?t)
    case None
    have "response_key (serve (spark_spec sc m)) = seriesKeyOf sc m Window3h" unfolding key by (simp add: spark_spec_def)
    moreover have "response_key (serve (spark_spec sc m)) \<in> response_key ` set (map serve (batch_specs k))"
      if "spark_spec sc m \<in> set (batch_specs k)"
      using that by (intro imageI) simp
    ultimately have "spark_spec sc m \<notin> set (batch_specs k)" using None [unfolded series_table_None] by argo
    then show ?thesis using None by simp
  next
    case (Some r)
    then obtain sp where sp: "sp \<in> set (batch_specs k)" "r = serve sp" "response_key r = seriesKeyOf sc m Window3h"
      using series_table_Some [OF Some] by auto
    then have "sp = spark_spec sc m" using same by blast
    then show ?thesis using Some sp by simp
  qed
  then show ?thesis using assms(2) by (simp add: sparkFor_def series_answered_def batch_of_def)
qed

text \<open>C26. When the scopes and metrics the findings name have neither comma nor bar and are at most \<open>MAX_FINDING_SPECS\<close> (55)
  distinct ones, and the server serves every reference it is asked for, then once the batch of the rail has been
  answered every finding shows the series it names, and one that names none shows none.\<close>

theorem rail_sparks_shown:
  assumes "serves serve" "\<forall>r \<in> set (List.map_filter series_ref fs). clean_ref r"
    and "card (set (List.map_filter series_ref fs)) \<le> MAX_FINDING_SPECS"
  shows "\<forall>f \<in> set fs. sparkFor (series_answered (findingKey fs) (Some (batch_of serve (findingKey fs), mk)) s) f =
    map_option (\<lambda>r. serve (spark_spec (fst r) (snd r))) (series_ref f)"
proof
  fix f
  assume f: "f \<in> set fs"
  show "sparkFor (series_answered (findingKey fs) (Some (batch_of serve (findingKey fs), mk)) s) f =
    map_option (\<lambda>r. serve (spark_spec (fst r) (snd r))) (series_ref f)"
  proof (cases "series_ref f")
    case None
    then show ?thesis by (simp add: sparkFor_def)
  next
    case (Some r)
    then have r: "r \<in> set (List.map_filter series_ref fs)" using f by (force simp: List.map_filter_def)
    then have "spark_spec (fst r) (snd r) \<in> set (batch_specs (findingKey fs))" using fleet_asked [OF assms(2,3)] by blast
    moreover have "series_ref f = Some (fst r, snd r)" "clean_ref (fst r, snd r)" using Some assms(2) r by simp_all
    ultimately show ?thesis using spark_of_batch [OF assms(1), of f "fst r" "snd r"] Some by simp
  qed
qed

subsection \<open>What a run of the screen keeps\<close>

text \<open>Runs of the series hook, with a server that answers each batch with what it publishes.\<close>

inductive series_run :: "(series_response \<Rightarrow> bool) \<Rightarrow> fleet_series \<Rightarrow> bool" for published where
  run_start: "series_run published fleet_series_init"
| run_commit: "series_run published s \<Longrightarrow> series_run published (series_effect fs s)"
| run_refresh: "series_run published s \<Longrightarrow> series_run published (refresh_series s)"
| run_answer: "series_run published s \<Longrightarrow> k \<in> set (fl_out s) \<Longrightarrow>
    (\<forall>b mk. answer = Some (b, mk) \<longrightarrow> (\<forall>r \<in> set (sbr_series b). published r)) \<Longrightarrow>
    series_run published (series_answered k answer s)"

definition series_ok :: "(series_response \<Rightarrow> bool) \<Rightarrow> fleet_series \<Rightarrow> bool" where
  "series_ok published s \<longleftrightarrow> (\<forall>k r. fl_series s k = Some r \<longrightarrow> response_key r = k \<and> published r)"

lemma refresh_keeps: "fl_series (refresh_series s) = fl_series s" "fl_markers (refresh_series s) = fl_markers s"
  by (simp_all add: refresh_series_def split: option.split)

lemma series_run_ok: "series_run published s \<Longrightarrow> series_ok published s"
proof (induction rule: series_run.induct)
  case (run_answer s k answer)
  then show ?case
    by (cases answer) (auto simp: series_ok_def series_answered_def dest!: series_table_Some)
qed (simp_all add: series_ok_def fleet_series_init_def series_effect_def refresh_keeps Let_def)

text \<open>A trend the rail shows is one the server published for the very series the finding names; none is made up.\<close>

theorem sparks_are_published:
  assumes "series_run published s" "series_ref f = Some (sc, m)" "clean_ref (sc, m)" "sparkFor s f = Some r"
  shows "published r \<and> sers_scope r = sc \<and> sers_metric r = m \<and> sers_window r = Window3h"
proof -
  have "response_key r = seriesKeyOf sc m Window3h" "published r"
    using series_run_ok [OF assms(1)] assms(2,4) by (simp_all add: series_ok_def sparkFor_def)
  then show ?thesis using seriesKeyOf_eq [of sc m] assms(3) by (simp add: clean_ref_def)
qed

text \<open>A failed refresh changes nothing that is shown.\<close>

lemma failed_refresh_keeps:
  "fl_series (series_answered k None s) = fl_series s" "fl_markers (series_answered k None s) = fl_markers s"
  by (simp_all add: series_answered_def)

subsection \<open>One marker at a time\<close>

inductive marker_run :: "bool \<Rightarrow> add_marker \<Rightarrow> bool" for readOnly where
  mk_start: "marker_run readOnly add_marker_init"
| mk_open: "marker_run readOnly m \<Longrightarrow> marker_run readOnly (open_marker readOnly m)"
| mk_type: "marker_run readOnly m \<Longrightarrow> marker_run readOnly (type_label t m)"
| mk_escape: "marker_run readOnly m \<Longrightarrow> marker_run readOnly (escape_marker m)"
| mk_submit: "marker_run readOnly m \<Longrightarrow> marker_run readOnly (submit_marker m)"
| mk_answer: "marker_run readOnly m \<Longrightarrow> l \<in> set (am_out m) \<Longrightarrow> marker_run readOnly (fst (marker_answered l ok (m, s)))"

text \<open>
  However the button is used, at most one creation is on its way, its label is not blank, and none is ever sent in
  read-only mode; a creation that fails leaves the text in place.
\<close>

theorem one_marker_at_a_time:
  assumes "marker_run readOnly m"
  shows "length (am_out m) \<le> 1 \<and> (am_busy m \<longleftrightarrow> am_out m \<noteq> []) \<and> (\<forall>l \<in> set (am_out m). l \<noteq> []) \<and>
    (readOnly \<longrightarrow> am_out m = [] \<and> \<not> am_open m) \<and>
    am_label (fst (marker_answered l False (m, s))) = am_label m \<and> am_open (fst (marker_answered l False (m, s))) = am_open m"
  using assms
proof (induction rule: marker_run.induct)
  case (mk_answer m k ok t)
  then obtain x where "am_out m = [x]" by (cases "am_out m") (auto simp: Suc_le_eq)
  with mk_answer show ?case by (auto simp: marker_answered_def Let_def)
qed (auto simp: add_marker_init_def open_marker_def type_label_def escape_marker_def submit_marker_def marker_answered_def Let_def)

subsection \<open>Where the screen falls short\<close>

text \<open>
  Nothing numbers the batches: one sent for an earlier rail that answers last takes away the trends of the findings that
  came since, until the next tick.
\<close>

lemma late_batch_drops_sparks:
  assumes "serves serve" "series_ref f = Some (sc, m)" "clean_ref (sc, m)" "spark_spec sc m \<notin> set (batch_specs old)"
  shows "sparkFor (series_answered old (Some (batch_of serve old, mk)) s) f = None"
  using spark_of_batch [OF assms(1-3)] assms(4) by simp

text \<open>
  A queue whose name holds a comma makes the batch ask for a scope that no series has, which the server answers with an
  error for the whole batch.
\<close>

definition comma_finding :: attention_finding where
  "comma_finding =
     \<lparr>find_queue = js ''a,b'', find_detector = js ''PENDING_AGE'', find_severity = 5, find_sentence = [], find_value = 1,
      find_chips = [], find_since = [], find_suggested_query = [], find_series_scope = Some (js ''queue:a,b''),
      find_series_metric = Some (js ''pending'')\<rparr>"

lemma comma_asks_nonsense:
  "batch_specs (findingKey [comma_finding]) = KPI_SPECS @ [spark_spec (js ''b'') (js ''pending'')]"
  by (simp add: batch_specs_def findingKey_def finding_refs_def List.map_filter_simps series_ref_def comma_finding_def
      js_sort_def ref_text_def MAX_FINDING_SPECS_def length_KPI_SPECS js_def ref_spec_def)

text \<open>
  When the request for the signatures fails the strip says that none are indexed, while the chip still counts the queues
  whose archive is trimmed.
\<close>

lemma failed_sigs_claim_none:
  "sig_strip_of rootp (sigs_answered None p) = NoSignatures \<and> trimmed_text (sigs_answered None p) = trimmed_text p"
  by (simp add: sig_strip_of_def sigs_answered_def trimmed_text_def)

subsection \<open>Samples\<close>

definition sample_finding :: attention_finding where
  "sample_finding = comma_finding\<lparr>find_queue := js ''mail'', find_series_scope := Some (js ''queue:mail'')\<rparr>"

definition sample_serve :: "series_spec \<Rightarrow> series_response" where
  "sample_serve sp =
     \<lparr>sers_scope = sspec_scope sp, sers_metric = sspec_metric sp, sers_window = sspec_window sp, sers_period = 30,
      sers_points = [], sers_learning_until = None\<rparr>"

lemma sample_refs:
  "List.map_filter series_ref [sample_finding] = [(js ''queue:mail'', js ''pending'')]"
  "clean_ref (js ''queue:mail'', js ''pending'')" "serves sample_serve"
  by (simp_all add: List.map_filter_simps series_ref_def sample_finding_def comma_finding_def clean_ref_def js_def
      serves_def sample_serve_def)

lemma fleet_batch_fits_witness:
  "length (batch_specs (findingKey [sample_finding])) \<le> 60 \<and>
   spark_spec (js ''queue:mail'') (js ''pending'') \<in> set (batch_specs (findingKey [sample_finding]))"
  using fleet_batch_fits [of "[sample_finding]", unfolded sample_refs(1)]
  by (simp add: sample_refs(2) MAX_FINDING_SPECS_def length_KPI_SPECS)

lemma rail_sparks_shown_witness:
  "sparkFor (series_answered (findingKey [sample_finding])
     (Some (batch_of sample_serve (findingKey [sample_finding]), \<lparr>lmr_markers = []\<rparr>)) fleet_series_init) sample_finding =
   Some (sample_serve (spark_spec (js ''queue:mail'') (js ''pending'')))"
proof -
  have "series_ref sample_finding = Some (js ''queue:mail'', js ''pending'')"
    by (simp add: series_ref_def sample_finding_def comma_finding_def)
  then show ?thesis
    using rail_sparks_shown [of sample_serve "[sample_finding]" "\<lparr>lmr_markers = []\<rparr>" fleet_series_init, unfolded sample_refs(1)]
    by (simp add: sample_refs(2,3) MAX_FINDING_SPECS_def length_KPI_SPECS)
qed

end
