(* ===== verification/WorkspaceView.thy ===== *)
theory WorkspaceView
  imports FetchViews Workspace Workers Endpoints BulkJob Paths Fleet Durations
begin

text \<open>
  The queue workspace: \<open>src/ui/src/views/TasksView.tsx\<close>, which keeps the state and fetches, and what it hands to
  \<open>components/workspace/\<close>: the health strip, the Attention tab and the rail. The route parameter is \<open>qv_queue\<close>: the
  component stays mounted when it changes. \<open>Promise.allSettled\<close> gives each part of an answer as an \<open>option\<close>, \<open>None\<close> for
  a rejection.
\<close>

subsection \<open>State\<close>

record bulk_target =
  bt_verb :: job_verb
  bt_state :: console_task_state
  bt_aql :: "jstring option"

text \<open>A request and the queue it was sent for; a core fetch remembers whether pausing waits for it.\<close>

datatype queue_flight =
    CoreFlight jstring bool
  | AttentionFlight jstring
  | SampleFlight jstring bool
  | LeverFlight jstring bool
  | DeleteFlight jstring

record queue_view =
  qv_queue :: jstring
  qv_url :: params
  qv_counts :: "(jstring \<times> int) list option"
  qv_fleetRow :: "fleet_queue_row option"
  qv_fleetUnavailable :: bool
  qv_fleetChecked :: bool
  qv_coverageRow :: "coverage_row option"
  qv_retryHist :: "retry_histogram_response option"
  qv_waitSample :: "pending_wait_sample_response option"
  qv_retryClusters :: "task_aggregate_response option"
  qv_archivedClusters :: "task_aggregate_response option"
  qv_clustersFailed :: bool
  qv_retryTasks :: "task_info list"
  qv_activeTasks :: "task_info list"
  qv_scheduledTasks :: "task_info list"
  qv_attentionLoaded :: bool
  qv_history :: "daily_stat list"
  qv_memoryBytes :: "int option"
  qv_memorySampledAt :: "int option"
  qv_memSampling :: bool
  qv_searchId :: jstring
  qv_queueMutating :: bool
  qv_confirmDeleteQueue :: bool
  qv_bulk :: "bulk_target option"
  qv_corePolled :: "jstring option"
  qv_attentionPolled :: "(jstring \<times> workspace_tab) option"
  qv_sampled :: "jstring option"
  qv_out :: "queue_flight list"
  qv_toasts :: "(bool \<times> jstring) list"
  qv_left :: bool

definition queue_view_init :: "jstring \<Rightarrow> params \<Rightarrow> queue_view" where
  "queue_view_init q ps =
     \<lparr>qv_queue = q, qv_url = ps, qv_counts = None, qv_fleetRow = None, qv_fleetUnavailable = False, qv_fleetChecked = False,
      qv_coverageRow = None, qv_retryHist = None, qv_waitSample = None, qv_retryClusters = None, qv_archivedClusters = None,
      qv_clustersFailed = False, qv_retryTasks = [], qv_activeTasks = [], qv_scheduledTasks = [], qv_attentionLoaded = False,
      qv_history = [], qv_memoryBytes = None, qv_memorySampledAt = None, qv_memSampling = False, qv_searchId = [],
      qv_queueMutating = False, qv_confirmDeleteQueue = False, qv_bulk = None, qv_corePolled = None,
      qv_attentionPolled = None, qv_sampled = None, qv_out = [], qv_toasts = [], qv_left = False\<rparr>"

definition qv_tab :: "queue_view \<Rightarrow> workspace_tab" where
  "qv_tab s = wp_tab (parseWorkspaceParams (qv_url s))"

definition qv_focus :: "queue_view \<Rightarrow> console_task_state option" where
  "qv_focus s = wp_focus (parseWorkspaceParams (qv_url s))"

definition send_flight :: "queue_flight \<Rightarrow> queue_view \<Rightarrow> queue_view" where
  "send_flight f s = s\<lparr>qv_out := qv_out s @ [f]\<rparr>"

definition ws_landed :: "queue_flight \<Rightarrow> queue_view \<Rightarrow> queue_view" where
  "ws_landed f s = s\<lparr>qv_out := remove1 f (qv_out s)\<rparr>"

subsection \<open>Fetching\<close>

definition error_groups_of :: "jstring \<Rightarrow> console_task_state \<Rightarrow> task_filter" where
  "error_groups_of q st = \<lparr>tf_queue = Some q, tf_state = state_text st, tf_q = None, tf_meta = []\<rparr>"

text \<open>The seven requests of \<open>fetchCore\<close>, and the three of \<open>fetchAttention\<close>.\<close>

definition core_calls ::
  "api_env \<Rightarrow> (jstring \<Rightarrow> fleet_queues_query \<Rightarrow> jstring) \<Rightarrow> jstring \<Rightarrow> unit api_call option list" where
  "core_calls env stringifyUrl q =
     [taskStateCounts env (Some q),
      listFleetQueues env stringifyUrl
        \<lparr>fqq_sort = None, fqq_dir = None, fqq_cursor = None, fqq_limit = None, fqq_f = Some (js ''name='' @ q)\<rparr>,
      getCoverage env, getRetryHistogram env q None None, getPendingWaitSample env q None,
      taskAggregate env (error_groups_of q Retry) ByError (Some 2000) (Some 8),
      taskAggregate env (error_groups_of q Archived) ByError (Some 2000) (Some 8)]"

definition attention_calls :: "api_env \<Rightarrow> jstring \<Rightarrow> http_request option list" where
  "attention_calls env q =
     [listRetryTasks env q (Some \<lparr>po_size = Some 20, po_page = Some 1\<rparr>),
      listActiveTasks env q (Some \<lparr>po_size = Some 100, po_page = Some 1\<rparr>),
      listScheduledTasks env q (Some \<lparr>po_size = Some 20, po_page = Some 1\<rparr>)]"

record core_answers =
  ca_counts :: "state_counts_response option"
  ca_fleet :: "fleet_queues_response option"
  ca_coverage :: "coverage_response option"
  ca_retryHist :: "retry_histogram_response option"
  ca_wait :: "pending_wait_sample_response option"
  ca_retryGroups :: "task_aggregate_response option"
  ca_archivedGroups :: "task_aggregate_response option"

definition core_settled :: "jstring \<Rightarrow> core_answers \<Rightarrow> queue_view \<Rightarrow> queue_view" where
  "core_settled q a s =
     s\<lparr>qv_counts := (case ca_counts a of Some c \<Rightarrow> Some (scr_counts c) | None \<Rightarrow> qv_counts s),
       qv_fleetRow := Option.bind (ca_fleet a) (\<lambda>r. List.find (\<lambda>x. fq_queue x = q) (fqr_queues r)),
       qv_fleetUnavailable := ca_fleet a = None, qv_fleetChecked := True,
       qv_coverageRow := Option.bind (ca_coverage a) (\<lambda>r. List.find (\<lambda>x. cov_queue x = q) (cr2_rows r)),
       qv_retryHist := ca_retryHist a, qv_waitSample := ca_wait a, qv_retryClusters := ca_retryGroups a,
       qv_archivedClusters := ca_archivedGroups a,
       qv_clustersFailed := (ca_retryGroups a = None \<and> ca_archivedGroups a = None)\<rparr>"

definition core_answered :: "jstring \<Rightarrow> bool \<Rightarrow> core_answers \<Rightarrow> queue_view \<Rightarrow> queue_view" where
  "core_answered q lever a s =
     (let s = core_settled q a (ws_landed (CoreFlight q lever) s)
      in if lever then s\<lparr>qv_queueMutating := False\<rparr> else s)"

definition fetchCore :: "queue_view \<Rightarrow> queue_view" where
  "fetchCore s = send_flight (CoreFlight (qv_queue s) False) s"

record attention_answers =
  aa_retry :: "list_tasks_response option"
  aa_active :: "list_tasks_response option"
  aa_scheduled :: "list_tasks_response option"

definition fetchAttention :: "queue_view \<Rightarrow> queue_view" where
  "fetchAttention s = (if qv_tab s \<noteq> TabAttention then s else send_flight (AttentionFlight (qv_queue s)) s)"

definition attention_answered :: "jstring \<Rightarrow> attention_answers \<Rightarrow> queue_view \<Rightarrow> queue_view" where
  "attention_answered q a s =
     (let s = ws_landed (AttentionFlight q) s
      in s\<lparr>qv_retryTasks := (case aa_retry a of Some r \<Rightarrow> lt_tasks r | None \<Rightarrow> qv_retryTasks s),
           qv_activeTasks := (case aa_active a of Some r \<Rightarrow> lt_tasks r | None \<Rightarrow> qv_activeTasks s),
           qv_scheduledTasks := (case aa_scheduled a of Some r \<Rightarrow> lt_tasks r | None \<Rightarrow> qv_scheduledTasks s),
           qv_attentionLoaded := True\<rparr>)"

definition sampleQueue :: "bool \<Rightarrow> queue_view \<Rightarrow> queue_view" where
  "sampleQueue manual s =
     send_flight (SampleFlight (qv_queue s) manual) (if manual then s\<lparr>qv_memSampling := True\<rparr> else s)"

definition sample_answered :: "jstring \<Rightarrow> bool \<Rightarrow> int \<Rightarrow> get_queue_response option \<Rightarrow> queue_view \<Rightarrow> queue_view" where
  "sample_answered q manual now answer s =
     (let s = ws_landed (SampleFlight q manual) s;
          s = (case answer of
            Some r \<Rightarrow> s\<lparr>qv_history := gqr_history r, qv_memoryBytes := Some (q_memory_usage_bytes (gqr_current r)),
                        qv_memorySampledAt := Some now\<rparr>
          | None \<Rightarrow> s)
      in if manual then s\<lparr>qv_memSampling := False\<rparr> else s)"

text \<open>The effects of a commit: both polls and the sample on arrival.\<close>

definition core_effect :: "queue_view \<Rightarrow> queue_view" where
  "core_effect s =
     (if qv_corePolled s = Some (qv_queue s) then s else fetchCore (s\<lparr>qv_corePolled := Some (qv_queue s)\<rparr>))"

definition attention_effect :: "queue_view \<Rightarrow> queue_view" where
  "attention_effect s =
     (let k = (qv_queue s, qv_tab s)
      in if qv_attentionPolled s = Some k then s else fetchAttention (s\<lparr>qv_attentionPolled := Some k\<rparr>))"

definition sample_effect :: "queue_view \<Rightarrow> queue_view" where
  "sample_effect s =
     (if qv_sampled s = Some (qv_queue s) then s
      else sampleQueue False
        (s\<lparr>qv_sampled := Some (qv_queue s), qv_history := [], qv_memoryBytes := None, qv_memorySampledAt := None\<rparr>))"

definition workspace_commit :: "queue_view \<Rightarrow> queue_view" where
  "workspace_commit s = sample_effect (attention_effect (core_effect s))"

subsection \<open>What is derived\<close>

definition qv_items :: "(jstring \<Rightarrow> int option) \<Rightarrow> int \<Rightarrow> queue_view \<Rightarrow> attention_item list" where
  "qv_items date_parse nowMs s =
     synthesizeAttention date_parse
       \<lparr>an_counts = qv_counts s, an_fleetRow = qv_fleetRow s, an_activeTasks = qv_activeTasks s,
        an_scheduledTasks = qv_scheduledTasks s, an_retryHistogram = qv_retryHist s, an_history = qv_history s,
        an_nowMs = nowMs, an_pendingAgeSloMs = None\<rparr>"

definition groups_or_none :: "task_aggregate_response option \<Rightarrow> (jstring \<times> int) list" where
  "groups_or_none r = (case r of Some a \<Rightarrow> tar_groups a | None \<Rightarrow> [])"

definition qv_clusters :: "queue_view \<Rightarrow> error_cluster list" where
  "qv_clusters s = mergeErrorClusters (groups_or_none (qv_retryClusters s)) (groups_or_none (qv_archivedClusters s)) 8"

definition clustersTruncated :: "queue_view \<Rightarrow> bool" where
  "clustersTruncated s \<longleftrightarrow>
     (\<exists>a. qv_retryClusters s = Some a \<and> tar_truncated a) \<or> (\<exists>a. qv_archivedClusters s = Some a \<and> tar_truncated a)"

definition clustersScanned :: "queue_view \<Rightarrow> int" where
  "clustersScanned s =
     (case qv_retryClusters s of Some a \<Rightarrow> tar_scanned a | None \<Rightarrow> 0) +
     (case qv_archivedClusters s of Some a \<Rightarrow> tar_scanned a | None \<Rightarrow> 0)"

definition qv_notFound :: "queue_view \<Rightarrow> bool" where
  "qv_notFound s \<longleftrightarrow> qv_fleetChecked s \<and> \<not> qv_fleetUnavailable s \<and> qv_fleetRow s = None \<and>
     (case qv_counts s of Some c \<Rightarrow> list_all (\<lambda>(k, n). n \<le> 0) c | None \<Rightarrow> False)"

definition count_label :: "queue_view \<Rightarrow> workspace_tab \<Rightarrow> jstring" where
  "count_label s t = (case t of
     TabAttention \<Rightarrow> []
   | TabState st \<Rightarrow> (case Option.bind (qv_counts s) (\<lambda>c. map_of c (state_text st)) of
       None \<Rightarrow> []
     | Some n \<Rightarrow> if n < 0 then DASH else locale_int n))"

definition TAB_LABELS :: "workspace_tab \<Rightarrow> jstring" where
  "TAB_LABELS t = (case t of TabAttention \<Rightarrow> [9873] @ js '' Attention'' | TabState st \<Rightarrow> state_text st)"

subsection \<open>Handlers\<close>

definition openTab :: "workspace_tab \<Rightarrow> queue_view \<Rightarrow> queue_view" where
  "openTab t s = s\<lparr>qv_url := serializeWorkspaceTab t (qv_url s)\<rparr>"

definition handleSearch :: "jstring \<Rightarrow> queue_view \<Rightarrow> jstring option" where
  "handleSearch rootp s =
     (if trim (qv_searchId s) \<noteq> [] then Some (taskDetailsPath rootp (qv_queue s) (trim (qv_searchId s))) else None)"

definition workspace_toast :: "jstring \<Rightarrow> string \<Rightarrow> jstring \<Rightarrow> axios_error option \<Rightarrow> bool \<times> jstring" where
  "workspace_toast q action_name done_text failure = (case failure of
     None \<Rightarrow> (True, js ''Queue '' @ q @ done_text)
   | Some e \<Rightarrow> (False, js ''Could not '' @ js action_name @ js '' '' @ q @ js '': '' @ toErrorString e))"

definition pauseResumeQueue :: "bool \<Rightarrow> queue_view \<Rightarrow> queue_view" where
  "pauseResumeQueue pause s = send_flight (LeverFlight (qv_queue s) pause) (s\<lparr>qv_queueMutating := True\<rparr>)"

text \<open>After a success the fetch that follows is awaited before the buttons come back.\<close>

definition pause_answered :: "jstring \<Rightarrow> bool \<Rightarrow> axios_error option \<Rightarrow> queue_view \<Rightarrow> queue_view" where
  "pause_answered q pause failure s =
     (let s = ws_landed (LeverFlight q pause) s;
          t = workspace_toast q (if pause then ''pause'' else ''resume'')
                (if pause then js '' paused'' @ dash @ js ''consumers stop dequeuing until resumed.'' else js '' resumed.'') failure;
          s = s\<lparr>qv_toasts := qv_toasts s @ [t]\<rparr>
      in case failure of
           None \<Rightarrow> send_flight (CoreFlight q True) s
         | Some _ \<Rightarrow> s\<lparr>qv_queueMutating := False\<rparr>)"

definition doDeleteQueue :: "queue_view \<Rightarrow> queue_view" where
  "doDeleteQueue s =
     send_flight (DeleteFlight (qv_queue s)) (s\<lparr>qv_confirmDeleteQueue := False, qv_queueMutating := True\<rparr>)"

definition delete_queue_answered :: "jstring \<Rightarrow> axios_error option \<Rightarrow> queue_view \<Rightarrow> queue_view" where
  "delete_queue_answered q failure s =
     (let s = ws_landed (DeleteFlight q) s;
          s = s\<lparr>qv_toasts := qv_toasts s @ [workspace_toast q ''delete'' (js '' deleted.'') failure]\<rparr>
      in case failure of
           None \<Rightarrow> s\<lparr>qv_left := True\<rparr>
         | Some _ \<Rightarrow> s\<lparr>qv_queueMutating := False\<rparr>)"

definition openBulk :: "bulk_target \<Rightarrow> queue_view \<Rightarrow> queue_view" where
  "openBulk t s = s\<lparr>qv_bulk := Some t\<rparr>"

definition onClusterVerb :: "job_verb \<Rightarrow> console_task_state \<Rightarrow> jstring \<Rightarrow> queue_view \<Rightarrow> queue_view" where
  "onClusterVerb v st signature =
     openBulk \<lparr>bt_verb = v, bt_state = st, bt_aql = Some (js ''error~'' @ quoteAqlValue signature)\<rparr>"

definition onPaceRetries :: "queue_view \<Rightarrow> queue_view" where
  "onPaceRetries = openBulk \<lparr>bt_verb = VRun, bt_state = Retry, bt_aql = None\<rparr>"

definition onWholeScopeVerb :: "console_task_state \<Rightarrow> job_verb \<Rightarrow> queue_view \<Rightarrow> queue_view" where
  "onWholeScopeVerb st v = openBulk \<lparr>bt_verb = v, bt_state = st, bt_aql = None\<rparr>"

definition bulk_started :: "queue_view \<Rightarrow> queue_view" where
  "bulk_started s = fetchCore (s\<lparr>qv_bulk := None\<rparr>)"

text \<open>The verb and the scope the bulk dialog is given.\<close>

definition bulk_job :: "queue_view \<Rightarrow> (job_verb \<times> job_scope) option" where
  "bulk_job s = map_option (\<lambda>t. (bt_verb t,
     \<lparr>js_queue = qv_queue s, js_state = state_text (bt_state t), js_q = [], js_meta = [],
      js_aql = (case bt_aql t of Some a \<Rightarrow> a | None \<Rightarrow> [])\<rparr>)) (qv_bulk s)"

subsection \<open>The health strip\<close>

definition strip_fmt :: "int option \<Rightarrow> jstring" where
  "strip_fmt n = (case n of None \<Rightarrow> DASH | Some i \<Rightarrow> if i < 0 then DASH else locale_int i)"

text \<open>A field of the row by the name of a state; \<open>groups\<close> is one too.\<close>

definition row_count :: "fleet_queue_row \<Rightarrow> jstring \<Rightarrow> int option" where
  "row_count r k = map_of
     [(js ''pending'', fq_pending r), (js ''active'', fq_active r), (js ''scheduled'', fq_scheduled r),
      (js ''retry'', fq_retry r), (js ''archived'', fq_archived r), (js ''completed'', fq_completed r),
      (js ''groups'', fq_groups r)] k"

definition strip_count :: "queue_view \<Rightarrow> string \<Rightarrow> int option" where
  "strip_count s k = (case Option.bind (qv_counts s) (\<lambda>c. map_of c (js k)) of
     Some n \<Rightarrow> Some n
   | None \<Rightarrow> Option.bind (qv_fleetRow s) (\<lambda>r. row_count r (js k)))"

definition strip_state :: "(jstring \<Rightarrow> int option) \<Rightarrow> int \<Rightarrow> queue_view \<Rightarrow> jstring list" where
  "strip_state date_parse nowMs s = (case qv_fleetRow s of
     None \<Rightarrow> [DASH]
   | Some r \<Rightarrow>
       if fq_paused r
       then js ''paused'' #
         (case fq_paused_since r of
            Some t \<Rightarrow> if t = [] then [] else (case date_parse t of Some since \<Rightarrow> [humanize (nowMs - since)] | None \<Rightarrow> [])
          | None \<Rightarrow> [])
       else [js ''running''])"

definition strip_oldest :: "queue_view \<Rightarrow> jstring \<times> tone option" where
  "strip_oldest s = (case qv_fleetRow s of
     None \<Rightarrow> (DASH, ageTone None)
   | Some r \<Rightarrow>
       (if fq_oldest_pending_age_ms r > 0 then humanize (fq_oldest_pending_age_ms r) else DASH,
        ageTone (Some (Finite (of_int (fq_oldest_pending_age_ms r))))))"

definition strip_chip :: "string \<Rightarrow> (fleet_queue_row \<Rightarrow> int) \<Rightarrow> queue_view \<Rightarrow> jstring list" where
  "strip_chip label f s = (case qv_fleetRow s of
     None \<Rightarrow> []
   | Some r \<Rightarrow> if f r > 0 then [js label @ js '' '' @ js_of_int (f r)] else [])"

text \<open>Each cell with its label, text and chips.\<close>

definition health_cells :: "(jstring \<Rightarrow> int option) \<Rightarrow> int \<Rightarrow> queue_view \<Rightarrow> (jstring \<times> jstring \<times> jstring list) list" where
  "health_cells date_parse nowMs s =
     [(js ''state'', hd (strip_state date_parse nowMs s), tl (strip_state date_parse nowMs s)),
      (js ''pending'', strip_fmt (strip_count s ''pending''), []),
      (js ''oldest pending'', fst (strip_oldest s), []),
      (js ''latency'', (case qv_fleetRow s of Some r \<Rightarrow> formatLatencyMs (Some (Finite (of_int (fq_latency_ms r)))) | None \<Rightarrow> DASH), []),
      (js ''active'', strip_fmt (strip_count s ''active''), strip_chip ''orphans'' fq_orphan_candidates s),
      (js ''retry'', strip_fmt (strip_count s ''retry''), []),
      (js ''scheduled'', strip_fmt (strip_count s ''scheduled''), strip_chip ''past-due'' fq_past_due_scheduled s),
      (js ''archived'', strip_fmt (strip_count s ''archived''),
        (case strip_count s ''archived'' of Some n \<Rightarrow> if n \<ge> ARCHIVE_CAP then [js ''cap''] else [] | None \<Rightarrow> [])),
      (js ''completed'', strip_fmt (strip_count s ''completed''), []),
      (js ''groups'', strip_fmt (case qv_fleetRow s of Some r \<Rightarrow> Some (fq_groups r) | None \<Rightarrow> strip_count s ''groups''), []),
      (js ''error rate 24h'', (case qv_fleetRow s of Some r \<Rightarrow> formatErrorRate (Some (Finite (fq_error_rate r))) | None \<Rightarrow> DASH), [])]"

datatype lever_button = PauseButton | ResumeButton | DeleteButton

definition strip_paused :: "queue_view \<Rightarrow> bool" where
  "strip_paused s \<longleftrightarrow> (\<exists>r. qv_fleetRow s = Some r \<and> fq_paused r)"

definition lever_buttons :: "bool \<Rightarrow> queue_view \<Rightarrow> lever_button list" where
  "lever_buttons readOnly s =
     (if readOnly then [] else [if strip_paused s then ResumeButton else PauseButton, DeleteButton])"

definition strip_consumers :: "queue_view \<Rightarrow> jstring" where
  "strip_consumers s = (case qv_coverageRow s of
     None \<Rightarrow> DASH
   | Some r \<Rightarrow> js_of_nat (length (cov_consumers r)) @ js '' srv / '' @ js_of_int (cov_total_concurrency r) @ js '' slots'')"

definition consumer_name :: "coverage_consumer \<Rightarrow> jstring" where
  "consumer_name c = cc_host c @ js '':'' @ js_of_int (cc_pid c)"

subsection \<open>The Attention tab\<close>

datatype attention_section = SummarySection "attention_item list" | RetrySection "retry_row list"
  | OrphanSection "task_info list" | PastDueSection "task_info list"

datatype attention_body = AttentionLoading | AttentionHealthy jstring | AttentionShown "(attention_section \<times> bool) list"

definition focusOnSummary ::
  "console_task_state option \<Rightarrow> attention_item list \<Rightarrow> retry_row list \<Rightarrow> task_info list \<Rightarrow> task_info list \<Rightarrow> bool" where
  "focusOnSummary focus items retryRows orphans pastDue \<longleftrightarrow>
     (case focus of None \<Rightarrow> False
      | Some f \<Rightarrow> f \<in> ai_focusState ` set items \<and> \<not> (f = Retry \<and> retryRows \<noteq> []) \<and> \<not> (f = Active \<and> orphans \<noteq> []) \<and>
          \<not> (f = Scheduled \<and> pastDue \<noteq> []))"

text \<open>The sections with their focus ring.\<close>

definition attention_sections ::
  "console_task_state option \<Rightarrow> attention_item list \<Rightarrow> retry_row list \<Rightarrow> task_info list \<Rightarrow> task_info list \<Rightarrow>
   (attention_section \<times> bool) list" where
  "attention_sections focus items retryRows orphans pastDue =
     (if items \<noteq> [] then [(SummarySection items, focusOnSummary focus items retryRows orphans pastDue)] else []) @
     (if retryRows \<noteq> [] then [(RetrySection retryRows, focus = Some Retry)] else []) @
     (if orphans \<noteq> [] then [(OrphanSection orphans, focus = Some Active)] else []) @
     (if pastDue \<noteq> [] then [(PastDueSection pastDue, focus = Some Scheduled)] else [])"

definition attention_body_of :: "(jstring \<Rightarrow> int option) \<Rightarrow> int \<Rightarrow> queue_view \<Rightarrow> attention_body" where
  "attention_body_of date_parse nowMs s =
     (let sections = attention_sections (qv_focus s) (qv_items date_parse nowMs s)
            (upcomingRetries date_parse (qv_retryTasks s) nowMs) (orphanedActives (qv_activeTasks s))
            (pastDueScheduled date_parse (qv_scheduledTasks s) nowMs)
      in if sections = []
         then if \<not> qv_attentionLoaded s then AttentionLoading
              else AttentionHealthy (healthySummary (qv_fleetRow s) (qv_history s) nowMs)
         else AttentionShown sections)"

definition short_id :: "jstring \<Rightarrow> jstring" where
  "short_id i = hd (split_unit 45 i) @ [8230]"

text \<open>A row of the retry table: link, id, attempts, error, countdown.\<close>

definition retry_cells :: "jstring \<Rightarrow> jstring \<Rightarrow> retry_row \<Rightarrow> jstring list" where
  "retry_cells rootp q r =
     (let t = rr_task r
      in [taskDetailsPath rootp q (t_id t), short_id (t_id t), js_of_int (t_retried t) @ js ''/'' @ js_of_int (t_max_retry t),
          if t_error_message t \<noteq> [] then t_error_message t else DASH, formatCountdown (rr_countdownMs r)])"

definition retry_note :: "queue_view \<Rightarrow> nat \<Rightarrow> jstring option" where
  "retry_note s shown =
     (let total = (case Option.bind (qv_counts s) (\<lambda>c. map_of c (js ''retry'')) of Some n \<Rightarrow> n | None \<Rightarrow> int shown)
      in if total > int shown
         then Some (js ''showing the '' @ js_of_nat shown @ js '' soonest of '' @ locale_int total @ js '' retries'') else None)"

text \<open>At most eight of the orphans and of the past-due tasks are listed.\<close>

definition orphan_links :: "jstring \<Rightarrow> jstring \<Rightarrow> task_info list \<Rightarrow> (jstring \<times> jstring) list" where
  "orphan_links rootp q orphans = map (\<lambda>t. (taskDetailsPath rootp q (t_id t), short_id (t_id t))) (take 8 orphans)"

definition orphan_more :: "task_info list \<Rightarrow> jstring" where
  "orphan_more orphans =
     (if length orphans > 8 then js ''+'' @ js_of_nat (length orphans - 8) @ js '' more '' @ [183, 32] else [])"

definition past_due_rows ::
  "(jstring \<Rightarrow> int option) \<Rightarrow> int \<Rightarrow> jstring \<Rightarrow> jstring \<Rightarrow> task_info list \<Rightarrow> (jstring \<times> jstring \<times> jstring) list" where
  "past_due_rows date_parse nowMs rootp q pastDue =
     map (\<lambda>t. (taskDetailsPath rootp q (t_id t), short_id (t_id t),
       js ''overdue '' @ (case date_parse (t_next_process_at t) of Some t' \<Rightarrow> humanize (nowMs - t') | None \<Rightarrow> DASH)))
       (take 8 pastDue)"

subsection \<open>The rail\<close>

definition cluster_width :: "error_cluster list \<Rightarrow> error_cluster \<Rightarrow> int" where
  "cluster_width cs c =
     (let maxCluster = (case cs of d # _ \<Rightarrow> ec_total d | [] \<Rightarrow> 0)
      in if maxCluster > 0 then max 4 (math_round (dbl (dbl (of_int (ec_total c) / of_int maxCluster) * 100))) else 0)"

definition cluster_counts :: "error_cluster \<Rightarrow> jstring" where
  "cluster_counts c = locale_int (ec_total c) @ js '' '' @ [183] @ js '' retry '' @ locale_int (ec_retryCount c) @
     js '' '' @ [183] @ js '' archived '' @ locale_int (ec_archivedCount c)"

text \<open>The buttons of a cluster: the verb and the state each hands to \<open>onClusterVerb\<close>.\<close>

definition cluster_buttons :: "bool \<Rightarrow> error_cluster \<Rightarrow> (job_verb \<times> console_task_state) list" where
  "cluster_buttons readOnly c =
     (if readOnly then []
      else (if ec_retryCount c > 0 \<or> ec_archivedCount c > 0
            then [(VRun, if ec_retryCount c > 0 then Retry else Archived)] else []) @
           (if ec_retryCount c > 0 then [(VArchive, Retry)] else []) @
           (if ec_archivedCount c > 0 then [(VDelete, Archived)] else []))"

datatype cluster_panel = ClustersUnavailable | NoClusters | ClusterRows "error_cluster list"

definition cluster_panel_of :: "queue_view \<Rightarrow> cluster_panel" where
  "cluster_panel_of s =
     (if qv_clustersFailed s then ClustersUnavailable
      else if qv_clusters s = [] then NoClusters else ClusterRows (qv_clusters s))"

definition partial_title :: "queue_view \<Rightarrow> jstring option" where
  "partial_title s =
     (if clustersTruncated s
      then Some (js ''bounded scan stopped early after '' @ locale_int (clustersScanned s) @ js '' tasks'' @ dash @
                 js ''counts are lower bounds'')
      else None)"

definition consumers_caption :: "coverage_row \<Rightarrow> jstring" where
  "consumers_caption r =
     (if cov_status r = js ''starved''
      then js ''strict priority: this queue'' @ [39] @ js ''s low weight can starve behind permanently-busy higher priorities.''
      else if list_ex cc_strict_priority (cov_consumers r)
      then js ''strict priority is on for at least one server'' @ dash @ js ''lower-weight queues can starve.''
      else js ''strict priority off'' @ dash @ js ''no starvation risk from this config.'') @ js '' '' @
     locale_int (cov_total_concurrency r) @ js '' worker slots shared across each server'' @ [39] @ js ''s whole queue map.''"

definition rail_bar_height :: "int \<Rightarrow> int" where
  "rail_bar_height h = max h 2"

datatype retry_panel = RetryUnavailable | NoRetries | RetryBars "(int \<times> bool \<times> jstring) list" jstring

definition retry_caption :: "retry_histogram_view \<Rightarrow> jstring" where
  "retry_caption v =
     locale_int (rv_next5m v) @ js '' tasks fire in the next 5m'' @
     (if rv_stormLabel v \<noteq> [] then dash @ rv_stormLabel v else []) @
     (if rv_pastDue v > 0 then [32, 183, 32] @ locale_int (rv_pastDue v) @ js '' already past due'' else []) @
     (if rv_beyond v > 0 then [32, 183, 32] @ locale_int (rv_beyond v) @ js '' beyond 30m'' else [])"

text \<open>Each bar with its height, whether it is the hot one, and its title.\<close>

definition retry_panel_of :: "(jstring \<Rightarrow> int option) \<Rightarrow> (int \<Rightarrow> int) \<Rightarrow> retry_histogram_response option \<Rightarrow> retry_panel" where
  "retry_panel_of date_parse tz hist = (case (hist, retryHistogramView date_parse tz hist) of
     (Some h, Some v) \<Rightarrow>
       if rv_total v = 0 then NoRetries
       else RetryBars
         (map (\<lambda>(i, b). (rail_bar_height b, int i = rv_hotIndex v,
            bucketLabel h (int i) @ js '': '' @ locale_int (if i < length (rhist_buckets h) then rhist_buckets h ! i else 0) @
            js '' tasks'')) (List.enumerate 0 (rv_bars v)))
         (retry_caption v)
   | _ \<Rightarrow> RetryUnavailable)"

datatype wait_panel = WaitUnavailable | NoBacklog | WaitBars "(int \<times> jstring) list" jstring

definition wait_caption :: "pending_wait_view \<Rightarrow> jstring" where
  "wait_caption v =
     pv_method v @ dash @ js ''pending is a Redis LIST; probes drawn from the head/tail bands ('' @ js_of_int (pv_sampled v) @ js '' of '' @ locale_int (pv_listLen v) @ js ''), not uniform.''"

definition wait_panel_of :: "pending_wait_sample_response option \<Rightarrow> wait_panel" where
  "wait_panel_of sample = (case pendingWaitView sample of
     None \<Rightarrow> WaitUnavailable
   | Some v \<Rightarrow>
       if pv_listLen v = 0 then NoBacklog
       else WaitBars (zip (map rail_bar_height (pv_bars v))
              (map (\<lambda>b. wb_label b @ js '': '' @ js_of_nat (wb_count b) @ js '' sampled'') (pv_buckets v)))
            (wait_caption v))"

definition memory_texts :: "(int \<Rightarrow> jstring) \<Rightarrow> (int \<Rightarrow> jstring) \<Rightarrow> queue_view \<Rightarrow> jstring \<times> jstring \<times> jstring" where
  "memory_texts prettyBytes timeText s =
     (case qv_memoryBytes s of Some b \<Rightarrow> prettyBytes b | None \<Rightarrow> DASH,
      case qv_memorySampledAt s of
        Some t \<Rightarrow> js ''sampled '' @ timeText t
      | None \<Rightarrow> js ''not sampled yet'' @ dash @ js ''MEMORY USAGE runs only on demand'',
      if qv_memSampling s then js ''Sampling'' @ [8230] else js ''Sample now (~2s)'')"

subsection \<open>The focus ring\<close>

text \<open>
  A finding opened from the fleet rings exactly one section when the tab has anything about its state, and none
  otherwise.
\<close>

theorem focus_rings_one_section:
  "length (filter snd (attention_sections focus items retryRows orphans pastDue)) =
    (case focus of None \<Rightarrow> 0
     | Some f \<Rightarrow> if f \<in> ai_focusState ` set items \<or> f = Retry \<and> retryRows \<noteq> [] \<or> f = Active \<and> orphans \<noteq> [] \<or>
          f = Scheduled \<and> pastDue \<noteq> [] then 1 else 0)"
proof (cases focus)
  case None
  then show ?thesis by (simp add: attention_sections_def focusOnSummary_def)
next
  case (Some f)
  then show ?thesis by (cases f; cases "items = []") (simp_all add: attention_sections_def focusOnSummary_def)
qed

subsection \<open>The scope of a cluster verb\<close>

text \<open>C25. A verb of a cluster opens the bulk dialog for its own queue and state with a query that reads back as the one clause
  on the error of the cluster, when the error holds no double quote.
\<close>

theorem cluster_verb_selects_cluster:
  assumes "34 \<notin> set label" "label \<noteq> []"
  shows "\<exists>scope. bulk_job (onClusterVerb v st label s) = Some (v, scope) \<and> js_queue scope = qv_queue s \<and>
    js_state scope = state_text st \<and>
    clauses (js_aql scope) =
      [\<lparr>cl_field = js ''error'', cl_op = js ''~'', cl_value = label, cl_raw = js_aql scope, cl_pos = 0\<rparr>]"
proof -
  have f: "plain_field (js ''error'')" by (simp add: plain_field_def field_char_def field_start_def js_def)
  have o: "js ''~'' \<in> set OPS" by (simp add: op_codes js_def)
  have v: "plain_value (js ''~'') label" using assms by (simp add: plain_value_def js_eq)
  let ?q = "js ''error'' @ js ''~'' @ quoteAqlValue label"
  have q: "js ''error~'' @ quoteAqlValue label = ?q" by (simp add: js_def)
  have "clauses ?q = [clause_of ?q]" using texts_token [OF token_written [OF f o assms(1)]] by (simp add: clauses_texts)
  then show ?thesis using clause_of_written [OF f o v] q by (simp add: bulk_job_def onClusterVerb_def openBulk_def)
qed

text \<open>With one the query falls apart: the clause asks for another text, and the rest becomes free text.\<close>

definition quoted_error :: jstring where
  "quoted_error = js ''a '' @ [34] @ js ''b c'' @ [34] @ js '' d''"

lemma quoted_error_falls_apart:
  "map (\<lambda>c. (cl_field c, cl_value c)) (parseAqlClauses (js ''error~'' @ quoteAqlValue quoted_error)) =
    [(js ''error'', [34] @ js ''a '' @ [34] @ js ''b''), ([], js ''c'' @ [34] @ js '' d'' @ [34])]"
proof -
  have "tokenizeAql (js ''error~'' @ quoteAqlValue quoted_error) =
    [(js ''error~'' @ [34] @ js ''a '' @ [34] @ js ''b'', 0), (js ''c'' @ [34] @ js '' d'' @ [34], 12)]"
    by (simp add: quoted_error_def quoteAqlValue_def is_ws_def js_def tokenizeAql_def blank_def)
  then show ?thesis
    by (simp add: parseAqlClauses_def parse_clause_def FLAGS_def js_def find_op_def op_codes unquote_def starts_with_def
        ends_with_def)
qed

subsection \<open>Runs\<close>

text \<open>What the server may answer about a queue.\<close>

record queue_server =
  sv_core :: "jstring \<Rightarrow> core_answers \<Rightarrow> bool"
  sv_attention :: "jstring \<Rightarrow> attention_answers \<Rightarrow> bool"
  sv_sample :: "jstring \<Rightarrow> get_queue_response \<Rightarrow> bool"

text \<open>
  The callbacks, with the conditions under which their controls are enabled: the confirmation is modal, and the buttons of
  the strip are disabled while \<open>mutating\<close>. \<open>stay\<close> restricts the run to one queue.
\<close>

inductive ws_event :: "queue_server \<Rightarrow> bool \<Rightarrow> bool \<Rightarrow> queue_view \<Rightarrow> queue_view \<Rightarrow> bool"
  for server readOnly stay s where
  navigated: "(stay \<Longrightarrow> q = qv_queue s) \<Longrightarrow> ws_event server readOnly stay s (s\<lparr>qv_queue := q, qv_url := ps\<rparr>)"
| core_tick: "ws_event server readOnly stay s (fetchCore s)"
| attention_tick: "ws_event server readOnly stay s (fetchAttention s)"
| core_landed: "CoreFlight q l \<in> set (qv_out s) \<Longrightarrow> sv_core server q a \<Longrightarrow>
    ws_event server readOnly stay s (core_answered q l a s)"
| attention_landed: "AttentionFlight q \<in> set (qv_out s) \<Longrightarrow> sv_attention server q b \<Longrightarrow>
    ws_event server readOnly stay s (attention_answered q b s)"
| sample_click: "\<not> qv_memSampling s \<Longrightarrow> ws_event server readOnly stay s (sampleQueue True s)"
| sample_landed: "SampleFlight q manual \<in> set (qv_out s) \<Longrightarrow> (\<And>r. answer = Some r \<Longrightarrow> sv_sample server q r) \<Longrightarrow>
    ws_event server readOnly stay s (sample_answered q manual now answer s)"
| lever_click: "(if pause then PauseButton else ResumeButton) \<in> set (lever_buttons readOnly s) \<Longrightarrow>
    \<not> qv_queueMutating s \<Longrightarrow> \<not> qv_confirmDeleteQueue s \<Longrightarrow>
    ws_event server readOnly stay s (pauseResumeQueue pause s)"
| lever_landed: "LeverFlight q pause \<in> set (qv_out s) \<Longrightarrow> ws_event server readOnly stay s (pause_answered q pause failure s)"
| delete_click: "DeleteButton \<in> set (lever_buttons readOnly s) \<Longrightarrow> \<not> qv_queueMutating s \<Longrightarrow>
    ws_event server readOnly stay s (s\<lparr>qv_confirmDeleteQueue := True\<rparr>)"
| delete_cancel: "ws_event server readOnly stay s (s\<lparr>qv_confirmDeleteQueue := False\<rparr>)"
| delete_confirm: "qv_confirmDeleteQueue s \<Longrightarrow> ws_event server readOnly stay s (doDeleteQueue s)"
| delete_landed: "DeleteFlight q \<in> set (qv_out s) \<Longrightarrow> ws_event server readOnly stay s (delete_queue_answered q failure s)"
| cluster_click: "c \<in> set (qv_clusters s) \<Longrightarrow> (v, st) \<in> set (cluster_buttons readOnly c) \<Longrightarrow>
    ws_event server readOnly stay s (onClusterVerb v st (ec_label c) s)"
| pace_click: "\<not> readOnly \<Longrightarrow> ws_event server readOnly stay s (onPaceRetries s)"
| whole_click: "ws_event server readOnly stay s (onWholeScopeVerb st v s)"
| bulk_close: "ws_event server readOnly stay s (s\<lparr>qv_bulk := None\<rparr>)"
| bulk_start: "ws_event server readOnly stay s (bulk_started s)"
| search_typed: "ws_event server readOnly stay s (s\<lparr>qv_searchId := t\<rparr>)"

inductive ws_run :: "queue_server \<Rightarrow> bool \<Rightarrow> bool \<Rightarrow> queue_view \<Rightarrow> bool" for server readOnly stay where
  start: "ws_run server readOnly stay (workspace_commit (queue_view_init q ps))"
| step: "ws_run server readOnly stay s \<Longrightarrow> \<not> qv_left s \<Longrightarrow> ws_event server readOnly stay s s' \<Longrightarrow>
    ws_run server readOnly stay (workspace_commit s')"

primrec flight_queue :: "queue_flight \<Rightarrow> jstring" where
  "flight_queue (CoreFlight q l) = q"
| "flight_queue (AttentionFlight q) = q"
| "flight_queue (SampleFlight q m) = q"
| "flight_queue (LeverFlight q p) = q"
| "flight_queue (DeleteFlight q) = q"

text \<open>A request that changes the queue; and what keeps the buttons disabled: such a request, and the fetch that is awaited
  after a pause or a resume.\<close>

primrec changes_queue :: "queue_flight \<Rightarrow> bool" where
  "changes_queue (CoreFlight q l) = False"
| "changes_queue (AttentionFlight q) = False"
| "changes_queue (SampleFlight q m) = False"
| "changes_queue (LeverFlight q p) = True"
| "changes_queue (DeleteFlight q) = True"

definition holds_levers :: "queue_flight \<Rightarrow> bool" where
  "holds_levers f \<longleftrightarrow> changes_queue f \<or> (\<exists>q. f = CoreFlight q True)"

lemma holds_levers_simps [simp]:
  "holds_levers (CoreFlight q l) = l" "\<not> holds_levers (AttentionFlight q)" "\<not> holds_levers (SampleFlight q m)"
  "holds_levers (LeverFlight q p)" "holds_levers (DeleteFlight q)"
  by (simp_all add: holds_levers_def)

lemmas commit_defs = workspace_commit_def core_effect_def attention_effect_def sample_effect_def fetchCore_def
  fetchAttention_def sampleQueue_def send_flight_def Let_def

lemma commit_mutation:
  "qv_queueMutating (workspace_commit s) = qv_queueMutating s"
  "qv_confirmDeleteQueue (workspace_commit s) = qv_confirmDeleteQueue s"
  "qv_left (workspace_commit s) = qv_left s"
  "filter holds_levers (qv_out (workspace_commit s)) = filter holds_levers (qv_out s)"
  by (simp_all add: commit_defs)

lemma commit_changes: "filter changes_queue (qv_out (workspace_commit s)) = filter changes_queue (qv_out s)"
  by (simp add: commit_defs)

lemma commit_data:
  "qv_queue (workspace_commit s) = qv_queue s" "qv_counts (workspace_commit s) = qv_counts s"
  "qv_fleetRow (workspace_commit s) = qv_fleetRow s" "qv_coverageRow (workspace_commit s) = qv_coverageRow s"
  "qv_retryHist (workspace_commit s) = qv_retryHist s" "qv_waitSample (workspace_commit s) = qv_waitSample s"
  "qv_retryClusters (workspace_commit s) = qv_retryClusters s"
  "qv_archivedClusters (workspace_commit s) = qv_archivedClusters s"
  "qv_retryTasks (workspace_commit s) = qv_retryTasks s" "qv_activeTasks (workspace_commit s) = qv_activeTasks s"
  "qv_scheduledTasks (workspace_commit s) = qv_scheduledTasks s"
  "f \<in> set (qv_out (workspace_commit s)) \<Longrightarrow> f \<in> set (qv_out s) \<or> flight_queue f = qv_queue s"
  "qv_memoryBytes (workspace_commit s) = Some b \<Longrightarrow> qv_memoryBytes s = Some b"
  by (auto simp: commit_defs split: if_splits)

subsection \<open>One change at a time\<close>

definition one_mutation :: "bool \<Rightarrow> queue_view \<Rightarrow> bool" where
  "one_mutation readOnly s \<longleftrightarrow>
     (qv_left s \<or> length (filter holds_levers (qv_out s)) = (if qv_queueMutating s then 1 else 0)) \<and>
     length (filter holds_levers (qv_out s)) \<le> 1 \<and>
     (qv_confirmDeleteQueue s \<longrightarrow> \<not> qv_queueMutating s) \<and>
     (readOnly \<longrightarrow> filter holds_levers (qv_out s) = [] \<and> \<not> qv_confirmDeleteQueue s)"

lemma mutation_removed:
  "f \<in> set xs \<Longrightarrow> holds_levers f \<Longrightarrow> length (filter holds_levers (remove1 f xs)) = length (filter holds_levers xs) - 1"
  "\<not> holds_levers f \<Longrightarrow> filter holds_levers (remove1 f xs) = filter holds_levers xs"
  by (simp_all add: filter_remove1 length_remove1 remove1_idem)

lemma commit_one_mutation: "one_mutation readOnly (workspace_commit s) \<longleftrightarrow> one_mutation readOnly s"
  by (simp add: one_mutation_def commit_mutation)

lemma mutation_here: "f \<in> set xs \<Longrightarrow> holds_levers f \<Longrightarrow> filter holds_levers xs \<noteq> []"
  by (auto simp: filter_empty_conv)

lemma event_one_mutation:
  assumes "one_mutation readOnly s" "\<not> qv_left s" "ws_event server readOnly stay s s'"
  shows "one_mutation readOnly s'"
  using assms(3)
proof cases
  case (core_landed q l a)
  then show ?thesis using assms(1,2) mutation_here [OF core_landed(2)] mutation_removed [of "CoreFlight q l" "qv_out s"]
    by (auto simp: one_mutation_def core_answered_def core_settled_def ws_landed_def Let_def)
next
  case (lever_landed q pause failure)
  then show ?thesis using assms(1,2) mutation_here [OF lever_landed(2)] mutation_removed [of "LeverFlight q pause" "qv_out s"]
    by (cases failure) (auto simp: one_mutation_def pause_answered_def send_flight_def ws_landed_def Let_def split: if_splits)
next
  case (delete_landed q failure)
  then show ?thesis using assms(1,2) mutation_here [OF delete_landed(2)] mutation_removed [of "DeleteFlight q" "qv_out s"]
    by (cases failure) (auto simp: one_mutation_def delete_queue_answered_def ws_landed_def Let_def)
next
  case (sample_landed q manual answer now)
  then have "qv_left s' = qv_left s" "qv_queueMutating s' = qv_queueMutating s"
    "qv_confirmDeleteQueue s' = qv_confirmDeleteQueue s" "filter holds_levers (qv_out s') = filter holds_levers (qv_out s)"
    by (cases answer; simp add: sample_answered_def ws_landed_def Let_def mutation_removed(2))+
  then show ?thesis using assms(1) by (simp add: one_mutation_def)
next
  case (attention_landed q b)
  then show ?thesis using assms(1,2) mutation_removed(2) [of "AttentionFlight q" "qv_out s"]
    by (auto simp: one_mutation_def attention_answered_def ws_landed_def Let_def)
qed (use assms(1,2) in \<open>auto simp: one_mutation_def fetchCore_def fetchAttention_def sampleQueue_def send_flight_def
       pauseResumeQueue_def doDeleteQueue_def onClusterVerb_def onPaceRetries_def onWholeScopeVerb_def openBulk_def
       bulk_started_def lever_buttons_def split: if_splits\<close>)

text \<open>C24. However the operator clicks and navigates and the answers come, at most one pause, resume or delete of a queue is on
  its way; until the screen is left the buttons are disabled exactly while one is, or while the fetch awaited
  after a pause or resume is; and in read-only mode there is none.
\<close>

theorem one_queue_mutation:
  assumes "ws_run server readOnly stay s"
  shows "length (filter changes_queue (qv_out s)) \<le> 1 \<and>
    (qv_left s \<or> (qv_queueMutating s \<longleftrightarrow>
       filter changes_queue (qv_out s) \<noteq> [] \<or> (\<exists>q. CoreFlight q True \<in> set (qv_out s)))) \<and>
    (readOnly \<longrightarrow> filter changes_queue (qv_out s) = [] \<and> \<not> qv_confirmDeleteQueue s)"
proof -
  have one: "one_mutation readOnly s" using assms
  proof induction
    case (start q ps)
    show ?case unfolding commit_one_mutation by (simp add: one_mutation_def queue_view_init_def)
  next
    case (step s s')
    then show ?case unfolding commit_one_mutation by (blast intro: event_one_mutation)
  qed
  have sub: "filter changes_queue (qv_out s) = filter changes_queue (filter holds_levers (qv_out s))"
    by (auto simp: holds_levers_def intro!: filter_cong)
  have len: "length (filter changes_queue (qv_out s)) \<le> length (filter holds_levers (qv_out s))"
    unfolding sub by (rule length_filter_le)
  have held: "filter holds_levers (qv_out s) \<noteq> [] \<longleftrightarrow>
      filter changes_queue (qv_out s) \<noteq> [] \<or> (\<exists>q. CoreFlight q True \<in> set (qv_out s))"
    by (auto simp: filter_empty_conv holds_levers_def)
  have "qv_left s \<or> (qv_queueMutating s \<longleftrightarrow> filter holds_levers (qv_out s) \<noteq> [])"
    using one by (cases "filter holds_levers (qv_out s)") (auto simp: one_mutation_def split: if_splits)
  with one len held show ?thesis by (auto simp: one_mutation_def)
qed

subsection \<open>The data is of the queue\<close>

definition answered_tasks :: "queue_server \<Rightarrow> jstring \<Rightarrow> (attention_answers \<Rightarrow> list_tasks_response option) \<Rightarrow> task_info list \<Rightarrow> bool" where
  "answered_tasks server q part ts \<longleftrightarrow>
     (\<forall>t \<in> set ts. \<exists>a r. sv_attention server q a \<and> part a = Some r \<and> t \<in> set (lt_tasks r))"

lemma answered_tasks_new:
  "sv_attention server q a \<Longrightarrow> answered_tasks server q part ts \<Longrightarrow>
   answered_tasks server q part (case part a of Some r \<Rightarrow> lt_tasks r | None \<Rightarrow> ts)"
  by (auto simp: answered_tasks_def split: option.split)

lemma answered_no_tasks [simp]: "answered_tasks server q part []"
  by (simp add: answered_tasks_def)

lemma all_remove1: "\<forall>x \<in> set xs. P x \<Longrightarrow> \<forall>x \<in> set (remove1 y xs). P x"
  by (auto dest: set_remove1_subset [THEN subsetD])

definition of_queue :: "queue_server \<Rightarrow> queue_view \<Rightarrow> bool" where
  "of_queue server s \<longleftrightarrow> (let q = qv_queue s in
     (\<forall>f \<in> set (qv_out s). flight_queue f = q) \<and>
     (\<forall>c. qv_counts s = Some c \<longrightarrow> (\<exists>a r. sv_core server q a \<and> ca_counts a = Some r \<and> scr_counts r = c)) \<and>
     (\<forall>r. qv_fleetRow s = Some r \<longrightarrow> fq_queue r = q) \<and> (\<forall>r. qv_coverageRow s = Some r \<longrightarrow> cov_queue r = q) \<and>
     (\<forall>g. qv_retryClusters s = Some g \<longrightarrow> (\<exists>a. sv_core server q a \<and> ca_retryGroups a = Some g)) \<and>
     (\<forall>g. qv_archivedClusters s = Some g \<longrightarrow> (\<exists>a. sv_core server q a \<and> ca_archivedGroups a = Some g)) \<and>
     answered_tasks server q aa_active (qv_activeTasks s) \<and>
     answered_tasks server q aa_retry (qv_retryTasks s) \<and>
     answered_tasks server q aa_scheduled (qv_scheduledTasks s) \<and>
     (\<forall>b. qv_memoryBytes s = Some b \<longrightarrow> (\<exists>r. sv_sample server q r \<and> q_memory_usage_bytes (gqr_current r) = b)))"

lemma commit_of_queue: "of_queue server s \<Longrightarrow> of_queue server (workspace_commit s)"
  unfolding of_queue_def Let_def commit_data by (auto dest: commit_data(12,13))

lemma find_named: "List.find (\<lambda>x. f x = q) xs = Some r \<Longrightarrow> f r = q"
  by (auto simp: find_Some_iff)

lemma attention_answered_data:
  "qv_queue (attention_answered q b s) = qv_queue s" "qv_counts (attention_answered q b s) = qv_counts s"
  "qv_fleetRow (attention_answered q b s) = qv_fleetRow s" "qv_coverageRow (attention_answered q b s) = qv_coverageRow s"
  "qv_retryClusters (attention_answered q b s) = qv_retryClusters s"
  "qv_archivedClusters (attention_answered q b s) = qv_archivedClusters s"
  "qv_memoryBytes (attention_answered q b s) = qv_memoryBytes s"
  "qv_out (attention_answered q b s) = remove1 (AttentionFlight q) (qv_out s)"
  "qv_retryTasks (attention_answered q b s) = (case aa_retry b of Some r \<Rightarrow> lt_tasks r | None \<Rightarrow> qv_retryTasks s)"
  "qv_activeTasks (attention_answered q b s) = (case aa_active b of Some r \<Rightarrow> lt_tasks r | None \<Rightarrow> qv_activeTasks s)"
  "qv_scheduledTasks (attention_answered q b s) = (case aa_scheduled b of Some r \<Rightarrow> lt_tasks r | None \<Rightarrow> qv_scheduledTasks s)"
  by (simp_all add: attention_answered_def ws_landed_def Let_def cong: option.case_cong)

lemma event_of_queue:
  assumes "of_queue server s" "ws_event server readOnly True s s'"
  shows "of_queue server s'"
  using assms(2)
proof cases
  case (core_landed q l a)
  then have "q = qv_queue s" using assms(1) by (force simp: of_queue_def Let_def)
  with core_landed assms(1) show ?thesis
    by (auto simp: of_queue_def core_answered_def core_settled_def ws_landed_def Let_def bind_eq_Some_conv
        dest: find_named set_remove1_subset [THEN subsetD] split: option.splits)
next
  case (attention_landed q b)
  then have q: "q = qv_queue s" using assms(1) by (force simp: of_queue_def Let_def)
  show ?thesis
    using assms(1) unfolding of_queue_def Let_def attention_landed(1) attention_answered_data
    by (elim conjE, intro conjI)
      (assumption | rule all_remove1 | rule answered_tasks_new [OF attention_landed(3) [unfolded q]])+
next
  case (sample_landed q manual answer now)
  then have "q = qv_queue s" using assms(1) by (force simp: of_queue_def Let_def)
  with sample_landed assms(1) show ?thesis
    by (cases answer) (auto simp: of_queue_def sample_answered_def ws_landed_def Let_def dest: set_remove1_subset [THEN subsetD])
next
  case (lever_landed q pause failure)
  then have "q = qv_queue s" using assms(1) by (force simp: of_queue_def Let_def)
  with lever_landed assms(1) show ?thesis
    by (cases failure) (auto simp: of_queue_def pause_answered_def send_flight_def ws_landed_def Let_def
        dest: set_remove1_subset [THEN subsetD])
next
  case (delete_landed q failure)
  with assms(1) show ?thesis
    by (cases failure) (auto simp: of_queue_def delete_queue_answered_def ws_landed_def Let_def
        dest: set_remove1_subset [THEN subsetD])
qed (use assms(1) in \<open>auto simp: of_queue_def Let_def fetchCore_def fetchAttention_def sampleQueue_def send_flight_def
       pauseResumeQueue_def doDeleteQueue_def onClusterVerb_def onPaceRetries_def onWholeScopeVerb_def openBulk_def
       bulk_started_def split: if_splits\<close>)

text \<open>In a run that stays with one queue everything shown was answered about that queue.\<close>

theorem workspace_shows_its_queue:
  assumes "ws_run server readOnly True s"
  shows "of_queue server s"
  using assms
proof induction
  case (start q ps)
  show ?case by (rule commit_of_queue) (simp add: of_queue_def queue_view_init_def)
next
  case (step s s')
  then show ?case by (blast intro: commit_of_queue event_of_queue)
qed

subsection \<open>Where the screen falls short\<close>

text \<open>
  The fetches are not numbered and the screen is not remounted: after the operator went on to another queue, a late
  answer puts the row of the queue before into the strip, and its pause state decides which button the queue shown gets.
\<close>

lemma late_core_shows_other_queue:
  assumes "ca_fleet a = Some r" "List.find (\<lambda>x. fq_queue x = old) (fqr_queues r) = Some row"
  shows "let s' = core_answered old l a s in
    qv_queue s' = qv_queue s \<and> qv_fleetRow s' = Some row \<and> fq_queue row = old \<and>
    hd (lever_buttons False s') = (if fq_paused row then ResumeButton else PauseButton) \<and>
    qv_out (pauseResumeQueue False s') = qv_out s' @ [LeverFlight (qv_queue s) False]"
  using assms find_named [OF assms(2)]
  by (auto simp: Let_def core_answered_def core_settled_def ws_landed_def lever_buttons_def strip_paused_def
      pauseResumeQueue_def send_flight_def)

text \<open>
  Nor are the lists of the Attention tab cleared: when those of the next queue cannot be had, the tasks of the queue before
  stay, under the name of the next, and count as loaded.
\<close>

lemma other_queue_tasks_stay:
  "let s' = attention_answered q \<lparr>aa_retry = None, aa_active = None, aa_scheduled = None\<rparr>
     (workspace_commit (s\<lparr>qv_queue := q, qv_url := ps\<rparr>)) in
   qv_queue s' = q \<and> qv_attentionLoaded s' \<and> qv_retryTasks s' = qv_retryTasks s \<and>
   qv_activeTasks s' = qv_activeTasks s \<and> qv_scheduledTasks s' = qv_scheduledTasks s"
  by (simp add: attention_answered_def ws_landed_def commit_data Let_def)

subsection \<open>The properties at concrete inputs\<close>

lemma cluster_verb_selects_cluster_witness:
  "map cl_value (clauses (js_aql (snd (the (bulk_job
     (onClusterVerb VRun Retry (js ''gateway timeout'') (queue_view_init (js ''mail'') []))))))) = [js ''gateway timeout'']"
proof -
  have "34 \<notin> set (js ''gateway timeout'')" "js ''gateway timeout'' \<noteq> []" by (simp_all add: js_def)
  from cluster_verb_selects_cluster [OF this, of VRun Retry "queue_view_init (js ''mail'') []"] show ?thesis by auto
qed

definition mail_opened :: queue_view where
  "mail_opened = workspace_commit (queue_view_init (js ''mail'') [])"

lemma one_queue_mutation_witness:
  "length (filter changes_queue (qv_out (workspace_commit (pauseResumeQueue True mail_opened)))) = 1"
proof -
  let ?server = "\<lparr>sv_core = \<lambda>_ _. True, sv_attention = \<lambda>_ _. True, sv_sample = \<lambda>_ _. True\<rparr>"
  have opened: "qv_fleetRow mail_opened = None" "\<not> qv_queueMutating mail_opened" "\<not> qv_confirmDeleteQueue mail_opened"
    "\<not> qv_left mail_opened"
    by (simp_all add: mail_opened_def commit_data commit_mutation queue_view_init_def)
  have "ws_event ?server False False mail_opened (pauseResumeQueue True mail_opened)"
    by (rule lever_click) (simp_all add: opened lever_buttons_def strip_paused_def)
  moreover have "ws_run ?server False False mail_opened" unfolding mail_opened_def by (rule start)
  ultimately have run: "ws_run ?server False False (workspace_commit (pauseResumeQueue True mail_opened))"
    using opened(4) by (blast intro: step)
  have "qv_queueMutating (workspace_commit (pauseResumeQueue True mail_opened))"
    "\<not> qv_left (workspace_commit (pauseResumeQueue True mail_opened))"
    using opened(4) by (simp_all add: commit_mutation pauseResumeQueue_def send_flight_def)
  with one_queue_mutation [OF run]
  have "length (filter changes_queue (qv_out (workspace_commit (pauseResumeQueue True mail_opened)))) \<le> 1" by blast
  moreover have "filter changes_queue (qv_out (workspace_commit (pauseResumeQueue True mail_opened))) \<noteq> []"
    by (simp add: commit_changes pauseResumeQueue_def send_flight_def)
  ultimately show ?thesis by (metis One_nat_def Suc_leI le_antisym length_greater_0_conv)
qed

end
