(* ===== verification/TaskTables.thy ===== *)
theory TaskTables
  imports ConsoleRows TasksReducer Reducers Workspace Workers Durations JsonText
begin

text \<open>
  The task tables of a queue: \<open>src/ui/src/components/TasksTable.tsx\<close>, which pages, selects and filters, and the seven
  components that hand it a slice of the store and the thunks of their state. Those components give
  \<open>TasksTable\<close> the key of the queue (or group), so each table is of one queue. \<open>toLowerCase\<close> is \<open>low\<close>. The quotient of
  two counts is exact below \<open>2 ^ 53\<close> as far as its ceiling goes.
\<close>

subsection \<open>Verbs and thunks\<close>

text \<open>The buttons of a row, and the verbs for which a table is given a batch thunk and an all thunk.\<close>

definition table_row_verbs :: "console_task_state \<Rightarrow> row_verb list" where
  "table_row_verbs st = (case st of
     Active \<Rightarrow> [RCancel]
   | Pending \<Rightarrow> [RDelete, RArchive]
   | Aggregating \<Rightarrow> [RRun, RArchive, RDelete]
   | Scheduled \<Rightarrow> [RRun, RArchive, RDelete]
   | Retry \<Rightarrow> [RRun, RArchive, RDelete]
   | Archived \<Rightarrow> [RRun, RDelete]
   | Completed \<Rightarrow> [RDelete])"

definition row_begin :: "console_task_state \<Rightarrow> row_verb \<Rightarrow> task_info \<Rightarrow> tasks_action option" where
  "row_begin st v t = (let q = t_queue t; i = t_id t in case (st, v) of
     (Active, RCancel) \<Rightarrow> Some (OnActive (CANCEL_ACTIVE_TASK_BEGIN q i))
   | (Pending, RDelete) \<Rightarrow> Some (OnPending (DELETE_PENDING_TASK_BEGIN q i))
   | (Pending, RArchive) \<Rightarrow> Some (OnPending (ARCHIVE_PENDING_TASK_BEGIN q i))
   | (Aggregating, RRun) \<Rightarrow> Some (OnAggregatingTask (RUN_AGGREGATING_TASK_BEGIN q i))
   | (Aggregating, RArchive) \<Rightarrow> Some (OnAggregatingTask (ARCHIVE_AGGREGATING_TASK_BEGIN q i))
   | (Aggregating, RDelete) \<Rightarrow> Some (OnAggregatingTask (DELETE_AGGREGATING_TASK_BEGIN q i))
   | (Scheduled, RRun) \<Rightarrow> Some (OnScheduledTask (RUN_SCHEDULED_TASK_BEGIN q i))
   | (Scheduled, RArchive) \<Rightarrow> Some (OnScheduledTask (ARCHIVE_SCHEDULED_TASK_BEGIN q i))
   | (Scheduled, RDelete) \<Rightarrow> Some (OnScheduled (DELETE_SCHEDULED_TASK_BEGIN q i))
   | (Retry, RRun) \<Rightarrow> Some (OnRetryTask (RUN_RETRY_TASK_BEGIN q i))
   | (Retry, RArchive) \<Rightarrow> Some (OnRetryTask (ARCHIVE_RETRY_TASK_BEGIN q i))
   | (Retry, RDelete) \<Rightarrow> Some (OnRetry (DELETE_RETRY_TASK_BEGIN q i))
   | (Archived, RRun) \<Rightarrow> Some (OnArchivedTask (RUN_ARCHIVED_TASK_BEGIN q i))
   | (Archived, RDelete) \<Rightarrow> Some (OnArchived (DELETE_ARCHIVED_TASK_BEGIN q i))
   | (Completed, RDelete) \<Rightarrow> Some (OnCompleted (DELETE_COMPLETED_TASK_BEGIN q i))
   | _ \<Rightarrow> None)"

definition batch_begin :: "console_task_state \<Rightarrow> row_verb \<Rightarrow> jstring \<Rightarrow> jstring \<Rightarrow> jstring list \<Rightarrow> tasks_action option" where
  "batch_begin st v q g ids = (case (st, v) of
     (Active, RCancel) \<Rightarrow> Some (OnActive (BATCH_CANCEL_ACTIVE_TASKS_BEGIN q ids))
   | (Pending, RDelete) \<Rightarrow> Some (OnPending (BATCH_DELETE_PENDING_TASKS_BEGIN q ids))
   | (Pending, RArchive) \<Rightarrow> Some (OnPending (BATCH_ARCHIVE_PENDING_TASKS_BEGIN q ids))
   | (Aggregating, RRun) \<Rightarrow> Some (OnAggregating (BATCH_RUN_AGGREGATING_TASKS_BEGIN q g ids))
   | (Aggregating, RArchive) \<Rightarrow> Some (OnAggregating (BATCH_ARCHIVE_AGGREGATING_TASKS_BEGIN q g ids))
   | (Aggregating, RDelete) \<Rightarrow> Some (OnAggregating (BATCH_DELETE_AGGREGATING_TASKS_BEGIN q g ids))
   | (Scheduled, RRun) \<Rightarrow> Some (OnScheduled (BATCH_RUN_SCHEDULED_TASKS_BEGIN q ids))
   | (Scheduled, RArchive) \<Rightarrow> Some (OnScheduled (BATCH_ARCHIVE_SCHEDULED_TASKS_BEGIN q ids))
   | (Scheduled, RDelete) \<Rightarrow> Some (OnScheduled (BATCH_DELETE_SCHEDULED_TASKS_BEGIN q ids))
   | (Retry, RRun) \<Rightarrow> Some (OnRetry (BATCH_RUN_RETRY_TASKS_BEGIN q ids))
   | (Retry, RArchive) \<Rightarrow> Some (OnRetry (BATCH_ARCHIVE_RETRY_TASKS_BEGIN q ids))
   | (Retry, RDelete) \<Rightarrow> Some (OnRetry (BATCH_DELETE_RETRY_TASKS_BEGIN q ids))
   | (Archived, RRun) \<Rightarrow> Some (OnArchived (BATCH_RUN_ARCHIVED_TASKS_BEGIN q ids))
   | (Archived, RDelete) \<Rightarrow> Some (OnArchived (BATCH_DELETE_ARCHIVED_TASKS_BEGIN q ids))
   | (Completed, RDelete) \<Rightarrow> Some (OnCompleted (BATCH_DELETE_COMPLETED_TASKS_BEGIN q ids))
   | _ \<Rightarrow> None)"

definition all_begin :: "console_task_state \<Rightarrow> row_verb \<Rightarrow> jstring \<Rightarrow> jstring \<Rightarrow> tasks_action option" where
  "all_begin st v q g = (case (st, v) of
     (Active, RCancel) \<Rightarrow> Some (OnActive (CANCEL_ALL_ACTIVE_TASKS_BEGIN q))
   | (Pending, RDelete) \<Rightarrow> Some (OnPending (DELETE_ALL_PENDING_TASKS_BEGIN q))
   | (Pending, RArchive) \<Rightarrow> Some (OnPending (ARCHIVE_ALL_PENDING_TASKS_BEGIN q))
   | (Aggregating, RRun) \<Rightarrow> Some (OnAggregating (RUN_ALL_AGGREGATING_TASKS_BEGIN q g))
   | (Aggregating, RArchive) \<Rightarrow> Some (OnAggregating (ARCHIVE_ALL_AGGREGATING_TASKS_BEGIN q g))
   | (Aggregating, RDelete) \<Rightarrow> Some (OnAggregating (DELETE_ALL_AGGREGATING_TASKS_BEGIN q g))
   | (Scheduled, RRun) \<Rightarrow> Some (OnScheduled (RUN_ALL_SCHEDULED_TASKS_BEGIN q))
   | (Scheduled, RArchive) \<Rightarrow> Some (OnScheduled (ARCHIVE_ALL_SCHEDULED_TASKS_BEGIN q))
   | (Scheduled, RDelete) \<Rightarrow> Some (OnScheduled (DELETE_ALL_SCHEDULED_TASKS_BEGIN q))
   | (Retry, RRun) \<Rightarrow> Some (OnRetry (RUN_ALL_RETRY_TASKS_BEGIN q))
   | (Retry, RArchive) \<Rightarrow> Some (OnRetry (ARCHIVE_ALL_RETRY_TASKS_BEGIN q))
   | (Retry, RDelete) \<Rightarrow> Some (OnRetry (DELETE_ALL_RETRY_TASKS_BEGIN q))
   | (Archived, RRun) \<Rightarrow> Some (OnArchived (RUN_ALL_ARCHIVED_TASKS_BEGIN q))
   | (Archived, RDelete) \<Rightarrow> Some (OnArchived (DELETE_ALL_ARCHIVED_TASKS_BEGIN q))
   | (Completed, RDelete) \<Rightarrow> Some (OnCompleted (DELETE_ALL_COMPLETED_TASKS_BEGIN q))
   | _ \<Rightarrow> None)"

primrec table_tab :: "console_task_state \<Rightarrow> tab" where
  "table_tab Pending = PendingTab"
| "table_tab Active = ActiveTab"
| "table_tab Aggregating = AggregatingTab"
| "table_tab Scheduled = ScheduledTab"
| "table_tab Retry = RetryTab"
| "table_tab Archived = ArchivedTab"
| "table_tab Completed = CompletedTab"

subsection \<open>State\<close>

text \<open>\<open>tp_job\<close>: whether \<open>onWholeScopeVerb\<close> is given. \<open>tp_group\<close> is the group of the aggregating table.\<close>

record table_props =
  tp_queue :: jstring
  tp_group :: jstring
  tp_state :: console_task_state
  tp_total :: int
  tp_loading :: bool
  tp_error :: jstring
  tp_tasks :: "task_info list"
  tp_batchPending :: bool
  tp_allPending :: bool
  tp_pageSize :: int
  tp_job :: bool

text \<open>\<open>tt_sent\<close>: what the table dispatched; \<open>tt_awaited\<close>: the batch thunks its handlers wait for.\<close>

record tasks_table =
  tt_page :: int
  tt_selected :: "jstring list"
  tt_filter :: jstring
  tt_confirmDeleteAll :: bool
  tt_polled :: "(int \<times> int) option"
  tt_lists :: "page_options list"
  tt_sent :: "tasks_action list"
  tt_awaited :: nat

definition tasks_table_init :: tasks_table where
  "tasks_table_init =
     \<lparr>tt_page = 0, tt_selected = [], tt_filter = [], tt_confirmDeleteAll = False, tt_polled = None, tt_lists = [],
      tt_sent = [], tt_awaited = 0\<rparr>"

definition fetch_page :: "table_props \<Rightarrow> tasks_table \<Rightarrow> tasks_table" where
  "fetch_page p s = s\<lparr>tt_lists := tt_lists s @ [\<lparr>po_size = Some (tp_pageSize p), po_page = Some (tt_page s + 1)\<rparr>]\<rparr>"

definition table_poll_effect :: "table_props \<Rightarrow> tasks_table \<Rightarrow> tasks_table" where
  "table_poll_effect p s =
     (let k = (tp_pageSize p, tt_page s)
      in if tt_polled s = Some k then s else fetch_page p (s\<lparr>tt_polled := Some k\<rparr>))"

definition total_pages :: "table_props \<Rightarrow> int" where
  "total_pages p = \<lceil>of_int (tp_total p) / of_int (tp_pageSize p) :: rat\<rceil>"

definition clamp_page :: "table_props \<Rightarrow> tasks_table \<Rightarrow> tasks_table" where
  "clamp_page p s =
     (let lastPage = max 0 (total_pages p - 1)
      in if tt_page s > lastPage then s\<lparr>tt_page := lastPage, tt_selected := []\<rparr> else s)"

text \<open>The effects of a commit: the poll, the clamp, and the poll of the page it moved to.\<close>

definition table_commit :: "table_props \<Rightarrow> tasks_table \<Rightarrow> tasks_table" where
  "table_commit p s = table_poll_effect p (clamp_page p (table_poll_effect p s))"

subsection \<open>Rows and selection\<close>

definition visible_tasks :: "(jstring \<Rightarrow> jstring) \<Rightarrow> table_props \<Rightarrow> tasks_table \<Rightarrow> task_info list" where
  "visible_tasks low p s =
     (let needle = trim (tt_filter s)
      in if needle \<noteq> []
         then filter (\<lambda>t. matchesQuery low (t_type t) needle \<or> matchesQuery low (prettifyPayload (t_payload t)) needle) (tp_tasks p)
         else tp_tasks p)"

definition select_all :: "(jstring \<Rightarrow> jstring) \<Rightarrow> table_props \<Rightarrow> bool \<Rightarrow> tasks_table \<Rightarrow> tasks_table" where
  "select_all low p checked s = s\<lparr>tt_selected := (if checked then map t_id (visible_tasks low p s) else [])\<rparr>"

definition select_one :: "jstring \<Rightarrow> bool \<Rightarrow> tasks_table \<Rightarrow> tasks_table" where
  "select_one i checked s =
     s\<lparr>tt_selected := (if checked then tt_selected s @ [i] else filter (\<lambda>x. x \<noteq> i) (tt_selected s))\<rparr>"

definition all_selected :: "(jstring \<Rightarrow> jstring) \<Rightarrow> table_props \<Rightarrow> tasks_table \<Rightarrow> bool" where
  "all_selected low p s \<longleftrightarrow>
     visible_tasks low p s \<noteq> [] \<and> list_all (\<lambda>t. t_id t \<in> set (tt_selected s)) (visible_tasks low p s)"

definition some_selected :: "(jstring \<Rightarrow> jstring) \<Rightarrow> table_props \<Rightarrow> tasks_table \<Rightarrow> bool" where
  "some_selected low p s \<longleftrightarrow> tt_selected s \<noteq> [] \<and> \<not> all_selected low p s"

definition goToPage :: "int \<Rightarrow> tasks_table \<Rightarrow> tasks_table" where
  "goToPage n s = s\<lparr>tt_page := n, tt_selected := []\<rparr>"

definition type_filter :: "jstring \<Rightarrow> tasks_table \<Rightarrow> tasks_table" where
  "type_filter t s = s\<lparr>tt_filter := t, tt_selected := []\<rparr>"

text \<open>Rows per page: the setting changes and the table goes to its first page.\<close>

definition rows_per_page :: "int \<Rightarrow> table_props \<Rightarrow> tasks_table \<Rightarrow> table_props \<times> tasks_table" where
  "rows_per_page n p s = (p\<lparr>tp_pageSize := n\<rparr>, goToPage 0 s)"

subsection \<open>Toolbars\<close>

text \<open>
  The verbs in the order of the selection toolbar, of the job bar and of the bar without jobs; an error is shown in their
  place.
\<close>

definition batch_bar :: "bool \<Rightarrow> table_props \<Rightarrow> tasks_table \<Rightarrow> row_verb list" where
  "batch_bar readOnly p s =
     (if tp_error p \<noteq> [] \<or> tt_selected s = [] \<or> readOnly then []
      else filter (\<lambda>v. v \<in> set (table_row_verbs (tp_state p))) [RDelete, RRun, RArchive, RCancel])"

definition whole_bar_shown :: "bool \<Rightarrow> table_props \<Rightarrow> tasks_table \<Rightarrow> bool" where
  "whole_bar_shown readOnly p s \<longleftrightarrow> tp_error p = [] \<and> tp_total p > 0 \<and> tt_selected s = [] \<and> \<not> readOnly"

definition job_bar :: "bool \<Rightarrow> table_props \<Rightarrow> tasks_table \<Rightarrow> row_verb list" where
  "job_bar readOnly p s =
     (if whole_bar_shown readOnly p s \<and> tp_job p
      then filter (\<lambda>v. v \<in> set (table_row_verbs (tp_state p))) [RRun, RArchive, RCancel, RDelete] else [])"

definition all_bar :: "bool \<Rightarrow> table_props \<Rightarrow> tasks_table \<Rightarrow> row_verb list" where
  "all_bar readOnly p s =
     (if whole_bar_shown readOnly p s \<and> \<not> tp_job p
      then filter (\<lambda>v. v \<in> set (table_row_verbs (tp_state p))) [RDelete, RRun, RArchive, RCancel] else [])"

definition dispatch_opt :: "tasks_action option \<Rightarrow> tasks_table \<Rightarrow> tasks_table" where
  "dispatch_opt a s = (case a of None \<Rightarrow> s | Some x \<Rightarrow> s\<lparr>tt_sent := tt_sent s @ [x]\<rparr>)"

definition batch_click :: "table_props \<Rightarrow> row_verb \<Rightarrow> tasks_table \<Rightarrow> tasks_table" where
  "batch_click p v s =
     (if tp_batchPending p then s
      else dispatch_opt (batch_begin (tp_state p) v (tp_queue p) (tp_group p) (tt_selected s))
             (s\<lparr>tt_awaited := tt_awaited s + 1\<rparr>))"

definition batch_done :: "tasks_table \<Rightarrow> tasks_table" where
  "batch_done s = s\<lparr>tt_awaited := tt_awaited s - 1, tt_selected := []\<rparr>"

text \<open>Deleting all asks first; the other verbs go at once.\<close>

definition all_click :: "table_props \<Rightarrow> row_verb \<Rightarrow> tasks_table \<Rightarrow> tasks_table" where
  "all_click p v s =
     (if tp_allPending p then s
      else if v = RDelete then s\<lparr>tt_confirmDeleteAll := True\<rparr>
      else dispatch_opt (all_begin (tp_state p) v (tp_queue p) (tp_group p)) s)"

definition delete_all_confirmed :: "table_props \<Rightarrow> tasks_table \<Rightarrow> tasks_table" where
  "delete_all_confirmed p s =
     dispatch_opt (all_begin (tp_state p) RDelete (tp_queue p) (tp_group p)) (s\<lparr>tt_confirmDeleteAll := False\<rparr>)"

definition delete_all_closed :: "tasks_table \<Rightarrow> tasks_table" where
  "delete_all_closed s = s\<lparr>tt_confirmDeleteAll := False\<rparr>"

subsection \<open>What is shown\<close>

definition table_columns :: "bool \<Rightarrow> console_task_state \<Rightarrow> (jstring \<times> jstring) list" where
  "table_columns readOnly st =
     [(js ''id'', js ''ID''), (js ''type'', js ''Type''), (js ''payload'', js ''Payload'')] @
     (case st of
        Pending \<Rightarrow> [(js ''queued-for'', js ''Queued For''), (js ''retried'', js ''Retried''), (js ''last-error'', js ''Last Error'')]
      | Active \<Rightarrow> [(js ''status'', js ''Status''), (js ''budget'', js ''Budget '' @ [183] @ js '' elapsed/deadline''),
                   (js ''running-for'', js ''Running'')]
      | Aggregating \<Rightarrow> [(js ''group'', js ''Group'')]
      | Scheduled \<Rightarrow> [(js ''retried'', js ''Retried''), (js ''process-at'', js ''Process At'')]
      | Retry \<Rightarrow> [(js ''retried'', js ''Retried''), (js ''last-error'', js ''Last Error''), (js ''retry-at'', js ''Retry At'')]
      | Archived \<Rightarrow> [(js ''retried'', js ''Retried''), (js ''last-error'', js ''Last Error''), (js ''last-failed'', js ''Last Failed'')]
      | Completed \<Rightarrow> [(js ''completed-at'', js ''Completed At''), (js ''ttl'', js ''Expires In'')]) @
     (if readOnly then [] else [(js ''actions'', js ''Actions'')])"

definition retried_cell :: "task_info \<Rightarrow> jstring" where
  "retried_cell t = js_of_int (t_retried t) @ js ''/'' @ js_of_int (t_max_retry t)"

definition error_text_cell :: "task_info \<Rightarrow> jstring" where
  "error_text_cell t = (if t_error_message t \<noteq> [] then t_error_message t else [8211])"

text \<open>The text of the bar of an active task, and its width in percent.\<close>

definition active_budget_bar :: "rat option \<Rightarrow> jstring \<times> int" where
  "active_budget_bar pct = (case pct of
     None \<Rightarrow> (js ''no deadline'', 0)
   | Some x \<Rightarrow> (js_of_int (math_round (dbl (x * 100))) @ js ''%'', min 100 (math_round (dbl (x * 100)))))"

definition running_cell :: "task_budget \<Rightarrow> jstring" where
  "running_cell b =
     (case tb_elapsedMs b of Some e \<Rightarrow> humanize e | None \<Rightarrow> DASH) @
     (case tb_budgetMs b of Some m \<Rightarrow> js '' / '' @ humanize m | None \<Rightarrow> [])"

definition task_cells ::
  "(jstring \<Rightarrow> int option) \<Rightarrow> int \<Rightarrow> console_task_state \<Rightarrow> task_info \<Rightarrow> jstring list" where
  "task_cells date_parse now st t =
     [uuidPrefix (t_id t), t_type t, prettifyPayload (t_payload t)] @
     (case st of
        Pending \<Rightarrow> [durationSince date_parse now (case t_pending_since t of Some s \<Rightarrow> s | None \<Rightarrow> []), retried_cell t, error_text_cell t]
      | Active \<Rightarrow>
          let b = activeTaskBudget date_parse t now
          in [if t_is_orphaned t then js ''orphaned'' else js ''active'',
              if t_is_orphaned t then js ''no live worker'' else fst (active_budget_bar (tb_pct b)), running_cell b]
      | Aggregating \<Rightarrow> [t_group t]
      | Scheduled \<Rightarrow> [retried_cell t, durationBefore date_parse now (t_next_process_at t)]
      | Retry \<Rightarrow> [retried_cell t, error_text_cell t, durationBefore date_parse now (t_next_process_at t)]
      | Archived \<Rightarrow> [retried_cell t, error_text_cell t, timeAgo date_parse now (t_last_failed_at t)]
      | Completed \<Rightarrow> [timeAgo date_parse now (t_completed_at t),
          if t_ttl_seconds t > 0 then stringifyDuration (durationFromSeconds (t_ttl_seconds t)) else [8211]])"

definition page_range :: "table_props \<Rightarrow> tasks_table \<Rightarrow> jstring" where
  "page_range p s =
     js_of_int (tt_page s * tp_pageSize p + 1) @ [8211] @ js_of_int (min ((tt_page s + 1) * tp_pageSize p) (tp_total p)) @
     js '' of '' @ js_of_int (tp_total p)"

datatype table_body = TableError jstring | TableSkeleton | TableNoMatch jstring | TableEmpty | TableRows "task_info list"

definition table_body_of :: "(jstring \<Rightarrow> jstring) \<Rightarrow> table_props \<Rightarrow> tasks_table \<Rightarrow> table_body" where
  "table_body_of low p s =
     (if tp_error p \<noteq> [] then TableError (tp_error p)
      else let rows = visible_tasks low p s
        in if rows = [] then
             (if tp_loading p then TableSkeleton
              else if trim (tt_filter s) \<noteq> [] then TableNoMatch (tt_filter s) else TableEmpty)
           else TableRows rows)"

subsection \<open>The tables of a state\<close>

text \<open>The props a component takes from its slice; the aggregating table has its group and no job flow.\<close>

definition props_of_slice ::
  "console_task_state \<Rightarrow> jstring \<Rightarrow> jstring \<Rightarrow> int \<Rightarrow> int \<Rightarrow> bool \<Rightarrow> 'z task_slice_scheme \<Rightarrow> table_props" where
  "props_of_slice st q g total_count pageSize job sl =
     \<lparr>tp_queue = q, tp_group = g, tp_state = st, tp_total = total_count, tp_loading = loading sl, tp_error = error sl,
      tp_tasks = map task_info.truncate (data sl), tp_batchPending = batchActionPending sl,
      tp_allPending = allActionPending sl, tp_pageSize = pageSize, tp_job = (job \<and> st \<noteq> Aggregating)\<rparr>"

text \<open>The active table ranks its rows at the time of the last answer.\<close>

definition active_rows :: "(jstring \<Rightarrow> int option) \<Rightarrow> bool \<Rightarrow> int \<Rightarrow> task_info list \<Rightarrow> task_info list" where
  "active_rows date_parse sortByBudget rankedAt tasks =
     (if sortByBudget then sortByBudgetPct date_parse tasks rankedAt else tasks)"

definition active_props :: "(jstring \<Rightarrow> int option) \<Rightarrow> bool \<Rightarrow> int \<Rightarrow> table_props \<Rightarrow> table_props" where
  "active_props date_parse sortByBudget rankedAt p = p\<lparr>tp_tasks := active_rows date_parse sortByBudget rankedAt (tp_tasks p)\<rparr>"

definition currentGroup :: "jstring \<Rightarrow> group_info list \<Rightarrow> jstring" where
  "currentGroup selected groups =
     (if selected \<noteq> [] \<and> selected \<in> g_group ` set groups then selected
      else case groups of g # _ \<Rightarrow> g_group g | [] \<Rightarrow> [])"

datatype group_body = GroupsError jstring | NoGroups | GroupTable jstring int

definition group_body_of :: "jstring \<Rightarrow> jstring \<Rightarrow> group_info list \<Rightarrow> group_body" where
  "group_body_of err selected groups =
     (let g = currentGroup selected groups
      in if err \<noteq> [] then GroupsError err
         else if groups = [] \<or> g = [] then NoGroups
         else GroupTable g (case List.find (\<lambda>x. g_group x = g) groups of Some x \<Rightarrow> g_size x | None \<Rightarrow> 0))"

subsection \<open>The stamp of an observed run\<close>

text \<open>The cache of the module, by queue and id; and one mounted stamp: its key, its state and whether it asked.\<close>

definition STAMP_TTL_MS :: int where "STAMP_TTL_MS = 60000"

type_synonym stamp_cache = "jstring \<Rightarrow> (int \<times> observed_task_response option) option"

definition fresh_stamp :: "int \<Rightarrow> stamp_cache \<Rightarrow> jstring \<Rightarrow> observed_task_response option option" where
  "fresh_stamp now c k = (case c k of
     Some (at_time, v) \<Rightarrow> if now - at_time < STAMP_TTL_MS then Some v else None
   | None \<Rightarrow> None)"

definition stamp_key :: "jstring \<Rightarrow> jstring \<Rightarrow> jstring" where
  "stamp_key q i = q @ [47] @ i"

text \<open>The effect: the value at once, or \<open>None\<close> when a request has to go out; and what its answer leaves in the cache.\<close>

definition stamp_effect :: "int \<Rightarrow> stamp_cache \<Rightarrow> jstring \<Rightarrow> jstring \<Rightarrow> observed_task_response option option" where
  "stamp_effect now c q i = fresh_stamp now c (stamp_key q i)"

definition stamp_answered :: "int \<Rightarrow> jstring \<Rightarrow> jstring \<Rightarrow> observed_task_response option \<Rightarrow> stamp_cache \<Rightarrow> stamp_cache" where
  "stamp_answered now q i answer c = c(stamp_key q i \<mapsto> (now, answer))"

definition stamp_text :: "observed_task_response option \<Rightarrow> jstring option" where
  "stamp_text obs = (case obs of
     Some r \<Rightarrow> if otr_present r
       then map_option (\<lambda>m. js ''last run '' @ stringifyDurationMs (Finite (of_int (os_last_duration_ms m))) @ js '' '' @ [183] @
              js '' observed'') (otr_summary r)
       else None
   | None \<Rightarrow> None)"

subsection \<open>A table acts on its own state\<close>

text \<open>Every verb a table offers on a row, on a selection or on all its tasks has a thunk, and the other verbs have none; whatever it
  dispatches is about its own slice of the store; and outside the aggregating state the verbs are those of the task
  console.\<close>

theorem table_verbs_agree:
  "(row_begin st v t \<noteq> None \<longleftrightarrow> v \<in> set (table_row_verbs st)) \<and>
   (batch_begin st v q g ids \<noteq> None \<longleftrightarrow> v \<in> set (table_row_verbs st)) \<and>
   (all_begin st v q g \<noteq> None \<longleftrightarrow> v \<in> set (table_row_verbs st)) \<and>
   map_option tab_of (row_begin st v t) \<in> {None, Some (table_tab st)} \<and>
   map_option tab_of (batch_begin st v q g ids) \<in> {None, Some (table_tab st)} \<and>
   map_option tab_of (all_begin st v q g) \<in> {None, Some (table_tab st)} \<and>
   (st = Aggregating \<or> table_row_verbs st = map fst (actionFns st) \<and> table_row_verbs st = map fst (batchActionFns st))"
  by (cases st; cases v)
    (simp_all add: table_row_verbs_def row_begin_def batch_begin_def all_begin_def actionFns_def batchActionFns_def)

subsection \<open>Runs\<close>

text \<open>
  The props may change with every answer of the store; here as long as the rows selected are still listed
  (\<open>refresh_keeps_gone_rows\<close> is about the others).
\<close>

inductive table_run :: "(jstring \<Rightarrow> jstring) \<Rightarrow> bool \<Rightarrow> table_props \<Rightarrow> tasks_table \<Rightarrow> bool" for low readOnly where
  table_start: "0 < tp_pageSize p \<Longrightarrow> table_run low readOnly p (table_commit p tasks_table_init)"
| table_refreshed: "table_run low readOnly p s \<Longrightarrow> 0 < tp_pageSize p' \<Longrightarrow>
    set (tt_selected s) \<subseteq> t_id ` set (visible_tasks low p' s) \<Longrightarrow> table_run low readOnly p' (table_commit p' s)"
| table_tick: "table_run low readOnly p s \<Longrightarrow> table_run low readOnly p (fetch_page p s)"
| table_previous: "table_run low readOnly p s \<Longrightarrow> tt_page s \<noteq> 0 \<Longrightarrow>
    table_run low readOnly p (table_commit p (goToPage (tt_page s - 1) s))"
| table_next: "table_run low readOnly p s \<Longrightarrow> tt_page s < total_pages p - 1 \<Longrightarrow>
    table_run low readOnly p (table_commit p (goToPage (tt_page s + 1) s))"
| table_size: "table_run low readOnly p s \<Longrightarrow> n \<in> set rowsPerPageOptions \<Longrightarrow> rows_per_page n p s = (p', s') \<Longrightarrow>
    table_run low readOnly p' (table_commit p' s')"
| table_filter: "table_run low readOnly p s \<Longrightarrow> table_run low readOnly p (table_commit p (type_filter t s))"
| table_all: "table_run low readOnly p s \<Longrightarrow> \<not> readOnly \<Longrightarrow> table_run low readOnly p (table_commit p (select_all low p b s))"
| table_one: "table_run low readOnly p s \<Longrightarrow> \<not> readOnly \<Longrightarrow> t \<in> set (visible_tasks low p s) \<Longrightarrow>
    table_run low readOnly p (table_commit p (select_one (t_id t) b s))"
| table_batch: "table_run low readOnly p s \<Longrightarrow> v \<in> set (batch_bar readOnly p s) \<Longrightarrow>
    table_run low readOnly p (table_commit p (batch_click p v s))"
| table_batch_done: "table_run low readOnly p s \<Longrightarrow> 0 < tt_awaited s \<Longrightarrow>
    table_run low readOnly p (table_commit p (batch_done s))"
| table_whole: "table_run low readOnly p s \<Longrightarrow> v \<in> set (all_bar readOnly p s) \<Longrightarrow>
    table_run low readOnly p (table_commit p (all_click p v s))"
| table_confirmed: "table_run low readOnly p s \<Longrightarrow> tt_confirmDeleteAll s \<Longrightarrow> whole_bar_shown readOnly p s \<Longrightarrow>
    table_run low readOnly p (table_commit p (delete_all_confirmed p s))"
| table_closed: "table_run low readOnly p s \<Longrightarrow> table_run low readOnly p (table_commit p (delete_all_closed s))"

definition table_sane :: "(jstring \<Rightarrow> jstring) \<Rightarrow> bool \<Rightarrow> table_props \<Rightarrow> tasks_table \<Rightarrow> bool" where
  "table_sane low readOnly p s \<longleftrightarrow>
     0 < tp_pageSize p \<and> 0 \<le> tt_page s \<and> set (tt_selected s) \<subseteq> t_id ` set (visible_tasks low p s) \<and>
     (readOnly \<longrightarrow> tt_selected s = [] \<and> tt_sent s = [])"

lemma poll_effect_keeps:
  "tt_page (table_poll_effect p s) = tt_page s" "tt_selected (table_poll_effect p s) = tt_selected s"
  "tt_filter (table_poll_effect p s) = tt_filter s" "tt_sent (table_poll_effect p s) = tt_sent s"
  by (simp_all add: table_poll_effect_def fetch_page_def Let_def)

lemma visible_cong: "tt_filter s = tt_filter s' \<Longrightarrow> visible_tasks low p s = visible_tasks low p s'"
  by (simp add: visible_tasks_def)

lemma commit_page: "tt_page (table_commit p s) = min (tt_page s) (max 0 (total_pages p - 1))"
  by (auto simp: table_commit_def clamp_page_def poll_effect_keeps Let_def)

lemma commit_selected: "tt_selected (table_commit p s) \<in> {tt_selected s, []}"
  by (auto simp: table_commit_def clamp_page_def poll_effect_keeps Let_def)

lemma commit_keeps: "tt_filter (table_commit p s) = tt_filter s" "tt_sent (table_commit p s) = tt_sent s"
  by (simp_all add: table_commit_def clamp_page_def poll_effect_keeps Let_def)

lemma commit_sane: "table_sane low readOnly p s \<Longrightarrow> table_sane low readOnly p (table_commit p s)"
  using commit_selected [of p s] visible_cong [of "table_commit p s" s low p]
  by (auto simp: table_sane_def commit_page commit_keeps)

lemma page_fits: "0 < n \<Longrightarrow> 0 < k \<Longrightarrow> i \<le> max 0 (\<lceil>of_int k / of_int n :: rat\<rceil> - 1) \<Longrightarrow> i * n < k"
proof -
  assume n: "0 < n" and t: "0 < k" and i: "i \<le> max 0 (\<lceil>of_int k / of_int n :: rat\<rceil> - 1)"
  have "0 < (of_int k / of_int n :: rat)" using n t by simp
  then have "i < \<lceil>of_int k / of_int n :: rat\<rceil>" using i by linarith
  then have "of_int i < (of_int k / of_int n :: rat)" by (simp add: less_ceiling_iff)
  then have "of_int i * of_int n < (of_int k :: rat)" using n by (simp add: pos_less_divide_eq)
  then show ?thesis by (metis of_int_less_iff of_int_mult)
qed

definition table_ok :: "(jstring \<Rightarrow> jstring) \<Rightarrow> bool \<Rightarrow> table_props \<Rightarrow> tasks_table \<Rightarrow> bool" where
  "table_ok low readOnly p s \<longleftrightarrow> table_sane low readOnly p s \<and> tt_page s \<le> max 0 (total_pages p - 1)"

lemma commit_ok: "table_sane low readOnly p s \<Longrightarrow> table_ok low readOnly p (table_commit p s)"
  using commit_sane [of low readOnly p s] by (simp add: table_ok_def commit_page)

lemma bars_closed: "v \<in> set (batch_bar readOnly p s) \<Longrightarrow> \<not> readOnly" "v \<in> set (all_bar readOnly p s) \<Longrightarrow> \<not> readOnly"
    "whole_bar_shown readOnly p s \<Longrightarrow> \<not> readOnly"
  by (auto simp: batch_bar_def all_bar_def whole_bar_shown_def split: if_splits)

lemma dispatch_keeps:
  "tt_page (dispatch_opt a s) = tt_page s" "tt_selected (dispatch_opt a s) = tt_selected s"
  "tt_filter (dispatch_opt a s) = tt_filter s"
  by (simp_all add: dispatch_opt_def split: option.split)

text \<open>A handler that leaves page, filter and selection alone, or drops the selection.\<close>

lemma sane_same:
  assumes "table_sane low readOnly p s" "\<not> readOnly \<or> tt_sent s' = tt_sent s" "tt_page s' = tt_page s"
    "tt_filter s' = tt_filter s" "tt_selected s' \<in> {tt_selected s, []}"
  shows "table_sane low readOnly p s'"
  using assms visible_cong [of s' s low p] by (auto simp: table_sane_def)

lemma table_sane_fresh:
  assumes "table_sane low readOnly p s" "tt_sent s' = tt_sent s" "0 \<le> tt_page s'" "tt_selected s' = []" "0 < tp_pageSize p'"
  shows "table_sane low readOnly p' s'"
  using assms by (simp add: table_sane_def)

lemma selecting_keeps:
  "visible_tasks low p (select_one i b s) = visible_tasks low p s" "visible_tasks low p (select_all low p b s) = visible_tasks low p s"
  "set (tt_selected (select_one i b s)) \<subseteq> insert i (set (tt_selected s))"
  "set (tt_selected (select_all low p b s)) \<subseteq> t_id ` set (visible_tasks low p s)"
  "tt_page (select_one i b s) = tt_page s" "tt_page (select_all low p b s) = tt_page s"
  "tt_sent (select_one i b s) = tt_sent s" "tt_sent (select_all low p b s) = tt_sent s"
  by (auto simp: select_one_def select_all_def visible_tasks_def)

lemma sane_selecting:
  assumes "table_sane low readOnly p s" "\<not> readOnly" "visible_tasks low p s' = visible_tasks low p s" "tt_page s' = tt_page s"
    "set (tt_selected s') \<subseteq> t_id ` set (visible_tasks low p s)"
  shows "table_sane low readOnly p s'"
  using assms by (simp add: table_sane_def)

lemma table_run_ok: "table_run low readOnly p s \<Longrightarrow> table_ok low readOnly p s"
proof (induction rule: table_run.induct)
  case (table_start p)
  then show ?case by (intro commit_ok) (simp add: table_sane_def tasks_table_init_def)
next
  case (table_refreshed p s p')
  then show ?case by (intro commit_ok) (simp add: table_sane_def table_ok_def)
next
  case (table_tick p s)
  then show ?case using sane_same [of low readOnly p s "fetch_page p s"] by (simp add: table_ok_def fetch_page_def)
next
  case (table_previous p s)
  then show ?case by (intro commit_ok) (simp add: table_ok_def table_sane_def goToPage_def)
next
  case (table_next p s)
  then show ?case by (intro commit_ok) (simp add: table_ok_def table_sane_def goToPage_def)
next
  case (table_size p s n p' s')
  then show ?case by (intro commit_ok) (auto simp: table_ok_def table_sane_def rows_per_page_def goToPage_def rowsPerPageOptions_def)
next
  case (table_filter p s t)
  then show ?case by (intro commit_ok) (simp add: table_ok_def table_sane_def type_filter_def)
next
  case (table_all p s b)
  then show ?case
    by - (rule commit_ok, rule sane_selecting [of low readOnly p s], simp_all add: table_ok_def selecting_keeps)
next
  case (table_one p s t b)
  then have "t_id t \<in> t_id ` set (visible_tasks low p s)" "set (tt_selected s) \<subseteq> t_id ` set (visible_tasks low p s)"
    by (simp_all add: table_ok_def table_sane_def)
  with selecting_keeps(3) [of "t_id t" b s]
  have "set (tt_selected (select_one (t_id t) b s)) \<subseteq> t_id ` set (visible_tasks low p s)" by blast
  with table_one show ?case
    by - (rule commit_ok, rule sane_selecting [of low readOnly p s], simp_all add: table_ok_def selecting_keeps)
next
  case (table_batch p s v)
  then show ?case
    using bars_closed(1) by - (rule commit_ok, rule sane_same [of low readOnly p s], auto simp: table_ok_def batch_click_def dispatch_keeps)
next
  case (table_batch_done p s)
  then show ?case by - (rule commit_ok, rule sane_same [of low readOnly p s], auto simp: table_ok_def batch_done_def)
next
  case (table_whole p s v)
  then show ?case
    using bars_closed(2) by - (rule commit_ok, rule sane_same [of low readOnly p s], auto simp: table_ok_def all_click_def dispatch_keeps)
next
  case (table_confirmed p s)
  then show ?case
    using bars_closed(3) by - (rule commit_ok, rule sane_same [of low readOnly p s], auto simp: table_ok_def delete_all_confirmed_def dispatch_keeps)
next
  case (table_closed p s)
  then show ?case by - (rule commit_ok, rule sane_same [of low readOnly p s], auto simp: table_ok_def delete_all_closed_def)
qed

text \<open>However the table is used, the rows a batch would act on are on screen, the page exists, and nothing is selected or
  dispatched in read-only mode.\<close>

theorem table_selection_on_screen:
  assumes "table_run low readOnly p s"
  shows "set (tt_selected s) \<subseteq> t_id ` set (visible_tasks low p s) \<and> 0 \<le> tt_page s \<and>
    (tp_total p \<le> 0 \<or> tt_page s * tp_pageSize p < tp_total p) \<and> (\<not> readOnly \<or> tt_selected s = [] \<and> tt_sent s = [])"
proof -
  have "table_ok low readOnly p s" using assms by (rule table_run_ok)
  then have sane: "table_sane low readOnly p s" and page: "tt_page s \<le> max 0 (\<lceil>of_int (tp_total p) / of_int (tp_pageSize p) :: rat\<rceil> - 1)"
    unfolding table_ok_def total_pages_def by blast+
  from page_fits [OF _ _ page] sane have "tp_total p \<le> 0 \<or> tt_page s * tp_pageSize p < tp_total p"
    unfolding table_sane_def by (cases "tp_total p \<le> 0") auto
  with sane show ?thesis unfolding table_sane_def by blast
qed

text \<open>The aggregating table is of a group the server has, with its size, and of the one chosen while that exists.\<close>

theorem aggregating_group_exists:
  assumes "group_body_of err selected groups = GroupTable g n"
  shows "g \<noteq> [] \<and> (\<exists>x \<in> set groups. g_group x = g \<and> g_size x = n) \<and>
    (selected \<in> g_group ` set groups \<and> selected \<noteq> [] \<longrightarrow> g = selected)"
proof -
  have g: "g = currentGroup selected groups" "g \<noteq> []" "groups \<noteq> []"
    using assms by (auto simp: group_body_of_def Let_def split: if_splits)
  then have "g \<in> g_group ` set groups" by (auto simp: currentGroup_def split: if_splits list.splits)
  then obtain x where x: "List.find (\<lambda>y. g_group y = g) groups = Some x"
    by (cases "List.find (\<lambda>y. g_group y = g) groups") (auto simp: find_None_iff)
  then have "n = g_size x" using assms g by (auto simp: group_body_of_def Let_def split: if_splits)
  moreover have "x \<in> set groups \<and> g_group x = g" using x by (auto simp: find_Some_iff)
  ultimately show ?thesis using g by (auto simp: currentGroup_def)
qed

subsection \<open>Where the table falls short\<close>

text \<open>
  An answer that no longer lists a selected row leaves it selected: the toolbar counts it and the next batch names it,
  though it cannot be seen or deselected.
\<close>

lemma refresh_keeps_gone_rows:
  assumes "i \<in> set (tt_selected s)" "i \<notin> t_id ` set (tp_tasks p')" "tt_page s \<le> max 0 (total_pages p' - 1)"
    and "\<not> tp_batchPending p'" "batch_begin (tp_state p') v (tp_queue p') (tp_group p') (tt_selected s) = Some a"
  shows "let s' = table_commit p' s in
    tt_selected s' = tt_selected s \<and> i \<notin> t_id ` set (visible_tasks low p' s') \<and> tt_sent (batch_click p' v s') = tt_sent s @ [a]"
proof -
  have "clamp_page p' t = t" if "tt_page t = tt_page s" for t using assms(3) that by (auto simp: clamp_page_def Let_def)
  then have "tt_selected (table_commit p' s) = tt_selected s" by (simp add: table_commit_def poll_effect_keeps)
  moreover have "i \<notin> t_id ` set (visible_tasks low p' (table_commit p' s))" using assms(2) by (auto simp: visible_tasks_def Let_def)
  ultimately show ?thesis using assms(4,5) by (simp add: Let_def batch_click_def dispatch_opt_def commit_keeps)
qed

text \<open>The end of a batch drops the selection made while it ran.\<close>

lemma batch_end_drops_selection: "tt_selected (batch_done (select_one i True (batch_click p v s))) = []"
  by (simp add: batch_done_def)

subsection \<open>The properties at a concrete input\<close>

definition sample_props :: table_props where
  "sample_props =
     \<lparr>tp_queue = js ''mail'', tp_group = [], tp_state = Retry, tp_total = 45, tp_loading = False, tp_error = [], tp_tasks = [],
      tp_batchPending = False, tp_allPending = False, tp_pageSize = 20, tp_job = True\<rparr>"

lemma table_selection_on_screen_witness:
  "tt_page (table_commit sample_props (goToPage 1 (table_commit sample_props tasks_table_init))) * 20 < 45"
proof -
  let ?s = "table_commit sample_props tasks_table_init"
  have pages: "total_pages sample_props = 3" by (simp add: total_pages_def sample_props_def ceiling_eq_iff)
  have run: "table_run id False sample_props ?s" by (rule table_start) (simp add: sample_props_def)
  have "tt_page ?s = 0" by (simp add: commit_page tasks_table_init_def pages)
  with table_next [OF run] pages have "table_run id False sample_props (table_commit sample_props (goToPage 1 ?s))" by simp
  from table_selection_on_screen [OF this] show ?thesis by (simp add: sample_props_def)
qed

end
