(* ===== verification/Spec2Isabelle.thy ===== *)
theory Spec2Isabelle
  imports Store Selection Keymap JobsFeed Fuzzy Endpoints Errsig Polling FleetEvents Base64 Journey Trends Schedulers
    Workers Hygiene Paths Durations ConsoleRuns BulkModal TaskDrawer OpsView
    SavedViews CommandPalette DirectoryView ErrorsView ServersView SchedulersView HygieneView FleetView
    WorkspaceView TaskTables
begin

text \<open>
  A model of the console of asynqmon, the TypeScript program under \<open>src/ui/src\<close>, with the theorems
  that make its parts correct. The console is a single-page client of the asynqmon server: it keeps a
  store of what the server answered, sends requests for what the operator asks, and writes what it
  shows into the URL and the browser's storage.

  \<^bold>\<open>Conventions.\<close> A JavaScript string is the list of its UTF-16 code units (\<open>Prelude\<close>); an integer
  the server sends is an \<open>int\<close>; an object is a record with the source's fields; \<open>null\<close>, \<open>undefined\<close> and
  a thrown error are \<open>None\<close> of an option or a constructor of their own. Everything runs on the one
  thread of the tab, so a run of the program is a sequence of steps, each a whole callback. Names are
  the source's, with a suffix or prefix where they clash.

  \<^bold>\<open>The store.\<close>
  \<^item> \<open>Api\<close>: the response types of \<open>api.ts\<close> and the error texts of \<open>utils.ts\<close>.
  \<^item> \<open>Requests\<close>: the request each endpoint of \<open>api.ts\<close> builds, with \<open>encodeURIComponent\<close>. The answer is
    what a parameter \<open>send\<close> returns for the request; \<open>None\<close> stands for building it throwing.
  \<^item> \<open>TasksActions\<close>, \<open>ConsoleActions\<close>: the actions and thunks of \<open>actions/*.ts\<close>. A thunk is the list of
    actions it dispatches, as a function of the state its guards read and of the answer.
  \<^item> \<open>TasksReducer\<close>, \<open>QueuesReducer\<close>, \<open>Reducers\<close>: the reducers of \<open>reducers/*.ts\<close>, case by case.
  \<^item> \<open>Interfaces\<close>: the contracts \<open>machine\<close> (a reducer keeps an invariant) and \<open>request_system\<close> (thunks in
    flight over a reducer, in any interleaving, where the answer to a request that is no longer the newest of
    its kind may be dropped by its thunk).
  \<^item> \<open>TasksRequests\<close>: the task tables under overlapping requests: a busy flag is covered by a request in
    flight (but for the batch and all flags of the aggregating table, whose answers a change of group makes the
    reducer ignore), a list answer that reaches the store is the newest and is what the table shows, a mutation
    removes exactly what the server reports, and one that fails alone rolls back.
  \<^item> \<open>Store\<close>: \<open>store.ts\<close> and \<open>localStorage.ts\<close>: the root reducer, the error middleware, the debounced
    save of the settings and what a reload restores.

  \<^bold>\<open>The query and the URL.\<close>
  \<^item> \<open>Aql\<close>: \<open>lib/aql.ts\<close>. The editors of the query text see it through the contract \<open>token_text\<close>
    (taking the tokens of glued tokens gives them back), which the tokenizer satisfies.
  \<^item> \<open>Numbers\<close>: \<open>Number(s)\<close>, with the rounding to a double.
  \<^item> \<open>UrlState\<close>: \<open>lib/urlstate.ts\<close> over the contract \<open>search_params\<close> of a \<open>URLSearchParams\<close> object.
  \<^item> \<open>TimeChips\<close>: \<open>lib/timechips.ts\<close>, with \<open>toISOString\<close>.
  \<^item> \<open>Errsig\<close>: \<open>lib/errsig.ts\<close>: the scope written for an error signature is read back by \<open>Aql\<close> as its clauses.
  \<^item> \<open>Fleet\<close>: \<open>lib/fleet.ts\<close>: the link a finding of the fleet screen opens.

  \<^bold>\<open>Operators at work.\<close>
  \<^item> \<open>Selection\<close>: \<open>lib/selection.ts\<close> and the calls of \<open>runSelectionVerb\<close>: grouping refines its
    specification, and the worker pool is bounded and ends, whatever the order of settlements.
  \<^item> \<open>BulkJob\<close>: \<open>lib/bulkjob.ts\<close>: the gate of the confirm button, the texts, the progress and its estimates.
  \<^item> \<open>Enqueue\<close>: \<open>lib/enqueue.ts\<close>: the clone form; a draft without messages is sent whole and within the
    server's bounds, except for the header name \<open>__proto__\<close>.
  \<^item> \<open>Metadata\<close>: \<open>lib/metadata.ts\<close> and \<open>lib/correlation.ts\<close>: the chips read from payloads and the flow of a
    correlation id.
  \<^item> \<open>Workspace\<close>: \<open>lib/workspace.ts\<close>: the tab of a queue, the order of its active tasks, the anomalies it
    shows, its histograms and error clusters.
  \<^item> \<open>Fuzzy\<close>: \<open>lib/fuzzy.ts\<close>: the palette's matcher finds exactly the subsequences.
  \<^item> \<open>Refcount\<close>: the contract of a shared resource, provided by
    \<open>Keymap\<close> (\<open>lib/keymap.ts\<close>, the overlay mute) and
    \<open>JobsFeed\<close> (\<open>hooks/useJobsEvents.ts\<close>, the event stream of a tab, and \<open>hooks/useJobProgress.ts\<close>).

  \<^item> \<open>Palette\<close>: \<open>lib/palette.ts\<close> and \<open>lib/filter.ts\<close>: the task id in a pasted text, the verbs of a state.
  \<^item> \<open>Paths\<close>: \<open>paths.ts\<close>: the routes and the links into them.

  \<^bold>\<open>The task console\<close>, \<open>views/TasksGlobalView.tsx\<close>.
  \<^item> \<open>ConsoleRows\<close>: the verbs of a row, of a batch and of the whole scope, the clauses a click composes, the merged
    rows, the selection and the keys.
  \<^item> \<open>TasksConsole\<close>: the state of the view, one definition per effect, request, answer and handler; \<open>render\<close>
    is one commit with its effects in order, \<open>console_run\<close> any interleaving of commits, clicks, ticks and answers.
  \<^item> \<open>ConsoleRuns\<close>: the rows answer the filter above them in every run in which no action settles under another
    filter, and what goes wrong when one does, and with a late continuation, a stale total and a change of page.

  \<^item> \<open>TaskDrawer\<close>: \<open>components/TaskDrawer.tsx\<close>: the task that is shown and acted on, whatever answers come late; the
    lifecycle strip, the keys and the Flow tab, which never fills.
  \<^item> \<open>BulkModal\<close>: \<open>components/BulkJobModal.tsx\<close>: from the preview job to the confirmed execution.

  \<^item> \<open>OpsView\<close>: \<open>views/OpsView.tsx\<close>: the rows merged from the list and the feed, the panel of the expanded job and
    its verification, and what a late answer or a switch of rows does to it.
  \<^item> \<open>SavedViews\<close>: \<open>components/SaveViewModal.tsx\<close> and the link of a saved view: the console it opens is the one saved.
  \<^item> \<open>CommandPalette\<close>: \<open>components/CommandPalette.tsx\<close>: entries, highlight and keys over the matcher of \<open>Fuzzy\<close> and the
    texts of \<open>Palette\<close>, the lookup of a pasted task id, and the verbs handed to the bulk dialog.

  \<^bold>\<open>Fetched screens.\<close>
  \<^item> \<open>FetchViews\<close>: the contract \<open>latest_only\<close> of a screen that fetches under numbers and applies only the newest answer; every
    screen below interprets it on its own state, and its property rests on the facts of the interpretation.
  \<^item> \<open>DirectoryView\<close>: \<open>views/QueuesDirectoryView.tsx\<close>, with the freeze of \<open>Frozen\<close> and the URL of \<open>UrlState\<close>.
  \<^item> \<open>ErrorsView\<close>: \<open>views/ErrorsView.tsx\<close>: list, selection, detail and the verbs scoped by \<open>Errsig\<close>.
  \<^item> \<open>ServersView\<close>: \<open>views/ServersView.tsx\<close>: two chained fetches, the rows over \<open>Workers\<close>.
  \<^item> \<open>SchedulersView\<close>: \<open>views/SchedulersView.tsx\<close>: entries over \<open>Schedulers\<close>, outcome trace, Run now, the console's own schedules.
  \<^item> \<open>HygieneView\<close>: \<open>views/HygieneView.tsx\<close>: cards, schedule editor, reports over \<open>Hygiene\<close>.
  \<^item> \<open>WorkspaceView\<close>: \<open>views/TasksView.tsx\<close> and \<open>components/workspace/\<close> over \<open>Workspace\<close>: a queue's fetches, levers, bulk
    verbs, strip, Attention tab and rail.
  \<^item> \<open>FleetView\<close>: \<open>views/FleetView.tsx\<close> over \<open>FleetEvents\<close>: the batch of series, tiles, rail, marker button, failure pulse.

  \<^item> \<open>TaskTables\<close>: \<open>components/TasksTable.tsx\<close> and the seven tables of a state over it, on slices of the store: the
    selection is of rows on screen and the page exists, verbs and thunks agree, and the selection a refresh leaves behind.

  \<^bold>\<open>Single screens.\<close>
  \<^item> \<open>Schedulers\<close>, \<open>Workers\<close>, \<open>Hygiene\<close>: \<open>lib/schedulers.ts\<close>, \<open>lib/workers.ts\<close> and \<open>lib/hygiene.ts\<close>.
  \<^item> \<open>Journey\<close>: \<open>lib/journey.ts\<close>: the states and edges a task's fields prove.
  \<^item> \<open>Trends\<close>: \<open>lib/series.ts\<close>: the fit and the projection, with every operation rounded to a double
    (\<open>Doubles\<close> has the facts on the rounding).
  \<^item> \<open>JsonText\<close>, \<open>Base64\<close>: how a payload is shown: \<open>JSON.stringify\<close>, \<open>prettifyPayload\<close> and \<open>lib/base64.ts\<close>.
  \<^item> \<open>Durations\<close>: the duration and timestamp texts of \<open>utils.ts\<close>.

  \<^bold>\<open>Data under the eyes of the operator.\<close>
  \<^item> \<open>Polling\<close>: \<open>hooks/index.tsx\<close> and \<open>hooks/useFeatures.ts\<close>: the poll interval as an inductive run of ticks,
    visibility changes and answers, and the guard against answers out of order.
  \<^item> \<open>FleetEvents\<close>: \<open>hooks/useFleetEvents.ts\<close>, as a run of effects, frames, errors, timers and answers:
    one source at a time, and what it gets wrong when paused and when an answer is late.
  \<^item> \<open>Frozen\<close>: \<open>lib/frozen.ts\<close> and \<open>hooks/useFrozenData.ts\<close>, a refinement of the rows shown and
    the answers that arrived since they were frozen.

  \<^bold>\<open>The wire and the language.\<close>
  \<^item> \<open>ApiConsole\<close>: the response types of \<open>api.ts\<close> and \<open>api-*.ts\<close> that only components read. An optional
    field is an \<open>option\<close>.
  \<^item> \<open>Endpoints\<close>: the requests only components make, with their query strings. The pages a
    component lists carry the same filter in each of its requests.
  \<^item> \<open>JsSort\<close>: \<open>Array.prototype.sort\<close> as stable insertion. The contracts \<open>comparator\<close> and \<open>stable_comparator\<close>
    say what a comparison function must satisfy for the result to be the sort by a key; each comparison
    function of the program interprets one of them.
  \<^item> \<open>Json\<close>: \<open>JSON.parse\<close> as a tokenizer and a stack machine, with the proof that it reads back what is written.
  \<^item> \<open>Formats\<close>: \<open>Math.round\<close>, \<open>toFixed\<close>, \<open>toLocaleString\<close>, \<open>String(number)\<close> on rationals that are doubles, and
    \<open>humanizeMs\<close>.

  \<^bold>\<open>Bounds.\<close> No definition uses fuel: every recursion is structural or has a termination proof.
  Integers are unbounded in the model where the program's stay below \<open>2 ^ 53\<close>; where a value can come
  from outside (the page number of a URL) the bound is a hypothesis.

  \<^bold>\<open>Parameters.\<close> \<open>Date.parse\<close>, \<open>localeCompare\<close>, \<open>toLowerCase\<close>, the time zone, whether a code point is Unicode
  punctuation, the date pattern of \<open>dayjs\<close>, \<open>window.ROOT_PATH\<close> and the \<open>query-string\<close> package are arguments of the
  definitions that use them; what a theorem assumes of them stands in its statement.

  \<^bold>\<open>Not modelled.\<close> The markup of the React components under \<open>views\<close> and \<open>components\<close>; the state of the views
  and components not named above (the settings, Redis and metrics screens, the forms'
  widgets), whose data and texts are modelled where a library computes them; of the task console the text typed and not
  yet written into the URL and the dialogs that are only shown and hidden; the Go server, which the console sees as the
  answers to its requests. What React does between a dispatch and a render is outside the model.
\<close>

end
